(* ===== verification/Prelude.thy ===== *)
theory Prelude
  imports Main "HOL-Library.Word" "HOL-Library.Char_ord" "HOL-Library.List_Lexorder"
    "HOL-Library.Sublist" "HOL-Library.Code_Target_Nat"
begin

text \<open>
  Shared vocabulary of the development: the widths of the Rust integers, saturating
  arithmetic, the \<open>Result\<close> type as a sum, Rust's byte-level string routines (\<open>str::trim\<close>,
  ASCII case conversion, \<open>split\<close>, decimal formatting) and ordered maps (\<open>BTreeMap\<close> as an
  association list kept sorted by key).  A Rust \<open>String\<close> is its list of UTF-8 bytes.
\<close>

type_synonym u8 = "8 word"
type_synonym u16 = "16 word"
type_synonym u32 = "32 word"
type_synonym u64 = "64 word"

named_theorems sat_nat \<open>saturating word arithmetic read through unat\<close>
named_theorems res_simps \<open>sequencing of fallible operations\<close>
named_theorems str_eval \<open>definitions of the string routines, for evaluation\<close>


section \<open>Saturating arithmetic\<close>

definition sat_add :: "'a::len word \<Rightarrow> 'a word \<Rightarrow> 'a word" where
  "sat_add a b = (if unat a + unat b < 2 ^ LENGTH('a) then a + b else - 1)"

definition sat_sub :: "'a::len word \<Rightarrow> 'a word \<Rightarrow> 'a word" where
  "sat_sub a b = (if b \<le> a then a - b else 0)"

definition sat_mul :: "'a::len word \<Rightarrow> 'a word \<Rightarrow> 'a word" where
  "sat_mul a b = (if unat a * unat b < 2 ^ LENGTH('a) then a * b else - 1)"

lemma unat_max_word: "unat (- 1 :: 'a::len word) = 2 ^ LENGTH('a) - 1"
proof -
  have "unat (- 1 :: 'a word) = nat ((2::int) ^ LENGTH('a) - 1)"
    by (simp add: unsigned_minus_1_eq_mask mask_eq_exp_minus_1 nat_diff_distrib nat_power_eq)
  then show ?thesis
    by (simp add: nat_diff_distrib nat_power_eq)
qed

lemma max_word_iff: "(a :: 'a::len word) = - 1 \<longleftrightarrow> unat a = 2 ^ LENGTH('a) - 1"
  unfolding word_unat_eq_iff unat_max_word ..

lemma unat_lt_64: "unat (a :: u64) < 18446744073709551616"
  using unsigned_less [of a] by simp

lemma unat_ucast_widen:
  "LENGTH('a::len) \<le> LENGTH('b::len) \<Longrightarrow> unat (ucast (w :: 'a word) :: 'b word) = unat w"
proof -
  assume "LENGTH('a) \<le> LENGTH('b)"
  then have "(2::nat) ^ LENGTH('a) \<le> 2 ^ LENGTH('b)" by (simp add: power_increasing)
  then have "unat w < 2 ^ LENGTH('b)" using unsigned_less [of w] by (rule order_less_le_trans [rotated])
  then show ?thesis by (simp add: unsigned_ucast_eq take_bit_nat_eq_self)
qed

lemma unat_sat_add [sat_nat]:
  "unat (sat_add a b :: 'a::len word) = min (unat a + unat b) (2 ^ LENGTH('a) - 1)"
  by (auto simp: sat_add_def unat_max_word unat_word_ariths min_def)

lemma unat_sat_sub [sat_nat]: "unat (sat_sub a b) = unat a - unat b"
  by (simp add: sat_sub_def unat_sub word_le_nat_alt)

lemma unat_sat_mul [sat_nat]:
  "unat (sat_mul a b :: 'a::len word) = min (unat a * unat b) (2 ^ LENGTH('a) - 1)"
proof (cases "unat a * unat b < 2 ^ LENGTH('a)")
  case True
  then show ?thesis by (simp add: sat_mul_def unat_word_ariths)
next
  case False
  then have "2 ^ LENGTH('a) - 1 \<le> unat a * unat b" by simp
  then show ?thesis using False by (simp add: sat_mul_def unat_max_word min_absorb2)
qed

lemma sat_add_zero [simp]: "sat_add a 0 = a" "sat_add 0 a = a"
  using unsigned_less [of a] by (auto simp: sat_add_def)

lemma sat_sub_zero [simp]: "sat_sub a 0 = a"
  by (simp add: sat_sub_def)

lemma sat_sub_self [simp]: "sat_sub a a = 0"
  by (simp add: sat_sub_def)

lemma sat_sub_le: "sat_sub a b \<le> a"
  by (simp add: word_le_nat_alt sat_nat)

lemma sat_add_ge: "(a :: 'a::len word) \<le> sat_add a b"
proof -
  have "unat a < 2 ^ LENGTH('a)" by (rule unsigned_less)
  then have "unat a \<le> 2 ^ LENGTH('a) - 1" by linarith
  then show ?thesis by (simp add: word_le_nat_alt sat_nat)
qed

lemma sat_sub_sat_add: "unat a + unat b < 2 ^ LENGTH('a) \<Longrightarrow> sat_sub (sat_add a b) b = (a :: 'a::len word)"
  by (rule word_unat_eq_iff [THEN iffD2]) (auto simp: sat_nat)

lemma numeral_le_one_word [simp]:
  "(numeral n :: 'a::len word) \<le> 1 \<longleftrightarrow> unat (numeral n :: 'a word) \<le> 1"
  by (simp add: word_le_nat_alt)

lemma unat_div_word: "unat (a div b :: 'a::len word) = unat a div unat b"
  by (rule unat_div)


section \<open>Fallible operations\<close>

text \<open>\<open>Result<T, E>\<close> is a sum with the error on the left; \<open>rbind\<close> is the \<open>?\<close> operator.\<close>

definition rbind :: "'e + 'a \<Rightarrow> ('a \<Rightarrow> 'e + 'b) \<Rightarrow> 'e + 'b" where
  "rbind m k = (case m of Inl e \<Rightarrow> Inl e | Inr x \<Rightarrow> k x)"

definition is_ok :: "'e + 'a \<Rightarrow> bool" where
  "is_ok r = (case r of Inl _ \<Rightarrow> False | Inr _ \<Rightarrow> True)"

lemma rbind_simps [simp, res_simps]:
  "rbind (Inl e) k = Inl e"
  "rbind (Inr x) k = k x"
  by (simp_all add: rbind_def)

lemma is_ok_simps [simp, res_simps]:
  "\<not> is_ok (Inl e)"
  "is_ok (Inr x)"
  by (simp_all add: is_ok_def)

lemma rbind_Inr_iff [res_simps]: "rbind m k = Inr y \<longleftrightarrow> (\<exists>x. m = Inr x \<and> k x = Inr y)"
  by (cases m) auto

lemma rbind_Inl_iff [res_simps]:
  "rbind m k = Inl e \<longleftrightarrow> m = Inl e \<or> (\<exists>x. m = Inr x \<and> k x = Inl e)"
  by (cases m) auto

lemma is_ok_iff: "is_ok r \<longleftrightarrow> (\<exists>x. r = Inr x)"
  by (cases r) auto

fun rmapM :: "('a \<Rightarrow> 'e + 'b) \<Rightarrow> 'a list \<Rightarrow> 'e + 'b list" where
  "rmapM f [] = Inr []"
| "rmapM f (x # xs) = rbind (f x) (\<lambda>y. rbind (rmapM f xs) (\<lambda>ys. Inr (y # ys)))"

lemma rmapM_Inr_iff: "rmapM f xs = Inr ys \<longleftrightarrow> list_all2 (\<lambda>x y. f x = Inr y) xs ys"
  by (induction xs arbitrary: ys) (auto simp: rbind_Inr_iff list_all2_Cons1)


section \<open>Strings as UTF-8 byte lists\<close>

definition chr :: "nat \<Rightarrow> char" where
  "chr n = char_of n"

definition code :: "char \<Rightarrow> nat" where
  "code c = of_char c"

text \<open>The UTF-8 encodings of the scalars with the Unicode property \<open>White_Space\<close>.\<close>

definition ws_table :: "string list" where
  "ws_table =
    [[CHR 0x09], [CHR 0x0A], [CHR 0x0B], [CHR 0x0C], [CHR 0x0D], [CHR 0x20],
     [CHR 0xC2, CHR 0x85], [CHR 0xC2, CHR 0xA0], [CHR 0xE1, CHR 0x9A, CHR 0x80],
     [CHR 0xE2, CHR 0x80, CHR 0x80], [CHR 0xE2, CHR 0x80, CHR 0x81],
     [CHR 0xE2, CHR 0x80, CHR 0x82], [CHR 0xE2, CHR 0x80, CHR 0x83],
     [CHR 0xE2, CHR 0x80, CHR 0x84], [CHR 0xE2, CHR 0x80, CHR 0x85],
     [CHR 0xE2, CHR 0x80, CHR 0x86], [CHR 0xE2, CHR 0x80, CHR 0x87],
     [CHR 0xE2, CHR 0x80, CHR 0x88], [CHR 0xE2, CHR 0x80, CHR 0x89],
     [CHR 0xE2, CHR 0x80, CHR 0x8A], [CHR 0xE2, CHR 0x80, CHR 0xA8],
     [CHR 0xE2, CHR 0x80, CHR 0xA9], [CHR 0xE2, CHR 0x80, CHR 0xAF],
     [CHR 0xE2, CHR 0x81, CHR 0x9F], [CHR 0xE3, CHR 0x80, CHR 0x80]]"

function strip_any :: "string list \<Rightarrow> string \<Rightarrow> string" where
  "strip_any t s =
     (case find (\<lambda>w. w \<noteq> [] \<and> prefix w s) t of
        None \<Rightarrow> s
      | Some w \<Rightarrow> strip_any t (drop (length w) s))"
  by pat_completeness auto
termination
proof (relation "measure (\<lambda>(t, s). length s)", goal_cases)
  case (2 t s w)
  then have "w \<noteq> []" "prefix w s" by (auto simp: find_Some_iff)
  then show ?case by (cases s) auto
qed simp

declare strip_any.simps [simp del]

definition trim_start :: "string \<Rightarrow> string" where
  "trim_start s = strip_any ws_table s"

definition trim_end :: "string \<Rightarrow> string" where
  "trim_end s = rev (strip_any (map rev ws_table) (rev s))"

definition trim :: "string \<Rightarrow> string" where
  "trim s = trim_end (trim_start s)"

definition no_lead :: "string list \<Rightarrow> string \<Rightarrow> bool" where
  "no_lead t s = (find (\<lambda>w. w \<noteq> [] \<and> prefix w s) t = None)"

lemma strip_any_no_lead: "no_lead t (strip_any t s)"
  by (induction t s rule: strip_any.induct)
     (subst strip_any.simps, auto simp: no_lead_def split: option.splits)

lemma strip_any_id: "no_lead t s \<Longrightarrow> strip_any t s = s"
  by (subst strip_any.simps) (simp add: no_lead_def)

lemma strip_any_suffix: "suffix (strip_any t s) s"
proof (induction t s rule: strip_any.induct)
  case (1 t s)
  show ?case
  proof (cases "find (\<lambda>w. w \<noteq> [] \<and> prefix w s) t")
    case None
    then show ?thesis by (subst strip_any.simps) simp
  next
    case (Some w)
    then have "suffix (strip_any t (drop (length w) s)) (drop (length w) s)" by (rule 1)
    then show ?thesis
      using Some by (subst strip_any.simps) (auto intro: suffix_order.trans suffix_drop)
  qed
qed

lemma no_lead_prefix: "no_lead t s \<Longrightarrow> prefix p s \<Longrightarrow> no_lead t p"
  by (auto simp: no_lead_def find_None_iff dest: prefix_order.trans)

lemma trim_trim [simp]: "trim (trim s) = trim s"
proof -
  let ?a = "trim_start s"
  have a: "no_lead ws_table ?a" by (simp add: trim_start_def strip_any_no_lead)
  have "prefix (trim_end ?a) ?a"
    using strip_any_suffix [of "map rev ws_table" "rev ?a"]
    by (simp add: trim_end_def suffix_to_prefix)
  then have "no_lead ws_table (trim s)"
    using a by (auto simp: trim_def intro: no_lead_prefix)
  then have "trim_start (trim s) = trim s" by (simp add: trim_start_def strip_any_id)
  moreover have "trim_end (trim s) = trim s"
    by (simp add: trim_def trim_end_def strip_any_id strip_any_no_lead)
  ultimately show ?thesis by (simp add: trim_def)
qed

text \<open>Visible ASCII characters are no white space.\<close>

definition visible :: "char \<Rightarrow> bool" where
  "visible c = (33 \<le> code c \<and> code c < 127)"

lemma ws_not_visible: "list_all (\<lambda>w. \<not> visible (hd w)) (ws_table @ map rev ws_table)"
  by code_simp

lemma no_lead_hd: "\<forall>w \<in> set t. \<not> visible (hd w) \<Longrightarrow> visible (hd s) \<Longrightarrow> no_lead t s"
  by (auto simp: no_lead_def find_None_iff prefix_def)

lemma no_lead_visible: "visible (hd s) \<Longrightarrow> no_lead ws_table s \<and> no_lead (map rev ws_table) s"
  using ws_not_visible by (auto intro!: no_lead_hd simp: list_all_iff)

lemma trim_visible: "list_all visible s \<Longrightarrow> trim s = s"
proof (cases "s = []")
  case True
  then show ?thesis
    by (simp add: trim_def trim_start_def trim_end_def strip_any_id no_lead_def find_None_iff)
next
  case False
  assume "list_all visible s"
  then have "visible (hd s)" "visible (hd (rev s))" using False by (auto simp: list_all_iff hd_rev)
  then have "no_lead ws_table s" "no_lead (map rev ws_table) (rev s)" using no_lead_visible by auto
  then show ?thesis by (simp add: trim_def trim_start_def trim_end_def strip_any_id)
qed

lemma length_trim: "length (trim s) \<le> length s"
proof -
  have "length (strip_any t x) \<le> length x" for t x
    using strip_any_suffix [of t x] by (rule suffix_length_le)
  then show ?thesis
    by (metis trim_def trim_end_def trim_start_def length_rev order_trans)
qed

definition ascii_upper :: "string \<Rightarrow> string" where
  "ascii_upper = map (\<lambda>c. if 97 \<le> code c \<and> code c \<le> 122 then chr (code c - 32) else c)"

definition ascii_lower :: "string \<Rightarrow> string" where
  "ascii_lower = map (\<lambda>c. if 65 \<le> code c \<and> code c \<le> 90 then chr (code c + 32) else c)"

definition is_ascii_hexdigit :: "char \<Rightarrow> bool" where
  "is_ascii_hexdigit c =
     (48 \<le> code c \<and> code c \<le> 57 \<or> 65 \<le> code c \<and> code c \<le> 70 \<or> 97 \<le> code c \<and> code c \<le> 102)"

definition is_ascii_digit :: "char \<Rightarrow> bool" where
  "is_ascii_digit c = (48 \<le> code c \<and> code c \<le> 57)"

text \<open>\<open>char::is_control\<close> holds of U+0000-U+001F, U+007F and U+0080-U+009F; the last
  block is the byte C2 followed by a byte in 80-9F.\<close>

fun has_control :: "string \<Rightarrow> bool" where
  "has_control [] = False"
| "has_control [c] = (code c < 32 \<or> code c = 127)"
| "has_control (c # d # s) =
     (code c < 32 \<or> code c = 127 \<or> (code c = 194 \<and> 128 \<le> code d \<and> code d < 160) \<or>
      has_control (d # s))"

fun str_contains :: "string \<Rightarrow> string \<Rightarrow> bool" where
  "str_contains pat [] = (pat = [])"
| "str_contains pat (c # s) = (prefix pat (c # s) \<or> str_contains pat s)"

lemma str_contains_iff: "str_contains pat s \<longleftrightarrow> sublist pat s"
  by (induction s) (auto simp: sublist_Cons_right)

text \<open>\<open>str::split\<close> on one byte.\<close>

fun split_on :: "char \<Rightarrow> string \<Rightarrow> string list" where
  "split_on d [] = [[]]"
| "split_on d (c # s) =
     (if c = d then [] # split_on d s
      else case split_on d s of [] \<Rightarrow> [[c]] | w # ws \<Rightarrow> (c # w) # ws)"

fun join_with :: "string \<Rightarrow> string list \<Rightarrow> string" where
  "join_with sep [] = []"
| "join_with sep [w] = w"
| "join_with sep (w # v # ws) = w @ sep @ join_with sep (v # ws)"

lemma split_on_ne [simp]: "split_on d s \<noteq> []"
  by (induction s) (auto split: list.splits)

lemma join_split_on: "join_with [d] (split_on d s) = s"
proof (induction s)
  case (Cons c s)
  then show ?case
    by (cases "split_on d s") (auto simp: split: list.splits elim: join_with.elims,
        (cases "tl (split_on d s)"; simp)+)
qed simp

lemma split_on_append: "d \<notin> set w \<Longrightarrow> split_on d (w @ d # s) = w # split_on d s"
  by (induction w) auto

lemma split_on_single: "d \<notin> set w \<Longrightarrow> split_on d w = [w]"
  by (induction w) auto

lemma split_join: "ws \<noteq> [] \<Longrightarrow> \<forall>w\<in>set ws. d \<notin> set w \<Longrightarrow> split_on d (join_with [d] ws) = ws"
  by (induction "[d]" ws rule: join_with.induct) (auto simp: split_on_single split_on_append)


section \<open>Decimal formatting\<close>

definition digit_char :: "nat \<Rightarrow> char" where
  "digit_char d = chr (48 + d)"

function dec :: "nat \<Rightarrow> string" where
  "dec n = (if n < 10 then [digit_char n] else dec (n div 10) @ [digit_char (n mod 10)])"
  by pat_completeness auto
termination by (relation "measure id") auto

declare dec.simps [simp del]

definition undigit :: "char \<Rightarrow> nat" where
  "undigit c = code c - 48"

definition undec :: "string \<Rightarrow> nat" where
  "undec s = foldl (\<lambda>a c. 10 * a + undigit c) 0 s"

lemma code_chr: "n < 256 \<Longrightarrow> code (chr n) = n"
  by (simp add: code_def chr_def)

lemma undigit_digit [simp]: "d < 10 \<Longrightarrow> undigit (digit_char d) = d"
  by (simp add: undigit_def digit_char_def code_chr)

lemma dec_digit: "d < 10 \<Longrightarrow> is_ascii_digit (digit_char d)"
  by (simp add: is_ascii_digit_def digit_char_def code_chr)

lemma undec_dec [simp]: "undec (dec n) = n"
proof (induction n rule: dec.induct)
  case (1 n)
  show ?case
  proof (cases "n < 10")
    case True
    then show ?thesis by (subst dec.simps) (simp add: undec_def)
  next
    case False
    then have "undec (dec (n div 10)) = n div 10" by (rule 1)
    then show ?thesis using False by (subst dec.simps) (simp add: undec_def)
  qed
qed

lemma dec_inj [simp]: "dec a = dec b \<longleftrightarrow> a = b"
  by (metis undec_dec)

lemma dec_digits: "c \<in> set (dec n) \<Longrightarrow> is_ascii_digit c"
proof (induction n rule: dec.induct)
  case (1 n)
  then show ?case by (subst (asm) (2) dec.simps) (auto split: if_splits intro: dec_digit)
qed

lemma dec_ne [simp]: "dec n \<noteq> []"
  by (subst dec.simps) simp

definition dec_u :: "'a::len word \<Rightarrow> string" where
  "dec_u w = dec (unat w)"

lemma dec_u_inj [simp]: "dec_u a = dec_u b \<longleftrightarrow> a = b"
  by (simp add: dec_u_def word_unat_eq_iff)

lemma dec_u_digits: "c \<in> set (dec_u n) \<Longrightarrow> is_ascii_digit c"
  by (auto simp: dec_u_def intro: dec_digits)

definition bool_str :: "bool \<Rightarrow> string" where
  "bool_str b = (if b then ''true'' else ''false'')"

text \<open>Two fields separated by a byte that the first field cannot contain.\<close>

lemma sep_inj:
  assumes "a @ c # x = b @ c # y" "c \<notin> set a" "c \<notin> set b"
  shows "a = b \<and> x = y"
  using assms
proof (induction a arbitrary: b)
  case Nil
  then show ?case by (cases b) auto
next
  case (Cons z a)
  then show ?case by (cases b) auto
qed

lemma bar_not_digit [simp]: "CHR ''|'' \<notin> set (dec n)" "CHR ''|'' \<notin> set (dec_u w)"
  by (auto dest!: dec_digits dec_u_digits simp: is_ascii_digit_def code_def)

lemma dec_bar [simp]: "dec a @ CHR ''|'' # x = dec b @ CHR ''|'' # y \<longleftrightarrow> a = b \<and> x = y"
  using sep_inj [of "dec a" "CHR ''|''" x "dec b" y] by auto

lemma dec_u_bar [simp]: "dec_u a @ CHR ''|'' # x = dec_u b @ CHR ''|'' # y \<longleftrightarrow> a = b \<and> x = y"
  using sep_inj [of "dec_u a" "CHR ''|''" x "dec_u b" y] by auto

lemma sep_inj_last:
  assumes "x @ c # a = y @ c # b" "c \<notin> set a" "c \<notin> set b"
  shows "a = b \<and> x = y"
proof -
  have "rev a @ c # rev x = rev b @ c # rev y" using arg_cong [OF assms(1), of rev] by simp
  then show ?thesis using sep_inj [of "rev a" c "rev x" "rev b" "rev y"] assms(2,3) by simp
qed

lemma count_list_dec: "\<not> is_ascii_digit c \<Longrightarrow> count_list (dec n) c = 0"
  by (metis count_list_0_iff dec_digits)

lemma count_list_dec_u: "\<not> is_ascii_digit c \<Longrightarrow> count_list (dec_u w) c = 0"
  by (simp add: dec_u_def count_list_dec)


section \<open>Ordered maps\<close>

text \<open>\<open>BTreeMap<String, V>\<close>: an association list sorted by the byte order of its keys, which
  is the order the code iterates in.\<close>

type_synonym 'v btmap = "(string \<times> 'v) list"

fun bt_get :: "string \<Rightarrow> 'v btmap \<Rightarrow> 'v option" where
  "bt_get k [] = None"
| "bt_get k ((j, v) # m) = (if k = j then Some v else bt_get k m)"

fun bt_put :: "string \<Rightarrow> 'v \<Rightarrow> 'v btmap \<Rightarrow> 'v btmap" where
  "bt_put k v [] = [(k, v)]"
| "bt_put k v ((j, w) # m) =
     (if k < j then (k, v) # (j, w) # m
      else if k = j then (k, v) # m
      else (j, w) # bt_put k v m)"

definition bt_remove :: "string \<Rightarrow> 'v btmap \<Rightarrow> 'v btmap" where
  "bt_remove k m = filter (\<lambda>p. fst p \<noteq> k) m"

definition bt_keys :: "'v btmap \<Rightarrow> string list" where
  "bt_keys m = map fst m"

definition bt_vals :: "'v btmap \<Rightarrow> 'v list" where
  "bt_vals m = map snd m"

definition bt_ok :: "'v btmap \<Rightarrow> bool" where
  "bt_ok m = sorted_wrt (<) (bt_keys m)"

lemma bt_keys_simps [simp]:
  "bt_keys [] = []"
  "bt_keys (p # m) = fst p # bt_keys m"
  by (simp_all add: bt_keys_def)

lemma bt_ok_Nil [simp]: "bt_ok []"
  by (simp add: bt_ok_def)

lemma bt_ok_Cons: "bt_ok (p # m) \<longleftrightarrow> (\<forall>k\<in>set (bt_keys m). fst p < k) \<and> bt_ok m"
  by (simp add: bt_ok_def)

lemma bt_keys_put: "set (bt_keys (bt_put k v m)) = insert k (set (bt_keys m))"
  by (induction k v m rule: bt_put.induct) auto

lemma bt_ok_put [intro]: "bt_ok m \<Longrightarrow> bt_ok (bt_put k v m)"
  by (induction k v m rule: bt_put.induct) (auto simp: bt_ok_Cons bt_keys_put)

lemma bt_put_last: "\<forall>j\<in>set (bt_keys m). j < k \<Longrightarrow> bt_put k v m = m @ [(k, v)]"
  by (induction k v m rule: bt_put.induct) auto

lemma bt_ok_remove [intro]: "bt_ok m \<Longrightarrow> bt_ok (bt_remove k m)"
  unfolding bt_ok_def bt_keys_def bt_remove_def
  by (induction m) (auto simp: sorted_wrt_append)

lemma bt_get_put: "bt_get x (bt_put k v m) = (if x = k then Some v else bt_get x m)"
  by (induction k v m rule: bt_put.induct) auto

lemma bt_put_put: "bt_put k v (bt_put k w m) = bt_put k v m"
  by (induction k w m rule: bt_put.induct) auto

lemma bt_get_remove: "bt_get x (bt_remove k m) = (if x = k then None else bt_get x m)"
  by (induction m) (auto simp: bt_remove_def)

lemma bt_get_None: "bt_get k m = None \<longleftrightarrow> k \<notin> set (bt_keys m)"
  by (induction k m rule: bt_get.induct) auto

lemma bt_get_Some_in: "bt_get k m = Some v \<Longrightarrow> (k, v) \<in> set m"
  by (induction k m rule: bt_get.induct) (auto split: if_splits)

lemma bt_ok_distinct: "bt_ok m \<Longrightarrow> distinct (bt_keys m)"
  by (simp add: bt_ok_def strict_sorted_iff)

lemma bt_get_in: "bt_ok m \<Longrightarrow> (k, v) \<in> set m \<longleftrightarrow> bt_get k m = Some v"
  by (induction k m rule: bt_get.induct) (force simp: bt_ok_Cons bt_keys_def)+

lemma bt_sum_put_new:
  "bt_get k m = None \<Longrightarrow> sum_list (map f (bt_put k v m)) = f (k, v) + (sum_list (map f m) :: nat)"
  by (induction k v m rule: bt_put.induct) (auto split: if_splits)

lemma bt_remove_absent: "bt_get k m = None \<Longrightarrow> bt_remove k m = m"
  by (induction k m rule: bt_get.induct) (auto simp: bt_remove_def split: if_splits)

lemma bt_remove_Nil [simp]: "bt_remove k [] = []"
  by (simp add: bt_remove_def)

lemma bt_remove_Cons [simp]:
  "bt_remove k ((j, v) # m) = (if j = k then bt_remove k m else (j, v) # bt_remove k m)"
  by (simp add: bt_remove_def)

lemma bt_sum_remove:
  "bt_ok m \<Longrightarrow> bt_get k m = Some v \<Longrightarrow>
     (sum_list (map f m) :: nat) = f (k, v) + sum_list (map f (bt_remove k m))"
proof (induction k m rule: bt_get.induct)
  case (2 k j w m)
  then show ?case
  proof (cases "k = j")
    case True
    then have "bt_get k m = None"
      using 2 by (auto simp: bt_get_None bt_ok_Cons)
    then show ?thesis using 2 True by (simp add: bt_remove_absent)
  qed (simp add: bt_ok_Cons)
qed simp

text \<open>\<open>BTreeSet<String>\<close>: the sorted list of its elements.\<close>

type_synonym btset = "string list"

fun bs_insert :: "string \<Rightarrow> btset \<Rightarrow> btset" where
  "bs_insert k [] = [k]"
| "bs_insert k (j # m) = (if k < j then k # j # m else if k = j then j # m else j # bs_insert k m)"

definition bs_ok :: "btset \<Rightarrow> bool" where
  "bs_ok s = sorted_wrt (<) s"

definition bs_of :: "string list \<Rightarrow> btset" where
  "bs_of xs = foldl (\<lambda>s x. bs_insert x s) [] xs"

lemma set_bs_insert [simp]: "set (bs_insert k s) = insert k (set s)"
  by (induction k s rule: bs_insert.induct) auto

lemma bs_ok_insert [intro]: "bs_ok s \<Longrightarrow> bs_ok (bs_insert k s)"
  unfolding bs_ok_def by (induction k s rule: bs_insert.induct) auto

lemma bs_ok_Nil [simp]: "bs_ok []"
  by (simp add: bs_ok_def)

lemma bs_ok_distinct: "bs_ok s \<Longrightarrow> distinct s"
  by (simp add: bs_ok_def strict_sorted_iff)

lemma bs_of_foldl:
  "bs_ok s \<Longrightarrow> bs_ok (foldl (\<lambda>s x. bs_insert x s) s xs) \<and>
     set (foldl (\<lambda>s x. bs_insert x s) s xs) = set s \<union> set xs"
proof (induction xs arbitrary: s)
  case (Cons x xs)
  then show ?case using Cons.IH [of "bs_insert x s"] by (simp add: bs_ok_insert)
qed simp

lemma bs_ok_of [simp]: "bs_ok (bs_of xs)"
  using bs_of_foldl [of "[]" xs] by (simp add: bs_of_def)

lemma set_bs_of [simp]: "set (bs_of xs) = set xs"
  using bs_of_foldl [of "[]" xs] by (simp add: bs_of_def)

lemma card_btset: "bs_ok s \<Longrightarrow> card (set s) = length s"
  by (simp add: bs_ok_distinct distinct_card)

lemma length_bs_insert: "length (bs_insert k s) \<le> Suc (length s)"
  by (induction k s rule: bs_insert.induct) auto

lemma length_bs_insert_ge: "length s \<le> length (bs_insert k s)"
  by (induction k s rule: bs_insert.induct) auto

lemma bs_insert_in: "bs_ok s \<Longrightarrow> k \<in> set s \<Longrightarrow> bs_insert k s = s"
  unfolding bs_ok_def by (induction k s rule: bs_insert.induct) auto


section \<open>Runs of operations\<close>

text \<open>A component whose operations run one after the other (each takes the component's mutex):
  the outputs of a list of operations and the state they leave.\<close>

fun run_ops :: "('op \<Rightarrow> 's \<Rightarrow> 'out \<times> 's) \<Rightarrow> 'op list \<Rightarrow> 's \<Rightarrow> 'out list \<times> 's" where
  "run_ops step [] s = ([], s)"
| "run_ops step (x # xs) s =
     (let (y, t) = step x s; (ys, u) = run_ops step xs t in (y # ys, u))"

lemma run_ops_Cons:
  "run_ops step (x # xs) s =
     (fst (step x s) # fst (run_ops step xs (snd (step x s))), snd (run_ops step xs (snd (step x s))))"
  by (simp add: case_prod_beta Let_def)

lemma length_run_ops: "length (fst (run_ops step xs s)) = length xs"
  by (induction xs arbitrary: s) (simp_all add: case_prod_beta Let_def)

lemma run_ops_invariant:
  assumes "\<And>x s. P s \<Longrightarrow> x \<in> set xs \<Longrightarrow> P (snd (step x s))" and "P s"
  shows "P (snd (run_ops step xs s))"
  using assms
proof (induction xs arbitrary: s)
  case (Cons x xs)
  have "P (snd (step x s))" using Cons.prems by simp
  then have "P (snd (run_ops step xs (snd (step x s))))" using Cons by simp
  then show ?case by (simp add: run_ops_Cons del: run_ops.simps)
qed simp

declare run_ops.simps(2) [simp del]
declare run_ops_Cons [simp]

text \<open>The interface of a component that burns identifiers: an operation that wins an identifier
  finds it unused and leaves it used, and nothing ever becomes unused again.\<close>

locale burn_once =
  fixes step :: "'op \<Rightarrow> 's \<Rightarrow> 'out \<times> 's"
    and used :: "'s \<Rightarrow> 'i set"
    and win :: "'op \<Rightarrow> 'out \<Rightarrow> 'i option"
  assumes used_mono: "used s \<subseteq> used (snd (step x s))"
    and win_fresh: "win x (fst (step x s)) = Some i \<Longrightarrow> i \<notin> used s"
    and win_used: "win x (fst (step x s)) = Some i \<Longrightarrow> i \<in> used (snd (step x s))"
begin

lemma used_mono_run: "used s \<subseteq> used (snd (run_ops step xs s))"
proof (induction xs arbitrary: s)
  case (Cons x xs)
  show ?case using used_mono [of s x] Cons.IH [of "snd (step x s)"] by auto
qed simp

lemma wins_once:
  "distinct (List.map_filter (\<lambda>(x, y). win x y) (zip xs (fst (run_ops step xs s)))) \<and>
   set (List.map_filter (\<lambda>(x, y). win x y) (zip xs (fst (run_ops step xs s)))) \<inter> used s = {}"
proof (induction xs arbitrary: s)
  case Nil
  then show ?case by (simp add: List.map_filter_simps)
next
  case (Cons x xs)
  let ?t = "snd (step x s)"
  let ?w = "List.map_filter (\<lambda>(x, y). win x y) (zip xs (fst (run_ops step xs ?t)))"
  have IH: "distinct ?w" "set ?w \<inter> used ?t = {}" using Cons.IH [of ?t] by auto
  show ?case
  proof (cases "win x (fst (step x s))")
    case None
    then show ?thesis using IH used_mono [of s x] by (auto simp: List.map_filter_simps)
  next
    case (Some i)
    then have "i \<notin> used s" "i \<in> used ?t" using win_fresh win_used by blast+
    then show ?thesis using Some IH used_mono [of s x] by (auto simp: List.map_filter_simps)
  qed
qed

lemma used_never_wins:
  assumes "i \<in> used s" "(x, y) \<in> set (zip xs (fst (run_ops step xs s)))"
  shows "win x y \<noteq> Some i"
proof
  assume "win x y = Some i"
  then have "i \<in> set (List.map_filter (\<lambda>(x, y). win x y) (zip xs (fst (run_ops step xs s))))"
    using assms(2) by (force simp: List.map_filter_def)
  then show False using wins_once [of xs s] assms(1) by auto
qed

end

text \<open>The interface of a ballot: casting a vote adds at most that voter, and the tally counts
  voters, not votes.\<close>

locale vote_box =
  fixes cast :: "'v \<Rightarrow> 's \<Rightarrow> 's"
    and voters :: "'s \<Rightarrow> 'v set"
    and tally :: "'s \<Rightarrow> nat"
    and ok :: "'s \<Rightarrow> bool"
  assumes cast_ok: "ok s \<Longrightarrow> ok (cast v s)"
    and cast_keeps: "ok s \<Longrightarrow> voters s \<subseteq> voters (cast v s)"
    and cast_adds: "ok s \<Longrightarrow> voters (cast v s) \<subseteq> insert v (voters s)"
    and tally_card: "ok s \<Longrightarrow> finite (voters s) \<and> tally s = card (voters s)"
begin

lemma cast_all:
  "ok s \<Longrightarrow> ok (fold cast vs s) \<and> voters s \<subseteq> voters (fold cast vs s)
     \<and> voters (fold cast vs s) \<subseteq> voters s \<union> set vs"
proof (induction vs arbitrary: s)
  case (Cons v vs)
  show ?case
    using Cons.IH [OF cast_ok [OF Cons.prems, of v]] cast_keeps [OF Cons.prems, of v]
      cast_adds [OF Cons.prems, of v] by auto
qed simp

lemma tally_bound: "ok s \<Longrightarrow> tally (fold cast vs s) \<le> card (voters s \<union> set vs)"
  using cast_all [of s vs] tally_card [of "fold cast vs s"] tally_card [of s]
  by (auto intro: card_mono)

lemma tally_mono: "ok s \<Longrightarrow> tally s \<le> tally (fold cast vs s)"
  using cast_all [of s vs] tally_card [of "fold cast vs s"] tally_card [of s]
  by (auto intro: card_mono)

lemma quorum_needs_voters:
  assumes "ok s" "voters s = {}" "q \<le> tally (fold cast vs s)"
  shows "q \<le> card (set vs)"
  using tally_bound [OF assms(1), of vs] assms(2,3) by simp

end

end
