(* ===== verification/Errors.thy ===== *)
theory Errors
  imports Prelude
begin

text \<open>
  The error type of the vault core (\<open>vault-core/src/domain/error.rs\<close>), the message each error
  displays, and the node identifiers of \<open>domain/peer.rs\<close>.  \<open>usize\<close> counts in errors are \<open>nat\<close>.
\<close>

datatype (plugins only: code) domain_error =
    InvalidNodeId
  | PeerNotFound string
  | SimAttestationForbidden
  | AttestationRejected string
  | MeasurementMismatch
  | InvalidConstitution string
  | LedgerConflict string
  | UnauthorizedWriter string
  | QuorumNotMet nat nat
  | UnknownProposal string
  | EpochMismatch u64 u64
  | ProposalClosed string
  | InvalidShare string
  | ThresholdError string
  | NonceReuse string
  | FailStop nat nat
  | SessionConsumed string
  | BadSigningPhase string string
  | InvalidRelease string
  | UnknownBlob string
  | UnknownRelease string
  | RebuildMismatch string string
  | ReleasePredicate string
  | TimelockNotElapsed u64 u64
  | ReleaseClosed string
  | NotAllowlisted string
  | InvalidBucket string
  | InvalidIntent string
  | CapExceeded u64 u64 string
  | DestinationNotAllowed string
  | IntentReplay string
  | ReservationMissing string
  | UsersOmnibusProtected
  | LabFlagForbidden string
  | RequestRejected string
  | NoEligibleMiners
  | InsufficientMinerPool u64 u64
  | MinerSelfPayForbidden
  | AuthRejected string
  | ShareStoreForbidden string
  | DealerForbidden string
  | TeeRequired string
  | TpmRequired string
  | BitcoinNetworkMismatch string
  | DayEpochStale string string
  | ProductionGate string

primrec display :: "domain_error \<Rightarrow> string" where
  "display InvalidNodeId = ''invalid node id''"
| "display (PeerNotFound r) = ''peer not found: '' @ r"
| "display SimAttestationForbidden = ''attestation mode sim is forbidden in production builds''"
| "display (AttestationRejected r) = ''attestation quote rejected: '' @ r"
| "display MeasurementMismatch = ''measurement mismatch''"
| "display (InvalidConstitution r) = ''invalid constitution: '' @ r"
| "display (LedgerConflict r) = ''ledger conflict: '' @ r"
| "display (UnauthorizedWriter r) = ''unauthorized ledger writer: '' @ r"
| "display (QuorumNotMet hv nd) = ''quorum not met: have '' @ dec hv @ '', need '' @ dec nd"
| "display (UnknownProposal r) = ''unknown proposal: '' @ r"
| "display (EpochMismatch ex gt) = ''epoch mismatch: expected '' @ dec_u ex @ '', got '' @ dec_u gt"
| "display (ProposalClosed r) = ''proposal already closed: '' @ r"
| "display (InvalidShare r) = ''invalid share: '' @ r"
| "display (ThresholdError r) = ''threshold error: '' @ r"
| "display (NonceReuse r) = ''nonce reuse: '' @ r"
| "display (FailStop ol nd) = ''fail-stop: online '' @ dec ol @ '' < need '' @ dec nd"
| "display (SessionConsumed r) = ''signing session consumed: '' @ r"
| "display (BadSigningPhase r ph) = ''bad signing phase for '' @ r @ '': '' @ ph"
| "display (InvalidRelease r) = ''invalid release: '' @ r"
| "display (UnknownBlob r) = ''unknown blob: '' @ r"
| "display (UnknownRelease r) = ''unknown release: '' @ r"
| "display (RebuildMismatch ex gt) = ''rebuild mismatch: expected '' @ ex @ '', got '' @ gt"
| "display (ReleasePredicate r) = ''release predicate failed: '' @ r"
| "display (TimelockNotElapsed ag nd) = ''timelock not elapsed: age '' @ dec_u ag @ '' < need '' @ dec_u nd"
| "display (ReleaseClosed r) = ''release closed: '' @ r"
| "display (NotAllowlisted r) = ''artifact not allowlisted: '' @ r"
| "display (InvalidBucket r) = ''invalid bucket: '' @ r"
| "display (InvalidIntent r) = ''invalid intent: '' @ r"
| "display (CapExceeded am cp sc) = ''cap exceeded ('' @ sc @ ''): amount '' @ dec_u am @ '' > cap '' @ dec_u cp"
| "display (DestinationNotAllowed r) = ''destination not allowed: '' @ r"
| "display (IntentReplay r) = ''intent replay: '' @ r"
| "display (ReservationMissing r) = ''reservation missing or expired: '' @ r"
| "display UsersOmnibusProtected = ''USERS omnibus protected: operational bucket cannot debit USERS''"
| "display (LabFlagForbidden r) = ''lab flag forbidden outside lab: '' @ r"
| "display (RequestRejected r) = ''request rejected: '' @ r"
| "display NoEligibleMiners = ''no eligible miners for payout''"
| "display (InsufficientMinerPool hv wn) = ''insufficient miner pool: have '' @ dec_u hv @ '', want '' @ dec_u wn"
| "display MinerSelfPayForbidden = ''miner payout forbidden: destination not an eligible registered operator (no self-pay)''"
| "display (AuthRejected r) = ''auth rejected: '' @ r"
| "display (ShareStoreForbidden r) = ''share store forbidden: '' @ r"
| "display (DealerForbidden r) = ''dealer DKG forbidden: '' @ r"
| "display (TeeRequired r) = ''TEE sealing required: '' @ r"
| "display (TpmRequired r) = ''TPM sealing required: '' @ r"
| "display (BitcoinNetworkMismatch r) = ''bitcoin network mismatch: '' @ r"
| "display (DayEpochStale hv nd) = ''day_epoch stale: have '' @ hv @ '', need '' @ nd"
| "display (ProductionGate r) = ''production gate: '' @ r"

type_synonym 'a res = "domain_error + 'a"

text \<open>\<open>NodeId::new\<close> trims the raw identifier and bounds it to 1..128 bytes.\<close>

definition node_id_new :: "string \<Rightarrow> string res" where
  "node_id_new raw =
     (let i = trim raw in
      if i = [] \<or> length i > 128 then Inl InvalidNodeId else Inr i)"

record peer_info =
  pi_id :: string
  pi_address :: string

lemma node_id_new_ok: "node_id_new raw = Inr i \<Longrightarrow> i \<noteq> [] \<and> length i \<le> 128 \<and> trim i = i"
  by (auto simp: node_id_new_def Let_def split: if_splits)

lemma node_id_new_again: "node_id_new raw = Inr i \<Longrightarrow> node_id_new i = Inr i"
  by (auto simp: node_id_new_def Let_def split: if_splits)

end
