(* ===== verification/Bucket.thy ===== *)
theory Bucket
  imports Errors
begin

text \<open>
  Treasury buckets (\<open>vault-core/src/domain/bucket.rs\<close>): bucket kinds, the split of PROFIT into
  basis points, bucket policies with their destination allowlists, settlement intents and
  \<open>evaluate_intent\<close>, the pure gate every spend passes.  Parsing a Bitcoin address is the
  \<open>bitcoin\<close> crate's and a parameter \<open>is_addr\<close>; the intent's signature belongs to
  \<open>Policy\<close> and is not read here.
\<close>

section \<open>Bucket kinds\<close>

datatype bucket_kind = Users | Profit | Miners | Channels | Infra

definition bucket_parse :: "string \<Rightarrow> bucket_kind res" where
  "bucket_parse raw =
     (let u = ascii_upper (trim raw) in
      if u = ''USERS'' then Inr Users
      else if u = ''PROFIT'' then Inr Profit
      else if u = ''MINERS'' then Inr Miners
      else if u = ''CHANNELS'' then Inr Channels
      else if u = ''INFRA'' then Inr Infra
      else Inl (InvalidBucket raw))"

fun bucket_str :: "bucket_kind \<Rightarrow> string" where
  "bucket_str Users = ''USERS''"
| "bucket_str Profit = ''PROFIT''"
| "bucket_str Miners = ''MINERS''"
| "bucket_str Channels = ''CHANNELS''"
| "bucket_str Infra = ''INFRA''"

definition may_debit_users :: "bucket_kind \<Rightarrow> bool" where
  "may_debit_users b = (b = Users)"

definition may_use_shared_taproot_key :: "bucket_kind \<Rightarrow> bool" where
  "may_use_shared_taproot_key b = (b = Users)"

definition may_use_channels_taproot_key :: "bucket_kind \<Rightarrow> bool" where
  "may_use_channels_taproot_key b = (b = Channels)"

definition assert_shared_taproot_bucket :: "bucket_kind \<Rightarrow> unit res" where
  "assert_shared_taproot_bucket b =
     (if \<not> may_use_shared_taproot_key b
      then Inl (InvalidIntent (''bucket '' @ bucket_str b @
        '' cannot spend shared Taproot key; only USERS (CHANNELS uses its own key)''))
      else Inr ())"

definition assert_channels_taproot_bucket :: "bucket_kind \<Rightarrow> unit res" where
  "assert_channels_taproot_bucket b =
     (if \<not> may_use_channels_taproot_key b
      then Inl (InvalidIntent (''bucket '' @ bucket_str b @ '' cannot spend CHANNELS Taproot key''))
      else Inr ())"


section \<open>Profit splits\<close>

record profit_splits =
  miners_bps :: u32
  channels_bps :: u32
  infra_bps :: u32

definition splits_lab_dry_run :: profit_splits where
  "splits_lab_dry_run = \<lparr>miners_bps = 0, channels_bps = 5000, infra_bps = 5000\<rparr>"

definition splits_sum :: "profit_splits \<Rightarrow> u32" where
  "splits_sum s = sat_add (sat_add (miners_bps s) (channels_bps s)) (infra_bps s)"

definition splits_validate :: "profit_splits \<Rightarrow> unit res" where
  "splits_validate s =
     (if splits_sum s \<noteq> 10000
      then Inl (InvalidConstitution (''profit splits must sum to 10000 bps, got '' @ dec_u (splits_sum s)))
      else Inr ())"

definition splits_explicit :: "u32 \<Rightarrow> u32 \<Rightarrow> u32 \<Rightarrow> profit_splits res" where
  "splits_explicit m c i =
     (let s = \<lparr>miners_bps = m, channels_bps = c, infra_bps = i\<rparr>
      in rbind (splits_validate s) (\<lambda>_. Inr s))"

definition splits_open_with_reward :: "u32 \<Rightarrow> profit_splits res" where
  "splits_open_with_reward p =
     (if p > 10000 then Inl (InvalidConstitution ''p_reward_bps > 10000'')
      else let rest = 10000 - p; channels = rest div 2; infra = rest - channels
           in splits_explicit p channels infra)"

definition splits_allocate :: "profit_splits \<Rightarrow> u64 \<Rightarrow> u64 \<times> u64 \<times> u64" where
  "splits_allocate s profit =
     (let miners = sat_mul profit (ucast (miners_bps s)) div 10000;
          channels = sat_mul profit (ucast (channels_bps s)) div 10000;
          infra = sat_sub (sat_sub profit miners) channels
      in (miners, channels, infra))"


section \<open>Bucket policies\<close>

record bucket_policy =
  bp_kind :: bucket_kind
  max_per_tx_sats :: u64
  max_per_day_sats :: u64
  destination_allowlist :: btset

fun lab_destinations :: "bucket_kind \<Rightarrow> string list" where
  "lab_destinations Users = [''tb1q-users-withdraw'', ''ln-users-withdraw'']"
| "lab_destinations Profit = [''internal-profit-split'']"
| "lab_destinations Miners = [''tb1q-miner-payout'']"
| "lab_destinations Channels = [''ln-channel-rebalance'']"
| "lab_destinations Infra = [''tb1q-infra-ops'']"

definition policy_lab_defaults :: "bucket_kind \<Rightarrow> u64 \<Rightarrow> u64 \<Rightarrow> bucket_policy" where
  "policy_lab_defaults k max_tx max_day =
     \<lparr>bp_kind = k, max_per_tx_sats = max_tx, max_per_day_sats = max_day,
      destination_allowlist = bs_of (lab_destinations k)\<rparr>"

definition allows_destination :: "bucket_policy \<Rightarrow> string \<Rightarrow> bool" where
  "allows_destination p d = (d \<in> set (destination_allowlist p))"

text \<open>\<open>valid_net d\<close> is \<open>validate_destination(network, d).is_ok()\<close>.\<close>

definition allows_destination_for_network ::
  "(string \<Rightarrow> bool) \<Rightarrow> (string \<Rightarrow> bool) \<Rightarrow> bucket_policy \<Rightarrow> string \<Rightarrow> bool" where
  "allows_destination_for_network is_addr valid_net p d =
     (if allows_destination p d then True
      else if bp_kind p \<noteq> Channels then False
      else valid_net d \<and> is_addr d)"

definition admit_destination :: "string \<Rightarrow> bucket_policy \<Rightarrow> bucket_policy" where
  "admit_destination d p =
     (if trim d \<noteq> []
      then p\<lparr>destination_allowlist := bs_insert d (destination_allowlist p)\<rparr> else p)"

definition extend_destinations :: "string list \<Rightarrow> bucket_policy \<Rightarrow> bucket_policy" where
  "extend_destinations ds p = foldl (\<lambda>q d. admit_destination d q) p ds"


section \<open>Settlement intents\<close>

record settlement_intent =
  intent_id :: string
  si_bucket :: bucket_kind
  destination :: string
  amount_sats :: u64
  policy_hash :: string

definition intent_id_illegal :: "string \<Rightarrow> bool" where
  "intent_id_illegal s = (has_control s \<or> CHR ''/'' \<in> set s \<or> chr 92 \<in> set s)"

definition intent_new :: "string \<Rightarrow> bucket_kind \<Rightarrow> string \<Rightarrow> u64 \<Rightarrow> string \<Rightarrow> settlement_intent res" where
  "intent_new iid b dest amt ph =
     (if trim iid = [] then Inl (InvalidIntent ''empty intent_id'')
      else if length iid > 128 then Inl (InvalidIntent ''intent_id too long'')
      else if intent_id_illegal iid then Inl (InvalidIntent ''intent_id contains illegal characters'')
      else if trim dest = [] then Inl (InvalidIntent ''empty destination'')
      else if length dest > 256 then Inl (InvalidIntent ''destination too long'')
      else if str_contains ''..'' dest \<or> CHR ''/'' \<in> set dest \<or> chr 92 \<in> set dest
        then Inl (InvalidIntent ''destination path traversal rejected'')
      else if length ph > 128 then Inl (InvalidIntent ''policy_hash too long'')
      else Inr \<lparr>intent_id = iid, si_bucket = b, destination = dest, amount_sats = amt, policy_hash = ph\<rparr>)"

text \<open>The gate.  The \<open>unreachable!()\<close> arm of the source tests \<open>b \<noteq> Users \<and> b = Users\<close> and is
  therefore dead; the isolation test that follows it is kept as written.\<close>

definition evaluate_intent ::
  "(string \<Rightarrow> bool) \<Rightarrow> settlement_intent \<Rightarrow> bucket_policy \<Rightarrow> u64 \<Rightarrow> string \<Rightarrow> unit res" where
  "evaluate_intent is_addr i p spent active =
     (if bp_kind p \<noteq> si_bucket i then Inl (InvalidIntent ''bucket/policy mismatch'')
      else if policy_hash i \<noteq> active
        then Inl (InvalidIntent ''policy_hash mismatch with active constitution'')
      else if \<not> may_debit_users (si_bucket i) \<and> bp_kind p = Users then Inl UsersOmnibusProtected
      else if amount_sats i = 0 then Inl (InvalidIntent ''amount must be > 0'')
      else if amount_sats i > max_per_tx_sats p
        then Inl (CapExceeded (amount_sats i) (max_per_tx_sats p) ''per_tx'')
      else let day_total = sat_add spent (amount_sats i) in
        if day_total > max_per_day_sats p
          then Inl (CapExceeded day_total (max_per_day_sats p) ''per_day'')
        else if allows_destination p (destination i) \<or> bp_kind p = Channels \<and> is_addr (destination i)
          then Inr ()
        else Inl (DestinationNotAllowed (destination i)))"


section \<open>Lemmas\<close>

lemma bucket_kind_cases: "b \<in> {Users, Profit, Miners, Channels, Infra}"
  by (cases b) auto

lemma bucket_str_inj [simp]: "bucket_str a = bucket_str b \<longleftrightarrow> a = b"
  by (cases a; cases b) simp_all

lemma bucket_parse_str: "bucket_parse (bucket_str b) = Inr b"
  by (cases b; simp only:; code_simp)

lemma taproot_key_exclusive:
  "\<not> (is_ok (assert_shared_taproot_bucket b) \<and> is_ok (assert_channels_taproot_bucket b))"
  by (auto simp: assert_shared_taproot_bucket_def assert_channels_taproot_bucket_def
      may_use_shared_taproot_key_def may_use_channels_taproot_key_def)

lemma splits_sum_nat:
  "splits_sum s = 10000 \<longleftrightarrow> unat (miners_bps s) + unat (channels_bps s) + unat (infra_bps s) = 10000"
  by (auto simp: splits_sum_def word_unat_eq_iff sat_nat)

lemma splits_validate_ok:
  "splits_validate s = Inr () \<longleftrightarrow>
     unat (miners_bps s) + unat (channels_bps s) + unat (infra_bps s) = 10000"
  by (simp add: splits_validate_def splits_sum_nat)

lemma splits_explicit_ok:
  "splits_explicit m c i = Inr s \<longleftrightarrow>
     unat m + unat c + unat i = 10000 \<and> s = \<lparr>miners_bps = m, channels_bps = c, infra_bps = i\<rparr>"
  by (auto simp: splits_explicit_def Let_def rbind_Inr_iff splits_validate_ok)

lemma splits_open_ok:
  assumes "p \<le> 10000"
  shows "\<exists>s. splits_open_with_reward p = Inr s \<and> miners_bps s = p \<and> splits_validate s = Inr ()
    \<and> unat (channels_bps s) \<le> unat (infra_bps s) \<and> unat (infra_bps s) \<le> Suc (unat (channels_bps s))"
proof -
  let ?c = "(10000 - p) div 2" and ?i = "10000 - p - (10000 - p) div 2"
  have p: "unat p \<le> 10000" using assms by (simp add: word_le_nat_alt)
  have r: "unat (10000 - p) = 10000 - unat p" using assms by (simp add: unat_sub)
  have c: "unat ?c = (10000 - unat p) div 2" by (simp add: unat_div r)
  have "?c \<le> 10000 - p" by (simp add: word_le_nat_alt c r)
  then have i: "unat ?i = (10000 - unat p) - (10000 - unat p) div 2" by (simp add: unat_sub c r)
  have "unat p + unat ?c + unat ?i = 10000" using p c i by simp
  then have "splits_open_with_reward p = Inr \<lparr>miners_bps = p, channels_bps = ?c, infra_bps = ?i\<rparr>"
    using assms by (simp add: splits_open_with_reward_def Let_def splits_explicit_ok)
  moreover have "unat ?c \<le> unat ?i" "unat ?i \<le> Suc (unat ?c)" using c i by linarith+
  ultimately show ?thesis
    using \<open>unat p + unat ?c + unat ?i = 10000\<close> by (simp add: splits_validate_ok)
qed

lemma share_le:
  fixes p :: u64 and b :: u32
  shows "unat (sat_mul p (ucast b) div 10000) \<le> unat p * unat b div 10000"
  by (simp add: unat_div sat_nat unat_ucast_widen div_le_mono)

lemma share_exact:
  fixes p :: u64 and b :: u32
  assumes "unat p * unat b < 2 ^ 64"
  shows "unat (sat_mul p (ucast b) div 10000) = unat p * unat b div 10000"
  using assms by (simp add: unat_div sat_nat unat_ucast_widen min_def)

lemma admit_destination_allows:
  "allows_destination (admit_destination d p) x \<longleftrightarrow> allows_destination p x \<or> x = d \<and> trim d \<noteq> []"
  by (auto simp: admit_destination_def allows_destination_def)

lemma extend_destinations_allows:
  "allows_destination (extend_destinations ds p) x \<longleftrightarrow>
     allows_destination p x \<or> x \<in> set ds \<and> trim x \<noteq> []"
proof (induction ds arbitrary: p)
  case (Cons d ds)
  then show ?case
    using Cons.IH [of "admit_destination d p"]
    by (auto simp: extend_destinations_def admit_destination_allows)
qed (simp add: extend_destinations_def)

lemma extend_destinations_kind [simp]: "bp_kind (extend_destinations ds p) = bp_kind p"
  unfolding extend_destinations_def
  by (induction ds arbitrary: p) (auto simp: admit_destination_def)

lemma intent_new_ok:
  "intent_new iid b d a ph = Inr i \<Longrightarrow>
     i = \<lparr>intent_id = iid, si_bucket = b, destination = d, amount_sats = a, policy_hash = ph\<rparr>
     \<and> trim iid \<noteq> [] \<and> length iid \<le> 128 \<and> \<not> intent_id_illegal iid
     \<and> trim d \<noteq> [] \<and> length d \<le> 256 \<and> CHR ''/'' \<notin> set d \<and> length ph \<le> 128"
  by (auto simp: intent_new_def split: if_splits)

definition day_room :: "bucket_policy \<Rightarrow> u64 \<Rightarrow> u64 \<Rightarrow> bool" where
  "day_room p spent amt =
     (unat spent + unat amt \<le> unat (max_per_day_sats p) \<or> max_per_day_sats p = - 1)"

lemma day_cap_iff: "\<not> sat_add s a > max_per_day_sats p \<longleftrightarrow> day_room p s a"
proof -
  have "max_per_day_sats p = - 1 \<longleftrightarrow> unat (max_per_day_sats p) = 18446744073709551615"
    by (simp add: max_word_iff)
  then show ?thesis
    using unat_lt_64 [of "max_per_day_sats p"]
    by (simp add: day_room_def not_less word_le_nat_alt sat_nat min_le_iff_disj) linarith
qed


lemma evaluate_intent_ok:
  "evaluate_intent is_addr i p spent active = Inr () \<longleftrightarrow>
     bp_kind p = si_bucket i \<and> policy_hash i = active \<and>
     0 < unat (amount_sats i) \<and> unat (amount_sats i) \<le> unat (max_per_tx_sats p) \<and>
     (unat spent + unat (amount_sats i) \<le> unat (max_per_day_sats p)
        \<or> unat (max_per_day_sats p) = 2 ^ 64 - 1) \<and>
     (destination i \<in> set (destination_allowlist p)
        \<or> si_bucket i = Channels \<and> is_addr (destination i))"
proof -
  have mx: "max_per_day_sats p = - 1 \<longleftrightarrow> unat (max_per_day_sats p) = 2 ^ 64 - 1"
    by (simp add: max_word_iff)
  have day: "\<not> max_per_day_sats p < sat_add spent (amount_sats i) \<longleftrightarrow>
      (unat spent + unat (amount_sats i) \<le> unat (max_per_day_sats p)
        \<or> unat (max_per_day_sats p) = 2 ^ 64 - 1)"
    unfolding day_cap_iff day_room_def mx ..
  have zero: "amount_sats i \<noteq> 0 \<longleftrightarrow> 0 < unat (amount_sats i)"
    by (simp add: unat_gt_0)
  have tx: "\<not> max_per_tx_sats p < amount_sats i \<longleftrightarrow> unat (amount_sats i) \<le> unat (max_per_tx_sats p)"
    by (simp add: not_less word_le_nat_alt)
  have "evaluate_intent is_addr i p spent active = Inr () \<longleftrightarrow>
      bp_kind p = si_bucket i \<and> policy_hash i = active \<and> amount_sats i \<noteq> 0 \<and>
      \<not> max_per_tx_sats p < amount_sats i \<and>
      \<not> max_per_day_sats p < sat_add spent (amount_sats i) \<and>
      (allows_destination p (destination i) \<or> bp_kind p = Channels \<and> is_addr (destination i))"
    by (simp add: evaluate_intent_def Let_def may_debit_users_def)
  then show ?thesis unfolding day zero tx allows_destination_def by auto
qed


section \<open>Properties\<close>

lemma split_sum_bound: "(p::nat) * a div 10000 + p * b div 10000 \<le> p * (a + b) div 10000"
  using div_add1_eq [of "p * a" "p * b" 10000] by (simp add: add_mult_distrib2)

text \<open>C3: splitting a profit by validated basis points conserves it: the three shares add up to
  the profit for every 64-bit amount, no share exceeds its proportion, and below the saturation
  point miners and channels get exactly their floored proportion.\<close>

theorem profit_split_conserves:
  assumes "splits_validate s = Inr ()" and "splits_allocate s profit = (m, c, i)"
  shows "unat m + unat c + unat i = unat profit
    \<and> unat m \<le> unat profit * unat (miners_bps s) div 10000
    \<and> unat c \<le> unat profit * unat (channels_bps s) div 10000
    \<and> (unat profit * 10000 < 2 ^ 64 \<longrightarrow>
         unat m = unat profit * unat (miners_bps s) div 10000 \<and>
         unat c = unat profit * unat (channels_bps s) div 10000)"
proof -
  let ?p = "unat profit" and ?mb = "unat (miners_bps s)" and ?cb = "unat (channels_bps s)"
  have sum: "?mb + ?cb \<le> 10000" using assms(1) by (simp add: splits_validate_ok)
  have m: "m = sat_mul profit (ucast (miners_bps s)) div 10000"
    and c: "c = sat_mul profit (ucast (channels_bps s)) div 10000"
    and i: "i = sat_sub (sat_sub profit m) c"
    using assms(2) by (auto simp: splits_allocate_def Let_def)
  have mle: "unat m \<le> ?p * ?mb div 10000" and cle: "unat c \<le> ?p * ?cb div 10000"
    unfolding m c by (rule share_le)+
  have "unat m + unat c \<le> ?p * (?mb + ?cb) div 10000"
    using mle cle split_sum_bound [of ?p ?mb ?cb] by linarith
  also have "\<dots> \<le> ?p * 10000 div 10000" using sum by (intro div_le_mono mult_le_mono2)
  finally have le: "unat m + unat c \<le> ?p" by simp
  have "unat i = ?p - unat m - unat c" by (simp add: i sat_nat)
  moreover have "?p * ?mb < 2 ^ 64 \<and> ?p * ?cb < 2 ^ 64" if "?p * 10000 < 2 ^ 64"
    using that sum mult_le_mono2 [of ?mb 10000 ?p] mult_le_mono2 [of ?cb 10000 ?p] by linarith
  ultimately show ?thesis using le mle cle m c share_exact by auto
qed

theorem profit_split_conserves_witness:
  "unat (fst (splits_allocate splits_lab_dry_run 10001)) +
   unat (fst (snd (splits_allocate splits_lab_dry_run 10001))) +
   unat (snd (snd (splits_allocate splits_lab_dry_run 10001))) = 10001"
  using profit_split_conserves [of splits_lab_dry_run 10001
      "fst (splits_allocate splits_lab_dry_run 10001)"
      "fst (snd (splits_allocate splits_lab_dry_run 10001))"
      "snd (snd (splits_allocate splits_lab_dry_run 10001))"]
  by (simp add: splits_validate_ok splits_lab_dry_run_def)

text \<open>C4: the spend gate accepts an intent exactly when the policy is the bucket's own, the
  intent carries the active policy hash, the amount is positive and within the per-transaction
  cap, today's spend plus the amount fits the daily cap as unbounded integers (a daily cap of
  \<open>u64::MAX\<close> being no cap, since the code's sum saturates), and the destination is
  allowlisted, a Bitcoin address being enough for CHANNELS only.\<close>

theorem evaluate_intent_accepts_iff:
  "evaluate_intent is_addr i p spent active = Inr () \<longleftrightarrow>
     bp_kind p = si_bucket i \<and> policy_hash i = active \<and>
     0 < unat (amount_sats i) \<and> unat (amount_sats i) \<le> unat (max_per_tx_sats p) \<and>
     (unat spent + unat (amount_sats i) \<le> unat (max_per_day_sats p)
        \<or> unat (max_per_day_sats p) = 2 ^ 64 - 1) \<and>
     (destination i \<in> set (destination_allowlist p)
        \<or> si_bucket i = Channels \<and> is_addr (destination i))"
  by (rule evaluate_intent_ok)

end
