(* ===== verification/BucketLedger.thy ===== *)
theory BucketLedger
  imports Bucket
begin

text \<open>
  The spend ledger of the buckets: \<open>InMemoryBucketLedger\<close> and \<open>PersistedBucketLedger\<close>
  (\<open>vault-core/src/adapters/bucket_memory.rs\<close>).  Every operation of the source runs under one
  mutex, so an operation is a function of the state; the instant it runs at is its first
  argument, in seconds of the monotonic clock.  The result of a disk append is the argument
  \<open>io\<close> (\<open>None\<close> for success, \<open>Some e\<close> the error the code returns).
\<close>

section \<open>State\<close>

record bucket_state =
  policies :: "bucket_kind \<Rightarrow> bucket_policy option"
  spent_map :: "bucket_kind \<Rightarrow> u64 option"
  consumed :: "string set"
  reserved :: "(bucket_kind \<times> u64 \<times> nat) btmap"

definition reserve_ttl :: nat where
  "reserve_ttl = 300"

definition caps_for :: "u64 \<Rightarrow> u64 \<Rightarrow> bucket_kind \<Rightarrow> u64 \<times> u64" where
  "caps_for max_tx max_day k =
     (case k of
        Users \<Rightarrow> (max_tx, max_day)
      | Profit \<Rightarrow> (max_tx, max_day)
      | Miners \<Rightarrow> (max_tx div 10, max_day div 10)
      | Channels \<Rightarrow> (max_tx, max_day)
      | Infra \<Rightarrow> (max_tx div 5, max_day div 5))"

definition from_constitution_caps :: "u64 \<Rightarrow> u64 \<Rightarrow> bucket_state" where
  "from_constitution_caps max_tx max_day =
     \<lparr>policies = (\<lambda>k. case caps_for max_tx max_day k of
                    (tx, day) \<Rightarrow> Some (policy_lab_defaults k (max tx 1) (max day 1))),
      spent_map = (\<lambda>k. None), consumed = {}, reserved = []\<rparr>"

definition spent_of :: "bucket_kind \<Rightarrow> bucket_state \<Rightarrow> u64" where
  "spent_of k g = (case spent_map g k of None \<Rightarrow> 0 | Some v \<Rightarrow> v)"

text \<open>\<open>*spent_today.entry(kind).or_insert(0) += amount\<close>, saturating.\<close>

definition add_spend :: "bucket_kind \<Rightarrow> u64 \<Rightarrow> bucket_state \<Rightarrow> bucket_state" where
  "add_spend k a g = g\<lparr>spent_map := (spent_map g)(k := Some (sat_add (spent_of k g) a))\<rparr>"

text \<open>\<open>if let Some(spent) = spent_today.get_mut(&kind)\<close> then subtract, saturating.\<close>

definition roll_back :: "bucket_kind \<Rightarrow> u64 \<Rightarrow> bucket_state \<Rightarrow> bucket_state" where
  "roll_back k a g =
     (case spent_map g k of
        None \<Rightarrow> g
      | Some v \<Rightarrow> g\<lparr>spent_map := (spent_map g)(k := Some (sat_sub v a))\<rparr>)"

definition drop_reservation :: "string \<Rightarrow> bucket_state \<Rightarrow> bucket_state" where
  "drop_reservation i g = g\<lparr>reserved := bt_remove i (reserved g)\<rparr>"

definition put_reservation :: "string \<Rightarrow> bucket_kind \<Rightarrow> u64 \<Rightarrow> nat \<Rightarrow> bucket_state \<Rightarrow> bucket_state" where
  "put_reservation i k a e g = g\<lparr>reserved := bt_put i (k, a, e) (reserved g)\<rparr>"

definition burn :: "string \<Rightarrow> bucket_state \<Rightarrow> bucket_state" where
  "burn i g = g\<lparr>consumed := insert i (consumed g)\<rparr>"


section \<open>Operations of the in-memory ledger\<close>

definition expire_one :: "string \<Rightarrow> bucket_state \<Rightarrow> bucket_state" where
  "expire_one i g =
     (case bt_get i (reserved g) of
        None \<Rightarrow> g
      | Some (k, a, e) \<Rightarrow> roll_back k a (drop_reservation i g))"

definition sweep_expired :: "nat \<Rightarrow> bucket_state \<Rightarrow> bucket_state" where
  "sweep_expired now g =
     foldl (\<lambda>h i. expire_one i h) g
       (map fst (filter (\<lambda>(i, k, a, e). e \<le> now) (reserved g)))"

definition admit_destinations :: "bucket_kind \<Rightarrow> string list \<Rightarrow> bucket_state \<Rightarrow> unit res \<times> bucket_state" where
  "admit_destinations k ds g =
     (case policies g k of
        None \<Rightarrow> (Inl (InvalidBucket (bucket_str k)), g)
      | Some p \<Rightarrow> (Inr (), g\<lparr>policies := (policies g)(k := Some (extend_destinations ds p))\<rparr>))"

definition policy_of :: "bucket_kind \<Rightarrow> bucket_state \<Rightarrow> bucket_policy res" where
  "policy_of k g = (case policies g k of None \<Rightarrow> Inl (InvalidBucket (bucket_str k)) | Some p \<Rightarrow> Inr p)"

definition record_spend :: "bucket_kind \<Rightarrow> u64 \<Rightarrow> bucket_state \<Rightarrow> unit res \<times> bucket_state" where
  "record_spend k a g = (Inr (), add_spend k a g)"

definition is_consumed :: "string \<Rightarrow> bucket_state \<Rightarrow> bool" where
  "is_consumed i g = (i \<in> consumed g)"

definition mark_consumed :: "string \<Rightarrow> bucket_state \<Rightarrow> unit res \<times> bucket_state" where
  "mark_consumed i g = (Inr (), burn i g)"

definition try_consume :: "nat \<Rightarrow> string \<Rightarrow> bucket_state \<Rightarrow> unit res \<times> bucket_state" where
  "try_consume now i g0 =
     (let g = sweep_expired now g0 in
      if i \<in> consumed g then (Inl (IntentReplay i), g)
      else (Inr (), burn i (drop_reservation i g)))"

definition has_reservation :: "nat \<Rightarrow> string \<Rightarrow> bucket_state \<Rightarrow> bool \<times> bucket_state" where
  "has_reservation now i g0 =
     (let g = sweep_expired now g0 in (bt_get i (reserved g) \<noteq> None, g))"

type_synonym validator = "bucket_policy \<Rightarrow> u64 \<Rightarrow> unit res"

definition reserve_spend ::
  "nat \<Rightarrow> string \<Rightarrow> bucket_kind \<Rightarrow> u64 \<Rightarrow> validator \<Rightarrow> bucket_state \<Rightarrow> unit res \<times> bucket_state" where
  "reserve_spend now i k a validate g0 =
     (let g = sweep_expired now g0 in
      if i \<in> consumed g then (Inl (IntentReplay i), g)
      else case bt_get i (reserved g) of
        Some (k', a', e) \<Rightarrow> if k' = k \<and> a' = a then (Inr (), g) else (Inl (IntentReplay i), g)
      | None \<Rightarrow>
          (case policy_of k g of
             Inl er \<Rightarrow> (Inl er, g)
           | Inr p \<Rightarrow>
               (case validate p (spent_of k g) of
                  Inl er \<Rightarrow> (Inl er, g)
                | Inr _ \<Rightarrow> (Inr (), put_reservation i k a (now + reserve_ttl) (add_spend k a g)))))"

definition commit_consume :: "nat \<Rightarrow> string \<Rightarrow> bucket_state \<Rightarrow> unit res \<times> bucket_state" where
  "commit_consume now i g0 =
     (let g = sweep_expired now g0 in
      if i \<in> consumed g then (Inr (), g)
      else if bt_get i (reserved g) = None then (Inl (ReservationMissing i), g)
      else (Inr (), burn i (drop_reservation i g)))"

definition release_reservation ::
  "string \<Rightarrow> bucket_kind \<Rightarrow> u64 \<Rightarrow> bucket_state \<Rightarrow> unit res \<times> bucket_state" where
  "release_reservation i k a g =
     (case bt_get i (reserved g) of
        Some (k', a', e) \<Rightarrow> (Inr (), roll_back k' a' (drop_reservation i g))
      | None \<Rightarrow> (Inr (), roll_back k a g))"

definition authorize_spend_and_consume ::
  "nat \<Rightarrow> string \<Rightarrow> bucket_kind \<Rightarrow> u64 \<Rightarrow> validator \<Rightarrow> bucket_state \<Rightarrow> unit res \<times> bucket_state" where
  "authorize_spend_and_consume now i k a validate g0 =
     (let g = sweep_expired now g0 in
      if i \<in> consumed g \<or> bt_get i (reserved g) \<noteq> None then (Inl (IntentReplay i), g)
      else case policy_of k g of
        Inl er \<Rightarrow> (Inl er, g)
      | Inr p \<Rightarrow>
          (case validate p (spent_of k g) of
             Inl er \<Rightarrow> (Inl er, g)
           | Inr _ \<Rightarrow> (Inr (), burn i (add_spend k a g))))"

text \<open>The operations a client can call, with the instant of each call.\<close>

datatype bucket_op =
    OpTryConsume string
  | OpMarkConsumed string
  | OpRecordSpend bucket_kind u64
  | OpHasReservation string
  | OpReserve string bucket_kind u64 validator
  | OpCommit string
  | OpRelease string bucket_kind u64
  | OpAuthorize string bucket_kind u64 validator

fun bucket_step :: "nat \<times> bucket_op \<Rightarrow> bucket_state \<Rightarrow> unit res \<times> bucket_state" where
  "bucket_step (now, OpTryConsume i) g = try_consume now i g"
| "bucket_step (now, OpMarkConsumed i) g = mark_consumed i g"
| "bucket_step (now, OpRecordSpend k a) g = record_spend k a g"
| "bucket_step (now, OpHasReservation i) g = (Inr (), snd (has_reservation now i g))"
| "bucket_step (now, OpReserve i k a v) g = reserve_spend now i k a v g"
| "bucket_step (now, OpCommit i) g = commit_consume now i g"
| "bucket_step (now, OpRelease i k a) g = release_reservation i k a g"
| "bucket_step (now, OpAuthorize i k a v) g = authorize_spend_and_consume now i k a v g"


section \<open>Accounting\<close>

text \<open>What the live reservations of a bucket hold, and the accounting invariant: they are part of
  what the bucket counts as spent.\<close>

definition reserved_total :: "bucket_kind \<Rightarrow> bucket_state \<Rightarrow> nat" where
  "reserved_total k g = (\<Sum>(i, j, a, e) \<leftarrow> reserved g. if j = k then unat a else 0)"

definition ledger_inv :: "bucket_state \<Rightarrow> bool" where
  "ledger_inv g \<longleftrightarrow> bt_ok (reserved g) \<and> (\<forall>k. reserved_total k g \<le> unat (spent_of k g))"

definition committed :: "bucket_kind \<Rightarrow> bucket_state \<Rightarrow> nat" where
  "committed k g = unat (spent_of k g) - reserved_total k g"

named_theorems ledger_simps \<open>fields of the bucket state after the elementary updates\<close>

lemma spent_of_simps [ledger_simps, simp]:
  "spent_of k (add_spend j a g) = (if k = j then sat_add (spent_of j g) a else spent_of k g)"
  "spent_of k (roll_back j a g) = (if k = j then sat_sub (spent_of j g) a else spent_of k g)"
  "spent_of k (drop_reservation i g) = spent_of k g"
  "spent_of k (put_reservation i j a e g) = spent_of k g"
  "spent_of k (burn i g) = spent_of k g"
  by (auto simp: spent_of_def add_spend_def roll_back_def drop_reservation_def put_reservation_def
      burn_def sat_sub_def split: option.splits)

lemma reserved_simps [ledger_simps, simp]:
  "reserved (add_spend j a g) = reserved g"
  "reserved (roll_back j a g) = reserved g"
  "reserved (drop_reservation i g) = bt_remove i (reserved g)"
  "reserved (put_reservation i j a e g) = bt_put i (j, a, e) (reserved g)"
  "reserved (burn i g) = reserved g"
  by (auto simp: add_spend_def roll_back_def drop_reservation_def put_reservation_def
      burn_def split: option.splits)

lemma consumed_simps [ledger_simps, simp]:
  "consumed (add_spend j a g) = consumed g"
  "consumed (roll_back j a g) = consumed g"
  "consumed (drop_reservation i g) = consumed g"
  "consumed (put_reservation i j a e g) = consumed g"
  "consumed (burn i g) = insert i (consumed g)"
  by (auto simp: add_spend_def roll_back_def drop_reservation_def put_reservation_def
      burn_def split: option.splits)

lemma policies_simps [ledger_simps, simp]:
  "policies (add_spend j a g) = policies g"
  "policies (roll_back j a g) = policies g"
  "policies (drop_reservation i g) = policies g"
  "policies (put_reservation i j a e g) = policies g"
  "policies (burn i g) = policies g"
  by (auto simp: add_spend_def roll_back_def drop_reservation_def put_reservation_def
      burn_def split: option.splits)

lemma reserved_total_cong: "reserved h = reserved g \<Longrightarrow> reserved_total k h = reserved_total k g"
  by (simp add: reserved_total_def)

lemma reserved_total_simps [simp]:
  "reserved_total k (add_spend j a g) = reserved_total k g"
  "reserved_total k (roll_back j a g) = reserved_total k g"
  "reserved_total k (burn i g) = reserved_total k g"
  by (simp_all add: reserved_total_def)

lemma reserved_total_drop:
  assumes "bt_ok (reserved g)" "bt_get i (reserved g) = Some (j, a, e)"
  shows "reserved_total k g =
    (if j = k then unat a else 0) + reserved_total k (drop_reservation i g)"
  using bt_sum_remove [OF assms, of "\<lambda>(i, j, a, e). if j = k then unat a else 0"]
  by (simp add: reserved_total_def)

lemma reserved_total_put:
  assumes "bt_get i (reserved g) = None"
  shows "reserved_total k (put_reservation i j a e g) = (if j = k then unat a else 0) + reserved_total k g"
  using bt_sum_put_new [OF assms, of "\<lambda>(i, j, a, e). if j = k then unat a else 0" "(j, a, e)"]
  by (simp add: reserved_total_def)

text \<open>Dropping a live reservation and rolling its amount back keeps the committed total.\<close>

lemma roll_back_drop:
  assumes "ledger_inv g" "bt_get i (reserved g) = Some (j, a, e)"
  shows "ledger_inv (roll_back j a (drop_reservation i g))"
    and "committed k (roll_back j a (drop_reservation i g)) = committed k g"
proof -
  let ?h = "roll_back j a (drop_reservation i g)"
  have ok: "bt_ok (reserved g)" and le: "reserved_total k g \<le> unat (spent_of k g)" for k
    using assms(1) by (auto simp: ledger_inv_def)
  have eq: "reserved_total k g = (if j = k then unat a else 0) + reserved_total k (drop_reservation i g)" for k
    using reserved_total_drop [OF ok assms(2)] .
  have "reserved_total k ?h \<le> unat (spent_of k ?h)" for k
    using eq [of k] le [of k] by (auto simp: sat_nat)
  then show "ledger_inv ?h" using ok by (auto simp: ledger_inv_def)
  show "committed k ?h = committed k g"
    using eq [of k] le [of k] by (auto simp: committed_def sat_nat)
qed

lemma expire_one_keeps:
  assumes "ledger_inv g"
  shows "ledger_inv (expire_one i g)" "committed k (expire_one i g) = committed k g"
    and "spent_of k (expire_one i g) \<le> spent_of k g"
  using assms roll_back_drop [OF assms]
  by (auto simp: expire_one_def sat_sub_le split: option.splits)

lemma expire_one_fields [simp]:
  "consumed (expire_one i g) = consumed g" "policies (expire_one i g) = policies g"
  by (auto simp: expire_one_def split: option.splits)

lemma expire_fold_keeps:
  assumes "ledger_inv g"
  shows "ledger_inv (foldl (\<lambda>h i. expire_one i h) g is)
    \<and> committed k (foldl (\<lambda>h i. expire_one i h) g is) = committed k g
    \<and> spent_of k (foldl (\<lambda>h i. expire_one i h) g is) \<le> spent_of k g
    \<and> consumed (foldl (\<lambda>h i. expire_one i h) g is) = consumed g
    \<and> policies (foldl (\<lambda>h i. expire_one i h) g is) = policies g"
  using assms
proof (induction "is" arbitrary: g)
  case (Cons i "is")
  note IH = Cons.IH [OF expire_one_keeps(1) [OF Cons.prems, of i]]
  have "spent_of k (foldl (\<lambda>h i. expire_one i h) (expire_one i g) is) \<le> spent_of k g"
    using conjunct1 [OF conjunct2 [OF conjunct2 [OF IH]]] expire_one_keeps(3) [OF Cons.prems]
    by (rule order_trans)
  then show ?case using IH expire_one_keeps(2) [OF Cons.prems] by simp
qed simp

lemma sweep_keeps:
  assumes "ledger_inv g"
  shows "ledger_inv (sweep_expired now g)" "committed k (sweep_expired now g) = committed k g"
    and "spent_of k (sweep_expired now g) \<le> spent_of k g"
  using expire_fold_keeps [OF assms] by (auto simp: sweep_expired_def)

lemma sweep_fields [simp]:
  "consumed (sweep_expired now g) = consumed g" "policies (sweep_expired now g) = policies g"
proof -
  have "consumed (foldl (\<lambda>h i. expire_one i h) g is) = consumed g
      \<and> policies (foldl (\<lambda>h i. expire_one i h) g is) = policies g" for "is"
    by (induction "is" arbitrary: g) auto
  then show "consumed (sweep_expired now g) = consumed g" "policies (sweep_expired now g) = policies g"
    by (auto simp: sweep_expired_def)
qed

lemma add_spend_put:
  assumes "ledger_inv g" "bt_get i (reserved g) = None"
    and "unat (spent_of j g) + unat a < 2 ^ 64"
  shows "ledger_inv (put_reservation i j a e (add_spend j a g))"
    and "committed k (put_reservation i j a e (add_spend j a g)) = committed k g"
  using assms
  by (auto simp: ledger_inv_def committed_def reserved_total_put sat_nat intro!: bt_ok_put)

lemma burn_add_spend:
  assumes "ledger_inv g" "unat (spent_of j g) + unat a < 2 ^ 64"
  shows "ledger_inv (burn i (add_spend j a g))"
    and "committed k (burn i (add_spend j a g)) = committed k g + (if j = k then unat a else 0)"
proof -
  have "reserved_total k g \<le> unat (spent_of k g)" for k using assms(1) by (simp add: ledger_inv_def)
  then show "ledger_inv (burn i (add_spend j a g))"
    and "committed k (burn i (add_spend j a g)) = committed k g + (if j = k then unat a else 0)"
    using assms by (auto simp: ledger_inv_def committed_def sat_nat trans_le_add1)
qed

lemma burn_drop:
  assumes "ledger_inv g"
  shows "ledger_inv (burn i (drop_reservation i g))"
    and "committed k (burn i (drop_reservation i g)) = committed k g +
      (case bt_get i (reserved g) of None \<Rightarrow> 0 | Some (j, a, e) \<Rightarrow> if j = k then unat a else 0)"
proof -
  have ok: "bt_ok (reserved g)" and le: "reserved_total k g \<le> unat (spent_of k g)" for k
    using assms by (auto simp: ledger_inv_def)
  have eq: "reserved_total k g =
      (case bt_get i (reserved g) of None \<Rightarrow> 0 | Some (j, a, e) \<Rightarrow> if j = k then unat a else 0)
      + reserved_total k (drop_reservation i g)" for k
  proof (cases "bt_get i (reserved g)")
    case None
    then show ?thesis by (simp add: reserved_total_def bt_remove_absent)
  next
    case (Some v)
    then show ?thesis using reserved_total_drop [OF ok] by (cases v) simp
  qed
  show "ledger_inv (burn i (drop_reservation i g))"
    unfolding ledger_inv_def
  proof (intro conjI allI)
    fix k
    show "reserved_total k (burn i (drop_reservation i g)) \<le> unat (spent_of k (burn i (drop_reservation i g)))"
      using eq [of k] le [of k] by simp
  qed (use ok in auto)
  show "committed k (burn i (drop_reservation i g)) = committed k g +
      (case bt_get i (reserved g) of None \<Rightarrow> 0 | Some (j, a, e) \<Rightarrow> if j = k then unat a else 0)"
    using eq [of k] le [of k] by (simp add: committed_def)
qed


text \<open>For evaluating concrete runs.\<close>

lemmas ledger_defs = try_consume_def mark_consumed_def record_spend_def has_reservation_def
  reserve_spend_def commit_consume_def release_reservation_def authorize_spend_and_consume_def
  sweep_expired_def expire_one_def policy_of_def reserve_ttl_def spent_of_def add_spend_def
  roll_back_def drop_reservation_def put_reservation_def burn_def from_constitution_caps_def
  caps_for_def policy_lab_defaults_def bs_of_def evaluate_intent_def may_debit_users_def
  allows_destination_def sat_add_def sat_sub_def Let_def

section \<open>Runs under the client's discipline\<close>

text \<open>A validator enforces the daily cap when it accepts only amounts that still fit it.
  \<open>evaluate_intent\<close> does, for every cap below \<open>u64::MAX\<close>.\<close>

definition cap_validator :: "u64 \<Rightarrow> validator \<Rightarrow> bool" where
  "cap_validator a v \<longleftrightarrow>
     (\<forall>p s. v p s = Inr () \<longrightarrow> max_per_day_sats p \<noteq> - 1 \<longrightarrow>
        unat s + unat a \<le> unat (max_per_day_sats p))"

definition disciplined :: "nat \<times> bucket_op \<Rightarrow> bucket_state \<Rightarrow> bool" where
  "disciplined x g =
     (case snd x of
        OpReserve i k a v \<Rightarrow> cap_validator a v
      | OpAuthorize i k a v \<Rightarrow> cap_validator a v
      | OpRelease i k a \<Rightarrow> bt_get i (reserved g) \<noteq> None
      | OpRecordSpend k a \<Rightarrow> False
      | _ \<Rightarrow> True)"

text \<open>What a step durably commits in bucket \<open>k\<close>: the amount of the reservation a successful consume
  or commit takes (after the sweep of that call), or the amount an authorize spends.\<close>

definition live_amount :: "nat \<Rightarrow> string \<Rightarrow> bucket_kind \<Rightarrow> bucket_state \<Rightarrow> nat" where
  "live_amount now i k g =
     (if i \<in> consumed g then 0
      else case bt_get i (reserved (sweep_expired now g)) of
        None \<Rightarrow> 0 | Some (j, a, e) \<Rightarrow> if j = k then unat a else 0)"

fun charge :: "nat \<times> bucket_op \<Rightarrow> bucket_kind \<Rightarrow> bucket_state \<Rightarrow> nat" where
  "charge (now, OpTryConsume i) k g = live_amount now i k g"
| "charge (now, OpCommit i) k g = live_amount now i k g"
| "charge (now, OpAuthorize i j a v) k g =
     (if j = k \<and> is_ok (fst (authorize_spend_and_consume now i j a v g)) then unat a else 0)"
| "charge _ k g = 0"

inductive bucket_run :: "bucket_state \<Rightarrow> (bucket_kind \<Rightarrow> nat) \<Rightarrow> bucket_state \<Rightarrow> bool" for g0 where
  start: "bucket_run g0 (\<lambda>k. 0) g0"
| step: "bucket_run g0 c g \<Longrightarrow> disciplined x g \<Longrightarrow>
    bucket_run g0 (\<lambda>k. c k + charge x k g) (snd (bucket_step x g))"

definition within_caps :: "bucket_state \<Rightarrow> bool" where
  "within_caps g \<longleftrightarrow>
     (\<forall>k p. policies g k = Some p \<longrightarrow>
        max_per_day_sats p \<noteq> - 1 \<and> unat (spent_of k g) \<le> unat (max_per_day_sats p))"

lemma within_caps_le:
  assumes "within_caps g" "policies h = policies g" "\<And>k. spent_of k h \<le> spent_of k g"
  shows "within_caps h"
  using assms(1,2) order_trans [OF assms(3) [unfolded word_le_nat_alt]]
  by (auto simp: within_caps_def)

lemma within_caps_sweep: "ledger_inv g \<Longrightarrow> within_caps g \<Longrightarrow> within_caps (sweep_expired now g)"
  by (rule within_caps_le [of g]) (auto intro: sweep_keeps)

lemma within_caps_add:
  assumes "within_caps g" "policies g k = Some p"
    and "unat (spent_of k g) + unat a \<le> unat (max_per_day_sats p)"
  shows "within_caps (add_spend k a g)" "unat (spent_of k g) + unat a < 2 ^ 64"
  using assms unat_lt_64 [of "max_per_day_sats p"]
  by (auto simp: within_caps_def sat_nat)

lemma within_caps_simps [simp]:
  "within_caps (burn i g) = within_caps g"
  "within_caps (drop_reservation i g) = within_caps g"
  "within_caps (put_reservation i j a e g) = within_caps g"
  by (simp_all add: within_caps_def)

text \<open>The accounting statement of one step: the invariant and the caps survive, and the committed
  total grows by exactly the step's charge.\<close>

definition good_step :: "bucket_state \<Rightarrow> (bucket_kind \<Rightarrow> nat) \<Rightarrow> bucket_state \<Rightarrow> bool" where
  "good_step g c h \<longleftrightarrow> ledger_inv h \<and> within_caps h \<and> (\<forall>k. committed k h = committed k g + c k)"

lemma good_refl: "ledger_inv g \<Longrightarrow> within_caps g \<Longrightarrow> good_step g (\<lambda>k. 0) g"
  by (simp add: good_step_def)

lemma good_sweep:
  "ledger_inv g \<Longrightarrow> within_caps g \<Longrightarrow> good_step g (\<lambda>k. 0) (sweep_expired now g)"
  by (simp add: good_step_def sweep_keeps within_caps_sweep)

lemma good_after_sweep:
  "ledger_inv g \<Longrightarrow> good_step (sweep_expired now g) c h \<Longrightarrow> good_step g c h"
  by (simp add: good_step_def sweep_keeps)

lemma good_burn_drop:
  "ledger_inv g \<Longrightarrow> within_caps g \<Longrightarrow>
   good_step g (\<lambda>k. case bt_get i (reserved g) of None \<Rightarrow> 0 | Some (j, a, e) \<Rightarrow> if j = k then unat a else 0)
     (burn i (drop_reservation i g))"
  by (simp add: good_step_def burn_drop)

lemma good_release:
  assumes "ledger_inv g" "within_caps g" "bt_get i (reserved g) = Some (j, a, e)"
  shows "good_step g (\<lambda>k. 0) (roll_back j a (drop_reservation i g))"
proof -
  have "within_caps (roll_back j a (drop_reservation i g))"
    by (rule within_caps_le [OF assms(2)]) (auto simp: sat_sub_le)
  then show ?thesis using roll_back_drop [OF assms(1,3)] by (simp add: good_step_def)
qed

lemma good_reserve:
  assumes "ledger_inv g" "within_caps g" "policies g k = Some p" "bt_get i (reserved g) = None"
    and "unat (spent_of k g) + unat a \<le> unat (max_per_day_sats p)"
  shows "good_step g (\<lambda>k. 0) (put_reservation i k a e (add_spend k a g))"
  using add_spend_put [OF assms(1,4)] within_caps_add [OF assms(2,3,5)] by (simp add: good_step_def)

lemma good_authorize:
  assumes "ledger_inv g" "within_caps g" "policies g k = Some p"
    and "unat (spent_of k g) + unat a \<le> unat (max_per_day_sats p)"
  shows "good_step g (\<lambda>j. if k = j then unat a else 0) (burn i (add_spend k a g))"
  using burn_add_spend [OF assms(1)] within_caps_add [OF assms(2-4)] by (simp add: good_step_def)

lemmas good_intros = good_refl good_sweep good_burn_drop good_release good_reserve good_authorize

lemma good_try_consume:
  assumes "ledger_inv g" "within_caps g"
  shows "good_step g (\<lambda>k. live_amount now i k g) (snd (try_consume now i g))"
proof -
  let ?h = "sweep_expired now g"
  have h: "ledger_inv ?h" "within_caps ?h" using assms by (auto simp: sweep_keeps within_caps_sweep)
  show ?thesis
    using good_sweep [OF assms] good_after_sweep [OF assms(1) good_burn_drop [OF h, of i]]
    by (auto simp: try_consume_def Let_def live_amount_def)
qed

lemma good_commit:
  assumes "ledger_inv g" "within_caps g"
  shows "good_step g (\<lambda>k. live_amount now i k g) (snd (commit_consume now i g))"
proof -
  let ?h = "sweep_expired now g"
  have h: "ledger_inv ?h" "within_caps ?h" using assms by (auto simp: sweep_keeps within_caps_sweep)
  show ?thesis
    using good_sweep [OF assms] good_after_sweep [OF assms(1) good_burn_drop [OF h, of i]]
    by (auto simp: commit_consume_def Let_def live_amount_def)
qed

lemma good_reserve_spend:
  assumes "ledger_inv g" "within_caps g" "cap_validator a v"
  shows "good_step g (\<lambda>k. 0) (snd (reserve_spend now i k a v g))"
proof -
  let ?h = "sweep_expired now g"
  have h: "ledger_inv ?h" "within_caps ?h" using assms by (auto simp: sweep_keeps within_caps_sweep)
  have "good_step g (\<lambda>k. 0) (put_reservation i k a e (add_spend k a ?h))"
    if "policies g k = Some p" "v p (spent_of k ?h) = Inr ()" "bt_get i (reserved ?h) = None" for p e
    using that assms(3) h(2) [unfolded within_caps_def]
    by (intro good_after_sweep [OF assms(1), where now = now] good_reserve [OF h, of _ p]) (auto simp: cap_validator_def)
  then show ?thesis
    using good_sweep [OF assms(1,2)]
    by (auto simp: reserve_spend_def Let_def policy_of_def split: option.splits sum.splits)
qed

lemma good_authorize_spend:
  assumes "ledger_inv g" "within_caps g" "cap_validator a v"
  shows "good_step g (\<lambda>j. if k = j \<and> is_ok (fst (authorize_spend_and_consume now i k a v g)) then unat a else 0)
    (snd (authorize_spend_and_consume now i k a v g))"
proof -
  let ?h = "sweep_expired now g"
  have h: "ledger_inv ?h" "within_caps ?h" using assms by (auto simp: sweep_keeps within_caps_sweep)
  have "good_step g (\<lambda>j. if k = j then unat a else 0) (burn i (add_spend k a ?h))"
    if "policies g k = Some p" "v p (spent_of k ?h) = Inr ()" for p
    using that assms(3) h(2) [unfolded within_caps_def]
    by (intro good_after_sweep [OF assms(1), where now = now] good_authorize [OF h, of _ p]) (auto simp: cap_validator_def)
  then show ?thesis
    using good_sweep [OF assms(1,2)]
    by (auto simp: authorize_spend_and_consume_def Let_def policy_of_def split: option.splits sum.splits)
qed

lemma good_bucket_step:
  assumes "ledger_inv g" "within_caps g" "disciplined x g"
  shows "good_step g (\<lambda>k. charge x k g) (snd (bucket_step x g))"
proof -
  obtain now op where x: "x = (now, op)" by (cases x)
  show ?thesis
  proof (cases op)
    case (OpMarkConsumed i)
    have "good_step g (\<lambda>k. 0) (burn i g)" using assms
      by (auto simp: good_step_def ledger_inv_def committed_def)
    then show ?thesis by (simp add: x OpMarkConsumed mark_consumed_def)
  qed (use assms in \<open>auto simp: x disciplined_def has_reservation_def Let_def release_reservation_def
        good_try_consume good_commit good_reserve_spend good_authorize_spend good_sweep
        intro: good_release split: option.splits\<close>)
qed


lemma bucket_run_good:
  assumes "bucket_run g0 c g" "ledger_inv g0" "within_caps g0"
  shows "ledger_inv g \<and> within_caps g \<and> (\<forall>k. committed k g = committed k g0 + c k)"
  using assms
proof (induction rule: bucket_run.induct)
  case (step c g x)
  then have "good_step g (\<lambda>k. charge x k g) (snd (bucket_step x g))" by (intro good_bucket_step) auto
  then show ?case using step by (simp add: good_step_def)
qed simp

lemma sweep_policies_step [simp]: "policies (snd (bucket_step x g)) = policies g"
proof -
  obtain now op where "x = (now, op)" by (cases x)
  then show ?thesis
    by (cases op)
       (auto simp: try_consume_def mark_consumed_def record_spend_def has_reservation_def
        reserve_spend_def commit_consume_def release_reservation_def authorize_spend_and_consume_def
        Let_def split: option.splits sum.splits)
qed

lemma bucket_run_policies: "bucket_run g0 c g \<Longrightarrow> policies g = policies g0"
  by (induction rule: bucket_run.induct) auto

lemma initial_policy:
  "policies (from_constitution_caps tx day) k =
     Some (policy_lab_defaults k (max (fst (caps_for tx day k)) 1) (max (snd (caps_for tx day k)) 1))"
  by (simp add: from_constitution_caps_def case_prod_beta)

lemma caps_for_le: "snd (caps_for tx day k) \<le> day"
  by (cases k) (auto simp: caps_for_def word_le_nat_alt unat_div)

lemma initial_ok:
  "ledger_inv (from_constitution_caps tx day)"
  "day \<noteq> - 1 \<Longrightarrow> within_caps (from_constitution_caps tx day)"
  "committed k (from_constitution_caps tx day) = 0"
proof -
  show "ledger_inv (from_constitution_caps tx day)" "committed k (from_constitution_caps tx day) = 0"
    by (auto simp: ledger_inv_def committed_def reserved_total_def spent_of_def
        from_constitution_caps_def)
  assume "day \<noteq> - 1"
  then have day: "unat day < 2 ^ 64 - 1" using unat_lt_64 [of day] by (simp add: max_word_iff)
  have "max (snd (caps_for tx day k)) 1 \<noteq> - 1" for k
    using caps_for_le [of tx day k] day by (auto simp: max_def max_word_iff word_le_nat_alt)
  then show "within_caps (from_constitution_caps tx day)"
    by (auto simp: within_caps_def initial_policy policy_lab_defaults_def)
       (auto simp: spent_of_def from_constitution_caps_def)
qed

lemma evaluate_intent_cap_validator:
  "cap_validator (amount_sats i) (\<lambda>p s. evaluate_intent is_addr i p s active)"
  unfolding cap_validator_def
proof (intro allI impI)
  fix p s
  assume "evaluate_intent is_addr i p s active = Inr ()" "max_per_day_sats p \<noteq> - 1"
  then show "unat s + unat (amount_sats i) \<le> unat (max_per_day_sats p)"
    by (auto simp: evaluate_intent_def Let_def day_cap_iff day_room_def split: if_splits)
qed

section \<open>At most one consumption\<close>

fun bucket_win :: "nat \<times> bucket_op \<Rightarrow> unit res \<Rightarrow> string option" where
  "bucket_win (now, OpTryConsume i) (Inr _) = Some i"
| "bucket_win (now, OpAuthorize i k a v) (Inr _) = Some i"
| "bucket_win _ _ = None"

lemma consumed_step_mono: "consumed g \<subseteq> consumed (snd (bucket_step x g))"
proof -
  obtain now op where "x = (now, op)" by (cases x)
  then show ?thesis
    by (cases op)
       (auto simp: try_consume_def mark_consumed_def record_spend_def has_reservation_def
        reserve_spend_def commit_consume_def release_reservation_def authorize_spend_and_consume_def
        Let_def split: option.splits sum.splits)
qed

lemma bucket_win_step:
  assumes "bucket_win x (fst (bucket_step x g)) = Some i"
  shows "i \<notin> consumed g \<and> i \<in> consumed (snd (bucket_step x g))"
proof -
  obtain now op where x: "x = (now, op)" by (cases x)
  show ?thesis
    using assms unfolding x
    by (cases op; cases "fst (bucket_step (now, op) g)")
       (auto simp: try_consume_def authorize_spend_and_consume_def Let_def
        split: if_splits option.splits sum.splits)
qed

interpretation mem: burn_once bucket_step consumed bucket_win
  by unfold_locales (use consumed_step_mono bucket_win_step in auto)


section \<open>Properties\<close>

text \<open>C1: the daily cap holds over every run.  From the boot state, whatever sequence of reserve,
  commit, consume, authorize, expiry and release operations follows, at whatever instants, what
  was durably committed in a bucket plus what its live reservations hold is exactly what the
  ledger counts as spent, and stays within the bucket's daily cap.  The client's discipline is
  that validators enforce the cap (\<open>evaluate_intent\<close> does) and that only live reservations are
  released.\<close>

theorem daily_cap_respected:
  assumes "bucket_run (from_constitution_caps tx day) c g" and "unat day < 2 ^ 64 - 1"
  shows "c k + reserved_total k g = unat (spent_of k g)
    \<and> c k + reserved_total k g \<le> unat (max (snd (caps_for tx day k)) 1)"
proof -
  have day: "day \<noteq> - 1" using assms(2) by (auto simp: unat_max_word)
  note good = bucket_run_good [OF assms(1) initial_ok(1) initial_ok(2) [OF day]]
  have "committed k g = c k" using good initial_ok(3) by simp
  moreover have "reserved_total k g \<le> unat (spent_of k g)" using good by (simp add: ledger_inv_def)
  ultimately have "c k + reserved_total k g = unat (spent_of k g)" by (simp add: committed_def)
  moreover have "unat (spent_of k g) \<le> unat (max (snd (caps_for tx day k)) 1)"
    using good bucket_run_policies [OF assms(1)]
    by (simp add: within_caps_def initial_policy policy_lab_defaults_def)
  ultimately show ?thesis by simp
qed

definition lab_intent :: "string \<Rightarrow> u64 \<Rightarrow> settlement_intent" where
  "lab_intent i a = \<lparr>intent_id = i, si_bucket = Users, destination = ''ln-users-withdraw'',
     amount_sats = a, policy_hash = ''ph''\<rparr>"

definition lab_validator :: "string \<Rightarrow> u64 \<Rightarrow> validator" where
  "lab_validator i a = (\<lambda>p s. evaluate_intent (\<lambda>_. False) (lab_intent i a) p s ''ph'')"

lemma lab_validator_cap: "cap_validator a (lab_validator i a)"
  using evaluate_intent_cap_validator [of "lab_intent i a"]
  by (simp add: lab_validator_def lab_intent_def)

lemma lab_run:
  "bucket_run (from_constitution_caps 100 100)
     (\<lambda>k. charge (1, OpCommit ''i1'') k
        (snd (bucket_step (0, OpReserve ''i1'' Users 60 (lab_validator ''i1'' 60)) (from_constitution_caps 100 100))))
     (snd (bucket_step (1, OpCommit ''i1'')
        (snd (bucket_step (0, OpReserve ''i1'' Users 60 (lab_validator ''i1'' 60)) (from_constitution_caps 100 100)))))"
  (is "bucket_run ?g0 _ (snd (bucket_step ?y ?g1))")
proof -
  have "bucket_run ?g0 (\<lambda>k. 0 + charge (0, OpReserve ''i1'' Users 60 (lab_validator ''i1'' 60)) k ?g0) ?g1"
    by (rule bucket_run.step [OF bucket_run.start]) (simp add: disciplined_def lab_validator_cap)
  then have "bucket_run ?g0 (\<lambda>k. 0) ?g1" by simp
  from bucket_run.step [OF this, of ?y] show ?thesis by (simp add: disciplined_def)
qed

theorem daily_cap_respected_witness:
  "charge (1, OpCommit ''i1'') Users
     (snd (bucket_step (0, OpReserve ''i1'' Users 60 (lab_validator ''i1'' 60)) (from_constitution_caps 100 100)))
     = 60
   \<and> charge (1, OpCommit ''i1'') Users
     (snd (bucket_step (0, OpReserve ''i1'' Users 60 (lab_validator ''i1'' 60)) (from_constitution_caps 100 100)))
     \<le> unat (max (snd (caps_for 100 100 Users)) 1)"
proof
  show "charge (1, OpCommit ''i1'') Users
     (snd (bucket_step (0, OpReserve ''i1'' Users 60 (lab_validator ''i1'' 60)) (from_constitution_caps 100 100)))
     = 60"
    by (simp add: live_amount_def ledger_defs lab_validator_def lab_intent_def max_def)
qed (use daily_cap_respected [OF lab_run, of Users] in simp)

text \<open>C2: over any sequence of operations on the ledger, at any instants and from any state, each
  intent id is consumed by at most one successful \<open>try_consume\<close> or
  \<open>authorize_spend_and_consume\<close>, and no id that was already consumed is ever consumed again.\<close>

theorem intent_consumed_once:
  "distinct (List.map_filter (\<lambda>(x, y). bucket_win x y) (zip ops (fst (run_ops bucket_step ops g))))
   \<and> set (List.map_filter (\<lambda>(x, y). bucket_win x y) (zip ops (fst (run_ops bucket_step ops g))))
       \<inter> consumed g = {}"
  by (rule mem.wins_once)

text \<open>A consumed intent stays consumed: after any further operations every attempt to reserve,
  authorize or consume it again is refused as a replay and changes neither what is spent nor what
  is reserved beyond the expiry sweep, and a retried commit is a no-op that succeeds.\<close>

theorem consumed_intent_final:
  fixes ops :: "(nat \<times> bucket_op) list"
  assumes "i \<in> consumed g"
  defines "h \<equiv> snd (run_ops bucket_step ops g)"
  shows "try_consume now i h = (Inl (IntentReplay i), sweep_expired now h)
    \<and> reserve_spend now i k a v h = (Inl (IntentReplay i), sweep_expired now h)
    \<and> authorize_spend_and_consume now i k a v h = (Inl (IntentReplay i), sweep_expired now h)
    \<and> commit_consume now i h = (Inr (), sweep_expired now h)"
proof -
  have "i \<in> consumed h" using mem.used_mono_run assms by blast
  then show ?thesis
    by (simp add: try_consume_def reserve_spend_def authorize_spend_and_consume_def
        commit_consume_def Let_def)
qed

theorem consumed_intent_final_witness:
  "fst (try_consume 5 ''a'' (snd (run_ops bucket_step [(1, OpTryConsume ''b'')]
     (burn ''a'' (from_constitution_caps 100 100))))) = Inl (IntentReplay ''a'')"
  using consumed_intent_final [of "''a''" "burn ''a'' (from_constitution_caps 100 100)" 5
      "[(1, OpTryConsume ''b'')]" Users 0 "lab_validator ''a'' 0"]
  by simp

text \<open>C4: releasing a reservation that has already expired rolls its amount back a second time.
  With a daily cap of 100, a run of reserve, expiry, reserve, late release and commit lets two
  intents of 60 be committed on one day, every operation succeeding, while the ledger counts 60
  as spent.\<close>

definition late_release_run :: "(nat \<times> bucket_op) list" where
  "late_release_run =
     [(0, OpReserve ''i1'' Users 60 (lab_validator ''i1'' 60)),
      (301, OpReserve ''i2'' Users 60 (lab_validator ''i2'' 60)),
      (302, OpRelease ''i1'' Users 60),
      (303, OpCommit ''i2''),
      (304, OpReserve ''i3'' Users 60 (lab_validator ''i3'' 60)),
      (305, OpCommit ''i3'')]"

definition late_state :: "u64 \<Rightarrow> string set \<Rightarrow> (bucket_kind \<times> u64 \<times> nat) btmap \<Rightarrow> bucket_state" where
  "late_state v c r = \<lparr>policies = policies (from_constitution_caps 100 100),
     spent_map = [Users \<mapsto> v], consumed = c, reserved = r\<rparr>"

lemma late_policy: "policies (late_state v c r) Users = Some (policy_lab_defaults Users 100 100)"
  by (simp add: late_state_def initial_policy caps_for_def max_def)

lemma late_validator: "lab_validator i 60 (policy_lab_defaults Users 100 100) 0 = Inr ()"
  by (simp add: lab_validator_def lab_intent_def evaluate_intent_def policy_lab_defaults_def
      allows_destination_def may_debit_users_def)

lemma late_step1:
  "bucket_step (0, OpReserve ''i1'' Users 60 (lab_validator ''i1'' 60)) (from_constitution_caps 100 100) =
     (Inr (), late_state 60 {} [(''i1'', Users, 60, 300)])"
proof -
  have "policies (from_constitution_caps 100 100) Users = Some (policy_lab_defaults Users 100 100)"
    by (simp add: initial_policy caps_for_def max_def)
  then show ?thesis
    by (simp add: reserve_spend_def sweep_expired_def policy_of_def Let_def spent_of_def late_validator
        late_state_def from_constitution_caps_def put_reservation_def add_spend_def reserve_ttl_def)
qed

lemma late_reserve:
  assumes "bt_get i r = None" "i \<notin> c" "list_all (\<lambda>(i, k, a, e). now < e) r"
  shows "reserve_spend now i Users 60 (lab_validator i 60) (late_state 0 c r) =
    (Inr (), late_state 60 c (bt_put i (Users, 60, now + 300) r))"
proof -
  have "filter (\<lambda>(i, k, a, e). e \<le> now) r = []"
    using assms(3) by (auto simp: filter_empty_conv list_all_iff)
  then have "sweep_expired now (late_state 0 c r) = late_state 0 c r"
    by (simp add: sweep_expired_def late_state_def)
  moreover have "put_reservation i Users 60 (now + reserve_ttl) (add_spend Users 60 (late_state 0 c r)) =
      late_state 60 c (bt_put i (Users, 60, now + 300) r)"
    by (simp add: late_state_def put_reservation_def add_spend_def spent_of_def reserve_ttl_def)
  moreover have "bt_get i (reserved (late_state 0 c r)) = None" "i \<notin> consumed (late_state 0 c r)"
    "spent_of Users (late_state 0 c r) = 0"
    using assms(1,2) by (simp_all add: late_state_def spent_of_def)
  ultimately show ?thesis
    by (simp add: reserve_spend_def policy_of_def late_policy late_validator Let_def)
qed

lemma late_commit:
  assumes "bt_get i r \<noteq> None" "i \<notin> c" "list_all (\<lambda>(i, k, a, e). now < e) r"
  shows "commit_consume now i (late_state v c r) = (Inr (), late_state v (insert i c) (bt_remove i r))"
proof -
  have "filter (\<lambda>(i, k, a, e). e \<le> now) r = []"
    using assms(3) by (auto simp: filter_empty_conv list_all_iff)
  then have "sweep_expired now (late_state v c r) = late_state v c r"
    by (simp add: sweep_expired_def late_state_def)
  moreover have "burn i (drop_reservation i (late_state v c r)) = late_state v (insert i c) (bt_remove i r)"
    by (simp add: late_state_def burn_def drop_reservation_def)
  moreover have "bt_get i (reserved (late_state v c r)) \<noteq> None" "i \<notin> consumed (late_state v c r)"
    using assms(1,2) by (simp_all add: late_state_def)
  ultimately show ?thesis by (simp add: commit_consume_def Let_def)
qed

lemma late_expire:
  "sweep_expired 301 (late_state 60 {} [(''i1'', Users, 60, 300)]) = late_state 0 {} []"
  by (simp add: sweep_expired_def expire_one_def late_state_def roll_back_def drop_reservation_def
      sat_sub_def)

lemma late_step2:
  "bucket_step (301, OpReserve ''i2'' Users 60 (lab_validator ''i2'' 60))
     (late_state 60 {} [(''i1'', Users, 60, 300)]) = (Inr (), late_state 60 {} [(''i2'', Users, 60, 601)])"
proof -
  have "sweep_expired 301 (late_state 0 {} []) = late_state 0 {} []"
    by (simp add: sweep_expired_def late_state_def)
  then have "reserve_spend 301 ''i2'' Users 60 v (late_state 60 {} [(''i1'', Users, 60, 300)]) =
      reserve_spend 301 ''i2'' Users 60 v (late_state 0 {} [])" for v
    by (simp add: reserve_spend_def late_expire)
  then show ?thesis using late_reserve [of "''i2''" "[]" "{}" 301] by simp
qed

lemma late_step3:
  "bucket_step (302, OpRelease ''i1'' Users 60) (late_state 60 {} [(''i2'', Users, 60, 601)]) =
     (Inr (), late_state 0 {} [(''i2'', Users, 60, 601)])"
  by (simp add: release_reservation_def late_state_def roll_back_def sat_sub_def)

theorem late_release_breaks_cap:
  "case run_ops bucket_step late_release_run (from_constitution_caps 100 100) of
     (outs, g) \<Rightarrow> list_all is_ok outs \<and> {''i2'', ''i3''} \<subseteq> consumed g \<and> spent_of Users g = 60
       \<and> policies g Users = Some (policy_lab_defaults Users 100 100)"
proof -
  note p = late_policy
  have c: "consumed (late_state v c r) = c" "spent_of Users (late_state v c r) = v" for v c r
    by (simp_all add: late_state_def spent_of_def)
  show ?thesis
    unfolding late_release_run_def
    by (simp add: late_step1 late_step2 late_step3 late_commit late_reserve c p
        del: bucket_step.simps(5,7))
       (simp add: late_commit late_reserve c p)?
qed

end
