(* ===== verification/Economy.thy ===== *)
theory Economy
  imports Bucket
begin

text \<open>
  Miner rewards (\<open>vault-core/src/domain/reward.rs\<close>): payout cadence, operator eligibility, the
  credit pools, accrual of profit and of governance bounties, equal payouts and the no-self-pay
  check; and the reshare cadence of \<open>domain/reshare_policy.rs\<close>.  \<open>BTreeMap\<close>s are kept in key
  order, so payouts go out in the order the code iterates.
\<close>

section \<open>Cadences\<close>

datatype payout_cadence = CadManual | CadDaily | CadWeekly | CadEpoch

definition cadence_parse :: "string \<Rightarrow> payout_cadence option" where
  "cadence_parse raw =
     (let s = ascii_lower (trim raw) in
      if s = ''manual'' then Some CadManual
      else if s = ''daily'' then Some CadDaily
      else if s = ''weekly'' then Some CadWeekly
      else if s = ''epoch'' then Some CadEpoch
      else None)"

fun cadence_str :: "payout_cadence \<Rightarrow> string" where
  "cadence_str CadManual = ''manual''"
| "cadence_str CadDaily = ''daily''"
| "cadence_str CadWeekly = ''weekly''"
| "cadence_str CadEpoch = ''epoch''"

datatype reshare_policy = ReshareDaily | ReshareManual

definition reshare_parse :: "string \<Rightarrow> reshare_policy option" where
  "reshare_parse raw =
     (let s = ascii_lower (trim raw) in
      if s = ''daily'' \<or> s = ''auto'' then Some ReshareDaily
      else if s = ''manual'' \<or> s = ''on_demand'' \<or> s = ''ondemand'' then Some ReshareManual
      else None)"

fun reshare_str :: "reshare_policy \<Rightarrow> string" where
  "reshare_str ReshareDaily = ''daily''"
| "reshare_str ReshareManual = ''manual''"

text \<open>\<open>env\<close> is the value of \<open>VAULT_RESHARE_POLICY\<close>.\<close>

definition reshare_from_env :: "string option \<Rightarrow> reshare_policy res" where
  "reshare_from_env env =
     (case env of
        None \<Rightarrow> Inr ReshareManual
      | Some raw \<Rightarrow>
          (case reshare_parse raw of
             Some p \<Rightarrow> Inr p
           | None \<Rightarrow> Inl (InvalidConstitution
               (''unknown VAULT_RESHARE_POLICY='' @ raw @ '' (want daily|manual)''))))"


section \<open>Policy, operators and the economy state\<close>

record reward_policy =
  min_uptime_bps_30d :: u32
  min_attestation_streak_days :: u32
  min_bond_sats :: u64
  waiting_pool_share_bps :: u32

definition reward_policy_v1_open :: reward_policy where
  "reward_policy_v1_open =
     \<lparr>min_uptime_bps_30d = 9500, min_attestation_streak_days = 1, min_bond_sats = 0,
      waiting_pool_share_bps = 0\<rparr>"

datatype gov_job = JobDayAdvanced | JobReshareCompleted | JobReleaseCosign | JobReleaseActivate

fun gov_job_str :: "gov_job \<Rightarrow> string" where
  "gov_job_str JobDayAdvanced = ''day_advanced''"
| "gov_job_str JobReshareCompleted = ''reshare_completed''"
| "gov_job_str JobReleaseCosign = ''release_cosign''"
| "gov_job_str JobReleaseActivate = ''release_activate''"

record gov_reward_config =
  reward_sats :: u64
  reward_bps_of_pool :: u32

definition gov_reward_disabled :: gov_reward_config where
  "gov_reward_disabled = \<lparr>reward_sats = 0, reward_bps_of_pool = 0\<rparr>"

definition gov_reward_enabled :: "gov_reward_config \<Rightarrow> bool" where
  "gov_reward_enabled c = (reward_sats c > 0 \<or> reward_bps_of_pool c > 0)"

definition bounty_sats :: "gov_reward_config \<Rightarrow> u64 \<Rightarrow> u64" where
  "bounty_sats c pool =
     (let from_bps = sat_mul pool (ucast (reward_bps_of_pool c)) div 10000
      in sat_add (reward_sats c) from_bps)"

record miner_operator =
  op_node_id :: string
  payout_destination :: string
  uptime_bps_30d :: u32
  attestation_streak_days :: u32
  bond_sats :: u64
  waiting :: bool

definition is_eligible :: "reward_policy \<Rightarrow> miner_operator \<Rightarrow> bool" where
  "is_eligible p o1 =
     (if waiting o1 then False
      else uptime_bps_30d o1 \<ge> min_uptime_bps_30d p
        \<and> attestation_streak_days o1 \<ge> min_attestation_streak_days p
        \<and> bond_sats o1 \<ge> min_bond_sats p
        \<and> trim (payout_destination o1) \<noteq> [])"

record economy_state =
  ec_policy :: reward_policy
  operators :: "miner_operator btmap"
  miner_pool_sats :: u64
  channels_pool_sats :: u64
  infra_pool_sats :: u64
  accrued_profit_sats :: u64
  pending_governance_reward_sats :: u64
  governance_credits :: "u64 btmap"
  crypto_suite_id_pq :: string
  last_miner_payout_at_secs :: "u64 option"
  last_miner_payout_epoch :: "u64 option"

record gov_accrual =
  ga_job :: gov_job
  ga_bounty_sats :: u64
  accrued_to_pool_sats :: u64
  credited :: "(string \<times> u64) list"
  participants :: "string list"
  eligible_credited :: nat

record profit_split_accrual =
  pa_profit_sats :: u64
  pa_miners_sats :: u64
  pa_channels_sats :: u64
  pa_infra_sats :: u64

definition economy_new_open :: economy_state where
  "economy_new_open =
     \<lparr>ec_policy = reward_policy_v1_open, operators = [], miner_pool_sats = 0,
      channels_pool_sats = 0, infra_pool_sats = 0, accrued_profit_sats = 0,
      pending_governance_reward_sats = 0, governance_credits = [],
      crypto_suite_id_pq = ''ml-dsa-65-placeholder'', last_miner_payout_at_secs = None,
      last_miner_payout_epoch = None\<rparr>"


section \<open>Operations\<close>

definition upsert_operator :: "miner_operator \<Rightarrow> economy_state \<Rightarrow> unit res \<times> economy_state" where
  "upsert_operator o1 e =
     (let d = payout_destination o1 in
      if str_contains ''..'' d \<or> CHR ''/'' \<in> set d \<or> chr 92 \<in> set d
      then (Inl (InvalidIntent ''miner payout destination illegal''), e)
      else (Inr (), e\<lparr>operators := bt_put (op_node_id o1) o1 (operators e)\<rparr>))"

definition eligible_active :: "economy_state \<Rightarrow> miner_operator list" where
  "eligible_active e = filter (is_eligible (ec_policy e)) (bt_vals (operators e))"

definition accrue_profit_splits ::
  "u64 \<Rightarrow> profit_splits \<Rightarrow> economy_state \<Rightarrow> profit_split_accrual res \<times> economy_state" where
  "accrue_profit_splits profit s e =
     (case splits_validate s of
        Inl er \<Rightarrow> (Inl er, e)
      | Inr _ \<Rightarrow>
          (case splits_allocate s profit of
             (m, c, i) \<Rightarrow>
               (Inr \<lparr>pa_profit_sats = profit, pa_miners_sats = m, pa_channels_sats = c, pa_infra_sats = i\<rparr>,
                e\<lparr>miner_pool_sats := sat_add (miner_pool_sats e) m,
                  channels_pool_sats := sat_add (channels_pool_sats e) c,
                  infra_pool_sats := sat_add (infra_pool_sats e) i,
                  accrued_profit_sats := sat_add (accrued_profit_sats e) profit\<rparr>)))"

definition accrue_from_profit :: "u64 \<Rightarrow> u32 \<Rightarrow> economy_state \<Rightarrow> u64 \<times> economy_state" where
  "accrue_from_profit profit bps e =
     (case splits_open_with_reward bps of
        Inl _ \<Rightarrow> (0, e)
      | Inr s \<Rightarrow>
          (case accrue_profit_splits profit s e of
             (Inl _, e') \<Rightarrow> (0, e')
           | (Inr a, e') \<Rightarrow> (pa_miners_sats a, e')))"

text \<open>First occurrence of each participant, in order.\<close>

fun dedup_nodes :: "string set \<Rightarrow> string list \<Rightarrow> string list" where
  "dedup_nodes seen [] = []"
| "dedup_nodes seen (p # ps) =
     (if p \<in> seen then dedup_nodes seen ps else p # dedup_nodes (insert p seen) ps)"

text \<open>The loop that hands out \<open>each\<close> to everybody and one more to the first \<open>rem\<close>.\<close>

fun share_loop :: "u64 \<Rightarrow> u64 \<Rightarrow> 'a list \<Rightarrow> ('a \<times> u64) list" where
  "share_loop each rem [] = []"
| "share_loop each rem (x # xs) =
     (if rem > 0 then (x, each + 1) # share_loop each (rem - 1) xs
      else (x, each) # share_loop each rem xs)"

definition equal_shares :: "u64 \<Rightarrow> 'a list \<Rightarrow> ('a \<times> u64) list" where
  "equal_shares amount xs =
     (let n = of_nat (length xs); each = amount div n; rem = amount - each * n
      in share_loop each rem xs)"

definition add_credit :: "string \<times> u64 \<Rightarrow> u64 btmap \<Rightarrow> u64 btmap" where
  "add_credit c m =
     bt_put (fst c) ((case bt_get (fst c) m of None \<Rightarrow> 0 | Some v \<Rightarrow> v) + snd c) m"

definition accrue_governance_job ::
  "gov_job \<Rightarrow> string list \<Rightarrow> gov_reward_config \<Rightarrow> economy_state \<Rightarrow> gov_accrual \<times> economy_state" where
  "accrue_governance_job job parts0 cfg e =
     (let parts = dedup_nodes {} parts0;
          bounty = bounty_sats cfg (miner_pool_sats e) in
      if bounty = 0
      then (\<lparr>ga_job = job, ga_bounty_sats = 0, accrued_to_pool_sats = 0, credited = [],
             participants = parts, eligible_credited = 0\<rparr>, e)
      else
        let eligible = filter (\<lambda>i. case bt_get i (operators e) of
                                     None \<Rightarrow> False | Some o1 \<Rightarrow> is_eligible (ec_policy e) o1) parts;
            cr = (if eligible \<noteq> [] then equal_shares bounty eligible else [])
        in (\<lparr>ga_job = job, ga_bounty_sats = bounty, accrued_to_pool_sats = bounty, credited = cr,
              participants = parts, eligible_credited = length cr\<rparr>,
            e\<lparr>governance_credits := foldl (\<lambda>m c. add_credit c m) (governance_credits e) cr,
              miner_pool_sats := sat_add (miner_pool_sats e) bounty,
              pending_governance_reward_sats := sat_add (pending_governance_reward_sats e) bounty\<rparr>))"

record payout_share =
  ps_node_id :: string
  ps_destination :: string
  ps_amount_sats :: u64

definition propose_equal_payouts :: "economy_state \<Rightarrow> u64 \<Rightarrow> payout_share list res" where
  "propose_equal_payouts e amount =
     (let eligible = eligible_active e in
      if eligible = [] then Inl NoEligibleMiners
      else if amount = 0 \<or> amount > miner_pool_sats e
        then Inl (InsufficientMinerPool (miner_pool_sats e) amount)
      else Inr (map (\<lambda>(o1, sh). \<lparr>ps_node_id = op_node_id o1,
                        ps_destination = payout_destination o1, ps_amount_sats = sh\<rparr>)
                  (equal_shares amount eligible)))"

definition debit_pool :: "u64 \<Rightarrow> economy_state \<Rightarrow> unit res \<times> economy_state" where
  "debit_pool amount e =
     (if amount > miner_pool_sats e then (Inl (InsufficientMinerPool (miner_pool_sats e) amount), e)
      else (Inr (),
        e\<lparr>miner_pool_sats := miner_pool_sats e - amount,
          pending_governance_reward_sats := pending_governance_reward_sats e
             - min amount (pending_governance_reward_sats e)\<rparr>))"

definition assert_payout_cadence_ok ::
  "payout_cadence \<Rightarrow> u64 \<Rightarrow> u64 option \<Rightarrow> economy_state \<Rightarrow> unit res" where
  "assert_payout_cadence_ok cad now cur e =
     (case cad of
        CadManual \<Rightarrow> Inr ()
      | CadDaily \<Rightarrow>
          (case last_miner_payout_at_secs e of
             Some lst \<Rightarrow>
               if sat_sub now lst < 86400
               then Inl (RequestRejected ''miner payout cadence daily: wait 86400s since last payout'')
               else Inr ()
           | None \<Rightarrow> Inr ())
      | CadWeekly \<Rightarrow>
          (case last_miner_payout_at_secs e of
             Some lst \<Rightarrow>
               if sat_sub now lst < 7 * 86400
               then Inl (RequestRejected ''miner payout cadence weekly: wait 604800s since last payout'')
               else Inr ()
           | None \<Rightarrow> Inr ())
      | CadEpoch \<Rightarrow>
          (case cur of
             None \<Rightarrow> Inl (RequestRejected ''miner payout cadence epoch: current epoch required'')
           | Some c \<Rightarrow>
               (case last_miner_payout_epoch e of
                  Some lst \<Rightarrow>
                    if c \<le> lst
                    then Inl (RequestRejected ''miner payout cadence epoch: wait for next epoch'')
                    else Inr ()
                | None \<Rightarrow> Inr ())))"

definition record_miner_payout :: "u64 \<Rightarrow> u64 option \<Rightarrow> economy_state \<Rightarrow> economy_state" where
  "record_miner_payout at ep e =
     (let e1 = e\<lparr>last_miner_payout_at_secs := Some at\<rparr> in
      case ep of Some x \<Rightarrow> e1\<lparr>last_miner_payout_epoch := Some x\<rparr> | None \<Rightarrow> e1)"

definition survivability_ok :: "nat \<Rightarrow> nat \<Rightarrow> bool" where
  "survivability_ok online t = (online \<ge> t \<or> online = 0)"

definition payout_to_intent :: "payout_share \<Rightarrow> string \<Rightarrow> string \<Rightarrow> settlement_intent res" where
  "payout_to_intent s iid ph = intent_new iid Miners (ps_destination s) (ps_amount_sats s) ph"

definition assert_bank_issued_miner_payout :: "economy_state \<Rightarrow> settlement_intent \<Rightarrow> unit res" where
  "assert_bank_issued_miner_payout e i =
     (if si_bucket i \<noteq> Miners then Inr ()
      else if \<not> list_ex (\<lambda>o1. is_eligible (ec_policy e) o1 \<and> payout_destination o1 = destination i)
                  (bt_vals (operators e))
        then Inl MinerSelfPayForbidden
      else Inr ())"


section \<open>Sharing out an amount\<close>

lemma share_loop_fst [simp]: "map fst (share_loop each rem xs) = xs"
  by (induction each rem xs rule: share_loop.induct) auto

lemma length_share_loop [simp]: "length (share_loop each rem xs) = length xs"
  by (induction each rem xs rule: share_loop.induct) auto

lemma share_loop_amount: "(x, v) \<in> set (share_loop each rem xs) \<Longrightarrow> v = each \<or> v = each + 1"
  by (induction each rem xs rule: share_loop.induct) (auto split: if_splits)

lemma share_loop_sum:
  assumes "0 < unat rem \<longrightarrow> unat each + 1 < 2 ^ 64" "unat rem \<le> length xs"
  shows "(\<Sum>(x, v) \<leftarrow> share_loop each rem xs. unat v) = unat each * length xs + unat rem"
  using assms
proof (induction each rem xs rule: share_loop.induct)
  case (2 each rem x xs)
  show ?case
  proof (cases "rem > 0")
    case True
    then have r: "unat (rem - 1) = unat rem - 1" "0 < unat rem"
      by (simp_all add: unat_minus_one word_greater_zero_iff unat_gt_0)
    have e: "unat (each + 1) = unat each + 1" using 2 r by (simp add: unat_word_ariths)
    show ?thesis using True 2 r e by simp
  next
    case False
    then have "rem = 0" by (simp add: word_greater_zero_iff)
    then show ?thesis using 2 False by simp
  qed
qed simp

lemma equal_shares_split:
  fixes amount :: u64
  assumes "xs \<noteq> []" "length xs < 2 ^ 64"
  defines "n \<equiv> of_nat (length xs) :: u64"
  shows "unat n = length xs" "unat (amount div n) = unat amount div length xs"
    and "unat (amount - amount div n * n) = unat amount mod length xs"
proof -
  show n: "unat n = length xs" using assms by (simp add: unat_of_nat take_bit_nat_eq_self)
  show d: "unat (amount div n) = unat amount div length xs" by (simp add: unat_div n)
  have le: "unat amount div length xs * length xs \<le> unat amount" by simp
  moreover have "unat amount < 2 ^ 64" using unat_lt_64 [of amount] by simp
  ultimately have "unat amount div length xs * length xs < 2 ^ 64" by (rule order_le_less_trans)
  then have m: "unat (amount div n * n) = unat amount div length xs * length xs"
    using d n unat_mult_lem [of "amount div n" n] by simp
  then have "amount div n * n \<le> amount" using le by (simp add: word_le_nat_alt)
  then have "unat (amount - amount div n * n) = unat amount - unat amount div length xs * length xs"
    by (simp add: unat_sub m)
  then show "unat (amount - amount div n * n) = unat amount mod length xs"
    by (simp add: minus_div_mult_eq_mod)
qed

lemma equal_shares_fst [simp]: "map fst (equal_shares amount xs) = xs"
  by (simp add: equal_shares_def Let_def)

lemma length_equal_shares [simp]: "length (equal_shares amount xs) = length xs"
  by (simp add: equal_shares_def Let_def)

lemma equal_shares_room:
  assumes "xs \<noteq> []" "0 < unat (amount :: u64) mod length xs"
  shows "unat amount div length xs + 1 < 2 ^ 64"
proof -
  have "length xs \<noteq> 1" using assms(2) by auto
  moreover have "0 < length xs" using assms(1) by simp
  ultimately have "2 \<le> length xs" by linarith
  then have "unat amount div length xs \<le> unat amount div 2" by (rule div_le_mono2 [rotated]) simp
  then show ?thesis using unat_lt_64 [of amount] by simp
qed

lemma equal_shares_sum:
  assumes "xs \<noteq> []" "length xs < 2 ^ 64"
  shows "(\<Sum>(x, v) \<leftarrow> equal_shares amount xs. unat v) = unat amount"
proof -
  note s = equal_shares_split [OF assms]
  have "unat amount mod length xs \<le> length xs" using assms(1) by (simp add: less_imp_le)
  then show ?thesis
    unfolding equal_shares_def Let_def
    using share_loop_sum [of "amount - amount div of_nat (length xs) * of_nat (length xs)"
        "amount div of_nat (length xs)" xs] equal_shares_room [OF assms(1), of amount]
    by (simp add: s)
qed

lemma equal_shares_amount:
  assumes "xs \<noteq> []" "length xs < 2 ^ 64" "(x, v) \<in> set (equal_shares amount xs)"
  shows "unat v = unat amount div length xs \<or> unat v = unat amount div length xs + 1"
proof -
  note s = equal_shares_split [OF assms(1,2)]
  let ?each = "amount div of_nat (length xs)" and ?rem = "amount - amount div of_nat (length xs) * of_nat (length xs)"
  have "v = ?each \<or> v = ?each + 1"
    using assms(3) unfolding equal_shares_def Let_def by (rule share_loop_amount)
  moreover have "unat (?each + 1) = unat ?each + 1 \<or> v = ?each"
  proof (cases "?rem = 0")
    case True
    have "(y, u) \<in> set (share_loop each 0 ys) \<Longrightarrow> u = each" for y :: 'a and u each ys
      by (induction ys) auto
    then have "v = ?each" using assms(3) True by (auto simp: equal_shares_def Let_def)
    then show ?thesis by simp
  next
    case False
    then have "0 < unat amount mod length xs" using s(3) by (metis unat_gt_0)
    then show ?thesis using equal_shares_room [OF assms(1)] s(2) by (simp add: unat_word_ariths)
  qed
  ultimately show ?thesis using s(2) by auto
qed

lemma dedup_nodes_set: "set (dedup_nodes seen ps) = set ps - seen"
  by (induction seen ps rule: dedup_nodes.induct) auto

lemma dedup_nodes_distinct: "distinct (dedup_nodes seen ps)"
  by (induction seen ps rule: dedup_nodes.induct) (auto simp: dedup_nodes_set)


section \<open>Credits\<close>

definition credit_of :: "u64 btmap \<Rightarrow> string \<Rightarrow> u64" where
  "credit_of m i = (case bt_get i m of None \<Rightarrow> 0 | Some v \<Rightarrow> v)"

lemma credit_of_add: "credit_of (add_credit c m) i = (if i = fst c then credit_of m i + snd c else credit_of m i)"
  by (simp add: credit_of_def add_credit_def bt_get_put)

lemma credit_of_fold_other:
  "i \<notin> fst ` set cs \<Longrightarrow> credit_of (foldl (\<lambda>m c. add_credit c m) m cs) i = credit_of m i"
  by (induction cs arbitrary: m) (auto simp: credit_of_add)

lemma credit_of_fold:
  "distinct (map fst cs) \<Longrightarrow> (i, v) \<in> set cs \<Longrightarrow>
     credit_of (foldl (\<lambda>m c. add_credit c m) m cs) i = credit_of m i + v"
proof (induction cs arbitrary: m)
  case (Cons c cs)
  show ?case
  proof (cases "c = (i, v)")
    case True
    then have "i \<notin> fst ` set cs" using Cons.prems by auto
    then show ?thesis using True by (simp add: credit_of_fold_other credit_of_add)
  next
    case False
    then have "(i, v) \<in> set cs" using Cons.prems by auto
    moreover from this have "i \<in> fst ` set cs" by force
    moreover have "fst c \<notin> fst ` set cs" using Cons.prems(1) by simp
    ultimately have "i \<noteq> fst c" by metis
    then show ?thesis using Cons False by (simp add: credit_of_add)
  qed
qed simp


section \<open>The pools over a run\<close>

datatype economy_op =
    EcUpsert miner_operator
  | EcProfitSplits u64 profit_splits
  | EcProfit u64 u32
  | EcGovJob gov_job "string list" gov_reward_config
  | EcDebit u64
  | EcRecordPayout u64 "u64 option"

fun economy_step :: "economy_op \<Rightarrow> economy_state \<Rightarrow> economy_state" where
  "economy_step (EcUpsert o1) e = snd (upsert_operator o1 e)"
| "economy_step (EcProfitSplits p s) e = snd (accrue_profit_splits p s e)"
| "economy_step (EcProfit p b) e = snd (accrue_from_profit p b e)"
| "economy_step (EcGovJob j ps c) e = snd (accrue_governance_job j ps c e)"
| "economy_step (EcDebit a) e = snd (debit_pool a e)"
| "economy_step (EcRecordPayout t ep) e = record_miner_payout t ep e"

definition economy_inv :: "economy_state \<Rightarrow> bool" where
  "economy_inv e \<longleftrightarrow>
     bt_ok (operators e) \<and>
     (\<forall>(k, o1) \<in> set (operators e). op_node_id o1 = k \<and> CHR ''/'' \<notin> set (payout_destination o1)) \<and>
     pending_governance_reward_sats e \<le> miner_pool_sats e"

lemma set_bt_put: "set (bt_put k v m) \<subseteq> insert (k, v) (set m)"
  by (induction k v m rule: bt_put.induct) auto

lemma economy_inv_new: "economy_inv economy_new_open"
  by (simp add: economy_inv_def economy_new_open_def)

lemma sat_add_mono2: "a \<le> b \<Longrightarrow> sat_add a c \<le> sat_add (b :: u64) c"
  by (simp add: word_le_nat_alt sat_nat min_le_iff_disj)

lemma accrue_splits_pool:
  "operators (snd (accrue_profit_splits p s e)) = operators e"
  "pending_governance_reward_sats (snd (accrue_profit_splits p s e)) = pending_governance_reward_sats e"
  "miner_pool_sats e \<le> miner_pool_sats (snd (accrue_profit_splits p s e))"
  by (auto simp: accrue_profit_splits_def sat_add_ge split: sum.splits prod.splits)

lemma economy_inv_accrue: "economy_inv e \<Longrightarrow> economy_inv (snd (accrue_profit_splits p s e))"
  using accrue_splits_pool [where e = e and p = p and s = s] by (auto simp: economy_inv_def intro: order_trans)

lemma economy_inv_debit: "economy_inv e \<Longrightarrow> economy_inv (snd (debit_pool a e))"
  by (auto simp: economy_inv_def debit_pool_def word_le_nat_alt unat_sub min_def not_less)

lemma economy_inv_gov: "economy_inv e \<Longrightarrow> economy_inv (snd (accrue_governance_job j ps c e))"
  by (auto simp: economy_inv_def accrue_governance_job_def Let_def sat_add_mono2)

lemma economy_inv_upsert: "economy_inv e \<Longrightarrow> economy_inv (snd (upsert_operator o1 e))"
  using set_bt_put [of "op_node_id o1" o1 "operators e"]
  by (auto simp: economy_inv_def upsert_operator_def Let_def)

lemma economy_inv_profit: "economy_inv e \<Longrightarrow> economy_inv (snd (accrue_from_profit p b e))"
proof (cases "splits_open_with_reward b")
  case (Inr s)
  assume "economy_inv e"
  then have "economy_inv (snd (accrue_profit_splits p s e))" by (rule economy_inv_accrue)
  then show ?thesis
    by (cases "accrue_profit_splits p s e") (auto simp: accrue_from_profit_def Inr split: sum.splits)
qed (simp add: accrue_from_profit_def)

lemma economy_inv_record: "economy_inv e \<Longrightarrow> economy_inv (record_miner_payout t ep e)"
  by (cases ep) (simp_all add: economy_inv_def record_miner_payout_def)

lemma economy_inv_step: "economy_inv e \<Longrightarrow> economy_inv (economy_step x e)"
  by (cases x) (simp_all add: economy_inv_accrue economy_inv_debit economy_inv_gov
      economy_inv_upsert economy_inv_profit economy_inv_record)

lemma economy_inv_run: "economy_inv e \<Longrightarrow> economy_inv (foldl (\<lambda>e x. economy_step x e) e xs)"
  by (induction xs arbitrary: e) (simp_all add: economy_inv_step)


lemma equal_payouts_facts:
  assumes "propose_equal_payouts e amount = Inr shares" and "length (operators e) < 2 ^ 64"
  shows "(\<Sum>s \<leftarrow> shares. unat (ps_amount_sats s)) = unat amount
    \<and> 0 < unat amount \<and> unat amount \<le> unat (miner_pool_sats e)
    \<and> map (\<lambda>s. (ps_node_id s, ps_destination s)) shares =
        map (\<lambda>o1. (op_node_id o1, payout_destination o1)) (eligible_active e)
    \<and> (\<forall>s \<in> set shares. \<forall>t \<in> set shares. unat (ps_amount_sats s) \<le> unat (ps_amount_sats t) + 1)"
proof -
  let ?el = "eligible_active e"
  let ?mk = "\<lambda>(o1, sh). \<lparr>ps_node_id = op_node_id o1, ps_destination = payout_destination o1,
               ps_amount_sats = sh :: u64\<rparr>"
  have ne: "?el \<noteq> []" and am: "amount \<noteq> 0" "\<not> amount > miner_pool_sats e"
    and sh: "shares = map ?mk (equal_shares amount ?el)"
    using assms(1) by (auto simp: propose_equal_payouts_def Let_def split: if_splits)
  have "length ?el \<le> length (operators e)"
    using length_filter_le [of "is_eligible (ec_policy e)" "bt_vals (operators e)"]
    by (simp add: eligible_active_def bt_vals_def)
  then have len: "length ?el < 2 ^ 64" using assms(2) by simp
  have "(\<Sum>s \<leftarrow> shares. unat (ps_amount_sats s)) = (\<Sum>(x, v) \<leftarrow> equal_shares amount ?el. unat v)"
    unfolding sh map_map by (rule arg_cong [where f = sum_list]) (auto simp: case_prod_beta)
  then have "(\<Sum>s \<leftarrow> shares. unat (ps_amount_sats s)) = unat amount"
    using equal_shares_sum [OF ne len] by simp
  moreover have "0 < unat amount" "unat amount \<le> unat (miner_pool_sats e)"
    using am by (simp_all add: unat_gt_0 word_le_nat_alt not_less)
  moreover have "map (\<lambda>s. (ps_node_id s, ps_destination s)) shares =
      map (\<lambda>o1. (op_node_id o1, payout_destination o1)) (map fst (equal_shares amount ?el))"
    by (simp add: sh o_def case_prod_beta del: equal_shares_fst)
  moreover have share: "unat (ps_amount_sats s) \<in> {unat amount div length ?el, unat amount div length ?el + 1}"
    if "s \<in> set shares" for s
  proof -
    have "s \<in> ?mk ` set (equal_shares amount ?el)" using that unfolding sh by simp
    then obtain q where q: "q \<in> set (equal_shares amount ?el)" "s = ?mk q" by (rule imageE)
    obtain x v where "q = (x, v)" by (cases q)
    with q have "(x, v) \<in> set (equal_shares amount ?el)" "s = ?mk (x, v)" by simp_all
    then show ?thesis using equal_shares_amount [OF ne len, of x v amount] by simp
  qed
  moreover have "\<forall>s \<in> set shares. \<forall>t \<in> set shares. unat (ps_amount_sats s) \<le> unat (ps_amount_sats t) + 1"
  proof (intro ballI)
    fix s t
    assume "s \<in> set shares" "t \<in> set shares"
    then show "unat (ps_amount_sats s) \<le> unat (ps_amount_sats t) + 1"
      using share [of s] share [of t] by auto
  qed
  ultimately show ?thesis by simp
qed


section \<open>Properties\<close>

text \<open>A payout proposal pays out exactly the requested amount, which is positive and covered by
  the miner pool, to every eligible operator in node-id order and to nobody else, each at the
  destination registered for it, and any two shares differ by at most one satoshi.\<close>

theorem equal_payouts_exact:
  assumes "propose_equal_payouts e amount = Inr shares" and "length (operators e) < 2 ^ 64"
  shows "(\<Sum>s \<leftarrow> shares. unat (ps_amount_sats s)) = unat amount
    \<and> 0 < unat amount \<and> unat amount \<le> unat (miner_pool_sats e)
    \<and> map (\<lambda>s. (ps_node_id s, ps_destination s)) shares =
        map (\<lambda>o1. (op_node_id o1, payout_destination o1)) (eligible_active e)
    \<and> (\<forall>s \<in> set shares. \<forall>t \<in> set shares. unat (ps_amount_sats s) \<le> unat (ps_amount_sats t) + 1)"
  by (rule equal_payouts_facts [OF assms])

definition lab_economy :: economy_state where
  "lab_economy =
     (let op1 = (\<lambda>i. \<lparr>op_node_id = i, payout_destination = ''tb1q-'' @ i, uptime_bps_30d = 9900,
                   attestation_streak_days = 2, bond_sats = 0, waiting = False\<rparr>)
      in economy_new_open\<lparr>operators := [(''a'', op1 ''a''), (''b'', op1 ''b'')], miner_pool_sats := 11\<rparr>)"

lemma lab_economy_eval:
  "eligible_active lab_economy = bt_vals (operators lab_economy)"
  "bt_get ''a'' (operators lab_economy) \<noteq> None"
  by (simp_all add: lab_economy_def eligible_active_def is_eligible_def economy_new_open_def
      reward_policy_v1_open_def bt_vals_def trim_def trim_start_def trim_end_def strip_any.simps
      ws_table_def Let_def)

theorem equal_payouts_exact_witness:
  "(\<Sum>s \<leftarrow> case_sum (\<lambda>_. []) id (propose_equal_payouts lab_economy 7). unat (ps_amount_sats s)) = 7"
proof -
  have "bt_vals (operators lab_economy) \<noteq> []" "length (operators lab_economy) = 2"
    "miner_pool_sats lab_economy = 11"
    by (simp_all add: lab_economy_def bt_vals_def Let_def)
  then obtain sh where sh: "propose_equal_payouts lab_economy 7 = Inr sh"
    by (auto simp: propose_equal_payouts_def lab_economy_eval Let_def)
  then show ?thesis
    using equal_payouts_exact [OF sh] \<open>length (operators lab_economy) = 2\<close> by simp
qed

text \<open>A governance bounty is credited in full: the miner pool and the pending rewards grow by
  the bounty (saturating), the credited operators are exactly the distinct participants that are
  registered and eligible, their shares add up to the bounty whenever there is one, each one's
  lifetime credit grows by its share (modulo the width), and nobody else's changes.\<close>

theorem governance_bounty_credited:
  assumes "accrue_governance_job job parts cfg e = (ga, e')" and "length parts < 2 ^ 64"
    and "bounty_sats cfg (miner_pool_sats e) \<noteq> 0"
  shows "ga_bounty_sats ga = bounty_sats cfg (miner_pool_sats e)
    \<and> miner_pool_sats e' = sat_add (miner_pool_sats e) (ga_bounty_sats ga)
    \<and> pending_governance_reward_sats e' = sat_add (pending_governance_reward_sats e) (ga_bounty_sats ga)
    \<and> distinct (map fst (credited ga))
    \<and> fst ` set (credited ga) =
        {i \<in> set parts. \<exists>o1. bt_get i (operators e) = Some o1 \<and> is_eligible (ec_policy e) o1}
    \<and> (credited ga \<noteq> [] \<longrightarrow> (\<Sum>(i, v) \<leftarrow> credited ga. unat v) = unat (ga_bounty_sats ga))
    \<and> (\<forall>(i, v) \<in> set (credited ga).
         credit_of (governance_credits e') i = credit_of (governance_credits e) i + v)
    \<and> (\<forall>i. i \<notin> fst ` set (credited ga) \<longrightarrow>
         credit_of (governance_credits e') i = credit_of (governance_credits e) i)"
proof -
  let ?b = "bounty_sats cfg (miner_pool_sats e)"
  let ?el = "filter (\<lambda>i. case bt_get i (operators e) of None \<Rightarrow> False | Some o1 \<Rightarrow> is_eligible (ec_policy e) o1)
               (dedup_nodes {} parts)"
  have cr: "credited ga = (if ?el \<noteq> [] then equal_shares ?b ?el else [])"
    and ga: "ga_bounty_sats ga = ?b"
    and e': "miner_pool_sats e' = sat_add (miner_pool_sats e) ?b"
      "pending_governance_reward_sats e' = sat_add (pending_governance_reward_sats e) ?b"
      "governance_credits e' = foldl (\<lambda>m c. add_credit c m) (governance_credits e) (credited ga)"
    using assms(1,3) by (auto simp: accrue_governance_job_def Let_def)
  have fst: "map fst (credited ga) = ?el" by (simp add: cr)
  have dist: "distinct (map fst (credited ga))" unfolding fst by (simp add: dedup_nodes_distinct)
  have "set ?el = {i \<in> set parts. \<exists>o1. bt_get i (operators e) = Some o1 \<and> is_eligible (ec_policy e) o1}"
    by (auto simp: dedup_nodes_set split: option.splits)
  then have elig: "fst ` set (credited ga) =
      {i \<in> set parts. \<exists>o1. bt_get i (operators e) = Some o1 \<and> is_eligible (ec_policy e) o1}"
    by (metis fst set_map)
  have "length (dedup_nodes seen ps) \<le> length ps" for seen ps
    by (induction seen ps rule: dedup_nodes.induct) auto
  then have "length ?el < 2 ^ 64" using assms(2) length_filter_le order_le_less_trans order_trans by metis
  then have sum: "credited ga \<noteq> [] \<longrightarrow> (\<Sum>(i, v) \<leftarrow> credited ga. unat v) = unat ?b"
    using equal_shares_sum [of ?el ?b] by (auto simp: cr)
  have "\<forall>(i, v) \<in> set (credited ga).
      credit_of (governance_credits e') i = credit_of (governance_credits e) i + v"
    using credit_of_fold [OF dist] by (auto simp: e'(3))
  moreover have "\<forall>i. i \<notin> fst ` set (credited ga) \<longrightarrow>
      credit_of (governance_credits e') i = credit_of (governance_credits e) i"
    by (simp add: e'(3) credit_of_fold_other)
  ultimately show ?thesis using ga e' dist elig sum by simp
qed

theorem governance_bounty_credited_witness:
  "distinct (map fst (credited (fst (accrue_governance_job JobReleaseCosign [''a'', ''a'', ''x'']
     \<lparr>reward_sats = 5, reward_bps_of_pool = 0\<rparr> lab_economy))))"
  using governance_bounty_credited [of JobReleaseCosign "[''a'', ''a'', ''x'']"
      "\<lparr>reward_sats = 5, reward_bps_of_pool = 0\<rparr>" lab_economy
      "fst (accrue_governance_job JobReleaseCosign [''a'', ''a'', ''x'']
     \<lparr>reward_sats = 5, reward_bps_of_pool = 0\<rparr> lab_economy)"
      "snd (accrue_governance_job JobReleaseCosign [''a'', ''a'', ''x'']
     \<lparr>reward_sats = 5, reward_bps_of_pool = 0\<rparr> lab_economy)"]
  by (simp add: bounty_sats_def sat_mul_def sat_add_def)

text \<open>C5: from the opening state, over any sequence of economy operations, the pending governance
  reward never exceeds the miner pool, the operator map stays sorted with every operator under its
  own node id, no registered destination contains a path separator, and a debit that succeeds
  never takes more than the pool holds.\<close>

theorem economy_pools_sound:
  defines "e xs \<equiv> foldl (\<lambda>e x. economy_step x e) economy_new_open xs"
  shows "economy_inv (e xs)
    \<and> (fst (debit_pool a (e xs)) = Inr () \<longleftrightarrow> unat a \<le> unat (miner_pool_sats (e xs)))
    \<and> unat (miner_pool_sats (snd (debit_pool a (e xs)))) =
        (if unat a \<le> unat (miner_pool_sats (e xs)) then unat (miner_pool_sats (e xs)) - unat a
         else unat (miner_pool_sats (e xs)))"
  using economy_inv_run [OF economy_inv_new, of xs]
  by (simp add: e_def debit_pool_def not_less word_le_nat_alt unat_sub word_less_nat_alt)

end
