(* ===== verification/DayEpoch.thy ===== *)
theory DayEpoch
  imports Errors
begin

text \<open>
  UTC day epochs (\<open>vault-core/src/domain/day_epoch.rs\<close>).  A day epoch is its text
  \<open>YYYY-MM-DD\<close>, compared as bytes.  The civil-date arithmetic is over \<open>int\<close>: for every 64-bit
  number of seconds the intermediate values are far below the 64-bit bounds; the final narrowing
  of the year to \<open>i32\<close> is written out.
\<close>

definition day_epoch_parse :: "string \<Rightarrow> string res" where
  "day_epoch_parse s =
     (if length s = 10 \<and> s ! 4 = CHR ''-'' \<and> s ! 7 = CHR ''-''
         \<and> list_all (\<lambda>(i, b). if i = 4 \<or> i = 7 then True else is_ascii_digit b) (enumerate 0 s)
      then Inr s
      else Inl (InvalidIntent (''invalid day_epoch: '' @ s)))"

definition civil_from_days :: "int \<Rightarrow> int \<times> int \<times> int" where
  "civil_from_days z0 =
     (let z = z0 + 719468;
          era = (if z \<ge> 0 then z else z - 146096) div 146097;
          doe = z - era * 146097;
          yoe = (doe - doe div 1460 + doe div 36524 - doe div 146096) div 365;
          y = yoe + era * 400;
          doy = doe - (365 * yoe + yoe div 4 - yoe div 100);
          mp = (5 * doy + 2) div 153;
          d = doy - (153 * mp + 2) div 5 + 1;
          m = (if mp < 10 then mp + 3 else mp - 9);
          y' = (if m \<le> 2 then y + 1 else y)
      in (sint (word_of_int y' :: 32 word), m, d))"

definition pad_zero :: "nat \<Rightarrow> int \<Rightarrow> string" where
  "pad_zero w n =
     (if n \<ge> 0 then replicate (w - length (dec (nat n))) CHR ''0'' @ dec (nat n)
      else CHR ''-'' # replicate (w - 1 - length (dec (nat (- n)))) CHR ''0'' @ dec (nat (- n)))"

definition day_epoch_from_unix_secs :: "u64 \<Rightarrow> string" where
  "day_epoch_from_unix_secs secs =
     (case civil_from_days (int (unat (secs div 86400))) of
        (y, m, d) \<Rightarrow> pad_zero 4 y @ ''-'' @ pad_zero 2 m @ ''-'' @ pad_zero 2 d)"

lemma day_epoch_parse_ok: "day_epoch_parse s = Inr d \<Longrightarrow> d = s \<and> length d = 10"
  by (auto simp: day_epoch_parse_def split: if_splits)

end
