(* ===== verification/Quantum.thy ===== *)
theory Quantum
  imports DayEpoch
begin

text \<open>
  The quantum migration state machine (\<open>vault-core/src/domain/quantum_state.rs\<close>): six states,
  what each permits, the transition check with the authorisation it demands, and the commit step.
  The discriminants of \<open>repr(u8)\<close> are \<open>level\<close>; \<open>PartialOrd\<close> is derived from them.
\<close>

datatype quantum_state = Q0 | Q1 | Q2 | Q3 | Q4 | Q5

fun level :: "quantum_state \<Rightarrow> nat" where
  "level Q0 = 0" | "level Q1 = 1" | "level Q2 = 2"
| "level Q3 = 3" | "level Q4 = 4" | "level Q5 = 5"

instantiation quantum_state :: linorder
begin

definition less_eq_quantum_state :: "quantum_state \<Rightarrow> quantum_state \<Rightarrow> bool" where
  "a \<le> b \<longleftrightarrow> level a \<le> level b"

definition less_quantum_state :: "quantum_state \<Rightarrow> quantum_state \<Rightarrow> bool" where
  "a < b \<longleftrightarrow> level a < level b"

instance
proof
  fix a b :: quantum_state
  show "a \<le> b \<Longrightarrow> b \<le> a \<Longrightarrow> a = b"
    unfolding less_eq_quantum_state_def by (cases a; cases b) simp_all
qed (auto simp: less_eq_quantum_state_def less_quantum_state_def)

end

definition deposits_allowed :: "quantum_state \<Rightarrow> bool" where
  "deposits_allowed s = (s \<in> {Q0, Q1, Q2})"

definition normal_signing_allowed :: "quantum_state \<Rightarrow> bool" where
  "normal_signing_allowed s = (s \<in> {Q0, Q1})"

definition sweep_allowed :: "quantum_state \<Rightarrow> bool" where
  "sweep_allowed s = (s \<in> {Q4, Q5})"

definition is_emergency :: "quantum_state \<Rightarrow> bool" where
  "is_emergency s = (s = Q5)"

fun quantum_str :: "quantum_state \<Rightarrow> string" where
  "quantum_str Q0 = ''Q0_NORMAL''"
| "quantum_str Q1 = ''Q1_PQ_PREPARED''"
| "quantum_str Q2 = ''Q2_ELEVATED_RISK''"
| "quantum_str Q3 = ''Q3_MIGRATION_REQUIRED''"
| "quantum_str Q4 = ''Q4_DEPOSITS_DISABLED''"
| "quantum_str Q5 = ''Q5_EMERGENCY_SWEEP''"

definition from_level :: "u8 \<Rightarrow> quantum_state option" where
  "from_level l =
     (if l = 0 then Some Q0 else if l = 1 then Some Q1 else if l = 2 then Some Q2
      else if l = 3 then Some Q3 else if l = 4 then Some Q4 else if l = 5 then Some Q5 else None)"

record utxo_record =
  ut_txid :: string
  ut_vout :: u32
  ut_amount_sat :: u64
  ut_confirmations :: u64
  ut_script_type :: string
  ut_pubkey_exposed :: bool
  ut_age_epochs :: u64

record drill_report =
  dr_duration_ms :: u64
  dr_utxos_swept :: u64
  dr_fees_spent_sat :: u64
  dr_errors :: "string list"

definition drill_success :: "u64 \<Rightarrow> u64 \<Rightarrow> u64 \<Rightarrow> drill_report" where
  "drill_success utxos fees ms =
     \<lparr>dr_duration_ms = ms, dr_utxos_swept = utxos, dr_fees_spent_sat = fees, dr_errors = []\<rparr>"

definition drill_failed :: "string list \<Rightarrow> drill_report" where
  "drill_failed es =
     \<lparr>dr_duration_ms = 0, dr_utxos_swept = 0, dr_fees_spent_sat = 0, dr_errors = es\<rparr>"

definition drill_is_success :: "drill_report \<Rightarrow> bool" where
  "drill_is_success r = (dr_errors r = [])"

record sweep_report = drill_report +
  sr_txids :: "string list"

record quantum_config =
  current_state :: quantum_state
  state_changed_at :: string
  migration_destination_descriptor :: "string option"
  emergency_constitution_hash :: "string option"
  last_drill_at :: "string option"
  auto_advance_epochs :: u64

definition quantum_default_at :: "string \<Rightarrow> quantum_config" where
  "quantum_default_at ep =
     \<lparr>current_state = Q0, state_changed_at = ep, migration_destination_descriptor = None,
      emergency_constitution_hash = None, last_drill_at = None, auto_advance_epochs = 3\<rparr>"

datatype transition_auth = AuthQuorum nat | AuthQuorumOrAuto | AuthReducedQuorum nat

definition arrow :: string where
  "arrow = [CHR '' '', CHR 0xE2, CHR 0x86, CHR 0x92, CHR '' '']"

text \<open>\<open>quorum_size.max(2).min(quorum_size * 2 / 3).max(2)\<close>.\<close>

definition reduced_quorum :: "nat \<Rightarrow> nat" where
  "reduced_quorum q = max (min (max q 2) (q * 2 div 3)) 2"

definition validate_transition :: "quantum_config \<Rightarrow> quantum_state \<Rightarrow> nat \<Rightarrow> transition_auth res" where
  "validate_transition c new q =
     (if new \<le> current_state c
      then Inl (InvalidConstitution (''quantum state transition denied: '' @ quantum_str (current_state c)
             @ arrow @ quantum_str new @ '' is not monotonic (state only increases)''))
      else if level new \<noteq> level (current_state c) + 1 \<and> \<not> (level (current_state c) = 4 \<and> level new = 5)
      then Inl (InvalidConstitution (''quantum state can only advance one step at a time: ''
             @ quantum_str (current_state c) @ arrow @ quantum_str new @ '' invalid (gap > 1)''))
      else
        let auth = (case new of
            Q0 \<Rightarrow> AuthQuorumOrAuto
          | Q1 \<Rightarrow> AuthQuorum q
          | Q2 \<Rightarrow> AuthQuorum q
          | Q3 \<Rightarrow> AuthQuorum q
          | Q4 \<Rightarrow> AuthQuorumOrAuto
          | Q5 \<Rightarrow> AuthReducedQuorum (reduced_quorum q))
        in
        if new \<ge> Q1 \<and> emergency_constitution_hash c = None
        then Inl (InvalidConstitution ''quantum migration requires emergency_constitution_hash set at Q1+'')
        else if new \<ge> Q1 \<and> migration_destination_descriptor c = None
        then Inl (InvalidConstitution ''quantum migration requires migration_destination_descriptor set at Q1+'')
        else Inr auth)"

text \<open>The \<open>Q0\<close> arm above stands for the source's \<open>unreachable!()\<close>: it is behind the monotonicity
  check and never taken.\<close>

definition apply_transition :: "quantum_config \<Rightarrow> quantum_state \<Rightarrow> string \<Rightarrow> unit res \<times> quantum_config" where
  "apply_transition c new ep = (Inr (), c\<lparr>current_state := new, state_changed_at := ep\<rparr>)"


section \<open>The machine\<close>

text \<open>The documented protocol: validate, then apply; a refused transition leaves the state.\<close>

definition quantum_step :: "nat \<Rightarrow> string \<Rightarrow> quantum_state \<Rightarrow> quantum_config \<Rightarrow> quantum_config" where
  "quantum_step q ep new c =
     (case validate_transition c new q of Inl _ \<Rightarrow> c | Inr _ \<Rightarrow> snd (apply_transition c new ep))"

lemma level_from_level: "from_level l = Some s \<Longrightarrow> level s = unat l"
  by (auto simp: from_level_def split: if_splits)

lemma level_le_5: "level s \<le> 5"
  by (cases s) auto

lemma validate_transition_ok:
  "validate_transition c new q = Inr a \<Longrightarrow>
     level new = level (current_state c) + 1
     \<and> emergency_constitution_hash c \<noteq> None \<and> migration_destination_descriptor c \<noteq> None"
  by (cases new)
     (auto simp: validate_transition_def Let_def less_eq_quantum_state_def split: if_splits)

lemma quantum_step_level:
  "level (current_state (quantum_step q ep new c)) \<in> {level (current_state c), level (current_state c) + 1}"
  using validate_transition_ok
  by (auto simp: quantum_step_def apply_transition_def split: sum.splits)

lemma quantum_step_fields [simp]:
  "emergency_constitution_hash (quantum_step q ep new c) = emergency_constitution_hash c"
  "migration_destination_descriptor (quantum_step q ep new c) = migration_destination_descriptor c"
  by (simp_all add: quantum_step_def apply_transition_def split: sum.splits)

text \<open>The trace of states a sequence of requested transitions goes through.\<close>

fun quantum_trace :: "(nat \<times> string \<times> quantum_state) list \<Rightarrow> quantum_config \<Rightarrow> quantum_state list" where
  "quantum_trace [] c = [current_state c]"
| "quantum_trace ((q, ep, new) # rs) c = current_state c # quantum_trace rs (quantum_step q ep new c)"

lemma quantum_trace_hd: "hd (quantum_trace rs c) = current_state c"
  by (cases rs) auto

lemma quantum_trace_ge: "s \<in> set (quantum_trace rs c) \<Longrightarrow> level (current_state c) \<le> level s"
proof (induction rs c rule: quantum_trace.induct)
  case (2 q ep new rs c)
  then show ?case using quantum_step_level [of q ep new c] by auto
qed simp

lemma quantum_trace_none:
  assumes "emergency_constitution_hash c = None \<or> migration_destination_descriptor c = None"
  shows "s \<in> set (quantum_trace rs c) \<Longrightarrow> s = current_state c"
  using assms
proof (induction rs c rule: quantum_trace.induct)
  case (2 q ep new rs c)
  have "quantum_step q ep new c = c"
    using 2(3) validate_transition_ok [of c new q]
    by (auto simp: quantum_step_def split: sum.splits)
  then show ?case using 2 by auto
qed simp



end
