(* ===== verification/Constitution.thy ===== *)
theory Constitution
  imports Economy Quantum
begin

text \<open>
  The constitution (\<open>vault-core/src/domain/constitution.rs\<close>): its record, the lab and open
  constitutions, the hash over its fields, validation, the anti-downgrade policy and format
  versions, and the two-thirds quorum.  \<open>Measurement::from_bytes\<close> (SHA-256 in hex,
  \<open>domain/attestation.rs\<close>) is the parameter \<open>sha\<close>: no theorem assumes it injective, those that
  bind data to a hash assume it injective on the finitely many texts hashed.
\<close>

section \<open>Quorums\<close>

definition quorum_two_thirds :: "nat \<Rightarrow> nat" where
  "quorum_two_thirds n = (2 * n + 2) div 3"

lemma quorum_two_thirds_bounds:
  "2 * n \<le> 3 * quorum_two_thirds n" "3 * quorum_two_thirds n < 2 * n + 3"
  by (simp_all add: quorum_two_thirds_def)

lemma quorum_two_thirds_le: "0 < n \<Longrightarrow> quorum_two_thirds n \<le> n"
  by (simp add: quorum_two_thirds_def)

lemma quorum_two_thirds_pos: "0 < n \<Longrightarrow> 0 < quorum_two_thirds n"
  by (simp add: quorum_two_thirds_def)

text \<open>Two quorums of the same cluster share a third of it.\<close>

lemma quorums_intersect:
  assumes "finite U" "A \<subseteq> U" "B \<subseteq> U"
    and "quorum_two_thirds (card U) \<le> card A" "quorum_two_thirds (card U) \<le> card B"
  shows "card U \<le> 3 * card (A \<inter> B)"
proof -
  have "card (A \<union> B) \<le> card U" using assms(1-3) by (intro card_mono) auto
  moreover have "card A + card B = card (A \<union> B) + card (A \<inter> B)"
    using assms(1-3) by (intro card_Un_Int) (auto intro: finite_subset)
  ultimately show ?thesis using quorum_two_thirds_bounds(1) [of "card U"] assms(4,5) by linarith
qed


section \<open>Attestation measurements\<close>

datatype attestation_mode = AttSim | AttSoftware | AttSev | AttSgx

definition attestation_parse :: "string \<Rightarrow> attestation_mode option" where
  "attestation_parse raw =
     (let s = ascii_lower (trim raw) in
      if s = ''sim'' \<or> s = ''simulation'' then Some AttSim
      else if s = ''software'' \<or> s = ''sw'' \<or> s = ''measurement'' then Some AttSoftware
      else if s = ''sev'' \<or> s = ''sev-snp'' \<or> s = ''sev_snp'' then Some AttSev
      else if s = ''sgx'' then Some AttSgx
      else None)"

fun attestation_str :: "attestation_mode \<Rightarrow> string" where
  "attestation_str AttSim = ''sim''"
| "attestation_str AttSoftware = ''software''"
| "attestation_str AttSev = ''sev''"
| "attestation_str AttSgx = ''sgx''"

definition is_lab_only :: "attestation_mode \<Rightarrow> bool" where
  "is_lab_only m = (m = AttSim)"

definition is_software_measurement :: "attestation_mode \<Rightarrow> bool" where
  "is_software_measurement m = (m = AttSim \<or> m = AttSoftware)"

definition is_tee :: "attestation_mode \<Rightarrow> bool" where
  "is_tee m = (m = AttSev \<or> m = AttSgx)"

definition measurement_from_hex :: "string \<Rightarrow> string res" where
  "measurement_from_hex s =
     (if length s \<noteq> 64 \<or> \<not> list_all is_ascii_hexdigit s
      then Inl (AttestationRejected ''measurement must be 32-byte SHA-256 hex (64 chars)'')
      else Inr (ascii_lower s))"

record attestation_quote =
  aq_mode :: attestation_mode
  aq_measurement :: string
  aq_blob :: string

definition admits_attestation_measurement :: "string \<Rightarrow> string \<Rightarrow> string list \<Rightarrow> bool" where
  "admits_attestation_measurement m pin hbs =
     (if m \<noteq> pin then False else if hbs = [] then True else list_ex (\<lambda>hb. hb = m) hbs)"

text \<open>What is documented of the digest: 64 lowercase hexadecimal digits.\<close>

definition hex_char :: "char \<Rightarrow> bool" where
  "hex_char c = (48 \<le> code c \<and> code c \<le> 57 \<or> 97 \<le> code c \<and> code c \<le> 102)"

definition hex64 :: "(string \<Rightarrow> string) \<Rightarrow> bool" where
  "hex64 sha \<longleftrightarrow> (\<forall>x. length (sha x) = 64 \<and> list_all hex_char (sha x))"


section \<open>Downgrade policy and format versions\<close>

record downgrade_policy =
  pq_kem_security_category :: u8
  pq_signature_security_category :: u8
  symmetric_security_bits :: u16
  hybrid_kem_required :: bool
  hybrid_signature_required :: bool
  require_pq_signatures :: bool
  require_pq_kem :: bool

definition downgrade_default :: downgrade_policy where
  "downgrade_default =
     \<lparr>pq_kem_security_category = 3, pq_signature_security_category = 3, symmetric_security_bits = 256,
      hybrid_kem_required = True, hybrid_signature_required = True,
      require_pq_signatures = True, require_pq_kem = True\<rparr>"

definition downgrade_validate :: "downgrade_policy \<Rightarrow> unit res" where
  "downgrade_validate p =
     (if pq_kem_security_category p < 3
      then Inl (InvalidConstitution (''pq_kem_security_category '' @ dec_u (pq_kem_security_category p) @ '' < 3''))
      else if pq_signature_security_category p < 3
      then Inl (InvalidConstitution (''pq_signature_security_category '' @ dec_u (pq_signature_security_category p) @ '' < 3''))
      else if symmetric_security_bits p < 256
      then Inl (InvalidConstitution (''symmetric_security_bits '' @ dec_u (symmetric_security_bits p) @ '' < 256''))
      else Inr ())"

record format_versions =
  fv_intent :: u16
  fv_receipt :: u16
  fv_share_envelope :: u16
  fv_dkg_transcript :: u16
  fv_reshare_transcript :: u16
  fv_certificate :: u16
  fv_audit_record :: u16
  min_protocol_version :: u16
  current_protocol_version :: u16

definition versions_default :: format_versions where
  "versions_default =
     \<lparr>fv_intent = 1, fv_receipt = 1, fv_share_envelope = 1, fv_dkg_transcript = 1,
      fv_reshare_transcript = 1, fv_certificate = 1, fv_audit_record = 1,
      min_protocol_version = 1, current_protocol_version = 1\<rparr>"

definition versions_accept :: "format_versions \<Rightarrow> u16 \<Rightarrow> u16 \<Rightarrow> unit res" where
  "versions_accept v received minv =
     (if received < minv
      then Inl (InvalidIntent (''format_version '' @ dec_u received @ '' below minimum '' @ dec_u minv))
      else if received > current_protocol_version v
      then Inl (InvalidIntent (''unknown format_version '' @ dec_u received @ '' (current max ''
             @ dec_u (current_protocol_version v) @ '')''))
      else Inr ())"

lemma versions_accept_ok:
  "versions_accept v r m = Inr () \<longleftrightarrow> m \<le> r \<and> r \<le> current_protocol_version v"
  by (auto simp: versions_accept_def)


section \<open>The constitution\<close>

record constitution =
  c_version :: u32
  max_withdraw_per_day_sats :: u64
  max_withdraw_per_tx_sats :: u64
  signing_n :: nat
  signing_t :: nat
  governance_t :: nat
  p_reward_bps :: u32
  p_reward_max_bps :: u32
  c_splits :: profit_splits
  payout_frequency :: payout_cadence
  crypto_suite_id :: string
  c_hash :: string
  measurement_pin :: "string option"
  c_downgrade :: downgrade_policy
  c_versions :: format_versions
  previous_hash :: "string option"
  quantum_migration :: quantum_config

definition hash_material :: "constitution \<Rightarrow> string" where
  "hash_material c =
     (let prev = (case previous_hash c of None \<Rightarrow> [] | Some h \<Rightarrow> h) in
      ''v'' @ dec_u (c_version c) @ ''|day'' @ dec_u (max_withdraw_per_day_sats c)
      @ ''|tx'' @ dec_u (max_withdraw_per_tx_sats c) @ ''|n'' @ dec (signing_n c)
      @ ''|t'' @ dec (signing_t c) @ ''|gt'' @ dec (governance_t c)
      @ ''|p'' @ dec_u (p_reward_bps c) @ ''|max'' @ dec_u (p_reward_max_bps c)
      @ ''|m'' @ dec_u (miners_bps (c_splits c)) @ ''|ch'' @ dec_u (channels_bps (c_splits c))
      @ ''|inf'' @ dec_u (infra_bps (c_splits c)) @ ''|'' @ crypto_suite_id c
      @ (if prev = [] then [] else ''|prev_'' @ prev))"

definition compute_hash :: "(string \<Rightarrow> string) \<Rightarrow> constitution \<Rightarrow> string" where
  "compute_hash sha c = sha (hash_material c)"

definition ensure_measurement_pin :: "(string \<Rightarrow> string) \<Rightarrow> constitution \<Rightarrow> constitution" where
  "ensure_measurement_pin sha c =
     (if measurement_pin c = None then c\<lparr>measurement_pin := Some (sha (c_hash c))\<rparr> else c)"

definition measurement_pin_or_hash :: "(string \<Rightarrow> string) \<Rightarrow> constitution \<Rightarrow> string" where
  "measurement_pin_or_hash sha c =
     (case measurement_pin c of Some p \<Rightarrow> p | None \<Rightarrow> sha (c_hash c))"

definition with_measurement_pin :: "string \<Rightarrow> constitution \<Rightarrow> constitution" where
  "with_measurement_pin p c = c\<lparr>measurement_pin := Some p\<rparr>"

definition with_payout_frequency :: "(string \<Rightarrow> string) \<Rightarrow> payout_cadence \<Rightarrow> constitution \<Rightarrow> constitution" where
  "with_payout_frequency sha f c =
     (let c1 = c\<lparr>payout_frequency := f\<rparr> in c1\<lparr>c_hash := compute_hash sha c1\<rparr>)"

text \<open>The record both genesis constitutions fill in before hashing, and the two lines that follow.\<close>

definition genesis_base :: "u32 \<Rightarrow> nat \<Rightarrow> u32 \<Rightarrow> profit_splits \<Rightarrow> constitution" where
  "genesis_base ver n p ps =
     (let t = quorum_two_thirds n; gt = min (t + 1) n in
      \<lparr>c_version = ver, max_withdraw_per_day_sats = 1000000, max_withdraw_per_tx_sats = 250000,
       signing_n = n, signing_t = t, governance_t = gt, p_reward_bps = p,
       p_reward_max_bps = 800, c_splits = ps, payout_frequency = CadDaily,
       crypto_suite_id = ''hybrid-v1-placeholder'', c_hash = [], measurement_pin = None,
       c_downgrade = downgrade_default, c_versions = versions_default, previous_hash = None,
       quantum_migration = quantum_default_at (day_epoch_from_unix_secs 0)\<rparr>)"

definition seal_hash :: "(string \<Rightarrow> string) \<Rightarrow> constitution \<Rightarrow> constitution" where
  "seal_hash sha c = ensure_measurement_pin sha (c\<lparr>c_hash := compute_hash sha c\<rparr>)"

definition v1_lab :: "(string \<Rightarrow> string) \<Rightarrow> nat \<Rightarrow> constitution res" where
  "v1_lab sha n =
     (if n < 2 then Inl (InvalidConstitution ''signing_n must be >= 2'')
      else let ps = splits_lab_dry_run in
        rbind (splits_validate ps) (\<lambda>_. Inr (seal_hash sha (genesis_base 1 n 100 ps))))"

definition v1_open :: "(string \<Rightarrow> string) \<Rightarrow> nat \<Rightarrow> constitution res" where
  "v1_open sha n =
     (if n < 2 then Inl (InvalidConstitution ''signing_n must be >= 2'')
      else let p = 100 in
        rbind (splits_open_with_reward p) (\<lambda>ps. Inr (seal_hash sha (genesis_base 2 n p ps))))"

definition constitution_validate :: "(string \<Rightarrow> string) \<Rightarrow> constitution \<Rightarrow> unit res" where
  "constitution_validate sha c =
     (if signing_n c < 2 then Inl (InvalidConstitution ''n < 2'')
      else if signing_t c = 0 \<or> signing_t c > signing_n c then Inl (InvalidConstitution ''bad signing_t'')
      else if governance_t c < signing_t c \<or> governance_t c > signing_n c
        then Inl (InvalidConstitution ''bad governance_t'')
      else if p_reward_bps c > p_reward_max_bps c then Inl (InvalidConstitution ''p_reward exceeds max'')
      else rbind (splits_validate (c_splits c)) (\<lambda>_.
           rbind (downgrade_validate (c_downgrade c)) (\<lambda>_.
           if c_hash c \<noteq> compute_hash sha c then Inl (InvalidConstitution ''constitution hash mismatch'')
           else Inr ())))"

text \<open>The text the source formats, byte for byte.\<close>

definition qt :: string where
  "qt = [CHR 0x22]"

definition key :: "string \<Rightarrow> string" where
  "key k = qt @ k @ qt @ '':''"

definition constitution_json :: "constitution \<Rightarrow> string" where
  "constitution_json c =
     (let pin = (case measurement_pin c of Some p \<Rightarrow> p | None \<Rightarrow> []); d = c_downgrade c; v = c_versions c in
      ''{'' @ key ''version'' @ dec_u (c_version c)
      @ '','' @ key ''max_withdraw_per_day_sats'' @ dec_u (max_withdraw_per_day_sats c)
      @ '','' @ key ''max_withdraw_per_tx_sats'' @ dec_u (max_withdraw_per_tx_sats c)
      @ '','' @ key ''signing_n'' @ dec (signing_n c)
      @ '','' @ key ''signing_t'' @ dec (signing_t c)
      @ '','' @ key ''governance_t'' @ dec (governance_t c)
      @ '','' @ key ''p_reward_bps'' @ dec_u (p_reward_bps c)
      @ '','' @ key ''p_reward_max_bps'' @ dec_u (p_reward_max_bps c)
      @ '','' @ key ''profit_splits'' @ ''{'' @ key ''miners_bps'' @ dec_u (miners_bps (c_splits c))
      @ '','' @ key ''channels_bps'' @ dec_u (channels_bps (c_splits c))
      @ '','' @ key ''infra_bps'' @ dec_u (infra_bps (c_splits c)) @ ''}''
      @ '','' @ key ''crypto_suite_id'' @ qt @ crypto_suite_id c @ qt
      @ '','' @ key ''hash'' @ qt @ c_hash c @ qt
      @ '','' @ key ''measurement_pin'' @ qt @ pin @ qt
      @ '','' @ key ''downgrade_policy'' @ ''{'' @ key ''pq_kem_cat'' @ dec_u (pq_kem_security_category d)
      @ '','' @ key ''pq_sig_cat'' @ dec_u (pq_signature_security_category d)
      @ '','' @ key ''sym_bits'' @ dec_u (symmetric_security_bits d)
      @ '','' @ key ''hybrid_kem'' @ bool_str (hybrid_kem_required d)
      @ '','' @ key ''hybrid_sig'' @ bool_str (hybrid_signature_required d)
      @ '','' @ key ''req_pq_sig'' @ bool_str (require_pq_signatures d)
      @ '','' @ key ''req_pq_kem'' @ bool_str (require_pq_kem d) @ ''}''
      @ '','' @ key ''format_versions'' @ ''{'' @ key ''intent'' @ dec_u (fv_intent v)
      @ '','' @ key ''receipt'' @ dec_u (fv_receipt v)
      @ '','' @ key ''share_envelope'' @ dec_u (fv_share_envelope v)
      @ '','' @ key ''dkg_transcript'' @ dec_u (fv_dkg_transcript v)
      @ '','' @ key ''reshare_transcript'' @ dec_u (fv_reshare_transcript v)
      @ '','' @ key ''certificate'' @ dec_u (fv_certificate v)
      @ '','' @ key ''audit_record'' @ dec_u (fv_audit_record v)
      @ '','' @ key ''min_proto'' @ dec_u (min_protocol_version v)
      @ '','' @ key ''current_proto'' @ dec_u (current_protocol_version v) @ ''}'')"


section \<open>Lemmas and properties\<close>

lemma hash_fields:
  "compute_hash sha (c\<lparr>c_hash := h\<rparr>) = compute_hash sha c"
  "compute_hash sha (c\<lparr>measurement_pin := m\<rparr>) = compute_hash sha c"
  "compute_hash sha (c\<lparr>payout_frequency := f\<rparr>) = compute_hash sha c"
  "compute_hash sha (c\<lparr>c_downgrade := d\<rparr>) = compute_hash sha c"
  "compute_hash sha (c\<lparr>c_versions := v\<rparr>) = compute_hash sha c"
  "compute_hash sha (c\<lparr>quantum_migration := q\<rparr>) = compute_hash sha c"
  by (simp_all add: compute_hash_def hash_material_def)

lemma downgrade_default_ok: "downgrade_validate downgrade_default = Inr ()"
  by (simp add: downgrade_validate_def downgrade_default_def)

lemma governance_min:
  assumes "2 \<le> n"
  shows "quorum_two_thirds n \<le> min (quorum_two_thirds n + 1) n" "0 < quorum_two_thirds n"
    "quorum_two_thirds n \<le> n"
  using assms quorum_two_thirds_le [of n] quorum_two_thirds_pos [of n] by auto

lemma seal_hash_fields [simp]:
  "signing_n (seal_hash sha c) = signing_n c" "signing_t (seal_hash sha c) = signing_t c"
  "governance_t (seal_hash sha c) = governance_t c" "c_splits (seal_hash sha c) = c_splits c"
  "p_reward_bps (seal_hash sha c) = p_reward_bps c" "p_reward_max_bps (seal_hash sha c) = p_reward_max_bps c"
  "c_downgrade (seal_hash sha c) = c_downgrade c" "crypto_suite_id (seal_hash sha c) = crypto_suite_id c"
  "c_hash (seal_hash sha c) = compute_hash sha (seal_hash sha c)"
  by (simp_all add: seal_hash_def ensure_measurement_pin_def hash_fields)

lemma seal_hash_pin: "measurement_pin c = None \<Longrightarrow> measurement_pin (seal_hash sha c) = Some (sha (c_hash (seal_hash sha c)))"
  by (simp add: seal_hash_def ensure_measurement_pin_def)

lemma genesis_base_fields [simp]:
  "signing_n (genesis_base v n p ps) = n" "signing_t (genesis_base v n p ps) = quorum_two_thirds n"
  "governance_t (genesis_base v n p ps) = min (quorum_two_thirds n + 1) n"
  "c_splits (genesis_base v n p ps) = ps" "p_reward_bps (genesis_base v n p ps) = p"
  "p_reward_max_bps (genesis_base v n p ps) = 800" "c_downgrade (genesis_base v n p ps) = downgrade_default"
  "crypto_suite_id (genesis_base v n p ps) = ''hybrid-v1-placeholder''"
  "measurement_pin (genesis_base v n p ps) = None"
  by (simp_all add: genesis_base_def Let_def)

lemma v1_lab_fields:
  assumes "v1_lab sha n = Inr c"
  shows "2 \<le> n" "signing_n c = n" "signing_t c = quorum_two_thirds n"
    "governance_t c = min (quorum_two_thirds n + 1) n" "c_splits c = splits_lab_dry_run"
    "p_reward_bps c = 100" "p_reward_max_bps c = 800" "c_downgrade c = downgrade_default"
    "c_hash c = compute_hash sha c" "measurement_pin c = Some (sha (c_hash c))"
    "crypto_suite_id c = ''hybrid-v1-placeholder''"
proof -
  have n: "2 \<le> n" and c: "c = seal_hash sha (genesis_base 1 n 100 splits_lab_dry_run)"
    using assms by (auto simp: v1_lab_def rbind_Inr_iff split: if_splits)
  show "2 \<le> n" "signing_n c = n" "signing_t c = quorum_two_thirds n"
    "governance_t c = min (quorum_two_thirds n + 1) n" "c_splits c = splits_lab_dry_run"
    "p_reward_bps c = 100" "p_reward_max_bps c = 800" "c_downgrade c = downgrade_default"
    "c_hash c = compute_hash sha c" "measurement_pin c = Some (sha (c_hash c))"
    "crypto_suite_id c = ''hybrid-v1-placeholder''"
    using n by (simp_all add: c seal_hash_pin del: seal_hash_fields(9)) simp_all
qed

lemma v1_open_fields:
  assumes "v1_open sha n = Inr c"
  shows "2 \<le> n" "signing_n c = n" "signing_t c = quorum_two_thirds n"
    "governance_t c = min (quorum_two_thirds n + 1) n" "splits_open_with_reward 100 = Inr (c_splits c)"
    "p_reward_bps c = 100" "p_reward_max_bps c = 800" "c_downgrade c = downgrade_default"
    "c_hash c = compute_hash sha c" "measurement_pin c = Some (sha (c_hash c))"
proof -
  obtain ps where n: "2 \<le> n" and ps: "splits_open_with_reward 100 = Inr ps"
    and c: "c = seal_hash sha (genesis_base 2 n 100 ps)"
    using assms by (auto simp: v1_open_def rbind_Inr_iff split: if_splits)
  show "2 \<le> n" "signing_n c = n" "signing_t c = quorum_two_thirds n"
    "governance_t c = min (quorum_two_thirds n + 1) n" "splits_open_with_reward 100 = Inr (c_splits c)"
    "p_reward_bps c = 100" "p_reward_max_bps c = 800" "c_downgrade c = downgrade_default"
    "c_hash c = compute_hash sha c" "measurement_pin c = Some (sha (c_hash c))"
    using n ps by (simp_all add: c seal_hash_pin del: seal_hash_fields(9)) simp_all
qed

lemma constitution_validate_ok:
  "constitution_validate sha c = Inr () \<longleftrightarrow>
     2 \<le> signing_n c \<and> 0 < signing_t c \<and> signing_t c \<le> signing_n c \<and>
     signing_t c \<le> governance_t c \<and> governance_t c \<le> signing_n c \<and>
     p_reward_bps c \<le> p_reward_max_bps c \<and> splits_validate (c_splits c) = Inr () \<and>
     downgrade_validate (c_downgrade c) = Inr () \<and> c_hash c = compute_hash sha c"
  by (auto simp: constitution_validate_def rbind_Inr_iff)

lemma splits_open_100: "splits_open_with_reward 100 = Inr s \<Longrightarrow> splits_validate s = Inr ()"
  using splits_open_ok [of 100] by auto

text \<open>The end of the hashed text: the suite, then the previous hash if there is one.\<close>

definition material_tail :: "string \<Rightarrow> string \<Rightarrow> string" where
  "material_tail s p = s @ (if p = [] then [] else ''|prev_'' @ p)"

lemma material_tail_inj:
  assumes "material_tail a p = material_tail b q" "CHR ''|'' \<notin> set a" "CHR ''|'' \<notin> set b"
  shows "a = b \<and> p = q"
proof (cases "p = []"; cases "q = []")
  assume "p \<noteq> []" "q \<noteq> []"
  then show ?thesis
    using assms sep_inj [of a "CHR ''|''" "''prev_'' @ p" b "''prev_'' @ q"] by (simp add: material_tail_def)
next
  assume "p = []" "q \<noteq> []"
  then have "CHR ''|'' \<in> set a" using assms(1) by (simp add: material_tail_def)
  then show ?thesis using assms(2) by simp
next
  assume "p \<noteq> []" "q = []"
  then have "b = a @ ''|prev_'' @ p" using assms(1) by (simp add: material_tail_def)
  then have "CHR ''|'' \<in> set b" by simp
  then show ?thesis using assms(3) by simp
qed (use assms in \<open>simp add: material_tail_def\<close>)

lemma genesis_constitutions_valid_lab:
  "v1_lab sha n = Inr c \<Longrightarrow> constitution_validate sha c = Inr () \<and> signing_n c = n
     \<and> governance_t c = min (quorum_two_thirds n + 1) n"
  using governance_min [of n] v1_lab_fields [of sha n c] downgrade_default_ok
  by (simp add: constitution_validate_ok splits_lab_dry_run_def splits_validate_ok)

text \<open>Both genesis constitutions validate for every cluster size they accept, their signing
  quorum is the least integer of at least two thirds of the cluster, and governance needs one more
  vote where the cluster has one; fewer than two nodes are refused.\<close>

theorem genesis_constitutions_valid:
  assumes "v1_lab sha n = Inr c \<or> v1_open sha n = Inr c"
  shows "constitution_validate sha c = Inr () \<and> 2 \<le> n \<and> signing_n c = n
    \<and> 2 * n \<le> 3 * signing_t c \<and> 3 * signing_t c < 2 * n + 3
    \<and> governance_t c = min (signing_t c + 1) n
    \<and> measurement_pin c = Some (sha (compute_hash sha c))"
proof -
  have bounds: "2 * n \<le> 3 * quorum_two_thirds n" "3 * quorum_two_thirds n < 2 * n + 3"
    by (rule quorum_two_thirds_bounds)+
  have le: "(100 :: u32) \<le> 800" by simp
  from assms show ?thesis
  proof
    assume l: "v1_lab sha n = Inr c"
    have "splits_validate (c_splits c) = Inr ()"
      by (simp add: v1_lab_fields [OF l] splits_lab_dry_run_def splits_validate_ok)
    then show ?thesis
      using v1_lab_fields [OF l] governance_min [of n] bounds le downgrade_default_ok
      by (simp add: constitution_validate_ok)
  next
    assume l: "v1_open sha n = Inr c"
    then show ?thesis
      using v1_open_fields [OF l] governance_min [of n] bounds le downgrade_default_ok splits_open_100
      by (simp add: constitution_validate_ok)
  qed
qed

definition zero_sha :: "string \<Rightarrow> string" where
  "zero_sha x = replicate 64 CHR ''0''"

lemma hex64_zero: "hex64 zero_sha"
  by (simp add: hex64_def zero_sha_def hex_char_def code_def list_all_iff)

lemma v1_lab_3: "\<exists>c. v1_lab zero_sha 3 = Inr c"
proof -
  have "splits_validate splits_lab_dry_run = Inr ()" by (simp add: splits_validate_ok splits_lab_dry_run_def)
  then show ?thesis by (simp add: v1_lab_def)
qed

theorem genesis_constitutions_valid_witness:
  "\<exists>c. v1_lab zero_sha 3 = Inr c \<and> constitution_validate zero_sha c = Inr () \<and> signing_t c = 2"
proof -
  obtain c where c: "v1_lab zero_sha 3 = Inr c" using v1_lab_3 by blast
  then show ?thesis using genesis_constitutions_valid [of zero_sha 3 c] by auto
qed

text \<open>The constitution hash binds what it covers: if the digest does not confuse the two hashed
  texts, two constitutions with the same hash have the same version, caps, cluster size, quorums,
  reward rates and profit splits, and, where the suite names contain no separator, the same suite
  and previous hash (an empty previous hash counting as none).\<close>

theorem constitution_hash_binds:
  assumes "inj_on sha {hash_material c, hash_material d}" and "compute_hash sha c = compute_hash sha d"
  shows "c_version c = c_version d \<and> max_withdraw_per_day_sats c = max_withdraw_per_day_sats d
      \<and> max_withdraw_per_tx_sats c = max_withdraw_per_tx_sats d \<and> signing_n c = signing_n d
      \<and> signing_t c = signing_t d \<and> governance_t c = governance_t d
      \<and> p_reward_bps c = p_reward_bps d \<and> p_reward_max_bps c = p_reward_max_bps d
      \<and> c_splits c = c_splits d
      \<and> (CHR ''|'' \<notin> set (crypto_suite_id c) \<longrightarrow> CHR ''|'' \<notin> set (crypto_suite_id d) \<longrightarrow>
           crypto_suite_id c = crypto_suite_id d
           \<and> case_option [] id (previous_hash c) = case_option [] id (previous_hash d))"
proof -
  have "hash_material c = hash_material d"
    using assms by (auto simp: compute_hash_def dest: inj_onD)
  moreover have prev: "(case previous_hash x of None \<Rightarrow> [] | Some h \<Rightarrow> h) = case_option [] id (previous_hash x)" for x
    by (cases "previous_hash x") auto
  ultimately have "c_version c = c_version d \<and> max_withdraw_per_day_sats c = max_withdraw_per_day_sats d
      \<and> max_withdraw_per_tx_sats c = max_withdraw_per_tx_sats d \<and> signing_n c = signing_n d
      \<and> signing_t c = signing_t d \<and> governance_t c = governance_t d
      \<and> p_reward_bps c = p_reward_bps d \<and> p_reward_max_bps c = p_reward_max_bps d
      \<and> miners_bps (c_splits c) = miners_bps (c_splits d) \<and> channels_bps (c_splits c) = channels_bps (c_splits d)
      \<and> infra_bps (c_splits c) = infra_bps (c_splits d)
      \<and> material_tail (crypto_suite_id c) (case_option [] id (previous_hash c))
         = material_tail (crypto_suite_id d) (case_option [] id (previous_hash d))"
    by (simp add: hash_material_def material_tail_def Let_def prev del: if_split)
  then show ?thesis
    using material_tail_inj [of "crypto_suite_id c" "case_option [] id (previous_hash c)"
        "crypto_suite_id d" "case_option [] id (previous_hash d)"] by simp
qed

theorem constitution_hash_binds_witness:
  "\<exists>c d. v1_lab zero_sha 3 = Inr c \<and> d = with_payout_frequency zero_sha CadManual c \<and>
     compute_hash zero_sha d = compute_hash zero_sha c \<and> payout_frequency d \<noteq> payout_frequency c \<and>
     c_splits d = c_splits c \<and> governance_t d = governance_t c"
proof -
  obtain c where c: "v1_lab zero_sha 3 = Inr c" using v1_lab_3 by blast
  let ?d = "with_payout_frequency zero_sha CadManual c"
  have m: "hash_material ?d = hash_material c"
    by (simp add: with_payout_frequency_def Let_def hash_material_def)
  have "c = seal_hash zero_sha (genesis_base 1 3 100 splits_lab_dry_run)"
    using c by (auto simp: v1_lab_def Let_def rbind_Inr_iff)
  then have "payout_frequency c = CadDaily"
    by (simp add: seal_hash_def ensure_measurement_pin_def genesis_base_def Let_def)
  then have "payout_frequency ?d \<noteq> payout_frequency c" by (simp add: with_payout_frequency_def Let_def)
  moreover have "compute_hash zero_sha ?d = compute_hash zero_sha c" by (simp add: compute_hash_def m)
  ultimately show ?thesis
    using c constitution_hash_binds [of zero_sha ?d c] by (auto simp: m)
qed

text \<open>What the hash leaves out can be changed in a constitution that validates without validation
  noticing: the payout frequency, the format versions, the measurement pin, the quantum state, and
  the downgrade policy as far as it still validates by itself.\<close>

theorem constitution_hash_blind:
  assumes "constitution_validate sha c = Inr ()" and "downgrade_validate dp = Inr ()"
  shows "constitution_validate sha (c\<lparr>payout_frequency := f, c_versions := fv, measurement_pin := mp,
        quantum_migration := qm, c_downgrade := dp\<rparr>) = Inr ()"
  using assms by (simp add: constitution_validate_ok compute_hash_def hash_material_def)

theorem constitution_hash_blind_witness:
  "\<exists>c. v1_lab zero_sha 3 = Inr c \<and> constitution_validate zero_sha
     (c\<lparr>payout_frequency := CadManual, c_versions := versions_default, measurement_pin := None,
        quantum_migration := quantum_default_at ''d'', c_downgrade := downgrade_default\<rparr>) = Inr ()"
proof -
  obtain c where c: "v1_lab zero_sha 3 = Inr c" using v1_lab_3 by blast
  then have "constitution_validate zero_sha c = Inr ()" using v1_lab_fields [OF c] governance_min [of 3]
    by (simp add: constitution_validate_ok splits_lab_dry_run_def splits_validate_ok downgrade_default_ok)
  then show ?thesis
    using c constitution_hash_blind [of zero_sha c downgrade_default] downgrade_default_ok by blast
qed

lemma count_list_hex:
  "list_all hex_char s \<Longrightarrow> \<not> hex_char c \<Longrightarrow> count_list s c = 0"
  by (auto simp: count_list_0_iff list_all_iff)

text \<open>The JSON text of a genesis constitution is not well formed: it has one more opening brace
  than closing braces, for every digest that yields hexadecimal text.\<close>

theorem constitution_json_unbalanced:
  assumes "v1_lab sha n = Inr c" and "hex64 sha"
  shows "count_list (constitution_json c) CHR ''{'' = count_list (constitution_json c) CHR ''}'' + 1"
proof -
  have hex: "list_all hex_char (sha x)" for x using assms(2) by (simp add: hex64_def)
  have "list_all hex_char (c_hash c)" "list_all hex_char (sha (c_hash c))"
    using v1_lab_fields(9) [OF assms(1)] hex by (simp_all add: compute_hash_def)
  moreover have "\<not> hex_char CHR ''{''" "\<not> hex_char CHR ''}''" by (simp_all add: hex_char_def code_def)
  ultimately have h: "count_list (c_hash c) CHR ''{'' = 0" "count_list (c_hash c) CHR ''}'' = 0"
    "count_list (sha (c_hash c)) CHR ''{'' = 0" "count_list (sha (c_hash c)) CHR ''}'' = 0"
    by (simp_all add: count_list_hex)
  have d: "\<not> is_ascii_digit CHR ''{''" "\<not> is_ascii_digit CHR ''}''"
    by (simp_all add: is_ascii_digit_def code_def)
  have b: "count_list (bool_str b) CHR ''{'' = 0" "count_list (bool_str b) CHR ''}'' = 0" for b
    by (simp_all add: bool_str_def)
  have k: "count_list (key s) CHR ''{'' = count_list s CHR ''{''" "count_list (key s) CHR ''}'' = count_list s CHR ''}''"
    "count_list qt CHR ''{'' = 0" "count_list qt CHR ''}'' = 0" for s
    by (simp_all add: key_def qt_def)
  show ?thesis
    unfolding constitution_json_def Let_def count_list_append k
    by (simp add: v1_lab_fields(10,11) [OF assms(1)] h d b count_list_dec count_list_dec_u)
qed

theorem constitution_json_unbalanced_witness:
  "\<exists>c. v1_lab zero_sha 3 = Inr c \<and>
     count_list (constitution_json c) CHR ''{'' = count_list (constitution_json c) CHR ''}'' + 1"
  using v1_lab_3 constitution_json_unbalanced [OF _ hex64_zero] by blast

end
