(* ===== verification/Durable.thy ===== *)
theory Durable
  imports Errors
begin

text \<open>
  What the durable adapters share: the append-only id log that is replayed at boot
  (\<open>bucket_memory.rs\<close>, \<open>session_persist.rs\<close>) and the retrying fan-out of a request to the peers
  (\<open>intent_consume.rs\<close>, \<open>session_persist.rs\<close>, \<open>http_peer.rs\<close>).  The outcome of a disk write and
  of an HTTP attempt are arguments; what a peer's body says is the parameter \<open>parse\<close>
  (\<open>serde_json\<close>).
\<close>

section \<open>Atomic files\<close>

text \<open>An atomic write (\<open>durable_fs.rs\<close>) succeeds, fails before the rename (the old content stays), or
  fails after it.\<close>

datatype write_outcome = WriteOk | WriteFailed string | WriteUnsynced string


section \<open>The append-only log\<close>

datatype io_result = IoOk | IoOpenErr string | IoWriteErr string string | IoSyncErr string

definition newline :: char where
  "newline = CHR 0x0A"

text \<open>Append one line.  A failed write may leave part of the line behind; a failed sync has
  written it.\<close>

definition append_line :: "string \<Rightarrow> io_result \<Rightarrow> string \<Rightarrow> string \<Rightarrow> unit res \<times> string" where
  "append_line tag io i log =
     (case io of
        IoOk \<Rightarrow> (Inr (), log @ i @ [newline])
      | IoOpenErr e \<Rightarrow> (Inl (ThresholdError (tag @ '' append: '' @ e)), log)
      | IoWriteErr e part \<Rightarrow> (Inl (ThresholdError (tag @ '' write: '' @ e)), log @ part)
      | IoSyncErr e \<Rightarrow> (Inl (ThresholdError (tag @ '' sync: '' @ e)), log @ i @ [newline]))"

text \<open>Lines of the file: \<open>BufRead::lines\<close> yields nothing after a final newline, which
  \<open>is_empty\<close> skips here as well, and drops a carriage return, which \<open>trim\<close> removes.\<close>

definition log_lines :: "string \<Rightarrow> string list" where
  "log_lines log = map trim (split_on newline log)"

definition load_consumed_ids :: "string \<Rightarrow> string set" where
  "load_consumed_ids log = set (filter (\<lambda>i. i \<noteq> [] \<and> hd i \<noteq> CHR ''#'') (log_lines log))"

definition load_session_ids :: "string \<Rightarrow> string set" where
  "load_session_ids log = set (filter (\<lambda>i. i \<noteq> []) (log_lines log))"

text \<open>A log whose every append completed: whole lines.\<close>

definition whole_lines :: "string \<Rightarrow> bool" where
  "whole_lines log \<longleftrightarrow> log = [] \<or> last log = newline"

lemma split_on_whole:
  "split_on newline (log @ [newline] @ s) = split_on newline log @ split_on newline s"
proof (induction log)
  case (Cons c log)
  show ?case
  proof (cases "c = newline")
    case False
    obtain w ws where "split_on newline log = w # ws" by (cases "split_on newline log") auto
    then show ?thesis using Cons False by simp
  qed (use Cons in simp)
qed simp

lemma split_on_end: "split_on newline (log @ [newline]) = split_on newline log @ [[]]"
  using split_on_whole [of log "[]"] by simp

lemma trim_Nil [simp]: "trim [] = []"
  using length_trim [of "[]"] by simp

lemma whole_lines_split:
  assumes "whole_lines log"
  shows "\<exists>ls. split_on newline log = ls @ [[]]"
proof (cases "log = []")
  case False
  then have "log = butlast log @ [newline]" using assms by (metis append_butlast_last_id whole_lines_def)
  then show ?thesis by (metis split_on_end)
qed simp

lemma log_lines_append:
  assumes "whole_lines log" "newline \<notin> set i"
  shows "set (log_lines (log @ i @ [newline])) = insert (trim i) (set (log_lines log) \<union> {[]})"
    and "whole_lines (log @ i @ [newline])"
proof -
  obtain ls where ls: "split_on newline log = ls @ [[]]" using whole_lines_split [OF assms(1)] by blast
  have "split_on newline (log @ i @ [newline]) = ls @ [i, []]"
  proof (cases "log = []")
    case True
    then show ?thesis using ls split_on_append [OF assms(2), of "[]"] by auto
  next
    case False
    then have b: "log = butlast log @ [newline]" using assms(1) by (metis append_butlast_last_id whole_lines_def)
    then have "split_on newline (butlast log) = ls" using ls by (metis split_on_end butlast_snoc)
    then show ?thesis
      using split_on_whole [of "butlast log" "i @ [newline]"] split_on_append [OF assms(2), of "[]"] b
      by (metis append.assoc append_Cons append_Nil split_on.simps(1))
  qed
  then show "set (log_lines (log @ i @ [newline])) = insert (trim i) (set (log_lines log) \<union> {[]})"
    using ls by (auto simp: log_lines_def)
  show "whole_lines (log @ i @ [newline])" by (simp add: whole_lines_def)
qed

text \<open>The ids a log line can carry: what trimming leaves alone, without a line break.\<close>

definition line_safe :: "string \<Rightarrow> bool" where
  "line_safe i \<longleftrightarrow> i \<noteq> [] \<and> trim i = i \<and> newline \<notin> set i"

lemma load_session_append:
  assumes "whole_lines log" "line_safe i"
  shows "load_session_ids (log @ i @ [newline]) = insert i (load_session_ids log)"
proof -
  have "newline \<notin> set i" "trim i = i" "i \<noteq> []" using assms(2) by (auto simp: line_safe_def)
  then show ?thesis
    using log_lines_append(1) [OF assms(1), of i] by (auto simp: load_session_ids_def)
qed

lemma load_consumed_append:
  assumes "whole_lines log" "line_safe i" "hd i \<noteq> CHR ''#''"
  shows "load_consumed_ids (log @ i @ [newline]) = insert i (load_consumed_ids log)"
proof -
  have "newline \<notin> set i" "trim i = i" "i \<noteq> []" using assms(2) by (auto simp: line_safe_def)
  then show ?thesis
    using log_lines_append(1) [OF assms(1), of i] assms(3) by (auto simp: load_consumed_ids_def)
qed

lemma load_consumed_comment:
  assumes "whole_lines log" "line_safe i" "hd i = CHR ''#''"
  shows "load_consumed_ids (log @ i @ [newline]) = load_consumed_ids log"
proof -
  have "newline \<notin> set i" "trim i = i" "i \<noteq> []" using assms(2) by (auto simp: line_safe_def)
  then show ?thesis
    using log_lines_append(1) [OF assms(1), of i] assms(3) by (auto simp: load_consumed_ids_def)
qed


section \<open>Fan-out to the peers\<close>

datatype http_outcome = HttpBody string | HttpStatus nat | HttpFail

definition should_retry_status :: "nat \<Rightarrow> bool" where
  "should_retry_status c = (500 \<le> c \<and> c < 600 \<or> c = 408)"

text \<open>Up to \<open>left\<close> more attempts on one peer.  A success body that does not parse aborts the whole
  fan-out; a peer that answers nothing usable is left out.\<close>

fun post_attempts :: "(string \<Rightarrow> 'a res) \<Rightarrow> (nat \<Rightarrow> http_outcome) \<Rightarrow> nat \<Rightarrow> nat \<Rightarrow> 'a option res" where
  "post_attempts parse net 0 k = Inr None"
| "post_attempts parse net (Suc left) k =
     (case net k of
        HttpBody b \<Rightarrow> rbind (parse b) (\<lambda>a. Inr (Some a))
      | HttpStatus c \<Rightarrow>
          if \<not> should_retry_status c \<or> left = 0 then Inr None else post_attempts parse net left (Suc k)
      | HttpFail \<Rightarrow> if left = 0 then Inr None else post_attempts parse net left (Suc k))"

fun fan_out ::
  "(string \<Rightarrow> 'a res) \<Rightarrow> (string \<Rightarrow> nat \<Rightarrow> http_outcome) \<Rightarrow> nat \<Rightarrow> string list \<Rightarrow> 'a list res" where
  "fan_out parse net retries [] = Inr []"
| "fan_out parse net retries (u # us) =
     rbind (post_attempts parse (net u) (max retries 1) 0) (\<lambda>r.
     rbind (fan_out parse net retries us) (\<lambda>rest.
       Inr (case r of None \<Rightarrow> rest | Some a \<Rightarrow> a # rest)))"

text \<open>\<open>has_flag b\<close> is what \<open>serde_json\<close> reads of the field \<open>already_seen\<close>.\<close>

definition parse_already_seen :: "string \<Rightarrow> (string \<Rightarrow> bool option) \<Rightarrow> string \<Rightarrow> bool res" where
  "parse_already_seen tag has_flag b =
     (case has_flag b of
        Some s \<Rightarrow> Inr s
      | None \<Rightarrow> Inl (ThresholdError (tag @ '' peer response missing already_seen (fail-closed)'')))"

lemma post_attempts_length: "post_attempts parse net n k = Inr (Some a) \<Longrightarrow> \<exists>j b. k \<le> j \<and> j < k + n \<and> net j = HttpBody b \<and> parse b = Inr a"
proof (induction parse net n k rule: post_attempts.induct)
  case (2 parse net left k)
  show ?case
  proof (cases "net k")
    case (HttpBody b)
    then show ?thesis using 2(3) by (intro exI [of _ k] exI [of _ b]) (auto simp: rbind_Inr_iff)
  next
    case (HttpStatus c)
    then have "post_attempts parse net left (Suc k) = Inr (Some a)" and "\<not> (\<not> should_retry_status c \<or> left = 0)"
      using 2(3) by (auto split: if_splits)
    then obtain j b where "Suc k \<le> j \<and> j < Suc k + left \<and> net j = HttpBody b \<and> parse b = Inr a"
      using 2(1) [OF HttpStatus] by blast
    then show ?thesis by (intro exI [of _ j] exI [of _ b]) auto
  next
    case HttpFail
    then have "post_attempts parse net left (Suc k) = Inr (Some a)" and "left \<noteq> 0"
      using 2(3) by (auto split: if_splits)
    then obtain j b where "Suc k \<le> j \<and> j < Suc k + left \<and> net j = HttpBody b \<and> parse b = Inr a"
      using 2(2) [OF HttpFail] by blast
    then show ?thesis by (intro exI [of _ j] exI [of _ b]) auto
  qed
qed simp

text \<open>Every acknowledgement in the result is a body some peer sent, and no peer counts twice.\<close>

lemma fan_out_sound:
  assumes "fan_out parse net retries us = Inr acks"
  shows "length acks \<le> length us"
    and "\<forall>a \<in> set acks. \<exists>u \<in> set us. \<exists>j b. net u j = HttpBody b \<and> parse b = Inr a"
  using assms
proof (induction us arbitrary: acks)
  case (Cons u us)
  {
    case 1
    then show ?case using Cons.IH(1) by (fastforce simp: rbind_Inr_iff split: option.splits)
  next
    case 2
    then obtain r rest where r: "post_attempts parse (net u) (max retries 1) 0 = Inr r"
      "fan_out parse net retries us = Inr rest" "acks = (case r of None \<Rightarrow> rest | Some a \<Rightarrow> a # rest)"
      by (auto simp: rbind_Inr_iff)
    show ?case
      using Cons.IH(2) [OF r(2)] post_attempts_length [of parse "net u" "max retries 1" 0] r
      by (cases r) fastforce+
  }
qed simp_all

end
