(* ===== verification/Mesh.thy ===== *)
theory Mesh
  imports Constitution Durable
begin

text \<open>
  The quorum claim that \<open>QuorumBucketLedger::claim_consume\<close> (\<open>adapters/intent_consume.rs\<close>) and
  \<open>QuorumAntiNonce::claim_session\<close> (\<open>adapters/session_persist.rs\<close>) share: burn the id locally,
  ask the peers to burn it, refuse when any peer has seen it or too few answered.  The verdict is
  a function of the answers; the mesh is a step relation in which the prepares of concurrent
  claims interleave in any order, each prepare being one mutex-protected step of its node.
\<close>

section \<open>Quorum and verdict\<close>

definition cluster_quorum :: "nat \<Rightarrow> nat" where
  "cluster_quorum peer_count =
     (let n = max (peer_count + 1) 1 in
      if peer_count = 0 then 1 else max (quorum_two_thirds n) 1)"

lemma cluster_quorum_majority: "peer_count + 1 < 2 * cluster_quorum peer_count"
proof (cases "peer_count = 0")
  case False
  have "2 * (peer_count + 1) \<le> 3 * quorum_two_thirds (peer_count + 1)" by (rule quorum_two_thirds_bounds)
  then show ?thesis using False by (simp add: cluster_quorum_def Let_def max_def)
qed (simp add: cluster_quorum_def)

lemma cluster_quorum_le: "cluster_quorum peer_count \<le> peer_count + 1"
  using quorum_two_thirds_le [of "peer_count + 1"] by (auto simp: cluster_quorum_def Let_def)

datatype verdict = Granted | SeenOnPeer | TooFew nat nat

text \<open>\<open>acks\<close> are the \<open>already_seen\<close> flags of the peers that answered.\<close>

definition claim_verdict :: "nat \<Rightarrow> bool list \<Rightarrow> verdict" where
  "claim_verdict t acks =
     (if list_ex (\<lambda>a. a) acks then SeenOnPeer
      else let have1 = 1 + length acks in
        if have1 < t then TooFew have1 t else Granted)"

lemma claim_granted: "claim_verdict t acks = Granted \<longleftrightarrow> (\<forall>a \<in> set acks. \<not> a) \<and> t \<le> 1 + length acks"
  by (auto simp: claim_verdict_def Let_def list_ex_iff)

text \<open>A peer list queried one after the other, as the in-memory transports do.\<close>

fun prepare_all :: "('i \<Rightarrow> 's \<Rightarrow> bool res \<times> 's) \<Rightarrow> 'i \<Rightarrow> 's list \<Rightarrow> bool list res \<times> 's list" where
  "prepare_all prep i [] = (Inr [], [])"
| "prepare_all prep i (p # ps) =
     (case prep i p of
        (Inl e, p') \<Rightarrow> (Inl e, p' # ps)
      | (Inr b, p') \<Rightarrow>
          (case prepare_all prep i ps of
             (Inl e, ps') \<Rightarrow> (Inl e, p' # ps')
           | (Inr bs, ps') \<Rightarrow> (Inr (b # bs), p' # ps')))"


section \<open>The mesh\<close>

record 'i claim =
  cl_owner :: nat
  cl_id :: 'i
  cl_acks :: "(nat \<times> bool) list"
  cl_verdict :: "verdict option"

record ('i, 's) mesh =
  nodes :: "nat \<Rightarrow> 's"
  claims :: "nat \<Rightarrow> 'i claim option"

text \<open>\<open>prep\<close> is a node's durable prepare, \<open>seen\<close> the ids it has burned.  Besides the steps of the
  claims, a node may at any time move by any operation that keeps what it has burned; a peer that
  is down, or whose disk fails, simply does not answer.\<close>

inductive mesh_step ::
  "('i \<Rightarrow> 's \<Rightarrow> bool res \<times> 's) \<Rightarrow> ('s \<Rightarrow> 'i set) \<Rightarrow> nat \<Rightarrow> nat \<Rightarrow> ('i, 's) mesh \<Rightarrow> ('i, 's) mesh \<Rightarrow> bool"
  for prep seen n t where
  start: "claims m c = None \<Longrightarrow> w < n \<Longrightarrow> prep i (nodes m w) = (Inr False, s) \<Longrightarrow>
    mesh_step prep seen n t m
      (m\<lparr>nodes := (nodes m)(w := s),
         claims := (claims m)(c \<mapsto> \<lparr>cl_owner = w, cl_id = i, cl_acks = [], cl_verdict = None\<rparr>)\<rparr>)"
| ask: "claims m c = Some cl \<Longrightarrow> cl_verdict cl = None \<Longrightarrow> p < n \<Longrightarrow> p \<noteq> cl_owner cl \<Longrightarrow>
    p \<notin> fst ` set (cl_acks cl) \<Longrightarrow> prep (cl_id cl) (nodes m p) = (Inr b, s) \<Longrightarrow>
    mesh_step prep seen n t m
      (m\<lparr>nodes := (nodes m)(p := s),
         claims := (claims m)(c \<mapsto> cl\<lparr>cl_acks := cl_acks cl @ [(p, b)]\<rparr>)\<rparr>)"
| finish: "claims m c = Some cl \<Longrightarrow> cl_verdict cl = None \<Longrightarrow>
    mesh_step prep seen n t m
      (m\<lparr>claims := (claims m)(c \<mapsto> cl\<lparr>cl_verdict := Some (claim_verdict t (map snd (cl_acks cl)))\<rparr>)\<rparr>)"
| other: "seen (nodes m p) \<subseteq> seen s \<Longrightarrow>
    mesh_step prep seen n t m (m\<lparr>nodes := (nodes m)(p := s)\<rparr>)"

inductive_cases mesh_stepE: "mesh_step prep seen n t m m'"

inductive mesh_run ::
  "('i \<Rightarrow> 's \<Rightarrow> bool res \<times> 's) \<Rightarrow> ('s \<Rightarrow> 'i set) \<Rightarrow> nat \<Rightarrow> nat \<Rightarrow> ('i, 's) mesh \<Rightarrow> ('i, 's) mesh \<Rightarrow> bool"
  for prep seen n t m0 where
  refl: "mesh_run prep seen n t m0 m0"
| step: "mesh_run prep seen n t m0 m \<Longrightarrow> mesh_step prep seen n t m m' \<Longrightarrow> mesh_run prep seen n t m0 m'"

text \<open>The nodes whose burn of the id this claim was the first to make.\<close>

definition fresh_nodes :: "'i claim \<Rightarrow> nat set" where
  "fresh_nodes cl = insert (cl_owner cl) {p. (p, False) \<in> set (cl_acks cl)}"

definition claim_ok :: "('s \<Rightarrow> 'i set) \<Rightarrow> nat \<Rightarrow> nat \<Rightarrow> ('i, 's) mesh \<Rightarrow> 'i claim \<Rightarrow> bool" where
  "claim_ok seen n t m cl \<longleftrightarrow>
     cl_owner cl < n \<and> distinct (map fst (cl_acks cl)) \<and> cl_owner cl \<notin> fst ` set (cl_acks cl)
     \<and> fst ` set (cl_acks cl) \<subseteq> {..<n} \<and> (\<forall>p \<in> fresh_nodes cl. cl_id cl \<in> seen (nodes m p))
     \<and> (cl_verdict cl = Some Granted \<longrightarrow> claim_verdict t (map snd (cl_acks cl)) = Granted)"

definition mesh_inv :: "('s \<Rightarrow> 'i set) \<Rightarrow> nat \<Rightarrow> nat \<Rightarrow> ('i, 's) mesh \<Rightarrow> bool" where
  "mesh_inv seen n t m \<longleftrightarrow>
     (\<forall>c cl. claims m c = Some cl \<longrightarrow> claim_ok seen n t m cl)
     \<and> (\<forall>c d cl dl. claims m c = Some cl \<longrightarrow> claims m d = Some dl \<longrightarrow> c \<noteq> d \<longrightarrow> cl_id cl = cl_id dl \<longrightarrow>
          fresh_nodes cl \<inter> fresh_nodes dl = {})"

lemma granted_fresh_card:
  assumes "claim_ok seen n t m cl" "cl_verdict cl = Some Granted"
  shows "t \<le> card (fresh_nodes cl)" "fresh_nodes cl \<subseteq> {..<n}"
proof -
  have g: "\<forall>a \<in> set (map snd (cl_acks cl)). \<not> a" "t \<le> 1 + length (cl_acks cl)"
    using assms by (auto simp: claim_ok_def claim_granted)
  have "{p. (p, False) \<in> set (cl_acks cl)} = fst ` set (cl_acks cl)" using g(1) by force
  then have f: "fresh_nodes cl = insert (cl_owner cl) (fst ` set (cl_acks cl))" by (simp add: fresh_nodes_def)
  have "card (fst ` set (cl_acks cl)) = length (cl_acks cl)"
    using assms(1) distinct_card [of "map fst (cl_acks cl)"] by (simp add: claim_ok_def)
  then show "t \<le> card (fresh_nodes cl)" using g(2) f assms(1) by (simp add: claim_ok_def)
  show "fresh_nodes cl \<subseteq> {..<n}" using assms(1) f by (auto simp: claim_ok_def)
qed

lemma mesh_inv_update:
  assumes "mesh_inv seen n t m" "claims m' = (claims m)(c \<mapsto> new)" "claim_ok seen n t m' new"
    and old: "\<And>d dl. claims m d = Some dl \<Longrightarrow> d \<noteq> c \<Longrightarrow> claim_ok seen n t m' dl"
    and disj: "\<And>d dl. claims m d = Some dl \<Longrightarrow> d \<noteq> c \<Longrightarrow> cl_id dl = cl_id new \<Longrightarrow>
      fresh_nodes dl \<inter> fresh_nodes new = {}"
  shows "mesh_inv seen n t m'"
  unfolding mesh_inv_def
proof (intro conjI allI impI)
  fix d dl
  assume "claims m' d = Some dl"
  then show "claim_ok seen n t m' dl" using assms(2,3) old by (cases "d = c") auto
next
  fix d e dl el
  assume d: "claims m' d = Some dl" and e: "claims m' e = Some el" and "d \<noteq> e" "cl_id dl = cl_id el"
  have m: "fresh_nodes dl \<inter> fresh_nodes el = {}"
    if "claims m d = Some dl" "claims m e = Some el"
    using that assms(1) \<open>d \<noteq> e\<close> \<open>cl_id dl = cl_id el\<close> by (simp add: mesh_inv_def)
  consider "d = c" | "e = c" | "d \<noteq> c" "e \<noteq> c" by blast
  then show "fresh_nodes dl \<inter> fresh_nodes el = {}"
  proof cases
    case 1
    then have "dl = new" "claims m e = Some el" "e \<noteq> c" using d e assms(2) \<open>d \<noteq> e\<close> by auto
    then show ?thesis using disj [of e el] \<open>cl_id dl = cl_id el\<close> by (simp add: Int_commute)
  next
    case 2
    then have "el = new" "claims m d = Some dl" "d \<noteq> c" using d e assms(2) \<open>d \<noteq> e\<close> by auto
    then show ?thesis using disj [of d dl] \<open>cl_id dl = cl_id el\<close> by simp
  next
    case 3
    then show ?thesis using m d e assms(2) by simp
  qed
qed

lemma mesh_solo_run:
  assumes "prep i (nodes mi 0) = (Inr False, s)" "claims mi = (\<lambda>_. None)"
  shows "\<exists>m cl. mesh_run prep seen 1 1 mi m \<and> claims m 0 = Some cl \<and> cl_verdict cl = Some Granted \<and> cl_id cl = i"
proof -
  let ?cl = "\<lparr>cl_owner = 0, cl_id = i, cl_acks = [], cl_verdict = None\<rparr>"
  let ?m1 = "mi\<lparr>nodes := (nodes mi)(0 := s), claims := (claims mi)(0 \<mapsto> ?cl)\<rparr>"
  have "mesh_step prep seen 1 1 mi ?m1" by (rule mesh_step.start) (use assms in auto)
  then have r1: "mesh_run prep seen 1 1 mi ?m1" by (rule mesh_run.step [OF mesh_run.refl])
  have "mesh_step prep seen 1 1 ?m1 (?m1\<lparr>claims := (claims ?m1)(0 \<mapsto>
      ?cl\<lparr>cl_verdict := Some (claim_verdict 1 (map snd (cl_acks ?cl)))\<rparr>)\<rparr>)"
    by (rule mesh_step.finish) simp_all
  from mesh_run.step [OF r1 this] show ?thesis
    by (intro exI conjI) (assumption, auto simp: claim_verdict_def)
qed

text \<open>The interface of a node's prepare: it answers whether the id was burned and burns it.\<close>

locale prepare_port =
  fixes prep :: "'i \<Rightarrow> 's \<Rightarrow> bool res \<times> 's"
    and seen :: "'s \<Rightarrow> 'i set"
  assumes prep_flag: "prep i s = (Inr b, s') \<Longrightarrow> b \<longleftrightarrow> i \<in> seen s"
    and prep_burns: "prep i s = (Inr b, s') \<Longrightarrow> i \<in> seen s'"
    and prep_mono: "seen s \<subseteq> seen (snd (prep i s))"
begin

lemma claim_ok_node:
  assumes "claim_ok seen n t m cl" "seen (nodes m w) \<subseteq> seen s"
  shows "claim_ok seen n t (m\<lparr>nodes := (nodes m)(w := s), claims := cs\<rparr>) cl"
  using assms by (auto simp: claim_ok_def)

lemma step_inv:
  assumes "mesh_step prep seen n t m m'" "mesh_inv seen n t m"
  shows "mesh_inv seen n t m'"
  using assms(1)
proof (cases rule: mesh_step.cases)
  case (start c w i s)
  have mono: "seen (nodes m w) \<subseteq> seen s" and i: "i \<in> seen s" "i \<notin> seen (nodes m w)"
    using prep_mono [of "nodes m w" i] prep_burns [OF start(4)] prep_flag [OF start(4)] start(4) by auto
  let ?new = "\<lparr>cl_owner = w, cl_id = i, cl_acks = [], cl_verdict = None\<rparr>"
  have new: "claim_ok seen n t m' ?new" "fresh_nodes ?new = {w}"
    using start(3) i by (auto simp: start(1) claim_ok_def fresh_nodes_def)
  have old: "claim_ok seen n t m' cl" if "claims m d = Some cl" for d cl
    using claim_ok_node [OF _ mono] that assms(2) by (auto simp: start(1) mesh_inv_def)
  have "fresh_nodes cl \<inter> fresh_nodes ?new = {}" if "claims m d = Some cl" "cl_id cl = i" for d cl
    using that assms(2) i(2) by (auto simp: new(2) mesh_inv_def claim_ok_def)
  then show ?thesis
    by (intro mesh_inv_update [OF assms(2) _ new(1)]) (use old in \<open>simp_all add: start(1)\<close>)
next
  case (ask c cl p b s)
  let ?cl = "cl\<lparr>cl_acks := cl_acks cl @ [(p, b)]\<rparr>"
  have mono: "seen (nodes m p) \<subseteq> seen s" and i: "cl_id cl \<in> seen s" "b \<longleftrightarrow> cl_id cl \<in> seen (nodes m p)"
    using prep_mono [of "nodes m p" "cl_id cl"] prep_burns [OF ask(7)] prep_flag [OF ask(7)] ask(7) by auto
  have cl: "claim_ok seen n t m cl" using ask(2) assms(2) by (auto simp: mesh_inv_def)
  have fresh: "fresh_nodes ?cl = (if b then fresh_nodes cl else insert p (fresh_nodes cl))"
    by (auto simp: fresh_nodes_def)
  have seen_fresh: "\<forall>q \<in> fresh_nodes ?cl. cl_id cl \<in> seen (((nodes m)(p := s)) q)"
    using cl mono i(1) by (auto simp: fresh claim_ok_def split: if_splits)
  have new: "claim_ok seen n t m' ?cl"
    using cl ask(3-6) seen_fresh by (auto simp: ask(1) claim_ok_def)
  have old: "claim_ok seen n t m' dl" if "claims m d = Some dl" for d dl
    using claim_ok_node [OF _ mono] that assms(2) by (auto simp: ask(1) mesh_inv_def)
  have disj: "fresh_nodes ?cl \<inter> fresh_nodes dl = {}"
    if "claims m d = Some dl" "c \<noteq> d" "cl_id dl = cl_id cl" for d dl
  proof -
    have "fresh_nodes cl \<inter> fresh_nodes dl = {}" using that ask(2) assms(2) by (simp add: mesh_inv_def)
    moreover have "claim_ok seen n t m dl" using that(1) assms(2) by (auto simp: mesh_inv_def)
    then have "p \<notin> fresh_nodes dl" if "\<not> b"
      using that i(2) \<open>cl_id dl = cl_id cl\<close> by (metis claim_ok_def)
    ultimately show ?thesis by (auto simp: fresh)
  qed
  have "fresh_nodes dl \<inter> fresh_nodes ?cl = {}"
    if "claims m d = Some dl" "d \<noteq> c" "cl_id dl = cl_id cl" for d dl
    using disj [of d dl] that by (simp add: Int_commute)
  then show ?thesis
    by (intro mesh_inv_update [OF assms(2) _ new]) (use old in \<open>simp_all add: ask(1)\<close>)
next
  case (finish c cl)
  let ?cl = "cl\<lparr>cl_verdict := Some (claim_verdict t (map snd (cl_acks cl)))\<rparr>"
  have "claim_ok seen n t m cl" using finish(2) assms(2) by (auto simp: mesh_inv_def)
  then have new: "claim_ok seen n t m' ?cl" by (auto simp: finish(1) claim_ok_def fresh_nodes_def)
  have old: "claim_ok seen n t m' dl" if "claims m d = Some dl" for d dl
    using that assms(2) by (auto simp: mesh_inv_def claim_ok_def finish(1))
  have "fresh_nodes ?cl = fresh_nodes cl" by (simp add: fresh_nodes_def)
  then have "fresh_nodes dl \<inter> fresh_nodes ?cl = {}"
    if "claims m d = Some dl" "d \<noteq> c" "cl_id dl = cl_id cl" for d dl
    using that finish(2) assms(2) by (simp add: mesh_inv_def)
  then show ?thesis
    by (intro mesh_inv_update [OF assms(2) _ new]) (use old in \<open>simp_all add: finish(1)\<close>)
next
  case (other p s)
  then show ?thesis using assms(2) by (auto simp: mesh_inv_def claim_ok_def subset_iff)
qed

lemma run_inv: "mesh_run prep seen n t m0 m \<Longrightarrow> mesh_inv seen n t m0 \<Longrightarrow> mesh_inv seen n t m"
  by (induction rule: mesh_run.induct) (auto intro: step_inv)

lemma at_most_one_granted:
  assumes "mesh_run prep seen n t m0 m" "claims m0 = (\<lambda>_. None)" "n < 2 * t"
    and "claims m c = Some cl" "claims m d = Some dl" "cl_id cl = cl_id dl"
    and "cl_verdict cl = Some Granted" "cl_verdict dl = Some Granted"
  shows "c = d"
proof (rule ccontr)
  assume "c \<noteq> d"
  have "mesh_inv seen n t m0" using assms(2) by (simp add: mesh_inv_def)
  then have inv: "mesh_inv seen n t m" using run_inv [OF assms(1)] by blast
  then have ok: "claim_ok seen n t m cl" "claim_ok seen n t m dl" using assms(4,5) by (auto simp: mesh_inv_def)
  have disj: "fresh_nodes cl \<inter> fresh_nodes dl = {}"
    using inv assms(4-6) \<open>c \<noteq> d\<close> by (auto simp: mesh_inv_def)
  note gc = granted_fresh_card [OF ok(1) assms(7)] and gd = granted_fresh_card [OF ok(2) assms(8)]
  have "finite (fresh_nodes cl)" "finite (fresh_nodes dl)"
    using gc(2) gd(2) finite_subset by blast+
  then have "card (fresh_nodes cl \<union> fresh_nodes dl) = card (fresh_nodes cl) + card (fresh_nodes dl)"
    using disj by (simp add: card_Un_disjoint)
  moreover have "card (fresh_nodes cl \<union> fresh_nodes dl) \<le> n"
    using gc(2) gd(2) card_mono [of "{..<n}" "fresh_nodes cl \<union> fresh_nodes dl"] by simp
  ultimately show False using gc(1) gd(1) assms(3) by linarith
qed

end

end
