(* ===== verification/PersistedLedger.thy ===== *)
theory PersistedLedger
  imports BucketLedger Mesh
begin

text \<open>
  The durable bucket ledger (\<open>PersistedBucketLedger\<close>, \<open>adapters/bucket_memory.rs\<close>): the in-memory
  ledger of \<open>BucketLedger\<close> plus an fsynced log of consumed ids, and the mesh-replicated ledger
  over it (\<open>QuorumBucketLedger\<close>, \<open>adapters/intent_consume.rs\<close>).  \<open>io\<close> is the outcome of the log
  append of a call, \<open>acks\<close> what the transport returned.  The source checks \<open>consumed\<close> once more
  after the append, for callers racing between the two critical sections; in a sequential step
  that second check repeats the first.
\<close>

section \<open>The persisted ledger\<close>

record persisted =
  pl_log :: string
  pl_mem :: bucket_state

definition persisted_open :: "string \<Rightarrow> u64 \<Rightarrow> u64 \<Rightarrow> persisted" where
  "persisted_open log tx day =
     \<lparr>pl_log = log, pl_mem = (from_constitution_caps tx day)\<lparr>consumed := load_consumed_ids log\<rparr>\<rparr>"

definition append_consumed :: "io_result \<Rightarrow> string \<Rightarrow> persisted \<Rightarrow> unit res \<times> persisted" where
  "append_consumed io i p =
     (case append_line ''intent-consume'' io i (pl_log p) of (r, log) \<Rightarrow> (r, p\<lparr>pl_log := log\<rparr>))"

definition on_mem :: "('r \<times> bucket_state) \<Rightarrow> persisted \<Rightarrow> 'r \<times> persisted" where
  "on_mem rg p = (fst rg, p\<lparr>pl_mem := snd rg\<rparr>)"

definition p_prepare_consume :: "io_result \<Rightarrow> string \<Rightarrow> persisted \<Rightarrow> bool res \<times> persisted" where
  "p_prepare_consume io i p =
     (if i \<in> consumed (pl_mem p) then (Inr True, p)
      else case append_consumed io i p of
        (Inl e, p1) \<Rightarrow> (Inl e, p1)
      | (Inr _, p1) \<Rightarrow>
          if i \<in> consumed (pl_mem p1) then (Inr True, p1)
          else (Inr False, p1\<lparr>pl_mem := burn i (drop_reservation i (pl_mem p1))\<rparr>))"

definition p_prepare_soft :: "nat \<Rightarrow> string \<Rightarrow> persisted \<Rightarrow> bool \<times> persisted" where
  "p_prepare_soft now i p =
     (let g = sweep_expired now (pl_mem p) in
      if i \<in> consumed g \<or> bt_get i (reserved g) \<noteq> None then (True, p\<lparr>pl_mem := g\<rparr>)
      else (False, p\<lparr>pl_mem := put_reservation i Users 0 (now + reserve_ttl) g\<rparr>))"

definition p_has_reservation :: "nat \<Rightarrow> string \<Rightarrow> persisted \<Rightarrow> bool \<times> persisted" where
  "p_has_reservation now i p = on_mem (has_reservation now i (pl_mem p)) p"

definition p_try_consume :: "io_result \<Rightarrow> string \<Rightarrow> persisted \<Rightarrow> unit res \<times> persisted" where
  "p_try_consume io i p =
     (if i \<in> consumed (pl_mem p) then (Inl (IntentReplay i), p)
      else case append_consumed io i p of
        (Inl e, p1) \<Rightarrow> (Inl e, p1)
      | (Inr _, p1) \<Rightarrow>
          if i \<in> consumed (pl_mem p1) then (Inl (IntentReplay i), p1)
          else (Inr (), p1\<lparr>pl_mem := burn i (drop_reservation i (pl_mem p1))\<rparr>))"

definition p_mark_consumed :: "io_result \<Rightarrow> string \<Rightarrow> persisted \<Rightarrow> unit res \<times> persisted" where
  "p_mark_consumed io i p = p_try_consume io i p"

definition p_reserve_spend ::
  "nat \<Rightarrow> string \<Rightarrow> bucket_kind \<Rightarrow> u64 \<Rightarrow> validator \<Rightarrow> persisted \<Rightarrow> unit res \<times> persisted" where
  "p_reserve_spend now i k a v p = on_mem (reserve_spend now i k a v (pl_mem p)) p"

definition p_commit_consume :: "nat \<Rightarrow> io_result \<Rightarrow> string \<Rightarrow> persisted \<Rightarrow> unit res \<times> persisted" where
  "p_commit_consume now io i p =
     (let g = sweep_expired now (pl_mem p); p1 = p\<lparr>pl_mem := g\<rparr> in
      if i \<in> consumed g then (Inr (), p1)
      else if bt_get i (reserved g) = None then (Inl (ReservationMissing i), p1)
      else p_try_consume io i p1)"

definition p_release_reservation :: "string \<Rightarrow> bucket_kind \<Rightarrow> u64 \<Rightarrow> persisted \<Rightarrow> unit res \<times> persisted" where
  "p_release_reservation i k a p = on_mem (release_reservation i k a (pl_mem p)) p"

definition p_authorize ::
  "io_result \<Rightarrow> string \<Rightarrow> bucket_kind \<Rightarrow> u64 \<Rightarrow> validator \<Rightarrow> persisted \<Rightarrow> unit res \<times> persisted" where
  "p_authorize io i k a v p =
     (let g = pl_mem p in
      if i \<in> consumed g then (Inl (IntentReplay i), p)
      else case policy_of k g of
        Inl e \<Rightarrow> (Inl e, p)
      | Inr pol \<Rightarrow>
          (case v pol (spent_of k g) of
             Inl e \<Rightarrow> (Inl e, p)
           | Inr _ \<Rightarrow>
               (let p1 = p\<lparr>pl_mem := burn i (add_spend k a g)\<rparr> in
                case append_consumed io i p1 of
                  (Inr _, p2) \<Rightarrow> (Inr (), p2)
                | (Inl e, p2) \<Rightarrow>
                    (Inl e, p2\<lparr>pl_mem := roll_back k a
                       (pl_mem p2\<lparr>consumed := consumed (pl_mem p2) - {i}\<rparr>)\<rparr>))))"


section \<open>The quorum ledger\<close>

definition ge_sign :: string where
  "ge_sign = [CHR 0xE2, CHR 0x89, CHR 0xA5]"

definition seen_on_peer :: "string \<Rightarrow> domain_error" where
  "seen_on_peer i = IntentReplay (''intent seen on '' @ ge_sign @ ''1 peer: '' @ i)"

definition verdict_res :: "string \<Rightarrow> verdict \<Rightarrow> unit res" where
  "verdict_res i v =
     (case v of Granted \<Rightarrow> Inr () | SeenOnPeer \<Rightarrow> Inl (seen_on_peer i)
      | TooFew have1 need \<Rightarrow> Inl (QuorumNotMet have1 need))"

definition claim_reserve ::
  "nat \<Rightarrow> nat \<Rightarrow> bool list res \<Rightarrow> string \<Rightarrow> persisted \<Rightarrow> unit res \<times> persisted" where
  "claim_reserve now t acks i p =
     (case p_prepare_soft now i p of
        (True, p1) \<Rightarrow> (Inl (IntentReplay i), p1)
      | (False, p1) \<Rightarrow>
          (case acks of
             Inl e \<Rightarrow> (Inl e, p1)
           | Inr as \<Rightarrow>
               (case claim_verdict t as of
                  TooFew h n \<Rightarrow> (verdict_res i (TooFew h n), snd (p_release_reservation i Users 0 p1))
                | v \<Rightarrow> (verdict_res i v, p1))))"

definition claim_consume ::
  "nat \<Rightarrow> io_result \<Rightarrow> bool list res \<Rightarrow> string \<Rightarrow> persisted \<Rightarrow> unit res \<times> persisted" where
  "claim_consume t io acks i p =
     (case p_prepare_consume io i p of
        (Inl e, p1) \<Rightarrow> (Inl e, p1)
      | (Inr True, p1) \<Rightarrow> (Inl (IntentReplay i), p1)
      | (Inr False, p1) \<Rightarrow>
          (case acks of
             Inl e \<Rightarrow> (Inl e, p1)
           | Inr as \<Rightarrow> (verdict_res i (claim_verdict t as), p1)))"

definition q_reserve_spend ::
  "nat \<Rightarrow> nat \<Rightarrow> bool list res \<Rightarrow> string \<Rightarrow> bucket_kind \<Rightarrow> u64 \<Rightarrow> validator \<Rightarrow> persisted \<Rightarrow> unit res \<times> persisted" where
  "q_reserve_spend now t acks i k a v p =
     (let g = sweep_expired now (pl_mem p); p0 = p\<lparr>pl_mem := g\<rparr> in
      if i \<in> consumed g \<or> bt_get i (reserved g) \<noteq> None then (Inl (IntentReplay i), p0)
      else case policy_of k g of
        Inl e \<Rightarrow> (Inl e, p0)
      | Inr pol \<Rightarrow>
          (case v pol (spent_of k g) of
             Inl e \<Rightarrow> (Inl e, p0)
           | Inr _ \<Rightarrow>
               (let p1 = p\<lparr>pl_mem := put_reservation i k a (now + 300) (add_spend k a g)\<rparr> in
                case acks of
                  Inl e \<Rightarrow> (Inl e, p1)
                | Inr as \<Rightarrow>
                    (case claim_verdict t as of
                       Granted \<Rightarrow> (Inr (), p1)
                     | r \<Rightarrow> (verdict_res i r, snd (p_release_reservation i k a p1))))))"

definition q_commit_consume ::
  "nat \<Rightarrow> io_result \<Rightarrow> bool list res \<Rightarrow> string \<Rightarrow> persisted \<Rightarrow> unit res \<times> persisted" where
  "q_commit_consume t io acks i p =
     (if is_consumed i (pl_mem p) then (Inr (), p) else claim_consume t io acks i p)"

definition q_authorize ::
  "nat \<Rightarrow> nat \<Rightarrow> io_result \<Rightarrow> bool list res \<Rightarrow> bool list res \<Rightarrow> string \<Rightarrow> bucket_kind \<Rightarrow> u64 \<Rightarrow> validator
     \<Rightarrow> persisted \<Rightarrow> unit res \<times> persisted" where
  "q_authorize now t io soft_acks acks i k a v p =
     (case q_reserve_spend now t soft_acks i k a v p of
        (Inl e, p1) \<Rightarrow> (Inl e, p1)
      | (Inr _, p1) \<Rightarrow>
          (case q_commit_consume t io acks i p1 of
             (Inl e, p2) \<Rightarrow> (Inl e, snd (p_release_reservation i k a p2))
           | (Inr _, p2) \<Rightarrow> (Inr (), p2)))"


section \<open>Operations and durability\<close>

datatype persisted_op =
    PTryConsume io_result string
  | PPrepareConsume io_result string
  | PPrepareSoft nat string
  | PHasReservation nat string
  | PReserve nat string bucket_kind u64 validator
  | PCommit nat io_result string
  | PRelease string bucket_kind u64
  | PAuthorize io_result string bucket_kind u64 validator

fun persisted_step :: "persisted_op \<Rightarrow> persisted \<Rightarrow> bool res \<times> persisted" where
  "persisted_step (PTryConsume io i) p = (map_sum id (\<lambda>_. False) (fst (p_try_consume io i p)), snd (p_try_consume io i p))"
| "persisted_step (PPrepareConsume io i) p = p_prepare_consume io i p"
| "persisted_step (PPrepareSoft now i) p = (Inr (fst (p_prepare_soft now i p)), snd (p_prepare_soft now i p))"
| "persisted_step (PHasReservation now i) p = (Inr (fst (p_has_reservation now i p)), snd (p_has_reservation now i p))"
| "persisted_step (PReserve now i k a v) p = (map_sum id (\<lambda>_. False) (fst (p_reserve_spend now i k a v p)), snd (p_reserve_spend now i k a v p))"
| "persisted_step (PCommit now io i) p = (map_sum id (\<lambda>_. False) (fst (p_commit_consume now io i p)), snd (p_commit_consume now io i p))"
| "persisted_step (PRelease i k a) p = (map_sum id (\<lambda>_. False) (fst (p_release_reservation i k a p)), snd (p_release_reservation i k a p))"
| "persisted_step (PAuthorize io i k a v) p = (map_sum id (\<lambda>_. False) (fst (p_authorize io i k a v p)), snd (p_authorize io i k a v p))"

text \<open>Which id an operation burns by its result: a consume or authorize that returns \<open>Ok\<close>, or a
  prepare that says it was not there yet.\<close>

fun persisted_win :: "persisted_op \<Rightarrow> bool res \<Rightarrow> string option" where
  "persisted_win (PTryConsume io i) (Inr _) = Some i"
| "persisted_win (PPrepareConsume io i) (Inr b) = (if b then None else Some i)"
| "persisted_win (PAuthorize io i k a v) (Inr _) = Some i"
| "persisted_win _ _ = None"

definition burned :: "persisted \<Rightarrow> string set" where
  "burned p = consumed (pl_mem p)"

lemma append_consumed_mem [simp]: "pl_mem (snd (append_consumed io i p)) = pl_mem p"
  by (simp add: append_consumed_def split: prod.splits)

lemma append_consumed_cases:
  obtains (ok) log where "append_consumed io i p = (Inr (), p\<lparr>pl_log := log\<rparr>)"
  | (err) e log where "append_consumed io i p = (Inl e, p\<lparr>pl_log := log\<rparr>)"
  by (cases "append_line ''intent-consume'' io i (pl_log p)"; cases "fst (append_line ''intent-consume'' io i (pl_log p))")
     (auto simp: append_consumed_def)

lemma release_consumed [simp]: "consumed (snd (release_reservation i k a g)) = consumed g"
  by (auto simp: release_reservation_def split: option.splits)

lemma p_prepare_consume_spec:
  "p_prepare_consume io i p =
     (if i \<in> burned p then (Inr True, p)
      else case fst (append_consumed io i p) of
        Inl e \<Rightarrow> (Inl e, snd (append_consumed io i p))
      | Inr _ \<Rightarrow> (Inr False, (snd (append_consumed io i p))\<lparr>pl_mem := burn i (drop_reservation i (pl_mem p))\<rparr>))"
  by (cases rule: append_consumed_cases [of io i p]) (auto simp: p_prepare_consume_def burned_def)

lemma p_try_consume_spec:
  "p_try_consume io i p =
     (if i \<in> burned p then (Inl (IntentReplay i), p)
      else case fst (append_consumed io i p) of
        Inl e \<Rightarrow> (Inl e, snd (append_consumed io i p))
      | Inr _ \<Rightarrow> (Inr (), (snd (append_consumed io i p))\<lparr>pl_mem := burn i (drop_reservation i (pl_mem p))\<rparr>))"
  by (cases rule: append_consumed_cases [of io i p]) (auto simp: p_try_consume_def burned_def)

lemma roll_back_minus [simp]:
  "consumed (roll_back k a (g\<lparr>consumed := c\<rparr>)) = c"
  by (auto simp: roll_back_def split: option.splits)

lemma p_authorize_burned:
  "burned (snd (p_authorize io i k a v p)) =
     (if is_ok (fst (p_authorize io i k a v p)) then insert i (burned p) else burned p)"
  "is_ok (fst (p_authorize io i k a v p)) \<Longrightarrow> i \<notin> burned p"
proof -
  let ?p1 = "p\<lparr>pl_mem := burn i (add_spend k a (pl_mem p))\<rparr>"
  show "burned (snd (p_authorize io i k a v p)) =
     (if is_ok (fst (p_authorize io i k a v p)) then insert i (burned p) else burned p)"
    by (cases rule: append_consumed_cases [of io i ?p1])
       (auto simp: p_authorize_def Let_def burned_def split: sum.splits)
  show "is_ok (fst (p_authorize io i k a v p)) \<Longrightarrow> i \<notin> burned p"
    by (auto simp: p_authorize_def Let_def burned_def split: if_splits)
qed

lemma reserve_consumed [simp]: "consumed (snd (reserve_spend now i k a v g)) = consumed g"
  by (auto simp: reserve_spend_def Let_def split: option.splits sum.splits)

lemma persisted_mono: "burned p \<subseteq> burned (snd (persisted_step x p))"
proof (cases x)
  case (PAuthorize io i k a v)
  then show ?thesis using p_authorize_burned(1) [of io i k a v p] by auto
qed (auto simp: p_try_consume_spec p_prepare_consume_spec p_prepare_soft_def p_has_reservation_def
    p_reserve_spend_def p_commit_consume_def p_release_reservation_def on_mem_def has_reservation_def
    burned_def Let_def split: sum.splits)

lemma persisted_win_step:
  "persisted_win x (fst (persisted_step x p)) = Some i \<Longrightarrow> i \<notin> burned p \<and> i \<in> burned (snd (persisted_step x p))"
proof (cases x)
  case (PAuthorize io j k a v)
  assume "persisted_win x (fst (persisted_step x p)) = Some i"
  then have "is_ok (fst (p_authorize io j k a v p))" "i = j"
    unfolding PAuthorize by (cases "fst (p_authorize io j k a v p)"; simp)+
  then show ?thesis using p_authorize_burned [of io j k a v p] by (simp add: PAuthorize)
next
  case (PTryConsume io j)
  assume "persisted_win x (fst (persisted_step x p)) = Some i"
  then show ?thesis
    by (auto simp: PTryConsume p_try_consume_spec burned_def split: if_splits sum.splits)
next
  case (PPrepareConsume io j)
  assume "persisted_win x (fst (persisted_step x p)) = Some i"
  then show ?thesis
    by (auto simp: PPrepareConsume p_prepare_consume_spec burned_def split: if_splits sum.splits)
qed auto

interpretation durable: burn_once persisted_step burned persisted_win
  by unfold_locales (use persisted_mono persisted_win_step in auto)

interpretation intents: prepare_port "p_prepare_consume io" burned for io
proof
  fix i s b s'
  assume p: "p_prepare_consume io i s = (Inr b, s')"
  then show "b \<longleftrightarrow> i \<in> burned s" by (auto simp: p_prepare_consume_spec split: if_splits sum.splits)
  show "i \<in> burned s'"
    using p by (auto simp: p_prepare_consume_spec burned_def split: if_splits sum.splits)
next
  fix i s
  show "burned s \<subseteq> burned (snd (p_prepare_consume io i s))"
    using persisted_mono [of s "PPrepareConsume io i"] by simp
qed


section \<open>What a restart keeps\<close>

text \<open>An append that fails leaves either nothing or the whole line: the outcomes in which the log
  stays a sequence of whole lines.\<close>

fun clean_io :: "io_result \<Rightarrow> bool" where
  "clean_io (IoWriteErr e part) = (part = [])"
| "clean_io _ = True"

fun op_io :: "persisted_op \<Rightarrow> io_result" where
  "op_io (PTryConsume io i) = io"
| "op_io (PPrepareConsume io i) = io"
| "op_io (PCommit now io i) = io"
| "op_io (PAuthorize io i k a v) = io"
| "op_io _ = IoOk"

definition recoverable :: "string \<Rightarrow> bool" where
  "recoverable i \<longleftrightarrow> line_safe i \<and> hd i \<noteq> CHR ''#''"

definition durable_inv :: "persisted \<Rightarrow> bool" where
  "durable_inv p \<longleftrightarrow>
     whole_lines (pl_log p) \<and> (\<forall>i \<in> burned p. recoverable i \<longrightarrow> i \<in> load_consumed_ids (pl_log p))"

lemma load_consumed_mono:
  assumes "whole_lines log"
  shows "load_consumed_ids log \<subseteq> load_consumed_ids (log @ s)"
proof (cases "log = []")
  case True
  then show ?thesis by (auto simp: load_consumed_ids_def log_lines_def)
next
  case False
  then have b: "log = butlast log @ [newline]" using assms by (metis append_butlast_last_id whole_lines_def)
  have "set (log_lines log) \<subseteq> insert [] (set (log_lines (log @ s)))"
    using split_on_whole [of "butlast log" s] split_on_end [of "butlast log"] b
    by (auto simp: log_lines_def) (metis Un_iff append.assoc append_Cons append_Nil imageI set_append)
  then show ?thesis by (auto simp: load_consumed_ids_def)
qed

lemma append_durable:
  assumes "durable_inv p" "clean_io io"
  shows "whole_lines (pl_log (snd (append_consumed io i p)))"
    and "load_consumed_ids (pl_log p) \<subseteq> load_consumed_ids (pl_log (snd (append_consumed io i p)))"
    and "fst (append_consumed io i p) = Inr () \<Longrightarrow> recoverable i \<Longrightarrow>
      i \<in> load_consumed_ids (pl_log (snd (append_consumed io i p)))"
proof -
  have w: "whole_lines (pl_log p)" using assms(1) by (simp add: durable_inv_def)
  have log: "pl_log (snd (append_consumed io i p)) \<in> {pl_log p, pl_log p @ i @ [newline]}"
    using assms(2) by (cases io) (simp_all add: append_consumed_def append_line_def)
  then show "whole_lines (pl_log (snd (append_consumed io i p)))"
    using w by (auto simp: whole_lines_def)
  show "load_consumed_ids (pl_log p) \<subseteq> load_consumed_ids (pl_log (snd (append_consumed io i p)))"
    using log load_consumed_mono [OF w, of "i @ [newline]"] by auto
  assume "fst (append_consumed io i p) = Inr ()" "recoverable i"
  then have "pl_log (snd (append_consumed io i p)) = pl_log p @ i @ [newline]"
    by (cases io) (simp_all add: append_consumed_def append_line_def)
  then show "i \<in> load_consumed_ids (pl_log (snd (append_consumed io i p)))"
    using load_consumed_append [OF w] \<open>recoverable i\<close> by (simp add: recoverable_def)
qed

lemma durable_append:
  assumes "durable_inv p" "clean_io io" "burned q \<subseteq> burned p"
    "pl_log q = pl_log (snd (append_consumed io i p))"
  shows "durable_inv q"
  using append_durable(1,2) [OF assms(1,2), of i] assms(1,3,4) by (auto simp: durable_inv_def)

lemma durable_burn:
  assumes "durable_inv p" "clean_io io" "fst (append_consumed io i p) = Inr ()"
    "burned q = insert i (burned p)" "pl_log q = pl_log (snd (append_consumed io i p))"
  shows "durable_inv q"
  using append_durable [OF assms(1,2), of i] assms by (auto simp: durable_inv_def)

lemma durable_same:
  assumes "durable_inv p" "burned q = burned p" "pl_log q = pl_log p"
  shows "durable_inv q"
  using assms by (simp add: durable_inv_def)

lemma durable_try:
  assumes "durable_inv p" "clean_io io"
  shows "durable_inv (snd (p_try_consume io i p))"
proof (cases "i \<in> burned p \<or> \<not> is_ok (fst (append_consumed io i p))")
  case True
  then have "burned (snd (p_try_consume io i p)) = burned p \<and>
      pl_log (snd (p_try_consume io i p)) \<in> {pl_log p, pl_log (snd (append_consumed io i p))}"
    by (auto simp: p_try_consume_spec burned_def split: sum.splits)
  then show ?thesis using durable_same [OF assms(1)] durable_append [OF assms] by auto
next
  case False
  then have ok: "fst (append_consumed io i p) = Inr ()" by (cases "fst (append_consumed io i p)") auto
  show ?thesis
    by (rule durable_burn [OF assms ok]) (use False ok in \<open>simp_all add: p_try_consume_spec burned_def\<close>)
qed

lemma durable_prepare:
  assumes "durable_inv p" "clean_io io"
  shows "durable_inv (snd (p_prepare_consume io i p))"
proof (cases "i \<in> burned p \<or> \<not> is_ok (fst (append_consumed io i p))")
  case True
  then have "burned (snd (p_prepare_consume io i p)) = burned p \<and>
      pl_log (snd (p_prepare_consume io i p)) \<in> {pl_log p, pl_log (snd (append_consumed io i p))}"
    by (auto simp: p_prepare_consume_spec burned_def split: sum.splits)
  then show ?thesis using durable_same [OF assms(1)] durable_append [OF assms] by auto
next
  case False
  then have ok: "fst (append_consumed io i p) = Inr ()" by (cases "fst (append_consumed io i p)") auto
  show ?thesis
    by (rule durable_burn [OF assms ok]) (use False ok in \<open>simp_all add: p_prepare_consume_spec burned_def\<close>)
qed

lemma durable_authorize:
  assumes "durable_inv p" "clean_io io"
  shows "durable_inv (snd (p_authorize io i k a v p))"
proof -
  let ?g = "pl_mem p"
  let ?p1 = "p\<lparr>pl_mem := burn i (add_spend k a ?g)\<rparr>"
  let ?ap = "append_consumed io i ?p1"
  have same: "pl_log (snd ?ap) = pl_log (snd (append_consumed io i p))" "fst ?ap = fst (append_consumed io i p)"
    by (simp_all add: append_consumed_def split: prod.splits)
  have cases: "snd (p_authorize io i k a v p) = p
    \<or> fst ?ap = Inr () \<and> snd (p_authorize io i k a v p) = snd ?ap
    \<or> (\<exists>e. fst ?ap = Inl e \<and> i \<notin> burned p \<and> snd (p_authorize io i k a v p) =
        (snd ?ap)\<lparr>pl_mem := roll_back k a ((pl_mem ?p1)\<lparr>consumed := consumed (pl_mem ?p1) - {i}\<rparr>)\<rparr>)"
  proof (cases "i \<in> burned p")
    case False
    then show ?thesis
    proof (cases "policy_of k ?g")
      case (Inr pol)
      then show ?thesis
      proof (cases "v pol (spent_of k ?g)")
        case ok: (Inr u)
        show ?thesis
        proof (cases "?ap")
          case (Pair r p2)
          have "pl_mem p2 = pl_mem ?p1" using append_consumed_mem [of io i ?p1] Pair by simp
          then show ?thesis using False Inr ok Pair
            by (cases r) (simp_all add: p_authorize_def burned_def Let_def)
        qed
      qed (use False in \<open>simp add: p_authorize_def burned_def Let_def\<close>)
    qed (use False in \<open>simp add: p_authorize_def burned_def Let_def\<close>)
  qed (simp add: p_authorize_def burned_def Let_def)
  then consider "snd (p_authorize io i k a v p) = p"
    | "fst ?ap = Inr ()" "snd (p_authorize io i k a v p) = snd ?ap"
    | e where "fst ?ap = Inl e" "i \<notin> burned p" "snd (p_authorize io i k a v p) =
        (snd ?ap)\<lparr>pl_mem := roll_back k a ((pl_mem ?p1)\<lparr>consumed := consumed (pl_mem ?p1) - {i}\<rparr>)\<rparr>"
    by blast
  then show ?thesis
  proof cases
    case 2
    then show ?thesis
      by (intro durable_burn [OF assms, of i]) (use same in \<open>simp_all add: burned_def\<close>)
  next
    case 3
    then show ?thesis
      by (intro durable_append [OF assms, of _ i]) (use same in \<open>auto simp: burned_def\<close>)
  qed (use assms in simp)
qed

lemma durable_step:
  assumes "durable_inv p" "clean_io (op_io x)"
  shows "durable_inv (snd (persisted_step x p))"
proof (cases x)
  case (PCommit now io i)
  let ?p1 = "p\<lparr>pl_mem := sweep_expired now (pl_mem p)\<rparr>"
  have "durable_inv ?p1" by (rule durable_same [OF assms(1)]) (simp_all add: burned_def)
  then show ?thesis
    using durable_try [of ?p1 io i] assms(2) by (simp add: PCommit p_commit_consume_def Let_def)
qed (use assms durable_try durable_prepare durable_authorize in
    \<open>auto simp: p_prepare_soft_def p_has_reservation_def has_reservation_def p_reserve_spend_def
       p_release_reservation_def on_mem_def Let_def burned_def intro: durable_same [OF assms(1)]\<close>)

lemma durable_open: "whole_lines log \<Longrightarrow> durable_inv (persisted_open log tx day)"
  by (simp add: durable_inv_def persisted_open_def burned_def)


section \<open>Properties\<close>


lemma line_safe_i1: "line_safe ''i1''"
  unfolding line_safe_def by code_simp


text \<open>An id that starts with a hash sign is consumed but not recovered: the boot replay takes its
  line for a comment, so after a restart the same intent is consumed a second time.\<close>

theorem hash_id_replayed_after_restart:
  "fst (p_try_consume IoOk ''#1'' (persisted_open [] 10 10)) = Inr ()
   \<and> fst (p_try_consume IoOk ''#1'' (persisted_open
        (pl_log (snd (p_try_consume IoOk ''#1'' (persisted_open [] 10 10)))) 10 10)) = Inr ()"
proof -
  have none: "load_consumed_ids [] = {}" "''#1'' \<notin> burned (persisted_open [] 10 10)"
    by (simp_all add: load_consumed_ids_def log_lines_def burned_def persisted_open_def)
  have log: "pl_log (snd (p_try_consume IoOk ''#1'' (persisted_open [] 10 10))) = [] @ ''#1'' @ [newline]"
    using none by (simp add: p_try_consume_spec append_consumed_def append_line_def) (simp add: persisted_open_def)
  have "line_safe ''#1''" unfolding line_safe_def by code_simp
  then have "load_consumed_ids ([] @ ''#1'' @ [newline]) = {}"
    using load_consumed_comment [of "[]" "''#1''"] none by (simp add: whole_lines_def)
  then have "''#1'' \<notin> burned (persisted_open ([] @ ''#1'' @ [newline]) 10 10)"
    by (simp add: burned_def persisted_open_def)
  then show ?thesis
    unfolding log using none(2)
    by (simp add: p_try_consume_spec append_consumed_def append_line_def)
qed



text \<open>A quorum consume succeeds exactly when the id was not burned here, the local append was
  durable, no peer that answered had seen it and at least the quorum, this node included,
  answered; and once the local append is durable the id stays burned here even when the quorum is
  refused.\<close>

theorem claim_consume_iff:
  "(fst (claim_consume t io (Inr acks) i p) = Inr () \<longleftrightarrow>
      i \<notin> burned p \<and> io = IoOk \<and> (\<forall>a \<in> set acks. \<not> a) \<and> t \<le> 1 + length acks)
   \<and> burned (snd (claim_consume t io (Inr acks) i p)) = (if io = IoOk then insert i (burned p) else burned p)"
proof -
  have io: "is_ok (fst (append_consumed io i p)) \<longleftrightarrow> io = IoOk"
    by (cases io) (simp_all add: append_consumed_def append_line_def)
  have v: "verdict_res i (claim_verdict t acks) = Inr () \<longleftrightarrow> (\<forall>a \<in> set acks. \<not> a) \<and> t \<le> 1 + length acks"
    using claim_granted [of t acks] by (cases "claim_verdict t acks") (auto simp: verdict_res_def)
  show ?thesis
    using io v
    by (cases "fst (append_consumed io i p)")
       (auto simp: claim_consume_def p_prepare_consume_spec burned_def insert_absorb split: if_splits)
qed

theorem claim_consume_iff_witness:
  "fst (claim_consume 2 IoOk (Inr [False, False]) ''i1'' (persisted_open [] 10 10)) = Inr ()"
  using claim_consume_iff [of 2 IoOk "[False, False]" "''i1''" "persisted_open [] 10 10"]
  by (auto simp: burned_def persisted_open_def load_consumed_ids_def log_lines_def)

end
