(* ===== verification/BucketSpec.thy ===== *)
theory BucketSpec
  imports BucketLedger
begin

text \<open>
  What the spend ledger promises its callers, without its running counters: per bucket the amount settled
  for good, the live holds, and the ids used up.  \<open>BucketLedger\<close> keeps one saturating 64-bit counter per
  bucket that mixes settled and held amounts and subtracts when a hold lapses; it implements the
  specification step by step.
\<close>

section \<open>The specification\<close>

record spend_spec =
  sp_settled :: "bucket_kind \<Rightarrow> nat"
  sp_holds :: "string \<rightharpoonup> bucket_kind \<times> nat \<times> nat"
  sp_burned :: "string set"

definition hold_amount :: "bucket_kind \<Rightarrow> (bucket_kind \<times> nat \<times> nat) option \<Rightarrow> nat" where
  "hold_amount k h = (case h of None \<Rightarrow> 0 | Some (j, a, e) \<Rightarrow> if j = k then a else 0)"

definition sp_used :: "bucket_kind \<Rightarrow> spend_spec \<Rightarrow> nat" where
  "sp_used k s = sp_settled s k + (\<Sum>i\<in>dom (sp_holds s). hold_amount k (sp_holds s i))"

definition sp_expire :: "nat \<Rightarrow> spend_spec \<Rightarrow> spend_spec" where
  "sp_expire now s = s\<lparr>sp_holds := (\<lambda>i. case sp_holds s i of
     Some (k, a, e) \<Rightarrow> if e \<le> now then None else Some (k, a, e) | None \<Rightarrow> None)\<rparr>"

definition sp_settle :: "string \<Rightarrow> spend_spec \<Rightarrow> spend_spec" where
  "sp_settle i s =
     \<lparr>sp_settled = (\<lambda>k. sp_settled s k + hold_amount k (sp_holds s i)), sp_holds = (sp_holds s)(i := None),
      sp_burned = insert i (sp_burned s)\<rparr>"

text \<open>A spend is admitted on the policy of its bucket and what the bucket has used.\<close>

definition sp_admit ::
  "(bucket_kind \<Rightarrow> bucket_policy option) \<Rightarrow> bucket_kind \<Rightarrow> validator \<Rightarrow> spend_spec \<Rightarrow> unit res" where
  "sp_admit pol k v s =
     (case pol k of None \<Rightarrow> Inl (InvalidBucket (bucket_str k)) | Some p \<Rightarrow> v p (of_nat (sp_used k s)))"

fun spec_step ::
  "(bucket_kind \<Rightarrow> bucket_policy option) \<Rightarrow> nat \<times> bucket_op \<Rightarrow> spend_spec \<Rightarrow> unit res \<times> spend_spec" where
  "spec_step pol (now, OpTryConsume i) s =
     (let s1 = sp_expire now s in
      if i \<in> sp_burned s1 then (Inl (IntentReplay i), s1) else (Inr (), sp_settle i s1))"
| "spec_step pol (now, OpMarkConsumed i) s = (Inr (), s\<lparr>sp_burned := insert i (sp_burned s)\<rparr>)"
| "spec_step pol (now, OpRecordSpend k a) s =
     (Inr (), s\<lparr>sp_settled := (sp_settled s)(k := sp_settled s k + unat a)\<rparr>)"
| "spec_step pol (now, OpHasReservation i) s = (Inr (), sp_expire now s)"
| "spec_step pol (now, OpReserve i k a v) s =
     (let s1 = sp_expire now s in
      if i \<in> sp_burned s1 then (Inl (IntentReplay i), s1)
      else case sp_holds s1 i of
        Some (j, b, e) \<Rightarrow> (if j = k \<and> b = unat a then Inr () else Inl (IntentReplay i), s1)
      | None \<Rightarrow>
          (case sp_admit pol k v s1 of
             Inl e \<Rightarrow> (Inl e, s1)
           | Inr _ \<Rightarrow> (Inr (), s1\<lparr>sp_holds := (sp_holds s1)(i \<mapsto> (k, unat a, now + reserve_ttl))\<rparr>)))"
| "spec_step pol (now, OpCommit i) s =
     (let s1 = sp_expire now s in
      if i \<in> sp_burned s1 then (Inr (), s1)
      else if sp_holds s1 i = None then (Inl (ReservationMissing i), s1)
      else (Inr (), sp_settle i s1))"
| "spec_step pol (now, OpRelease i k a) s = (Inr (), s\<lparr>sp_holds := (sp_holds s)(i := None)\<rparr>)"
| "spec_step pol (now, OpAuthorize i k a v) s =
     (let s1 = sp_expire now s in
      if i \<in> sp_burned s1 \<or> sp_holds s1 i \<noteq> None then (Inl (IntentReplay i), s1)
      else case sp_admit pol k v s1 of
        Inl e \<Rightarrow> (Inl e, s1)
      | Inr _ \<Rightarrow> (Inr (), s1\<lparr>sp_settled := (sp_settled s1)(k := sp_settled s1 k + unat a),
                             sp_burned := insert i (sp_burned s1)\<rparr>))"

section \<open>The abstraction\<close>

definition abs_hold :: "bucket_kind \<times> u64 \<times> nat \<Rightarrow> bucket_kind \<times> nat \<times> nat" where
  "abs_hold h = (case h of (k, a, e) \<Rightarrow> (k, unat a, e))"

definition sp_abs :: "bucket_state \<Rightarrow> spend_spec" where
  "sp_abs g = \<lparr>sp_settled = (\<lambda>k. committed k g), sp_holds = (\<lambda>i. map_option abs_hold (bt_get i (reserved g))),
     sp_burned = consumed g\<rparr>"

lemma sp_abs_sel [simp]:
  "sp_settled (sp_abs g) k = committed k g"
  "sp_holds (sp_abs g) i = map_option abs_hold (bt_get i (reserved g))"
  "sp_burned (sp_abs g) = consumed g"
  by (simp_all add: sp_abs_def)

lemma sp_abs_eqI:
  assumes "\<And>k. committed k g = sp_settled s k" "\<And>i. map_option abs_hold (bt_get i (reserved g)) = sp_holds s i"
    "consumed g = sp_burned s"
  shows "sp_abs g = s"
  using assms by (cases s) (auto simp: sp_abs_def)

lemma bt_get_dom: "bt_ok m \<Longrightarrow> dom (\<lambda>i. map_option f (bt_get i m)) = set (bt_keys m)"
  by (auto simp: dom_def) (metis bt_get_None option.distinct(1) option.exhaust)+

lemma held_sum:
  "bt_ok m \<Longrightarrow>
     (\<Sum>i\<in>set (bt_keys m). hold_amount k (map_option abs_hold (bt_get i m))) =
     (\<Sum>(i, j, a, e)\<leftarrow>m. if j = k then unat a else 0)"
proof (induction m)
  case (Cons p m)
  obtain i j a e where p: "p = (i, j, a, e)" by (cases p) auto
  have ok: "bt_ok m" "i \<notin> set (bt_keys m)" using Cons.prems by (auto simp: bt_ok_Cons p)
  have "(\<Sum>x\<in>set (bt_keys m). hold_amount k (map_option abs_hold (bt_get x (p # m)))) =
      (\<Sum>x\<in>set (bt_keys m). hold_amount k (map_option abs_hold (bt_get x m)))"
    using ok by (intro sum.cong) (auto simp: p)
  moreover have "hold_amount k (map_option abs_hold (bt_get i (p # m))) = (if j = k then unat a else 0)"
    by (simp add: p hold_amount_def abs_hold_def)
  ultimately show ?case using Cons.IH [OF ok(1)] ok(2) by (simp add: p del: bt_get.simps)
qed simp

lemma used_abs: "ledger_inv g \<Longrightarrow> sp_used k (sp_abs g) = unat (spent_of k g)"
  using held_sum [of "reserved g" k] bt_get_dom [of "reserved g" abs_hold]
  by (auto simp: sp_used_def sp_abs_def ledger_inv_def committed_def reserved_total_def)

section \<open>Refinement\<close>

lemma expire_fold_reserved:
  "reserved (foldl (\<lambda>h i. expire_one i h) g is) = filter (\<lambda>p. fst p \<notin> set is) (reserved g)"
proof (induction "is" arbitrary: g)
  case (Cons i "is")
  have "reserved (expire_one i g) = bt_remove i (reserved g)"
    by (auto simp: expire_one_def bt_remove_absent split: option.splits)
  then show ?case by (simp add: Cons.IH bt_remove_def conj_commute)
qed simp

lemma sweep_reserved:
  assumes "bt_ok (reserved g)"
  shows "reserved (sweep_expired now g) = filter (\<lambda>(i, k, a, e). \<not> e \<le> now) (reserved g)"
proof -
  let ?late = "\<lambda>(i, k, a, e). e \<le> now"
  have inj: "inj_on fst (set (reserved g))"
    using bt_ok_distinct [OF assms] by (simp add: bt_keys_def distinct_map)
  have "fst p \<in> fst ` {q \<in> set (reserved g). ?late q} \<longleftrightarrow> ?late p" if p: "p \<in> set (reserved g)" for p
    using inj_on_image_mem_iff [OF inj p, of "{q \<in> set (reserved g). ?late q}"] p by blast
  then have "filter (\<lambda>p. fst p \<notin> fst ` {q \<in> set (reserved g). ?late q}) (reserved g)
      = filter (\<lambda>p. \<not> ?late p) (reserved g)"
    by (intro filter_cong) simp_all
  moreover have "(\<lambda>(i, k, a, e). \<not> e \<le> now) = (\<lambda>p :: string \<times> bucket_kind \<times> u64 \<times> nat. \<not> ?late p)"
    by (simp add: fun_eq_iff)
  ultimately show ?thesis
    by (simp add: sweep_expired_def expire_fold_reserved)
qed

lemma bt_get_filter:
  "bt_ok m \<Longrightarrow> bt_get i (filter P m) = (case bt_get i m of Some v \<Rightarrow> if P (i, v) then Some v else None | None \<Rightarrow> None)"
proof (induction m)
  case (Cons p m)
  then have "i = fst p \<Longrightarrow> bt_get i m = None" by (auto simp: bt_ok_Cons bt_get_None)
  then show ?case using Cons by (cases p) (auto simp: bt_ok_Cons)
qed simp

lemma abs_sweep: "ledger_inv g \<Longrightarrow> sp_abs (sweep_expired now g) = sp_expire now (sp_abs g)"
  by (rule sp_abs_eqI)
    (auto simp: sp_expire_def sweep_keeps sweep_reserved ledger_inv_def bt_get_filter abs_hold_def
      split: option.splits prod.splits)

lemma abs_settle: "ledger_inv g \<Longrightarrow> sp_abs (burn i (drop_reservation i g)) = sp_settle i (sp_abs g)"
  by (rule sp_abs_eqI)
    (auto simp: sp_settle_def burn_drop hold_amount_def abs_hold_def bt_get_remove split: option.splits)

lemma abs_release:
  assumes "ledger_inv g" "bt_get i (reserved g) = Some (j, a, e)"
  shows "sp_abs (roll_back j a (drop_reservation i g)) = (sp_abs g)\<lparr>sp_holds := (sp_holds (sp_abs g))(i := None)\<rparr>"
  by (rule sp_abs_eqI) (auto simp: roll_back_drop [OF assms] bt_get_remove)

lemma abs_reserve:
  assumes "ledger_inv g" "bt_get i (reserved g) = None" "unat (spent_of k g) + unat a < 2 ^ 64"
  shows "sp_abs (put_reservation i k a e (add_spend k a g)) =
    (sp_abs g)\<lparr>sp_holds := (sp_holds (sp_abs g))(i \<mapsto> (k, unat a, e))\<rparr>"
  by (rule sp_abs_eqI) (auto simp: add_spend_put [OF assms] bt_get_put abs_hold_def)

lemma abs_authorize:
  assumes "ledger_inv g" "unat (spent_of k g) + unat a < 2 ^ 64"
  shows "sp_abs (burn i (add_spend k a g)) =
    (sp_abs g)\<lparr>sp_settled := (sp_settled (sp_abs g))(k := committed k g + unat a),
              sp_burned := insert i (sp_burned (sp_abs g))\<rparr>"
  by (rule sp_abs_eqI) (auto simp: burn_add_spend [OF assms])

text \<open>Steps of clients that keep the ledger's discipline: each step of the ledger is the step of the
  specification, with the same answer.\<close>

lemma admit_abs:
  assumes "ledger_inv g"
  shows "sp_admit (policies g) k v (sp_abs g) =
    (case policy_of k g of Inl e \<Rightarrow> Inl e | Inr p \<Rightarrow> v p (spent_of k g))"
  by (simp add: sp_admit_def policy_of_def used_abs [OF assms] split: option.splits)

lemma admitted_fits:
  assumes "ledger_inv g" "within_caps g" "cap_validator a v" "policy_of k (sweep_expired now g) = Inr p"
    "v p (spent_of k (sweep_expired now g)) = Inr ()"
  shows "unat (spent_of k (sweep_expired now g)) + unat a < 2 ^ 64"
proof -
  have p: "policies g k = Some p" using assms(4) by (simp add: policy_of_def split: option.splits)
  then have "max_per_day_sats p \<noteq> - 1" using assms(2) by (simp add: within_caps_def)
  then have "unat (spent_of k (sweep_expired now g)) + unat a \<le> unat (max_per_day_sats p)"
    using assms(3,5) by (simp add: cap_validator_def)
  then show ?thesis using unat_lt_64 [of "max_per_day_sats p"] by simp
qed

lemma abs_mark: "ledger_inv g \<Longrightarrow> sp_abs (burn i g) = (sp_abs g)\<lparr>sp_burned := insert i (sp_burned (sp_abs g))\<rparr>"
  by (rule sp_abs_eqI) (auto simp: committed_def)

lemma refines_reserve:
  assumes "ledger_inv g" "within_caps g" "cap_validator a v"
  shows "spec_step (policies g) (now, OpReserve i k a v) (sp_abs g) =
    (case reserve_spend now i k a v g of (r, h) \<Rightarrow> (r, sp_abs h))"
proof -
  let ?h = "sweep_expired now g"
  have h: "ledger_inv ?h" and e: "sp_expire now (sp_abs g) = sp_abs ?h"
    using assms(1) by (simp_all add: sweep_keeps abs_sweep)
  have fits: "unat (spent_of k ?h) + unat a < 2 ^ 64"
    if "policy_of k ?h = Inr p" "v p (spent_of k ?h) = Inr ()" for p
    using admitted_fits [OF assms that] .
  show ?thesis
    using abs_reserve [OF h, of i k a "now + reserve_ttl"] fits admit_abs [OF h, of k v]
    by (auto simp: reserve_spend_def Let_def e abs_hold_def simp flip: word_unat_eq_iff
        split: option.splits sum.splits)
qed

lemma refines_authorize:
  assumes "ledger_inv g" "within_caps g" "cap_validator a v"
  shows "spec_step (policies g) (now, OpAuthorize i k a v) (sp_abs g) =
    (case authorize_spend_and_consume now i k a v g of (r, h) \<Rightarrow> (r, sp_abs h))"
proof -
  let ?h = "sweep_expired now g"
  have h: "ledger_inv ?h" and e: "sp_expire now (sp_abs g) = sp_abs ?h"
    using assms(1) by (simp_all add: sweep_keeps abs_sweep)
  have fits: "unat (spent_of k ?h) + unat a < 2 ^ 64"
    if "policy_of k ?h = Inr p" "v p (spent_of k ?h) = Inr ()" for p
    using admitted_fits [OF assms that] .
  show ?thesis
    using abs_authorize [OF h, of k a i] fits admit_abs [OF h, of k v]
    by (auto simp: authorize_spend_and_consume_def Let_def e abs_hold_def split: option.splits sum.splits)
qed

lemma refines_step:
  assumes "ledger_inv g" "within_caps g" "disciplined x g"
  shows "spec_step (policies g) x (sp_abs g) = (case bucket_step x g of (r, h) \<Rightarrow> (r, sp_abs h))"
proof -
  obtain now op where x: "x = (now, op)" by (cases x)
  have h: "ledger_inv (sweep_expired now g)" and e: "sp_expire now (sp_abs g) = sp_abs (sweep_expired now g)"
    using assms(1) by (simp_all add: sweep_keeps abs_sweep)
  show ?thesis
  proof (cases op)
    case (OpReserve i k a v)
    then show ?thesis using refines_reserve [OF assms(1,2)] assms(3) by (simp add: x disciplined_def)
  next
    case (OpAuthorize i k a v)
    then show ?thesis using refines_authorize [OF assms(1,2)] assms(3) by (simp add: x disciplined_def)
  next
    case (OpRelease i k a)
    then show ?thesis using abs_release [OF assms(1)] assms(3)
      by (auto simp: x disciplined_def release_reservation_def split: option.splits)
  qed (use assms e abs_settle [OF h] in \<open>simp_all add: x disciplined_def try_consume_def mark_consumed_def
        has_reservation_def commit_consume_def abs_mark Let_def\<close>)
qed

section \<open>Runs\<close>

fun disciplined_run :: "(nat \<times> bucket_op) list \<Rightarrow> bucket_state \<Rightarrow> bool" where
  "disciplined_run [] g = True"
| "disciplined_run (x # xs) g = (disciplined x g \<and> disciplined_run xs (snd (bucket_step x g)))"

definition spec_start :: spend_spec where
  "spec_start = \<lparr>sp_settled = (\<lambda>k. 0), sp_holds = Map.empty, sp_burned = {}\<rparr>"

lemma refines_run:
  "ledger_inv g \<Longrightarrow> within_caps g \<Longrightarrow> disciplined_run xs g \<Longrightarrow>
     run_ops (spec_step (policies g)) xs (sp_abs g) = (case run_ops bucket_step xs g of (rs, h) \<Rightarrow> (rs, sp_abs h))"
proof (induction xs arbitrary: g)
  case (Cons x xs)
  let ?h = "snd (bucket_step x g)"
  have "good_step g (\<lambda>k. charge x k g) ?h" using Cons.prems by (intro good_bucket_step) auto
  then have h: "ledger_inv ?h" "within_caps ?h" by (auto simp: good_step_def)
  have "run_ops (spec_step (policies g)) xs (sp_abs ?h) = (case run_ops bucket_step xs ?h of (rs, h) \<Rightarrow> (rs, sp_abs h))"
    using Cons.IH [OF h] Cons.prems by simp
  then show ?case using refines_step [of g x] Cons.prems by (simp add: case_prod_beta)
qed simp

text \<open>C29: From the ledger the constitution's caps open, every run of a client that validates its spends against
  the caps and releases only live reservations gives the answers of the specification and leaves a state
  that stands for the specification's: the saturating counters per bucket count exactly the settled amounts
  plus the live holds.\<close>

theorem ledger_refines_spec:
  assumes "day \<noteq> - 1" "disciplined_run xs (from_constitution_caps tx day)"
  shows "run_ops (spec_step (policies (from_constitution_caps tx day))) xs spec_start =
    (fst (run_ops bucket_step xs (from_constitution_caps tx day)),
     sp_abs (snd (run_ops bucket_step xs (from_constitution_caps tx day))))"
proof -
  have "sp_abs (from_constitution_caps tx day) = spec_start"
    using initial_ok(3) by (auto simp: sp_abs_def spec_start_def from_constitution_caps_def)
  then show ?thesis
    using refines_run [OF initial_ok(1) initial_ok(2) [OF assms(1)] assms(2)] by (simp add: case_prod_beta)
qed

definition lab_spends :: "(nat \<times> bucket_op) list" where
  "lab_spends = [(0, OpReserve ''i1'' Users 60 (lab_validator ''i1'' 60)), (1, OpCommit ''i1''),
     (2, OpTryConsume ''i1'')]"

lemma lab_spends_disciplined: "disciplined_run lab_spends g"
  by (simp add: lab_spends_def disciplined_def lab_validator_cap)

theorem ledger_refines_spec_witness:
  "run_ops (spec_step (policies (from_constitution_caps 100 100))) lab_spends spec_start =
    (fst (run_ops bucket_step lab_spends (from_constitution_caps 100 100)),
     sp_abs (snd (run_ops bucket_step lab_spends (from_constitution_caps 100 100))))"
  by (rule ledger_refines_spec) (simp_all add: lab_spends_disciplined)

end
