(* ===== verification/AntiNonce.thy ===== *)
theory AntiNonce
  imports Mesh
begin

text \<open>
  The anti-nonce session ledger (\<open>adapters/session_persist.rs\<close>) and the binding of a session to an
  intent (\<open>application/ports.rs\<close>): a signing session id gives at most one nonce package, survives
  restarts, and is claimed with a quorum of peers.  \<open>io\<close> is the outcome of the log append, \<open>now\<close>
  the instant of the call in seconds.
\<close>

section \<open>Binding a session to an intent\<close>

definition bind_session_to_intent :: "string \<Rightarrow> string \<Rightarrow> unit res" where
  "bind_session_to_intent session0 intent0 =
     (let i = trim intent0; s = trim session0 in
      if i = [] \<or> s = []
      then Inl (NonceReuse ''session_id and intent_id required for anti-nonce prepare'')
      else if s = i \<or> prefix (i @ '':'') s then Inr ()
      else Inl (NonceReuse (''session_id '' @ s @ '' not bound to intent '' @ i)))"

lemma bind_session_ok:
  "bind_session_to_intent s i = Inr () \<longleftrightarrow>
     trim i \<noteq> [] \<and> trim s \<noteq> [] \<and> (trim s = trim i \<or> (\<exists>r. trim s = trim i @ '':'' @ r))"
  by (auto simp: bind_session_to_intent_def Let_def prefix_def)


section \<open>The local ledger\<close>

record anti_nonce =
  an_log :: string
  an_used :: "string set"
  an_soft :: "string \<Rightarrow> nat option"

definition prepare_ttl :: nat where
  "prepare_ttl = 120"

definition an_open :: "string \<Rightarrow> anti_nonce" where
  "an_open log = \<lparr>an_log = log, an_used = load_session_ids log, an_soft = (\<lambda>_. None)\<rparr>"

definition append_id :: "io_result \<Rightarrow> string \<Rightarrow> anti_nonce \<Rightarrow> unit res \<times> anti_nonce" where
  "append_id io i a = (case append_line ''anti-nonce'' io i (an_log a) of (r, log) \<Rightarrow> (r, a\<lparr>an_log := log\<rparr>))"

definition sweep_soft :: "nat \<Rightarrow> anti_nonce \<Rightarrow> anti_nonce" where
  "sweep_soft now a =
     a\<lparr>an_soft := (\<lambda>i. case an_soft a i of None \<Rightarrow> None | Some e \<Rightarrow> if now < e then Some e else None)\<rparr>"

definition an_prepare :: "io_result \<Rightarrow> string \<Rightarrow> anti_nonce \<Rightarrow> bool res \<times> anti_nonce" where
  "an_prepare io i a =
     (if i \<in> an_used a then (Inr True, a)
      else case append_id io i a of
        (Inl e, a1) \<Rightarrow> (Inl e, a1)
      | (Inr _, a1) \<Rightarrow>
          (Inr False, a1\<lparr>an_used := insert i (an_used a1), an_soft := (an_soft a1)(i := None)\<rparr>))"

definition an_prepare_soft :: "nat \<Rightarrow> string \<Rightarrow> anti_nonce \<Rightarrow> bool \<times> anti_nonce" where
  "an_prepare_soft now i a =
     (if i \<in> an_used a then (True, a)
      else let a1 = sweep_soft now a in
        if an_soft a1 i \<noteq> None then (True, a1)
        else (False, a1\<lparr>an_soft := (an_soft a1)(i := Some (now + prepare_ttl))\<rparr>))"

definition an_claim_session :: "io_result \<Rightarrow> string \<Rightarrow> anti_nonce \<Rightarrow> unit res \<times> anti_nonce" where
  "an_claim_session io i a =
     (case an_prepare io i a of
        (Inl e, a1) \<Rightarrow> (Inl e, a1)
      | (Inr b, a1) \<Rightarrow>
          if b then (Inl (NonceReuse (''session_id already used: '' @ i)), a1) else (Inr (), a1))"

definition an_is_consumed :: "nat \<Rightarrow> string \<Rightarrow> anti_nonce \<Rightarrow> bool \<times> anti_nonce" where
  "an_is_consumed now i a =
     (if i \<in> an_used a then (True, a)
      else let a1 = sweep_soft now a in (an_soft a1 i \<noteq> None, a1))"

definition an_prepare_remote_bound :: "nat \<Rightarrow> string \<Rightarrow> string \<Rightarrow> anti_nonce \<Rightarrow> bool res \<times> anti_nonce" where
  "an_prepare_remote_bound now s i a =
     (case bind_session_to_intent s i of
        Inl e \<Rightarrow> (Inl e, a)
      | Inr _ \<Rightarrow> (case an_prepare_soft now s a of (b, a1) \<Rightarrow> (Inr b, a1)))"


section \<open>The quorum claim\<close>

definition an_verdict :: "string \<Rightarrow> verdict \<Rightarrow> unit res" where
  "an_verdict i v =
     (case v of
        Granted \<Rightarrow> Inr ()
      | SeenOnPeer \<Rightarrow> Inl (NonceReuse (''session_id seen on '' @ [CHR 0xE2, CHR 0x89, CHR 0xA5] @ ''1 peer: '' @ i))
      | TooFew have1 need \<Rightarrow> Inl (QuorumNotMet have1 need))"

definition quorum_claim_session ::
  "nat \<Rightarrow> io_result \<Rightarrow> bool list res \<Rightarrow> string \<Rightarrow> anti_nonce \<Rightarrow> unit res \<times> anti_nonce" where
  "quorum_claim_session t io acks i a =
     (case an_prepare io i a of
        (Inl e, a1) \<Rightarrow> (Inl e, a1)
      | (Inr b, a1) \<Rightarrow>
          if b then (Inl (NonceReuse (''session_id already used: '' @ i)), a1)
          else case acks of
            Inl e \<Rightarrow> (Inl e, a1)
          | Inr as \<Rightarrow> (an_verdict i (claim_verdict t as), a1))"


section \<open>Single use\<close>

datatype nonce_op =
    NClaim io_result string
  | NQuorumClaim nat io_result "bool list res" string
  | NPrepare io_result string
  | NPrepareSoft nat string
  | NIsConsumed nat string
  | NRestart

fun nonce_step :: "nonce_op \<Rightarrow> anti_nonce \<Rightarrow> bool res \<times> anti_nonce" where
  "nonce_step (NClaim io i) a = (map_sum id (\<lambda>_. False) (fst (an_claim_session io i a)), snd (an_claim_session io i a))"
| "nonce_step (NQuorumClaim t io acks i) a =
     (map_sum id (\<lambda>_. False) (fst (quorum_claim_session t io acks i a)), snd (quorum_claim_session t io acks i a))"
| "nonce_step (NPrepare io i) a = an_prepare io i a"
| "nonce_step (NPrepareSoft now i) a = (Inr (fst (an_prepare_soft now i a)), snd (an_prepare_soft now i a))"
| "nonce_step (NIsConsumed now i) a = (Inr (fst (an_is_consumed now i a)), snd (an_is_consumed now i a))"
| "nonce_step NRestart a = (Inr False, an_open (an_log a))"

text \<open>The session a result hands a nonce package to.\<close>

fun nonce_win :: "nonce_op \<Rightarrow> bool res \<Rightarrow> string option" where
  "nonce_win (NClaim io i) (Inr _) = Some i"
| "nonce_win (NQuorumClaim t io acks i) (Inr _) = Some i"
| "nonce_win (NPrepare io i) (Inr b) = (if b then None else Some i)"
| "nonce_win _ _ = None"

lemma append_id_used [simp]:
  "an_used (snd (append_id io i a)) = an_used a" "an_soft (snd (append_id io i a)) = an_soft a"
  by (simp_all add: append_id_def split: prod.splits)

lemma an_prepare_spec:
  "an_prepare io i a =
     (if i \<in> an_used a then (Inr True, a)
      else case fst (append_id io i a) of
        Inl e \<Rightarrow> (Inl e, snd (append_id io i a))
      | Inr _ \<Rightarrow> (Inr False, (snd (append_id io i a))\<lparr>an_used := insert i (an_used a),
                      an_soft := (an_soft a)(i := None)\<rparr>))"
  by (cases "append_id io i a"; cases "fst (append_id io i a)")
     (use append_id_used [of io i a] in \<open>auto simp: an_prepare_def\<close>)

lemma sweep_soft_used [simp]: "an_used (sweep_soft now a) = an_used a" "an_log (sweep_soft now a) = an_log a"
  by (simp_all add: sweep_soft_def)

interpretation sessions: prepare_port "an_prepare io" an_used for io
proof
  fix i s b s'
  assume p: "an_prepare io i s = (Inr b, s')"
  then show "b \<longleftrightarrow> i \<in> an_used s" by (auto simp: an_prepare_spec split: if_splits sum.splits)
  show "i \<in> an_used s'" using p by (auto simp: an_prepare_spec split: if_splits sum.splits)
next
  fix i s
  show "an_used s \<subseteq> an_used (snd (an_prepare io i s))" by (auto simp: an_prepare_spec split: sum.splits)
qed

text \<open>With restarts the ids that count are those a log line carries and the log holds.\<close>

definition nonce_inv :: "anti_nonce \<Rightarrow> bool" where
  "nonce_inv a \<longleftrightarrow> whole_lines (an_log a) \<and> (\<forall>i \<in> an_used a. line_safe i \<longrightarrow> i \<in> load_session_ids (an_log a))"

fun nonce_io :: "nonce_op \<Rightarrow> io_result" where
  "nonce_io (NClaim io i) = io"
| "nonce_io (NQuorumClaim t io acks i) = io"
| "nonce_io (NPrepare io i) = io"
| "nonce_io _ = IoOk"

fun nonce_clean :: "io_result \<Rightarrow> bool" where
  "nonce_clean (IoWriteErr e part) = (part = [])"
| "nonce_clean _ = True"

lemma load_session_mono:
  assumes "whole_lines log"
  shows "load_session_ids log \<subseteq> load_session_ids (log @ s)"
proof (cases "log = []")
  case True
  then show ?thesis by (auto simp: load_session_ids_def log_lines_def)
next
  case False
  then have b: "log = butlast log @ [newline]" using assms by (metis append_butlast_last_id whole_lines_def)
  have "set (log_lines log) \<subseteq> insert [] (set (log_lines (log @ s)))"
    using split_on_whole [of "butlast log" s] split_on_end [of "butlast log"] b
    by (auto simp: log_lines_def) (metis Un_iff append.assoc append_Cons append_Nil imageI set_append)
  then show ?thesis by (auto simp: load_session_ids_def)
qed

lemma an_prepare_inv:
  assumes "nonce_inv a" "nonce_clean io"
  shows "nonce_inv (snd (an_prepare io i a))"
    and "i \<in> an_used (snd (an_prepare io i a)) \<or> fst (an_prepare io i a) \<noteq> Inr False"
proof -
  have w: "whole_lines (an_log a)" using assms(1) by (simp add: nonce_inv_def)
  have log: "an_log (snd (append_id io i a)) \<in> {an_log a, an_log a @ i @ [newline]}"
    "is_ok (fst (append_id io i a)) \<Longrightarrow> an_log (snd (append_id io i a)) = an_log a @ i @ [newline]"
    using assms(2) by (cases io; simp add: append_id_def append_line_def)+
  have mono: "load_session_ids (an_log a) \<subseteq> load_session_ids (an_log a @ i @ [newline])"
    by (rule load_session_mono [OF w])
  have new: "line_safe i \<Longrightarrow> i \<in> load_session_ids (an_log a @ i @ [newline])"
    using load_session_append [OF w] by simp
  show "nonce_inv (snd (an_prepare io i a))"
  proof (cases "i \<in> an_used a")
    case False
    show ?thesis
    proof (cases "fst (append_id io i a)")
      case (Inl e)
      have "whole_lines (an_log (snd (append_id io i a)))" using log(1) w by (auto simp: whole_lines_def)
      then show ?thesis using False Inl log(1) mono assms(1) by (auto simp: an_prepare_spec nonce_inv_def)
    next
      case (Inr u)
      then have "an_log (snd (append_id io i a)) = an_log a @ i @ [newline]" using log(2) by simp
      then show ?thesis
        using False Inr mono new assms(1) by (auto simp: an_prepare_spec nonce_inv_def whole_lines_def)
    qed
  qed (use assms in \<open>simp add: an_prepare_spec\<close>)
  show "i \<in> an_used (snd (an_prepare io i a)) \<or> fst (an_prepare io i a) \<noteq> Inr False"
    by (auto simp: an_prepare_spec split: sum.splits)
qed

lemma an_claim_snd:
  "snd (an_claim_session io i a) = snd (an_prepare io i a)"
  "snd (quorum_claim_session t io acks i a) = snd (an_prepare io i a)"
  by (auto simp: an_claim_session_def quorum_claim_session_def split: prod.splits sum.splits)

lemma nonce_inv_step:
  assumes "nonce_inv a" "nonce_clean (nonce_io x)"
  shows "nonce_inv (snd (nonce_step x a))"
    and "line_safe i \<Longrightarrow> i \<in> an_used a \<Longrightarrow> i \<in> an_used (snd (nonce_step x a))"
proof -
  have "nonce_inv (an_open (an_log a))" using assms(1) by (simp add: nonce_inv_def an_open_def)
  then show "nonce_inv (snd (nonce_step x a))"
    using assms an_prepare_inv(1) [OF assms(1)]
    by (cases x) (auto simp: an_claim_snd an_prepare_soft_def an_is_consumed_def nonce_inv_def Let_def)
  show "line_safe i \<Longrightarrow> i \<in> an_used a \<Longrightarrow> i \<in> an_used (snd (nonce_step x a))"
    using assms(1) sessions.prep_mono
    by (cases x)
       (auto simp: an_claim_snd an_prepare_soft_def an_is_consumed_def nonce_inv_def an_open_def Let_def)
qed

lemma nonce_win_step:
  assumes "nonce_win x (fst (nonce_step x a)) = Some i"
  shows "i \<notin> an_used a \<and> i \<in> an_used (snd (nonce_step x a))"
proof -
  have ok: "fst (an_prepare io i a) = Inr False \<Longrightarrow> i \<notin> an_used a \<and> i \<in> an_used (snd (an_prepare io i a))" for io
    by (auto simp: an_prepare_spec split: if_splits sum.splits)
  have claim: "fst (an_claim_session io i a) = Inr () \<Longrightarrow> fst (an_prepare io i a) = Inr False" for io
    by (auto simp: an_claim_session_def split: prod.splits sum.splits if_splits)
  have quorum: "fst (quorum_claim_session t io acks i a) = Inr () \<Longrightarrow> fst (an_prepare io i a) = Inr False" for t io acks
    by (auto simp: quorum_claim_session_def split: prod.splits sum.splits if_splits)
  show ?thesis
  proof (cases x)
    case (NClaim io j)
    then have "j = i" "fst (an_claim_session io i a) = Inr ()"
      using assms by (cases "fst (an_claim_session io j a)"; simp)+
    then show ?thesis using ok [OF claim [of io]] by (simp add: NClaim an_claim_snd)
  next
    case (NQuorumClaim t io acks j)
    then have "j = i" "fst (quorum_claim_session t io acks i a) = Inr ()"
      using assms by (cases "fst (quorum_claim_session t io acks j a)"; simp)+
    then show ?thesis using ok [OF quorum [of t io acks]] by (simp add: NQuorumClaim an_claim_snd)
  next
    case (NPrepare io j)
    then have "j = i" "fst (an_prepare io i a) = Inr False"
      using assms by (cases "fst (an_prepare io j a)"; simp split: if_splits)+
    then show ?thesis using ok by (simp add: NPrepare)
  qed (use assms in simp_all)
qed

lemma nonce_used_run:
  assumes "nonce_inv a" "\<forall>x \<in> set xs. nonce_clean (nonce_io x)" "line_safe i" "i \<in> an_used a"
  shows "i \<in> an_used (snd (run_ops nonce_step xs a))"
  using assms
proof (induction xs arbitrary: a)
  case (Cons x xs)
  then have "nonce_inv (snd (nonce_step x a))" "i \<in> an_used (snd (nonce_step x a))"
    using nonce_inv_step by auto
  then show ?case using Cons by simp
qed simp

lemma nonce_no_second_win:
  assumes "nonce_inv a" "\<forall>x \<in> set xs. nonce_clean (nonce_io x)" "line_safe i" "i \<in> an_used a"
    and "(x, y) \<in> set (zip xs (fst (run_ops nonce_step xs a)))"
  shows "nonce_win x y \<noteq> Some i"
  using assms
proof (induction xs arbitrary: a)
  case (Cons z zs)
  have "nonce_inv (snd (nonce_step z a))" "i \<in> an_used (snd (nonce_step z a))"
    using Cons.prems nonce_inv_step by auto
  moreover have "nonce_win z (fst (nonce_step z a)) \<noteq> Some i"
    using nonce_win_step [of z a i] Cons.prems(4) by auto
  ultimately show ?case using Cons by auto
qed simp



text \<open>No session is granted twice in the mesh: concurrent quorum claims of one session id on
  different nodes, interleaved in any order, are granted at most once.\<close>

theorem session_claim_exclusive:
  assumes "mesh_run (an_prepare IoOk) an_used (peers + 1) (cluster_quorum peers) mi m"
    and "claims mi = (\<lambda>_. None)"
    and "claims m c = Some cl" "claims m d = Some dl" "cl_id cl = cl_id dl"
    and "cl_verdict cl = Some Granted" "cl_verdict dl = Some Granted"
  shows "c = d"
  using sessions.at_most_one_granted [OF assms(1,2) _ assms(3-7)] cluster_quorum_majority by simp

theorem session_claim_exclusive_witness:
  "\<exists>m cl. mesh_run (an_prepare IoOk) an_used (0 + 1) (cluster_quorum 0)
        \<lparr>nodes = (\<lambda>_. an_open []), claims = (\<lambda>_. None)\<rparr> m
     \<and> claims m 0 = Some cl \<and> cl_verdict cl = Some Granted
     \<and> (\<forall>d dl. claims m d = Some dl \<and> cl_id cl = cl_id dl \<and> cl_verdict dl = Some Granted \<longrightarrow> d = 0)"
proof -
  let ?mi = "\<lparr>nodes = (\<lambda>_. an_open []), claims = (\<lambda>_. None)\<rparr> :: (string, anti_nonce) mesh"
  have "\<exists>s. an_prepare IoOk ''s1'' (an_open []) = (Inr False, s)"
    by (auto simp: an_prepare_spec append_id_def append_line_def an_open_def load_session_ids_def log_lines_def)
  then obtain s where s: "an_prepare IoOk ''s1'' (nodes ?mi 0) = (Inr False, s)" by auto
  have q: "cluster_quorum 0 = 1" by (simp add: cluster_quorum_def)
  obtain m cl where m: "mesh_run (an_prepare IoOk) an_used 1 1 ?mi m" "claims m 0 = Some cl"
    "cl_verdict cl = Some Granted"
    using mesh_solo_run [where prep = "an_prepare IoOk" and seen = an_used and mi = ?mi, OF s] by auto
  have "mesh_run (an_prepare IoOk) an_used (0 + 1) (cluster_quorum 0) ?mi m" using m(1) q by simp
  moreover from session_claim_exclusive [OF this _ _ m(2) _ _ m(3)]
  have "\<forall>d dl. claims m d = Some dl \<and> cl_id cl = cl_id dl \<and> cl_verdict dl = Some Granted \<longrightarrow> d = 0" by auto
  ultimately show ?thesis using m by blast
qed

end
