(* ===== verification/Ledger.thy ===== *)
theory Ledger
  imports Constitution
begin

text \<open>
  The permissioned governance ledger: epochs, hash-chained entries and epoch proposals
  (\<open>vault-core/src/domain/ledger.rs\<close>), the in-memory ledger (\<open>adapters/ledger_memory.rs\<close>) and
  the two governance use cases with the snapshot (\<open>application/ledger_ops.rs\<close>).  A node id is its
  text.  The ledger's operations run under one mutex; the digest is the parameter \<open>sha\<close>.
\<close>

section \<open>Epochs, entries and proposals\<close>

record epoch =
  ep_number :: u64
  ep_constitution_hash :: string
  active_set :: "string list"

definition epoch_genesis :: "(string \<Rightarrow> string) \<Rightarrow> constitution \<Rightarrow> string list \<Rightarrow> epoch res" where
  "epoch_genesis sha c nodes =
     rbind (constitution_validate sha c) (\<lambda>_.
       if length nodes \<noteq> signing_n c
       then Inl (InvalidConstitution (''active_set len '' @ dec (length nodes) @ '' != signing_n ''
              @ dec (signing_n c)))
       else Inr \<lparr>ep_number = 0, ep_constitution_hash = c_hash c, active_set = nodes\<rparr>)"

definition epoch_contains :: "epoch \<Rightarrow> string \<Rightarrow> bool" where
  "epoch_contains e n = list_ex (\<lambda>m. m = n) (active_set e)"

definition quoted :: "string \<Rightarrow> string" where
  "quoted s = qt @ s @ qt"

definition epoch_json :: "epoch \<Rightarrow> string" where
  "epoch_json e =
     ''{'' @ key ''number'' @ dec_u (ep_number e)
     @ '','' @ key ''constitution_hash'' @ quoted (ep_constitution_hash e)
     @ '','' @ key ''active_set'' @ ''['' @ join_with '','' (map quoted (active_set e)) @ '']}''"

datatype event_kind =
    EvGenesis | EvEpochAdvanced | EvVoteRecorded | EvDayAdvanced | EvReshareCompleted
  | EvGovernanceRewardAccrued | EvProfitAllocated

text \<open>The \<open>Debug\<close> form enters the hash, the snake-case form the JSON.\<close>

fun kind_debug :: "event_kind \<Rightarrow> string" where
  "kind_debug EvGenesis = ''Genesis''"
| "kind_debug EvEpochAdvanced = ''EpochAdvanced''"
| "kind_debug EvVoteRecorded = ''VoteRecorded''"
| "kind_debug EvDayAdvanced = ''DayAdvanced''"
| "kind_debug EvReshareCompleted = ''ReshareCompleted''"
| "kind_debug EvGovernanceRewardAccrued = ''GovernanceRewardAccrued''"
| "kind_debug EvProfitAllocated = ''ProfitAllocated''"

fun kind_str :: "event_kind \<Rightarrow> string" where
  "kind_str EvGenesis = ''genesis''"
| "kind_str EvEpochAdvanced = ''epoch_advanced''"
| "kind_str EvVoteRecorded = ''vote_recorded''"
| "kind_str EvDayAdvanced = ''day_advanced''"
| "kind_str EvReshareCompleted = ''reshare_completed''"
| "kind_str EvGovernanceRewardAccrued = ''governance_reward_accrued''"
| "kind_str EvProfitAllocated = ''profit_allocated''"

record ledger_entry =
  le_index :: u64
  le_epoch :: u64
  le_kind :: event_kind
  payload_hash :: string
  le_writer :: string
  prev_hash :: string
  entry_hash :: string

definition entry_material :: "u64 \<Rightarrow> u64 \<Rightarrow> event_kind \<Rightarrow> string \<Rightarrow> string \<Rightarrow> string \<Rightarrow> string" where
  "entry_material i ep k ph w prev =
     dec_u i @ ''|'' @ dec_u ep @ ''|'' @ kind_debug k @ ''|'' @ ph @ ''|'' @ w @ ''|'' @ prev"

definition entry_chain ::
  "(string \<Rightarrow> string) \<Rightarrow> u64 \<Rightarrow> u64 \<Rightarrow> event_kind \<Rightarrow> string \<Rightarrow> string \<Rightarrow> string \<Rightarrow> ledger_entry" where
  "entry_chain sha i ep k payload w prev =
     (let ph = sha payload in
      \<lparr>le_index = i, le_epoch = ep, le_kind = k, payload_hash = ph, le_writer = w, prev_hash = prev,
       entry_hash = sha (entry_material i ep k ph w prev)\<rparr>)"

definition entry_json :: "ledger_entry \<Rightarrow> string" where
  "entry_json e =
     ''{'' @ key ''index'' @ dec_u (le_index e) @ '','' @ key ''epoch'' @ dec_u (le_epoch e)
     @ '','' @ key ''kind'' @ quoted (kind_str (le_kind e))
     @ '','' @ key ''payload_hash'' @ quoted (payload_hash e)
     @ '','' @ key ''writer'' @ quoted (le_writer e)
     @ '','' @ key ''prev_hash'' @ quoted (prev_hash e)
     @ '','' @ key ''entry_hash'' @ quoted (entry_hash e) @ ''}''"

record epoch_proposal =
  pr_id :: string
  from_epoch :: u64
  to_epoch :: u64
  pr_constitution_hash :: string
  proposer :: string
  votes :: "string list"
  closed :: bool

definition proposal_new :: "string \<Rightarrow> u64 \<Rightarrow> string \<Rightarrow> string \<Rightarrow> epoch_proposal" where
  "proposal_new i from h p =
     \<lparr>pr_id = i, from_epoch = from, to_epoch = from + 1, pr_constitution_hash = h,
      proposer = p, votes = [p], closed = False\<rparr>"

definition add_vote :: "string \<Rightarrow> epoch_proposal \<Rightarrow> unit res \<times> epoch_proposal" where
  "add_vote v p =
     (if closed p then (Inl (ProposalClosed (pr_id p)), p)
      else (Inr (), if \<not> list_ex (\<lambda>x. x = v) (votes p) then p\<lparr>votes := votes p @ [v]\<rparr> else p))"

definition proposal_json :: "epoch_proposal \<Rightarrow> string" where
  "proposal_json p =
     ''{'' @ key ''id'' @ quoted (pr_id p) @ '','' @ key ''from_epoch'' @ dec_u (from_epoch p)
     @ '','' @ key ''to_epoch'' @ dec_u (to_epoch p)
     @ '','' @ key ''constitution_hash'' @ quoted (pr_constitution_hash p)
     @ '','' @ key ''proposer'' @ quoted (proposer p)
     @ '','' @ key ''votes'' @ ''['' @ join_with '','' (map quoted (votes p)) @ '']''
     @ '','' @ key ''closed'' @ bool_str (closed p) @ ''}''"


section \<open>The in-memory ledger\<close>

record ledger_state =
  l_constitution :: constitution
  l_epoch :: epoch
  entries :: "ledger_entry list"
  proposals :: "string \<Rightarrow> epoch_proposal option"

definition ledger_genesis ::
  "(string \<Rightarrow> string) \<Rightarrow> constitution \<Rightarrow> string list \<Rightarrow> string \<Rightarrow> ledger_state res" where
  "ledger_genesis sha c nodes writer =
     rbind (constitution_validate sha c) (\<lambda>_.
     rbind (epoch_genesis sha c nodes) (\<lambda>ep.
       let payload = ''{'' @ key ''constitution'' @ constitution_json c
                     @ '','' @ key ''epoch'' @ epoch_json ep @ ''}'';
           entry = entry_chain sha 0 0 EvGenesis payload writer ''genesis-prev''
       in Inr \<lparr>l_constitution = c, l_epoch = ep, entries = [entry], proposals = (\<lambda>_. None)\<rparr>))"

definition set_epoch :: "epoch \<Rightarrow> ledger_state \<Rightarrow> ledger_state" where
  "set_epoch ep l = l\<lparr>l_epoch := ep\<rparr>"

definition ledger_head :: "ledger_state \<Rightarrow> ledger_entry option" where
  "ledger_head l = (if entries l = [] then None else Some (last (entries l)))"

definition append_entry :: "ledger_entry \<Rightarrow> ledger_state \<Rightarrow> unit res \<times> ledger_state" where
  "append_entry e l =
     (let checked =
        (case ledger_head l of
           Some prev \<Rightarrow>
             if le_index e \<noteq> le_index prev + 1
             then Inl (LedgerConflict (''expected index '' @ dec_u (le_index prev + 1) @ '', got '' @ dec_u (le_index e)))
             else if prev_hash e \<noteq> entry_hash prev
             then Inl (LedgerConflict ''prev_hash does not match head'')
             else Inr ()
         | None \<Rightarrow> if le_index e \<noteq> 0 then Inl (LedgerConflict ''first entry must be index 0'') else Inr ())
      in case checked of
           Inl er \<Rightarrow> (Inl er, l)
         | Inr _ \<Rightarrow>
             if \<not> epoch_contains (l_epoch l) (le_writer e) then (Inl (UnauthorizedWriter (le_writer e)), l)
             else (Inr (), l\<lparr>entries := entries l @ [e]\<rparr>))"

definition put_proposal :: "epoch_proposal \<Rightarrow> ledger_state \<Rightarrow> unit res \<times> ledger_state" where
  "put_proposal p l =
     (if proposals l (pr_id p) \<noteq> None
      then (Inl (LedgerConflict (''proposal '' @ pr_id p @ '' exists'')), l)
      else (Inr (), l\<lparr>proposals := (proposals l)(pr_id p := Some p)\<rparr>))"

definition get_proposal :: "string \<Rightarrow> ledger_state \<Rightarrow> epoch_proposal res" where
  "get_proposal i l = (case proposals l i of None \<Rightarrow> Inl (UnknownProposal i) | Some p \<Rightarrow> Inr p)"

definition save_proposal :: "epoch_proposal \<Rightarrow> ledger_state \<Rightarrow> ledger_state" where
  "save_proposal p l = l\<lparr>proposals := (proposals l)(pr_id p := Some p)\<rparr>"


section \<open>Governance use cases\<close>

definition next_prev :: "ledger_state \<Rightarrow> string" where
  "next_prev l = (case ledger_head l of Some e \<Rightarrow> entry_hash e | None \<Rightarrow> ''genesis-prev'')"

definition append_event ::
  "(string \<Rightarrow> string) \<Rightarrow> u64 \<Rightarrow> event_kind \<Rightarrow> string \<Rightarrow> string \<Rightarrow> ledger_state \<Rightarrow> unit res \<times> ledger_state" where
  "append_event sha ep k payload w l =
     append_entry (entry_chain sha (of_nat (length (entries l))) ep k payload w (next_prev l)) l"

definition append_vote_event ::
  "(string \<Rightarrow> string) \<Rightarrow> u64 \<Rightarrow> string \<Rightarrow> epoch_proposal \<Rightarrow> ledger_state \<Rightarrow> unit res \<times> ledger_state" where
  "append_vote_event sha ep w p l = append_event sha ep EvVoteRecorded (proposal_json p) w l"

definition propose_epoch_advance ::
  "(string \<Rightarrow> string) \<Rightarrow> string \<Rightarrow> string \<Rightarrow> ledger_state \<Rightarrow> epoch_proposal res \<times> ledger_state" where
  "propose_epoch_advance sha node pid l =
     (let ep = l_epoch l in
      if \<not> epoch_contains ep node then (Inl (UnauthorizedWriter node), l)
      else
        let p = proposal_new pid (ep_number ep) (c_hash (l_constitution l)) node in
        case put_proposal p l of
          (Inl er, l1) \<Rightarrow> (Inl er, l1)
        | (Inr _, l1) \<Rightarrow>
            (case append_vote_event sha (ep_number ep) node p l1 of
               (Inl er, l2) \<Rightarrow> (Inl er, l2)
             | (Inr _, l2) \<Rightarrow> (Inr p, l2)))"

definition advance_epoch ::
  "(string \<Rightarrow> string) \<Rightarrow> string \<Rightarrow> epoch_proposal \<Rightarrow> ledger_state \<Rightarrow> unit res \<times> ledger_state" where
  "advance_epoch sha node p l =
     (let l1 = set_epoch ((l_epoch l)\<lparr>ep_number := to_epoch p\<rparr>) l;
          payload = ''{'' @ key ''to_epoch'' @ dec_u (to_epoch p)
                    @ '','' @ key ''constitution_hash'' @ quoted (pr_constitution_hash p) @ ''}''
      in append_event sha (to_epoch p) EvEpochAdvanced payload node l1)"

definition vote_epoch_advance ::
  "(string \<Rightarrow> string) \<Rightarrow> string \<Rightarrow> string \<Rightarrow> ledger_state \<Rightarrow> epoch_proposal res \<times> ledger_state" where
  "vote_epoch_advance sha node pid l =
     (let ep = l_epoch l in
      if \<not> epoch_contains ep node then (Inl (UnauthorizedWriter node), l)
      else case get_proposal pid l of
        Inl er \<Rightarrow> (Inl er, l)
      | Inr p0 \<Rightarrow>
          if from_epoch p0 \<noteq> ep_number ep then (Inl (EpochMismatch (ep_number ep) (from_epoch p0)), l)
          else if pr_constitution_hash p0 \<noteq> c_hash (l_constitution l)
          then (Inl (LedgerConflict ''proposal constitution hash diverges from active''), l)
          else case add_vote node p0 of
            (Inl er, _) \<Rightarrow> (Inl er, l)
          | (Inr _, p) \<Rightarrow>
              let l1 = save_proposal p l in
              case append_vote_event sha (ep_number ep) node p l1 of
                (Inl er, l2) \<Rightarrow> (Inl er, l2)
              | (Inr _, l2) \<Rightarrow>
                  if length (votes p) \<ge> governance_t (l_constitution l)
                  then
                    let p1 = p\<lparr>closed := True\<rparr>; l3 = save_proposal p1 l2 in
                    case advance_epoch sha node p1 l3 of
                      (Inl er, l4) \<Rightarrow> (Inl er, l4)
                    | (Inr _, l4) \<Rightarrow> (Inr p1, l4)
                  else (Inr p, l2))"

record ledger_snapshot =
  ls_constitution_json :: string
  ls_epoch_json :: string
  ls_entries :: "ledger_entry list"

definition get_ledger_snapshot :: "ledger_state \<Rightarrow> ledger_snapshot" where
  "get_ledger_snapshot l =
     \<lparr>ls_constitution_json = constitution_json (l_constitution l), ls_epoch_json = epoch_json (l_epoch l),
      ls_entries = entries l\<rparr>"

definition snapshot_json :: "ledger_snapshot \<Rightarrow> string" where
  "snapshot_json s =
     ''{'' @ key ''constitution'' @ ls_constitution_json s @ '','' @ key ''epoch'' @ ls_epoch_json s
     @ '','' @ key ''entries'' @ ''['' @ join_with '','' (map entry_json (ls_entries s)) @ '']}''"


section \<open>The hash chain\<close>

text \<open>A chain as the code builds it: consecutive indices from 0, each entry hashing its own fields
  and carrying its predecessor's hash.  It is stated from the head backwards.\<close>

definition material_of :: "ledger_entry \<Rightarrow> string" where
  "material_of e =
     entry_material (le_index e) (le_epoch e) (le_kind e) (payload_hash e) (le_writer e) (prev_hash e)"

definition well_hashed :: "(string \<Rightarrow> string) \<Rightarrow> ledger_entry \<Rightarrow> bool" where
  "well_hashed sha e \<longleftrightarrow>
     entry_hash e = sha (material_of e)
     \<and> CHR ''|'' \<notin> set (payload_hash e)"

fun chain_rev :: "(string \<Rightarrow> string) \<Rightarrow> ledger_entry list \<Rightarrow> bool" where
  "chain_rev sha [] = True"
| "chain_rev sha [e] = (well_hashed sha e \<and> le_index e = 0 \<and> prev_hash e = ''genesis-prev'')"
| "chain_rev sha (e # f # es) =
     (well_hashed sha e \<and> le_index e = le_index f + 1 \<and> prev_hash e = entry_hash f \<and> chain_rev sha (f # es))"

definition chain_ok :: "(string \<Rightarrow> string) \<Rightarrow> ledger_entry list \<Rightarrow> bool" where
  "chain_ok sha es = chain_rev sha (rev es)"

lemma kind_debug_inj [simp]: "kind_debug a = kind_debug b \<longleftrightarrow> a = b"
  by (cases a; cases b) simp_all

lemma kind_debug_bar [simp]: "CHR ''|'' \<notin> set (kind_debug k)"
  by (cases k) simp_all

lemma kind_debug_sep [simp]:
  "kind_debug a @ CHR ''|'' # x = kind_debug b @ CHR ''|'' # y \<longleftrightarrow> a = b \<and> x = y"
  using sep_inj [of "kind_debug a" "CHR ''|''" x "kind_debug b" y] by auto

lemma entry_material_inj:
  assumes "entry_material i ep k ph w prev = entry_material i' ep' k' ph' w' prev'"
    and "CHR ''|'' \<notin> set ph" "CHR ''|'' \<notin> set ph'" "CHR ''|'' \<notin> set prev" "CHR ''|'' \<notin> set prev'"
  shows "i = i' \<and> ep = ep' \<and> k = k' \<and> ph = ph' \<and> w = w' \<and> prev = prev'"
proof -
  have "i = i' \<and> ep = ep' \<and> k = k' \<and> ph @ CHR ''|'' # (w @ CHR ''|'' # prev) = ph' @ CHR ''|'' # (w' @ CHR ''|'' # prev')"
    using assms(1) by (simp add: entry_material_def)
  moreover from this have "ph = ph' \<and> w @ CHR ''|'' # prev = w' @ CHR ''|'' # prev'"
    using sep_inj [OF _ assms(2,3)] by blast
  moreover from this have "prev = prev' \<and> w = w'" using sep_inj_last [OF _ assms(4,5)] by blast
  ultimately show ?thesis by blast
qed

lemma hex64_no_bar: "hex64 sha \<Longrightarrow> CHR ''|'' \<notin> set (sha x)"
proof
  assume "hex64 sha" "CHR ''|'' \<in> set (sha x)"
  then have "hex_char CHR ''|''" by (auto simp: hex64_def list_all_iff)
  then show False by (simp add: hex_char_def code_def)
qed

lemma chain_head_hashed: "chain_rev sha (e # es) \<Longrightarrow> well_hashed sha e"
  by (cases es) auto

lemma chain_prev_bar:
  assumes "hex64 sha" "chain_rev sha (e # es)"
  shows "CHR ''|'' \<notin> set (prev_hash e)"
proof (cases es)
  case (Cons f fs)
  then have "prev_hash e = entry_hash f" "well_hashed sha f"
    using assms(2) chain_head_hashed [of sha f fs] by auto
  then show ?thesis using hex64_no_bar [OF assms(1)] by (auto simp: well_hashed_def)
qed (use assms in simp)

lemma ledger_entry_eq:
  assumes "le_index e = le_index f" "le_epoch e = le_epoch f" "le_kind e = le_kind f"
    "payload_hash e = payload_hash f" "le_writer e = le_writer f" "prev_hash e = prev_hash f"
    "entry_hash e = entry_hash (f :: ledger_entry)"
  shows "e = f"
  using assms by (cases e, cases f) simp

lemma chain_rev_index:
  "chain_rev sha (e # es) \<Longrightarrow> length es < 2 ^ 64 \<Longrightarrow> unat (le_index e) = length es"
proof (induction es arbitrary: e)
  case (Cons f es)
  then have "unat (le_index f) = length es" "le_index e = le_index f + 1" by simp_all
  then show ?case using Cons.prems(2) by (simp add: unat_word_ariths)
qed simp

lemma chain_head_eq:
  assumes "hex64 sha" "chain_rev sha (e # es)" "chain_rev sha (f # fs)" "entry_hash e = entry_hash f"
    and "inj_on sha {material_of e, material_of f}"
  shows "e = f"
proof -
  have e: "well_hashed sha e" and f: "well_hashed sha f"
    using assms(2,3) by (auto dest: chain_head_hashed)
  have bars: "CHR ''|'' \<notin> set (prev_hash e)" "CHR ''|'' \<notin> set (prev_hash f)"
    "CHR ''|'' \<notin> set (payload_hash e)" "CHR ''|'' \<notin> set (payload_hash f)"
    using chain_prev_bar [OF assms(1)] assms(2,3) e f by (auto simp: well_hashed_def)
  have "sha (material_of e) = sha (material_of f)" using e f assms(4) by (simp add: well_hashed_def)
  then have "material_of e = material_of f" using inj_onD [OF assms(5)] by blast
  from entry_material_inj [OF this [unfolded material_of_def] bars(3,4,1,2)] show "e = f"
    using assms(4) by (intro ledger_entry_eq) simp_all
qed

lemma chain_rev_binds:
  assumes "hex64 sha" "chain_rev sha (e # es)" "chain_rev sha (f # fs)"
    and "entry_hash e = entry_hash f" "inj_on sha (material_of ` (set (e # es) \<union> set (f # fs)))"
    and "length es < 2 ^ 64" "length fs < 2 ^ 64"
  shows "e # es = f # fs"
  using assms(2-)
proof (induction es arbitrary: e f fs)
  case Nil
  have "inj_on sha {material_of e, material_of f}" by (rule inj_on_subset [OF Nil(4)]) auto
  then have "e = f" by (rule chain_head_eq [OF assms(1) Nil(1-3)])
  moreover have "unat (le_index e) = 0" "unat (le_index f) = length fs"
    using chain_rev_index [OF Nil(1)] chain_rev_index [OF Nil(2)] Nil by auto
  ultimately show ?case by simp
next
  case (Cons g es)
  have "inj_on sha {material_of e, material_of f}" by (rule inj_on_subset [OF Cons.prems(4)]) auto
  then have ef: "e = f" by (rule chain_head_eq [OF assms(1) Cons.prems(1-3)])
  have "unat (le_index e) = Suc (length es)" "unat (le_index f) = length fs"
    using chain_rev_index [OF Cons.prems(1)] chain_rev_index [OF Cons.prems(2)] Cons.prems by auto
  then obtain h hs where fs: "fs = h # hs" using ef by (cases fs) auto
  have "g # es = h # hs"
  proof (rule Cons.IH)
    show "inj_on sha (material_of ` (set (g # es) \<union> set (h # hs)))"
      by (rule inj_on_subset [OF Cons.prems(4)]) (auto simp: fs)
  qed (use Cons.prems ef fs in auto)
  then show ?case using ef fs by simp
qed


section \<open>Votes\<close>

definition cast_vote :: "string \<Rightarrow> epoch_proposal \<Rightarrow> epoch_proposal" where
  "cast_vote v p = snd (add_vote v p)"

interpretation epoch_votes: vote_box cast_vote "\<lambda>p. set (votes p)" "\<lambda>p. length (votes p)"
  "\<lambda>p. distinct (votes p)"
  by unfold_locales
     (auto simp: cast_vote_def add_vote_def list_ex_iff distinct_card split: if_splits)

lemma add_vote_ok:
  assumes "add_vote v p = (Inr (), q)"
  shows "\<not> closed p" "\<not> closed q" "set (votes q) = insert v (set (votes p))"
    "distinct (votes p) \<Longrightarrow> distinct (votes q)"
    "pr_id q = pr_id p" "from_epoch q = from_epoch p" "to_epoch q = to_epoch p"
    "pr_constitution_hash q = pr_constitution_hash p"
  using assms by (auto simp: add_vote_def list_ex_iff split: if_splits)


section \<open>Invariants of the governed ledger\<close>

text \<open>The actions that change the governance ledger: proposing and voting, and the events other
  components append through \<open>append_event\<close>.\<close>

datatype gov_action =
    GovPropose string string
  | GovVote string string
  | GovEvent u64 event_kind string string

fun gov_step :: "(string \<Rightarrow> string) \<Rightarrow> gov_action \<Rightarrow> ledger_state \<Rightarrow> ledger_state" where
  "gov_step sha (GovPropose node pid) l = snd (propose_epoch_advance sha node pid l)"
| "gov_step sha (GovVote node pid) l = snd (vote_epoch_advance sha node pid l)"
| "gov_step sha (GovEvent ep k payload w) l = snd (append_event sha ep k payload w l)"

definition proposal_ok :: "ledger_state \<Rightarrow> epoch_proposal \<Rightarrow> bool" where
  "proposal_ok l p \<longleftrightarrow>
     distinct (votes p) \<and> set (votes p) \<subseteq> set (active_set (l_epoch l)) \<and> to_epoch p = from_epoch p + 1
     \<and> (closed p \<longrightarrow> governance_t (l_constitution l) \<le> length (votes p))"

definition gov_inv :: "(string \<Rightarrow> string) \<Rightarrow> ledger_state \<Rightarrow> bool" where
  "gov_inv sha l \<longleftrightarrow>
     entries l \<noteq> [] \<and> chain_ok sha (entries l)
     \<and> (\<forall>e \<in> set (tl (entries l)). le_writer e \<in> set (active_set (l_epoch l)))
     \<and> (\<forall>i p. proposals l i = Some p \<longrightarrow> pr_id p = i \<and> proposal_ok l p)"

lemma epoch_contains_iff: "epoch_contains e n \<longleftrightarrow> n \<in> set (active_set e)"
  by (auto simp: epoch_contains_def list_ex_iff)

lemma chain_rev_of_nat:
  "chain_rev sha (e # es) \<Longrightarrow> le_index e = of_nat (length es)"
  by (induction es arbitrary: e) auto

lemma chain_ok_last:
  assumes "chain_ok sha es" "es \<noteq> []"
  shows "le_index (last es) + 1 = of_nat (length es)"
proof -
  obtain f fs where "rev es = f # fs" using assms(2) by (cases "rev es") auto
  moreover from this have "last es = f" by (metis last_rev rev_rev_ident list.sel(1) hd_rev rev.simps(1))
  moreover have "length es = Suc (length fs)" using \<open>rev es = f # fs\<close> by (metis length_Cons length_rev)
  ultimately show ?thesis using assms(1) chain_rev_of_nat [of sha f fs] by (simp add: chain_ok_def)
qed

text \<open>Appending an event in the code's way never conflicts: it fails only for a writer outside the
  active set, and otherwise extends the chain by one entry.\<close>

lemma append_event_cases:
  assumes "hex64 sha" "chain_ok sha (entries l)" "entries l \<noteq> []"
  shows "append_event sha ep k payload w l =
     (if w \<in> set (active_set (l_epoch l))
      then (Inr (), l\<lparr>entries := entries l @
              [entry_chain sha (of_nat (length (entries l))) ep k payload w (entry_hash (last (entries l)))]\<rparr>)
      else (Inl (UnauthorizedWriter w), l))"
  using chain_ok_last [OF assms(2,3)] assms(3)
  by (simp add: append_event_def append_entry_def next_prev_def ledger_head_def entry_chain_def Let_def
      epoch_contains_iff)

lemma append_entry_fields:
  "proposals (snd (append_entry x l)) = proposals l"
  "l_epoch (snd (append_entry x l)) = l_epoch l"
  "l_constitution (snd (append_entry x l)) = l_constitution l"
  by (cases "ledger_head l"; simp add: append_entry_def Let_def)+

lemma append_event_fields [simp]:
  "proposals (snd (append_event sha ep k payload w l)) = proposals l"
  "l_epoch (snd (append_event sha ep k payload w l)) = l_epoch l"
  "l_constitution (snd (append_event sha ep k payload w l)) = l_constitution l"
  by (simp_all add: append_event_def append_entry_fields)

lemma entry_chain_fields [simp]:
  "le_writer (entry_chain sha i ep k p w prev) = w" "le_index (entry_chain sha i ep k p w prev) = i"
  "prev_hash (entry_chain sha i ep k p w prev) = prev" "le_kind (entry_chain sha i ep k p w prev) = k"
  "le_epoch (entry_chain sha i ep k p w prev) = ep"
  by (simp_all add: entry_chain_def Let_def)

lemma entry_chain_hashed: "hex64 sha \<Longrightarrow> well_hashed sha (entry_chain sha i ep k p w prev)"
  by (simp add: well_hashed_def material_of_def entry_chain_def Let_def hex64_no_bar)

lemma chain_ok_snoc:
  assumes "hex64 sha" "chain_ok sha es" "es \<noteq> []"
  shows "chain_ok sha (es @ [entry_chain sha (of_nat (length es)) ep k p w (entry_hash (last es))])"
proof -
  obtain f fs where r: "rev es = f # fs" using assms(3) by (cases "rev es") auto
  then have "last es = f" by (metis hd_rev list.sel(1))
  then show ?thesis
    using assms(2) r chain_ok_last [OF assms(2,3)] entry_chain_hashed [OF assms(1)]
    by (simp add: chain_ok_def)
qed

text \<open>What a step may do to the ledger: the chain only grows, the constitution and the active set
  stay, and the epoch number moves only by a closed proposal of the epoch it leaves.\<close>

definition gov_grows :: "(string \<Rightarrow> string) \<Rightarrow> ledger_state \<Rightarrow> ledger_state \<Rightarrow> bool" where
  "gov_grows sha l m \<longleftrightarrow>
     gov_inv sha m \<and> prefix (entries l) (entries m)
     \<and> l_constitution m = l_constitution l \<and> active_set (l_epoch m) = active_set (l_epoch l)
     \<and> (ep_number (l_epoch m) = ep_number (l_epoch l)
         \<or> (\<exists>i p. proposals m i = Some p \<and> closed p \<and> from_epoch p = ep_number (l_epoch l)
              \<and> ep_number (l_epoch m) = ep_number (l_epoch l) + 1))"

lemma gov_grows_refl: "gov_inv sha l \<Longrightarrow> gov_grows sha l l"
  by (simp add: gov_grows_def)

lemma gov_inv_append:
  assumes "hex64 sha" "gov_inv sha l" "w \<in> set (active_set (l_epoch l))"
  shows "gov_inv sha (l\<lparr>entries := entries l @
    [entry_chain sha (of_nat (length (entries l))) ep k payload w (entry_hash (last (entries l)))]\<rparr>)"
  using assms chain_ok_snoc [OF assms(1), of "entries l" ep k payload w]
  by (auto simp: gov_inv_def proposal_ok_def)

lemma gov_grows_event:
  assumes "hex64 sha" "gov_inv sha l"
  shows "gov_grows sha l (snd (append_event sha ep k payload w l))"
  using assms gov_inv_append [OF assms] append_event_cases [OF assms(1), of l ep k payload w]
  by (auto simp: gov_grows_def gov_inv_def)

lemma gov_inv_save:
  assumes "gov_inv sha l" "proposal_ok l p"
  shows "gov_inv sha (save_proposal p l)"
  using assms by (auto simp: gov_inv_def save_proposal_def proposal_ok_def)

lemma gov_inv_epoch:
  assumes "gov_inv sha l"
  shows "gov_inv sha (set_epoch ((l_epoch l)\<lparr>ep_number := n\<rparr>) l)"
  using assms by (auto simp: gov_inv_def set_epoch_def proposal_ok_def)

lemma gov_grows_propose:
  assumes "hex64 sha" "gov_inv sha l"
  shows "gov_grows sha l (snd (propose_epoch_advance sha node pid l))"
proof -
  let ?p = "proposal_new pid (ep_number (l_epoch l)) (c_hash (l_constitution l)) node"
  show ?thesis
  proof (cases "node \<in> set (active_set (l_epoch l)) \<and> proposals l pid = None")
    case True
    let ?l1 = "save_proposal ?p l"
    have "proposal_ok l ?p" using True by (simp add: proposal_ok_def proposal_new_def)
    then have inv: "gov_inv sha ?l1" by (rule gov_inv_save [OF assms(2)])
    have put: "put_proposal ?p l = (Inr (), ?l1)"
      using True by (simp add: put_proposal_def save_proposal_def proposal_new_def)
    let ?r = "append_vote_event sha (ep_number (l_epoch l)) node ?p ?l1"
    have "gov_grows sha ?l1 (snd ?r)"
      unfolding append_vote_event_def by (rule gov_grows_event [OF assms(1) inv])
    then have "gov_grows sha l (snd ?r)"
      by (simp add: gov_grows_def save_proposal_def)
    moreover have "snd (propose_epoch_advance sha node pid l) = snd ?r"
      using True put by (simp add: propose_epoch_advance_def Let_def epoch_contains_iff split: prod.splits sum.splits)
    ultimately show ?thesis by simp
  next
    case False
    then have "snd (propose_epoch_advance sha node pid l) = l"
      by (auto simp: propose_epoch_advance_def put_proposal_def proposal_new_def Let_def epoch_contains_iff)
    then show ?thesis using gov_grows_refl [OF assms(2)] by simp
  qed
qed

lemma gov_grows_vote:
  assumes "hex64 sha" "gov_inv sha l"
  shows "gov_grows sha l (snd (vote_epoch_advance sha node pid l))"
proof (cases "node \<in> set (active_set (l_epoch l)) \<and> (\<exists>p0 q. proposals l pid = Some p0
    \<and> from_epoch p0 = ep_number (l_epoch l) \<and> pr_constitution_hash p0 = c_hash (l_constitution l)
    \<and> add_vote node p0 = (Inr (), q))")
  case False
  then have "snd (vote_epoch_advance sha node pid l) = l"
    by (auto simp: vote_epoch_advance_def Let_def epoch_contains_iff get_proposal_def
        split: option.splits prod.splits sum.splits if_splits)
  then show ?thesis using gov_grows_refl [OF assms(2)] by simp
next
  case True
  then obtain p0 p where node: "node \<in> set (active_set (l_epoch l))" and p0: "proposals l pid = Some p0"
    "from_epoch p0 = ep_number (l_epoch l)" "pr_constitution_hash p0 = c_hash (l_constitution l)"
    and add: "add_vote node p0 = (Inr (), p)" by blast
  have ok0: "proposal_ok l p0" "pr_id p0 = pid" using assms(2) p0(1) by (auto simp: gov_inv_def)
  have ok: "proposal_ok l p" using ok0 node add_vote_ok [OF add] by (auto simp: proposal_ok_def)
  let ?l1 = "save_proposal p l"
  have inv1: "gov_inv sha ?l1" by (rule gov_inv_save [OF assms(2) ok])
  let ?e1 = "entry_chain sha (of_nat (length (entries ?l1))) (ep_number (l_epoch l)) EvVoteRecorded
      (proposal_json p) node (entry_hash (last (entries ?l1)))"
  let ?l2 = "?l1\<lparr>entries := entries ?l1 @ [?e1]\<rparr>"
  have node1: "node \<in> set (active_set (l_epoch ?l1))" using node by (simp add: save_proposal_def)
  have app: "append_vote_event sha (ep_number (l_epoch l)) node p ?l1 = (Inr (), ?l2)"
    using append_event_cases [OF assms(1), of ?l1] inv1 node1 by (simp add: append_vote_event_def gov_inv_def)
  have inv2: "gov_inv sha ?l2" by (rule gov_inv_append [OF assms(1) inv1 node1])
  show ?thesis
  proof (cases "governance_t (l_constitution l) \<le> length (votes p)")
    case False
    then have "snd (vote_epoch_advance sha node pid l) = ?l2"
      using node p0 add app by (simp add: vote_epoch_advance_def Let_def epoch_contains_iff get_proposal_def)
    moreover have "gov_grows sha l ?l2" using inv2 by (simp add: gov_grows_def save_proposal_def)
    ultimately show ?thesis by simp
  next
    case close: True
    let ?p1 = "p\<lparr>closed := True\<rparr>"
    let ?l3 = "save_proposal ?p1 ?l2"
    have "proposal_ok ?l2 ?p1" using ok close by (simp add: proposal_ok_def save_proposal_def)
    then have inv3: "gov_inv sha ?l3" by (rule gov_inv_save [OF inv2])
    let ?l4 = "set_epoch ((l_epoch ?l3)\<lparr>ep_number := to_epoch ?p1\<rparr>) ?l3"
    have inv4: "gov_inv sha ?l4" by (rule gov_inv_epoch [OF inv3])
    let ?r = "advance_epoch sha node ?p1 ?l3"
    have "gov_grows sha ?l4 (snd ?r)"
      unfolding advance_epoch_def Let_def by (rule gov_grows_event [OF assms(1) inv4])
    moreover have "proposals (snd ?r) = proposals ?l3 \<and> ep_number (l_epoch (snd ?r)) = to_epoch p"
      using append_event_cases [OF assms(1), of ?l4] inv4
      by (auto simp: advance_epoch_def Let_def gov_inv_def set_epoch_def)
    moreover have "pr_id p = pid" "from_epoch p = ep_number (l_epoch l)" "to_epoch p = from_epoch p + 1"
      using add_vote_ok [OF add] ok0 ok p0 by (auto simp: proposal_ok_def)
    moreover have "proposals ?l3 pid = Some ?p1" using \<open>pr_id p = pid\<close> by (simp add: save_proposal_def)
    ultimately have "gov_grows sha l (snd ?r)"
      by (auto simp: gov_grows_def set_epoch_def save_proposal_def intro: append_prefixD prefix_order.trans)
    moreover have "snd (vote_epoch_advance sha node pid l) = snd ?r"
      using node p0 add app close
      by (simp add: vote_epoch_advance_def Let_def epoch_contains_iff get_proposal_def split: prod.splits sum.splits)
    ultimately show ?thesis by simp
  qed
qed

text \<open>What a proposal and a vote of a member do when nothing stands in the way.\<close>

definition votable :: "ledger_state \<Rightarrow> string \<Rightarrow> epoch_proposal \<Rightarrow> bool" where
  "votable l pid p \<longleftrightarrow>
     proposals l pid = Some p \<and> from_epoch p = ep_number (l_epoch l)
     \<and> pr_constitution_hash p = c_hash (l_constitution l) \<and> \<not> closed p"

lemma propose_votable:
  assumes "hex64 sha" "gov_inv sha l" "node \<in> set (active_set (l_epoch l))" "proposals l pid = None"
  shows "votable (gov_step sha (GovPropose node pid) l) pid
      (proposal_new pid (ep_number (l_epoch l)) (c_hash (l_constitution l)) node)"
    and "ep_number (l_epoch (gov_step sha (GovPropose node pid) l)) = ep_number (l_epoch l)"
proof -
  let ?p = "proposal_new pid (ep_number (l_epoch l)) (c_hash (l_constitution l)) node"
  let ?l1 = "save_proposal ?p l"
  have "proposal_ok l ?p" using assms by (simp add: proposal_ok_def proposal_new_def)
  then have inv: "gov_inv sha ?l1" by (rule gov_inv_save [OF assms(2)])
  have put: "put_proposal ?p l = (Inr (), ?l1)"
    using assms(4) by (simp add: put_proposal_def save_proposal_def proposal_new_def)
  let ?r = "append_vote_event sha (ep_number (l_epoch l)) node ?p ?l1"
  have "gov_step sha (GovPropose node pid) l = snd ?r"
    using assms(3) put by (simp add: propose_epoch_advance_def Let_def epoch_contains_iff split: prod.splits sum.splits)
  moreover have "proposals (snd ?r) = proposals ?l1" "l_epoch (snd ?r) = l_epoch l"
    "l_constitution (snd ?r) = l_constitution l"
    by (simp_all add: append_vote_event_def save_proposal_def)
  ultimately show "votable (gov_step sha (GovPropose node pid) l) pid ?p"
    and "ep_number (l_epoch (gov_step sha (GovPropose node pid) l)) = ep_number (l_epoch l)"
    by (auto simp: votable_def save_proposal_def proposal_new_def)
qed

lemma vote_votable:
  assumes "hex64 sha" "gov_inv sha l" "node \<in> set (active_set (l_epoch l))" "votable l pid p0"
  defines "p \<equiv> cast_vote node p0" and "m \<equiv> gov_step sha (GovVote node pid) l"
  shows "length (votes p) < governance_t (l_constitution l) \<Longrightarrow>
      votable m pid p \<and> ep_number (l_epoch m) = ep_number (l_epoch l)"
    and "governance_t (l_constitution l) \<le> length (votes p) \<Longrightarrow>
      ep_number (l_epoch m) = ep_number (l_epoch l) + 1"
proof -
  have add: "add_vote node p0 = (Inr (), p)"
    using assms(4) by (auto simp: p_def cast_vote_def add_vote_def votable_def)
  have p0: "proposals l pid = Some p0" "from_epoch p0 = ep_number (l_epoch l)"
    "pr_constitution_hash p0 = c_hash (l_constitution l)"
    using assms(4) by (auto simp: votable_def)
  have ok0: "proposal_ok l p0" "pr_id p0 = pid" using assms(2) p0(1) by (auto simp: gov_inv_def)
  have ok: "proposal_ok l p" using ok0 assms(3) add_vote_ok [OF add] by (auto simp: proposal_ok_def)
  let ?l1 = "save_proposal p l"
  have inv1: "gov_inv sha ?l1" by (rule gov_inv_save [OF assms(2) ok])
  have node1: "node \<in> set (active_set (l_epoch ?l1))" using assms(3) by (simp add: save_proposal_def)
  obtain e1 where app: "append_vote_event sha (ep_number (l_epoch l)) node p ?l1 =
      (Inr (), ?l1\<lparr>entries := entries ?l1 @ [e1]\<rparr>)"
    and inv2: "gov_inv sha (?l1\<lparr>entries := entries ?l1 @ [e1]\<rparr>)"
    using append_event_cases [OF assms(1), of ?l1] inv1 node1 gov_inv_append [OF assms(1) inv1 node1]
    by (auto simp: append_vote_event_def gov_inv_def)
  let ?l2 = "?l1\<lparr>entries := entries ?l1 @ [e1]\<rparr>"
  have ids: "pr_id p = pid" "to_epoch p = ep_number (l_epoch l) + 1" "from_epoch p = ep_number (l_epoch l)"
    using ok add_vote_ok [OF add] ok0 p0 by (auto simp: proposal_ok_def)
  show "votable m pid p \<and> ep_number (l_epoch m) = ep_number (l_epoch l)"
    if "length (votes p) < governance_t (l_constitution l)"
  proof -
    have "m = ?l2"
      using that assms(3) p0 add app by (simp add: m_def vote_epoch_advance_def Let_def epoch_contains_iff get_proposal_def)
    then show ?thesis
      using ids p0 add_vote_ok [OF add] by (simp add: votable_def save_proposal_def)
  qed
  show "ep_number (l_epoch m) = ep_number (l_epoch l) + 1"
    if close: "governance_t (l_constitution l) \<le> length (votes p)"
  proof -
    let ?p1 = "p\<lparr>closed := True\<rparr>"
    let ?l3 = "save_proposal ?p1 ?l2"
    have "proposal_ok ?l2 ?p1" using ok close by (simp add: proposal_ok_def save_proposal_def)
    then have inv3: "gov_inv sha ?l3" by (rule gov_inv_save [OF inv2])
    let ?l4 = "set_epoch ((l_epoch ?l3)\<lparr>ep_number := to_epoch ?p1\<rparr>) ?l3"
    have inv4: "gov_inv sha ?l4" by (rule gov_inv_epoch [OF inv3])
    have "ep_number (l_epoch (snd (advance_epoch sha node ?p1 ?l3))) = to_epoch p"
      by (simp add: advance_epoch_def Let_def set_epoch_def)
    moreover have "m = snd (advance_epoch sha node ?p1 ?l3)"
      using assms(3) p0 add app close
      by (simp add: m_def vote_epoch_advance_def Let_def epoch_contains_iff get_proposal_def split: prod.splits sum.splits)
    ultimately show ?thesis using ids by simp
  qed
qed

lemma gov_grows_step: "hex64 sha \<Longrightarrow> gov_inv sha l \<Longrightarrow> gov_grows sha l (gov_step sha a l)"
  by (cases a) (simp_all add: gov_grows_propose gov_grows_vote gov_grows_event)


lemma gov_run_grows:
  assumes "hex64 sha" "gov_inv sha l"
  shows "gov_inv sha (fold (gov_step sha) as l) \<and> prefix (entries l) (entries (fold (gov_step sha) as l))
    \<and> l_constitution (fold (gov_step sha) as l) = l_constitution l
    \<and> active_set (l_epoch (fold (gov_step sha) as l)) = active_set (l_epoch l)"
  using assms(2)
proof (induction as arbitrary: l)
  case (Cons a as)
  have "gov_grows sha l (gov_step sha a l)" by (rule gov_grows_step [OF assms(1) Cons.prems])
  then show ?case
    using Cons.IH [of "gov_step sha a l"] by (auto simp: gov_grows_def intro: prefix_order.trans)
qed simp

lemma genesis_ok:
  assumes "ledger_genesis sha c nodes w = Inr l" "hex64 sha"
  shows "gov_inv sha l" "l_constitution l = c" "active_set (l_epoch l) = nodes"
    "ep_number (l_epoch l) = 0" "length (entries l) = 1" "le_writer (hd (entries l)) = w"
    "constitution_validate sha c = Inr ()" "length nodes = signing_n c"
proof -
  obtain payload where
    l: "entries l = [entry_chain sha 0 0 EvGenesis payload w ''genesis-prev'']" "proposals l = (\<lambda>_. None)"
      "l_constitution l = c"
    and ep: "epoch_genesis sha c nodes = Inr (l_epoch l)" and v: "constitution_validate sha c = Inr ()"
    using assms(1) by (auto simp: ledger_genesis_def rbind_Inr_iff Let_def)
  show "constitution_validate sha c = Inr ()" by (rule v)
  have "l_epoch l = \<lparr>ep_number = 0, ep_constitution_hash = c_hash c, active_set = nodes\<rparr>"
    and n: "length nodes = signing_n c"
    using ep by (auto simp: epoch_genesis_def rbind_Inr_iff split: if_splits)
  then show "l_constitution l = c" "active_set (l_epoch l) = nodes" "ep_number (l_epoch l) = 0"
    "length nodes = signing_n c"
    using l by simp_all
  show "gov_inv sha l" "length (entries l) = 1" "le_writer (hd (entries l)) = w"
    using l entry_chain_hashed [OF assms(2)] by (auto simp: gov_inv_def chain_ok_def)
qed

lemma fresh_vote_count: "v \<notin> set (votes p) \<Longrightarrow> \<not> closed p \<Longrightarrow> length (votes (cast_vote v p)) = Suc (length (votes p))"
  by (auto simp: cast_vote_def add_vote_def list_ex_iff)

lemma cast_vote_set: "\<not> closed p \<Longrightarrow> set (votes (cast_vote v p)) = insert v (set (votes p))"
  by (auto simp: cast_vote_def add_vote_def list_ex_iff)

lemma votes_advance:
  assumes "hex64 sha" "gov_inv sha l" "votable l pid p" "vs \<noteq> []" "distinct vs"
    and "set vs \<subseteq> set (active_set (l_epoch l))" "set vs \<inter> set (votes p) = {}"
    and "length (votes p) + length vs = governance_t (l_constitution l)"
  shows "ep_number (l_epoch (fold (gov_step sha) (map (\<lambda>v. GovVote v pid) vs) l)) = ep_number (l_epoch l) + 1"
  using assms(2-)
proof (induction vs arbitrary: l p)
  case (Cons v vs)
  let ?q = "cast_vote v p" and ?m = "gov_step sha (GovVote v pid) l"
  have v: "v \<in> set (active_set (l_epoch l))" "v \<notin> set (votes p)" using Cons.prems by auto
  have opn: "\<not> closed p" using Cons.prems(2) by (simp add: votable_def)
  have len: "length (votes ?q) = Suc (length (votes p))" using fresh_vote_count [OF v(2) opn] .
  note vote = vote_votable [OF assms(1) Cons.prems(1) v(1) Cons.prems(2)]
  have grows: "gov_grows sha l ?m" by (rule gov_grows_step [OF assms(1) Cons.prems(1)])
  show ?case
  proof (cases vs)
    case Nil
    then show ?thesis using vote(2) len Cons.prems by simp
  next
    case (Cons w ws)
    then have "length (votes ?q) < governance_t (l_constitution l)" using len Cons.prems by simp
    then have m: "votable ?m pid ?q" "ep_number (l_epoch ?m) = ep_number (l_epoch l)" using vote(1) by auto
    have "ep_number (l_epoch (fold (gov_step sha) (map (\<lambda>v. GovVote v pid) vs) ?m)) = ep_number (l_epoch ?m) + 1"
    proof (rule Cons.IH [of ?m ?q])
      show "gov_inv sha ?m" using grows by (simp add: gov_grows_def)
    qed (use m Cons Cons.prems len grows cast_vote_set [OF opn] in \<open>auto simp: gov_grows_def\<close>)
    then show ?thesis using m by simp
  qed
qed simp

section \<open>Properties\<close>

text \<open>C7: the head of the ledger binds its whole history: two well-formed chains with the same head
  hash are the same list of entries, if the digest does not confuse two of the texts hashed for
  their entries.\<close>

theorem ledger_head_binds_history:
  assumes "hex64 sha" and "inj_on sha (material_of ` (set es \<union> set fs))"
    and "chain_ok sha es" "chain_ok sha fs" and "es \<noteq> []" "fs \<noteq> []"
    and "length es < 2 ^ 64" "length fs < 2 ^ 64" and "entry_hash (last es) = entry_hash (last fs)"
  shows "es = fs"
proof -
  obtain e es' where e: "rev es = e # es'" using assms(5) by (cases "rev es") auto
  obtain f fs' where f: "rev fs = f # fs'" using assms(6) by (cases "rev fs") auto
  have "last es = e" "last fs = f" using e f by (metis hd_rev list.sel(1))+
  moreover have "length es = Suc (length es')" "length fs = Suc (length fs')"
    using e f by (metis length_Cons length_rev)+
  moreover have "set es = set (e # es')" "set fs = set (f # fs')" using e f by (metis set_rev)+
  ultimately have "rev es = rev fs"
    using chain_rev_binds [OF assms(1), of e es' f fs'] assms e f by (simp add: chain_ok_def)
  then show ?thesis by simp
qed

definition lab_nodes :: "string list" where
  "lab_nodes = [''v1'', ''v2'', ''v3'']"

lemma lab_genesis: "\<exists>c l. v1_lab zero_sha 3 = Inr c \<and> ledger_genesis zero_sha c lab_nodes ''v1'' = Inr l"
proof -
  obtain c where c: "v1_lab zero_sha 3 = Inr c" using v1_lab_3 by blast
  then have v: "constitution_validate zero_sha c = Inr ()" "signing_n c = 3"
    using genesis_constitutions_valid_lab [of zero_sha 3 c] by auto
  then have "epoch_genesis zero_sha c lab_nodes =
      Inr \<lparr>ep_number = 0, ep_constitution_hash = c_hash c, active_set = lab_nodes\<rparr>"
    by (simp add: epoch_genesis_def lab_nodes_def)
  then show ?thesis using c v by (simp add: ledger_genesis_def Let_def)
qed

theorem ledger_head_binds_history_witness:
  "\<exists>c l e. ledger_genesis zero_sha c lab_nodes ''v1'' = Inr l \<and> chain_ok zero_sha [e]
     \<and> entry_hash e = entry_hash (last (entries l)) \<and> entries l = [e]"
proof -
  obtain c l where l: "ledger_genesis zero_sha c lab_nodes ''v1'' = Inr l" using lab_genesis by blast
  then have g: "gov_inv zero_sha l" "length (entries l) = 1"
    by (rule genesis_ok [OF _ hex64_zero])+
  then obtain e where e: "entries l = [e]" by (cases "entries l") auto
  then have "chain_ok zero_sha [e]" using g(1) by (simp add: gov_inv_def)
  then have "entries l = [e]"
    using ledger_head_binds_history [OF hex64_zero, of "entries l" "[e]"] e by simp
  then show ?thesis using l e \<open>chain_ok zero_sha [e]\<close>
    by (intro exI [of _ c] exI [of _ l] exI [of _ e]) simp
qed

text \<open>The ledger is append-only and its chain stays valid: from genesis, whatever proposals, votes
  and events follow, the earlier entries stay a prefix, indices stay consecutive and hash-linked,
  every entry after genesis is written by a node of the active set, and the constitution and the
  active set do not change.\<close>

theorem ledger_append_only:
  assumes "hex64 sha" and "ledger_genesis sha c nodes w = Inr l0"
  shows "prefix (entries (fold (gov_step sha) as l0)) (entries (fold (gov_step sha) (as @ bs) l0))
    \<and> chain_ok sha (entries (fold (gov_step sha) as l0))
    \<and> (\<forall>e \<in> set (tl (entries (fold (gov_step sha) as l0))). le_writer e \<in> set nodes)
    \<and> l_constitution (fold (gov_step sha) as l0) = c
    \<and> active_set (l_epoch (fold (gov_step sha) as l0)) = nodes"
proof -
  note g = genesis_ok [OF assms(2,1)]
  note run = gov_run_grows [OF assms(1) g(1), of as]
  show ?thesis
    using run gov_run_grows [OF assms(1), of "fold (gov_step sha) as l0" bs] g(2,3)
    by (auto simp: gov_inv_def)
qed

theorem ledger_append_only_witness:
  "\<exists>c l. ledger_genesis zero_sha c lab_nodes ''v1'' = Inr l \<and>
     chain_ok zero_sha (entries (fold (gov_step zero_sha) [GovPropose ''v1'' ''p''] l))"
  using lab_genesis ledger_append_only [OF hex64_zero, of _ lab_nodes "''v1''" _ "[GovPropose ''v1'' ''p'']" "[]"]
  by blast

text \<open>C8: an epoch advances only by governance: whenever a step after genesis changes the epoch
  number, it moves it by exactly one, and the ledger then holds a closed proposal of the epoch it
  left, with at least the constitution's governance quorum of distinct voters, all of them members
  of the active set.\<close>

theorem epoch_advance_needs_quorum:
  assumes "hex64 sha" and "ledger_genesis sha c nodes w = Inr l0"
    and "l = fold (gov_step sha) as l0" and "ep_number (l_epoch (gov_step sha a l)) \<noteq> ep_number (l_epoch l)"
  shows "ep_number (l_epoch (gov_step sha a l)) = ep_number (l_epoch l) + 1
    \<and> (\<exists>i p. proposals (gov_step sha a l) i = Some p \<and> closed p \<and> from_epoch p = ep_number (l_epoch l)
          \<and> distinct (votes p) \<and> set (votes p) \<subseteq> set nodes \<and> governance_t c \<le> card (set (votes p)))"
proof -
  note g = genesis_ok [OF assms(2,1)]
  have l: "gov_inv sha l" "l_constitution l = c" "active_set (l_epoch l) = nodes"
    using gov_run_grows [OF assms(1) g(1), of as] g(2,3) assms(3) by auto
  have grows: "gov_grows sha l (gov_step sha a l)" by (rule gov_grows_step [OF assms(1) l(1)])
  then obtain i p where p: "proposals (gov_step sha a l) i = Some p" "closed p"
    "from_epoch p = ep_number (l_epoch l)" "ep_number (l_epoch (gov_step sha a l)) = ep_number (l_epoch l) + 1"
    using assms(4) by (auto simp: gov_grows_def)
  have "proposal_ok (gov_step sha a l) p" using grows p(1) by (auto simp: gov_grows_def gov_inv_def)
  then have "distinct (votes p)" "set (votes p) \<subseteq> set nodes" "governance_t c \<le> length (votes p)"
    using grows l p(2) by (auto simp: gov_grows_def proposal_ok_def)
  then have "distinct (votes p) \<and> set (votes p) \<subseteq> set nodes \<and> governance_t c \<le> card (set (votes p))"
    using epoch_votes.tally_card [of p] by simp
  then show ?thesis using p by blast
qed


theorem epoch_advance_needs_quorum_witness:
  "\<exists>c l0. ledger_genesis zero_sha c lab_nodes ''v1'' = Inr l0 \<and>
     (\<exists>i p. proposals (fold (gov_step zero_sha) [GovPropose ''v1'' ''p'', GovVote ''v2'' ''p'', GovVote ''v3'' ''p''] l0) i = Some p
        \<and> 3 \<le> card (set (votes p)))"
proof -
  obtain c l0 where c: "v1_lab zero_sha 3 = Inr c" and l0: "ledger_genesis zero_sha c lab_nodes ''v1'' = Inr l0"
    using lab_genesis by blast
  note g = genesis_ok [OF l0 hex64_zero]
  have gt: "governance_t c = 3" using genesis_constitutions_valid_lab [OF c] by (simp add: quorum_two_thirds_def)
  let ?h = "zero_sha" and ?l1 = "gov_step zero_sha (GovPropose ''v1'' ''p'') l0"
  let ?p1 = "proposal_new ''p'' (ep_number (l_epoch l0)) (c_hash (l_constitution l0)) ''v1''"
  have none: "proposals l0 ''p'' = None" using l0 by (auto simp: ledger_genesis_def rbind_Inr_iff Let_def)
  have p1: "votable ?l1 ''p'' ?p1"
    by (rule propose_votable) (use hex64_zero g none in \<open>auto simp: lab_nodes_def\<close>)
  have gr: "gov_grows zero_sha l0 ?l1" by (rule gov_grows_step [OF hex64_zero g(1)])
  let ?l2 = "gov_step zero_sha (GovVote ''v2'' ''p'') ?l1"
  have gi: "gov_inv zero_sha ?l1" "l_constitution ?l1 = c" "active_set (l_epoch ?l1) = lab_nodes"
    using gr g by (auto simp: gov_grows_def)
  have v2: "votable ?l2 ''p'' (cast_vote ''v2'' ?p1)"
    by (rule conjunct1 [OF vote_votable(1)])
      (use hex64_zero gi p1 gt in \<open>auto simp: lab_nodes_def cast_vote_def add_vote_def proposal_new_def\<close>)
  have gr2: "gov_grows zero_sha ?l1 ?l2" by (rule gov_grows_step [OF hex64_zero gi(1)])
  have gi2: "gov_inv zero_sha ?l2" "l_constitution ?l2 = c" "active_set (l_epoch ?l2) = lab_nodes"
    using gr2 gi by (auto simp: gov_grows_def)
  have ne: "ep_number (l_epoch (gov_step zero_sha (GovVote ''v3'' ''p'') ?l2)) \<noteq> ep_number (l_epoch ?l2)"
    using vote_votable(2) [OF hex64_zero gi2(1) _ v2, of "''v3''"] gi2 gt
    by (simp add: lab_nodes_def cast_vote_def add_vote_def proposal_new_def)
  from epoch_advance_needs_quorum [OF hex64_zero l0, of ?l2 "[GovPropose ''v1'' ''p'', GovVote ''v2'' ''p'']" "GovVote ''v3'' ''p''"] ne
  have "\<exists>i p. proposals (gov_step zero_sha (GovVote ''v3'' ''p'') ?l2) i = Some p \<and> governance_t c \<le> card (set (votes p))"
    by (simp del: gov_step.simps) blast
  then show ?thesis using l0 gt by (auto simp del: gov_step.simps)
qed

text \<open>Governance is live: from genesis, when a member proposes under a fresh id and exactly as many
  further distinct members as the quorum still needs vote for it, the epoch number goes from 0 to 1.\<close>

theorem epoch_advance_live:
  assumes "hex64 sha" and "ledger_genesis sha c nodes w = Inr l0"
    and "distinct (v # vs)" "set (v # vs) \<subseteq> set nodes" "length (v # vs) = governance_t c" "vs \<noteq> []"
  shows "ep_number (l_epoch (fold (gov_step sha) (GovPropose v pid # map (\<lambda>x. GovVote x pid) vs) l0)) = 1"
proof -
  note g = genesis_ok [OF assms(2,1)]
  let ?l1 = "gov_step sha (GovPropose v pid) l0"
  let ?p = "proposal_new pid (ep_number (l_epoch l0)) (c_hash (l_constitution l0)) v"
  have none: "proposals l0 pid = None" using assms(2) by (auto simp: ledger_genesis_def rbind_Inr_iff Let_def)
  have p: "votable ?l1 pid ?p" "ep_number (l_epoch ?l1) = ep_number (l_epoch l0)"
    by (rule propose_votable; use assms g none in simp)+
  have gr: "gov_grows sha l0 ?l1" by (rule gov_grows_step [OF assms(1) g(1)])
  have "ep_number (l_epoch (fold (gov_step sha) (map (\<lambda>x. GovVote x pid) vs) ?l1)) = ep_number (l_epoch ?l1) + 1"
    by (rule votes_advance [OF assms(1) _ p(1)])
      (use gr g assms in \<open>auto simp: gov_grows_def proposal_new_def\<close>)
  then show ?thesis using p(2) g(4) by simp
qed

theorem epoch_advance_live_witness:
  "\<exists>c l0. ledger_genesis zero_sha c lab_nodes ''v1'' = Inr l0 \<and>
     ep_number (l_epoch (fold (gov_step zero_sha)
       (GovPropose ''v1'' ''p'' # map (\<lambda>x. GovVote x ''p'') [''v2'', ''v3'']) l0)) = 1"
proof -
  obtain c l0 where c: "v1_lab zero_sha 3 = Inr c" and l0: "ledger_genesis zero_sha c lab_nodes ''v1'' = Inr l0"
    using lab_genesis by blast
  have "governance_t c = 3" using genesis_constitutions_valid_lab [OF c] by (simp add: quorum_two_thirds_def)
  then have "ep_number (l_epoch (fold (gov_step zero_sha)
       (GovPropose ''v1'' ''p'' # map (\<lambda>x. GovVote x ''p'') [''v2'', ''v3'']) l0)) = 1"
    by (intro epoch_advance_live [OF hex64_zero l0]) (auto simp: lab_nodes_def)
  then show ?thesis using l0 by blast
qed

end
