(* ===== verification/NodeTier.thy ===== *)
theory NodeTier
  imports Errors "HOL-Library.Product_Lexorder"
begin

text \<open>
  Node tiers, genesis seating and admission (\<open>vault-core/src/domain/node_tier.rs\<close>).  A path is
  the list of its components, and \<open>exists\<close> says which paths the file system has.
\<close>

section \<open>Tiers\<close>

datatype node_tier = Domestic | Sgx | Sev

definition tier_parse :: "string \<Rightarrow> node_tier option" where
  "tier_parse raw =
     (let s = ascii_lower (trim raw) in
      if s = ''domestic'' \<or> s = ''home'' \<or> s = ''tpm'' then Some Domestic
      else if s = ''sgx'' then Some Sgx
      else if s = ''sev'' \<or> s = ''sev-snp'' \<or> s = ''sev_snp'' then Some Sev
      else None)"

fun tier_str :: "node_tier \<Rightarrow> string" where
  "tier_str Domestic = ''domestic''"
| "tier_str Sgx = ''sgx''"
| "tier_str Sev = ''sev''"

fun seating_priority :: "node_tier \<Rightarrow> nat" where
  "seating_priority Sev = 3"
| "seating_priority Sgx = 2"
| "seating_priority Domestic = 1"

fun governance_weight_bps :: "node_tier \<Rightarrow> u32" where
  "governance_weight_bps Sev = 15000"
| "governance_weight_bps Sgx = 12500"
| "governance_weight_bps Domestic = 10000"

definition tier_is_tee :: "node_tier \<Rightarrow> bool" where
  "tier_is_tee t = (t = Sev \<or> t = Sgx)"

definition tier_is_domestic :: "node_tier \<Rightarrow> bool" where
  "tier_is_domestic t = (t = Domestic)"


section \<open>Genesis seating\<close>

record seating_candidate =
  sc_id :: string
  sc_tier :: node_tier

fun unique_candidates :: "string set \<Rightarrow> seating_candidate list \<Rightarrow> seating_candidate list" where
  "unique_candidates seen [] = []"
| "unique_candidates seen (c # cs) =
     (if sc_id c \<in> seen then unique_candidates seen cs
      else c # unique_candidates (insert (sc_id c) seen) cs)"

text \<open>The comparison of the source: priority descending, then id ascending.\<close>

definition seat_key :: "seating_candidate \<Rightarrow> nat \<times> string" where
  "seat_key c = (3 - seating_priority (sc_tier c), sc_id c)"

definition seat_genesis_by_tier :: "seating_candidate list \<Rightarrow> nat \<Rightarrow> string list" where
  "seat_genesis_by_tier cs n = take n (map sc_id (sort_key seat_key (unique_candidates {} cs)))"


section \<open>Detection and admission\<close>

type_synonym path = "string list"

definition path_name :: "path \<Rightarrow> string" where
  "path_name p = (if p = [] then [] else ascii_lower (last p))"

definition path_parent :: "path \<Rightarrow> string" where
  "path_parent p = path_name (butlast p)"

fun tee_scan :: "(path \<Rightarrow> bool) \<Rightarrow> path list \<Rightarrow> bool \<Rightarrow> bool \<Rightarrow> bool \<times> bool" where
  "tee_scan exists [] sev sgx = (sev, sgx)"
| "tee_scan exists (p # ps) sev sgx =
     (let name = path_name p; parent = path_parent p in
      if \<not> exists p then tee_scan exists ps sev sgx
      else if str_contains ''sev'' name then tee_scan exists ps True sgx
      else if str_contains ''sgx'' name \<or> name = ''isgx'' \<or> parent = ''sgx'' then tee_scan exists ps sev True
      else tee_scan exists ps sev sgx)"

definition detect_tee_at_paths :: "(path \<Rightarrow> bool) \<Rightarrow> path list \<Rightarrow> bool \<times> node_tier option" where
  "detect_tee_at_paths exists ps =
     (case tee_scan exists ps False False of
        (sev, sgx) \<Rightarrow> if sev then (True, Some Sev) else if sgx then (True, Some Sgx) else (False, None))"

definition detect_tee_devices :: "(path \<Rightarrow> bool) \<Rightarrow> bool \<times> node_tier option" where
  "detect_tee_devices exists =
     detect_tee_at_paths exists
       [[''dev'', ''sev-guest''], [''dev'', ''sev''], [''dev'', ''sgx_enclave''],
        [''dev'', ''sgx'', ''enclave''], [''dev'', ''isgx'']]"

definition resolve_node_tier :: "(path \<Rightarrow> bool) \<Rightarrow> string option \<Rightarrow> (node_tier \<times> bool) res" where
  "resolve_node_tier exists raw =
     (case detect_tee_devices exists of
        (avail, detected) \<Rightarrow>
          (let auto = Inr ((case detected of Some t \<Rightarrow> t | None \<Rightarrow> Domestic), avail) in
           case raw of
             None \<Rightarrow> auto
           | Some r \<Rightarrow>
               (let s = trim r in
                if s = [] \<or> s = ''auto'' then auto
                else case tier_parse s of
                  Some t \<Rightarrow> Inr (t, avail)
                | None \<Rightarrow> Inl (AttestationRejected (''unknown VAULT_NODE_TIER='' @ s)))))"

text \<open>The product of hours and seconds is a plain \<open>u64\<close> product: it wraps in a release build.\<close>

definition admission_seating :: "node_tier \<Rightarrow> u64 option \<Rightarrow> u64 \<Rightarrow> u64 \<Rightarrow> node_tier res" where
  "admission_seating t attested now hours =
     (case t of
        Domestic \<Rightarrow> Inr Domestic
      | _ \<Rightarrow>
          (case attested of
             Some a \<Rightarrow>
               (let elapsed = sat_sub now a; timeout = hours * 3600 in
                if elapsed > timeout then Inr Domestic else Inr t)
           | None \<Rightarrow> Inr t))"


section \<open>Lemmas\<close>

lemma unique_candidates_ids: "sc_id ` set (unique_candidates seen cs) = sc_id ` set cs - seen"
  by (induction cs arbitrary: seen) auto

lemma unique_candidates_distinct: "distinct (map sc_id (unique_candidates seen cs))"
proof (induction cs arbitrary: seen)
  case (Cons c cs)
  have "sc_id c \<notin> sc_id ` set (unique_candidates (insert (sc_id c) seen) cs)"
    by (simp add: unique_candidates_ids)
  then show ?case using Cons.IH by (simp add: image_iff)
qed simp

lemma unique_candidates_sub: "set (unique_candidates seen cs) \<subseteq> set cs"
  by (induction cs arbitrary: seen) auto

lemma sorted_take_drop:
  assumes "sorted (map f xs)" "x \<in> set (take n xs)" "y \<in> set (drop n xs)"
  shows "f x \<le> (f y :: 'a::linorder)"
proof -
  have "sorted (map f (take n xs) @ map f (drop n xs))"
    using assms(1) by (metis append_take_drop_id map_append)
  then show ?thesis using assms(2,3) by (auto simp: sorted_append)
qed

lemma seat_key_le:
  "seat_key a \<le> seat_key b \<Longrightarrow> seating_priority (sc_tier b) \<le> seating_priority (sc_tier a)"
  by (cases "sc_tier a"; cases "sc_tier b") (auto simp: seat_key_def less_eq_prod_def)

lemma length_unique_candidates: "length (unique_candidates {} cs) = card (sc_id ` set cs)"
proof -
  have "length (unique_candidates {} cs) = length (map sc_id (unique_candidates {} cs))" by simp
  also have "\<dots> = card (set (map sc_id (unique_candidates {} cs)))"
    using distinct_card [OF unique_candidates_distinct] by metis
  also have "\<dots> = card (sc_id ` set cs)" using unique_candidates_ids [of "{}" cs] by simp
  finally show ?thesis .
qed


section \<open>Properties\<close>

text \<open>C17: genesis seating fills as many seats as there are distinct candidate ids, up to \<open>n\<close>, with
  distinct candidate ids; and nobody is seated over a candidate of a higher tier: with \<open>u\<close> the
  candidates deduplicated by first occurrence, one left without a seat has at most the priority of
  every one seated, and on equal priority the larger id.\<close>

theorem seating_prefers_tiers:
  "let seats = seat_genesis_by_tier cs n; u = set (unique_candidates {} cs) in
     length seats = min n (card (sc_id ` set cs)) \<and> distinct seats \<and> set seats \<subseteq> sc_id ` set cs \<and>
     {(a, b). a \<in> u \<and> b \<in> u \<and> sc_id a \<in> set seats \<and> sc_id b \<notin> set seats}
       \<subseteq> {(a, b). seating_priority (sc_tier b) < seating_priority (sc_tier a)
            \<or> seating_priority (sc_tier b) = seating_priority (sc_tier a) \<and> sc_id a < sc_id b}"
proof -
  let ?u = "unique_candidates {} cs"
  let ?s = "sort_key seat_key ?u"
  have dist: "distinct (map sc_id ?s)"
    using unique_candidates_distinct [of "{}" cs] by (simp add: distinct_map distinct_sort)
  have seats: "seat_genesis_by_tier cs n = map sc_id (take n ?s)"
    by (simp add: seat_genesis_by_tier_def take_map)
  have order: "seating_priority (sc_tier b) < seating_priority (sc_tier a)
       \<or> seating_priority (sc_tier b) = seating_priority (sc_tier a) \<and> sc_id a < sc_id b"
    if a: "a \<in> set ?u" "sc_id a \<in> sc_id ` set (take n ?s)" and b: "b \<in> set ?u" "sc_id b \<notin> sc_id ` set (take n ?s)" for a b
  proof -
    have inj: "inj_on sc_id (set ?s)" using dist by (simp add: distinct_map)
    obtain a' where a': "sc_id a = sc_id a'" "a' \<in> set (take n ?s)" using a(2) by auto
    then have "a' \<in> set ?s" by (meson in_set_takeD)
    then have "a = a'" using inj a'(1) a(1) by (auto dest: inj_onD)
    then have at: "a \<in> set (take n ?s)" using a' by simp
    have "b \<in> set (take n ?s) \<union> set (drop n ?s)"
      using b(1) by (metis append_take_drop_id set_append set_sort)
    then have bd: "b \<in> set (drop n ?s)" using b(2) by auto
    have le: "seat_key a \<le> seat_key b" by (rule sorted_take_drop [OF sorted_sort_key at bd])
    have ne: "sc_id a \<noteq> sc_id b" using a(2) b(2) by auto
    show ?thesis using le ne seat_key_le [OF le]
      by (cases "sc_tier a"; cases "sc_tier b") (auto simp: seat_key_def less_eq_prod_def)
  qed
  have "length (seat_genesis_by_tier cs n) = min n (card (sc_id ` set cs))"
    by (simp add: seat_genesis_by_tier_def length_unique_candidates min.commute)
  moreover have "distinct (seat_genesis_by_tier cs n)"
    using dist by (simp add: seat_genesis_by_tier_def)
  moreover have "set (seat_genesis_by_tier cs n) \<subseteq> sc_id ` set cs"
    using unique_candidates_sub [of "{}" cs] by (auto simp: seats dest!: in_set_takeD)
  ultimately show ?thesis using order by (auto simp: seats Let_def)
qed

end
