(* ===== verification/EconomyOps.thy ===== *)
theory EconomyOps
  imports Ledger NodeTier
begin

text \<open>
  The miner economy use cases (\<open>vault-core/src/application/economy_ops.rs\<close>): status, operator
  registration, profit accrual, governance bounties with their ledger entry, and payout proposals.
  A use case works on the in-memory ledger and the in-memory economy (\<open>InMemoryEconomy\<close> of
  \<open>adapters/economy_memory.rs\<close>), which the record \<open>world\<close> holds.
\<close>

section \<open>State and views\<close>

record world =
  w_ledger :: ledger_state
  w_economy :: economy_state

record status_config =
  st_governance_reward :: gov_reward_config
  st_cadence :: payout_cadence
  st_tier :: node_tier
  st_mode :: attestation_mode
  st_tee_available :: bool

record economy_status =
  es_miner_pool_sats :: u64
  es_channels_pool_sats :: u64
  es_infra_pool_sats :: u64
  es_accrued_profit_sats :: u64
  es_pending_governance_reward_sats :: u64
  es_governance_reward_sats :: u64
  es_governance_reward_bps :: u32
  es_p_reward_bps :: u32
  es_channels_bps :: u32
  es_infra_bps :: u32
  es_miner_payout_cadence :: string
  es_last_miner_payout_at_secs :: "u64 option"
  es_eligible_miners :: nat
  es_waiting_miners :: nat
  es_crypto_suite_id :: string
  es_crypto_suite_id_pq :: string
  es_survivability_ok :: bool
  es_open_economy :: bool
  es_node_tier :: string
  es_attestation_mode :: string
  es_tee_available :: bool
  es_tier_governance_weight_bps :: u32

definition get_economy_status :: "status_config \<Rightarrow> world \<Rightarrow> economy_status" where
  "get_economy_status cfg w =
     (let c = l_constitution (w_ledger w); e = w_economy w in
      \<lparr>es_miner_pool_sats = miner_pool_sats e, es_channels_pool_sats = channels_pool_sats e,
       es_infra_pool_sats = infra_pool_sats e, es_accrued_profit_sats = accrued_profit_sats e,
       es_pending_governance_reward_sats = pending_governance_reward_sats e,
       es_governance_reward_sats = reward_sats (st_governance_reward cfg),
       es_governance_reward_bps = reward_bps_of_pool (st_governance_reward cfg),
       es_p_reward_bps = p_reward_bps c, es_channels_bps = channels_bps (c_splits c),
       es_infra_bps = infra_bps (c_splits c), es_miner_payout_cadence = cadence_str (st_cadence cfg),
       es_last_miner_payout_at_secs = last_miner_payout_at_secs e,
       es_eligible_miners = length (eligible_active e),
       es_waiting_miners = length (filter waiting (bt_vals (operators e))),
       es_crypto_suite_id = crypto_suite_id c, es_crypto_suite_id_pq = crypto_suite_id_pq e,
       es_survivability_ok = survivability_ok (signing_n c) (signing_t c),
       es_open_economy = (miners_bps (c_splits c) > 0), es_node_tier = tier_str (st_tier cfg),
       es_attestation_mode = attestation_str (st_mode cfg), es_tee_available = st_tee_available cfg,
       es_tier_governance_weight_bps = governance_weight_bps (st_tier cfg)\<rparr>)"

definition economy_status_json :: "economy_status \<Rightarrow> string" where
  "economy_status_json s =
     ''{'' @ key ''miner_pool_sats'' @ dec_u (es_miner_pool_sats s)
     @ '','' @ key ''channels_pool_sats'' @ dec_u (es_channels_pool_sats s)
     @ '','' @ key ''infra_pool_sats'' @ dec_u (es_infra_pool_sats s)
     @ '','' @ key ''accrued_profit_sats'' @ dec_u (es_accrued_profit_sats s)
     @ '','' @ key ''pending_governance_reward_sats'' @ dec_u (es_pending_governance_reward_sats s)
     @ '','' @ key ''governance_reward_sats'' @ dec_u (es_governance_reward_sats s)
     @ '','' @ key ''governance_reward_bps'' @ dec_u (es_governance_reward_bps s)
     @ '','' @ key ''p_reward_bps'' @ dec_u (es_p_reward_bps s)
     @ '','' @ key ''channels_bps'' @ dec_u (es_channels_bps s)
     @ '','' @ key ''infra_bps'' @ dec_u (es_infra_bps s)
     @ '','' @ key ''miner_payout_cadence'' @ quoted (es_miner_payout_cadence s)
     @ '','' @ key ''last_miner_payout_at_secs''
         @ (case es_last_miner_payout_at_secs s of Some n \<Rightarrow> dec_u n | None \<Rightarrow> ''null'')
     @ '','' @ key ''eligible_miners'' @ dec (es_eligible_miners s)
     @ '','' @ key ''waiting_miners'' @ dec (es_waiting_miners s)
     @ '','' @ key ''crypto_suite_id'' @ quoted (es_crypto_suite_id s)
     @ '','' @ key ''crypto_suite_id_pq'' @ quoted (es_crypto_suite_id_pq s)
     @ '','' @ key ''survivability_ok'' @ bool_str (es_survivability_ok s)
     @ '','' @ key ''open_economy'' @ bool_str (es_open_economy s)
     @ '','' @ key ''node_tier'' @ quoted (es_node_tier s)
     @ '','' @ key ''attestation_mode'' @ quoted (es_attestation_mode s)
     @ '','' @ key ''tee_available'' @ bool_str (es_tee_available s)
     @ '','' @ key ''tier_governance_weight_bps'' @ dec_u (es_tier_governance_weight_bps s) @ ''}''"

definition upsert_miner :: "miner_operator \<Rightarrow> world \<Rightarrow> unit res \<times> world" where
  "upsert_miner o1 w =
     (case upsert_operator o1 (w_economy w) of (r, e) \<Rightarrow> (r, w\<lparr>w_economy := e\<rparr>))"


section \<open>Accruals\<close>

record accrue_receipt =
  ar_profit_sats :: u64
  ar_accrued_to_pool_sats :: u64
  ar_channels_sats :: u64
  ar_infra_sats :: u64
  ar_miner_pool_sats :: u64
  ar_channels_pool_sats :: u64
  ar_infra_pool_sats :: u64
  ar_p_reward_bps :: u32

definition split_payload :: "profit_split_accrual \<Rightarrow> profit_splits \<Rightarrow> string" where
  "split_payload a s =
     ''{'' @ key ''profit_sats'' @ dec_u (pa_profit_sats a)
     @ '','' @ key ''miners_sats'' @ dec_u (pa_miners_sats a)
     @ '','' @ key ''channels_sats'' @ dec_u (pa_channels_sats a)
     @ '','' @ key ''infra_sats'' @ dec_u (pa_infra_sats a)
     @ '','' @ key ''miners_bps'' @ dec_u (miners_bps s)
     @ '','' @ key ''channels_bps'' @ dec_u (channels_bps s)
     @ '','' @ key ''infra_bps'' @ dec_u (infra_bps s) @ ''}''"

definition accrue_miner_rewards ::
  "(string \<Rightarrow> string) \<Rightarrow> string \<Rightarrow> u64 \<Rightarrow> world \<Rightarrow> accrue_receipt res \<times> world" where
  "accrue_miner_rewards sha writer profit w =
     (let c = l_constitution (w_ledger w) in
      case accrue_profit_splits profit (c_splits c) (w_economy w) of
        (Inl er, e) \<Rightarrow> (Inl er, w\<lparr>w_economy := e\<rparr>)
      | (Inr a, e) \<Rightarrow>
          (case append_event sha (ep_number (l_epoch (w_ledger w))) EvProfitAllocated
                  (split_payload a (c_splits c)) writer (w_ledger w) of
             (Inl er, l) \<Rightarrow> (Inl er, \<lparr>w_ledger = l, w_economy = e\<rparr>)
           | (Inr _, l) \<Rightarrow>
               (Inr \<lparr>ar_profit_sats = profit, ar_accrued_to_pool_sats = pa_miners_sats a,
                     ar_channels_sats = pa_channels_sats a, ar_infra_sats = pa_infra_sats a,
                     ar_miner_pool_sats = miner_pool_sats e, ar_channels_pool_sats = channels_pool_sats e,
                     ar_infra_pool_sats = infra_pool_sats e, ar_p_reward_bps = p_reward_bps c\<rparr>,
                \<lparr>w_ledger = l, w_economy = e\<rparr>)))"

definition accrue_receipt_json :: "accrue_receipt \<Rightarrow> string" where
  "accrue_receipt_json r =
     ''{'' @ key ''profit_sats'' @ dec_u (ar_profit_sats r)
     @ '','' @ key ''accrued_to_pool_sats'' @ dec_u (ar_accrued_to_pool_sats r)
     @ '','' @ key ''channels_sats'' @ dec_u (ar_channels_sats r)
     @ '','' @ key ''infra_sats'' @ dec_u (ar_infra_sats r)
     @ '','' @ key ''miner_pool_sats'' @ dec_u (ar_miner_pool_sats r)
     @ '','' @ key ''channels_pool_sats'' @ dec_u (ar_channels_pool_sats r)
     @ '','' @ key ''infra_pool_sats'' @ dec_u (ar_infra_pool_sats r)
     @ '','' @ key ''p_reward_bps'' @ dec_u (ar_p_reward_bps r) @ ''}''"

text \<open>Backslash and quote escaped, nothing else.\<close>

definition escape_json :: "string \<Rightarrow> string" where
  "escape_json s = concat (map (\<lambda>c. if c = chr 92 then [chr 92, chr 92]
                                    else if c = chr 34 then [chr 92, chr 34] else [c]) s)"

definition credit_json :: "string \<times> u64 \<Rightarrow> string" where
  "credit_json c = ''{'' @ key ''node_id'' @ quoted (fst c) @ '','' @ key ''sats'' @ dec_u (snd c) @ ''}''"

definition governance_payload :: "gov_accrual \<Rightarrow> string \<Rightarrow> string" where
  "governance_payload a context =
     ''{'' @ key ''job'' @ quoted (gov_job_str (ga_job a))
     @ '','' @ key ''context'' @ quoted (escape_json context)
     @ '','' @ key ''bounty_sats'' @ dec_u (ga_bounty_sats a)
     @ '','' @ key ''accrued_to_pool_sats'' @ dec_u (accrued_to_pool_sats a)
     @ '','' @ key ''eligible_credited'' @ dec (eligible_credited a)
     @ '','' @ key ''participants'' @ ''['' @ join_with '','' (map quoted (participants a)) @ '']''
     @ '','' @ key ''credited'' @ ''['' @ join_with '','' (map credit_json (credited a)) @ '']}''"

definition accrue_governance_work ::
  "(string \<Rightarrow> string) \<Rightarrow> string \<Rightarrow> gov_reward_config \<Rightarrow> gov_job \<Rightarrow> string list \<Rightarrow> string \<Rightarrow> world
     \<Rightarrow> gov_accrual res \<times> world" where
  "accrue_governance_work sha writer cfg job parts context w =
     (if \<not> gov_reward_enabled cfg
      then (Inr \<lparr>ga_job = job, ga_bounty_sats = 0, accrued_to_pool_sats = 0, credited = [],
                 participants = parts, eligible_credited = 0\<rparr>, w)
      else case accrue_governance_job job parts cfg (w_economy w) of
        (a, e) \<Rightarrow>
          if accrued_to_pool_sats a = 0 \<and> ga_bounty_sats a = 0 then (Inr a, w\<lparr>w_economy := e\<rparr>)
          else
            case append_event sha (ep_number (l_epoch (w_ledger w))) EvGovernanceRewardAccrued
                   (governance_payload a context) writer (w_ledger w) of
              (Inl er, l) \<Rightarrow> (Inl er, \<lparr>w_ledger = l, w_economy = e\<rparr>)
            | (Inr _, l) \<Rightarrow> (Inr a, \<lparr>w_ledger = l, w_economy = e\<rparr>))"


section \<open>Payout proposals\<close>

record payout_proposal =
  pp_total_sats :: u64
  pp_shares :: "payout_share list"
  pp_intents :: "settlement_intent list"

definition payout_id :: "string \<Rightarrow> nat \<Rightarrow> string \<Rightarrow> string" where
  "payout_id pre i node = pre @ ''-'' @ dec i @ ''-'' @ node"

definition payout_intent ::
  "economy_state \<Rightarrow> string \<Rightarrow> string \<Rightarrow> nat \<times> payout_share \<Rightarrow> settlement_intent res" where
  "payout_intent e pre hash ish =
     (case ish of (i, s) \<Rightarrow>
        rbind (payout_to_intent s (payout_id pre i (ps_node_id s)) hash) (\<lambda>it.
        rbind (assert_bank_issued_miner_payout e it) (\<lambda>_. Inr it)))"

definition propose_miner_payouts ::
  "payout_cadence \<Rightarrow> u64 \<Rightarrow> u64 \<Rightarrow> string \<Rightarrow> world \<Rightarrow> payout_proposal res \<times> world" where
  "propose_miner_payouts cad now amount pre w =
     (let c = l_constitution (w_ledger w); e = w_economy w in
      case rbind (assert_payout_cadence_ok cad now None e) (\<lambda>_.
           rbind (propose_equal_payouts e amount) (\<lambda>shares.
           rbind (rmapM (payout_intent e pre (c_hash c)) (enumerate 0 shares)) (\<lambda>its.
             Inr (shares, its)))) of
        Inl er \<Rightarrow> (Inl er, w)
      | Inr (shares, its) \<Rightarrow>
          (case debit_pool amount e of
             (Inl er, e1) \<Rightarrow> (Inl er, w\<lparr>w_economy := e1\<rparr>)
           | (Inr _, e1) \<Rightarrow>
               (Inr \<lparr>pp_total_sats = amount, pp_shares = shares, pp_intents = its\<rparr>,
                w\<lparr>w_economy := record_miner_payout now None e1\<rparr>)))"

definition payout_intent_json :: "settlement_intent \<Rightarrow> string" where
  "payout_intent_json i =
     ''{'' @ key ''intent_id'' @ quoted (intent_id i) @ '','' @ key ''destination'' @ quoted (destination i)
     @ '','' @ key ''amount_sats'' @ dec_u (amount_sats i) @ ''}''"

definition payout_proposal_json :: "payout_proposal \<Rightarrow> string" where
  "payout_proposal_json p =
     ''{'' @ key ''total_sats'' @ dec_u (pp_total_sats p)
     @ '','' @ key ''intent_count'' @ dec (length (pp_intents p))
     @ '','' @ key ''intents'' @ ''['' @ join_with '','' (map payout_intent_json (pp_intents p)) @ '']}''"

definition operator_json :: "economy_state \<Rightarrow> miner_operator \<Rightarrow> string" where
  "operator_json e o1 =
     ''{'' @ key ''node_id'' @ quoted (op_node_id o1) @ '','' @ key ''waiting'' @ bool_str (waiting o1)
     @ '','' @ key ''eligible'' @ bool_str (is_eligible (ec_policy e) o1)
     @ '','' @ key ''uptime_bps_30d'' @ dec_u (uptime_bps_30d o1)
     @ '','' @ key ''streak'' @ dec_u (attestation_streak_days o1)
     @ '','' @ key ''governance_credits''
         @ dec_u (case bt_get (op_node_id o1) (governance_credits e) of Some v \<Rightarrow> v | None \<Rightarrow> 0) @ ''}''"

definition economy_snapshot_json :: "economy_state \<Rightarrow> string" where
  "economy_snapshot_json e =
     ''{'' @ key ''miner_pool_sats'' @ dec_u (miner_pool_sats e)
     @ '','' @ key ''channels_pool_sats'' @ dec_u (channels_pool_sats e)
     @ '','' @ key ''infra_pool_sats'' @ dec_u (infra_pool_sats e)
     @ '','' @ key ''pending_governance_reward_sats'' @ dec_u (pending_governance_reward_sats e)
     @ '','' @ key ''operators'' @ ''['' @ join_with '','' (map (operator_json e) (bt_vals (operators e))) @ '']''
     @ '','' @ key ''crypto_suite_id_pq'' @ quoted (crypto_suite_id_pq e) @ ''}''"

definition is_payout_epoch :: "payout_cadence \<Rightarrow> u64 \<Rightarrow> bool" where
  "is_payout_epoch f day =
     (case f of
        CadManual \<Rightarrow> False
      | CadDaily \<Rightarrow> True
      | CadWeekly \<Rightarrow> day mod 7 = 0
      | CadEpoch \<Rightarrow> False)"


section \<open>Lemmas\<close>

lemma intent_new_fields:
  "intent_new iid b d a ph = Inr i \<Longrightarrow>
     intent_id i = iid \<and> si_bucket i = b \<and> destination i = d \<and> amount_sats i = a \<and> policy_hash i = ph"
  by (auto dest: intent_new_ok)

lemma payout_intent_ok:
  "payout_intent e pre h (i, s) = Inr it \<Longrightarrow>
     intent_id it = payout_id pre i (ps_node_id s) \<and> si_bucket it = Miners
     \<and> destination it = ps_destination s \<and> amount_sats it = ps_amount_sats s \<and> policy_hash it = h
     \<and> (\<exists>o1 \<in> set (bt_vals (operators e)). is_eligible (ec_policy e) o1 \<and> payout_destination o1 = destination it)"
  by (auto simp: payout_intent_def payout_to_intent_def rbind_Inr_iff assert_bank_issued_miner_payout_def
      list_ex_iff dest: intent_new_fields split: if_splits)

lemma dash_not_digit [simp]: "CHR ''-'' \<notin> set (dec n)"
  by (auto dest!: dec_digits simp: is_ascii_digit_def code_def)

lemma payout_id_inj: "payout_id pre i a = payout_id pre j b \<Longrightarrow> i = j \<and> a = b"
  using sep_inj [of "dec i" "CHR ''-''" a "dec j" b] by (auto simp: payout_id_def)

lemma payout_intents_fields:
  "rmapM (payout_intent e pre h) (enumerate k shares) = Inr its \<Longrightarrow>
     map amount_sats its = map ps_amount_sats shares
     \<and> map destination its = map ps_destination shares
     \<and> map intent_id its = map (\<lambda>(i, s). payout_id pre i (ps_node_id s)) (enumerate k shares)
     \<and> (\<forall>it \<in> set its. si_bucket it = Miners \<and> policy_hash it = h)"
proof (induction shares arbitrary: k its)
  case (Cons s shares)
  then show ?case
    by (auto simp: rbind_Inr_iff dest!: payout_intent_ok)
qed simp

lemma payout_ids_distinct:
  "distinct (map (\<lambda>(i, s). payout_id pre i (ps_node_id s)) (enumerate k shares))"
proof -
  have "inj_on (\<lambda>(i, s). payout_id pre i (ps_node_id s)) (set (enumerate k shares))"
  proof (rule inj_onI)
    fix x y
    assume x: "x \<in> set (enumerate k shares)" and y: "y \<in> set (enumerate k shares)"
      and eq: "(\<lambda>(i, s). payout_id pre i (ps_node_id s)) x = (\<lambda>(i, s). payout_id pre i (ps_node_id s)) y"
    then have "fst x = fst y" by (auto simp: case_prod_beta dest: payout_id_inj)
    then show "x = y" using x y by (auto simp: in_set_enumerate_eq prod_eq_iff)
  qed
  then show ?thesis by (simp add: distinct_map distinct_enumerate)
qed

lemma propose_ok:
  assumes "propose_miner_payouts cad now amount pre w = (Inr p, w')"
  shows "assert_payout_cadence_ok cad now None (w_economy w) = Inr ()"
    and "propose_equal_payouts (w_economy w) amount = Inr (pp_shares p)"
    and "rmapM (payout_intent (w_economy w) pre (c_hash (l_constitution (w_ledger w)))) (enumerate 0 (pp_shares p))
          = Inr (pp_intents p)"
    and "w' = w\<lparr>w_economy := record_miner_payout now None (snd (debit_pool amount (w_economy w)))\<rparr>"
    and "\<not> amount > miner_pool_sats (w_economy w)"
  using assms
  by (auto simp: propose_miner_payouts_def debit_pool_def Let_def rbind_Inr_iff rbind_Inl_iff
      split: sum.splits prod.splits if_splits)

definition cadence_secs :: "payout_cadence \<Rightarrow> nat" where
  "cadence_secs cad = (case cad of CadDaily \<Rightarrow> 86400 | CadWeekly \<Rightarrow> 604800 | _ \<Rightarrow> 0)"

lemma cadence_refuses:
  assumes "last_miner_payout_at_secs e = Some t" and "unat now < unat t + cadence_secs cad"
    and "0 < cadence_secs cad"
  shows "\<exists>er. assert_payout_cadence_ok cad now cur e = Inl er"
proof -
  have "unat (sat_sub now t) < cadence_secs cad" using assms(2,3) by (simp add: sat_nat)
  then show ?thesis using assms(1,3)
    by (cases cad) (simp_all add: cadence_secs_def assert_payout_cadence_ok_def word_less_nat_alt)
qed

lemma record_miner_payout_fields [simp]:
  "miner_pool_sats (record_miner_payout t ep e) = miner_pool_sats e"
  "last_miner_payout_at_secs (record_miner_payout t ep e) = Some t"
  "operators (record_miner_payout t ep e) = operators e"
  by (simp_all add: record_miner_payout_def Let_def split: option.splits)

lemma debit_pool_operators [simp]: "operators (snd (debit_pool a e)) = operators e"
  by (simp add: debit_pool_def)

text \<open>The proposal of the source always passes \<open>None\<close> for the current epoch, which the epoch cadence
  refuses.\<close>

lemma epoch_cadence_never_pays:
  "propose_miner_payouts CadEpoch now amount pre w =
     (Inl (RequestRejected ''miner payout cadence epoch: current epoch required''), w)"
  by (simp add: propose_miner_payouts_def assert_payout_cadence_ok_def Let_def)


text \<open>A laboratory world: the genesis ledger and two eligible operators over a pool of eleven.\<close>

definition lab_world :: "ledger_state \<Rightarrow> world" where
  "lab_world l = \<lparr>w_ledger = l, w_economy = lab_economy\<rparr>"

lemma lab_shares:
  "propose_equal_payouts lab_economy 7 =
     Inr [\<lparr>ps_node_id = ''a'', ps_destination = ''tb1q-a'', ps_amount_sats = 4\<rparr>,
          \<lparr>ps_node_id = ''b'', ps_destination = ''tb1q-b'', ps_amount_sats = 3\<rparr>]"
  unfolding propose_equal_payouts_def lab_economy_eval
  by (simp add: lab_economy_def bt_vals_def Let_def equal_shares_def)

lemma lab_payout_intents:
  assumes "length h \<le> 128"
  shows "\<exists>its. rmapM (payout_intent lab_economy ''p'' h)
      (enumerate 0 [\<lparr>ps_node_id = ''a'', ps_destination = ''tb1q-a'', ps_amount_sats = 4\<rparr>,
          \<lparr>ps_node_id = ''b'', ps_destination = ''tb1q-b'', ps_amount_sats = 3\<rparr>]) = Inr its"
proof -
  have ids: "payout_id ''p'' 0 ''a'' = ''p-0-a''" "payout_id ''p'' (Suc 0) ''b'' = ''p-1-b''" by code_simp+
  have str: "trim ''p-0-a'' \<noteq> []" "trim ''p-1-b'' \<noteq> []" "trim ''tb1q-a'' \<noteq> []" "trim ''tb1q-b'' \<noteq> []"
    "\<not> intent_id_illegal ''p-0-a''" "\<not> intent_id_illegal ''p-1-b''"
    "\<not> str_contains ''..'' ''tb1q-a''" "\<not> str_contains ''..'' ''tb1q-b''"
    "CHR ''/'' \<notin> set ''tb1q-a''" "CHR ''/'' \<notin> set ''tb1q-b''" "chr 92 \<notin> set ''tb1q-a''" "chr 92 \<notin> set ''tb1q-b''"
    by code_simp+
  have el: "list_ex (\<lambda>o1. is_eligible (ec_policy lab_economy) o1 \<and> payout_destination o1 = d) (bt_vals (operators lab_economy))"
    if "d = ''tb1q-a'' \<or> d = ''tb1q-b''" for d
  proof -
    have "set (eligible_active lab_economy) = set (bt_vals (operators lab_economy))" by (simp add: lab_economy_eval)
    then have "\<forall>o1 \<in> set (bt_vals (operators lab_economy)). is_eligible (ec_policy lab_economy) o1"
      by (auto simp: eligible_active_def)
    moreover have "\<exists>o1 \<in> set (bt_vals (operators lab_economy)). payout_destination o1 = d"
      using that by (auto simp: lab_economy_def bt_vals_def Let_def)
    ultimately show ?thesis by (auto simp: list_ex_iff)
  qed
  show ?thesis using assms str
    by (simp add: payout_intent_def payout_to_intent_def ids intent_new_def
        assert_bank_issued_miner_payout_def el)
qed

lemma lab_payout:
  assumes "length (c_hash (l_constitution l)) \<le> 128"
  shows "\<exists>p w'. propose_miner_payouts CadDaily 5 7 ''p'' (lab_world l) = (Inr p, w')"
proof -
  obtain its where its: "rmapM (payout_intent lab_economy ''p'' (c_hash (l_constitution l)))
      (enumerate 0 [\<lparr>ps_node_id = ''a'', ps_destination = ''tb1q-a'', ps_amount_sats = 4\<rparr>,
          \<lparr>ps_node_id = ''b'', ps_destination = ''tb1q-b'', ps_amount_sats = 3\<rparr>]) = Inr its"
    using lab_payout_intents [OF assms] by blast
  have "last_miner_payout_at_secs lab_economy = None" "miner_pool_sats lab_economy = 11"
    by (simp_all add: lab_economy_def economy_new_open_def Let_def)
  then show ?thesis
    by (simp add: propose_miner_payouts_def lab_world_def assert_payout_cadence_ok_def lab_shares its
        debit_pool_def Let_def del: rmapM.simps enumerate_simps)
qed

lemma lab_ledger: "\<exists>c l. ledger_genesis zero_sha c lab_nodes ''v1'' = Inr l
    \<and> length (c_hash (l_constitution l)) \<le> 128 \<and> chain_ok zero_sha (entries l) \<and> entries l \<noteq> []
    \<and> active_set (l_epoch l) = lab_nodes"
proof -
  obtain c l where c: "v1_lab zero_sha 3 = Inr c" and l: "ledger_genesis zero_sha c lab_nodes ''v1'' = Inr l"
    using lab_genesis by blast
  note g = genesis_ok [OF l hex64_zero]
  have "l_constitution l = c" "active_set (l_epoch l) = lab_nodes" using g by auto
  moreover have "length (c_hash c) = 64" using v1_lab_fields [OF c] by (simp add: compute_hash_def zero_sha_def)
  ultimately show ?thesis using l g(1) by (intro exI [of _ c] exI [of _ l]) (simp add: gov_inv_def)
qed


section \<open>Properties\<close>

text \<open>C12: a payout proposal debits exactly what its intents pay: their amounts add up to the
  requested amount, which leaves the miner pool; there is one intent per eligible operator, at its
  registered destination, in the MINERS bucket and under the active constitution's hash; intent ids
  are pairwise distinct; and the ledger is untouched.\<close>

theorem payout_proposal_exact:
  assumes "propose_miner_payouts cad now amount pre w = (Inr p, w')"
    and "length (operators (w_economy w)) < 2 ^ 64"
  shows "(\<Sum>i \<leftarrow> pp_intents p. unat (amount_sats i)) = unat amount
    \<and> unat (miner_pool_sats (w_economy w')) + unat amount = unat (miner_pool_sats (w_economy w))
    \<and> map destination (pp_intents p) = map payout_destination (eligible_active (w_economy w))
    \<and> (\<forall>i \<in> set (pp_intents p). si_bucket i = Miners \<and> policy_hash i = c_hash (l_constitution (w_ledger w)))
    \<and> distinct (map intent_id (pp_intents p))
    \<and> w_ledger w' = w_ledger w"
proof -
  note ok = propose_ok [OF assms(1)]
  note sh = equal_payouts_facts [OF ok(2) assms(2)]
  note its = payout_intents_fields [OF ok(3)]
  have "(\<Sum>i \<leftarrow> pp_intents p. unat (amount_sats i)) = sum_list (map unat (map amount_sats (pp_intents p)))"
    by (simp add: o_def)
  also have "\<dots> = (\<Sum>s \<leftarrow> pp_shares p. unat (ps_amount_sats s))"
    unfolding conjunct1 [OF its] by (simp add: o_def)
  finally have "(\<Sum>i \<leftarrow> pp_intents p. unat (amount_sats i)) = unat amount" using sh by simp
  moreover have "map ps_destination (pp_shares p) = map payout_destination (eligible_active (w_economy w))"
    using arg_cong [where f = "map snd", OF conjunct1 [OF conjunct2 [OF conjunct2 [OF conjunct2 [OF sh]]]]]
    by (simp add: o_def)
  moreover have "unat (miner_pool_sats (w_economy w')) + unat amount = unat (miner_pool_sats (w_economy w))"
  proof -
    have le: "amount \<le> miner_pool_sats (w_economy w)" using ok(5) by simp
    then have "unat amount \<le> unat (miner_pool_sats (w_economy w))" by (simp add: word_le_nat_alt)
    then show ?thesis using ok(5) by (simp add: ok(4) debit_pool_def unat_sub [OF le])
  qed
  ultimately show ?thesis using its payout_ids_distinct by (simp add: ok(4))
qed

theorem payout_proposal_exact_witness:
  "\<exists>l p w'. propose_miner_payouts CadDaily 5 7 ''p'' (lab_world l) = (Inr p, w') \<and>
     (\<Sum>i \<leftarrow> pp_intents p. unat (amount_sats i)) = 7"
proof -
  obtain l :: ledger_state where "length (c_hash (l_constitution l)) \<le> 128" using lab_ledger by blast
  from lab_payout [OF this] obtain p w' where p: "propose_miner_payouts CadDaily 5 7 ''p'' (lab_world l) = (Inr p, w')"
    by blast
  have "length (operators (w_economy (lab_world l))) < 2 ^ 64" by (simp add: lab_world_def lab_economy_def Let_def)
  from payout_proposal_exact [OF p this] p show ?thesis by auto
qed

text \<open>The payout cadence holds: after a successful proposal, every proposal in the next day under
  the daily cadence, or in the next seven days under the weekly one, is refused and changes
  nothing.\<close>

theorem payout_cadence_enforced:
  assumes "propose_miner_payouts cad1 now1 amount1 pre1 w = (Inr p, w')"
    and "0 < cadence_secs cad2" and "unat now2 < unat now1 + cadence_secs cad2"
  shows "\<exists>er. propose_miner_payouts cad2 now2 amount2 pre2 w' = (Inl er, w')"
proof -
  have "last_miner_payout_at_secs (w_economy w') = Some now1" by (simp add: propose_ok(4) [OF assms(1)])
  then obtain er where "assert_payout_cadence_ok cad2 now2 None (w_economy w') = Inl er"
    using cadence_refuses [OF _ assms(3,2)] by blast
  then show ?thesis by (simp add: propose_miner_payouts_def Let_def)
qed

theorem payout_cadence_enforced_witness:
  "\<exists>l p w' er. propose_miner_payouts CadDaily 5 7 ''p'' (lab_world l) = (Inr p, w') \<and>
     propose_miner_payouts CadWeekly 604804 1 ''q'' w' = (Inl er, w')"
proof -
  obtain l :: ledger_state where "length (c_hash (l_constitution l)) \<le> 128" using lab_ledger by blast
  from lab_payout [OF this] obtain p w' where p: "propose_miner_payouts CadDaily 5 7 ''p'' (lab_world l) = (Inr p, w')"
    by blast
  then show ?thesis
    using payout_cadence_enforced [OF p, of CadWeekly 604804 1 "''q''"] by (auto simp: cadence_secs_def)
qed

text \<open>An accrual credits the economy before it is recorded: when the writer is not in the active
  set, both accrual use cases report the refusal of the ledger and leave the ledger as it was, but
  the credited pools stay credited, so that a retry credits them again.\<close>

theorem accrual_survives_refusal:
  assumes "chain_ok sha (entries (w_ledger w))" and "entries (w_ledger w) \<noteq> []"
    and "writer \<notin> set (active_set (l_epoch (w_ledger w)))" and "hex64 sha"
  shows "(bounty_sats cfg (miner_pool_sats (w_economy w)) \<noteq> 0 \<longrightarrow>
        accrue_governance_work sha writer cfg job parts ctx w =
          (Inl (UnauthorizedWriter writer),
           w\<lparr>w_economy := snd (accrue_governance_job job parts cfg (w_economy w))\<rparr>)
        \<and> miner_pool_sats (snd (accrue_governance_job job parts cfg (w_economy w))) =
            sat_add (miner_pool_sats (w_economy w)) (bounty_sats cfg (miner_pool_sats (w_economy w))))
    \<and> (splits_validate (c_splits (l_constitution (w_ledger w))) = Inr () \<longrightarrow>
        accrue_miner_rewards sha writer profit w =
          (Inl (UnauthorizedWriter writer),
           w\<lparr>w_economy := snd (accrue_profit_splits profit (c_splits (l_constitution (w_ledger w))) (w_economy w))\<rparr>)
        \<and> accrued_profit_sats (w_economy (snd (accrue_miner_rewards sha writer profit w))) =
            sat_add (accrued_profit_sats (w_economy w)) profit)"
proof -
  have app: "append_event sha ep k payload writer (w_ledger w) = (Inl (UnauthorizedWriter writer), w_ledger w)"
    for ep k payload
    using append_event_cases [OF assms(4,1,2)] assms(3) by simp
  have en: "gov_reward_enabled cfg" if "bounty_sats cfg (miner_pool_sats (w_economy w)) \<noteq> 0"
  proof (rule ccontr)
    assume "\<not> gov_reward_enabled cfg"
    then have "reward_sats cfg = 0" "reward_bps_of_pool cfg = 0"
      by (auto simp: gov_reward_enabled_def word_gt_0)
    then have "bounty_sats cfg (miner_pool_sats (w_economy w)) = 0" by (simp add: bounty_sats_def sat_mul_def Let_def)
    then show False using that by simp
  qed
  have "accrue_governance_work sha writer cfg job parts ctx w =
      (Inl (UnauthorizedWriter writer), w\<lparr>w_economy := snd (accrue_governance_job job parts cfg (w_economy w))\<rparr>)"
    if "bounty_sats cfg (miner_pool_sats (w_economy w)) \<noteq> 0"
    using that en [OF that] by (simp add: accrue_governance_work_def accrue_governance_job_def app Let_def)
  moreover have "accrue_miner_rewards sha writer profit w =
      (Inl (UnauthorizedWriter writer),
       w\<lparr>w_economy := snd (accrue_profit_splits profit (c_splits (l_constitution (w_ledger w))) (w_economy w))\<rparr>)"
    if "splits_validate (c_splits (l_constitution (w_ledger w))) = Inr ()"
    using that by (simp add: accrue_miner_rewards_def accrue_profit_splits_def app Let_def split: prod.splits)
  moreover have "accrued_profit_sats (snd (accrue_profit_splits profit s (w_economy w))) =
      sat_add (accrued_profit_sats (w_economy w)) profit" if "splits_validate s = Inr ()" for s
    using that by (simp add: accrue_profit_splits_def split: prod.splits)
  ultimately show ?thesis by (simp add: accrue_governance_job_def Let_def)
qed

theorem accrual_survives_refusal_witness:
  "\<exists>l er. fst (accrue_governance_work zero_sha ''stranger'' \<lparr>reward_sats = 5, reward_bps_of_pool = 0\<rparr>
       JobDayAdvanced [] [] (lab_world l)) = Inl er
     \<and> miner_pool_sats (w_economy (snd (accrue_governance_work zero_sha ''stranger''
          \<lparr>reward_sats = 5, reward_bps_of_pool = 0\<rparr> JobDayAdvanced [] [] (lab_world l)))) = 16"
proof -
  obtain l :: ledger_state where l: "chain_ok zero_sha (entries l)" "entries l \<noteq> []" "active_set (l_epoch l) = lab_nodes"
    using lab_ledger by blast
  have pool: "miner_pool_sats lab_economy = 11" by (simp add: lab_economy_def Let_def)
  have b: "bounty_sats \<lparr>reward_sats = 5, reward_bps_of_pool = 0\<rparr> (11 :: u64) = 5"
    by (simp add: bounty_sats_def sat_mul_def Let_def)
  have s: "sat_add (11 :: u64) 5 = 16" by (simp add: sat_add_def)
  show ?thesis
    using accrual_survives_refusal [of zero_sha "lab_world l" "''stranger''"
        "\<lparr>reward_sats = 5, reward_bps_of_pool = 0\<rparr>" JobDayAdvanced "[]" "[]"] l
    by (intro exI [of _ l]) (simp add: lab_world_def hex64_zero pool b s lab_nodes_def)
qed

end
