(* ===== verification/IntentGate.thy ===== *)
theory IntentGate
  imports PersistedLedger EconomyOps
begin

text \<open>
  The intent gate (\<open>vault-core/src/application/intent_ops.rs\<close>): it evaluates a settlement intent
  against the active constitution and the bucket policy inside the ledger's critical section, and
  either reserves or consumes it.  The ledger behind the trait \<open>BucketLedgerPort\<close> is a record of
  operations; the three adapters of the source give three such records.  Address parsing is the
  parameter \<open>is_addr\<close>.
\<close>

section \<open>The ledger port\<close>

record 's bucket_port =
  bp_reserve :: "string \<Rightarrow> bucket_kind \<Rightarrow> u64 \<Rightarrow> validator \<Rightarrow> 's \<Rightarrow> unit res \<times> 's"
  bp_authorize :: "string \<Rightarrow> bucket_kind \<Rightarrow> u64 \<Rightarrow> validator \<Rightarrow> 's \<Rightarrow> unit res \<times> 's"
  bp_commit :: "string \<Rightarrow> 's \<Rightarrow> unit res \<times> 's"
  bp_release :: "string \<Rightarrow> bucket_kind \<Rightarrow> u64 \<Rightarrow> 's \<Rightarrow> unit res \<times> 's"

definition memory_port :: "nat \<Rightarrow> bucket_state bucket_port" where
  "memory_port now =
     \<lparr>bp_reserve = reserve_spend now, bp_authorize = authorize_spend_and_consume now,
      bp_commit = commit_consume now, bp_release = release_reservation\<rparr>"

definition durable_port :: "nat \<Rightarrow> io_result \<Rightarrow> persisted bucket_port" where
  "durable_port now io =
     \<lparr>bp_reserve = p_reserve_spend now, bp_authorize = p_authorize io,
      bp_commit = p_commit_consume now io, bp_release = p_release_reservation\<rparr>"

text \<open>The adapter the server wires in: a quorum of \<open>t\<close>, with what the peers answer to the soft and
  to the durable prepare of this call.\<close>

definition quorum_port ::
  "nat \<Rightarrow> nat \<Rightarrow> io_result \<Rightarrow> bool list res \<Rightarrow> bool list res \<Rightarrow> persisted bucket_port" where
  "quorum_port now t io soft acks =
     \<lparr>bp_reserve = q_reserve_spend now t soft, bp_authorize = q_authorize now t io soft acks,
      bp_commit = q_commit_consume t io acks, bp_release = p_release_reservation\<rparr>"


section \<open>The gate\<close>

datatype gate_phase = PhReserve | PhConsume

record gate_receipt =
  gr_intent_id :: string
  gr_bucket :: bucket_kind
  gr_amount_sats :: u64
  gr_status :: string

text \<open>The policy the intent is evaluated against: with an open miner economy, the destinations of the
  eligible operators are admitted on top of the allowlist.\<close>

definition admit_operator :: "reward_policy \<Rightarrow> bucket_policy \<Rightarrow> miner_operator \<Rightarrow> bucket_policy" where
  "admit_operator pol q o1 =
     (if is_eligible pol o1
      then q\<lparr>destination_allowlist := bs_insert (payout_destination o1) (destination_allowlist q)\<rparr>
      else q)"

definition open_policy :: "economy_state option \<Rightarrow> bucket_policy \<Rightarrow> bucket_policy" where
  "open_policy eco p =
     (case eco of None \<Rightarrow> p | Some e \<Rightarrow> foldl (admit_operator (ec_policy e)) p (bt_vals (operators e)))"

definition gate_validator ::
  "(string \<Rightarrow> bool) \<Rightarrow> settlement_intent \<Rightarrow> economy_state option \<Rightarrow> string \<Rightarrow> validator" where
  "gate_validator is_addr i eco h p spent = evaluate_intent is_addr i (open_policy eco p) spent h"

definition miners_open :: "constitution \<Rightarrow> settlement_intent \<Rightarrow> bool" where
  "miners_open c i = (miners_bps (c_splits c) > 0 \<and> si_bucket i = Miners)"

definition gate_economy ::
  "constitution \<Rightarrow> economy_state \<Rightarrow> settlement_intent \<Rightarrow> economy_state option res" where
  "gate_economy c e i =
     (if miners_open c i
      then rbind (assert_bank_issued_miner_payout e i) (\<lambda>_. Inr (Some e))
      else Inr None)"

definition gate_run ::
  "(string \<Rightarrow> bool) \<Rightarrow> 's bucket_port \<Rightarrow> world \<Rightarrow> gate_phase \<Rightarrow> settlement_intent \<Rightarrow> 's
     \<Rightarrow> gate_receipt res \<times> 's" where
  "gate_run is_addr port w ph i s =
     (let c = l_constitution (w_ledger w) in
      case gate_economy c (w_economy w) i of
        Inl er \<Rightarrow> (Inl er, s)
      | Inr eco \<Rightarrow>
          (let v = gate_validator is_addr i eco (c_hash c);
               receipt = (\<lambda>st. \<lparr>gr_intent_id = intent_id i, gr_bucket = si_bucket i,
                                gr_amount_sats = amount_sats i, gr_status = st\<rparr>) in
           case ph of
             PhReserve \<Rightarrow>
               (case bp_reserve port (intent_id i) (si_bucket i) (amount_sats i) v s of
                  (Inl er, s1) \<Rightarrow> (Inl er, s1)
                | (Inr _, s1) \<Rightarrow> (Inr (receipt ''RESERVED''), s1))
           | PhConsume \<Rightarrow>
               (case bp_authorize port (intent_id i) (si_bucket i) (amount_sats i) v s of
                  (Inl er, s1) \<Rightarrow> (Inl er, s1)
                | (Inr _, s1) \<Rightarrow> (Inr (receipt ''ACCEPTED''), s1))))"

definition gate_commit :: "'s bucket_port \<Rightarrow> string \<Rightarrow> 's \<Rightarrow> unit res \<times> 's" where
  "gate_commit port i s = bp_commit port i s"

definition gate_release :: "'s bucket_port \<Rightarrow> string \<Rightarrow> bucket_kind \<Rightarrow> u64 \<Rightarrow> 's \<Rightarrow> unit res \<times> 's" where
  "gate_release port i k a s = bp_release port i k a s"

definition gate_receipt_json :: "gate_receipt \<Rightarrow> string" where
  "gate_receipt_json r =
     ''{'' @ key ''intent_id'' @ quoted (gr_intent_id r) @ '','' @ key ''bucket'' @ quoted (bucket_str (gr_bucket r))
     @ '','' @ key ''amount_sats'' @ dec_u (gr_amount_sats r) @ '','' @ key ''status'' @ quoted (gr_status r) @ ''}''"

record profit_allocation =
  al_profit_sats :: u64
  al_miners_sats :: u64
  al_channels_sats :: u64
  al_infra_sats :: u64
  al_dry_run_miners :: bool

definition allocate_profit :: "ledger_state \<Rightarrow> u64 \<Rightarrow> profit_allocation" where
  "allocate_profit l profit =
     (let s = c_splits (l_constitution l) in
      case splits_allocate s profit of
        (m, ch, infra) \<Rightarrow>
          \<lparr>al_profit_sats = profit, al_miners_sats = m, al_channels_sats = ch, al_infra_sats = infra,
           al_dry_run_miners = (miners_bps s = 0)\<rparr>)"

definition profit_allocation_json :: "profit_allocation \<Rightarrow> string" where
  "profit_allocation_json a =
     ''{'' @ key ''profit_sats'' @ dec_u (al_profit_sats a) @ '','' @ key ''miners_sats'' @ dec_u (al_miners_sats a)
     @ '','' @ key ''channels_sats'' @ dec_u (al_channels_sats a)
     @ '','' @ key ''infra_sats'' @ dec_u (al_infra_sats a)
     @ '','' @ key ''dry_run_miners'' @ bool_str (al_dry_run_miners a) @ ''}''"


section \<open>What the gate needs of a ledger\<close>

text \<open>A ledger port that never grants a spend its validator has not accepted: \<open>view\<close> is the policy and
  the spend it shows the validator, \<open>burned\<close> the ids consumed.\<close>

locale checked_port =
  fixes port :: "'s bucket_port"
    and view :: "bucket_kind \<Rightarrow> 's \<Rightarrow> (bucket_policy \<times> u64) option"
    and burnt :: "'s \<Rightarrow> string set"
  assumes reserve_checked:
      "bp_reserve port i k a v s = (Inr u, s') \<Longrightarrow> \<exists>p sp. view k s = Some (p, sp) \<and> v p sp = Inr ()"
    and authorize_checked:
      "bp_authorize port i k a v s = (Inr u, s') \<Longrightarrow>
         (\<exists>p sp. view k s = Some (p, sp) \<and> v p sp = Inr ()) \<and> i \<notin> burnt s \<and> i \<in> burnt s'"
begin

lemma gate_checks:
  assumes "gate_run is_addr port w ph i s = (Inr r, s')"
  shows "\<exists>eco p sp. gate_economy (l_constitution (w_ledger w)) (w_economy w) i = Inr eco
      \<and> view (si_bucket i) s = Some (p, sp)
      \<and> evaluate_intent is_addr i (open_policy eco p) sp (c_hash (l_constitution (w_ledger w))) = Inr ()"
    and "gr_intent_id r = intent_id i \<and> gr_bucket r = si_bucket i \<and> gr_amount_sats r = amount_sats i
      \<and> gr_status r = (case ph of PhReserve \<Rightarrow> ''RESERVED'' | PhConsume \<Rightarrow> ''ACCEPTED'')"
    and "ph = PhConsume \<Longrightarrow> intent_id i \<notin> burnt s \<and> intent_id i \<in> burnt s'"
proof -
  let ?c = "l_constitution (w_ledger w)"
  obtain eco where eco: "gate_economy ?c (w_economy w) i = Inr eco"
    using assms by (cases "gate_economy ?c (w_economy w) i") (auto simp: gate_run_def Let_def)
  let ?v = "gate_validator is_addr i eco (c_hash ?c)"
  let ?op = "case ph of PhReserve \<Rightarrow> bp_reserve port | PhConsume \<Rightarrow> bp_authorize port"
  have op: "\<exists>u. ?op (intent_id i) (si_bucket i) (amount_sats i) ?v s = (Inr u, s')"
    and r: "gr_intent_id r = intent_id i \<and> gr_bucket r = si_bucket i \<and> gr_amount_sats r = amount_sats i
      \<and> gr_status r = (case ph of PhReserve \<Rightarrow> ''RESERVED'' | PhConsume \<Rightarrow> ''ACCEPTED'')"
    using assms by (auto simp: gate_run_def eco Let_def split: gate_phase.splits prod.splits sum.splits)
  have "\<exists>p sp. view (si_bucket i) s = Some (p, sp) \<and> ?v p sp = Inr ()"
    using op reserve_checked authorize_checked by (cases ph) fastforce+
  then show "\<exists>eco p sp. gate_economy ?c (w_economy w) i = Inr eco \<and> view (si_bucket i) s = Some (p, sp)
      \<and> evaluate_intent is_addr i (open_policy eco p) sp (c_hash ?c) = Inr ()"
    using eco by (auto simp: gate_validator_def)
  show "gr_intent_id r = intent_id i \<and> gr_bucket r = si_bucket i \<and> gr_amount_sats r = amount_sats i
      \<and> gr_status r = (case ph of PhReserve \<Rightarrow> ''RESERVED'' | PhConsume \<Rightarrow> ''ACCEPTED'')" by (rule r)
  show "intent_id i \<notin> burnt s \<and> intent_id i \<in> burnt s'" if "ph = PhConsume"
    using op authorize_checked that by fastforce
qed

end

text \<open>What the quorum ledger shows the validator: the policy, and the spend after expired reservations
  are swept.\<close>

definition swept_view :: "nat \<Rightarrow> bucket_kind \<Rightarrow> persisted \<Rightarrow> (bucket_policy \<times> u64) option" where
  "swept_view now k p =
     (let g = sweep_expired now (pl_mem p) in
      case policies g k of None \<Rightarrow> None | Some pol \<Rightarrow> Some (pol, spent_of k g))"

lemma q_reserve_ok:
  assumes "q_reserve_spend now t soft i k a v p = (Inr u, p')"
  shows "(\<exists>pol sp. swept_view now k p = Some (pol, sp) \<and> v pol sp = Inr ())"
    and "i \<notin> consumed (pl_mem p)" "consumed (pl_mem p') = consumed (pl_mem p)"
  using assms
  by (auto simp: q_reserve_spend_def swept_view_def policy_of_def Let_def verdict_res_def p_release_reservation_def on_mem_def
      split: if_splits option.splits sum.splits verdict.splits)

lemma q_commit_ok:
  assumes "q_commit_consume t io acks i p = (Inr u, p')" and "i \<notin> consumed (pl_mem p)"
  shows "i \<in> consumed (pl_mem p')"
proof -
  have "claim_consume t io acks i p = (Inr u, p')"
    using assms by (simp add: q_commit_consume_def is_consumed_def)
  then have "\<exists>b. p_prepare_consume io i p = (Inr b, p')"
    by (auto simp: claim_consume_def split: prod.splits sum.splits bool.splits)
  then show ?thesis using p_prepare_consume_spec [of io i p] by (auto simp: burned_def split: if_splits sum.splits)
qed

interpretation quorum: checked_port "quorum_port now t io soft acks" "swept_view now" burned
  for now t io soft acks
proof unfold_locales
  fix i k a v s u s'
  assume "bp_reserve (quorum_port now t io soft acks) i k a v s = (Inr u, s')"
  then show "\<exists>p sp. swept_view now k s = Some (p, sp) \<and> v p sp = Inr ()"
    by (auto simp: quorum_port_def dest: q_reserve_ok(1))
next
  fix i k a v s u s'
  assume "bp_authorize (quorum_port now t io soft acks) i k a v s = (Inr u, s')"
  then obtain w1 s1 w2 where r: "q_reserve_spend now t soft i k a v s = (Inr w1, s1)"
    and c: "q_commit_consume t io acks i s1 = (Inr w2, s')"
    by (auto simp: quorum_port_def q_authorize_def split: prod.splits sum.splits)
  show "(\<exists>p sp. swept_view now k s = Some (p, sp) \<and> v p sp = Inr ()) \<and> i \<notin> burned s \<and> i \<in> burned s'"
    using q_reserve_ok [OF r] q_commit_ok [OF c] by (simp add: burned_def)
qed


section \<open>Properties\<close>

lemma admit_fold:
  "bp_kind (foldl (admit_operator pol) q os) = bp_kind q"
  "max_per_tx_sats (foldl (admit_operator pol) q os) = max_per_tx_sats q"
  "max_per_day_sats (foldl (admit_operator pol) q os) = max_per_day_sats q"
  "set (destination_allowlist (foldl (admit_operator pol) q os)) =
     set (destination_allowlist q) \<union> {payout_destination o1 |o1. o1 \<in> set os \<and> is_eligible pol o1}"
  by (induction os arbitrary: q) (auto simp: admit_operator_def)

lemma open_policy_fields [simp]:
  "bp_kind (open_policy eco p) = bp_kind p"
  "max_per_tx_sats (open_policy eco p) = max_per_tx_sats p"
  "max_per_day_sats (open_policy eco p) = max_per_day_sats p"
  by (simp_all add: open_policy_def admit_fold split: option.splits)

lemma open_policy_allowlist:
  "set (destination_allowlist (open_policy eco p)) =
     set (destination_allowlist p) \<union>
     (case eco of None \<Rightarrow> {}
      | Some e \<Rightarrow> {payout_destination o1 |o1. o1 \<in> set (bt_vals (operators e)) \<and> is_eligible (ec_policy e) o1})"
  by (simp add: open_policy_def admit_fold split: option.splits)

lemma gate_economy_cases:
  assumes "gate_economy c e i = Inr eco"
  shows "eco = (if miners_open c i then Some e else None)"
    and "miners_open c i \<Longrightarrow> \<exists>o1 \<in> set (eligible_active e). payout_destination o1 = destination i"
  using assms
  by (auto simp: gate_economy_def rbind_Inr_iff assert_bank_issued_miner_payout_def miners_open_def
      list_ex_iff eligible_active_def split: if_splits)

lemma gate_lawful:
  assumes "gate_run is_addr (quorum_port now t io soft acks) w ph i p = (Inr r, p')"
  shows "(\<exists>pol sp. swept_view now (si_bucket i) p = Some (pol, sp)
      \<and> bp_kind pol = si_bucket i \<and> policy_hash i = c_hash (l_constitution (w_ledger w))
      \<and> 0 < unat (amount_sats i) \<and> unat (amount_sats i) \<le> unat (max_per_tx_sats pol)
      \<and> (unat sp + unat (amount_sats i) \<le> unat (max_per_day_sats pol) \<or> unat (max_per_day_sats pol) = 2 ^ 64 - 1)
      \<and> (if miners_open (l_constitution (w_ledger w)) i
         then (\<exists>o1 \<in> set (eligible_active (w_economy w)). payout_destination o1 = destination i)
         else destination i \<in> set (destination_allowlist pol) \<or> si_bucket i = Channels \<and> is_addr (destination i)))
    \<and> gr_intent_id r = intent_id i \<and> gr_bucket r = si_bucket i \<and> gr_amount_sats r = amount_sats i
    \<and> (ph = PhConsume \<longrightarrow> intent_id i \<notin> burned p \<and> intent_id i \<in> burned p')"
proof -
  let ?c = "l_constitution (w_ledger w)"
  note g = quorum.gate_checks [OF assms]
  obtain eco pol sp where eco: "gate_economy ?c (w_economy w) i = Inr eco"
    and view: "swept_view now (si_bucket i) p = Some (pol, sp)"
    and ok: "evaluate_intent is_addr i (open_policy eco pol) sp (c_hash ?c) = Inr ()" using g(1) by blast
  note acc = ok [unfolded evaluate_intent_ok open_policy_fields open_policy_allowlist]
  have "if miners_open ?c i then (\<exists>o1 \<in> set (eligible_active (w_economy w)). payout_destination o1 = destination i)
      else destination i \<in> set (destination_allowlist pol) \<or> si_bucket i = Channels \<and> is_addr (destination i)"
    using acc gate_economy_cases [OF eco] by auto
  then show ?thesis using acc view g(2,3) by blast
qed

text \<open>C13: whatever the gate grants on the wired (quorum) ledger, by reserve or by consume, is lawful:
  the intent carries the active constitution's hash and the bucket of the policy it was checked
  against, its amount is positive and within the per-transaction cap, the day's spend and the amount
  stay within the daily cap, and its destination is allowlisted, or a Bitcoin address for CHANNELS;
  with an open miner economy a MINERS intent pays a registered eligible operator.  The receipt
  repeats the intent, and a consume burns an id that was not burned before.\<close>

theorem gate_grants_lawful:
  assumes "gate_run is_addr (quorum_port now t io soft acks) w ph i p = (Inr r, p')"
  shows "(\<exists>pol sp. swept_view now (si_bucket i) p = Some (pol, sp)
      \<and> bp_kind pol = si_bucket i \<and> policy_hash i = c_hash (l_constitution (w_ledger w))
      \<and> 0 < unat (amount_sats i) \<and> unat (amount_sats i) \<le> unat (max_per_tx_sats pol)
      \<and> (unat sp + unat (amount_sats i) \<le> unat (max_per_day_sats pol) \<or> unat (max_per_day_sats pol) = 2 ^ 64 - 1)
      \<and> (if miners_open (l_constitution (w_ledger w)) i
         then (\<exists>o1 \<in> set (eligible_active (w_economy w)). payout_destination o1 = destination i)
         else destination i \<in> set (destination_allowlist pol) \<or> si_bucket i = Channels \<and> is_addr (destination i)))
    \<and> gr_intent_id r = intent_id i \<and> gr_bucket r = si_bucket i \<and> gr_amount_sats r = amount_sats i
    \<and> (ph = PhConsume \<longrightarrow> intent_id i \<notin> burned p \<and> intent_id i \<in> burned p')"
  using assms by (rule gate_lawful)

text \<open>A laboratory gate: one node, no peers, an intent within the caps.\<close>

definition lab_gate_intent :: "string \<Rightarrow> settlement_intent" where
  "lab_gate_intent h = (lab_intent ''i1'' 60)\<lparr>policy_hash := h\<rparr>"

definition lab_store :: "bucket_state \<Rightarrow> persisted" where
  "lab_store g = \<lparr>pl_log = [], pl_mem = g\<rparr>"

lemma lab_gate_ok:
  "evaluate_intent f (lab_gate_intent h) (policy_lab_defaults Users 100 100) 0 h = Inr ()"
  by (simp add: evaluate_intent_def lab_gate_intent_def lab_intent_def policy_lab_defaults_def
      allows_destination_def may_debit_users_def)

lemma lab_policy: "policies (from_constitution_caps 100 100) Users = Some (policy_lab_defaults Users 100 100)"
  by (simp add: initial_policy caps_for_def max_def)

lemma lab_sweep: "sweep_expired now (from_constitution_caps 100 100) = from_constitution_caps 100 100"
  by (simp add: sweep_expired_def from_constitution_caps_def)

lemma lab_gate_reserve:
  "\<exists>r p'. gate_run f (quorum_port 0 1 IoOk (Inr []) (Inr [])) (lab_world l) PhReserve
     (lab_gate_intent (c_hash (l_constitution l))) (lab_store (from_constitution_caps 100 100)) = (Inr r, p')"
proof -
  have i: "si_bucket (lab_gate_intent h) = Users" "intent_id (lab_gate_intent h) = ''i1''"
    "amount_sats (lab_gate_intent h) = 60" for h
    by (simp_all add: lab_gate_intent_def lab_intent_def)
  have "spent_of Users (from_constitution_caps 100 100) = 0"
    "consumed (from_constitution_caps 100 100) = {}" "reserved (from_constitution_caps 100 100) = []"
    by (simp_all add: from_constitution_caps_def spent_of_def)
  then show ?thesis
    by (simp add: gate_run_def gate_economy_def miners_open_def i lab_world_def quorum_port_def
        q_reserve_spend_def lab_store_def lab_sweep policy_of_def lab_policy gate_validator_def
        open_policy_def lab_gate_ok claim_verdict_def Let_def)
qed

theorem gate_grants_lawful_witness:
  "\<exists>l i p r p'. gate_run (\<lambda>_. False) (quorum_port 0 1 IoOk (Inr []) (Inr [])) (lab_world l) PhReserve i p = (Inr r, p')
     \<and> gr_amount_sats r = 60 \<and> 0 < unat (amount_sats i)"
proof -
  obtain l :: ledger_state where "l = l" by simp
  obtain r p' where r: "gate_run (\<lambda>_. False) (quorum_port 0 1 IoOk (Inr []) (Inr [])) (lab_world l) PhReserve
     (lab_gate_intent (c_hash (l_constitution l))) (lab_store (from_constitution_caps 100 100)) = (Inr r, p')"
    using lab_gate_reserve by blast
  have "amount_sats (lab_gate_intent (c_hash (l_constitution l))) = 60"
    by (simp add: lab_gate_intent_def lab_intent_def)
  then show ?thesis using gate_grants_lawful [OF r] r
    by (intro exI [of _ l] exI [of _ "lab_gate_intent (c_hash (l_constitution l))"]
        exI [of _ "lab_store (from_constitution_caps 100 100)"] exI [of _ r] exI [of _ p']) simp
qed

text \<open>On the in-memory and on the single-node durable ledger a reservation is idempotent by id,
  bucket and amount alone: while it is live, a second intent with the same id, bucket and amount is
  answered RESERVED whatever its destination and policy hash, without being evaluated.\<close>

theorem reserve_retry_unchecked:
  assumes "bt_get (intent_id i) (reserved (sweep_expired now g)) = Some (si_bucket i, amount_sats i, e)"
    and "intent_id i \<notin> consumed g" and "si_bucket i \<noteq> Miners"
  shows "gate_run is_addr (memory_port now) w PhReserve (i\<lparr>destination := d, policy_hash := h\<rparr>) g
      = (Inr \<lparr>gr_intent_id = intent_id i, gr_bucket = si_bucket i, gr_amount_sats = amount_sats i,
              gr_status = ''RESERVED''\<rparr>, sweep_expired now g)
    \<and> gate_run is_addr (durable_port now io) w PhReserve (i\<lparr>destination := d, policy_hash := h\<rparr>)
        \<lparr>pl_log = log, pl_mem = g\<rparr>
      = (Inr \<lparr>gr_intent_id = intent_id i, gr_bucket = si_bucket i, gr_amount_sats = amount_sats i,
              gr_status = ''RESERVED''\<rparr>, \<lparr>pl_log = log, pl_mem = sweep_expired now g\<rparr>)"
  using assms
  by (simp add: gate_run_def gate_economy_def miners_open_def memory_port_def durable_port_def
      reserve_spend_def p_reserve_spend_def on_mem_def Let_def)

theorem reserve_retry_unchecked_witness:
  "\<forall>l. fst (gate_run (\<lambda>_. False) (memory_port 1) (lab_world l) PhReserve
      ((lab_intent ''i1'' 60)\<lparr>destination := ''stranger'', policy_hash := ''ph''\<rparr>)
      (late_state 60 {} [(''i1'', Users, 60, 300)]))
    = Inr \<lparr>gr_intent_id = ''i1'', gr_bucket = Users, gr_amount_sats = 60, gr_status = ''RESERVED''\<rparr>
   \<and> evaluate_intent (\<lambda>_. False) ((lab_intent ''i1'' 60)\<lparr>destination := ''stranger'', policy_hash := ''ph''\<rparr>)
       (policy_lab_defaults Users 100 100) 0 ''ph'' = Inl (DestinationNotAllowed ''stranger'')"
proof (intro allI conjI)
  fix l
  let ?g = "late_state 60 {} [(''i1'', Users, 60, 300)]"
  have s: "sweep_expired 1 ?g = ?g" by (simp add: sweep_expired_def late_state_def)
  have i: "intent_id (lab_intent ''i1'' 60) = ''i1''" "si_bucket (lab_intent ''i1'' 60) = Users"
    "amount_sats (lab_intent ''i1'' 60) = 60" by (simp_all add: lab_intent_def)
  have "bt_get ''i1'' (reserved (sweep_expired 1 ?g)) = Some (Users, 60, 300)" "''i1'' \<notin> consumed ?g"
    unfolding s by (simp_all add: late_state_def)
  then show "fst (gate_run (\<lambda>_. False) (memory_port 1) (lab_world l) PhReserve
      ((lab_intent ''i1'' 60)\<lparr>destination := ''stranger'', policy_hash := ''ph''\<rparr>) ?g)
    = Inr \<lparr>gr_intent_id = ''i1'', gr_bucket = Users, gr_amount_sats = 60, gr_status = ''RESERVED''\<rparr>"
    using reserve_retry_unchecked [of "lab_intent ''i1'' 60" 1 ?g 300, unfolded i] by auto
qed (simp add: lab_intent_def evaluate_intent_def policy_lab_defaults_def allows_destination_def may_debit_users_def)

lemma late_q_reserve:
  "q_reserve_spend 0 1 (Inr []) ''i1'' Users 60 (lab_validator ''i1'' 60) (lab_store (from_constitution_caps 100 100))
     = (Inr (), lab_store (late_state 60 {} [(''i1'', Users, 60, 300)]))"
proof -
  have "spent_of Users (from_constitution_caps 100 100) = 0"
    "consumed (from_constitution_caps 100 100) = {}" "reserved (from_constitution_caps 100 100) = []"
    by (simp_all add: from_constitution_caps_def spent_of_def)
  moreover have "put_reservation ''i1'' Users 60 300 (add_spend Users 60 (from_constitution_caps 100 100))
      = late_state 60 {} [(''i1'', Users, 60, 300)]"
    by (simp add: late_state_def from_constitution_caps_def put_reservation_def add_spend_def spent_of_def)
  ultimately show ?thesis
    by (simp add: q_reserve_spend_def lab_store_def lab_sweep policy_of_def lab_policy late_validator
        claim_verdict_def Let_def)
qed

lemma late_q_reserve2:
  "q_reserve_spend 301 1 (Inr []) ''i2'' Users 60 (lab_validator ''i2'' 60)
     (lab_store (late_state 60 {} [(''i1'', Users, 60, 300)]))
     = (Inr (), lab_store (late_state 60 {} [(''i2'', Users, 60, 601)]))"
proof -
  have "put_reservation ''i2'' Users 60 601 (add_spend Users 60 (late_state 0 {} []))
      = late_state 60 {} [(''i2'', Users, 60, 601)]"
    by (simp add: late_state_def put_reservation_def add_spend_def spent_of_def)
  moreover have "spent_of Users (late_state 0 {} []) = 0" "consumed (late_state 0 {} []) = {}"
    "reserved (late_state 0 {} []) = []"
    by (simp_all add: late_state_def spent_of_def)
  ultimately show ?thesis
    by (simp add: q_reserve_spend_def lab_store_def late_expire policy_of_def late_policy late_validator
        claim_verdict_def Let_def)
qed

lemma late_q_commit:
  assumes "i \<notin> c"
  shows "q_commit_consume 1 IoOk (Inr []) i \<lparr>pl_log = log, pl_mem = late_state v c r\<rparr>
     = (Inr (), \<lparr>pl_log = log @ i @ [newline], pl_mem = late_state v (insert i c) (bt_remove i r)\<rparr>)"
  using assms
  by (simp add: q_commit_consume_def is_consumed_def claim_consume_def p_prepare_consume_def
      append_consumed_def append_line_def verdict_res_def claim_verdict_def late_state_def burn_def
      drop_reservation_def Let_def)

text \<open>The wired ledger commits an intent without asking for its reservation, so a commit that
  comes after the reservation expired and was swept burns the intent without counting it as spent:
  two intents of 60 are reserved and committed on the same day under a daily cap of 100, which the
  ledger still counts as 60.\<close>

theorem late_commit_breaks_cap:
  "\<exists>p1 p2 p3 p4.
     q_reserve_spend 0 1 (Inr []) ''i1'' Users 60 (lab_validator ''i1'' 60) (persisted_open [] 100 100) = (Inr (), p1)
   \<and> q_reserve_spend 301 1 (Inr []) ''i2'' Users 60 (lab_validator ''i2'' 60) p1 = (Inr (), p2)
   \<and> q_commit_consume 1 IoOk (Inr []) ''i1'' p2 = (Inr (), p3)
   \<and> q_commit_consume 1 IoOk (Inr []) ''i2'' p3 = (Inr (), p4)
   \<and> burned p4 = {''i1'', ''i2''} \<and> spent_of Users (pl_mem p4) = 60
   \<and> policies (pl_mem p4) Users = Some (policy_lab_defaults Users 100 100)"
proof -
  have "load_consumed_ids [] = {}" by (simp add: load_consumed_ids_def log_lines_def)
  then have "persisted_open [] 100 100 = lab_store (from_constitution_caps 100 100)"
    by (simp add: persisted_open_def lab_store_def from_constitution_caps_def)
  moreover have "spent_of Users (late_state v c r) = v" "consumed (late_state v c r) = c" for v c r
    by (simp_all add: late_state_def spent_of_def)
  moreover note late_q_reserve late_q_reserve2
    late_q_commit [of "''i1''" "{}" "[]" 60 "[(''i2'', Users, 60, 601)]"]
    late_q_commit [of "''i2''" "{''i1''}" "''i1'' @ [newline]" 60 "[(''i2'', Users, 60, 601)]"]
  ultimately show ?thesis by (auto simp: lab_store_def burned_def late_policy)
qed

end
