(* ===== verification/Psbt.thy ===== *)
theory Psbt
  imports Errors
begin

text \<open>
  Destinations and transactions: the network policy of \<open>domain/bitcoin_net.rs\<close>, the fee, locktime
  and replacement policy of \<open>domain/psbt_policy.rs\<close> and the output binding of
  \<open>domain/intent_bind.rs\<close>.  A transaction is what the code reads of the \<open>bitcoin\<close> crate's
  \<open>Psbt\<close>: one record per input and the list of outputs; a script is its bytes.  Address parsing
  is the parameter \<open>addr\<close>: for a network and a text, nothing if the text is no address, else
  whether it fits the network, with its script.
\<close>

section \<open>Networks and destinations\<close>

datatype bitcoin_network = Testnet3 | Mainnet

definition network_parse :: "string \<Rightarrow> bitcoin_network option" where
  "network_parse raw =
     (let s = ascii_lower (trim raw) in
      if s = ''testnet3'' \<or> s = ''testnet'' \<or> s = ''test'' then Some Testnet3
      else if s = ''mainnet'' \<or> s = ''bitcoin'' \<or> s = ''main'' then Some Mainnet
      else None)"

fun network_str :: "bitcoin_network \<Rightarrow> string" where
  "network_str Testnet3 = ''testnet3''"
| "network_str Mainnet = ''mainnet''"

type_synonym script = string
type_synonym address_reader = "bitcoin_network \<Rightarrow> string \<Rightarrow> script option option"

definition not_valid_for :: "bitcoin_network \<Rightarrow> domain_error" where
  "not_valid_for n = BitcoinNetworkMismatch (''address not valid for '' @ network_str n)"

definition validate_destination :: "address_reader \<Rightarrow> bitcoin_network \<Rightarrow> string \<Rightarrow> unit res" where
  "validate_destination addr n d =
     (let dest = trim d in
      if dest = [] then Inl (InvalidIntent ''empty destination'')
      else if n = Testnet3 \<and> (prefix ''bc1'' dest \<or> prefix ''BC1'' dest)
        then Inl (BitcoinNetworkMismatch ''mainnet bc1 address rejected on BITCOIN_NETWORK=testnet3'')
      else case addr n dest of
        Some (Some spk) \<Rightarrow> Inr ()
      | Some None \<Rightarrow> Inl (not_valid_for n)
      | None \<Rightarrow> Inr ())"

definition destination_script_pubkey :: "address_reader \<Rightarrow> bitcoin_network \<Rightarrow> string \<Rightarrow> script res" where
  "destination_script_pubkey addr n d =
     rbind (validate_destination addr n d) (\<lambda>_.
       let dest = trim d in
       case addr n dest of
         None \<Rightarrow> Inl (InvalidIntent
           ''PSBT Intent bind requires a Bitcoin address destination (opaque lab tags cannot bind outputs)'')
       | Some None \<Rightarrow> Inl (not_valid_for n)
       | Some (Some spk) \<Rightarrow> Inr spk)"


section \<open>Transactions\<close>

record txout =
  to_script :: script
  to_value :: u64

record psbt_input =
  witness_utxo :: "txout option"
  prev_outputs :: "txout list option"
  prev_vout :: nat
  in_sequence :: u32
  tap_key_sig :: "string option"

record psbt =
  ps_inputs :: "psbt_input list"
  ps_outputs :: "txout list"
  ps_lock_time :: u32
  ps_weight_wu :: u64

datatype rbf_policy = RbfAllow | RbfRequire | RbfForbid

definition rbf_parse :: "string \<Rightarrow> rbf_policy option" where
  "rbf_parse raw =
     (let s = ascii_lower (trim raw) in
      if s = ''allow'' \<or> s = ''any'' then Some RbfAllow
      else if s = ''require'' \<or> s = ''rbf'' then Some RbfRequire
      else if s = ''forbid'' \<or> s = ''final'' \<or> s = ''no_rbf'' then Some RbfForbid
      else None)"

fun rbf_str :: "rbf_policy \<Rightarrow> string" where
  "rbf_str RbfAllow = ''allow''"
| "rbf_str RbfRequire = ''require''"
| "rbf_str RbfForbid = ''forbid''"

record psbt_policy =
  max_fee_sats :: u64
  max_fee_rate_sat_vb :: u64
  max_locktime :: u32
  rbf :: rbf_policy

definition psbt_lab_defaults :: psbt_policy where
  "psbt_lab_defaults = \<lparr>max_fee_sats = 50000, max_fee_rate_sat_vb = 250, max_locktime = 0, rbf = RbfAllow\<rparr>"

definition is_rbf_signal :: "u32 \<Rightarrow> bool" where
  "is_rbf_signal s = (s < 0xfffffffe)"


section \<open>Fee, locktime and replacement\<close>

definition input_value :: "nat \<Rightarrow> psbt_input \<Rightarrow> u64 res" where
  "input_value i inp =
     (case witness_utxo inp of
        Some u \<Rightarrow> Inr (to_value u)
      | None \<Rightarrow>
          (case prev_outputs inp of
             Some outs \<Rightarrow>
               if prev_vout inp < length outs then Inr (to_value (outs ! prev_vout inp))
               else Inl (InvalidIntent (''psbt input '' @ dec i @ '' missing prevout value''))
           | None \<Rightarrow> Inl (InvalidIntent (''psbt input '' @ dec i @ '' missing witness_utxo for fee policy''))))"

fun sum_inputs :: "nat \<Rightarrow> u64 \<Rightarrow> psbt_input list \<Rightarrow> u64 res" where
  "sum_inputs i acc [] = Inr acc"
| "sum_inputs i acc (inp # inps) =
     rbind (input_value i inp) (\<lambda>v. sum_inputs (i + 1) (sat_add acc v) inps)"

text \<open>\<open>Iterator::sum\<close> on \<open>u64\<close> wraps in a release build.\<close>

definition sum_outputs :: "txout list \<Rightarrow> u64" where
  "sum_outputs outs = sum_list (map to_value outs)"

definition vbytes :: "u64 \<Rightarrow> u64" where
  "vbytes w = max (w div 4 + (if w mod 4 = 0 then 0 else 1)) 1"

fun check_rbf :: "rbf_policy \<Rightarrow> nat \<Rightarrow> psbt_input list \<Rightarrow> unit res" where
  "check_rbf p i [] = Inr ()"
| "check_rbf p i (inp # inps) =
     (if p = RbfRequire \<and> \<not> is_rbf_signal (in_sequence inp)
      then Inl (InvalidIntent (''psbt input '' @ dec i @ '' must signal RBF (policy=require)''))
      else if p = RbfForbid \<and> is_rbf_signal (in_sequence inp)
      then Inl (InvalidIntent (''psbt input '' @ dec i @ '' RBF signalling forbidden''))
      else check_rbf p (i + 1) inps)"

definition psbt_policy_validate :: "psbt_policy \<Rightarrow> psbt \<Rightarrow> unit res" where
  "psbt_policy_validate pol t =
     rbind (sum_inputs 0 0 (ps_inputs t)) (\<lambda>in_sats.
       let out_sats = sum_outputs (ps_outputs t) in
       if out_sats > in_sats then Inl (InvalidIntent ''psbt outputs exceed inputs'')
       else let fee = in_sats - out_sats in
       if fee > max_fee_sats pol
       then Inl (InvalidIntent (''psbt fee '' @ dec_u fee @ '' sats exceeds max_fee_sats '' @ dec_u (max_fee_sats pol)))
       else let fee_rate = fee div vbytes (ps_weight_wu t) in
       if fee_rate > max_fee_rate_sat_vb pol
       then Inl (InvalidIntent (''psbt fee rate ~'' @ dec_u fee_rate @ '' sat/vB exceeds max ''
              @ dec_u (max_fee_rate_sat_vb pol)))
       else let raw = ps_lock_time t in
       if raw \<noteq> 0 \<and> max_locktime pol = 0
       then Inl (InvalidIntent (''psbt locktime '' @ dec_u raw @ '' refused (policy requires LockTime::ZERO)''))
       else if raw \<noteq> 0 \<and> raw > max_locktime pol
       then Inl (InvalidIntent (''psbt locktime '' @ dec_u raw @ '' exceeds max '' @ dec_u (max_locktime pol)))
       else check_rbf (rbf pol) 0 (ps_inputs t))"


section \<open>Output binding\<close>

fun bind_outputs :: "script \<Rightarrow> u64 \<Rightarrow> script option \<Rightarrow> bool \<Rightarrow> (script \<times> u64) list \<Rightarrow> bool res" where
  "bind_outputs pay amt change matched [] = Inr matched"
| "bind_outputs pay amt change matched ((spk, v) # outs) =
     (if spk = pay
      then if v \<noteq> amt
           then Inl (InvalidIntent (''PSBT payment output amount '' @ dec_u v @ '' != Intent amount_sats '' @ dec_u amt))
           else if matched then Inl (InvalidIntent ''PSBT has multiple outputs to Intent destination'')
           else bind_outputs pay amt change True outs
      else case change of
        Some ch \<Rightarrow>
          if spk = ch then bind_outputs pay amt change matched outs
          else Inl (InvalidIntent
            ''PSBT change output is not mesh Taproot deposit key (non-tr / unbound change escape)'')
      | None \<Rightarrow> Inl (InvalidIntent
            ''PSBT has non-payment output but no mesh change script configured (unbound spend)''))"

definition assert_outputs_match_intent ::
  "(script \<times> u64) list \<Rightarrow> script \<Rightarrow> u64 \<Rightarrow> script option \<Rightarrow> unit res" where
  "assert_outputs_match_intent outs pay amt change =
     (if outs = [] then Inl (InvalidIntent ''PSBT has no outputs to bind to Intent'')
      else if amt = 0 then Inl (InvalidIntent ''Intent amount_sats must be > 0 for PSBT bind'')
      else rbind (bind_outputs pay amt change False outs) (\<lambda>matched.
        if \<not> matched
        then Inl (InvalidIntent ''PSBT missing output matching Intent destination and amount_sats'')
        else Inr ()))"

definition output_pairs :: "psbt \<Rightarrow> (script \<times> u64) list" where
  "output_pairs t = map (\<lambda>o1. (to_script o1, to_value o1)) (ps_outputs t)"

definition validate_independent :: "psbt_policy \<Rightarrow> psbt \<Rightarrow> script \<Rightarrow> u64 \<Rightarrow> script option \<Rightarrow> unit res" where
  "validate_independent pol t pay amt change =
     rbind (psbt_policy_validate pol t) (\<lambda>_. assert_outputs_match_intent (output_pairs t) pay amt change)"


section \<open>Hybrid intent signatures\<close>

record intent_signature =
  ed25519_signature :: "u8 list"
  ml_dsa65_signature :: "u8 list"
  ed25519_key_id :: string
  ml_dsa_key_id :: string
  canonical_hash :: "u8 list"

text \<open>The two fixed arrays have 64 and 48 bytes.\<close>

definition validate_stub :: "intent_signature \<Rightarrow> bool \<Rightarrow> unit res" where
  "validate_stub s require_pq =
     (if ed25519_signature s = replicate 64 0 then Inl (AuthRejected ''ed25519 signature is all-zero'')
      else if canonical_hash s = replicate 48 0 then Inl (AuthRejected ''canonical hash is all-zero'')
      else if require_pq \<and> ml_dsa65_signature s = []
      then Inl (AuthRejected ''ml-dsa-65 signature required by downgrade policy but missing'')
      else Inr ())"


section \<open>Lemmas\<close>

definition known_value :: "psbt_input \<Rightarrow> nat" where
  "known_value inp = (case input_value 0 inp of Inr v \<Rightarrow> unat v | Inl _ \<Rightarrow> 0)"

lemma input_value_known: "input_value i inp = Inr v \<Longrightarrow> known_value inp = unat v"
  by (auto simp: known_value_def input_value_def split: option.splits if_splits)

lemma sum_inputs_value:
  "sum_inputs i acc inps = Inr v \<Longrightarrow> unat acc + sum_list (map known_value inps) < 2 ^ 64 \<Longrightarrow>
     unat v = unat acc + sum_list (map known_value inps)"
proof (induction inps arbitrary: i acc)
  case (Cons inp inps)
  from Cons.prems(1) obtain w where w: "input_value i inp = Inr w" and r: "sum_inputs (i + 1) (sat_add acc w) inps = Inr v"
    by (auto simp: rbind_Inr_iff)
  have k: "known_value inp = unat w" using input_value_known [OF w] .
  have "unat acc + unat w < 2 ^ 64" using Cons.prems(2) k by simp
  then have "unat (sat_add acc w) = unat acc + unat w" by (simp add: sat_nat)
  then show ?case using Cons.IH [OF r] Cons.prems(2) k by simp
qed simp

lemma sum_outputs_value:
  "sum_list (map (\<lambda>o1. unat (to_value o1)) outs) < 2 ^ 64 \<Longrightarrow>
     unat (sum_outputs outs) = sum_list (map (\<lambda>o1. unat (to_value o1)) outs)"
  by (induction outs) (auto simp: sum_outputs_def unat_word_ariths)

lemma bind_outputs_ok:
  assumes "bind_outputs pay amt (Some ch) matched outs = Inr m" "pay \<noteq> ch"
  shows "(\<forall>(spk, v) \<in> set outs. spk = pay \<and> v = amt \<or> spk = ch)
    \<and> length (filter (\<lambda>(spk, v). spk = pay) outs) = (if m \<and> \<not> matched then 1 else 0) \<and> (matched \<longrightarrow> m)"
  using assms
proof (induction outs arbitrary: matched)
  case (Cons o1 outs)
  obtain spk v where o1: "o1 = (spk, v)" by (cases o1)
  show ?case
  proof (cases "spk = pay")
    case True
    then have "v = amt" "\<not> matched" "bind_outputs pay amt (Some ch) True outs = Inr m"
      using Cons.prems o1 by (auto split: if_splits)
    then show ?thesis using Cons.IH [of True] Cons.prems(2) o1 True by simp
  next
    case False
    then have "spk = ch" "bind_outputs pay amt (Some ch) matched outs = Inr m"
      using Cons.prems o1 by (auto split: if_splits)
    then show ?thesis using Cons.IH [of matched] Cons.prems(2) o1 False by simp
  qed
qed simp

lemma split_outputs:
  assumes "\<forall>(spk, v) \<in> set outs. spk = pay \<and> v = amt \<or> spk = ch" "pay \<noteq> ch"
  shows "(\<Sum>(spk, v) \<leftarrow> outs. unat (v :: u64)) =
     length (filter (\<lambda>(spk, v). spk = pay) outs) * unat amt + (\<Sum>(spk, v) \<leftarrow> filter (\<lambda>(spk, v). spk = ch) outs. unat v)"
  using assms by (induction outs) auto

lemma psbt_policy_ok:
  assumes "psbt_policy_validate pol t = Inr ()"
  obtains ins where "sum_inputs 0 0 (ps_inputs t) = Inr ins" "sum_outputs (ps_outputs t) \<le> ins"
    "ins - sum_outputs (ps_outputs t) \<le> max_fee_sats pol"
    "(ins - sum_outputs (ps_outputs t)) div vbytes (ps_weight_wu t) \<le> max_fee_rate_sat_vb pol"
    "ps_lock_time t \<le> max_locktime pol"
    "check_rbf (rbf pol) 0 (ps_inputs t) = Inr ()"
  using assms
  by (auto simp: psbt_policy_validate_def rbind_Inr_iff Let_def not_less split: if_splits)


section \<open>Properties\<close>

text \<open>C14: a transaction the independent validation accepts moves exactly the intent: if the values of
  its inputs and of its outputs fit 64 bits, the inputs equal the intent's amount plus what goes
  back to the mesh's change script plus a fee within the cap; exactly one output pays the intent's
  destination, with the intent's positive amount, and every other output is change.\<close>

theorem psbt_accept_conserves:
  assumes "validate_independent pol t pay amt (Some change) = Inr ()" and "pay \<noteq> change"
    and "sum_list (map known_value (ps_inputs t)) < 2 ^ 64"
    and "sum_list (map (\<lambda>o1. unat (to_value o1)) (ps_outputs t)) < 2 ^ 64"
  shows "\<exists>fee. sum_list (map known_value (ps_inputs t)) =
        unat amt + (\<Sum>(spk, v) \<leftarrow> filter (\<lambda>(spk, v). spk = change) (output_pairs t). unat v) + fee
      \<and> fee \<le> unat (max_fee_sats pol)
      \<and> 0 < unat amt
      \<and> length (filter (\<lambda>(spk, v). spk = pay) (output_pairs t)) = 1
      \<and> set (output_pairs t) \<subseteq> insert (pay, amt) {(change, v) |v. True}
      \<and> ps_lock_time t \<le> max_locktime pol"
proof -
  have pol: "psbt_policy_validate pol t = Inr ()"
    and bind: "assert_outputs_match_intent (output_pairs t) pay amt (Some change) = Inr ()"
    using assms(1) by (auto simp: validate_independent_def rbind_Inr_iff)
  obtain ins where ins: "sum_inputs 0 0 (ps_inputs t) = Inr ins" "sum_outputs (ps_outputs t) \<le> ins"
      "ins - sum_outputs (ps_outputs t) \<le> max_fee_sats pol" "ps_lock_time t \<le> max_locktime pol"
    by (rule psbt_policy_ok [OF pol])
  have m: "bind_outputs pay amt (Some change) False (output_pairs t) = Inr True" and amt: "amt \<noteq> 0"
    using bind by (auto simp: assert_outputs_match_intent_def rbind_Inr_iff split: if_splits)
  note b = bind_outputs_ok [OF m assms(2)]
  have "unat ins = sum_list (map known_value (ps_inputs t))"
    using sum_inputs_value [OF ins(1)] assms(3) by simp
  moreover have outs: "unat (sum_outputs (ps_outputs t)) = (\<Sum>(spk, v) \<leftarrow> output_pairs t. unat v)"
    using sum_outputs_value [OF assms(4)] by (simp add: output_pairs_def o_def)
  moreover have "(\<Sum>(spk, v) \<leftarrow> output_pairs t. unat v) =
      unat amt + (\<Sum>(spk, v) \<leftarrow> filter (\<lambda>(spk, v). spk = change) (output_pairs t). unat v)"
    using split_outputs [OF conjunct1 [OF b] assms(2)] b by simp
  moreover have "unat ins = unat (sum_outputs (ps_outputs t)) + unat (ins - sum_outputs (ps_outputs t))"
    using ins(2) by (simp add: unat_sub word_le_nat_alt)
  ultimately have "sum_list (map known_value (ps_inputs t)) =
      unat amt + (\<Sum>(spk, v) \<leftarrow> filter (\<lambda>(spk, v). spk = change) (output_pairs t). unat v)
      + unat (ins - sum_outputs (ps_outputs t))" by simp
  moreover have "unat (ins - sum_outputs (ps_outputs t)) \<le> unat (max_fee_sats pol)"
    using ins(3) by (simp add: word_le_nat_alt)
  moreover have "set (output_pairs t) \<subseteq> insert (pay, amt) {(change, v) |v. True}" using b by auto
  ultimately show ?thesis using b amt ins(4) by (intro exI [of _ "unat (ins - sum_outputs (ps_outputs t))"]) (simp add: unat_gt_0)
qed

definition lab_psbt :: psbt where
  "lab_psbt = \<lparr>ps_inputs = [\<lparr>witness_utxo = Some \<lparr>to_script = ''mesh'', to_value = 1000\<rparr>, prev_outputs = None,
       prev_vout = 0, in_sequence = 0, tap_key_sig = None\<rparr>],
     ps_outputs = [\<lparr>to_script = ''pay'', to_value = 600\<rparr>, \<lparr>to_script = ''mesh'', to_value = 300\<rparr>],
     ps_lock_time = 0, ps_weight_wu = 400\<rparr>"

lemma lab_psbt_ok: "validate_independent psbt_lab_defaults lab_psbt ''pay'' 600 (Some ''mesh'') = Inr ()"
  by (simp add: validate_independent_def psbt_policy_validate_def lab_psbt_def psbt_lab_defaults_def
      input_value_def sum_outputs_def vbytes_def sat_add_def output_pairs_def assert_outputs_match_intent_def Let_def)

theorem psbt_accept_conserves_witness:
  "\<exists>fee. sum_list (map known_value (ps_inputs lab_psbt)) = 600
     + (\<Sum>(spk, v) \<leftarrow> filter (\<lambda>(spk, v). spk = ''mesh'') (output_pairs lab_psbt). unat v) + fee \<and> fee \<le> 50000"
proof -
  have "sum_list (map known_value (ps_inputs lab_psbt)) = 1000"
    "sum_list (map (\<lambda>o1. unat (to_value o1)) (ps_outputs lab_psbt)) = 900"
    by (simp_all add: lab_psbt_def known_value_def input_value_def)
  then show ?thesis
    using psbt_accept_conserves [OF lab_psbt_ok] by (simp add: psbt_lab_defaults_def) blast
qed

end
