(* ===== verification/Rotation.thy ===== *)
theory Rotation
  imports DayEpoch Durable Economy
begin

text \<open>
  Daily rotation (\<open>vault-core/src/adapters/daily_rotation.rs\<close>): the ledger day, the vote map, the
  quorum-gated advance with its reshare hook, and the two files they persist to
  (\<open>adapters/durable_fs.rs\<close>).  Days compare as text.  The clock reading, the answers of the peers
  and the result of the reshare hook are arguments; the outcomes of the coming file writes are a
  list that each write consumes.  The vote map is kept in key order, where the code's \<open>HashMap\<close>
  iterates in no fixed order.
\<close>

section \<open>Files\<close>

record day_disk =
  dd_epoch :: "string option"
  dd_votes :: "string btmap option"
  dd_outcomes :: "write_outcome list"

definition next_outcome :: "day_disk \<Rightarrow> write_outcome \<times> day_disk" where
  "next_outcome d =
     (case dd_outcomes d of
        [] \<Rightarrow> (WriteOk, d)
      | w # ws \<Rightarrow> (w, d\<lparr>dd_outcomes := ws\<rparr>))"

definition persist_day_epoch :: "string \<Rightarrow> day_disk \<Rightarrow> unit res \<times> day_disk" where
  "persist_day_epoch e d =
     (case next_outcome d of
        (WriteOk, d1) \<Rightarrow> (Inr (), d1\<lparr>dd_epoch := Some (e @ [newline])\<rparr>)
      | (WriteFailed m, d1) \<Rightarrow> (Inl (ThresholdError (''day_epoch persist: '' @ m)), d1)
      | (WriteUnsynced m, d1) \<Rightarrow>
          (Inl (ThresholdError (''day_epoch persist: '' @ m)), d1\<lparr>dd_epoch := Some (e @ [newline])\<rparr>))"

definition persist_day_votes :: "string btmap \<Rightarrow> day_disk \<Rightarrow> unit res \<times> day_disk" where
  "persist_day_votes vs d =
     (case next_outcome d of
        (WriteOk, d1) \<Rightarrow> (Inr (), d1\<lparr>dd_votes := Some vs\<rparr>)
      | (WriteFailed m, d1) \<Rightarrow> (Inl (ThresholdError (''day votes persist: '' @ m)), d1)
      | (WriteUnsynced m, d1) \<Rightarrow>
          (Inl (ThresholdError (''day votes persist: '' @ m)), d1\<lparr>dd_votes := Some vs\<rparr>))"

definition load_day_epoch :: "day_disk \<Rightarrow> string option" where
  "load_day_epoch d =
     (case dd_epoch d of
        None \<Rightarrow> None
      | Some raw \<Rightarrow> (case day_epoch_parse (trim raw) of Inr e \<Rightarrow> Some e | Inl _ \<Rightarrow> None))"

text \<open>The JSON object of the file is kept as the map it denotes; entries that are no day are dropped.\<close>

definition load_day_votes :: "day_disk \<Rightarrow> string btmap option" where
  "load_day_votes d =
     (case dd_votes d of
        None \<Rightarrow> None
      | Some m \<Rightarrow> Some (filter (\<lambda>(v, e). is_ok (day_epoch_parse e)) m))"


section \<open>State\<close>

record rotation =
  ro_current :: string
  ro_votes :: "string btmap"
  ro_quorum :: nat
  ro_voter :: string
  ro_disk :: "day_disk option"

definition rotation_open :: "u64 \<Rightarrow> nat \<Rightarrow> string \<Rightarrow> day_disk option \<Rightarrow> rotation" where
  "rotation_open now t voter disk =
     (let from_clock = day_epoch_from_unix_secs now;
          current = (case disk of
                       Some d \<Rightarrow> (case load_day_epoch d of Some e \<Rightarrow> e | None \<Rightarrow> from_clock)
                     | None \<Rightarrow> from_clock);
          vs = (case disk of
                  Some d \<Rightarrow> (case load_day_votes d of Some m \<Rightarrow> m | None \<Rightarrow> [])
                | None \<Rightarrow> [])
      in \<lparr>ro_current = current, ro_votes = vs, ro_quorum = max t 1, ro_voter = voter, ro_disk = disk\<rparr>)"

definition day_count :: "string \<Rightarrow> string btmap \<Rightarrow> nat" where
  "day_count target m = length (filter (\<lambda>e. e = target) (bt_vals m))"

definition vote_count_for :: "string \<Rightarrow> rotation \<Rightarrow> nat" where
  "vote_count_for target r = day_count target (ro_votes r)"

definition persist_votes_only :: "rotation \<Rightarrow> unit res \<times> rotation" where
  "persist_votes_only r =
     (case ro_disk r of
        None \<Rightarrow> (Inr (), r)
      | Some d \<Rightarrow> (case persist_day_votes (ro_votes r) d of (x, d1) \<Rightarrow> (x, r\<lparr>ro_disk := Some d1\<rparr>)))"

definition write_persist :: "string \<Rightarrow> rotation \<Rightarrow> unit res \<times> rotation" where
  "write_persist e r =
     (case ro_disk r of
        None \<Rightarrow> (Inr (), r)
      | Some d \<Rightarrow>
          (case persist_day_epoch e d of
             (Inl er, d1) \<Rightarrow> (Inl er, r\<lparr>ro_disk := Some d1\<rparr>)
           | (Inr _, d1) \<Rightarrow>
               (case persist_day_votes (ro_votes r) d1 of (x, d2) \<Rightarrow> (x, r\<lparr>ro_disk := Some d2\<rparr>))))"


section \<open>Operations\<close>

definition current_day_epoch :: "u64 \<Rightarrow> rotation \<Rightarrow> string res" where
  "current_day_epoch now r =
     (let live = day_epoch_from_unix_secs now in
      if live > ro_current r then Inl (DayEpochStale (ro_current r) live) else Inr (ro_current r))"

definition record_vote :: "string \<Rightarrow> string \<Rightarrow> rotation \<Rightarrow> unit res \<times> rotation" where
  "record_vote voter target r = persist_votes_only (r\<lparr>ro_votes := bt_put voter target (ro_votes r)\<rparr>)"

fun record_votes :: "(string \<times> string) list \<Rightarrow> rotation \<Rightarrow> unit res \<times> rotation" where
  "record_votes [] r = (Inr (), r)"
| "record_votes ((v, e) # vs) r =
     (case record_vote v e r of
        (Inl er, r1) \<Rightarrow> (Inl er, r1)
      | (Inr _, r1) \<Rightarrow> record_votes vs r1)"

text \<open>The voters of a day that are node ids.\<close>

definition day_participants :: "string \<Rightarrow> string btmap \<Rightarrow> string list" where
  "day_participants live m =
     concat (map (\<lambda>(v, e). if e = live then (case node_id_new v of Inr i \<Rightarrow> [i] | Inl _ \<Rightarrow> []) else []) m)"

definition advance_day ::
  "u64 \<Rightarrow> (string \<times> string) list res \<Rightarrow> (string \<Rightarrow> string \<Rightarrow> string list \<Rightarrow> unit res) \<Rightarrow> rotation
     \<Rightarrow> string res \<times> rotation" where
  "advance_day now peers hook r0 =
     (let live = day_epoch_from_unix_secs now in
      case record_vote (ro_voter r0) live r0 of
        (Inl er, r1) \<Rightarrow> (Inl er, r1)
      | (Inr _, r1) \<Rightarrow>
      (case peers of
        Inl er \<Rightarrow> (Inl er, r1)
      | Inr pvs \<Rightarrow>
      (case record_votes pvs r1 of
        (Inl er, r2) \<Rightarrow> (Inl er, r2)
      | (Inr _, r2) \<Rightarrow>
          (let have1 = vote_count_for live r2; from = ro_current r2 in
           if have1 < ro_quorum r2 then (Inl (QuorumNotMet have1 (ro_quorum r2)), r2)
           else if live = from
             then (case write_persist live r2 of
                     (Inl er, r3) \<Rightarrow> (Inl er, r3)
                   | (Inr _, r3) \<Rightarrow> (Inr live, r3))
           else if live < from then (Inl (DayEpochStale live from), r2)
           else
             (case write_persist live (r2\<lparr>ro_current := live\<rparr>) of
                (Inl er, r3) \<Rightarrow> (Inl er, r3)
              | (Inr _, r3) \<Rightarrow>
                  (case hook from live (day_participants live (ro_votes r3)) of
                     Inl er \<Rightarrow> (Inl er, r3)
                   | Inr _ \<Rightarrow> (Inr live, r3)))))))"

definition require_epoch :: "u64 \<Rightarrow> string \<Rightarrow> rotation \<Rightarrow> unit res" where
  "require_epoch now bound r =
     (let cur = ro_current r; live = day_epoch_from_unix_secs now in
      if bound \<noteq> cur then Inl (DayEpochStale bound cur)
      else if live > cur then Inl (DayEpochStale cur live)
      else Inr ())"


section \<open>Peers\<close>

text \<open>What a peer's answer to the vote says: the body's own day if it has one, the target otherwise.
  \<open>days b\<close> are the two optional fields \<open>serde_json\<close> reads of the body, if it is an object.\<close>

definition parse_peer_self_day :: "(string \<Rightarrow> (string option \<times> string option) option) \<Rightarrow> string \<Rightarrow> string option" where
  "parse_peer_self_day days b =
     (case days b of
        None \<Rightarrow> None
      | Some (self, day) \<Rightarrow>
          (case (case self of Some s \<Rightarrow> Some s | None \<Rightarrow> day) of
             None \<Rightarrow> None
           | Some raw \<Rightarrow> (case day_epoch_parse raw of Inr e \<Rightarrow> Some e | Inl _ \<Rightarrow> None)))"

definition peer_day_vote ::
  "(string \<Rightarrow> (string option \<times> string option) option) \<Rightarrow> string \<Rightarrow> string \<Rightarrow> string res" where
  "peer_day_vote days target b =
     Inr (case parse_peer_self_day days b of Some d \<Rightarrow> d | None \<Rightarrow> target)"

fun http_exchange ::
  "(string \<Rightarrow> (string option \<times> string option) option) \<Rightarrow> (string \<Rightarrow> nat \<Rightarrow> http_outcome) \<Rightarrow> nat
     \<Rightarrow> string \<Rightarrow> (string \<times> string) list \<Rightarrow> (string \<times> string) list res" where
  "http_exchange days net retries target [] = Inr []"
| "http_exchange days net retries target ((peer, url) # ps) =
     rbind (post_attempts (peer_day_vote days target) (net url) (max retries 1) 0) (\<lambda>got.
     rbind (http_exchange days net retries target ps) (\<lambda>rest.
       Inr (case got of None \<Rightarrow> rest | Some d \<Rightarrow> (peer, d) # rest)))"

text \<open>The in-memory transport: the vote is recorded on each peer, with the peer's own.\<close>

fun memory_exchange ::
  "string \<Rightarrow> string \<Rightarrow> (string \<times> rotation) list \<Rightarrow> (string \<times> string) list res \<times> (string \<times> rotation) list" where
  "memory_exchange voter target [] = (Inr [], [])"
| "memory_exchange voter target ((peer, r) # ps) =
     (case record_votes [(voter, target), (peer, target)] r of
        (Inl er, r1) \<Rightarrow> (Inl er, (peer, r1) # ps)
      | (Inr _, r1) \<Rightarrow>
          (case memory_exchange voter target ps of
             (Inl er, ps1) \<Rightarrow> (Inl er, (peer, r1) # ps1)
           | (Inr out, ps1) \<Rightarrow> (Inr ((peer, target) # out), (peer, r1) # ps1)))"


section \<open>Votes\<close>

definition day_voters :: "string \<Rightarrow> string btmap \<Rightarrow> string set" where
  "day_voters live m = {v. bt_get v m = Some live}"

lemma day_count_card:
  assumes "bt_ok m"
  shows "finite (day_voters live m) \<and> day_count live m = card (day_voters live m)"
proof -
  let ?f = "filter (\<lambda>p. snd p = live) m"
  have "day_voters live m = fst ` set ?f"
    using bt_get_in [OF assms] by (force simp: day_voters_def)
  moreover have "distinct (map fst ?f)"
    using bt_ok_distinct [OF assms] by (simp add: bt_keys_def distinct_map_filter)
  moreover have "day_count live m = length ?f"
    by (simp add: day_count_def bt_vals_def filter_map o_def)
  ultimately show ?thesis using distinct_card [of "map fst ?f"] by simp
qed

text \<open>Voting for one day is a vote box: the tally of the day is its number of distinct voters.\<close>

interpretation day_votes: vote_box "\<lambda>v. bt_put v live" "day_voters live" "day_count live" bt_ok for live
  by unfold_locales (auto simp: day_voters_def bt_get_put day_count_card [unfolded day_voters_def])

lemma persist_votes_fields [simp]:
  "ro_current (snd (persist_votes_only r)) = ro_current r" "ro_votes (snd (persist_votes_only r)) = ro_votes r"
  "ro_quorum (snd (persist_votes_only r)) = ro_quorum r" "ro_voter (snd (persist_votes_only r)) = ro_voter r"
  by (auto simp: persist_votes_only_def split: option.splits prod.splits)

lemma write_persist_fields [simp]:
  "ro_current (snd (write_persist e r)) = ro_current r" "ro_votes (snd (write_persist e r)) = ro_votes r"
  "ro_quorum (snd (write_persist e r)) = ro_quorum r" "ro_voter (snd (write_persist e r)) = ro_voter r"
  by (auto simp: write_persist_def split: option.splits prod.splits sum.splits)

lemma record_vote_fields [simp]:
  "ro_current (snd (record_vote v e r)) = ro_current r" "ro_votes (snd (record_vote v e r)) = bt_put v e (ro_votes r)"
  "ro_quorum (snd (record_vote v e r)) = ro_quorum r" "ro_voter (snd (record_vote v e r)) = ro_voter r"
  by (simp_all add: record_vote_def)

lemma record_votes_fields [simp]:
  "ro_current (snd (record_votes vs r)) = ro_current r" "ro_quorum (snd (record_votes vs r)) = ro_quorum r"
  "ro_voter (snd (record_votes vs r)) = ro_voter r"
  by (induction vs arbitrary: r) (auto split: prod.splits sum.splits; metis record_vote_fields snd_conv)+

lemma record_votes_ok: "bt_ok (ro_votes r) \<Longrightarrow> bt_ok (ro_votes (snd (record_votes vs r)))"
proof (induction vs arbitrary: r)
  case (Cons x vs)
  obtain v e where x: "x = (v, e)" by (cases x)
  obtain y r1 where y: "record_vote v e r = (y, r1)" by (cases "record_vote v e r")
  have "bt_ok (ro_votes r1)" using record_vote_fields(2) [of v e r] Cons.prems y by auto
  then show ?case using Cons.IH by (cases y) (simp_all add: x y)
qed simp

text \<open>How an advance can end: before the quorum check, at it, on the same day, or on a later day.\<close>

lemma advance_day_cases:
  assumes "advance_day now peers hook r = (x, r')"
  obtains (vote) er where "x = Inl er" "r' = snd (record_vote (ro_voter r) (day_epoch_from_unix_secs now) r)"
  | (stay) vs where "r' = snd (record_votes vs r)"
  | (same) vs where "ro_current r = day_epoch_from_unix_secs now"
      "r' = snd (write_persist (day_epoch_from_unix_secs now) (snd (record_votes vs r)))"
  | (moved) vs where "peers = Inr vs" "ro_current r < day_epoch_from_unix_secs now"
      "ro_quorum r \<le> vote_count_for (day_epoch_from_unix_secs now)
         (snd (record_votes ((ro_voter r, day_epoch_from_unix_secs now) # vs) r))"
      "r' = snd (write_persist (day_epoch_from_unix_secs now)
         ((snd (record_votes ((ro_voter r, day_epoch_from_unix_secs now) # vs) r))
            \<lparr>ro_current := day_epoch_from_unix_secs now\<rparr>))"
proof -
  let ?live = "day_epoch_from_unix_secs now"
  obtain x1 r1 where e1: "record_vote (ro_voter r) ?live r = (x1, r1)" by (cases "record_vote (ro_voter r) ?live r")
  show ?thesis
  proof (cases x1)
    case (Inl er)
    then show ?thesis using assms e1 by (intro vote [of er]) (simp_all add: advance_day_def Let_def)
  next
    case (Inr u)
    show ?thesis
    proof (cases peers)
      case (Inl er)
      then have "r' = snd (record_votes [(ro_voter r, ?live)] r)"
        using assms e1 Inr by (simp add: advance_day_def Let_def)
      then show ?thesis by (rule stay)
    next
      case peers: (Inr vs)
      define r2 where "r2 = snd (record_votes ((ro_voter r, ?live) # vs) r)"
      obtain x2 where e2: "record_votes vs r1 = (x2, r2)"
        using e1 Inr by (cases "record_votes vs r1") (simp add: r2_def)
      have f: "ro_current r2 = ro_current r" "ro_quorum r2 = ro_quorum r" by (simp_all add: r2_def del: record_votes.simps)
      show ?thesis
      proof (cases "is_ok x2 \<and> ro_quorum r \<le> vote_count_for ?live r2")
        case False
        then have "r' = r2"
          using assms e1 e2 Inr peers f by (cases x2) (simp_all add: advance_day_def Let_def)
        then show ?thesis using stay r2_def by blast
      next
        case ok: True
        then obtain u2 where x2: "x2 = Inr u2" by (cases x2) auto
        consider "?live = ro_current r" | "?live < ro_current r" | "ro_current r < ?live" by fastforce
        then show ?thesis
        proof cases
          case 1
          then have "r' = snd (write_persist ?live r2)"
            using assms e1 e2 Inr peers f x2 ok
            by (auto simp: advance_day_def Let_def split: prod.splits sum.splits)
          then show ?thesis using same 1 r2_def by metis
        next
          case 2
          then have "?live \<noteq> ro_current r" by auto
          then have "r' = r2"
            using assms e1 e2 Inr peers f x2 ok 2 by (auto simp: advance_day_def Let_def)
          then show ?thesis using stay r2_def by blast
        next
          case 3
          then have n: "?live \<noteq> ro_current r" "\<not> ?live < ro_current r" by auto
          then have "r' = snd (write_persist ?live (r2\<lparr>ro_current := ?live\<rparr>))"
            using assms e1 e2 Inr peers f x2 ok
            by (auto simp: advance_day_def Let_def split: prod.splits sum.splits)
          then show ?thesis using moved [OF peers 3] ok r2_def by blast
        qed
      qed
    qed
  qed
qed

text \<open>An advance either leaves the day, or moves it forward to the clock's day with a quorum of votes.\<close>

lemma advance_day_moves:
  assumes "advance_day now peers hook r = (x, r')"
  shows "(ro_current r' = ro_current r
     \<or> ro_current r' = day_epoch_from_unix_secs now \<and> ro_current r < ro_current r'
       \<and> ro_quorum r \<le> vote_count_for (ro_current r') r')
    \<and> ro_quorum r' = ro_quorum r \<and> (bt_ok (ro_votes r) \<longrightarrow> bt_ok (ro_votes r'))"
  using assms
proof (cases rule: advance_day_cases)
  case (moved vs)
  let ?vs = "(ro_voter r, day_epoch_from_unix_secs now) # vs"
  have "ro_votes r' = ro_votes (snd (record_votes ?vs r))" "ro_current r' = day_epoch_from_unix_secs now"
    "ro_quorum r' = ro_quorum (snd (record_votes ?vs r))"
    unfolding moved(4) by (simp_all del: record_votes.simps)
  moreover have "ro_quorum (snd (record_votes ?vs r)) = ro_quorum r" by (rule record_votes_fields(2))
  ultimately show ?thesis using moved(2,3) record_votes_ok [of r ?vs]
    by (simp add: vote_count_for_def del: record_votes.simps)
qed (use record_votes_ok [of r] in auto)


section \<open>Runs\<close>

datatype rot_op =
    RotVote string string
  | RotAdvance u64 "(string \<times> string) list res" "string \<Rightarrow> string \<Rightarrow> string list \<Rightarrow> unit res"

fun rot_step :: "rot_op \<Rightarrow> rotation \<Rightarrow> rotation" where
  "rot_step (RotVote v e) r = snd (record_vote v e r)"
| "rot_step (RotAdvance now peers hook) r = snd (advance_day now peers hook r)"

definition rot_grows :: "rotation \<Rightarrow> rotation \<Rightarrow> bool" where
  "rot_grows r r' \<longleftrightarrow> ro_current r \<le> ro_current r' \<and> ro_quorum r' = ro_quorum r \<and> bt_ok (ro_votes r')"

lemma rot_step_moves:
  assumes "bt_ok (ro_votes r)"
  shows "rot_grows r (rot_step a r)"
    and "ro_current (rot_step a r) \<noteq> ro_current r \<Longrightarrow>
      (\<exists>now peers hook. a = RotAdvance now peers hook \<and> ro_current (rot_step a r) = day_epoch_from_unix_secs now)
      \<and> ro_quorum r \<le> card (day_voters (ro_current (rot_step a r)) (ro_votes (rot_step a r)))"
proof -
  show "rot_grows r (rot_step a r)"
  proof (cases a)
    case (RotAdvance now peers hook)
    obtain x r' where e: "advance_day now peers hook r = (x, r')" by (cases "advance_day now peers hook r")
    show ?thesis using advance_day_moves [OF e] assms by (auto simp: rot_grows_def RotAdvance e)
  qed (use assms in \<open>auto simp: rot_grows_def\<close>)
  show "(\<exists>now peers hook. a = RotAdvance now peers hook \<and> ro_current (rot_step a r) = day_epoch_from_unix_secs now)
      \<and> ro_quorum r \<le> card (day_voters (ro_current (rot_step a r)) (ro_votes (rot_step a r)))"
    if "ro_current (rot_step a r) \<noteq> ro_current r"
  proof (cases a)
    case (RotAdvance now peers hook)
    let ?r' = "rot_step a r"
    have m: "advance_day now peers hook r = (fst (advance_day now peers hook r), ?r')" by (simp add: RotAdvance)
    then have "ro_current ?r' = day_epoch_from_unix_secs now \<and> ro_quorum r \<le> vote_count_for (ro_current ?r') ?r'"
      and "bt_ok (ro_votes ?r')"
      using advance_day_moves [OF m] that assms by auto
    moreover from this have "vote_count_for (ro_current ?r') ?r' = card (day_voters (ro_current ?r') (ro_votes ?r'))"
      using day_count_card [of "ro_votes ?r'"] by (simp only: vote_count_for_def)
    ultimately have "ro_current ?r' = day_epoch_from_unix_secs now
        \<and> ro_quorum r \<le> card (day_voters (ro_current ?r') (ro_votes ?r'))" by metis
    then show ?thesis using RotAdvance by blast
  qed (use that in simp)
qed

lemma rot_run_grows: "bt_ok (ro_votes r) \<Longrightarrow> rot_grows r (fold rot_step as r)"
proof (induction as arbitrary: r)
  case (Cons a as)
  then show ?case using rot_step_moves(1) [OF Cons.prems, of a] Cons.IH [of "rot_step a r"] order.trans
    by (auto simp: rot_grows_def)
qed (simp add: rot_grows_def)

lemma bt_ok_filter: "bt_ok m \<Longrightarrow> bt_ok (filter P m)"
  by (induction m) (auto simp: bt_ok_Cons bt_keys_def)

lemma rotation_open_ok:
  "(\<And>d m. disk = Some d \<Longrightarrow> dd_votes d = Some m \<Longrightarrow> bt_ok m) \<Longrightarrow>
     bt_ok (ro_votes (rotation_open now t v disk)) \<and> ro_quorum (rotation_open now t v disk) = max t 1"
  by (auto simp: rotation_open_def load_day_votes_def Let_def split: option.splits intro: bt_ok_filter)


section \<open>Properties\<close>

text \<open>C15: the ledger day only moves forward and only by quorum: over any run of votes and advances from
  boot, the day never decreases, and a step that changes it is an advance that sets it to the
  clock's day, with at least the configured quorum (and at least one) of distinct voters recorded
  for exactly that day.\<close>

theorem rotation_quorum_gated:
  assumes "\<And>d m. disk = Some d \<Longrightarrow> dd_votes d = Some m \<Longrightarrow> bt_ok m"
  shows "let r0 = rotation_open now t v disk; r = fold rot_step as r0; r' = rot_step a r in
     ro_current r0 \<le> ro_current r \<and> ro_current r \<le> ro_current r'
   \<and> (ro_current r' \<noteq> ro_current r \<longrightarrow>
       (\<exists>now2 peers hook. a = RotAdvance now2 peers hook \<and> ro_current r' = day_epoch_from_unix_secs now2)
       \<and> max t 1 \<le> card (day_voters (ro_current r') (ro_votes r')))"
proof -
  let ?r0 = "rotation_open now t v disk"
  note o = rotation_open_ok [OF assms, where now = now and t = t and v = v]
  have g: "rot_grows ?r0 (fold rot_step as ?r0)" using o by (intro rot_run_grows) auto
  then have "bt_ok (ro_votes (fold rot_step as ?r0))" "ro_quorum (fold rot_step as ?r0) = max t 1"
    using o by (auto simp: rot_grows_def)
  with rot_step_moves [of "fold rot_step as ?r0" a] g show ?thesis by (auto simp: Let_def rot_grows_def)
qed

theorem rotation_quorum_gated_witness:
  "let r0 = rotation_open 0 2 ''v1'' None; r = fold rot_step [RotVote ''v2'' ''1970-01-02''] r0 in
     ro_current r0 \<le> ro_current r"
  using rotation_quorum_gated [of None 0 2 "''v1''" "[RotVote ''v2'' ''1970-01-02'']" "RotVote ''v2'' ''x''"]
  by (simp add: Let_def)

lemma persist_ok_steps:
  assumes "dd_outcomes d = []"
  shows "persist_day_epoch e d = (Inr (), d\<lparr>dd_epoch := Some (e @ [newline])\<rparr>)"
    and "persist_day_votes m d = (Inr (), d\<lparr>dd_votes := Some m\<rparr>)"
  using assms by (simp_all add: persist_day_epoch_def persist_day_votes_def next_outcome_def)

lemma record_vote_disk:
  "ro_disk r = Some d \<Longrightarrow> dd_outcomes d = [] \<Longrightarrow>
     record_vote v e r = (Inr (), r\<lparr>ro_votes := bt_put v e (ro_votes r),
        ro_disk := Some (d\<lparr>dd_votes := Some (bt_put v e (ro_votes r))\<rparr>)\<rparr>)"
  by (simp add: record_vote_def persist_votes_only_def persist_ok_steps)

lemma record_votes_disk:
  assumes "ro_disk r = Some d" "dd_outcomes d = []"
  shows "\<exists>d'. ro_disk (snd (record_votes vs r)) = Some d' \<and> dd_outcomes d' = []"
  using assms
proof (induction vs arbitrary: r d)
  case (Cons x vs)
  obtain v e where "x = (v, e)" by (cases x)
  then show ?case
    using Cons.IH [of "snd (record_vote v e r)" "d\<lparr>dd_votes := Some (bt_put v e (ro_votes r))\<rparr>"]
    by (simp add: record_vote_disk [OF Cons.prems] Cons.prems)
qed simp

text \<open>A written day reads back: its line break is all that trimming removes.\<close>

lemma day_epoch_parse_bytes:
  assumes "day_epoch_parse s = Inr d"
  shows "d = s" "s \<noteq> []" "list_all visible s"
proof -
  have s: "length s = 10" "s ! 4 = CHR ''-''" "s ! 7 = CHR ''-''" "d = s"
    using assms by (auto simp: day_epoch_parse_def split: if_splits)
  have d: "list_all (\<lambda>(i, b). if i = 4 \<or> i = 7 then True else is_ascii_digit b) (enumerate 0 s)"
    by (rule ccontr) (use assms in \<open>simp add: day_epoch_parse_def\<close>)
  have v: "visible c" if "is_ascii_digit c" for c using that by (simp add: visible_def is_ascii_digit_def)
  have "is_ascii_digit (s ! i)" if "i < 10" "i \<noteq> 4" "i \<noteq> 7" for i
    using d s that by (auto simp: list_all_length nth_enumerate_eq)
  moreover have "visible CHR ''-''" by (simp add: visible_def code_def)
  ultimately have "visible (s ! i)" if "i < 10" for i using that v s by metis
  then show "list_all visible s" using s by (simp add: list_all_length)
  show "d = s" "s \<noteq> []" using s by auto
qed

lemma strip_newline: "strip_any (map rev ws_table) (newline # s) = strip_any (map rev ws_table) s"
  by (subst strip_any.simps) (simp add: ws_table_def newline_def)

lemma trim_day_line:
  assumes "day_epoch_parse s = Inr d"
  shows "trim (s @ [newline]) = s" "trim s = s"
proof -
  note b = day_epoch_parse_bytes [OF assms]
  then have "visible (hd s)" "visible (hd (rev s))" by (auto simp: list_all_iff hd_rev)
  then have n: "no_lead ws_table s" "no_lead ws_table (s @ [newline])" "no_lead (map rev ws_table) (rev s)"
    using no_lead_visible b(2) by auto
  then show "trim (s @ [newline]) = s" "trim s = s"
    by (simp_all add: trim_def trim_start_def trim_end_def strip_any_id strip_newline)
qed

text \<open>A successful advance on a disk whose writes all succeed leaves exactly its state on disk.\<close>

lemma write_persist_disk:
  assumes "ro_disk r = Some d" "dd_outcomes d = []"
  shows "write_persist e r = (Inr (), r\<lparr>ro_disk :=
      Some (d\<lparr>dd_epoch := Some (e @ [newline]), dd_votes := Some (ro_votes r)\<rparr>)\<rparr>)"
  using assms by (simp add: write_persist_def persist_ok_steps)

lemma advance_day_saved:
  assumes "advance_day now (Inr vs) hook r = (Inr live, r')"
    and "ro_disk r = Some d" "dd_outcomes d = []"
  shows "live = day_epoch_from_unix_secs now \<and> ro_current r' = live
    \<and> (\<exists>d'. ro_disk r' = Some (d'\<lparr>dd_epoch := Some (live @ [newline]), dd_votes := Some (ro_votes r')\<rparr>))"
proof -
  let ?live = "day_epoch_from_unix_secs now"
  obtain r1 where e1: "record_vote (ro_voter r) ?live r = (Inr (), r1)"
    using record_vote_disk [OF assms(2,3)] by blast
  obtain x2 r2 where e2: "record_votes vs r1 = (x2, r2)" by (cases "record_votes vs r1")
  have "r2 = snd (record_votes ((ro_voter r, ?live) # vs) r)" if "x2 = Inr ()" using e1 e2 that by simp
  obtain d2 where d2: "ro_disk r2 = Some d2" "dd_outcomes d2 = []" if "x2 = Inr ()"
    using record_votes_disk [OF assms(2,3), of "(ro_voter r, ?live) # vs"] e1 e2 by auto
  show ?thesis
  proof (cases x2)
    case (Inl er)
    then show ?thesis using assms(1) e1 e2 by (simp add: advance_day_def Let_def)
  next
    case (Inr u)
    then have x2: "x2 = Inr ()" by simp
    note w = write_persist_disk [OF d2(1) [OF x2] d2(2) [OF x2]]
      write_persist_disk [of "r2\<lparr>ro_current := ?live\<rparr>", simplified, OF d2(1) [OF x2] d2(2) [OF x2]]
    show ?thesis
    proof (cases "?live = ro_current r2")
      case True
      then show ?thesis using assms(1) e1 e2 x2 w(1)
        by (auto simp: advance_day_def Let_def split: if_splits)
    next
      case False
      then show ?thesis using assms(1) e1 e2 x2 w(2)
        by (auto simp: advance_day_def Let_def split: if_splits sum.splits)
    qed
  qed
qed

text \<open>The day survives a restart: when an advance succeeds and every file write of it did, what is
  reopened from the files, at any later clock, has the same day and the same votes, wherever the
  day and the recorded votes are texts that parse as days.\<close>

theorem rotation_survives_restart:
  assumes "advance_day now (Inr vs) hook r = (Inr live, r')"
    and "ro_disk r = Some d" "dd_outcomes d = []"
    and "is_ok (day_epoch_parse live)" "\<forall>(v, e) \<in> set (ro_votes r'). is_ok (day_epoch_parse e)"
  shows "let r2 = rotation_open now2 t voter (ro_disk r') in
     ro_current r2 = ro_current r' \<and> ro_votes r2 = ro_votes r'"
proof -
  from advance_day_saved [OF assms(1-3)] obtain d' where c: "ro_current r' = live"
    and d': "ro_disk r' = Some (d'\<lparr>dd_epoch := Some (live @ [newline]), dd_votes := Some (ro_votes r')\<rparr>)"
    by blast
  obtain y where y: "day_epoch_parse live = Inr y" using assms(4) by (auto simp: is_ok_iff)
  then have "y = live" by (rule day_epoch_parse_bytes)
  moreover have "filter (\<lambda>(v, e). is_ok (day_epoch_parse e)) (ro_votes r') = ro_votes r'"
    using assms(5) by (simp add: filter_id_conv)
  ultimately show ?thesis
    using c d' y trim_day_line [OF y]
    by (simp add: rotation_open_def load_day_epoch_def load_day_votes_def Let_def)
qed

definition lab_disk :: day_disk where
  "lab_disk = \<lparr>dd_epoch = None, dd_votes = None, dd_outcomes = []\<rparr>"

theorem rotation_survives_restart_witness:
  "let r' = snd (advance_day 86400 (Inr [(''v2'', ''1970-01-02'')]) (\<lambda>f l ps. Inr ())
              (rotation_open 0 2 ''v1'' (Some lab_disk))) in
     ro_current (rotation_open 864000 2 ''v1'' (ro_disk r')) = ''1970-01-02'' \<and> ro_current r' = ''1970-01-02''"
proof -
  let ?a = "advance_day 86400 (Inr [(''v2'', ''1970-01-02'')]) (\<lambda>f l ps. Inr ())
              (rotation_open 0 2 ''v1'' (Some lab_disk))"
  have a: "?a = (Inr ''1970-01-02'', snd ?a)" by code_simp
  have v: "ro_votes (snd ?a) = [(''v1'', ''1970-01-02''), (''v2'', ''1970-01-02'')]"
    "ro_current (snd ?a) = ''1970-01-02''" by code_simp+
  have p: "is_ok (day_epoch_parse ''1970-01-02'')" by code_simp
  have d: "ro_disk (rotation_open 0 2 ''v1'' (Some lab_disk)) = Some lab_disk" "dd_outcomes lab_disk = []"
    by (simp_all add: rotation_open_def lab_disk_def)
  show ?thesis
    using rotation_survives_restart [OF a d p, of 864000 2 "''v1''"] v p by (simp add: Let_def)
qed

text \<open>A failed reshare is not tried again: when an advance reports an error after it has moved the
  day, the next advance on that day succeeds whatever its hook is, so the hook is not run for the
  day any more.\<close>

theorem rotation_reshare_not_retried:
  assumes "advance_day now peers hook r = (Inl er, r')" "ro_current r' \<noteq> ro_current r"
    and "bt_ok (ro_votes r)" "\<And>d. ro_disk r' = Some d \<Longrightarrow> dd_outcomes d = []"
  shows "\<exists>r2. \<forall>hook2. advance_day now (Inr []) hook2 r' = (Inr (day_epoch_from_unix_secs now), r2)"
proof -
  let ?live = "day_epoch_from_unix_secs now"
  note m = advance_day_moves [OF assms(1)]
  with assms(2,3) have c: "ro_current r' = ?live" "ro_quorum r' \<le> vote_count_for ?live r'"
    and k: "bt_ok (ro_votes r')" by auto
  have "vote_count_for ?live r' \<le> day_count ?live (bt_put (ro_voter r') ?live (ro_votes r'))"
    using day_votes.tally_mono [OF k, of ?live "[ro_voter r']"] by (simp add: vote_count_for_def)
  then have q: "\<not> day_count ?live (bt_put (ro_voter r') ?live (ro_votes r')) < ro_quorum r'" using c(2) by simp
  show ?thesis
  proof (cases "ro_disk r'")
    case None
    then show ?thesis using c(1) q
      by (simp add: advance_day_def Let_def record_vote_def persist_votes_only_def vote_count_for_def write_persist_def)
  next
    case (Some d)
    note rv = record_vote_disk [OF Some assms(4) [OF Some]]
    show ?thesis using c(1) q assms(4) [OF Some]
      by (simp add: advance_day_def Let_def rv vote_count_for_def write_persist_def persist_ok_steps)
  qed
qed

theorem rotation_reshare_not_retried_witness:
  "\<exists>r2. \<forall>hook2. advance_day 86400 (Inr []) hook2
     (snd (advance_day 86400 (Inr []) (\<lambda>f l ps. Inl (ThresholdError ''dkg'')) (rotation_open 0 1 ''v1'' None)))
     = (Inr ''1970-01-02'', r2)"
proof -
  let ?a = "advance_day 86400 (Inr []) (\<lambda>f l ps. Inl (ThresholdError ''dkg'')) (rotation_open 0 1 ''v1'' None)"
  have a: "?a = (Inl (ThresholdError ''dkg''), snd ?a)" by code_simp
  have v: "ro_current (snd ?a) \<noteq> ro_current (rotation_open 0 1 ''v1'' None)"
    "bt_ok (ro_votes (rotation_open 0 1 ''v1'' None))" by code_simp+
  have d: "dd_outcomes d = []" if "ro_disk (snd ?a) = Some d" for d
  proof -
    have "ro_disk (snd ?a) = None" by code_simp
    then show ?thesis using that by simp
  qed
  have l: "day_epoch_from_unix_secs 86400 = ''1970-01-02''" by code_simp
  show ?thesis using rotation_reshare_not_retried [OF a v d] unfolding l by blast
qed

end
