(* ===== verification/CivilDate.thy ===== *)
theory CivilDate
  imports DayEpoch
begin

text \<open>
  The calendar.  Two functions of the code turn a count of days into a date: \<open>civil_from_days\<close> of
  \<open>domain/day_epoch.rs\<close>, behind the day epochs, and \<open>days_to_date\<close> of \<open>application/admin.rs\<close>, behind the
  time stamps of the admin interface.  Both are shown to be the Gregorian calendar, counted day by day from
  1970-01-01.
\<close>

section \<open>The date of the admin interface\<close>

definition days_to_date :: "int \<Rightarrow> int \<times> int \<times> int" where
  "days_to_date days =
     (let z = days + 719468;
          era = z div 146097;
          doe = z mod 146097;
          yoe = (doe - doe div 1460 + doe div 36524 - doe div 146096) div 365;
          y = yoe + era * 400;
          doy = doe - (365 * yoe + yoe div 4 - yoe div 100);
          mp = (5 * doy + 2) div 153;
          d = doy - (153 * mp + 2) div 5 + 1;
          m = (if mp < 10 then mp + 3 else mp - 9)
      in (if m \<le> 2 then y + 1 else y, m, d))"

text \<open>\<open>iso_timestamp\<close>, of the seconds and nanoseconds the clock shows.\<close>

definition iso_timestamp :: "u64 \<Rightarrow> nat \<Rightarrow> string" where
  "iso_timestamp secs nanos =
     (case days_to_date (int (unat (secs div 86400))) of
        (y, m, d) \<Rightarrow>
          (let rest = int (unat (secs mod 86400)) in
           pad_zero 4 y @ ''-'' @ pad_zero 2 m @ ''-'' @ pad_zero 2 d @ ''T'' @ pad_zero 2 (rest div 3600)
           @ '':'' @ pad_zero 2 (rest mod 3600 div 60) @ '':'' @ pad_zero 2 (rest mod 60) @ ''.''
           @ pad_zero 3 (int (nanos div 1000000)) @ ''Z''))"

section \<open>The Gregorian calendar\<close>

definition leap_year :: "int \<Rightarrow> bool" where
  "leap_year y \<longleftrightarrow> 4 dvd y \<and> (\<not> 100 dvd y \<or> 400 dvd y)"

definition month_length :: "bool \<Rightarrow> int \<Rightarrow> int" where
  "month_length leap m =
     (if m = 2 then if leap then 29 else 28 else if m = 4 \<or> m = 6 \<or> m = 9 \<or> m = 11 then 30 else 31)"

fun next_day :: "int \<times> int \<times> int \<Rightarrow> int \<times> int \<times> int" where
  "next_day (y, m, d) =
     (if d < month_length (leap_year y) m then (y, m, d + 1)
      else if m < 12 then (y, m + 1, 1)
      else (y + 1, 1, 1))"

definition calendar :: "nat \<Rightarrow> int \<times> int \<times> int" where
  "calendar n = (next_day ^^ n) (1970, 1, 1)"

section \<open>Years that begin in March\<close>

text \<open>\<open>year_start\<close> and \<open>year_end\<close>: the first and last day of a March year within its era of 400.\<close>

definition year_of :: "int \<Rightarrow> int" where
  "year_of doe = (doe - doe div 1460 + doe div 36524 - doe div 146096) div 365"

definition year_start :: "int \<Rightarrow> int" where
  "year_start y = 365 * y + y div 4 - y div 100"

definition year_end :: "int \<Rightarrow> int" where
  "year_end y = (if y = 399 then 146096 else year_start (y + 1) - 1)"

lemma div_next:
  fixes a n :: int
  assumes n: "0 < n"
  shows "(a + 1) div n = a div n + of_bool (n dvd a + 1)"
proof (cases "n dvd a + 1")
  case True
  then obtain k where k: "a + 1 = n * k" by (auto simp: dvd_def)
  have "a = n * (k - 1) + (n - 1)" using k by (simp add: right_diff_distrib)
  then have "a div n = k - 1" by (rule int_div_pos_eq) (use n in simp_all)
  then show ?thesis using True k n by simp
next
  case False
  have m: "0 \<le> a mod n" "a mod n < n" using n by simp_all
  have "a mod n \<noteq> n - 1"
  proof
    assume r: "a mod n = n - 1"
    have "a + 1 = n * (a div n) + a mod n + 1" by simp
    also have "\<dots> = n * (a div n + 1)" unfolding r by (simp add: distrib_left)
    finally show False using False dvd_triv_left by metis
  qed
  then have "a + 1 = n * (a div n) + (a mod n + 1)" "0 \<le> a mod n + 1" "a mod n + 1 < n"
    using m by simp_all
  then have "(a + 1) div n = a div n" by (rule int_div_pos_eq)
  then show ?thesis using False by simp
qed

lemma year_of_step: "year_of a \<le> year_of (a + 1)"
proof -
  have i: "146096 dvd a + 1 \<longrightarrow> 36524 dvd a + 1"
    using dvd_trans [of "36524 :: int" 146096 "a + 1"] by simp
  have e: "(a + 1) div 1460 = a div 1460 + of_bool (1460 dvd a + 1)"
    "(a + 1) div 36524 = a div 36524 + of_bool (36524 dvd a + 1)"
    "(a + 1) div 146096 = a div 146096 + of_bool (146096 dvd a + 1)"
    by (rule div_next, simp)+
  have "of_bool (146096 dvd a + 1) \<le> (of_bool (36524 dvd a + 1) :: int)" "of_bool (1460 dvd a + 1) \<le> (1 :: int)"
    using i by simp_all
  then have "a - a div 1460 + a div 36524 - a div 146096
      \<le> (a + 1) - (a + 1) div 1460 + (a + 1) div 36524 - (a + 1) div 146096"
    unfolding e by linarith
  then show ?thesis unfolding year_of_def by (rule zdiv_mono1) simp
qed

lemma year_start_next:
  "year_start (y + 1) = year_start y + 365 + of_bool (4 dvd y + 1) - of_bool (100 dvd y + 1)"
proof -
  have "(y + 1) div 4 = y div 4 + of_bool (4 dvd y + 1)" "(y + 1) div 100 = y div 100 + of_bool (100 dvd y + 1)"
    by (rule div_next, simp)+
  then show ?thesis by (simp add: year_start_def)
qed

lemma year_start_less: "year_start y < year_start (y + 1)"
  by (simp add: year_start_next)

lemma year_of_mono: "a \<le> b \<Longrightarrow> year_of a \<le> year_of b"
proof (induction b rule: int_ge_induct)
  case (step i)
  then show ?case using year_of_step [of i] by simp
qed simp

lemma year_bounds_table: "list_all (\<lambda>y. year_of (year_start y) = y \<and> year_of (year_end y) = y) [0..399]"
  by code_simp

lemma year_of_eq:
  assumes "0 \<le> y" "y < 400" "year_start y \<le> doe" "doe \<le> year_end y"
  shows "year_of doe = y"
proof -
  have "year_of (year_start y) = y" "year_of (year_end y) = y"
    using year_bounds_table assms(1,2) by (auto simp: list_all_iff)
  then show ?thesis using year_of_mono [OF assms(3)] year_of_mono [OF assms(4)] by simp
qed

lemma year_exists:
  assumes "0 \<le> doe" "doe < 146097"
  shows "\<exists>y. 0 \<le> y \<and> y < 400 \<and> year_start y \<le> doe \<and> doe \<le> year_end y"
  using assms
proof (induction doe rule: int_ge_induct)
  case base
  show ?case by (rule exI [of _ 0]) (simp add: year_start_def year_end_def)
next
  case (step i)
  then obtain y where y: "0 \<le> y" "y < 400" "year_start y \<le> i" "i \<le> year_end y" by auto
  show ?case
  proof (cases "i + 1 \<le> year_end y")
    case True
    then show ?thesis using y by (intro exI [of _ y]) simp
  next
    case False
    then have i: "i = year_end y" using y by simp
    then have "y < 399" using step.prems y by (cases "y = 399") (simp_all add: year_end_def)
    moreover have "year_start (y + 1) \<le> year_end (y + 1)"
      using year_start_less [of "y + 1"] \<open>y < 399\<close> by (cases "y = 398") (simp_all add: year_end_def year_start_def)
    ultimately show ?thesis using i y by (intro exI [of _ "y + 1"]) (simp add: year_end_def)
  qed
qed

lemma year_length:
  assumes "0 \<le> y" "y < 400"
  shows "year_end y - year_start y = (if leap_year (y + 1 + 400 * e) then 365 else 364)"
proof -
  have "4 dvd y + 1 + 400 * e \<longleftrightarrow> 4 dvd y + 1" "100 dvd y + 1 + 400 * e \<longleftrightarrow> 100 dvd y + 1"
    "400 dvd y + 1 + 400 * e \<longleftrightarrow> 400 dvd y + 1"
    by (simp_all add: dvd_add_left_iff)
  moreover have "400 dvd y + 1 \<longleftrightarrow> y = 399"
    using assms zdvd_imp_le [of 400 "y + 1"] by auto
  moreover have "100 dvd y + 1 \<longrightarrow> 4 dvd y + 1"
    using dvd_trans [of "4 :: int" 100 "y + 1"] by simp
  ultimately show ?thesis
    by (cases "y = 399")
      (simp add: year_end_def leap_year_def year_start_def, auto simp: year_end_def year_start_next leap_year_def)
qed

section \<open>Months\<close>

definition month_of :: "int \<Rightarrow> int" where
  "month_of doy = (if (5 * doy + 2) div 153 < 10 then (5 * doy + 2) div 153 + 3 else (5 * doy + 2) div 153 - 9)"

definition mday_of :: "int \<Rightarrow> int" where
  "mday_of doy = doy - (153 * ((5 * doy + 2) div 153) + 2) div 5 + 1"

definition date_in_era :: "int \<Rightarrow> int \<Rightarrow> int \<times> int \<times> int" where
  "date_in_era era doe =
     (let y = year_of doe; doy = doe - year_start y in
      (if month_of doy \<le> 2 then y + era * 400 + 1 else y + era * 400, month_of doy, mday_of doy))"

lemma days_to_date_era:
  "days_to_date n = date_in_era ((n + 719468) div 146097) ((n + 719468) mod 146097)"
  unfolding days_to_date_def date_in_era_def year_of_def year_start_def month_of_def mday_of_def Let_def
  by (rule HOL.refl)

text \<open>The first day of the month number \<open>k\<close> of a March year.\<close>

definition month_start :: "int \<Rightarrow> int" where
  "month_start k = (153 * k + 2) div 5"

lemma div_between: "(0 :: int) < m \<Longrightarrow> m * (a div m) \<le> a \<and> a < m * (a div m) + m"
  using pos_mod_sign [of m a] pos_mod_bound [of m a] mult_div_mod_eq [of m a] by linarith

lemma month_number: "(5 * doy + 2) div 153 = k \<longleftrightarrow> month_start k \<le> doy \<and> doy < month_start (k + 1)"
proof -
  let ?q = "(5 * doy + 2) div 153"
  have s: "5 * month_start j \<le> 153 * j + 2 \<and> 153 * j + 2 < 5 * month_start j + 5" for j
    using div_between [of 5 "153 * j + 2"] by (simp add: month_start_def)
  have q: "153 * ?q \<le> 5 * doy + 2 \<and> 5 * doy + 2 < 153 * ?q + 153" using div_between [of 153 "5 * doy + 2"] by simp
  show ?thesis
  proof
    assume "?q = k"
    with q have "153 * k \<le> 5 * doy + 2" "5 * doy + 2 < 153 * k + 153" by simp_all
    with s [of k] s [of "k + 1"] show "month_start k \<le> doy \<and> doy < month_start (k + 1)" by simp
  next
    assume "month_start k \<le> doy \<and> doy < month_start (k + 1)"
    with s [of k] s [of "k + 1"] have "153 * k \<le> 5 * doy + 2" "5 * doy + 2 < 153 * k + 153" by simp_all
    with q show "?q = k" by simp
  qed
qed

lemma month_gap: "month_start k < month_start (k + 1)"
  using div_between [of 5 "153 * k + 2"] div_between [of 5 "153 * (k + 1) + 2"] by (simp add: month_start_def)

lemma month_starts:
  "month_start 0 = 0" "month_start 1 = 31" "month_start 2 = 61" "month_start 3 = 92" "month_start 4 = 122" "month_start 5 = 153"
  "month_start 6 = 184" "month_start 7 = 214" "month_start 8 = 245" "month_start 9 = 275" "month_start 10 = 306"
  "month_start 11 = 337" "month_start 12 = 367"
  by (simp_all add: month_start_def)

lemma month_fields:
  assumes "month_start k \<le> doy" "doy < month_start (k + 1)"
  shows "month_of doy = (if k < 10 then k + 3 else k - 9)" "mday_of doy = doy - month_start k + 1"
  using month_number [of doy k] assms by (simp_all add: month_of_def mday_of_def month_start_def)

lemma month_lengths:
  assumes "0 \<le> k" "k \<le> 10"
  shows "month_length False (if k < 10 then k + 3 else k - 9) = month_start (k + 1) - month_start k"
proof -
  have "k = 0 \<or> k = 1 \<or> k = 2 \<or> k = 3 \<or> k = 4 \<or> k = 5 \<or> k = 6 \<or> k = 7 \<or> k = 8 \<or> k = 9 \<or> k = 10"
    using assms by presburger
  then show ?thesis by (elim disjE) (simp_all add: month_length_def month_starts)
qed

lemma month_step:
  assumes "0 \<le> doy" "doy \<le> 363"
  shows "1 \<le> month_of doy \<and> month_of doy \<le> 12 \<and> (month_of doy = 2 \<longrightarrow> mday_of doy < 28) \<and>
     month_of (doy + 1) = (if mday_of doy < month_length False (month_of doy) then month_of doy
                           else if month_of doy < 12 then month_of doy + 1 else 1) \<and>
     mday_of (doy + 1) = (if mday_of doy < month_length False (month_of doy) then mday_of doy + 1 else 1)"
proof -
  define k where "k = (5 * doy + 2) div 153"
  have "(5 * doy + 2) div 153 \<le> 1817 div 153" by (rule zdiv_mono1) (use assms in simp_all)
  then have k: "0 \<le> k" "k \<le> 11" using assms by (simp_all add: k_def pos_imp_zdiv_nonneg_iff)
  have b: "month_start k \<le> doy" "doy < month_start (k + 1)" using month_number [of doy k] by (simp_all add: k_def)
  note f = month_fields [OF b]
  show ?thesis
  proof (cases "k = 11")
    case True
    then have "month_start 11 \<le> doy + 1" "doy + 1 < month_start (11 + 1)" using b assms by (simp_all add: month_starts)
    from month_fields [OF this] f True assms b show ?thesis by (simp add: month_starts month_length_def)
  next
    case False
    then have l: "month_length False (month_of doy) = month_start (k + 1) - month_start k"
      using month_lengths [of k] k by (simp add: f)
    have inside: "mday_of doy < month_length False (month_of doy) \<longleftrightarrow> doy + 1 < month_start (k + 1)"
      unfolding l f(2) by linarith
    have m: "1 \<le> month_of doy" "month_of doy \<le> 12" "month_of doy \<noteq> 2" using f(1) k False by (simp_all split: if_split)
    show ?thesis
    proof (cases "doy + 1 < month_start (k + 1)")
      case True
      then have "month_start k \<le> doy + 1" using b by simp
      from month_fields [OF this True] have "month_of (doy + 1) = month_of doy" "mday_of (doy + 1) = mday_of doy + 1"
        unfolding f by simp_all
      then show ?thesis using m inside True by simp
    next
      case no: False
      then have e: "doy + 1 = month_start (k + 1)" using b by simp
      have "month_start (k + 1) < month_start (k + 1 + 1)" by (rule month_gap)
      then have "month_start (k + 1) \<le> doy + 1" "doy + 1 < month_start (k + 1 + 1)" using e by simp_all
      from month_fields [OF this] have n: "month_of (doy + 1) = (if k + 1 < 10 then k + 4 else k - 8)" "mday_of (doy + 1) = 1"
        using e by simp_all
      have "month_of (doy + 1) = (if month_of doy < 12 then month_of doy + 1 else 1)"
        unfolding n(1) f(1) using k False by simp
      then show ?thesis using m inside no n(2) by simp
    qed
  qed
qed

text \<open>February ends a March year, so no month end before day 364 depends on the leap year.\<close>

lemma month_table:
  "list_all (\<lambda>doy. 1 \<le> month_of doy \<and> month_of doy \<le> 12 \<and> (month_of doy = 2 \<longrightarrow> mday_of doy < 28) \<and>
     month_of (doy + 1) = (if mday_of doy < month_length False (month_of doy) then month_of doy
                           else if month_of doy < 12 then month_of doy + 1 else 1) \<and>
     mday_of (doy + 1) = (if mday_of doy < month_length False (month_of doy) then mday_of doy + 1 else 1)) [0..363]"
  unfolding list_all_iff set_upto by (intro ballI month_step) simp_all

lemma year_last_days:
  "month_of 364 = 2" "mday_of 364 = 28" "month_of 365 = 2" "mday_of 365 = 29" "month_of 0 = 3" "mday_of 0 = 1"
  by code_simp+

lemma next_day_cases:
  assumes "1 \<le> m \<and> m \<le> 12 \<and> (m = 2 \<longrightarrow> d < 28)"
    "m1 = (if d < month_length False m then m else if m < 12 then m + 1 else 1)"
    "d1 = (if d < month_length False m then d + 1 else 1)"
  shows "next_day (if m \<le> 2 then y + 1 else y, m, d) = (if m1 \<le> 2 then y + 1 else y, m1, d1)"
proof -
  have eqv: "d < month_length (leap_year z) m \<longleftrightarrow> d < month_length False m" for z
    using assms(1) by (auto simp: month_length_def)
  show ?thesis
  proof (cases "d < month_length False m")
    case True
    then show ?thesis using assms by (simp add: eqv)
  next
    case False
    then have "m \<noteq> 2" using assms(1) by (auto simp: month_length_def)
    moreover have "m1 = (if m < 12 then m + 1 else 1)" "d1 = 1" using assms(2,3) False by simp_all
    ultimately show ?thesis using False assms(1) by (auto simp: eqv)
  qed
qed

lemma next_day_within:
  assumes "0 \<le> doy" "doy \<le> 363 \<or> doy = 364 \<and> leap_year (y + 1)"
  shows "next_day (if month_of doy \<le> 2 then y + 1 else y, month_of doy, mday_of doy) =
    (if month_of (doy + 1) \<le> 2 then y + 1 else y, month_of (doy + 1), mday_of (doy + 1))"
proof (cases "doy = 364")
  case True
  then show ?thesis using assms by (simp add: year_last_days month_length_def)
next
  case False
  then have "doy \<in> set [0..363]" using assms False by simp
  then have t: "1 \<le> month_of doy \<and> month_of doy \<le> 12 \<and> (month_of doy = 2 \<longrightarrow> mday_of doy < 28) \<and>
     month_of (doy + 1) = (if mday_of doy < month_length False (month_of doy) then month_of doy
                           else if month_of doy < 12 then month_of doy + 1 else 1) \<and>
     mday_of (doy + 1) = (if mday_of doy < month_length False (month_of doy) then mday_of doy + 1 else 1)"
    by (rule bspec [OF month_table [unfolded list_all_iff]])
  show ?thesis
    by (rule next_day_cases [OF conjI [OF t [THEN conjunct1] conjI [OF t [THEN conjunct2, THEN conjunct1]
          t [THEN conjunct2, THEN conjunct2, THEN conjunct1]]]
        t [THEN conjunct2, THEN conjunct2, THEN conjunct2, THEN conjunct1]
        t [THEN conjunct2, THEN conjunct2, THEN conjunct2, THEN conjunct2]])
qed

section \<open>Both functions are the calendar\<close>

lemma era_last_day: "0 \<le> y \<Longrightarrow> y < 400 \<Longrightarrow> year_end y = 146096 \<longleftrightarrow> y = 399"
proof -
  assume "0 \<le> y" "y < 400"
  then have "year_of (year_end y) = y" "year_of (year_end 399) = 399"
    using year_bounds_table by (auto simp: list_all_iff)
  then show ?thesis by (auto simp: year_end_def)
qed

lemma next_day_in_era:
  assumes "0 \<le> doe" "doe < 146097"
  shows "next_day (date_in_era e doe) = (if doe = 146096 then date_in_era (e + 1) 0 else date_in_era e (doe + 1))"
proof -
  obtain y where y: "0 \<le> y" "y < 400" "year_start y \<le> doe" "doe \<le> year_end y"
    using year_exists [OF assms] by auto
  let ?Y = "y + e * 400"
  have cur: "year_of doe = y" by (rule year_of_eq [OF y])
  have len: "year_end y - year_start y = (if leap_year (?Y + 1) then 365 else 364)"
    using year_length [OF y(1,2), of e] by (simp add: algebra_simps)
  let ?d = "doe - year_start y"
  have date: "date_in_era e doe = (if month_of ?d \<le> 2 then ?Y + 1 else ?Y, month_of ?d, mday_of ?d)"
    by (simp add: date_in_era_def Let_def cur)
  show ?thesis
  proof (cases "doe = year_end y")
    case False
    have "doe \<noteq> 146096"
    proof
      assume d: "doe = 146096"
      have "year_of 146096 = 399" by code_simp
      then show False using False cur era_last_day [OF y(1,2)] d by simp
    qed
    moreover have nxt: "date_in_era e (doe + 1) = (if month_of (?d + 1) \<le> 2 then ?Y + 1 else ?Y, month_of (?d + 1), mday_of (?d + 1))"
    proof -
      have "year_of (doe + 1) = y" by (rule year_of_eq [OF y(1,2)]) (use y False in simp_all)
      moreover have "doe + 1 - year_start y = ?d + 1" by simp
      ultimately show ?thesis by (simp only: date_in_era_def Let_def)
    qed
    moreover have "0 \<le> ?d" "?d \<le> 363 \<or> ?d = 364 \<and> leap_year (?Y + 1)"
      using False y len by (auto split: if_splits)
    ultimately show ?thesis
      using next_day_within [of ?d ?Y] by (simp only: date nxt if_False)
  next
    case True
    then have d: "?d = (if leap_year (?Y + 1) then 365 else 364)" using len by simp
    have last: "next_day (date_in_era e doe) = (?Y + 1, 3, 1)"
      unfolding date d by (cases "leap_year (?Y + 1)") (simp_all add: year_last_days month_length_def)
    have first: "date_in_era f (year_start z) = (z + f * 400, 3, 1)" if "0 \<le> z" "z < 400" for z f
    proof -
      have "year_of (year_start z) = z" using year_bounds_table that by (auto simp: list_all_iff)
      then show ?thesis by (simp add: date_in_era_def Let_def year_last_days)
    qed
    show ?thesis
    proof (cases "y = 399")
      case True
      then show ?thesis using last first [of 0 "e + 1"] \<open>doe = year_end y\<close> by (simp add: year_end_def year_start_def)
    next
      case False
      then have "doe \<noteq> 146096" using \<open>doe = year_end y\<close> era_last_day [OF y(1,2)] by simp
      then show ?thesis using last first [of "y + 1" e] \<open>doe = year_end y\<close> y False by (simp add: year_end_def)
    qed
  qed
qed

lemma days_to_date_next: "0 \<le> n \<Longrightarrow> days_to_date (n + 1) = next_day (days_to_date n)"
proof -
  assume n: "0 \<le> n"
  let ?z = "n + 719468"
  have m: "0 \<le> ?z mod 146097" "?z mod 146097 < 146097" by simp_all
  have step: "(?z + 1) div 146097 = (if ?z mod 146097 = 146096 then ?z div 146097 + 1 else ?z div 146097)"
    "(?z + 1) mod 146097 = (if ?z mod 146097 = 146096 then 0 else ?z mod 146097 + 1)"
  proof -
    have z: "?z + 1 = 146097 * (?z div 146097) + (?z mod 146097 + 1)" by simp
    have w: "?z mod 146097 = 146096 \<Longrightarrow> ?z + 1 = 146097 * (?z div 146097 + 1) + 0" using z by simp
    show "(?z + 1) div 146097 = (if ?z mod 146097 = 146096 then ?z div 146097 + 1 else ?z div 146097)"
      using int_div_pos_eq [OF z] int_div_pos_eq [OF w] m by auto
    show "(?z + 1) mod 146097 = (if ?z mod 146097 = 146096 then 0 else ?z mod 146097 + 1)"
      using int_mod_pos_eq [OF z] int_mod_pos_eq [OF w] m by auto
  qed
  have "n + 1 + 719468 = ?z + 1" by simp
  then show ?thesis
    unfolding days_to_date_era using next_day_in_era [OF m, of "?z div 146097"] step
    by (cases "?z mod 146097 = 146096") (simp_all only: if_True if_False simp_thms)
qed

lemma days_to_date_calendar: "days_to_date (int n) = calendar n"
proof (induction n)
  case 0
  have "days_to_date 0 = (1970, 1, 1)" by code_simp
  then show ?case by (simp add: calendar_def)
next
  case (Suc n)
  then show ?case using days_to_date_next [of "int n"] by (simp add: calendar_def add.commute)
qed

lemma year_of_range: "0 \<le> doe \<Longrightarrow> doe < 146097 \<Longrightarrow> 0 \<le> year_of doe \<and> year_of doe < 400"
  using year_exists year_of_eq by blast

lemma civil_days_to_date:
  assumes "0 \<le> n" "n \<le> 700000000000"
  shows "civil_from_days n = days_to_date n"
proof -
  let ?z = "n + 719468"
  have "year_of (?z mod 146097) < 400" "0 \<le> year_of (?z mod 146097)"
    using year_of_range [of "?z mod 146097"] by simp_all
  moreover have "?z div 146097 \<le> 5000000" "0 \<le> ?z div 146097"
    using assms by (simp_all add: zdiv_mono1 [of ?z "730485000000" 146097, simplified] div_int_pos_iff)
  ultimately have y: "0 \<le> fst (days_to_date n)" "fst (days_to_date n) < 2 ^ 31"
    by (auto simp: days_to_date_era date_in_era_def Let_def)
  have s: "sint (word_of_int y :: 32 word) = y" if "0 \<le> y" "y < 2 ^ 31" for y
    using that by (simp add: sint_sbintrunc' signed_take_bit_int_eq_self)
  have "civil_from_days n =
      (sint (word_of_int (fst (days_to_date n)) :: 32 word), snd (days_to_date n))"
  proof -
    have "0 \<le> ?z" using assms by simp
    then show ?thesis
      by (simp only: civil_from_days_def days_to_date_def Let_def if_True minus_div_mult_eq_mod fst_conv snd_conv)
  qed
  then show ?thesis using s [OF y] by simp
qed



section \<open>Day epochs are ordered as the days are\<close>

text \<open>Dates of the calendar are valid and grow.\<close>

definition date_key :: "int \<times> int \<times> int \<Rightarrow> int" where
  "date_key t = (case t of (y, m, d) \<Rightarrow> 10000 * y + 100 * m + d)"

fun valid_date :: "int \<times> int \<times> int \<Rightarrow> bool" where
  "valid_date (y, m, d) \<longleftrightarrow> 0 \<le> y \<and> 1 \<le> m \<and> m \<le> 12 \<and> 1 \<le> d \<and> d \<le> 31"

lemma next_day_grows: "valid_date t \<Longrightarrow> valid_date (next_day t) \<and> date_key t < date_key (next_day t)"
  by (cases t) (auto simp: date_key_def month_length_def split: if_splits)

lemma calendar_valid: "valid_date (calendar n)"
  by (induction n) (simp_all add: calendar_def next_day_grows del: next_day.simps)

lemma calendar_grows: "a < b \<Longrightarrow> date_key (calendar a) < date_key (calendar b)"
proof (induction b)
  case (Suc b)
  have "date_key (calendar b) < date_key (calendar (Suc b))"
    using next_day_grows [OF calendar_valid [of b]] by (simp add: calendar_def del: next_day.simps)
  then show ?case using Suc by (cases "a = b") (auto simp: less_Suc_eq)
qed simp

lemma date_key_last: "calendar 2932896 = (9999, 12, 31)"
proof -
  have "civil_from_days 2932896 = (9999, 12, 31)" by code_simp
  then show ?thesis using civil_days_to_date [of 2932896] days_to_date_calendar [of 2932896] by simp
qed

text \<open>Decimals of a fixed width, as \<open>{:04}\<close> and \<open>{:02}\<close> print them.\<close>

lemma append_less:
  fixes a c :: string
  shows "length a = length c \<Longrightarrow> a @ b < c @ d \<longleftrightarrow> a < c \<or> a = c \<and> b < d"
  by (induction a c rule: list_induct2) auto

lemma dec_length: "n < 10 ^ Suc w \<Longrightarrow> length (dec n) \<le> Suc w"
proof (induction w arbitrary: n)
  case 0
  then show ?case by (subst dec.simps) simp
next
  case (Suc w)
  show ?case
  proof (cases "n < 10")
    case True
    then show ?thesis by (subst dec.simps) simp
  next
    case False
    have "n div 10 < 10 ^ Suc w" using Suc.prems by (simp add: less_mult_imp_div_less mult.commute)
    then show ?thesis using Suc.IH False by (subst dec.simps) simp
  qed
qed

definition fixed_dec :: "nat \<Rightarrow> nat \<Rightarrow> string" where
  "fixed_dec w n = replicate (w - length (dec n)) CHR ''0'' @ dec n"

lemma pad_zero_fixed: "pad_zero w (int n) = fixed_dec w n"
  by (simp add: pad_zero_def fixed_dec_def)

lemma fixed_dec_length: "n < 10 ^ Suc w \<Longrightarrow> length (fixed_dec (Suc w) n) = Suc w"
  using dec_length [of n w] by (simp add: fixed_dec_def)

lemma fixed_dec_step: "fixed_dec (Suc (Suc w)) n = fixed_dec (Suc w) (n div 10) @ [digit_char (n mod 10)]"
proof (cases "n < 10")
  case True
  have "digit_char 0 = CHR ''0''" by code_simp
  then show ?thesis using True dec.simps [of n] dec.simps [of 0] replicate_app_Cons_same [of w "CHR ''0''" "[]"]
    by (simp add: fixed_dec_def flip: replicate_append_same)
next
  case False
  then show ?thesis using dec.simps [of n] by (simp add: fixed_dec_def)
qed

lemma digit_char_less: "a < 10 \<Longrightarrow> b < 10 \<Longrightarrow> digit_char a < digit_char b \<longleftrightarrow> a < b"
  by (simp add: digit_char_def chr_def less_char_def)

lemma fixed_dec_less:
  "a < 10 ^ Suc w \<Longrightarrow> b < 10 ^ Suc w \<Longrightarrow> fixed_dec (Suc w) a < fixed_dec (Suc w) b \<longleftrightarrow> a < b"
proof (induction w arbitrary: a b)
  case 0
  then show ?case by (simp add: fixed_dec_def dec.simps digit_char_less)
next
  case (Suc w)
  have d: "a div 10 < 10 ^ Suc w" "b div 10 < 10 ^ Suc w"
    using Suc.prems by (simp_all add: less_mult_imp_div_less mult.commute)
  have "fixed_dec (Suc w) (a div 10) = fixed_dec (Suc w) (b div 10) \<longleftrightarrow> a div 10 = b div 10"
    using Suc.IH [OF d] Suc.IH [OF d(2,1)] by (metis less_irrefl linorder_neqE_nat)
  then have "fixed_dec (Suc (Suc w)) a < fixed_dec (Suc (Suc w)) b \<longleftrightarrow>
      a div 10 < b div 10 \<or> a div 10 = b div 10 \<and> a mod 10 < b mod 10"
    using Suc.IH [OF d] d
    by (simp add: fixed_dec_step append_less fixed_dec_length digit_char_less)
  also have "\<dots> \<longleftrightarrow> a < b"
    using div_mult_mod_eq [of a 10] div_mult_mod_eq [of b 10] mod_less_divisor [of 10 a] mod_less_divisor [of 10 b]
    by linarith
  finally show ?case .
qed

lemma fixed_dec_digits: "c \<in> set (fixed_dec w n) \<Longrightarrow> is_ascii_digit c"
  by (auto simp: fixed_dec_def dest: dec_digits split: if_splits) (simp add: is_ascii_digit_def code_def)

definition epoch_text :: "nat \<times> nat \<times> nat \<Rightarrow> string" where
  "epoch_text t = (case t of (y, m, d) \<Rightarrow> fixed_dec 4 y @ ''-'' @ fixed_dec 2 m @ ''-'' @ fixed_dec 2 d)"

lemma epoch_lengths:
  "y < 10000 \<Longrightarrow> length (fixed_dec 4 y) = 4" "m < 100 \<Longrightarrow> length (fixed_dec 2 m) = 2"
  using fixed_dec_length [of y 3] fixed_dec_length [of m 1, unfolded Suc_1] by simp_all

lemma fixed_dec_lesses:
  "y < 10000 \<Longrightarrow> z < 10000 \<Longrightarrow> fixed_dec 4 y < fixed_dec 4 z \<longleftrightarrow> y < z"
  "m < 100 \<Longrightarrow> k < 100 \<Longrightarrow> fixed_dec 2 m < fixed_dec 2 k \<longleftrightarrow> m < k"
  using fixed_dec_less [of y 3 z] fixed_dec_less [of m 1 k, unfolded Suc_1] by simp_all

lemma fixed_dec_eqs:
  "y < 10000 \<Longrightarrow> z < 10000 \<Longrightarrow> fixed_dec 4 y = fixed_dec 4 z \<longleftrightarrow> y = z"
  "m < 100 \<Longrightarrow> k < 100 \<Longrightarrow> fixed_dec 2 m = fixed_dec 2 k \<longleftrightarrow> m = k"
  using fixed_dec_lesses(1) [of y z] fixed_dec_lesses(1) [of z y] fixed_dec_lesses(2) [of m k]
    fixed_dec_lesses(2) [of k m]
  by (metis less_irrefl linorder_neqE_nat)+

lemma epoch_text_less:
  assumes "y < 10000" "z < 10000" "m < 100" "k < 100" "d < 100" "e < 100"
  shows "epoch_text (y, m, d) < epoch_text (z, k, e) \<longleftrightarrow> 10000 * y + 100 * m + d < 10000 * z + 100 * k + e"
proof -
  have "epoch_text (y, m, d) < epoch_text (z, k, e) \<longleftrightarrow> y < z \<or> y = z \<and> (m < k \<or> m = k \<and> d < e)"
    using assms by (simp add: epoch_text_def append_less epoch_lengths fixed_dec_lesses fixed_dec_eqs)
  also have "\<dots> \<longleftrightarrow> 10000 * y + 100 * m + d < 10000 * z + 100 * k + e" using assms by linarith
  finally show ?thesis .
qed

lemma length4: "length xs = 4 \<Longrightarrow> \<exists>a b c d. xs = [a, b, c, d]"
  and length2: "length xs = 2 \<Longrightarrow> \<exists>a b. xs = [a, b]"
  by (auto simp: eval_nat_numeral length_Suc_conv)

lemma epoch_text_parses:
  assumes "y < 10000" "m < 100" "d < 100"
  shows "day_epoch_parse (epoch_text (y, m, d)) = Inr (epoch_text (y, m, d))"
proof -
  obtain a1 a2 a3 a4 b1 b2 c1 c2 where e: "fixed_dec 4 y = [a1, a2, a3, a4]" "fixed_dec 2 m = [b1, b2]"
    "fixed_dec 2 d = [c1, c2]"
    using assms epoch_lengths length4 length2 by metis
  have "list_all is_ascii_digit (fixed_dec 4 y @ fixed_dec 2 m @ fixed_dec 2 d)"
    by (auto simp: list_all_iff intro: fixed_dec_digits)
  then show ?thesis by (simp add: epoch_text_def e day_epoch_parse_def)
qed

text \<open>The date of a second within the years the format holds.\<close>

lemma epoch_of_secs:
  assumes "unat (s div 86400) \<le> 2932896"
  obtains y m d where "day_epoch_from_unix_secs s = epoch_text (y, m, d)" "y < 10000" "m < 100" "d < 100"
    "calendar (unat (s div 86400)) = (int y, int m, int d)"
proof -
  let ?n = "unat (s div 86400)"
  obtain y m d where c: "calendar ?n = (y, m, d)" by (cases "calendar ?n")
  have v: "valid_date (y, m, d)" using calendar_valid [of ?n] by (simp add: c)
  have "date_key (calendar ?n) \<le> date_key (calendar 2932896)"
    using calendar_grows [of ?n 2932896] assms by (cases "?n = 2932896") auto
  then have "y < 10000" using v by (simp add: c date_key_last date_key_def)
  moreover have "civil_from_days (int ?n) = (y, m, d)"
  proof -
    have "civil_from_days (int ?n) = days_to_date (int ?n)"
      by (rule civil_days_to_date) (use assms in linarith)+
    then show ?thesis unfolding days_to_date_calendar c .
  qed
  ultimately show ?thesis
    using v c pad_zero_fixed [of 4 "nat y"] pad_zero_fixed [of 2 "nat m"] pad_zero_fixed [of 2 "nat d"]
    by (intro that [of "nat y" "nat m" "nat d"])
      (simp_all add: day_epoch_from_unix_secs_def epoch_text_def nat_less_iff)
qed

text \<open>Day epochs of the years to 9999 are well formed, and compare as text, which is how the code compares
  them, as the days they stand for.\<close>

theorem day_epochs_chronological:
  assumes "unat (s div 86400) \<le> 2932896" "unat (t div 86400) \<le> 2932896"
  shows "day_epoch_parse (day_epoch_from_unix_secs s) = Inr (day_epoch_from_unix_secs s) \<and>
    (day_epoch_from_unix_secs s < day_epoch_from_unix_secs t \<longleftrightarrow> s div 86400 < t div 86400) \<and>
    (day_epoch_from_unix_secs s = day_epoch_from_unix_secs t \<longleftrightarrow> s div 86400 = t div 86400)"
proof -
  obtain y m d where s: "day_epoch_from_unix_secs s = epoch_text (y, m, d)" "y < 10000" "m < 100" "d < 100"
    "calendar (unat (s div 86400)) = (int y, int m, int d)"
    using epoch_of_secs [OF assms(1)] .
  obtain z k e where t: "day_epoch_from_unix_secs t = epoch_text (z, k, e)" "z < 10000" "k < 100" "e < 100"
    "calendar (unat (t div 86400)) = (int z, int k, int e)"
    using epoch_of_secs [OF assms(2)] .
  let ?a = "unat (s div 86400)" and ?b = "unat (t div 86400)"
  have keys: "date_key (calendar ?a) = int (10000 * y + 100 * m + d)" "date_key (calendar ?b) = int (10000 * z + 100 * k + e)"
    by (simp_all add: s t date_key_def)
  have less: "?a < ?b \<longleftrightarrow> 10000 * y + 100 * m + d < 10000 * z + 100 * k + e"
      "?b < ?a \<longleftrightarrow> 10000 * z + 100 * k + e < 10000 * y + 100 * m + d"
  proof -
    have "?a = ?b \<Longrightarrow> date_key (calendar ?a) = date_key (calendar ?b)" by simp
    then show "?a < ?b \<longleftrightarrow> 10000 * y + 100 * m + d < 10000 * z + 100 * k + e"
      "?b < ?a \<longleftrightarrow> 10000 * z + 100 * k + e < 10000 * y + 100 * m + d"
      using calendar_grows [of ?a ?b] calendar_grows [of ?b ?a] unfolding keys of_nat_less_iff of_nat_eq_iff
      by (cases ?a ?b rule: linorder_cases; simp)+
  qed
  have st: "day_epoch_from_unix_secs s < day_epoch_from_unix_secs t \<longleftrightarrow> ?a < ?b"
    "day_epoch_from_unix_secs t < day_epoch_from_unix_secs s \<longleftrightarrow> ?b < ?a"
    unfolding s(1) t(1) less by (rule epoch_text_less; use s t in simp)+
  then have "day_epoch_from_unix_secs s = day_epoch_from_unix_secs t \<longleftrightarrow> ?a = ?b"
    by (metis less_irrefl linorder_neqE)
  then show ?thesis
    using st epoch_text_parses [OF s(2-4)] by (simp add: s(1) word_less_nat_alt word_unat_eq_iff)
qed

theorem day_epochs_chronological_witness:
  "day_epoch_from_unix_secs 86399 < day_epoch_from_unix_secs 86400 \<longleftrightarrow> (86399 :: u64) div 86400 < 86400 div 86400"
  using day_epochs_chronological [of 86399 86400] by simp

end
