(* ===== verification/Auth.thy ===== *)
theory Auth
  imports Errors
begin

text \<open>
  Who may call what: principals and route classes (\<open>adapters/auth_identity.rs\<close>), the two auth
  adapters (\<open>auth_static.rs\<close>, \<open>auth_mtls.rs\<close>), the sliding-window rate limiter
  (\<open>rate_limit.rs\<close>) and the middleware every protected route of \<open>http.rs\<close> passes.  A verified
  client certificate is given by its URI and DNS names, which \<open>x509_parser\<close> reads; the trust chain
  is rustls' business.
\<close>

section \<open>Principals\<close>

datatype mesh_role = Kfe | Vault

fun role_str :: "mesh_role \<Rightarrow> string" where
  "role_str Kfe = ''kfe''"
| "role_str Vault = ''vault''"

record mesh_principal =
  mp_role :: mesh_role
  mp_node_id :: string
  mp_spiffe_id :: "string option"
  mp_lab_omnipotent :: bool

definition lab_omnipotent :: "string \<Rightarrow> mesh_principal" where
  "lab_omnipotent local =
     \<lparr>mp_role = Vault, mp_node_id = local, mp_spiffe_id = None, mp_lab_omnipotent = True\<rparr>"

datatype route_class = KfeSettlement | VaultPeer | SharedOps | AdminRead

definition allows_route :: "mesh_principal \<Rightarrow> route_class \<Rightarrow> bool" where
  "allows_route p c =
     (mp_lab_omnipotent p \<or>
      (case c of
         KfeSettlement \<Rightarrow> mp_role p = Kfe
       | VaultPeer \<Rightarrow> mp_role p = Vault
       | SharedOps \<Rightarrow> mp_role p = Kfe \<or> mp_role p = Vault
       | AdminRead \<Rightarrow> mp_role p = Vault))"

definition route_class_for_path :: "string \<Rightarrow> route_class option" where
  "route_class_for_path path =
     (let p = hd (split_on (CHR ''?'') path) in
      if prefix ''/v1/admin/'' p then Some AdminRead
      else if prefix ''/v1/sign'' p \<or> prefix ''/v1/financial-quorum'' p \<or> prefix ''/v1/bitcoin/'' p
           \<or> (prefix ''/v1/intent'' p \<and> \<not> prefix ''/v1/intent/consume/'' p)
           \<or> prefix ''/sign/'' p \<or> prefix ''/intent/'' p
      then Some KfeSettlement
      else if prefix ''/v1/dkg/'' p \<or> p = ''/v1/day/vote'' \<or> prefix ''/v1/anti-nonce/'' p
           \<or> prefix ''/v1/intent/consume/'' p \<or> prefix ''/v1/frost/'' p
      then Some VaultPeer
      else if p = ''/v1/day/advance'' \<or> p = ''/v1/day/current'' \<or> p = ''/v1/reshare/trigger''
           \<or> prefix ''/release/'' p \<or> prefix ''/epoch/'' p \<or> p = ''/ledger'' \<or> p = ''/threshold''
           \<or> prefix ''/economy/'' p \<or> p = ''/health''
      then Some SharedOps
      else None)"

definition nth_or_nil :: "string list \<Rightarrow> nat \<Rightarrow> string" where
  "nth_or_nil xs i = (if i < length xs then xs ! i else [])"

definition parse_spiffe_principal :: "string \<Rightarrow> (mesh_role \<times> string option) res" where
  "parse_spiffe_principal raw =
     (let uri = trim raw in
      if \<not> prefix ''spiffe://'' uri then Inl (AuthRejected (''not a SPIFFE URI: '' @ uri))
      else let parts = split_on (CHR ''/'') (drop 9 uri); kind = nth_or_nil parts 1; leaf = nth_or_nil parts 2 in
        if kind = ''kfe'' then Inr (Kfe, Some ''kfe'')
        else if kind = ''vault'' then
          if leaf = [] then Inl (AuthRejected ''SPIFFE vault path missing node segment'')
          else if leaf = ''server'' then Inr (Vault, None)
          else Inr (Vault, Some leaf)
        else Inl (AuthRejected (''unknown SPIFFE workload path: '' @ uri)))"

definition principal_from_cert_sans ::
  "string list \<Rightarrow> string list \<Rightarrow> string \<Rightarrow> string set \<Rightarrow> mesh_principal res" where
  "principal_from_cert_sans uris dns local allowed =
     (case find (\<lambda>u. prefix ''spiffe://'' u) uris of
        None \<Rightarrow> Inl (AuthRejected ''client cert missing SPIFFE URI SAN (required for mesh principal)'')
      | Some spiffe \<Rightarrow>
          rbind (parse_spiffe_principal spiffe) (\<lambda>(role, path_node).
          rbind (case role of
                   Kfe \<Rightarrow> Inr (case path_node of Some i \<Rightarrow> i | None \<Rightarrow> ''kfe'')
                 | Vault \<Rightarrow>
                     (case path_node of
                        Some i \<Rightarrow>
                          if i \<notin> allowed \<and> i \<noteq> local
                          then Inl (AuthRejected (''SPIFFE vault node '' @ i @ '' is not a known mesh node''))
                          else Inr i
                      | None \<Rightarrow>
                          (case filter (\<lambda>d. d \<in> allowed \<or> d = local) dns of
                             [one] \<Rightarrow> Inr one
                           | [] \<Rightarrow> Inl (AuthRejected
                               ''vault/server SVID has no DNS SAN matching a known VAULT_NODE_ID'')
                           | _ \<Rightarrow> Inl (AuthRejected
                               ''vault/server SVID DNS SAN ambiguous among mesh node ids'')))) (\<lambda>node.
            Inr \<lparr>mp_role = role, mp_node_id = node, mp_spiffe_id = Some spiffe, mp_lab_omnipotent = False\<rparr>)))"

text \<open>An optional header or field, trimmed, that is present and not empty.\<close>

definition nonempty_field :: "string option \<Rightarrow> string option" where
  "nonempty_field f =
     (case f of None \<Rightarrow> None | Some s \<Rightarrow> (let t = trim s in if t = [] then None else Some t))"

definition resolve_mesh_caller ::
  "string \<Rightarrow> string set \<Rightarrow> string option \<Rightarrow> string option \<Rightarrow> string option \<Rightarrow> mesh_principal option
     \<Rightarrow> string res" where
  "resolve_mesh_caller local allowed header_node claimed mtls_peer who =
     rbind
       (case (case who of Some p \<Rightarrow> if mp_lab_omnipotent p then None else Some p | None \<Rightarrow> None) of
          Some p \<Rightarrow>
            if mp_role p \<noteq> Vault
            then Inl (AuthRejected ''day/vote requires vault peer principal (not kfe)'')
            else if mp_node_id p \<notin> allowed \<and> mp_node_id p \<noteq> local
            then Inl (AuthRejected (''mTLS principal '' @ mp_node_id p @ '' is not a known mesh node''))
            else Inr (mp_node_id p)
        | None \<Rightarrow>
            (case nonempty_field mtls_peer of
               Some peer \<Rightarrow>
                 if peer \<notin> allowed \<and> peer \<noteq> local
                 then Inl (AuthRejected (''mTLS peer identity '' @ peer @ '' is not a known mesh node''))
                 else Inr peer
             | None \<Rightarrow>
                 (case nonempty_field header_node of
                    Some h \<Rightarrow>
                      if h \<notin> allowed \<and> h \<noteq> local
                      then Inl (AuthRejected (''X-Vault-Node-Id '' @ h @ '' is not a known mesh node''))
                      else Inr h
                  | None \<Rightarrow> Inr local)))
       (\<lambda>identity.
          case nonempty_field claimed of
            Some raw \<Rightarrow>
              if raw \<noteq> identity
              then Inl (AuthRejected (''voter '' @ raw @ '' does not match authenticated vault identity '' @ identity))
              else Inr identity
          | None \<Rightarrow> Inr identity)"

definition bind_dkg_sender :: "string \<Rightarrow> mesh_principal option \<Rightarrow> bool \<Rightarrow> unit res" where
  "bind_dkg_sender sender_node who lab_token =
     (let sender = trim sender_node in
      if sender = [] then Inl (AuthRejected ''DKG sender_node_id required'')
      else if lab_token then Inr ()
      else case who of
        None \<Rightarrow> Inl (AuthRejected ''DKG ingest requires authenticated mTLS vault principal'')
      | Some p \<Rightarrow>
          if mp_lab_omnipotent p then Inr ()
          else if mp_role p \<noteq> Vault then Inl (AuthRejected ''DKG peer rounds require vault role (not kfe)'')
          else if mp_node_id p \<noteq> sender
          then Inl (AuthRejected (''DKG sender_node_id '' @ sender @ '' does not match TLS peer identity '' @ mp_node_id p))
          else Inr ())"

definition mesh_allowed_node_ids :: "string \<Rightarrow> string list \<Rightarrow> string set" where
  "mesh_allowed_node_ids local seeds = insert local (set (filter (\<lambda>i. i \<noteq> []) (map trim seeds)))"


section \<open>Auth adapters\<close>

datatype auth_adapter =
    StaticTokenAuth string bool bool
  | MutualTlsAuth bool

fun auth_mode_name :: "auth_adapter \<Rightarrow> string" where
  "auth_mode_name (StaticTokenAuth e t r) = ''static_token''"
| "auth_mode_name (MutualTlsAuth r) = ''mtls''"

definition with_treasury_signing :: "string \<Rightarrow> bool \<Rightarrow> auth_adapter" where
  "with_treasury_signing token allowed = StaticTokenAuth token allowed allowed"

text \<open>\<open>constant_time_eq\<close> compares as text does.\<close>

fun authorize :: "auth_adapter \<Rightarrow> string option \<Rightarrow> unit res" where
  "authorize (StaticTokenAuth expected t r) header =
     (case header of
        None \<Rightarrow> Inl (AuthRejected ''missing X-Vault-Token'')
      | Some provided \<Rightarrow>
          if provided = [] then Inl (AuthRejected ''missing X-Vault-Token'')
          else if provided \<noteq> expected then Inl (AuthRejected ''invalid X-Vault-Token'')
          else Inr ())"
| "authorize (MutualTlsAuth r) header =
     (case header of
        None \<Rightarrow> Inr ()
      | Some t \<Rightarrow>
          if t \<noteq> [] then Inl (AuthRejected ''static X-Vault-Token refused in mTLS mode; use client certificate'')
          else Inr ())"

fun authorize_treasury_sign :: "auth_adapter \<Rightarrow> unit res" where
  "authorize_treasury_sign (StaticTokenAuth e allowed r) =
     (if \<not> allowed
      then Inl (AuthRejected ''static lab token cannot authorize treasury signing outside lab; use mTLS'')
      else Inr ())"
| "authorize_treasury_sign (MutualTlsAuth r) = Inr ()"

fun authorize_reshare_trigger :: "auth_adapter \<Rightarrow> unit res" where
  "authorize_reshare_trigger (StaticTokenAuth e t allowed) =
     (if \<not> allowed
      then Inl (AuthRejected ''manual reshare trigger refused; lab ceremony or VAULT_ALLOW_MANUAL_RESHARE=1'')
      else Inr ())"
| "authorize_reshare_trigger (MutualTlsAuth allowed) =
     (if \<not> allowed
      then Inl (AuthRejected
        ''manual reshare trigger refused under mTLS without VAULT_ALLOW_MANUAL_RESHARE=1 (or lab)'')
      else Inr ())"


section \<open>Rate limiter\<close>

text \<open>Instants are nanoseconds of the monotonic clock; \<open>duration_since\<close> is zero for a later
  instant, as the subtraction on naturals.  The window is in whole seconds.\<close>

record limiter =
  lm_limit :: u32
  lm_window_secs :: nat
  lm_events :: "string \<Rightarrow> nat list"

definition limiter_new :: "u32 \<Rightarrow> nat \<Rightarrow> limiter" where
  "limiter_new limit w = \<lparr>lm_limit = max limit 1, lm_window_secs = w, lm_events = (\<lambda>_. [])\<rparr>"

definition auth_defaults :: limiter where
  "auth_defaults = limiter_new 60 60"

definition prepare_defaults :: limiter where
  "prepare_defaults = limiter_new 30 60"

definition in_window :: "nat \<Rightarrow> nat \<Rightarrow> nat \<Rightarrow> bool" where
  "in_window w now t = (now - t < w * 1000000000)"

definition limiter_check :: "nat \<Rightarrow> string \<Rightarrow> limiter \<Rightarrow> unit res \<times> limiter" where
  "limiter_check now who l =
     (let kept = filter (in_window (lm_window_secs l) now) (lm_events l who) in
      if (word_of_nat (length kept) :: u32) \<ge> lm_limit l
      then (Inl (RequestRejected (''rate limit exceeded for principal (max '' @ dec_u (lm_limit l) @ ''/''
              @ dec (lm_window_secs l) @ ''s)'')),
            l\<lparr>lm_events := (lm_events l)(who := kept)\<rparr>)
      else (Inr (), l\<lparr>lm_events := (lm_events l)(who := kept @ [now])\<rparr>))"


section \<open>Protected routes\<close>

text \<open>\<open>serde_json\<close> text of a string.\<close>

definition hex_digit :: "nat \<Rightarrow> char" where
  "hex_digit d = (if d < 10 then chr (48 + d) else chr (87 + d))"

definition json_char :: "char \<Rightarrow> string" where
  "json_char c =
     (if code c = 34 then [chr 92, chr 34]
      else if code c = 92 then [chr 92, chr 92]
      else if code c = 8 then [chr 92, CHR ''b'']
      else if code c = 9 then [chr 92, CHR ''t'']
      else if code c = 10 then [chr 92, CHR ''n'']
      else if code c = 12 then [chr 92, CHR ''f'']
      else if code c = 13 then [chr 92, CHR ''r'']
      else if code c < 32 then [chr 92] @ ''u00'' @ [hex_digit (code c div 16), hex_digit (code c mod 16)]
      else [c])"

definition json_string :: "string \<Rightarrow> string" where
  "json_string s = [chr 34] @ concat (map json_char s) @ [chr 34]"

definition json_err_text :: "string \<Rightarrow> string" where
  "json_err_text m = ''{'' @ json_string ''error'' @ '':'' @ json_string m @ ''}''"

definition json_err :: "domain_error \<Rightarrow> string" where
  "json_err e = json_err_text (display e)"

type_synonym http_reply = "nat \<times> string"

record http_request =
  hq_path :: string
  hq_token :: "string option"
  hq_node :: "string option"
  hq_mtls_peer :: "string option"
  hq_cert :: "(string list \<times> string list) res option"

record gate_config =
  gc_auth :: auth_adapter
  gc_static_mode :: bool
  gc_node_id :: string
  gc_seed_peers :: "string list"

fun class_text :: "route_class \<Rightarrow> string" where
  "class_text KfeSettlement = ''kfe settlement only''"
| "class_text VaultPeer = ''vault peer only''"
| "class_text SharedOps = ''shared ops''"
| "class_text AdminRead = ''vault operator read only''"

definition caller_principal :: "gate_config \<Rightarrow> http_request \<Rightarrow> (http_reply + mesh_principal)" where
  "caller_principal g q =
     (let allowed = mesh_allowed_node_ids (gc_node_id g) (gc_seed_peers g) in
      if gc_static_mode g then Inr (lab_omnipotent (gc_node_id g))
      else case hq_cert q of
        Some sans \<Rightarrow>
          (case rbind sans (\<lambda>(uris, dns). principal_from_cert_sans uris dns (gc_node_id g) allowed) of
             Inl e \<Rightarrow> Inl (401, json_err e)
           | Inr p \<Rightarrow> Inr p)
      | None \<Rightarrow> Inl (401, json_err_text ''auth rejected: mTLS client certificate required for mesh principal''))"

definition require_token ::
  "gate_config \<Rightarrow> nat \<Rightarrow> http_request \<Rightarrow> limiter \<Rightarrow> (http_reply + mesh_principal) \<times> limiter" where
  "require_token g now q l =
     (case authorize (gc_auth g) (hq_token q) of
        Inl e \<Rightarrow> (Inl (401, json_err e), l)
      | Inr _ \<Rightarrow>
          (case limiter_check now (case hq_node q of Some h \<Rightarrow> h | None \<Rightarrow> gc_node_id g) l of
             (Inl e, l1) \<Rightarrow> (Inl (429, json_err e), l1)
           | (Inr _, l1) \<Rightarrow>
               (case caller_principal g q of
                  Inl r \<Rightarrow> (Inl r, l1)
                | Inr p \<Rightarrow>
                    (case route_class_for_path (hq_path q) of
                       None \<Rightarrow> (Inr p, l1)
                     | Some c \<Rightarrow>
                         if \<not> allows_route p c
                         then (Inl (403, json_err_text (''auth rejected: role '' @ role_str (mp_role p)
                                 @ '' cannot call '' @ hq_path q @ '' ('' @ class_text c @ '')'')), l1)
                         else (Inr p, l1)))))"

text \<open>The protected routes of \<open>build_router\<close>; a wildcard route is given by its fixed part.\<close>

definition protected_routes :: "string list" where
  "protected_routes =
    [''/v1/sign'', ''/v1/financial-quorum'', ''/v1/financial-quorum/context'', ''/v1/admin/status'',
     ''/v1/admin/ceremony'', ''/v1/intent'', ''/v1/intent/reserve'', ''/v1/intent/release'',
     ''/v1/intent/commit'', ''/v1/bitcoin/deposit'', ''/v1/bitcoin/sign-sighash'',
     ''/v1/bitcoin/sign-psbt'', ''/v1/dkg/round1'', ''/v1/dkg/round2'', ''/v1/dkg/round3'',
     ''/v1/dkg/status'', ''/v1/dkg/tr/round1'', ''/v1/dkg/tr/round2'', ''/v1/dkg/tr/round3'',
     ''/v1/dkg/tr/status'', ''/v1/reshare/tr/round1'', ''/v1/reshare/tr/round2'',
     ''/v1/reshare/tr/finalize'', ''/v1/reshare/tr/status'', ''/v1/anti-nonce/prepare'',
     ''/v1/anti-nonce/ingest'', ''/v1/intent/consume/prepare'', ''/v1/day/advance'', ''/v1/day/vote'',
     ''/v1/day/current'', ''/v1/reshare/trigger'', ''/v1/frost/tr/commit'', ''/v1/frost/tr/sign-share'',
     ''/health'', ''/ledger'', ''/threshold'', ''/economy/status'', ''/release/allowlist'', ''/release/'',
     ''/epoch/'', ''/sign/'', ''/intent/'', ''/profit/'', ''/economy/'']"


section \<open>Lemmas\<close>

lemma nonempty_field_trim: "nonempty_field f = Some s \<Longrightarrow> trim s = s \<and> s \<noteq> []"
  by (auto simp: nonempty_field_def Let_def split: option.splits if_splits)

lemma cert_principal:
  assumes "principal_from_cert_sans uris dns local allowed = Inr p"
  shows "\<not> mp_lab_omnipotent p \<and> (mp_role p = Vault \<longrightarrow> mp_node_id p \<in> insert local allowed)
    \<and> (\<exists>u \<in> set uris. prefix ''spiffe://'' u \<and> mp_spiffe_id p = Some u)"
proof -
  obtain u where u: "find (\<lambda>u. prefix ''spiffe://'' u) uris = Some u"
    using assms by (auto simp: principal_from_cert_sans_def split: option.splits)
  then have in_u: "u \<in> set uris" "prefix ''spiffe://'' u" by (auto simp: find_Some_iff)
  obtain role pn where pn: "parse_spiffe_principal u = Inr (role, pn)"
    using assms u by (auto simp: principal_from_cert_sans_def rbind_Inr_iff)
  note eq = assms [unfolded principal_from_cert_sans_def u option.case pn rbind_simps prod.case]
  have n: "\<not> mp_lab_omnipotent p" "mp_spiffe_id p = Some u" "mp_role p = role"
    using eq by (auto simp: rbind_Inr_iff)
  have "mp_node_id p \<in> insert local allowed" if v: "role = Vault"
  proof (cases pn)
    case (Some i)
    then show ?thesis using eq v by (auto split: if_splits)
  next
    case None
    let ?m = "filter (\<lambda>d. d \<in> allowed \<or> d = local) dns"
    consider "?m = []" | d where "?m = [d]" | d e xs where "?m = d # e # xs"
      by (metis list.exhaust)
    then show ?thesis
    proof cases
      case 2
      then have "d \<in> set ?m" by simp
      then have "d \<in> insert local allowed" by auto
      moreover have "mp_node_id p = d" using eq v None 2 by auto
      ultimately show ?thesis by simp
    qed (use eq v None in simp_all)
  qed
  then show ?thesis using in_u n by blast
qed

lemma require_token_ok:
  assumes "require_token g now q l = (Inr p, l')"
  shows "authorize (gc_auth g) (hq_token q) = Inr ()" "caller_principal g q = Inr p"
    "\<And>c. route_class_for_path (hq_path q) = Some c \<Longrightarrow> allows_route p c"
  using assms
  by (auto simp: require_token_def split: sum.splits prod.splits option.splits if_splits)

lemma caller_principal_mtls:
  assumes "caller_principal g q = Inr p" "\<not> gc_static_mode g"
  obtains uris dns where "hq_cert q = Some (Inr (uris, dns))"
    "principal_from_cert_sans uris dns (gc_node_id g) (mesh_allowed_node_ids (gc_node_id g) (gc_seed_peers g)) = Inr p"
proof -
  obtain sans where c: "hq_cert q = Some sans"
    using assms by (auto simp: caller_principal_def Let_def split: option.splits)
  obtain u d where s: "sans = Inr (u, d)"
    using assms c by (cases sans) (auto simp: caller_principal_def Let_def)
  show ?thesis
    using assms c s by (intro that [of u d]) (auto simp: caller_principal_def Let_def split: sum.splits)
qed


section \<open>How many calls a window admits\<close>

fun admitted :: "(nat \<times> string) list \<Rightarrow> limiter \<Rightarrow> (nat \<times> string) list" where
  "admitted [] l = []"
| "admitted ((t, who) # ops) l =
     (case limiter_check t who l of
        (Inl _, l1) \<Rightarrow> admitted ops l1
      | (Inr _, l1) \<Rightarrow> (t, who) # admitted ops l1)"

definition times_of :: "string \<Rightarrow> (nat \<times> string) list \<Rightarrow> nat list" where
  "times_of who xs = map fst (filter (\<lambda>x. snd x = who) xs)"

definition span_count :: "nat \<Rightarrow> nat \<Rightarrow> nat list \<Rightarrow> nat" where
  "span_count w t xs = length (filter (\<lambda>x. t \<le> x \<and> x < t + w * 1000000000) xs)"

text \<open>The limiter's list agrees with the admitted times on everything still in the window.\<close>

definition limiter_inv :: "string \<Rightarrow> nat list \<Rightarrow> nat \<Rightarrow> limiter \<Rightarrow> bool" where
  "limiter_inv who as latest l \<longleftrightarrow>
     (\<forall>a \<in> set as. a \<le> latest)
   \<and> (\<forall>now \<ge> latest. filter (in_window (lm_window_secs l) now) (lm_events l who)
                    = filter (in_window (lm_window_secs l) now) as)
   \<and> (\<forall>t. span_count (lm_window_secs l) t as \<le> unat (lm_limit l))"

lemma length_filter_imp: "\<forall>x \<in> set xs. P x \<longrightarrow> Q x \<Longrightarrow> length (filter P xs) \<le> length (filter Q xs)"
  by (induction xs) auto

lemma in_window_span:
  assumes "\<forall>a \<in> set as. a \<le> now" "t \<le> now" "now < t + w * 1000000000"
  shows "span_count w t as \<le> length (filter (in_window w now) as)"
  unfolding span_count_def using assms by (intro length_filter_imp) (auto simp: in_window_def)

lemma window_filter_mono: "now \<le> later \<Longrightarrow> in_window w later a \<Longrightarrow> in_window w now a"
  by (auto simp: in_window_def)

lemma filter_window_twice:
  "now \<le> later \<Longrightarrow> filter (in_window w later) (filter (in_window w now) xs) = filter (in_window w later) xs"
  by (induction xs) (auto dest: window_filter_mono)

lemma window_count_le:
  assumes "\<forall>t. span_count w t as \<le> n" "\<forall>a \<in> set as. a \<le> now"
  shows "length (filter (in_window w now) as) \<le> n"
proof -
  define N where "N = w * 1000000000"
  have "span_count w (Suc now - N) as = length (filter (in_window w now) as) \<or> N = 0"
    unfolding span_count_def N_def [symmetric] in_window_def
    using assms(2) by (auto intro!: arg_cong [where f = length] filter_cong)
  moreover have "N = 0 \<Longrightarrow> filter (in_window w now) as = []" by (simp add: in_window_def N_def)
  ultimately show ?thesis using assms(1) by (metis le0 list.size(3))
qed

lemma limiter_check_other: "v \<noteq> who \<Longrightarrow> lm_events (snd (limiter_check now v l)) who = lm_events l who"
  by (simp add: limiter_check_def Let_def)

lemma limiter_check_params [simp]:
  "lm_limit (snd (limiter_check now v l)) = lm_limit l"
  "lm_window_secs (snd (limiter_check now v l)) = lm_window_secs l"
  by (simp_all add: limiter_check_def Let_def)

lemma limiter_step:
  assumes inv: "limiter_inv who as latest l" and now: "latest \<le> now"
  shows "limiter_inv who (as @ (if v = who \<and> is_ok (fst (limiter_check now v l)) then [now] else [])) now
           (snd (limiter_check now v l))"
proof -
  let ?w = "lm_window_secs l"
  have le: "\<forall>a \<in> set as. a \<le> now" and c: "\<forall>t. span_count ?w t as \<le> unat (lm_limit l)"
    and f: "\<And>m. now \<le> m \<Longrightarrow> filter (in_window ?w m) (lm_events l who) = filter (in_window ?w m) as"
    using inv now by (auto simp: limiter_inv_def)
  show ?thesis
  proof (cases "v = who")
    case False
    then show ?thesis using le c f now
      by (auto simp: limiter_inv_def limiter_check_other)
  next
    case True
    let ?kept = "filter (in_window ?w now) as"
    have k: "length ?kept \<le> unat (lm_limit l)" by (rule window_count_le [OF c le])
    moreover have "unat (lm_limit l) < 2 ^ 32" using unsigned_less [of "lm_limit l"] by simp
    ultimately have "length ?kept < 2 ^ 32" by linarith
    then have u: "unat (word_of_nat (length ?kept) :: u32) = length ?kept"
      by (simp add: unsigned_of_nat take_bit_nat_eq_self)
    have e: "filter (in_window ?w now) (lm_events l who) = ?kept" using f by simp
    show ?thesis
    proof (cases "(word_of_nat (length ?kept) :: u32) \<ge> lm_limit l")
      case True
      then have "snd (limiter_check now v l) = l\<lparr>lm_events := (lm_events l)(who := ?kept)\<rparr>"
        and "\<not> is_ok (fst (limiter_check now v l))"
        using \<open>v = who\<close> e by (simp_all add: limiter_check_def Let_def)
      then show ?thesis using le c filter_window_twice [of now] by (simp add: limiter_inv_def)
    next
      case no: False
      then have lt: "length ?kept < unat (lm_limit l)" using u by (simp add: word_le_nat_alt)
      have r: "limiter_check now v l = (Inr (), l\<lparr>lm_events := (lm_events l)(who := ?kept @ [now])\<rparr>)"
        using no \<open>v = who\<close> e by (simp add: limiter_check_def Let_def)
      have "span_count ?w t (as @ [now]) \<le> unat (lm_limit l)" for t
      proof (cases "t \<le> now \<and> now < t + ?w * 1000000000")
        case True
        then have "span_count ?w t as \<le> length ?kept" using in_window_span [OF le] by blast
        then show ?thesis using lt by (simp add: span_count_def)
      next
        case False
        then have "span_count ?w t (as @ [now]) = span_count ?w t as" by (auto simp: span_count_def)
        then show ?thesis using c by simp
      qed
      then show ?thesis using le r \<open>v = who\<close> filter_window_twice [of now] by (simp add: limiter_inv_def)
    qed
  qed
qed

lemma admitted_bound:
  assumes "limiter_inv who as latest l" "sorted (latest # map fst ops)"
  shows "span_count (lm_window_secs l) t (as @ times_of who (admitted ops l)) \<le> unat (lm_limit l)"
  using assms
proof (induction ops arbitrary: as latest l)
  case Nil
  then show ?case by (simp add: times_of_def limiter_inv_def)
next
  case (Cons op ops)
  obtain now v where op: "op = (now, v)" by (cases op)
  obtain x l1 where x: "limiter_check now v l = (x, l1)" by (cases "limiter_check now v l")
  let ?new = "if v = who \<and> is_ok x then [now] else []"
  have "limiter_inv who (as @ ?new) now l1"
    using limiter_step [OF Cons.prems(1), of now v] Cons.prems(2) op x by simp
  moreover have "sorted (now # map fst ops)" using Cons.prems(2) op by simp
  ultimately have "span_count (lm_window_secs l1) t ((as @ ?new) @ times_of who (admitted ops l1)) \<le> unat (lm_limit l1)"
    by (rule Cons.IH)
  moreover have "lm_window_secs l1 = lm_window_secs l" "lm_limit l1 = lm_limit l"
    using limiter_check_params [of now v l] x by simp_all
  moreover have "as @ times_of who (admitted (op # ops) l) = (as @ ?new) @ times_of who (admitted ops l1)"
    using op x by (cases x) (simp_all add: times_of_def)
  ultimately show ?case by (simp only:)
qed


section \<open>Properties\<close>

text \<open>C17: the rate limiter keeps its quota: over any sequence of checks at times that do not go back, no
  span of one window's length admits more than the limit (at least one) for any principal.\<close>

theorem limiter_quota:
  assumes "sorted (map fst ops)"
  shows "span_count w t (times_of who (admitted ops (limiter_new n w))) \<le> max (unat n) 1"
proof -
  have i: "limiter_inv who [] 0 (limiter_new n w)" by (simp add: limiter_inv_def limiter_new_def span_count_def)
  have "unat (max n 1) = max (unat n) 1" by (simp add: max_def word_le_nat_alt)
  then show ?thesis
    using admitted_bound [OF i, of ops t] assms by (simp add: limiter_new_def)
qed

theorem limiter_quota_witness:
  "span_count 60 0 (times_of ''a'' (admitted [(0, ''a''), (1, ''a''), (2, ''a'')] (limiter_new 2 60))) \<le> 2"
  using limiter_quota [of "[(0, ''a''), (1, ''a''), (2, ''a'')]" 60 0 "''a''" 2] by simp


definition lab_gate :: gate_config where
  "lab_gate = \<lparr>gc_auth = MutualTlsAuth False, gc_static_mode = False, gc_node_id = ''v1'', gc_seed_peers = [''v2'']\<rparr>"

definition lab_request :: http_request where
  "lab_request = \<lparr>hq_path = ''/v1/day/vote'', hq_token = None, hq_node = None, hq_mtls_peer = None,
     hq_cert = Some (Inr ([''spiffe://td/vault/v2''], []))\<rparr>"


text \<open>A day vote is recorded for who cast it: for a caller with a certificate, the voter the handler
  records is the certificate's own node, a vault of the mesh, and neither a header nor the body
  can name another.\<close>

theorem day_voter_is_caller:
  assumes "resolve_mesh_caller local allowed header_node claimed mtls_peer (Some p) = Inr v"
    and "\<not> mp_lab_omnipotent p"
  shows "v = mp_node_id p \<and> mp_role p = Vault \<and> v \<in> insert local allowed
    \<and> (\<forall>raw. nonempty_field claimed = Some raw \<longrightarrow> raw = v)"
  using assms by (auto simp: resolve_mesh_caller_def rbind_Inr_iff split: option.splits if_splits)

theorem day_voter_is_caller_witness:
  "resolve_mesh_caller ''v1'' {''v1'', ''v2''} (Some ''v1'') (Some '' v2 '') None
     (Some \<lparr>mp_role = Vault, mp_node_id = ''v2'', mp_spiffe_id = None, mp_lab_omnipotent = False\<rparr>) = Inr ''v2''
   \<and> ''v2'' \<in> insert ''v1'' {''v1'', ''v2''}"
proof -
  let ?p = "\<lparr>mp_role = Vault, mp_node_id = ''v2'', mp_spiffe_id = None, mp_lab_omnipotent = False\<rparr> :: mesh_principal"
  have r: "resolve_mesh_caller ''v1'' {''v1'', ''v2''} (Some ''v1'') (Some '' v2 '') None (Some ?p) = Inr ''v2''"
    by code_simp
  show ?thesis using day_voter_is_caller [OF r] r by simp
qed

text \<open>The role check covers every protected route but two groups: exactly the profit allocation and the
  wire reshare routes have no class, so that any authenticated caller reaches them.\<close>

theorem unclassified_routes:
  "filter (\<lambda>r. route_class_for_path r = None) protected_routes =
     [''/v1/reshare/tr/round1'', ''/v1/reshare/tr/round2'', ''/v1/reshare/tr/finalize'',
      ''/v1/reshare/tr/status'', ''/profit/'']"
  by code_simp

end
