(* ===== verification/Release.thy ===== *)
theory Release
  imports EconomyOps Durable
begin

text \<open>
  Releases: candidates, rebuild attestations and the allowlist (\<open>vault-core/src/domain/release.rs\<close>),
  their use cases (\<open>application/release_ops.rs\<close>), the in-memory mesh (\<open>adapters/release_memory.rs\<close>)
  and its durable snapshot (\<open>adapters/release_persist.rs\<close>).  A content hash is its text;
  \<open>ContentHash::from_bytes\<close> is the digest parameter \<open>sha\<close>.  The snapshot file is kept as the value
  its JSON denotes, the outcomes of the coming writes are a list.
\<close>

section \<open>Candidates\<close>

definition lab_rebuild :: "(string \<Rightarrow> string) \<Rightarrow> string \<Rightarrow> string" where
  "lab_rebuild sha source = sha (''lab-rebuild-v1|'' @ source)"

definition content_hash_parse :: "string \<Rightarrow> string res" where
  "content_hash_parse raw = measurement_from_hex raw"

datatype release_phase = RProposed | RCosigning | RAllowlisted | RRejected

fun release_phase_str :: "release_phase \<Rightarrow> string" where
  "release_phase_str RProposed = ''proposed''"
| "release_phase_str RCosigning = ''cosigning''"
| "release_phase_str RAllowlisted = ''allowlisted''"
| "release_phase_str RRejected = ''rejected''"

record release_policy =
  council_n :: nat
  min_rebuilds :: nat
  vault_n :: nat
  timelock_secs :: u64
  lab_timelock_scale :: u64

definition release_lab_default :: "nat \<Rightarrow> release_policy" where
  "release_lab_default n =
     \<lparr>council_n = 3, min_rebuilds = 3, vault_n = n, timelock_secs = 14 * 24 * 3600, lab_timelock_scale = 0\<rparr>"

definition effective_timelock_secs :: "release_policy \<Rightarrow> u64" where
  "effective_timelock_secs p = sat_mul (timelock_secs p) (lab_timelock_scale p)"

definition council_quorum :: "release_policy \<Rightarrow> nat" where
  "council_quorum p = quorum_two_thirds (council_n p)"

definition vault_cosign_quorum :: "release_policy \<Rightarrow> nat" where
  "vault_cosign_quorum p = vault_n p div 2 + 1"

record release_candidate =
  rc_id :: string
  rc_hs :: string
  rc_hb :: string
  rc_constitution_hash :: string
  rc_council_sigs :: btset
  rc_rebuilds :: "string btmap"
  rc_cosigns :: btset
  rc_created_at_secs :: u64
  rc_phase :: release_phase
  rc_reject_reason :: "string option"

definition candidate_new ::
  "string \<Rightarrow> string \<Rightarrow> string \<Rightarrow> string \<Rightarrow> btset \<Rightarrow> u64 \<Rightarrow> release_candidate res" where
  "candidate_new i hs hb ch council created =
     (if trim i = [] then Inl (InvalidRelease ''empty release id'')
      else if council = [] then Inl (InvalidRelease ''no council signatures'')
      else Inr \<lparr>rc_id = i, rc_hs = hs, rc_hb = hb, rc_constitution_hash = ch, rc_council_sigs = council,
                rc_rebuilds = [], rc_cosigns = [], rc_created_at_secs = created, rc_phase = RProposed,
                rc_reject_reason = None\<rparr>)"

definition closed_phase :: "release_candidate \<Rightarrow> bool" where
  "closed_phase c = (rc_phase c = RAllowlisted \<or> rc_phase c = RRejected)"

definition record_rebuild :: "string \<Rightarrow> string \<Rightarrow> release_candidate \<Rightarrow> release_candidate res" where
  "record_rebuild vault rebuilt c =
     (if closed_phase c then Inl (ReleaseClosed (rc_id c))
      else if rebuilt \<noteq> rc_hb c then Inl (RebuildMismatch (rc_hb c) rebuilt)
      else Inr (c\<lparr>rc_rebuilds := bt_put vault rebuilt (rc_rebuilds c)\<rparr>))"

definition predicates_ok :: "release_policy \<Rightarrow> u64 \<Rightarrow> string \<Rightarrow> release_candidate \<Rightarrow> unit res" where
  "predicates_ok p now active c =
     (if rc_constitution_hash c \<noteq> active then Inl (ReleasePredicate ''constitution_hash mismatch'')
      else if length (rc_council_sigs c) < council_quorum p
      then Inl (QuorumNotMet (length (rc_council_sigs c)) (council_quorum p))
      else if length (rc_rebuilds c) < min_rebuilds p
      then Inl (QuorumNotMet (length (rc_rebuilds c)) (min_rebuilds p))
      else let age = sat_sub now (rc_created_at_secs c); need_age = effective_timelock_secs p in
        if age < need_age then Inl (TimelockNotElapsed age need_age) else Inr ())"

definition add_cosign :: "string \<Rightarrow> release_candidate \<Rightarrow> release_candidate res" where
  "add_cosign vault c =
     (if closed_phase c then Inl (ReleaseClosed (rc_id c))
      else Inr (c\<lparr>rc_cosigns := bs_insert vault (rc_cosigns c), rc_phase := RCosigning\<rparr>))"

definition rebuild_json :: "string \<times> string \<Rightarrow> string" where
  "rebuild_json r = ''{'' @ key ''vault'' @ quoted (fst r) @ '','' @ key ''hb'' @ quoted (snd r) @ ''}''"

definition candidate_json :: "release_candidate \<Rightarrow> string" where
  "candidate_json c =
     ''{'' @ key ''id'' @ quoted (rc_id c) @ '','' @ key ''hs'' @ quoted (rc_hs c) @ '','' @ key ''hb'' @ quoted (rc_hb c)
     @ '','' @ key ''constitution_hash'' @ quoted (rc_constitution_hash c)
     @ '','' @ key ''council_sigs'' @ ''['' @ join_with '','' (map quoted (rc_council_sigs c)) @ '']''
     @ '','' @ key ''rebuilds'' @ ''['' @ join_with '','' (map rebuild_json (rc_rebuilds c)) @ '']''
     @ '','' @ key ''cosigns'' @ ''['' @ join_with '','' (map quoted (rc_cosigns c)) @ '']''
     @ '','' @ key ''created_at_secs'' @ dec_u (rc_created_at_secs c)
     @ '','' @ key ''phase'' @ quoted (release_phase_str (rc_phase c))
     @ '','' @ key ''reject_reason''
         @ (case rc_reject_reason c of Some r \<Rightarrow> quoted r | None \<Rightarrow> ''null'') @ ''}''"

record allowlist_entry =
  al_release_id :: string
  al_hs :: string
  al_hb :: string
  al_activated_at_secs :: u64
  al_constitution_hash :: string

definition admits_measurement :: "string \<Rightarrow> allowlist_entry \<Rightarrow> bool" where
  "admits_measurement m e = (al_hb e = m)"

definition allowlist_json :: "allowlist_entry \<Rightarrow> string" where
  "allowlist_json e =
     ''{'' @ key ''release_id'' @ quoted (al_release_id e) @ '','' @ key ''hs'' @ quoted (al_hs e)
     @ '','' @ key ''hb'' @ quoted (al_hb e) @ '','' @ key ''activated_at_secs'' @ dec_u (al_activated_at_secs e)
     @ '','' @ key ''constitution_hash'' @ quoted (al_constitution_hash e) @ ''}''"


section \<open>The mesh in memory\<close>

record release_mesh =
  rm_policy :: release_policy
  rm_blobs :: "string btmap"
  rm_candidates :: "release_candidate btmap"
  rm_allowlist :: "allowlist_entry list"

definition mesh_new :: "release_policy \<Rightarrow> release_mesh" where
  "mesh_new p = \<lparr>rm_policy = p, rm_blobs = [], rm_candidates = [], rm_allowlist = []\<rparr>"

definition blob_put :: "string \<Rightarrow> string \<Rightarrow> release_mesh \<Rightarrow> release_mesh" where
  "blob_put h bytes m = m\<lparr>rm_blobs := bt_put h bytes (rm_blobs m)\<rparr>"

definition blob_get :: "string \<Rightarrow> release_mesh \<Rightarrow> string res" where
  "blob_get h m = (case bt_get h (rm_blobs m) of Some b \<Rightarrow> Inr b | None \<Rightarrow> Inl (UnknownBlob h))"

definition put_candidate :: "release_candidate \<Rightarrow> release_mesh \<Rightarrow> unit res \<times> release_mesh" where
  "put_candidate c m =
     (if bt_get (rc_id c) (rm_candidates m) \<noteq> None
      then (Inl (InvalidRelease (''release already exists: '' @ rc_id c)), m)
      else (Inr (), m\<lparr>rm_candidates := bt_put (rc_id c) c (rm_candidates m)\<rparr>))"

definition get_candidate :: "string \<Rightarrow> release_mesh \<Rightarrow> release_candidate res" where
  "get_candidate i m = (case bt_get i (rm_candidates m) of Some c \<Rightarrow> Inr c | None \<Rightarrow> Inl (UnknownRelease i))"

definition save_candidate :: "release_candidate \<Rightarrow> release_mesh \<Rightarrow> unit res \<times> release_mesh" where
  "save_candidate c m =
     (if bt_get (rc_id c) (rm_candidates m) = None then (Inl (UnknownRelease (rc_id c)), m)
      else (Inr (), m\<lparr>rm_candidates := bt_put (rc_id c) c (rm_candidates m)\<rparr>))"

definition put_allowlist :: "allowlist_entry \<Rightarrow> release_mesh \<Rightarrow> release_mesh" where
  "put_allowlist e m =
     m\<lparr>rm_allowlist := filter (\<lambda>x. al_release_id x \<noteq> al_release_id e) (rm_allowlist m) @ [e]\<rparr>"

definition is_allowlisted_hb :: "string \<Rightarrow> release_mesh \<Rightarrow> bool" where
  "is_allowlisted_hb hb m = list_ex (\<lambda>e. al_hb e = hb) (rm_allowlist m)"

definition require_hb :: "string \<Rightarrow> release_mesh \<Rightarrow> unit res" where
  "require_hb hb m = (if is_allowlisted_hb hb m then Inr () else Inl (NotAllowlisted hb))"


section \<open>The durable mesh\<close>

record release_meta =
  me_candidates :: "release_candidate list"
  me_allowlist :: "allowlist_entry list"

record release_store =
  rs_mesh :: release_mesh
  rs_meta :: "release_meta option"
  rs_blob_files :: "string btmap"
  rs_outcomes :: "write_outcome list"

definition take_outcome :: "release_store \<Rightarrow> write_outcome \<times> release_store" where
  "take_outcome s =
     (case rs_outcomes s of
        [] \<Rightarrow> (WriteOk, s)
      | w # ws \<Rightarrow> (w, s\<lparr>rs_outcomes := ws\<rparr>))"

definition meta_of :: "release_mesh \<Rightarrow> release_meta" where
  "meta_of m = \<lparr>me_candidates = bt_vals (rm_candidates m), me_allowlist = rm_allowlist m\<rparr>"

definition persist_meta :: "release_store \<Rightarrow> unit res \<times> release_store" where
  "persist_meta s =
     (case take_outcome s of
        (WriteOk, s1) \<Rightarrow> (Inr (), s1\<lparr>rs_meta := Some (meta_of (rs_mesh s))\<rparr>)
      | (WriteFailed e, s1) \<Rightarrow> (Inl (ThresholdError (''release meta persist: '' @ e)), s1)
      | (WriteUnsynced e, s1) \<Rightarrow>
          (Inl (ThresholdError (''release meta persist: '' @ e)), s1\<lparr>rs_meta := Some (meta_of (rs_mesh s))\<rparr>))"

definition persist_blob :: "string \<Rightarrow> string \<Rightarrow> release_store \<Rightarrow> unit res \<times> release_store" where
  "persist_blob h bytes s =
     (case take_outcome s of
        (WriteOk, s1) \<Rightarrow> (Inr (), s1\<lparr>rs_blob_files := bt_put h bytes (rs_blob_files s1)\<rparr>)
      | (WriteFailed e, s1) \<Rightarrow> (Inl (ThresholdError (''release blob persist: '' @ e)), s1)
      | (WriteUnsynced e, s1) \<Rightarrow>
          (Inl (ThresholdError (''release blob persist: '' @ e)), s1\<lparr>rs_blob_files := bt_put h bytes (rs_blob_files s1)\<rparr>))"

definition st_blob_put :: "string \<Rightarrow> string \<Rightarrow> release_store \<Rightarrow> unit res \<times> release_store" where
  "st_blob_put h bytes s = persist_blob h bytes (s\<lparr>rs_mesh := blob_put h bytes (rs_mesh s)\<rparr>)"

definition then_persist :: "unit res \<times> release_mesh \<Rightarrow> release_store \<Rightarrow> unit res \<times> release_store" where
  "then_persist r s =
     (case r of
        (Inl e, m) \<Rightarrow> (Inl e, s\<lparr>rs_mesh := m\<rparr>)
      | (Inr _, m) \<Rightarrow> persist_meta (s\<lparr>rs_mesh := m\<rparr>))"

definition st_put_candidate :: "release_candidate \<Rightarrow> release_store \<Rightarrow> unit res \<times> release_store" where
  "st_put_candidate c s = then_persist (put_candidate c (rs_mesh s)) s"

definition st_save_candidate :: "release_candidate \<Rightarrow> release_store \<Rightarrow> unit res \<times> release_store" where
  "st_save_candidate c s = then_persist (save_candidate c (rs_mesh s)) s"

definition st_put_allowlist :: "allowlist_entry \<Rightarrow> release_store \<Rightarrow> unit res \<times> release_store" where
  "st_put_allowlist e s = then_persist (Inr (), put_allowlist e (rs_mesh s)) s"

text \<open>Boot: candidates of the snapshot are validated again, their hashes and the allowlist's parsed;
  blob files whose name is no hash are skipped.\<close>

definition hydrate_candidate :: "release_candidate \<Rightarrow> release_candidate res" where
  "hydrate_candidate c =
     rbind (content_hash_parse (rc_hs c)) (\<lambda>hs.
     rbind (content_hash_parse (rc_hb c)) (\<lambda>hb.
     rbind (candidate_new (rc_id c) hs hb (rc_constitution_hash c) (bs_of (rc_council_sigs c)) (rc_created_at_secs c)) (\<lambda>n.
     rbind (rmapM (\<lambda>(k, h). rbind (content_hash_parse h) (\<lambda>p. Inr (k, p))) (rc_rebuilds c)) (\<lambda>rb.
       Inr (n\<lparr>rc_phase := rc_phase c, rc_reject_reason := rc_reject_reason c,
              rc_cosigns := bs_of (rc_cosigns c),
              rc_rebuilds := foldl (\<lambda>m (k, h). bt_put k h m) [] rb\<rparr>)))))"

definition hydrate_entry :: "allowlist_entry \<Rightarrow> allowlist_entry res" where
  "hydrate_entry e =
     rbind (content_hash_parse (al_hs e)) (\<lambda>hs.
     rbind (content_hash_parse (al_hb e)) (\<lambda>hb.
       Inr (e\<lparr>al_hs := hs, al_hb := hb\<rparr>)))"

definition hydrate_meta :: "release_meta \<Rightarrow> release_mesh \<Rightarrow> release_mesh res" where
  "hydrate_meta me m =
     rbind (rmapM hydrate_candidate (me_candidates me)) (\<lambda>cs.
     rbind (rmapM hydrate_entry (me_allowlist me)) (\<lambda>es.
       Inr (foldl (\<lambda>m e. put_allowlist e m) (foldl (\<lambda>m c. snd (put_candidate c m)) m cs) es)))"

definition hydrate_blob :: "release_mesh \<Rightarrow> string \<times> string \<Rightarrow> release_mesh" where
  "hydrate_blob m f =
     (case content_hash_parse (fst f) of Inr h \<Rightarrow> blob_put h (snd f) m | Inl _ \<Rightarrow> m)"

definition release_open :: "release_policy \<Rightarrow> release_store \<Rightarrow> release_store res" where
  "release_open p s =
     rbind (case rs_meta s of None \<Rightarrow> Inr (mesh_new p) | Some me \<Rightarrow> hydrate_meta me (mesh_new p)) (\<lambda>m.
       Inr (s\<lparr>rs_mesh := foldl hydrate_blob m (rs_blob_files s)\<rparr>))"


section \<open>Use cases\<close>

definition propose_candidate ::
  "string \<Rightarrow> string \<Rightarrow> string \<Rightarrow> btset \<Rightarrow> u64 \<Rightarrow> constitution \<Rightarrow> release_store \<Rightarrow> release_candidate res \<times> release_store" where
  "propose_candidate i hs hb council now c s =
     (if length council < council_quorum (rm_policy (rs_mesh s))
      then (Inl (QuorumNotMet (length council) (council_quorum (rm_policy (rs_mesh s)))), s)
      else case candidate_new i hs hb (c_hash c) council now of
        Inl e \<Rightarrow> (Inl e, s)
      | Inr cand \<Rightarrow>
          (case st_put_candidate cand s of
             (Inl e, s1) \<Rightarrow> (Inl e, s1)
           | (Inr _, s1) \<Rightarrow> (Inr cand, s1)))"

definition propose_release ::
  "(string \<Rightarrow> string) \<Rightarrow> u64 \<Rightarrow> string \<Rightarrow> string \<Rightarrow> btset \<Rightarrow> constitution \<Rightarrow> release_store
     \<Rightarrow> release_candidate res \<times> release_store" where
  "propose_release sha now i source council c s =
     (let hs = sha source; hb = lab_rebuild sha source in
      case st_blob_put hs source s of
        (Inl e, s1) \<Rightarrow> (Inl e, s1)
      | (Inr _, s1) \<Rightarrow>
          (case st_blob_put hb (''lab-bin|'' @ hs) s1 of
             (Inl e, s2) \<Rightarrow> (Inl e, s2)
           | (Inr _, s2) \<Rightarrow> propose_candidate i hs hb council now c s2))"

definition propose_with_hashes ::
  "u64 \<Rightarrow> string \<Rightarrow> string \<Rightarrow> string \<Rightarrow> btset \<Rightarrow> constitution \<Rightarrow> release_store
     \<Rightarrow> release_candidate res \<times> release_store" where
  "propose_with_hashes now i hs hb council c s =
     (case blob_get hs (rs_mesh s) of
        Inl e \<Rightarrow> (Inl e, s)
      | Inr _ \<Rightarrow> propose_candidate i hs hb council now c s)"

definition rebuild_release ::
  "(string \<Rightarrow> string) \<Rightarrow> string \<Rightarrow> string \<Rightarrow> release_store \<Rightarrow> release_candidate res \<times> release_store" where
  "rebuild_release sha i vault s =
     (case rbind (get_candidate i (rs_mesh s)) (\<lambda>c.
           rbind (blob_get (rc_hs c) (rs_mesh s)) (\<lambda>source.
             if sha source \<noteq> rc_hs c then Inl MeasurementMismatch
             else record_rebuild vault (lab_rebuild sha source) c)) of
        Inl e \<Rightarrow> (Inl e, s)
      | Inr c1 \<Rightarrow>
          (case st_save_candidate c1 s of
             (Inl e, s1) \<Rightarrow> (Inl e, s1)
           | (Inr _, s1) \<Rightarrow> (Inr c1, s1)))"

text \<open>The governance hook: the ledger writer and the bounty configuration, if wired.\<close>

type_synonym gov_hook = "(string \<times> gov_reward_config) option"

definition run_hook ::
  "(string \<Rightarrow> string) \<Rightarrow> gov_hook \<Rightarrow> gov_job \<Rightarrow> string list \<Rightarrow> string \<Rightarrow> world \<Rightarrow> unit res \<times> world" where
  "run_hook sha gov job parts ctx w =
     (case gov of
        None \<Rightarrow> (Inr (), w)
      | Some (writer, cfg) \<Rightarrow>
          (case accrue_governance_work sha writer cfg job parts ctx w of
             (Inl e, w1) \<Rightarrow> (Inl e, w1)
           | (Inr _, w1) \<Rightarrow> (Inr (), w1)))"

definition cosign_release ::
  "(string \<Rightarrow> string) \<Rightarrow> gov_hook \<Rightarrow> string \<Rightarrow> u64 \<Rightarrow> string \<Rightarrow> release_store \<times> world
     \<Rightarrow> release_candidate res \<times> release_store \<times> world" where
  "cosign_release sha gov node now i sw =
     (case sw of (s, w) \<Rightarrow>
        (case rbind (get_candidate i (rs_mesh s)) (\<lambda>c.
              rbind (predicates_ok (rm_policy (rs_mesh s)) now (c_hash (l_constitution (w_ledger w))) c) (\<lambda>_.
                add_cosign node c)) of
           Inl e \<Rightarrow> (Inl e, s, w)
         | Inr c1 \<Rightarrow>
             (case st_save_candidate c1 s of
                (Inl e, s1) \<Rightarrow> (Inl e, s1, w)
              | (Inr _, s1) \<Rightarrow>
                  (case run_hook sha gov JobReleaseCosign [node] i w of
                     (Inl e, w1) \<Rightarrow> (Inl e, s1, w1)
                   | (Inr _, w1) \<Rightarrow> (Inr c1, s1, w1)))))"

definition cosigner_nodes :: "btset \<Rightarrow> string list" where
  "cosigner_nodes cs = concat (map (\<lambda>i. case node_id_new i of Inr n \<Rightarrow> [n] | Inl _ \<Rightarrow> []) cs)"

definition activate_release ::
  "(string \<Rightarrow> string) \<Rightarrow> gov_hook \<Rightarrow> u64 \<Rightarrow> u64 \<Rightarrow> string \<Rightarrow> release_store \<times> world
     \<Rightarrow> allowlist_entry res \<times> release_store \<times> world" where
  "activate_release sha gov now1 now2 i sw =
     (case sw of (s, w) \<Rightarrow>
        (let p = rm_policy (rs_mesh s); ch = c_hash (l_constitution (w_ledger w)) in
         case rbind (get_candidate i (rs_mesh s)) (\<lambda>c.
              rbind (predicates_ok p now1 ch c) (\<lambda>_.
                if length (rc_cosigns c) < vault_cosign_quorum p
                then Inl (QuorumNotMet (length (rc_cosigns c)) (vault_cosign_quorum p))
                else Inr c)) of
           Inl e \<Rightarrow> (Inl e, s, w)
         | Inr c \<Rightarrow>
             (let entry = \<lparr>al_release_id = rc_id c, al_hs = rc_hs c, al_hb = rc_hb c,
                           al_activated_at_secs = now2, al_constitution_hash = ch\<rparr> in
              case st_save_candidate (c\<lparr>rc_phase := RAllowlisted\<rparr>) s of
                (Inl e, s1) \<Rightarrow> (Inl e, s1, w)
              | (Inr _, s1) \<Rightarrow>
                  (case st_put_allowlist entry s1 of
                     (Inl e, s2) \<Rightarrow> (Inl e, s2, w)
                   | (Inr _, s2) \<Rightarrow>
                       (case run_hook sha gov JobReleaseActivate (cosigner_nodes (rc_cosigns c)) i w of
                          (Inl e, w1) \<Rightarrow> (Inl e, s2, w1)
                        | (Inr _, w1) \<Rightarrow> (Inr entry, s2, w1))))))"


section \<open>Invariant\<close>

definition canonical :: "string \<Rightarrow> bool" where
  "canonical h \<longleftrightarrow> content_hash_parse h = Inr h"

text \<open>\<open>nodes\<close> are the vaults whose cosign use case runs on this store.\<close>

definition cand_ok :: "(string \<Rightarrow> string) \<Rightarrow> string set \<Rightarrow> release_candidate \<Rightarrow> bool" where
  "cand_ok sha nodes c \<longleftrightarrow>
     trim (rc_id c) \<noteq> [] \<and> rc_council_sigs c \<noteq> [] \<and> bs_ok (rc_council_sigs c)
   \<and> canonical (rc_hs c) \<and> canonical (rc_hb c)
   \<and> bs_ok (rc_cosigns c) \<and> set (rc_cosigns c) \<subseteq> nodes
   \<and> bt_ok (rc_rebuilds c) \<and> (\<forall>(v, h) \<in> set (rc_rebuilds c). h = rc_hb c)
   \<and> (rc_rebuilds c \<noteq> [] \<longrightarrow> (\<exists>src. sha src = rc_hs c \<and> lab_rebuild sha src = rc_hb c))"

text \<open>What stands behind an allowlist entry.\<close>

definition entry_ok :: "release_mesh \<Rightarrow> allowlist_entry \<Rightarrow> bool" where
  "entry_ok m e \<longleftrightarrow>
     (\<exists>c. bt_get (al_release_id e) (rm_candidates m) = Some c \<and> rc_phase c = RAllowlisted
        \<and> al_hs e = rc_hs c \<and> al_hb e = rc_hb c \<and> al_constitution_hash e = rc_constitution_hash c
        \<and> vault_cosign_quorum (rm_policy m) \<le> length (rc_cosigns c)
        \<and> min_rebuilds (rm_policy m) \<le> length (rc_rebuilds c)
        \<and> council_quorum (rm_policy m) \<le> length (rc_council_sigs c))"

definition mesh_inv :: "(string \<Rightarrow> string) \<Rightarrow> string set \<Rightarrow> release_policy \<Rightarrow> release_mesh \<Rightarrow> bool" where
  "mesh_inv sha nodes p m \<longleftrightarrow>
     rm_policy m = p \<and> bt_ok (rm_candidates m)
   \<and> (\<forall>k c. bt_get k (rm_candidates m) = Some c \<longrightarrow> rc_id c = k \<and> cand_ok sha nodes c)
   \<and> distinct (map al_release_id (rm_allowlist m)) \<and> (\<forall>e \<in> set (rm_allowlist m). entry_ok m e)"

definition store_inv :: "(string \<Rightarrow> string) \<Rightarrow> string set \<Rightarrow> release_policy \<Rightarrow> release_store \<Rightarrow> bool" where
  "store_inv sha nodes p s \<longleftrightarrow>
     mesh_inv sha nodes p (rs_mesh s)
   \<and> (\<forall>me. rs_meta s = Some me \<longrightarrow> (\<exists>m. mesh_inv sha nodes p m \<and> me = meta_of m))"

lemma ascii_lower_hex: "list_all hex_char s \<Longrightarrow> ascii_lower s = s"
  unfolding ascii_lower_def by (intro map_idI) (auto simp: list_all_iff hex_char_def)

lemma canonical_sha: "hex64 sha \<Longrightarrow> canonical (sha x)"
  by (auto simp: canonical_def content_hash_parse_def measurement_from_hex_def hex64_def ascii_lower_hex
      list_all_iff hex_char_def is_ascii_hexdigit_def)

lemma content_hash_parse_canonical: "content_hash_parse raw = Inr h \<Longrightarrow> canonical h"
proof -
  assume "content_hash_parse raw = Inr h"
  then have h: "length raw = 64" "list_all is_ascii_hexdigit raw" "h = ascii_lower raw"
    by (auto simp: content_hash_parse_def measurement_from_hex_def split: if_splits)
  let ?g = "\<lambda>c. if 65 \<le> code c \<and> code c \<le> 90 then chr (code c + 32) else c"
  have f: "hex_char (?g c)" if "is_ascii_hexdigit c" for c
    using that by (auto simp: hex_char_def is_ascii_hexdigit_def code_chr)
  have "list_all (\<lambda>c. hex_char (?g c)) raw" using h(2) f by (metis (no_types, lifting) list.pred_mono_strong)
  then have l: "list_all hex_char h" by (simp only: h(3) ascii_lower_def list.pred_map o_def)
  then have "list_all is_ascii_hexdigit h" by (auto simp: list_all_iff hex_char_def is_ascii_hexdigit_def)
  then show "canonical h"
    using h ascii_lower_hex [OF l] by (simp add: canonical_def content_hash_parse_def measurement_from_hex_def ascii_lower_def)
qed

lemma put_candidate_inv:
  assumes "mesh_inv sha nodes p m" "cand_ok sha nodes c"
  shows "mesh_inv sha nodes p (snd (put_candidate c m))"
proof (cases "bt_get (rc_id c) (rm_candidates m)")
  case None
  have "entry_ok (snd (put_candidate c m)) e" if "entry_ok m e" for e
    using that None by (auto simp: entry_ok_def put_candidate_def bt_get_put)
  then show ?thesis using assms None by (auto simp: mesh_inv_def put_candidate_def bt_get_put)
qed (use assms in \<open>simp add: put_candidate_def\<close>)

lemma save_candidate_inv:
  assumes inv: "mesh_inv sha nodes p m" and c: "bt_get (rc_id c) (rm_candidates m) = Some c"
    and c1: "rc_id c1 = rc_id c" "cand_ok sha nodes c1"
    and e: "rc_phase c \<noteq> RAllowlisted \<or> c1 = c\<lparr>rc_phase := RAllowlisted\<rparr>"
  shows "mesh_inv sha nodes p (snd (save_candidate c1 m))"
proof -
  have m1: "snd (save_candidate c1 m) = m\<lparr>rm_candidates := bt_put (rc_id c) c1 (rm_candidates m)\<rparr>"
    using c by (simp add: save_candidate_def c1(1))
  have "entry_ok (snd (save_candidate c1 m)) e" if ok: "entry_ok m e" for e
  proof (cases "al_release_id e = rc_id c")
    case True
    then have "rc_phase c = RAllowlisted" using ok c by (auto simp: entry_ok_def)
    then have "c1 = c\<lparr>rc_phase := RAllowlisted\<rparr>" using e by blast
    then show ?thesis using ok True c unfolding m1 entry_ok_def by (simp add: bt_get_put)
  next
    case False
    then show ?thesis using ok unfolding m1 entry_ok_def by (simp add: bt_get_put)
  qed
  then show ?thesis using inv c1 unfolding mesh_inv_def m1 by (auto simp: bt_get_put)
qed

lemma mesh_invD:
  assumes "mesh_inv sha nodes p m"
  shows "rm_policy m = p" "bt_ok (rm_candidates m)" "distinct (map al_release_id (rm_allowlist m))"
    "\<forall>e \<in> set (rm_allowlist m). entry_ok m e"
    "bt_get k (rm_candidates m) = Some c \<Longrightarrow> rc_id c = k" "bt_get k (rm_candidates m) = Some c \<Longrightarrow> cand_ok sha nodes c"
  using assms unfolding mesh_inv_def by blast+

lemma put_allowlist_inv:
  assumes "mesh_inv sha nodes p m" "entry_ok m e"
  shows "mesh_inv sha nodes p (put_allowlist e m)"
proof -
  have ent: "entry_ok (put_allowlist e m) x = entry_ok m x" for x by (simp add: entry_ok_def put_allowlist_def)
  have "entry_ok (put_allowlist e m) x" if "x \<in> set (rm_allowlist (put_allowlist e m))" for x
    unfolding ent using that mesh_invD(4) [OF assms(1)] assms(2) by (auto simp: put_allowlist_def)
  moreover have "distinct (map al_release_id (rm_allowlist (put_allowlist e m)))"
    using mesh_invD(3) [OF assms(1)] by (auto simp: put_allowlist_def distinct_map_filter)
  moreover have "rm_policy (put_allowlist e m) = rm_policy m" "rm_candidates (put_allowlist e m) = rm_candidates m"
    by (simp_all add: put_allowlist_def)
  ultimately show ?thesis using assms(1) unfolding mesh_inv_def by simp
qed

lemma blob_put_inv [simp]: "mesh_inv sha nodes p (blob_put h b m) \<longleftrightarrow> mesh_inv sha nodes p m"
  by (simp add: mesh_inv_def blob_put_def entry_ok_def)

lemma mesh_inv_blobs [simp]: "mesh_inv sha nodes p (m\<lparr>rm_blobs := b\<rparr>) \<longleftrightarrow> mesh_inv sha nodes p m"
  by (simp add: mesh_inv_def entry_ok_def)

lemma take_outcome_keeps [simp]:
  "rs_mesh (snd (take_outcome s)) = rs_mesh s" "rs_meta (snd (take_outcome s)) = rs_meta s"
  by (simp_all add: take_outcome_def split: list.splits)

lemma persist_meta_fields:
  "rs_mesh (snd (persist_meta s)) = rs_mesh s"
  "rs_meta (snd (persist_meta s)) \<in> {rs_meta s, Some (meta_of (rs_mesh s))}"
proof -
  obtain w s1 where t: "take_outcome s = (w, s1)" by (cases "take_outcome s")
  then have "rs_mesh s1 = rs_mesh s" "rs_meta s1 = rs_meta s" using take_outcome_keeps [of s] by simp_all
  then show "rs_mesh (snd (persist_meta s)) = rs_mesh s"
    "rs_meta (snd (persist_meta s)) \<in> {rs_meta s, Some (meta_of (rs_mesh s))}"
    by (cases w; simp add: persist_meta_def t)+
qed

lemma persist_blob_fields [simp]:
  "rs_mesh (snd (persist_blob h b s)) = rs_mesh s" "rs_meta (snd (persist_blob h b s)) = rs_meta s"
proof -
  obtain w s1 where t: "take_outcome s = (w, s1)" by (cases "take_outcome s")
  then have "rs_mesh s1 = rs_mesh s" "rs_meta s1 = rs_meta s" using take_outcome_keeps [of s] by simp_all
  then show "rs_mesh (snd (persist_blob h b s)) = rs_mesh s" "rs_meta (snd (persist_blob h b s)) = rs_meta s"
    by (cases w; simp add: persist_blob_def t)+
qed

lemma persist_meta_inv: "store_inv sha nodes p s \<Longrightarrow> store_inv sha nodes p (snd (persist_meta s))"
  using persist_meta_fields [of s] by (auto simp: store_inv_def)

lemma st_blob_put_inv: "store_inv sha nodes p s \<Longrightarrow> store_inv sha nodes p (snd (st_blob_put h b s))"
  by (simp add: st_blob_put_def store_inv_def)

lemma then_persist_inv:
  "store_inv sha nodes p s \<Longrightarrow> mesh_inv sha nodes p (snd r) \<Longrightarrow> store_inv sha nodes p (snd (then_persist r s))"
  using persist_meta_inv [of sha nodes p "s\<lparr>rs_mesh := snd r\<rparr>"]
  by (cases r; cases "fst r") (simp_all add: then_persist_def store_inv_def)


section \<open>Boot reads back what was written\<close>

lemma bt_rebuild:
  assumes "bt_ok (m @ xs)"
  shows "foldl (\<lambda>m (k, v). bt_put k v m) m xs = m @ xs"
  using assms
proof (induction xs arbitrary: m)
  case (Cons x xs)
  obtain k v where x: "x = (k, v)" by (cases x)
  have "\<forall>j \<in> set (bt_keys m). j < k"
    using Cons.prems x by (auto simp: bt_ok_def bt_keys_def sorted_wrt_append)
  then show ?case using Cons.IH [of "m @ [(k, v)]"] Cons.prems x by (simp add: bt_put_last)
qed simp

lemma bs_of_sorted: "bs_ok s \<Longrightarrow> bs_of s = s"
  using sorted_distinct_set_unique [of "bs_of s" s] bs_ok_of [of s] bs_ok_distinct [of s] bs_ok_distinct [of "bs_of s"]
  by (simp add: bs_ok_def strict_sorted_iff)

lemma parse_rebuilds:
  "\<forall>(v, h) \<in> set rb. canonical h \<Longrightarrow>
     rmapM (\<lambda>(k, h). rbind (content_hash_parse h) (\<lambda>p. Inr (k, p))) rb = Inr rb"
  by (induction rb) (auto simp: canonical_def)

lemma hydrate_candidate_id:
  assumes "cand_ok sha nodes c"
  shows "hydrate_candidate c = Inr c"
proof -
  have c: "content_hash_parse (rc_hs c) = Inr (rc_hs c)" "content_hash_parse (rc_hb c) = Inr (rc_hb c)"
    "bs_of (rc_council_sigs c) = rc_council_sigs c" "bs_of (rc_cosigns c) = rc_cosigns c"
    "trim (rc_id c) \<noteq> []" "rc_council_sigs c \<noteq> []"
    using assms by (auto simp: cand_ok_def canonical_def bs_of_sorted)
  have "\<forall>(v, h) \<in> set (rc_rebuilds c). canonical h" using assms by (auto simp: cand_ok_def)
  then have "rmapM (\<lambda>(k, h). rbind (content_hash_parse h) (\<lambda>p. Inr (k, p))) (rc_rebuilds c) = Inr (rc_rebuilds c)"
    by (rule parse_rebuilds)
  moreover have "foldl (\<lambda>m (k, v). bt_put k v m) [] (rc_rebuilds c) = rc_rebuilds c"
    using bt_rebuild [of "[]" "rc_rebuilds c"] assms by (simp add: cand_ok_def)
  ultimately show ?thesis using c by (simp add: hydrate_candidate_def candidate_new_def)
qed

lemma rmapM_same: "\<forall>x \<in> set xs. f x = Inr x \<Longrightarrow> rmapM f xs = Inr xs"
  by (induction xs) auto

lemma put_candidates:
  assumes "bt_ok (rm_candidates m @ cs)" "\<forall>(k, c) \<in> set cs. rc_id c = k"
  shows "foldl (\<lambda>m c. snd (put_candidate c m)) m (bt_vals cs) = m\<lparr>rm_candidates := rm_candidates m @ cs\<rparr>"
  using assms
proof (induction cs arbitrary: m)
  case (Cons x cs)
  obtain k c where x: "x = (k, c)" by (cases x)
  then have c: "rc_id c = k" using Cons.prems by simp
  have l: "\<forall>j \<in> set (bt_keys (rm_candidates m)). j < k"
    using Cons.prems(1) x by (auto simp: bt_ok_def bt_keys_def sorted_wrt_append)
  then have "bt_get k (rm_candidates m) = None" by (auto simp: bt_get_None)
  then have "snd (put_candidate c m) = m\<lparr>rm_candidates := rm_candidates m @ [(k, c)]\<rparr>"
    using c bt_put_last [OF l] by (simp add: put_candidate_def)
  then show ?case
    using Cons.IH [of "m\<lparr>rm_candidates := rm_candidates m @ [(k, c)]\<rparr>"] Cons.prems x by (simp add: bt_vals_def)
qed (simp add: bt_vals_def)

lemma put_entries:
  assumes "distinct (map al_release_id (rm_allowlist m @ es))"
  shows "foldl (\<lambda>m e. put_allowlist e m) m es = m\<lparr>rm_allowlist := rm_allowlist m @ es\<rparr>"
  using assms
proof (induction es arbitrary: m)
  case (Cons e es)
  have "al_release_id e \<notin> al_release_id ` set (rm_allowlist m)" using Cons.prems by simp
  then have "\<forall>x \<in> set (rm_allowlist m). al_release_id x \<noteq> al_release_id e" by (metis imageI)
  then have "filter (\<lambda>x. al_release_id x \<noteq> al_release_id e) (rm_allowlist m) = rm_allowlist m"
    by (rule filter_True)
  then have "put_allowlist e m = m\<lparr>rm_allowlist := rm_allowlist m @ [e]\<rparr>" by (simp add: put_allowlist_def)
  then show ?case using Cons.IH [of "put_allowlist e m"] Cons.prems by simp
qed simp

lemma entry_canonical:
  assumes "mesh_inv sha nodes p m" "e \<in> set (rm_allowlist m)"
  shows "hydrate_entry e = Inr e"
proof -
  obtain c where c: "bt_get (al_release_id e) (rm_candidates m) = Some c" "al_hs e = rc_hs c" "al_hb e = rc_hb c"
    using mesh_invD(4) [OF assms(1)] assms(2) unfolding entry_ok_def by blast
  have "content_hash_parse (rc_hs c) = Inr (rc_hs c)" "content_hash_parse (rc_hb c) = Inr (rc_hb c)"
    using mesh_invD(6) [OF assms(1) c(1)] unfolding cand_ok_def canonical_def by blast+
  then have "hydrate_entry e = Inr (e\<lparr>al_hs := rc_hs c, al_hb := rc_hb c\<rparr>)"
    by (simp add: hydrate_entry_def c(2,3))
  also have "e\<lparr>al_hs := rc_hs c, al_hb := rc_hb c\<rparr> = e"
    unfolding c(2,3) [symmetric] by (cases e) simp
  finally show ?thesis .
qed

lemma hydrate_meta_of:
  assumes "mesh_inv sha nodes p m"
  shows "hydrate_meta (meta_of m) (mesh_new p) = Inr (m\<lparr>rm_blobs := []\<rparr>)"
proof -
  note d = mesh_invD [OF assms]
  have k: "rc_id c = i" "cand_ok sha nodes c" if "(i, c) \<in> set (rm_candidates m)" for i c
    using that d(2,5,6) by (simp_all add: bt_get_in)
  then have "rmapM hydrate_candidate (bt_vals (rm_candidates m)) = Inr (bt_vals (rm_candidates m))"
    by (intro rmapM_same) (auto simp: bt_vals_def intro: hydrate_candidate_id [OF k(2)])
  moreover have "rmapM hydrate_entry (rm_allowlist m) = Inr (rm_allowlist m)"
    by (intro rmapM_same ballI entry_canonical [OF assms])
  moreover have "foldl (\<lambda>m c. snd (put_candidate c m)) (mesh_new p) (bt_vals (rm_candidates m)) =
      (mesh_new p)\<lparr>rm_candidates := rm_candidates m\<rparr>"
    using put_candidates [of "mesh_new p" "rm_candidates m"] k(1) d(2) by (auto simp: mesh_new_def)
  ultimately show ?thesis
    using put_entries [of "(mesh_new p)\<lparr>rm_candidates := rm_candidates m\<rparr>" "rm_allowlist m"] d(1,3)
    by (simp add: hydrate_meta_def meta_of_def mesh_new_def)
qed

lemma hydrate_blobs:
  "rm_policy (foldl hydrate_blob m fs) = rm_policy m \<and> rm_candidates (foldl hydrate_blob m fs) = rm_candidates m
   \<and> rm_allowlist (foldl hydrate_blob m fs) = rm_allowlist m
   \<and> (mesh_inv sha nodes p (foldl hydrate_blob m fs) \<longleftrightarrow> mesh_inv sha nodes p m)"
proof (induction fs arbitrary: m)
  case (Cons f fs)
  have "rm_policy (hydrate_blob m f) = rm_policy m \<and> rm_candidates (hydrate_blob m f) = rm_candidates m
      \<and> rm_allowlist (hydrate_blob m f) = rm_allowlist m
      \<and> (mesh_inv sha nodes p (hydrate_blob m f) \<longleftrightarrow> mesh_inv sha nodes p m)"
    by (cases "content_hash_parse (fst f)") (simp_all add: hydrate_blob_def, simp add: blob_put_def)
  then show ?case using Cons.IH [of "hydrate_blob m f"] by simp
qed simp

lemma mesh_new_inv: "mesh_inv sha nodes p (mesh_new p)"
  by (simp add: mesh_inv_def mesh_new_def)

lemma release_open_inv:
  assumes "store_inv sha nodes p s"
  shows "\<exists>s1. release_open p s = Inr s1 \<and> store_inv sha nodes p s1 \<and> rs_meta s1 = rs_meta s"
proof (cases "rs_meta s")
  case None
  then show ?thesis
    using hydrate_blobs [of "mesh_new p" "rs_blob_files s" sha nodes p] mesh_new_inv
    by (simp add: release_open_def store_inv_def)
next
  case (Some me)
  then obtain m where m: "mesh_inv sha nodes p m" "me = meta_of m" using assms by (auto simp: store_inv_def)
  then have "mesh_inv sha nodes p (m\<lparr>rm_blobs := []\<rparr>)" by simp
  then show ?thesis
    using Some m hydrate_meta_of [OF m(1)] hydrate_blobs [of "m\<lparr>rm_blobs := []\<rparr>" "rs_blob_files s" sha nodes p]
    by (auto simp: release_open_def store_inv_def)
qed


section \<open>The use cases keep the invariant\<close>

lemma store_mesh: "store_inv sha nodes p s \<Longrightarrow> mesh_inv sha nodes p (rs_mesh s)"
  by (simp add: store_inv_def)

lemma st_save_candidate_inv:
  assumes "store_inv sha nodes p s" "bt_get (rc_id c) (rm_candidates (rs_mesh s)) = Some c"
    and "rc_id c1 = rc_id c" "cand_ok sha nodes c1"
    and "rc_phase c \<noteq> RAllowlisted \<or> c1 = c\<lparr>rc_phase := RAllowlisted\<rparr>"
  shows "store_inv sha nodes p (snd (st_save_candidate c1 s))"
  unfolding st_save_candidate_def
  using save_candidate_inv [OF store_mesh [OF assms(1)] assms(2-5)] by (rule then_persist_inv [OF assms(1)])

lemma st_put_allowlist_inv:
  "store_inv sha nodes p s \<Longrightarrow> entry_ok (rs_mesh s) e \<Longrightarrow> store_inv sha nodes p (snd (st_put_allowlist e s))"
  unfolding st_put_allowlist_def by (intro then_persist_inv) (auto intro: put_allowlist_inv store_mesh)

lemma propose_candidate_inv:
  assumes "store_inv sha nodes p s" "bs_ok council" "canonical hs" "canonical hb"
  shows "store_inv sha nodes p (snd (propose_candidate i hs hb council now c s))"
proof (cases "candidate_new i hs hb (c_hash c) council now")
  case (Inr cand)
  then have "cand_ok sha nodes cand"
    using assms(2-4) by (auto simp: candidate_new_def cand_ok_def split: if_splits)
  then have "store_inv sha nodes p (snd (st_put_candidate cand s))"
    unfolding st_put_candidate_def
    by (intro then_persist_inv [OF assms(1)] put_candidate_inv store_mesh [OF assms(1)])
  then show ?thesis using Inr assms(1) by (auto simp: propose_candidate_def split: prod.splits sum.splits)
qed (use assms(1) in \<open>simp add: propose_candidate_def\<close>)

lemma propose_release_inv:
  assumes "store_inv sha nodes p s" "bs_ok council" "hex64 sha"
  shows "store_inv sha nodes p (snd (propose_release sha now i source council c s))"
proof -
  let ?hs = "sha source" and ?hb = "lab_rebuild sha source"
  obtain x1 s1 where e1: "st_blob_put ?hs source s = (x1, s1)" by (cases "st_blob_put ?hs source s")
  obtain x2 s2 where e2: "st_blob_put ?hb (''lab-bin|'' @ ?hs) s1 = (x2, s2)"
    by (cases "st_blob_put ?hb (''lab-bin|'' @ ?hs) s1")
  have i1: "store_inv sha nodes p s1" using st_blob_put_inv [OF assms(1), of ?hs source] e1 by simp
  have i2: "store_inv sha nodes p s2" using st_blob_put_inv [OF i1, of ?hb "''lab-bin|'' @ ?hs"] e2 by simp
  have "canonical ?hs" "canonical ?hb" using canonical_sha [OF assms(3)] by (simp_all add: lab_rebuild_def)
  then have "store_inv sha nodes p (snd (propose_candidate i ?hs ?hb council now c s2))"
    by (intro propose_candidate_inv [OF i2 assms(2)])
  then show ?thesis using i1 i2 e1 e2 by (cases x1; cases x2) (simp_all add: propose_release_def Let_def)
qed

lemma propose_with_hashes_inv:
  assumes "store_inv sha nodes p s" "bs_ok council" "canonical hs" "canonical hb"
  shows "store_inv sha nodes p (snd (propose_with_hashes now i hs hb council c s))"
  using propose_candidate_inv [OF assms, of i now c] assms(1)
  by (simp add: propose_with_hashes_def split: sum.splits)

lemma get_candidate_ok:
  assumes "store_inv sha nodes p s" "get_candidate i (rs_mesh s) = Inr c"
  shows "bt_get (rc_id c) (rm_candidates (rs_mesh s)) = Some c" "cand_ok sha nodes c"
proof -
  have "bt_get i (rm_candidates (rs_mesh s)) = Some c" using assms(2) by (simp add: get_candidate_def split: option.splits)
  then show "bt_get (rc_id c) (rm_candidates (rs_mesh s)) = Some c" "cand_ok sha nodes c"
    using mesh_invD(5,6) [OF store_mesh [OF assms(1)], of i c] by simp_all
qed

lemma rebuild_ok:
  assumes "cand_ok sha nodes c" "record_rebuild v (lab_rebuild sha src) c = Inr c1" "sha src = rc_hs c"
  shows "cand_ok sha nodes c1 \<and> rc_id c1 = rc_id c \<and> rc_phase c \<noteq> RAllowlisted"
proof -
  have c1: "c1 = c\<lparr>rc_rebuilds := bt_put v (lab_rebuild sha src) (rc_rebuilds c)\<rparr>"
    and hb: "lab_rebuild sha src = rc_hb c" and ph: "\<not> closed_phase c"
    using assms(2) by (auto simp: record_rebuild_def split: if_splits)
  have "set (bt_put v h m) \<subseteq> insert (v, h) (set m)" for h :: string and m
    by (induction v h m rule: bt_put.induct) auto
  then have "\<forall>(w, h) \<in> set (rc_rebuilds c1). h = rc_hb c1"
    using assms(1) hb c1 by (fastforce simp: cand_ok_def)
  then show ?thesis
    using assms(1,3) hb ph unfolding c1 by (auto simp: cand_ok_def closed_phase_def)
qed

lemma rebuild_release_inv:
  assumes "store_inv sha nodes p s"
  shows "store_inv sha nodes p (snd (rebuild_release sha i vault s))"
proof (cases "rbind (get_candidate i (rs_mesh s)) (\<lambda>c. rbind (blob_get (rc_hs c) (rs_mesh s)) (\<lambda>source.
             if sha source \<noteq> rc_hs c then Inl MeasurementMismatch
             else record_rebuild vault (lab_rebuild sha source) c))")
  case (Inr c1)
  then obtain c src where c: "get_candidate i (rs_mesh s) = Inr c" "sha src = rc_hs c"
      "record_rebuild vault (lab_rebuild sha src) c = Inr c1"
    by (auto simp: rbind_Inr_iff split: if_splits)
  note g = get_candidate_ok [OF assms c(1)]
  have "store_inv sha nodes p (snd (st_save_candidate c1 s))"
    using rebuild_ok [OF g(2) c(3,2)] by (intro st_save_candidate_inv [OF assms g(1)]) auto
  then show ?thesis using Inr by (auto simp: rebuild_release_def split: prod.splits sum.splits)
qed (use assms in \<open>simp add: rebuild_release_def\<close>)

lemma cosign_ok:
  assumes "cand_ok sha nodes c" "add_cosign node c = Inr c1" "node \<in> nodes"
  shows "cand_ok sha nodes c1 \<and> rc_id c1 = rc_id c \<and> rc_phase c \<noteq> RAllowlisted"
  using assms by (auto simp: add_cosign_def cand_ok_def closed_phase_def split: if_splits)

lemma cosign_release_inv:
  assumes "store_inv sha nodes p s" "node \<in> nodes"
  shows "store_inv sha nodes p (fst (snd (cosign_release sha gov node now i (s, w))))"
proof (cases "rbind (get_candidate i (rs_mesh s)) (\<lambda>c.
              rbind (predicates_ok (rm_policy (rs_mesh s)) now (c_hash (l_constitution (w_ledger w))) c) (\<lambda>_.
                add_cosign node c))")
  case (Inr c1)
  then obtain c where c: "get_candidate i (rs_mesh s) = Inr c" "add_cosign node c = Inr c1"
    by (auto simp: rbind_Inr_iff)
  note g = get_candidate_ok [OF assms(1) c(1)]
  have "store_inv sha nodes p (snd (st_save_candidate c1 s))"
    using cosign_ok [OF g(2) c(2) assms(2)] by (intro st_save_candidate_inv [OF assms(1) g(1)]) auto
  then show ?thesis using Inr by (auto simp: cosign_release_def split: prod.splits sum.splits)
qed (use assms in \<open>simp add: cosign_release_def\<close>)

lemma then_persist_ok: "then_persist (Inr u, m) s = (x, s1) \<Longrightarrow> rs_mesh s1 = m"
  using persist_meta_fields(1) [of "s\<lparr>rs_mesh := m\<rparr>"] by (simp add: then_persist_def)

lemma activate_release_inv:
  assumes "store_inv sha nodes p s"
  shows "store_inv sha nodes p (fst (snd (activate_release sha gov now1 now2 i (s, w))))"
proof -
  let ?p = "rm_policy (rs_mesh s)" and ?ch = "c_hash (l_constitution (w_ledger w))"
  let ?g = "rbind (get_candidate i (rs_mesh s)) (\<lambda>c. rbind (predicates_ok ?p now1 ?ch c) (\<lambda>_.
     if length (rc_cosigns c) < vault_cosign_quorum ?p
     then Inl (QuorumNotMet (length (rc_cosigns c)) (vault_cosign_quorum ?p)) else Inr c))"
  show ?thesis
  proof (cases ?g)
    case (Inl e)
    then show ?thesis using assms by (simp add: activate_release_def Let_def)
  next
    case (Inr c)
    then have c: "get_candidate i (rs_mesh s) = Inr c" "predicates_ok ?p now1 ?ch c = Inr ()"
      "vault_cosign_quorum ?p \<le> length (rc_cosigns c)"
      by (auto simp: rbind_Inr_iff split: if_splits)
    note g = get_candidate_ok [OF assms c(1)]
    let ?c1 = "c\<lparr>rc_phase := RAllowlisted\<rparr>"
    let ?e = "\<lparr>al_release_id = rc_id c, al_hs = rc_hs c, al_hb = rc_hb c, al_activated_at_secs = now2,
               al_constitution_hash = ?ch\<rparr>"
    obtain x1 s1 where e1: "st_save_candidate ?c1 s = (x1, s1)" by (cases "st_save_candidate ?c1 s")
    have "cand_ok sha nodes ?c1" using g(2) by (simp add: cand_ok_def)
    then have i1: "store_inv sha nodes p s1"
      using st_save_candidate_inv [OF assms g(1), of ?c1] e1 by simp
    have m1: "rs_mesh s1 = (rs_mesh s)\<lparr>rm_candidates := bt_put (rc_id c) ?c1 (rm_candidates (rs_mesh s))\<rparr>"
      using e1 g(1) unfolding st_save_candidate_def save_candidate_def by (auto dest!: then_persist_ok)
    have "entry_ok (rs_mesh s1) ?e"
      using c(2,3) unfolding entry_ok_def m1
      by (auto simp: bt_get_put predicates_ok_def Let_def not_less split: if_splits)
    then have "store_inv sha nodes p (snd (st_put_allowlist ?e s1))" by (rule st_put_allowlist_inv [OF i1])
    then show ?thesis
      using i1 Inr e1 by (cases x1) (auto simp: activate_release_def Let_def split: prod.splits sum.splits)
  qed
qed


section \<open>Runs\<close>

text \<open>\<open>RlProposeHashes\<close> is the lab endpoint, which stores the source and names another binary; a
  restart that cannot read its snapshot leaves the process down; \<open>RlElsewhere\<close> is a change of the
  ledger or the economy by other components.\<close>

datatype rel_op =
    RlPropose u64 string string "string list"
  | RlProposeHashes u64 string string string "string list"
  | RlRebuild string string
  | RlCosign string u64 string
  | RlActivate u64 u64 string
  | RlRestart
  | RlElsewhere world

fun rel_step :: "(string \<Rightarrow> string) \<Rightarrow> gov_hook \<Rightarrow> release_policy \<Rightarrow> rel_op \<Rightarrow> release_store \<times> world \<Rightarrow> release_store \<times> world" where
  "rel_step sha gov p (RlPropose now i src council) (s, w) =
     (snd (propose_release sha now i src (bs_of council) (l_constitution (w_ledger w)) s), w)"
| "rel_step sha gov p (RlProposeHashes now i src raw council) (s, w) =
     (case content_hash_parse raw of
        Inl _ \<Rightarrow> (snd (st_blob_put (sha src) src s), w)
      | Inr hb \<Rightarrow> (snd (propose_with_hashes now i (sha src) hb (bs_of council) (l_constitution (w_ledger w))
                    (snd (st_blob_put (sha src) src s))), w))"
| "rel_step sha gov p (RlRebuild i vault) (s, w) = (snd (rebuild_release sha i vault s), w)"
| "rel_step sha gov p (RlCosign node now i) sw = snd (cosign_release sha gov node now i sw)"
| "rel_step sha gov p (RlActivate now1 now2 i) sw = snd (activate_release sha gov now1 now2 i sw)"
| "rel_step sha gov p RlRestart (s, w) = (case release_open p s of Inr s1 \<Rightarrow> (s1, w) | Inl _ \<Rightarrow> (s, w))"
| "rel_step sha gov p (RlElsewhere w1) (s, w) = (s, w1)"

definition cosign_nodes :: "rel_op list \<Rightarrow> string set" where
  "cosign_nodes ops = {node. \<exists>now i. RlCosign node now i \<in> set ops}"

definition fresh_store :: "release_policy \<Rightarrow> write_outcome list \<Rightarrow> release_store" where
  "fresh_store p outs = \<lparr>rs_mesh = mesh_new p, rs_meta = None, rs_blob_files = [], rs_outcomes = outs\<rparr>"

lemma rel_step_inv:
  assumes "store_inv sha nodes p s" "hex64 sha" "\<And>node now i. op = RlCosign node now i \<Longrightarrow> node \<in> nodes"
  shows "store_inv sha nodes p (fst (rel_step sha gov p op (s, w)))"
proof (cases op)
  case (RlPropose now i src council)
  then show ?thesis using propose_release_inv [OF assms(1) _ assms(2)] by simp
next
  case (RlProposeHashes now i src raw council)
  note b = st_blob_put_inv [OF assms(1), of "sha src" src]
  show ?thesis
  proof (cases "content_hash_parse raw")
    case (Inl e)
    then show ?thesis using RlProposeHashes b by simp
  next
    case (Inr hb)
    then have "store_inv sha nodes p (snd (propose_with_hashes now i (sha src) hb (bs_of council)
        (l_constitution (w_ledger w)) (snd (st_blob_put (sha src) src s))))"
      by (intro propose_with_hashes_inv [OF b] canonical_sha assms(2) content_hash_parse_canonical [OF Inr]) simp
    then show ?thesis using RlProposeHashes Inr by simp
  qed
next
  case (RlRebuild i vault)
  then show ?thesis using rebuild_release_inv [OF assms(1)] by simp
next
  case (RlCosign node now i)
  then show ?thesis using cosign_release_inv [OF assms(1) assms(3)] by simp
next
  case (RlActivate now1 now2 i)
  then show ?thesis using activate_release_inv [OF assms(1)] by simp
next
  case RlRestart
  then show ?thesis using release_open_inv [OF assms(1)] by auto
next
  case (RlElsewhere w1)
  then show ?thesis using assms(1) by simp
qed

lemma rel_run_inv:
  assumes "store_inv sha nodes p (fst sw)" "hex64 sha" "cosign_nodes ops \<subseteq> nodes"
  shows "store_inv sha nodes p (fst (fold (rel_step sha gov p) ops sw))"
  using assms(1,3)
proof (induction ops arbitrary: sw)
  case (Cons op ops)
  obtain s w where sw: "sw = (s, w)" by (cases sw)
  have "store_inv sha nodes p (fst (rel_step sha gov p op sw))"
    using rel_step_inv [of sha nodes p s op gov w] Cons.prems assms(2) sw by (force simp: cosign_nodes_def)
  moreover have "cosign_nodes ops \<subseteq> nodes" using Cons.prems by (auto simp: cosign_nodes_def)
  ultimately show ?case using Cons.IH by simp
qed simp

lemma fresh_store_inv: "store_inv sha nodes p (fresh_store p outs)"
  by (simp add: store_inv_def fresh_store_def mesh_new_inv)


lemma entry_backed:
  assumes inv: "mesh_inv sha nodes p m" and e: "e \<in> set (rm_allowlist m)"
  obtains c where "bt_get (al_release_id e) (rm_candidates m) = Some c" "cand_ok sha nodes c"
    "al_hs e = rc_hs c" "al_hb e = rc_hb c" "al_constitution_hash e = rc_constitution_hash c"
    "vault_cosign_quorum p \<le> length (rc_cosigns c)" "min_rebuilds p \<le> length (rc_rebuilds c)"
    "council_quorum p \<le> length (rc_council_sigs c)"
proof -
  have "entry_ok m e" using mesh_invD(4) [OF inv] e by blast
  then show ?thesis
    unfolding entry_ok_def mesh_invD(1) [OF inv] using mesh_invD(6) [OF inv] that by blast
qed

lemma persist_meta_ok:
  assumes "persist_meta s = (Inr u, s1)"
  shows "rs_meta s1 = Some (meta_of (rs_mesh s)) \<and> rs_mesh s1 = rs_mesh s"
proof -
  obtain w s2 where t: "take_outcome s = (w, s2)" by (cases "take_outcome s")
  then have "rs_mesh s2 = rs_mesh s" using take_outcome_keeps [of s] by simp
  then show ?thesis using assms by (cases w) (auto simp: persist_meta_def t)
qed


section \<open>Properties\<close>

text \<open>C18: what stands behind an allowlisted release: after any run of proposals, rebuilds, cosigns,
  activations, failing writes and restarts, every allowlist entry belongs to a release that a
  majority of vaults cosigned, each through its own cosign call, that the council quorum signed,
  that was proposed under the constitution the entry names, and that at least the configured
  number of vaults rebuilt; if that number is positive, the allowlisted binary hash is the rebuild
  of a source with the allowlisted source hash.\<close>

theorem release_allowlist_guarded:
  assumes "hex64 sha" and "e \<in> set (rm_allowlist (rs_mesh (fst (fold (rel_step sha gov p) ops (fresh_store p outs, w)))))"
  shows "\<exists>c. bt_get (al_release_id e) (rm_candidates (rs_mesh (fst (fold (rel_step sha gov p) ops (fresh_store p outs, w))))) = Some c
    \<and> al_hb e = rc_hb c \<and> al_constitution_hash e = rc_constitution_hash c
    \<and> vault_n p < 2 * card (set (rc_cosigns c)) \<and> set (rc_cosigns c) \<subseteq> cosign_nodes ops
    \<and> quorum_two_thirds (council_n p) \<le> card (set (rc_council_sigs c))
    \<and> min_rebuilds p \<le> card (fst ` set (rc_rebuilds c)) \<and> (\<forall>(v, h) \<in> set (rc_rebuilds c). h = al_hb e)
    \<and> (0 < min_rebuilds p \<longrightarrow> (\<exists>src. sha src = al_hs e \<and> lab_rebuild sha src = al_hb e))"
proof -
  let ?m = "rs_mesh (fst (fold (rel_step sha gov p) ops (fresh_store p outs, w)))"
  have inv: "mesh_inv sha (cosign_nodes ops) p ?m"
    by (intro store_mesh rel_run_inv assms(1)) (simp_all add: fresh_store_inv)
  obtain c where c: "bt_get (al_release_id e) (rm_candidates ?m) = Some c" and ok: "cand_ok sha (cosign_nodes ops) c"
      and f: "al_hs e = rc_hs c" "al_hb e = rc_hb c" "al_constitution_hash e = rc_constitution_hash c"
    and q: "vault_cosign_quorum p \<le> length (rc_cosigns c)" "min_rebuilds p \<le> length (rc_rebuilds c)"
      "council_quorum p \<le> length (rc_council_sigs c)"
    by (rule entry_backed [OF inv assms(2)])
  have "card (set (rc_cosigns c)) = length (rc_cosigns c)" "card (set (rc_council_sigs c)) = length (rc_council_sigs c)"
    using ok by (auto simp: cand_ok_def card_btset)
  moreover have "card (fst ` set (rc_rebuilds c)) = length (rc_rebuilds c)"
    using ok bt_ok_distinct [of "rc_rebuilds c"] distinct_card [of "map fst (rc_rebuilds c)"]
    by (simp add: cand_ok_def bt_keys_def)
  moreover have "0 < min_rebuilds p \<longrightarrow> rc_rebuilds c \<noteq> []" using q(2) by auto
  moreover have "set (rc_cosigns c) \<subseteq> cosign_nodes ops" "\<forall>(v, h) \<in> set (rc_rebuilds c). h = rc_hb c"
    "rc_rebuilds c \<noteq> [] \<longrightarrow> (\<exists>src. sha src = rc_hs c \<and> lab_rebuild sha src = rc_hb c)"
    using ok unfolding cand_ok_def by blast+
  ultimately show ?thesis
    using c q unfolding f vault_cosign_quorum_def council_quorum_def by (intro exI [of _ c]) simp
qed

text \<open>A vault alone never activates a release: a store only ever gets the cosigns of the vault whose
  process holds it, and nothing brings in the cosigns of others, so with two or more vaults the
  allowlist of every vault stays empty, whatever it runs.\<close>

theorem lone_vault_never_allowlists:
  assumes "hex64 sha" "2 \<le> vault_n p" "cosign_nodes ops \<subseteq> {node}"
  shows "rm_allowlist (rs_mesh (fst (fold (rel_step sha gov p) ops (fresh_store p outs, w)))) = []"
proof (rule ccontr)
  let ?m = "rs_mesh (fst (fold (rel_step sha gov p) ops (fresh_store p outs, w)))"
  have inv: "mesh_inv sha {node} p ?m"
    by (intro store_mesh rel_run_inv assms(1,3)) (simp add: fresh_store_inv)
  assume "rm_allowlist ?m \<noteq> []"
  then obtain e where "e \<in> set (rm_allowlist ?m)" by (meson ex_in_conv set_empty)
  then obtain c where c: "cand_ok sha {node} c" and q: "vault_cosign_quorum p \<le> length (rc_cosigns c)"
    by (rule entry_backed [OF inv])
  have ok: "bs_ok (rc_cosigns c)" "set (rc_cosigns c) \<subseteq> {node}"
    using c by (auto simp: cand_ok_def)
  then have "length (rc_cosigns c) \<le> card {node}"
    by (metis card_btset card_mono finite.emptyI finite_insert)
  then show False using q assms(2) by (simp add: vault_cosign_quorum_def)
qed

text \<open>A reported activation survives a restart: once an activation has answered with its entry, what
  is read back from the disk has the entry, and the same releases and allowlist as before.\<close>

theorem activation_survives_restart:
  assumes "hex64 sha"
    and "activate_release sha gov now1 now2 i (fold (rel_step sha gov p) ops (fresh_store p outs, w)) = (Inr e, s, w')"
  shows "\<exists>s1. release_open p s = Inr s1 \<and> e \<in> set (rm_allowlist (rs_mesh s1))
    \<and> rm_allowlist (rs_mesh s1) = rm_allowlist (rs_mesh s) \<and> rm_candidates (rs_mesh s1) = rm_candidates (rs_mesh s)"
proof -
  obtain s0 w0 where sw: "fold (rel_step sha gov p) ops (fresh_store p outs, w) = (s0, w0)"
    by (cases "fold (rel_step sha gov p) ops (fresh_store p outs, w)")
  have "store_inv sha (cosign_nodes ops) p s0"
    using rel_run_inv [of sha "cosign_nodes ops" p "(fresh_store p outs, w)" ops gov] assms(1) sw
    by (simp add: fresh_store_inv)
  then have "store_inv sha (cosign_nodes ops) p s"
    using activate_release_inv [of sha _ p s0 gov now1 now2 i w0] assms(2) sw by simp
  moreover have "\<exists>s1. st_put_allowlist e s1 = (Inr (), s)"
    using assms(2) sw by (auto simp: activate_release_def Let_def split: sum.splits prod.splits)
  then have m: "rs_meta s = Some (meta_of (rs_mesh s))" "e \<in> set (rm_allowlist (rs_mesh s))"
    by (auto simp: st_put_allowlist_def then_persist_def put_allowlist_def dest!: persist_meta_ok)
  ultimately have inv: "mesh_inv sha (cosign_nodes ops) p (rs_mesh s)" by (simp add: store_inv_def)
  have "release_open p s = Inr (s\<lparr>rs_mesh := foldl hydrate_blob ((rs_mesh s)\<lparr>rm_blobs := []\<rparr>) (rs_blob_files s)\<rparr>)"
    by (simp add: release_open_def m hydrate_meta_of [OF inv])
  then show ?thesis
    using m(2) hydrate_blobs [of "(rs_mesh s)\<lparr>rm_blobs := []\<rparr>" "rs_blob_files s" sha "cosign_nodes ops" p] by simp
qed


section \<open>Witnesses\<close>

text \<open>Two vaults that share a store, a policy of two council signatures and one rebuild.\<close>

definition lab_release_policy :: release_policy where
  "lab_release_policy = \<lparr>council_n = 3, min_rebuilds = 1, vault_n = 2, timelock_secs = 100, lab_timelock_scale = 0\<rparr>"

definition lab_release_ops :: "rel_op list" where
  "lab_release_ops =
     [RlPropose 0 ''r1'' ''src'' [''c1'', ''c2''], RlRebuild ''r1'' ''v1'', RlCosign ''v1'' 5 ''r1'', RlCosign ''v2'' 6 ''r1'']"


definition lab_store :: "world \<Rightarrow> release_store \<times> world" where
  "lab_store w = fold (rel_step zero_sha None lab_release_policy) lab_release_ops (fresh_store lab_release_policy [], w)"

lemma lab_activates:
  "\<exists>e s. activate_release zero_sha None 7 8 ''r1'' (lab_store w) = (Inr e, s, w) \<and> e \<in> set (rm_allowlist (rs_mesh s))"
proof -
  have t: "trim ''r1'' \<noteq> []" by code_simp
  have z: "zero_sha x = zero_sha y" for x y by (simp add: zero_sha_def)
  define h where "h = zero_sha []"
  have h: "zero_sha x = h" for x by (simp add: zero_sha_def h_def)
  show ?thesis
    by (simp add: lab_store_def lab_release_ops_def fresh_store_def mesh_new_def propose_release_def Let_def h lab_rebuild_def
        st_blob_put_def persist_blob_def take_outcome_def blob_put_def propose_candidate_def council_quorum_def
        lab_release_policy_def quorum_two_thirds_def bs_of_def candidate_new_def t st_put_candidate_def put_candidate_def
        then_persist_def persist_meta_def rebuild_release_def get_candidate_def blob_get_def record_rebuild_def closed_phase_def
        st_save_candidate_def save_candidate_def cosign_release_def predicates_ok_def effective_timelock_secs_def sat_mul_def
        add_cosign_def run_hook_def activate_release_def vault_cosign_quorum_def st_put_allowlist_def put_allowlist_def)
qed

lemma lab_run_activates:
  "\<exists>e. e \<in> set (rm_allowlist (rs_mesh (fst (fold (rel_step zero_sha None lab_release_policy)
        (lab_release_ops @ [RlActivate 7 8 ''r1'']) (fresh_store lab_release_policy [], w)))))"
proof -
  obtain e s where a: "activate_release zero_sha None 7 8 ''r1'' (lab_store w) = (Inr e, s, w)"
      "e \<in> set (rm_allowlist (rs_mesh s))"
    using lab_activates by blast
  obtain s0 w0 where l: "lab_store w = (s0, w0)" by (cases "lab_store w")
  then have "fold (rel_step zero_sha None lab_release_policy) (lab_release_ops @ [RlActivate 7 8 ''r1''])
      (fresh_store lab_release_policy [], w) = (s, w)"
    using a(1) by (simp add: lab_store_def)
  then show ?thesis using a(2) by auto
qed

theorem release_allowlist_guarded_witness:
  "\<forall>w. \<exists>(e :: allowlist_entry) c. bt_get (al_release_id e) (rm_candidates (rs_mesh (fst (fold (rel_step zero_sha None lab_release_policy)
        (lab_release_ops @ [RlActivate 7 8 ''r1'']) (fresh_store lab_release_policy [], w))))) = Some c
     \<and> 2 < 2 * card (set (rc_cosigns c)) \<and> al_hb e = rc_hb c"
proof
  fix w
  obtain e where "e \<in> set (rm_allowlist (rs_mesh (fst (fold (rel_step zero_sha None lab_release_policy)
        (lab_release_ops @ [RlActivate 7 8 ''r1'']) (fresh_store lab_release_policy [], w)))))"
    using lab_run_activates by blast
  then obtain c where "bt_get (al_release_id e) (rm_candidates (rs_mesh (fst (fold (rel_step zero_sha None lab_release_policy)
        (lab_release_ops @ [RlActivate 7 8 ''r1'']) (fresh_store lab_release_policy [], w))))) = Some c"
      "al_hb e = rc_hb c" "vault_n lab_release_policy < 2 * card (set (rc_cosigns c))"
    using release_allowlist_guarded [OF hex64_zero] by blast
  moreover have "vault_n lab_release_policy = 2" by (simp add: lab_release_policy_def)
  ultimately show "\<exists>(e :: allowlist_entry) c. bt_get (al_release_id e) (rm_candidates (rs_mesh (fst (fold (rel_step zero_sha None lab_release_policy)
        (lab_release_ops @ [RlActivate 7 8 ''r1'']) (fresh_store lab_release_policy [], w))))) = Some c
     \<and> 2 < 2 * card (set (rc_cosigns c)) \<and> al_hb e = rc_hb c"
    by (intro exI [of _ e] exI [of _ c]) simp
qed

theorem lone_vault_never_allowlists_witness:
  "\<forall>w. rm_allowlist (rs_mesh (fst (fold (rel_step zero_sha None lab_release_policy)
     [RlPropose 0 ''r1'' ''src'' [''c1'', ''c2''], RlRebuild ''r1'' ''v1'', RlRebuild ''r1'' ''v2'', RlCosign ''v1'' 5 ''r1'',
      RlActivate 7 8 ''r1''] (fresh_store lab_release_policy [], w)))) = []"
  by (intro allI lone_vault_never_allowlists [where node = "''v1''", OF hex64_zero])
     (auto simp: lab_release_policy_def cosign_nodes_def)

theorem activation_survives_restart_witness:
  "\<forall>w. \<exists>e s s1. activate_release zero_sha None 7 8 ''r1'' (lab_store w) = (Inr e, s, w)
     \<and> release_open lab_release_policy s = Inr s1 \<and> e \<in> set (rm_allowlist (rs_mesh s1))"
proof
  fix w
  obtain e s where a: "activate_release zero_sha None 7 8 ''r1'' (lab_store w) = (Inr e, s, w)"
    using lab_activates by blast
  from activation_survives_restart [OF hex64_zero a [unfolded lab_store_def]]
  show "\<exists>e s s1. activate_release zero_sha None 7 8 ''r1'' (lab_store w) = (Inr e, s, w)
     \<and> release_open lab_release_policy s = Inr s1 \<and> e \<in> set (rm_allowlist (rs_mesh s1))"
    using a by blast
qed

end
