(* ===== verification/Hex.thy ===== *)
theory Hex
  imports Errors
begin

text \<open>
  The \<open>hex\<close> crate as the vault uses it: lowercase encoding of bytes, and decoding that takes both
  cases and refuses odd lengths and other characters; and the standard library's parser of unsigned
  decimal text.
\<close>

definition nibble_char :: "nat \<Rightarrow> char" where
  "nibble_char d = (if d < 10 then chr (48 + d) else chr (87 + d))"

definition nibble :: "char \<Rightarrow> nat option" where
  "nibble c =
     (if 48 \<le> code c \<and> code c \<le> 57 then Some (code c - 48)
      else if 65 \<le> code c \<and> code c \<le> 70 then Some (code c - 55)
      else if 97 \<le> code c \<and> code c \<le> 102 then Some (code c - 87)
      else None)"

definition hex_encode :: "string \<Rightarrow> string" where
  "hex_encode s = concat (map (\<lambda>c. [nibble_char (code c div 16), nibble_char (code c mod 16)]) s)"

fun hex_decode :: "string \<Rightarrow> string option" where
  "hex_decode [] = Some []"
| "hex_decode [c] = None"
| "hex_decode (c # d # s) =
     (case (nibble c, nibble d, hex_decode s) of
        (Some h, Some l, Some r) \<Rightarrow> Some (chr (16 * h + l) # r)
      | _ \<Rightarrow> None)"

lemma code_lt: "code c < 256"
  by (simp add: code_def)

lemma chr_code: "chr (code c) = c"
  by (simp add: code_def chr_def)

lemma nibble_nibble_char: "d < 16 \<Longrightarrow> nibble (nibble_char d) = Some d"
  by (auto simp: nibble_def nibble_char_def code_chr)

lemma hex_round_trip [simp]: "hex_decode (hex_encode s) = Some s"
proof (induction s)
  case (Cons c s)
  have "code c div 16 < 16" using code_lt [of c] by (simp add: less_mult_imp_div_less)
  moreover have "16 * (code c div 16) + code c mod 16 = code c" by simp
  ultimately show ?case using Cons by (simp add: hex_encode_def nibble_nibble_char chr_code)
qed (simp add: hex_encode_def)

lemma hex_encode_inj: "hex_encode a = hex_encode b \<longleftrightarrow> a = b"
  by (metis hex_round_trip option.inject)

lemma hex_encode_chars: "c \<in> set (hex_encode s) \<Longrightarrow> nibble c \<noteq> None"
  by (auto simp: hex_encode_def nibble_nibble_char code_lt less_mult_imp_div_less)

lemma hex_encode_visible: "list_all visible (hex_encode s)"
proof -
  have "visible (nibble_char d)" if "d < 16" for d
    using that by (auto simp: visible_def nibble_char_def code_chr)
  then show ?thesis
    by (auto simp: list_all_iff hex_encode_def code_lt less_mult_imp_div_less)
qed

lemma hex_trim_round_trip [simp]: "hex_decode (trim (hex_encode s)) = Some s"
  by (simp add: trim_visible hex_encode_visible)

text \<open>\<open>str::parse\<close> of an unsigned integer of at most \<open>m\<close>: an optional plus sign and digits.\<close>

definition parse_uint :: "nat \<Rightarrow> string \<Rightarrow> nat option" where
  "parse_uint m s =
     (let d = (if s \<noteq> [] \<and> hd s = CHR ''+'' then tl s else s) in
      if d \<noteq> [] \<and> list_all is_ascii_digit d \<and> undec d \<le> m then Some (undec d) else None)"

lemma hd_dec: "hd (dec n) \<noteq> CHR ''+''"
proof -
  have "is_ascii_digit (hd (dec n))" by (rule dec_digits [of _ n]) simp
  then show ?thesis by (auto simp: is_ascii_digit_def code_def)
qed

lemma parse_uint_dec [simp]: "n \<le> m \<Longrightarrow> parse_uint m (dec n) = Some n"
  using hd_dec [of n] by (auto simp: parse_uint_def list_all_iff dec_digits)

lemma dec_visible: "list_all visible (dec n)"
proof -
  have "visible c" if "is_ascii_digit c" for c
    using that by (auto simp: visible_def is_ascii_digit_def)
  then show ?thesis by (auto simp: list_all_iff dec_digits)
qed

lemma trim_dec [simp]: "trim (dec n) = dec n"
  by (simp add: trim_visible dec_visible)

end
