(* ===== verification/Cosign.thy ===== *)
theory Cosign
  imports AntiNonce Hex
begin

text \<open>
  Taproot FROST co-signing over the wire (\<open>adapters/frost_wire_cosign.rs\<close>): the peer side, which
  hands out one commitment per session and later one signature share, the coordinator, and the HTTP
  transport.  The crate \<open>frost-secp256k1-tr\<close> is the record \<open>tr_crypto\<close> of the functions the code
  calls on serialized values; a fresh nonce pair is an argument of the call that draws it.
\<close>

section \<open>The FROST crate and the share slot\<close>

type_synonym signing_package = "string btmap \<times> string"

text \<open>Deserializers give the canonical bytes of a value, \<open>tc_sign\<close> takes the key package before the
  even-y tweak, serializers do not fail, and \<open>tc_why\<close> stands for the text of the crates' own errors.\<close>

record tr_crypto =
  tc_identifier :: "string \<Rightarrow> string option"
  tc_commitments :: "string \<Rightarrow> string option"
  tc_share :: "string \<Rightarrow> string option"
  tc_pack :: "signing_package \<Rightarrow> string"
  tc_unpack :: "string \<Rightarrow> signing_package option"
  tc_sign :: "signing_package \<Rightarrow> string \<Rightarrow> string \<Rightarrow> string option"
  tc_aggregate :: "signing_package \<Rightarrow> string btmap \<Rightarrow> string \<Rightarrow> string option"
  tc_verify :: "string \<Rightarrow> string \<Rightarrow> string \<Rightarrow> bool"
  tc_why :: string

record tr_share_state =
  tr_key_packages :: "string btmap"
  tr_pubkey :: string
  tr_min_signers :: nat

definition tr_snapshot :: "tr_share_state option \<Rightarrow> tr_share_state res" where
  "tr_snapshot slot =
     (case slot of Some s \<Rightarrow> Inr s | None \<Rightarrow> Inl (ThresholdError ''taproot FROST shares not installed''))"

definition of_crate :: "tr_crypto \<Rightarrow> string \<Rightarrow> 'a option \<Rightarrow> 'a res" where
  "of_crate k what x = (case x of Some v \<Rightarrow> Inr v | None \<Rightarrow> Inl (ThresholdError (what @ tc_why k)))"


section \<open>The peer\<close>

record tr_commit_request =
  cq_session :: string
  cq_message_hex :: string
  cq_coordinator :: string

record tr_commit_response =
  cr_node :: string
  cr_identifier_hex :: string
  cr_commitments_hex :: string

record tr_share_request =
  sq_session :: string
  sq_package_hex :: string
  sq_participants :: "string list"

record tr_share_response =
  sr_node :: string
  sr_identifier_hex :: string
  sr_share_hex :: string

record cosign_peer =
  cp_node :: string
  cp_shares :: "tr_share_state option"
  cp_pending :: "(string \<times> string) btmap"
  cp_anti_nonce :: "anti_nonce option"

definition local_key_package :: "tr_share_state \<Rightarrow> (string \<times> string) res" where
  "local_key_package s =
     (case tr_key_packages s of
        [kp] \<Rightarrow> Inr kp
      | _ \<Rightarrow> Inl (ThresholdError (''wire co-sign peer requires exactly 1 local TR share (have ''
                @ dec (length (tr_key_packages s)) @ '')'')))"

text \<open>\<open>nonces\<close> and \<open>commitments\<close> are what \<open>round1::commit\<close> draws.\<close>

definition handle_commit ::
  "tr_crypto \<Rightarrow> string \<Rightarrow> string \<Rightarrow> tr_commit_request \<Rightarrow> cosign_peer \<Rightarrow> tr_commit_response res \<times> cosign_peer" where
  "handle_commit k nonces commitments q p =
     (case rbind (of_crate k ''co-sign message hex: '' (hex_decode (trim (cq_message_hex q)))) (\<lambda>message.
           rbind (tr_snapshot (cp_shares p)) (\<lambda>snap.
           rbind (local_key_package snap) (\<lambda>(i, kp). Inr (message, i)))) of
        Inl e \<Rightarrow> (Inl e, p)
      | Inr (message, i) \<Rightarrow>
          (Inr \<lparr>cr_node = cp_node p, cr_identifier_hex = hex_encode i, cr_commitments_hex = hex_encode commitments\<rparr>,
           p\<lparr>cp_pending := bt_put (cq_session q) (nonces, message) (cp_pending p)\<rparr>))"

text \<open>The session is burned on the peer's anti-nonce ledger, if one is attached.\<close>

definition observe_session :: "nat \<Rightarrow> string \<Rightarrow> cosign_peer \<Rightarrow> unit res \<times> cosign_peer" where
  "observe_session now s p =
     (case cp_anti_nonce p of
        None \<Rightarrow> (Inr (), p)
      | Some a \<Rightarrow>
          (case an_is_consumed now s a of
             (True, a1) \<Rightarrow> (Inl (SessionConsumed s), p\<lparr>cp_anti_nonce := Some a1\<rparr>)
           | (False, a1) \<Rightarrow> (Inr (), p\<lparr>cp_anti_nonce := Some (snd (an_prepare_soft now s a1))\<rparr>)))"

text \<open>The share for a nonce, and the package it signs.\<close>

definition share_of ::
  "tr_crypto \<Rightarrow> string \<Rightarrow> signing_package \<Rightarrow> cosign_peer \<Rightarrow> tr_share_response option res" where
  "share_of k nonces pkg p =
     rbind (tr_snapshot (cp_shares p)) (\<lambda>snap.
     rbind (local_key_package snap) (\<lambda>(i, kp).
       if bt_get i (fst pkg) = None then Inr None
       else rbind (of_crate k ''frost-tr peer round2: '' (tc_sign k pkg nonces kp)) (\<lambda>share.
         Inr (Some \<lparr>sr_node = cp_node p, sr_identifier_hex = hex_encode i, sr_share_hex = hex_encode share\<rparr>))))"

definition handle_sign_share ::
  "tr_crypto \<Rightarrow> nat \<Rightarrow> tr_share_request \<Rightarrow> cosign_peer \<Rightarrow> tr_share_response option res \<times> cosign_peer" where
  "handle_sign_share k now q p =
     (let p1 = p\<lparr>cp_pending := bt_remove (sq_session q) (cp_pending p)\<rparr> in
      if sq_participants q \<noteq> [] \<and> cp_node p \<notin> set (sq_participants q) then (Inr None, p1)
      else case bt_get (sq_session q) (cp_pending p) of
        None \<Rightarrow> (Inl (ThresholdError (''no pending TR co-sign round for session '' @ sq_session q)), p)
      | Some (nonces, message) \<Rightarrow>
          (case rbind (of_crate k ''signing package hex: '' (hex_decode (trim (sq_package_hex q)))) (\<lambda>bytes.
                rbind (of_crate k ''signing package deserialize: '' (tc_unpack k bytes)) (\<lambda>pkg.
                  if snd pkg \<noteq> message then Inl (ThresholdError ''co-sign signing package message mismatch'')
                  else Inr pkg)) of
             Inl e \<Rightarrow> (Inl e, p1)
           | Inr pkg \<Rightarrow>
               (case observe_session now (sq_session q) p1 of
                  (Inl e, p2) \<Rightarrow> (Inl e, p2)
                | (Inr _, p2) \<Rightarrow> (share_of k nonces pkg p2, p2))))"


section \<open>The transport\<close>

text \<open>One answer of a peer: a response with its status, the status as
  displayed, its body decoded and its text, or none.  A response is never retried.\<close>

datatype 'a post_outcome = PostReply nat string "'a option" string | PostFail string

fun post_retry :: "(nat \<Rightarrow> 'a post_outcome) \<Rightarrow> string \<Rightarrow> nat \<Rightarrow> nat \<Rightarrow> (nat \<times> string \<times> 'a option \<times> string) res" where
  "post_retry net url 0 k = Inl (ThresholdError (''TR co-sign HTTP '' @ url))"
| "post_retry net url (Suc left) k =
     (case net k of
        PostReply c st b t \<Rightarrow> Inr (c, st, b, t)
      | PostFail e \<Rightarrow>
          if left = 0 then Inl (ThresholdError (''TR co-sign HTTP '' @ url @ '': '' @ e))
          else post_retry net url left (Suc k))"

definition post_peer :: "(nat \<Rightarrow> 'a post_outcome) \<Rightarrow> string \<Rightarrow> nat \<Rightarrow> 'a res" where
  "post_peer net url retries =
     rbind (post_retry net url (max retries 1) 0) (\<lambda>(c, st, b, t).
       if c < 200 \<or> 300 \<le> c
       then Inl (ThresholdError (''TR co-sign peer '' @ url @ '' failed ('' @ st @ ''): '' @ t))
       else case b of
         Some r \<Rightarrow> Inr r
       | None \<Rightarrow> Inl (ThresholdError (''TR co-sign peer decode: '' @ t)))"

definition peer_error :: "string \<Rightarrow> string \<Rightarrow> 'a res \<Rightarrow> 'a res" where
  "peer_error what i r = (case r of Inr v \<Rightarrow> Inr v | Inl e \<Rightarrow> Inl (ThresholdError (what @ i @ '': '' @ display e)))"

fun collect_commitments ::
  "(string \<Rightarrow> nat \<Rightarrow> tr_commit_response post_outcome) \<Rightarrow> nat \<Rightarrow> (string \<times> string) list \<Rightarrow> tr_commit_response list res" where
  "collect_commitments net retries [] = Inr []"
| "collect_commitments net retries ((i, base) # ps) =
     rbind (peer_error ''TR commit from '' i
              (post_peer (net (base @ ''/v1/frost/tr/commit'')) (base @ ''/v1/frost/tr/commit'') retries)) (\<lambda>r.
     rbind (collect_commitments net retries ps) (\<lambda>rs. Inr (r # rs)))"

fun collect_signature_shares ::
  "(string \<Rightarrow> nat \<Rightarrow> tr_share_response post_outcome) \<Rightarrow> nat \<Rightarrow> string list \<Rightarrow> (string \<times> string) list
     \<Rightarrow> tr_share_response list res" where
  "collect_signature_shares net retries parts [] = Inr []"
| "collect_signature_shares net retries parts ((i, base) # ps) =
     (if parts \<noteq> [] \<and> i \<notin> set parts then collect_signature_shares net retries parts ps
      else rbind (peer_error ''TR sign-share from '' i
                    (post_peer (net (base @ ''/v1/frost/tr/sign-share'')) (base @ ''/v1/frost/tr/sign-share'') retries)) (\<lambda>r.
           rbind (collect_signature_shares net retries parts ps) (\<lambda>rs. Inr (r # rs))))"


section \<open>The coordinator\<close>

fun gather_commitments ::
  "tr_crypto \<Rightarrow> tr_commit_response list \<Rightarrow> string btmap \<times> string btmap \<Rightarrow> (string btmap \<times> string btmap) res" where
  "gather_commitments k [] ms = Inr ms"
| "gather_commitments k (r # rs) ms =
     rbind (of_crate k ''peer identifier hex: '' (hex_decode (trim (cr_identifier_hex r)))) (\<lambda>ib.
     rbind (of_crate k ''peer identifier: '' (tc_identifier k ib)) (\<lambda>i.
     rbind (of_crate k ''peer commitments hex: '' (hex_decode (trim (cr_commitments_hex r)))) (\<lambda>cb.
     rbind (of_crate k ''peer commitments: '' (tc_commitments k cb)) (\<lambda>c.
       gather_commitments k rs (bt_put i c (fst ms), bt_put i (cr_node r) (snd ms))))))"

text \<open>Keep the local commitment and the lowest other identifiers, \<open>need\<close> in all.\<close>

definition trim_commitments :: "string \<Rightarrow> nat \<Rightarrow> string btmap \<Rightarrow> string btmap" where
  "trim_commitments local need m =
     (if length m \<le> need then m
      else let keep = local # take (need - 1) (filter (\<lambda>i. i \<noteq> local) (bt_keys m))
           in filter (\<lambda>(i, c). i \<in> set keep) m)"

fun gather_shares ::
  "tr_crypto \<Rightarrow> signing_package \<Rightarrow> string btmap \<Rightarrow> tr_share_response list \<Rightarrow> string btmap \<times> string list
     \<Rightarrow> (string btmap \<times> string list) res" where
  "gather_shares k pkg names [] acc = Inr acc"
| "gather_shares k pkg names (r # rs) acc =
     rbind (of_crate k ''peer identifier hex: '' (hex_decode (trim (sr_identifier_hex r)))) (\<lambda>ib.
     rbind (of_crate k ''peer identifier: '' (tc_identifier k ib)) (\<lambda>i.
       if bt_get i (fst pkg) = None then gather_shares k pkg names rs acc
       else
         rbind (of_crate k ''peer sig share hex: '' (hex_decode (trim (sr_share_hex r)))) (\<lambda>sb.
         rbind (of_crate k ''peer sig share: '' (tc_share k sb)) (\<lambda>s.
           gather_shares k pkg names rs
             (bt_put i s (fst acc), (case bt_get i names of Some n \<Rightarrow> snd acc @ [n] | None \<Rightarrow> snd acc))))))"

record attributed_signature =
  as_signature :: string
  as_participants :: "string list"

definition sign_raw_wire_attributed ::
  "tr_crypto \<Rightarrow> string \<Rightarrow> string \<Rightarrow> (tr_commit_request \<Rightarrow> tr_commit_response list res)
     \<Rightarrow> (tr_share_request \<Rightarrow> tr_share_response list res) \<Rightarrow> tr_share_state option \<Rightarrow> string \<Rightarrow> string \<Rightarrow> string
     \<Rightarrow> attributed_signature res" where
  "sign_raw_wire_attributed k nonces commitments commits shares slot local_node session message =
     rbind (tr_snapshot slot) (\<lambda>snap.
     case tr_key_packages snap of
       [(local_id, kp)] \<Rightarrow>
         rbind (commits \<lparr>cq_session = session, cq_message_hex = hex_encode message, cq_coordinator = local_node\<rparr>) (\<lambda>peers.
         rbind (gather_commitments k peers ([(local_id, commitments)], [])) (\<lambda>(cm, names).
           if length cm < tr_min_signers snap then Inl (FailStop (length cm) (tr_min_signers snap))
           else
             let pkg = (trim_commitments local_id (tr_min_signers snap) cm, message);
                 selected = bs_of (concat (map (\<lambda>i. case bt_get i names of Some n \<Rightarrow> [n] | None \<Rightarrow> []) (bt_keys (fst pkg))))
             in
             rbind (of_crate k ''frost-tr local round2: '' (tc_sign k pkg nonces kp)) (\<lambda>own.
             rbind (shares \<lparr>sq_session = session, sq_package_hex = hex_encode (tc_pack k pkg), sq_participants = selected\<rparr>) (\<lambda>rs.
             rbind (gather_shares k pkg names rs ([(local_id, own)], [local_node])) (\<lambda>(sm, parts).
               if length sm < tr_min_signers snap then Inl (FailStop (length sm) (tr_min_signers snap))
               else
                 rbind (of_crate k ''frost-tr wire aggregate: '' (tc_aggregate k pkg sm (tr_pubkey snap))) (\<lambda>sig.
                   if \<not> tc_verify k (tr_pubkey snap) message sig
                   then Inl (ThresholdError (''frost-tr wire verify: '' @ tc_why k))
                   else Inr \<lparr>as_signature = sig, as_participants = bs_of parts\<rparr>))))))
     | _ \<Rightarrow> Inl (ThresholdError (''distributed_wire TR sign requires exactly 1 local share (have ''
              @ dec (length (tr_key_packages snap)) @ ''); multi-share in-process sign is dealer_lab only'')))"

definition sign_raw_wire ::
  "tr_crypto \<Rightarrow> string \<Rightarrow> string \<Rightarrow> (tr_commit_request \<Rightarrow> tr_commit_response list res)
     \<Rightarrow> (tr_share_request \<Rightarrow> tr_share_response list res) \<Rightarrow> tr_share_state option \<Rightarrow> string \<Rightarrow> string \<Rightarrow> string \<Rightarrow> string res" where
  "sign_raw_wire k nonces commitments commits shares slot local_node session message =
     rbind (sign_raw_wire_attributed k nonces commitments commits shares slot local_node session message) (\<lambda>a.
       Inr (as_signature a))"

definition tr_state_local_only :: "string \<Rightarrow> tr_share_state \<Rightarrow> tr_share_state res" where
  "tr_state_local_only local_id s =
     (case bt_get local_id (tr_key_packages s) of
        None \<Rightarrow> Inl (ThresholdError ''local TR identifier missing from key packages'')
      | Some kp \<Rightarrow> Inr (s\<lparr>tr_key_packages := [(local_id, kp)]\<rparr>))"


section \<open>Ordered maps\<close>

lemma bt_vals_put: "set (bt_vals (bt_put k v m)) \<subseteq> insert v (set (bt_vals m))"
  by (induction k v m rule: bt_put.induct) (auto simp: bt_vals_def)

lemma bt_vals_put_distinct:
  "distinct (map f (bt_vals m)) \<Longrightarrow> f v \<notin> f ` set (bt_vals m) \<Longrightarrow> distinct (map f (bt_vals (bt_put k v m)))"
proof (induction k v m rule: bt_put.induct)
  case (2 k v j w m)
  have "f ` set (bt_vals (bt_put k v m)) \<subseteq> f ` insert v (set (bt_vals m))"
    using bt_vals_put by (rule image_mono)
  moreover have "f w \<notin> f ` insert v (set (bt_vals m))" using 2(2,3) by (auto simp: bt_vals_def)
  ultimately have "f w \<notin> f ` set (bt_vals (bt_put k v m))" by blast
  then show ?case using 2 by (auto simp: bt_vals_def image_comp comp_def)
qed (simp add: bt_vals_def)

lemma bt_vals_remove: "set (bt_vals (bt_remove k m)) \<subseteq> set (bt_vals m)"
  by (auto simp: bt_vals_def bt_remove_def)

lemma bt_vals_remove_distinct: "distinct (map f (bt_vals m)) \<Longrightarrow> distinct (map f (bt_vals (bt_remove k m)))"
  by (auto simp: bt_vals_def bt_remove_def distinct_map_filter)

lemma bt_vals_remove_gone:
  assumes "distinct (map f (bt_vals m))" "bt_get k m = Some v"
  shows "f v \<notin> f ` set (bt_vals (bt_remove k m))"
proof
  assume "f v \<in> f ` set (bt_vals (bt_remove k m))"
  then obtain i w where w: "(i, w) \<in> set m" "i \<noteq> k" "f w = f v"
    by (auto simp: bt_vals_def bt_remove_def)
  have "(k, v) \<in> set m" using assms(2) by (rule bt_get_Some_in)
  moreover have "inj_on (f \<circ> snd) (set m)" using assms(1) by (simp add: bt_vals_def distinct_map)
  ultimately show False using w unfolding inj_on_def by fastforce
qed


section \<open>A nonce signs once\<close>

datatype cosign_op = CoCommit string string tr_commit_request | CoShare nat tr_share_request

fun cosign_step :: "tr_crypto \<Rightarrow> cosign_op \<Rightarrow> cosign_peer \<Rightarrow> cosign_peer" where
  "cosign_step k (CoCommit n c q) p = snd (handle_commit k n c q p)"
| "cosign_step k (CoShare now q) p = snd (handle_sign_share k now q p)"

text \<open>The nonce and the message a share request has a share made of.\<close>

definition share_made :: "tr_crypto \<Rightarrow> nat \<Rightarrow> tr_share_request \<Rightarrow> cosign_peer \<Rightarrow> (string \<times> string) option" where
  "share_made k now q p =
     (case fst (handle_sign_share k now q p) of
        Inr (Some r) \<Rightarrow> bt_get (sq_session q) (cp_pending p)
      | _ \<Rightarrow> None)"

fun shares_made :: "tr_crypto \<Rightarrow> cosign_op list \<Rightarrow> cosign_peer \<Rightarrow> (string \<times> string) list" where
  "shares_made k [] p = []"
| "shares_made k (CoCommit n c q # ops) p = shares_made k ops (snd (handle_commit k n c q p))"
| "shares_made k (CoShare now q # ops) p =
     (case share_made k now q p of Some x \<Rightarrow> [x] | None \<Rightarrow> [])
       @ shares_made k ops (snd (handle_sign_share k now q p))"

fun drawn :: "cosign_op list \<Rightarrow> string list" where
  "drawn [] = []"
| "drawn (CoCommit n c q # ops) = n # drawn ops"
| "drawn (CoShare now q # ops) = drawn ops"

text \<open>The message a nonce was drawn for.\<close>

fun drawn_for :: "cosign_op list \<Rightarrow> (string \<times> string option) list" where
  "drawn_for [] = []"
| "drawn_for (CoCommit n c q # ops) = (n, hex_decode (trim (cq_message_hex q))) # drawn_for ops"
| "drawn_for (CoShare now q # ops) = drawn_for ops"

definition pending_nonces :: "cosign_peer \<Rightarrow> string list" where
  "pending_nonces p = map fst (bt_vals (cp_pending p))"

lemma handle_commit_pending:
  "snd (handle_commit k n c q p) = p
   \<or> (\<exists>m. hex_decode (trim (cq_message_hex q)) = Some m
        \<and> snd (handle_commit k n c q p) = p\<lparr>cp_pending := bt_put (cq_session q) (n, m) (cp_pending p)\<rparr>)"
  by (auto simp: handle_commit_def rbind_def of_crate_def split: sum.splits option.splits prod.splits)

lemma observe_session_pending [simp]: "cp_pending (snd (observe_session now s p)) = cp_pending p"
  by (auto simp: observe_session_def split: option.splits prod.splits bool.splits)

lemma handle_sign_share_pending:
  "cp_pending (snd (handle_sign_share k now q p)) = bt_remove (sq_session q) (cp_pending p)
   \<or> snd (handle_sign_share k now q p) = p \<and> bt_get (sq_session q) (cp_pending p) = None"
proof -
  let ?p1 = "p\<lparr>cp_pending := bt_remove (sq_session q) (cp_pending p)\<rparr>"
  obtain r p2 where o: "observe_session now (sq_session q) ?p1 = (r, p2)" by fastforce
  then have "cp_pending p2 = bt_remove (sq_session q) (cp_pending p)"
    using observe_session_pending [of now "sq_session q" ?p1] by simp
  then show ?thesis using o
    by (simp add: handle_sign_share_def Let_def split: option.split prod.split sum.split)
qed

lemma share_made_spec:
  assumes "share_made k now q p = Some (n, m)"
  shows "bt_get (sq_session q) (cp_pending p) = Some (n, m)"
    "cp_pending (snd (handle_sign_share k now q p)) = bt_remove (sq_session q) (cp_pending p)"
  using assms handle_sign_share_pending [of k now q p]
  by (auto simp: share_made_def split: sum.splits option.splits)

lemma drawn_for_drawn: "(n, m) \<in> set (drawn_for ops) \<Longrightarrow> n \<in> set (drawn ops)"
  by (induction ops rule: drawn.induct) auto

lemma shares_made_distinct:
  assumes "distinct (pending_nonces p @ drawn ops)"
  shows "distinct (map fst (shares_made k ops p))
    \<and> set (shares_made k ops p) \<subseteq> set (bt_vals (cp_pending p)) \<union> {(n, m). (n, Some m) \<in> set (drawn_for ops)}"
  using assms
proof (induction k ops p rule: shares_made.induct)
  case (2 k n c q ops p)
  consider "snd (handle_commit k n c q p) = p"
    | m where "hex_decode (trim (cq_message_hex q)) = Some m"
        "snd (handle_commit k n c q p) = p\<lparr>cp_pending := bt_put (cq_session q) (n, m) (cp_pending p)\<rparr>"
    using handle_commit_pending [of k n c q p] by blast
  then show ?case
  proof cases
    case 1
    then show ?thesis using 2 by auto
  next
    case (2 m)
    let ?p1 = "p\<lparr>cp_pending := bt_put (cq_session q) (n, m) (cp_pending p)\<rparr>"
    have "distinct (pending_nonces ?p1)" "set (pending_nonces ?p1) \<subseteq> insert n (set (pending_nonces p))"
      using \<open>distinct (pending_nonces p @ drawn (CoCommit n c q # ops))\<close>
        bt_vals_put [of "cq_session q" "(n, m)" "cp_pending p"]
        bt_vals_put_distinct [of fst "cp_pending p" "(n, m)" "cq_session q"]
      by (auto simp: pending_nonces_def)
    then have "distinct (pending_nonces ?p1 @ drawn ops)"
      using \<open>distinct (pending_nonces p @ drawn (CoCommit n c q # ops))\<close> by auto
    then show ?thesis
      using \<open>distinct (pending_nonces _ @ drawn ops) \<Longrightarrow> _\<close> 2
        bt_vals_put [of "cq_session q" "(n, m)" "cp_pending p"] by fastforce
  qed
next
  case (3 k now q ops p)
  let ?p1 = "snd (handle_sign_share k now q p)"
  have sub: "set (bt_vals (cp_pending ?p1)) \<subseteq> set (bt_vals (cp_pending p))"
    and dis: "distinct (pending_nonces ?p1)"
    using handle_sign_share_pending [of k now q p] bt_vals_remove [of "sq_session q" "cp_pending p"]
      bt_vals_remove_distinct [of fst "cp_pending p"] 3(2) by (auto simp: pending_nonces_def)
  then have d1: "distinct (pending_nonces ?p1 @ drawn ops)"
    using 3(2) by (auto simp: pending_nonces_def)
  note IH = 3(1) [OF d1]
  show ?case
  proof (cases "share_made k now q p")
    case None
    then show ?thesis using IH sub by auto
  next
    case (Some x)
    obtain n m where x: "x = (n, m)" by (cases x)
    note sp = share_made_spec [OF Some [unfolded x]]
    have "n \<notin> set (pending_nonces ?p1)"
      using bt_vals_remove_gone [of fst "cp_pending p" "sq_session q" "(n, m)"] 3(2) sp by (simp add: pending_nonces_def)
    moreover have in_p: "(n, m) \<in> set (bt_vals (cp_pending p))"
      using bt_get_Some_in [OF sp(1)] by (force simp: bt_vals_def)
    then have "n \<in> set (pending_nonces p)" by (force simp: pending_nonces_def)
    then have "n \<notin> set (drawn ops)" using 3(2) by auto
    moreover have "fst ` set (shares_made k ops ?p1) \<subseteq> set (pending_nonces ?p1) \<union> set (drawn ops)"
    proof
      fix a
      assume "a \<in> fst ` set (shares_made k ops ?p1)"
      then obtain b where "(a, b) \<in> set (shares_made k ops ?p1)" by force
      then have "(a, b) \<in> set (bt_vals (cp_pending ?p1)) \<or> (a, Some b) \<in> set (drawn_for ops)"
        using subsetD [OF conjunct2 [OF IH], of "(a, b)"] by simp
      then show "a \<in> set (pending_nonces ?p1) \<union> set (drawn ops)"
      proof
        assume "(a, b) \<in> set (bt_vals (cp_pending ?p1))"
        from imageI [OF this, of fst] show ?thesis by (simp add: pending_nonces_def)
      next
        assume "(a, Some b) \<in> set (drawn_for ops)"
        from drawn_for_drawn [OF this] show ?thesis by simp
      qed
    qed
    ultimately have "n \<notin> fst ` set (shares_made k ops ?p1)" by blast
    then have "distinct (map fst (shares_made k (CoShare now q # ops) p))" using Some x IH by simp
    moreover have "set (shares_made k (CoShare now q # ops) p)
      \<subseteq> set (bt_vals (cp_pending p)) \<union> {(n, m). (n, Some m) \<in> set (drawn_for ops)}"
      using Some x in_p subset_trans [OF conjunct2 [OF IH] Un_mono [OF sub order_refl]] by simp
    ultimately show ?thesis by simp
  qed
qed simp


definition cosign_demo_crypto :: tr_crypto where
  "cosign_demo_crypto = \<lparr>tc_identifier = Some, tc_commitments = Some, tc_share = Some,
     tc_pack = (\<lambda>(m, x). x), tc_unpack = (\<lambda>x. Some ([(''1'', ''c''), (''2'', ''d'')], x)),
     tc_sign = (\<lambda>pkg n kp. Some (n @ kp)), tc_aggregate = (\<lambda>pkg sm pk. Some (concat (bt_vals sm))),
     tc_verify = (\<lambda>pk m sig. True), tc_why = []\<rparr>"

definition cosign_demo_peer :: "string \<Rightarrow> string \<Rightarrow> cosign_peer" where
  "cosign_demo_peer node i =
     \<lparr>cp_node = node, cp_shares = Some \<lparr>tr_key_packages = [(i, ''key'')], tr_pubkey = ''pk'', tr_min_signers = 2\<rparr>,
      cp_pending = [], cp_anti_nonce = None\<rparr>"

definition cosign_demo_ops :: "cosign_op list" where
  "cosign_demo_ops =
     [CoCommit ''n1'' ''c1'' \<lparr>cq_session = ''s'', cq_message_hex = ''4d'', cq_coordinator = ''a''\<rparr>,
      CoShare 5 \<lparr>sq_session = ''s'', sq_package_hex = ''4d'', sq_participants = [''b'']\<rparr>,
      CoShare 6 \<lparr>sq_session = ''s'', sq_package_hex = ''4d'', sq_participants = [''b'']\<rparr>]"


section \<open>What a coordinator's signature stands on\<close>

lemma gather_commitments_ok:
  "gather_commitments k rs ms = Inr (cm, ns) \<Longrightarrow> bt_ok (fst ms)
   \<Longrightarrow> bt_ok cm \<and> set (bt_keys (fst ms)) \<subseteq> set (bt_keys cm)"
proof (induction k rs ms rule: gather_commitments.induct)
  case (2 k r rs ms)
  from 2(2) obtain i c where "gather_commitments k rs (bt_put i c (fst ms), bt_put i (cr_node r) (snd ms)) = Inr (cm, ns)"
    and ih: "bt_ok (bt_put i c (fst ms)) \<Longrightarrow> bt_ok cm \<and> set (bt_keys (bt_put i c (fst ms))) \<subseteq> set (bt_keys cm)"
    using 2(1) by (auto simp: rbind_def split: sum.splits)
  then show ?case using ih [OF bt_ok_put [OF 2(3)]] by (simp add: bt_keys_put)
qed simp

lemma length_filter_keys:
  "distinct (bt_keys m) \<Longrightarrow> length (filter (\<lambda>(i, c). i \<in> S) m) = card (S \<inter> set (bt_keys m))"
  by (induction m) (auto simp: Int_insert_right)

lemma trim_commitments_length:
  assumes "bt_ok m" "local \<in> set (bt_keys m)" "0 < need" "need \<le> length m"
  shows "length (trim_commitments local need m) = need"
proof (cases "length m \<le> need")
  case False
  let ?others = "filter (\<lambda>i. i \<noteq> local) (bt_keys m)"
  let ?keep = "local # take (need - 1) ?others"
  have d: "distinct (bt_keys m)" using assms(1) by (rule bt_ok_distinct)
  have "removeAll local (bt_keys m) = ?others" by (simp add: removeAll_filter_not_eq) (metis (no_types))
  then have "length ?others = length m - 1"
    using d assms(2) length_remove1 [of local "bt_keys m"] by (simp add: distinct_remove1_removeAll bt_keys_def)
  moreover have "distinct ?keep" using d by (auto dest: in_set_takeD)
  moreover have "set ?keep \<subseteq> set (bt_keys m)" using assms(2) by (auto dest: in_set_takeD)
  ultimately have "card (set ?keep \<inter> set (bt_keys m)) = need"
    using distinct_card [of ?keep] assms(3,4) by (simp add: Int_absorb2 del: set_simps)
  then show ?thesis using False length_filter_keys [OF d, of "set ?keep"]
    by (simp add: trim_commitments_def Let_def)
qed (use assms(4) in \<open>simp add: trim_commitments_def\<close>)

lemma trim_commitments_ok: "bt_ok m \<Longrightarrow> bt_ok (trim_commitments local need m)"
  by (auto simp: trim_commitments_def Let_def bt_ok_def bt_keys_def sorted_wrt_map intro: sorted_wrt_filter)

lemma gather_shares_ok:
  "gather_shares k pkg ns rs acc = Inr (sm, parts) \<Longrightarrow> bt_ok (fst acc)
   \<Longrightarrow> set (bt_keys (fst acc)) \<subseteq> set (bt_keys (fst pkg))
   \<Longrightarrow> bt_ok sm \<and> set (bt_keys sm) \<subseteq> set (bt_keys (fst pkg))"
  by (induction k pkg ns rs acc rule: gather_shares.induct)
    (auto simp: rbind_def bt_keys_put bt_get_None bt_ok_put split: sum.splits if_splits)

lemma sign_raw_wire_attributed_ok:
  assumes "sign_raw_wire_attributed k nonces commitments commits shares slot local_node session message = Inr a"
  shows "\<exists>snap local_id kp cm ns sm parts rs. slot = Some snap \<and> tr_key_packages snap = [(local_id, kp)]
    \<and> gather_commitments k rs ([(local_id, commitments)], []) = Inr (cm, ns)
    \<and> tr_min_signers snap \<le> length cm \<and> tr_min_signers snap \<le> length sm
    \<and> (\<exists>own rs'. gather_shares k (trim_commitments local_id (tr_min_signers snap) cm, message) ns rs'
         ([(local_id, own)], [local_node]) = Inr (sm, parts))
    \<and> (\<exists>own. tc_sign k (trim_commitments local_id (tr_min_signers snap) cm, message) nonces kp = Some own)
    \<and> tc_aggregate k (trim_commitments local_id (tr_min_signers snap) cm, message) sm (tr_pubkey snap) = Some (as_signature a)
    \<and> tc_verify k (tr_pubkey snap) message (as_signature a)
    \<and> as_participants a = bs_of parts"
  using assms
  by (fastforce simp: sign_raw_wire_attributed_def rbind_def tr_snapshot_def of_crate_def Let_def not_less
      split: sum.splits option.splits list.splits prod.splits if_splits)

text \<open>C20: What a co-signed answer stands on.  A coordinator that gets a signature holds one share, the
  signature is the aggregate of the shares for a signing package over the requested message, it verifies
  under the group key, and exactly the threshold of distinct identifiers, the coordinator's own among
  them, are in the package and each of them contributed a share.\<close>

theorem wire_sign_quorum:
  assumes "sign_raw_wire_attributed k nonces commitments commits shares slot local_node session message = Inr a"
    "slot = Some snap" "0 < tr_min_signers snap"
  shows "\<exists>local_id kp pkg sm. tr_key_packages snap = [(local_id, kp)] \<and> local_id \<in> set (bt_keys pkg)
    \<and> length (bt_keys pkg) = tr_min_signers snap \<and> distinct (bt_keys pkg) \<and> bt_keys sm = bt_keys pkg
    \<and> tc_aggregate k (pkg, message) sm (tr_pubkey snap) = Some (as_signature a)
    \<and> tc_verify k (tr_pubkey snap) message (as_signature a)"
proof -
  obtain local_id kp cm ns sm parts rs own rs' where c: "tr_key_packages snap = [(local_id, kp)]"
      "gather_commitments k rs ([(local_id, commitments)], []) = Inr (cm, ns)"
      "tr_min_signers snap \<le> length cm" "tr_min_signers snap \<le> length sm"
      "gather_shares k (trim_commitments local_id (tr_min_signers snap) cm, message) ns rs'
         ([(local_id, own)], [local_node]) = Inr (sm, parts)"
      "tc_aggregate k (trim_commitments local_id (tr_min_signers snap) cm, message) sm (tr_pubkey snap) = Some (as_signature a)"
      "tc_verify k (tr_pubkey snap) message (as_signature a)"
    using sign_raw_wire_attributed_ok [OF assms(1)] assms(2) by force
  let ?pkg = "trim_commitments local_id (tr_min_signers snap) cm"
  have one: "bt_ok [(i, x)]" for i :: string and x :: string by (simp add: bt_ok_Cons)
  have cm: "bt_ok cm" "local_id \<in> set (bt_keys cm)" using gather_commitments_ok [OF c(2)] one by auto
  have len: "length ?pkg = tr_min_signers snap" using cm assms(3) c(3) by (intro trim_commitments_length) auto
  have ok: "bt_ok ?pkg" using cm(1) by (rule trim_commitments_ok)
  have loc: "local_id \<in> set (bt_keys ?pkg)"
    using cm(2) by (auto simp: trim_commitments_def Let_def bt_keys_def)
  have sm: "bt_ok sm" "set (bt_keys sm) \<subseteq> set (bt_keys ?pkg)"
    using gather_shares_ok [OF c(5)] one loc by auto
  have "card (set (bt_keys sm)) = length sm" "card (set (bt_keys ?pkg)) = tr_min_signers snap"
    using distinct_card [OF bt_ok_distinct [OF sm(1)]] distinct_card [OF bt_ok_distinct [OF ok]] len
    by (simp_all add: bt_keys_def del: set_map)
  then have "set (bt_keys sm) = set (bt_keys ?pkg)" using sm(2) c(4) by (intro card_seteq) auto
  then have "bt_keys sm = bt_keys ?pkg"
    using sm(1) ok strict_sorted_equal unfolding bt_ok_def by blast
  then show ?thesis using c(1,6,7) loc len bt_ok_distinct [OF ok] by (force simp: bt_keys_def)
qed

definition cosign_demo_commits :: "tr_commit_request \<Rightarrow> tr_commit_response list res" where
  "cosign_demo_commits q = Inr [\<lparr>cr_node = ''b'', cr_identifier_hex = ''32'', cr_commitments_hex = ''64''\<rparr>,
     \<lparr>cr_node = ''c'', cr_identifier_hex = ''33'', cr_commitments_hex = ''65''\<rparr>]"

definition cosign_demo_shares :: "tr_share_request \<Rightarrow> tr_share_response list res" where
  "cosign_demo_shares q = Inr [\<lparr>sr_node = ''b'', sr_identifier_hex = ''32'', sr_share_hex = ''66''\<rparr>]"

theorem wire_sign_quorum_witness:
  "\<exists>a pkg sm. sign_raw_wire_attributed cosign_demo_crypto ''n1'' ''c'' cosign_demo_commits cosign_demo_shares
       (cp_shares (cosign_demo_peer ''a'' ''1'')) ''a'' ''s'' ''M'' = Inr a
     \<and> as_participants a = [''a'', ''b''] \<and> length (bt_keys pkg) = 2 \<and> bt_keys sm = bt_keys pkg
     \<and> tc_aggregate cosign_demo_crypto (pkg, ''M'') sm ''pk'' = Some (as_signature a)"
proof -
  let ?s = "\<lparr>tr_key_packages = [(''1'', ''key'')], tr_pubkey = ''pk'', tr_min_signers = 2\<rparr>"
  have s: "cp_shares (cosign_demo_peer ''a'' ''1'') = Some ?s" "0 < tr_min_signers ?s"
    by (simp_all add: cosign_demo_peer_def)
  have r: "sign_raw_wire_attributed cosign_demo_crypto ''n1'' ''c'' cosign_demo_commits cosign_demo_shares
       (cp_shares (cosign_demo_peer ''a'' ''1'')) ''a'' ''s'' ''M''
     = Inr \<lparr>as_signature = ''n1keyf'', as_participants = [''a'', ''b'']\<rparr>"
    by code_simp
  from wire_sign_quorum [OF r s] r show ?thesis by (simp; force)
qed

text \<open>One peer is enough to stop a signature.  If one configured peer answers no commit, the
  coordinator's round fails, whatever the number of peers that answered and whatever the threshold.\<close>

theorem one_peer_down_blocks_signing:
  assumes "(i, base) \<in> set ps" "\<And>n. \<exists>e. net (base @ ''/v1/frost/tr/commit'') n = PostFail e"
    "\<And>q. commits q = collect_commitments net retries ps"
  shows "\<exists>e. sign_raw_wire_attributed k nonces commitments commits shares slot local_node session message = Inl e"
proof -
  have retry: "\<exists>e. post_retry (net (base @ ''/v1/frost/tr/commit'')) url left j = Inl e" for url left j
  proof (induction left arbitrary: j)
    case (Suc left)
    then show ?case using assms(2) [of j] by auto
  qed simp
  have "\<exists>e. collect_commitments net retries ps = Inl e"
    using assms(1)
  proof (induction ps)
    case (Cons p ps)
    obtain j b where p: "p = (j, b)" by (cases p)
    show ?case
    proof (cases "(i, base) = p")
      case True
      then have eq: "j = i" "b = base" using p by auto
      obtain e where "post_retry (net (base @ ''/v1/frost/tr/commit'')) (base @ ''/v1/frost/tr/commit'') (max retries 1) 0 = Inl e"
        using retry by blast
      then show ?thesis by (simp add: p eq post_peer_def rbind_def peer_error_def)
    next
      case False
      then show ?thesis using Cons by (auto simp: p rbind_def split: sum.splits)
    qed
  qed simp
  then show ?thesis using assms(3)
    by (auto simp: sign_raw_wire_attributed_def rbind_def split: sum.splits list.splits prod.splits)
qed

theorem one_peer_down_blocks_signing_witness:
  "\<exists>e. sign_raw_wire_attributed cosign_demo_crypto ''n1'' ''c''
     (\<lambda>q. collect_commitments (\<lambda>url n. if url = ''http://c/v1/frost/tr/commit'' then PostFail ''refused''
         else PostReply 200 ''200 OK'' (Some \<lparr>cr_node = ''b'', cr_identifier_hex = ''32'', cr_commitments_hex = ''64''\<rparr>) [])
       3 [(''b'', ''http://b''), (''c'', ''http://c'')])
     cosign_demo_shares (cp_shares (cosign_demo_peer ''a'' ''1'')) ''a'' ''s'' ''M'' = Inl e"
  by (rule one_peer_down_blocks_signing [where i = "''c''" and base = "''http://c''", OF _ _ HOL.refl]) auto

text \<open>A peer does not look at what it signs.  A peer with one share hands its commitment for any
  message a coordinator names, and then its signature share for any package over that message that
  names its identifier: no intent, no transaction and no policy is consulted.\<close>

theorem peer_cosigns_any_message:
  assumes "cp_shares p = Some s" "tr_key_packages s = [(i, kp)]" "cp_anti_nonce p = None"
    and "hex_decode (trim (cq_message_hex q)) = Some m" "sq_session r = cq_session q"
    and "sq_participants r = [] \<or> cp_node p \<in> set (sq_participants r)"
    and "hex_decode (trim (sq_package_hex r)) = Some bytes" "tc_unpack k bytes = Some pkg" "snd pkg = m"
    and "bt_get i (fst pkg) \<noteq> None" "tc_sign k pkg n kp = Some share"
  shows "\<exists>reply p1 p2. handle_commit k n c q p = (Inr reply, p1)
    \<and> handle_sign_share k now r p1 = (Inr (Some \<lparr>sr_node = cp_node p, sr_identifier_hex = hex_encode i,
         sr_share_hex = hex_encode share\<rparr>), p2)"
  using assms
  by (auto simp: handle_commit_def handle_sign_share_def share_of_def observe_session_def tr_snapshot_def
      local_key_package_def of_crate_def rbind_def Let_def bt_get_put)

theorem peer_cosigns_any_message_witness:
  "\<exists>p2. handle_sign_share cosign_demo_crypto 5
       \<lparr>sq_session = ''s'', sq_package_hex = ''4d'', sq_participants = []\<rparr>
       (snd (handle_commit cosign_demo_crypto ''n'' ''c'' \<lparr>cq_session = ''s'', cq_message_hex = ''4d'', cq_coordinator = ''evil''\<rparr>
          (cosign_demo_peer ''b'' ''1'')))
     = (Inr (Some \<lparr>sr_node = ''b'', sr_identifier_hex = ''31'', sr_share_hex = hex_encode ''nkey''\<rparr>), p2)"
proof -
  let ?s = "\<lparr>tr_key_packages = [(''1'', ''key'')], tr_pubkey = ''pk'', tr_min_signers = 2\<rparr>"
  let ?q = "\<lparr>cq_session = ''s'', cq_message_hex = ''4d'', cq_coordinator = ''evil''\<rparr>"
  let ?r = "\<lparr>sq_session = ''s'', sq_package_hex = ''4d'', sq_participants = []\<rparr>"
  have "cp_shares (cosign_demo_peer ''b'' ''1'') = Some ?s" "tr_key_packages ?s = [(''1'', ''key'')]"
    "cp_anti_nonce (cosign_demo_peer ''b'' ''1'') = None" "cp_node (cosign_demo_peer ''b'' ''1'') = ''b''"
    by (simp_all add: cosign_demo_peer_def)
  note p = this
  have m: "hex_decode (trim (cq_message_hex ?q)) = Some ''M''" "hex_decode (trim (sq_package_hex ?r)) = Some ''M''"
    by code_simp+
  have k: "tc_unpack cosign_demo_crypto ''M'' = Some ([(''1'', ''c''), (''2'', ''d'')], ''M'')"
    "tc_sign cosign_demo_crypto ([(''1'', ''c''), (''2'', ''d'')], ''M'') ''n'' ''key'' = Some ''nkey''"
    by (simp_all add: cosign_demo_crypto_def)
  have h: "hex_encode ''1'' = ''31''" by code_simp
  obtain reply p1 p2 where e: "handle_commit cosign_demo_crypto ''n'' ''c'' ?q (cosign_demo_peer ''b'' ''1'') = (Inr reply, p1)"
    "handle_sign_share cosign_demo_crypto 5 ?r p1 = (Inr (Some \<lparr>sr_node = cp_node (cosign_demo_peer ''b'' ''1''),
         sr_identifier_hex = hex_encode ''1'', sr_share_hex = hex_encode ''nkey''\<rparr>), p2)"
    using peer_cosigns_any_message [of "cosign_demo_peer ''b'' ''1''", OF p(1,2,3) m(1) _ _ m(2) k(1) _ _ k(2), of "''c''" 5]
    by auto
  then show ?thesis using p(4) h by simp
qed

end
