(* ===== verification/SignPsbt.thy ===== *)
theory SignPsbt
  imports IntentGate Psbt Rotation Cosign Auth
begin

text \<open>
  Spending with the group key (\<open>adapters/frost_tr_bitcoin.rs\<close>): the orchestrator that claims a
  session, checks the day, binds a transaction to its intent and has each input of the mesh signed by
  the quorum.  The \<open>bitcoin\<close> crate is the record \<open>btc_crate\<close>, SHA-256 the function \<open>bc_sha256\<close>; what
  one call meets outside the process is the record \<open>tr_call\<close>.
\<close>

section \<open>The orchestrator\<close>

text \<open>\<open>bc_output\<close> is the tap-tweaked output key of an x-only key, \<open>bc_p2tr\<close> its script, \<open>bc_sighash\<close>
  the default key-path hash of an input over all the previous outputs.\<close>

record btc_crate =
  bc_verifying_key :: "string \<Rightarrow> string"
  bc_xonly :: "string \<Rightarrow> string option"
  bc_output :: "string \<Rightarrow> string"
  bc_p2tr :: "string \<Rightarrow> script"
  bc_is_p2tr :: "script \<Rightarrow> bool"
  bc_address :: "bitcoin_network \<Rightarrow> string \<Rightarrow> string"
  bc_parse :: "string \<Rightarrow> psbt option"
  bc_text :: "psbt \<Rightarrow> string"
  bc_sighash :: "psbt \<Rightarrow> txout list \<Rightarrow> nat \<Rightarrow> string option"
  bc_schnorr :: "string \<Rightarrow> string option"
  bc_sha256 :: "string \<Rightarrow> string"
  bc_addr :: address_reader
  bc_why :: string

record tr_wire =
  wi_draw :: "string \<Rightarrow> string \<times> string"
  wi_commits :: "tr_commit_request \<Rightarrow> tr_commit_response list res"
  wi_shares :: "tr_share_request \<Rightarrow> tr_share_response list res"

record tr_call =
  ca_now :: u64
  ca_quorum :: nat
  ca_nonce_io :: io_result
  ca_nonce_acks :: "bool list res"
  ca_wire :: "nat \<Rightarrow> tr_wire"

record tr_signer =
  sg_slot :: "tr_share_state option"
  sg_network :: bitcoin_network
  sg_multisign :: bool
  sg_node :: string
  sg_cosign :: bool
  sg_policy :: psbt_policy

definition tr_scheme :: string where
  "tr_scheme = ''frost-secp256k1-tr-v3''"

definition of_btc :: "btc_crate \<Rightarrow> string \<Rightarrow> 'a option \<Rightarrow> 'a res" where
  "of_btc b what x = (case x of Some v \<Rightarrow> Inr v | None \<Rightarrow> Inl (ThresholdError (what @ bc_why b)))"

definition xonly_from_verifying_key :: "btc_crate \<Rightarrow> string \<Rightarrow> string res" where
  "xonly_from_verifying_key b bytes =
     (if length bytes = 32 then of_btc b ''xonly: '' (bc_xonly b bytes)
      else if length bytes = 33 then of_btc b ''xonly: '' (bc_xonly b (tl bytes))
      else Inl (ThresholdError (''unexpected verifying key length '' @ dec (length bytes))))"

fun collect_prevouts :: "nat \<Rightarrow> psbt_input list \<Rightarrow> txout list res" where
  "collect_prevouts i [] = Inr []"
| "collect_prevouts i (inp # inps) =
     (case witness_utxo inp of
        Some u \<Rightarrow> rbind (collect_prevouts (i + 1) inps) (\<lambda>us. Inr (u # us))
      | None \<Rightarrow>
          (case prev_outputs inp of
             Some outs \<Rightarrow>
               if prev_vout inp < length outs
               then rbind (collect_prevouts (i + 1) inps) (\<lambda>us. Inr (outs ! prev_vout inp # us))
               else Inl (ThresholdError (''missing prevout '' @ dec i))
           | None \<Rightarrow> Inl (ThresholdError (''psbt input '' @ dec i @ '' missing witness_utxo''))))"


section \<open>The quorum signature\<close>

definition sha2_first_16 :: "btc_crate \<Rightarrow> string \<Rightarrow> string" where
  "sha2_first_16 b m = take 16 (bc_sha256 b m)"

fun local_shares :: "tr_crypto \<Rightarrow> tr_wire \<Rightarrow> signing_package \<Rightarrow> string btmap \<Rightarrow> string btmap res" where
  "local_shares k w pkg [] = Inr []"
| "local_shares k w pkg ((i, kp) # kps) =
     rbind (of_crate k ''frost-tr round2: '' (tc_sign k pkg (fst (wi_draw w i)) kp)) (\<lambda>s.
     rbind (local_shares k w pkg kps) (\<lambda>ss. Inr ((i, s) # ss)))"

text \<open>Several shares in one process, for the laboratory.\<close>

definition local_quorum :: "tr_crypto \<Rightarrow> tr_wire \<Rightarrow> tr_share_state \<Rightarrow> string \<Rightarrow> string res" where
  "local_quorum k w snap m =
     (let kps = tr_key_packages snap; need = tr_min_signers snap in
      if length kps < need then Inl (FailStop (length kps) need)
      else
        let chosen = take need kps;
            pkg = (map (\<lambda>(i, kp). (i, snd (wi_draw w i))) chosen, m) in
        rbind (local_shares k w pkg chosen) (\<lambda>sm.
        rbind (of_crate k ''frost-tr aggregate: '' (tc_aggregate k pkg sm (tr_pubkey snap))) (\<lambda>sig.
          if \<not> tc_verify k (tr_pubkey snap) m sig then Inl (ThresholdError (''frost-tr verify: '' @ tc_why k))
          else Inr sig)))"

definition sign_raw_quorum :: "tr_crypto \<Rightarrow> btc_crate \<Rightarrow> tr_wire \<Rightarrow> tr_signer \<Rightarrow> string \<Rightarrow> string res" where
  "sign_raw_quorum k b w g m =
     rbind (tr_snapshot (sg_slot g)) (\<lambda>snap.
       if \<not> sg_multisign g then
         if length (tr_key_packages snap) > 1
         then Inl (ThresholdError
           ''multi-share local FROST sign refused outside dealer_lab; use wire co-sign (single local share)'')
         else if \<not> sg_cosign g
         then Inl (ThresholdError
           ''TR wire co-sign transport not configured (distributed_wire requires peer co-sign)'')
         else
           let own = (case tr_key_packages snap of (i, _) # _ \<Rightarrow> wi_draw w i | [] \<Rightarrow> ([], [])) in
           sign_raw_wire k (fst own) (snd own) (wi_commits w) (wi_shares w) (sg_slot g) (sg_node g)
             (''tr-wire-'' @ hex_encode (sha2_first_16 b m)) m
       else local_quorum k w snap m)"


section \<open>Deposits and proofs\<close>

record deposit_info =
  di_network :: string
  di_xonly :: string
  di_output :: string
  di_address :: string
  di_descriptor :: string
  di_scheme :: string

definition deposit_info_of :: "btc_crate \<Rightarrow> tr_signer \<Rightarrow> deposit_info res" where
  "deposit_info_of b g =
     rbind (tr_snapshot (sg_slot g)) (\<lambda>snap.
     rbind (xonly_from_verifying_key b (bc_verifying_key b (tr_pubkey snap))) (\<lambda>internal.
       let out = bc_output b internal; h = hex_encode out in
       Inr \<lparr>di_network = network_str (sg_network g), di_xonly = hex_encode internal, di_output = h,
            di_address = bc_address b (sg_network g) out, di_descriptor = ''tr('' @ h @ '')'',
            di_scheme = tr_scheme\<rparr>))"

definition deposit_json :: "deposit_info \<Rightarrow> string" where
  "deposit_json d =
     ''{'' @ key ''network'' @ quoted (di_network d) @ '','' @ key ''xonly_pubkey'' @ quoted (di_xonly d)
     @ '','' @ key ''output_pubkey'' @ quoted (di_output d) @ '','' @ key ''address'' @ quoted (di_address d)
     @ '','' @ key ''descriptor'' @ quoted (di_descriptor d) @ '','' @ key ''scheme'' @ quoted (di_scheme d) @ ''}''"

record financial_proof =
  fp_signature :: string
  fp_verifying_key :: string
  fp_participants :: "string list"
  fp_threshold :: nat

definition sign_financial_quorum_proof ::
  "tr_crypto \<Rightarrow> btc_crate \<Rightarrow> tr_wire \<Rightarrow> tr_signer \<Rightarrow> string \<Rightarrow> financial_proof res" where
  "sign_financial_quorum_proof k b w g h =
     (if sg_multisign g
      then Inl (ThresholdError ''financial quorum proof requires distributed_wire; dealer_lab is forbidden'')
      else rbind (tr_snapshot (sg_slot g)) (\<lambda>snap.
        if \<not> sg_cosign g
        then Inl (ThresholdError ''financial quorum proof requires TR wire co-sign transport'')
        else
          let own = (case tr_key_packages snap of (i, _) # _ \<Rightarrow> wi_draw w i | [] \<Rightarrow> ([], [])) in
          rbind (sign_raw_wire_attributed k (fst own) (snd own) (wi_commits w) (wi_shares w) (sg_slot g)
                   (sg_node g) (''financial-quorum-'' @ hex_encode h) h) (\<lambda>a.
            Inr \<lparr>fp_signature = hex_encode (as_signature a),
                 fp_verifying_key = hex_encode (bc_verifying_key b (tr_pubkey snap)),
                 fp_participants = as_participants a, fp_threshold = tr_min_signers snap\<rparr>)))"


section \<open>Signing\<close>

record sighash_signature =
  bs_session :: string
  bs_day :: string
  bs_signature :: string
  bs_count :: nat
  bs_scheme :: string

record input_signature =
  is_index :: nat
  is_sighash :: string
  is_signature :: string

record signed_psbt =
  sp_session :: string
  sp_day :: string
  sp_psbt :: string
  sp_signatures :: "input_signature list"
  sp_participants :: nat
  sp_scheme :: string

definition claim_and_day :: "tr_call \<Rightarrow> rotation \<Rightarrow> string \<Rightarrow> anti_nonce \<Rightarrow> string res \<times> anti_nonce" where
  "claim_and_day c r session a =
     (case quorum_claim_session (ca_quorum c) (ca_nonce_io c) (ca_nonce_acks c) session a of
        (Inl e, a1) \<Rightarrow> (Inl e, a1)
      | (Inr _, a1) \<Rightarrow>
          (rbind (current_day_epoch (ca_now c) r) (\<lambda>d. rbind (require_epoch (ca_now c) d r) (\<lambda>_. Inr d)), a1))"

definition sign_sighash ::
  "tr_crypto \<Rightarrow> btc_crate \<Rightarrow> tr_call \<Rightarrow> tr_signer \<Rightarrow> rotation \<Rightarrow> string \<Rightarrow> string \<Rightarrow> anti_nonce
     \<Rightarrow> sighash_signature res \<times> anti_nonce" where
  "sign_sighash k b c g r session h a =
     (if length h \<noteq> 32 then (Inl (ThresholdError ''bitcoin sighash must be exactly 32 bytes''), a)
      else case claim_and_day c r session a of (d, a1) \<Rightarrow>
        (rbind d (\<lambda>day.
         rbind (sign_raw_quorum k b (ca_wire c 0) g h) (\<lambda>sig.
         rbind (tr_snapshot (sg_slot g)) (\<lambda>snap.
           Inr \<lparr>bs_session = session, bs_day = day, bs_signature = hex_encode sig,
                bs_count = tr_min_signers snap, bs_scheme = tr_scheme\<rparr>))), a1))"

text \<open>The inputs the mesh key holds and nobody has signed yet; \<open>j\<close> counts the signatures made.\<close>

definition to_sign :: "btc_crate \<Rightarrow> script \<Rightarrow> psbt_input \<Rightarrow> bool" where
  "to_sign b spk inp =
     (case witness_utxo inp of
        None \<Rightarrow> False
      | Some u \<Rightarrow> bc_is_p2tr b (to_script u) \<and> to_script u = spk \<and> tap_key_sig inp = None)"

fun sign_inputs ::
  "tr_crypto \<Rightarrow> btc_crate \<Rightarrow> tr_call \<Rightarrow> tr_signer \<Rightarrow> psbt \<Rightarrow> txout list \<Rightarrow> script \<Rightarrow> nat \<Rightarrow> nat \<Rightarrow> psbt_input list
     \<Rightarrow> (psbt_input list \<times> input_signature list) res" where
  "sign_inputs k b c g t prev spk i j [] = Inr ([], [])"
| "sign_inputs k b c g t prev spk i j (inp # inps) =
     (if \<not> to_sign b spk inp
      then rbind (sign_inputs k b c g t prev spk (i + 1) j inps) (\<lambda>(is, ss). Inr (inp # is, ss))
      else
        rbind (of_btc b ''taproot sighash: '' (bc_sighash b t prev i)) (\<lambda>h.
        rbind (sign_raw_quorum k b (ca_wire c j) g h) (\<lambda>sig.
        rbind (of_btc b ''schnorr decode: '' (bc_schnorr b sig)) (\<lambda>sch.
        rbind (sign_inputs k b c g t prev spk (i + 1) (j + 1) inps) (\<lambda>(is, ss).
          Inr (inp\<lparr>tap_key_sig := Some sch\<rparr> # is,
               \<lparr>is_index = i, is_sighash = hex_encode h, is_signature = hex_encode sig\<rparr> # ss))))))"

definition mesh_script :: "btc_crate \<Rightarrow> tr_share_state \<Rightarrow> script res" where
  "mesh_script b snap =
     rbind (xonly_from_verifying_key b (bc_verifying_key b (tr_pubkey snap))) (\<lambda>x. Inr (bc_p2tr b (bc_output b x)))"

definition sign_psbt_on ::
  "tr_crypto \<Rightarrow> btc_crate \<Rightarrow> tr_call \<Rightarrow> tr_signer \<Rightarrow> string \<Rightarrow> string \<Rightarrow> string \<Rightarrow> string \<Rightarrow> u64 \<Rightarrow> signed_psbt res" where
  "sign_psbt_on k b c g day session text dest amt =
     rbind (of_btc b ''invalid psbt: '' (bc_parse b (trim text))) (\<lambda>t.
       if ps_inputs t = [] then Inl (ThresholdError ''psbt has no inputs'')
       else
         rbind (psbt_policy_validate (sg_policy g) t) (\<lambda>_.
         rbind (tr_snapshot (sg_slot g)) (\<lambda>snap.
         rbind (mesh_script b snap) (\<lambda>spk.
         rbind (destination_script_pubkey (bc_addr b) (sg_network g) dest) (\<lambda>pay.
         rbind (assert_outputs_match_intent (output_pairs t) pay amt (Some spk)) (\<lambda>_.
         rbind (collect_prevouts 0 (ps_inputs t)) (\<lambda>prev.
         rbind (sign_inputs k b c g t prev spk 0 0 (ps_inputs t)) (\<lambda>(is, ss).
           if ss = [] then Inl (ThresholdError ''no Taproot key-path inputs matched mesh deposit key'')
           else Inr \<lparr>sp_session = session, sp_day = day, sp_psbt = bc_text b (t\<lparr>ps_inputs := is\<rparr>),
                     sp_signatures = ss, sp_participants = tr_min_signers snap, sp_scheme = tr_scheme\<rparr>))))))))"

definition sign_psbt ::
  "tr_crypto \<Rightarrow> btc_crate \<Rightarrow> tr_call \<Rightarrow> tr_signer \<Rightarrow> rotation \<Rightarrow> string \<Rightarrow> string \<Rightarrow> string \<Rightarrow> u64 \<Rightarrow> anti_nonce
     \<Rightarrow> signed_psbt res \<times> anti_nonce" where
  "sign_psbt k b c g r session text dest amt a =
     (case claim_and_day c r session a of (d, a1) \<Rightarrow>
        (rbind d (\<lambda>day. sign_psbt_on k b c g day session text dest amt), a1))"

definition sighash_json :: "sighash_signature \<Rightarrow> string" where
  "sighash_json s =
     ''{'' @ key ''session_id'' @ quoted (bs_session s) @ '','' @ key ''day_epoch'' @ quoted (bs_day s)
     @ '','' @ key ''signature'' @ quoted (bs_signature s) @ '','' @ key ''participants'' @ dec (bs_count s)
     @ '','' @ key ''scheme'' @ quoted (bs_scheme s) @ ''}''"

definition input_signature_json :: "input_signature \<Rightarrow> string" where
  "input_signature_json s =
     ''{'' @ key ''input_index'' @ dec (is_index s) @ '','' @ key ''sighash'' @ quoted (is_sighash s)
     @ '','' @ key ''signature'' @ quoted (is_signature s) @ ''}''"

definition signed_psbt_json :: "signed_psbt \<Rightarrow> string" where
  "signed_psbt_json s =
     ''{'' @ key ''session_id'' @ quoted (sp_session s) @ '','' @ key ''day_epoch'' @ quoted (sp_day s)
     @ '','' @ key ''signed_psbt'' @ quoted (sp_psbt s)
     @ '','' @ key ''signatures'' @ ''['' @ join_with '','' (map input_signature_json (sp_signatures s)) @ '']''
     @ '','' @ key ''participants'' @ dec (sp_participants s) @ '','' @ key ''scheme'' @ quoted (sp_scheme s) @ ''}''"

section \<open>What a signed transaction stands on\<close>

lemma sign_raw_quorum_verified:
  assumes "sign_raw_quorum k b w g m = Inr sig"
  shows "\<exists>snap pkg sm. sg_slot g = Some snap \<and> tr_min_signers snap \<le> length sm
    \<and> tc_aggregate k (pkg, m) sm (tr_pubkey snap) = Some sig \<and> tc_verify k (tr_pubkey snap) m sig"
proof -
  obtain snap where snap: "sg_slot g = Some snap"
    using assms by (cases "sg_slot g") (simp_all add: sign_raw_quorum_def tr_snapshot_def)
  show ?thesis
  proof (cases "sg_multisign g")
    case True
    let ?chosen = "take (tr_min_signers snap) (tr_key_packages snap)"
    have len: "local_shares k w pkg kps = Inr sm \<Longrightarrow> length sm = length kps" for pkg kps sm
      by (induction k w pkg kps arbitrary: sm rule: local_shares.induct) (auto simp: rbind_Inr_iff)
    have "local_quorum k w snap m = Inr sig" using assms snap True by (simp add: sign_raw_quorum_def tr_snapshot_def)
    then obtain pkg sm where l: "\<not> length (tr_key_packages snap) < tr_min_signers snap"
        "local_shares k w (pkg, m) ?chosen = Inr sm"
        "of_crate k ''frost-tr aggregate: '' (tc_aggregate k (pkg, m) sm (tr_pubkey snap)) = Inr sig"
        "tc_verify k (tr_pubkey snap) m sig"
      by (auto simp: local_quorum_def Let_def rbind_Inr_iff split: if_splits)
    have "length sm = tr_min_signers snap" using len [OF l(2)] l(1) by simp
    moreover have "tc_aggregate k (pkg, m) sm (tr_pubkey snap) = Some sig"
      using l(3) by (simp add: of_crate_def split: option.splits)
    ultimately show ?thesis using snap l(4) order_refl [of "tr_min_signers snap"] by metis
  next
    case False
    obtain n c session where w: "sign_raw_wire k n c (wi_commits w) (wi_shares w) (sg_slot g) (sg_node g) session m = Inr sig"
      using assms snap False by (auto simp: sign_raw_quorum_def tr_snapshot_def Let_def split: if_splits)
    then obtain a where a: "sign_raw_wire_attributed k n c (wi_commits w) (wi_shares w) (sg_slot g) (sg_node g) session m = Inr a"
        "as_signature a = sig"
      by (auto simp: sign_raw_wire_def rbind_Inr_iff)
    from sign_raw_wire_attributed_ok [OF a(1)] a(2) snap show ?thesis by auto
  qed
qed

lemma claim_and_day_ok:
  assumes "claim_and_day c r session a = (Inr day, a1)"
  shows "session \<notin> an_used a" "session \<in> an_used a1" "day = ro_current r"
    "\<not> day_epoch_from_unix_secs (ca_now c) > day"
  using assms
  by (auto simp: claim_and_day_def quorum_claim_session_def an_prepare_def current_day_epoch_def require_epoch_def
      rbind_def Let_def append_id_def split: prod.splits sum.splits if_splits verdict.splits)

lemma sign_inputs_ok:
  "sign_inputs k b c g t prev spk i j inps = Inr (is, ss) \<Longrightarrow>
     length is = length inps
     \<and> (\<forall>s\<in>set ss. \<exists>n<length inps. is_index s = i + n \<and> to_sign b spk (inps ! n)
          \<and> (\<exists>h sig w. bc_sighash b t prev (is_index s) = Some h \<and> is_sighash s = hex_encode h
               \<and> is_signature s = hex_encode sig \<and> sign_raw_quorum k b w g h = Inr sig))
     \<and> (\<forall>n<length inps. \<not> to_sign b spk (inps ! n) \<longrightarrow> is ! n = inps ! n)"
proof (induction k b c g t prev spk i j inps arbitrary: "is" ss rule: sign_inputs.induct)
  case (2 k b c g t prev spk i j inp inps)
  show ?case
  proof (cases "to_sign b spk inp")
    case False
    then obtain is1 where r: "sign_inputs k b c g t prev spk (i + 1) j inps = Inr (is1, ss)" "is = inp # is1"
      using 2(3) by (auto simp: rbind_Inr_iff)
    note ih = 2(1) [OF False r(1)]
    have "\<exists>n<length (inp # inps). is_index s = i + n \<and> to_sign b spk ((inp # inps) ! n)
        \<and> (\<exists>h sig w. bc_sighash b t prev (is_index s) = Some h \<and> is_sighash s = hex_encode h
             \<and> is_signature s = hex_encode sig \<and> sign_raw_quorum k b w g h = Inr sig)" if s: "s \<in> set ss" for s
    proof -
      obtain n where "n < length inps" "is_index s = i + 1 + n" "to_sign b spk (inps ! n)"
        "\<exists>h sig w. bc_sighash b t prev (is_index s) = Some h \<and> is_sighash s = hex_encode h
             \<and> is_signature s = hex_encode sig \<and> sign_raw_quorum k b w g h = Inr sig"
        using ih s by blast
      then show ?thesis by (intro exI [of _ "Suc n"]) simp
    qed
    then show ?thesis using ih r(2) by (simp add: nth_Cons split: nat.split)
  next
    case True
    then obtain h sig sch is1 ss1 where r: "of_btc b ''taproot sighash: '' (bc_sighash b t prev i) = Inr h"
        "sign_raw_quorum k b (ca_wire c j) g h = Inr sig"
        "of_btc b ''schnorr decode: '' (bc_schnorr b sig) = Inr sch"
        "sign_inputs k b c g t prev spk (i + 1) (j + 1) inps = Inr (is1, ss1)"
        "is = inp\<lparr>tap_key_sig := Some sch\<rparr> # is1"
        "ss = \<lparr>is_index = i, is_sighash = hex_encode h, is_signature = hex_encode sig\<rparr> # ss1"
      using 2(3) by (auto simp: rbind_Inr_iff)
    have nt: "\<not> \<not> to_sign b spk inp" using True by simp
    note ih = 2(2) [OF nt r(4)]
    have h: "bc_sighash b t prev i = Some h" using r(1) by (simp add: of_btc_def split: option.splits)
    have "\<exists>n<length (inp # inps). is_index s = i + n \<and> to_sign b spk ((inp # inps) ! n)
        \<and> (\<exists>h sig w. bc_sighash b t prev (is_index s) = Some h \<and> is_sighash s = hex_encode h
             \<and> is_signature s = hex_encode sig \<and> sign_raw_quorum k b w g h = Inr sig)" if s: "s \<in> set ss" for s
    proof (cases "s \<in> set ss1")
      case True
      then obtain n where "n < length inps" "is_index s = i + 1 + n" "to_sign b spk (inps ! n)"
        "\<exists>h sig w. bc_sighash b t prev (is_index s) = Some h \<and> is_sighash s = hex_encode h
             \<and> is_signature s = hex_encode sig \<and> sign_raw_quorum k b w g h = Inr sig"
        using ih by blast
      then show ?thesis by (intro exI [of _ "Suc n"]) simp
    next
      case False
      then have "s = \<lparr>is_index = i, is_sighash = hex_encode h, is_signature = hex_encode sig\<rparr>" using s r(6) by simp
      then show ?thesis using True h r(2) by (intro exI [of _ 0]) auto
    qed
    then show ?thesis using ih r(5) True by (simp add: nth_Cons split: nat.split)
  qed
qed simp

lemma sign_psbt_on_ok:
  assumes "sign_psbt_on k b c g day session text dest amt = Inr s"
  shows "\<exists>t snap spk pay prev is. bc_parse b (trim text) = Some t \<and> sg_slot g = Some snap \<and> mesh_script b snap = Inr spk
    \<and> destination_script_pubkey (bc_addr b) (sg_network g) dest = Inr pay
    \<and> validate_independent (sg_policy g) t pay amt (Some spk) = Inr ()
    \<and> sign_inputs k b c g t prev spk 0 0 (ps_inputs t) = Inr (is, sp_signatures s) \<and> sp_signatures s \<noteq> []
    \<and> sp_psbt s = bc_text b (t\<lparr>ps_inputs := is\<rparr>) \<and> sp_day s = day \<and> sp_session s = session"
proof -
  obtain t snap spk pay prev "is" ss where c: "of_btc b ''invalid psbt: '' (bc_parse b (trim text)) = Inr t"
      "psbt_policy_validate (sg_policy g) t = Inr ()" "tr_snapshot (sg_slot g) = Inr snap" "mesh_script b snap = Inr spk"
      "destination_script_pubkey (bc_addr b) (sg_network g) dest = Inr pay"
      "assert_outputs_match_intent (output_pairs t) pay amt (Some spk) = Inr ()"
      "sign_inputs k b c g t prev spk 0 0 (ps_inputs t) = Inr (is, ss)" "ss \<noteq> []"
      "s = \<lparr>sp_session = session, sp_day = day, sp_psbt = bc_text b (t\<lparr>ps_inputs := is\<rparr>),
            sp_signatures = ss, sp_participants = tr_min_signers snap, sp_scheme = tr_scheme\<rparr>"
    using assms by (auto simp: sign_psbt_on_def rbind_Inr_iff split: if_splits)
  have "bc_parse b (trim text) = Some t" using c(1) by (simp add: of_btc_def split: option.splits)
  moreover have "sg_slot g = Some snap" using c(3) by (simp add: tr_snapshot_def split: option.splits)
  ultimately show ?thesis using c by (force simp: validate_independent_def)
qed

lemma sign_psbt_spec:
  assumes "sign_psbt k b c g r session text dest amt a = (Inr s, a1)"
  shows "session \<notin> an_used a \<and> session \<in> an_used a1 \<and> sp_day s = ro_current r
    \<and> \<not> day_epoch_from_unix_secs (ca_now c) > ro_current r
    \<and> (\<exists>t snap spk pay prev. bc_parse b (trim text) = Some t \<and> sg_slot g = Some snap \<and> mesh_script b snap = Inr spk
        \<and> destination_script_pubkey (bc_addr b) (sg_network g) dest = Inr pay
        \<and> (pay \<noteq> spk \<longrightarrow> length (filter (\<lambda>(x, v). x = pay) (output_pairs t)) = 1
             \<and> set (output_pairs t) \<subseteq> insert (pay, amt) {(spk, v) |v. True})
        \<and> sp_signatures s \<noteq> []
        \<and> (\<forall>x\<in>set (sp_signatures s). \<exists>h sig pkg sm. is_index x < length (ps_inputs t)
             \<and> to_sign b spk (ps_inputs t ! is_index x)
             \<and> bc_sighash b t prev (is_index x) = Some h \<and> is_signature x = hex_encode sig
             \<and> tr_min_signers snap \<le> length sm \<and> tc_aggregate k (pkg, h) sm (tr_pubkey snap) = Some sig
             \<and> tc_verify k (tr_pubkey snap) h sig))"
proof -
  obtain day where cd: "claim_and_day c r session a = (Inr day, a1)"
    and on: "sign_psbt_on k b c g day session text dest amt = Inr s"
    using assms by (auto simp: sign_psbt_def rbind_Inr_iff split: prod.splits)
  obtain t snap spk pay prev "is" where o1: "bc_parse b (trim text) = Some t" "sg_slot g = Some snap" "mesh_script b snap = Inr spk"
      "destination_script_pubkey (bc_addr b) (sg_network g) dest = Inr pay"
      "validate_independent (sg_policy g) t pay amt (Some spk) = Inr ()"
      "sign_inputs k b c g t prev spk 0 0 (ps_inputs t) = Inr (is, sp_signatures s)" "sp_signatures s \<noteq> []" "sp_day s = day"
    using sign_psbt_on_ok [OF on] by blast
  have outs: "length (filter (\<lambda>(x, v). x = pay) (output_pairs t)) = 1
      \<and> set (output_pairs t) \<subseteq> insert (pay, amt) {(spk, v) |v. True}" if "pay \<noteq> spk"
  proof -
    have "bind_outputs pay amt (Some spk) False (output_pairs t) = Inr True"
      using o1(5) by (auto simp: validate_independent_def assert_outputs_match_intent_def rbind_Inr_iff split: if_splits)
    from bind_outputs_ok [OF this that] show ?thesis by auto
  qed
  have sigs: "\<exists>h sig pkg sm. is_index x < length (ps_inputs t) \<and> to_sign b spk (ps_inputs t ! is_index x)
      \<and> bc_sighash b t prev (is_index x) = Some h \<and> is_signature x = hex_encode sig
      \<and> tr_min_signers snap \<le> length sm \<and> tc_aggregate k (pkg, h) sm (tr_pubkey snap) = Some sig
      \<and> tc_verify k (tr_pubkey snap) h sig" if x: "x \<in> set (sp_signatures s)" for x
  proof -
    obtain h sig w where h: "is_index x < length (ps_inputs t)" "to_sign b spk (ps_inputs t ! is_index x)"
        "bc_sighash b t prev (is_index x) = Some h" "is_signature x = hex_encode sig"
        "sign_raw_quorum k b w g h = Inr sig"
      using sign_inputs_ok [OF o1(6)] x by fastforce
    from sign_raw_quorum_verified [OF h(5)] o1(2) show ?thesis using h(1-4) by auto
  qed
  show ?thesis using claim_and_day_ok [OF cd] o1(1-4,7,8) outs sigs by blast
qed

text \<open>C21: A signed transaction of the mesh.  Whatever the signer returns, it burned a session never
  burned before, on the current and not stale day; the transaction is the parsed request, its outputs
  pay the destination exactly once with exactly the amount and give everything else back to the mesh;
  and each of its signatures is an aggregate of at least the threshold of shares that verifies under
  the group key over the hash of an input of the mesh not signed before.\<close>

theorem sign_psbt_guarded:
  assumes "sign_psbt k b c g r session text dest amt a = (Inr s, a1)"
  shows "session \<notin> an_used a \<and> session \<in> an_used a1 \<and> sp_day s = ro_current r
    \<and> \<not> day_epoch_from_unix_secs (ca_now c) > ro_current r
    \<and> (\<exists>t snap spk pay prev. bc_parse b (trim text) = Some t \<and> sg_slot g = Some snap \<and> mesh_script b snap = Inr spk
        \<and> destination_script_pubkey (bc_addr b) (sg_network g) dest = Inr pay
        \<and> (pay \<noteq> spk \<longrightarrow> length (filter (\<lambda>(x, v). x = pay) (output_pairs t)) = 1
             \<and> set (output_pairs t) \<subseteq> insert (pay, amt) {(spk, v) |v. True})
        \<and> sp_signatures s \<noteq> []
        \<and> (\<forall>x\<in>set (sp_signatures s). \<exists>h sig pkg sm. is_index x < length (ps_inputs t)
             \<and> to_sign b spk (ps_inputs t ! is_index x)
             \<and> bc_sighash b t prev (is_index x) = Some h \<and> is_signature x = hex_encode sig
             \<and> tr_min_signers snap \<le> length sm \<and> tc_aggregate k (pkg, h) sm (tr_pubkey snap) = Some sig
             \<and> tc_verify k (tr_pubkey snap) h sig))"
  using assms by (rule sign_psbt_spec)

definition demo_btc :: btc_crate where
  "demo_btc = \<lparr>bc_verifying_key = (\<lambda>_. replicate 32 (CHR ''k'')), bc_xonly = Some, bc_output = id,
     bc_p2tr = (\<lambda>_. ''mesh''), bc_is_p2tr = (\<lambda>_. True), bc_address = (\<lambda>_ _. ''tb1p''),
     bc_parse = (\<lambda>x. if x = ''psbt'' then Some lab_psbt else None), bc_text = (\<lambda>_. ''signed''),
     bc_sighash = (\<lambda>_ _ _. Some ''h''), bc_schnorr = Some, bc_sha256 = id,
     bc_addr = (\<lambda>_ d. if d = ''pay'' then Some (Some ''pay'') else None), bc_why = []\<rparr>"

definition demo_call :: tr_call where
  "demo_call = \<lparr>ca_now = 0, ca_quorum = 1, ca_nonce_io = IoOk, ca_nonce_acks = Inr [],
     ca_wire = (\<lambda>_. \<lparr>wi_draw = (\<lambda>i. (''n'' @ i, ''c'' @ i)), wi_commits = cosign_demo_commits,
                     wi_shares = cosign_demo_shares\<rparr>)\<rparr>"

definition demo_signer :: tr_signer where
  "demo_signer = \<lparr>sg_slot = Some \<lparr>tr_key_packages = [(''1'', ''key1''), (''2'', ''key2'')], tr_pubkey = ''pk'',
       tr_min_signers = 2\<rparr>, sg_network = Testnet3, sg_multisign = True, sg_node = ''a'', sg_cosign = True,
     sg_policy = psbt_lab_defaults\<rparr>"

definition demo_rotation :: rotation where
  "demo_rotation = \<lparr>ro_current = day_epoch_from_unix_secs 0, ro_votes = [], ro_quorum = 1, ro_voter = ''a'', ro_disk = None\<rparr>"

lemma demo_claim:
  "s \<notin> an_used a \<Longrightarrow> \<exists>a1. claim_and_day demo_call demo_rotation s a = (Inr (day_epoch_from_unix_secs 0), a1)"
  by (simp add: claim_and_day_def demo_call_def demo_rotation_def quorum_claim_session_def an_prepare_def append_id_def
      append_line_def current_day_epoch_def require_epoch_def claim_verdict_def an_verdict_def Let_def)

lemma demo_sign:
  "\<exists>s. sign_psbt_on cosign_demo_crypto demo_btc demo_call demo_signer day session ''psbt'' ''pay'' 600 = Inr s
     \<and> length (sp_signatures s) = 1"
proof -
  have "sign_psbt_on cosign_demo_crypto demo_btc demo_call demo_signer day session ''psbt'' ''pay'' 600
    = Inr \<lparr>sp_session = session, sp_day = day, sp_psbt = ''signed'',
         sp_signatures = [\<lparr>is_index = 0, is_sighash = ''68'', is_signature = hex_encode ''n1key1n2key2''\<rparr>],
         sp_participants = 2, sp_scheme = tr_scheme\<rparr>"
    by code_simp
  then show ?thesis by simp
qed

theorem sign_psbt_guarded_witness:
  "\<exists>s a1. sign_psbt cosign_demo_crypto demo_btc demo_call demo_signer demo_rotation ''s1'' ''psbt'' ''pay'' 600 (an_open [])
     = (Inr s, a1) \<and> ''s1'' \<in> an_used a1 \<and> length (sp_signatures s) = 1"
proof -
  have "''s1'' \<notin> an_used (an_open [])" by code_simp
  then obtain a1 where "claim_and_day demo_call demo_rotation ''s1'' (an_open []) = (Inr (day_epoch_from_unix_secs 0), a1)"
    using demo_claim by blast
  moreover obtain s where s: "sign_psbt_on cosign_demo_crypto demo_btc demo_call demo_signer (day_epoch_from_unix_secs 0)
      ''s1'' ''psbt'' ''pay'' 600 = Inr s" "length (sp_signatures s) = 1"
    using demo_sign by blast
  ultimately have r: "sign_psbt cosign_demo_crypto demo_btc demo_call demo_signer demo_rotation ''s1'' ''psbt'' ''pay'' 600
      (an_open []) = (Inr s, a1)"
    by (simp add: sign_psbt_def)
  from sign_psbt_guarded [OF r] r s(2) show ?thesis by blast
qed

end
