(* ===== verification/Settle.thy ===== *)
theory Settle
  imports SignPsbt
begin

text \<open>
  The settlement endpoints of \<open>adapters/http.rs\<close> behind the authentication middleware: deposits,
  intents, PSBT and sighash signing, financial quorum proofs and the peers' prepare calls.  A handler
  maps the decoded body, or the text of its decoding error, and the server's state to a reply and
  the state after.
\<close>

section \<open>The server\<close>

type_synonym 'a body = "string + 'a"

record vault_server =
  vs_auth :: auth_adapter
  vs_lab :: bool
  vs_raw_sighash :: bool
  vs_network :: bitcoin_network
  vs_node :: string
  vs_online :: nat
  vs_threshold :: nat
  vs_world :: world
  vs_rotation :: rotation
  vs_users :: "tr_signer option"
  vs_channels :: "tr_signer option"
  vs_prepare :: limiter
  vs_store :: persisted
  vs_anti :: anti_nonce

record settle_crates =
  cr_tr :: tr_crypto
  cr_btc :: btc_crate
  cr_sha3 :: "string \<Rightarrow> u8 list"

text \<open>What one request meets outside: the seconds of the clock, the outcome of the ledger's append,
  the peers' answers to its prepares, and the signer's surroundings.\<close>

record settle_call =
  ca_secs :: nat
  ca_store_io :: io_result
  ca_soft :: "bool list res"
  ca_acks :: "bool list res"
  ca_sign :: tr_call

definition server_port :: "settle_call \<Rightarrow> persisted bucket_port" where
  "server_port c = quorum_port (ca_secs c) (ca_quorum (ca_sign c)) (ca_store_io c) (ca_soft c) (ca_acks c)"

definition is_address :: "settle_crates \<Rightarrow> vault_server \<Rightarrow> string \<Rightarrow> bool" where
  "is_address k v d = (bc_addr (cr_btc k) (vs_network v) d \<noteq> None)"

definition reply_of :: "('a \<Rightarrow> string) \<Rightarrow> 'a res \<Rightarrow> http_reply" where
  "reply_of f r = (case r of Inr x \<Rightarrow> (200, f x) | Inl e \<Rightarrow> (400, json_err e))"

definition bad_json :: "string \<Rightarrow> http_reply" where
  "bad_json e = (400, json_err_text (''invalid json: '' @ e))"

definition dflt :: "'a \<Rightarrow> 'a option \<Rightarrow> 'a" where
  "dflt d x = (case x of Some v \<Rightarrow> v | None \<Rightarrow> d)"


section \<open>Intents\<close>

record intent_body =
  ib_intent_id :: string
  ib_bucket :: string
  ib_destination :: string
  ib_amount :: u64
  ib_ed25519 :: "string option"
  ib_ml_dsa :: "string option"
  ib_ed25519_key :: "string option"
  ib_ml_dsa_key :: "string option"

text \<open>A handler refuses with a reply, or panics: \<open>copy_from_slice\<close> of a source of another length.\<close>

datatype 'a parsed = Parsed 'a | Refused http_reply | Panicked

definition canonical_text :: "settlement_intent \<Rightarrow> string" where
  "canonical_text i =
     ''{'' @ json_string ''amount_sats'' @ '':'' @ dec_u (amount_sats i)
     @ '','' @ json_string ''bucket'' @ '':'' @ json_string (bucket_str (si_bucket i))
     @ '','' @ json_string ''destination'' @ '':'' @ json_string (destination i)
     @ '','' @ json_string ''intent_id'' @ '':'' @ json_string (intent_id i)
     @ '','' @ json_string ''policy_hash'' @ '':'' @ json_string (policy_hash i) @ ''}''"

definition pq_required :: "constitution \<Rightarrow> bool" where
  "pq_required c = (require_pq_signatures (c_downgrade c) \<and> hybrid_signature_required (c_downgrade c))"

definition check_signatures ::
  "settle_crates \<Rightarrow> bool \<Rightarrow> intent_body \<Rightarrow> settlement_intent \<Rightarrow> (settlement_intent \<times> intent_signature option) parsed" where
  "check_signatures k pq q i =
     (if ib_ed25519 q = None \<and> ib_ml_dsa q = None \<and> \<not> pq then Parsed (i, None)
      else
        let ml = dflt [] (ib_ml_dsa q) in
        case hex_decode (dflt [] (ib_ed25519 q)) of
          None \<Rightarrow> Refused (400, json_err_text (''ed25519_sig hex: '' @ bc_why (cr_btc k)))
        | Some ed \<Rightarrow>
            (case (if ml = [] then Some [] else hex_decode ml) of
               None \<Rightarrow> Refused (400, json_err_text (''ml_dsa65_sig hex: '' @ bc_why (cr_btc k)))
             | Some mb \<Rightarrow>
                 if length ed < 64 then Panicked
                 else if length ed \<noteq> 64 then Refused (400, json_err_text ''ed25519_sig must be 64 bytes'')
                 else
                   let sig = \<lparr>ed25519_signature = map of_char ed, ml_dsa65_signature = map of_char mb,
                              ed25519_key_id = dflt [] (ib_ed25519_key q), ml_dsa_key_id = dflt [] (ib_ml_dsa_key q),
                              canonical_hash = cr_sha3 k (canonical_text i)\<rparr> in
                   (case validate_stub sig pq of
                      Inl e \<Rightarrow> Refused (401, json_err e)
                    | Inr _ \<Rightarrow> Parsed (i, Some sig))))"

definition parse_settlement_intent ::
  "settle_crates \<Rightarrow> intent_body body \<Rightarrow> vault_server \<Rightarrow> (settlement_intent \<times> intent_signature option) parsed" where
  "parse_settlement_intent k body v =
     (case body of
        Inl e \<Rightarrow> Refused (bad_json e)
      | Inr q \<Rightarrow>
          (case validate_destination (bc_addr (cr_btc k)) (vs_network v) (ib_destination q) of
             Inl e \<Rightarrow> Refused (400, json_err e)
           | Inr _ \<Rightarrow>
          (case bucket_parse (ib_bucket q) of
             Inl e \<Rightarrow> Refused (400, json_err e)
           | Inr b \<Rightarrow>
          (let c = l_constitution (w_ledger (vs_world v)) in
           case intent_new (ib_intent_id q) b (ib_destination q) (ib_amount q) (c_hash c) of
             Inl e \<Rightarrow> Refused (400, json_err e)
           | Inr i \<Rightarrow> check_signatures k (pq_required c) q i))))"

definition run_gate ::
  "settle_crates \<Rightarrow> settle_call \<Rightarrow> gate_phase \<Rightarrow> settlement_intent \<Rightarrow> vault_server \<Rightarrow> gate_receipt res \<times> vault_server" where
  "run_gate k c ph i v =
     (case gate_run (is_address k v) (server_port c) (vs_world v) ph i (vs_store v) of
        (r, st) \<Rightarrow> (r, v\<lparr>vs_store := st\<rparr>))"

text \<open>No reply when the handler panics.\<close>

definition intent_endpoint ::
  "settle_crates \<Rightarrow> settle_call \<Rightarrow> gate_phase \<Rightarrow> intent_body body \<Rightarrow> vault_server \<Rightarrow> http_reply option \<times> vault_server" where
  "intent_endpoint k c ph body v =
     (case parse_settlement_intent k body v of
        Panicked \<Rightarrow> (None, v)
      | Refused r \<Rightarrow> (Some r, v)
      | Parsed (i, sig) \<Rightarrow>
          (case run_gate k c ph i v of (r, v1) \<Rightarrow> (Some (reply_of gate_receipt_json r), v1)))"

definition v1_intent ::
  "settle_crates \<Rightarrow> settle_call \<Rightarrow> intent_body body \<Rightarrow> vault_server \<Rightarrow> http_reply option \<times> vault_server" where
  "v1_intent k c = intent_endpoint k c PhConsume"

definition v1_intent_reserve ::
  "settle_crates \<Rightarrow> settle_call \<Rightarrow> intent_body body \<Rightarrow> vault_server \<Rightarrow> http_reply option \<times> vault_server" where
  "v1_intent_reserve k c = intent_endpoint k c PhReserve"

record release_body =
  rb_intent_id :: string
  rb_bucket :: string
  rb_amount :: u64

definition v1_intent_release ::
  "settle_call \<Rightarrow> release_body body \<Rightarrow> vault_server \<Rightarrow> http_reply \<times> vault_server" where
  "v1_intent_release c body v =
     (case body of
        Inl e \<Rightarrow> (bad_json e, v)
      | Inr q \<Rightarrow>
          (case bucket_parse (rb_bucket q) of
             Inl e \<Rightarrow> ((400, json_err e), v)
           | Inr b \<Rightarrow>
               (case gate_release (server_port c) (rb_intent_id q) b (rb_amount q) (vs_store v) of
                  (r, st) \<Rightarrow>
                    (reply_of (\<lambda>_. ''{'' @ key ''intent_id'' @ quoted (rb_intent_id q) @ '','' @ key ''bucket''
                       @ quoted (bucket_str b) @ '','' @ key ''amount_sats'' @ dec_u (rb_amount q)
                       @ '','' @ key ''status'' @ quoted ''RELEASED'' @ ''}'') r,
                     v\<lparr>vs_store := st\<rparr>))))"

definition v1_intent_commit :: "settle_call \<Rightarrow> string body \<Rightarrow> vault_server \<Rightarrow> http_reply \<times> vault_server" where
  "v1_intent_commit c body v =
     (case body of
        Inl e \<Rightarrow> (bad_json e, v)
      | Inr i0 \<Rightarrow>
          (let i = trim i0 in
           if i = [] then ((400, json_err_text ''intent_id required''), v)
           else case gate_commit (server_port c) i (vs_store v) of
             (r, st) \<Rightarrow>
               (reply_of (\<lambda>_. ''{'' @ key ''intent_id'' @ quoted i @ '','' @ key ''status'' @ quoted ''COMMITTED'' @ ''}'') r,
                v\<lparr>vs_store := st\<rparr>)))"

definition build_settlement_intent ::
  "settle_crates \<Rightarrow> vault_server \<Rightarrow> string option \<Rightarrow> string option \<Rightarrow> string option \<Rightarrow> u64 option \<Rightarrow> bool
     \<Rightarrow> settlement_intent res" where
  "build_settlement_intent k v iid bucket dest0 amt0 shared =
     (if dflt [] iid = [] then Inl (InvalidIntent ''intent_id required before bitcoin sign'')
      else
        let dest = dflt [] dest0; amt = dflt 0 amt0 in
        if dest = [] \<or> amt = 0
        then Inl (InvalidIntent ''destination and amount_sats required for Intent gate'')
        else
          rbind (validate_destination (bc_addr (cr_btc k)) (vs_network v) dest) (\<lambda>_.
          rbind (bucket_parse (dflt ''USERS'' bucket)) (\<lambda>b.
          rbind (if shared then assert_shared_taproot_bucket b else Inr ()) (\<lambda>_.
            intent_new (dflt [] iid) b dest amt (c_hash (l_constitution (w_ledger (vs_world v))))))))"

definition maybe_intent ::
  "settle_crates \<Rightarrow> settle_call \<Rightarrow> gate_phase \<Rightarrow> vault_server \<Rightarrow> string option \<Rightarrow> string option \<Rightarrow> string option
     \<Rightarrow> u64 option \<Rightarrow> bool \<Rightarrow> gate_receipt res \<times> vault_server" where
  "maybe_intent k c ph v iid bucket dest amt shared =
     (case build_settlement_intent k v iid bucket dest amt shared of
        Inl e \<Rightarrow> (Inl e, v)
      | Inr i \<Rightarrow> run_gate k c ph i v)"

definition maybe_reserve_intent ::
  "settle_crates \<Rightarrow> settle_call \<Rightarrow> vault_server \<Rightarrow> string option \<Rightarrow> string option \<Rightarrow> string option
     \<Rightarrow> u64 option \<Rightarrow> bool \<Rightarrow> gate_receipt res \<times> vault_server" where
  "maybe_reserve_intent k c = maybe_intent k c PhReserve"

definition maybe_gate_intent ::
  "settle_crates \<Rightarrow> settle_call \<Rightarrow> vault_server \<Rightarrow> string option \<Rightarrow> string option \<Rightarrow> string option
     \<Rightarrow> u64 option \<Rightarrow> bool \<Rightarrow> unit res \<times> vault_server" where
  "maybe_gate_intent k c v iid bucket dest amt shared =
     (case maybe_intent k c PhConsume v iid bucket dest amt shared of
        (r, v1) \<Rightarrow> (rbind r (\<lambda>_. Inr ()), v1))"

section \<open>Spending\<close>

definition raw_err :: "string \<Rightarrow> string" where
  "raw_err m = ''{'' @ key ''error'' @ quoted m @ ''}''"

definition v1_bitcoin_deposit :: "settle_crates \<Rightarrow> string option \<Rightarrow> vault_server \<Rightarrow> http_reply" where
  "v1_bitcoin_deposit k bucket v =
     (case bucket_parse (dflt ''USERS'' bucket) of
        Inl e \<Rightarrow> (400, json_err e)
      | Inr b \<Rightarrow>
          if b \<noteq> Users \<and> b \<noteq> Channels
          then (400, json_err_text (''bitcoin deposit Taproot key not available for bucket '' @ bucket_str b))
          else case (if b = Users then vs_users v else vs_channels v) of
            None \<Rightarrow> (503, raw_err ''taproot FROST not installed for bucket (dealer_lab / DKG required)'')
          | Some g \<Rightarrow> reply_of deposit_json (deposit_info_of (cr_btc k) g))"

record sighash_body =
  hb_session :: string
  hb_sighash :: string
  hb_intent_id :: "string option"
  hb_bucket :: "string option"
  hb_destination :: "string option"
  hb_amount :: "u64 option"

definition v1_bitcoin_sign_sighash ::
  "settle_crates \<Rightarrow> settle_call \<Rightarrow> sighash_body body \<Rightarrow> vault_server \<Rightarrow> http_reply \<times> vault_server" where
  "v1_bitcoin_sign_sighash k c body v =
     (case authorize_treasury_sign (vs_auth v) of
        Inl e \<Rightarrow> ((401, json_err e), v)
      | Inr _ \<Rightarrow>
     if \<not> vs_lab v
     then ((403, raw_err ''raw sighash signing refused outside lab; use Intent-bound /v1/bitcoin/sign-psbt''), v)
     else if \<not> vs_raw_sighash v
     then ((403, raw_err ''raw sighash signing requires VAULT_LAB_ALLOW_RAW_SIGHASH=1; prefer Intent-bound /v1/bitcoin/sign-psbt''), v)
     else case body of
        Inl e \<Rightarrow> (bad_json e, v)
      | Inr q \<Rightarrow>
     if dflt [] (hb_intent_id q) = [] \<or> dflt [] (hb_bucket q) = [] \<or> dflt [] (hb_destination q) = []
        \<or> dflt 0 (hb_amount q) = 0
     then ((400, json_err_text
       ''raw sighash requires intent_id, bucket, destination, and amount_sats (outputs still unbound -- prefer sign-psbt)''), v)
     else case maybe_gate_intent k c v (hb_intent_id q) (hb_bucket q) (hb_destination q) (hb_amount q) True of
        (Inl e, v1) \<Rightarrow> ((400, json_err e), v1)
      | (Inr _, v1) \<Rightarrow>
     (case vs_users v1 of
        None \<Rightarrow> ((503, raw_err ''taproot FROST not installed''), v1)
      | Some g \<Rightarrow>
     (case hex_decode (trim (hb_sighash q)) of
        None \<Rightarrow> ((400, json_err_text (''sighash_hex: '' @ bc_why (cr_btc k))), v1)
      | Some h \<Rightarrow>
          (case sign_sighash (cr_tr k) (cr_btc k) (ca_sign c) g (vs_rotation v1) (hb_session q) h (vs_anti v1) of
             (r, a) \<Rightarrow> (reply_of sighash_json r, v1\<lparr>vs_anti := a\<rparr>)))))"

record psbt_body =
  pb_session :: string
  pb_psbt :: string
  pb_intent_id :: "string option"
  pb_bucket :: "string option"
  pb_destination :: "string option"
  pb_amount :: "u64 option"
  pb_commit :: bool

definition body_intent_id :: "psbt_body \<Rightarrow> string" where
  "body_intent_id q =
     (case pb_intent_id q of Some s \<Rightarrow> if s \<noteq> [] then s else pb_session q | None \<Rightarrow> pb_session q)"

text \<open>The keyset of a bucket: the shared key for USERS, its own for CHANNELS.\<close>

definition psbt_signer :: "bucket_kind \<Rightarrow> vault_server \<Rightarrow> http_reply + tr_signer option" where
  "psbt_signer b v =
     (case b of
        Users \<Rightarrow> (case assert_shared_taproot_bucket b of Inl e \<Rightarrow> Inl (400, json_err e) | Inr _ \<Rightarrow> Inr (vs_users v))
      | Channels \<Rightarrow> (case assert_channels_taproot_bucket b of Inl e \<Rightarrow> Inl (400, json_err e) | Inr _ \<Rightarrow> Inr (vs_channels v))
      | other \<Rightarrow> Inl (400, json_err_text (''bucket '' @ bucket_str other
                   @ '' cannot spend Taproot; only USERS (shared) or CHANNELS (own key)'')))"

text \<open>What follows the reservation: \<open>undo\<close> gives it back, unless the caller only asked to sign.\<close>

definition psbt_undo :: "settle_call \<Rightarrow> bool \<Rightarrow> string \<Rightarrow> bucket_kind \<Rightarrow> u64 \<Rightarrow> vault_server \<Rightarrow> vault_server" where
  "psbt_undo c commit i b a v =
     (if commit then v\<lparr>vs_store := snd (gate_release (server_port c) i b a (vs_store v))\<rparr> else v)"

definition psbt_finish ::
  "settle_crates \<Rightarrow> settle_call \<Rightarrow> psbt_body \<Rightarrow> tr_signer option \<Rightarrow> string \<Rightarrow> bucket_kind \<Rightarrow> u64 \<Rightarrow> vault_server
     \<Rightarrow> http_reply \<times> vault_server" where
  "psbt_finish k c q signer i b a v =
     (case signer of
        None \<Rightarrow> ((503, raw_err ''taproot FROST not installed for bucket''), psbt_undo c (pb_commit q) i b a v)
      | Some g \<Rightarrow>
          if vs_online v < vs_threshold v
          then ((400, json_err_text (''fail-stop: online '' @ dec (vs_online v) @ '' < t '' @ dec (vs_threshold v))),
                psbt_undo c (pb_commit q) i b a v)
          else
            case sign_psbt (cr_tr k) (cr_btc k) (ca_sign c) g (vs_rotation v) (pb_session q) (pb_psbt q)
                   (dflt [] (pb_destination q)) (dflt 0 (pb_amount q)) (vs_anti v) of
              (Inl e, an) \<Rightarrow> ((400, json_err e), psbt_undo c (pb_commit q) i b a (v\<lparr>vs_anti := an\<rparr>))
            | (Inr s, an) \<Rightarrow>
                if \<not> pb_commit q then ((200, signed_psbt_json s), v\<lparr>vs_anti := an\<rparr>)
                else case gate_commit (server_port c) i (vs_store v) of
                  (Inl e, st) \<Rightarrow> ((400, json_err e), v\<lparr>vs_anti := an, vs_store := st\<rparr>)
                | (Inr _, st) \<Rightarrow> ((200, signed_psbt_json s), v\<lparr>vs_anti := an, vs_store := st\<rparr>))"

definition v1_bitcoin_sign_psbt ::
  "settle_crates \<Rightarrow> settle_call \<Rightarrow> psbt_body body \<Rightarrow> vault_server \<Rightarrow> http_reply \<times> vault_server" where
  "v1_bitcoin_sign_psbt k c body v =
     (case authorize_treasury_sign (vs_auth v) of
        Inl e \<Rightarrow> ((401, json_err e), v)
      | Inr _ \<Rightarrow>
     (case body of
        Inl e \<Rightarrow> (bad_json e, v)
      | Inr q \<Rightarrow>
     (case bucket_parse (dflt ''USERS'' (pb_bucket q)) of
        Inl e \<Rightarrow> ((400, json_err e), v)
      | Inr b \<Rightarrow>
     (case psbt_signer b v of
        Inl r \<Rightarrow> (r, v)
      | Inr signer \<Rightarrow>
          (let dest = dflt [] (pb_destination q); amt = dflt 0 (pb_amount q) in
           if pb_commit q then
             case maybe_reserve_intent k c v (Some (body_intent_id q)) (Some (dflt ''USERS'' (pb_bucket q)))
                    (if dest = [] then None else Some dest) (pb_amount q) (b = Users) of
               (Inl e, v1) \<Rightarrow> ((400, json_err e), v1)
             | (Inr r, v1) \<Rightarrow> psbt_finish k c q signer (gr_intent_id r) (gr_bucket r) (gr_amount_sats r) v1
           else
             case p_has_reservation (ca_secs c) (body_intent_id q) (vs_store v) of
               (has, st) \<Rightarrow>
                 (let v1 = v\<lparr>vs_store := st\<rparr> in
                  if \<not> has
                  then ((400, json_err_text (''commit_intent=false requires existing reservation for '' @ body_intent_id q)), v1)
                  else if dest = [] \<or> amt = 0
                  then ((400, json_err_text ''destination and amount_sats required for PSBT bind''), v1)
                  else case validate_destination (bc_addr (cr_btc k)) (vs_network v) dest of
                    Inl e \<Rightarrow> ((400, json_err e), v1)
                  | Inr _ \<Rightarrow> psbt_finish k c q signer (body_intent_id q) b amt v1))))))"


section \<open>Financial quorum\<close>

record financial_body =
  fb_proposal_hash :: string
  fb_constitution_hash :: string
  fb_constitution_epoch :: u64
  fb_submitted :: "64 word"
  fb_expires :: "64 word"

text \<open>A 64-bit signed number in decimal.\<close>

definition dec_i :: "64 word \<Rightarrow> string" where
  "dec_i x = (if 0 \<le> sint x then dec (nat (sint x)) else ''-'' @ dec (nat (- sint x)))"

definition financial_text :: "financial_body \<Rightarrow> string" where
  "financial_text q =
     ''kerosene-financial-quorum-v1|'' @ fb_proposal_hash q @ ''|'' @ fb_constitution_hash q @ ''|''
     @ dec_u (fb_constitution_epoch q) @ ''|'' @ dec_i (fb_submitted q) @ ''|'' @ dec_i (fb_expires q)"

definition json_list :: "string list \<Rightarrow> string" where
  "json_list xs = ''['' @ join_with '','' (map json_string xs) @ '']''"

definition financial_json ::
  "financial_body \<Rightarrow> epoch \<Rightarrow> financial_proof \<Rightarrow> string \<Rightarrow> 64 word \<Rightarrow> string" where
  "financial_json q ep pr digest now =
     ''{'' @ json_string ''accepted_members'' @ '':'' @ json_list (fp_participants pr)
     @ '','' @ json_string ''aggregate_proof'' @ '':'' @ json_string (fp_signature pr)
     @ '','' @ json_string ''configured_members'' @ '':'' @ dec (length (active_set ep))
     @ '','' @ json_string ''constitution_epoch'' @ '':'' @ dec_u (fb_constitution_epoch q)
     @ '','' @ json_string ''constitution_hash'' @ '':'' @ json_string (fb_constitution_hash q)
     @ '','' @ json_string ''decided_at_epoch_ms'' @ '':'' @ dec_i now
     @ '','' @ json_string ''decision'' @ '':'' @ json_string ''ACCEPTED''
     @ '','' @ json_string ''proposal_hash'' @ '':'' @ json_string (fb_proposal_hash q)
     @ '','' @ json_string ''rejected_members'' @ '':[]''
     @ '','' @ json_string ''required_threshold'' @ '':'' @ dec (fp_threshold pr)
     @ '','' @ json_string ''signed_digest'' @ '':'' @ json_string (hex_encode digest)
     @ '','' @ json_string ''unavailable_members'' @ '':''
     @ json_list (filter (\<lambda>n. n \<notin> set (fp_participants pr)) (active_set ep))
     @ '','' @ json_string ''verifying_key'' @ '':'' @ json_string (fp_verifying_key pr) @ ''}''"

definition v1_financial_quorum ::
  "settle_crates \<Rightarrow> tr_wire \<Rightarrow> 64 word \<Rightarrow> financial_body body \<Rightarrow> vault_server \<Rightarrow> http_reply" where
  "v1_financial_quorum k w now body v =
     (case authorize_treasury_sign (vs_auth v) of
        Inl e \<Rightarrow> (401, json_err e)
      | Inr _ \<Rightarrow>
     (case body of
        Inl e \<Rightarrow> (400, json_err_text (''invalid financial quorum json: '' @ e))
      | Inr q \<Rightarrow>
          (let ep = l_epoch (w_ledger (vs_world v)); digest = bc_sha256 (cr_btc k) (financial_text q) in
           if length (fb_proposal_hash q) \<noteq> 64 \<or> hex_decode (fb_proposal_hash q) = None
           then (400, json_err_text ''proposal_hash must be 32-byte lowercase/uppercase hex'')
           else if now + 30000 <s fb_submitted q \<or> fb_expires q \<le>s now \<or> fb_expires q \<le>s fb_submitted q
           then (400, json_err_text ''financial quorum proposal is expired or outside allowed clock skew'')
           else if fb_constitution_hash q \<noteq> ep_constitution_hash ep \<or> fb_constitution_epoch q \<noteq> ep_number ep
           then (409, json_err_text ''financial quorum constitution hash/epoch mismatch'')
           else case vs_users v of
             None \<Rightarrow> (503, json_err_text ''USERS distributed FROST signer is unavailable'')
           | Some g \<Rightarrow>
               (case sign_financial_quorum_proof (cr_tr k) (cr_btc k) w g digest of
                  Inl e \<Rightarrow> (503, json_err e)
                | Inr pr \<Rightarrow> (200, financial_json q ep pr digest now)))))"

definition v1_financial_quorum_context :: "vault_server \<Rightarrow> http_reply" where
  "v1_financial_quorum_context v =
     (let ep = l_epoch (w_ledger (vs_world v)) in
      (200, ''{'' @ json_string ''active_members'' @ '':'' @ json_list (active_set ep)
        @ '','' @ json_string ''configured_members'' @ '':'' @ dec (length (active_set ep))
        @ '','' @ json_string ''constitution_epoch'' @ '':'' @ dec_u (ep_number ep)
        @ '','' @ json_string ''constitution_hash'' @ '':'' @ json_string (ep_constitution_hash ep) @ ''}''))"


section \<open>The peers' prepares\<close>

record prepare_body =
  pr_session :: string
  pr_intent :: string
  pr_durable :: bool

definition prepare_json :: "bool \<Rightarrow> string" where
  "prepare_json seen = ''{'' @ key ''ok'' @ ''true,'' @ key ''already_seen'' @ bool_str seen @ ''}''"

definition v1_anti_nonce_prepare ::
  "settle_call \<Rightarrow> nat \<Rightarrow> prepare_body body \<Rightarrow> vault_server \<Rightarrow> http_reply \<times> vault_server" where
  "v1_anti_nonce_prepare c tick body v =
     (case body of
        Inl e \<Rightarrow> (bad_json e, v)
      | Inr q \<Rightarrow>
     (case limiter_check tick (vs_node v) (vs_prepare v) of
        (Inl e, l) \<Rightarrow> ((429, json_err e), v\<lparr>vs_prepare := l\<rparr>)
      | (Inr _, l) \<Rightarrow>
          (let v1 = v\<lparr>vs_prepare := l\<rparr> in
           case bind_session_to_intent (pr_session q) (pr_intent q) of
             Inl e \<Rightarrow> ((400, json_err e), v1)
           | Inr _ \<Rightarrow>
               (case (if pr_durable q then an_prepare (ca_nonce_io (ca_sign c)) (pr_session q) (vs_anti v1)
                      else an_prepare_remote_bound (ca_secs c) (pr_session q) (pr_intent q) (vs_anti v1)) of
                  (r, a) \<Rightarrow> (reply_of prepare_json r, v1\<lparr>vs_anti := a\<rparr>)))))"

definition v1_intent_consume_prepare ::
  "settle_call \<Rightarrow> nat \<Rightarrow> prepare_body body \<Rightarrow> vault_server \<Rightarrow> http_reply \<times> vault_server" where
  "v1_intent_consume_prepare c tick body v =
     (case body of
        Inl e \<Rightarrow> (bad_json e, v)
      | Inr q \<Rightarrow>
     (case limiter_check tick (vs_node v) (vs_prepare v) of
        (Inl e, l) \<Rightarrow> ((429, json_err e), v\<lparr>vs_prepare := l\<rparr>)
      | (Inr _, l) \<Rightarrow>
          (case (if pr_durable q then p_prepare_consume (ca_store_io c) (pr_intent q) (vs_store v)
                 else case p_prepare_soft (ca_secs c) (pr_intent q) (vs_store v) of (b, st) \<Rightarrow> (Inr b, st)) of
             (r, st) \<Rightarrow> (reply_of prepare_json r, v\<lparr>vs_prepare := l, vs_store := st\<rparr>))))"

section \<open>What a spend needs\<close>

lemma reply_codes [simp]:
  "fst (bad_json e) = 400"
  by (simp add: bad_json_def)

lemma run_gate_reserve:
  assumes "run_gate k c PhReserve i v = (Inr r, v1)"
  shows "\<exists>st. gate_run (is_address k v) (server_port c) (vs_world v) PhReserve i (vs_store v) = (Inr r, st)
    \<and> v1 = v\<lparr>vs_store := st\<rparr> \<and> intent_id i \<notin> consumed (pl_mem (vs_store v))
    \<and> consumed (pl_mem st) = consumed (pl_mem (vs_store v))"
proof -
  obtain st where st: "gate_run (is_address k v) (server_port c) (vs_world v) PhReserve i (vs_store v) = (Inr r, st)"
      "v1 = v\<lparr>vs_store := st\<rparr>"
    using assms by (auto simp: run_gate_def split: prod.splits)
  then obtain w where "q_reserve_spend (ca_secs c) (ca_quorum (ca_sign c)) (ca_soft c) (intent_id i) (si_bucket i)
      (amount_sats i) w (vs_store v) = (Inr (), st)"
    by (auto simp: gate_run_def server_port_def quorum_port_def Let_def split: sum.splits prod.splits)
  from q_reserve_ok [OF this] st show ?thesis by auto
qed

lemma psbt_finish_ok:
  assumes "psbt_finish k c q signer i b a v = ((200, body1), v')"
  shows "\<exists>g s an. signer = Some g \<and> vs_threshold v \<le> vs_online v
    \<and> sign_psbt (cr_tr k) (cr_btc k) (ca_sign c) g (vs_rotation v) (pb_session q) (pb_psbt q)
         (dflt [] (pb_destination q)) (dflt 0 (pb_amount q)) (vs_anti v) = (Inr s, an)
    \<and> body1 = signed_psbt_json s
    \<and> (if pb_commit q
       then \<exists>st. gate_commit (server_port c) i (vs_store v) = (Inr (), st) \<and> v' = v\<lparr>vs_anti := an, vs_store := st\<rparr>
       else v' = v\<lparr>vs_anti := an\<rparr>)"
  using assms
  by (auto simp: psbt_finish_def not_less split: option.splits if_splits prod.splits sum.splits)

lemma psbt_signer_ok:
  assumes "psbt_signer b v = Inr signer"
  shows "(b = Users \<and> signer = vs_users v) \<or> (b = Channels \<and> signer = vs_channels v)"
  using assms by (auto simp: psbt_signer_def split: bucket_kind.splits sum.splits)

lemma sign_psbt_endpoint_ok:
  assumes "v1_bitcoin_sign_psbt k c (Inr q) v = ((200, body1), v')"
  shows "\<exists>b signer. authorize_treasury_sign (vs_auth v) = Inr () \<and> bucket_parse (dflt ''USERS'' (pb_bucket q)) = Inr b
    \<and> psbt_signer b v = Inr signer
    \<and> (if pb_commit q
       then \<exists>r v1. maybe_reserve_intent k c v (Some (body_intent_id q)) (Some (dflt ''USERS'' (pb_bucket q)))
              (if dflt [] (pb_destination q) = [] then None else Some (dflt [] (pb_destination q))) (pb_amount q) (b = Users)
              = (Inr r, v1)
            \<and> psbt_finish k c q signer (gr_intent_id r) (gr_bucket r) (gr_amount_sats r) v1 = ((200, body1), v')
       else \<exists>st. p_has_reservation (ca_secs c) (body_intent_id q) (vs_store v) = (True, st)
            \<and> psbt_finish k c q signer (body_intent_id q) b (dflt 0 (pb_amount q)) (v\<lparr>vs_store := st\<rparr>) = ((200, body1), v'))"
proof -
  obtain b where b: "authorize_treasury_sign (vs_auth v) = Inr ()" "bucket_parse (dflt ''USERS'' (pb_bucket q)) = Inr b"
    using assms by (auto simp: v1_bitcoin_sign_psbt_def bad_json_def split: sum.splits)
  obtain signer where s: "psbt_signer b v = Inr signer"
  proof (cases "psbt_signer b v")
    case (Inl r)
    then have "fst r = 400" by (auto simp: psbt_signer_def split: bucket_kind.splits sum.splits)
    then show ?thesis using assms b Inl by (simp add: v1_bitcoin_sign_psbt_def)
  qed
  note r = assms [unfolded v1_bitcoin_sign_psbt_def b s, simplified]
  show ?thesis
  proof (cases "pb_commit q")
    case True
    then show ?thesis using b s r by (auto simp: Let_def split: prod.splits sum.splits)
  next
    case False
    then show ?thesis using b s r by (auto simp: Let_def split: prod.splits sum.splits if_splits)
  qed
qed

lemma maybe_reserve_ok:
  assumes "maybe_reserve_intent k c v (Some iid) (Some raw) dest0 amt0 shared = (Inr r, v1)" "bucket_parse raw = Inr b"
  shows "\<exists>i. run_gate k c PhReserve i v = (Inr r, v1) \<and> intent_id i = iid \<and> iid \<noteq> [] \<and> si_bucket i = b
    \<and> destination i = dflt [] dest0 \<and> amount_sats i = dflt 0 amt0"
proof -
  obtain i where i: "build_settlement_intent k v (Some iid) (Some raw) dest0 amt0 shared = Inr i"
    "run_gate k c PhReserve i v = (Inr r, v1)"
    using assms(1) by (auto simp: maybe_reserve_intent_def maybe_intent_def split: sum.splits)
  then have "iid \<noteq> [] \<and> intent_new iid b (dflt [] dest0) (dflt 0 amt0) (c_hash (l_constitution (w_ledger (vs_world v)))) = Inr i"
    using assms(2) by (auto simp: build_settlement_intent_def rbind_Inr_iff Let_def dflt_def split: if_splits)
  then show ?thesis using i(2) by (auto simp: intent_new_def split: if_splits)
qed

text \<open>C22: A committed spend.  When the PSBT endpoint answers a committing request with success, the caller
  may sign, the bucket is USERS or CHANNELS with its own key, the intent was within the caps and the
  allowlist of the policy the ledger holds, its id and its session were new and are now burned, the
  online vaults reach the threshold, and the transaction pays the destination exactly once with the
  amount, returns the rest to the mesh and carries signatures of a threshold of shares.\<close>

theorem committed_spend_lawful:
  assumes "v1_bitcoin_sign_psbt k c (Inr q) v = ((200, body1), v')" and "pb_commit q"
  shows "authorize_treasury_sign (vs_auth v) = Inr () \<and> vs_threshold v \<le> vs_online v
    \<and> (\<exists>b g pol sp s t snap spk pay.
        (b = Users \<and> vs_users v = Some g \<or> b = Channels \<and> vs_channels v = Some g)
      \<and> swept_view (ca_secs c) b (vs_store v) = Some (pol, sp)
      \<and> 0 < unat (dflt 0 (pb_amount q)) \<and> unat (dflt 0 (pb_amount q)) \<le> unat (max_per_tx_sats pol)
      \<and> (unat sp + unat (dflt 0 (pb_amount q)) \<le> unat (max_per_day_sats pol) \<or> unat (max_per_day_sats pol) = 2 ^ 64 - 1)
      \<and> (dflt [] (pb_destination q) \<in> set (destination_allowlist pol)
          \<or> b = Channels \<and> is_address k v (dflt [] (pb_destination q)))
      \<and> body_intent_id q \<notin> burned (vs_store v) \<and> body_intent_id q \<in> burned (vs_store v')
      \<and> pb_session q \<notin> an_used (vs_anti v) \<and> pb_session q \<in> an_used (vs_anti v')
      \<and> body1 = signed_psbt_json s \<and> sp_signatures s \<noteq> []
      \<and> bc_parse (cr_btc k) (trim (pb_psbt q)) = Some t \<and> sg_slot g = Some snap \<and> mesh_script (cr_btc k) snap = Inr spk
      \<and> destination_script_pubkey (bc_addr (cr_btc k)) (sg_network g) (dflt [] (pb_destination q)) = Inr pay
      \<and> (pay \<noteq> spk \<longrightarrow> length (filter (\<lambda>(x, a). x = pay) (output_pairs t)) = 1
           \<and> set (output_pairs t) \<subseteq> insert (pay, dflt 0 (pb_amount q)) {(spk, a) |a. True}))"
proof -
  obtain b signer r v1 where e: "authorize_treasury_sign (vs_auth v) = Inr ()"
      "bucket_parse (dflt ''USERS'' (pb_bucket q)) = Inr b" "psbt_signer b v = Inr signer"
      "maybe_reserve_intent k c v (Some (body_intent_id q)) (Some (dflt ''USERS'' (pb_bucket q)))
         (if dflt [] (pb_destination q) = [] then None else Some (dflt [] (pb_destination q))) (pb_amount q) (b = Users)
         = (Inr r, v1)"
      "psbt_finish k c q signer (gr_intent_id r) (gr_bucket r) (gr_amount_sats r) v1 = ((200, body1), v')"
    using sign_psbt_endpoint_ok [OF assms(1)] assms(2) by auto
  obtain i where i: "run_gate k c PhReserve i v = (Inr r, v1)" "intent_id i = body_intent_id q" "si_bucket i = b"
      "destination i = dflt [] (pb_destination q)" "amount_sats i = dflt 0 (pb_amount q)"
    using maybe_reserve_ok [OF e(4,2)] by (auto simp: dflt_def split: if_splits)
  obtain st where st: "gate_run (is_address k v) (server_port c) (vs_world v) PhReserve i (vs_store v) = (Inr r, st)"
      "v1 = v\<lparr>vs_store := st\<rparr>" "intent_id i \<notin> consumed (pl_mem (vs_store v))"
      "consumed (pl_mem st) = consumed (pl_mem (vs_store v))"
    using run_gate_reserve [OF i(1)] by blast
  obtain g s an st' where f: "signer = Some g" "vs_threshold v1 \<le> vs_online v1"
      "sign_psbt (cr_tr k) (cr_btc k) (ca_sign c) g (vs_rotation v1) (pb_session q) (pb_psbt q)
         (dflt [] (pb_destination q)) (dflt 0 (pb_amount q)) (vs_anti v1) = (Inr s, an)"
      "body1 = signed_psbt_json s" "gate_commit (server_port c) (gr_intent_id r) (vs_store v1) = (Inr (), st')"
      "v' = v1\<lparr>vs_anti := an, vs_store := st'\<rparr>"
    using psbt_finish_ok [OF e(5)] assms(2) by auto
  note law = gate_lawful [OF st(1) [unfolded server_port_def]]
  have b: "b = Users \<and> vs_users v = Some g \<or> b = Channels \<and> vs_channels v = Some g"
    using psbt_signer_ok [OF e(3)] f(1) by auto
  then have "\<not> miners_open (l_constitution (w_ledger (vs_world v))) i" using i(3) by (auto simp: miners_open_def)
  then obtain pol sp where pol: "swept_view (ca_secs c) b (vs_store v) = Some (pol, sp)"
      "0 < unat (amount_sats i)" "unat (amount_sats i) \<le> unat (max_per_tx_sats pol)"
      "unat sp + unat (amount_sats i) \<le> unat (max_per_day_sats pol) \<or> unat (max_per_day_sats pol) = 2 ^ 64 - 1"
      "destination i \<in> set (destination_allowlist pol) \<or> b = Channels \<and> is_address k v (destination i)"
    using law i(3) by auto
  have id: "gr_intent_id r = body_intent_id q" using law i(2) by simp
  have new: "body_intent_id q \<notin> burned (vs_store v)" using st(3) i(2) by (simp add: burned_def)
  have "q_commit_consume (ca_quorum (ca_sign c)) (ca_store_io c) (ca_acks c) (body_intent_id q) st = (Inr (), st')"
    using f(5) st(2) id by (simp add: gate_commit_def server_port_def quorum_port_def)
  moreover have "body_intent_id q \<notin> consumed (pl_mem st)" using st(3,4) i(2) by simp
  ultimately have "body_intent_id q \<in> consumed (pl_mem st')" by (rule q_commit_ok)
  then have burnt: "body_intent_id q \<in> burned (vs_store v')" using f(6) by (simp add: burned_def)
  note sg = sign_psbt_spec [OF f(3)]
  obtain t snap spk pay where t: "bc_parse (cr_btc k) (trim (pb_psbt q)) = Some t" "sg_slot g = Some snap"
      "mesh_script (cr_btc k) snap = Inr spk"
      "destination_script_pubkey (bc_addr (cr_btc k)) (sg_network g) (dflt [] (pb_destination q)) = Inr pay"
      "pay \<noteq> spk \<longrightarrow> length (filter (\<lambda>(x, a). x = pay) (output_pairs t)) = 1
           \<and> set (output_pairs t) \<subseteq> insert (pay, dflt 0 (pb_amount q)) {(spk, a) |a. True}" "sp_signatures s \<noteq> []"
    using sg by blast
  have "pb_session q \<notin> an_used (vs_anti v)" "pb_session q \<in> an_used (vs_anti v')" using sg st(2) f(6) by auto
  moreover have "vs_threshold v \<le> vs_online v" using f(2) st(2) by simp
  ultimately show ?thesis using e(1) b pol [unfolded i(4,5)] new burnt f(4) t by blast
qed

text \<open>A laboratory server: one vault, no peers, the CHANNELS key and the intent \<open>i1\<close> of 600.\<close>

definition demo_settle :: settle_call where
  "demo_settle = \<lparr>ca_secs = 0, ca_store_io = IoOk, ca_soft = Inr [], ca_acks = Inr [], ca_sign = demo_call\<rparr>"

definition demo_crates :: settle_crates where
  "demo_crates = \<lparr>cr_tr = cosign_demo_crypto, cr_btc = demo_btc, cr_sha3 = (\<lambda>_. [1])\<rparr>"

definition demo_server :: "world \<Rightarrow> bucket_state \<Rightarrow> vault_server" where
  "demo_server w g =
     \<lparr>vs_auth = MutualTlsAuth True, vs_lab = True, vs_raw_sighash = True, vs_network = Testnet3, vs_node = ''a'',
      vs_online = 2, vs_threshold = 2, vs_world = w, vs_rotation = demo_rotation, vs_users = Some demo_signer,
      vs_channels = Some demo_signer, vs_prepare = prepare_defaults, vs_store = lab_store g, vs_anti = an_open []\<rparr>"

definition demo_psbt :: "bool \<Rightarrow> psbt_body" where
  "demo_psbt commit =
     \<lparr>pb_session = ''s1'', pb_psbt = ''psbt'', pb_intent_id = Some ''i1'', pb_bucket = Some ''CHANNELS'',
      pb_destination = Some ''pay'', pb_amount = Some 600, pb_commit = commit\<rparr>"

definition demo_world :: "ledger_state \<Rightarrow> world" where
  "demo_world l = lab_world (l\<lparr>l_constitution := (l_constitution l)\<lparr>c_hash := ''h''\<rparr>\<rparr>)"

lemma demo_commit:
  "i \<notin> consumed (pl_mem p) \<Longrightarrow> \<exists>st. q_commit_consume 1 IoOk (Inr []) i p = (Inr (), st)"
  by (simp add: q_commit_consume_def is_consumed_def claim_consume_def p_prepare_consume_def
      append_consumed_def append_line_def verdict_res_def claim_verdict_def Let_def)

lemma demo_finish:
  assumes "vs_online v = 2" "vs_threshold v = 2" "vs_rotation v = demo_rotation" "vs_anti v = an_open []"
    and "pb_commit q \<longrightarrow> i \<notin> consumed (pl_mem (vs_store v))"
    and "pb_session q = ''s1'' \<and> pb_psbt q = ''psbt'' \<and> pb_destination q = Some ''pay'' \<and> pb_amount q = Some 600"
  shows "\<exists>body1 v'. psbt_finish demo_crates demo_settle q (Some demo_signer) i b a v = ((200, body1), v')"
proof -
  have "''s1'' \<notin> an_used (an_open [])" by code_simp
  then obtain a1 where a1: "claim_and_day demo_call demo_rotation ''s1'' (an_open []) = (Inr (day_epoch_from_unix_secs 0), a1)"
    using demo_claim by blast
  obtain s where s: "sign_psbt_on cosign_demo_crypto demo_btc demo_call demo_signer (day_epoch_from_unix_secs 0)
      ''s1'' ''psbt'' ''pay'' 600 = Inr s"
    using demo_sign by blast
  have sg: "sign_psbt cosign_demo_crypto demo_btc demo_call demo_signer demo_rotation ''s1'' ''psbt'' ''pay'' 600 (an_open [])
      = (Inr s, a1)"
    using a1 s by (simp add: sign_psbt_def)
  have k: "cr_tr demo_crates = cosign_demo_crypto" "cr_btc demo_crates = demo_btc" "ca_sign demo_settle = demo_call"
    by (simp_all add: demo_crates_def demo_settle_def)
  show ?thesis
  proof (cases "pb_commit q")
    case True
    then obtain st where "q_commit_consume 1 IoOk (Inr []) i (vs_store v) = (Inr (), st)"
      using demo_commit assms(5) by blast
    then have "gate_commit (server_port demo_settle) i (vs_store v) = (Inr (), st)"
      by (simp add: gate_commit_def server_port_def quorum_port_def demo_settle_def demo_call_def)
    then show ?thesis using True assms sg k by (simp add: psbt_finish_def dflt_def)
  next
    case False
    then show ?thesis using assms sg k by (simp add: psbt_finish_def dflt_def)
  qed
qed

lemma demo_channels: "bucket_parse ''CHANNELS'' = Inr Channels"
  by code_simp

lemma demo_destination: "validate_destination (bc_addr demo_btc) Testnet3 ''pay'' = Inr ()"
  by code_simp

lemma demo_reserve:
  "\<exists>r st. maybe_reserve_intent demo_crates demo_settle (demo_server (demo_world l) (from_constitution_caps 1000 1000))
      (Some ''i1'') (Some ''CHANNELS'') (Some ''pay'') (Some 600) False
      = (Inr r, (demo_server (demo_world l) (from_constitution_caps 1000 1000))\<lparr>vs_store := st\<rparr>)
    \<and> ''i1'' \<notin> consumed (pl_mem st) \<and> gr_intent_id r = ''i1''"
proof -
  let ?v = "demo_server (demo_world l) (from_constitution_caps 1000 1000)"
  let ?i = "\<lparr>intent_id = ''i1'', si_bucket = Channels, destination = ''pay'', amount_sats = 600, policy_hash = ''h''\<rparr>"
  have n: "intent_new ''i1'' Channels ''pay'' 600 ''h'' = Inr ?i" by code_simp
  have b: "build_settlement_intent demo_crates ?v (Some ''i1'') (Some ''CHANNELS'') (Some ''pay'') (Some 600) False = Inr ?i"
    using n demo_channels demo_destination
    by (simp add: build_settlement_intent_def dflt_def demo_server_def demo_world_def lab_world_def demo_crates_def)
  have p: "policies (from_constitution_caps 1000 1000) Channels = Some (policy_lab_defaults Channels 1000 1000)"
    by (simp add: initial_policy caps_for_def max_def)
  have sw: "sweep_expired now (from_constitution_caps 1000 1000) = from_constitution_caps 1000 1000" for now
    by (simp add: sweep_expired_def from_constitution_caps_def)
  have ev: "evaluate_intent (is_address demo_crates ?v) ?i (policy_lab_defaults Channels 1000 1000) 0 ''h'' = Inr ()"
    by (simp add: evaluate_intent_def policy_lab_defaults_def is_address_def demo_crates_def demo_btc_def demo_server_def)
  have g: "spent_of Channels (from_constitution_caps 1000 1000) = 0"
    "consumed (from_constitution_caps 1000 1000) = {}" "reserved (from_constitution_caps 1000 1000) = []"
    by (simp_all add: from_constitution_caps_def spent_of_def)
  have "\<exists>r st. run_gate demo_crates demo_settle PhReserve ?i ?v = (Inr r, ?v\<lparr>vs_store := st\<rparr>)
      \<and> ''i1'' \<notin> consumed (pl_mem st) \<and> gr_intent_id r = ''i1''"
    using ev g
    by (simp add: run_gate_def gate_run_def gate_economy_def miners_open_def demo_server_def demo_world_def lab_world_def
        server_port_def quorum_port_def q_reserve_spend_def lab_store_def sw policy_of_def p gate_validator_def
        open_policy_def claim_verdict_def Let_def demo_settle_def demo_call_def put_reservation_def add_spend_def)
  then show ?thesis using b by (auto simp: maybe_reserve_intent_def maybe_intent_def)
qed

theorem committed_spend_lawful_witness:
  "\<exists>l body1 v'. v1_bitcoin_sign_psbt demo_crates demo_settle (Inr (demo_psbt True))
       (demo_server (demo_world l) (from_constitution_caps 1000 1000)) = ((200, body1), v') \<and> ''i1'' \<in> burned (vs_store v')"
proof -
  obtain l :: ledger_state where "l = l" by simp
  let ?v = "demo_server (demo_world l) (from_constitution_caps 1000 1000)"
  obtain r st where r: "maybe_reserve_intent demo_crates demo_settle ?v (Some ''i1'') (Some ''CHANNELS'') (Some ''pay'')
      (Some 600) False = (Inr r, ?v\<lparr>vs_store := st\<rparr>)" "''i1'' \<notin> consumed (pl_mem st)" "gr_intent_id r = ''i1''"
    using demo_reserve by blast
  obtain body1 v' where f: "psbt_finish demo_crates demo_settle (demo_psbt True) (Some demo_signer) ''i1'' (gr_bucket r)
      (gr_amount_sats r) (?v\<lparr>vs_store := st\<rparr>) = ((200, body1), v')"
    using demo_finish [of "?v\<lparr>vs_store := st\<rparr>" "demo_psbt True" "''i1''" "gr_bucket r" "gr_amount_sats r"] r(2)
    unfolding demo_server_def demo_psbt_def by force
  have id: "body_intent_id (demo_psbt True) = ''i1''" by (simp add: body_intent_id_def demo_psbt_def)
  have s: "psbt_signer Channels ?v = Inr (Some demo_signer)"
    by (simp add: psbt_signer_def assert_channels_taproot_bucket_def may_use_channels_taproot_key_def demo_server_def)
  have "v1_bitcoin_sign_psbt demo_crates demo_settle (Inr (demo_psbt True)) ?v = ((200, body1), v')"
    using r f s id demo_channels
    by (simp add: v1_bitcoin_sign_psbt_def demo_psbt_def dflt_def Let_def demo_server_def)
  then show ?thesis using committed_spend_lawful [of demo_crates demo_settle "demo_psbt True" ?v body1 v'] id
    by (auto simp: demo_psbt_def)
qed

text \<open>C28: A spend without a commit.  With \<open>commit_intent\<close> false the endpoint signs for any destination and
  any positive amount: all it asks of the ledger is some live reservation under the id, whatever its
  bucket and amount, and afterwards nothing is consumed and nothing counts as spent.\<close>

theorem uncommitted_spend_unbound:
  assumes "authorize_treasury_sign (vs_auth v) = Inr ()" "\<not> pb_commit q"
    and "bucket_parse (dflt ''USERS'' (pb_bucket q)) = Inr b"
    and "b = Users \<and> vs_users v = Some g \<or> b = Channels \<and> vs_channels v = Some g"
    and "bt_get (body_intent_id q) (reserved (sweep_expired (ca_secs c) (pl_mem (vs_store v)))) = Some (b', a', e')"
    and "pb_destination q = Some dest" "dest \<noteq> []" "pb_amount q = Some amt" "amt \<noteq> 0"
    and "validate_destination (bc_addr (cr_btc k)) (vs_network v) dest = Inr ()" "vs_threshold v \<le> vs_online v"
    and "sign_psbt (cr_tr k) (cr_btc k) (ca_sign c) g (vs_rotation v) (pb_session q) (pb_psbt q) dest amt (vs_anti v) = (Inr s, an)"
  shows "v1_bitcoin_sign_psbt k c (Inr q) v =
    ((200, signed_psbt_json s),
     v\<lparr>vs_anti := an, vs_store := (vs_store v)\<lparr>pl_mem := sweep_expired (ca_secs c) (pl_mem (vs_store v))\<rparr>\<rparr>)"
proof -
  have "psbt_signer b v = Inr (Some g)" using assms(4)
    by (auto simp: psbt_signer_def assert_channels_taproot_bucket_def may_use_channels_taproot_key_def
        assert_shared_taproot_bucket_def may_use_shared_taproot_key_def)
  then show ?thesis using assms
    by (simp add: v1_bitcoin_sign_psbt_def p_has_reservation_def has_reservation_def on_mem_def Let_def dflt_def psbt_finish_def)
qed

text \<open>A peer's soft prepare leaves a reservation of USERS and zero satoshis; it lets the CHANNELS key sign.\<close>

theorem uncommitted_spend_unbound_witness:
  "\<forall>l. \<exists>s an. let v = demo_server (demo_world l) (from_constitution_caps 1000 1000);
      v1 = snd (v1_intent_consume_prepare demo_settle 0 (Inr \<lparr>pr_session = [], pr_intent = ''i1'', pr_durable = False\<rparr>) v) in
    fst (v1_bitcoin_sign_psbt demo_crates demo_settle (Inr (demo_psbt False)) v1) = (200, signed_psbt_json s)
    \<and> bt_get ''i1'' (reserved (pl_mem (vs_store v1))) = Some (Users, 0, 300) \<and> spent_of Channels (pl_mem (vs_store v1)) = 0"
proof
  fix l
  let ?v = "demo_server (demo_world l) (from_constitution_caps 1000 1000)"
  let ?v1 = "snd (v1_intent_consume_prepare demo_settle 0 (Inr \<lparr>pr_session = [], pr_intent = ''i1'', pr_durable = False\<rparr>) ?v)"
  let ?g = "from_constitution_caps 1000 1000"
  have sw: "sweep_expired now ?g = ?g" for now by (simp add: sweep_expired_def from_constitution_caps_def)
  have lim: "\<exists>l1. limiter_check 0 ''a'' prepare_defaults = (Inr (), l1)"
    by (simp add: limiter_check_def prepare_defaults_def limiter_new_def Let_def)
  obtain l1 where l1: "limiter_check 0 ''a'' prepare_defaults = (Inr (), l1)" using lim by blast
  have g: "consumed ?g = {}" "reserved ?g = []" "spent_of Channels ?g = 0"
    by (simp_all add: from_constitution_caps_def spent_of_def)
  have v1: "?v1 = ?v\<lparr>vs_prepare := l1, vs_store := \<lparr>pl_log = [], pl_mem = put_reservation ''i1'' Users 0 300 ?g\<rparr>\<rparr>"
    using l1 g by (simp add: v1_intent_consume_prepare_def demo_server_def p_prepare_soft_def lab_store_def
        demo_settle_def sw Let_def reserve_ttl_def)
  have res: "reserved (put_reservation ''i1'' Users 0 300 ?g) = [(''i1'', Users, 0, 300)]" using g
    by (simp add: put_reservation_def)
  have sw1: "sweep_expired 0 (put_reservation ''i1'' Users 0 300 ?g) = put_reservation ''i1'' Users 0 300 ?g"
    unfolding sweep_expired_def res by simp
  have r: "bt_get (body_intent_id (demo_psbt False)) (reserved (sweep_expired (ca_secs demo_settle) (pl_mem (vs_store ?v1))))
      = Some (Users, 0, 300)"
    unfolding v1 by (simp add: demo_settle_def sw1 bt_get_put body_intent_id_def demo_psbt_def)
  have "''s1'' \<notin> an_used (an_open [])" by code_simp
  then obtain a1 where a1: "claim_and_day demo_call demo_rotation ''s1'' (an_open []) = (Inr (day_epoch_from_unix_secs 0), a1)"
    using demo_claim by blast
  obtain s where s: "sign_psbt_on cosign_demo_crypto demo_btc demo_call demo_signer (day_epoch_from_unix_secs 0)
      ''s1'' ''psbt'' ''pay'' 600 = Inr s"
    using demo_sign by blast
  have sg: "sign_psbt (cr_tr demo_crates) (cr_btc demo_crates) (ca_sign demo_settle) demo_signer (vs_rotation ?v1)
      (pb_session (demo_psbt False)) (pb_psbt (demo_psbt False)) ''pay'' 600 (vs_anti ?v1) = (Inr s, a1)"
    unfolding v1 using a1 s by (simp add: sign_psbt_def demo_crates_def demo_settle_def demo_psbt_def demo_server_def)
  have "v1_bitcoin_sign_psbt demo_crates demo_settle (Inr (demo_psbt False)) ?v1
    = ((200, signed_psbt_json s), ?v1\<lparr>vs_anti := a1,
         vs_store := (vs_store ?v1)\<lparr>pl_mem := sweep_expired (ca_secs demo_settle) (pl_mem (vs_store ?v1))\<rparr>\<rparr>)"
  proof (rule uncommitted_spend_unbound [OF _ _ _ _ r _ _ _ _ _ _ sg])
    show "authorize_treasury_sign (vs_auth ?v1) = Inr ()" unfolding v1 by (simp add: demo_server_def)
    show "\<not> pb_commit (demo_psbt False)" by (simp add: demo_psbt_def)
    show "bucket_parse (dflt ''USERS'' (pb_bucket (demo_psbt False))) = Inr Channels"
      using demo_channels by (simp add: demo_psbt_def dflt_def)
    show "Channels = Users \<and> vs_users ?v1 = Some demo_signer \<or> Channels = Channels \<and> vs_channels ?v1 = Some demo_signer"
      unfolding v1 by (simp add: demo_server_def)
    show "pb_destination (demo_psbt False) = Some ''pay''" "''pay'' \<noteq> []" "pb_amount (demo_psbt False) = Some 600"
      "(600::u64) \<noteq> 0" by (simp_all add: demo_psbt_def)
    show "validate_destination (bc_addr (cr_btc demo_crates)) (vs_network ?v1) ''pay'' = Inr ()"
      unfolding v1 using demo_destination by (simp add: demo_server_def demo_crates_def)
    show "vs_threshold ?v1 \<le> vs_online ?v1" unfolding v1 by (simp add: demo_server_def)
  qed
  moreover have "bt_get ''i1'' (reserved (pl_mem (vs_store ?v1))) = Some (Users, 0, 300)" unfolding v1 by (simp add: bt_get_put)
  moreover have "spent_of Channels (pl_mem (vs_store ?v1)) = 0"
    unfolding v1 using g by (simp add: put_reservation_def spent_of_def)
  ultimately show "\<exists>s an. let v = ?v; v1 = snd (v1_intent_consume_prepare demo_settle 0
      (Inr \<lparr>pr_session = [], pr_intent = ''i1'', pr_durable = False\<rparr>) v) in
    fst (v1_bitcoin_sign_psbt demo_crates demo_settle (Inr (demo_psbt False)) v1) = (200, signed_psbt_json s)
    \<and> bt_get ''i1'' (reserved (pl_mem (vs_store v1))) = Some (Users, 0, 300) \<and> spent_of Channels (pl_mem (vs_store v1)) = 0"
    by (simp add: Let_def) blast
qed

section \<open>Requests\<close>

definition intent_of_body :: "settle_crates \<Rightarrow> intent_body \<Rightarrow> vault_server \<Rightarrow> settlement_intent res" where
  "intent_of_body k q v =
     rbind (validate_destination (bc_addr (cr_btc k)) (vs_network v) (ib_destination q)) (\<lambda>_.
     rbind (bucket_parse (ib_bucket q)) (\<lambda>b.
       intent_new (ib_intent_id q) b (ib_destination q) (ib_amount q) (c_hash (l_constitution (w_ledger (vs_world v))))))"

lemma parse_with_intent:
  assumes "intent_of_body k q v = Inr i"
  shows "parse_settlement_intent k (Inr q) v = check_signatures k (pq_required (l_constitution (w_ledger (vs_world v)))) q i"
  using assms by (auto simp: intent_of_body_def parse_settlement_intent_def rbind_Inr_iff Let_def)

text \<open>C23: A short signature kills the request.  An intent whose Ed25519 signature decodes to fewer than 64
  bytes makes both intent endpoints panic instead of answering; with a constitution that requires
  post-quantum signatures that includes every intent that carries no signature at all.\<close>

theorem short_signature_panics:
  assumes "intent_of_body k q v = Inr i"
    and "ib_ed25519 q \<noteq> None \<or> ib_ml_dsa q \<noteq> None \<or> pq_required (l_constitution (w_ledger (vs_world v)))"
    and "hex_decode (dflt [] (ib_ed25519 q)) = Some ed" "length ed < 64"
    and "hex_decode (dflt [] (ib_ml_dsa q)) \<noteq> None"
  shows "v1_intent k c (Inr q) v = (None, v) \<and> v1_intent_reserve k c (Inr q) v = (None, v)"
proof -
  have "parse_settlement_intent k (Inr q) v = Panicked"
    unfolding parse_with_intent [OF assms(1)] using assms(2-5) by (auto simp: check_signatures_def Let_def)
  then show ?thesis by (simp add: v1_intent_def v1_intent_reserve_def intent_endpoint_def)
qed

definition demo_intent_body :: "string option \<Rightarrow> string option \<Rightarrow> intent_body" where
  "demo_intent_body ed ml =
     \<lparr>ib_intent_id = ''i1'', ib_bucket = ''CHANNELS'', ib_destination = ''pay'', ib_amount = 600,
      ib_ed25519 = ed, ib_ml_dsa = ml, ib_ed25519_key = None, ib_ml_dsa_key = None\<rparr>"

definition demo_pq_world :: "ledger_state \<Rightarrow> world" where
  "demo_pq_world l = lab_world (l\<lparr>l_constitution := (l_constitution l)\<lparr>c_hash := ''h'', c_downgrade := downgrade_default\<rparr>\<rparr>)"

lemma demo_pq: "pq_required (l_constitution (w_ledger (vs_world (demo_server (demo_pq_world l) g))))"
  by (simp add: pq_required_def demo_server_def demo_pq_world_def lab_world_def downgrade_default_def)

lemma demo_pq_intent:
  "intent_of_body demo_crates (demo_intent_body ed ml) (demo_server (demo_pq_world l) g) =
     Inr \<lparr>intent_id = ''i1'', si_bucket = Channels, destination = ''pay'', amount_sats = 600, policy_hash = ''h''\<rparr>"
proof -
  have "intent_new ''i1'' Channels ''pay'' 600 ''h'' =
    Inr \<lparr>intent_id = ''i1'', si_bucket = Channels, destination = ''pay'', amount_sats = 600, policy_hash = ''h''\<rparr>"
    by code_simp
  then show ?thesis using demo_destination demo_channels
    by (simp add: intent_of_body_def demo_intent_body_def demo_server_def demo_pq_world_def lab_world_def demo_crates_def)
qed

theorem short_signature_panics_witness:
  "\<forall>l. v1_intent demo_crates demo_settle (Inr (demo_intent_body None None))
     (demo_server (demo_pq_world l) (from_constitution_caps 1000 1000))
   = (None, demo_server (demo_pq_world l) (from_constitution_caps 1000 1000))"
proof
  fix l
  have "hex_decode (dflt [] (ib_ed25519 (demo_intent_body None None))) = Some []"
    "hex_decode (dflt [] (ib_ml_dsa (demo_intent_body None None))) \<noteq> None"
    by code_simp+
  then show "v1_intent demo_crates demo_settle (Inr (demo_intent_body None None))
     (demo_server (demo_pq_world l) (from_constitution_caps 1000 1000))
   = (None, demo_server (demo_pq_world l) (from_constitution_caps 1000 1000))"
    using short_signature_panics [OF demo_pq_intent, where ed = "[]" and c = demo_settle]
      demo_pq by auto
qed

text \<open>What the hybrid signatures of an intent are checked for.  Where the constitution requires both,
  a request passes exactly when the first decodes to 64 bytes that are not all zero, the second to a
  non-empty value and the hash of the intent is not all zero: no key is looked up and nothing is verified.\<close>

theorem hybrid_signature_accept_iff:
  assumes "intent_of_body k q v = Inr i" "pq_required (l_constitution (w_ledger (vs_world v)))"
  shows "(\<exists>sig. parse_settlement_intent k (Inr q) v = Parsed (i, Some sig)) \<longleftrightarrow>
    (\<exists>ed mb. hex_decode (dflt [] (ib_ed25519 q)) = Some ed \<and> length ed = 64
      \<and> map of_char ed \<noteq> (replicate 64 0 :: u8 list)
      \<and> hex_decode (dflt [] (ib_ml_dsa q)) = Some mb \<and> mb \<noteq> []
      \<and> cr_sha3 k (canonical_text i) \<noteq> replicate 48 0)"
proof -
  have "hex_decode [] = Some []" by simp
  then show ?thesis unfolding parse_with_intent [OF assms(1)] using assms(2)
    by (auto simp: check_signatures_def validate_stub_def Let_def split: option.splits if_splits)
qed

theorem hybrid_signature_accept_iff_witness:
  "\<forall>l. \<exists>sig. parse_settlement_intent demo_crates
     (Inr (demo_intent_body (Some (concat (replicate 64 ''41''))) (Some ''00''))) (demo_server (demo_pq_world l) g)
     = Parsed (\<lparr>intent_id = ''i1'', si_bucket = Channels, destination = ''pay'', amount_sats = 600, policy_hash = ''h''\<rparr>, Some sig)"
proof
  fix l
  let ?q = "demo_intent_body (Some (concat (replicate 64 ''41''))) (Some ''00'')"
  have d: "hex_decode (dflt [] (ib_ed25519 ?q)) = Some (replicate 64 (CHR ''A''))"
    "hex_decode (dflt [] (ib_ml_dsa ?q)) = Some [CHR 0x00]"
    by code_simp+
  have "map of_char (replicate 64 (CHR ''A'')) \<noteq> (replicate 64 0 :: u8 list)" by code_simp
  moreover have "cr_sha3 demo_crates i \<noteq> replicate 48 0" for i by (simp add: demo_crates_def numeral_eq_Suc)
  ultimately show "\<exists>sig. parse_settlement_intent demo_crates (Inr ?q) (demo_server (demo_pq_world l) g)
     = Parsed (\<lparr>intent_id = ''i1'', si_bucket = Channels, destination = ''pay'', amount_sats = 600, policy_hash = ''h''\<rparr>, Some sig)"
    using hybrid_signature_accept_iff [OF demo_pq_intent demo_pq, of "Some (concat (replicate 64 ''41''))" "Some ''00''" l g] d
    by auto
qed

text \<open>A release nobody reserved.  The release endpoint answers success for an id it does not know and
  takes the amount the caller names off the day's spend, so that a caller can set the spend that the
  daily cap is checked against back to zero while every consumed intent stays consumed.\<close>

theorem release_resets_daily_spend:
  assumes "bucket_parse (rb_bucket q) = Inr b" "bt_get (rb_intent_id q) (reserved (pl_mem (vs_store v))) = None"
    and "spent_of b (pl_mem (vs_store v)) \<le> rb_amount q"
  shows "fst (fst (v1_intent_release c (Inr q) v)) = 200
    \<and> spent_of b (pl_mem (vs_store (snd (v1_intent_release c (Inr q) v)))) = 0
    \<and> consumed (pl_mem (vs_store (snd (v1_intent_release c (Inr q) v)))) = consumed (pl_mem (vs_store v))"
  using assms
  by (auto simp: v1_intent_release_def gate_release_def server_port_def quorum_port_def p_release_reservation_def
      release_reservation_def on_mem_def reply_of_def roll_back_def spent_of_def sat_sub_def split: option.splits)

theorem release_resets_daily_spend_witness:
  "\<forall>l. spent_of Users (pl_mem (vs_store (demo_server (demo_world l) (late_state 60 {''i1''} [])))) = 60
    \<and> spent_of Users (pl_mem (vs_store (snd (v1_intent_release demo_settle
        (Inr \<lparr>rb_intent_id = ''x'', rb_bucket = ''USERS'', rb_amount = 1000\<rparr>)
        (demo_server (demo_world l) (late_state 60 {''i1''} [])))))) = 0"
proof
  fix l
  let ?v = "demo_server (demo_world l) (late_state 60 {''i1''} [])"
  let ?q = "\<lparr>rb_intent_id = ''x'', rb_bucket = ''USERS'', rb_amount = 1000\<rparr>"
  have "bucket_parse (rb_bucket ?q) = Inr Users" by code_simp
  moreover have "bt_get (rb_intent_id ?q) (reserved (pl_mem (vs_store ?v))) = None"
    by (simp add: demo_server_def lab_store_def late_state_def)
  moreover have s: "spent_of Users (pl_mem (vs_store ?v)) = 60"
    by (simp add: demo_server_def lab_store_def late_state_def spent_of_def)
  ultimately show "spent_of Users (pl_mem (vs_store ?v)) = 60
    \<and> spent_of Users (pl_mem (vs_store (snd (v1_intent_release demo_settle (Inr ?q) ?v)))) = 0"
    using release_resets_daily_spend [of ?q Users ?v demo_settle] by simp
qed

end
