(* ===== verification/ShareStore.thy ===== *)
theory ShareStore
  imports Cosign Constitution Durable
begin

text \<open>
  The sealed share stores: AEAD files (\<open>adapters/share_aead.rs\<close>), TEE envelopes
  (\<open>adapters/share_tee.rs\<close>), and the Taproot key material kept in them (\<open>persist_tr_shares\<close> and
  \<open>load_tr_shares\<close> of \<open>adapters/frost_tr_bitcoin.rs\<close>).  A disk maps paths to bytes; Argon2id,
  ChaCha20-Poly1305 and SHA-256 are the record \<open>seal_crate\<close>; fresh salts and nonces are arguments.
\<close>

unbundle bit_operations_syntax

section \<open>Disk and primitives\<close>

type_synonym disk = "string \<Rightarrow> string option"

record seal_crate =
  sc_argon :: "string \<Rightarrow> string \<Rightarrow> string"
  sc_seal :: "string \<Rightarrow> string \<Rightarrow> string \<Rightarrow> string \<Rightarrow> string"
  sc_unseal :: "string \<Rightarrow> string \<Rightarrow> string \<Rightarrow> string \<Rightarrow> string option"
  sc_sha256 :: "string \<Rightarrow> string"

text \<open>What the AEAD promises: it opens what it sealed, under the same key, nonce and associated data only;
  a sealed message carries a tag of 16 bytes.\<close>

definition aead_correct :: "seal_crate \<Rightarrow> bool" where
  "aead_correct c = (\<forall>k n a m. sc_unseal c k n a (sc_seal c k n a m) = Some m \<and> 16 \<le> length (sc_seal c k n a m))"

definition aead_authentic :: "seal_crate \<Rightarrow> bool" where
  "aead_authentic c = (\<forall>k n a b m. a \<noteq> b \<longrightarrow> sc_unseal c k n b (sc_seal c k n a m) = None)"

definition forbidden :: "string \<Rightarrow> 'a res" where
  "forbidden e = Inl (ShareStoreForbidden e)"

definition put_file :: "write_outcome \<Rightarrow> string \<Rightarrow> string \<Rightarrow> disk \<Rightarrow> unit res \<times> disk" where
  "put_file w path bytes d =
     (case w of
        WriteOk \<Rightarrow> (Inr (), d(path \<mapsto> bytes))
      | WriteFailed e \<Rightarrow> (forbidden e, d)
      | WriteUnsynced e \<Rightarrow> (forbidden e, d(path \<mapsto> bytes)))"


section \<open>Seeds\<close>

datatype seed_kind = SeedFrostTr | SeedFrostIntent | SeedEd25519 | SeedMlDsa65 | SeedX25519 | SeedMlKem768

fun seed_label :: "seed_kind \<Rightarrow> string" where
  "seed_label SeedFrostTr = ''frost-tr''"
| "seed_label SeedFrostIntent = ''frost-intent''"
| "seed_label SeedEd25519 = ''ed25519''"
| "seed_label SeedMlDsa65 = ''ml-dsa65''"
| "seed_label SeedX25519 = ''x25519''"
| "seed_label SeedMlKem768 = ''ml-kem768''"

definition build_seed_share_id :: "seed_kind \<Rightarrow> string \<Rightarrow> string" where
  "build_seed_share_id k node = ''identity/'' @ seed_label k @ ''/'' @ node"

text \<open>The epoch in eight bytes, the lowest first.\<close>

definition le_bytes :: "u64 \<Rightarrow> string" where
  "le_bytes w = map (\<lambda>n. chr (unat (drop_bit (8 * n) w AND 0xff))) [0..<8]"

definition build_seed_aad :: "string \<Rightarrow> string \<Rightarrow> u64 \<Rightarrow> string" where
  "build_seed_aad i node ep =
     ''kerosene-vault-seed-aad-v1|'' @ i @ ''|'' @ node @ ''|'' @ le_bytes ep"


section \<open>AEAD files\<close>

record aead_store =
  ad_root :: string
  ad_pass :: string
  ad_tpm :: bool

definition aead_kind :: "aead_store \<Rightarrow> string" where
  "aead_kind s = (if ad_tpm s then ''aead_disk_tpm'' else ''aead_disk'')"

definition aead_path :: "seal_crate \<Rightarrow> aead_store \<Rightarrow> string \<Rightarrow> string" where
  "aead_path c s i = ad_root s @ ''/share-'' @ hex_encode (sc_sha256 c i) @ ''.bin''"

definition aead_aad :: "string \<Rightarrow> string" where
  "aead_aad i = ''kerosene-vault-share-aead-v1|'' @ i"

definition aead_put ::
  "seal_crate \<Rightarrow> aead_store \<Rightarrow> string \<Rightarrow> string \<Rightarrow> write_outcome \<Rightarrow> string \<Rightarrow> string \<Rightarrow> disk \<Rightarrow> unit res \<times> disk" where
  "aead_put c s salt nonce w i plain d =
     put_file w (aead_path c s i)
       (salt @ nonce @ sc_seal c (sc_argon c (ad_pass s) salt) nonce (aead_aad i) plain) d"

definition aead_get :: "seal_crate \<Rightarrow> aead_store \<Rightarrow> string \<Rightarrow> string \<Rightarrow> disk \<Rightarrow> string res" where
  "aead_get c s why i d =
     (case d (aead_path c s i) of
        None \<Rightarrow> forbidden (''read share: '' @ why)
      | Some bytes \<Rightarrow>
          if length bytes < 16 + 12 + 16 then forbidden ''share blob too short''
          else
            let salt = take 16 bytes; nonce = take 12 (drop 16 bytes); ct = drop 28 bytes in
            (case sc_unseal c (sc_argon c (ad_pass s) salt) nonce (aead_aad i) ct of
               None \<Rightarrow> forbidden ''decrypt failed''
             | Some m \<Rightarrow> Inr m))"


section \<open>TEE envelopes\<close>

datatype seal_backend = FailClosed | StagingStub string | HwSeal attestation_mode

text \<open>\<open>te_attest\<close> is what issuing and verifying a quote gives, if an adapter is attached; the two build
  features decide which envelopes exist.\<close>

record tee_store =
  te_root :: string
  te_backend :: seal_backend
  te_measurement :: string
  te_attest :: "unit res option"
  te_production :: bool
  te_hw :: bool

definition tee_fail_closed :: "string \<Rightarrow> bool \<Rightarrow> bool \<Rightarrow> tee_store" where
  "tee_fail_closed m release hw =
     \<lparr>te_root = ''/dev/null'', te_backend = FailClosed, te_measurement = m, te_attest = None,
      te_production = release, te_hw = hw\<rparr>"

definition tee_staging_stub :: "string \<Rightarrow> string \<Rightarrow> string \<Rightarrow> bool \<Rightarrow> tee_store" where
  "tee_staging_stub root pass m hw =
     \<lparr>te_root = root, te_backend = StagingStub pass, te_measurement = m, te_attest = None,
      te_production = False, te_hw = hw\<rparr>"

definition tee_hw_store :: "string \<Rightarrow> attestation_mode \<Rightarrow> string \<Rightarrow> unit res \<Rightarrow> bool \<Rightarrow> tee_store res" where
  "tee_hw_store root p m att release =
     (if p \<noteq> AttSev \<and> p \<noteq> AttSgx then Inl (TeeRequired ''tee_hw seal requires ATTESTATION_MODE=sev|sgx'')
      else Inr \<lparr>te_root = root, te_backend = HwSeal p, te_measurement = m, te_attest = Some att,
                te_production = release, te_hw = True\<rparr>)"

definition with_attestation :: "unit res \<Rightarrow> tee_store \<Rightarrow> tee_store" where
  "with_attestation att s = s\<lparr>te_attest := Some att\<rparr>"

definition tee_kind :: "tee_store \<Rightarrow> string" where
  "tee_kind s =
     (case te_backend s of
        FailClosed \<Rightarrow> ''tee_seal''
      | StagingStub p \<Rightarrow> ''tee_seal_staging_stub''
      | HwSeal AttSev \<Rightarrow> ''tee_seal_hw_sev''
      | HwSeal AttSgx \<Rightarrow> ''tee_seal_hw_sgx''
      | HwSeal q \<Rightarrow> ''tee_seal'')"

definition tee_path :: "seal_crate \<Rightarrow> tee_store \<Rightarrow> string \<Rightarrow> string" where
  "tee_path c s i = te_root s @ ''/tee-share-'' @ hex_encode (sc_sha256 c i) @ ''.seal''"

definition require_attestation_ok :: "tee_store \<Rightarrow> unit res" where
  "require_attestation_ok s =
     (case te_attest s of None \<Rightarrow> Inl (TeeRequired ''attestation required before TEE unseal'') | Some r \<Rightarrow> r)"

definition derive_stub_key :: "seal_crate \<Rightarrow> tee_store \<Rightarrow> string \<Rightarrow> string \<Rightarrow> string" where
  "derive_stub_key c s pass salt = sc_argon c (pass @ te_measurement s) salt"

definition mix_seal_key :: "seal_crate \<Rightarrow> string \<Rightarrow> string \<Rightarrow> string \<Rightarrow> string" where
  "mix_seal_key c root salt m = sc_sha256 c (''KVSEAL01/v1/seal-key'' @ root @ salt @ m)"

text \<open>The root key of the platform: what the SEV-SNP device answers, never for the others.\<close>

definition derive_hw_root :: "string res \<Rightarrow> attestation_mode \<Rightarrow> string res" where
  "derive_hw_root dev p =
     (case p of
        AttSev \<Rightarrow> dev
      | AttSgx \<Rightarrow> Inl (TeeRequired
          ''SGX seal unavailable on host path (enclave sgx_seal_data SDK required; fail-closed)'')
      | q \<Rightarrow> Inl (TeeRequired ''software/sim attestation cannot derive HW seal keys''))"

definition magic :: string where
  "magic = ''KVSEAL01''"

definition pack_envelope :: "nat \<Rightarrow> string \<Rightarrow> string \<Rightarrow> string \<Rightarrow> string" where
  "pack_envelope mode salt nonce ct = magic @ [chr 1, chr mode] @ salt @ nonce @ ct"

definition parse_envelope :: "string \<Rightarrow> (nat \<times> string \<times> string \<times> string) res" where
  "parse_envelope blob =
     (if length blob < 8 + 1 + 1 + 16 + 12 + 16 then forbidden ''tee seal envelope too short''
      else if take 8 blob \<noteq> magic then forbidden ''tee seal magic mismatch''
      else if code (blob ! 8) \<noteq> 1 then forbidden (''unsupported tee seal version '' @ dec (code (blob ! 8)))
      else Inr (code (blob ! 9), take 16 (drop 10 blob), take 12 (drop 26 blob), drop 38 blob))"

definition hw_mode :: "attestation_mode \<Rightarrow> nat res" where
  "hw_mode p =
     (case p of AttSev \<Rightarrow> Inr 2 | AttSgx \<Rightarrow> Inr 3
      | q \<Rightarrow> Inl (TeeRequired ''software/sim cannot produce HW seal envelopes''))"

definition no_tee :: string where
  "no_tee = ''TEE seal path not available; host disk AEAD is lab-only (production fail-closed)''"

definition seal_envelope ::
  "seal_crate \<Rightarrow> string res \<Rightarrow> tee_store \<Rightarrow> string \<Rightarrow> string \<Rightarrow> string \<Rightarrow> string res" where
  "seal_envelope c dev s salt nonce plain =
     (case te_backend s of
        FailClosed \<Rightarrow> Inl (TeeRequired no_tee)
      | StagingStub pass \<Rightarrow>
          Inr (pack_envelope 1 salt nonce (sc_seal c (derive_stub_key c s pass salt) nonce [] plain))
      | HwSeal p \<Rightarrow>
          rbind (derive_hw_root dev p) (\<lambda>root.
          rbind (hw_mode p) (\<lambda>mode.
            Inr (pack_envelope mode salt nonce
              (sc_seal c (mix_seal_key c root salt (te_measurement s)) nonce [] plain)))))"

definition tee_decrypt :: "seal_crate \<Rightarrow> string \<Rightarrow> string \<Rightarrow> string \<Rightarrow> string res" where
  "tee_decrypt c k nonce ct =
     (case sc_unseal c k nonce [] ct of Some m \<Rightarrow> Inr m | None \<Rightarrow> forbidden ''tee decrypt failed'')"

definition unseal_envelope :: "seal_crate \<Rightarrow> string res \<Rightarrow> tee_store \<Rightarrow> string \<Rightarrow> string res" where
  "unseal_envelope c dev s blob =
     rbind (parse_envelope blob) (\<lambda>(mode, salt, nonce, ct).
       if mode = 1 then
         if te_production s then Inl (TeeRequired ''staging-stub envelope refused under production feature'')
         else case te_backend s of
           StagingStub pass \<Rightarrow> tee_decrypt c (derive_stub_key c s pass salt) nonce ct
         | other \<Rightarrow> Inl (TeeRequired ''staging-stub envelope refused without ATTESTATION_STAGING_STUB'')
       else if mode = 2 \<or> mode = 3 then
         if \<not> te_hw s then Inl (TeeRequired ''HW TEE unseal requires --features tee_hw'')
         else case te_backend s of
           HwSeal p \<Rightarrow>
             if p \<noteq> (if mode = 2 then AttSev else AttSgx)
             then forbidden (''tee seal mode '' @ dec mode @ '' does not match platform '' @ attestation_str p)
             else rbind (derive_hw_root dev p) (\<lambda>root.
               tee_decrypt c (mix_seal_key c root salt (te_measurement s)) nonce ct)
         | other \<Rightarrow> Inl (TeeRequired ''HW TEE envelope refused without tee_hw HW backend'')
       else forbidden (''unknown tee seal mode '' @ dec mode))"

definition tee_put ::
  "seal_crate \<Rightarrow> string res \<Rightarrow> tee_store \<Rightarrow> string \<Rightarrow> string \<Rightarrow> write_outcome \<Rightarrow> string \<Rightarrow> string \<Rightarrow> disk \<Rightarrow> unit res \<times> disk" where
  "tee_put c dev s salt nonce w i plain d =
     (case rbind (case te_backend s of
                    FailClosed \<Rightarrow> Inl (TeeRequired no_tee)
                  | StagingStub p \<Rightarrow> if te_attest s = None then Inr () else require_attestation_ok s
                  | HwSeal p \<Rightarrow> require_attestation_ok s)
             (\<lambda>_. seal_envelope c dev s salt nonce plain) of
        Inl e \<Rightarrow> (Inl e, d)
      | Inr sealed \<Rightarrow> put_file w (tee_path c s i) sealed d)"

definition tee_get :: "seal_crate \<Rightarrow> string res \<Rightarrow> tee_store \<Rightarrow> string \<Rightarrow> string \<Rightarrow> disk \<Rightarrow> string res" where
  "tee_get c dev s why i d =
     (if te_backend s = FailClosed
      then Inl (TeeRequired ''TEE unseal path not available; host disk AEAD is lab-only (production fail-closed)'')
      else rbind (require_attestation_ok s) (\<lambda>_.
        case d (tee_path c s i) of
          None \<Rightarrow> forbidden (''tee seal read: '' @ why)
        | Some bytes \<Rightarrow> unseal_envelope c dev s bytes))"

section \<open>Taproot key material\<close>

text \<open>A store as its clients see it: \<open>put n i x\<close> is the \<open>n\<close>-th write of a run.\<close>

record 's share_port =
  sp_put :: "nat \<Rightarrow> string \<Rightarrow> string \<Rightarrow> 's \<Rightarrow> unit res \<times> 's"
  sp_get :: "string \<Rightarrow> 's \<Rightarrow> string res"

definition aead_port ::
  "seal_crate \<Rightarrow> aead_store \<Rightarrow> (nat \<Rightarrow> string \<times> string \<times> write_outcome) \<Rightarrow> string \<Rightarrow> disk share_port" where
  "aead_port c s fresh why =
     \<lparr>sp_put = (\<lambda>n i x d. case fresh n of (salt, nonce, w) \<Rightarrow> aead_put c s salt nonce w i x d),
      sp_get = aead_get c s why\<rparr>"

definition tee_port ::
  "seal_crate \<Rightarrow> string res \<Rightarrow> tee_store \<Rightarrow> (nat \<Rightarrow> string \<times> string \<times> write_outcome) \<Rightarrow> string \<Rightarrow> disk share_port" where
  "tee_port c dev s fresh why =
     \<lparr>sp_put = (\<lambda>n i x d. case fresh n of (salt, nonce, w) \<Rightarrow> tee_put c dev s salt nonce w i x d),
      sp_get = tee_get c dev s why\<rparr>"

fun put_all :: "'s share_port \<Rightarrow> nat \<Rightarrow> (string \<times> string) list \<Rightarrow> 's \<Rightarrow> unit res \<times> 's" where
  "put_all port n [] s = (Inr (), s)"
| "put_all port n ((i, x) # xs) s =
     (case sp_put port n i x s of
        (Inl e, s1) \<Rightarrow> (Inl e, s1)
      | (Inr _, s1) \<Rightarrow> put_all port (n + 1) xs s1)"

text \<open>The names of one keyset: USERS, or the dedicated CHANNELS key.\<close>

record tr_names =
  tn_label :: string
  tn_short :: string

definition users_names :: tr_names where
  "users_names = \<lparr>tn_label = ''frost-tr'', tn_short = ''tr''\<rparr>"

definition channels_names :: tr_names where
  "channels_names = \<lparr>tn_label = ''frost-tr-channels'', tn_short = ''tr-ch''\<rparr>"

definition key_name :: "tr_names \<Rightarrow> string \<Rightarrow> string" where
  "key_name n h = tn_label n @ ''-dkg-id-'' @ h"

definition tr_files :: "tr_names \<Rightarrow> tr_share_state \<Rightarrow> (string \<times> string) list" where
  "tr_files n s =
     map (\<lambda>(i, kp). (key_name n (hex_encode i), kp)) (tr_key_packages s)
     @ [(tn_label n @ ''-dkg-pubkey'', tr_pubkey s),
        (tn_label n @ ''-roster'', join_with '','' (map hex_encode (bt_keys (tr_key_packages s)))),
        (tn_label n @ ''-min-signers'', dec (tr_min_signers s))]"

definition persist_tr_shares :: "tr_names \<Rightarrow> 's share_port \<Rightarrow> tr_share_state \<Rightarrow> 's \<Rightarrow> unit res \<times> 's" where
  "persist_tr_shares n port s st = put_all port 0 (tr_files n s) st"

text \<open>\<open>utf8\<close> is \<open>String::from_utf8(..).is_ok()\<close>; the deserializers of the two packages give the canonical
  bytes.\<close>

record package_crate =
  pk_utf8 :: "string \<Rightarrow> bool"
  pk_key :: "string \<Rightarrow> string option"
  pk_pub :: "string \<Rightarrow> string option"

fun load_keys ::
  "tr_crypto \<Rightarrow> package_crate \<Rightarrow> tr_names \<Rightarrow> 's share_port \<Rightarrow> 's \<Rightarrow> string list \<Rightarrow> string btmap \<Rightarrow> string btmap res" where
  "load_keys k c n port st [] m = Inr m"
| "load_keys k c n port st (h # hs) m =
     (case hex_decode h of
        None \<Rightarrow> forbidden (tn_label n @ '' roster id hex: '' @ tc_why k)
      | Some ib \<Rightarrow>
          rbind (of_crate k (tn_short n @ '' identifier deserialize: '') (tc_identifier k ib)) (\<lambda>i.
          rbind (sp_get port (key_name n h) st) (\<lambda>b.
          rbind (of_crate k (tn_short n @ '' key package deserialize: '') (pk_key c b)) (\<lambda>kp.
            load_keys k c n port st hs (bt_put i kp m)))))"

definition load_tr_shares ::
  "tr_crypto \<Rightarrow> package_crate \<Rightarrow> tr_names \<Rightarrow> 's share_port \<Rightarrow> 's \<Rightarrow> tr_share_state res" where
  "load_tr_shares k c n port st =
     rbind (sp_get port (tn_label n @ ''-roster'') st) (\<lambda>roster.
       if \<not> pk_utf8 c roster then forbidden (tn_label n @ '' roster is not utf8'')
       else
         rbind (sp_get port (tn_label n @ ''-min-signers'') st) (\<lambda>raw.
         case (if pk_utf8 c raw then parse_uint (2 ^ 64 - 1) (trim raw) else None) of
           None \<Rightarrow> forbidden (tn_label n @ '' min_signers corrupt'')
         | Some min1 \<Rightarrow>
             rbind (sp_get port (tn_label n @ ''-dkg-pubkey'') st) (\<lambda>pb.
             rbind (of_crate k (tn_short n @ '' pubkey package deserialize: '') (pk_pub c pb)) (\<lambda>pub.
             rbind (load_keys k c n port st (filter (\<lambda>h. h \<noteq> []) (split_on (CHR '','') roster)) []) (\<lambda>m.
               if m = [] then forbidden (tn_label n @ '' roster empty'')
               else Inr \<lparr>tr_key_packages = m, tr_pubkey = pub, tr_min_signers = min1\<rparr>)))))"

section \<open>What a store gives back\<close>

text \<open>On the share ids \<open>I\<close>: a successful write is read back, and touches no other share.\<close>

definition share_laws :: "'s share_port \<Rightarrow> string set \<Rightarrow> bool" where
  "share_laws port I =
     (\<forall>n i x s s'. i \<in> I \<longrightarrow> sp_put port n i x s = (Inr (), s') \<longrightarrow>
        sp_get port i s' = Inr x \<and> (\<forall>j\<in>I. j \<noteq> i \<longrightarrow> sp_get port j s' = sp_get port j s))"

definition fresh_ok :: "(nat \<Rightarrow> string \<times> string \<times> write_outcome) \<Rightarrow> bool" where
  "fresh_ok fresh = (\<forall>n. length (fst (fresh n)) = 16 \<and> length (fst (snd (fresh n))) = 12)"

lemma put_file_ok: "put_file w p b d = (Inr u, d') \<Longrightarrow> d' = d(p \<mapsto> b)"
  by (simp add: put_file_def forbidden_def split: write_outcome.splits)

lemma aead_path_inj:
  "inj_on (sc_sha256 c) I \<Longrightarrow> i \<in> I \<Longrightarrow> j \<in> I \<Longrightarrow> i \<noteq> j \<Longrightarrow> aead_path c s i \<noteq> aead_path c s j"
  by (auto simp: aead_path_def hex_encode_inj dest: inj_onD)

lemma tee_path_inj:
  "inj_on (sc_sha256 c) I \<Longrightarrow> i \<in> I \<Longrightarrow> j \<in> I \<Longrightarrow> i \<noteq> j \<Longrightarrow> tee_path c s i \<noteq> tee_path c s j"
  by (auto simp: tee_path_def hex_encode_inj dest: inj_onD)

lemma aead_laws:
  assumes "aead_correct c" "fresh_ok fresh" "inj_on (sc_sha256 c) I"
  shows "share_laws (aead_port c s fresh why) I"
  unfolding share_laws_def
proof (intro allI impI)
  fix n i x and d d' :: disk
  assume i: "i \<in> I" and p: "sp_put (aead_port c s fresh why) n i x d = (Inr (), d')"
  obtain salt nonce w where f: "fresh n = (salt, nonce, w)" by (cases "fresh n") auto
  have l: "length salt = 16" "length nonce = 12"
    using assms(2) f unfolding fresh_ok_def by (metis fst_conv snd_conv)+
  let ?ct = "sc_seal c (sc_argon c (ad_pass s) salt) nonce (aead_aad i) x"
  have d': "d' = d(aead_path c s i \<mapsto> salt @ nonce @ ?ct)"
    using p put_file_ok by (auto simp: aead_port_def f aead_put_def)
  have ct: "16 \<le> length ?ct" "sc_unseal c (sc_argon c (ad_pass s) salt) nonce (aead_aad i) ?ct = Some x"
    using assms(1) by (auto simp: aead_correct_def)
  have "aead_get c s why i d' = Inr x"
    using l ct by (simp add: aead_get_def d' Let_def)
  moreover have "aead_get c s why j d' = aead_get c s why j d" if "j \<in> I" "j \<noteq> i" for j
    using aead_path_inj [OF assms(3) that(1) i that(2)] by (simp add: aead_get_def d')
  ultimately show "sp_get (aead_port c s fresh why) i d' = Inr x
      \<and> (\<forall>j\<in>I. j \<noteq> i \<longrightarrow> sp_get (aead_port c s fresh why) j d' = sp_get (aead_port c s fresh why) j d)"
    by (simp add: aead_port_def)
qed

text \<open>A stub exists only without the production feature, a hardware store only with \<open>tee_hw\<close>.\<close>

definition tee_built :: "tee_store \<Rightarrow> bool" where
  "tee_built s = (case te_backend s of FailClosed \<Rightarrow> True | StagingStub p \<Rightarrow> \<not> te_production s | HwSeal p \<Rightarrow> te_hw s)"

lemma parse_pack:
  assumes "length salt = 16" "length nonce = 12" "16 \<le> length ct" "mode < 256"
  shows "parse_envelope (pack_envelope mode salt nonce ct) = Inr (mode, salt, nonce, ct)"
  using assms by (simp add: parse_envelope_def pack_envelope_def magic_def code_chr nth_append take_Cons' drop_Cons' numeral_eq_Suc)

lemma unseal_seal:
  assumes "aead_correct c" "tee_built s" "length salt = 16" "length nonce = 12"
    and "seal_envelope c dev s salt nonce x = Inr b"
  shows "unseal_envelope c dev s b = Inr x"
proof -
  have ct: "16 \<le> length (sc_seal c k n a m)" "sc_unseal c k n a (sc_seal c k n a m) = Some m" for k n a m
    using assms(1) by (auto simp: aead_correct_def)
  show ?thesis
  proof (cases "te_backend s")
    case FailClosed
    then show ?thesis using assms(5) by (simp add: seal_envelope_def)
  next
    case (StagingStub pass)
    then have "b = pack_envelope 1 salt nonce (sc_seal c (derive_stub_key c s pass salt) nonce [] x)"
      using assms(5) by (simp add: seal_envelope_def)
    then show ?thesis using parse_pack [OF assms(3,4) ct(1), of 1] StagingStub assms(2) ct(2)
      by (simp add: unseal_envelope_def tee_decrypt_def tee_built_def)
  next
    case (HwSeal p)
    then obtain root mode where r: "derive_hw_root dev p = Inr root" "hw_mode p = Inr mode"
        "b = pack_envelope mode salt nonce (sc_seal c (mix_seal_key c root salt (te_measurement s)) nonce [] x)"
      using assms(5) by (auto simp: seal_envelope_def rbind_Inr_iff)
    then have "mode = 2 \<and> p = AttSev \<or> mode = 3 \<and> p = AttSgx" by (cases p) (auto simp: hw_mode_def)
    then show ?thesis using parse_pack [OF assms(3,4) ct(1), of mode] HwSeal assms(2) ct(2) r(1,3)
      by (auto simp: unseal_envelope_def tee_decrypt_def tee_built_def)
  qed
qed

lemma tee_put_ok:
  assumes "tee_put c dev s salt nonce w i x d = (Inr u, d')"
  shows "te_backend s \<noteq> FailClosed \<and> (\<exists>b. seal_envelope c dev s salt nonce x = Inr b \<and> d' = d(tee_path c s i \<mapsto> b))"
proof -
  obtain b where b: "rbind (case te_backend s of
                    FailClosed \<Rightarrow> Inl (TeeRequired no_tee)
                  | StagingStub p \<Rightarrow> if te_attest s = None then Inr () else require_attestation_ok s
                  | HwSeal p \<Rightarrow> require_attestation_ok s)
             (\<lambda>_. seal_envelope c dev s salt nonce x) = Inr b" "put_file w (tee_path c s i) b d = (Inr u, d')"
    using assms by (auto simp: tee_put_def split: sum.splits)
  then have "seal_envelope c dev s salt nonce x = Inr b" by (auto simp: rbind_Inr_iff)
  then show ?thesis using put_file_ok [OF b(2)] by (auto simp: seal_envelope_def)
qed

lemma tee_laws:
  assumes "aead_correct c" "fresh_ok fresh" "inj_on (sc_sha256 c) I" "tee_built s" "te_attest s = Some (Inr ())"
  shows "share_laws (tee_port c dev s fresh why) I"
  unfolding share_laws_def
proof (intro allI impI)
  fix n i x and d d' :: disk
  assume i: "i \<in> I" and p: "sp_put (tee_port c dev s fresh why) n i x d = (Inr (), d')"
  obtain salt nonce w where f: "fresh n = (salt, nonce, w)" by (cases "fresh n") auto
  have l: "length salt = 16" "length nonce = 12"
    using assms(2) f unfolding fresh_ok_def by (metis fst_conv snd_conv)+
  obtain b where b: "te_backend s \<noteq> FailClosed" "seal_envelope c dev s salt nonce x = Inr b" "d' = d(tee_path c s i \<mapsto> b)"
    using p tee_put_ok by (force simp: tee_port_def f)
  have "tee_get c dev s why i d' = Inr x"
    using b(1,3) unseal_seal [OF assms(1,4) l b(2)] assms(5) by (simp add: tee_get_def require_attestation_ok_def)
  moreover have "tee_get c dev s why j d' = tee_get c dev s why j d" if "j \<in> I" "j \<noteq> i" for j
    using tee_path_inj [OF assms(3) that(1) i that(2)] by (simp add: tee_get_def b(3))
  ultimately show "sp_get (tee_port c dev s fresh why) i d' = Inr x
      \<and> (\<forall>j\<in>I. j \<noteq> i \<longrightarrow> sp_get (tee_port c dev s fresh why) j d' = sp_get (tee_port c dev s fresh why) j d)"
    by (simp add: tee_port_def)
qed

lemma put_all_spec:
  assumes "share_laws port I" "fst ` set xs \<subseteq> I" "distinct (map fst xs)" "put_all port n xs s = (Inr u, s')"
  shows "(\<forall>(i, x)\<in>set xs. sp_get port i s' = Inr x) \<and> (\<forall>j\<in>I - fst ` set xs. sp_get port j s' = sp_get port j s)"
  using assms
proof (induction port n xs s rule: put_all.induct)
  case (2 port n i x xs s)
  obtain s1 where s1: "sp_put port n i x s = (Inr (), s1)" "put_all port (n + 1) xs s1 = (Inr u, s')"
    using 2(5) by (auto split: prod.splits sum.splits)
  have i: "i \<in> I" "i \<notin> fst ` set xs" using 2(3,4) by auto
  have w: "sp_get port i s1 = Inr x" "\<forall>j\<in>I. j \<noteq> i \<longrightarrow> sp_get port j s1 = sp_get port j s"
    using 2(2) i(1) s1(1) unfolding share_laws_def by blast+
  have ih: "(\<forall>(i, x)\<in>set xs. sp_get port i s' = Inr x) \<and> (\<forall>j\<in>I - fst ` set xs. sp_get port j s' = sp_get port j s1)"
    using 2(1) [OF s1(1) [symmetric] HOL.refl 2(2) _ _ s1(2)] 2(3,4) by auto
  then show ?case using w i by auto
qed simp

lemma load_keys_all:
  assumes "\<forall>(i, kp)\<in>set xs. tc_identifier k i = Some i \<and> pk_key c kp = Some kp
      \<and> sp_get port (key_name n (hex_encode i)) st = Inr kp"
    and "sorted_wrt (<) (bt_keys (m @ xs))"
  shows "load_keys k c n port st (map (\<lambda>(i, kp). hex_encode i) xs) m = Inr (m @ xs)"
  using assms
proof (induction xs arbitrary: m)
  case (Cons a xs)
  obtain i kp where a: "a = (i, kp)" by (cases a)
  have "\<forall>j\<in>set (bt_keys m). j < i" using Cons(3) by (auto simp: a bt_keys_def sorted_wrt_append)
  then have "bt_put i kp m = m @ [(i, kp)]" by (rule bt_put_last)
  moreover have "load_keys k c n port st (map (\<lambda>(i, kp). hex_encode i) xs) (m @ [(i, kp)]) = Inr ((m @ [(i, kp)]) @ xs)"
    using Cons by (intro Cons(1)) (auto simp: a)
  ultimately show ?case using Cons(2) by (simp add: a of_crate_def)
qed simp

text \<open>Key material whose serialized parts are canonical, with nothing empty.\<close>

definition tr_canonical :: "tr_crypto \<Rightarrow> package_crate \<Rightarrow> tr_share_state \<Rightarrow> bool" where
  "tr_canonical k c s =
     (bt_ok (tr_key_packages s) \<and> tr_key_packages s \<noteq> [] \<and> tr_min_signers s < 2 ^ 64
      \<and> (\<forall>(i, kp)\<in>set (tr_key_packages s). i \<noteq> [] \<and> tc_identifier k i = Some i \<and> pk_key c kp = Some kp)
      \<and> pk_pub c (tr_pubkey s) = Some (tr_pubkey s))"

definition ascii_is_utf8 :: "package_crate \<Rightarrow> bool" where
  "ascii_is_utf8 c = (\<forall>s. list_all (\<lambda>x. code x < 128) s \<longrightarrow> pk_utf8 c s)"

lemma comma_not_hex: "CHR '','' \<notin> set (hex_encode i)"
proof
  assume "CHR '','' \<in> set (hex_encode i)"
  then have "nibble (CHR '','') \<noteq> None" by (rule hex_encode_chars)
  then show False by (simp add: nibble_def code_def)
qed

lemma nibble_ascii: "nibble c \<noteq> None \<Longrightarrow> code c < 128"
  by (auto simp: nibble_def split: if_splits)

lemma hex_join_ascii: "list_all (\<lambda>x. code x < 128) (join_with '','' (map hex_encode is))"
proof -
  have h: "code x < 128" if "x \<in> set (hex_encode i)" for x i
    using hex_encode_chars [OF that] by (rule nibble_ascii)
  have "list_all (\<lambda>x. code x < 128) (join_with '','' ws)"
    if "\<forall>w\<in>set ws. \<forall>x\<in>set w. code x < 128" for ws
    using that by (induction "'',''" ws rule: join_with.induct) (auto simp: list_all_iff code_def)
  then show ?thesis using h by auto
qed

lemma dec_ascii: "list_all (\<lambda>x. code x < 128) (dec n)"
  using dec_digits [of _ n] by (fastforce simp: list_all_iff is_ascii_digit_def)

lemma tr_files_distinct:
  assumes "bt_ok (tr_key_packages s)"
  shows "distinct (map fst (tr_files n s))"
proof -
  have "distinct (bt_keys (tr_key_packages s))" using assms by (rule bt_ok_distinct)
  then have "distinct (map (\<lambda>p. key_name n (hex_encode (fst p))) (tr_key_packages s))"
    by (auto simp: bt_keys_def distinct_map inj_on_def key_name_def hex_encode_inj)
  then show ?thesis by (auto simp: tr_files_def key_name_def case_prod_beta comp_def)
qed

lemma load_after_persist:
  assumes "share_laws port (fst ` set (tr_files n s))" "tr_canonical k c s" "ascii_is_utf8 c"
    and "persist_tr_shares n port s st = (Inr u, st')"
  shows "load_tr_shares k c n port st' = Inr s"
proof -
  have can: "bt_ok (tr_key_packages s)" "tr_key_packages s \<noteq> []" "tr_min_signers s < 2 ^ 64"
      "\<forall>(i, kp)\<in>set (tr_key_packages s). i \<noteq> [] \<and> tc_identifier k i = Some i \<and> pk_key c kp = Some kp"
      "pk_pub c (tr_pubkey s) = Some (tr_pubkey s)"
    using assms(2) by (auto simp: tr_canonical_def)
  have get: "sp_get port i st' = Inr x" if "(i, x) \<in> set (tr_files n s)" for i x
    using put_all_spec [OF assms(1) _ tr_files_distinct [OF can(1)], where u = u and s = st and s' = st' and n = 0] assms(4) that
    by (auto simp: persist_tr_shares_def)
  let ?hs = "map hex_encode (bt_keys (tr_key_packages s))"
  have keys: "\<forall>(i, kp)\<in>set (tr_key_packages s). tc_identifier k i = Some i \<and> pk_key c kp = Some kp
      \<and> sp_get port (key_name n (hex_encode i)) st' = Inr kp"
  proof (rule ballI)
    fix x
    assume x: "x \<in> set (tr_key_packages s)"
    obtain i kp where xi: "x = (i, kp)" by (cases x)
    have "(key_name n (hex_encode i), kp) \<in> (\<lambda>(i, kp). (key_name n (hex_encode i), kp)) ` set (tr_key_packages s)"
      using imageI [OF x, of "\<lambda>(i, kp). (key_name n (hex_encode i), kp)"] by (simp add: xi)
    then have "(key_name n (hex_encode i), kp) \<in> set (tr_files n s)" by (simp add: tr_files_def)
    then show "case x of (i, kp) \<Rightarrow> tc_identifier k i = Some i \<and> pk_key c kp = Some kp
      \<and> sp_get port (key_name n (hex_encode i)) st' = Inr kp"
      using bspec [OF can(4) x] get by (simp add: xi)
  qed
  have split: "split_on (CHR '','') (join_with '','' ?hs) = ?hs"
    using split_join [of ?hs "CHR '',''"] can(2) comma_not_hex by (auto simp: bt_keys_def)
  have "filter (\<lambda>h. h \<noteq> []) ?hs = ?hs"
  proof (rule filter_True, rule ballI)
    fix h
    assume "h \<in> set ?hs"
    then obtain i where "h = hex_encode i" "i \<noteq> []" using can(4) by (auto simp: bt_keys_def)
    then show "h \<noteq> []" using hex_encode_inj [of i "[]"] by (auto simp: hex_encode_def)
  qed
  moreover have "?hs = map (\<lambda>(i, kp). hex_encode i) (tr_key_packages s)" by (simp add: bt_keys_def case_prod_beta)
  moreover have "load_keys k c n port st' (map (\<lambda>(i, kp). hex_encode i) (tr_key_packages s)) [] = Inr ([] @ tr_key_packages s)"
    using load_keys_all [OF keys, of "[]"] can(1) by (simp add: bt_ok_def)
  ultimately have load: "load_keys k c n port st' (filter (\<lambda>h. h \<noteq> []) (split_on (CHR '','') (join_with '','' ?hs))) []
      = Inr (tr_key_packages s)" using split by simp
  have utf: "pk_utf8 c (join_with '','' ?hs)" "pk_utf8 c (dec (tr_min_signers s))"
    using assms(3) hex_join_ascii dec_ascii unfolding ascii_is_utf8_def by blast+
  have g: "sp_get port (tn_label n @ ''-roster'') st' = Inr (join_with '','' ?hs)"
    "sp_get port (tn_label n @ ''-min-signers'') st' = Inr (dec (tr_min_signers s))"
    "sp_get port (tn_label n @ ''-dkg-pubkey'') st' = Inr (tr_pubkey s)"
    using get by (auto simp: tr_files_def)
  show ?thesis
    using can(2,3,5) by (simp add: load_tr_shares_def g utf load of_crate_def)
qed

text \<open>C24: Key material survives a restart.  After a persist that reports success, on the AEAD files or on a
  TEE store with a live attestation, loading gives back exactly the key packages, the public key and
  the threshold, for the USERS and for the CHANNELS names.\<close>

theorem persisted_shares_load:
  assumes "port = aead_port c a fresh why \<or> port = tee_port c dev t fresh why \<and> tee_built t \<and> te_attest t = Some (Inr ())"
    and "aead_correct c" "fresh_ok fresh" "inj_on (sc_sha256 c) (fst ` set (tr_files n s))"
    and "tr_canonical k p s" "ascii_is_utf8 p" "persist_tr_shares n port s d = (Inr (), d')"
  shows "load_tr_shares k p n port d' = Inr s"
proof -
  have "share_laws port (fst ` set (tr_files n s))"
    using assms(1)
  proof
    assume "port = aead_port c a fresh why"
    then show ?thesis using aead_laws [OF assms(2-4)] by simp
  next
    assume "port = tee_port c dev t fresh why \<and> tee_built t \<and> te_attest t = Some (Inr ())"
    then show ?thesis using tee_laws [OF assms(2-4)] by simp
  qed
  then show ?thesis using assms(5-7) by (rule load_after_persist)
qed

text \<open>A model of the primitives: the sealed text carries its associated data.\<close>

definition demo_seal :: seal_crate where
  "demo_seal =
     \<lparr>sc_argon = (\<lambda>p salt. p @ salt),
      sc_seal = (\<lambda>k n a m. replicate 16 (CHR ''t'') @ hex_encode a @ CHR ''|'' # m),
      sc_unseal = (\<lambda>k n a ct. let r = drop 16 ct in
         if takeWhile (\<lambda>c. c \<noteq> CHR ''|'') r = hex_encode a then Some (tl (dropWhile (\<lambda>c. c \<noteq> CHR ''|'') r)) else None),
      sc_sha256 = (\<lambda>x. x)\<rparr>"

definition demo_fresh :: "nat \<Rightarrow> string \<times> string \<times> write_outcome" where
  "demo_fresh n = (replicate 16 (CHR ''s''), replicate 12 (CHR ''n''), WriteOk)"

definition demo_aead :: aead_store where
  "demo_aead = \<lparr>ad_root = ''/d'', ad_pass = ''p'', ad_tpm = False\<rparr>"

definition demo_packages :: package_crate where
  "demo_packages = \<lparr>pk_utf8 = (\<lambda>_. True), pk_key = Some, pk_pub = Some\<rparr>"

definition demo_share :: tr_share_state where
  "demo_share = \<lparr>tr_key_packages = [(''1'', ''key'')], tr_pubkey = ''pk'', tr_min_signers = 2\<rparr>"

lemma bar_not_hex: "CHR ''|'' \<notin> set (hex_encode i)"
proof
  assume "CHR ''|'' \<in> set (hex_encode i)"
  then have "nibble (CHR ''|'') \<noteq> None" by (rule hex_encode_chars)
  then show False by (simp add: nibble_def code_def)
qed

lemma demo_bar:
  "takeWhile (\<lambda>c. c \<noteq> CHR ''|'') (hex_encode a @ CHR ''|'' # m) = hex_encode a"
  "dropWhile (\<lambda>c. c \<noteq> CHR ''|'') (hex_encode a @ CHR ''|'' # m) = CHR ''|'' # m"
proof -
  have p: "c \<noteq> CHR ''|''" if "c \<in> set (hex_encode a)" for c using bar_not_hex [of a] that by metis
  show "takeWhile (\<lambda>c. c \<noteq> CHR ''|'') (hex_encode a @ CHR ''|'' # m) = hex_encode a"
    by (subst takeWhile_append2) (use p in simp_all)
  show "dropWhile (\<lambda>c. c \<noteq> CHR ''|'') (hex_encode a @ CHR ''|'' # m) = CHR ''|'' # m"
    by (subst dropWhile_append2) (use p in simp_all)
qed

lemma demo_seal_ok: "aead_correct demo_seal" "aead_authentic demo_seal" "fresh_ok demo_fresh" "inj_on (sc_sha256 demo_seal) I"
  by (simp_all add: aead_correct_def aead_authentic_def demo_seal_def demo_bar fresh_ok_def demo_fresh_def
      hex_encode_inj Let_def)

theorem persisted_shares_load_witness:
  "\<exists>d'. persist_tr_shares users_names (aead_port demo_seal demo_aead demo_fresh []) demo_share (\<lambda>_. None) = (Inr (), d')
     \<and> load_tr_shares cosign_demo_crypto demo_packages users_names (aead_port demo_seal demo_aead demo_fresh []) d' = Inr demo_share"
proof -
  let ?port = "aead_port demo_seal demo_aead demo_fresh []"
  obtain d' where d': "persist_tr_shares users_names ?port demo_share (\<lambda>_. None) = (Inr (), d')"
    by (simp add: persist_tr_shares_def tr_files_def demo_share_def aead_port_def demo_fresh_def aead_put_def put_file_def)
  have can: "tr_canonical cosign_demo_crypto demo_packages demo_share" "ascii_is_utf8 demo_packages"
    by (simp_all add: tr_canonical_def demo_share_def demo_packages_def cosign_demo_crypto_def ascii_is_utf8_def bt_ok_Cons)
  have "?port = aead_port demo_seal demo_aead demo_fresh []
      \<or> ?port = tee_port demo_seal (Inl InvalidNodeId) (tee_fail_closed [] False False) demo_fresh []
        \<and> tee_built (tee_fail_closed [] False False) \<and> te_attest (tee_fail_closed [] False False) = Some (Inr ())"
    by simp
  from persisted_shares_load [OF this demo_seal_ok(1,3,4) can d'] d' show ?thesis by blast
qed

text \<open>What binds a sealed file to its share.  Moved to another share's path, an AEAD file is refused,
  whoever moved it; a TEE envelope is opened there as the other share, because the share id is not part
  of what it seals.\<close>

theorem moved_share_file:
  assumes "aead_correct c" "aead_authentic c" "length salt = 16" "length nonce = 12"
    and "aead_put c a salt nonce w i x d = (Inr (), d1)"
    and "tee_built t" "te_attest t = Some (Inr ())" "tee_put c dev t salt nonce w i x d = (Inr (), d2)"
    and "i \<noteq> j"
  shows "aead_get c a why j (d1(aead_path c a j := d1 (aead_path c a i))) = Inl (ShareStoreForbidden ''decrypt failed'')
    \<and> tee_get c dev t why j (d2(tee_path c t j := d2 (tee_path c t i))) = Inr x"
proof
  let ?ct = "sc_seal c (sc_argon c (ad_pass a) salt) nonce (aead_aad i) x"
  have "16 \<le> length ?ct" using assms(1) by (simp add: aead_correct_def)
  moreover have "d1 (aead_path c a i) = Some (salt @ nonce @ ?ct)"
    using assms(5) put_file_ok by (force simp: aead_put_def)
  moreover have "sc_unseal c (sc_argon c (ad_pass a) salt) nonce (aead_aad j) ?ct = None"
    using assms(2,9) by (simp add: aead_authentic_def aead_aad_def)
  ultimately show "aead_get c a why j (d1(aead_path c a j := d1 (aead_path c a i))) = Inl (ShareStoreForbidden ''decrypt failed'')"
    using assms(3,4) by (simp add: aead_get_def forbidden_def Let_def)
  obtain b where b: "te_backend t \<noteq> FailClosed" "seal_envelope c dev t salt nonce x = Inr b" "d2 = d(tee_path c t i \<mapsto> b)"
    using tee_put_ok [OF assms(8)] by blast
  then show "tee_get c dev t why j (d2(tee_path c t j := d2 (tee_path c t i))) = Inr x"
    using unseal_seal [OF assms(1,6,3,4) b(2)] assms(7) by (simp add: tee_get_def require_attestation_ok_def)
qed

theorem moved_share_file_witness:
  "\<exists>d1 d2. let a = demo_aead; t = with_attestation (Inr ()) (tee_staging_stub ''/t'' ''p'' ''m'' False) in
     tee_put demo_seal (Inr []) t (replicate 16 (CHR ''s'')) (replicate 12 (CHR ''n'')) WriteOk ''a'' ''x'' (\<lambda>_. None) = (Inr (), d2)
     \<and> tee_get demo_seal (Inr []) t [] ''b'' (d2(tee_path demo_seal t ''b'' := d2 (tee_path demo_seal t ''a''))) = Inr ''x''
     \<and> aead_get demo_seal a [] ''b'' (d1(aead_path demo_seal a ''b'' := d1 (aead_path demo_seal a ''a'')))
        = Inl (ShareStoreForbidden ''decrypt failed'')"
proof -
  let ?t = "with_attestation (Inr ()) (tee_staging_stub ''/t'' ''p'' ''m'' False)"
  let ?s = "replicate 16 (CHR ''s'')" and ?n = "replicate 12 (CHR ''n'')"
  obtain d1 where d1: "aead_put demo_seal demo_aead ?s ?n WriteOk ''a'' ''x'' (\<lambda>_. None) = (Inr (), d1)"
    by (simp add: aead_put_def put_file_def)
  obtain d2 where d2: "tee_put demo_seal (Inr []) ?t ?s ?n WriteOk ''a'' ''x'' (\<lambda>_. None) = (Inr (), d2)"
    by (simp add: tee_put_def put_file_def with_attestation_def tee_staging_stub_def require_attestation_ok_def seal_envelope_def)
  have "tee_built ?t" "te_attest ?t = Some (Inr ())" "length ?s = 16" "length ?n = 12" "''a'' \<noteq> ''b''"
    by (simp_all add: with_attestation_def tee_staging_stub_def tee_built_def)
  from moved_share_file [OF demo_seal_ok(1,2) this(3,4) d1 this(1,2) d2 this(5), of "[]"] d2
  show ?thesis by (simp add: Let_def) blast
qed

text \<open>Fail closed.  A TEE store without its platform writes nothing and reads nothing, and a store built
  for production never opens a staging stub envelope, whatever its backend.\<close>

theorem tee_store_fails_closed:
  shows "(\<exists>e. tee_put c dev (tee_fail_closed m p hw) salt nonce w i x d = (Inl e, d))
    \<and> (\<exists>e. tee_get c dev (tee_fail_closed m p hw) why i d = Inl e)
    \<and> \<not> (te_production t \<and> parse_envelope b = Inr (1, sn) \<and> unseal_envelope c dev t b = Inr y)
    \<and> \<not> (te_attest t = None \<and> tee_get c dev t why i d = Inr y)"
  by (auto simp: tee_put_def tee_get_def tee_fail_closed_def unseal_envelope_def require_attestation_ok_def)

end
