(* ===== verification/HttpPeer.thy ===== *)
theory HttpPeer
  imports Errors
begin

text \<open>
  Outbound peer HTTP (\<open>adapters/http_peer.rs\<close>): the transport, its tunables, the retry loop, and the
  base address of a peer.  What the network answers to the attempts of one call is a function from the
  attempt's number.
\<close>

datatype vault_transport = Clearnet | Tor

definition transport_parse :: "string \<Rightarrow> vault_transport option" where
  "transport_parse raw =
     (let t = ascii_lower (trim raw) in
      if t \<in> {''clearnet'', ''lan'', ''direct''} then Some Clearnet
      else if t \<in> {''tor'', ''onion'', ''socks''} then Some Tor
      else None)"

fun transport_str :: "vault_transport \<Rightarrow> string" where
  "transport_str Clearnet = ''clearnet''"
| "transport_str Tor = ''tor''"

text \<open>Times in milliseconds.\<close>

record peer_http =
  ph_transport :: vault_transport
  ph_socks :: "string option"
  ph_timeout :: nat
  ph_connect_timeout :: nat
  ph_max_retries :: u32
  ph_retry_base :: u64
  ph_retry_jitter :: u64

definition clearnet_defaults :: peer_http where
  "clearnet_defaults = \<lparr>ph_transport = Clearnet, ph_socks = None, ph_timeout = 30000, ph_connect_timeout = 10000,
     ph_max_retries = 1, ph_retry_base = 100, ph_retry_jitter = 50\<rparr>"

definition tor_defaults :: peer_http where
  "tor_defaults = \<lparr>ph_transport = Tor, ph_socks = Some ''socks5h://127.0.0.1:9050'', ph_timeout = 180000,
     ph_connect_timeout = 60000, ph_max_retries = 5, ph_retry_base = 750, ph_retry_jitter = 750\<rparr>"

definition normalize_socks_proxy :: "string \<Rightarrow> string" where
  "normalize_socks_proxy raw =
     (let t = trim raw in
      if list_ex (\<lambda>p. prefix p t) [''socks5h://'', ''socks5://'', ''socks://'', ''http://'', ''https://''] then t
      else ''socks5h://'' @ t)"

text \<open>The delay before another attempt; \<open>jitter\<close> is the number drawn up to \<open>retry_jitter_ms\<close>.\<close>

definition backoff_delay :: "peer_http \<Rightarrow> u64 \<Rightarrow> nat \<Rightarrow> u64" where
  "backoff_delay s jitter attempt =
     sat_add (sat_mul (ph_retry_base s) (push_bit (min attempt 6) 1)) (if ph_retry_jitter s = 0 then 0 else jitter)"

definition should_retry_status :: "nat \<Rightarrow> bool" where
  "should_retry_status cd = (500 \<le> cd \<and> cd < 600 \<or> cd = 408)"

definition is_success :: "nat \<Rightarrow> bool" where
  "is_success cd = (200 \<le> cd \<and> cd < 300)"

definition peer_addr_is_onion :: "string \<Rightarrow> bool" where
  "peer_addr_is_onion addr =
     suffix ''.onion''
       (hd (split_on (CHR '':'') (hd (split_on (CHR ''/'')
         (strip_any [''http://''] (strip_any [''https://''] (trim addr)))))))"

text \<open>An answer is its status code, the status as displayed, and its body.\<close>

datatype http_answer = Answer nat string string | NoAnswer string

fun post_attempts :: "(nat \<Rightarrow> http_answer) \<Rightarrow> string \<Rightarrow> nat \<Rightarrow> nat \<Rightarrow> string \<Rightarrow> string res" where
  "post_attempts net url 0 attempt why = Inl (ThresholdError (''peer POST '' @ url @ '': '' @ why))"
| "post_attempts net url (Suc left) attempt why =
     (case net attempt of
        Answer cd status body \<Rightarrow>
          if is_success cd then Inr body
          else let why1 = ''HTTP '' @ status @ '': '' @ body in
            if \<not> should_retry_status cd \<or> left = 0 then Inl (ThresholdError (''peer POST '' @ url @ '': '' @ why1))
            else post_attempts net url left (attempt + 1) why1
      | NoAnswer e \<Rightarrow>
          if left = 0 then Inl (ThresholdError (''peer POST '' @ url @ '': '' @ e))
          else post_attempts net url left (attempt + 1) e)"

definition post_json_with_retry :: "peer_http \<Rightarrow> (nat \<Rightarrow> http_answer) \<Rightarrow> string \<Rightarrow> string res" where
  "post_json_with_retry s net url = post_attempts net url (max (unat (ph_max_retries s)) 1) 0 []"

text \<open>\<open>peer_base_url\<close> of \<open>adapters/dkg_wire.rs\<close>: a bare host gets a scheme, and mutual TLS never
  speaks plain HTTP.\<close>

definition peer_base_url :: "string \<Rightarrow> bool \<Rightarrow> string" where
  "peer_base_url addr mtls =
     (if prefix ''http://'' addr \<or> prefix ''https://'' addr then
        if mtls \<and> prefix ''http://'' addr then ''https://'' @ strip_any [''http://''] addr
        else addr
      else if mtls then ''https://'' @ addr
      else ''http://'' @ addr)"

definition transient :: "http_answer \<Rightarrow> bool" where
  "transient a = (case a of Answer cd _ _ \<Rightarrow> should_retry_status cd | NoAnswer _ \<Rightarrow> True)"

text \<open>A call succeeds exactly when one of its attempts does after transient failures only.\<close>

lemma post_attempts_iff:
  "post_attempts net url n k why = Inr body \<longleftrightarrow>
     (\<exists>j<n. (\<exists>cd st. net (k + j) = Answer cd st body \<and> is_success cd) \<and> (\<forall>i<j. transient (net (k + i))))"
proof (induction n arbitrary: k why)
  case (Suc n)
  have split: "(\<exists>j<Suc n. P j \<and> (\<forall>i<j. Q i)) \<longleftrightarrow> P 0 \<or> Q 0 \<and> (\<exists>j<n. P (Suc j) \<and> (\<forall>i<j. Q (Suc i)))"
    for P Q :: "nat \<Rightarrow> bool"
    by (auto simp: Ex_less_Suc2 All_less_Suc2)
  show ?case
  proof (cases "net k")
    case (Answer cd st b)
    show ?thesis
    proof (cases "is_success cd")
      case True
      then have "\<not> transient (net k)" by (auto simp: Answer transient_def is_success_def should_retry_status_def)
      with True Answer show ?thesis by (subst split) auto
    next
      case False
      then show ?thesis by (subst split) (auto simp: Answer Suc.IH transient_def Let_def)
    qed
  next
    case (NoAnswer e)
    then show ?thesis by (subst split) (auto simp: Suc.IH transient_def)
  qed
qed simp

lemma peer_base_url_mtls: "\<not> prefix ''https://'' addr \<Longrightarrow> peer_base_url addr True = ''https://'' @ strip_any [''http://''] addr
    \<or> peer_base_url addr True = ''https://'' @ addr"
  by (auto simp: peer_base_url_def)

end
