(* ===== verification/DkgWire.thy ===== *)
theory DkgWire
  imports ShareStore Auth HttpPeer
begin

text \<open>
  Distributed key generation over the wire: the plain FROST hub (\<open>adapters/dkg_wire.rs\<close>) and the Taproot
  hub (\<open>adapters/dkg_tr_wire.rs\<close>), the same state machine over two suites, and the endpoints that
  drive it (\<open>adapters/http.rs\<close>).  The FROST crates are the record \<open>dkg_crate\<close> of their functions on
  serialized values; a deserializer gives the canonical bytes, and serializers do not fail.
\<close>

section \<open>Envelopes\<close>

record hybrid_envelope =
  he_format :: u16
  he_suite :: string
  he_epoch :: string
  he_sender :: string
  he_receiver :: string
  he_eph_pk :: string
  he_kem :: string
  he_nonce :: string
  he_ciphertext :: string
  he_classical :: string
  he_pq :: string

definition envelope_suite :: string where
  "envelope_suite = ''hybrid-x25519-mlkem768-aes256gcm''"

definition validate_header :: "hybrid_envelope \<Rightarrow> unit res" where
  "validate_header e =
     (if he_format e \<noteq> 1 then Inl (InvalidIntent (''unknown envelope format_version: '' @ dec_u (he_format e)))
      else if he_suite e \<noteq> envelope_suite then Inl (InvalidIntent (''unknown suite_id: '' @ he_suite e))
      else if he_eph_pk e = replicate 32 (CHR 0x00) then Inl (InvalidIntent ''sender_eph_pk is all-zero'')
      else if he_kem e = [] then Inl (InvalidIntent ''kem_ciphertext is empty'')
      else if he_ciphertext e = [] then Inl (InvalidIntent ''ciphertext is empty'')
      else if he_classical e = [] then Inl (InvalidIntent ''classical_signature missing'')
      else if he_pq e = [] then Inl (InvalidIntent ''pq_signature missing'')
      else Inr ())"


section \<open>Suites and messages\<close>

record dkg_crate =
  dc_ident :: "u16 \<Rightarrow> string option"
  dc_part1 :: "string \<Rightarrow> u16 \<Rightarrow> u16 \<Rightarrow> string \<Rightarrow> (string \<times> string) option"
  dc_round1 :: "string \<Rightarrow> string option"
  dc_part2 :: "string \<Rightarrow> string btmap \<Rightarrow> (string \<times> string btmap) option"
  dc_round2 :: "string \<Rightarrow> string option"
  dc_part3 :: "string \<Rightarrow> string btmap \<Rightarrow> string btmap \<Rightarrow> (string \<times> string) option"
  dc_even_y :: "string \<times> string \<Rightarrow> string \<times> string"
  dc_key_min :: "string \<Rightarrow> u16"
  dc_pub_min :: "string \<Rightarrow> u16 option"
  dc_pub_max :: "string \<Rightarrow> u16"
  dc_vk :: "string \<Rightarrow> string"
  dc_sha256 :: "string \<Rightarrow> string"
  dc_debug :: "string \<Rightarrow> string"
  dc_why :: string

text \<open>The words that tell the two hubs' messages apart, and whether the hub checks envelopes and forces an
  even Y at the end.\<close>

record dkg_suite =
  su_up :: string
  su_low :: string
  su_frost :: string
  su_domain :: string
  su_checks_envelope :: bool
  su_taproot :: bool

definition plain_suite :: dkg_suite where
  "plain_suite = \<lparr>su_up = [], su_low = [], su_frost = ''frost'', su_domain = ''kerosene-dkg-wire-v1|'',
     su_checks_envelope = True, su_taproot = False\<rparr>"

definition tr_suite :: dkg_suite where
  "tr_suite = \<lparr>su_up = ''TR '', su_low = ''tr '', su_frost = ''frost-tr'', su_domain = ''kerosene-dkg-tr-wire-v1|'',
     su_checks_envelope = False, su_taproot = True\<rparr>"

datatype dkg_phase = DkgRound1 | DkgRound2 | DkgComplete

fun dkg_phase_str :: "dkg_phase \<Rightarrow> string" where
  "dkg_phase_str DkgRound1 = ''round1''"
| "dkg_phase_str DkgRound2 = ''round2''"
| "dkg_phase_str DkgComplete = ''complete''"

record round1_message =
  m1_session :: string
  m1_sender :: string
  m1_sender_id :: u16
  m1_max :: u16
  m1_min :: u16
  m1_transcript :: string
  m1_package :: string
  m1_envelope :: "hybrid_envelope option"

record round2_message =
  m2_session :: string
  m2_sender :: string
  m2_sender_id :: u16
  m2_recipient :: string
  m2_recipient_id :: u16
  m2_transcript :: string
  m2_package :: string
  m2_envelope :: "hybrid_envelope option"

record dkg_start_request =
  ds_session :: string
  ds_max :: u16
  ds_min :: u16
  ds_roster :: "string list"

record dkg_status =
  dt_session :: string
  dt_phase :: string
  dt_node :: string
  dt_identifier :: u16
  dt_max :: u16
  dt_min :: u16
  dt_transcript :: string
  dt_round1 :: nat
  dt_round2 :: nat
  dt_complete :: bool
  dt_verifying_key :: "string option"

record dkg_session =
  dk_session :: string
  dk_node :: string
  dk_ident :: string
  dk_max :: u16
  dk_min :: u16
  dk_roster :: "string btmap"
  dk_transcript :: string
  dk_closed :: bool
  dk_phase :: dkg_phase
  dk_r1_secret :: "string option"
  dk_r1 :: "string btmap"
  dk_r2_secret :: "string option"
  dk_inbox :: "string btmap"
  dk_outbound :: "string btmap"
  dk_key :: "string option"
  dk_pub :: "string option"

record dkg_hub =
  dh_node :: string
  dh_peers :: "string btmap"
  dh_mtls :: bool
  dh_http :: peer_http
  dh_sessions :: "dkg_session btmap"
  dh_completed :: "(string \<times> string \<times> u16) option"

definition threshold_err :: "string \<Rightarrow> 'a res" where
  "threshold_err e = Inl (ThresholdError e)"

definition of_dkg :: "dkg_crate \<Rightarrow> string \<Rightarrow> 'a option \<Rightarrow> 'a res" where
  "of_dkg c what x = (case x of Some v \<Rightarrow> Inr v | None \<Rightarrow> threshold_err (what @ dc_why c))"

definition identifier_from_u16 :: "dkg_suite \<Rightarrow> dkg_crate \<Rightarrow> u16 \<Rightarrow> string res" where
  "identifier_from_u16 s c v = of_dkg c (su_low s @ ''identifier '' @ dec_u v @ '': '') (dc_ident c v)"

text \<open>The position in the roster, counted from one; zero if the identifier is not in it.\<close>

fun roster_index :: "nat \<Rightarrow> string btmap \<Rightarrow> string \<Rightarrow> u16" where
  "roster_index i [] x = 0"
| "roster_index i ((n, j) # m) x = (if j = x then word_of_nat (i + 1) else roster_index (i + 1) m x)"

definition identifier_to_u16 :: "string btmap \<Rightarrow> string \<Rightarrow> u16" where
  "identifier_to_u16 roster x = roster_index 0 roster x"

fun number_roster :: "dkg_suite \<Rightarrow> dkg_crate \<Rightarrow> nat \<Rightarrow> string list \<Rightarrow> string btmap \<Rightarrow> string btmap res" where
  "number_roster s c i [] m = Inr m"
| "number_roster s c i (n # ns) m =
     rbind (identifier_from_u16 s c (word_of_nat (i + 1))) (\<lambda>x. number_roster s c (i + 1) ns (bt_put n x m))"

text \<open>Trimmed, sorted and without duplicates, numbered from one.\<close>

definition build_roster :: "dkg_suite \<Rightarrow> dkg_crate \<Rightarrow> string list \<Rightarrow> string btmap res" where
  "build_roster s c roster =
     (let sorted = bs_of (map trim roster) in
      if length sorted < 2
      then threshold_err (su_up s @ ''DKG roster must have >= 2 unique node ids'')
      else number_roster s c 0 sorted [])"

definition session_text :: "dkg_suite \<Rightarrow> string \<Rightarrow> u16 \<Rightarrow> u16 \<Rightarrow> string btmap \<Rightarrow> string" where
  "session_text s session mx mn roster =
     su_domain s @ session @ ''|max='' @ dec_u mx @ ''|min='' @ dec_u mn @ ''|roster=''
     @ join_with '','' (bt_keys roster)"

definition session_transcript :: "dkg_suite \<Rightarrow> dkg_crate \<Rightarrow> string \<Rightarrow> u16 \<Rightarrow> u16 \<Rightarrow> string btmap \<Rightarrow> string" where
  "session_transcript s c session mx mn roster = hex_encode (dc_sha256 c (session_text s session mx mn roster))"

definition assert_threshold :: "dkg_suite \<Rightarrow> dkg_crate \<Rightarrow> string \<Rightarrow> string \<Rightarrow> u16 \<Rightarrow> u16 \<Rightarrow> unit res" where
  "assert_threshold s c kp pk mn mx =
     (if dc_key_min c kp \<noteq> mn
      then threshold_err (su_up s @ ''DKG threshold mismatch (ToB): key_package.min_signers='' @ dec_u (dc_key_min c kp)
             @ '' expected='' @ dec_u mn)
      else case dc_pub_min c pk of
        Some p \<Rightarrow>
          if p \<noteq> mn
          then threshold_err (su_up s @ ''DKG threshold mismatch (ToB): pubkey.min_signers='' @ dec_u p
                 @ '' expected='' @ dec_u mn)
          else if dc_pub_max c pk \<noteq> mx
          then threshold_err (su_up s @ ''DKG n mismatch: pubkey.max_signers='' @ dec_u (dc_pub_max c pk)
                 @ '' expected='' @ dec_u mx)
          else Inr ()
      | None \<Rightarrow>
          if dc_pub_max c pk \<noteq> mx
          then threshold_err (su_up s @ ''DKG n mismatch: pubkey.max_signers='' @ dec_u (dc_pub_max c pk)
                 @ '' expected='' @ dec_u mx)
          else Inr ())"

definition dkg_status_of :: "dkg_crate \<Rightarrow> dkg_session \<Rightarrow> dkg_status" where
  "dkg_status_of c s =
     \<lparr>dt_session = dk_session s, dt_phase = dkg_phase_str (dk_phase s), dt_node = dk_node s,
      dt_identifier = identifier_to_u16 (dk_roster s) (dk_ident s), dt_max = dk_max s, dt_min = dk_min s,
      dt_transcript = dk_transcript s, dt_round1 = length (dk_r1 s), dt_round2 = length (dk_inbox s),
      dt_complete = (dk_phase s = DkgComplete),
      dt_verifying_key = map_option (\<lambda>p. hex_encode (dc_vk c p)) (dk_pub s)\<rparr>"

section \<open>The hub\<close>

definition unknown_session :: "dkg_suite \<Rightarrow> string \<Rightarrow> 'a res" where
  "unknown_session s i = threshold_err (''unknown '' @ su_up s @ ''DKG session: '' @ i)"

definition put_session :: "dkg_session \<Rightarrow> dkg_hub \<Rightarrow> dkg_hub" where
  "put_session x h = h\<lparr>dh_sessions := bt_put (dk_session x) x (dh_sessions h)\<rparr>"

definition hub_status :: "dkg_suite \<Rightarrow> dkg_crate \<Rightarrow> string \<Rightarrow> dkg_hub \<Rightarrow> dkg_status res" where
  "hub_status s c i h =
     (case bt_get i (dh_sessions h) of
        None \<Rightarrow> unknown_session s i
      | Some x \<Rightarrow> Inr (dkg_status_of c x))"

definition own_round1 :: "dkg_session \<Rightarrow> string \<Rightarrow> round1_message" where
  "own_round1 x package =
     \<lparr>m1_session = dk_session x, m1_sender = dk_node x,
      m1_sender_id = identifier_to_u16 (dk_roster x) (dk_ident x), m1_max = dk_max x, m1_min = dk_min x,
      m1_transcript = dk_transcript x, m1_package = hex_encode package, m1_envelope = None\<rparr>"

definition fresh_session ::
  "dkg_hub \<Rightarrow> dkg_start_request \<Rightarrow> string btmap \<Rightarrow> string \<Rightarrow> string \<Rightarrow> string \<times> string \<Rightarrow> dkg_session" where
  "fresh_session h q roster transcript ident p =
     \<lparr>dk_session = ds_session q, dk_node = dh_node h, dk_ident = ident, dk_max = ds_max q, dk_min = ds_min q,
      dk_roster = roster, dk_transcript = transcript, dk_closed = False, dk_phase = DkgRound1,
      dk_r1_secret = Some (fst p), dk_r1 = [(ident, snd p)], dk_r2_secret = None, dk_inbox = [], dk_outbound = [],
      dk_key = None, dk_pub = None\<rparr>"

text \<open>\<open>seed\<close> is the randomness \<open>part1\<close> draws.\<close>

definition hub_start ::
  "dkg_suite \<Rightarrow> dkg_crate \<Rightarrow> string \<Rightarrow> dkg_start_request \<Rightarrow> dkg_hub \<Rightarrow> (dkg_status \<times> round1_message) res \<times> dkg_hub" where
  "hub_start s c seed q h =
     (if ds_max q < 2 \<or> ds_min q < 2 \<or> ds_max q < ds_min q
      then (threshold_err (''bad '' @ su_up s @ ''frost DKG params: max='' @ dec_u (ds_max q) @ '' min='' @ dec_u (ds_min q)), h)
      else case build_roster s c (ds_roster q) of
        Inl e \<Rightarrow> (Inl e, h)
      | Inr roster \<Rightarrow>
          if word_of_nat (length roster) \<noteq> ds_max q
          then (threshold_err (su_up s @ ''roster len '' @ dec (length roster) @ '' != max_signers '' @ dec_u (ds_max q)), h)
          else let transcript = session_transcript s c (ds_session q) (ds_max q) (ds_min q) roster in
            case bt_get (ds_session q) (dh_sessions h) of
              Some x \<Rightarrow>
                if dk_transcript x \<noteq> transcript \<or> dk_max x \<noteq> ds_max q \<or> dk_min x \<noteq> ds_min q \<or> dk_roster x \<noteq> roster
                then (threshold_err (su_up s @ ''DKG participants/threshold frozen at round1; constitution drift rejected''), h)
                else (case bt_get (dk_ident x) (dk_r1 x) of
                        None \<Rightarrow> (threshold_err (''missing local '' @ su_up s @ ''round1 package''), h)
                      | Some p \<Rightarrow> (Inr (dkg_status_of c x, own_round1 x p), h))
            | None \<Rightarrow>
                (case bt_get (dh_node h) roster of
                   None \<Rightarrow> (threshold_err (''local node '' @ dh_node h @ '' missing from '' @ su_up s @ ''DKG roster''), h)
                 | Some ident \<Rightarrow>
                     (case of_dkg c (su_frost s @ '' dkg part1: '') (dc_part1 c ident (ds_max q) (ds_min q) seed) of
                        Inl e \<Rightarrow> (Inl e, h)
                      | Inr p \<Rightarrow>
                          let x = fresh_session h q roster transcript ident p in
                          (Inr (dkg_status_of c x, own_round1 x (snd p)), put_session x h))))"

definition advance_to_round2 :: "dkg_suite \<Rightarrow> dkg_crate \<Rightarrow> dkg_session \<Rightarrow> unit res \<times> dkg_session" where
  "advance_to_round2 s c x =
     (case dk_r1_secret x of
        None \<Rightarrow> (threshold_err (''missing '' @ su_up s @ ''round1 secret''), x)
      | Some secret \<Rightarrow>
          let x1 = x\<lparr>dk_r1_secret := None\<rparr> in
          case of_dkg c (su_frost s @ '' dkg part2: '') (dc_part2 c secret (bt_remove (dk_ident x) (dk_r1 x))) of
            Inl e \<Rightarrow> (Inl e, x1)
          | Inr (r2, out) \<Rightarrow>
              (Inr (), x1\<lparr>dk_r2_secret := Some r2, dk_outbound := out, dk_closed := True, dk_phase := DkgRound2\<rparr>))"

text \<open>The envelope, if the hub checks it and the message has one.\<close>

definition check_envelope :: "dkg_suite \<Rightarrow> string \<Rightarrow> hybrid_envelope option \<Rightarrow> unit res" where
  "check_envelope s rnd e =
     (case (if su_checks_envelope s then e else None) of
        None \<Rightarrow> Inr ()
      | Some v \<Rightarrow>
          (case validate_header v of
             Inl er \<Rightarrow> threshold_err (rnd @ '' hybrid envelope validation failed: '' @ display er)
           | Inr _ \<Rightarrow> Inr ()))"

definition decode_package :: "dkg_suite \<Rightarrow> dkg_crate \<Rightarrow> string \<Rightarrow> (string \<Rightarrow> string option) \<Rightarrow> string \<Rightarrow> string res" where
  "decode_package s c rnd des hx =
     rbind (of_dkg c (su_low s @ rnd @ '' hex: '') (hex_decode hx)) (\<lambda>b.
       of_dkg c (su_low s @ rnd @ '' deserialize: '') (des b))"

text \<open>One round-one message of a session that is not complete.\<close>

definition accept_round1 :: "dkg_suite \<Rightarrow> dkg_crate \<Rightarrow> round1_message \<Rightarrow> dkg_session \<Rightarrow> dkg_status res \<times> dkg_session" where
  "accept_round1 s c m x =
     (if m1_max m \<noteq> dk_max x \<or> m1_min m \<noteq> dk_min x
      then (threshold_err (su_up s @ ''round1 threshold/min_signers drift rejected (ToB); constitution frozen at start''), x)
      else if m1_transcript m \<noteq> dk_transcript x
      then (threshold_err (su_up s @ ''round1 transcript binding mismatch; abort DKG''), x)
      else case identifier_from_u16 s c (m1_sender_id m) of
        Inl e \<Rightarrow> (Inl e, x)
      | Inr sender \<Rightarrow>
          (case bt_get (m1_sender m) (dk_roster x) of
             None \<Rightarrow> (threshold_err (su_up s @ ''late join / participant set change rejected: unknown sender '' @ m1_sender m), x)
           | Some expected \<Rightarrow>
               if expected \<noteq> sender
               then (threshold_err (su_up s @ ''sender '' @ m1_sender m @ '' identifier mismatch''), x)
               else if sender = dk_ident x then (Inr (dkg_status_of c x), x)
               else if dk_closed x \<or> dk_phase x \<noteq> DkgRound1
               then if bt_get sender (dk_r1 x) \<noteq> None then (Inr (dkg_status_of c x), x)
                    else (threshold_err (su_up s @ ''late join rejected: participant set frozen after round1''), x)
               else case decode_package s c ''round1'' (dc_round1 c) (m1_package m) of
                 Inl e \<Rightarrow> (Inl e, x)
               | Inr package \<Rightarrow>
                   let x1 = x\<lparr>dk_r1 := bt_put sender package (dk_r1 x)\<rparr> in
                   if word_of_nat (length (dk_r1 x1)) = dk_max x1 \<and> dk_r1_secret x1 \<noteq> None \<and> dk_phase x1 = DkgRound1
                   then case advance_to_round2 s c x1 of
                     (Inl e, x2) \<Rightarrow> (Inl e, x2)
                   | (Inr _, x2) \<Rightarrow> (Inr (dkg_status_of c x2), x2)
                   else (Inr (dkg_status_of c x1), x1)))"

definition hub_round1 :: "dkg_suite \<Rightarrow> dkg_crate \<Rightarrow> round1_message \<Rightarrow> dkg_hub \<Rightarrow> dkg_status res \<times> dkg_hub" where
  "hub_round1 s c m h =
     (case check_envelope s ''round1'' (m1_envelope m) of
        Inl e \<Rightarrow> (Inl e, h)
      | Inr _ \<Rightarrow>
          (case bt_get (m1_session m) (dh_sessions h) of
             None \<Rightarrow> (threshold_err (''unknown '' @ su_up s @ ''DKG session '' @ m1_session m @ '' (start locally first)''), h)
           | Some x \<Rightarrow>
               if dk_phase x = DkgComplete then (Inr (dkg_status_of c x), h)
               else case accept_round1 s c m x of (r, x1) \<Rightarrow> (r, put_session x1 h)))"

text \<open>The packages to send: taken out of the session, whatever happens to them next.\<close>

fun name_of_ident :: "string btmap \<Rightarrow> string \<Rightarrow> string option" where
  "name_of_ident [] i = None"
| "name_of_ident ((n, j) # m) i = (if j = i then Some n else name_of_ident m i)"

definition round2_to :: "dkg_suite \<Rightarrow> dkg_crate \<Rightarrow> dkg_session \<Rightarrow> string \<Rightarrow> string \<times> string \<Rightarrow> round2_message res" where
  "round2_to s c x session p =
     (case name_of_ident (dk_roster x) (fst p) of
        None \<Rightarrow> threshold_err (''unknown '' @ su_up s @ ''recipient id '' @ dc_debug c (fst p))
      | Some n \<Rightarrow>
          Inr \<lparr>m2_session = session, m2_sender = dk_node x,
               m2_sender_id = identifier_to_u16 (dk_roster x) (dk_ident x), m2_recipient = n,
               m2_recipient_id = identifier_to_u16 (dk_roster x) (fst p), m2_transcript = dk_transcript x,
               m2_package = hex_encode (snd p), m2_envelope = None\<rparr>)"

definition hub_take_round2 :: "dkg_suite \<Rightarrow> dkg_crate \<Rightarrow> string \<Rightarrow> dkg_hub \<Rightarrow> round2_message list res \<times> dkg_hub" where
  "hub_take_round2 s c i h =
     (case bt_get i (dh_sessions h) of
        None \<Rightarrow> (unknown_session s i, h)
      | Some x \<Rightarrow> (rmapM (round2_to s c x i) (dk_outbound x), put_session (x\<lparr>dk_outbound := []\<rparr>) h))"

definition accept_round2 :: "dkg_suite \<Rightarrow> dkg_crate \<Rightarrow> round2_message \<Rightarrow> dkg_session \<Rightarrow> dkg_status res \<times> dkg_session" where
  "accept_round2 s c m x =
     (if m2_transcript m \<noteq> dk_transcript x
      then (threshold_err (su_up s @ ''round2 transcript binding mismatch; abort DKG''), x)
      else if m2_recipient m \<noteq> dk_node x
      then (threshold_err (su_up s @ ''round2 package not addressed to this vault''), x)
      else case identifier_from_u16 s c (m2_sender_id m) of
        Inl e \<Rightarrow> (Inl e, x)
      | Inr sender \<Rightarrow>
          (case bt_get (m2_sender m) (dk_roster x) of
             None \<Rightarrow> (threshold_err (su_up s @ ''late join / participant set change rejected: unknown round2 sender ''
                        @ m2_sender m), x)
           | Some expected \<Rightarrow>
               if expected \<noteq> sender
               then (threshold_err (su_up s @ ''round2 sender '' @ m2_sender m @ '' identifier mismatch''), x)
               else case decode_package s c ''round2'' (dc_round2 c) (m2_package m) of
                 Inl e \<Rightarrow> (Inl e, x)
               | Inr package \<Rightarrow>
                   let x1 = x\<lparr>dk_inbox := bt_put sender package (dk_inbox x)\<rparr> in (Inr (dkg_status_of c x1), x1)))"

definition hub_round2 :: "dkg_suite \<Rightarrow> dkg_crate \<Rightarrow> round2_message \<Rightarrow> dkg_hub \<Rightarrow> dkg_status res \<times> dkg_hub" where
  "hub_round2 s c m h =
     (case check_envelope s ''round2'' (m2_envelope m) of
        Inl e \<Rightarrow> (Inl e, h)
      | Inr _ \<Rightarrow>
          (case bt_get (m2_session m) (dh_sessions h) of
             None \<Rightarrow> (unknown_session s (m2_session m), h)
           | Some x \<Rightarrow>
               if dk_phase x = DkgComplete then (Inr (dkg_status_of c x), h)
               else case accept_round2 s c m x of (r, x1) \<Rightarrow> (r, put_session x1 h)))"

text \<open>What the last round writes: the plain hub its key package and the group key, the Taproot hub a
  one-share keyset.\<close>

definition dkg_files :: "dkg_suite \<Rightarrow> dkg_session \<Rightarrow> string \<Rightarrow> string \<Rightarrow> (string \<times> string) list" where
  "dkg_files s x kp pk =
     (if su_taproot s
      then tr_files users_names
             \<lparr>tr_key_packages = [(dk_ident x, kp)], tr_pubkey = pk, tr_min_signers = unat (dk_min x)\<rparr>
      else [(''frost-dkg-id-'' @ hex_encode (dk_ident x), kp), (''frost-dkg-pubkey'', pk)])"

definition complete_session :: "dkg_session \<Rightarrow> string \<Rightarrow> string \<Rightarrow> dkg_session" where
  "complete_session x kp pk =
     x\<lparr>dk_key := Some kp, dk_pub := Some pk, dk_phase := DkgComplete, dk_r2_secret := None\<rparr>"

definition hub_finalize ::
  "dkg_suite \<Rightarrow> dkg_crate \<Rightarrow> 's share_port \<Rightarrow> string \<Rightarrow> dkg_hub \<Rightarrow> 's \<Rightarrow> dkg_status res \<times> dkg_hub \<times> 's" where
  "hub_finalize s c port i h st =
     (case bt_get i (dh_sessions h) of
        None \<Rightarrow> (unknown_session s i, h, st)
      | Some x \<Rightarrow>
          if dk_phase x = DkgComplete then (Inr (dkg_status_of c x), h, st)
          else let need = unat (dk_max x) - 1 in
            if length (dk_inbox x) < need
            then (threshold_err (su_up s @ ''round2 incomplete: have '' @ dec (length (dk_inbox x)) @ '' need '' @ dec need), h, st)
            else case dk_r2_secret x of
              None \<Rightarrow> (threshold_err (''missing '' @ su_up s @ ''round2 secret''), h, st)
            | Some r2 \<Rightarrow>
                (case of_dkg c (su_frost s @ '' dkg part3: '')
                        (dc_part3 c r2 (bt_remove (dk_ident x) (dk_r1 x)) (dk_inbox x)) of
                   Inl e \<Rightarrow> (Inl e, h, st)
                 | Inr (kp0, pk0) \<Rightarrow>
                     (case assert_threshold s c kp0 pk0 (dk_min x) (dk_max x) of
                        Inl e \<Rightarrow> (Inl e, h, st)
                      | Inr _ \<Rightarrow>
                          let (kp, pk) = (if su_taproot s then dc_even_y c (kp0, pk0) else (kp0, pk0)) in
                          (case put_all port 0 (dkg_files s x kp pk) st of
                             (Inl e, st1) \<Rightarrow> (Inl e, h, st1)
                           | (Inr _, st1) \<Rightarrow>
                               let x1 = complete_session x kp pk in
                               (Inr (dkg_status_of c x1),
                                (put_session x1 h)\<lparr>dh_completed := Some (kp, pk, dk_min x)\<rparr>, st1)))))"

section \<open>Fan-out\<close>

definition fan_url :: "dkg_suite \<Rightarrow> dkg_hub \<Rightarrow> string \<Rightarrow> string \<Rightarrow> string" where
  "fan_url s h addr rnd =
     peer_base_url addr (dh_mtls h) @ ''/v1/dkg/'' @ (if su_taproot s then ''tr/'' else []) @ rnd"

text \<open>\<open>net\<close>: what the peer at an address answers to the attempts of one post.\<close>

fun fanout_round1 :: "dkg_suite \<Rightarrow> dkg_hub \<Rightarrow> (string \<Rightarrow> nat \<Rightarrow> http_answer) \<Rightarrow> string btmap \<Rightarrow> unit res" where
  "fanout_round1 s h net [] = Inr ()"
| "fanout_round1 s h net ((peer, addr) # ps) =
     (if peer = dh_node h then fanout_round1 s h net ps
      else case post_json_with_retry (dh_http h) (net addr) (fan_url s h addr ''round1'') of
        Inl e \<Rightarrow> threshold_err (su_low s @ ''round1 fanout to '' @ peer @ '': '' @ display e)
      | Inr _ \<Rightarrow> fanout_round1 s h net ps)"

fun fanout_round2 :: "dkg_suite \<Rightarrow> dkg_hub \<Rightarrow> (string \<Rightarrow> nat \<Rightarrow> http_answer) \<Rightarrow> round2_message list \<Rightarrow> unit res" where
  "fanout_round2 s h net [] = Inr ()"
| "fanout_round2 s h net (m # ms) =
     (case bt_get (m2_recipient m) (dh_peers h) of
        None \<Rightarrow> threshold_err (''no '' @ su_up s @ ''peer addr for '' @ m2_recipient m)
      | Some addr \<Rightarrow>
          (case post_json_with_retry (dh_http h) (net addr) (fan_url s h addr ''round2'') of
             Inl e \<Rightarrow> threshold_err (su_low s @ ''round2 fanout to '' @ m2_recipient m @ '': '' @ display e)
           | Inr _ \<Rightarrow> fanout_round2 s h net ms))"

section \<open>The endpoints\<close>

record round1_body =
  r1b_session :: string
  r1b_roster :: "string list option"
  r1b_max :: "u16 option"
  r1b_min :: "u16 option"
  r1b_fanout :: bool
  r1b_sender :: "string option"
  r1b_sender_id :: "u16 option"
  r1b_transcript :: "string option"
  r1b_package :: "string option"

record round2_body =
  r2b_session :: string
  r2b_deliver :: bool
  r2b_fanout :: bool
  r2b_sender :: "string option"
  r2b_sender_id :: "u16 option"
  r2b_recipient :: "string option"
  r2b_recipient_id :: "u16 option"
  r2b_transcript :: "string option"
  r2b_package :: "string option"

record round3_body =
  r3b_session :: string
  r3b_finalize :: bool

text \<open>The values the replies serialize; \<open>ErrorText\<close> is a text written as it is.\<close>

datatype dkg_reply =
    ErrorText string
  | StatusReply dkg_status
  | StartReply dkg_status round1_message
  | FanoutReply string dkg_status
  | OutboundReply "round2_message list"

record dkg_env =
  de_seated :: "string list"
  de_strict :: bool
  de_lab_token :: bool
  de_debug_list :: "string list \<Rightarrow> string"
  de_net :: "string \<Rightarrow> nat \<Rightarrow> http_answer"

definition dkg_err :: "domain_error \<Rightarrow> dkg_reply" where
  "dkg_err e = ErrorText (json_err e)"

definition status_reply :: "dkg_status res \<Rightarrow> nat \<times> dkg_reply" where
  "status_reply r = (case r of Inr t \<Rightarrow> (200, StatusReply t) | Inl e \<Rightarrow> (400, dkg_err e))"

definition start_roster :: "dkg_env \<Rightarrow> string list option \<Rightarrow> (string + string list)" where
  "start_roster v roster =
     (case roster of
        None \<Rightarrow> Inr (de_seated v)
      | Some r \<Rightarrow>
          if r = [] then Inr (de_seated v)
          else if sort r \<noteq> sort (de_seated v) \<and> de_strict v
          then Inl ([CHR ''{'', chr 34] @ ''error'' @ [chr 34, CHR '':'', chr 34]
                 @ ''DKG roster must match seated genesis roster '' @ de_debug_list v (de_seated v)
                 @ '' (got '' @ de_debug_list v r @ '')'' @ [chr 34, CHR ''}''])
          else if length r = length (de_seated v) then Inr (de_seated v)
          else Inr r)"

definition default_min :: "u16 \<Rightarrow> u16" where
  "default_min mx = word_of_nat (min (max ((unat mx * 2 + 2) div 3) 2) (unat mx))"

definition dkg_round1 ::
  "dkg_suite \<Rightarrow> dkg_crate \<Rightarrow> dkg_env \<Rightarrow> string \<Rightarrow> mesh_principal \<Rightarrow> (string + round1_body) \<Rightarrow> dkg_hub \<Rightarrow> (nat \<times> dkg_reply) \<times> dkg_hub" where
  "dkg_round1 s c v seed who body h =
     (case body of
        Inl e \<Rightarrow> ((400, ErrorText (json_err_text (''invalid json: '' @ e))), h)
      | Inr q \<Rightarrow>
          (case r1b_package q of
             None \<Rightarrow>
               (case start_roster v (r1b_roster q) of
                  Inl t \<Rightarrow> ((400, ErrorText t), h)
                | Inr roster \<Rightarrow>
                    if length roster < 2
                    then ((400, ErrorText (json_err_text ''genesis_roster empty; set VAULT_SEED_PEERS + VAULT_GENESIS_N'')), h)
                    else let mx = (case r1b_max q of Some n \<Rightarrow> n | None \<Rightarrow> word_of_nat (length roster));
                             mn = (case r1b_min q of Some n \<Rightarrow> n | None \<Rightarrow> default_min mx) in
                      (case hub_start s c seed \<lparr>ds_session = r1b_session q, ds_max = mx, ds_min = mn, ds_roster = roster\<rparr> h of
                         (Inl e, h1) \<Rightarrow> ((400, dkg_err e), h1)
                       | (Inr (st, m), h1) \<Rightarrow>
                           (case (if r1b_fanout q then fanout_round1 s h1 (de_net v) (dh_peers h1) else Inr ()) of
                              Inl e \<Rightarrow> ((502, FanoutReply (display e) st), h1)
                            | Inr _ \<Rightarrow> ((200, StartReply st m), h1))))
           | Some package \<Rightarrow>
               let sender = (case r1b_sender q of Some n \<Rightarrow> n | None \<Rightarrow> []) in
               (case bind_dkg_sender sender (Some who) (de_lab_token v) of
                  Inl e \<Rightarrow> ((401, dkg_err e), h)
                | Inr _ \<Rightarrow>
                    (case hub_round1 s c
                        \<lparr>m1_session = r1b_session q, m1_sender = sender,
                         m1_sender_id = (case r1b_sender_id q of Some n \<Rightarrow> n | None \<Rightarrow> 0),
                         m1_max = (case r1b_max q of Some n \<Rightarrow> n | None \<Rightarrow> 0),
                         m1_min = (case r1b_min q of Some n \<Rightarrow> n | None \<Rightarrow> 0),
                         m1_transcript = (case r1b_transcript q of Some t \<Rightarrow> t | None \<Rightarrow> []),
                         m1_package = package, m1_envelope = None\<rparr> h of
                       (r, h1) \<Rightarrow> (status_reply r, h1)))))"

definition dkg_round2 ::
  "dkg_suite \<Rightarrow> dkg_crate \<Rightarrow> dkg_env \<Rightarrow> mesh_principal \<Rightarrow> (string + round2_body) \<Rightarrow> dkg_hub \<Rightarrow> (nat \<times> dkg_reply) \<times> dkg_hub" where
  "dkg_round2 s c v who body h =
     (case body of
        Inl e \<Rightarrow> ((400, ErrorText (json_err_text (''invalid json: '' @ e))), h)
      | Inr q \<Rightarrow>
          if r2b_deliver q
          then (case hub_take_round2 s c (r2b_session q) h of
                  (Inl e, h1) \<Rightarrow> ((400, dkg_err e), h1)
                | (Inr ms, h1) \<Rightarrow>
                    (case (if r2b_fanout q then fanout_round2 s h1 (de_net v) ms else Inr ()) of
                       Inl e \<Rightarrow> ((502, dkg_err e), h1)
                     | Inr _ \<Rightarrow> ((200, OutboundReply ms), h1)))
          else (case r2b_package q of
                  None \<Rightarrow> ((400, ErrorText (json_err_text ''round2 requires package_hex (ingest) or deliver=true'')), h)
                | Some package \<Rightarrow>
                    let sender = (case r2b_sender q of Some n \<Rightarrow> n | None \<Rightarrow> []) in
                    (case bind_dkg_sender sender (Some who) (de_lab_token v) of
                       Inl e \<Rightarrow> ((401, dkg_err e), h)
                     | Inr _ \<Rightarrow>
                         (case hub_round2 s c
                             \<lparr>m2_session = r2b_session q, m2_sender = sender,
                              m2_sender_id = (case r2b_sender_id q of Some n \<Rightarrow> n | None \<Rightarrow> 0),
                              m2_recipient = (case r2b_recipient q of Some n \<Rightarrow> n | None \<Rightarrow> []),
                              m2_recipient_id = (case r2b_recipient_id q of Some n \<Rightarrow> n | None \<Rightarrow> 0),
                              m2_transcript = (case r2b_transcript q of Some t \<Rightarrow> t | None \<Rightarrow> []),
                              m2_package = package, m2_envelope = None\<rparr> h of
                            (r, h1) \<Rightarrow> (status_reply r, h1)))))"

definition dkg_round3 ::
  "dkg_suite \<Rightarrow> dkg_crate \<Rightarrow> 's share_port \<Rightarrow> (string + round3_body) \<Rightarrow> dkg_hub \<Rightarrow> 's \<Rightarrow> (nat \<times> dkg_reply) \<times> dkg_hub \<times> 's" where
  "dkg_round3 s c port body h st =
     (case body of
        Inl e \<Rightarrow> ((400, ErrorText (json_err_text (''invalid json: '' @ e))), h, st)
      | Inr q \<Rightarrow>
          if \<not> r3b_finalize q then (status_reply (hub_status s c (r3b_session q) h), h, st)
          else (case hub_finalize s c port (r3b_session q) h st of (r, h1, st1) \<Rightarrow> (status_reply r, h1, st1)))"

definition dkg_status_reply :: "dkg_suite \<Rightarrow> dkg_crate \<Rightarrow> string option \<Rightarrow> dkg_hub \<Rightarrow> nat \<times> dkg_reply" where
  "dkg_status_reply s c session h =
     (case session of
        None \<Rightarrow> (400, ErrorText (json_err_text ''session_id query required''))
      | Some i \<Rightarrow> status_reply (hub_status s c i h))"

section \<open>The Taproot hub\<close>

text \<open>\<open>TrWireDkgHub\<close> of \<open>adapters/dkg_tr_wire.rs\<close>, operation by operation: the same code over the Taproot
  ciphersuite, without envelopes, with an even Y forced at the end.\<close>

definition tr_build_roster :: "dkg_crate \<Rightarrow> string list \<Rightarrow> string btmap res" where
  "tr_build_roster = build_roster tr_suite"

definition session_transcript_tr :: "dkg_crate \<Rightarrow> string \<Rightarrow> u16 \<Rightarrow> u16 \<Rightarrow> string btmap \<Rightarrow> string" where
  "session_transcript_tr = session_transcript tr_suite"

definition assert_threshold_tr :: "dkg_crate \<Rightarrow> string \<Rightarrow> string \<Rightarrow> u16 \<Rightarrow> u16 \<Rightarrow> unit res" where
  "assert_threshold_tr = assert_threshold tr_suite"

definition tr_status :: "dkg_crate \<Rightarrow> string \<Rightarrow> dkg_hub \<Rightarrow> dkg_status res" where
  "tr_status = hub_status tr_suite"

definition tr_start :: "dkg_crate \<Rightarrow> string \<Rightarrow> dkg_start_request \<Rightarrow> dkg_hub \<Rightarrow> (dkg_status \<times> round1_message) res \<times> dkg_hub" where
  "tr_start = hub_start tr_suite"

definition tr_round1 :: "dkg_crate \<Rightarrow> round1_message \<Rightarrow> dkg_hub \<Rightarrow> dkg_status res \<times> dkg_hub" where
  "tr_round1 = hub_round1 tr_suite"

definition tr_advance :: "dkg_crate \<Rightarrow> dkg_session \<Rightarrow> unit res \<times> dkg_session" where
  "tr_advance = advance_to_round2 tr_suite"

definition tr_take_round2 :: "dkg_crate \<Rightarrow> string \<Rightarrow> dkg_hub \<Rightarrow> round2_message list res \<times> dkg_hub" where
  "tr_take_round2 = hub_take_round2 tr_suite"

definition tr_round2 :: "dkg_crate \<Rightarrow> round2_message \<Rightarrow> dkg_hub \<Rightarrow> dkg_status res \<times> dkg_hub" where
  "tr_round2 = hub_round2 tr_suite"

definition tr_finalize :: "dkg_crate \<Rightarrow> 's share_port \<Rightarrow> string \<Rightarrow> dkg_hub \<Rightarrow> 's \<Rightarrow> dkg_status res \<times> dkg_hub \<times> 's" where
  "tr_finalize = hub_finalize tr_suite"

definition tr_fanout_round1 :: "dkg_hub \<Rightarrow> (string \<Rightarrow> nat \<Rightarrow> http_answer) \<Rightarrow> string btmap \<Rightarrow> unit res" where
  "tr_fanout_round1 = fanout_round1 tr_suite"

definition tr_fanout_round2 :: "dkg_hub \<Rightarrow> (string \<Rightarrow> nat \<Rightarrow> http_answer) \<Rightarrow> round2_message list \<Rightarrow> unit res" where
  "tr_fanout_round2 = fanout_round2 tr_suite"

text \<open>Every message of the Taproot hub is refused by the plain hub's session of the same constitution and the
  other way round, if the digest does not confuse the two texts.\<close>

lemma transcripts_apart:
  "inj_on (dc_sha256 c) {session_text plain_suite i mx mn r, session_text tr_suite i mx mn r} \<Longrightarrow>
     session_transcript plain_suite c i mx mn r \<noteq> session_transcript_tr c i mx mn r"
  by (auto simp: session_transcript_tr_def session_transcript_def hex_encode_inj session_text_def plain_suite_def tr_suite_def
      dest: inj_onD)

section \<open>Sessions over a run\<close>

datatype dkg_op =
    OpStart string dkg_start_request
  | OpRound1 round1_message
  | OpTake string
  | OpRound2 round2_message
  | OpFinalize string

text \<open>One operation of the hub, with the share store it writes to.\<close>

fun dkg_step :: "dkg_suite \<Rightarrow> dkg_crate \<Rightarrow> 's share_port \<Rightarrow> dkg_op \<Rightarrow> dkg_hub \<times> 's \<Rightarrow> bool \<times> dkg_hub \<times> 's" where
  "dkg_step s c port (OpStart seed q) (h, st) = (let (r, h1) = hub_start s c seed q h in (is_ok r, h1, st))"
| "dkg_step s c port (OpRound1 m) (h, st) = (let (r, h1) = hub_round1 s c m h in (is_ok r, h1, st))"
| "dkg_step s c port (OpTake i) (h, st) = (let (r, h1) = hub_take_round2 s c i h in (is_ok r, h1, st))"
| "dkg_step s c port (OpRound2 m) (h, st) = (let (r, h1) = hub_round2 s c m h in (is_ok r, h1, st))"
| "dkg_step s c port (OpFinalize i) (h, st) = (let (r, h1, st1) = hub_finalize s c port i h st in (is_ok r, h1, st1))"

definition complete_ok :: "dkg_suite \<Rightarrow> dkg_crate \<Rightarrow> dkg_session \<Rightarrow> bool" where
  "complete_ok s c x \<longleftrightarrow>
     unat (dk_max x) - 1 \<le> length (dk_inbox x) \<and>
     (\<exists>r2 kp pk. dc_part3 c r2 (bt_remove (dk_ident x) (dk_r1 x)) (dk_inbox x) = Some (kp, pk) \<and>
        dc_key_min c kp = dk_min x \<and> dc_pub_max c pk = dk_max x \<and> dc_pub_min c pk \<in> {None, Some (dk_min x)} \<and>
        (dk_key x, dk_pub x) =
          (let (k, p) = (if su_taproot s then dc_even_y c (kp, pk) else (kp, pk)) in (Some k, Some p)))"

definition session_ok :: "dkg_suite \<Rightarrow> dkg_crate \<Rightarrow> string \<Rightarrow> dkg_session \<Rightarrow> bool" where
  "session_ok s c node x \<longleftrightarrow>
     dk_node x = node \<and> 2 \<le> dk_min x \<and> dk_min x \<le> dk_max x \<and>
     (\<exists>names. build_roster s c names = Inr (dk_roster x)) \<and> word_of_nat (length (dk_roster x)) = dk_max x \<and>
     dk_transcript x = session_transcript s c (dk_session x) (dk_max x) (dk_min x) (dk_roster x) \<and>
     bt_get node (dk_roster x) = Some (dk_ident x) \<and>
     bt_ok (dk_r1 x) \<and> bt_get (dk_ident x) (dk_r1 x) \<noteq> None \<and>
     set (bt_keys (dk_r1 x)) \<subseteq> snd ` set (dk_roster x) \<and>
     bt_ok (dk_inbox x) \<and> set (bt_keys (dk_inbox x)) \<subseteq> snd ` set (dk_roster x) \<and>
     (case dk_phase x of
        DkgRound1 \<Rightarrow> \<not> dk_closed x \<and> dk_r2_secret x = None \<and> dk_outbound x = [] \<and> dk_key x = None \<and> dk_pub x = None
      | DkgRound2 \<Rightarrow> dk_closed x \<and> dk_r1_secret x = None \<and> dk_r2_secret x \<noteq> None \<and>
          word_of_nat (length (dk_r1 x)) = dk_max x \<and> dk_key x = None \<and> dk_pub x = None
      | DkgComplete \<Rightarrow> dk_closed x \<and> dk_r1_secret x = None \<and> dk_r2_secret x = None \<and>
          word_of_nat (length (dk_r1 x)) = dk_max x \<and> complete_ok s c x)"

text \<open>What a later state of the session keeps of an earlier one.\<close>

fun phase_rank :: "dkg_phase \<Rightarrow> nat" where
  "phase_rank DkgRound1 = 0"
| "phase_rank DkgRound2 = 1"
| "phase_rank DkgComplete = 2"

definition session_kept :: "dkg_session \<Rightarrow> dkg_session \<Rightarrow> bool" where
  "session_kept x y \<longleftrightarrow>
     dk_session y = dk_session x \<and> dk_node y = dk_node x \<and> dk_ident y = dk_ident x \<and>
     dk_max y = dk_max x \<and> dk_min y = dk_min x \<and> dk_roster y = dk_roster x \<and> dk_transcript y = dk_transcript x \<and>
     bt_get (dk_ident x) (dk_r1 y) = bt_get (dk_ident x) (dk_r1 x) \<and>
     phase_rank (dk_phase x) \<le> phase_rank (dk_phase y) \<and>
     (dk_phase x \<noteq> DkgRound1 \<longrightarrow> dk_r1 y = dk_r1 x) \<and>
     (dk_phase x = DkgRound1 \<and> dk_r1_secret x = None \<longrightarrow> dk_phase y = DkgRound1 \<and> dk_r1_secret y = None) \<and>
     (dk_phase x = DkgComplete \<longrightarrow> dk_key y = dk_key x \<and> dk_pub y = dk_pub x \<and> dk_inbox y = dk_inbox x)"

definition hub_ok :: "dkg_suite \<Rightarrow> dkg_crate \<Rightarrow> dkg_hub \<Rightarrow> bool" where
  "hub_ok s c h \<longleftrightarrow>
     (\<forall>i x. bt_get i (dh_sessions h) = Some x \<longrightarrow> dk_session x = i \<and> session_ok s c (dh_node h) x) \<and>
     (\<forall>k p m. dh_completed h = Some (k, p, m) \<longrightarrow>
        (\<exists>i x. bt_get i (dh_sessions h) = Some x \<and> dk_phase x = DkgComplete \<and>
           dk_key x = Some k \<and> dk_pub x = Some p \<and> dk_min x = m))"

definition hub_kept :: "dkg_hub \<Rightarrow> dkg_hub \<Rightarrow> bool" where
  "hub_kept h h1 \<longleftrightarrow>
     dh_node h1 = dh_node h \<and>
     (\<forall>i x. bt_get i (dh_sessions h) = Some x \<longrightarrow> (\<exists>y. bt_get i (dh_sessions h1) = Some y \<and> session_kept x y))"

lemma session_kept_refl [simp]: "session_kept x x"
  by (simp add: session_kept_def)

lemma phase_rank_inj: "phase_rank p = 0 \<longleftrightarrow> p = DkgRound1" "phase_rank p \<ge> 2 \<longleftrightarrow> p = DkgComplete"
  by (cases p; simp)+

lemma session_kept_complete: "session_kept x y \<Longrightarrow> dk_phase x = DkgComplete \<Longrightarrow> dk_phase y = DkgComplete"
  by (auto simp: session_kept_def phase_rank_inj simp flip: phase_rank_inj(2))

lemma session_kept_later: "session_kept x y \<Longrightarrow> dk_phase x \<noteq> DkgRound1 \<Longrightarrow> dk_phase y \<noteq> DkgRound1"
  by (auto simp: session_kept_def simp flip: phase_rank_inj(1))

lemma session_kept_trans:
  assumes "session_kept x y" "session_kept y z"
  shows "session_kept x z"
  using assms session_kept_complete [OF assms(1)] session_kept_later [OF assms(1)]
  unfolding session_kept_def by auto

lemma hub_kept_refl [simp]: "hub_kept h h"
  by (auto simp: hub_kept_def)

lemma hub_kept_trans: "hub_kept h h1 \<Longrightarrow> hub_kept h1 h2 \<Longrightarrow> hub_kept h h2"
  unfolding hub_kept_def using session_kept_trans by metis

lemma put_session_fields [simp]:
  "dh_node (put_session y h) = dh_node h"
  "dh_completed (put_session y h) = dh_completed h"
  "bt_get i (dh_sessions (put_session y h)) = (if i = dk_session y then Some y else bt_get i (dh_sessions h))"
  by (simp_all add: put_session_def bt_get_put)

text \<open>Putting back a session that kept its promises keeps the hub's.\<close>

lemma put_session_ok:
  assumes h: "hub_ok s c h" and x: "bt_get (dk_session y) (dh_sessions h) = Some x"
    and y: "session_ok s c (dh_node h) y" and k: "session_kept x y"
  shows "hub_ok s c (put_session y h) \<and> hub_kept h (put_session y h)"
proof
  have "\<exists>i z. bt_get i (dh_sessions (put_session y h)) = Some z \<and> dk_phase z = DkgComplete \<and>
      dk_key z = Some a \<and> dk_pub z = Some p \<and> dk_min z = m" if d: "dh_completed h = Some (a, p, m)" for a p m
  proof -
    from h d obtain i z where z: "bt_get i (dh_sessions h) = Some z" "dk_phase z = DkgComplete"
      "dk_key z = Some a" "dk_pub z = Some p" "dk_min z = m" by (auto simp: hub_ok_def)
    show ?thesis
    proof (cases "i = dk_session y")
      case True
      then have "z = x" using z x by simp
      then show ?thesis using True z k session_kept_complete [OF k]
        by (intro exI [of _ i] exI [of _ y]) (simp add: session_kept_def)
    next
      case False
      then show ?thesis using z by (intro exI [of _ i] exI [of _ z]) simp
    qed
  qed
  then show "hub_ok s c (put_session y h)"
    using h y unfolding hub_ok_def by simp
  show "hub_kept h (put_session y h)"
    using x k by (auto simp: hub_kept_def)
qed

lemma hub_ok_get:
  assumes "hub_ok s c h" "bt_get i (dh_sessions h) = Some x"
  shows "dk_session x = i" "session_ok s c (dh_node h) x"
  using assms by (auto simp: hub_ok_def)

lemma accept_round1_cases:
  assumes "accept_round1 s c m x = (r, y)"
  shows "y = x \<or> (dk_phase x = DkgRound1 \<and> \<not> dk_closed x \<and>
    (\<exists>sender p. bt_get (m1_sender m) (dk_roster x) = Some sender \<and> sender \<noteq> dk_ident x \<and>
      (let x1 = x\<lparr>dk_r1 := bt_put sender p (dk_r1 x)\<rparr> in
        y = x1 \<or> y = x1\<lparr>dk_r1_secret := None\<rparr> \<or>
        (word_of_nat (length (dk_r1 x1)) = dk_max x \<and> dk_r1_secret x \<noteq> None \<and>
         (\<exists>r2 out. y = x1\<lparr>dk_r1_secret := None, dk_r2_secret := Some r2, dk_outbound := out, dk_closed := True,
            dk_phase := DkgRound2\<rparr>)))))"
  using assms unfolding accept_round1_def advance_to_round2_def
  by (auto simp: Let_def split: if_splits sum.splits option.splits prod.splits)

lemma bt_get_vals: "bt_get k m = Some v \<Longrightarrow> v \<in> snd ` set m"
  using bt_get_Some_in [of k m v] by force

lemma identifier_of_roster: "bt_get node roster = Some i \<Longrightarrow> i \<in> snd ` set roster"
  by (rule bt_get_vals)

text \<open>The session a start makes is well formed.\<close>

lemma fresh_session_ok:
  assumes "\<not> (ds_max q < 2 \<or> ds_min q < 2 \<or> ds_max q < ds_min q)" "build_roster s c (ds_roster q) = Inr roster"
    and "word_of_nat (length roster) = ds_max q" "bt_get (dh_node h) roster = Some ident"
  shows "session_ok s c (dh_node h)
    (fresh_session h q roster (session_transcript s c (ds_session q) (ds_max q) (ds_min q) roster) ident p)"
  using assms identifier_of_roster [OF assms(4)]
  by (auto simp: session_ok_def fresh_session_def not_less bt_ok_Cons)

lemma put_new_ok:
  assumes h: "hub_ok s c h" and n: "bt_get (dk_session y) (dh_sessions h) = None" and y: "session_ok s c (dh_node h) y"
  shows "hub_ok s c (put_session y h) \<and> hub_kept h (put_session y h)"
proof
  have "\<exists>i z. bt_get i (dh_sessions (put_session y h)) = Some z \<and> dk_phase z = DkgComplete \<and>
      dk_key z = Some a \<and> dk_pub z = Some p \<and> dk_min z = m" if d: "dh_completed h = Some (a, p, m)" for a p m
  proof -
    from h d obtain i z where z: "bt_get i (dh_sessions h) = Some z" "dk_phase z = DkgComplete"
      "dk_key z = Some a" "dk_pub z = Some p" "dk_min z = m" by (auto simp: hub_ok_def)
    then show ?thesis using n by (intro exI [of _ i] exI [of _ z]) auto
  qed
  then show "hub_ok s c (put_session y h)" using h y unfolding hub_ok_def by simp
  show "hub_kept h (put_session y h)" using n by (auto simp: hub_kept_def)
qed

lemma start_keeps:
  assumes h: "hub_ok s c h"
  shows "hub_ok s c (snd (hub_start s c seed q h)) \<and> hub_kept h (snd (hub_start s c seed q h))"
proof (cases "snd (hub_start s c seed q h) = h")
  case False
  then obtain roster ident p where b: "\<not> (ds_max q < 2 \<or> ds_min q < 2 \<or> ds_max q < ds_min q)"
    "build_roster s c (ds_roster q) = Inr roster" "word_of_nat (length roster) = ds_max q"
    "bt_get (ds_session q) (dh_sessions h) = None" "bt_get (dh_node h) roster = Some ident"
    and e: "snd (hub_start s c seed q h) = put_session
      (fresh_session h q roster (session_transcript s c (ds_session q) (ds_max q) (ds_min q) roster) ident p) h"
    unfolding hub_start_def Let_def
    by (auto split: if_splits sum.splits option.splits prod.splits)
  show ?thesis unfolding e
    by (rule put_new_ok [OF h]) (use b fresh_session_ok [OF b(1-3,5)] in \<open>simp_all add: fresh_session_def\<close>)
qed (simp add: h)

lemma accept_round1_ok:
  assumes x: "session_ok s c node x" and y: "accept_round1 s c m x = (r, y)"
  shows "session_ok s c node y \<and> session_kept x y"
proof (cases "y = x")
  case False
  then obtain sender p where ph: "dk_phase x = DkgRound1" "\<not> dk_closed x"
    and sd: "bt_get (m1_sender m) (dk_roster x) = Some sender" "sender \<noteq> dk_ident x"
    and c: "(let x1 = x\<lparr>dk_r1 := bt_put sender p (dk_r1 x)\<rparr> in
        y = x1 \<or> y = x1\<lparr>dk_r1_secret := None\<rparr> \<or>
        (word_of_nat (length (dk_r1 x1)) = dk_max x \<and> dk_r1_secret x \<noteq> None \<and>
         (\<exists>r2 out. y = x1\<lparr>dk_r1_secret := None, dk_r2_secret := Some r2, dk_outbound := out, dk_closed := True,
            dk_phase := DkgRound2\<rparr>)))"
    using accept_round1_cases [OF y] by blast
  have r: "sender \<in> snd ` set (dk_roster x)" by (rule bt_get_vals [OF sd(1)])
  from c show ?thesis
    unfolding Let_def
    using x ph sd r by (elim disjE conjE exE) (auto simp: session_ok_def session_kept_def bt_get_put bt_keys_put)
qed (use x in simp)

lemma round1_keeps:
  assumes h: "hub_ok s c h"
  shows "hub_ok s c (snd (hub_round1 s c m h)) \<and> hub_kept h (snd (hub_round1 s c m h))"
proof (cases "snd (hub_round1 s c m h) = h")
  case False
  then obtain x r y where x: "bt_get (m1_session m) (dh_sessions h) = Some x" and y: "accept_round1 s c m x = (r, y)"
    and e: "snd (hub_round1 s c m h) = put_session y h"
    by (auto simp: hub_round1_def split: if_splits sum.splits option.splits prod.splits)
  have k: "session_ok s c (dh_node h) y \<and> session_kept x y"
    by (rule accept_round1_ok [OF hub_ok_get(2) [OF h x] y])
  show ?thesis unfolding e
    by (rule put_session_ok [OF h]) (use x k hub_ok_get(1) [OF h x] in \<open>auto simp: session_kept_def\<close>)
qed (simp add: h)

lemma take_keeps:
  assumes h: "hub_ok s c h"
  shows "hub_ok s c (snd (hub_take_round2 s c i h)) \<and> hub_kept h (snd (hub_take_round2 s c i h))"
proof (cases "bt_get i (dh_sessions h)")
  case (Some x)
  have "session_ok s c (dh_node h) (x\<lparr>dk_outbound := []\<rparr>)"
    using hub_ok_get(2) [OF h Some] by (cases "dk_phase x") (auto simp: session_ok_def complete_ok_def)
  moreover have "session_kept x (x\<lparr>dk_outbound := []\<rparr>)" by (auto simp: session_kept_def)
  ultimately show ?thesis
    using put_session_ok [OF h, of "x\<lparr>dk_outbound := []\<rparr>" x] hub_ok_get(1) [OF h Some] Some
    by (simp add: hub_take_round2_def)
qed (simp add: h hub_take_round2_def)

lemma accept_round2_ok:
  assumes x: "session_ok s c node x" "dk_phase x \<noteq> DkgComplete" and y: "accept_round2 s c m x = (r, y)"
  shows "session_ok s c node y \<and> session_kept x y"
proof -
  have "y = x \<or> (\<exists>sender p. bt_get (m2_sender m) (dk_roster x) = Some sender \<and> y = x\<lparr>dk_inbox := bt_put sender p (dk_inbox x)\<rparr>)"
    using y unfolding accept_round2_def by (auto simp: Let_def split: if_splits sum.splits option.splits)
  then show ?thesis
  proof (elim disjE exE conjE)
    fix sender p
    assume "bt_get (m2_sender m) (dk_roster x) = Some sender" and e: "y = x\<lparr>dk_inbox := bt_put sender p (dk_inbox x)\<rparr>"
    then have "sender \<in> snd ` set (dk_roster x)" by (simp add: bt_get_vals)
    then show ?thesis unfolding e using x
      by (cases "dk_phase x") (auto simp: session_ok_def session_kept_def bt_keys_put)
  qed (use x in simp)
qed

lemma round2_keeps:
  assumes h: "hub_ok s c h"
  shows "hub_ok s c (snd (hub_round2 s c m h)) \<and> hub_kept h (snd (hub_round2 s c m h))"
proof (cases "snd (hub_round2 s c m h) = h")
  case False
  then obtain x r y where x: "bt_get (m2_session m) (dh_sessions h) = Some x" "dk_phase x \<noteq> DkgComplete"
    and y: "accept_round2 s c m x = (r, y)" and e: "snd (hub_round2 s c m h) = put_session y h"
    by (auto simp: hub_round2_def split: if_splits sum.splits option.splits prod.splits)
  have k: "session_ok s c (dh_node h) y \<and> session_kept x y"
    by (rule accept_round2_ok [OF hub_ok_get(2) [OF h x(1)] x(2) y])
  show ?thesis unfolding e
    by (rule put_session_ok [OF h]) (use x k hub_ok_get(1) [OF h x(1)] in \<open>auto simp: session_kept_def\<close>)
qed (simp add: h)

lemma assert_threshold_ok:
  "assert_threshold s c kp pk mn mx = Inr () \<longleftrightarrow>
     dc_key_min c kp = mn \<and> dc_pub_min c pk \<in> {None, Some mn} \<and> dc_pub_max c pk = mx"
  by (auto simp: assert_threshold_def threshold_err_def split: option.splits if_splits)

lemma hub_finalize_cases:
  assumes "hub_finalize s c port i h st = (r, h1, st1)" "h1 \<noteq> h"
  shows "\<exists>x r2 kp0 pk0 kp pk. bt_get i (dh_sessions h) = Some x \<and> dk_phase x \<noteq> DkgComplete \<and>
    unat (dk_max x) - 1 \<le> length (dk_inbox x) \<and> dk_r2_secret x = Some r2 \<and>
    dc_part3 c r2 (bt_remove (dk_ident x) (dk_r1 x)) (dk_inbox x) = Some (kp0, pk0) \<and>
    assert_threshold s c kp0 pk0 (dk_min x) (dk_max x) = Inr () \<and>
    (kp, pk) = (if su_taproot s then dc_even_y c (kp0, pk0) else (kp0, pk0)) \<and>
    put_all port 0 (dkg_files s x kp pk) st = (Inr (), st1) \<and>
    h1 = (put_session (complete_session x kp pk) h)\<lparr>dh_completed := Some (kp, pk, dk_min x)\<rparr>"
proof -
  obtain x where x: "bt_get i (dh_sessions h) = Some x" "dk_phase x \<noteq> DkgComplete"
    using assms by (auto simp: hub_finalize_def split: option.splits if_splits)
  then have l: "unat (dk_max x) - 1 \<le> length (dk_inbox x)"
    using assms by (auto simp: hub_finalize_def Let_def split: if_splits)
  then obtain r2 where r2: "dk_r2_secret x = Some r2"
    using assms x by (auto simp: hub_finalize_def Let_def split: option.splits if_splits)
  then obtain kp0 pk0 where p3: "dc_part3 c r2 (bt_remove (dk_ident x) (dk_r1 x)) (dk_inbox x) = Some (kp0, pk0)"
    using assms x l by (auto simp: hub_finalize_def Let_def of_dkg_def threshold_err_def split: option.splits)
  obtain kp pk where k: "(kp, pk) = (if su_taproot s then dc_even_y c (kp0, pk0) else (kp0, pk0))"
    by (metis prod.collapse)
  have a: "assert_threshold s c kp0 pk0 (dk_min x) (dk_max x) = Inr ()"
    using assms x l r2 p3 by (auto simp: hub_finalize_def Let_def of_dkg_def split: sum.splits)
  obtain w st2 where w: "put_all port 0 (dkg_files s x kp pk) st = (w, st2)" by fastforce
  have "w = Inr () \<and> st2 = st1 \<and> h1 = (put_session (complete_session x kp pk) h)\<lparr>dh_completed := Some (kp, pk, dk_min x)\<rparr>"
    using assms x l r2 p3 a w by (cases w) (auto simp: hub_finalize_def Let_def of_dkg_def k [symmetric])
  then show ?thesis using x l r2 p3 k a w by blast
qed

lemma finalize_keeps:
  assumes h: "hub_ok s c h" and f: "hub_finalize s c port i h st = (r, h1, st1)"
  shows "hub_ok s c h1 \<and> hub_kept h h1"
proof (cases "h1 = h")
  case False
  obtain x r2 kp0 pk0 kp pk where x: "bt_get i (dh_sessions h) = Some x" "dk_phase x \<noteq> DkgComplete"
    and l: "unat (dk_max x) - 1 \<le> length (dk_inbox x)" and r2: "dk_r2_secret x = Some r2"
    and p3: "dc_part3 c r2 (bt_remove (dk_ident x) (dk_r1 x)) (dk_inbox x) = Some (kp0, pk0)"
    and a: "assert_threshold s c kp0 pk0 (dk_min x) (dk_max x) = Inr ()"
    and k: "(kp, pk) = (if su_taproot s then dc_even_y c (kp0, pk0) else (kp0, pk0))"
    and e: "h1 = (put_session (complete_session x kp pk) h)\<lparr>dh_completed := Some (kp, pk, dk_min x)\<rparr>"
    using hub_finalize_cases [OF f False] by blast
  let ?y = "complete_session x kp pk"
  note ok = hub_ok_get(2) [OF h x(1)]
  have ph: "dk_phase x = DkgRound2"
    using ok x(2) r2 by (cases "dk_phase x") (simp_all add: session_ok_def)
  have "complete_ok s c ?y"
  proof -
    have fields: "dk_max ?y = dk_max x" "dk_min ?y = dk_min x" "dk_inbox ?y = dk_inbox x" "dk_r1 ?y = dk_r1 x"
      "dk_ident ?y = dk_ident x" "dk_key ?y = Some kp" "dk_pub ?y = Some pk" by (simp_all add: complete_session_def)
    have key: "(Some kp, Some pk) =
        (let (a, b) = (if su_taproot s then dc_even_y c (kp0, pk0) else (kp0, pk0)) in (Some a, Some b))"
      unfolding k [symmetric] by simp
    show ?thesis
      unfolding complete_ok_def fields using l p3 a [unfolded assert_threshold_ok] key by blast
  qed
  then have "session_ok s c (dh_node h) ?y"
    using ok ph unfolding session_ok_def complete_session_def by simp
  moreover have kept: "session_kept x ?y" using ph by (simp add: session_kept_def complete_session_def)
  moreover have s: "dk_session ?y = i" using hub_ok_get(1) [OF h x(1)] by (simp add: complete_session_def)
  ultimately have ok: "hub_ok s c (put_session ?y h) \<and> hub_kept h (put_session ?y h)"
    using put_session_ok [OF h, of ?y x] x(1) by simp
  have n: "dh_sessions h1 = dh_sessions (put_session ?y h)" "dh_node h1 = dh_node (put_session ?y h)"
    "dh_completed h1 = Some (kp, pk, dk_min x)" by (simp_all add: e)
  have "\<exists>j z. bt_get j (dh_sessions h1) = Some z \<and> dk_phase z = DkgComplete \<and>
      dk_key z = Some a \<and> dk_pub z = Some p \<and> dk_min z = m" if "dh_completed h1 = Some (a, p, m)" for a p m
    using that s unfolding n by (intro exI [of _ i] exI [of _ ?y]) (simp add: complete_session_def)
  moreover have "\<forall>j z. bt_get j (dh_sessions h1) = Some z \<longrightarrow> dk_session z = j \<and> session_ok s c (dh_node h1) z"
    using ok unfolding n hub_ok_def by blast
  ultimately have "hub_ok s c h1" unfolding hub_ok_def by blast
  moreover have "hub_kept h h1" using ok unfolding n hub_kept_def by blast
  ultimately show ?thesis ..
qed (simp add: h)

lemma dkg_step_keeps:
  assumes "hub_ok s c (fst w)"
  shows "hub_ok s c (fst (snd (dkg_step s c port x w))) \<and> hub_kept (fst w) (fst (snd (dkg_step s c port x w)))"
proof -
  obtain h st where w: "w = (h, st)" by fastforce
  then have h: "hub_ok s c h" using assms by simp
  show ?thesis
  proof (cases x)
    case (OpStart seed q)
    then show ?thesis using start_keeps [OF h, of seed q] by (simp add: w case_prod_beta Let_def)
  next
    case (OpRound1 m)
    then show ?thesis using round1_keeps [OF h, of m] by (simp add: w case_prod_beta Let_def)
  next
    case (OpTake i)
    then show ?thesis using take_keeps [OF h, of i] by (simp add: w case_prod_beta Let_def)
  next
    case (OpRound2 m)
    then show ?thesis using round2_keeps [OF h, of m] by (simp add: w case_prod_beta Let_def)
  next
    case (OpFinalize i)
    obtain r h1 st1 where f: "hub_finalize s c port i h st = (r, h1, st1)" by (metis prod.collapse)
    then show ?thesis using finalize_keeps [OF h f] by (simp add: w OpFinalize)
  qed
qed

lemma dkg_run_keeps:
  fixes port :: "'a share_port"
  assumes "hub_ok s c h"
  shows "hub_ok s c (fst (snd (run_ops (dkg_step s c port) xs (h, st)))) \<and>
    hub_kept h (fst (snd (run_ops (dkg_step s c port) xs (h, st))))"
proof (rule run_ops_invariant [where P = "\<lambda>w. hub_ok s c (fst w) \<and> hub_kept h (fst w)"])
  fix x and w :: "dkg_hub \<times> 'a"
  assume "hub_ok s c (fst w) \<and> hub_kept h (fst w)"
  then show "hub_ok s c (fst (snd (dkg_step s c port x w))) \<and> hub_kept h (fst (snd (dkg_step s c port x w)))"
    using dkg_step_keeps [of s c w port x] hub_kept_trans by blast
qed (use assms in simp)

definition fresh_hub :: "string \<Rightarrow> string btmap \<Rightarrow> bool \<Rightarrow> peer_http \<Rightarrow> dkg_hub" where
  "fresh_hub node peers mtls p =
     \<lparr>dh_node = node, dh_peers = peers, dh_mtls = mtls, dh_http = p, dh_sessions = [], dh_completed = None\<rparr>"

lemma fresh_hub_ok: "hub_ok s c (fresh_hub node peers mtls p)"
  by (simp add: hub_ok_def fresh_hub_def)

section \<open>Properties\<close>

lemma dkg_run_split:
  "snd (run_ops step (xs @ ys) w) = snd (run_ops step ys (snd (run_ops step xs w)))"
  by (induction xs arbitrary: w) simp_all

text \<open>C25: key generation sessions stay well formed and keep what they froze: after any run of hub operations
  from start-up every session has a roster numbered from one, \<open>max\<close> members and a threshold between two and
  \<open>max\<close>, the transcript of exactly those, packages of members only, and, once complete, keys that part three
  made from the packages it holds with the frozen threshold and size; after any further run it is still there
  with the same members, threshold and transcript, no earlier phase and, once complete, the same keys.\<close>

theorem dkg_sessions_well_formed:
  assumes "snd (run_ops (dkg_step s c port) xs (fresh_hub node peers mtls p, st)) = (h, st1)"
    and "snd (run_ops (dkg_step s c port) ys (h, st1)) = (h2, st2)"
    and "bt_get i (dh_sessions h) = Some x"
  shows "dk_session x = i \<and> session_ok s c node x \<and>
    (\<exists>y. bt_get i (dh_sessions h2) = Some y \<and> session_ok s c node y \<and> session_kept x y)"
proof -
  have h: "hub_ok s c h" "dh_node h = node"
    using dkg_run_keeps [OF fresh_hub_ok, of s c port xs node peers mtls p st] assms(1)
    by (auto simp: hub_kept_def fresh_hub_def)
  have h2: "hub_ok s c h2" "hub_kept h h2"
    using dkg_run_keeps [OF h(1), of port ys st1] assms(2) by auto
  then obtain y where y: "bt_get i (dh_sessions h2) = Some y" "session_kept x y" and n: "dh_node h2 = node"
    using assms(3) h(2) by (auto simp: hub_kept_def)
  show ?thesis
    using hub_ok_get [OF h(1) assms(3)] hub_ok_get(2) [OF h2(1) y(1)] y n h(2) by auto
qed

definition demo_dkg_crate :: dkg_crate where
  "demo_dkg_crate =
     \<lparr>dc_ident = (\<lambda>v. Some [chr (unat v)]), dc_part1 = (\<lambda>i mx mn seed. Some (seed, i @ seed)), dc_round1 = Some,
      dc_part2 = (\<lambda>sec m. if \<exists>k v. (k, v) \<in> set m \<and> v = ''bad'' then None else Some (sec, map (\<lambda>(i, _). (i, i)) m)),
      dc_round2 = Some, dc_part3 = (\<lambda>sec a b. Some (sec, ''group'')), dc_even_y = id, dc_key_min = (\<lambda>_. 2),
      dc_pub_min = (\<lambda>_. None), dc_pub_max = (\<lambda>_. 2), dc_vk = id, dc_sha256 = id, dc_debug = id, dc_why = ''e''\<rparr>"

definition demo_port :: "unit share_port" where
  "demo_port = \<lparr>sp_put = (\<lambda>n i x s. (Inr (), s)), sp_get = (\<lambda>i s. Inl (PeerNotFound i))\<rparr>"

definition demo_start :: dkg_start_request where
  "demo_start = \<lparr>ds_session = ''s'', ds_max = 2, ds_min = 2, ds_roster = [''b'', ''a'']\<rparr>"

definition demo_roster :: "string btmap" where
  "demo_roster = [(''a'', [chr 1]), (''b'', [chr 2])]"

abbreviation demo_hub :: dkg_hub where
  "demo_hub \<equiv> fresh_hub ''a'' [] True tor_defaults"

lemma demo_build: "build_roster plain_suite demo_dkg_crate [''b'', ''a''] = Inr demo_roster"
  by (simp add: build_roster_def identifier_from_u16_def of_dkg_def demo_dkg_crate_def demo_roster_def
      trim_visible visible_def code_def bs_of_def list_less_def)

definition demo_session :: dkg_session where
  "demo_session = fresh_session demo_hub demo_start demo_roster
     (session_transcript plain_suite demo_dkg_crate ''s'' 2 2 demo_roster) [chr 1] (''k'', [chr 1, CHR ''k''])"

lemma demo_started:
  "snd (run_ops (dkg_step plain_suite demo_dkg_crate demo_port) [OpStart ''k'' demo_start] (demo_hub, ()))
     = (put_session demo_session demo_hub, ())"
proof -
  have "dc_part1 demo_dkg_crate [chr 1] 2 2 ''k'' = Some (''k'', [chr 1, CHR ''k''])"
    by (simp add: demo_dkg_crate_def)
  then show ?thesis
    by (simp add: hub_start_def demo_start_def demo_build fresh_hub_def demo_roster_def of_dkg_def demo_session_def Let_def)
qed

theorem dkg_sessions_well_formed_witness:
  "session_ok plain_suite demo_dkg_crate ''a'' demo_session"
proof -
  have "bt_get ''s'' (dh_sessions (put_session demo_session demo_hub)) = Some demo_session"
    by (simp add: demo_session_def fresh_session_def demo_start_def)
  from dkg_sessions_well_formed [OF demo_started _ this, of "[]"] show ?thesis by simp
qed

text \<open>One bad package ends a session for good: when the last round-one package of a session comes from a
  member and part two refuses the set, the request is refused, the package stays and the round-one secret is
  gone, so that after any further operations, the right package sent again included, the session is still in
  round one and its threshold key is never made.\<close>

theorem dkg_bad_package_wedges:
  assumes "snd (run_ops (dkg_step s c port) xs (fresh_hub node peers mtls p, st)) = (h, st1)"
    and "bt_get (m1_session m) (dh_sessions h) = Some x" "dk_phase x = DkgRound1" "dk_r1_secret x = Some secret"
    and "m1_envelope m = None" "m1_max m = dk_max x" "m1_min m = dk_min x" "m1_transcript m = dk_transcript x"
    and "identifier_from_u16 s c (m1_sender_id m) = Inr j" "bt_get (m1_sender m) (dk_roster x) = Some j" "j \<noteq> dk_ident x"
    and "decode_package s c ''round1'' (dc_round1 c) (m1_package m) = Inr package"
    and "word_of_nat (length (bt_put j package (dk_r1 x))) = dk_max x"
    and "dc_part2 c secret (bt_remove (dk_ident x) (bt_put j package (dk_r1 x))) = None"
    and "hub_round1 s c m h = (r, h1)"
    and "snd (run_ops (dkg_step s c port) ys (h1, st1)) = (h2, st2)"
  shows "\<not> is_ok r \<and> (\<exists>y. bt_get (m1_session m) (dh_sessions h2) = Some y \<and> dk_phase y = DkgRound1
    \<and> dk_key y = None \<and> dk_r1_secret y = None)"
proof -
  have h: "hub_ok s c h"
    using dkg_run_keeps [OF fresh_hub_ok, of s c port xs node peers mtls p st] assms(1) by auto
  have ok: "dk_session x = m1_session m" "session_ok s c (dh_node h) x" using hub_ok_get [OF h assms(2)] by auto
  then have nc: "\<not> dk_closed x" using assms(3) by (simp add: session_ok_def)
  let ?y = "x\<lparr>dk_r1 := bt_put j package (dk_r1 x), dk_r1_secret := None\<rparr>"
  have a: "accept_round1 s c m x = (threshold_err (su_frost s @ '' dkg part2: '' @ dc_why c), ?y)"
    using assms(3-14) nc
    by (simp add: accept_round1_def advance_to_round2_def of_dkg_def threshold_err_def Let_def)
  then have r: "\<not> is_ok r" and h1: "h1 = put_session ?y h"
    using assms(2,3,5,15) by (auto simp: hub_round1_def check_envelope_def threshold_err_def)
  have "hub_ok s c h1" using round1_keeps [OF h, of m] assms(15) by simp
  then have h2: "hub_ok s c h2" "hub_kept h1 h2" using dkg_run_keeps [of s c h1 port ys st1] assms(16) by auto
  have "bt_get (m1_session m) (dh_sessions h1) = Some ?y" by (simp add: h1 ok(1))
  then obtain y where y: "bt_get (m1_session m) (dh_sessions h2) = Some y" "session_kept ?y y"
    using h2(2) by (auto simp: hub_kept_def)
  have "dk_phase y = DkgRound1 \<and> dk_r1_secret y = None" using y(2) assms(3) by (simp add: session_kept_def)
  moreover have "session_ok s c (dh_node h2) y" by (rule hub_ok_get(2) [OF h2(1) y(1)])
  ultimately show ?thesis using r y(1) by (auto simp: session_ok_def)
qed

definition demo_bad :: "string \<Rightarrow> round1_message" where
  "demo_bad package =
     \<lparr>m1_session = ''s'', m1_sender = ''b'', m1_sender_id = 2, m1_max = 2, m1_min = 2,
      m1_transcript = session_transcript plain_suite demo_dkg_crate ''s'' 2 2 demo_roster,
      m1_package = hex_encode package, m1_envelope = None\<rparr>"

theorem dkg_bad_package_wedges_witness:
  "\<exists>y. bt_get ''s'' (dh_sessions (fst (snd (run_ops (dkg_step plain_suite demo_dkg_crate demo_port)
      [OpStart ''k'' demo_start, OpRound1 (demo_bad ''bad''), OpRound1 (demo_bad ''good'')] (demo_hub, ()))))) = Some y
    \<and> dk_phase y = DkgRound1 \<and> dk_key y = None \<and> dk_r1_secret y = None"
proof -
  let ?step = "dkg_step plain_suite demo_dkg_crate demo_port"
  let ?h = "put_session demo_session demo_hub"
  obtain r h1 where r: "hub_round1 plain_suite demo_dkg_crate (demo_bad ''bad'') ?h = (r, h1)" by fastforce
  obtain h2 st2 where h2: "snd (run_ops ?step [OpRound1 (demo_bad ''good'')] (h1, ())) = (h2, st2)"
    by (metis prod.collapse)
  have s: "dk_phase demo_session = DkgRound1" "dk_r1_secret demo_session = Some ''k''" "dk_max demo_session = 2"
    "dk_min demo_session = 2" "dk_roster demo_session = demo_roster" "dk_ident demo_session = [chr 1]"
    "dk_r1 demo_session = [([chr 1], [chr 1, CHR ''k''])]" "dk_session demo_session = ''s''"
    "dk_transcript demo_session = session_transcript plain_suite demo_dkg_crate ''s'' 2 2 demo_roster"
    by (simp_all add: demo_session_def fresh_session_def demo_start_def)
  have m: "m1_session (demo_bad q) = ''s''" "m1_max (demo_bad q) = 2" "m1_min (demo_bad q) = 2" "m1_envelope (demo_bad q) = None"
    "m1_sender (demo_bad q) = ''b''" "m1_sender_id (demo_bad q) = 2" "m1_package (demo_bad q) = hex_encode q"
    "m1_transcript (demo_bad q) = dk_transcript demo_session" for q
    by (simp_all add: demo_bad_def s)
  have c: "chr 2 \<noteq> chr (Suc 0)" "\<not> chr 2 < chr (Suc 0)" "chr (Suc 0) < chr 2" by (simp_all add: chr_def less_char_def)
  have "\<not> is_ok r \<and> (\<exists>y. bt_get (m1_session (demo_bad ''bad'')) (dh_sessions h2) = Some y \<and> dk_phase y = DkgRound1
    \<and> dk_key y = None \<and> dk_r1_secret y = None)"
    by (rule dkg_bad_package_wedges [where x = demo_session and secret = "''k''" and j = "[chr 2]" and package = "''bad''",
          OF demo_started _ _ _ _ _ _ _ _ _ _ _ _ _ r h2])
       (simp_all add: s m demo_roster_def identifier_from_u16_def of_dkg_def decode_package_def demo_dkg_crate_def c)
  moreover have "snd (run_ops ?step [OpStart ''k'' demo_start, OpRound1 (demo_bad ''bad''), OpRound1 (demo_bad ''good'')] (demo_hub, ()))
      = (h2, st2)"
    using dkg_run_split [of ?step "[OpStart ''k'' demo_start]" "[OpRound1 (demo_bad ''bad''), OpRound1 (demo_bad ''good'')]" "(demo_hub, ())"]
      h2 r unfolding demo_started by simp
  ultimately show ?thesis by (simp add: m)
qed

text \<open>C39: the secret round-two packages leave in the reply: whoever the middleware let through, a round-two
  request with \<open>deliver\<close> and without \<open>fanout\<close> answers with the package of every other member in clear, and
  with or without \<open>fanout\<close>, whatever the peers answered, it leaves nothing to deliver: the next such request
  gets an empty list.\<close>

theorem dkg_outbound_in_reply:
  assumes "bt_get (r2b_session q) (dh_sessions h) = Some x" "r2b_deliver q"
    and "\<forall>i v. (i, v) \<in> set (dk_outbound x) \<longrightarrow> name_of_ident (dk_roster x) i \<noteq> None"
    and "dk_session x = r2b_session q"
    and "dkg_round2 s c v who (Inr q) h = (reply, h1)"
  shows "(\<not> r2b_fanout q \<longrightarrow> (\<exists>ms. reply = (200, OutboundReply ms) \<and>
      map (hex_decode \<circ> m2_package) ms = map (Some \<circ> snd) (dk_outbound x)))
    \<and> dkg_round2 s c v2 who2 (Inr (q\<lparr>r2b_fanout := False\<rparr>)) h1 = ((200, OutboundReply []), h1)"
proof -
  have "\<exists>ms. rmapM (round2_to s c x (r2b_session q)) ps = Inr ms \<and> map (hex_decode \<circ> m2_package) ms = map (Some \<circ> snd) ps"
    if "\<forall>i v. (i, v) \<in> set ps \<longrightarrow> name_of_ident (dk_roster x) i \<noteq> None" for ps
    using that
  proof (induction ps)
    case (Cons p ps)
    then obtain n where "name_of_ident (dk_roster x) (fst p) = Some n" by (cases p) auto
    then obtain m where "round2_to s c x (r2b_session q) p = Inr m" "hex_decode (m2_package m) = Some (snd p)"
      by (simp add: round2_to_def)
    moreover have "\<forall>i v. (i, v) \<in> set ps \<longrightarrow> name_of_ident (dk_roster x) i \<noteq> None" using Cons.prems by simp
    then obtain ms where "rmapM (round2_to s c x (r2b_session q)) ps = Inr ms"
      "map (hex_decode \<circ> m2_package) ms = map (Some \<circ> snd) ps" using Cons.IH by blast
    ultimately show ?case by (simp add: comp_def)
  qed simp
  then obtain ms where ms: "rmapM (round2_to s c x (r2b_session q)) (dk_outbound x) = Inr ms"
    "map (hex_decode \<circ> m2_package) ms = map (Some \<circ> snd) (dk_outbound x)"
    using assms(3) by blast
  let ?y = "x\<lparr>dk_outbound := []\<rparr>"
  have t: "hub_take_round2 s c (r2b_session q) h = (Inr ms, put_session ?y h)"
    using assms(1) ms(1) by (simp add: hub_take_round2_def)
  then have h1: "h1 = put_session ?y h" and "\<not> r2b_fanout q \<longrightarrow> reply = (200, OutboundReply ms)"
    using assms(2,5) by (auto simp: dkg_round2_def split: sum.splits if_splits)
  moreover have "hub_take_round2 s c (r2b_session q) h1 = (Inr [], put_session ?y h1)"
    using assms(4) by (simp add: h1 hub_take_round2_def)
  moreover have "put_session ?y h1 = h1"
    by (simp add: h1 put_session_def bt_put_put)
  ultimately show ?thesis using assms(2) ms(2) by (simp add: dkg_round2_def)
qed

definition demo_deliver :: round2_body where
  "demo_deliver = \<lparr>r2b_session = ''s'', r2b_deliver = True, r2b_fanout = False, r2b_sender = None, r2b_sender_id = None,
     r2b_recipient = None, r2b_recipient_id = None, r2b_transcript = None, r2b_package = None\<rparr>"

definition demo_env :: dkg_env where
  "demo_env = \<lparr>de_seated = [], de_strict = True, de_lab_token = False, de_debug_list = concat, de_net = (\<lambda>_ _. NoAnswer ''down'')\<rparr>"

theorem dkg_outbound_in_reply_witness:
  "\<exists>ms. fst (dkg_round2 plain_suite demo_dkg_crate demo_env \<lparr>mp_role = Vault, mp_node_id = ''other'', mp_spiffe_id = None, mp_lab_omnipotent = False\<rparr>
      (Inr demo_deliver) (put_session (demo_session\<lparr>dk_outbound := [([chr 2], ''secret'')]\<rparr>) demo_hub)) = (200, OutboundReply ms)
    \<and> map (hex_decode \<circ> m2_package) ms = [Some ''secret'']"
proof -
  let ?x = "demo_session\<lparr>dk_outbound := [([chr 2], ''secret'')]\<rparr>"
  let ?who = "\<lparr>mp_role = Vault, mp_node_id = ''other'', mp_spiffe_id = None, mp_lab_omnipotent = False\<rparr>"
  obtain reply h1 where r: "dkg_round2 plain_suite demo_dkg_crate demo_env ?who (Inr demo_deliver) (put_session ?x demo_hub) = (reply, h1)"
    by fastforce
  have s: "dk_session ?x = ''s''" "dk_roster ?x = demo_roster"
    by (simp_all add: demo_session_def fresh_session_def demo_start_def)
  have c: "chr 2 \<noteq> chr (Suc 0)" by (simp add: chr_def)
  from dkg_outbound_in_reply [OF _ _ _ _ r, of ?x] s c
  have "\<exists>ms. reply = (200, OutboundReply ms) \<and> map (hex_decode \<circ> m2_package) ms = [Some ''secret'']"
    by (simp add: demo_deliver_def demo_roster_def)
  then show ?thesis by (simp only: r fst_conv)
qed

end
