(* ===== verification/TlsPeer.thy ===== *)
theory TlsPeer
  imports Durable
begin

text \<open>
  How a vault checks the peer it connects to (\<open>adapters/tls_peer_verify.rs\<close>) and which keys may sign
  audit events (\<open>adapters/audit_keys.rs\<close>).  The chain and name check of webpki and the subject
  alternative names of the certificate are arguments of the verifier.
\<close>

section \<open>Peer verification\<close>

datatype tls_policy = VerifyHostname | VerifySpiffe "string list" | VerifyOnionOrSpiffe "string list"

definition tls_policy_parse :: "string \<Rightarrow> string list \<Rightarrow> tls_policy option" where
  "tls_policy_parse raw allowed =
     (let s = ascii_lower (trim raw) in
      if s \<in> {''spiffe'', ''onion_or_spiffe'', ''onion+spiffe'', ''tor''} \<and> allowed = [] then None
      else if s \<in> {''hostname'', ''dns'', ''webpki''} then Some VerifyHostname
      else if s = ''spiffe'' then Some (VerifySpiffe allowed)
      else if s \<in> {''onion_or_spiffe'', ''onion+spiffe'', ''tor''} then Some (VerifyOnionOrSpiffe allowed)
      else None)"

fun tls_policy_str :: "tls_policy \<Rightarrow> string" where
  "tls_policy_str VerifyHostname = ''hostname''"
| "tls_policy_str (VerifySpiffe _) = ''spiffe''"
| "tls_policy_str (VerifyOnionOrSpiffe _) = ''onion_or_spiffe''"

fun allowed_spiffe :: "tls_policy \<Rightarrow> string list" where
  "allowed_spiffe VerifyHostname = []"
| "allowed_spiffe (VerifySpiffe a) = a"
| "allowed_spiffe (VerifyOnionOrSpiffe a) = a"

record spiffe_verifier =
  sv_allowed :: "string list"
  sv_require_onion :: bool

definition spiffe_verifier_new :: "string list \<Rightarrow> bool \<Rightarrow> spiffe_verifier res" where
  "spiffe_verifier_new allowed onion =
     (if allowed = [] \<or> list_ex (\<lambda>i. trim i = [] \<or> \<not> prefix ''spiffe://'' i) allowed
      then Inl (AuthRejected ''VAULT_TLS_PEER_SPIFFE_ID must be one or more spiffe:// URIs for onion/SPIFFE verify'')
      else Inr \<lparr>sv_allowed = allowed, sv_require_onion = onion\<rparr>)"

definition eq_ignore_ascii_case :: "string \<Rightarrow> string \<Rightarrow> bool" where
  "eq_ignore_ascii_case a b = (ascii_lower a = ascii_lower b)"

definition spiffe_ok :: "spiffe_verifier \<Rightarrow> string list \<Rightarrow> bool" where
  "spiffe_ok v uris = list_ex (\<lambda>u. u \<in> set (sv_allowed v)) uris"

definition onion_san_ok :: "string \<Rightarrow> string list \<Rightarrow> bool" where
  "onion_san_ok host dns = (suffix ''.onion'' host \<and> list_ex (\<lambda>d. eq_ignore_ascii_case d host) dns)"

text \<open>\<open>sans\<close>: the URI and DNS names of the certificate, or that it does not parse.\<close>

definition identity_ok :: "spiffe_verifier \<Rightarrow> (string + string list \<times> string list) \<Rightarrow> string \<Rightarrow> string + bool" where
  "identity_ok v sans host =
     (case sans of
        Inl e \<Rightarrow> Inl e
      | Inr (uris, dns) \<Rightarrow>
          Inr (if \<not> spiffe_ok v uris then False
               else if sv_require_onion v \<and> suffix ''.onion'' host then onion_san_ok host dns
               else True))"

text \<open>What webpki says of the chain and the name: both hold, only the name fails, or the chain fails.\<close>

datatype chain_verdict = ChainOk | NameError string | ChainError string

definition verify_server_cert ::
  "spiffe_verifier \<Rightarrow> chain_verdict \<Rightarrow> (string + string list \<times> string list) \<Rightarrow> string \<Rightarrow> string + unit" where
  "verify_server_cert v chain sans host =
     (case chain of
        ChainOk \<Rightarrow>
          (case identity_ok v sans host of
             Inl e \<Rightarrow> Inl e
           | Inr b \<Rightarrow> if b then Inr () else Inl ''NotValidForName'')
      | NameError err \<Rightarrow>
          (case identity_ok v sans host of
             Inl e \<Rightarrow> Inl e
           | Inr b \<Rightarrow> if b then Inr () else Inl err)
      | ChainError err \<Rightarrow> Inl err)"

lemma verify_server_cert_iff:
  "verify_server_cert v chain sans host = Inr () \<longleftrightarrow>
     (\<forall>e. chain \<noteq> ChainError e) \<and>
     (\<exists>uris dns u. sans = Inr (uris, dns) \<and> u \<in> set uris \<and> u \<in> set (sv_allowed v) \<and>
        (sv_require_onion v \<and> suffix ''.onion'' host \<longrightarrow> (\<exists>d\<in>set dns. eq_ignore_ascii_case d host)))"
  by (auto simp: verify_server_cert_def identity_ok_def spiffe_ok_def onion_san_ok_def list_ex_iff
      split: chain_verdict.splits sum.splits if_splits)

text \<open>The identity the certificate carries is not tied to the host contacted: without the onion rule any
  allowlisted vault answers for any address.\<close>

lemma any_allowlisted_peer_accepted:
  "u \<in> set (sv_allowed v) \<Longrightarrow> \<not> (sv_require_onion v \<and> suffix ''.onion'' host) \<Longrightarrow>
     verify_server_cert v (NameError e) (Inr ([u], [])) host = Inr ()"
  by (simp add: verify_server_cert_iff)

section \<open>Audit keys\<close>

definition audit_from_hex_list :: "string list \<Rightarrow> btset" where
  "audit_from_hex_list keys = bs_of (filter (\<lambda>t. t \<noteq> []) (map (\<lambda>k. ascii_lower (trim k)) keys))"

text \<open>The last word of a trimmed line: up to the last whitespace.\<close>

fun until_ws :: "string \<Rightarrow> string" where
  "until_ws [] = []"
| "until_ws (c # cs) =
     (if list_ex (\<lambda>w. w \<noteq> [] \<and> prefix w (c # cs)) (map rev ws_table) then [] else c # until_ws cs)"

definition last_word :: "string \<Rightarrow> string" where
  "last_word line = rev (until_ws (rev line))"

definition audit_file_keys :: "string \<Rightarrow> string list" where
  "audit_file_keys raw =
     map (\<lambda>line. last_word line) (filter (\<lambda>l. l \<noteq> [] \<and> hd l \<noteq> CHR ''#'') (log_lines raw))"

text \<open>\<open>read_file\<close> gives the text of a file or the error.\<close>

definition audit_from_env :: "(string \<rightharpoonup> string) \<Rightarrow> (string \<Rightarrow> string + string) \<Rightarrow> btset res" where
  "audit_from_env env read_file =
     (let csv = (case env ''VAULT_AUDIT_PUBKEY_ALLOWLIST'' of Some t \<Rightarrow> split_on (CHR '','') t | None \<Rightarrow> []) in
      case env ''VAULT_AUDIT_PUBKEYS_PATH'' of
        None \<Rightarrow> Inr (audit_from_hex_list csv)
      | Some p \<Rightarrow>
          if p = [] then Inr (audit_from_hex_list csv)
          else (case read_file p of
                  Inl e \<Rightarrow> Inl (AuthRejected (''VAULT_AUDIT_PUBKEYS_PATH read '' @ p @ '': '' @ e))
                | Inr raw \<Rightarrow> Inr (audit_from_hex_list (csv @ audit_file_keys raw))))"

definition audit_contains :: "btset \<Rightarrow> string \<Rightarrow> bool" where
  "audit_contains keys k = (ascii_lower (trim k) \<in> set keys)"

definition em_dash :: string where "em_dash = [CHR 0xE2, CHR 0x80, CHR 0x94]"
definition ne_sign :: string where "ne_sign = [CHR 0xE2, CHR 0x89, CHR 0xA0]"

definition require_allowlisted :: "btset \<Rightarrow> string \<Rightarrow> unit res" where
  "require_allowlisted keys k =
     (if keys = []
      then Inl (AuthRejected ''mesh audit pubkey allowlist empty (F8: set VAULT_AUDIT_PUBKEY_ALLOWLIST or VAULT_AUDIT_PUBKEYS_PATH)'')
      else if \<not> audit_contains keys k
      then Inl (AuthRejected (''pubkey not on mesh audit allowlist (audit keys '' @ ne_sign @ '' release '' @ ne_sign
             @ '' settlement): '' @ k))
      else Inr ())"

lemma require_allowlisted_iff: "require_allowlisted keys k = Inr () \<longleftrightarrow> ascii_lower (trim k) \<in> set keys"
  by (auto simp: require_allowlisted_def audit_contains_def)

end
