(* ===== verification/PrimeField.thy ===== *)
theory PrimeField
  imports Main
begin

text \<open>
  Arithmetic modulo a prime, for the lab's threshold scheme: Fermat's theorem, the primality of
  \<open>2 ^ 31 - 1\<close>, polynomial functions over the integers and their roots, and interpolation at distinct
  points.
\<close>

section \<open>Primes and Fermat\<close>

definition prime_mod :: "int \<Rightarrow> bool" where
  "prime_mod p \<longleftrightarrow> 1 < p \<and> (\<forall>a. \<not> p dvd a \<longrightarrow> coprime a p)"

lemma prime_mod_dvd: "prime_mod p \<Longrightarrow> p dvd a * b \<Longrightarrow> p dvd a \<or> p dvd (b :: int)"
  unfolding prime_mod_def by (metis coprime_commute coprime_dvd_mult_left_iff mult.commute)

lemma prime_mod_prod:
  assumes "finite A" "prime_mod p" "\<forall>i\<in>A. \<not> p dvd f i"
  shows "\<not> p dvd (\<Prod>i\<in>A. f i)"
  using assms
proof (induction A rule: finite_induct)
  case empty
  then show ?case by (auto simp: prime_mod_def)
next
  case (insert x A)
  then show ?case using prime_mod_dvd [of p "f x" "\<Prod>i\<in>A. f i"] by auto
qed

lemma mod_eq_dvd: "(a :: int) mod p = b mod p \<longleftrightarrow> p dvd a - b"
  by (simp add: mod_eq_dvd_iff)

lemma small_not_dvd: "0 < (i :: int) \<Longrightarrow> i < p \<Longrightarrow> \<not> p dvd i"
  using zdvd_not_zless by blast

lemma prime_mod_cancel:
  assumes "prime_mod p" "\<not> p dvd c" "(a * c) mod p = (b * c) mod (p :: int)"
  shows "a mod p = b mod p"
proof -
  have "p dvd (a - b) * c"
    using assms(3) by (simp add: mod_eq_dvd algebra_simps)
  then show ?thesis
    using prime_mod_dvd [OF assms(1)] assms(2) by (auto simp: mod_eq_dvd)
qed

lemma prod_mod_cong:
  assumes "finite A" "\<forall>i\<in>A. f i mod p = g i mod (p :: int)"
  shows "(\<Prod>i\<in>A. f i) mod p = (\<Prod>i\<in>A. g i) mod p"
  using assms
proof (induction A rule: finite_induct)
  case (insert x A)
  have "(f x * prod f A) mod p = ((f x mod p) * (prod f A mod p)) mod p" by (simp add: mod_mult_eq)
  also have "\<dots> = ((g x mod p) * (prod g A mod p)) mod p" using insert by simp
  finally show ?case using insert by (simp add: mod_mult_eq)
qed simp

text \<open>Multiplying by a unit permutes the non-zero residues.\<close>

lemma unit_permutes:
  assumes p: "prime_mod p" and a: "\<not> p dvd a"
  shows "bij_betw (\<lambda>i. a * i mod p) {0<..<p} {0<..<p}"
proof -
  have p0: "0 < p" using p by (simp add: prime_mod_def)
  have inj: "inj_on (\<lambda>i. a * i mod p) {0<..<p}"
  proof (rule inj_onI)
    fix i j assume "i \<in> {0<..<p}" "j \<in> {0<..<p}" "a * i mod p = a * j mod p"
    then show "i = j"
      using prime_mod_cancel [OF p a, of i j] by (simp add: mult.commute mod_pos_pos_trivial)
  qed
  have "(\<lambda>i. a * i mod p) ` {0<..<p} \<subseteq> {0<..<p}"
  proof
    fix j assume "j \<in> (\<lambda>i. a * i mod p) ` {0<..<p}"
    then obtain i where i: "0 < i" "i < p" and j: "j = a * i mod p" by auto
    have "\<not> p dvd a * i" using prime_mod_dvd [OF p] a small_not_dvd [OF i] by blast
    then have "0 < a * i mod p" using p0 by (metis dvd_eq_mod_eq_0 order_le_less pos_mod_sign)
    then show "j \<in> {0<..<p}" using p0 by (simp add: j)
  qed
  then show ?thesis
    using inj endo_inj_surj [of "{0<..<p}"] by (intro bij_betw_imageI) simp_all
qed

lemma fermat:
  assumes p: "prime_mod p" and a: "\<not> p dvd a"
  shows "a ^ nat (p - 1) mod p = 1"
proof -
  let ?A = "{0<..<p}" and ?P = "\<Prod>i\<in>{0<..<p}. i"
  have p1: "1 < p" using p by (simp add: prime_mod_def)
  have P: "\<not> p dvd ?P"
    by (rule prime_mod_prod) (use p in \<open>auto simp: small_not_dvd\<close>)
  have "(\<Prod>i\<in>?A. a * i mod p) = ?P"
    using prod.reindex_bij_betw [OF unit_permutes [OF p a], of "\<lambda>i. i"] by simp
  moreover have "(\<Prod>i\<in>?A. a * i mod p) mod p = (\<Prod>i\<in>?A. a * i) mod p"
    by (rule prod_mod_cong) auto
  moreover have "(\<Prod>i\<in>?A. a * i) = a ^ nat (p - 1) * ?P"
    by (simp add: prod.distrib)
  ultimately have "(a ^ nat (p - 1) * ?P) mod p = (1 * ?P) mod p" by simp
  then have "a ^ nat (p - 1) mod p = 1 mod p" by (rule prime_mod_cancel [OF p P])
  then show ?thesis using p1 by simp
qed

lemma fermat_inverse:
  assumes "prime_mod p" "\<not> p dvd a"
  shows "(a * a ^ nat (p - 2)) mod p = 1"
proof -
  have "nat (p - 1) = Suc (nat (p - 2))" using assms(1) unfolding prime_mod_def by linarith
  then show ?thesis using fermat [OF assms] by simp
qed

section \<open>A Mersenne prime\<close>

lemma least_divisor:
  fixes n :: int
  assumes n: "1 < n" and np: "\<not> prime_mod n"
  shows "\<exists>q. prime_mod q \<and> q dvd n \<and> q * q \<le> n"
proof -
  define D where "D = {d :: nat. 1 < d \<and> int d dvd n}"
  have "nat n \<in> D" using n by (simp add: D_def)
  define q where "q = (LEAST d. d \<in> D)"
  have q: "1 < q" "int q dvd n" using LeastI [of "\<lambda>d. d \<in> D" "nat n"] \<open>nat n \<in> D\<close> by (auto simp: q_def D_def)
  have least: "q \<le> d" if "1 < d" "int d dvd n" for d
    using that unfolding q_def by (intro Least_le) (simp add: D_def)
  have qp: "prime_mod (int q)"
    unfolding prime_mod_def
  proof (intro conjI allI impI)
    fix a assume a: "\<not> int q dvd a"
    let ?g = "nat (gcd a (int q))"
    have g: "int ?g dvd int q" by simp
    then have "int ?g dvd n" using q(2) by (rule dvd_trans)
    moreover have "?g \<le> q" using g q(1) by (metis dvd_imp_le less_trans zero_less_one int_dvd_int_iff)
    moreover have "?g \<noteq> q" using a by (metis gcd_dvd1 gcd_ge_0_int int_nat_eq)
    moreover have "0 < gcd a (int q)" using q(1) by (simp add: gcd_pos_int)
    ultimately have "gcd a (int q) = 1" using least [of ?g] by linarith
    then show "coprime a (int q)" by (simp add: coprime_iff_gcd_eq_1)
  qed (use q in simp)
  obtain k where k: "n = int q * k" using q(2) by (rule dvdE)
  have "n \<noteq> int q" using qp np by auto
  then have "1 < k" using k n q(1) by (metis less_trans mult.right_neutral mult_cancel_left order_le_less
        zero_less_mult_pos zero_less_one of_nat_0_less_iff int_one_le_iff_zero_less)
  moreover have "k dvd n" using k by simp
  ultimately have "int q \<le> k" using least [of "nat k"] by simp
  then have "int q * int q \<le> n" using k q(1) by (simp add: mult_left_mono)
  then show ?thesis using qp q(2) by blast
qed

text \<open>A prime divisor of \<open>2 ^ 31 - 1\<close> is one more than a multiple of 31, and none of those is small
  enough.\<close>

lemma pow_mod_one: "(a :: int) ^ m mod q = 1 \<Longrightarrow> 1 < q \<Longrightarrow> a ^ (m * k) mod q = 1"
proof (induction k)
  case (Suc k)
  have "a ^ (m * Suc k) mod q = ((a ^ m mod q) * (a ^ (m * k) mod q)) mod q"
    by (simp add: power_add mod_mult_eq)
  then show ?case using Suc by simp
qed simp

lemma dvd_mod_one: "(a :: int) mod n = 1 \<Longrightarrow> q dvd n \<Longrightarrow> 1 < q \<Longrightarrow> 1 < n \<Longrightarrow> a mod q = 1"
  by (metis mod_mod_cancel mod_pos_pos_trivial zero_less_one less_trans order_less_imp_le)

lemma order_divides:
  assumes q: "prime_mod q" and d: "q dvd n" and n: "1 < n"
    and s: "\<forall>d :: nat. d dvd s \<longrightarrow> d = 1 \<or> d = s" "0 < s"
    and b: "b ^ s mod n = 1" "u * (b - 1) mod n = 1"
  shows "s dvd nat (q - 1)"
proof (rule ccontr)
  let ?n = "nat (q - 1)"
  assume nd: "\<not> s dvd ?n"
  have q1: "1 < q" using q by (simp add: prime_mod_def)
  have m: "b ^ s mod q = 1" and u: "u * (b - 1) mod q = 1"
    using dvd_mod_one [OF _ d q1 n] b by auto
  have "\<not> q dvd b"
  proof
    assume "q dvd b"
    then have "q dvd b ^ s" using s(2) by (metis dvd_power dvd_trans)
    then show False using m by (simp add: dvd_eq_mod_eq_0)
  qed
  then have f: "b ^ ?n mod q = 1" by (rule fermat [OF q])
  have "gcd s ?n = 1"
    using s(1) nd by (metis gcd_dvd1 gcd_dvd2)
  then obtain x y where e: "s * x = ?n * y + 1" using bezout_nat [of s ?n] s(2) by auto
  have "b ^ (s * x) mod q = 1" by (rule pow_mod_one [OF m q1])
  moreover have "b ^ (?n * y + 1) mod q = ((b ^ (?n * y) mod q) * b) mod q"
    by (simp add: mod_simps mult_ac)
  ultimately have "b mod q = 1" using pow_mod_one [OF f q1, of y] by (simp add: e)
  then have "q dvd b - 1" using mod_eq_dvd [of b q 1] q1 by simp
  then show False using u by (simp add: dvd_eq_mod_eq_0 mod_mult_right_eq [symmetric])
qed

text \<open>A prime divisor of \<open>2 ^ 31 - 1\<close> is one more than a multiple of 31 (the order of 2) and of 331 (the
  order of 1761855083); none of those is small enough.\<close>

lemma small_prime:
  assumes m: "\<forall>d\<in>set [2..<m]. \<not> d dvd (s :: nat)" and s: "s < m * m" "0 < s"
  shows "\<forall>d. d dvd s \<longrightarrow> d = 1 \<or> d = s"
proof (intro allI impI)
  fix d assume "d dvd s"
  then obtain e where e: "s = d * e" by (rule dvdE)
  have small: "k = 1 \<or> m \<le> k" if "k dvd s" for k
  proof -
    have "k \<noteq> 0" using that s(2) by (intro notI) simp
    moreover have "\<not> (2 \<le> k \<and> k < m)" using m that by auto
    ultimately show ?thesis by linarith
  qed
  have "\<not> (m \<le> d \<and> m \<le> e)" using s(1) mult_le_mono [of m d m e] unfolding e by linarith
  moreover have "d dvd s" "e dvd s" unfolding e by simp_all
  ultimately have "d = 1 \<or> e = 1" using small by blast
  then show "d = 1 \<or> d = s" by (rule disj_forward) (simp_all add: e)
qed

lemma prime_31: "\<forall>d :: nat. d dvd 31 \<longrightarrow> d = 1 \<or> d = 31"
  by (rule small_prime [of 6]) simp_all

lemma prime_331: "\<forall>d :: nat. d dvd 331 \<longrightarrow> d = 1 \<or> d = 331"
  by (rule small_prime [of 19]) simp_all

lemma power_mod_step:
  "(a :: int) ^ k mod n = r \<Longrightarrow> a ^ (2 * k) mod n = (r * r) mod n"
  "a ^ k mod n = r \<Longrightarrow> a mod n = s \<Longrightarrow> a ^ (2 * k + 1) mod n = (r * r * s) mod n"
proof -
  assume r: "a ^ k mod n = r"
  have p: "a ^ (2 * k) = a ^ k * a ^ k" by (simp only: mult_2 power_add)
  show 1: "a ^ (2 * k) mod n = (r * r) mod n"
    unfolding p using mod_mult_eq [of "a ^ k" n "a ^ k"] r by simp
  assume s: "a mod n = s"
  have "a ^ (2 * k + 1) mod n = (a ^ (2 * k) mod n * (a mod n)) mod n"
    by (simp only: mod_mult_eq power_add power_one_right)
  also have "\<dots> = (r * r mod n * s) mod n" by (simp only: 1 s)
  also have "\<dots> = (r * r * s) mod n" by (simp only: mod_mult_left_eq)
  finally show "a ^ (2 * k + 1) mod n = (r * r * s) mod n" .
qed

lemma order_331_power:
  assumes b: "b = (1761855083 :: int)"
  shows "b ^ 331 mod 2147483647 = 1"
proof -
  let ?p = "2147483647 :: int"
  have b1: "b mod ?p = 1761855083" by (simp add: b)
  then have e1: "b ^ 1 mod ?p = 1761855083" by simp
  have e2: "b ^ 2 mod ?p = 1551098461" using power_mod_step(1) [OF e1] by simp
  have e5: "b ^ 5 mod ?p = 759513457" using power_mod_step(2) [OF e2 b1] by simp
  have e10: "b ^ 10 mod ?p = 564620125" using power_mod_step(1) [OF e5] by simp
  have e20: "b ^ 20 mod ?p = 1127616031" using power_mod_step(1) [OF e10] by simp
  have e41: "b ^ 41 mod ?p = 1589611822" using power_mod_step(2) [OF e20 b1] by simp
  have e82: "b ^ 82 mod ?p = 111290952" using power_mod_step(1) [OF e41] by simp
  have e165: "b ^ 165 mod ?p = 1177465442" using power_mod_step(2) [OF e82 b1] by simp
  have e331: "b ^ 331 mod ?p = 1" using power_mod_step(2) [OF e165 b1] by simp
  show ?thesis by (rule e331)
qed

lemma mersenne_prime: "prime_mod 2147483647"
proof (rule ccontr)
  assume "\<not> prime_mod 2147483647"
  then obtain q where q: "prime_mod q" "q dvd 2147483647" "q * q \<le> 2147483647"
    using least_divisor [of 2147483647] by auto
  have q1: "1 < q" using q(1) by (simp add: prime_mod_def)
  have "31 dvd nat (q - 1)"
    by (rule order_divides [OF q(1,2) _ prime_31, of 2 1]) simp_all
  moreover have "331 dvd nat (q - 1)"
    by (rule order_divides [OF q(1,2) _ prime_331 _ order_331_power [OF HOL.refl], of 1924809196]) simp_all
  moreover have "coprime (31 :: nat) 331" by (simp add: coprime_iff_gcd_eq_1 gcd_non_0_nat)
  ultimately have "31 * 331 dvd nat (q - 1)" by (metis divides_mult)
  then obtain k where "nat (q - 1) = 10261 * k" by (auto elim: dvdE)
  then have qk: "q = 10261 * int k + 1" using q1 by linarith
  then have "k \<noteq> 0" using q1 by (intro notI) simp
  moreover have "k < 5"
  proof (rule ccontr)
    assume "\<not> k < 5"
    then have "51306 \<le> q" using qk by simp
    then have "51306 * 51306 \<le> q * q" by (intro mult_mono) auto
    then show False using q(3) by simp
  qed
  ultimately have "k \<in> {1, 2, 3, 4}" by auto
  then show False using q(2) qk by (auto simp: dvd_eq_mod_eq_0)
qed

section \<open>Polynomial functions and their roots\<close>

fun poly_at :: "int list \<Rightarrow> int \<Rightarrow> int" where
  "poly_at [] x = 0"
| "poly_at (c # cs) x = c + x * poly_at cs x"

definition polyn :: "nat \<Rightarrow> (int \<Rightarrow> int) \<Rightarrow> bool" where
  "polyn n g \<longleftrightarrow> (\<exists>cs. length cs = n \<and> g = poly_at cs)"

lemma polyn_list [intro]: "polyn (length cs) (poly_at cs)"
  by (auto simp: polyn_def)

lemma poly_at_scale: "poly_at (map ((*) c) cs) x = c * poly_at cs x"
  by (induction cs) (simp_all add: algebra_simps)

lemma polyn_scale: "polyn n g \<Longrightarrow> polyn n (\<lambda>x. c * g x)"
  unfolding polyn_def by (metis length_map poly_at_scale ext)

lemma poly_at_add: "length cs = length ds \<Longrightarrow> poly_at (map2 (+) cs ds) x = poly_at cs x + poly_at ds x"
  by (induction cs ds rule: list_induct2) (simp_all add: algebra_simps)

lemma polyn_add:
  assumes "polyn n g" "polyn n h"
  shows "polyn n (\<lambda>x. g x + h x)"
proof -
  obtain cs ds where "length cs = n" "g = poly_at cs" "length ds = n" "h = poly_at ds"
    using assms by (auto simp: polyn_def)
  then show ?thesis
    unfolding polyn_def by (intro exI [of _ "map2 (+) cs ds"]) (auto simp: poly_at_add)
qed

lemma poly_at_zero: "poly_at (replicate n 0) x = 0"
  by (induction n) simp_all

lemma polyn_sum: "finite A \<Longrightarrow> \<forall>i\<in>A. polyn n (g i) \<Longrightarrow> polyn n (\<lambda>x. \<Sum>i\<in>A. g i x)"
proof (induction A rule: finite_induct)
  case empty
  show ?case unfolding polyn_def by (intro exI [of _ "replicate n 0"]) (auto simp: poly_at_zero)
next
  case (insert i A)
  then show ?case using polyn_add [of n "g i" "\<lambda>x. \<Sum>i\<in>A. g i x"] by simp
qed

lemma poly_at_pad: "poly_at (cs @ [0]) x = poly_at cs x"
  by (induction cs) simp_all

lemma polyn_Suc: "polyn n g \<Longrightarrow> polyn (Suc n) g"
  unfolding polyn_def by (metis length_append_singleton poly_at_pad ext)

lemma polyn_mono: "polyn m g \<Longrightarrow> m \<le> n \<Longrightarrow> polyn n g"
  by (induction n) (auto simp: le_Suc_eq polyn_Suc)

lemma polyn_linear:
  assumes "polyn n g"
  shows "polyn (Suc n) (\<lambda>x. (x - a) * g x)"
proof -
  obtain cs where cs: "length cs = n" "g = poly_at cs" using assms by (auto simp: polyn_def)
  have "polyn (Suc n) (\<lambda>x. x * g x)"
    unfolding polyn_def by (intro exI [of _ "0 # cs"]) (auto simp: cs)
  moreover have "polyn (Suc n) (\<lambda>x. - a * g x)"
    using polyn_scale [OF polyn_Suc [OF assms], of "- a"] .
  ultimately show ?thesis
    using polyn_add by (fastforce simp: algebra_simps)
qed

lemma polyn_one: "polyn 1 (\<lambda>x. 1)"
  unfolding polyn_def by (intro exI [of _ "[1]"]) auto

lemma polyn_prod: "finite A \<Longrightarrow> polyn (Suc (card A)) (\<lambda>x. \<Prod>i\<in>A. x - r i)"
proof (induction A rule: finite_induct)
  case empty
  then show ?case using polyn_one by simp
next
  case (insert i A)
  then show ?case using polyn_linear [of _ "\<lambda>x. \<Prod>i\<in>A. x - r i" "r i"] by simp
qed

lemma poly_at_divide: "\<exists>ds. length ds = length cs - 1 \<and> (\<forall>x. poly_at cs x - poly_at cs a = (x - a) * poly_at ds x)"
proof (induction cs)
  case (Cons c cs)
  show ?case
  proof (cases cs)
    case Nil
    then show ?thesis by (intro exI [of _ "[]"]) simp
  next
    case (Cons b bs)
    obtain ds where ds: "length ds = length cs - 1" "\<forall>x. poly_at cs x - poly_at cs a = (x - a) * poly_at ds x"
      using Cons.IH by blast
    have "poly_at (c # cs) x - poly_at (c # cs) a = (x - a) * poly_at (poly_at cs a # ds) x" for x
    proof -
      have e: "poly_at cs x = poly_at cs a + (x - a) * poly_at ds x" using ds(2) by (metis diff_add_cancel add.commute)
      show ?thesis by (simp add: e algebra_simps)
    qed
    then show ?thesis using ds(1) Cons by (intro exI [of _ "poly_at cs a # ds"]) simp
  qed
qed simp

lemma too_many_roots:
  assumes p: "prime_mod p"
  shows "polyn (length rs) g \<Longrightarrow> distinct (map (\<lambda>r. r mod p) rs) \<Longrightarrow> \<forall>r\<in>set rs. p dvd g r \<Longrightarrow> p dvd g x"
proof (induction rs arbitrary: g x)
  case Nil
  then show ?case by (simp add: polyn_def)
next
  case (Cons a rs)
  obtain cs where cs: "length cs = Suc (length rs)" "g = poly_at cs" using Cons.prems(1) by (auto simp: polyn_def)
  obtain ds where ds: "length ds = length rs" "\<forall>x. g x - g a = (x - a) * poly_at ds x"
    using poly_at_divide [of cs a] cs by auto
  have "p dvd poly_at ds r" if r: "r \<in> set rs" for r
  proof -
    have "p dvd g r - g a" using Cons.prems(3) r by (simp add: dvd_diff)
    moreover have "r mod p \<noteq> a mod p" using Cons.prems(2) imageI [OF r, of "\<lambda>r. r mod p"] by auto
    then have "\<not> p dvd r - a" by (simp add: mod_eq_dvd)
    ultimately show ?thesis using ds(2) prime_mod_dvd [OF p, of "r - a" "poly_at ds r"] by simp
  qed
  then have "p dvd poly_at ds x"
    using Cons.IH [of "poly_at ds" x] Cons.prems(2) ds(1) polyn_list [of ds] by simp
  then have "p dvd g x - g a" using ds(2) by simp
  moreover have "p dvd g a" using Cons.prems(3) by simp
  ultimately show ?case using dvd_add [of p "g x - g a" "g a"] by simp
qed

section \<open>Interpolation\<close>

text \<open>At \<open>0\<close>, from the values at \<open>n\<close> points that are distinct modulo the prime: \<open>inv\<close> gives the inverse
  of each denominator.\<close>

lemma lagrange_at_zero:
  assumes p: "prime_mod p" and f: "polyn m f" "m \<le> n" and d: "inj_on (\<lambda>i. r i mod p) {..<n}"
    and inv: "\<And>i. i < n \<Longrightarrow> (w i * (\<Prod>j\<in>{..<n} - {i}. r i - r j)) mod p = 1"
  shows "(\<Sum>i<n. f (r i) * ((\<Prod>j\<in>{..<n} - {i}. - r j) * w i)) mod p = f 0 mod p"
proof -
  define b where "b i x = (\<Prod>j\<in>{..<n} - {i}. x - r j)" for i x
  define g where "g x = (\<Sum>i<n. f (r i) * w i * b i x) + - 1 * f x" for x
  have b0: "b i (r k) = 0" if "k < n" "k \<noteq> i" for i k
    unfolding b_def by (rule prod_zero) (use that in auto)
  have "polyn n (b i)" if "i < n" for i
    using polyn_prod [of "{..<n} - {i}" r] that unfolding b_def by simp
  then have "polyn n (\<lambda>x. \<Sum>i<n. f (r i) * w i * b i x)"
    by (intro polyn_sum) (simp_all add: polyn_scale)
  then have g: "polyn n g"
    using polyn_add [OF _ polyn_scale [OF polyn_mono [OF f], of "- 1"]] unfolding g_def by blast
  have "p dvd g (r k)" if k: "k < n" for k
  proof -
    have "(\<Sum>i<n. f (r i) * w i * b i (r k)) = (\<Sum>i<n. if i = k then f (r k) * w k * b k (r k) else 0)"
      by (rule sum.cong) (auto simp: b0 k)
    also have "\<dots> = f (r k) * (w k * b k (r k))" using k by (simp add: mult.assoc)
    finally have "g (r k) = f (r k) * (w k * b k (r k) - 1)" by (simp add: g_def algebra_simps)
    moreover have "p dvd w k * b k (r k) - 1"
      using inv [OF k] p mod_eq_dvd [of "w k * b k (r k)" p 1] by (simp add: b_def prime_mod_def)
    ultimately show ?thesis by simp
  qed
  moreover have "distinct (map (\<lambda>x. x mod p) (map r [0..<n]))"
    using d by (simp add: distinct_map comp_def atLeast0LessThan)
  ultimately have "p dvd g 0"
    using too_many_roots [OF p, of "map r [0..<n]" g 0] g by (simp add: comp_def)
  moreover have "g 0 = (\<Sum>i<n. f (r i) * ((\<Prod>j\<in>{..<n} - {i}. - r j) * w i)) - f 0"
    by (simp add: g_def b_def algebra_simps)
  ultimately show ?thesis by (simp add: mod_eq_dvd)
qed

end
