(* ===== verification/Threshold.thy ===== *)
theory Threshold
  imports PrimeField Hex Auth
begin

text \<open>
  The lab's threshold scheme: field arithmetic, polynomials and interpolation
  (\<open>domain/threshold.rs\<close>), the joint key generation (\<open>domain/dkg.rs\<close>), the signing sessions
  (\<open>adapters/threshold_state.rs\<close>), and the use case over them (\<open>application/sign.rs\<close>).  The digest
  \<open>Measurement::from_bytes\<close> is the parameter \<open>sha\<close>; \<open>u128\<close> intermediate values are natural numbers.
\<close>

section \<open>The field\<close>

abbreviation lab_prime :: u64 where
  "lab_prime \<equiv> 2147483647"

definition share_index_new :: "u8 \<Rightarrow> u8 res" where
  "share_index_new v = (if v = 0 then Inl (InvalidShare ''share index must be >= 1'') else Inr v)"

definition field_add :: "u64 \<Rightarrow> u64 \<Rightarrow> u64" where
  "field_add a b = word_of_nat ((unat a + unat b) mod unat lab_prime)"

definition field_mul :: "u64 \<Rightarrow> u64 \<Rightarrow> u64" where
  "field_mul a b = word_of_nat ((unat a * unat b) mod unat lab_prime)"

definition field_sub :: "u64 \<Rightarrow> u64 \<Rightarrow> u64" where
  "field_sub x y =
     (let a = x mod lab_prime; b = y mod lab_prime in
      if b \<le> a then a - b else lab_prime - (b - a))"

lemma unat_drop_bit_1: "unat (drop_bit 1 (e :: u64)) = unat e div 2"
  by (simp add: drop_bit_eq_div unat_div_word)

function mod_pow_loop :: "u64 \<Rightarrow> u64 \<Rightarrow> u64 \<Rightarrow> u64" where
  "mod_pow_loop result base exp =
     (if 0 < exp
      then mod_pow_loop (if and exp 1 = 1 then field_mul result base else result) (field_mul base base) (drop_bit 1 exp)
      else result)"
  by pat_completeness auto
termination
  by (relation "measure (\<lambda>(_, _, e). unat e)")
     (auto simp: unat_drop_bit_1 [unfolded One_nat_def] word_less_nat_alt)

declare mod_pow_loop.simps [simp del]

definition mod_pow :: "u64 \<Rightarrow> u64 \<Rightarrow> u64" where
  "mod_pow base exp = mod_pow_loop 1 (base mod lab_prime) exp"

definition mod_inv :: "u64 \<Rightarrow> u64 res" where
  "mod_inv x =
     (let a = x mod lab_prime in
      if a = 0 then Inl (ThresholdError ''inverse of 0'') else Inr (mod_pow a (lab_prime - 2)))"

fun eval_poly_loop :: "u64 list \<Rightarrow> u64 \<Rightarrow> u64 \<Rightarrow> u64 \<Rightarrow> u64" where
  "eval_poly_loop [] x y pw = y"
| "eval_poly_loop (c # cs) x y pw = eval_poly_loop cs x (field_add y (field_mul c pw)) (field_mul pw x)"

definition eval_poly :: "u64 list \<Rightarrow> u64 \<Rightarrow> u64" where
  "eval_poly coeffs x = eval_poly_loop coeffs x 0 1"

text \<open>The first sixteen hex digits, most significant first.\<close>

fun hex_word :: "nat \<Rightarrow> string \<Rightarrow> u64 \<Rightarrow> u64" where
  "hex_word i [] v = v"
| "hex_word i (c # cs) v =
     hex_word (i + 1) cs (or v (push_bit (4 * (15 - i)) (word_of_nat (case nibble c of Some n \<Rightarrow> n | None \<Rightarrow> 0))))"

definition lab_random_u64 :: "(string \<Rightarrow> string) \<Rightarrow> string \<Rightarrow> u64" where
  "lab_random_u64 sha seed = hex_word 0 (take 16 (sha seed)) 0 mod (lab_prime - 1) + 1"

definition derive_nonce :: "(string \<Rightarrow> string) \<Rightarrow> string \<Rightarrow> string \<Rightarrow> u64 \<Rightarrow> u64" where
  "derive_nonce sha session_id message_hash share_value =
     lab_random_u64 sha (''nonce|'' @ session_id @ ''|'' @ message_hash @ ''|'' @ dec_u share_value)"

definition nonce_commitment :: "(string \<Rightarrow> string) \<Rightarrow> u64 \<Rightarrow> u8 \<Rightarrow> string" where
  "nonce_commitment sha nonce index = sha (''nonce-commit:'' @ dec_u index @ '':'' @ dec_u nonce)"

text \<open>Numerator and denominator of the \<open>i\<close>-th basis value at zero.\<close>

fun basis_loop :: "nat \<Rightarrow> u8 \<Rightarrow> (nat \<times> u8 \<times> u64) list \<Rightarrow> u64 \<times> u64 \<Rightarrow> u64 \<times> u64" where
  "basis_loop i xi [] nd = nd"
| "basis_loop i xi ((j, xj, _) # ss) (num, den) =
     (if i = j then basis_loop i xi ss (num, den)
      else basis_loop i xi ss
             (field_mul num (field_sub 0 (ucast xj)), field_mul den (field_sub (ucast xi) (ucast xj))))"

fun interpolate_loop :: "(nat \<times> u8 \<times> u64) list \<Rightarrow> (nat \<times> u8 \<times> u64) list \<Rightarrow> u64 \<Rightarrow> u64 res" where
  "interpolate_loop all [] secret = Inr secret"
| "interpolate_loop all ((i, xi, yi) # ss) secret =
     (let (num, den) = basis_loop i xi all (1, 1) in
      rbind (mod_inv den) (\<lambda>inv.
        interpolate_loop all ss (field_add secret (field_mul yi (field_mul num inv)))))"

definition interpolate_secret :: "(u8 \<times> u64) list \<Rightarrow> u64 res" where
  "interpolate_secret shares =
     (if shares = [] then Inl (ThresholdError ''no shares'')
      else interpolate_loop (enumerate 0 shares) (enumerate 0 shares) 0)"

section \<open>Joint key generation\<close>

record key_share =
  ks_index :: u8
  ks_value :: u64
  ks_node :: string

definition public_commitment :: "(string \<Rightarrow> string) \<Rightarrow> key_share \<Rightarrow> string" where
  "public_commitment sha s = sha (''share-commit:'' @ dec_u (ks_index s) @ '':'' @ dec_u (ks_value s))"

record group_key =
  gk_n :: nat
  gk_t :: nat
  gk_commitment :: string

definition dkg_coeff :: "(string \<Rightarrow> string) \<Rightarrow> string \<Rightarrow> string \<Rightarrow> nat \<Rightarrow> u64" where
  "dkg_coeff sha entropy node k =
     lab_random_u64 sha (''dkg|'' @ hex_encode entropy @ ''|'' @ node @ ''|'' @ dec k)"

definition dkg_poly :: "(string \<Rightarrow> string) \<Rightarrow> string \<Rightarrow> nat \<Rightarrow> string \<Rightarrow> u64 list" where
  "dkg_poly sha entropy t node = map (dkg_coeff sha entropy node) [0..<t]"

definition sum_at :: "u64 list list \<Rightarrow> u64 \<Rightarrow> u64" where
  "sum_at polys x = foldl (\<lambda>v p. field_add v (eval_poly p x)) 0 polys"

text \<open>The index of the \<open>j\<close>-th participant is computed in eight bits.\<close>

definition make_share :: "u64 list list \<Rightarrow> nat \<times> string \<Rightarrow> key_share res" where
  "make_share polys p =
     rbind (share_index_new (word_of_nat (fst p) + 1)) (\<lambda>i.
       Inr \<lparr>ks_index = i, ks_value = sum_at polys (word_of_nat (fst p) + 1), ks_node = snd p\<rparr>)"

definition run_dkg ::
  "(string \<Rightarrow> string) \<Rightarrow> string list \<Rightarrow> nat \<Rightarrow> string \<Rightarrow> (group_key \<times> key_share list) res" where
  "run_dkg sha active t entropy =
     (let n = length active in
      if n < 2 \<or> t = 0 \<or> n < t
      then Inl (ThresholdError (''bad n/t: n='' @ dec n @ '' t='' @ dec t))
      else let polys = map (dkg_poly sha entropy t) active;
               commitments = map (\<lambda>node. node @ '':'' @ sha (''commit:'' @ dec_u (dkg_coeff sha entropy node 0))) active in
        rbind (rmapM (make_share polys) (enumerate 0 active)) (\<lambda>shares.
          Inr (\<lparr>gk_n = n, gk_t = t, gk_commitment = sha (join_with ''|'' commitments)\<rparr>, shares)))"

text \<open>The joint secret no participant holds: the sum of the constant terms.\<close>

definition joint_secret :: "(string \<Rightarrow> string) \<Rightarrow> string list \<Rightarrow> string \<Rightarrow> int" where
  "joint_secret sha active entropy = (\<Sum>node\<leftarrow>active. uint (dkg_coeff sha entropy node 0)) mod 2147483647"

section \<open>Arithmetic facts\<close>

named_theorems field_uint \<open>the field operations read as integers modulo the prime\<close>

lemma uint_of_mod: "uint (word_of_nat (n mod 2147483647) :: u64) = int n mod 2147483647"
proof -
  have "n mod 2147483647 < 2147483647" by (rule mod_less_divisor) simp
  then have "n mod 2147483647 < 2 ^ LENGTH(64)" by (rule less_trans) simp
  then have "unat (word_of_nat (n mod 2147483647) :: u64) = n mod 2147483647" by (simp only: unat_of_nat mod_less)
  then show ?thesis by (simp only: uint_nat of_nat_mod of_nat_numeral)
qed

lemma unat_lab_prime: "unat lab_prime = 2147483647" by simp

lemma field_add_uint [field_uint]: "uint (field_add a b) = (uint a + uint b) mod 2147483647"
  by (simp only: field_add_def unat_lab_prime uint_of_mod of_nat_add) (simp only: uint_nat)

lemma field_mul_uint [field_uint]: "uint (field_mul a b) = (uint a * uint b) mod 2147483647"
  by (simp only: field_mul_def unat_lab_prime uint_of_mod of_nat_mult) (simp only: uint_nat)

lemma uint_mod_prime: "uint (a mod lab_prime) = uint a mod 2147483647"
  by (simp only: uint_mod) simp

lemma field_sub_uint [field_uint]: "uint (field_sub a b) mod 2147483647 = (uint a - uint b) mod 2147483647"
proof -
  let ?a = "a mod lab_prime" and ?b = "b mod lab_prime"
  have a: "uint ?a < 2147483647" and b: "uint ?b < 2147483647" by (simp_all only: uint_mod_prime pos_mod_bound zero_less_numeral)
  have m: "(uint ?a - uint ?b) mod 2147483647 = (uint a - uint b) mod 2147483647"
    by (simp only: uint_mod_prime mod_diff_eq)
  show ?thesis
  proof (cases "?b \<le> ?a")
    case True
    then have "uint (field_sub a b) = uint ?a - uint ?b"
      by (simp only: field_sub_def Let_def if_True uint_sub_if' word_le_def)
    then show ?thesis using m by simp
  next
    case False
    then have lt: "uint ?a < uint ?b" by (simp add: word_le_def)
    then have ba: "uint (?b - ?a) = uint ?b - uint ?a" by (simp add: uint_sub_if')
    have p: "uint lab_prime = 2147483647" by simp
    have "uint ?b - uint ?a \<le> 2147483647" using b uint_ge_0 [of ?a] by linarith
    then have "uint (lab_prime - (?b - ?a)) = 2147483647 - (uint ?b - uint ?a)"
      by (simp only: uint_sub_if' [of lab_prime] ba p if_True)
    then have "uint (field_sub a b) = (uint ?a - uint ?b) + 2147483647"
      using False by (simp only: field_sub_def Let_def if_False)
    then show ?thesis using m by simp
  qed
qed

lemma mod_pow_loop_uint:
  "uint r < 2147483647 \<Longrightarrow> uint (mod_pow_loop r b e) = (uint r * uint b ^ unat e) mod 2147483647"
proof (induction r b e rule: mod_pow_loop.induct)
  case (1 r b e)
  let ?p = "2147483647 :: int" and ?h = "unat e div 2"
  let ?r = "if and e 1 = 1 then field_mul r b else r"
  show ?case
  proof (cases "0 < e")
    case True
    have "uint (field_mul r b) < ?p" by (simp only: field_mul_uint pos_mod_bound zero_less_numeral)
    then have r: "uint ?r < ?p" using 1(2) by simp
    have odd: "and e 1 = 1 \<longleftrightarrow> odd (unat e)"
      by (simp add: and_one_eq word_unat_eq_iff unat_mod odd_iff_mod_2_eq_one)
    have sq: "uint (field_mul b b) ^ ?h mod ?p = uint b ^ (2 * ?h) mod ?p"
      by (simp only: field_mul_uint power_mod power_mult power2_eq_square)
    have "uint (mod_pow_loop r b e) = (uint ?r * uint (field_mul b b) ^ ?h) mod ?p"
      using 1(1) [OF True r] True by (subst mod_pow_loop.simps) (simp only: if_True unat_drop_bit_1)
    also have "\<dots> = (uint ?r * (uint (field_mul b b) ^ ?h mod ?p)) mod ?p" by (simp only: mod_mult_right_eq)
    also have "\<dots> = (uint ?r * uint b ^ (2 * ?h)) mod ?p" by (simp only: sq mod_mult_right_eq)
    also have "\<dots> = (uint r * uint b ^ unat e) mod ?p"
    proof (cases "odd (unat e)")
      case True
      then have e: "unat e = Suc (2 * ?h)" by simp
      have r1: "?r = field_mul r b" using True odd by simp
      have "(uint ?r * uint b ^ (2 * ?h)) mod ?p = ((uint r * uint b) mod ?p * uint b ^ (2 * ?h)) mod ?p"
        unfolding r1 by (simp only: field_mul_uint)
      also have "\<dots> = (uint r * uint b ^ Suc (2 * ?h)) mod ?p" by (simp only: mod_mult_left_eq power_Suc mult.assoc)
      finally show ?thesis using e by simp
    next
      case False
      then have "unat e = 2 * ?h" by simp
      then show ?thesis using False odd by simp
    qed
    finally show ?thesis .
  next
    case False
    then have "e = 0" by (simp add: word_gt_0)
    then show ?thesis using 1(2) by (subst mod_pow_loop.simps) simp
  qed
qed

lemma mod_pow_uint: "uint (mod_pow b e) = uint b ^ unat e mod 2147483647"
  by (simp add: mod_pow_def mod_pow_loop_uint) (simp only: uint_mod_prime power_mod)

lemma mod_add_mult: "(x + (a mod p) * b) mod p = (x + a * b) mod (p :: int)"
  by (metis mod_add_right_eq mod_mult_left_eq)

lemma mod_mix: "((x + y mod p) mod p + (z mod p) * q) mod p = (x + y + z * q) mod (p :: int)"
proof -
  have "((x + y mod p) mod p + (z mod p) * q) mod p = ((x + y mod p) + (z mod p) * q) mod p" by (rule mod_add_left_eq)
  also have "\<dots> = ((x + y mod p) + z * q) mod p" by (rule mod_add_mult)
  also have "\<dots> = (x + y + z * q) mod p" by (metis add.assoc add.commute mod_add_right_eq)
  finally show ?thesis .
qed

lemma eval_poly_loop_uint:
  "uint (eval_poly_loop cs x y pw) mod 2147483647
     = (uint y + uint pw * poly_at (map uint cs) (uint x)) mod 2147483647"
proof (induction cs x y pw rule: eval_poly_loop.induct)
  case (2 c cs x y pw)
  let ?p = "2147483647 :: int" and ?q = "poly_at (map uint cs) (uint x)"
  have "uint (eval_poly_loop (c # cs) x y pw) mod ?p
      = ((uint y + uint c * uint pw mod ?p) mod ?p + (uint pw * uint x) mod ?p * ?q) mod ?p"
    using 2 by (simp only: eval_poly_loop.simps field_uint)
  also have "\<dots> = ((uint y + uint c * uint pw) + (uint pw * uint x) * ?q) mod ?p"
    by (rule mod_mix)
  also have "(uint y + uint c * uint pw) + (uint pw * uint x) * ?q = uint y + uint pw * poly_at (map uint (c # cs)) (uint x)"
    by (simp add: algebra_simps)
  finally show ?case .
qed simp

lemma eval_poly_uint: "uint (eval_poly cs x) mod 2147483647 = poly_at (map uint cs) (uint x) mod 2147483647"
  by (simp add: eval_poly_def eval_poly_loop_uint)

lemma sum_at_loop:
  "uint (foldl (\<lambda>v p. field_add v (eval_poly p x)) v polys) mod 2147483647
     = (uint v + (\<Sum>p\<leftarrow>polys. poly_at (map uint p) (uint x))) mod 2147483647"
proof (induction polys arbitrary: v)
  case (Cons p polys)
  let ?p = "2147483647 :: int" and ?s = "\<Sum>p\<leftarrow>polys. poly_at (map uint p) (uint x)"
  have "uint (foldl (\<lambda>v p. field_add v (eval_poly p x)) v (p # polys)) mod ?p
      = ((uint v + uint (eval_poly p x) mod ?p) mod ?p + ?s) mod ?p"
    using Cons.IH [of "field_add v (eval_poly p x)"] by (simp add: field_uint mod_simps)
  also have "\<dots> = (uint v + poly_at (map uint p) (uint x) + ?s) mod ?p"
    by (simp only: eval_poly_uint mod_simps)
  finally show ?case by (simp add: add.assoc)
qed simp

lemma sum_at_uint:
  "uint (sum_at polys x) mod 2147483647 = (\<Sum>p\<leftarrow>polys. poly_at (map uint p) (uint x)) mod 2147483647"
  by (simp add: sum_at_def sum_at_loop)

lemma uint_lt_prime_not_dvd: "w mod lab_prime \<noteq> 0 \<longleftrightarrow> \<not> 2147483647 dvd uint w"
  by (simp add: dvd_eq_mod_eq_0 word_uint_eq_iff flip: uint_mod_prime)

lemma mod_inv_uint:
  assumes "\<not> 2147483647 dvd uint a"
  shows "\<exists>i. mod_inv a = Inr i \<and> (uint i * uint a) mod 2147483647 = 1"
proof -
  let ?p = "2147483647 :: int"
  have e: "unat (lab_prime - 2) = nat (?p - 2)" by simp
  have "(uint a * uint a ^ nat (?p - 2)) mod ?p = 1"
    by (rule fermat_inverse [OF mersenne_prime assms])
  moreover have "uint (mod_pow (a mod lab_prime) (lab_prime - 2)) = uint a ^ nat (?p - 2) mod ?p"
    by (simp only: mod_pow_uint e uint_mod_prime power_mod)
  ultimately have "(uint (mod_pow (a mod lab_prime) (lab_prime - 2)) * uint a) mod ?p = 1"
    by (simp only: mod_mult_right_eq mult.commute)
  moreover have "mod_inv a = Inr (mod_pow (a mod lab_prime) (lab_prime - 2))"
    using assms unfolding mod_inv_def Let_def by (subst if_not_P) (simp_all only: uint_lt_prime_not_dvd not_False_eq_True)
  ultimately show ?thesis by blast
qed

section \<open>Reconstruction\<close>

lemma basis_loop_uint:
  assumes "distinct js"
  shows "uint (fst (basis_loop i xi (map (\<lambda>j. (j, x j, y j)) js) (num, den))) mod 2147483647
           = (uint num * (\<Prod>j\<in>set js - {i}. - uint (x j))) mod 2147483647 \<and>
         uint (snd (basis_loop i xi (map (\<lambda>j. (j, x j, y j)) js) (num, den))) mod 2147483647
           = (uint den * (\<Prod>j\<in>set js - {i}. uint xi - uint (x j))) mod 2147483647"
  using assms
proof (induction js arbitrary: num den)
  case (Cons j js)
  let ?p = "2147483647 :: int"
  let ?xj = "ucast (x j) :: u64" and ?xi = "ucast xi :: u64"
  have u: "uint (ucast w :: u64) = uint w" for w :: u8
    using unat_ucast_widen [where 'a = 8 and 'b = 64, of w] by (simp only: uint_nat) simp
  show ?case
  proof (cases "i = j")
    case True
    then have "set (j # js) - {i} = set js - {i}" by auto
    then show ?thesis using Cons True by simp
  next
    case False
    then have s: "set (j # js) - {i} = insert j (set js - {i})" "j \<notin> set js - {i}" using Cons.prems by auto
    have m: "(uint (field_mul a (field_sub b c)) * q) mod ?p = (uint a * ((uint b - uint c) * q)) mod ?p" for a b c q
    proof -
      have "uint (field_mul a (field_sub b c)) * q mod ?p = (uint a * (uint (field_sub b c) mod ?p)) mod ?p * q mod ?p"
        by (simp only: field_mul_uint mod_mult_right_eq)
      also have "\<dots> = (uint a * (uint b - uint c)) mod ?p * q mod ?p"
        by (simp only: field_sub_uint mod_mult_right_eq)
      finally show ?thesis by (simp only: mod_mult_left_eq mult.assoc)
    qed
    have "basis_loop i xi (map (\<lambda>j. (j, x j, y j)) (j # js)) (num, den) =
        basis_loop i xi (map (\<lambda>j. (j, x j, y j)) js) (field_mul num (field_sub 0 ?xj), field_mul den (field_sub ?xi ?xj))"
      using False by simp
    then show ?thesis
      using Cons.IH [of "field_mul num (field_sub 0 ?xj)" "field_mul den (field_sub ?xi ?xj)"] Cons.prems
      unfolding s(1) by (simp only: distinct.simps m prod.insert [OF _ s(2)] finite_Diff finite_set u) simp
  qed
qed simp

definition inverse_of :: "u64 \<Rightarrow> int" where
  "inverse_of d = (case mod_inv d of Inr i \<Rightarrow> uint i | Inl _ \<Rightarrow> 0)"

lemma interpolate_loop_uint:
  assumes "\<forall>i\<in>set is. \<not> 2147483647 dvd uint (snd (basis_loop i (x i) all (1, 1)))"
  shows "\<exists>s. interpolate_loop all (map (\<lambda>i. (i, x i, y i)) is) acc = Inr s \<and>
    (is \<noteq> [] \<or> uint acc < 2147483647 \<longrightarrow> uint s < 2147483647) \<and>
    uint s mod 2147483647 =
      (uint acc + (\<Sum>i\<leftarrow>is. uint (y i) * (uint (fst (basis_loop i (x i) all (1, 1)))
          * inverse_of (snd (basis_loop i (x i) all (1, 1)))))) mod 2147483647"
  using assms
proof (induction "is" arbitrary: acc)
  case (Cons i "is")
  let ?p = "2147483647 :: int"
  obtain num den where b: "basis_loop i (x i) all (1, 1) = (num, den)" by fastforce
  obtain v where v: "mod_inv den = Inr v" using mod_inv_uint [of den] Cons.prems b by auto
  let ?acc = "field_add acc (field_mul (y i) (field_mul num v))"
  let ?rest = "\<Sum>i\<leftarrow>is. uint (y i) * (uint (fst (basis_loop i (x i) all (1, 1)))
          * inverse_of (snd (basis_loop i (x i) all (1, 1))))"
  have acc: "uint ?acc < ?p" by (simp only: field_add_uint pos_mod_bound zero_less_numeral)
  have e: "(uint ?acc + ?rest) mod ?p = (uint acc + uint (y i) * (uint num * uint v) + ?rest) mod ?p"
    by (simp only: field_uint mod_simps)
  obtain s where "interpolate_loop all (map (\<lambda>i. (i, x i, y i)) is) ?acc = Inr s" "uint s < ?p"
    "uint s mod ?p = (uint ?acc + ?rest) mod ?p"
    using Cons.IH [of ?acc] Cons.prems acc by auto
  then show ?case
    using e by (intro exI [of _ s]) (simp add: b v inverse_of_def add.assoc)
qed simp

lemma sum_mod_cong:
  "(\<And>i. i \<in> A \<Longrightarrow> f i mod p = g i mod (p :: int)) \<Longrightarrow> (\<Sum>i\<in>A. f i) mod p = (\<Sum>i\<in>A. g i) mod p"
  by (metis (mono_tags, lifting) mod_sum_eq sum.cong)

lemma uint_small_nat: "j < 2 ^ 8 \<Longrightarrow> uint (word_of_nat j :: u8) = int j" "j < 2 ^ 8 \<Longrightarrow> uint (word_of_nat j :: u64) = int j"
  by (simp_all only: uint_nat unat_of_nat) simp_all

lemma make_share_index:
  assumes "\<forall>j<n. make_share polys (j, node j) \<noteq> Inl (InvalidShare ''share index must be >= 1'')"
  shows "n < 256"
proof (rule ccontr)
  assume "\<not> n < 256"
  then have "255 < n" by simp
  moreover have "make_share polys (255, node 255) = Inl (InvalidShare ''share index must be >= 1'')"
    by (simp add: make_share_def share_index_new_def)
  ultimately show False using assms by blast
qed

lemma make_share_ok:
  assumes "make_share polys (j, node) = Inr p" "j < 255"
  shows "uint (ks_index p) = int j + 1 \<and>
    uint (ks_value p) mod 2147483647 = (\<Sum>q\<leftarrow>polys. poly_at (map uint q) (uint (ks_index p))) mod 2147483647"
proof -
  have w: "(word_of_nat j + 1 :: u8) = word_of_nat (Suc j)" "(word_of_nat j + 1 :: u64) = word_of_nat (Suc j)" by simp_all
  have p: "ks_index p = word_of_nat j + 1" "ks_value p = sum_at polys (word_of_nat j + 1)"
    using assms(1) by (auto simp: make_share_def share_index_new_def split: if_splits)
  have i: "uint (ks_index p) = int j + 1" unfolding p w using assms(2) by (subst uint_small_nat) simp_all
  have "uint (word_of_nat j + 1 :: u64) = int j + 1" unfolding w using assms(2) by (subst uint_small_nat) simp_all
  then show ?thesis using i sum_at_uint [of polys "word_of_nat j + 1"] by (simp add: p(2))
qed

lemma run_dkg_shares:
  assumes "run_dkg sha active t entropy = Inr (g, shares)" and p: "p \<in> set shares"
  shows "uint (ks_value p) mod 2147483647 =
    (\<Sum>q\<leftarrow>map (dkg_poly sha entropy t) active. poly_at (map uint q) (uint (ks_index p))) mod 2147483647"
    and "0 < t"
proof -
  let ?polys = "map (dkg_poly sha entropy t) active"
  have a: "list_all2 (\<lambda>x y. make_share ?polys x = Inr y) (enumerate 0 active) shares" and t: "0 < t"
    using assms(1) by (auto simp: run_dkg_def Let_def rbind_Inr_iff rmapM_Inr_iff split: if_splits)
  have "make_share ?polys (j, active ! j) = Inr (shares ! j)" if "j < length active" for j
    using list_all2_nthD [OF a, of j] that by (simp add: nth_enumerate_eq)
  then have n: "length active < 256"
    by (intro make_share_index [of _ ?polys "\<lambda>j. active ! j"]) auto
  have l: "length shares = length active" using list_all2_lengthD [OF a] by simp
  obtain j where j: "j < length shares" "shares ! j = p" using p by (auto simp: in_set_conv_nth)
  then have "make_share ?polys (j, active ! j) = Inr p"
    using list_all2_nthD [OF a, of j] l by (simp add: nth_enumerate_eq)
  then show "uint (ks_value p) mod 2147483647 =
      (\<Sum>q\<leftarrow>?polys. poly_at (map uint q) (uint (ks_index p))) mod 2147483647"
    by (rule make_share_ok [THEN conjunct2]) (use j l n in simp)
  show "0 < t" by (rule t)
qed

lemma polyn_sum_list: "\<forall>q\<in>set qs. length q = n \<Longrightarrow> polyn n (\<lambda>x. \<Sum>q\<leftarrow>qs. poly_at (map uint q) x)"
proof (induction qs)
  case Nil
  show ?case unfolding polyn_def by (intro exI [of _ "replicate n 0"]) (auto simp: poly_at_zero)
next
  case (Cons q qs)
  then show ?case using polyn_add [of n "poly_at (map uint q)" "\<lambda>x. \<Sum>q\<leftarrow>qs. poly_at (map uint q) x"]
      polyn_list [of "map uint q"] by simp
qed

lemma joint_secret_at_zero:
  "0 < t \<Longrightarrow> (\<Sum>q\<leftarrow>map (dkg_poly sha entropy t) active. poly_at (map uint q) 0) mod 2147483647
     = joint_secret sha active entropy"
proof -
  assume "0 < t"
  then have "poly_at (map uint (dkg_poly sha entropy t node)) 0 = uint (dkg_coeff sha entropy node 0)" for node
    by (simp add: dkg_poly_def upt_conv_Cons)
  then show ?thesis by (simp add: joint_secret_def comp_def)
qed

lemma enumerate_shares: "enumerate 0 ss = map (\<lambda>i. (i, ss ! i)) [0..<length ss]"
  by (rule nth_equalityI) (simp_all add: nth_enumerate_eq)

lemma indices_apart:
  assumes "distinct (map fst (ss :: (u8 \<times> u64) list))"
  shows "inj_on (\<lambda>i. uint (fst (ss ! i)) mod 2147483647) {..<length ss}"
proof (rule inj_onI)
  fix i j assume ij: "i \<in> {..<length ss}" "j \<in> {..<length ss}"
    "uint (fst (ss ! i)) mod 2147483647 = uint (fst (ss ! j)) mod 2147483647"
  have "uint (w :: u8) mod 2147483647 = uint w" for w using unsigned_less [of w, where ?'a = int] by simp
  then have "uint (fst (ss ! i)) = uint (fst (ss ! j))" using ij(3) by simp
  then have "fst (ss ! i) = fst (ss ! j)" by (rule word_uint_eq_iff [THEN iffD2])
  then show "i = j" using assms ij by (simp add: distinct_conv_nth) blast
qed

lemma denominators:
  assumes d: "distinct (map fst ss)" and i: "i < length ss"
  shows "\<not> 2147483647 dvd uint (snd (basis_loop i (fst (ss ! i)) (enumerate 0 ss) (1, 1)))" (is "\<not> ?p dvd ?d")
proof -
  have "\<not> ?p dvd (\<Prod>j\<in>{..<length ss} - {i}. uint (fst (ss ! i)) - uint (fst (ss ! j)))"
  proof (rule prime_mod_prod)
    show "\<forall>j\<in>{..<length ss} - {i}. \<not> ?p dvd uint (fst (ss ! i)) - uint (fst (ss ! j))"
      using indices_apart [OF d] i by (auto simp: inj_on_def mod_eq_dvd [symmetric])
  qed (simp_all add: mersenne_prime)
  moreover have "?d mod ?p = (\<Prod>j\<in>{..<length ss} - {i}. uint (fst (ss ! i)) - uint (fst (ss ! j))) mod ?p"
    using basis_loop_uint [of "[0..<length ss]" i "fst (ss ! i)" "\<lambda>i. fst (ss ! i)" "\<lambda>i. snd (ss ! i)" 1 1]
    by (simp add: enumerate_shares atLeast0LessThan)
  ultimately show ?thesis by (simp add: dvd_eq_mod_eq_0)
qed

lemma interpolate_total:
  assumes "distinct (map fst ss)" "ss \<noteq> []"
  shows "is_ok (interpolate_secret ss)"
  using interpolate_loop_uint [of "[0..<length ss]" "\<lambda>i. fst (ss ! i)" "enumerate 0 ss" "\<lambda>i. snd (ss ! i)" 0]
    denominators [OF assms(1)] assms(2)
  by (auto simp: interpolate_secret_def is_ok_iff simp flip: enumerate_shares)

text \<open>Interpolation of the values of a polynomial at enough distinct indices.\<close>

lemma interpolate_values:
  assumes f: "polyn m f" "m \<le> length ss" "ss \<noteq> []" and d: "distinct (map fst ss)"
    and v: "\<forall>(x, y)\<in>set ss. uint y mod 2147483647 = f (uint x) mod 2147483647"
  shows "\<exists>s. interpolate_secret ss = Inr s \<and> uint s = f 0 mod 2147483647"
proof -
  let ?p = "2147483647 :: int"
  define n x y where "n = length ss" and "x i = fst (ss ! i)" and "y i = snd (ss ! i)" for i
  define nd where "nd i = basis_loop i (x i) (enumerate 0 ss) (1, 1)" for i
  have e: "enumerate 0 ss = map (\<lambda>i. (i, x i, y i)) [0..<n]"
    by (simp add: enumerate_shares n_def x_def y_def)
  have r: "inj_on (\<lambda>i. uint (x i) mod ?p) {..<n}"
    using indices_apart [OF d] by (simp add: n_def x_def)
  have num: "uint (fst (nd i)) mod ?p = (\<Prod>j\<in>{..<n} - {i}. - uint (x j)) mod ?p"
    and den: "uint (snd (nd i)) mod ?p = (\<Prod>j\<in>{..<n} - {i}. uint (x i) - uint (x j)) mod ?p" for i
    using basis_loop_uint [of "[0..<n]" i "x i" x y 1 1] by (simp_all add: nd_def e atLeast0LessThan)
  have nz: "\<not> ?p dvd uint (snd (nd i))" if "i < n" for i
    using denominators [OF d, of i] that by (simp add: n_def nd_def x_def)
  have w: "(inverse_of (snd (nd i)) * (\<Prod>j\<in>{..<n} - {i}. uint (x i) - uint (x j))) mod ?p = 1" if i: "i < n" for i
  proof -
    obtain v where "mod_inv (snd (nd i)) = Inr v" "(uint v * uint (snd (nd i))) mod ?p = 1"
      using mod_inv_uint [OF nz [OF i]] by blast
    then have "(inverse_of (snd (nd i)) * (uint (snd (nd i)) mod ?p)) mod ?p = 1"
      by (simp add: inverse_of_def mod_simps)
    then show ?thesis by (simp only: den mod_mult_right_eq)
  qed
  have "n \<noteq> 0" using f(3) by (simp add: n_def)
  then obtain s where s: "interpolate_secret ss = Inr s" "uint s < ?p"
    "uint s mod ?p = (\<Sum>i\<leftarrow>[0..<n]. uint (y i) * (uint (fst (nd i)) * inverse_of (snd (nd i)))) mod ?p"
    using interpolate_loop_uint [of "[0..<n]" x "enumerate 0 ss" y 0] nz f(3)
    by (auto simp: interpolate_secret_def e nd_def)
  have "uint s = (\<Sum>i<n. uint (y i) * (uint (fst (nd i)) * inverse_of (snd (nd i)))) mod ?p"
    using s(2,3) by (simp add: interv_sum_list_conv_sum_set_nat atLeast0LessThan)
  also have "\<dots> = (\<Sum>i<n. f (uint (x i)) * ((\<Prod>j\<in>{..<n} - {i}. - uint (x j)) * inverse_of (snd (nd i)))) mod ?p"
  proof (rule sum_mod_cong)
    fix i assume "i \<in> {..<n}"
    then have "ss ! i \<in> set ss" by (simp add: n_def)
    then have yf: "uint (y i) mod ?p = f (uint (x i)) mod ?p" using v by (auto simp: x_def y_def)
    show "(uint (y i) * (uint (fst (nd i)) * inverse_of (snd (nd i)))) mod ?p =
        (f (uint (x i)) * ((\<Prod>j\<in>{..<n} - {i}. - uint (x j)) * inverse_of (snd (nd i)))) mod ?p"
      using mod_mult_cong [OF yf mod_mult_cong [OF num [of i] HOL.refl]] .
  qed
  also have "\<dots> = f 0 mod ?p"
    by (rule lagrange_at_zero [OF mersenne_prime f(1) _ r w]) (use f(2) in \<open>simp_all add: n_def\<close>)
  finally show ?thesis using s(1) by blast
qed

text \<open>C26: any quorum reconstructs the same secret: from the shares of a joint key generation that succeeded,
  interpolation at any \<open>t\<close> or more of them, in any order and without repetitions, gives the sum of the
  participants' contributions modulo the prime.\<close>

theorem any_quorum_reconstructs:
  assumes "run_dkg sha active t entropy = Inr (g, shares)"
    and "set ps \<subseteq> set shares" "distinct (map ks_index ps)" "t \<le> length ps"
  shows "\<exists>s. interpolate_secret (map (\<lambda>p. (ks_index p, ks_value p)) ps) = Inr s
    \<and> uint s = joint_secret sha active entropy"
proof -
  let ?qs = "map (dkg_poly sha entropy t) active" and ?ss = "map (\<lambda>p. (ks_index p, ks_value p)) ps"
  obtain g1 ss where r: "run_dkg sha active t entropy = Inr (g1, ss)" using assms(1) by blast
  have t: "0 < t" using assms(1) by (auto simp: run_dkg_def Let_def split: if_splits)
  have "polyn t (\<lambda>x. \<Sum>q\<leftarrow>?qs. poly_at (map uint q) x)"
    by (rule polyn_sum_list) (auto simp: dkg_poly_def)
  moreover have "\<forall>(x, y)\<in>set ?ss. uint y mod 2147483647 = (\<Sum>q\<leftarrow>?qs. poly_at (map uint q) (uint x)) mod 2147483647"
    using run_dkg_shares(1) [OF assms(1)] assms(2) by auto
  ultimately have "\<exists>s. interpolate_secret ?ss = Inr s \<and> uint s = (\<Sum>q\<leftarrow>?qs. poly_at (map uint q) 0) mod 2147483647"
    by (intro interpolate_values) (use assms(3,4) t in \<open>auto simp: comp_def\<close>)
  then show ?thesis using joint_secret_at_zero [OF t] by simp
qed

definition demo_sha :: "string \<Rightarrow> string" where
  "demo_sha x = replicate 63 (CHR ''0'') @ ''7''"

lemma demo_dkg: "is_ok (run_dkg demo_sha [''a'', ''b'', ''c''] 2 ''e'')"
  by (simp add: run_dkg_def Let_def make_share_def share_index_new_def rbind_def)

theorem any_quorum_reconstructs_witness:
  "\<exists>g shares. run_dkg demo_sha [''a'', ''b'', ''c''] 2 ''e'' = Inr (g, shares) \<and>
     (\<exists>s. interpolate_secret (map (\<lambda>p. (ks_index p, ks_value p)) [shares ! 2, shares ! 0]) = Inr s
        \<and> uint s = joint_secret demo_sha [''a'', ''b'', ''c''] ''e'')"
proof -
  obtain g shares where r: "run_dkg demo_sha [''a'', ''b'', ''c''] 2 ''e'' = Inr (g, shares)"
    using demo_dkg by (auto simp: is_ok_iff)
  then have s: "length shares = 3" "map ks_index shares = [1, 2, 3]"
    by (auto simp: run_dkg_def Let_def make_share_def share_index_new_def rbind_def split: if_splits)
  have "\<exists>s. interpolate_secret (map (\<lambda>p. (ks_index p, ks_value p)) [shares ! 2, shares ! 0]) = Inr s
        \<and> uint s = joint_secret demo_sha [''a'', ''b'', ''c''] ''e''"
  proof (rule any_quorum_reconstructs [OF r])
    have "map ks_index shares ! 2 = 3" "map ks_index shares ! 0 = 1" using s(2) by simp_all
    then show "distinct (map ks_index [shares ! 2, shares ! 0])" using s(1) by simp
  qed (use s in simp_all)
  then show ?thesis using r by blast
qed

text \<open>C27: the square-and-multiply loop is modular exponentiation and ends: for every base and every
  exponent, zero included, it gives the power of the base modulo the prime.\<close>

theorem mod_pow_exact: "uint (mod_pow b e) = uint b ^ unat e mod 2147483647"
  by (rule mod_pow_uint)

end
