(* ===== verification/LabSign.thy ===== *)
theory LabSign
  imports Threshold
begin

text \<open>
  The signing sessions of the lab's threshold scheme (\<open>adapters/threshold_state.rs\<close>), the use case
  over them (\<open>application/sign.rs\<close>) and its endpoint \<open>v1_sign\<close> (\<open>adapters/http.rs\<close>).
\<close>

section \<open>Sessions\<close>

datatype signing_phase = SigOpen | SigNoncesBound | SigCombined | SigConsumed

fun signing_phase_debug :: "signing_phase \<Rightarrow> string" where
  "signing_phase_debug SigOpen = ''Open''"
| "signing_phase_debug SigNoncesBound = ''NoncesBound''"
| "signing_phase_debug SigCombined = ''Combined''"
| "signing_phase_debug SigConsumed = ''Consumed''"

record partial_signature =
  pg_index :: u8
  pg_node :: string
  pg_commitment :: string
  pg_value :: u64

record signing_session =
  sg_id :: string
  sg_hash :: string
  sg_phase :: signing_phase
  sg_bound :: "string list"
  sg_partials :: "partial_signature list"

record combined_signature =
  cb_session :: string
  cb_hash :: string
  cb_value :: u64
  cb_participants :: "u8 list"

definition combined_json :: "combined_signature \<Rightarrow> string" where
  "combined_json c =
     [CHR ''{'', chr 34] @ ''session_id'' @ [chr 34, CHR '':'', chr 34] @ cb_session c
     @ [chr 34, CHR '','', chr 34] @ ''message_hash'' @ [chr 34, CHR '':'', chr 34] @ cb_hash c
     @ [chr 34, CHR '','', chr 34] @ ''value'' @ [chr 34, CHR '':''] @ dec_u (cb_value c)
     @ [CHR '','', chr 34] @ ''participants'' @ [chr 34, CHR '':'', CHR ''['']
     @ join_with '','' (map dec_u (cb_participants c)) @ [CHR '']'', CHR '','', chr 34] @ ''scheme'' @ [chr 34, CHR '':'', chr 34]
     @ ''lab-shamir-threshold-v1'' @ [chr 34, CHR ''}'']"

record threshold_vault =
  tv_group :: group_key
  tv_local :: key_share
  tv_all :: "key_share list"
  tv_sessions :: "string \<rightharpoonup> signing_session"
  tv_used :: "string set"
  tv_consumed :: "string set"

definition threshold_vault_new :: "group_key \<Rightarrow> key_share \<Rightarrow> key_share list \<Rightarrow> threshold_vault" where
  "threshold_vault_new g local shares =
     \<lparr>tv_group = g, tv_local = local, tv_all = shares, tv_sessions = Map.empty, tv_used = {}, tv_consumed = {}\<rparr>"

definition begin_session ::
  "(string \<Rightarrow> string) \<Rightarrow> string \<Rightarrow> string \<Rightarrow> nat \<Rightarrow> threshold_vault \<Rightarrow> signing_session res \<times> threshold_vault" where
  "begin_session sha sid mh online v =
     (if online < gk_t (tv_group v) then (Inl (FailStop online (gk_t (tv_group v))), v)
      else if sid \<in> tv_consumed v \<or> tv_sessions v sid \<noteq> None
      then (Inl (NonceReuse (''session_id already used: '' @ sid)), v)
      else let nonce = derive_nonce sha sid mh (ks_value (tv_local v));
               commit = nonce_commitment sha nonce (ks_index (tv_local v)) in
        if commit \<in> tv_used v then (Inl (NonceReuse commit), v)
        else let s = \<lparr>sg_id = sid, sg_hash = mh, sg_phase = SigNoncesBound, sg_bound = [commit], sg_partials = []\<rparr> in
          (Inr s, v\<lparr>tv_used := insert commit (tv_used v), tv_sessions := (tv_sessions v)(sid \<mapsto> s)\<rparr>))"

definition partial_of :: "(string \<Rightarrow> string) \<Rightarrow> string \<Rightarrow> string \<Rightarrow> key_share \<Rightarrow> partial_signature" where
  "partial_of sha sid mh s =
     (let nonce = derive_nonce sha sid mh (ks_value s) in
      \<lparr>pg_index = ks_index s, pg_node = ks_node s, pg_commitment = nonce_commitment sha nonce (ks_index s),
       pg_value = field_add (field_mul (ks_value s) nonce) (lab_random_u64 sha mh)\<rparr>)"

definition contribute_local_partial ::
  "(string \<Rightarrow> string) \<Rightarrow> string \<Rightarrow> threshold_vault \<Rightarrow> partial_signature res \<times> threshold_vault" where
  "contribute_local_partial sha sid v =
     (if sid \<in> tv_consumed v then (Inl (SessionConsumed sid), v)
      else case tv_sessions v sid of
        None \<Rightarrow> (Inl (UnknownProposal sid), v)
      | Some s \<Rightarrow>
          if sg_phase s \<noteq> SigNoncesBound \<and> sg_phase s \<noteq> SigOpen
          then (Inl (BadSigningPhase sid (signing_phase_debug (sg_phase s))), v)
          else let p = partial_of sha sid (sg_hash s) (tv_local v) in
            if list_ex (\<lambda>q. pg_index q = pg_index p) (sg_partials s)
            then (Inl (NonceReuse ''duplicate partial for share index''), v)
            else (Inr p, v\<lparr>tv_sessions := (tv_sessions v)(sid \<mapsto> s\<lparr>sg_partials := sg_partials s @ [p]\<rparr>)\<rparr>))"

definition bind_commitments :: "partial_signature list \<Rightarrow> string list \<Rightarrow> string list" where
  "bind_commitments ps bound =
     foldl (\<lambda>b p. if pg_commitment p \<in> set b then b else b @ [pg_commitment p]) bound ps"

definition lab_collect_partials ::
  "(string \<Rightarrow> string) \<Rightarrow> string \<Rightarrow> nat \<Rightarrow> threshold_vault \<Rightarrow> partial_signature list res \<times> threshold_vault" where
  "lab_collect_partials sha sid online v =
     (if online < gk_t (tv_group v) then (Inl (FailStop online (gk_t (tv_group v))), v)
      else case tv_sessions v sid of
        None \<Rightarrow> (Inl (UnknownProposal sid), v)
      | Some s \<Rightarrow>
          let out = map (partial_of sha sid (sg_hash s)) (take (min online (gk_n (tv_group v))) (tv_all v)) in
          (Inr out,
           v\<lparr>tv_used := tv_used v \<union> set (map pg_commitment out),
             tv_sessions := (tv_sessions v)(sid \<mapsto>
               s\<lparr>sg_bound := bind_commitments out (sg_bound s), sg_partials := out, sg_phase := SigNoncesBound\<rparr>)\<rparr>))"

definition combine_session :: "string \<Rightarrow> nat \<Rightarrow> threshold_vault \<Rightarrow> combined_signature res \<times> threshold_vault" where
  "combine_session sid online v =
     (let need = gk_t (tv_group v) in
      if online < need then (Inl (FailStop online need), v)
      else if sid \<in> tv_consumed v then (Inl (SessionConsumed sid), v)
      else case tv_sessions v sid of
        None \<Rightarrow> (Inl (UnknownProposal sid), v)
      | Some s \<Rightarrow>
          if length (sg_partials s) < need then (Inl (QuorumNotMet (length (sg_partials s)) need), v)
          else let points = map (\<lambda>p. (pg_index p, pg_value p)) (take need (sg_partials s)) in
            case interpolate_secret points of
              Inl e \<Rightarrow> (Inl e, v)
            | Inr x \<Rightarrow>
                (Inr \<lparr>cb_session = sid, cb_hash = sg_hash s, cb_value = x, cb_participants = map fst points\<rparr>,
                 v\<lparr>tv_sessions := (tv_sessions v)(sid \<mapsto> s\<lparr>sg_phase := SigConsumed, sg_partials := []\<rparr>),
                   tv_consumed := insert sid (tv_consumed v)\<rparr>))"

text \<open>The use case: each step sees the online count it was started with.\<close>

definition run_lab_quorum_sign ::
  "(string \<Rightarrow> string) \<Rightarrow> string \<Rightarrow> string \<Rightarrow> nat \<Rightarrow> threshold_vault \<Rightarrow> combined_signature res \<times> threshold_vault" where
  "run_lab_quorum_sign sha sid mh online v =
     (case begin_session sha sid mh online v of
        (Inl e, v1) \<Rightarrow> (Inl e, v1)
      | (Inr _, v1) \<Rightarrow>
          (case lab_collect_partials sha sid online v1 of
             (Inl e, v2) \<Rightarrow> (Inl e, v2)
           | (Inr _, v2) \<Rightarrow> combine_session sid online v2))"

definition v1_sign ::
  "(string \<Rightarrow> string) \<Rightarrow> auth_adapter \<Rightarrow> (string + string \<times> string) \<Rightarrow> nat \<Rightarrow> threshold_vault \<Rightarrow> http_reply \<times> threshold_vault" where
  "v1_sign sha auth body online v =
     (case authorize_treasury_sign auth of
        Inl e \<Rightarrow> ((401, json_err e), v)
      | Inr _ \<Rightarrow>
          (case body of
             Inl e \<Rightarrow> ((400, json_err_text (''invalid json: '' @ e)), v)
           | Inr (sid, mh) \<Rightarrow>
               (case run_lab_quorum_sign sha sid mh online v of
                  (Inl e, v1) \<Rightarrow> ((400, json_err e), v1)
                | (Inr c, v1) \<Rightarrow> ((200, combined_json c), v1))))"

section \<open>Runs\<close>

datatype lab_op =
    LabBegin string string nat
  | LabContribute string
  | LabCollect string nat
  | LabCombine string nat
  | LabSign string string nat

fun lab_step :: "(string \<Rightarrow> string) \<Rightarrow> lab_op \<Rightarrow> threshold_vault \<Rightarrow> combined_signature option \<times> threshold_vault" where
  "lab_step sha (LabBegin sid mh online) v = (None, snd (begin_session sha sid mh online v))"
| "lab_step sha (LabContribute sid) v = (None, snd (contribute_local_partial sha sid v))"
| "lab_step sha (LabCollect sid online) v = (None, snd (lab_collect_partials sha sid online v))"
| "lab_step sha (LabCombine sid online) v =
     (case combine_session sid online v of (Inr c, v1) \<Rightarrow> (Some c, v1) | (Inl _, v1) \<Rightarrow> (None, v1))"
| "lab_step sha (LabSign sid mh online) v =
     (case run_lab_quorum_sign sha sid mh online v of (Inr c, v1) \<Rightarrow> (Some c, v1) | (Inl _, v1) \<Rightarrow> (None, v1))"

text \<open>A session's partials come from distinct shares of the vault, over the session's message.\<close>

definition vault_ok :: "(string \<Rightarrow> string) \<Rightarrow> threshold_vault \<Rightarrow> bool" where
  "vault_ok sha v \<longleftrightarrow>
     distinct (map ks_index (tv_all v)) \<and> tv_local v \<in> set (tv_all v) \<and>
     (\<forall>sid s. tv_sessions v sid = Some s \<longrightarrow>
        distinct (map pg_index (sg_partials s)) \<and> set (sg_partials s) \<subseteq> partial_of sha sid (sg_hash s) ` set (tv_all v))"

text \<open>What a combined signature is: the interpolation of exactly the quorum's partials.\<close>

definition combined_ok :: "(string \<Rightarrow> string) \<Rightarrow> group_key \<Rightarrow> key_share list \<Rightarrow> combined_signature \<Rightarrow> bool" where
  "combined_ok sha g shares c \<longleftrightarrow>
     distinct (cb_participants c) \<and> length (cb_participants c) = gk_t g \<and>
     (\<exists>used. map ks_index used = cb_participants c \<and> set used \<subseteq> set shares \<and>
        interpolate_secret (map (\<lambda>s. (ks_index s, pg_value (partial_of sha (cb_session c) (cb_hash c) s))) used)
          = Inr (cb_value c))"

lemma begin_session_ok: "vault_ok sha v \<Longrightarrow> vault_ok sha (snd (begin_session sha sid mh online v))"
  by (auto simp: vault_ok_def begin_session_def Let_def)

lemma contribute_ok: "vault_ok sha v \<Longrightarrow> vault_ok sha (snd (contribute_local_partial sha sid v))"
  by (auto simp: vault_ok_def contribute_local_partial_def Let_def list_ex_iff split: option.splits)

lemma pg_index_partial [simp]: "pg_index (partial_of sha sid mh s) = ks_index s"
  by (simp add: partial_of_def Let_def)

lemma collect_ok: "vault_ok sha v \<Longrightarrow> vault_ok sha (snd (lab_collect_partials sha sid online v))"
  by (auto simp: vault_ok_def lab_collect_partials_def Let_def comp_def take_map [symmetric] dest: in_set_takeD split: option.splits)

lemma combine_keeps: "vault_ok sha v \<Longrightarrow> vault_ok sha (snd (combine_session sid online v))"
  by (auto simp: vault_ok_def combine_session_def Let_def split: option.splits sum.splits)

lemma map_preimage: "set xs \<subseteq> f ` A \<Longrightarrow> \<exists>us. xs = map f us \<and> set us \<subseteq> A"
proof (induction xs)
  case (Cons x xs)
  then obtain u us where "x = f u" "u \<in> A" "xs = map f us" "set us \<subseteq> A" by auto
  then show ?case by (intro exI [of _ "u # us"]) simp
qed simp

lemma combine_ok:
  assumes v: "vault_ok sha v" and c: "combine_session sid online v = (Inr c, w)"
  shows "cb_session c = sid \<and> sid \<notin> tv_consumed v \<and> sid \<in> tv_consumed w \<and> combined_ok sha (tv_group v) (tv_all v) c"
proof -
  let ?t = "gk_t (tv_group v)"
  obtain s x where s: "tv_sessions v sid = Some s" "?t \<le> length (sg_partials s)" "sid \<notin> tv_consumed v"
    and x: "interpolate_secret (map (\<lambda>p. (pg_index p, pg_value p)) (take ?t (sg_partials s))) = Inr x"
    and ce: "c = \<lparr>cb_session = sid, cb_hash = sg_hash s, cb_value = x, cb_participants = map pg_index (take ?t (sg_partials s))\<rparr>"
    and w: "sid \<in> tv_consumed w"
    using c by (auto simp: combine_session_def Let_def comp_def split: if_splits option.splits sum.splits)
  let ?ps = "take ?t (sg_partials s)"
  have d: "distinct (map pg_index (sg_partials s))"
    and sub: "set (sg_partials s) \<subseteq> partial_of sha sid (sg_hash s) ` set (tv_all v)"
    using v s(1) by (auto simp: vault_ok_def)
  have "set ?ps \<subseteq> partial_of sha sid (sg_hash s) ` set (tv_all v)" using sub set_take_subset by (rule subset_trans [rotated])
  then obtain us where us: "?ps = map (partial_of sha sid (sg_hash s)) us" "set us \<subseteq> set (tv_all v)"
    using map_preimage by blast
  have i: "map ks_index us = map pg_index ?ps" by (simp add: us(1) comp_def)
  have "distinct (map pg_index ?ps)" using d by (simp add: take_map [symmetric])
  moreover have "interpolate_secret (map (\<lambda>u. (ks_index u, pg_value (partial_of sha sid (sg_hash s) u))) us) = Inr x"
    using x by (simp add: us(1) comp_def)
  moreover have "length ?ps = ?t" using s(2) by simp
  ultimately have "combined_ok sha (tv_group v) (tv_all v) c"
    unfolding combined_ok_def ce using us(2) i by (auto intro!: exI [of _ us])
  then show ?thesis using s(3) w by (simp add: ce)
qed

lemma lab_fields:
  "tv_group (snd (lab_step sha x v)) = tv_group v" "tv_all (snd (lab_step sha x v)) = tv_all v"
  "tv_consumed v \<subseteq> tv_consumed (snd (lab_step sha x v))"
  by (cases x; auto simp: begin_session_def contribute_local_partial_def lab_collect_partials_def combine_session_def
      run_lab_quorum_sign_def Let_def split: option.splits sum.splits prod.splits if_splits)+

lemma lab_sign_split:
  assumes "lab_step sha x v = (Some c, w)"
  shows "\<exists>sid online u. combine_session sid online u = (Inr c, w) \<and> tv_group u = tv_group v \<and> tv_all u = tv_all v \<and>
    (vault_ok sha v \<longrightarrow> vault_ok sha u) \<and> tv_consumed v \<subseteq> tv_consumed u"
proof (cases x)
  case (LabCombine sid online)
  then show ?thesis using assms by (auto split: sum.splits prod.splits intro!: exI [of _ sid] exI [of _ online] exI [of _ v])
next
  case (LabSign sid mh online)
  define u1 where "u1 = snd (begin_session sha sid mh online v)"
  define u where "u = snd (lab_collect_partials sha sid online u1)"
  have "combine_session sid online u = (Inr c, w)"
    using assms LabSign by (auto simp: run_lab_quorum_sign_def u_def u1_def split: sum.splits prod.splits)
  moreover have "tv_group u = tv_group v" "tv_all u = tv_all v" "tv_consumed v \<subseteq> tv_consumed u"
    using lab_fields(1,2) [of sha "LabBegin sid mh online" v] lab_fields(1,2) [of sha "LabCollect sid online" u1]
      lab_fields(3) [of v sha "LabBegin sid mh online"] lab_fields(3) [of u1 sha "LabCollect sid online"]
    by (auto simp: u_def u1_def)
  moreover have "vault_ok sha v \<longrightarrow> vault_ok sha u"
    by (simp add: u_def u1_def collect_ok begin_session_ok)
  ultimately show ?thesis by blast
qed (use assms in auto)

lemma run_lab_ok:
  assumes "vault_ok sha v"
  shows "vault_ok sha (snd (run_lab_quorum_sign sha sid mh online v))"
proof -
  have b: "vault_ok sha v1" if "begin_session sha sid mh online v = (r, v1)" for r v1
    using begin_session_ok [OF assms, of sid mh online] that by simp
  have "vault_ok sha v2" if "begin_session sha sid mh online v = (r, v1)" "lab_collect_partials sha sid online v1 = (q, v2)"
    for r v1 q v2
    using collect_ok [OF b [OF that(1)], of sid online] that by simp
  then show ?thesis
    using b combine_keeps unfolding run_lab_quorum_sign_def by (auto split: sum.splits prod.splits)
qed

lemma lab_step_ok: "vault_ok sha v \<Longrightarrow> vault_ok sha (snd (lab_step sha x v))"
proof (cases x)
  case (LabCombine sid online)
  assume "vault_ok sha v"
  then show ?thesis using LabCombine combine_keeps [of sha v sid online] by (auto split: sum.splits prod.splits)
next
  case (LabSign sid mh online)
  assume "vault_ok sha v"
  then show ?thesis using LabSign run_lab_ok [of sha v sid mh online] by (auto split: sum.splits prod.splits)
qed (simp_all add: begin_session_ok contribute_ok collect_ok)

definition lab_win :: "lab_op \<Rightarrow> combined_signature option \<Rightarrow> string option" where
  "lab_win x r = map_option cb_session r"

lemma combine_fresh: "combine_session sid online v = (Inr c, w) \<Longrightarrow> cb_session c = sid \<and> sid \<notin> tv_consumed v \<and> sid \<in> tv_consumed w"
  by (auto simp: combine_session_def Let_def split: if_splits option.splits sum.splits)

lemma lab_win_step:
  assumes "lab_win x (fst (lab_step sha x v)) = Some i"
  shows "i \<notin> tv_consumed v" "i \<in> tv_consumed (snd (lab_step sha x v))"
proof -
  obtain c where c: "lab_step sha x v = (Some c, snd (lab_step sha x v))" "cb_session c = i"
    using assms by (cases "lab_step sha x v") (auto simp: lab_win_def)
  from lab_sign_split [OF c(1)] c(2) combine_fresh
  show "i \<notin> tv_consumed v" "i \<in> tv_consumed (snd (lab_step sha x v))" by blast+
qed

interpretation lab: burn_once "lab_step sha" tv_consumed lab_win for sha
  by unfold_locales (use lab_fields(3) lab_win_step in auto)

lemma lab_signatures:
  assumes "vault_ok sha v"
  shows "\<forall>c. Some c \<in> set (fst (run_ops (lab_step sha) xs v)) \<longrightarrow> combined_ok sha (tv_group v) (tv_all v) c"
  using assms
proof (induction xs arbitrary: v)
  case (Cons x xs)
  let ?w = "snd (lab_step sha x v)"
  have "combined_ok sha (tv_group v) (tv_all v) c" if "fst (lab_step sha x v) = Some c" for c
  proof -
    have "lab_step sha x v = (Some c, ?w)" using that by (metis prod.collapse)
    from lab_sign_split [OF this] Cons.prems show ?thesis using combine_ok by metis
  qed
  then show ?case
    using Cons.IH [OF lab_step_ok [OF Cons.prems, of x]] lab_fields(1,2) [of sha x v] by auto
qed simp

text \<open>The lab's signer over any run: from a vault built on the shares of a key generation with distinct
  indices, of which one is its own, no session id is signed twice, and every combined signature is the
  interpolation of the partials of exactly the quorum of distinct shares over one message of that session.\<close>

theorem lab_signatures_sound:
  assumes "distinct (map ks_index shares)" "local \<in> set shares"
    and "fst (run_ops (lab_step sha) xs (threshold_vault_new g local shares)) = outs"
  shows "distinct (map cb_session (List.map_filter id outs)) \<and> (\<forall>c. Some c \<in> set outs \<longrightarrow> combined_ok sha g shares c)"
proof
  let ?v = "threshold_vault_new g local shares"
  have f: "vault_ok sha ?v" "tv_group ?v = g" "tv_all ?v = shares"
    using assms(1,2) by (simp_all add: vault_ok_def threshold_vault_new_def)
  show "\<forall>c. Some c \<in> set outs \<longrightarrow> combined_ok sha g shares c"
    using lab_signatures [OF f(1), of xs] f(2,3) assms(3) by simp
  have l: "length xs = length outs" using length_run_ops [of "lab_step sha" xs ?v] assms(3) by simp
  have "List.map_filter (\<lambda>(x, y). lab_win x y) (zip ys os) = map cb_session (List.map_filter id os)"
    if "length ys = length os" for ys :: "lab_op list" and os
    using that by (induction ys os rule: list_induct2) (auto simp: List.map_filter_simps lab_win_def split: option.splits)
  then show "distinct (map cb_session (List.map_filter id outs))"
    using lab.wins_once [where s = ?v and xs = xs and sha = sha] assms(3) l by simp
qed

theorem lab_signatures_sound_witness:
  "\<exists>g shares c. run_dkg demo_sha [''a'', ''b'', ''c''] 2 ''e'' = Inr (g, shares) \<and>
     fst (run_ops (lab_step demo_sha) [LabSign ''s'' ''m'' 3, LabSign ''s'' ''m2'' 3] (threshold_vault_new g (hd shares) shares))
       = [Some c, None] \<and> combined_ok demo_sha g shares c"
proof -
  obtain g shares where r: "run_dkg demo_sha [''a'', ''b'', ''c''] 2 ''e'' = Inr (g, shares)"
    using demo_dkg by (auto simp: is_ok_iff)
  then have s: "length shares = 3" "map ks_index shares = [1, 2, 3]" "gk_t g = 2" "gk_n g = 3"
    by (auto simp: run_dkg_def Let_def make_share_def share_index_new_def rbind_def split: if_splits)
  then obtain s1 s2 s3 where ss: "shares = [s1, s2, s3]" "ks_index s1 = 1" "ks_index s2 = 2" "ks_index s3 = 3"
    by (auto simp: length_Suc_conv numeral_eq_Suc)
  let ?v = "threshold_vault_new g (hd shares) shares" and ?run = "[LabSign ''s'' ''m'' 3, LabSign ''s'' ''m2'' 3]"
  let ?ps = "map (partial_of demo_sha ''s'' ''m'') [s1, s2]"
  have "is_ok (interpolate_secret (map (\<lambda>p. (pg_index p, pg_value p)) ?ps))"
    by (rule interpolate_total) (simp_all add: ss)
  then obtain x where x: "interpolate_secret (map (\<lambda>p. (pg_index p, pg_value p)) ?ps) = Inr x" by (auto simp: is_ok_iff)
  have o: "\<exists>c. fst (run_ops (lab_step demo_sha) ?run ?v) = [Some c, None]"
    using s(3,4) x
    by (simp add: run_lab_quorum_sign_def begin_session_def lab_collect_partials_def combine_session_def
        threshold_vault_new_def Let_def ss(1) take_Suc_conv_app_nth numeral_eq_Suc)
  then obtain c where c: "fst (run_ops (lab_step demo_sha) ?run ?v) = [Some c, None]" by blast
  have "distinct (map cb_session (List.map_filter id [Some c, None])) \<and>
      (\<forall>c'. Some c' \<in> set [Some c, None] \<longrightarrow> combined_ok demo_sha g shares c')"
    by (rule lab_signatures_sound [OF _ _ c]) (use s ss in simp_all)
  then show ?thesis using r c by auto
qed

end
