(* ===== verification/Config.thy ===== *)
theory Config
  imports TlsPeer HttpPeer NodeTier Economy Constitution Psbt Hex
begin

text \<open>
  The configuration of a vault (\<open>bootstrap/config.rs\<close>): its modes, the record, the checks it must pass
  before the vault starts, and the values derived from it.  The record is built up by extension, in the
  order the source's fields are read; \<open>cfg_features\<close> are the Cargo features of the build.
\<close>

section \<open>Modes\<close>

datatype ceremony_mode = CerLab | CerStaging | CerProduction

definition ceremony_parse :: "string \<Rightarrow> ceremony_mode option" where
  "ceremony_parse raw =
     (let s = ascii_lower (trim raw) in
      if s = ''lab'' then Some CerLab
      else if s = ''staging'' then Some CerStaging
      else if s = ''production'' \<or> s = ''prod'' then Some CerProduction
      else None)"

fun ceremony_str :: "ceremony_mode \<Rightarrow> string" where
  "ceremony_str CerLab = ''lab''"
| "ceremony_str CerStaging = ''staging''"
| "ceremony_str CerProduction = ''production''"

datatype auth_mode = AuthStatic | AuthMtls

definition auth_mode_parse :: "string \<Rightarrow> auth_mode option" where
  "auth_mode_parse raw =
     (let s = ascii_lower (trim raw) in
      if s \<in> {''static'', ''token'', ''static_token''} then Some AuthStatic
      else if s \<in> {''mtls'', ''mutual_tls''} then Some AuthMtls
      else None)"

fun auth_mode_str :: "auth_mode \<Rightarrow> string" where
  "auth_mode_str AuthStatic = ''static_token''"
| "auth_mode_str AuthMtls = ''mtls''"

datatype store_mode = AeadDisk | TeeSeal

definition store_mode_parse :: "string \<Rightarrow> store_mode option" where
  "store_mode_parse raw =
     (let s = ascii_lower (trim raw) in
      if s \<in> {''aead'', ''disk'', ''aead_disk''} then Some AeadDisk
      else if s \<in> {''tee'', ''tee_seal''} then Some TeeSeal
      else None)"

fun store_mode_str :: "store_mode \<Rightarrow> string" where
  "store_mode_str AeadDisk = ''aead_disk''"
| "store_mode_str TeeSeal = ''tee_seal''"

datatype dkg_mode = DealerLab | DkgDistributed | DistributedWire

definition dkg_mode_parse :: "string \<Rightarrow> dkg_mode option" where
  "dkg_mode_parse raw =
     (let s = ascii_lower (trim raw) in
      if s \<in> {''dealer'', ''dealer_lab''} then Some DealerLab
      else if s \<in> {''distributed'', ''dkg_distributed''} then Some DkgDistributed
      else if s \<in> {''distributed_wire'', ''wire'', ''over_wire''} then Some DistributedWire
      else None)"

fun dkg_mode_str :: "dkg_mode \<Rightarrow> string" where
  "dkg_mode_str DealerLab = ''dealer_lab''"
| "dkg_mode_str DkgDistributed = ''distributed''"
| "dkg_mode_str DistributedWire = ''distributed_wire''"

definition is_distributed :: "dkg_mode \<Rightarrow> bool" where
  "is_distributed m = (m = DkgDistributed \<or> m = DistributedWire)"

lemma ceremony_names [simp]: "ceremony_parse (ceremony_str c) = Some c"
  by (cases c; hypsubst; code_simp)

lemma auth_mode_names [simp]: "auth_mode_parse (auth_mode_str a) = Some a"
  by (cases a; hypsubst; code_simp)

lemma store_mode_names [simp]: "store_mode_parse (store_mode_str s) = Some s"
  by (cases s; hypsubst; code_simp)

lemma dkg_mode_names [simp]: "dkg_mode_parse (dkg_mode_str d) = Some d"
  by (cases d; hypsubst; code_simp)

section \<open>The record\<close>

record cfg_features =
  cf_production :: bool
  cf_dealer_lab :: bool
  cf_tee_hw :: bool

record cfg_node =
  vc_node_id :: string
  vc_node_tier :: node_tier
  vc_tee_available :: bool
  vc_refuse_sim :: bool
  vc_hardened :: bool
  vc_staging_stub :: bool
  vc_ceremony :: ceremony_mode
  vc_attestation :: attestation_mode
  vc_listen_addr :: string
  vc_lab_root :: string

record cfg_mesh = cfg_node +
  vc_seed_peers :: "(string \<times> string) list"
  vc_peer_tiers :: "node_tier btmap"
  vc_peer_quotes :: "string btmap"
  vc_require_quote :: bool
  vc_genesis_n :: "nat option"
  vc_online_count :: "nat option"
  vc_online_static :: bool

record cfg_policy = cfg_mesh +
  vc_psbt_policy :: psbt_policy
  vc_timelock_env_set :: bool
  vc_timelock_scale :: u64
  vc_council_n :: nat
  vc_min_rebuilds :: nat
  vc_open_economy :: bool
  vc_payout_cadence :: payout_cadence
  vc_payout_frequency :: payout_cadence
  vc_seating_timeout_hours :: u64
  vc_network :: bitcoin_network
  vc_users_allowlist :: "string list"
  vc_miners_allowlist :: "string list"
  vc_allow_manual_reshare :: bool
  vc_allow_raw_sighash :: bool

record cfg_secrets = cfg_policy +
  vc_auth :: auth_mode
  vc_token :: "string option"
  vc_tls_cert :: "string option"
  vc_tls_key :: "string option"
  vc_tls_client_ca :: "string option"
  vc_tls_client_cert :: "string option"
  vc_tls_client_key :: "string option"
  vc_store :: store_mode
  vc_passphrase :: "string option"
  vc_tpm_seal :: bool
  vc_tpm_stub :: bool
  vc_tpm_clear_fallback :: bool
  vc_pcr_policy :: "string option"
  vc_data_dir :: "string option"
  vc_anti_nonce_dir :: "string option"
  vc_measurement_pin :: "string option"

record vault_config = cfg_secrets +
  vc_dealer_requested :: bool
  vc_dkg :: dkg_mode
  vc_reshare :: reshare_policy
  vc_reward_sats :: u64
  vc_reward_bps :: u32
  vc_transport :: vault_transport
  vc_peer_http :: peer_http
  vc_clearnet_publish :: bool
  vc_admin_socket :: "string option"
  vc_tls_policy :: tls_policy
  vc_audit_keys :: btset

type_synonym env = "string \<rightharpoonup> string"

definition env_flag :: "env \<Rightarrow> string \<Rightarrow> bool" where
  "env_flag env k = (env k \<in> Some ` {''1'', ''true'', ''TRUE'', ''yes'', ''YES''})"

fun env_nonempty_first :: "env \<Rightarrow> string list \<Rightarrow> string option" where
  "env_nonempty_first env [] = None"
| "env_nonempty_first env (k # ks) =
     (case env k of Some v \<Rightarrow> if v \<noteq> [] then Some v else env_nonempty_first env ks
      | None \<Rightarrow> env_nonempty_first env ks)"

section \<open>Checks\<close>

definition validate_attestation_policy :: "vault_config \<Rightarrow> unit res" where
  "validate_attestation_policy c =
     (if vc_refuse_sim c \<and> is_lab_only (vc_attestation c) then Inl SimAttestationForbidden else Inr ())"

definition validate_tee_claims :: "cfg_features \<Rightarrow> vault_config \<Rightarrow> unit res" where
  "validate_tee_claims f c =
     (if tier_is_domestic (vc_node_tier c) \<and> is_tee (vc_attestation c)
      then Inl (AttestationRejected ''domestic tier cannot advertise ATTESTATION_MODE=sev|sgx (use software)'')
      else if \<not> (tier_is_tee (vc_node_tier c) \<or> is_tee (vc_attestation c)) then Inr ()
      else if vc_staging_stub c then
        if vc_ceremony c = CerProduction \<or> cf_production f
        then Inl (LabFlagForbidden ''ATTESTATION_STAGING_STUB cannot back a TEE claim in production'')
        else Inr ()
      else if \<not> vc_tee_available c
      then Inl (AttestationRejected ''TEE claim (VAULT_NODE_TIER or ATTESTATION_MODE=sev|sgx) without HW device; use domestic/software or set ATTESTATION_STAGING_STUB=1 for staging only'')
      else if cf_production f \<and> \<not> cf_tee_hw f
      then Inl (AttestationRejected ''production TEE claim requires --features tee_hw (or run domestic/software ceremony)'')
      else Inr ())"

definition nonempty :: "string option \<Rightarrow> string option" where
  "nonempty o1 = (case o1 of Some s \<Rightarrow> if s \<noteq> [] then Some s else None | None \<Rightarrow> None)"

definition require_mtls_paths :: "vault_config \<Rightarrow> (string \<times> string \<times> string) res" where
  "require_mtls_paths c =
     (case (nonempty (vc_tls_cert c), nonempty (vc_tls_key c), nonempty (vc_tls_client_ca c)) of
        (Some cert, Some k, Some ca) \<Rightarrow> Inr (cert, k, ca)
      | _ \<Rightarrow> Inl (AuthRejected
          ''mTLS requires VAULT_TLS_CERT_PATH, VAULT_TLS_KEY_PATH, and VAULT_TLS_CLIENT_CA_PATH''))"

definition require_mtls_client_identity :: "vault_config \<Rightarrow> (string \<times> string \<times> string) res" where
  "require_mtls_client_identity c =
     (case (nonempty (vc_tls_client_cert c), nonempty (vc_tls_client_key c), nonempty (vc_tls_client_ca c)) of
        (Some cert, Some k, Some ca) \<Rightarrow> Inr (cert, k, ca)
      | _ \<Rightarrow> Inl (AuthRejected
          ''mTLS peer auth requires VAULT_TLS_CLIENT_CERT_PATH, VAULT_TLS_CLIENT_KEY_PATH, and VAULT_TLS_CLIENT_CA_PATH''))"

definition validate_listen_bind :: "vault_config \<Rightarrow> unit res" where
  "validate_listen_bind c =
     (let addr = trim (vc_listen_addr c);
          all_if = prefix ''0.0.0.0'' addr \<or> prefix ''[::]'' addr;
          protected = vc_ceremony c = CerStaging \<and> vc_auth c = AuthMtls \<and> \<not> vc_clearnet_publish c in
      if all_if \<and> (vc_ceremony c = CerProduction \<or> vc_hardened c \<and> \<not> protected)
      then Inl (LabFlagForbidden ''VAULT_LISTEN_ADDR all-interface bind requires staging mTLS with no clearnet publish; production requires loopback/onion-only'')
      else Inr ())"

definition lab_passphrase :: string where "lab_passphrase = ''kerosene-vault-lab-passphrase''"

definition validate_lab_passphrase_defaults :: "cfg_features \<Rightarrow> vault_config \<Rightarrow> unit res" where
  "validate_lab_passphrase_defaults f c =
     (let using_default = (case vc_passphrase c of Some p \<Rightarrow> p = lab_passphrase | None \<Rightarrow> True) in
      if using_default \<and> vc_store c = AeadDisk \<and> vc_ceremony c \<noteq> CerLab
      then Inl (ShareStoreForbidden ''VAULT_DATA_PASSPHRASE required outside lab (no default passphrase)'')
      else if using_default \<and> vc_store c = AeadDisk \<and> (vc_hardened c \<or> cf_production f)
      then Inl (ShareStoreForbidden ''default lab passphrase refused under hardened/production'')
      else Inr ())"

definition validate_lab_root_honesty :: "vault_config \<Rightarrow> unit res" where
  "validate_lab_root_honesty c =
     (if vc_lab_root c = ''kerosene-lab-root'' \<and> vc_ceremony c \<noteq> CerLab
      then Inl (LabFlagForbidden ''LAB_ATTESTATION_ROOT must be set explicitly outside lab (default is deterministic lab DKG entropy)'')
      else Inr ())"

definition validate_tpm_seal_hygiene :: "cfg_features \<Rightarrow> vault_config \<Rightarrow> unit res" where
  "validate_tpm_seal_hygiene f c =
     rbind (if vc_tpm_clear_fallback c then
              if vc_hardened c \<or> vc_ceremony c = CerProduction \<or> cf_production f
              then Inl (LabFlagForbidden ''VAULT_SHARE_TPM_CLEAR_FALLBACK'')
              else if \<not> vc_tpm_seal c
              then Inl (ShareStoreForbidden ''VAULT_SHARE_TPM_CLEAR_FALLBACK requires VAULT_SHARE_TPM_SEAL=1'')
              else Inr ()
            else Inr ()) (\<lambda>_.
     rbind (if vc_tpm_stub c then
              if vc_ceremony c \<in> {CerStaging, CerProduction} \<or> cf_production f
              then Inl (LabFlagForbidden ''VAULT_SHARE_TPM_STUB refused outside lab'')
              else if vc_hardened c then Inl (LabFlagForbidden ''VAULT_SHARE_TPM_STUB'')
              else if \<not> vc_tpm_seal c
              then Inl (ShareStoreForbidden ''VAULT_SHARE_TPM_STUB requires VAULT_SHARE_TPM_SEAL=1'')
              else Inr ()
            else Inr ()) (\<lambda>_.
     if vc_tpm_seal c \<and> vc_store c \<noteq> AeadDisk
     then Inl (ShareStoreForbidden (''VAULT_SHARE_TPM_SEAL applies only to VAULT_SHARE_STORE=aead_disk (TEE uses tee_seal; TPM ''
            @ ne_sign @ '' SEV)''))
     else Inr ()))"

definition validate_tor :: "vault_config \<Rightarrow> unit res" where
  "validate_tor c =
     (if (case ph_socks (vc_peer_http c) of Some s \<Rightarrow> s | None \<Rightarrow> []) = []
      then Inl (LabFlagForbidden ''VAULT_TRANSPORT=tor requires VAULT_SOCKS_PROXY (e.g. socks5h://127.0.0.1:9050)'')
      else case List.find (\<lambda>(i, addr). \<not> peer_addr_is_onion addr) (vc_seed_peers c) of
        Some (i, addr) \<Rightarrow> Inl (AttestationRejected
          (''VAULT_TRANSPORT=tor requires onion VAULT_SEED_PEERS (peer '' @ i @ ''='' @ addr @ '')''))
      | None \<Rightarrow>
          if vc_ceremony c \<in> {CerStaging, CerProduction} \<and> vc_auth c \<noteq> AuthMtls
          then Inl (AuthRejected ''VAULT_TRANSPORT=tor under staging/production requires VAULT_AUTH_MODE=mtls (static_token refused)'')
          else if vc_auth c = AuthMtls \<and> vc_tls_policy c = VerifyHostname
          then Inl (AuthRejected ''VAULT_TRANSPORT=tor with mTLS requires VAULT_TLS_VERIFY_MODE=onion_or_spiffe|spiffe (not hostname-only)'')
          else Inr ())"

definition validate_production_mesh :: "vault_config \<Rightarrow> unit res" where
  "validate_production_mesh c =
     (if vc_transport c \<noteq> Tor
      then Inl (LabFlagForbidden ''production ceremony requires VAULT_TRANSPORT=tor (private Tor mesh; not clearnet LAN)'')
      else if vc_auth c \<noteq> AuthMtls
      then Inl (AuthRejected ''production ceremony requires VAULT_AUTH_MODE=mtls'')
      else if vc_clearnet_publish c
      then Inl (LabFlagForbidden ''VAULT_CLEARNET_PUBLISH refused in production ceremony (do not expose vault ports on clearnet)'')
      else if vc_seed_peers c = [] \<and> (case vc_genesis_n c of None \<Rightarrow> True | Some n \<Rightarrow> n < 2)
      then Inl (AttestationRejected (''isolated production bootstrap requires explicit VAULT_GENESIS_N>=2; ''
             @ ''otherwise configure onion VAULT_SEED_PEERS''))
      else Inr ())"

definition validate_transport_hygiene :: "vault_config \<Rightarrow> unit res" where
  "validate_transport_hygiene c =
     rbind (if vc_transport c = Tor then validate_tor c else Inr ()) (\<lambda>_.
     if vc_ceremony c = CerProduction then validate_production_mesh c else Inr ())"

definition validate_flags :: "cfg_features \<Rightarrow> vault_config \<Rightarrow> unit res" where
  "validate_flags f c =
     (if vc_hardened c \<and> is_lab_only (vc_attestation c) then Inl (LabFlagForbidden ''ATTESTATION_MODE=sim'')
      else if vc_hardened c \<and> vc_timelock_env_set c then Inl (LabFlagForbidden ''LAB_TIMELOCK_SCALE'')
      else if vc_ceremony c = CerProduction \<and> vc_staging_stub c
      then Inl (LabFlagForbidden ''ATTESTATION_STAGING_STUB in production ceremony'')
      else if cf_production f \<and> vc_staging_stub c
      then Inl (LabFlagForbidden ''ATTESTATION_STAGING_STUB refused under production feature'')
      else if vc_ceremony c \<in> {CerStaging, CerProduction} \<and> is_lab_only (vc_attestation c)
      then Inl (LabFlagForbidden ''ATTESTATION_MODE=sim'')
      else Inr ())"

definition validate_ceremony :: "env \<Rightarrow> vault_config \<Rightarrow> unit res" where
  "validate_ceremony env c =
     (if vc_dealer_requested c
      then Inl (DealerForbidden ''dealer DKG refused in staging/production (ToB 2024)'')
      else if vc_dkg c \<noteq> DistributedWire
      then Inl (DealerForbidden ''staging/production ceremony requires VAULT_DKG_MODE=distributed_wire (real FROST over-wire; not dealer or in-process sim)'')
      else if vc_auth c = AuthStatic
      then Inl (AuthRejected ''static token refused in staging/production; use mTLS'')
      else if vc_ceremony c = CerProduction \<and> vc_audit_keys c = [] \<and> \<not> env_flag env ''VAULT_SKIP_AUDIT_KEYS_CHECK''
      then Inl (AuthRejected (''production ceremony requires mesh audit keys (VAULT_AUDIT_PUBKEY_ALLOWLIST or VAULT_AUDIT_PUBKEYS_PATH); audit ''
             @ ne_sign @ '' release '' @ ne_sign @ '' settlement '' @ em_dash @ '' see docs/AUDIT_KEYS.md''))
      else if vc_store c = AeadDisk \<and> tier_is_tee (vc_node_tier c)
      then Inl (TeeRequired ''TEE-tier node requires VAULT_SHARE_STORE=tee_seal (not host AEAD)'')
      else Inr ())"

definition validate_hygiene :: "cfg_features \<Rightarrow> env \<Rightarrow> vault_config \<Rightarrow> unit res" where
  "validate_hygiene f env c =
     rbind (validate_attestation_policy c) (\<lambda>_.
     rbind (validate_flags f c) (\<lambda>_.
     rbind (validate_tee_claims f c) (\<lambda>_.
     rbind (if vc_ceremony c = CerProduction \<and> vc_attestation c = AttSoftware \<and> vc_measurement_pin c = None
            then Inl (AttestationRejected (''production ATTESTATION_MODE=software requires VAULT_MEASUREMENT_PIN (software ''
                   @ ne_sign @ '' TEE; pin binds measurement)''))
            else Inr ()) (\<lambda>_.
     rbind (if vc_ceremony c \<in> {CerStaging, CerProduction} then validate_ceremony env c else Inr ()) (\<lambda>_.
     rbind (if vc_auth c = AuthMtls
            then rbind (require_mtls_paths c) (\<lambda>_. rbind (require_mtls_client_identity c) (\<lambda>_. Inr ()))
            else Inr ()) (\<lambda>_.
     rbind (validate_tpm_seal_hygiene f c) (\<lambda>_.
     rbind (validate_transport_hygiene c) (\<lambda>_.
     rbind (validate_listen_bind c) (\<lambda>_.
     rbind (validate_lab_passphrase_defaults f c) (\<lambda>_.
     validate_lab_root_honesty c))))))))))"

section \<open>Derived values\<close>

definition governance_reward_config :: "vault_config \<Rightarrow> gov_reward_config" where
  "governance_reward_config c = \<lparr>reward_sats = vc_reward_sats c, reward_bps_of_pool = vc_reward_bps c\<rparr>"

definition peer_tier :: "vault_config \<Rightarrow> string \<Rightarrow> node_tier" where
  "peer_tier c p =
     (let claimed = (case bt_get p (vc_peer_tiers c) of Some t \<Rightarrow> t | None \<Rightarrow> Domestic) in
      if \<not> tier_is_tee claimed then claimed
      else if vc_require_quote c \<and>
              \<not> (case bt_get p (vc_peer_quotes c) of Some q \<Rightarrow> trim q \<noteq> [] | None \<Rightarrow> False) then Domestic
      else claimed)"

definition seating_candidates :: "vault_config \<Rightarrow> seating_candidate list res" where
  "seating_candidates c =
     rbind (rmapM (\<lambda>(i, addr). rbind (node_id_new i) (\<lambda>n. Inr \<lparr>sc_id = n, sc_tier = peer_tier c i\<rparr>))
              (vc_seed_peers c)) (\<lambda>cs.
     Inr (\<lparr>sc_id = vc_node_id c, sc_tier = vc_node_tier c\<rparr> # cs))"

definition effective_genesis_n :: "vault_config \<Rightarrow> nat" where
  "effective_genesis_n c =
     (case vc_genesis_n c of Some n \<Rightarrow> n | None \<Rightarrow> max (length (vc_seed_peers c) + 1) 2)"

fun pad_candidates :: "nat \<Rightarrow> seating_candidate list \<Rightarrow> seating_candidate list res" where
  "pad_candidates 0 cs = Inr cs"
| "pad_candidates (Suc k) cs =
     rbind (node_id_new (''vault-pad-'' @ dec (length cs))) (\<lambda>n.
     pad_candidates k (cs @ [\<lparr>sc_id = n, sc_tier = Domestic\<rparr>]))"

definition seat_genesis :: "vault_config \<Rightarrow> string list res" where
  "seat_genesis c =
     rbind (seating_candidates c) (\<lambda>cs.
     rbind (pad_candidates (effective_genesis_n c - length cs) cs) (\<lambda>ps.
     Inr (seat_genesis_by_tier ps (effective_genesis_n c))))"

definition effective_lab_timelock_scale :: "vault_config \<Rightarrow> u64" where
  "effective_lab_timelock_scale c = (if vc_hardened c then 1 else vc_timelock_scale c)"

definition lab_endpoints_enabled :: "vault_config \<Rightarrow> bool" where
  "lab_endpoints_enabled c = (\<not> vc_hardened c)"

definition effective_vault_token :: "vault_config \<Rightarrow> string option" where
  "effective_vault_token c =
     (case vc_token c of
        Some t \<Rightarrow> Some t
      | None \<Rightarrow> if vc_ceremony c = CerLab \<and> \<not> vc_hardened c then Some ''kerosene-vault-lab-only'' else None)"

definition effective_share_passphrase :: "vault_config \<Rightarrow> string option" where
  "effective_share_passphrase c =
     (case vc_passphrase c of
        Some p \<Rightarrow> Some p
      | None \<Rightarrow> if vc_ceremony c = CerLab \<and> \<not> vc_hardened c then Some lab_passphrase else None)"

definition path_join :: "string \<Rightarrow> string \<Rightarrow> string" where
  "path_join base name =
     (if base = [] \<or> last base = CHR ''/'' then base @ name else base @ ''/'' @ name)"

definition effective_data_dir :: "vault_config \<Rightarrow> string" where
  "effective_data_dir c =
     (case vc_data_dir c of Some d \<Rightarrow> d | None \<Rightarrow> path_join (vc_lab_root c) ''vault-data'')"

section \<open>What an accepted configuration guarantees\<close>

text \<open>A check passes exactly when none of its refusals applies.\<close>

named_theorems cfg_checks \<open>definitions of the checks\<close>

lemmas [cfg_checks] =
  validate_attestation_policy_def validate_tee_claims_def validate_listen_bind_def
  validate_lab_passphrase_defaults_def validate_lab_root_honesty_def validate_tpm_seal_hygiene_def
  validate_tor_def validate_production_mesh_def validate_transport_hygiene_def validate_flags_def
  validate_ceremony_def validate_hygiene_def require_mtls_paths_def require_mtls_client_identity_def

lemma nonempty_Some [simp]: "nonempty o1 = Some s \<longleftrightarrow> o1 = Some s \<and> s \<noteq> []"
  by (auto simp: nonempty_def split: option.splits)

lemma hygiene_parts:
  assumes "validate_hygiene f env c = Inr ()"
  shows "validate_attestation_policy c = Inr ()" "validate_flags f c = Inr ()"
    "validate_tee_claims f c = Inr ()" "validate_transport_hygiene c = Inr ()"
    "validate_listen_bind c = Inr ()" "validate_lab_passphrase_defaults f c = Inr ()"
    "validate_lab_root_honesty c = Inr ()" "validate_tpm_seal_hygiene f c = Inr ()"
    "vc_ceremony c \<noteq> CerLab \<Longrightarrow> validate_ceremony env c = Inr ()"
    "vc_auth c = AuthMtls \<Longrightarrow> is_ok (require_mtls_paths c) \<and> is_ok (require_mtls_client_identity c)"
    "vc_ceremony c = CerProduction \<Longrightarrow> vc_attestation c = AttSoftware \<Longrightarrow> vc_measurement_pin c \<noteq> None"
  using assms by (cases "vc_ceremony c"; auto simp: validate_hygiene_def rbind_Inr_iff is_ok_iff split: if_splits)+

lemma tor_checked:
  "validate_tor c = Inr () \<Longrightarrow>
     (\<exists>s. ph_socks (vc_peer_http c) = Some s \<and> s \<noteq> []) \<and>
     (\<forall>(i, addr)\<in>set (vc_seed_peers c). peer_addr_is_onion addr) \<and>
     (vc_auth c = AuthMtls \<longrightarrow> vc_tls_policy c \<noteq> VerifyHostname)"
  by (auto simp: validate_tor_def find_None_iff split: option.splits if_splits)

lemma production_mesh_checked:
  "validate_transport_hygiene c = Inr () \<Longrightarrow> vc_ceremony c = CerProduction \<Longrightarrow>
     vc_transport c = Tor \<and> validate_tor c = Inr () \<and> vc_auth c = AuthMtls \<and> \<not> vc_clearnet_publish c \<and>
     (vc_seed_peers c \<noteq> [] \<or> (\<exists>n\<ge>2. vc_genesis_n c = Some n))"
  by (auto simp: validate_transport_hygiene_def validate_production_mesh_def rbind_Inr_iff
      split: if_splits option.splits)

lemma mtls_paths_checked:
  "is_ok (require_mtls_paths c) \<longleftrightarrow>
     (\<exists>cert k ca. vc_tls_cert c = Some cert \<and> cert \<noteq> [] \<and> vc_tls_key c = Some k \<and> k \<noteq> [] \<and>
        vc_tls_client_ca c = Some ca \<and> ca \<noteq> [])"
  "is_ok (require_mtls_client_identity c) \<longleftrightarrow>
     (\<exists>cert k ca. vc_tls_client_cert c = Some cert \<and> cert \<noteq> [] \<and> vc_tls_client_key c = Some k \<and> k \<noteq> [] \<and>
        vc_tls_client_ca c = Some ca \<and> ca \<noteq> [])"
  by (auto simp: require_mtls_paths_def require_mtls_client_identity_def nonempty_def split: option.splits)

lemma ceremony_checked:
  "validate_ceremony env c = Inr () \<Longrightarrow>
     \<not> vc_dealer_requested c \<and> vc_dkg c = DistributedWire \<and> vc_auth c = AuthMtls \<and>
     (vc_ceremony c = CerProduction \<longrightarrow>
        vc_audit_keys c \<noteq> [] \<or> env_flag env ''VAULT_SKIP_AUDIT_KEYS_CHECK'') \<and>
     \<not> (vc_store c = AeadDisk \<and> tier_is_tee (vc_node_tier c))"
  by (cases "vc_auth c") (auto simp: validate_ceremony_def split: if_splits)

lemma passphrase_checked:
  "validate_lab_passphrase_defaults f c = Inr () \<Longrightarrow> vc_ceremony c \<noteq> CerLab \<Longrightarrow> vc_store c = AeadDisk \<Longrightarrow>
     \<exists>p. vc_passphrase c = Some p \<and> p \<noteq> lab_passphrase"
  by (auto simp: validate_lab_passphrase_defaults_def Let_def split: if_splits option.splits)

lemma no_stub_checked:
  "validate_tpm_seal_hygiene f c = Inr () \<Longrightarrow> vc_ceremony c = CerProduction \<Longrightarrow>
     \<not> vc_tpm_stub c \<and> \<not> vc_tpm_clear_fallback c"
  by (auto simp: validate_tpm_seal_hygiene_def rbind_Inr_iff split: if_splits)

lemma flags_checked:
  "validate_flags f c = Inr () \<Longrightarrow> vc_ceremony c = CerProduction \<Longrightarrow>
     vc_attestation c \<noteq> AttSim \<and> \<not> vc_staging_stub c"
  by (auto simp: validate_flags_def is_lab_only_def split: if_splits)

lemma bind_checked:
  "validate_listen_bind c = Inr () \<Longrightarrow> vc_ceremony c = CerProduction \<Longrightarrow>
     \<not> prefix ''0.0.0.0'' (trim (vc_listen_addr c)) \<and> \<not> prefix ''[::]'' (trim (vc_listen_addr c))"
  by (auto simp: validate_listen_bind_def Let_def split: if_splits)

text \<open>Quotes: an elevated tier of a peer is a claim the configuration holds a quote for.\<close>

lemma elevated_peer_has_quote:
  "vc_require_quote c \<Longrightarrow> peer_tier c p \<noteq> Domestic \<Longrightarrow>
     \<exists>q. bt_get p (vc_peer_quotes c) = Some q \<and> trim q \<noteq> []"
  by (cases "bt_get p (vc_peer_tiers c)")
    (auto simp: peer_tier_def tier_is_tee_def Let_def intro: node_tier.exhaust split: if_splits option.splits)

end
