(* ===== verification/ConfigEnv.thy ===== *)
theory ConfigEnv
  imports Config
begin

text \<open>
  How a vault reads its configuration (\<open>bootstrap/config.rs\<close>, \<open>VaultConfig::from_env\<close>).  The
  environment is a map of the Unicode variables; the node directory it may ask for its peers, the PEM and
  URL libraries and the file system are the records of functions \<open>node_dir\<close> and \<open>url_api\<close>.
\<close>

section \<open>Peers from the node directory\<close>

record 'u url_api =
  ua_parse :: "string \<Rightarrow> 'u option"
  ua_scheme :: "'u \<Rightarrow> string"
  ua_host :: "'u \<Rightarrow> string option"
  ua_username :: "'u \<Rightarrow> string"
  ua_password :: "'u \<Rightarrow> string option"
  ua_query :: "'u \<Rightarrow> string option"
  ua_fragment :: "'u \<Rightarrow> string option"
  ua_set_path :: "string \<Rightarrow> 'u \<Rightarrow> 'u"
  ua_set_port :: "nat \<Rightarrow> 'u \<Rightarrow> 'u option"
  ua_show :: "'u \<Rightarrow> string"

record node_member =
  nm_id :: string
  nm_endpoint :: string

record node_manifest =
  mf_network :: string
  mf_plane :: string
  mf_members :: "node_member list"

text \<open>\<open>nd_get\<close> is the client built from an identity and a root certificate and the answer to its request:
  the status and the body.\<close>

record node_dir =
  nd_read :: "string \<Rightarrow> string + string"
  nd_identity :: "string \<Rightarrow> string + string"
  nd_ca :: "string \<Rightarrow> string + string"
  nd_client :: "string \<Rightarrow> string \<Rightarrow> string + string"
  nd_get :: "string \<Rightarrow> string \<Rightarrow> string + nat \<times> string"
  nd_status_error :: "string \<Rightarrow> nat \<Rightarrow> string"
  nd_json :: "string \<Rightarrow> string + node_manifest"

definition with_error :: "(string \<Rightarrow> domain_error) \<Rightarrow> string + 'a \<Rightarrow> 'a res" where
  "with_error e r = (case r of Inl why \<Rightarrow> Inl (e why) | Inr x \<Rightarrow> Inr x)"

definition or_error :: "domain_error \<Rightarrow> 'a option \<Rightarrow> 'a res" where
  "or_error e r = (case r of None \<Rightarrow> Inl e | Some x \<Rightarrow> Inr x)"

definition env_or :: "env \<Rightarrow> string \<Rightarrow> string \<Rightarrow> string" where
  "env_or env k d = (case env k of Some v \<Rightarrow> v | None \<Rightarrow> d)"

definition strip_slashes :: "string \<Rightarrow> string" where
  "strip_slashes s = rev (dropWhile (\<lambda>ch. ch = CHR ''/'') (rev s))"

definition onion_label :: "string \<Rightarrow> string" where
  "onion_label host = (if suffix ''.onion'' host then take (length host - 6) host else [])"

definition is_v3_onion :: "string \<Rightarrow> bool" where
  "is_v3_onion host =
     (let l = onion_label host in
      length l = 56 \<and> list_all (\<lambda>b. (97 \<le> code b \<and> code b \<le> 122) \<or> (50 \<le> code b \<and> code b \<le> 55)) l)"

definition vault_service_endpoint :: "'u url_api \<Rightarrow> string \<Rightarrow> nat \<Rightarrow> string res" where
  "vault_service_endpoint ua endpoint port =
     (case ua_parse ua endpoint of
        None \<Rightarrow> Inl (AttestationRejected ''Node returned an invalid endpoint'')
      | Some u \<Rightarrow>
          if ua_scheme ua u \<noteq> ''https'' \<or> \<not> is_v3_onion (case ua_host ua u of Some h \<Rightarrow> h | None \<Rightarrow> [])
             \<or> ua_username ua u \<noteq> [] \<or> ua_password ua u \<noteq> None \<or> ua_query ua u \<noteq> None \<or> ua_fragment ua u \<noteq> None
          then Inl (AttestationRejected ''Node returned a non-onion Vault member'')
          else case ua_set_port ua port (ua_set_path ua [] u) of
            None \<Rightarrow> Inl (AttestationRejected ''could not derive Vault service port'')
          | Some v \<Rightarrow> Inr (strip_slashes (ua_show ua v)))"

definition node_client :: "node_dir \<Rightarrow> env \<Rightarrow> string res" where
  "node_client nd env =
     rbind (or_error (AuthRejected ''VAULT_KEROSENE_NODE_CLIENT_IDENTITY_PEM is required for Node mTLS'')
              (env ''VAULT_KEROSENE_NODE_CLIENT_IDENTITY_PEM'')) (\<lambda>ip.
     rbind (or_error (AuthRejected ''VAULT_KEROSENE_NODE_CA_PATH is required for Node mTLS'')
              (env ''VAULT_KEROSENE_NODE_CA_PATH'')) (\<lambda>cp.
     rbind (with_error (\<lambda>e. AuthRejected (''read Node identity: '' @ e)) (nd_read nd ip)) (\<lambda>ib.
     rbind (with_error (\<lambda>e. AuthRejected (''parse Node identity: '' @ e)) (nd_identity nd ib)) (\<lambda>identity.
     rbind (with_error (\<lambda>e. AuthRejected (''read Node CA: '' @ e)) (nd_read nd cp)) (\<lambda>cb.
     rbind (with_error (\<lambda>e. AuthRejected (''parse Node CA: '' @ e)) (nd_ca nd cb)) (\<lambda>ca.
     with_error (\<lambda>e. AuthRejected (''build Node client: '' @ e)) (nd_client nd identity ca)))))))"

definition manifest_peers :: "'u url_api \<Rightarrow> env \<Rightarrow> node_manifest \<Rightarrow> (string \<times> string) list res" where
  "manifest_peers ua env m =
     (if mf_network m \<noteq> env_or env ''VAULT_KEROSENE_NETWORK_ID'' ''kerosene-staging'' \<or> mf_plane m \<noteq> ''vault''
      then Inl (AttestationRejected ''Node membership network or plane mismatch'')
      else
        rbind (or_error (AttestationRejected ''invalid VAULT_KEROSENE_SERVICE_PORT'')
                 (parse_uint 65535 (env_or env ''VAULT_KEROSENE_SERVICE_PORT'' ''7801''))) (\<lambda>port.
        rmapM (\<lambda>member. rbind (vault_service_endpoint ua (nm_endpoint member) port) (\<lambda>e. Inr (nm_id member, e)))
          (filter (\<lambda>member. nm_id member \<noteq> env_or env ''VAULT_KEROSENE_NODE_MEMBER_ID'' []) (mf_members m))))"

definition discover_vault_peers_from_node ::
  "node_dir \<Rightarrow> 'u url_api \<Rightarrow> env \<Rightarrow> bool \<Rightarrow> (string \<times> string) list res" where
  "discover_vault_peers_from_node nd ua env staging_allows_empty =
     rbind (or_error (AttestationRejected ''VAULT_KEROSENE_NODE_URL is required'')
              (env ''VAULT_KEROSENE_NODE_URL'')) (\<lambda>base.
     rbind (node_client nd env) (\<lambda>client.
     let endpoint = strip_slashes base @ ''/v1/membership/current'' in
     rbind (with_error (\<lambda>e. AttestationRejected (''Node discovery failed: '' @ e)) (nd_get nd client endpoint))
       (\<lambda>(status, body).
     if status = 404 \<and> (staging_allows_empty \<or> env_flag env ''VAULT_KEROSENE_NODE_ALLOW_EMPTY'') then Inr []
     else if 400 \<le> status \<and> status < 600
     then Inl (AttestationRejected (''Node membership unavailable: '' @ nd_status_error nd endpoint status))
     else rbind (with_error (\<lambda>e. AttestationRejected (''invalid Node membership response: '' @ e)) (nd_json nd body))
            (manifest_peers ua env))))"

section \<open>Reading the environment\<close>

text \<open>\<open>split_once('=')\<close>.\<close>

fun split_eq :: "string \<Rightarrow> (string \<times> string) option" where
  "split_eq [] = None"
| "split_eq (ch # cs) =
     (if ch = CHR ''='' then Some ([], cs) else map_option (\<lambda>(a, b). (ch # a, b)) (split_eq cs))"

definition csv_parts :: "string \<Rightarrow> string list" where
  "csv_parts raw = filter (\<lambda>p. p \<noteq> []) (map trim (split_on (CHR '','') raw))"

definition csv_list :: "env \<Rightarrow> string \<Rightarrow> string list" where
  "csv_list env k = (case env k of Some raw \<Rightarrow> csv_parts raw | None \<Rightarrow> [])"

definition csv_pairs :: "string \<Rightarrow> string \<Rightarrow> (string \<times> string) list res" where
  "csv_pairs name raw =
     rmapM (\<lambda>p. or_error (AttestationRejected (''bad '' @ name @ '' entry: '' @ p)) (split_eq p)) (csv_parts raw)"

definition env_uint :: "env \<Rightarrow> nat \<Rightarrow> string \<Rightarrow> nat option" where
  "env_uint env m k = (case env k of Some s \<Rightarrow> parse_uint m s | None \<Rightarrow> None)"

definition env_word :: "env \<Rightarrow> string \<Rightarrow> 'a::len word \<Rightarrow> 'a word" where
  "env_word env k d = (case env_uint env (2 ^ LENGTH('a) - 1) k of Some n \<Rightarrow> of_nat n | None \<Rightarrow> d)"

definition is_production_env :: "cfg_features \<Rightarrow> env \<Rightarrow> bool" where
  "is_production_env f env =
     (cf_production f \<or> eq_ignore_ascii_case (env_or env ''KEROSENE_ENV'' ''lab'') ''production'')"

definition refuse_sim_env :: "cfg_features \<Rightarrow> env \<Rightarrow> bool" where
  "refuse_sim_env f env =
     (env_flag env ''KEROSENE_VAULT_REFUSE_SIM'' \<or> is_production_env f env
      \<or> eq_ignore_ascii_case (env_or env ''KEROSENE_ENV'' ''lab'') ''staging'')"

definition env_node :: "cfg_features \<Rightarrow> (path \<Rightarrow> bool) \<Rightarrow> env \<Rightarrow> cfg_node res" where
  "env_node f exists env =
     rbind (node_id_new (env_or env ''VAULT_NODE_ID'' ''vault-local-1'')) (\<lambda>i.
     rbind (resolve_node_tier exists (env ''VAULT_NODE_TIER'')) (\<lambda>(tier, avail).
     let refuse_sim = refuse_sim_env f env; hardened = refuse_sim;
         ceremony_raw = env_or env ''VAULT_CEREMONY_MODE'' (env_or env ''KEROSENE_ENV'' ''lab'') in
     rbind (or_error (AttestationRejected (''unknown VAULT_CEREMONY_MODE='' @ ceremony_raw))
              (ceremony_parse ceremony_raw)) (\<lambda>ceremony.
     let mode_default = (case tier of
             Domestic \<Rightarrow> if ceremony = CerLab \<and> \<not> hardened then ''sim'' else ''software''
           | Sev \<Rightarrow> ''sev'' | Sgx \<Rightarrow> ''sgx'');
         mode_raw = env_or env ''ATTESTATION_MODE'' mode_default in
     rbind (or_error (AttestationRejected (''unknown ATTESTATION_MODE='' @ mode_raw)) (attestation_parse mode_raw))
       (\<lambda>mode.
     let listen_default =
           (if ceremony \<in> {CerStaging, CerProduction} \<or> hardened then ''127.0.0.1:7701'' else ''0.0.0.0:7701'') in
     Inr \<lparr>vc_node_id = i, vc_node_tier = tier, vc_tee_available = avail, vc_refuse_sim = refuse_sim,
       vc_hardened = hardened, vc_staging_stub = env_flag env ''ATTESTATION_STAGING_STUB'',
       vc_ceremony = ceremony, vc_attestation = mode, vc_listen_addr = env_or env ''VAULT_LISTEN_ADDR'' listen_default,
       vc_lab_root = env_or env ''LAB_ATTESTATION_ROOT'' ''kerosene-lab-root''\<rparr>))))"

definition env_seed_peers ::
  "node_dir \<Rightarrow> 'u url_api \<Rightarrow> env \<Rightarrow> ceremony_mode \<Rightarrow> (string \<times> string) list res" where
  "env_seed_peers nd ua env ceremony =
     (if env ''VAULT_KEROSENE_NODE_URL'' \<noteq> None
      then discover_vault_peers_from_node nd ua env (ceremony = CerStaging)
      else rbind (csv_pairs ''VAULT_SEED_PEERS'' (env_or env ''VAULT_SEED_PEERS'' [])) (\<lambda>ps.
           Inr (map (\<lambda>(i, a). (trim i, trim a)) ps)))"

fun tier_entries :: "string list \<Rightarrow> node_tier btmap \<Rightarrow> node_tier btmap res" where
  "tier_entries [] m = Inr m"
| "tier_entries (p # ps) m =
     rbind (or_error (AttestationRejected (''bad VAULT_PEER_TIERS entry: '' @ p)) (split_eq p)) (\<lambda>(i, t).
     rbind (or_error (AttestationRejected (''unknown tier in VAULT_PEER_TIERS: '' @ t)) (tier_parse t)) (\<lambda>tier.
     tier_entries ps (bt_put (trim i) tier m)))"

definition env_peer_tiers :: "env \<Rightarrow> node_tier btmap res" where
  "env_peer_tiers env =
     (case env ''VAULT_PEER_TIERS'' of None \<Rightarrow> Inr [] | Some raw \<Rightarrow> tier_entries (csv_parts raw) [])"

definition env_peer_quotes :: "env \<Rightarrow> string btmap res" where
  "env_peer_quotes env =
     (case env ''VAULT_PEER_TIER_QUOTES'' of
        None \<Rightarrow> Inr []
      | Some raw \<Rightarrow>
          rbind (csv_pairs ''VAULT_PEER_TIER_QUOTES'' raw) (\<lambda>ps.
          Inr (foldl (\<lambda>m (i, q). bt_put (trim i) (trim q) m) [] ps)))"

definition env_mesh :: "node_dir \<Rightarrow> 'u url_api \<Rightarrow> env \<Rightarrow> cfg_node \<Rightarrow> cfg_mesh res" where
  "env_mesh nd ua env c =
     rbind (env_seed_peers nd ua env (vc_ceremony c)) (\<lambda>peers.
     rbind (env_peer_tiers env) (\<lambda>tiers.
     rbind (env_peer_quotes env) (\<lambda>quotes.
     Inr (cfg_node.extend c (cfg_mesh.fields peers tiers quotes
       (case env ''VAULT_PEER_TIER_REQUIRE_QUOTE'' of
          Some v \<Rightarrow> ascii_lower v \<in> {''1'', ''true'', ''yes''}
        | None \<Rightarrow> vc_ceremony c \<noteq> CerLab)
       (env_uint env (2 ^ 64 - 1) ''VAULT_GENESIS_N'')
       (env_uint env (2 ^ 64 - 1) ''VAULT_ONLINE_COUNT'')
       (env_flag env ''VAULT_ONLINE_STATIC''))))))"

definition env_psbt_policy :: "env \<Rightarrow> psbt_policy" where
  "env_psbt_policy env =
     \<lparr>max_fee_sats = env_word env ''VAULT_PSBT_MAX_FEE_SATS'' (max_fee_sats psbt_lab_defaults),
      max_fee_rate_sat_vb = env_word env ''VAULT_PSBT_MAX_FEE_RATE_SAT_VB'' (max_fee_rate_sat_vb psbt_lab_defaults),
      max_locktime = env_word env ''VAULT_PSBT_MAX_LOCKTIME'' (max_locktime psbt_lab_defaults),
      rbf = (case env ''VAULT_PSBT_RBF_POLICY'' of
               None \<Rightarrow> rbf psbt_lab_defaults
             | Some s \<Rightarrow> (case rbf_parse s of Some p \<Rightarrow> p | None \<Rightarrow> rbf psbt_lab_defaults))\<rparr>"

definition env_cadence :: "env \<Rightarrow> string \<Rightarrow> payout_cadence \<Rightarrow> payout_cadence" where
  "env_cadence env k d = (case Option.bind (env k) cadence_parse of Some p \<Rightarrow> p | None \<Rightarrow> d)"

definition env_policy :: "env \<Rightarrow> cfg_mesh \<Rightarrow> cfg_policy res" where
  "env_policy env c =
     (let btc_raw = env_or env ''BITCOIN_NETWORK'' ''testnet3'' in
      rbind (or_error (BitcoinNetworkMismatch (''unknown BITCOIN_NETWORK='' @ btc_raw)) (network_parse btc_raw)) (\<lambda>net.
      Inr (cfg_mesh.extend c (cfg_policy.fields
        (env_psbt_policy env)
        (env ''LAB_TIMELOCK_SCALE'' \<noteq> None)
        (env_word env ''LAB_TIMELOCK_SCALE'' 0)
        (case env_uint env (2 ^ 64 - 1) ''LAB_COUNCIL_N'' of Some n \<Rightarrow> n | None \<Rightarrow> 3)
        (case env_uint env (2 ^ 64 - 1) ''LAB_MIN_REBUILDS'' of Some n \<Rightarrow> n | None \<Rightarrow> 3)
        (env ''VAULT_ECONOMY'' \<in> Some ` {''open'', ''OPEN'', ''v1_open''})
        (env_cadence env ''VAULT_MINER_PAYOUT_CADENCE'' CadManual)
        (env_cadence env ''VAULT_MINER_PAYOUT_FREQUENCY'' CadDaily)
        (env_word env ''VAULT_SEATING_POLICY'' 24)
        net
        (csv_list env ''VAULT_USERS_DESTINATION_ALLOWLIST'')
        (csv_list env ''VAULT_MINERS_DESTINATION_ALLOWLIST'')
        (env_flag env ''VAULT_ALLOW_MANUAL_RESHARE'')
        (env_flag env ''VAULT_LAB_ALLOW_RAW_SIGHASH'')))))"

definition env_secrets :: "env \<Rightarrow> cfg_policy \<Rightarrow> cfg_secrets res" where
  "env_secrets env c =
     (let auth_raw = env_or env ''VAULT_AUTH_MODE'' (if vc_hardened c then ''mtls'' else ''static_token'');
          store_raw = env_or env ''VAULT_SHARE_STORE''
            (if vc_node_tier c \<noteq> Domestic \<and> vc_hardened c then ''tee_seal'' else ''aead_disk'') in
      rbind (or_error (AuthRejected (''unknown VAULT_AUTH_MODE='' @ auth_raw)) (auth_mode_parse auth_raw)) (\<lambda>auth.
      rbind (or_error (ShareStoreForbidden (''unknown VAULT_SHARE_STORE='' @ store_raw)) (store_mode_parse store_raw))
        (\<lambda>store.
      Inr (cfg_policy.extend c (cfg_secrets.fields
        auth
        (env_nonempty_first env [''VAULT_API_TOKEN'', ''VAULT_TOKEN''])
        (env_nonempty_first env [''VAULT_TLS_CERT_PATH''])
        (env_nonempty_first env [''VAULT_TLS_KEY_PATH''])
        (env_nonempty_first env [''VAULT_TLS_CLIENT_CA_PATH''])
        (env_nonempty_first env [''VAULT_TLS_CLIENT_CERT_PATH''])
        (env_nonempty_first env [''VAULT_TLS_CLIENT_KEY_PATH''])
        store
        (env_nonempty_first env [''VAULT_DATA_PASSPHRASE'', ''VAULT_SHARE_PASSPHRASE''])
        (env_flag env ''VAULT_SHARE_TPM_SEAL'')
        (env_flag env ''VAULT_SHARE_TPM_STUB'')
        (env_flag env ''VAULT_SHARE_TPM_CLEAR_FALLBACK'')
        (env_nonempty_first env [''VAULT_SECURE_BOOT_PCR_POLICY''])
        (env_nonempty_first env [''VAULT_DATA_DIR''])
        (env_nonempty_first env [''VAULT_ANTI_NONCE_SHARED_DIR''])
        (env_nonempty_first env [''VAULT_MEASUREMENT_PIN'']))))))"

definition env_dkg_mode :: "cfg_features \<Rightarrow> env \<Rightarrow> bool \<Rightarrow> dkg_mode res" where
  "env_dkg_mode f env hardened =
     (case (case env ''VAULT_DKG_MODE'' of Some r \<Rightarrow> Some r | None \<Rightarrow> env ''VAULT_DKG'') of
        Some raw \<Rightarrow> or_error (AttestationRejected (''unknown VAULT_DKG_MODE='' @ raw)) (dkg_mode_parse raw)
      | None \<Rightarrow> Inr (if hardened then DistributedWire else if cf_dealer_lab f then DealerLab else DkgDistributed))"

definition env_transport :: "env \<Rightarrow> ceremony_mode \<Rightarrow> vault_transport res" where
  "env_transport env ceremony =
     (let raw = env_or env ''VAULT_TRANSPORT'' (if ceremony = CerProduction then ''tor'' else ''clearnet'') in
      or_error (AttestationRejected (''unknown VAULT_TRANSPORT='' @ raw)) (transport_parse raw))"

definition env_peer_http :: "env \<Rightarrow> vault_transport \<Rightarrow> peer_http" where
  "env_peer_http env t =
     (let d = (if t = Tor then tor_defaults else clearnet_defaults);
          secs = (\<lambda>k old. case env_uint env (2 ^ 64 - 1) k of Some s \<Rightarrow> 1000 * max s 1 | None \<Rightarrow> old) in
      \<lparr>ph_transport = t,
       ph_socks = (case env_nonempty_first env [''VAULT_SOCKS_PROXY'', ''VAULT_TOR_SOCKS''] of
                     Some s \<Rightarrow> Some (normalize_socks_proxy s)
                   | None \<Rightarrow> if t = Tor then ph_socks d else None),
       ph_timeout = secs ''VAULT_HTTP_TIMEOUT_SECS'' (ph_timeout d),
       ph_connect_timeout = secs ''VAULT_HTTP_CONNECT_TIMEOUT_SECS'' (ph_connect_timeout d),
       ph_max_retries = (case env_uint env (2 ^ 32 - 1) ''VAULT_HTTP_MAX_RETRIES'' of
                           Some n \<Rightarrow> of_nat (max n 1) | None \<Rightarrow> ph_max_retries d),
       ph_retry_base = env_word env ''VAULT_HTTP_RETRY_BASE_MS'' (ph_retry_base d),
       ph_retry_jitter = env_word env ''VAULT_HTTP_RETRY_JITTER_MS'' (ph_retry_jitter d)\<rparr>)"

definition spiffe_allowlist :: "env \<Rightarrow> string \<Rightarrow> (string \<times> string) list \<Rightarrow> string list" where
  "spiffe_allowlist env node_id peers =
     (case env_nonempty_first env [''VAULT_TLS_PEER_SPIFFE_ID'', ''VAULT_MTLS_SPIFFE_VAULT''] of
        Some raw \<Rightarrow> csv_parts raw
      | None \<Rightarrow>
          (let trust = (case env_nonempty_first env [''VAULT_MTLS_TRUST_DOMAIN''] of
                          Some t \<Rightarrow> t | None \<Rightarrow> ''kerosene.lab'');
               uri = (\<lambda>i. ''spiffe://'' @ trust @ ''/vault/'' @ i) in
           remdups_adj (sort (uri node_id # map (uri \<circ> fst) peers @ [uri ''server'']))))"

definition resolve_tls_verify_policy ::
  "env \<Rightarrow> vault_transport \<Rightarrow> string \<Rightarrow> (string \<times> string) list \<Rightarrow> tls_policy res" where
  "resolve_tls_verify_policy env t node_id peers =
     (let raw = env_or env ''VAULT_TLS_VERIFY_MODE'' (if t = Tor then ''onion_or_spiffe'' else ''hostname'') in
      or_error (AuthRejected (''unknown VAULT_TLS_VERIFY_MODE='' @ raw @ '' (or empty SPIFFE allowlist)''))
        (tls_policy_parse raw (spiffe_allowlist env node_id peers)))"

definition env_wire :: "cfg_features \<Rightarrow> node_dir \<Rightarrow> env \<Rightarrow> cfg_secrets \<Rightarrow> vault_config res" where
  "env_wire f nd env c =
     rbind (env_dkg_mode f env (vc_hardened c)) (\<lambda>dkg.
     rbind (reshare_from_env (env ''VAULT_RESHARE_POLICY'')) (\<lambda>reshare.
     rbind (env_transport env (vc_ceremony c)) (\<lambda>transport.
     rbind (resolve_tls_verify_policy env transport (vc_node_id c) (vc_seed_peers c)) (\<lambda>policy.
     rbind (audit_from_env env (nd_read nd)) (\<lambda>audit.
     Inr (cfg_secrets.extend c (vault_config.fields
       (dkg = DealerLab) dkg reshare
       (env_word env ''VAULT_GOVERNANCE_REWARD_SATS'' 0)
       (env_word env ''VAULT_GOVERNANCE_REWARD_BPS'' 0)
       transport (env_peer_http env transport)
       (env_flag env ''VAULT_CLEARNET_PUBLISH'')
       (env_nonempty_first env [''VAULT_ADMIN_UNIX_SOCKET'']) policy audit)))))))"

definition from_env ::
  "cfg_features \<Rightarrow> (path \<Rightarrow> bool) \<Rightarrow> node_dir \<Rightarrow> 'u url_api \<Rightarrow> env \<Rightarrow> vault_config res" where
  "from_env f exists nd ua env =
     rbind (env_node f exists env) (\<lambda>c1.
     rbind (env_mesh nd ua env c1) (\<lambda>c2.
     rbind (env_policy env c2) (\<lambda>c3.
     rbind (env_secrets env c3) (\<lambda>c4.
     rbind (env_wire f nd env c4) (\<lambda>c.
     rbind (validate_hygiene f env c) (\<lambda>_.
     Inr c))))))"

section \<open>What reading establishes\<close>

lemma or_error_Inr [simp]: "or_error e r = Inr x \<longleftrightarrow> r = Some x"
  by (auto simp: or_error_def split: option.splits)

lemma env_node_fields:
  assumes "env_node f exists env = Inr c"
  shows "vc_hardened c = refuse_sim_env f env" "vc_refuse_sim c = refuse_sim_env f env"
    "ceremony_parse (env_or env ''VAULT_CEREMONY_MODE'' (env_or env ''KEROSENE_ENV'' ''lab'')) = Some (vc_ceremony c)"
    "node_id_new (env_or env ''VAULT_NODE_ID'' ''vault-local-1'') = Inr (vc_node_id c)"
  using assms by (auto simp: env_node_def rbind_Inr_iff Let_def)

lemma env_mesh_fields:
  "env_mesh nd ua env c = Inr d \<Longrightarrow> cfg_node.truncate d = cfg_node.truncate c \<and>
     env_seed_peers nd ua env (vc_ceremony c) = Inr (vc_seed_peers d)"
  by (auto simp: env_mesh_def rbind_Inr_iff cfg_node.defs cfg_mesh.defs)

lemma env_policy_fields:
  "env_policy env c = Inr d \<Longrightarrow> cfg_mesh.truncate d = cfg_mesh.truncate c \<and>
     vc_timelock_scale d = env_word env ''LAB_TIMELOCK_SCALE'' 0 \<and>
     vc_timelock_env_set d = (env ''LAB_TIMELOCK_SCALE'' \<noteq> None)"
  unfolding env_policy_def Let_def by (clarsimp simp: rbind_Inr_iff cfg_mesh.defs cfg_policy.defs)

lemma env_secrets_fields:
  "env_secrets env c = Inr d \<Longrightarrow> cfg_policy.truncate d = cfg_policy.truncate c"
  unfolding env_secrets_def Let_def by (clarsimp simp: rbind_Inr_iff cfg_policy.defs cfg_secrets.defs)

lemma env_wire_fields:
  "env_wire f nd env c = Inr d \<Longrightarrow> cfg_secrets.truncate d = cfg_secrets.truncate c \<and>
     vc_dealer_requested d = (vc_dkg d = DealerLab) \<and> vc_peer_http d = env_peer_http env (vc_transport d)"
  unfolding env_wire_def by (clarsimp simp: rbind_Inr_iff cfg_secrets.defs vault_config.defs)

lemma from_env_fields:
  assumes "from_env f exists nd ua env = Inr c"
  shows "validate_hygiene f env c = Inr ()" "vc_hardened c = refuse_sim_env f env"
    "ceremony_parse (env_or env ''VAULT_CEREMONY_MODE'' (env_or env ''KEROSENE_ENV'' ''lab'')) = Some (vc_ceremony c)"
    "vc_timelock_scale c = env_word env ''LAB_TIMELOCK_SCALE'' 0"
    "vc_timelock_env_set c = (env ''LAB_TIMELOCK_SCALE'' \<noteq> None)"
proof -
  obtain c1 c2 c3 c4 where s: "env_node f exists env = Inr c1" "env_mesh nd ua env c1 = Inr c2"
    "env_policy env c2 = Inr c3" "env_secrets env c3 = Inr c4" "env_wire f nd env c4 = Inr c"
    and h: "validate_hygiene f env c = Inr ()"
    using assms by (auto simp: from_env_def rbind_Inr_iff)
  have t: "cfg_node.truncate c2 = cfg_node.truncate c1" "cfg_mesh.truncate c3 = cfg_mesh.truncate c2"
    "cfg_policy.truncate c4 = cfg_policy.truncate c3" "cfg_secrets.truncate c = cfg_secrets.truncate c4"
    using s env_mesh_fields env_policy_fields env_secrets_fields env_wire_fields by blast+
  show "validate_hygiene f env c = Inr ()" by (rule h)
  show "vc_hardened c = refuse_sim_env f env"
    using t env_node_fields(1) [OF s(1)]
    by (simp add: cfg_node.defs cfg_mesh.defs cfg_policy.defs cfg_secrets.defs)
  show "ceremony_parse (env_or env ''VAULT_CEREMONY_MODE'' (env_or env ''KEROSENE_ENV'' ''lab'')) = Some (vc_ceremony c)"
    using t env_node_fields(3) [OF s(1)]
    by (simp add: cfg_node.defs cfg_mesh.defs cfg_policy.defs cfg_secrets.defs)
  show "vc_timelock_scale c = env_word env ''LAB_TIMELOCK_SCALE'' 0"
    "vc_timelock_env_set c = (env ''LAB_TIMELOCK_SCALE'' \<noteq> None)"
    using t env_policy_fields [OF s(3)]
    by (simp_all add: cfg_policy.defs cfg_secrets.defs)
qed

section \<open>Production ceremonies\<close>

text \<open>C28: An environment accepted with a production ceremony gives a vault without simulated attestation,
  without the attestation stub and the TPM stubs, with a measurement pin behind software attestation, keys
  generated over the wire, mutual TLS with all of its paths and a verifier that is not hostname-only, a Tor
  transport with a SOCKS proxy and onion peers only, no clearnet publication and no bind on all interfaces,
  a passphrase and an attestation root that are not the published defaults; and audit keys unless the
  skip variable is set.\<close>

theorem production_config_checked:
  assumes "from_env f exists nd ua env = Inr c" "vc_ceremony c = CerProduction"
  shows "vc_attestation c \<noteq> AttSim \<and> \<not> vc_staging_stub c \<and> \<not> vc_tpm_stub c \<and> \<not> vc_tpm_clear_fallback c \<and>
    (vc_attestation c = AttSoftware \<longrightarrow> vc_measurement_pin c \<noteq> None) \<and>
    vc_dkg c = DistributedWire \<and> vc_auth c = AuthMtls \<and>
    is_ok (require_mtls_paths c) \<and> is_ok (require_mtls_client_identity c) \<and> vc_tls_policy c \<noteq> VerifyHostname \<and>
    vc_transport c = Tor \<and> (\<exists>s. ph_socks (vc_peer_http c) = Some s \<and> s \<noteq> []) \<and>
    (\<forall>(i, addr)\<in>set (vc_seed_peers c). peer_addr_is_onion addr) \<and> \<not> vc_clearnet_publish c \<and>
    \<not> prefix ''0.0.0.0'' (trim (vc_listen_addr c)) \<and> \<not> prefix ''[::]'' (trim (vc_listen_addr c)) \<and>
    (vc_store c = AeadDisk \<longrightarrow> (\<exists>p. vc_passphrase c = Some p \<and> p \<noteq> lab_passphrase)) \<and>
    vc_lab_root c \<noteq> ''kerosene-lab-root'' \<and>
    (vc_audit_keys c \<noteq> [] \<or> env_flag env ''VAULT_SKIP_AUDIT_KEYS_CHECK'')"
proof -
  have h: "validate_hygiene f env c = Inr ()" by (rule from_env_fields [OF assms(1)])
  note p = hygiene_parts [OF h]
  have not_lab: "vc_ceremony c \<noteq> CerLab" using assms(2) by simp
  note cer = ceremony_checked [OF p(9) [OF not_lab]]
  note mesh = production_mesh_checked [OF p(4) assms(2)]
  then have tor: "validate_tor c = Inr ()" by simp
  have root: "vc_lab_root c \<noteq> ''kerosene-lab-root''"
    using p(7) not_lab by (auto simp: validate_lab_root_honesty_def split: if_splits)
  show ?thesis
    using flags_checked [OF p(2) assms(2)] no_stub_checked [OF p(8) assms(2)] p(11) [OF assms(2)] cer p(10) mesh
      tor_checked [OF tor] bind_checked [OF p(5) assms(2)] passphrase_checked [OF p(6) not_lab] root assms(2)
    by blast
qed

definition lab_node_dir :: node_dir where
  "lab_node_dir = \<lparr>nd_read = \<lambda>_. Inl ''no file'', nd_identity = Inr, nd_ca = Inr, nd_client = \<lambda>i ca. Inr i,
     nd_get = \<lambda>_ _. Inl ''no network'', nd_status_error = \<lambda>e _. e, nd_json = \<lambda>_. Inl ''no body''\<rparr>"

definition lab_url :: "string url_api" where
  "lab_url = \<lparr>ua_parse = \<lambda>_. None, ua_scheme = \<lambda>_. [], ua_host = \<lambda>_. None, ua_username = \<lambda>_. [],
     ua_password = \<lambda>_. None, ua_query = \<lambda>_. None, ua_fragment = \<lambda>_. None, ua_set_path = \<lambda>_ u. u,
     ua_set_port = \<lambda>_ u. Some u, ua_show = \<lambda>u. u\<rparr>"

definition plain_features :: cfg_features where
  "plain_features = \<lparr>cf_production = False, cf_dealer_lab = False, cf_tee_hw = False\<rparr>"

text \<open>A production ceremony on a node whose \<open>KEROSENE_ENV\<close> is left unset.\<close>

definition ceremony_env :: env where
  "ceremony_env = map_of
    [(''VAULT_CEREMONY_MODE'', ''production''), (''VAULT_NODE_ID'', ''v1''), (''VAULT_MEASUREMENT_PIN'', ''aa''),
     (''VAULT_DKG_MODE'', ''wire''), (''VAULT_AUTH_MODE'', ''mtls''), (''VAULT_TLS_CERT_PATH'', ''c''),
     (''VAULT_TLS_KEY_PATH'', ''k''), (''VAULT_TLS_CLIENT_CA_PATH'', ''a''), (''VAULT_TLS_CLIENT_CERT_PATH'', ''c''),
     (''VAULT_TLS_CLIENT_KEY_PATH'', ''k''), (''VAULT_AUDIT_PUBKEY_ALLOWLIST'', ''aa''),
     (''VAULT_DATA_PASSPHRASE'', ''pass''), (''LAB_ATTESTATION_ROOT'', ''root''),
     (''VAULT_SEED_PEERS'', ''v2=b.onion''), (''VAULT_TLS_PEER_SPIFFE_ID'', ''spiffe://k/v2''),
     (''LAB_TIMELOCK_SCALE'', ''0'')]"

text \<open>The definitions that read a concrete environment.\<close>

named_theorems env_eval \<open>definitions of the readers\<close>

lemmas [env_eval] =
  env_node_def env_mesh_def env_policy_def env_secrets_def env_wire_def env_or_def env_flag_def
  refuse_sim_env_def is_production_env_def eq_ignore_ascii_case_def node_id_new_def resolve_node_tier_def
  detect_tee_devices_def detect_tee_at_paths_def ceremony_parse_def or_error_def attestation_parse_def
  env_seed_peers_def csv_pairs_def csv_parts_def csv_list_def env_peer_tiers_def env_peer_quotes_def
  env_uint_def env_word_def env_psbt_policy_def psbt_lab_defaults_def env_cadence_def network_parse_def
  auth_mode_parse_def store_mode_parse_def env_dkg_mode_def dkg_mode_parse_def reshare_from_env_def
  env_transport_def transport_parse_def env_peer_http_def tor_defaults_def clearnet_defaults_def
  resolve_tls_verify_policy_def spiffe_allowlist_def tls_policy_parse_def audit_from_env_def
  audit_from_hex_list_def bs_of_def

lemmas [str_eval] = trim_visible visible_def code_def ascii_lower_def

definition ceremony_node :: cfg_node where
  "ceremony_node = \<lparr>vc_node_id = ''v1'', vc_node_tier = Domestic, vc_tee_available = False, vc_refuse_sim = False,
     vc_hardened = False, vc_staging_stub = False, vc_ceremony = CerProduction, vc_attestation = AttSoftware,
     vc_listen_addr = ''127.0.0.1:7701'', vc_lab_root = ''root''\<rparr>"

definition ceremony_mesh :: cfg_mesh where
  "ceremony_mesh = cfg_node.extend ceremony_node
     (cfg_mesh.fields [(''v2'', ''b.onion'')] [] [] True None None False)"

definition ceremony_policy :: cfg_policy where
  "ceremony_policy = cfg_mesh.extend ceremony_mesh
     (cfg_policy.fields psbt_lab_defaults True 0 3 3 False CadManual CadDaily 24 Testnet3 [] [] False False)"

definition ceremony_secrets :: cfg_secrets where
  "ceremony_secrets = cfg_policy.extend ceremony_policy
     (cfg_secrets.fields AuthMtls None (Some ''c'') (Some ''k'') (Some ''a'') (Some ''c'') (Some ''k'') AeadDisk
        (Some ''pass'') False False False None None None (Some ''aa''))"

definition ceremony_config :: vault_config where
  "ceremony_config = cfg_secrets.extend ceremony_secrets
     (vault_config.fields False DistributedWire ReshareManual 0 0 Tor tor_defaults False None
        (VerifyOnionOrSpiffe [''spiffe://k/v2'']) [''aa''])"

lemmas ceremony_records = ceremony_node_def ceremony_mesh_def ceremony_policy_def ceremony_secrets_def
  ceremony_config_def cfg_node.defs cfg_mesh.defs cfg_policy.defs cfg_secrets.defs vault_config.defs

lemma ceremony_selectors:
  "vc_node_tier ceremony_policy = Domestic" "vc_ceremony ceremony_secrets = CerProduction"
  "vc_node_id ceremony_secrets = ''v1''" "vc_seed_peers ceremony_secrets = [(''v2'', ''b.onion'')]"
  by (simp_all add: ceremony_records)

lemma ceremony_stage1: "env_node plain_features (\<lambda>_. False) ceremony_env = Inr ceremony_node"
  by (simp add: env_eval plain_features_def ceremony_env_def ceremony_node_def str_eval)

lemma ceremony_stage2: "env_mesh lab_node_dir lab_url ceremony_env ceremony_node = Inr ceremony_mesh"
  by (simp add: env_eval ceremony_env_def ceremony_node_def ceremony_mesh_def str_eval)

lemma ceremony_stage3: "env_policy ceremony_env ceremony_mesh = Inr ceremony_policy"
  by (simp add: env_eval ceremony_env_def ceremony_policy_def str_eval
      parse_uint_def undec_def undigit_def is_ascii_digit_def)

lemma ceremony_stage4: "env_secrets ceremony_env ceremony_policy = Inr ceremony_secrets"
  by (simp add: env_eval ceremony_env_def ceremony_secrets_def ceremony_selectors str_eval)

lemma ceremony_stage5: "env_wire plain_features lab_node_dir ceremony_env ceremony_secrets = Inr ceremony_config"
  by (simp add: env_eval ceremony_env_def ceremony_config_def ceremony_selectors str_eval)

lemma ceremony_peer_onion: "peer_addr_is_onion ''b.onion''"
  by code_simp

lemma ceremony_stage6: "validate_hygiene plain_features ceremony_env ceremony_config = Inr ()"
  by (simp add: validate_hygiene_def cfg_checks plain_features_def ceremony_records tor_defaults_def ceremony_peer_onion str_eval
      is_lab_only_def is_tee_def tier_is_tee_def tier_is_domestic_def lab_passphrase_def nonempty_def)

lemma ceremony_env_accepted:
  "from_env plain_features (\<lambda>_. False) lab_node_dir lab_url ceremony_env = Inr ceremony_config"
  by (simp add: from_env_def ceremony_stage1 ceremony_stage2 ceremony_stage3 ceremony_stage4 ceremony_stage5
      ceremony_stage6)

lemma ceremony_env_values:
  "vc_ceremony ceremony_config = CerProduction" "\<not> refuse_sim_env plain_features ceremony_env"
  "env_word ceremony_env ''LAB_TIMELOCK_SCALE'' 0 = (0 :: u64)"
  by (simp add: ceremony_records)
    (simp_all add: env_eval ceremony_env_def plain_features_def str_eval parse_uint_def undec_def undigit_def
      is_ascii_digit_def)

theorem production_config_checked_witness:
  "vc_tls_policy ceremony_config \<noteq> VerifyHostname \<and> vc_transport ceremony_config = Tor \<and>
   vc_lab_root ceremony_config \<noteq> ''kerosene-lab-root''"
  using production_config_checked [OF ceremony_env_accepted ceremony_env_values(1)] by blast

text \<open>C33: The hardening of an accepted configuration does not depend on its ceremony: lab endpoints stay
  enabled, and the lab timelock scale of the environment stays in force, exactly when neither the build
  feature nor \<open>KEROSENE_ENV\<close> nor the refuse-sim flag asks for hardening.  A production ceremony alone leaves
  the lab endpoints open and lets the scale be zero.\<close>

theorem hardening_ignores_ceremony:
  assumes "from_env f exists nd ua env = Inr c"
  shows "lab_endpoints_enabled c = (\<not> refuse_sim_env f env) \<and>
    effective_lab_timelock_scale c =
      (if refuse_sim_env f env then 1 else env_word env ''LAB_TIMELOCK_SCALE'' 0)"
  using from_env_fields [OF assms] by (simp add: lab_endpoints_enabled_def effective_lab_timelock_scale_def)

theorem hardening_ignores_ceremony_witness:
  "vc_ceremony ceremony_config = CerProduction \<and> lab_endpoints_enabled ceremony_config \<and>
   effective_lab_timelock_scale ceremony_config = 0"
  using hardening_ignores_ceremony [OF ceremony_env_accepted] ceremony_env_values by simp

text \<open>The other way round, a hardened vault with a lab ceremony passes every check with a static token, a
  dealer and a clearnet transport.\<close>

lemma hardened_lab_ceremony_accepted:
  "validate_hygiene plain_features Map.empty
     (ceremony_config\<lparr>vc_ceremony := CerLab, vc_hardened := True, vc_refuse_sim := True,
        vc_timelock_env_set := False, vc_auth := AuthStatic, vc_dkg := DealerLab, vc_dealer_requested := True,
        vc_transport := Clearnet\<rparr>) = Inr ()"
  by (simp add: validate_hygiene_def cfg_checks plain_features_def ceremony_records tor_defaults_def str_eval
      is_lab_only_def is_tee_def tier_is_tee_def tier_is_domestic_def lab_passphrase_def nonempty_def)

section \<open>Genesis seating\<close>

lemma pad_candidates_length:
  "pad_candidates k cs = Inr ps \<Longrightarrow> length ps = length cs + k \<and> (\<exists>more. ps = cs @ more)"
  by (induction k cs arbitrary: ps rule: pad_candidates.induct) (fastforce simp: rbind_Inr_iff)+

lemma rmapM_memb: "rmapM g xs = Inr ys \<Longrightarrow> y \<in> set ys \<Longrightarrow> \<exists>x\<in>set xs. g x = Inr y"
  by (induction xs arbitrary: ys) (auto simp: rbind_Inr_iff)

lemma seating_candidates_tiers:
  assumes "seating_candidates c = Inr cs" "k \<in> set cs"
  shows "k = \<lparr>sc_id = vc_node_id c, sc_tier = vc_node_tier c\<rparr> \<or>
    (\<exists>(i, addr)\<in>set (vc_seed_peers c). sc_id k = trim i \<and> sc_tier k = peer_tier c i)"
proof -
  obtain ks where ks: "cs = \<lparr>sc_id = vc_node_id c, sc_tier = vc_node_tier c\<rparr> # ks"
    "rmapM (\<lambda>(i, addr). rbind (node_id_new i) (\<lambda>n. Inr \<lparr>sc_id = n, sc_tier = peer_tier c i\<rparr>))
       (vc_seed_peers c) = Inr ks"
    using assms(1) by (auto simp: seating_candidates_def rbind_Inr_iff)
  show ?thesis
  proof (cases "k \<in> set ks")
    case True
    then obtain p where "p \<in> set (vc_seed_peers c)"
      "(case p of (i, addr) \<Rightarrow> rbind (node_id_new i) (\<lambda>n. Inr \<lparr>sc_id = n, sc_tier = peer_tier c i\<rparr>)) = Inr k"
      using rmapM_memb [OF ks(2)] by blast
    then show ?thesis by (force simp: rbind_Inr_iff node_id_new_def Let_def split: prod.splits if_splits)
  qed (use assms(2) ks(1) in auto)
qed

end
