(* ===== verification/Attestation.thy ===== *)
theory Attestation
  imports Constitution Hex
begin

text \<open>
  Attestation adapters (\<open>adapters/attestation_sim.rs\<close>, \<open>adapters/attestation_tee/\<close>): software quotes, the
  envelope of hardware quotes, the SEV-SNP and SGX paths and the adapter that chooses between them.  The
  digest \<open>sha\<close> gives hexadecimal text; the SEV-SNP device and the library that parses and verifies its
  reports are the record \<open>sev_hw\<close>.  Byte strings are lists of characters.
\<close>

section \<open>Software quotes\<close>

record sim_adapter =
  sa_mode :: attestation_mode
  sa_root :: string

definition sim_with_mode :: "attestation_mode \<Rightarrow> string \<Rightarrow> sim_adapter" where
  "sim_with_mode m root = \<lparr>sa_mode = (if is_software_measurement m then m else AttSim), sa_root = root\<rparr>"

definition sim_mac :: "(string \<Rightarrow> string) \<Rightarrow> sim_adapter \<Rightarrow> string \<Rightarrow> string" where
  "sim_mac sha a m =
     sha ((if sa_mode a = AttSoftware then ''kerosene-vault-software-v1'' else ''kerosene-vault-sim-v1'') @ sa_root a @ m)"

definition sim_issue_quote :: "(string \<Rightarrow> string) \<Rightarrow> sim_adapter \<Rightarrow> string \<Rightarrow> attestation_quote res" where
  "sim_issue_quote sha a m = Inr \<lparr>aq_mode = sa_mode a, aq_measurement = m, aq_blob = sim_mac sha a m\<rparr>"

definition sim_verify_quote :: "(string \<Rightarrow> string) \<Rightarrow> sim_adapter \<Rightarrow> attestation_quote \<Rightarrow> unit res" where
  "sim_verify_quote sha a q =
     (if aq_mode q \<noteq> sa_mode a
      then Inl (AttestationRejected (attestation_str (sa_mode a) @ '' adapter only accepts ''
             @ attestation_str (sa_mode a) @ '' quotes''))
      else if sim_mac sha a (aq_measurement q) \<noteq> aq_blob q
      then Inl (AttestationRejected ''software/sim quote mac mismatch'')
      else Inr ())"

section \<open>The envelope of hardware quotes\<close>

record hw_envelope =
  he_platform :: nat
  he_measurement :: string
  he_report :: string

definition quote_magic :: string where "quote_magic = ''KVAQTEE1''"
definition platform_sev :: nat where "platform_sev = 1"
definition platform_sgx :: nat where "platform_sgx = 2"

definition be32 :: "nat \<Rightarrow> string" where
  "be32 n = map (\<lambda>i. chr (n div 256 ^ i mod 256)) [3, 2, 1, 0]"

definition of_be32 :: "string \<Rightarrow> nat" where
  "of_be32 bs = foldl (\<lambda>a c. 256 * a + code c) 0 bs"

definition envelope_looks_like :: "string \<Rightarrow> bool" where
  "envelope_looks_like blob = (length blob \<ge> 8 \<and> take 8 blob = quote_magic)"

definition envelope_encode :: "hw_envelope \<Rightarrow> string" where
  "envelope_encode e =
     quote_magic @ [chr 1, chr (he_platform e)] @ he_measurement e @ be32 (length (he_report e) mod 2 ^ 32) @ he_report e"

text \<open>A measurement field that is no ASCII is no UTF-8 of 64 hexadecimal digits either, but the code
  tells them apart: \<open>utf8\<close> says whether bytes are UTF-8.\<close>

definition envelope_decode :: "(string \<Rightarrow> bool) \<Rightarrow> string \<Rightarrow> hw_envelope res" where
  "envelope_decode utf8 blob =
     (if length blob < 8 + 1 + 1 + 64 + 4 then Inl (AttestationRejected ''HW quote envelope too short'')
      else if take 8 blob \<noteq> quote_magic then Inl (AttestationRejected ''HW quote magic mismatch'')
      else if code (blob ! 8) \<noteq> 1
      then Inl (AttestationRejected (''unsupported HW quote version '' @ dec (code (blob ! 8))))
      else if code (blob ! 9) \<noteq> platform_sev \<and> code (blob ! 9) \<noteq> platform_sgx
      then Inl (AttestationRejected (''unknown HW quote platform '' @ dec (code (blob ! 9))))
      else if \<not> utf8 (take 64 (drop 10 blob))
      then Inl (AttestationRejected ''HW quote measurement not ascii hex'')
      else rbind (measurement_from_hex (take 64 (drop 10 blob))) (\<lambda>m.
        if length blob \<noteq> 78 + of_be32 (take 4 (drop 74 blob))
        then Inl (AttestationRejected ''HW quote report length mismatch'')
        else Inr \<lparr>he_platform = code (blob ! 9), he_measurement = m, he_report = drop 78 blob\<rparr>))"

section \<open>Platform reports\<close>

text \<open>\<open>sh_compiled\<close> is the feature \<open>tee_hw\<close>.  Of a parsed report the code reads its report data; \<open>sh_verify\<close> is
  the library's verdict on chain and signature under the permissive policy.\<close>

record sev_hw =
  sh_compiled :: bool
  sh_guest :: bool
  sh_request :: "string \<Rightarrow> string + string"
  sh_parse :: "string \<Rightarrow> string + string"
  sh_verify :: "string \<Rightarrow> string + bool"

definition measurement_report_data :: "string \<Rightarrow> string res" where
  "measurement_report_data m =
     (case hex_decode m of
        None \<Rightarrow> Inl (AttestationRejected ''SEV-SNP measurement hex decode'')
      | Some d \<Rightarrow>
          if length d \<noteq> 32 then Inl (AttestationRejected ''SEV-SNP measurement must be 32-byte SHA-256'')
          else Inr (d @ replicate 32 (chr 0)))"

definition sev_issue_report :: "sev_hw \<Rightarrow> string \<Rightarrow> string res" where
  "sev_issue_report hw m =
     (if \<not> sh_compiled hw
      then Inl (AttestationRejected ''SEV-SNP hardware quote unavailable: rebuild with --features tee_hw (CI fail-closed without HW)'')
      else if \<not> sh_guest hw
      then Inl (TeeRequired ''SEV-SNP quote issue: /dev/sev-guest missing (fail-closed without HW)'')
      else rbind (measurement_report_data m) (\<lambda>d.
        case sh_request hw d of
          Inl e \<Rightarrow> Inl (AttestationRejected (''SEV-SNP request_raw failed: '' @ e))
        | Inr r \<Rightarrow> Inr r))"

definition sev_verify_structure :: "sev_hw \<Rightarrow> string \<Rightarrow> string \<Rightarrow> unit res" where
  "sev_verify_structure hw m report =
     (if report = [] then Inl (AttestationRejected ''SEV-SNP report empty'')
      else case sh_parse hw report of
        Inl e \<Rightarrow> Inl (AttestationRejected (''SEV-SNP report parse failed: '' @ e))
      | Inr data \<Rightarrow>
          rbind (measurement_report_data m) (\<lambda>want.
          if length data < 32 \<or> take 32 data \<noteq> take 32 want
          then Inl (AttestationRejected ''SEV-SNP REPORT_DATA measurement mismatch'')
          else case sh_verify hw report of
            Inl e \<Rightarrow> Inl (AttestationRejected (''SEV-SNP verify failed: '' @ e))
          | Inr ok \<Rightarrow> if ok then Inr () else Inl (AttestationRejected ''SEV-SNP report verification failed'')))"

definition sev_verify_report :: "sev_hw \<Rightarrow> string \<Rightarrow> string \<Rightarrow> unit res" where
  "sev_verify_report hw m report =
     (if sh_compiled hw then sev_verify_structure hw m report
      else Inl (AttestationRejected ''SEV-SNP hardware verify unavailable: rebuild with --features tee_hw (CI fail-closed without HW)''))"

definition sgx_issue_report :: "bool \<Rightarrow> string \<Rightarrow> string res" where
  "sgx_issue_report compiled m =
     (if compiled
      then Inl (AttestationRejected (''SGX quote issue: tee_hw compiled but DCAP quote generation not linked (fail-closed). ''
             @ ''Requires SGX SDK + DCAP driver. See Item 2.4 in VAULT_IMPLEMENTATION_PLAN.md.''))
      else Inl (AttestationRejected ''SGX hardware quote unavailable: rebuild with --features tee_hw (CI fail-closed without HW)''))"

definition sgx_verify_report :: "bool \<Rightarrow> string \<Rightarrow> string \<Rightarrow> unit res" where
  "sgx_verify_report compiled m report =
     (if \<not> compiled
      then Inl (AttestationRejected ''SGX hardware verify unavailable: rebuild with --features tee_hw (CI fail-closed without HW)'')
      else if report = [] then Inl (AttestationRejected ''SGX quote empty'')
      else Inl (AttestationRejected (''SGX quote verify: tee_hw path structured but DCAP/QE collateral verify not linked (fail-closed). ''
             @ ''See VAULT_IMPLEMENTATION_PLAN.md Item 2.4 for integration requirements.'')))"

section \<open>The hardware adapter\<close>

record tee_adapter =
  ta_mode :: attestation_mode
  ta_stub :: bool
  ta_refuse_stub :: bool
  ta_root :: string
  ta_pin :: string
  ta_hbs :: "string list"

definition tee_with_policy ::
  "attestation_mode \<Rightarrow> bool \<Rightarrow> bool \<Rightarrow> string \<Rightarrow> string \<Rightarrow> string list \<Rightarrow> tee_adapter res" where
  "tee_with_policy m stub refuse root pin hbs =
     (if \<not> is_tee m then Inl (AttestationRejected ''TeeAttestationAdapter requires sev or sgx mode'')
      else if refuse \<and> stub then Inl (LabFlagForbidden ''ATTESTATION_STAGING_STUB in production ceremony'')
      else Inr \<lparr>ta_mode = m, ta_stub = stub, ta_refuse_stub = refuse, ta_root = root, ta_pin = pin, ta_hbs = hbs\<rparr>)"

fun stub_tag :: "attestation_mode \<Rightarrow> string" where
  "stub_tag AttSev = ''kerosene-vault-sev-stub-v1''"
| "stub_tag AttSgx = ''kerosene-vault-sgx-stub-v1''"
| "stub_tag _ = ''invalid''"

definition stub_mac :: "(string \<Rightarrow> string) \<Rightarrow> tee_adapter \<Rightarrow> string \<Rightarrow> string" where
  "stub_mac sha a m = sha (stub_tag (ta_mode a) @ ta_root a @ m @ ''|pin|'' @ ta_pin a)"

definition enforce_measurement :: "tee_adapter \<Rightarrow> string \<Rightarrow> unit res" where
  "enforce_measurement a m =
     (if \<not> admits_attestation_measurement m (ta_pin a) (ta_hbs a)
      then if m \<noteq> ta_pin a then Inl MeasurementMismatch else Inl (NotAllowlisted m)
      else Inr ())"

fun platform_code :: "attestation_mode \<Rightarrow> nat" where
  "platform_code AttSev = platform_sev"
| "platform_code AttSgx = platform_sgx"
| "platform_code _ = 0"

definition issue_hw_quote :: "sev_hw \<Rightarrow> tee_adapter \<Rightarrow> string \<Rightarrow> attestation_quote res" where
  "issue_hw_quote hw a m =
     rbind (case ta_mode a of
              AttSev \<Rightarrow> sev_issue_report hw m
            | AttSgx \<Rightarrow> sgx_issue_report (sh_compiled hw) m
            | _ \<Rightarrow> Inl SimAttestationForbidden) (\<lambda>report.
     Inr \<lparr>aq_mode = ta_mode a, aq_measurement = m,
          aq_blob = envelope_encode \<lparr>he_platform = platform_code (ta_mode a), he_measurement = m, he_report = report\<rparr>\<rparr>)"

definition verify_hw_quote :: "(string \<Rightarrow> bool) \<Rightarrow> sev_hw \<Rightarrow> tee_adapter \<Rightarrow> attestation_quote \<Rightarrow> unit res" where
  "verify_hw_quote utf8 hw a q =
     rbind (envelope_decode utf8 (aq_blob q)) (\<lambda>e.
     if he_platform e \<noteq> platform_code (ta_mode a)
     then Inl (AttestationRejected (''HW quote platform byte '' @ dec (he_platform e) @ '' != adapter ''
            @ attestation_str (ta_mode a)))
     else if he_measurement e \<noteq> aq_measurement q
     then Inl (AttestationRejected ''HW quote envelope measurement != quote.measurement'')
     else rbind (enforce_measurement a (he_measurement e)) (\<lambda>_.
       case ta_mode a of
         AttSev \<Rightarrow> sev_verify_report hw (he_measurement e) (he_report e)
       | AttSgx \<Rightarrow> sgx_verify_report (sh_compiled hw) (he_measurement e) (he_report e)
       | _ \<Rightarrow> Inl SimAttestationForbidden))"

definition stub_path_allowed :: "tee_adapter \<Rightarrow> bool" where
  "stub_path_allowed a = (ta_stub a \<and> \<not> ta_refuse_stub a)"

definition tee_issue_quote :: "(string \<Rightarrow> string) \<Rightarrow> sev_hw \<Rightarrow> tee_adapter \<Rightarrow> string \<Rightarrow> attestation_quote res" where
  "tee_issue_quote sha hw a m =
     rbind (enforce_measurement a m) (\<lambda>_.
     if stub_path_allowed a then Inr \<lparr>aq_mode = ta_mode a, aq_measurement = m, aq_blob = stub_mac sha a m\<rparr>
     else if ta_refuse_stub a then issue_hw_quote hw a m
     else Inl (AttestationRejected (attestation_str (ta_mode a)
            @ '' hardware quote unavailable (set ATTESTATION_STAGING_STUB=1 for staging only; production requires --features tee_hw + platform)'')))"

definition tee_verify_quote ::
  "(string \<Rightarrow> string) \<Rightarrow> (string \<Rightarrow> bool) \<Rightarrow> sev_hw \<Rightarrow> tee_adapter \<Rightarrow> attestation_quote \<Rightarrow> unit res" where
  "tee_verify_quote sha utf8 hw a q =
     (if is_software_measurement (aq_mode q)
      then Inl (AttestationRejected ''TEE adapter rejects software/sim quotes'')
      else if aq_mode q \<noteq> ta_mode a
      then Inl (AttestationRejected (''quote mode '' @ attestation_str (aq_mode q) @ '' != adapter ''
             @ attestation_str (ta_mode a)))
      else rbind (enforce_measurement a (aq_measurement q)) (\<lambda>_.
        if envelope_looks_like (aq_blob q) then verify_hw_quote utf8 hw a q
        else if \<not> stub_path_allowed a then
          if ta_refuse_stub a then Inl (LabFlagForbidden ''ATTESTATION_STAGING_STUB in production ceremony'')
          else Inl (AttestationRejected (attestation_str (ta_mode a)
                 @ '' hardware verify unavailable (CI fail-closed without --features tee_hw; staging may set ATTESTATION_STAGING_STUB=1)''))
        else if stub_mac sha a (aq_measurement q) \<noteq> aq_blob q
        then Inl (AttestationRejected ''TEE staging stub quote mac mismatch'')
        else Inr ()))"

section \<open>Firmware versions\<close>

record sev_tcb =
  st_boot_loader :: u8
  st_tee :: u8
  st_snp :: u8
  st_microcode :: u8

definition sev_tcb_minimum :: sev_tcb where
  "sev_tcb_minimum = \<lparr>st_boot_loader = 0, st_tee = 0, st_snp = 0, st_microcode = 0\<rparr>"

definition sev_tcb_debug :: "sev_tcb \<Rightarrow> string" where
  "sev_tcb_debug v =
     ''SevTcbVersion { boot_loader: '' @ dec_u (st_boot_loader v) @ '', tee: '' @ dec_u (st_tee v)
     @ '', snp: '' @ dec_u (st_snp v) @ '', microcode: '' @ dec_u (st_microcode v) @ '' }''"

definition tcb_violations :: "sev_tcb \<Rightarrow> sev_tcb \<Rightarrow> string list" where
  "tcb_violations r m =
     (if st_boot_loader r < st_boot_loader m then [''boot_loader''] else [])
     @ (if st_tee r < st_tee m then [''tee''] else [])
     @ (if st_snp r < st_snp m then [''snp''] else [])
     @ (if st_microcode r < st_microcode m then [''microcode''] else [])"

definition validate_tcb_version :: "sev_tcb \<Rightarrow> sev_tcb \<Rightarrow> unit res" where
  "validate_tcb_version r m =
     (if tcb_violations r m \<noteq> []
      then Inl (AttestationRejected (''SEV-SNP TCB version rollback: '' @ join_with '', '' (tcb_violations r m)
             @ '' (reported='' @ sev_tcb_debug r @ '' < minimum='' @ sev_tcb_debug m @ '')''))
      else Inr ())"

record sgx_tcb =
  sx_cpu_svn :: "u8 list"
  sx_pce_svn :: u16
  sx_qe_svn :: u16

definition sgx_tcb_minimum :: sgx_tcb where
  "sgx_tcb_minimum = \<lparr>sx_cpu_svn = replicate 16 0, sx_pce_svn = 0, sx_qe_svn = 0\<rparr>"

fun cpu_svn_loop :: "nat \<Rightarrow> (u8 \<times> u8) list \<Rightarrow> unit res" where
  "cpu_svn_loop i [] = Inr ()"
| "cpu_svn_loop i ((r, m) # ps) =
     (if r < m
      then Inl (AttestationRejected (''SGX TCB cpu_svn['' @ dec i @ ''] rollback: reported='' @ dec_u r
             @ '' < minimum='' @ dec_u m))
      else cpu_svn_loop (i + 1) ps)"

definition validate_sgx_tcb :: "sgx_tcb \<Rightarrow> sgx_tcb \<Rightarrow> unit res" where
  "validate_sgx_tcb r m =
     rbind (cpu_svn_loop 0 (zip (sx_cpu_svn r) (sx_cpu_svn m))) (\<lambda>_.
     if sx_pce_svn r < sx_pce_svn m
     then Inl (AttestationRejected (''SGX TCB pce_svn rollback: reported='' @ dec_u (sx_pce_svn r)
            @ '' < minimum='' @ dec_u (sx_pce_svn m)))
     else if sx_qe_svn r < sx_qe_svn m
     then Inl (AttestationRejected (''SGX TCB qe_svn rollback: reported='' @ dec_u (sx_qe_svn r)
            @ '' < minimum='' @ dec_u (sx_qe_svn m)))
     else Inr ())"

section \<open>The envelope round trip\<close>

lemma base256: "n < 256 ^ 4 \<Longrightarrow>
    256 * (256 * (256 * (n div 256 ^ 3 mod 256) + n div 256 ^ 2 mod 256) + n div 256 mod 256) + n mod 256 = n" for n :: nat
proof -
  assume n: "n < 256 ^ 4"
  have d: "n div 256 ^ 2 = n div 256 div 256" "n div 256 ^ 3 = n div 256 div 256 div 256"
    by (simp_all add: div_mult2_eq [symmetric])
  have "n div 256 div 256 div 256 < 256" using n by (simp add: less_mult_imp_div_less)
  then show ?thesis
    using mult_div_mod_eq [of 256 n] mult_div_mod_eq [of 256 "n div 256"] mult_div_mod_eq [of 256 "n div 256 div 256"]
    unfolding d by simp
qed

lemma of_be32_be32 [simp]: "n < 2 ^ 32 \<Longrightarrow> of_be32 (be32 n) = n"
  using base256 [of n] by (simp add: of_be32_def be32_def code_chr)

lemma be32_length [simp]: "length (be32 n) = 4"
  by (simp add: be32_def)

lemma envelope_round_trip:
  assumes "he_platform e \<in> {platform_sev, platform_sgx}" "measurement_from_hex (he_measurement e) = Inr (he_measurement e)"
    "length (he_report e) < 2 ^ 32" "utf8 (he_measurement e)"
  shows "envelope_decode utf8 (envelope_encode e) = Inr e"
proof -
  let ?m = "he_measurement e" and ?n = "length (he_report e)"
  have m: "length ?m = 64" using assms(2) by (simp add: measurement_from_hex_def split: if_splits)
  have p: "code (chr (he_platform e)) = he_platform e"
    using assms(1) by (auto simp: platform_sev_def platform_sgx_def code_chr)
  have magic: "length quote_magic = 8" by (simp add: quote_magic_def)
  have enc: "envelope_encode e = quote_magic @ chr 1 # chr (he_platform e) # ?m @ be32 ?n @ he_report e"
    using assms(3) by (simp add: envelope_encode_def)
  have f: "take 64 (drop 10 (envelope_encode e)) = ?m" "take 4 (drop 74 (envelope_encode e)) = be32 ?n"
    "drop 78 (envelope_encode e) = he_report e" "envelope_encode e ! 8 = chr 1"
    "envelope_encode e ! 9 = chr (he_platform e)" "take 8 (envelope_encode e) = quote_magic"
    "length (envelope_encode e) = 78 + ?n"
    using m by (simp_all add: enc magic nth_append nth_Cons' drop_Cons' take_Cons')
  show ?thesis
    using assms by (auto simp: envelope_decode_def f p code_chr)
qed

lemma sha_blob_no_envelope: "hex64 sha \<Longrightarrow> \<not> envelope_looks_like (sha x)"
proof
  assume h: "hex64 sha" and "envelope_looks_like (sha x)"
  then have "take 8 (sha x) = quote_magic" by (simp add: envelope_looks_like_def)
  then have "hd (sha x) = CHR ''K''" by (cases "sha x") (simp_all add: quote_magic_def)
  moreover have "hex_char (hd (sha x))" using h by (cases "sha x") (auto simp: hex64_def list_all_iff dest: spec [of _ x])
  ultimately show False by (simp add: hex_char_def code_def)
qed

lemma encode_looks_like: "envelope_looks_like (envelope_encode e)"
  by (simp add: envelope_looks_like_def envelope_encode_def quote_magic_def)

section \<open>Properties\<close>

lemma enforce_ok:
  "enforce_measurement a m = Inr () \<longleftrightarrow> m = ta_pin a \<and> (ta_hbs a = [] \<or> ta_pin a \<in> set (ta_hbs a))"
  by (auto simp: enforce_measurement_def admits_attestation_measurement_def list_ex_iff)

text \<open>An allowlist that does not hold the pin refuses every quote, the vault's own included.\<close>

lemma foreign_allowlist_refuses_all:
  assumes "ta_hbs a \<noteq> []" "ta_pin a \<notin> set (ta_hbs a)"
  shows "\<not> is_ok (tee_issue_quote sha hw a m)" "\<not> is_ok (tee_verify_quote sha utf8 hw a q)"
  using assms enforce_ok [of a]
  by (auto simp: tee_issue_quote_def tee_verify_quote_def is_ok_iff rbind_Inr_iff split: if_splits)

text \<open>The firmware checks accept everything at the minimum the source sets.\<close>

lemma tcb_minimum_vacuous:
  "validate_tcb_version r sev_tcb_minimum = Inr ()" "validate_sgx_tcb s sgx_tcb_minimum = Inr ()"
proof -
  obtain zs :: "u8 list" where zs: "zs = replicate 16 0" by blast
  have "\<forall>p\<in>set ps. snd p = 0 \<Longrightarrow> cpu_svn_loop i ps = Inr ()" for i ps
    by (induction i ps rule: cpu_svn_loop.induct) auto
  moreover have "\<forall>p\<in>set (zip (sx_cpu_svn s) zs). snd p = (0 :: u8)"
    unfolding zs by (auto dest: set_zip_rightD)
  ultimately have "cpu_svn_loop 0 (zip (sx_cpu_svn s) zs) = Inr ()" by blast
  moreover have "sx_cpu_svn sgx_tcb_minimum = zs" "sx_pce_svn sgx_tcb_minimum = 0" "sx_qe_svn sgx_tcb_minimum = 0"
    by (simp_all only: sgx_tcb_minimum_def zs sgx_tcb.simps)
  ultimately show "validate_sgx_tcb s sgx_tcb_minimum = Inr ()" by (simp add: validate_sgx_tcb_def)
qed (simp add: validate_tcb_version_def tcb_violations_def sev_tcb_minimum_def)

lemma sev_report_ok:
  "sev_verify_report hw m report = Inr () \<longleftrightarrow>
     sh_compiled hw \<and> report \<noteq> [] \<and>
     (\<exists>data d. sh_parse hw report = Inr data \<and> measurement_report_data m = Inr d \<and> 32 \<le> length data \<and>
        take 32 data = take 32 d) \<and> sh_verify hw report = Inr True"
  by (auto simp: sev_verify_report_def sev_verify_structure_def rbind_Inr_iff split: sum.splits if_splits)

text \<open>C31: An adapter that refuses stubs, as in a production ceremony, accepts a quote only from SEV-SNP hardware:
  the build has the feature, the quote is an envelope of a report whose report data begin with the digest of
  the pinned measurement, and the report library verified chain and signature.  No SGX quote, software
  quote or stub is accepted.\<close>

theorem production_quotes_are_hardware:
  assumes "tee_with_policy md stub True root pin hbs = Inr a" "tee_verify_quote sha utf8 hw a q = Inr ()"
  shows "aq_mode q = AttSev \<and> md = AttSev \<and> \<not> stub \<and> sh_compiled hw \<and> aq_measurement q = pin \<and> (hbs = [] \<or> pin \<in> set hbs) \<and>
    (\<exists>report data d. envelope_decode utf8 (aq_blob q) = Inr \<lparr>he_platform = platform_sev, he_measurement = pin, he_report = report\<rparr> \<and>
       sh_parse hw report = Inr data \<and> measurement_report_data pin = Inr d \<and> take 32 data = take 32 d \<and>
       sh_verify hw report = Inr True)"
proof -
  have a: "a = \<lparr>ta_mode = md, ta_stub = stub, ta_refuse_stub = True, ta_root = root, ta_pin = pin, ta_hbs = hbs\<rparr>"
    "is_tee md" "\<not> stub"
    using assms(1) by (auto simp: tee_with_policy_def split: if_splits)
  have v: "aq_mode q = md" "enforce_measurement a (aq_measurement q) = Inr ()" "verify_hw_quote utf8 hw a q = Inr ()"
    using assms(2) a by (auto simp: tee_verify_quote_def rbind_Inr_iff stub_path_allowed_def split: if_splits)
  obtain e where e: "envelope_decode utf8 (aq_blob q) = Inr e" "he_platform e = platform_code md"
    "he_measurement e = aq_measurement q"
    "(case md of AttSev \<Rightarrow> sev_verify_report hw (he_measurement e) (he_report e)
       | AttSgx \<Rightarrow> sgx_verify_report (sh_compiled hw) (he_measurement e) (he_report e)
       | _ \<Rightarrow> Inl SimAttestationForbidden) = Inr ()"
    using v(3) a by (auto simp: verify_hw_quote_def rbind_Inr_iff split: if_splits)
  have sev: "md = AttSev" using e(4) by (cases md) (auto simp: sgx_verify_report_def split: if_splits)
  have pin: "aq_measurement q = pin" "hbs = [] \<or> pin \<in> set hbs"
    using v(2) a by (auto simp: enforce_ok)
  have "e = \<lparr>he_platform = platform_sev, he_measurement = pin, he_report = he_report e\<rparr>"
    using e(2,3) sev pin(1) by (cases e) simp
  then have "envelope_decode utf8 (aq_blob q) =
      Inr \<lparr>he_platform = platform_sev, he_measurement = pin, he_report = he_report e\<rparr>"
    using e(1) by simp
  moreover have "sev_verify_report hw pin (he_report e) = Inr ()" using e(3,4) sev pin(1) by simp
  ultimately show ?thesis
    unfolding sev_report_ok using sev v(1) a(3) pin by blast
qed

text \<open>A quote an adapter issues is one it accepts: by the stub in staging, and on a device whose reports carry
  the requested data and verify.\<close>

theorem issued_quotes_verify:
  assumes "tee_with_policy md stub refuse root pin hbs = Inr a" "tee_issue_quote sha hw a m = Inr q" "hex64 sha"
    "measurement_from_hex m = Inr m" "utf8 m"
    "\<And>d r. length d = 64 \<Longrightarrow> sh_request hw d = Inr r \<Longrightarrow> sh_parse hw r = Inr d \<and> sh_verify hw r = Inr True \<and> r \<noteq> [] \<and> length r < 2 ^ 32"
  shows "tee_verify_quote sha utf8 hw a q = Inr ()"
proof -
  have a: "a = \<lparr>ta_mode = md, ta_stub = stub, ta_refuse_stub = refuse, ta_root = root, ta_pin = pin, ta_hbs = hbs\<rparr>"
    "is_tee md"
    using assms(1) by (auto simp: tee_with_policy_def split: if_splits)
  then have hw: "\<not> is_software_measurement md" by (auto simp: is_tee_def is_software_measurement_def)
  have enf: "enforce_measurement a m = Inr ()" using assms(2) by (auto simp: tee_issue_quote_def rbind_Inr_iff)
  show ?thesis
  proof (cases "stub_path_allowed a")
    case True
    then have "q = \<lparr>aq_mode = md, aq_measurement = m, aq_blob = stub_mac sha a m\<rparr>"
      using assms(2) a(1) enf by (simp add: tee_issue_quote_def)
    moreover have "\<not> envelope_looks_like (stub_mac sha a m)"
      unfolding stub_mac_def by (rule sha_blob_no_envelope [OF assms(3)])
    ultimately show ?thesis using True a(1) hw enf by (simp add: tee_verify_quote_def)
  next
    case False
    then have "issue_hw_quote hw a m = Inr q"
      using assms(2) enf by (auto simp: tee_issue_quote_def split: if_splits)
    then obtain report where sev: "md = AttSev" and r: "sev_issue_report hw m = Inr report"
      and q: "q = \<lparr>aq_mode = md, aq_measurement = m,
          aq_blob = envelope_encode \<lparr>he_platform = platform_code md, he_measurement = m, he_report = report\<rparr>\<rparr>"
      using a by (cases md) (auto simp: issue_hw_quote_def rbind_Inr_iff sgx_issue_report_def is_tee_def split: if_splits)
    obtain d where d: "measurement_report_data m = Inr d" "sh_request hw d = Inr report" "sh_compiled hw"
    proof -
      from r obtain d where d: "measurement_report_data m = Inr d" "sh_compiled hw"
        "(case sh_request hw d of Inl e \<Rightarrow> Inl (AttestationRejected (''SEV-SNP request_raw failed: '' @ e))
          | Inr r \<Rightarrow> Inr r) = Inr report"
        by (auto simp: sev_issue_report_def rbind_Inr_iff split: if_splits)
      then have "sh_request hw d = Inr report" by (simp split: sum.splits)
      then show ?thesis using d that by blast
    qed
    have len: "length d = 64" using d(1) by (auto simp: measurement_report_data_def split: option.splits if_splits)
    note law = assms(6) [OF len d(2)]
    have "sev_verify_report hw m report = Inr ()"
      using law d len by (simp add: sev_report_ok)
    moreover have "envelope_decode utf8 (aq_blob q) =
        Inr \<lparr>he_platform = platform_code md, he_measurement = m, he_report = report\<rparr>"
      unfolding q by simp (rule envelope_round_trip; use assms(4,5) law sev in simp)
    ultimately have "verify_hw_quote utf8 hw a q = Inr ()"
      using a(1) sev enf by (simp add: verify_hw_quote_def q)
    then show ?thesis using hw enf a(1) q by (simp add: tee_verify_quote_def encode_looks_like)
  qed
qed

text \<open>A device that answers with the report data itself.\<close>

definition demo_hw :: sev_hw where
  "demo_hw = \<lparr>sh_compiled = True, sh_guest = True, sh_request = Inr, sh_parse = Inr, sh_verify = \<lambda>_. Inr True\<rparr>"

definition demo_pin :: string where "demo_pin = replicate 64 CHR ''a''"

definition demo_report :: string where "demo_report = replicate 32 (chr 170) @ replicate 32 (chr 0)"

definition demo_tee :: tee_adapter where
  "demo_tee = \<lparr>ta_mode = AttSev, ta_stub = False, ta_refuse_stub = True, ta_root = ''root'', ta_pin = demo_pin, ta_hbs = []\<rparr>"

definition demo_quote :: attestation_quote where
  "demo_quote = \<lparr>aq_mode = AttSev, aq_measurement = demo_pin, aq_blob = envelope_encode
     \<lparr>he_platform = platform_sev, he_measurement = demo_pin, he_report = demo_report\<rparr>\<rparr>"

lemma demo_pin_ok: "measurement_from_hex demo_pin = Inr demo_pin"
  by code_simp

lemma demo_data: "measurement_report_data demo_pin = Inr demo_report"
  unfolding demo_report_def by code_simp

lemma demo_report_shape: "length demo_report = 64" "demo_report \<noteq> []"
  by (simp_all add: demo_report_def)

lemma demo_device: "sh_compiled demo_hw" "sh_guest demo_hw" "sh_request demo_hw d = Inr d" "sh_parse demo_hw d = Inr d"
  "sh_verify demo_hw d = Inr True"
  by (simp_all add: demo_hw_def)

lemma demo_tee_ok: "tee_with_policy AttSev False True ''root'' demo_pin [] = Inr demo_tee"
  by (simp add: tee_with_policy_def is_tee_def demo_tee_def)

lemma demo_enforce: "enforce_measurement demo_tee demo_pin = Inr ()"
  by (simp add: enforce_ok demo_tee_def)

lemma demo_issue: "tee_issue_quote zero_sha demo_hw demo_tee demo_pin = Inr demo_quote"
proof -
  have "sev_issue_report demo_hw demo_pin = Inr demo_report"
    by (simp add: sev_issue_report_def demo_data demo_device)
  moreover have "ta_mode demo_tee = AttSev" "\<not> stub_path_allowed demo_tee" "ta_refuse_stub demo_tee"
    by (simp_all add: demo_tee_def stub_path_allowed_def)
  ultimately show ?thesis by (simp add: tee_issue_quote_def demo_enforce issue_hw_quote_def demo_quote_def)
qed

lemma demo_verify: "tee_verify_quote zero_sha (\<lambda>_. True) demo_hw demo_tee demo_quote = Inr ()"
proof -
  let ?e = "\<lparr>he_platform = platform_sev, he_measurement = demo_pin, he_report = demo_report\<rparr>"
  have "envelope_decode (\<lambda>_. True) (envelope_encode ?e) = Inr ?e"
    by (rule envelope_round_trip) (simp_all add: demo_pin_ok demo_report_shape)
  moreover have "sev_verify_report demo_hw demo_pin demo_report = Inr ()"
    by (simp add: sev_report_ok demo_data demo_device demo_report_shape)
  moreover have "ta_mode demo_tee = AttSev" by (simp add: demo_tee_def)
  ultimately show ?thesis
    by (simp add: tee_verify_quote_def verify_hw_quote_def demo_quote_def encode_looks_like demo_enforce
        is_software_measurement_def)
qed

theorem production_quotes_are_hardware_witness:
  "tee_verify_quote zero_sha (\<lambda>_. True) demo_hw demo_tee demo_quote = Inr () \<and> aq_mode demo_quote = AttSev \<and>
   sh_compiled demo_hw \<and> aq_measurement demo_quote = demo_pin"
  using production_quotes_are_hardware [OF demo_tee_ok demo_verify] demo_verify by blast

theorem issued_quotes_verify_witness:
  "tee_issue_quote zero_sha demo_hw demo_tee demo_pin = Inr demo_quote \<and>
   tee_verify_quote zero_sha (\<lambda>_. True) demo_hw demo_tee demo_quote = Inr ()"
proof -
  have "sh_parse demo_hw r = Inr d \<and> sh_verify demo_hw r = Inr True \<and> r \<noteq> [] \<and> length r < 2 ^ 32"
    if "length d = 64" "sh_request demo_hw d = Inr r" for d r
    using that by (auto simp: demo_hw_def)
  then show ?thesis
    using issued_quotes_verify [OF demo_tee_ok demo_issue hex64_zero demo_pin_ok, of "\<lambda>_. True"] demo_issue by simp
qed

end
