(* ===== verification/ReshareWire.thy ===== *)
theory ReshareWire
  imports DkgWire
begin

text \<open>
  Share refresh over the wire (\<open>adapters/reshare_wire.rs\<close>): the hub of reshare sessions, its two message
  rounds, finalization into the share store and the fan-out to peers.  The Taproot FROST crate is the record
  \<open>reshare_crate\<close> of its functions on serialized values; a deserializer gives the canonical bytes, and
  serializers do not fail.  Nothing in the vault starts the hub: its endpoints answer 501.
\<close>

section \<open>Data\<close>

record reshare_crate =
  rc_ident :: "u16 \<Rightarrow> string option"
  rc_part1 :: "string \<Rightarrow> u16 \<Rightarrow> u16 \<Rightarrow> string \<Rightarrow> (string \<times> string) option"
  rc_round1 :: "string \<Rightarrow> string option"
  rc_part2 :: "string \<Rightarrow> string btmap \<Rightarrow> (string \<times> string btmap) option"
  rc_round2 :: "string \<Rightarrow> string option"
  rc_part3 :: "string \<Rightarrow> string btmap \<Rightarrow> string btmap \<Rightarrow> string \<Rightarrow> string \<Rightarrow> (string \<times> string) option"
  rc_key_min :: "string \<Rightarrow> u16"
  rc_vk :: "string \<Rightarrow> string"
  rc_sha384 :: "string \<Rightarrow> string"
  rc_debug :: "string \<Rightarrow> string"
  rc_why :: string

datatype reshare_phase = ReshareRound1 | ReshareRound2 | ReshareComplete

fun reshare_phase_str :: "reshare_phase \<Rightarrow> string" where
  "reshare_phase_str ReshareRound1 = ''round1''"
| "reshare_phase_str ReshareRound2 = ''round2''"
| "reshare_phase_str ReshareComplete = ''complete''"

datatype reshare_auth = ReshareToken string | ReshareMtls

fun reshare_is_mtls :: "reshare_auth \<Rightarrow> bool" where
  "reshare_is_mtls ReshareMtls = True"
| "reshare_is_mtls (ReshareToken _) = False"

record reshare_round1 =
  w1_session :: string
  w1_sender :: string
  w1_sender_id :: u16
  w1_max :: u16
  w1_min :: u16
  w1_day :: string
  w1_transcript :: string
  w1_package :: string
  w1_envelope :: "hybrid_envelope option"

record reshare_round2 =
  w2_session :: string
  w2_sender :: string
  w2_sender_id :: u16
  w2_recipient :: string
  w2_recipient_id :: u16
  w2_transcript :: string
  w2_package :: string
  w2_envelope :: "hybrid_envelope option"

record reshare_start_request =
  wq_session :: string
  wq_max :: u16
  wq_min :: u16
  wq_roster :: "string list"
  wq_day :: string
  wq_constitution :: string

record reshare_status =
  wt_session :: string
  wt_phase :: string
  wt_node :: string
  wt_identifier :: u16
  wt_max :: u16
  wt_min :: u16
  wt_transcript :: string
  wt_round1 :: nat
  wt_round2 :: nat
  wt_complete :: bool
  wt_verifying_key :: "string option"

record reshare_session =
  ws_session :: string
  ws_node :: string
  ws_ident :: string
  ws_max :: u16
  ws_min :: u16
  ws_roster :: "string btmap"
  ws_transcript :: string
  ws_day :: string
  ws_constitution :: string
  ws_phase :: reshare_phase
  ws_r1_secret :: "string option"
  ws_r1 :: "string btmap"
  ws_r2_secret :: "string option"
  ws_inbox :: "string btmap"
  ws_outbound :: "string btmap"
  ws_old_key :: "string option"
  ws_old_pub :: string
  ws_new_key :: "string option"
  ws_new_pub :: "string option"

record reshare_hub =
  wh_node :: string
  wh_peers :: "string btmap"
  wh_auth :: reshare_auth
  wh_http :: peer_http
  wh_sessions :: "reshare_session btmap"
  wh_completed :: "(string \<times> string \<times> u16) option"

definition of_refresh :: "reshare_crate \<Rightarrow> string \<Rightarrow> 'a option \<Rightarrow> 'a res" where
  "of_refresh c what x = (case x of Some v \<Rightarrow> Inr v | None \<Rightarrow> threshold_err (what @ rc_why c))"

definition reshare_ident :: "reshare_crate \<Rightarrow> u16 \<Rightarrow> string res" where
  "reshare_ident c v = of_refresh c (''invalid identifier '' @ dec_u v @ '': '') (rc_ident c v)"

text \<open>The number a message gives for an identifier: the first byte of its serialization.\<close>

definition reshare_ident_u16 :: "string btmap \<Rightarrow> string \<Rightarrow> u16" where
  "reshare_ident_u16 roster x = (if x \<in> set (bt_vals roster) then word_of_nat (code (hd x)) else 0)"

fun number_reshare :: "reshare_crate \<Rightarrow> nat \<Rightarrow> string list \<Rightarrow> string btmap \<Rightarrow> string btmap res" where
  "number_reshare c i [] m = Inr m"
| "number_reshare c i (n # ns) m =
     rbind (reshare_ident c (word_of_nat (i + 1))) (\<lambda>x. number_reshare c (i + 1) ns (bt_put n x m))"

definition build_reshare_roster :: "reshare_crate \<Rightarrow> string list \<Rightarrow> string btmap res" where
  "build_reshare_roster c roster = number_reshare c 0 (sort roster) []"

definition be16 :: "u16 \<Rightarrow> string" where
  "be16 v = [chr (unat v div 256), chr (unat v mod 256)]"

definition reshare_text :: "string \<Rightarrow> string \<Rightarrow> u16 \<Rightarrow> u16 \<Rightarrow> string btmap \<Rightarrow> string \<Rightarrow> string" where
  "reshare_text session day mx mn roster constitution =
     session @ day @ be16 mx @ be16 mn @ concat (bt_keys roster) @ constitution"

definition reshare_transcript ::
  "reshare_crate \<Rightarrow> string \<Rightarrow> string \<Rightarrow> u16 \<Rightarrow> u16 \<Rightarrow> string btmap \<Rightarrow> string \<Rightarrow> string" where
  "reshare_transcript c session day mx mn roster constitution =
     hex_encode (rc_sha384 c (reshare_text session day mx mn roster constitution))"

definition assert_vk_preserved :: "reshare_crate \<Rightarrow> string \<Rightarrow> string \<Rightarrow> string \<Rightarrow> unit res" where
  "assert_vk_preserved c old_pk new_pk suite =
     (if rc_vk c old_pk \<noteq> rc_vk c new_pk
      then threshold_err (suite @ '' reshare changed group verifying key (deposit address would change)'')
      else Inr ())"

definition reshare_status_of :: "reshare_crate \<Rightarrow> reshare_session \<Rightarrow> reshare_status" where
  "reshare_status_of c x =
     \<lparr>wt_session = ws_session x, wt_phase = reshare_phase_str (ws_phase x), wt_node = ws_node x,
      wt_identifier = reshare_ident_u16 (ws_roster x) (ws_ident x), wt_max = ws_max x, wt_min = ws_min x,
      wt_transcript = ws_transcript x, wt_round1 = length (ws_r1 x), wt_round2 = length (ws_inbox x),
      wt_complete = (ws_phase x = ReshareComplete),
      wt_verifying_key = map_option (\<lambda>p. hex_encode (rc_vk c p)) (ws_new_pub x)\<rparr>"

section \<open>The hub\<close>

definition reshare_hub_with :: "string \<Rightarrow> string btmap \<Rightarrow> reshare_auth \<Rightarrow> peer_http \<Rightarrow> reshare_hub" where
  "reshare_hub_with node peers auth http =
     \<lparr>wh_node = node, wh_peers = peers, wh_auth = auth, wh_http = http, wh_sessions = [], wh_completed = None\<rparr>"

definition reshare_hub_new :: "string \<Rightarrow> string btmap \<Rightarrow> reshare_auth \<Rightarrow> reshare_hub" where
  "reshare_hub_new node peers auth = reshare_hub_with node peers auth clearnet_defaults"

definition unknown_reshare :: "string \<Rightarrow> 'a res" where
  "unknown_reshare i = threshold_err (''unknown reshare session: '' @ i)"

definition put_reshare :: "string \<Rightarrow> reshare_session \<Rightarrow> reshare_hub \<Rightarrow> reshare_hub" where
  "put_reshare i x h = h\<lparr>wh_sessions := bt_put i x (wh_sessions h)\<rparr>"

definition reshare_hub_status :: "reshare_crate \<Rightarrow> string \<Rightarrow> reshare_hub \<Rightarrow> reshare_status res" where
  "reshare_hub_status c i h =
     (case bt_get i (wh_sessions h) of
        None \<Rightarrow> unknown_reshare i
      | Some x \<Rightarrow> Inr (reshare_status_of c x))"

definition reshare_own_round1 :: "reshare_session \<Rightarrow> string \<Rightarrow> string \<Rightarrow> reshare_round1" where
  "reshare_own_round1 x day package =
     \<lparr>w1_session = ws_session x, w1_sender = ws_node x, w1_sender_id = reshare_ident_u16 (ws_roster x) (ws_ident x),
      w1_max = ws_max x, w1_min = ws_min x, w1_day = day, w1_transcript = ws_transcript x,
      w1_package = hex_encode package, w1_envelope = None\<rparr>"

definition fresh_reshare ::
  "reshare_hub \<Rightarrow> reshare_start_request \<Rightarrow> string \<Rightarrow> string option \<Rightarrow> string \<Rightarrow> string btmap \<Rightarrow> string \<Rightarrow> string
     \<Rightarrow> string \<times> string \<Rightarrow> reshare_session" where
  "fresh_reshare h q old_pub old_key day roster transcript ident p =
     \<lparr>ws_session = wq_session q, ws_node = wh_node h, ws_ident = ident, ws_max = wq_max q, ws_min = wq_min q,
      ws_roster = roster, ws_transcript = transcript, ws_day = day, ws_constitution = wq_constitution q,
      ws_phase = ReshareRound1, ws_r1_secret = Some (fst p), ws_r1 = [(ident, snd p)], ws_r2_secret = None,
      ws_inbox = [], ws_outbound = [], ws_old_key = old_key, ws_old_pub = old_pub, ws_new_key = None,
      ws_new_pub = None\<rparr>"

text \<open>\<open>seed\<close> is the randomness \<open>refresh_dkg_part1\<close> draws.\<close>

definition reshare_start ::
  "reshare_crate \<Rightarrow> string \<Rightarrow> reshare_start_request \<Rightarrow> string \<Rightarrow> string option \<Rightarrow> reshare_hub
     \<Rightarrow> (reshare_status \<times> reshare_round1) res \<times> reshare_hub" where
  "reshare_start c seed q old_pub old_key h =
     (case day_epoch_parse (wq_day q) of
        Inl e \<Rightarrow> (threshold_err (''invalid day_epoch: '' @ display e), h)
      | Inr day \<Rightarrow>
     (case build_reshare_roster c (wq_roster q) of
        Inl e \<Rightarrow> (Inl e, h)
      | Inr roster \<Rightarrow>
          if word_of_nat (length roster) \<noteq> wq_max q
          then (threshold_err (''roster len '' @ dec (length roster) @ '' != max_signers '' @ dec_u (wq_max q)), h)
          else let transcript = reshare_transcript c (wq_session q) day (wq_max q) (wq_min q) roster (wq_constitution q) in
            case bt_get (wq_session q) (wh_sessions h) of
              Some x \<Rightarrow>
                if ws_transcript x \<noteq> transcript \<or> ws_max x \<noteq> wq_max q \<or> ws_min x \<noteq> wq_min q \<or> ws_roster x \<noteq> roster
                then (threshold_err ''reshare participants/threshold frozen at round1; constitution drift rejected'', h)
                else (case bt_get (ws_ident x) (ws_r1 x) of
                        None \<Rightarrow> (threshold_err ''missing local reshare round1 package'', h)
                      | Some p \<Rightarrow> (Inr (reshare_status_of c x, reshare_own_round1 x (ws_day x) p), h))
            | None \<Rightarrow>
                (case bt_get (wh_node h) roster of
                   None \<Rightarrow> (threshold_err (''local node '' @ wh_node h @ '' missing from reshare roster''), h)
                 | Some ident \<Rightarrow>
                     (case of_refresh c ''frost refresh part1: '' (rc_part1 c ident (wq_max q) (wq_min q) seed) of
                        Inl e \<Rightarrow> (Inl e, h)
                      | Inr p \<Rightarrow>
                          let x = fresh_reshare h q old_pub old_key day roster transcript ident p in
                          (Inr (reshare_status_of c x, reshare_own_round1 x (wq_day q) (snd p)),
                           put_reshare (wq_session q) x h)))))"

text \<open>The secret is taken before part two runs; a failure leaves the session without it.\<close>

definition reshare_advance :: "reshare_crate \<Rightarrow> reshare_session \<Rightarrow> unit res \<times> reshare_session" where
  "reshare_advance c x =
     (case ws_r1_secret x of
        None \<Rightarrow> (threshold_err ''missing reshare round1 secret'', x)
      | Some secret \<Rightarrow>
          let x1 = x\<lparr>ws_r1_secret := None\<rparr> in
          case of_refresh c ''frost refresh part2: '' (rc_part2 c secret (bt_remove (ws_ident x) (ws_r1 x))) of
            Inl e \<Rightarrow> (Inl e, x1)
          | Inr (r2, out) \<Rightarrow>
              (Inr (), x1\<lparr>ws_r2_secret := Some r2, ws_outbound := out, ws_phase := ReshareRound2\<rparr>))"

definition reshare_envelope :: "string \<Rightarrow> hybrid_envelope option \<Rightarrow> unit res" where
  "reshare_envelope rnd e =
     (case e of
        None \<Rightarrow> Inr ()
      | Some v \<Rightarrow>
          (case validate_header v of
             Inl er \<Rightarrow> threshold_err (''reshare '' @ rnd @ '' envelope: '' @ display er)
           | Inr _ \<Rightarrow> Inr ()))"

definition reshare_package :: "reshare_crate \<Rightarrow> string \<Rightarrow> (string \<Rightarrow> string option) \<Rightarrow> string \<Rightarrow> string res" where
  "reshare_package c rnd des hx =
     rbind (of_refresh c (''reshare '' @ rnd @ '' hex: '') (hex_decode hx)) (\<lambda>b.
       of_refresh c (''reshare '' @ rnd @ '' deserialize: '') (des b))"

text \<open>The sender a message names, if its number is the one the roster gives it.\<close>

definition reshare_sender :: "reshare_crate \<Rightarrow> string \<Rightarrow> string \<Rightarrow> u16 \<Rightarrow> reshare_session \<Rightarrow> string res" where
  "reshare_sender c what node number x =
     rbind (reshare_ident c number) (\<lambda>sender.
     case bt_get node (ws_roster x) of
       None \<Rightarrow> threshold_err (''reshare late join rejected: unknown '' @ what @ ''sender '' @ node)
     | Some expected \<Rightarrow>
         if expected \<noteq> sender then threshold_err (''reshare sender '' @ node @ '' identifier mismatch'')
         else Inr sender)"

definition reshare_accept1 :: "reshare_crate \<Rightarrow> reshare_round1 \<Rightarrow> reshare_session \<Rightarrow> reshare_status res \<times> reshare_session" where
  "reshare_accept1 c m x =
     (if ws_phase x = ReshareComplete then (Inr (reshare_status_of c x), x)
      else if w1_max m \<noteq> ws_max x \<or> w1_min m \<noteq> ws_min x
      then (threshold_err ''reshare round1 threshold drift rejected'', x)
      else if w1_transcript m \<noteq> ws_transcript x
      then (threshold_err ''reshare round1 transcript binding mismatch'', x)
      else case reshare_sender c [] (w1_sender m) (w1_sender_id m) x of
        Inl e \<Rightarrow> (Inl e, x)
      | Inr sender \<Rightarrow>
          (case reshare_package c ''r1'' (rc_round1 c) (w1_package m) of
             Inl e \<Rightarrow> (Inl e, x)
           | Inr package \<Rightarrow>
               let x1 = x\<lparr>ws_r1 := bt_put sender package (ws_r1 x)\<rparr> in
               if word_of_nat (length (ws_r1 x1)) = ws_max x1 \<and> ws_r1_secret x1 \<noteq> None \<and> ws_phase x1 = ReshareRound1
               then case reshare_advance c x1 of
                      (Inl e, x2) \<Rightarrow> (Inl e, x2)
                    | (Inr _, x2) \<Rightarrow> (Inr (reshare_status_of c x2), x2)
               else (Inr (reshare_status_of c x1), x1)))"

definition reshare_ingest1 :: "reshare_crate \<Rightarrow> reshare_round1 \<Rightarrow> reshare_hub \<Rightarrow> reshare_status res \<times> reshare_hub" where
  "reshare_ingest1 c m h =
     (case reshare_envelope ''r1'' (w1_envelope m) of
        Inl e \<Rightarrow> (Inl e, h)
      | Inr _ \<Rightarrow>
          (case bt_get (w1_session m) (wh_sessions h) of
             None \<Rightarrow> (threshold_err (''unknown reshare session '' @ w1_session m @ '' (start locally first)''), h)
           | Some x \<Rightarrow> (case reshare_accept1 c m x of (r, x1) \<Rightarrow> (r, put_reshare (w1_session m) x1 h))))"

fun name_of_reshare :: "string btmap \<Rightarrow> string \<Rightarrow> string option" where
  "name_of_reshare [] x = None"
| "name_of_reshare ((n, j) # m) x = (if j = x then Some n else name_of_reshare m x)"

definition reshare_round2_to :: "reshare_crate \<Rightarrow> reshare_session \<Rightarrow> string \<Rightarrow> string \<times> string \<Rightarrow> reshare_round2 res" where
  "reshare_round2_to c x i p =
     (case name_of_reshare (ws_roster x) (fst p) of
        None \<Rightarrow> threshold_err (''unknown reshare recipient id '' @ rc_debug c (fst p))
      | Some node \<Rightarrow>
          Inr \<lparr>w2_session = i, w2_sender = ws_node x,
            w2_sender_id = reshare_ident_u16 (ws_roster x) (ws_ident x), w2_recipient = node,
            w2_recipient_id = reshare_ident_u16 (ws_roster x) (fst p), w2_transcript = ws_transcript x,
            w2_package = hex_encode (snd p), w2_envelope = None\<rparr>)"

definition reshare_take2 :: "reshare_crate \<Rightarrow> string \<Rightarrow> reshare_hub \<Rightarrow> reshare_round2 list res \<times> reshare_hub" where
  "reshare_take2 c i h =
     (case bt_get i (wh_sessions h) of
        None \<Rightarrow> (unknown_reshare i, h)
      | Some x \<Rightarrow> (rmapM (reshare_round2_to c x i) (ws_outbound x), put_reshare i (x\<lparr>ws_outbound := []\<rparr>) h))"

definition reshare_accept2 :: "reshare_crate \<Rightarrow> reshare_round2 \<Rightarrow> reshare_session \<Rightarrow> reshare_status res \<times> reshare_session" where
  "reshare_accept2 c m x =
     (if ws_phase x = ReshareComplete then (Inr (reshare_status_of c x), x)
      else if w2_transcript m \<noteq> ws_transcript x
      then (threshold_err ''reshare round2 transcript binding mismatch'', x)
      else if w2_recipient m \<noteq> ws_node x
      then (threshold_err ''reshare round2 package not addressed to this vault'', x)
      else case reshare_sender c ''round2 '' (w2_sender m) (w2_sender_id m) x of
        Inl e \<Rightarrow> (Inl e, x)
      | Inr sender \<Rightarrow>
          (case reshare_package c ''r2'' (rc_round2 c) (w2_package m) of
             Inl e \<Rightarrow> (Inl e, x)
           | Inr package \<Rightarrow>
               let x1 = x\<lparr>ws_inbox := bt_put sender package (ws_inbox x)\<rparr> in
               (Inr (reshare_status_of c x1), x1)))"

definition reshare_ingest2 :: "reshare_crate \<Rightarrow> reshare_round2 \<Rightarrow> reshare_hub \<Rightarrow> reshare_status res \<times> reshare_hub" where
  "reshare_ingest2 c m h =
     (case reshare_envelope ''r2'' (w2_envelope m) of
        Inl e \<Rightarrow> (Inl e, h)
      | Inr _ \<Rightarrow>
          (case bt_get (w2_session m) (wh_sessions h) of
             None \<Rightarrow> (unknown_reshare (w2_session m), h)
           | Some x \<Rightarrow> (case reshare_accept2 c m x of (r, x1) \<Rightarrow> (r, put_reshare (w2_session m) x1 h))))"

text \<open>The new key material of a session whose inbox is full, with the checks on it.\<close>

definition reshare_keys :: "reshare_crate \<Rightarrow> reshare_session \<Rightarrow> (string \<times> string) res" where
  "reshare_keys c x =
     (let need = unat (ws_max x) - 1 in
      if length (ws_inbox x) < need
      then threshold_err (''reshare round2 incomplete: have '' @ dec (length (ws_inbox x)) @ '' need '' @ dec need)
      else case ws_r2_secret x of
        None \<Rightarrow> threshold_err ''missing reshare round2 secret''
      | Some r2 \<Rightarrow>
          (case ws_old_key x of
             None \<Rightarrow> threshold_err ''missing old key package for reshare finalize''
           | Some old \<Rightarrow>
               rbind (of_refresh c ''frost refresh part3: ''
                   (rc_part3 c r2 (bt_remove (ws_ident x) (ws_r1 x)) (ws_inbox x) (ws_old_pub x) old)) (\<lambda>(kp, pk).
               if rc_key_min c kp \<noteq> ws_min x
               then threshold_err (''reshare threshold drift: got '' @ dec_u (rc_key_min c kp) @ '' want '' @ dec_u (ws_min x))
               else rbind (assert_vk_preserved c (ws_old_pub x) pk ''tr'') (\<lambda>_. Inr (kp, pk)))))"

definition reshare_files :: "reshare_session \<Rightarrow> string \<times> string \<Rightarrow> (string \<times> string) list" where
  "reshare_files x k =
     [(''frost-tr-reshare-id-'' @ hex_encode (ws_ident x), fst k), (''frost-tr-reshare-pubkey'', snd k)]"

definition reshare_finalize ::
  "reshare_crate \<Rightarrow> 's share_port \<Rightarrow> string \<Rightarrow> reshare_hub \<Rightarrow> 's \<Rightarrow> reshare_status res \<times> reshare_hub \<times> 's" where
  "reshare_finalize c port i h st =
     (case bt_get i (wh_sessions h) of
        None \<Rightarrow> (unknown_reshare i, h, st)
      | Some x \<Rightarrow>
          if ws_phase x = ReshareComplete then (Inr (reshare_status_of c x), h, st)
          else case reshare_keys c x of
            Inl e \<Rightarrow> (Inl e, h, st)
          | Inr k \<Rightarrow>
              (case put_all port 0 (reshare_files x k) st of
                 (Inl e, st1) \<Rightarrow> (Inl e, h, st1)
               | (Inr _, st1) \<Rightarrow>
                   let x1 = x\<lparr>ws_new_key := Some (fst k), ws_new_pub := Some (snd k), ws_phase := ReshareComplete,
                              ws_r2_secret := None\<rparr> in
                   (Inr (reshare_status_of c x1),
                    (put_reshare i x1 h)\<lparr>wh_completed := Some (fst k, snd k, ws_min x)\<rparr>, st1)))"

section \<open>Fan-out\<close>

text \<open>The time-out of the client, in milliseconds: three times the delay before a first retry.\<close>

definition reshare_client_timeout :: "peer_http \<Rightarrow> u64 \<Rightarrow> u64" where
  "reshare_client_timeout p jitter = sat_mul (backoff_delay p jitter 0) 3"

definition reshare_url :: "reshare_hub \<Rightarrow> string \<Rightarrow> string \<Rightarrow> string" where
  "reshare_url h addr rnd =
     (if reshare_is_mtls (wh_auth h) then ''https://'' else ''http://'') @ addr @ ''/v1/reshare/tr/'' @ rnd"

definition reshare_header :: "reshare_auth \<Rightarrow> (string \<times> string) list" where
  "reshare_header a = (case a of ReshareToken t \<Rightarrow> [(''X-Vault-Token'', t)] | ReshareMtls \<Rightarrow> [])"

fun reshare_fanout1 :: "reshare_hub \<Rightarrow> (string \<Rightarrow> nat \<Rightarrow> http_answer) \<Rightarrow> string btmap \<Rightarrow> unit res" where
  "reshare_fanout1 h net [] = Inr ()"
| "reshare_fanout1 h net ((peer, addr) # ps) =
     (if peer = wh_node h then reshare_fanout1 h net ps
      else case post_json_with_retry (wh_http h) (net addr) (reshare_url h addr ''round1'') of
        Inl e \<Rightarrow> threshold_err (''reshare r1 fanout to '' @ peer @ '': '' @ display e)
      | Inr _ \<Rightarrow> reshare_fanout1 h net ps)"

fun reshare_fanout2 :: "reshare_hub \<Rightarrow> (string \<Rightarrow> nat \<Rightarrow> http_answer) \<Rightarrow> reshare_round2 list \<Rightarrow> unit res" where
  "reshare_fanout2 h net [] = Inr ()"
| "reshare_fanout2 h net (m # ms) =
     (case bt_get (w2_recipient m) (wh_peers h) of
        None \<Rightarrow> threshold_err (''unknown reshare peer: '' @ w2_recipient m)
      | Some addr \<Rightarrow>
          (case post_json_with_retry (wh_http h) (net addr) (reshare_url h addr ''round2'') of
             Inl e \<Rightarrow> threshold_err (''reshare r2 fanout to '' @ w2_recipient m @ '': '' @ display e)
           | Inr _ \<Rightarrow> reshare_fanout2 h net ms))"

section \<open>Runs\<close>

datatype reshare_op =
    ReStart string reshare_start_request string "string option"
  | ReRound1 reshare_round1
  | ReTake string
  | ReRound2 reshare_round2
  | ReFinalize string

fun reshare_step :: "reshare_crate \<Rightarrow> 's share_port \<Rightarrow> reshare_op \<Rightarrow> reshare_hub \<times> 's \<Rightarrow> bool \<times> reshare_hub \<times> 's" where
  "reshare_step c port (ReStart seed q opub okey) (h, st) =
     (case reshare_start c seed q opub okey h of (r, h1) \<Rightarrow> (is_ok r, h1, st))"
| "reshare_step c port (ReRound1 m) (h, st) = (case reshare_ingest1 c m h of (r, h1) \<Rightarrow> (is_ok r, h1, st))"
| "reshare_step c port (ReTake i) (h, st) = (case reshare_take2 c i h of (r, h1) \<Rightarrow> (is_ok r, h1, st))"
| "reshare_step c port (ReRound2 m) (h, st) = (case reshare_ingest2 c m h of (r, h1) \<Rightarrow> (is_ok r, h1, st))"
| "reshare_step c port (ReFinalize i) (h, st) =
     (case reshare_finalize c port i h st of (r, h1, st1) \<Rightarrow> (is_ok r, h1, st1))"

section \<open>Sessions\<close>

definition reshared :: "reshare_crate \<Rightarrow> reshare_session \<Rightarrow> string \<Rightarrow> string \<Rightarrow> bool" where
  "reshared c x kp pk \<longleftrightarrow>
     ws_new_key x = Some kp \<and> ws_new_pub x = Some pk \<and> rc_vk c pk = rc_vk c (ws_old_pub x) \<and>
     rc_key_min c kp = ws_min x \<and> unat (ws_max x) - 1 \<le> length (ws_inbox x) \<and>
     (\<exists>r2 old. ws_old_key x = Some old \<and>
        rc_part3 c r2 (bt_remove (ws_ident x) (ws_r1 x)) (ws_inbox x) (ws_old_pub x) old = Some (kp, pk))"

definition reshare_ok :: "reshare_crate \<Rightarrow> string \<Rightarrow> reshare_session \<Rightarrow> bool" where
  "reshare_ok c node x \<longleftrightarrow>
     ws_node x = node \<and> (\<exists>names. build_reshare_roster c names = Inr (ws_roster x)) \<and>
     word_of_nat (length (ws_roster x)) = ws_max x \<and>
     ws_transcript x = reshare_transcript c (ws_session x) (ws_day x) (ws_max x) (ws_min x) (ws_roster x) (ws_constitution x) \<and>
     bt_get node (ws_roster x) = Some (ws_ident x) \<and>
     bt_get (ws_ident x) (ws_r1 x) \<noteq> None \<and>
     set (bt_keys (ws_r1 x)) \<subseteq> set (bt_vals (ws_roster x)) \<and>
     set (bt_keys (ws_inbox x)) \<subseteq> set (bt_vals (ws_roster x)) \<and>
     (case ws_phase x of
        ReshareRound1 \<Rightarrow> ws_r2_secret x = None \<and> ws_outbound x = [] \<and> ws_new_key x = None \<and> ws_new_pub x = None
      | ReshareRound2 \<Rightarrow> ws_r1_secret x = None \<and> ws_r2_secret x \<noteq> None \<and> ws_new_key x = None \<and> ws_new_pub x = None
      | ReshareComplete \<Rightarrow> ws_r1_secret x = None \<and> ws_r2_secret x = None \<and> (\<exists>kp pk. reshared c x kp pk))"

definition reshare_hub_ok :: "reshare_crate \<Rightarrow> reshare_hub \<Rightarrow> bool" where
  "reshare_hub_ok c h \<longleftrightarrow>
     (\<forall>i x. bt_get i (wh_sessions h) = Some x \<longrightarrow> ws_session x = i \<and> reshare_ok c (wh_node h) x) \<and>
     (\<forall>k p m. wh_completed h = Some (k, p, m) \<longrightarrow>
        (\<exists>i x. bt_get i (wh_sessions h) = Some x \<and> ws_phase x = ReshareComplete \<and>
           ws_new_key x = Some k \<and> ws_new_pub x = Some p \<and> ws_min x = m))"

lemma put_reshare_fields [simp]:
  "wh_node (put_reshare i x h) = wh_node h" "wh_completed (put_reshare i x h) = wh_completed h"
  "bt_get j (wh_sessions (put_reshare i x h)) = (if j = i then Some x else bt_get j (wh_sessions h))"
  by (simp_all add: put_reshare_def bt_get_put)

lemma of_refresh_Inr [simp]: "of_refresh c w x = Inr v \<longleftrightarrow> x = Some v"
  by (simp add: of_refresh_def threshold_err_def split: option.splits)

lemma of_refresh_Some [simp]: "of_refresh c w (Some v) = Inr v"
  by simp

lemma reshare_sender_Inr:
  "reshare_sender c w node n x = Inr sender \<longleftrightarrow> rc_ident c n = Some sender \<and> bt_get node (ws_roster x) = Some sender"
  by (auto simp: reshare_sender_def reshare_ident_def rbind_Inr_iff threshold_err_def split: option.splits if_splits)

lemma bt_get_in_vals: "bt_get k m = Some v \<Longrightarrow> v \<in> set (bt_vals m)"
  using bt_get_vals by (fastforce simp: bt_vals_def)

text \<open>A session written back keeps the hub's invariant, if it keeps its own and stays complete.\<close>

lemma put_reshare_ok:
  assumes h: "reshare_hub_ok c h" and x: "bt_get i (wh_sessions h) = Some x" and y: "reshare_ok c (wh_node h) y" "ws_session y = i"
    and k: "ws_phase x = ReshareComplete \<Longrightarrow>
      ws_phase y = ReshareComplete \<and> ws_new_key y = ws_new_key x \<and> ws_new_pub y = ws_new_pub x \<and> ws_min y = ws_min x"
  shows "reshare_hub_ok c (put_reshare i y h)"
proof -
  have "\<exists>j z. bt_get j (wh_sessions (put_reshare i y h)) = Some z \<and> ws_phase z = ReshareComplete \<and>
      ws_new_key z = Some a \<and> ws_new_pub z = Some p \<and> ws_min z = m" if d: "wh_completed h = Some (a, p, m)" for a p m
  proof -
    from h d obtain j z where z: "bt_get j (wh_sessions h) = Some z" "ws_phase z = ReshareComplete"
      "ws_new_key z = Some a" "ws_new_pub z = Some p" "ws_min z = m" by (auto simp: reshare_hub_ok_def)
    show ?thesis
    proof (cases "j = i")
      case True
      then have "z = x" using z x by simp
      then show ?thesis using True z k by (intro exI [of _ i] exI [of _ y]) simp
    next
      case False
      then show ?thesis using z by (intro exI [of _ j] exI [of _ z]) simp
    qed
  qed
  then show ?thesis using h y by (auto simp: reshare_hub_ok_def)
qed

lemma reshare_advance_ok:
  assumes "reshare_ok c node x" "ws_phase x = ReshareRound1" "reshare_advance c x = (r, y)"
  shows "reshare_ok c node y \<and> ws_session y = ws_session x"
  using assms by (auto simp: reshare_advance_def reshare_ok_def Let_def split: option.splits sum.splits)

lemma reshare_put1_ok:
  assumes "reshare_ok c node x" "ws_phase x \<noteq> ReshareComplete" "bt_get n (ws_roster x) = Some sender"
  shows "reshare_ok c node (x\<lparr>ws_r1 := bt_put sender p (ws_r1 x)\<rparr>)"
  using assms bt_get_in_vals [OF assms(3)]
  by (cases "ws_phase x") (auto simp: reshare_ok_def bt_get_put bt_keys_put)

lemma reshare_put2_ok:
  assumes "reshare_ok c node x" "ws_phase x \<noteq> ReshareComplete" "bt_get n (ws_roster x) = Some sender"
  shows "reshare_ok c node (x\<lparr>ws_inbox := bt_put sender p (ws_inbox x)\<rparr>)"
  using assms bt_get_in_vals [OF assms(3)]
  by (cases "ws_phase x") (auto simp: reshare_ok_def bt_get_put bt_keys_put)

text \<open>What a round-one message does to a session.\<close>

lemma reshare_accept1_cases:
  assumes "reshare_accept1 c m x = (r, y)"
  shows "y = x \<or> ws_phase x \<noteq> ReshareComplete \<and> (\<exists>sender p. rc_ident c (w1_sender_id m) = Some sender \<and>
    bt_get (w1_sender m) (ws_roster x) = Some sender \<and>
    (let x1 = x\<lparr>ws_r1 := bt_put sender p (ws_r1 x)\<rparr> in
     y = x1 \<or> ws_phase x = ReshareRound1 \<and> (\<exists>r1. reshare_advance c x1 = (r1, y))))"
  using assms
  by (auto simp: reshare_accept1_def Let_def reshare_sender_Inr split: if_splits sum.splits prod.splits)

lemma reshare_accept1_ok:
  assumes "reshare_ok c node x" "reshare_accept1 c m x = (r, y)"
  shows "reshare_ok c node y \<and> ws_session y = ws_session x \<and> (ws_phase x = ReshareComplete \<longrightarrow> y = x)"
  using reshare_accept1_cases [OF assms(2)]
proof
  assume "ws_phase x \<noteq> ReshareComplete \<and> (\<exists>sender p. rc_ident c (w1_sender_id m) = Some sender \<and>
    bt_get (w1_sender m) (ws_roster x) = Some sender \<and>
    (let x1 = x\<lparr>ws_r1 := bt_put sender p (ws_r1 x)\<rparr> in
     y = x1 \<or> ws_phase x = ReshareRound1 \<and> (\<exists>r1. reshare_advance c x1 = (r1, y))))"
  then obtain sender p where s: "ws_phase x \<noteq> ReshareComplete" "bt_get (w1_sender m) (ws_roster x) = Some sender"
    and y: "y = x\<lparr>ws_r1 := bt_put sender p (ws_r1 x)\<rparr> \<or>
      ws_phase x = ReshareRound1 \<and> (\<exists>r1. reshare_advance c (x\<lparr>ws_r1 := bt_put sender p (ws_r1 x)\<rparr>) = (r1, y))"
    unfolding Let_def by blast
  have "reshare_ok c node (x\<lparr>ws_r1 := bt_put sender p (ws_r1 x)\<rparr>)" by (rule reshare_put1_ok [OF assms(1) s])
  note one = this
  from y show ?thesis
  proof
    assume "y = x\<lparr>ws_r1 := bt_put sender p (ws_r1 x)\<rparr>"
    then show ?thesis using one s(1) by simp
  next
    assume "ws_phase x = ReshareRound1 \<and> (\<exists>r1. reshare_advance c (x\<lparr>ws_r1 := bt_put sender p (ws_r1 x)\<rparr>) = (r1, y))"
    then obtain r1 where "ws_phase x = ReshareRound1" "reshare_advance c (x\<lparr>ws_r1 := bt_put sender p (ws_r1 x)\<rparr>) = (r1, y)"
      by blast
    then show ?thesis using reshare_advance_ok [OF one] s(1) by simp
  qed
qed (use assms(1) in simp)

lemma reshare_accept2_cases:
  assumes "reshare_accept2 c m x = (r, y)"
  shows "y = x \<or> ws_phase x \<noteq> ReshareComplete \<and> (\<exists>sender p. rc_ident c (w2_sender_id m) = Some sender \<and>
    bt_get (w2_sender m) (ws_roster x) = Some sender \<and> y = x\<lparr>ws_inbox := bt_put sender p (ws_inbox x)\<rparr>)"
  using assms by (auto simp: reshare_accept2_def Let_def reshare_sender_Inr split: if_splits sum.splits)

lemma reshare_accept2_ok:
  assumes "reshare_ok c node x" "reshare_accept2 c m x = (r, y)"
  shows "reshare_ok c node y \<and> ws_session y = ws_session x \<and> (ws_phase x = ReshareComplete \<longrightarrow> y = x)"
  using reshare_accept2_cases [OF assms(2)]
proof
  assume "ws_phase x \<noteq> ReshareComplete \<and> (\<exists>sender p. rc_ident c (w2_sender_id m) = Some sender \<and>
    bt_get (w2_sender m) (ws_roster x) = Some sender \<and> y = x\<lparr>ws_inbox := bt_put sender p (ws_inbox x)\<rparr>)"
  then obtain sender p where s: "ws_phase x \<noteq> ReshareComplete" "bt_get (w2_sender m) (ws_roster x) = Some sender"
    and y: "y = x\<lparr>ws_inbox := bt_put sender p (ws_inbox x)\<rparr>" by blast
  show ?thesis unfolding y using reshare_put2_ok [OF assms(1) s] s(1) by simp
qed (use assms(1) in simp)

lemma fresh_reshare_ok:
  assumes "build_reshare_roster c names = Inr roster" "word_of_nat (length roster) = wq_max q"
    "bt_get (wh_node h) roster = Some ident"
  shows "reshare_ok c (wh_node h) (fresh_reshare h q opub okey day roster
    (reshare_transcript c (wq_session q) day (wq_max q) (wq_min q) roster (wq_constitution q)) ident p)"
  using assms bt_get_in_vals [OF assms(3)] by (auto simp: reshare_ok_def fresh_reshare_def)

lemma reshare_start_cases:
  assumes "reshare_start c seed q opub okey h = (r, h1)"
  shows "h1 = h \<and> (\<forall>s m. r = Inr (s, m) \<longrightarrow>
      (\<exists>x p. bt_get (wq_session q) (wh_sessions h) = Some x \<and> m = reshare_own_round1 x (ws_day x) p)) \<or>
    bt_get (wq_session q) (wh_sessions h) = None \<and>
    (\<exists>roster ident p day. build_reshare_roster c (wq_roster q) = Inr roster \<and> word_of_nat (length roster) = wq_max q \<and>
       bt_get (wh_node h) roster = Some ident \<and> day_epoch_parse (wq_day q) = Inr day \<and>
       (let x = fresh_reshare h q opub okey day roster
          (reshare_transcript c (wq_session q) day (wq_max q) (wq_min q) roster (wq_constitution q)) ident p in
        h1 = put_reshare (wq_session q) x h \<and>
        r = Inr (reshare_status_of c x, reshare_own_round1 x (wq_day q) (snd p))))"
proof (cases "\<exists>v. r = Inr v \<and> bt_get (wq_session q) (wh_sessions h) = None")
  case True
  then have new: "bt_get (wq_session q) (wh_sessions h) = None" and okr: "\<forall>e. r \<noteq> Inl e" by auto
  obtain day where day: "day_epoch_parse (wq_day q) = Inr day"
    using assms okr by (cases "day_epoch_parse (wq_day q)") (auto simp: reshare_start_def threshold_err_def)
  obtain roster where roster: "build_reshare_roster c (wq_roster q) = Inr roster"
    using assms okr day by (cases "build_reshare_roster c (wq_roster q)") (auto simp: reshare_start_def threshold_err_def)
  have len: "word_of_nat (length roster) = wq_max q"
    using assms okr day roster by (auto simp: reshare_start_def threshold_err_def split: if_splits)
  let ?t = "reshare_transcript c (wq_session q) day (wq_max q) (wq_min q) roster (wq_constitution q)"
  obtain ident where ident: "bt_get (wh_node h) roster = Some ident"
    using assms okr day roster len new by (auto simp: reshare_start_def threshold_err_def split: option.splits)
  obtain p where p: "rc_part1 c ident (wq_max q) (wq_min q) seed = Some p"
    using assms okr day roster len new ident by (auto simp: reshare_start_def threshold_err_def split: option.splits sum.splits simp flip: not_None_eq)
  let ?x = "fresh_reshare h q opub okey day roster ?t ident p"
  have "r = Inr (reshare_status_of c ?x, reshare_own_round1 ?x (wq_day q) (snd p))"
    "h1 = put_reshare (wq_session q) ?x h"
    using assms by (auto simp: reshare_start_def Let_def day roster len new ident p)
  then show ?thesis using day roster len new ident unfolding Let_def by blast
next
  case False
  show ?thesis
  proof (cases "bt_get (wq_session q) (wh_sessions h)")
    case None
    then obtain e where "r = Inl e" using False by (cases r) auto
    then have "h1 = h"
      using assms None by (auto simp: reshare_start_def Let_def split: sum.splits if_splits option.splits)
    then show ?thesis using \<open>r = Inl e\<close> by simp
  next
    case (Some x)
    then show ?thesis
      using assms by (auto simp: reshare_start_def Let_def threshold_err_def split: sum.splits if_splits option.splits)
  qed
qed

lemma reshare_start_ok:
  assumes h: "reshare_hub_ok c h" and "reshare_start c seed q opub okey h = (r, h1)"
  shows "reshare_hub_ok c h1 \<and> wh_node h1 = wh_node h"
  using reshare_start_cases [OF assms(2)]
proof
  assume *: "bt_get (wq_session q) (wh_sessions h) = None \<and>
    (\<exists>roster ident p day. build_reshare_roster c (wq_roster q) = Inr roster \<and> word_of_nat (length roster) = wq_max q \<and>
       bt_get (wh_node h) roster = Some ident \<and> day_epoch_parse (wq_day q) = Inr day \<and>
       (let x = fresh_reshare h q opub okey day roster
          (reshare_transcript c (wq_session q) day (wq_max q) (wq_min q) roster (wq_constitution q)) ident p in
        h1 = put_reshare (wq_session q) x h \<and>
        r = Inr (reshare_status_of c x, reshare_own_round1 x (wq_day q) (snd p))))"
  then obtain roster ident p day where new: "bt_get (wq_session q) (wh_sessions h) = None"
    and b: "build_reshare_roster c (wq_roster q) = Inr roster" "word_of_nat (length roster) = wq_max q"
      "bt_get (wh_node h) roster = Some ident"
    and h1: "h1 = put_reshare (wq_session q) (fresh_reshare h q opub okey day roster
       (reshare_transcript c (wq_session q) day (wq_max q) (wq_min q) roster (wq_constitution q)) ident p) h"
    unfolding Let_def by blast
  define x where "x = fresh_reshare h q opub okey day roster
     (reshare_transcript c (wq_session q) day (wq_max q) (wq_min q) roster (wq_constitution q)) ident p"
  have x: "reshare_ok c (wh_node h) x" "ws_session x = wq_session q" "h1 = put_reshare (wq_session q) x h"
    unfolding x_def by (rule fresh_reshare_ok [OF b]) (simp_all add: h1, simp add: fresh_reshare_def)
  have "\<exists>i z. bt_get i (wh_sessions h1) = Some z \<and> ws_phase z = ReshareComplete \<and> ws_new_key z = Some a \<and>
      ws_new_pub z = Some p \<and> ws_min z = m" if d: "wh_completed h = Some (a, p, m)" for a p m
  proof -
    from h d obtain i z where "bt_get i (wh_sessions h) = Some z" "ws_phase z = ReshareComplete"
      "ws_new_key z = Some a" "ws_new_pub z = Some p" "ws_min z = m" by (auto simp: reshare_hub_ok_def)
    then show ?thesis using new x(3) by (intro exI [of _ i] exI [of _ z]) auto
  qed
  then show ?thesis using h x by (auto simp: reshare_hub_ok_def)
qed (use h in blast)

lemma reshare_ingest1_ok:
  assumes h: "reshare_hub_ok c h" and r: "reshare_ingest1 c m h = (r, h1)"
  shows "reshare_hub_ok c h1 \<and> wh_node h1 = wh_node h"
proof (cases "bt_get (w1_session m) (wh_sessions h)")
  case (Some x)
  obtain s y where y: "reshare_accept1 c m x = (s, y)" by fastforce
  have x: "reshare_ok c (wh_node h) x" "ws_session x = w1_session m" using h Some by (auto simp: reshare_hub_ok_def)
  from reshare_accept1_ok [OF x(1) y] have "reshare_hub_ok c (put_reshare (w1_session m) y h)"
    using put_reshare_ok [OF h Some] x(2) by simp
  moreover have "h1 = h \<or> h1 = put_reshare (w1_session m) y h"
    using r Some y by (auto simp: reshare_ingest1_def split: sum.splits)
  ultimately show ?thesis using h by auto
qed (use h r in \<open>auto simp: reshare_ingest1_def split: sum.splits\<close>)

lemma reshare_ingest2_ok:
  assumes h: "reshare_hub_ok c h" and r: "reshare_ingest2 c m h = (r, h1)"
  shows "reshare_hub_ok c h1 \<and> wh_node h1 = wh_node h"
proof (cases "bt_get (w2_session m) (wh_sessions h)")
  case (Some x)
  obtain s y where y: "reshare_accept2 c m x = (s, y)" by fastforce
  have x: "reshare_ok c (wh_node h) x" "ws_session x = w2_session m" using h Some by (auto simp: reshare_hub_ok_def)
  from reshare_accept2_ok [OF x(1) y] have "reshare_hub_ok c (put_reshare (w2_session m) y h)"
    using put_reshare_ok [OF h Some] x(2) by simp
  moreover have "h1 = h \<or> h1 = put_reshare (w2_session m) y h"
    using r Some y by (auto simp: reshare_ingest2_def split: sum.splits)
  ultimately show ?thesis using h by auto
qed (use h r in \<open>auto simp: reshare_ingest2_def split: sum.splits\<close>)

lemma reshared_outbound [simp]: "reshared c (x\<lparr>ws_outbound := out\<rparr>) = reshared c x"
  by (simp add: reshared_def fun_eq_iff)

lemma reshare_take2_ok:
  assumes h: "reshare_hub_ok c h" and r: "reshare_take2 c i h = (r, h1)"
  shows "reshare_hub_ok c h1 \<and> wh_node h1 = wh_node h"
proof (cases "bt_get i (wh_sessions h)")
  case (Some x)
  have x: "reshare_ok c (wh_node h) x" "ws_session x = i" using h Some by (auto simp: reshare_hub_ok_def)
  then have "reshare_ok c (wh_node h) (x\<lparr>ws_outbound := []\<rparr>)"
    by (cases "ws_phase x") (auto simp: reshare_ok_def)
  then have "reshare_hub_ok c (put_reshare i (x\<lparr>ws_outbound := []\<rparr>) h)"
    using put_reshare_ok [OF h Some] x(2) by simp
  then show ?thesis using r Some by (auto simp: reshare_take2_def)
qed (use h r in \<open>auto simp: reshare_take2_def\<close>)

text \<open>The key material a session ends with is that of part three, at the threshold and under the group key
  the session started with.\<close>

lemma reshare_keys_ok:
  assumes "reshare_keys c x = Inr (kp, pk)"
  shows "reshared c (x\<lparr>ws_new_key := Some kp, ws_new_pub := Some pk, ws_phase := ReshareComplete, ws_r2_secret := None\<rparr>) kp pk"
    "ws_r2_secret x \<noteq> None"
  using assms
  by (auto simp: reshare_keys_def reshared_def Let_def rbind_Inr_iff assert_vk_preserved_def threshold_err_def
      split: if_splits option.splits)

lemma reshare_finalize_cases:
  assumes "reshare_finalize c port i h st = (r, h1, st1)"
  shows "(h1 = h \<and> (st1 = st \<or> \<not> is_ok r)) \<or> (\<exists>x kp pk. bt_get i (wh_sessions h) = Some x \<and> ws_phase x \<noteq> ReshareComplete \<and>
    reshare_keys c x = Inr (kp, pk) \<and> put_all port 0 (reshare_files x (kp, pk)) st = (Inr (), st1) \<and>
    (let x1 = x\<lparr>ws_new_key := Some kp, ws_new_pub := Some pk, ws_phase := ReshareComplete, ws_r2_secret := None\<rparr> in
     h1 = (put_reshare i x1 h)\<lparr>wh_completed := Some (kp, pk, ws_min x)\<rparr>))"
  using assms by (auto simp: reshare_finalize_def Let_def split: option.splits if_splits sum.splits prod.splits)

lemma reshare_finalize_ok:
  assumes h: "reshare_hub_ok c h" and r: "reshare_finalize c port i h st = (r, h1, st1)"
  shows "reshare_hub_ok c h1 \<and> wh_node h1 = wh_node h"
  using reshare_finalize_cases [OF r]
proof
  assume "\<exists>x kp pk. bt_get i (wh_sessions h) = Some x \<and> ws_phase x \<noteq> ReshareComplete \<and>
    reshare_keys c x = Inr (kp, pk) \<and> put_all port 0 (reshare_files x (kp, pk)) st = (Inr (), st1) \<and>
    (let x1 = x\<lparr>ws_new_key := Some kp, ws_new_pub := Some pk, ws_phase := ReshareComplete, ws_r2_secret := None\<rparr> in
     h1 = (put_reshare i x1 h)\<lparr>wh_completed := Some (kp, pk, ws_min x)\<rparr>)"
  then obtain x kp pk where x: "bt_get i (wh_sessions h) = Some x" "ws_phase x \<noteq> ReshareComplete"
    and k: "reshare_keys c x = Inr (kp, pk)"
    and h1: "h1 = (put_reshare i (x\<lparr>ws_new_key := Some kp, ws_new_pub := Some pk, ws_phase := ReshareComplete,
      ws_r2_secret := None\<rparr>) h)\<lparr>wh_completed := Some (kp, pk, ws_min x)\<rparr>"
    unfolding Let_def by blast
  let ?y = "x\<lparr>ws_new_key := Some kp, ws_new_pub := Some pk, ws_phase := ReshareComplete, ws_r2_secret := None\<rparr>"
  have s: "reshare_ok c (wh_node h) x" "ws_session x = i" using h x(1) by (auto simp: reshare_hub_ok_def)
  have "reshare_ok c (wh_node h) ?y"
    using s(1) x(2) reshare_keys_ok [OF k] by (cases "ws_phase x") (auto simp: reshare_ok_def)
  then have "reshare_hub_ok c (put_reshare i ?y h)" using put_reshare_ok [OF h x(1)] s(2) x(2) by simp
  then have "\<forall>j z. bt_get j (wh_sessions h1) = Some z \<longrightarrow> ws_session z = j \<and> reshare_ok c (wh_node h1) z"
    unfolding h1 reshare_hub_ok_def by simp
  moreover have "bt_get i (wh_sessions h1) = Some ?y" "wh_completed h1 = Some (kp, pk, ws_min ?y)" "wh_node h1 = wh_node h"
    by (simp_all add: h1)
  ultimately show ?thesis unfolding reshare_hub_ok_def by (auto intro: exI [of _ i] exI [of _ ?y])
qed (use h in simp)

lemma reshare_step_ok:
  assumes "reshare_hub_ok c (fst s)"
  shows "reshare_hub_ok c (fst (snd (reshare_step c port a s))) \<and> wh_node (fst (snd (reshare_step c port a s))) = wh_node (fst s)"
proof -
  obtain h st where s: "s = (h, st)" by (cases s)
  have h: "reshare_hub_ok c h" using assms s by simp
  show ?thesis unfolding s
  proof (cases a)
    case (ReStart seed q opub okey)
    then show "reshare_hub_ok c (fst (snd (reshare_step c port a (h, st)))) \<and>
        wh_node (fst (snd (reshare_step c port a (h, st)))) = wh_node (fst (h, st))"
      using reshare_start_ok [OF h] by (simp split: prod.splits)
  next
    case (ReRound1 m)
    then show "reshare_hub_ok c (fst (snd (reshare_step c port a (h, st)))) \<and>
        wh_node (fst (snd (reshare_step c port a (h, st)))) = wh_node (fst (h, st))"
      using reshare_ingest1_ok [OF h] by (simp split: prod.splits)
  next
    case (ReTake i)
    then show "reshare_hub_ok c (fst (snd (reshare_step c port a (h, st)))) \<and>
        wh_node (fst (snd (reshare_step c port a (h, st)))) = wh_node (fst (h, st))"
      using reshare_take2_ok [OF h] by (simp split: prod.splits)
  next
    case (ReRound2 m)
    then show "reshare_hub_ok c (fst (snd (reshare_step c port a (h, st)))) \<and>
        wh_node (fst (snd (reshare_step c port a (h, st)))) = wh_node (fst (h, st))"
      using reshare_ingest2_ok [OF h] by (simp split: prod.splits)
  next
    case (ReFinalize i)
    then show "reshare_hub_ok c (fst (snd (reshare_step c port a (h, st)))) \<and>
        wh_node (fst (snd (reshare_step c port a (h, st)))) = wh_node (fst (h, st))"
      using reshare_finalize_ok [OF h, of port i st] by (cases "reshare_finalize c port i h st") simp
  qed
qed

lemma reshare_run_ok:
  assumes "reshare_hub_ok c (fst s)"
  shows "reshare_hub_ok c (fst (snd (run_ops (reshare_step c port) ops s)))"
  using run_ops_invariant [of "\<lambda>s. reshare_hub_ok c (fst s)" ops "reshare_step c port" s] reshare_step_ok assms by blast

lemma reshare_hub_new_ok: "reshare_hub_ok c (reshare_hub_new node peers auth)"
  by (simp add: reshare_hub_ok_def reshare_hub_new_def reshare_hub_with_def)

section \<open>The network of hubs\<close>

text \<open>The crate numbers identifiers from one and serializes them as 32 bytes, the most significant first.\<close>

definition secp_identifiers :: "reshare_crate \<Rightarrow> bool" where
  "secp_identifiers c \<longleftrightarrow> (\<forall>v. rc_ident c v = (if v = 0 then None else Some (replicate 30 (chr 0) @ be16 v)))"

text \<open>Hubs, the round-one and round-two messages they have emitted, and their share stores.  Every emitted
  message may be delivered to any hub, any number of times, in any order.\<close>

inductive reshare_net ::
  "reshare_crate \<Rightarrow> 's share_port \<Rightarrow> (string \<Rightarrow> 's) \<Rightarrow> (string \<Rightarrow> reshare_hub) \<Rightarrow> reshare_round1 set
     \<Rightarrow> reshare_round2 set \<Rightarrow> (string \<Rightarrow> 's) \<Rightarrow> bool"
  for c :: reshare_crate and port :: "'s share_port" and st0 :: "string \<Rightarrow> 's" where
  net_init: "reshare_net c port st0 (\<lambda>n. reshare_hub_new n (peers n) (auth n)) {} {} st0"
| net_start: "reshare_net c port st0 H A B S \<Longrightarrow> reshare_start c seed q opub okey (H n) = (r, h) \<Longrightarrow>
    reshare_net c port st0 (H(n := h)) (case r of Inr (_, m) \<Rightarrow> insert m A | Inl _ \<Rightarrow> A) B S"
| net_round1: "reshare_net c port st0 H A B S \<Longrightarrow> m \<in> A \<Longrightarrow> reshare_ingest1 c m (H n) = (r, h) \<Longrightarrow>
    reshare_net c port st0 (H(n := h)) A B S"
| net_take: "reshare_net c port st0 H A B S \<Longrightarrow> reshare_take2 c i (H n) = (r, h) \<Longrightarrow>
    reshare_net c port st0 (H(n := h)) A (case r of Inr ms \<Rightarrow> set ms \<union> B | Inl _ \<Rightarrow> B) S"
| net_round2: "reshare_net c port st0 H A B S \<Longrightarrow> m \<in> B \<Longrightarrow> reshare_ingest2 c m (H n) = (r, h) \<Longrightarrow>
    reshare_net c port st0 (H(n := h)) A B S"
| net_finalize: "reshare_net c port st0 H A B S \<Longrightarrow> reshare_finalize c port i (H n) (S n) = (r, h, s) \<Longrightarrow>
    reshare_net c port st0 (H(n := h)) A B (S(n := s))"

text \<open>A session that has heard of nobody: round one, its own package alone.\<close>

definition reshare_alone :: "reshare_session \<Rightarrow> bool" where
  "reshare_alone x \<longleftrightarrow>
     ws_phase x = ReshareRound1 \<and> bt_keys (ws_r1 x) = [ws_ident x] \<and> ws_inbox x = [] \<and> ws_outbound x = [] \<and>
     ws_r2_secret x = None \<and> reshare_ident_u16 (ws_roster x) (ws_ident x) = 0"

definition hub_alone :: "reshare_hub \<Rightarrow> bool" where
  "hub_alone h \<longleftrightarrow> (\<forall>i x. bt_get i (wh_sessions h) = Some x \<longrightarrow> reshare_alone x) \<and> wh_completed h = None"

lemma number_reshare_vals:
  "number_reshare c i ns m = Inr roster \<Longrightarrow> x \<in> set (bt_vals roster) \<Longrightarrow>
     x \<in> set (bt_vals m) \<or> (\<exists>v. rc_ident c v = Some x)"
proof (induction ns arbitrary: i m)
  case (Cons n ns)
  then obtain y where y: "rc_ident c (word_of_nat (i + 1)) = Some y" "number_reshare c (i + 1) ns (bt_put n y m) = Inr roster"
    by (auto simp: rbind_Inr_iff reshare_ident_def)
  have "set (bt_put n y m) \<subseteq> insert (n, y) (set m)"
    by (induction m) (auto split: if_splits)
  then have "set (bt_vals (bt_put n y m)) \<subseteq> insert y (set (bt_vals m))"
    by (auto simp: bt_vals_def)
  then show ?case using Cons.IH [OF y(2) Cons.prems(2)] y(1) by blast
qed simp

lemma secp_first_byte:
  assumes "secp_identifiers c" "rc_ident c v = Some x"
  shows "code (hd x) = 0"
proof -
  have "x = replicate 30 (chr 0) @ be16 v"
    using assms by (simp add: secp_identifiers_def split: if_splits)
  then have "hd x = chr 0" by simp
  then show ?thesis by (simp add: code_chr)
qed

text \<open>The number in a message is zero, whatever the identifier.\<close>

lemma reshare_number_zero:
  assumes "secp_identifiers c" "build_reshare_roster c names = Inr roster"
  shows "reshare_ident_u16 roster x = 0"
proof -
  have "code (hd x) = 0" if "x \<in> set (bt_vals roster)"
    using number_reshare_vals [of c 0 _ "[]" roster x] assms(2) that secp_first_byte [OF assms(1)]
    by (auto simp: build_reshare_roster_def bt_vals_def)
  then show ?thesis by (simp add: reshare_ident_u16_def)
qed

lemma alone_start:
  assumes c: "secp_identifiers c" and h: "hub_alone h" and r: "reshare_start c seed q opub okey h = (r, h1)"
  shows "hub_alone h1 \<and> (\<forall>s m. r = Inr (s, m) \<longrightarrow> w1_sender_id m = 0)"
  using reshare_start_cases [OF r]
proof
  assume "h1 = h \<and> (\<forall>s m. r = Inr (s, m) \<longrightarrow>
      (\<exists>x p. bt_get (wq_session q) (wh_sessions h) = Some x \<and> m = reshare_own_round1 x (ws_day x) p))"
  then show ?thesis using h by (fastforce simp: hub_alone_def reshare_alone_def reshare_own_round1_def)
next
  assume "bt_get (wq_session q) (wh_sessions h) = None \<and>
    (\<exists>roster ident p day. build_reshare_roster c (wq_roster q) = Inr roster \<and> word_of_nat (length roster) = wq_max q \<and>
       bt_get (wh_node h) roster = Some ident \<and> day_epoch_parse (wq_day q) = Inr day \<and>
       (let x = fresh_reshare h q opub okey day roster
          (reshare_transcript c (wq_session q) day (wq_max q) (wq_min q) roster (wq_constitution q)) ident p in
        h1 = put_reshare (wq_session q) x h \<and>
        r = Inr (reshare_status_of c x, reshare_own_round1 x (wq_day q) (snd p))))"
  then obtain roster ident p day t where b: "build_reshare_roster c (wq_roster q) = Inr roster"
    and h1: "h1 = put_reshare (wq_session q) (fresh_reshare h q opub okey day roster t ident p) h"
    and e: "r = Inr (reshare_status_of c (fresh_reshare h q opub okey day roster t ident p),
        reshare_own_round1 (fresh_reshare h q opub okey day roster t ident p) (wq_day q) (snd p))"
    unfolding Let_def by blast
  show ?thesis
    using h unfolding h1 e
    by (auto simp: hub_alone_def reshare_alone_def fresh_reshare_def reshare_own_round1_def reshare_number_zero [OF c b])
qed

lemma zero_sender:
  assumes "secp_identifiers c"
  shows "reshare_sender c what node 0 x = threshold_err (''invalid identifier '' @ dec_u (0 :: u16) @ '': '' @ rc_why c)"
proof -
  have "rc_ident c 0 = None" using assms by (simp add: secp_identifiers_def)
  then show ?thesis by (simp add: reshare_sender_def reshare_ident_def of_refresh_def threshold_err_def)
qed

lemma alone_accept1:
  assumes "secp_identifiers c" "reshare_alone x" "w1_sender_id m = 0"
  shows "\<exists>e. reshare_accept1 c m x = (Inl e, x)"
  using assms zero_sender [OF assms(1)] by (simp add: reshare_accept1_def reshare_alone_def threshold_err_def)

lemma alone_round1:
  assumes c: "secp_identifiers c" and h: "hub_alone h" and m: "w1_sender_id m = 0"
    and r: "reshare_ingest1 c m h = (r, h1)"
  shows "\<not> is_ok r \<and> hub_alone h1"
proof (cases "reshare_envelope ''r1'' (w1_envelope m)")
  case (Inr u)
  show ?thesis
  proof (cases "bt_get (w1_session m) (wh_sessions h)")
    case None
    then show ?thesis using r h Inr by (auto simp: reshare_ingest1_def threshold_err_def)
  next
    case (Some x)
    then have x: "reshare_alone x" using h by (simp add: hub_alone_def)
    from alone_accept1 [OF c x m] obtain e where "reshare_accept1 c m x = (Inl e, x)" by blast
    then have "r = Inl e" "h1 = put_reshare (w1_session m) x h" using r Some Inr by (simp_all add: reshare_ingest1_def)
    then show ?thesis using h x by (simp add: hub_alone_def)
  qed
qed (use r h in \<open>auto simp: reshare_ingest1_def\<close>)

lemma alone_take:
  assumes h: "hub_alone h" and r: "reshare_take2 c i h = (r, h1)"
  shows "hub_alone h1 \<and> (\<forall>ms. r = Inr ms \<longrightarrow> ms = [])"
proof (cases "bt_get i (wh_sessions h)")
  case (Some x)
  then have "reshare_alone x" using h by (simp add: hub_alone_def)
  then have "ws_outbound x = []" "reshare_alone (x\<lparr>ws_outbound := []\<rparr>)" by (simp_all add: reshare_alone_def)
  then show ?thesis using r Some h by (auto simp: reshare_take2_def hub_alone_def split: if_splits)
qed (use r h in \<open>auto simp: reshare_take2_def unknown_reshare_def threshold_err_def\<close>)

lemma alone_finalize:
  assumes h: "hub_alone h" and r: "reshare_finalize c port i h st = (r, h1, st1)"
  shows "\<not> is_ok r \<and> h1 = h \<and> st1 = st"
proof (cases "bt_get i (wh_sessions h)")
  case (Some x)
  then have x: "reshare_alone x" using h by (simp add: hub_alone_def)
  then obtain e where "reshare_keys c x = Inl e"
    by (cases "reshare_keys c x") (auto dest: reshare_keys_ok(2) simp: reshare_alone_def)
  then show ?thesis using r Some x by (auto simp: reshare_finalize_def reshare_alone_def)
qed (use r in \<open>auto simp: reshare_finalize_def unknown_reshare_def threshold_err_def\<close>)

text \<open>On the network of hubs every session stays alone.\<close>

lemma net_alone:
  assumes c: "secp_identifiers c"
  shows "reshare_net c port st0 H A B S \<Longrightarrow>
    (\<forall>n. hub_alone (H n)) \<and> (\<forall>m\<in>A. w1_sender_id m = 0) \<and> B = {} \<and> S = st0"
proof (induction rule: reshare_net.induct)
  case (net_init peers auth)
  then show ?case by (simp add: hub_alone_def reshare_hub_new_def reshare_hub_with_def)
next
  case (net_start H A B S seed q opub okey n r h)
  then have "hub_alone (H n)" by blast
  from alone_start [OF c this net_start.hyps(2)] show ?case
    using net_start.IH by (auto split: sum.splits prod.splits)
next
  case (net_round1 H A B S m n r h)
  then have "hub_alone (H n)" "w1_sender_id m = 0" by blast+
  from alone_round1 [OF c this] net_round1 show ?case by auto
next
  case (net_take H A B S i n r h)
  then have "hub_alone (H n)" by blast
  from alone_take [OF this net_take.hyps(2)] net_take.IH show ?case by (auto split: sum.splits)
next
  case (net_round2 H A B S m n r h)
  then show ?case by simp
next
  case (net_finalize H A B S i n r h s)
  then have "hub_alone (H n)" by blast
  from alone_finalize [OF this net_finalize.hyps(2)] net_finalize.IH show ?case by (auto simp: fun_upd_idem)
qed

section \<open>Properties\<close>

text \<open>C32: Whatever a hub is sent, a session that completed holds the key material that part three of the refresh
  computed from its round-one and round-two packages and its old share, with the group key and the
  threshold it started with; and the hub's completed material is that of such a session.\<close>

theorem reshare_preserves_key:
  assumes "snd (run_ops (reshare_step c port) ops (reshare_hub_new node peers auth, st0)) = (h, st)"
  shows "(\<forall>i x. bt_get i (wh_sessions h) = Some x \<and> ws_phase x = ReshareComplete \<longrightarrow>
      (\<exists>kp pk. reshared c x kp pk \<and> rc_vk c pk = rc_vk c (ws_old_pub x) \<and> rc_key_min c kp = ws_min x)) \<and>
    (\<forall>kp pk mn. wh_completed h = Some (kp, pk, mn) \<longrightarrow>
      (\<exists>i x. bt_get i (wh_sessions h) = Some x \<and> reshared c x kp pk \<and> mn = ws_min x))"
proof -
  have ok: "reshare_hub_ok c h"
    using reshare_run_ok [of c "(reshare_hub_new node peers auth, st0)" port ops] assms reshare_hub_new_ok by simp
  have one: "\<exists>kp pk. reshared c x kp pk" if "bt_get i (wh_sessions h) = Some x" "ws_phase x = ReshareComplete" for i x
    using ok that unfolding reshare_hub_ok_def reshare_ok_def by fastforce
  have "\<exists>i x. bt_get i (wh_sessions h) = Some x \<and> reshared c x kp pk \<and> mn = ws_min x"
    if "wh_completed h = Some (kp, pk, mn)" for kp pk mn
  proof -
    from ok that obtain i x where x: "bt_get i (wh_sessions h) = Some x" "ws_phase x = ReshareComplete"
      "ws_new_key x = Some kp" "ws_new_pub x = Some pk" "ws_min x = mn" unfolding reshare_hub_ok_def by blast
    with one [OF x(1,2)] show ?thesis by (auto simp: reshared_def)
  qed
  moreover have "\<exists>kp pk. reshared c x kp pk \<and> rc_vk c pk = rc_vk c (ws_old_pub x) \<and> rc_key_min c kp = ws_min x"
    if "bt_get i (wh_sessions h) = Some x" "ws_phase x = ReshareComplete" for i x
    using one [OF that] unfolding reshared_def by blast
  ultimately show ?thesis by blast
qed

text \<open>C33: With identifiers serialized most significant byte first, as secp256k1 scalars are, no reshare over
  the wire ever leaves round one: every message a hub emits carries identifier zero, every hub refuses it,
  and no share store changes.\<close>

theorem reshare_never_leaves_round1:
  assumes "secp_identifiers c" "reshare_net c port st0 H A B S"
  shows "(\<forall>m\<in>A. \<not> is_ok (fst (reshare_ingest1 c m (H n)))) \<and>
    (\<forall>x. bt_get i (wh_sessions (H n)) = Some x \<longrightarrow> ws_phase x = ReshareRound1 \<and> bt_keys (ws_r1 x) = [ws_ident x]) \<and>
    \<not> is_ok (fst (reshare_finalize c port i (H n) (S n))) \<and> wh_completed (H n) = None \<and> B = {} \<and> S = st0"
proof -
  have a: "\<forall>n. hub_alone (H n)" "\<forall>m\<in>A. w1_sender_id m = 0" "B = {}" "S = st0"
    using net_alone [OF assms] by blast+
  have "\<not> is_ok (fst (reshare_ingest1 c m (H n)))" if "m \<in> A" for m
    using alone_round1 [OF assms(1), of "H n" m] a that by (metis prod.collapse)
  moreover have "\<not> is_ok (fst (reshare_finalize c port i (H n) (S n)))"
    using alone_finalize [of "H n" c port i "S n"] a(1) by (metis prod.collapse)
  ultimately show ?thesis using a by (auto simp: hub_alone_def reshare_alone_def)
qed

text \<open>A crate with identifiers of one byte, over which two vaults complete a reshare.\<close>

definition demo_refresh :: reshare_crate where
  "demo_refresh = \<lparr>rc_ident = (\<lambda>v. if v = 0 then None else Some [chr (unat v)]), rc_part1 = (\<lambda>i mx mn seed. Some (seed, i)),
     rc_round1 = Some, rc_part2 = (\<lambda>s ps. Some (s, ps)), rc_round2 = Some,
     rc_part3 = (\<lambda>s r1 r2 pk k. Some (''key'', pk)), rc_key_min = (\<lambda>_. 2), rc_vk = (\<lambda>p. p), rc_sha384 = (\<lambda>_. ''t''),
     rc_debug = (\<lambda>i. i), rc_why = []\<rparr>"

definition demo_reshare :: reshare_start_request where
  "demo_reshare = \<lparr>wq_session = ''s'', wq_max = 2, wq_min = 2, wq_roster = [''b'', ''a''], wq_day = ''2026-01-02'',
     wq_constitution = ''h''\<rparr>"

definition demo_reshare_ops :: "reshare_op list" where
  "demo_reshare_ops =
     [ReStart ''r'' demo_reshare ''vk'' (Some ''old''),
      ReRound1 \<lparr>w1_session = ''s'', w1_sender = ''b'', w1_sender_id = 2, w1_max = 2, w1_min = 2, w1_day = ''2026-01-02'',
        w1_transcript = ''74'', w1_package = ''02'', w1_envelope = None\<rparr>,
      ReTake ''s'',
      ReRound2 \<lparr>w2_session = ''s'', w2_sender = ''b'', w2_sender_id = 2, w2_recipient = ''a'', w2_recipient_id = 1,
        w2_transcript = ''74'', w2_package = ''02'', w2_envelope = None\<rparr>,
      ReFinalize ''s'']"

definition demo_reshare_end :: reshare_hub where
  "demo_reshare_end =
     fst (snd (run_ops (reshare_step demo_refresh demo_port) demo_reshare_ops (reshare_hub_new ''a'' [] ReshareMtls, ())))"

lemma demo_reshare_completed: "wh_completed demo_reshare_end = Some (''key'', ''vk'', 2)"
  by code_simp

theorem reshare_preserves_key_witness:
  "wh_completed demo_reshare_end = Some (''key'', ''vk'', 2) \<and>
   (\<exists>i x. bt_get i (wh_sessions demo_reshare_end) = Some x \<and> reshared demo_refresh x ''key'' ''vk'' \<and> ws_min x = 2)"
proof -
  have "snd (run_ops (reshare_step demo_refresh demo_port) demo_reshare_ops (reshare_hub_new ''a'' [] ReshareMtls, ())) =
      (demo_reshare_end, ())"
    unfolding demo_reshare_end_def by (rule prod_eqI) simp_all
  from reshare_preserves_key [OF this] demo_reshare_completed show ?thesis by metis
qed

text \<open>Two vaults that start the same reshare, with identifiers of 32 bytes.\<close>

definition demo_secp :: reshare_crate where
  "demo_secp = demo_refresh\<lparr>rc_ident := \<lambda>v. if v = 0 then None else Some (replicate 30 (chr 0) @ be16 v)\<rparr>"

definition demo_hub0 :: "string \<Rightarrow> reshare_hub" where
  "demo_hub0 n = reshare_hub_new n [] ReshareMtls"

definition demo_start_of :: "string \<Rightarrow> (reshare_status \<times> reshare_round1) res \<times> reshare_hub" where
  "demo_start_of n = reshare_start demo_secp ''r'' demo_reshare ''vk'' (Some ''old'') (demo_hub0 n)"

definition demo_hubs :: "string \<Rightarrow> reshare_hub" where
  "demo_hubs = demo_hub0(''a'' := snd (demo_start_of ''a''), ''b'' := snd (demo_start_of ''b''))"

definition demo_msg :: "string \<Rightarrow> reshare_round1" where
  "demo_msg n = snd (projr (fst (demo_start_of n)))"

lemma demo_starts: "is_ok (fst (demo_start_of ''a''))" "is_ok (fst (demo_start_of ''b''))"
  by code_simp+

lemma demo_secp_ok: "secp_identifiers demo_secp"
  by (simp add: secp_identifiers_def demo_secp_def)

lemma demo_net: "reshare_net demo_secp demo_port (\<lambda>_. ()) demo_hubs {demo_msg ''b'', demo_msg ''a''} {} (\<lambda>_. ())"
proof -
  have r: "demo_start_of n = (Inr (fst (projr (fst (demo_start_of n))), demo_msg n), snd (demo_start_of n))"
    if "is_ok (fst (demo_start_of n))" for n
    using that by (auto simp: demo_msg_def is_ok_iff prod_eq_iff)
  have "reshare_net demo_secp demo_port (\<lambda>_. ()) demo_hub0 {} {} (\<lambda>_. ())"
    using net_init [of demo_secp demo_port "\<lambda>_. ()" "\<lambda>_. []" "\<lambda>_. ReshareMtls"] by (simp add: demo_hub0_def [abs_def])
  from net_start [OF this, of _ _ _ _ "''a''", OF r [OF demo_starts(1), unfolded demo_start_of_def [of "''a''"]]]
  have "reshare_net demo_secp demo_port (\<lambda>_. ()) (demo_hub0(''a'' := snd (demo_start_of ''a''))) {demo_msg ''a''} {} (\<lambda>_. ())"
    by (simp add: demo_start_of_def)
  moreover have "(demo_hub0(''a'' := snd (demo_start_of ''a''))) ''b'' = demo_hub0 ''b''" by simp
  ultimately show ?thesis
    using net_start [where n = "''b''" and c = demo_secp and seed = "''r''" and q = demo_reshare and opub = "''vk''"
        and okey = "Some ''old''"] r [OF demo_starts(2)]
    unfolding demo_hubs_def demo_start_of_def by fastforce
qed

theorem reshare_never_leaves_round1_witness:
  "reshare_net demo_secp demo_port (\<lambda>_. ()) demo_hubs {demo_msg ''b'', demo_msg ''a''} {} (\<lambda>_. ()) \<and>
   \<not> is_ok (fst (reshare_ingest1 demo_secp (demo_msg ''a'') (demo_hubs ''b''))) \<and> wh_completed (demo_hubs ''b'') = None"
  using reshare_never_leaves_round1 [OF demo_secp_ok demo_net, of "''b''"] demo_net by blast

text \<open>A round-one package is taken in round two as well: it replaces the one part two was computed from.\<close>

lemma reshare_round1_replaced:
  assumes "ws_phase x = ReshareRound2" "w1_max m = ws_max x" "w1_min m = ws_min x" "w1_transcript m = ws_transcript x"
    "rc_ident c (w1_sender_id m) = Some sender" "bt_get (w1_sender m) (ws_roster x) = Some sender"
    "reshare_package c ''r1'' (rc_round1 c) (w1_package m) = Inr p"
  shows "snd (reshare_accept1 c m x) = x\<lparr>ws_r1 := bt_put sender p (ws_r1 x)\<rparr>"
proof -
  have "reshare_sender c [] (w1_sender m) (w1_sender_id m) x = Inr sender" using assms by (simp add: reshare_sender_Inr)
  then show ?thesis using assms by (simp add: reshare_accept1_def Let_def)
qed

text \<open>The client gives up after at most three retry delays, under half a second by default.\<close>

lemma reshare_timeout_short: "unat j \<le> 50 \<Longrightarrow> unat (reshare_client_timeout clearnet_defaults j) \<le> 450"
  by (simp add: reshare_client_timeout_def backoff_delay_def clearnet_defaults_def unat_sat_mul unat_sat_add)

end
