(* ===== verification/ReshareHook.thy ===== *)
theory ReshareHook
  imports ReshareWire Release Rotation
begin

text \<open>
  In-process share refresh and the hook that runs it (\<open>adapters/frost_reshare.rs\<close>, and
  \<open>refresh_tr_shares_in_process\<close> of \<open>adapters/frost_tr_bitcoin.rs\<close>): the refresh of all shares of a keyset a
  process holds, and the policy hook of the daily rotation, with its ledger events, governance bounties and
  the share store.  The FROST refresh functions are the record \<open>reshare_crate\<close>; \<open>rnd\<close> is the randomness each
  participant draws.
\<close>

section \<open>Refresh of one keyset\<close>

text \<open>The words that tell the two suites' messages apart.\<close>

record refresh_words =
  rw_low :: string
  rw_frost :: string

definition plain_words :: refresh_words where
  "plain_words = \<lparr>rw_low = [], rw_frost = ''frost''\<rparr>"

definition tr_words :: refresh_words where
  "tr_words = \<lparr>rw_low = ''tr '', rw_frost = ''frost-tr''\<rparr>"

definition words_err :: "refresh_words \<Rightarrow> string \<Rightarrow> string \<Rightarrow> 'a res" where
  "words_err w pre post = threshold_err (pre @ rw_low w @ post)"

fun refresh_part1s ::
  "refresh_words \<Rightarrow> reshare_crate \<Rightarrow> (string \<Rightarrow> string) \<Rightarrow> u16 \<Rightarrow> u16 \<Rightarrow> string list \<Rightarrow> string btmap \<times> string btmap
     \<Rightarrow> (string btmap \<times> string btmap) res" where
  "refresh_part1s w c rnd mx mn [] acc = Inr acc"
| "refresh_part1s w c rnd mx mn (i # is) (secrets, packages) =
     rbind (of_refresh c (rw_frost w @ '' refresh part1: '') (rc_part1 c i mx mn (rnd i))) (\<lambda>(s, p).
       refresh_part1s w c rnd mx mn is (bt_put i s secrets, bt_put i p packages))"

text \<open>The inbox of every receiver: \<open>entry(receiver).or_default().insert(id, package)\<close>.\<close>

fun deliver_all :: "string \<Rightarrow> (string \<times> string) list \<Rightarrow> string btmap btmap \<Rightarrow> string btmap btmap" where
  "deliver_all i [] inbox = inbox"
| "deliver_all i ((r, p) # out) inbox =
     deliver_all i out (bt_put r (bt_put i p (case bt_get r inbox of Some m \<Rightarrow> m | None \<Rightarrow> [])) inbox)"

fun refresh_part2s ::
  "refresh_words \<Rightarrow> reshare_crate \<Rightarrow> string btmap \<Rightarrow> string list \<Rightarrow> string btmap \<Rightarrow> string btmap \<times> string btmap btmap
     \<Rightarrow> (string btmap \<times> string btmap btmap) res" where
  "refresh_part2s w c packages [] secrets acc = Inr acc"
| "refresh_part2s w c packages (i # is) secrets (r2s, inbox) =
     (case bt_get i secrets of
        None \<Rightarrow> words_err w ''missing '' ''refresh round1 secret''
      | Some s \<Rightarrow>
          rbind (of_refresh c (rw_frost w @ '' refresh part2: '') (rc_part2 c s (bt_remove i packages))) (\<lambda>(r2, out).
            refresh_part2s w c packages is (bt_remove i secrets) (bt_put i r2 r2s, deliver_all i out inbox)))"

text \<open>The third part of one participant, with its two checks.\<close>

definition refresh_one ::
  "refresh_words \<Rightarrow> reshare_crate \<Rightarrow> u16 \<Rightarrow> string btmap \<Rightarrow> string btmap \<Rightarrow> string btmap btmap \<Rightarrow> string btmap \<Rightarrow> string
     \<Rightarrow> string \<Rightarrow> (string \<times> string) res" where
  "refresh_one w c mn packages r2s inbox old_keys old_pub i =
     (case bt_get i inbox of
        None \<Rightarrow> words_err w ''missing '' (''refresh round2 inbox for '' @ rc_debug c i)
      | Some r2 \<Rightarrow>
     (case bt_get i r2s of
        None \<Rightarrow> words_err w ''missing '' ''refresh round2 secret''
      | Some s \<Rightarrow>
     (case bt_get i old_keys of
        None \<Rightarrow> words_err w ''missing old '' (''key package for '' @ rc_debug c i)
      | Some old \<Rightarrow>
          rbind (of_refresh c (rw_frost w @ '' refresh part3: '') (rc_part3 c s (bt_remove i packages) r2 old_pub old)) (\<lambda>(kp, pk).
            if rc_key_min c kp \<noteq> mn
            then words_err w [] (''reshare threshold drift: got '' @ dec_u (rc_key_min c kp) @ '' want '' @ dec_u mn)
            else if rc_vk c pk \<noteq> rc_vk c old_pub
            then words_err w [] ''reshare changed group verifying key (forbidden)''
            else Inr (kp, pk)))))"

fun refresh_part3s ::
  "refresh_words \<Rightarrow> reshare_crate \<Rightarrow> u16 \<Rightarrow> string btmap \<Rightarrow> string btmap \<Rightarrow> string btmap btmap \<Rightarrow> string btmap \<Rightarrow> string
     \<Rightarrow> string list \<Rightarrow> string btmap \<times> string option \<Rightarrow> (string btmap \<times> string option) res" where
  "refresh_part3s w c mn packages r2s inbox old_keys old_pub [] acc = Inr acc"
| "refresh_part3s w c mn packages r2s inbox old_keys old_pub (i # is) (keys, pub) =
     rbind (refresh_one w c mn packages r2s inbox old_keys old_pub i) (\<lambda>(kp, pk).
       refresh_part3s w c mn packages r2s inbox old_keys old_pub is (bt_put i kp keys, Some pk))"

definition refresh_in_process ::
  "refresh_words \<Rightarrow> reshare_crate \<Rightarrow> (string \<Rightarrow> string) \<Rightarrow> string btmap \<Rightarrow> string \<Rightarrow> (string btmap \<times> string) res" where
  "refresh_in_process w c rnd old_keys old_pub =
     (case old_keys of
        [] \<Rightarrow> words_err w [] ''reshare requires at least one key package''
      | (_, kp) # _ \<Rightarrow>
          let ids = bt_keys old_keys; mx = word_of_nat (length ids); mn = rc_key_min c kp in
          if mx < 2 \<or> mn < 2 \<or> mx < mn
          then words_err w ''bad '' (''reshare params: max='' @ dec_u mx @ '' min='' @ dec_u mn)
          else
            rbind (refresh_part1s w c rnd mx mn ids ([], [])) (\<lambda>(secrets, packages).
            rbind (refresh_part2s w c packages ids secrets ([], [])) (\<lambda>(r2s, inbox).
            rbind (refresh_part3s w c mn packages r2s inbox old_keys old_pub ids ([], None)) (\<lambda>(keys, pub).
              case pub of
                None \<Rightarrow> words_err w [] ''reshare produced no pubkey package''
              | Some p \<Rightarrow> Inr (keys, p)))))"

definition refresh_shares_in_process ::
  "reshare_crate \<Rightarrow> (string \<Rightarrow> string) \<Rightarrow> string btmap \<Rightarrow> string \<Rightarrow> (string btmap \<times> string) res" where
  "refresh_shares_in_process = refresh_in_process plain_words"

definition refresh_tr_shares_in_process ::
  "reshare_crate \<Rightarrow> (string \<Rightarrow> string) \<Rightarrow> string btmap \<Rightarrow> string \<Rightarrow> (string btmap \<times> string) res" where
  "refresh_tr_shares_in_process = refresh_in_process tr_words"

section \<open>The policy hook\<close>

text \<open>The intent keyset and the two Taproot keysets, the share store, and the world of ledger and economy.\<close>

record 's hook_state =
  hk_shares :: "tr_share_state option"
  hk_tr :: "tr_share_state option"
  hk_channels :: "tr_share_state option option"
  hk_store :: 's
  hk_world :: world

record 's reshare_hook =
  rh_policy :: reshare_policy
  rh_writer :: string
  rh_port :: "'s share_port option"
  rh_governance :: gov_hook
  rh_in_process :: bool

definition share_snapshot :: "tr_share_state option \<Rightarrow> tr_share_state res" where
  "share_snapshot slot = (case slot of Some s \<Rightarrow> Inr s | None \<Rightarrow> threshold_err ''FROST material not installed'')"

definition append_hook_event ::
  "(string \<Rightarrow> string) \<Rightarrow> string \<Rightarrow> event_kind \<Rightarrow> string \<Rightarrow> 's hook_state \<Rightarrow> unit res \<times> 's hook_state" where
  "append_hook_event sha writer kind payload st =
     (let w = hk_world st in
      case append_event sha (ep_number (l_epoch (w_ledger w))) kind payload writer (w_ledger w) of
        (r, l) \<Rightarrow> (r, st\<lparr>hk_world := w\<lparr>w_ledger := l\<rparr>\<rparr>))"

definition reward_participants :: "string list \<Rightarrow> 's hook_state \<Rightarrow> string list" where
  "reward_participants ps st = (if ps = [] then active_set (l_epoch (w_ledger (hk_world st))) else ps)"

definition hook_accrue ::
  "(string \<Rightarrow> string) \<Rightarrow> 's reshare_hook \<Rightarrow> gov_job \<Rightarrow> string list \<Rightarrow> string \<Rightarrow> 's hook_state \<Rightarrow> unit res \<times> 's hook_state" where
  "hook_accrue sha h job ps context st =
     (case run_hook sha (rh_governance h) job ps context (hk_world st) of (r, w) \<Rightarrow> (r, st\<lparr>hk_world := w\<rparr>))"

definition day_payload :: "'s reshare_hook \<Rightarrow> string \<Rightarrow> string \<Rightarrow> 's hook_state \<Rightarrow> string" where
  "day_payload h from to st =
     ''{'' @ key ''from'' @ quoted from @ '','' @ key ''to'' @ quoted to
     @ '','' @ key ''constitution_hash'' @ quoted (c_hash (l_constitution (w_ledger (hk_world st))))
     @ '','' @ key ''reshare_policy'' @ quoted (reshare_str (rh_policy h)) @ ''}''"

definition record_day_advanced ::
  "(string \<Rightarrow> string) \<Rightarrow> 's reshare_hook \<Rightarrow> string \<Rightarrow> string \<Rightarrow> 's hook_state \<Rightarrow> unit res \<times> 's hook_state" where
  "record_day_advanced sha h from to st = append_hook_event sha (rh_writer h) EvDayAdvanced (day_payload h from to st) st"

definition reshare_payload ::
  "string \<Rightarrow> string \<Rightarrow> tr_share_state \<Rightarrow> string \<Rightarrow> string option \<Rightarrow> string option \<Rightarrow> 's hook_state \<Rightarrow> string" where
  "reshare_payload reason suite snap vk from to st =
     ''{'' @ key ''reason'' @ quoted reason @ '','' @ key ''suite'' @ quoted suite
     @ '','' @ key ''participants'' @ dec (length (tr_key_packages snap))
     @ '','' @ key ''min_signers'' @ dec (tr_min_signers snap)
     @ '','' @ key ''verifying_key'' @ quoted vk
     @ '','' @ key ''constitution_hash'' @ quoted (c_hash (l_constitution (w_ledger (hk_world st))))
     @ '','' @ key ''from_day'' @ quoted (case from of Some d \<Rightarrow> d | None \<Rightarrow> [])
     @ '','' @ key ''to_day'' @ quoted (case to of Some d \<Rightarrow> d | None \<Rightarrow> []) @ ''}''"

definition refreshed :: "tr_share_state \<Rightarrow> string btmap \<times> string \<Rightarrow> tr_share_state" where
  "refreshed snap k = \<lparr>tr_key_packages = fst k, tr_pubkey = snd k, tr_min_signers = tr_min_signers snap\<rparr>"

definition refresh_intent ::
  "(string \<Rightarrow> string) \<Rightarrow> reshare_crate \<Rightarrow> (string \<Rightarrow> string) \<Rightarrow> 's reshare_hook \<Rightarrow> string \<Rightarrow> string option \<Rightarrow> string option
     \<Rightarrow> 's hook_state \<Rightarrow> unit res \<times> 's hook_state" where
  "refresh_intent sha c rnd h reason from to st =
     (case rbind (share_snapshot (hk_shares st)) (\<lambda>snap.
           rbind (refresh_shares_in_process c rnd (tr_key_packages snap) (tr_pubkey snap)) (\<lambda>k.
           if rc_vk c (tr_pubkey snap) \<noteq> rc_vk c (snd k) then threshold_err ''intent reshare verifying key mismatch''
           else Inr (snap, k))) of
        Inl e \<Rightarrow> (Inl e, st)
      | Inr (snap, k) \<Rightarrow>
          let st1 = st\<lparr>hk_shares := Some (refreshed snap k)\<rparr> in
          append_hook_event sha (rh_writer h) EvReshareCompleted
            (reshare_payload reason ''frost-secp256k1'' snap (hex_encode (rc_vk c (snd k))) from to st1) st1)"

definition persist_refreshed ::
  "'s reshare_hook \<Rightarrow> tr_names \<Rightarrow> tr_share_state \<Rightarrow> 's hook_state \<Rightarrow> unit res \<times> 's hook_state" where
  "persist_refreshed h names s st =
     (case rh_port h of
        None \<Rightarrow> (Inr (), st)
      | Some port \<Rightarrow> (case persist_tr_shares names port s (hk_store st) of (r, t) \<Rightarrow> (r, st\<lparr>hk_store := t\<rparr>)))"

definition refresh_channels_taproot ::
  "(string \<Rightarrow> string) \<Rightarrow> reshare_crate \<Rightarrow> (string \<Rightarrow> string) \<Rightarrow> 's reshare_hook \<Rightarrow> string \<Rightarrow> string option \<Rightarrow> string option
     \<Rightarrow> 's hook_state \<Rightarrow> unit res \<times> 's hook_state" where
  "refresh_channels_taproot sha c rnd h reason from to st =
     (case hk_channels st of
        None \<Rightarrow> (Inr (), st)
      | Some None \<Rightarrow> (Inr (), st)
      | Some (Some snap) \<Rightarrow>
          (case rbind (refresh_tr_shares_in_process c rnd (tr_key_packages snap) (tr_pubkey snap)) (\<lambda>k.
                if rc_vk c (snd k) \<noteq> rc_vk c (tr_pubkey snap)
                then threshold_err ''CHANNELS tr reshare verifying key mismatch (deposit would change)''
                else Inr k) of
             Inl e \<Rightarrow> (Inl e, st)
           | Inr k \<Rightarrow>
               (case persist_refreshed h channels_names (refreshed snap k) st of
                  (Inl e, st1) \<Rightarrow> (Inl e, st1)
                | (Inr _, st1) \<Rightarrow>
                    let st2 = st1\<lparr>hk_channels := Some (Some (refreshed snap k))\<rparr> in
                    append_hook_event sha (rh_writer h) EvReshareCompleted
                      (reshare_payload reason ''frost-secp256k1-tr-channels'' snap (hex_encode (rc_vk c (snd k))) from to st2) st2)))"

definition refresh_taproot ::
  "(string \<Rightarrow> string) \<Rightarrow> reshare_crate \<Rightarrow> (string \<Rightarrow> string) \<Rightarrow> (string \<Rightarrow> string) \<Rightarrow> 's reshare_hook \<Rightarrow> string \<Rightarrow> string option
     \<Rightarrow> string option \<Rightarrow> 's hook_state \<Rightarrow> unit res \<times> 's hook_state" where
  "refresh_taproot sha c rnd rnd2 h reason from to st =
     (case hk_tr st of
        None \<Rightarrow> (Inr (), st)
      | Some snap \<Rightarrow>
          (case rbind (refresh_tr_shares_in_process c rnd (tr_key_packages snap) (tr_pubkey snap)) (\<lambda>k.
                if rc_vk c (snd k) \<noteq> rc_vk c (tr_pubkey snap)
                then threshold_err ''tr reshare verifying key mismatch (deposit would change)''
                else Inr k) of
             Inl e \<Rightarrow> (Inl e, st)
           | Inr k \<Rightarrow>
               (case persist_refreshed h users_names (refreshed snap k) st of
                  (Inl e, st1) \<Rightarrow> (Inl e, st1)
                | (Inr _, st1) \<Rightarrow>
                    let st2 = st1\<lparr>hk_tr := Some (refreshed snap k)\<rparr> in
                    (case append_hook_event sha (rh_writer h) EvReshareCompleted
                            (reshare_payload reason ''frost-secp256k1-tr'' snap (hex_encode (rc_vk c (snd k))) from to st2) st2 of
                       (Inl e, st3) \<Rightarrow> (Inl e, st3)
                     | (Inr _, st3) \<Rightarrow> refresh_channels_taproot sha c rnd2 h reason from to st3))))"

text \<open>\<open>c\<close> is the crate of the intent suite, \<open>ct\<close> that of the Taproot suite; \<open>rnd k\<close> is the randomness of the
  \<open>k\<close>-th refresh.\<close>

definition run_reshare ::
  "(string \<Rightarrow> string) \<Rightarrow> reshare_crate \<Rightarrow> reshare_crate \<Rightarrow> (nat \<Rightarrow> string \<Rightarrow> string) \<Rightarrow> 's reshare_hook \<Rightarrow> string
     \<Rightarrow> string option \<Rightarrow> string option \<Rightarrow> string list \<Rightarrow> 's hook_state \<Rightarrow> unit res \<times> 's hook_state" where
  "run_reshare sha c ct rnd h reason from to ps st =
     (if \<not> rh_in_process h
      then (threshold_err (''in-process N-share FROST reshare refused outside dealer_lab; use multi-party wire reshare ''
              @ ''(or VAULT_DKG_MODE=dealer_lab in lab only)''), st)
      else
        let held = (\<lambda>slot. case slot of Some s \<Rightarrow> length (tr_key_packages s) | None \<Rightarrow> 0) in
        if held (hk_shares st) \<le> 1 \<and> held (hk_tr st) \<le> 1
        then (threshold_err (''in-process reshare requires N local shares (dealer_lab); single-share mesh must reshare over ''
                @ ''wire''), st)
        else case refresh_intent sha c (rnd 0) h reason from to st of
          (Inl e, st1) \<Rightarrow> (Inl e, st1)
        | (Inr _, st1) \<Rightarrow>
            (case refresh_taproot sha ct (rnd 1) (rnd 2) h reason from to st1 of
               (Inl e, st2) \<Rightarrow> (Inl e, st2)
             | (Inr _, st2) \<Rightarrow> hook_accrue sha h JobReshareCompleted (reward_participants ps st2) reason st2))"

definition on_day_advance ::
  "(string \<Rightarrow> string) \<Rightarrow> reshare_crate \<Rightarrow> reshare_crate \<Rightarrow> (nat \<Rightarrow> string \<Rightarrow> string) \<Rightarrow> 's reshare_hook \<Rightarrow> string \<Rightarrow> string
     \<Rightarrow> string list \<Rightarrow> 's hook_state \<Rightarrow> unit res \<times> 's hook_state" where
  "on_day_advance sha c ct rnd h from to ps st =
     (case record_day_advanced sha h from to st of
        (Inl e, st1) \<Rightarrow> (Inl e, st1)
      | (Inr _, st1) \<Rightarrow>
          let rewarded = reward_participants ps st1 in
          (case hook_accrue sha h JobDayAdvanced rewarded (from @ ''->'' @ to) st1 of
             (Inl e, st2) \<Rightarrow> (Inl e, st2)
           | (Inr _, st2) \<Rightarrow>
               (case rh_policy h of
                  ReshareDaily \<Rightarrow> run_reshare sha c ct rnd h ''day_advance'' (Some from) (Some to) rewarded st2
                | ReshareManual \<Rightarrow> (Inr (), st2))))"

definition trigger_manual ::
  "(string \<Rightarrow> string) \<Rightarrow> reshare_crate \<Rightarrow> reshare_crate \<Rightarrow> (nat \<Rightarrow> string \<Rightarrow> string) \<Rightarrow> 's reshare_hook \<Rightarrow> string
     \<Rightarrow> 's hook_state \<Rightarrow> unit res \<times> 's hook_state" where
  "trigger_manual sha c ct rnd h reason st = run_reshare sha c ct rnd h reason None None [] st"

section \<open>What a refresh keeps\<close>

text \<open>The keyset after a refresh: the same participants and group key, every package at the threshold the
  first had.\<close>

definition same_keyset :: "reshare_crate \<Rightarrow> tr_share_state \<Rightarrow> tr_share_state \<Rightarrow> bool" where
  "same_keyset c s t \<longleftrightarrow>
     rc_vk c (tr_pubkey t) = rc_vk c (tr_pubkey s) \<and> tr_min_signers t = tr_min_signers s \<and>
     set (bt_keys (tr_key_packages t)) = set (bt_keys (tr_key_packages s))"

definition same_slot :: "reshare_crate \<Rightarrow> tr_share_state option \<Rightarrow> tr_share_state option \<Rightarrow> bool" where
  "same_slot c a b \<longleftrightarrow> (case (a, b) of (None, None) \<Rightarrow> True | (Some s, Some t) \<Rightarrow> same_keyset c s t | _ \<Rightarrow> False)"

lemma same_slot_refl [simp]: "same_slot c a a"
  by (cases a) (simp_all add: same_slot_def same_keyset_def)

lemma same_slot_trans: "same_slot c x y \<Longrightarrow> same_slot c y z \<Longrightarrow> same_slot c x z"
  by (auto simp: same_slot_def same_keyset_def split: option.splits)

lemma refresh_part3s_ok:
  "refresh_part3s w c mn packages r2s inbox old_keys old_pub is (keys, pub) = Inr (keys', pub') \<Longrightarrow>
     set (bt_keys keys') = set (bt_keys keys) \<union> set is \<and>
     (pub' = pub \<and> is = [] \<or> (\<exists>p. pub' = Some p \<and> rc_vk c p = rc_vk c old_pub)) \<and>
     (\<forall>i kp. bt_get i keys' = Some kp \<longrightarrow> bt_get i keys = Some kp \<or> rc_key_min c kp = mn)"
proof (induction "is" arbitrary: keys pub)
  case (Cons i "is")
  then obtain kp pk where one: "refresh_one w c mn packages r2s inbox old_keys old_pub i = Inr (kp, pk)"
    and rest: "refresh_part3s w c mn packages r2s inbox old_keys old_pub is (bt_put i kp keys, Some pk) = Inr (keys', pub')"
    by (auto simp: rbind_Inr_iff)
  have k: "rc_key_min c kp = mn" "rc_vk c pk = rc_vk c old_pub"
    using one by (auto simp: refresh_one_def rbind_Inr_iff words_err_def threshold_err_def split: option.splits if_splits)
  from Cons.IH [OF rest] k show ?case by (auto simp: bt_keys_put bt_get_put split: if_splits)
qed simp

text \<open>A refresh that succeeds keeps the group key and the participants, and every new package asks for the
  threshold of the old ones.\<close>

lemma refresh_in_process_ok:
  assumes "refresh_in_process w c rnd old_keys old_pub = Inr (keys, pub)"
  shows "rc_vk c pub = rc_vk c old_pub \<and> set (bt_keys keys) = set (bt_keys old_keys) \<and>
    (\<exists>i kp. (i, kp) \<in> set old_keys \<and> 2 \<le> rc_key_min c kp \<and> (\<forall>j new. bt_get j keys = Some new \<longrightarrow> rc_key_min c new = rc_key_min c kp))"
proof (cases old_keys)
  case (Cons p ps)
  obtain i kp where p: "p = (i, kp)" by (cases p)
  from assms obtain packages r2s inbox pub' where
    t: "refresh_part3s w c (rc_key_min c kp) packages r2s inbox old_keys old_pub (bt_keys old_keys) ([], None) = Inr (keys, pub')"
    and pub: "pub' = Some pub" and mn: "2 \<le> rc_key_min c kp"
    by (auto simp: refresh_in_process_def Cons p Let_def rbind_Inr_iff words_err_def threshold_err_def not_less
        split: if_splits option.splits)
  from refresh_part3s_ok [OF t] pub mn show ?thesis
    by (intro conjI exI [of _ i] exI [of _ kp]) (auto simp: Cons p)
qed (use assms in \<open>simp add: refresh_in_process_def words_err_def threshold_err_def\<close>)

text \<open>Bindings of the hook state by its steps.\<close>

definition hook_kept :: "reshare_crate \<Rightarrow> reshare_crate \<Rightarrow> 's hook_state \<Rightarrow> 's hook_state \<Rightarrow> bool" where
  "hook_kept c ct a b \<longleftrightarrow>
     same_slot c (hk_shares a) (hk_shares b) \<and> same_slot ct (hk_tr a) (hk_tr b) \<and>
     (case (hk_channels a, hk_channels b) of
        (None, None) \<Rightarrow> True | (Some x, Some y) \<Rightarrow> same_slot ct x y | _ \<Rightarrow> False) \<and>
     (\<exists>es. entries (w_ledger (hk_world b)) = entries (w_ledger (hk_world a)) @ es)"

lemma hook_kept_refl [simp]: "hook_kept c ct a a"
  by (simp add: hook_kept_def split: option.split)

lemma hook_kept_trans:
  assumes "hook_kept c ct x y" "hook_kept c ct y z"
  shows "hook_kept c ct x z"
proof -
  have "same_slot c (hk_shares x) (hk_shares z)" "same_slot ct (hk_tr x) (hk_tr z)"
    using assms same_slot_trans unfolding hook_kept_def by blast+
  moreover have "case (hk_channels x, hk_channels z) of
      (None, None) \<Rightarrow> True | (Some a, Some b) \<Rightarrow> same_slot ct a b | _ \<Rightarrow> False"
    using assms same_slot_trans [of ct "the (hk_channels x)" "the (hk_channels y)" "the (hk_channels z)"]
    by (cases "hk_channels x"; cases "hk_channels y"; cases "hk_channels z") (simp_all add: hook_kept_def)
  moreover have "\<exists>es. entries (w_ledger (hk_world z)) = entries (w_ledger (hk_world x)) @ es"
    using assms unfolding hook_kept_def by (metis append.assoc)
  ultimately show ?thesis by (simp add: hook_kept_def)
qed

lemma append_event_grows: "\<exists>es. entries (snd (append_event sha ep k payload writer l)) = entries l @ es"
  by (auto simp: append_event_def append_entry_def Let_def split: option.splits)

lemma run_hook_grows: "\<exists>es. entries (w_ledger (snd (run_hook sha gov job ps ctx w))) = entries (w_ledger w) @ es"
proof (cases gov)
  case (Some g)
  obtain writer cfg where g: "g = (writer, cfg)" by (cases g)
  have "\<exists>es. entries (w_ledger (snd (accrue_governance_work sha writer cfg job ps ctx w))) = entries (w_ledger w) @ es"
    using append_event_grows [of sha _ EvGovernanceRewardAccrued _ writer "w_ledger w"]
    by (auto simp: accrue_governance_work_def split: prod.splits sum.splits) (metis snd_conv)+
  then show ?thesis by (auto simp: run_hook_def Some g split: prod.splits sum.splits)
qed (simp add: run_hook_def)

lemma append_hook_event_kept: "hook_kept c ct st (snd (append_hook_event sha writer k payload st))"
proof -
  obtain r l where l: "append_event sha (ep_number (l_epoch (w_ledger (hk_world st)))) k payload writer (w_ledger (hk_world st)) = (r, l)"
    by fastforce
  then have "\<exists>es. entries l = entries (w_ledger (hk_world st)) @ es"
    using append_event_grows by (metis snd_conv)
  then show ?thesis by (simp add: append_hook_event_def l hook_kept_def split: option.split)
qed

lemma hook_accrue_kept: "hook_kept c ct st (snd (hook_accrue sha h job ps ctx st))"
proof -
  obtain r w where w: "run_hook sha (rh_governance h) job ps ctx (hk_world st) = (r, w)" by fastforce
  then have "\<exists>es. entries (w_ledger w) = entries (w_ledger (hk_world st)) @ es"
    using run_hook_grows by (metis snd_conv)
  then show ?thesis by (simp add: hook_accrue_def w hook_kept_def split: option.split)
qed

lemma persist_refreshed_kept: "hook_kept c ct st (snd (persist_refreshed h names s st))"
  by (auto simp: persist_refreshed_def hook_kept_def split: option.split prod.split)

lemma refreshed_same:
  assumes "refresh_in_process w c rnd (tr_key_packages s) (tr_pubkey s) = Inr k"
  shows "same_keyset c s (refreshed s k)"
  using refresh_in_process_ok [of w c rnd "tr_key_packages s" "tr_pubkey s" "fst k" "snd k"] assms
  by (simp add: same_keyset_def refreshed_def)

lemma refresh_intent_kept: "hook_kept c ct st (snd (refresh_intent sha c rnd h reason from to st))"
proof (cases "rbind (share_snapshot (hk_shares st)) (\<lambda>snap.
      rbind (refresh_shares_in_process c rnd (tr_key_packages snap) (tr_pubkey snap)) (\<lambda>k.
      if rc_vk c (tr_pubkey snap) \<noteq> rc_vk c (snd k) then threshold_err ''intent reshare verifying key mismatch''
      else Inr (snap, k)))")
  case (Inr v)
  obtain snap k where v: "v = (snap, k)" by (cases v)
  have s: "hk_shares st = Some snap" "refresh_in_process plain_words c rnd (tr_key_packages snap) (tr_pubkey snap) = Inr k"
    using Inr unfolding v
    by (auto simp: rbind_Inr_iff share_snapshot_def threshold_err_def refresh_shares_in_process_def split: option.splits if_splits)
  have "hook_kept c ct st (st\<lparr>hk_shares := Some (refreshed snap k)\<rparr>)"
    using refreshed_same [OF s(2)] s(1) by (simp add: hook_kept_def same_slot_def split: option.split)
  then show ?thesis
    unfolding refresh_intent_def Inr by (simp add: v Let_def hook_kept_trans [OF _ append_hook_event_kept])
qed (simp add: refresh_intent_def)

lemma refresh_channels_kept: "hook_kept c ct st (snd (refresh_channels_taproot sha ct rnd h reason from to st))"
proof (cases "\<exists>snap. hk_channels st = Some (Some snap)")
  case True
  then obtain snap where snap: "hk_channels st = Some (Some snap)" by blast
  show ?thesis
  proof (cases "rbind (refresh_tr_shares_in_process ct rnd (tr_key_packages snap) (tr_pubkey snap)) (\<lambda>k.
      if rc_vk ct (snd k) \<noteq> rc_vk ct (tr_pubkey snap)
      then threshold_err ''CHANNELS tr reshare verifying key mismatch (deposit would change)'' else Inr k)")
    case (Inr k)
    then have k: "refresh_in_process tr_words ct rnd (tr_key_packages snap) (tr_pubkey snap) = Inr k"
      by (auto simp: rbind_Inr_iff threshold_err_def refresh_tr_shares_in_process_def split: if_splits)
    obtain q st1 where p: "persist_refreshed h channels_names (refreshed snap k) st = (q, st1)" by fastforce
    have 1: "hook_kept c ct st st1" using persist_refreshed_kept p by (metis snd_conv)
    have "hk_channels st1 = Some (Some snap)"
      using p snap by (auto simp: persist_refreshed_def split: option.splits prod.splits)
    then have "hook_kept c ct st1 (st1\<lparr>hk_channels := Some (Some (refreshed snap k))\<rparr>)"
      using refreshed_same [OF k] by (simp add: hook_kept_def same_slot_def)
    then show ?thesis
      unfolding refresh_channels_taproot_def snap option.case Inr sum.case p prod.case
      using 1 by (cases q) (simp_all add: Let_def hook_kept_trans [OF _ append_hook_event_kept] hook_kept_trans [OF 1])
  qed (simp add: refresh_channels_taproot_def snap)
next
  case False
  then have "refresh_channels_taproot sha ct rnd h reason from to st = (Inr (), st)"
    by (auto simp: refresh_channels_taproot_def split: option.splits)
  then show ?thesis by simp
qed

lemma refresh_taproot_kept: "hook_kept c ct st (snd (refresh_taproot sha ct rnd rnd2 h reason from to st))"
proof (cases "hk_tr st")
  case (Some snap)
  show ?thesis
  proof (cases "rbind (refresh_tr_shares_in_process ct rnd (tr_key_packages snap) (tr_pubkey snap)) (\<lambda>k.
      if rc_vk ct (snd k) \<noteq> rc_vk ct (tr_pubkey snap)
      then threshold_err ''tr reshare verifying key mismatch (deposit would change)'' else Inr k)")
    case (Inr k)
    then have k: "refresh_in_process tr_words ct rnd (tr_key_packages snap) (tr_pubkey snap) = Inr k"
      by (auto simp: rbind_Inr_iff threshold_err_def refresh_tr_shares_in_process_def split: if_splits)
    obtain q st1 where p: "persist_refreshed h users_names (refreshed snap k) st = (q, st1)" by fastforce
    have 1: "hook_kept c ct st st1" using persist_refreshed_kept p by (metis snd_conv)
    have tr: "hk_tr st1 = Some snap"
      using p Some by (auto simp: persist_refreshed_def split: option.splits prod.splits)
    let ?st2 = "st1\<lparr>hk_tr := Some (refreshed snap k)\<rparr>"
    have 2: "hook_kept c ct st1 ?st2"
      using refreshed_same [OF k] tr by (simp add: hook_kept_def same_slot_def split: option.split)
    obtain r3 st3 where e: "append_hook_event sha (rh_writer h) EvReshareCompleted
        (reshare_payload reason ''frost-secp256k1-tr'' snap (hex_encode (rc_vk ct (snd k))) from to ?st2) ?st2 = (r3, st3)"
      by fastforce
    have 3: "hook_kept c ct st st3"
      using hook_kept_trans [OF hook_kept_trans [OF 1 2]] append_hook_event_kept e by (metis snd_conv)
    show ?thesis
      unfolding refresh_taproot_def Some option.case Inr sum.case p prod.case
      using 1 3 hook_kept_trans [OF 3 refresh_channels_kept]
      by (cases q; cases r3) (simp_all add: Let_def e)
  qed (simp add: refresh_taproot_def Some)
qed (simp add: refresh_taproot_def)

lemma run_reshare_kept: "hook_kept c ct st (snd (run_reshare sha c ct rnd h reason from to ps st))"
proof -
  obtain r1 st1 where i: "refresh_intent sha c (rnd 0) h reason from to st = (r1, st1)" by fastforce
  have 1: "hook_kept c ct st st1" using refresh_intent_kept i by (metis snd_conv)
  obtain r2 st2 where t: "refresh_taproot sha ct (rnd 1) (rnd 2) h reason from to st1 = (r2, st2)" by fastforce
  have 2: "hook_kept c ct st st2" using hook_kept_trans [OF 1] refresh_taproot_kept t by (metis snd_conv)
  show ?thesis
    using 1 2 hook_kept_trans [OF 2 hook_accrue_kept]
    by (cases r1; cases r2) (simp_all add: run_reshare_def Let_def i t del: One_nat_def)
qed

text \<open>An event the ledger took.\<close>

definition logs_event :: "event_kind \<Rightarrow> 's hook_state \<Rightarrow> 's hook_state \<Rightarrow> bool" where
  "logs_event k a b \<longleftrightarrow>
     (\<exists>es. entries (w_ledger (hk_world b)) = entries (w_ledger (hk_world a)) @ es \<and> k \<in> le_kind ` set es)"

lemma append_hook_event_logs:
  "append_hook_event sha writer k payload st = (Inr (), st') \<Longrightarrow> logs_event k st st'"
  by (auto simp: append_hook_event_def append_event_def append_entry_def logs_event_def Let_def
      split: option.splits prod.splits if_splits)

lemma logs_event_mono:
  assumes "logs_event k x y" "hook_kept c ct y z"
  shows "logs_event k x z"
  using assms by (auto simp: logs_event_def hook_kept_def)

lemma logs_event_pre:
  assumes "hook_kept c ct x y" "logs_event k y z"
  shows "logs_event k x z"
  using assms by (auto simp: logs_event_def hook_kept_def)

lemma run_reshare_ok:
  assumes "run_reshare sha c ct rnd h reason from to ps st = (Inr (), st')"
  shows "rh_in_process h \<and> logs_event EvReshareCompleted st st'"
proof -
  obtain r1 st1 where i: "refresh_intent sha c (rnd 0) h reason from to st = (r1, st1)" by fastforce
  obtain r2 st2 where t: "refresh_taproot sha ct (rnd 1) (rnd 2) h reason from to st1 = (r2, st2)" by fastforce
  have h: "rh_in_process h" and r: "r1 = Inr ()" "r2 = Inr ()"
    and a: "hook_accrue sha h JobReshareCompleted (reward_participants ps st2) reason st2 = (Inr (), st')"
    using assms by (auto simp: run_reshare_def Let_def i t threshold_err_def simp del: One_nat_def split: if_splits sum.splits)
  have "logs_event EvReshareCompleted st st1"
  proof -
    from i r obtain snap k where "append_hook_event sha (rh_writer h) EvReshareCompleted
        (reshare_payload reason ''frost-secp256k1'' snap (hex_encode (rc_vk c (snd k))) from to
          (st\<lparr>hk_shares := Some (refreshed snap k)\<rparr>)) (st\<lparr>hk_shares := Some (refreshed snap k)\<rparr>) = (Inr (), st1)"
      by (auto simp: refresh_intent_def Let_def split: sum.splits)
    from append_hook_event_logs [OF this] show ?thesis by (simp add: logs_event_def)
  qed
  moreover have "hook_kept c ct st1 st2" using refresh_taproot_kept t by (metis snd_conv)
  moreover have "hook_kept c ct st2 st'" using hook_accrue_kept a by (metis snd_conv)
  ultimately show ?thesis using h logs_event_mono by blast
qed

lemma record_day_advanced_kept: "hook_kept c ct st (snd (record_day_advanced sha h from to st))"
  by (simp add: record_day_advanced_def append_hook_event_kept)

lemma record_day_advanced_logs:
  "record_day_advanced sha h from to st = (Inr (), st') \<Longrightarrow> logs_event EvDayAdvanced st st'"
  unfolding record_day_advanced_def by (rule append_hook_event_logs)

text \<open>Outside the dealer laboratory no reshare runs, and nothing changes.\<close>

lemma run_reshare_refused:
  "\<not> rh_in_process h \<Longrightarrow> \<exists>e. run_reshare sha c ct rnd h reason from to ps st = (Inl (ThresholdError e), st)"
  by (simp add: run_reshare_def threshold_err_def)

text \<open>There, under the daily policy, the advance of the day reports an error although it is on the ledger.\<close>

lemma daily_hook_fails_in_production:
  assumes "rh_policy h = ReshareDaily" "\<not> rh_in_process h" "rh_governance h = None"
    and "record_day_advanced sha h from to st = (Inr (), st1)"
  shows "\<exists>e. on_day_advance sha c ct rnd h from to ps st = (Inl (ThresholdError e), st1) \<and> logs_event EvDayAdvanced st st1"
  using run_reshare_refused [OF assms(2)] record_day_advanced_logs [OF assms(4)]
  by (simp add: on_day_advance_def assms hook_accrue_def run_hook_def)

text \<open>C34: whatever the FROST crate answers and however a day advance ends, the participants, the recorded
  thresholds and the group keys of the three keysets are unchanged and the ledger only grows.  When the advance
  succeeds, the ledger has taken a day-advanced event, and under the daily policy the process holds all shares
  (the dealer laboratory) and the ledger has taken a reshare-completed event.\<close>

theorem day_advance_keeps_keys:
  assumes "on_day_advance sha c ct rnd h from to ps st = (r, st')"
  shows "hook_kept c ct st st' \<and>
    (r = Inr () \<longrightarrow> logs_event EvDayAdvanced st st' \<and>
       (rh_policy h = ReshareDaily \<longrightarrow> rh_in_process h \<and> logs_event EvReshareCompleted st st'))"
proof -
  obtain r1 st1 where d: "record_day_advanced sha h from to st = (r1, st1)" by fastforce
  have 1: "hook_kept c ct st st1" using record_day_advanced_kept d by (metis snd_conv)
  obtain r2 st2 where a: "hook_accrue sha h JobDayAdvanced (reward_participants ps st1) (from @ ''->'' @ to) st1 = (r2, st2)"
    by fastforce
  have 2: "hook_kept c ct st1 st2" using hook_accrue_kept a by (metis snd_conv)
  obtain r3 st3 where m: "run_reshare sha c ct rnd h ''day_advance'' (Some from) (Some to) (reward_participants ps st1) st2
      = (r3, st3)" by fastforce
  have 3: "hook_kept c ct st2 st3" using run_reshare_kept m by (metis snd_conv)
  note k = 1 hook_kept_trans [OF 1 2] hook_kept_trans [OF hook_kept_trans [OF 1 2] 3]
  have eq: "on_day_advance sha c ct rnd h from to ps st =
      (case r1 of Inl e \<Rightarrow> (Inl e, st1) | Inr _ \<Rightarrow> (case r2 of Inl e \<Rightarrow> (Inl e, st2)
        | Inr _ \<Rightarrow> (case rh_policy h of ReshareDaily \<Rightarrow> (r3, st3) | ReshareManual \<Rightarrow> (Inr (), st2))))"
    by (simp add: on_day_advance_def d a [simplified append.simps] m Let_def split: sum.split reshare_policy.split)
  have log: "r1 = Inr () \<Longrightarrow> logs_event EvDayAdvanced st st1" using record_day_advanced_logs d by blast
  show ?thesis
  proof (cases "r1 = Inr () \<and> r2 = Inr ()")
    case True
    then have l2: "logs_event EvDayAdvanced st st2" using logs_event_mono [OF log 2] by blast
    show ?thesis
    proof (cases "rh_policy h")
      case ReshareDaily
      then have r: "r = r3" "st' = st3" using eq assms True by auto
      have "rh_in_process h \<and> logs_event EvReshareCompleted st st3" if "r3 = Inr ()"
        using run_reshare_ok m that logs_event_pre [OF k(2)] by metis
      then show ?thesis using r k(3) logs_event_mono [OF l2 3] by blast
    qed (use eq assms True k l2 in auto)
  next
    case False
    then show ?thesis using eq assms k by (cases r1; cases r2) auto
  qed
qed

text \<open>A laboratory hook: two local shares, the daily policy, no store and no bounties.\<close>

definition demo_hook :: "unit reshare_hook" where
  "demo_hook = \<lparr>rh_policy = ReshareDaily, rh_writer = ''a'', rh_port = None, rh_governance = None, rh_in_process = True\<rparr>"

definition demo_hook_state :: "unit hook_state" where
  "demo_hook_state =
     \<lparr>hk_shares = Some \<lparr>tr_key_packages = [(''1'', ''k1''), (''2'', ''k2'')], tr_pubkey = ''vk'', tr_min_signers = 2\<rparr>,
      hk_tr = None, hk_channels = None, hk_store = (),
      hk_world = lab_world \<lparr>l_constitution = genesis_base 1 2 100 splits_lab_dry_run,
        l_epoch = \<lparr>ep_number = 0, ep_constitution_hash = [], active_set = [''a'', ''b'']\<rparr>, entries = [], proposals = (\<lambda>_. None)\<rparr>\<rparr>"

definition demo_hook_crate :: reshare_crate where
  "demo_hook_crate = demo_refresh\<lparr>rc_part2 := (\<lambda>s ps. Some (s, map (\<lambda>p. (fst p, s)) ps)),
     rc_part3 := (\<lambda>s r1 r2 pk k. Some (k @ ''+'', pk))\<rparr>"

definition demo_advance :: "unit res \<times> unit hook_state" where
  "demo_advance = on_day_advance (\<lambda>s. ''h'') demo_hook_crate demo_hook_crate (\<lambda>n i. i) demo_hook ''2026-01-01''
     ''2026-01-02'' [] demo_hook_state"

lemma demo_advance_ok: "fst demo_advance = Inr ()"
  by code_simp

theorem day_advance_keeps_keys_witness:
  "hook_kept demo_hook_crate demo_hook_crate demo_hook_state (snd demo_advance) \<and>
   logs_event EvDayAdvanced demo_hook_state (snd demo_advance) \<and>
   logs_event EvReshareCompleted demo_hook_state (snd demo_advance)"
proof -
  have "on_day_advance (\<lambda>s. ''h'') demo_hook_crate demo_hook_crate (\<lambda>n i. i) demo_hook ''2026-01-01''
     ''2026-01-02'' [] demo_hook_state = (Inr (), snd demo_advance)"
    using demo_advance_ok unfolding demo_advance_def by (metis prod.collapse)
  from day_advance_keeps_keys [OF this] show ?thesis by (simp add: demo_hook_def)
qed

end
