(* ===== verification/Health.thy ===== *)
theory Health
  imports Auth NodeTier EconomyOps
begin

text \<open>
  Liveness: the peer directory (\<open>adapters/peer_memory.rs\<close>), the probed online count
  (\<open>application/online_probe.rs\<close>), node health (\<open>domain/health.rs\<close>, \<open>application/health.rs\<close>), the ping report
  (\<open>application/ping_peer.rs\<close>) and the metrics text (\<open>application/metrics.rs\<close>).  The network is two
  functions: whether a TCP connect to an address succeeds, and the status a health URL answers.
\<close>

section \<open>The peer directory\<close>

text \<open>A hash map by node id; nothing below depends on the order of its values.\<close>

type_synonym directory = "peer_info btmap"

definition upsert_peer :: "peer_info \<Rightarrow> directory \<Rightarrow> unit res \<times> directory" where
  "upsert_peer p d = (Inr (), bt_put (pi_id p) p d)"

definition list_peers :: "directory \<Rightarrow> peer_info list res" where
  "list_peers d = Inr (bt_vals d)"

definition directory_ping :: "string \<Rightarrow> directory \<Rightarrow> unit res" where
  "directory_ping i d = (if bt_get i d \<noteq> None then Inr () else Inl (PeerNotFound i))"

record ping_report =
  pr_peer :: string
  pr_ok :: bool
  pr_verified :: bool
  pr_at :: u64

text \<open>\<open>issue\<close> and \<open>verify\<close> are the vault's own attestation adapter, on its own measurement.\<close>

definition ping_peer :: "'q res \<Rightarrow> ('q \<Rightarrow> unit res) \<Rightarrow> u64 \<Rightarrow> string \<Rightarrow> directory \<Rightarrow> ping_report res" where
  "ping_peer issue verify now i d =
     rbind (directory_ping i d) (\<lambda>_. rbind issue (\<lambda>q. rbind (verify q) (\<lambda>_.
       Inr \<lparr>pr_peer = i, pr_ok = True, pr_verified = True, pr_at = now\<rparr>)))"

section \<open>Who is online\<close>

text \<open>\<open>dial\<close>: the address resolves and its first socket address accepts a connection.\<close>

definition cheap_tcp :: "(string \<Rightarrow> bool) \<Rightarrow> string \<Rightarrow> bool" where
  "cheap_tcp dial addr =
     (let t = trim addr in
      if t = [] \<or> str_contains ''.onion'' t then False
      else dial (if str_contains '':'' t then t else t @ '':7701''))"

record online_probe =
  op_health_urls :: "string list"
  op_max_online :: "nat option"
  op_lab_static :: "nat option"

definition probe_new :: "string list \<Rightarrow> nat option \<Rightarrow> online_probe" where
  "probe_new urls mx = \<lparr>op_health_urls = urls, op_max_online = mx, op_lab_static = None\<rparr>"

definition probe_lab_static :: "nat \<Rightarrow> online_probe" where
  "probe_lab_static n = \<lparr>op_health_urls = [], op_max_online = None, op_lab_static = Some n\<rparr>"

text \<open>\<open>answers\<close>: a GET of the URL gives a success status within half a second.\<close>

definition online_count :: "(string \<Rightarrow> bool) \<Rightarrow> (string \<Rightarrow> bool) \<Rightarrow> directory \<Rightarrow> online_probe \<Rightarrow> nat" where
  "online_count dial answers d p =
     (case op_lab_static p of
        Some n \<Rightarrow> n
      | None \<Rightarrow>
          let online =
            (if op_health_urls p \<noteq> [] then foldl (\<lambda>n u. if answers u then n + 1 else n) 1 (op_health_urls p)
             else case list_peers d of
               Inr ps \<Rightarrow> foldl (\<lambda>n q. if cheap_tcp dial (pi_address q) then n + 1 else n) 1 ps
             | Inl _ \<Rightarrow> 1) in
          (case op_max_online p of Some mx \<Rightarrow> min online mx | None \<Rightarrow> online))"

section \<open>Node health\<close>

datatype health_status = HealthStarting | HealthReady | HealthDegraded

fun health_str :: "health_status \<Rightarrow> string" where
  "health_str HealthStarting = ''starting''"
| "health_str HealthReady = ''ready''"
| "health_str HealthDegraded = ''degraded''"

datatype reachability = ReachNone | ReachDirectory | ReachProbed nat nat

fun reach_str :: "reachability \<Rightarrow> string" where
  "reach_str ReachNone = ''none''"
| "reach_str ReachDirectory = ''directory_only''"
| "reach_str (ReachProbed _ _) = ''probed''"

record node_health =
  nh_node :: string
  nh_status :: health_status
  nh_tier :: string
  nh_attestation :: string
  nh_tee :: bool
  nh_peer_count :: nat
  nh_roster :: "string list"
  nh_reach :: reachability
  nh_reachable :: "nat option"
  nh_members :: nat
  nh_threshold :: nat
  nh_local_ready :: bool
  nh_financial_ready :: bool

definition health_public_json :: "node_health \<Rightarrow> string" where
  "health_public_json h =
     ''{'' @ json_string ''status'' @ '':'' @ quoted (health_str (nh_status h))
     @ '','' @ json_string ''local_ready'' @ '':'' @ bool_str (nh_local_ready h)
     @ '','' @ json_string ''financial_ready'' @ '':'' @ bool_str (nh_financial_ready h)
     @ '','' @ json_string ''peer_count'' @ '':'' @ dec (nh_peer_count h)
     @ '','' @ json_string ''configured_members'' @ '':'' @ dec (nh_members h)
     @ '','' @ json_string ''required_threshold'' @ '':'' @ dec (nh_threshold h)
     @ '','' @ json_string ''peer_reachability'' @ '':'' @ quoted (reach_str (nh_reach h)) @ ''}''"

definition health_json :: "node_health \<Rightarrow> string" where
  "health_json h =
     ''{'' @ json_string ''node_id'' @ '':'' @ json_string (nh_node h)
     @ '','' @ json_string ''status'' @ '':'' @ quoted (health_str (nh_status h))
     @ '','' @ json_string ''local_ready'' @ '':'' @ bool_str (nh_local_ready h)
     @ '','' @ json_string ''financial_ready'' @ '':'' @ bool_str (nh_financial_ready h)
     @ '','' @ json_string ''node_tier'' @ '':'' @ json_string (nh_tier h)
     @ '','' @ json_string ''attestation_mode'' @ '':'' @ json_string (nh_attestation h)
     @ '','' @ json_string ''tee_available'' @ '':'' @ bool_str (nh_tee h)
     @ '','' @ json_string ''peer_count'' @ '':'' @ dec (nh_peer_count h)
     @ '','' @ json_string ''configured_members'' @ '':'' @ dec (nh_members h)
     @ '','' @ json_string ''required_threshold'' @ '':'' @ dec (nh_threshold h)
     @ '','' @ json_string ''genesis_roster'' @ '':['' @ join_with '','' (map json_string (nh_roster h)) @ '']''
     @ '','' @ json_string ''peer_reachability'' @ '':'' @ quoted (reach_str (nh_reach h))
     @ '','' @ json_string ''peers_reachable'' @ '':'' @ (case nh_reachable h of Some n \<Rightarrow> dec n | None \<Rightarrow> ''null'') @ ''}''"

record get_health =
  gh_node :: string
  gh_mode :: attestation_mode
  gh_tier :: node_tier
  gh_tee :: bool
  gh_roster :: "string list"
  gh_probe :: bool
  gh_members :: nat
  gh_threshold :: nat
  gh_online :: "online_probe option"

definition health_with_roster :: "string \<Rightarrow> attestation_mode \<Rightarrow> node_tier \<Rightarrow> bool \<Rightarrow> string list \<Rightarrow> get_health" where
  "health_with_roster node md tier tee roster =
     \<lparr>gh_node = node, gh_mode = md, gh_tier = tier, gh_tee = tee, gh_roster = roster, gh_probe = False, gh_members = 1,
      gh_threshold = 1, gh_online = None\<rparr>"

definition with_constitution :: "nat \<Rightarrow> nat \<Rightarrow> get_health \<Rightarrow> get_health" where
  "with_constitution members threshold g =
     (let n = max members 1 in g\<lparr>gh_members := n, gh_threshold := min (max threshold 1) n\<rparr>)"

definition with_online_status :: "online_probe \<Rightarrow> get_health \<Rightarrow> get_health" where
  "with_online_status p g = g\<lparr>gh_online := Some p\<rparr>"

definition health_execute :: "(string \<Rightarrow> bool) \<Rightarrow> (string \<Rightarrow> bool) \<Rightarrow> directory \<Rightarrow> get_health \<Rightarrow> node_health res" where
  "health_execute dial answers d g =
     rbind (list_peers d) (\<lambda>ps.
     let (reach, reachable, status) =
       (if ps = [] then (ReachNone, None, HealthStarting)
        else if gh_probe g then
          let r = length (filter (\<lambda>q. cheap_tcp dial (pi_address q)) ps) in
          (ReachProbed r (length ps), Some r, if r = 0 then HealthDegraded else HealthReady)
        else (ReachDirectory, None, HealthReady)) in
     Inr \<lparr>nh_node = gh_node g, nh_status = status, nh_tier = tier_str (gh_tier g), nh_attestation = attestation_str (gh_mode g),
        nh_tee = gh_tee g, nh_peer_count = length ps, nh_roster = gh_roster g, nh_reach = reach, nh_reachable = reachable,
        nh_members = gh_members g, nh_threshold = gh_threshold g, nh_local_ready = True,
        nh_financial_ready =
          (case gh_online g of None \<Rightarrow> False | Some p \<Rightarrow> online_count dial answers d p \<ge> gh_threshold g)\<rparr>)"

section \<open>Metrics\<close>

record metrics_counters =
  mc_peer_connected :: u32
  mc_sign_total :: u64
  mc_sign_fail_total :: u64
  mc_reshare_total :: u64
  mc_psbt_rejected_total :: u64

definition metrics_new :: metrics_counters where
  "metrics_new = \<lparr>mc_peer_connected = 0, mc_sign_total = 0, mc_sign_fail_total = 0, mc_reshare_total = 0,
     mc_psbt_rejected_total = 0\<rparr>"

text \<open>No bucket ledger overrides \<open>count_pending_intents\<close>.\<close>

definition count_pending_intents :: "'b \<Rightarrow> u64 res" where
  "count_pending_intents b = Inr 0"

definition metric :: "string \<Rightarrow> string \<Rightarrow> string \<Rightarrow> (string \<times> string) list \<Rightarrow> string" where
  "metric nm help ty rows =
     ''# HELP '' @ nm @ '' '' @ help @ [chr 10] @ ''# TYPE '' @ nm @ '' '' @ ty @ [chr 10]
     @ concat (map (\<lambda>(labels, v). nm @ ''{'' @ labels @ ''} '' @ v @ [chr 10]) rows)"

definition metrics_text :: "string \<Rightarrow> ledger_state \<Rightarrow> 'b option \<Rightarrow> metrics_counters \<Rightarrow> string res" where
  "metrics_text node l buckets m =
     rbind (case buckets of None \<Rightarrow> Inr 0 | Some b \<Rightarrow> count_pending_intents b) (\<lambda>pending.
     let nl = ''node_id='' @ quoted node in
     Inr (metric ''vault_mesh_health'' ''Vault mesh health gauge (1=ready)'' ''gauge'' [(nl, ''1'')]
       @ metric ''vault_frost_sign_total'' ''Total FROST sign operations'' ''counter''
           [(nl @ '',status='' @ quoted ''ok'', dec_u (mc_sign_total m)),
            (nl @ '',status='' @ quoted ''fail'', dec_u (mc_sign_fail_total m))]
       @ metric ''vault_frost_sign_duration_seconds'' ''FROST sign duration histogram placeholder'' ''gauge'' [(nl, ''0.0'')]
       @ metric ''vault_reshare_total'' ''Total reshare events'' ''counter'' [(nl, dec_u (mc_reshare_total m))]
       @ metric ''vault_day_epoch'' ''Current day epoch'' ''gauge'' [(nl, dec_u (ep_number (l_epoch l)))]
       @ metric ''vault_peer_connected'' ''Connected peers count'' ''gauge'' [(nl, dec_u (mc_peer_connected m))]
       @ metric ''vault_intent_consumed_total'' ''Intents consumed'' ''counter''
           [(nl @ '',bucket='' @ quoted ''all'', dec_u pending)]
       @ metric ''vault_psbt_policy_rejected_total'' ''PSBT rejections by reason'' ''counter''
           [(nl @ '',reason='' @ quoted ''policy'', dec_u (mc_psbt_rejected_total m))]))"

section \<open>What readiness means\<close>

lemma foldl_count: "foldl (\<lambda>n u. if P u then n + 1 else n) (k :: nat) xs = k + length (filter P xs)"
  by (induction xs arbitrary: k) auto

text \<open>Who answered a probe.\<close>

definition heard :: "(string \<Rightarrow> bool) \<Rightarrow> (string \<Rightarrow> bool) \<Rightarrow> directory \<Rightarrow> online_probe \<Rightarrow> nat" where
  "heard dial answers d p =
     (if op_health_urls p \<noteq> [] then length (filter answers (op_health_urls p))
      else length (filter (\<lambda>q. cheap_tcp dial (pi_address q)) (bt_vals d)))"

lemma online_count_heard:
  "online_count dial answers d p =
     (case op_lab_static p of Some n \<Rightarrow> n
      | None \<Rightarrow> (case op_max_online p of Some mx \<Rightarrow> min (1 + heard dial answers d p) mx | None \<Rightarrow> 1 + heard dial answers d p))"
  by (simp add: online_count_def heard_def list_peers_def foldl_count split: option.split)

lemma with_constitution_bounds:
  "1 \<le> gh_threshold (with_constitution m t g)" "gh_threshold (with_constitution m t g) \<le> gh_members (with_constitution m t g)"
  by (auto simp: with_constitution_def Let_def)

lemma health_execute_fields:
  assumes "health_execute dial answers d g = Inr h"
  shows "nh_threshold h = gh_threshold g"
    "nh_financial_ready h = (case gh_online g of None \<Rightarrow> False | Some p \<Rightarrow> gh_threshold g \<le> online_count dial answers d p)"
    "nh_status h = (if bt_vals d = [] then HealthStarting
      else if gh_probe g \<and> list_all (\<lambda>q. \<not> cheap_tcp dial (pi_address q)) (bt_vals d) then HealthDegraded else HealthReady)"
proof -
  have f: "filter P xs = [] \<longleftrightarrow> list_all (\<lambda>q. \<not> P q) xs" for P :: "peer_info \<Rightarrow> bool" and xs
    by (induction xs) auto
  show "nh_threshold h = gh_threshold g"
    "nh_financial_ready h = (case gh_online g of None \<Rightarrow> False | Some p \<Rightarrow> gh_threshold g \<le> online_count dial answers d p)"
    "nh_status h = (if bt_vals d = [] then HealthStarting
      else if gh_probe g \<and> list_all (\<lambda>q. \<not> cheap_tcp dial (pi_address q)) (bt_vals d) then HealthDegraded else HealthReady)"
    using assms by (simp_all add: health_execute_def list_peers_def Let_def f split: if_splits) (auto split: if_splits)
qed

text \<open>A vault that reports itself ready for settlement has been answered, by itself and the peers it probed, at
  least as often as the constitution's threshold asks, unless the lab's fixed count is configured; entries
  of the directory that do not answer never count.\<close>

theorem financial_ready_heard:
  assumes "health_execute dial answers d (with_online_status p (with_constitution m t g)) = Inr h" "nh_financial_ready h"
    "op_lab_static p = None"
  shows "min (max t 1) (max m 1) \<le> 1 + heard dial answers d p \<and> nh_threshold h = min (max t 1) (max m 1) \<and>
    nh_status h = (if d = [] then HealthStarting
      else if gh_probe g \<and> list_all (\<lambda>q. \<not> cheap_tcp dial (pi_address q)) (bt_vals d) then HealthDegraded else HealthReady)"
proof -
  have e: "bt_vals d = [] \<longleftrightarrow> d = []" by (simp add: bt_vals_def)
  note h = health_execute_fields [OF assms(1)]
  have th: "nh_threshold h = min (max t 1) (max m 1)"
    by (simp add: h(1) with_online_status_def with_constitution_def Let_def)
  have "nh_threshold h \<le> online_count dial answers d p"
    using assms(2) h(1,2) by (simp add: with_online_status_def)
  then have on: "min (max t 1) (max m 1) \<le> 1 + heard dial answers d p"
    by (auto simp: th online_count_heard assms(3) split: option.splits)
  have "gh_probe (with_online_status p (with_constitution m t g)) = gh_probe g"
    by (simp add: with_online_status_def with_constitution_def Let_def)
  with on th h(3) e show ?thesis by simp
qed

definition demo_directory :: directory where
  "demo_directory = [(''b'', \<lparr>pi_id = ''b'', pi_address = ''10.0.0.2''\<rparr>), (''c'', \<lparr>pi_id = ''c'', pi_address = ''x.onion''\<rparr>)]"

definition demo_health :: get_health where
  "demo_health = with_online_status (probe_new [] None) (with_constitution 3 2 (health_with_roster ''a'' AttSoftware Domestic False []))"

theorem financial_ready_heard_witness:
  "(\<exists>h. health_execute (\<lambda>a. a = ''10.0.0.2:7701'') (\<lambda>_. False) demo_directory demo_health = Inr h \<and>
     nh_financial_ready h \<and> nh_threshold h = 2 \<and> nh_status h = HealthReady)"
proof -
  have "is_ok (health_execute (\<lambda>a. a = ''10.0.0.2:7701'') (\<lambda>_. False) demo_directory demo_health) \<and>
      nh_financial_ready (projr (health_execute (\<lambda>a. a = ''10.0.0.2:7701'') (\<lambda>_. False) demo_directory demo_health))"
    by code_simp
  then obtain h where h: "health_execute (\<lambda>a. a = ''10.0.0.2:7701'') (\<lambda>_. False) demo_directory demo_health = Inr h"
    "nh_financial_ready h" by (auto simp: is_ok_iff)
  from financial_ready_heard [OF h(1) [unfolded demo_health_def] h(2)] h show ?thesis
    by (simp add: probe_new_def health_with_roster_def demo_directory_def)
qed

text \<open>The health endpoint probes the peers' health endpoints before it answers, and gives each half a second:
  \<open>answered v d\<close> says that the endpoint of \<open>v\<close> answers after \<open>d\<close> milliseconds, each of its own probes
  having been answered earlier or timed out.\<close>

definition probe_timeout :: "nat \<Rightarrow> nat" where
  "probe_timeout connect = min connect 500"

inductive answered :: "('v \<Rightarrow> 'v list) \<Rightarrow> nat \<Rightarrow> 'v \<Rightarrow> nat \<Rightarrow> bool" for peers :: "'v \<Rightarrow> 'v list" and limit :: nat where
  "(\<forall>w\<in>set (peers v). (\<exists>e<d. answered peers limit w e) \<or> limit < d) \<Longrightarrow> answered peers limit v d"

text \<open>So vaults that all have peers never hear from each other in time.\<close>

lemma mutual_probes_time_out:
  assumes "\<forall>v. peers v \<noteq> []" "answered peers limit v d"
  shows "limit < d"
  using assms(2)
proof (induction rule: answered.induct)
  case (1 v d)
  obtain w where "w \<in> set (peers v)" using assms(1) by (metis list.set_intros(1) list.exhaust)
  then show ?case using 1 by fastforce
qed

text \<open>The metrics show zero whatever the vault did: nothing takes the counters, and no ledger counts intents.\<close>

lemma metrics_ignore_buckets: "metrics_text node l (Some b) m = metrics_text node l None m"
  by (simp add: metrics_text_def count_pending_intents_def)

end
