(* ===== verification/Lifecycle.thy ===== *)
theory Lifecycle
  imports Quantum DayEpoch
begin

text \<open>
  Lifecycle operations: key metadata and the checks on it (\<open>application/key_lifecycle.rs\<close>), the migration of
  sealed shares between suites (\<open>application/share_migration.rs\<close>) over a port of functions on a store, and the
  controller of the quantum migration (\<open>application/quantum_migration.rs\<close>).  Day epochs compare as text.
\<close>

section \<open>Keys\<close>

datatype key_domain = KeyIdentity | KeyTransport | KeyAudit

fun key_domain_str :: "key_domain \<Rightarrow> string" where
  "key_domain_str KeyIdentity = ''identity''"
| "key_domain_str KeyTransport = ''transport''"
| "key_domain_str KeyAudit = ''audit''"

datatype key_event =
    KeyCreated string key_domain string
  | KeyRotated string string key_domain string
  | KeyExpired string string
  | KeyRevoked string string string

record key_metadata =
  km_id :: string
  km_domain :: key_domain
  km_created :: string
  km_expires :: "string option"
  km_revoked :: "string option"
  km_parent :: "string option"

definition key_expired :: "string \<Rightarrow> key_metadata \<Rightarrow> bool" where
  "key_expired ep k = (case km_expires k of Some e \<Rightarrow> ep > e | None \<Rightarrow> False)"

definition key_revoked :: "key_metadata \<Rightarrow> bool" where
  "key_revoked k = (km_revoked k \<noteq> None)"

definition key_active :: "string \<Rightarrow> key_metadata \<Rightarrow> bool" where
  "key_active ep k =
     (if km_revoked k \<noteq> None then False
      else case km_expires k of
        Some e \<Rightarrow> if ep > e then False else True
      | None \<Rightarrow> True)"

record key_lifecycle =
  kl_identity :: "key_metadata option"
  kl_identity_pq :: "key_metadata option"
  kl_transport :: "key_metadata option"
  kl_transport_pq :: "key_metadata option"
  kl_audit :: "key_metadata option"
  kl_audit_pq :: "key_metadata option"

definition key_lifecycle_new :: key_lifecycle where
  "key_lifecycle_new = \<lparr>kl_identity = None, kl_identity_pq = None, kl_transport = None, kl_transport_pq = None,
     kl_audit = None, kl_audit_pq = None\<rparr>"

definition validate_identity_active :: "string \<Rightarrow> key_lifecycle \<Rightarrow> unit res" where
  "validate_identity_active ep l =
     (case (kl_identity l, kl_identity_pq l) of
        (Some c, Some p) \<Rightarrow>
          if \<not> key_active ep c then Inl (InvalidIntent ''classical identity key expired or revoked'')
          else if \<not> key_active ep p then Inl (InvalidIntent ''PQ identity key expired or revoked'')
          else Inr ()
      | _ \<Rightarrow> Inl (InvalidIntent ''identity keys not yet generated (genesis required)''))"

definition validate_transport_active :: "string \<Rightarrow> key_lifecycle \<Rightarrow> unit res" where
  "validate_transport_active ep l =
     (case (kl_transport l, kl_transport_pq l) of
        (Some c, Some p) \<Rightarrow>
          if \<not> key_active ep c \<or> \<not> key_active ep p then Inl (InvalidIntent ''transport keys expired or revoked'')
          else Inr ()
      | _ \<Rightarrow> Inl (InvalidIntent ''transport keys not yet generated (genesis required)''))"

lemma key_active_iff: "key_active ep k \<longleftrightarrow> \<not> key_revoked k \<and> \<not> key_expired ep k"
  by (auto simp: key_active_def key_revoked_def key_expired_def split: option.splits)

lemma identity_active_iff:
  "validate_identity_active ep l = Inr () \<longleftrightarrow>
     (\<exists>c p. kl_identity l = Some c \<and> kl_identity_pq l = Some p \<and> key_active ep c \<and> key_active ep p)"
  by (auto simp: validate_identity_active_def split: option.splits)

definition dash :: string where
  "dash = [CHR 0xE2, CHR 0x80, CHR 0x94]"

section \<open>Migration of shares between suites\<close>

record 's migration_port =
  mp_detect :: "string \<Rightarrow> 's \<Rightarrow> string list res"
  mp_unseal :: "string \<Rightarrow> string \<Rightarrow> 's \<Rightarrow> string res"
  mp_reseal :: "string \<Rightarrow> string \<Rightarrow> string \<Rightarrow> 's \<Rightarrow> unit res \<times> 's"
  mp_delete :: "string \<Rightarrow> string \<Rightarrow> 's \<Rightarrow> unit res \<times> 's"

definition migrate_one :: "'s migration_port \<Rightarrow> string \<Rightarrow> string \<Rightarrow> string \<Rightarrow> 's \<Rightarrow> unit res \<times> 's" where
  "migrate_one P i old new s =
     (case mp_unseal P i old s of
        Inl e \<Rightarrow> (Inl e, s)
      | Inr x \<Rightarrow>
          (case mp_reseal P i x new s of
             (Inl e, s1) \<Rightarrow> (Inl e, s1)
           | (Inr _, s1) \<Rightarrow>
               (case mp_unseal P i new s1 of
                  Inl e \<Rightarrow> (Inl e, s1)
                | Inr y \<Rightarrow>
                    if y \<noteq> x
                    then (Inl (ShareStoreForbidden (''migration verify failed for '' @ i @ '': plaintext mismatch'')), s1)
                    else mp_delete P i old s1)))"

fun migrate_each :: "'s migration_port \<Rightarrow> string list \<Rightarrow> string \<Rightarrow> string \<Rightarrow> 's \<Rightarrow> unit res \<times> 's" where
  "migrate_each P [] old new s = (Inr (), s)"
| "migrate_each P (i # is) old new s =
     (case migrate_one P i old new s of
        (Inl e, s1) \<Rightarrow> (Inl e, s1)
      | (Inr _, s1) \<Rightarrow> migrate_each P is old new s1)"

definition migrate_all_stale :: "'s migration_port \<Rightarrow> string \<Rightarrow> string \<Rightarrow> 's \<Rightarrow> nat res \<times> 's" where
  "migrate_all_stale P old new s =
     (case mp_detect P old s of
        Inl e \<Rightarrow> (Inl e, s)
      | Inr stale \<Rightarrow>
          if stale = [] then (Inr 0, s)
          else case migrate_each P stale old new s of
            (Inl e, s1) \<Rightarrow> (Inl e, s1)
          | (Inr _, s1) \<Rightarrow> (Inr (length stale), s1))"

definition noop_migration :: "'s migration_port" where
  "noop_migration = \<lparr>mp_detect = (\<lambda>_ _. Inr []),
     mp_unseal = (\<lambda>i _ _. Inl (ShareStoreForbidden (''noop migration cannot unseal '' @ i))),
     mp_reseal = (\<lambda>i _ _ s. (Inl (ShareStoreForbidden (''noop migration cannot reseal '' @ i)), s)),
     mp_delete = (\<lambda>i _ s. (Inl (ShareStoreForbidden (''noop migration cannot delete '' @ i)), s))\<rparr>"

text \<open>What a store promises: an operation on one share under one suite touches nothing else, whether it
  succeeds or not, and a deleted share does not unseal.\<close>

definition migration_laws :: "'s migration_port \<Rightarrow> bool" where
  "migration_laws P \<longleftrightarrow>
     (\<forall>i x u s j v. (j, v) \<noteq> (i, u) \<longrightarrow> mp_unseal P j v (snd (mp_reseal P i x u s)) = mp_unseal P j v s) \<and>
     (\<forall>i u s j v. (j, v) \<noteq> (i, u) \<longrightarrow> mp_unseal P j v (snd (mp_delete P i u s)) = mp_unseal P j v s) \<and>
     (\<forall>i u s. is_ok (fst (mp_delete P i u s)) \<longrightarrow> \<not> is_ok (mp_unseal P i u (snd (mp_delete P i u s))))"

text \<open>One migration: the share is under the new suite, or still under the old one; the others are as before.\<close>

lemma migrate_one_spec:
  assumes P: "migration_laws P" and n: "old \<noteq> new" and r: "migrate_one P i old new s = (r, s')"
  shows "\<forall>j v. j \<noteq> i \<longrightarrow> mp_unseal P j v s' = mp_unseal P j v s"
    "is_ok r \<Longrightarrow> \<exists>x. mp_unseal P i old s = Inr x \<and> mp_unseal P i new s' = Inr x \<and> \<not> is_ok (mp_unseal P i old s')"
    "mp_unseal P i old s = Inr x \<Longrightarrow> mp_unseal P i old s' = Inr x \<or> mp_unseal P i new s' = Inr x"
    "\<not> is_ok (mp_unseal P i old s) \<Longrightarrow> s' = s \<and> \<not> is_ok r"
proof -
  have re: "(j, v) \<noteq> (k, u) \<Longrightarrow> mp_unseal P j v (snd (mp_reseal P k x u t)) = mp_unseal P j v t" for j v k u x t
    using P unfolding migration_laws_def by blast
  have de: "(j, v) \<noteq> (k, u) \<Longrightarrow> mp_unseal P j v (snd (mp_delete P k u t)) = mp_unseal P j v t" for j v k u t
    using P unfolding migration_laws_def by blast
  have gone: "is_ok (fst (mp_delete P k u t)) \<Longrightarrow> \<not> is_ok (mp_unseal P k u (snd (mp_delete P k u t)))" for k u t
    using P unfolding migration_laws_def by blast
  have "(\<exists>e. mp_unseal P i old s = Inl e \<and> s' = s \<and> r = Inl e) \<or>
      (\<exists>y q. mp_unseal P i old s = Inr y \<and> \<not> is_ok r \<and> mp_reseal P i y new s = (q, s')) \<or>
      (\<exists>y q t. mp_unseal P i old s = Inr y \<and> mp_reseal P i y new s = (q, t) \<and> mp_unseal P i new t = Inr y \<and>
         mp_delete P i old t = (r, s'))"
    using r by (auto simp: migrate_one_def split: sum.splits prod.splits if_splits)
  then consider (unread) e where "mp_unseal P i old s = Inl e" "s' = s" "r = Inl e"
    | (kept) y where "mp_unseal P i old s = Inr y" "\<not> is_ok r" "s' = snd (mp_reseal P i y new s)"
    | (moved) y t where "mp_unseal P i old s = Inr y" "t = snd (mp_reseal P i y new s)" "mp_unseal P i new t = Inr y"
        "r = fst (mp_delete P i old t)" "s' = snd (mp_delete P i old t)"
    by (metis fst_conv snd_conv)
  note c = this
  show "\<forall>j v. j \<noteq> i \<longrightarrow> mp_unseal P j v s' = mp_unseal P j v s"
    by (cases rule: c) (simp_all add: re de)
  show "\<exists>x. mp_unseal P i old s = Inr x \<and> mp_unseal P i new s' = Inr x \<and> \<not> is_ok (mp_unseal P i old s')" if "is_ok r"
    using that n gone by (cases rule: c) (simp_all add: de)
  show "mp_unseal P i old s' = Inr x \<or> mp_unseal P i new s' = Inr x" if "mp_unseal P i old s = Inr x"
    using that n by (cases rule: c) (simp_all add: re de)
  show "s' = s \<and> \<not> is_ok r" if "\<not> is_ok (mp_unseal P i old s)"
    using that by (cases rule: c) simp_all
qed

lemma migrate_each_spec:
  assumes P: "migration_laws P" and n: "old \<noteq> new"
  shows "migrate_each P is old new s = (r, s') \<Longrightarrow> mp_unseal P j old s = Inr x \<Longrightarrow>
    (mp_unseal P j old s' = Inr x \<or> mp_unseal P j new s' = Inr x) \<and>
    (is_ok r \<and> j \<in> set is \<longrightarrow> mp_unseal P j new s' = Inr x \<and> \<not> is_ok (mp_unseal P j old s'))"
proof (induction "is" arbitrary: s)
  case (Cons i "is")
  obtain q t where q: "migrate_one P i old new s = (q, t)" by fastforce
  note one = migrate_one_spec [OF P n q]
  show ?case
  proof (cases q)
    case (Inl e)
    then have "s' = t" "r = Inl e" using Cons.prems(1) q by simp_all
    then show ?thesis using one(1,3) Cons.prems(2) by (cases "j = i") auto
  next
    case (Inr u)
    then have rest: "migrate_each P is old new t = (r, s')" using Cons.prems(1) q by simp
    show ?thesis
    proof (cases "j = i")
      case True
      then have m: "mp_unseal P i new t = Inr x" "\<not> is_ok (mp_unseal P i old t)"
        using one(2) Inr Cons.prems(2) by auto
      have "mp_unseal P i new s' = Inr x \<and> \<not> is_ok (mp_unseal P i old s')" using rest m
      proof (induction "is" arbitrary: t)
        case (Cons k "is")
        obtain q2 t2 where q2: "migrate_one P k old new t = (q2, t2)" by fastforce
        note two = migrate_one_spec [OF P n q2]
        show ?case
        proof (cases "k = i")
          case True
          then have "t2 = t" "\<not> is_ok q2" using two(4) Cons.prems(3) by auto
          then have "s' = t" using Cons.prems(1) q2 by (cases q2) auto
          then show ?thesis using Cons.prems by simp
        next
          case False
          then have "mp_unseal P i new t2 = Inr x" "\<not> is_ok (mp_unseal P i old t2)" using two(1) Cons.prems by auto
          then show ?thesis using Cons.IH [of t2] Cons.prems(1) q2 by (cases q2) auto
        qed
      qed simp
      then show ?thesis using True by simp
    next
      case False
      then have "mp_unseal P j old t = Inr x" using one(1) Cons.prems(2) by simp
      then show ?thesis using Cons.IH [OF rest] False by auto
    qed
  qed
qed simp

section \<open>The migration controller\<close>

record psbt_skeleton =
  sk_id :: string
  sk_psbt_hex :: string
  sk_total_input_sats :: u64
  sk_fee_estimate_sats :: u64
  sk_num_inputs :: nat
  sk_destination :: string

text \<open>The stub holds the state and its configuration, and none of its operations changes them.\<close>

record quantum_stub =
  qs_state :: quantum_state
  qs_config :: quantum_config

definition quantum_stub_new :: "quantum_config \<Rightarrow> quantum_stub" where
  "quantum_stub_new c = \<lparr>qs_state = current_state c, qs_config = c\<rparr>"

definition utxo_inventory :: "quantum_stub \<Rightarrow> utxo_record list res" where
  "utxo_inventory q = Inr []"

definition prepare_emergency_psbts :: "quantum_stub \<Rightarrow> psbt_skeleton list res" where
  "prepare_emergency_psbts q = Inr []"

definition transition_to :: "quantum_state \<Rightarrow> string \<Rightarrow> quantum_stub \<Rightarrow> unit res \<times> quantum_stub" where
  "transition_to new reason q =
     (rbind (day_epoch_parse ''2025-01-01'') (\<lambda>_. rbind (validate_transition (qs_config q) new 5) (\<lambda>_. Inr ())), q)"

definition execute_drill :: "quantum_stub \<Rightarrow> drill_report res" where
  "execute_drill q = Inr (drill_failed [''drill not implemented '' @ dash @ '' stub returns no-op''])"

definition sweep_all :: "quantum_stub \<Rightarrow> sweep_report res" where
  "sweep_all q = Inr \<lparr>dr_duration_ms = 0, dr_utxos_swept = 0, dr_fees_spent_sat = 0,
     dr_errors = [''sweep not implemented '' @ dash @ '' stub returns no-op''], sr_txids = []\<rparr>"

definition validate_emergency_ready :: "quantum_config \<Rightarrow> nat \<Rightarrow> unit res" where
  "validate_emergency_ready c n =
     (if current_state c < Q4
      then Inl (InvalidConstitution (''emergency sweep requires state >= Q4, current: '' @ quantum_str (current_state c)))
      else if emergency_constitution_hash c = None
      then Inl (InvalidConstitution ''emergency constitution hash not set'')
      else if migration_destination_descriptor c = None
      then Inl (InvalidConstitution ''migration destination descriptor not set'')
      else if n = 0
      then Inl (InvalidConstitution (''no UTXOs to sweep '' @ dash @ '' inventory empty''))
      else Inr ())"

lemma emergency_ready_iff:
  "validate_emergency_ready c n = Inr () \<longleftrightarrow> sweep_allowed (current_state c) \<and>
     emergency_constitution_hash c \<noteq> None \<and> migration_destination_descriptor c \<noteq> None \<and> n \<noteq> 0"
  by (cases "current_state c")
    (auto simp: validate_emergency_ready_def sweep_allowed_def less_quantum_state_def)

text \<open>A transition the stub reports as done leaves it where it was, so that the next one is checked against
  the old state.\<close>

lemma transition_changes_nothing:
  "snd (transition_to new reason q) = q"
  "is_ok (fst (transition_to new reason (quantum_stub_new c))) \<Longrightarrow> level new = level (current_state c) + 1"
  using validate_transition_ok [of c new 5]
  by (auto simp: transition_to_def quantum_stub_new_def is_ok_iff rbind_Inr_iff)

section \<open>Properties\<close>

text \<open>A migration between suites loses no share: whether it succeeds or stops at an error, every share that
  unsealed before still unseals to the same bytes, under the old suite or the new one; and when it
  succeeds, every stale share is under the new suite and gone from the old.\<close>

theorem migration_keeps_shares:
  assumes "migration_laws P" "old \<noteq> new" "migrate_all_stale P old new s = (r, s')" "mp_unseal P j old s = Inr x"
  shows "(mp_unseal P j old s' = Inr x \<or> mp_unseal P j new s' = Inr x) \<and>
    (\<forall>stale n. mp_detect P old s = Inr stale \<and> r = Inr n \<and> j \<in> set stale \<longrightarrow>
       n = length stale \<and> mp_unseal P j new s' = Inr x \<and> \<not> is_ok (mp_unseal P j old s'))"
proof (cases "mp_detect P old s")
  case (Inr stale)
  obtain q t where q: "migrate_each P stale old new s = (q, t)" by fastforce
  have "stale = [] \<and> s' = s \<or> s' = t \<and> (r = Inr (length stale) \<and> is_ok q \<or> \<not> is_ok r)"
    using assms(3) Inr q by (auto simp: migrate_all_stale_def split: if_splits sum.splits)
  then show ?thesis using migrate_each_spec [OF assms(1,2) q assms(4)] Inr assms(4) by auto
qed (use assms in \<open>auto simp: migrate_all_stale_def\<close>)

text \<open>A store that is the list of its shares.\<close>

definition demo_store :: "((string \<times> string) \<times> string) list migration_port" where
  "demo_store = \<lparr>mp_detect = (\<lambda>u s. Inr (map (fst \<circ> fst) (filter (\<lambda>p. snd (fst p) = u) s))),
     mp_unseal = (\<lambda>i u s. case map_of s (i, u) of None \<Rightarrow> Inl (ShareStoreForbidden i) | Some x \<Rightarrow> Inr x),
     mp_reseal = (\<lambda>i x u s. (Inr (), ((i, u), x) # s)),
     mp_delete = (\<lambda>i u s. (Inr (), filter (\<lambda>p. fst p \<noteq> (i, u)) s))\<rparr>"

lemma map_of_filter_key: "map_of (filter (\<lambda>p. fst p \<noteq> k) s) j = (if j = k then None else map_of s j)"
  by (induction s) auto

lemma demo_store_laws: "migration_laws demo_store"
  by (auto simp: migration_laws_def demo_store_def map_of_filter_key)

theorem migration_keeps_shares_witness:
  "migrate_all_stale demo_store ''v1'' ''v2'' [((''a'', ''v1''), ''x''), ((''b'', ''v1''), ''y'')] =
     (Inr 2, [((''b'', ''v2''), ''y''), ((''a'', ''v2''), ''x'')]) \<and>
   mp_unseal demo_store ''b'' ''v2'' [((''b'', ''v2''), ''y''), ((''a'', ''v2''), ''x'')] = Inr ''y''"
proof -
  let ?s = "[((''a'', ''v1''), ''x''), ((''b'', ''v1''), ''y'')]"
  have m: "migrate_all_stale demo_store ''v1'' ''v2'' ?s = (Inr 2, [((''b'', ''v2''), ''y''), ((''a'', ''v2''), ''x'')])"
    by code_simp
  have "mp_unseal demo_store ''b'' ''v1'' ?s = Inr ''y''" "mp_detect demo_store ''v1'' ?s = Inr [''a'', ''b'']" by code_simp+
  with migration_keeps_shares [OF demo_store_laws _ m, of "''b''" "''y''"] m show ?thesis by simp
qed

end
