(* ===== verification/Identity.thy ===== *)
theory Identity
  imports Auth ShareStore
begin

text \<open>
  Vault identities (\<open>vault-identity-core\<close>) and the daemon that keeps one on disk
  (\<open>IdentityDaemon\<close> of \<open>vault-identityd/src/lib.rs\<close>): the Ed25519 and ML-DSA-65 keypairs, their serialized
  hybrid form, encryption at rest, loading, generation and rotation.  The signature schemes are the record
  \<open>id_crate\<close>, the key derivation and the cipher a \<open>seal_crate\<close>; a directory maps file names to bytes and
  permission bits.  The umask leaves the bits of the owner alone.
\<close>

section \<open>Errors\<close>

datatype identity_error =
    KeyGenerationFailed string
  | SigningFailed string
  | VerificationFailed string
  | InvalidKeyMaterial string
  | IdentityNotFound
  | RotationFailed string
  | SerializationFailed string
  | DeserializationFailed string
  | SpiffeIssuanceFailed string
  | CertificateError string
  | InternalError string

type_synonym 'a id_res = "identity_error + 'a"

fun identity_message :: "identity_error \<Rightarrow> string" where
  "identity_message (KeyGenerationFailed m) = ''key generation failed: '' @ m"
| "identity_message (SigningFailed m) = ''signing failed: '' @ m"
| "identity_message (VerificationFailed m) = ''verification failed: '' @ m"
| "identity_message (InvalidKeyMaterial m) = ''invalid key material: '' @ m"
| "identity_message IdentityNotFound = ''identity not found''"
| "identity_message (RotationFailed m) = ''identity rotation failed: '' @ m"
| "identity_message (SerializationFailed m) = ''serialization failed: '' @ m"
| "identity_message (DeserializationFailed m) = ''deserialization failed: '' @ m"
| "identity_message (SpiffeIssuanceFailed m) = ''SPIFFE SVID issuance failed: '' @ m"
| "identity_message (CertificateError m) = ''certificate error: '' @ m"
| "identity_message (InternalError m) = ''internal error: '' @ m"

section \<open>Bytes\<close>

text \<open>A number in \<open>k\<close> bytes, the lowest first, and back.\<close>

fun le_enc :: "nat \<Rightarrow> nat \<Rightarrow> string" where
  "le_enc 0 n = []"
| "le_enc (Suc k) n = chr (n mod 256) # le_enc k (n div 256)"

fun le_dec :: "string \<Rightarrow> nat" where
  "le_dec [] = 0"
| "le_dec (c # s) = code c + 256 * le_dec s"

lemma length_le_enc [simp]: "length (le_enc k n) = k"
  by (induction k arbitrary: n) auto

lemma le_dec_enc [simp]: "le_dec (le_enc k n) = n mod 256 ^ k"
proof (induction k arbitrary: n)
  case (Suc k)
  have "n mod 256 ^ Suc k = n mod 256 + 256 * (n div 256 mod 256 ^ k)"
    by (simp add: mod_mult2_eq)
  then show ?case by (simp add: Suc code_chr)
qed simp

text \<open>Well-formed UTF-8: the ranges the following bytes must fall into.\<close>

definition utf8_lead :: "nat \<Rightarrow> (nat \<times> nat) list option" where
  "utf8_lead b =
     (let t = (128, 191) in
      if b < 128 then Some []
      else if 194 \<le> b \<and> b \<le> 223 then Some [t]
      else if b = 224 then Some [(160, 191), t]
      else if b = 237 then Some [(128, 159), t]
      else if 225 \<le> b \<and> b \<le> 239 then Some [t, t]
      else if b = 240 then Some [(144, 191), t, t]
      else if 241 \<le> b \<and> b \<le> 243 then Some [t, t, t]
      else if b = 244 then Some [(128, 143), t, t]
      else None)"

fun utf8_scan :: "(nat \<times> nat) list \<Rightarrow> string \<Rightarrow> bool" where
  "utf8_scan want [] = (want = [])"
| "utf8_scan [] (c # s) = (case utf8_lead (code c) of Some want \<Rightarrow> utf8_scan want s | None \<Rightarrow> False)"
| "utf8_scan ((lo, hi) # want) (c # s) = (lo \<le> code c \<and> code c \<le> hi \<and> utf8_scan want s)"

definition utf8 :: "string \<Rightarrow> bool" where
  "utf8 s = utf8_scan [] s"

section \<open>Keypairs\<close>

record id_crate =
  ic_ed_vk :: "string \<Rightarrow> string"
  ic_ed_ok :: "string \<Rightarrow> bool"
  ic_ed_sign :: "string \<Rightarrow> string \<Rightarrow> string"
  ic_ed_sig_ok :: "string \<Rightarrow> bool"
  ic_ed_verify :: "string \<Rightarrow> string \<Rightarrow> string \<Rightarrow> bool"
  ic_ml_vk :: "string \<Rightarrow> string"
  ic_ml_sign :: "string \<Rightarrow> string \<Rightarrow> string option"
  ic_ml_sig_ok :: "string \<Rightarrow> bool"
  ic_ml_verify :: "string \<Rightarrow> string \<Rightarrow> string \<Rightarrow> bool"
  ic_why :: string

record ed25519_identity =
  ed_secret :: string
  ed_public :: string

definition ed_from_raw :: "id_crate \<Rightarrow> string \<Rightarrow> string \<Rightarrow> ed25519_identity id_res" where
  "ed_from_raw c secret public =
     (if \<not> ic_ed_ok c public then Inl (InvalidKeyMaterial (''invalid ed25519 public key: '' @ ic_why c))
      else if ic_ed_vk c secret \<noteq> public then Inl (InvalidKeyMaterial ''ed25519 secret/public key mismatch'')
      else Inr \<lparr>ed_secret = secret, ed_public = public\<rparr>)"

text \<open>Generation draws a seed; the public key follows from it.\<close>

definition ed_generate :: "id_crate \<Rightarrow> string \<Rightarrow> ed25519_identity id_res" where
  "ed_generate c seed = Inr \<lparr>ed_secret = seed, ed_public = ic_ed_vk c seed\<rparr>"

definition ed_from_secret :: "id_crate \<Rightarrow> string \<Rightarrow> ed25519_identity id_res" where
  "ed_from_secret c secret = Inr \<lparr>ed_secret = secret, ed_public = ic_ed_vk c secret\<rparr>"

definition ed_sign :: "id_crate \<Rightarrow> string \<Rightarrow> ed25519_identity \<Rightarrow> string id_res" where
  "ed_sign c m i = Inr (ic_ed_sign c (ed_secret i) m)"

definition ed_verify :: "id_crate \<Rightarrow> string \<Rightarrow> string \<Rightarrow> string \<Rightarrow> bool id_res" where
  "ed_verify c public m sig =
     (if \<not> ic_ed_ok c public then Inl (InvalidKeyMaterial (''invalid ed25519 public key: '' @ ic_why c))
      else if \<not> ic_ed_sig_ok c sig then Inl (InvalidKeyMaterial (''invalid ed25519 signature: '' @ ic_why c))
      else Inr (ic_ed_verify c public m sig))"

definition ed_to_bytes :: "ed25519_identity \<Rightarrow> string" where
  "ed_to_bytes i = ed_secret i @ ed_public i"

definition ed_from_bytes :: "id_crate \<Rightarrow> string \<Rightarrow> ed25519_identity id_res" where
  "ed_from_bytes c b =
     (if length b < 64 then Inl (InvalidKeyMaterial ''ed25519 key material too short'')
      else let secret = take 32 b; public = take 32 (drop 32 b) in
        if \<not> ic_ed_ok c public then Inl (InvalidKeyMaterial ''invalid ed25519 public key bytes'')
        else if ic_ed_vk c secret \<noteq> public then Inl (InvalidKeyMaterial ''ed25519 key material mismatch'')
        else Inr \<lparr>ed_secret = secret, ed_public = public\<rparr>)"

definition ml_secret_len :: nat where "ml_secret_len = 4032"
definition ml_public_len :: nat where "ml_public_len = 1952"
definition ml_signature_len :: nat where "ml_signature_len = 3309"

record ml_dsa_identity =
  ml_secret :: string
  ml_public :: string

definition ml_from_raw :: "string \<Rightarrow> string \<Rightarrow> ml_dsa_identity id_res" where
  "ml_from_raw secret public =
     (if length secret \<noteq> ml_secret_len
      then Inl (InvalidKeyMaterial (''ML-DSA-65 secret key: expected '' @ dec ml_secret_len @ '' bytes, got '' @ dec (length secret)))
      else if length public \<noteq> ml_public_len
      then Inl (InvalidKeyMaterial (''ML-DSA-65 public key: expected '' @ dec ml_public_len @ '' bytes, got '' @ dec (length public)))
      else Inr \<lparr>ml_secret = secret, ml_public = public\<rparr>)"

definition ml_load_sk :: "ml_dsa_identity \<Rightarrow> string id_res" where
  "ml_load_sk i = (if length (ml_secret i) \<noteq> ml_secret_len then Inl (InvalidKeyMaterial ''bad expanded SK length'') else Inr (ml_secret i))"

text \<open>The system's random source may fail; otherwise it gives an expanded secret key.\<close>

definition ml_generate :: "id_crate \<Rightarrow> (string, string) sum \<Rightarrow> ml_dsa_identity id_res" where
  "ml_generate c draw =
     (case draw of
        Inl e \<Rightarrow> Inl (KeyGenerationFailed (''ML-DSA-65 keygen: '' @ e))
      | Inr sk \<Rightarrow> Inr \<lparr>ml_secret = sk, ml_public = ic_ml_vk c sk\<rparr>)"

definition ml_from_secret :: "id_crate \<Rightarrow> string \<Rightarrow> ml_dsa_identity id_res" where
  "ml_from_secret c secret =
     (if length secret \<noteq> ml_secret_len
      then Inl (InvalidKeyMaterial (''ML-DSA-65 from_secret: expected '' @ dec ml_secret_len @ '' bytes, got '' @ dec (length secret)))
      else Inr \<lparr>ml_secret = secret, ml_public = ic_ml_vk c secret\<rparr>)"

definition ml_sign :: "id_crate \<Rightarrow> string \<Rightarrow> ml_dsa_identity \<Rightarrow> string id_res" where
  "ml_sign c m i =
     rbind (ml_load_sk i) (\<lambda>sk.
       case ic_ml_sign c sk m of
         None \<Rightarrow> Inl (SigningFailed (''ML-DSA-65 sign: '' @ ic_why c))
       | Some sig \<Rightarrow> Inr sig)"

definition ml_verify :: "id_crate \<Rightarrow> string \<Rightarrow> string \<Rightarrow> string \<Rightarrow> bool id_res" where
  "ml_verify c public m sig =
     (if length public \<noteq> ml_public_len
      then Inl (InvalidKeyMaterial (''ML-DSA-65 verify: expected '' @ dec ml_public_len @ '' byte public key, got '' @ dec (length public)))
      else if length sig \<noteq> ml_signature_len then Inr False
      else if \<not> ic_ml_sig_ok c sig then Inl (InvalidKeyMaterial ''invalid signature bytes'')
      else Inr (ic_ml_verify c public m sig))"

definition ml_to_bytes :: "ml_dsa_identity \<Rightarrow> string" where
  "ml_to_bytes i = ml_secret i @ ml_public i"

definition ml_from_bytes :: "string \<Rightarrow> ml_dsa_identity id_res" where
  "ml_from_bytes b =
     (if length b < ml_secret_len + ml_public_len
      then Inl (InvalidKeyMaterial (''ML-DSA-65 from_bytes: expected '' @ dec (ml_secret_len + ml_public_len) @ '' bytes, got '' @ dec (length b)))
      else Inr \<lparr>ml_secret = take ml_secret_len b, ml_public = take ml_public_len (drop ml_secret_len b)\<rparr>)"

section \<open>The hybrid keypair\<close>

record hybrid_signature =
  hs_ed25519 :: string
  hs_ml_dsa65 :: string

record hybrid_keypair =
  hk_ed25519 :: ed25519_identity
  hk_ml_dsa65 :: ml_dsa_identity
  hk_node :: string
  hk_created :: u64
  hk_expires :: u64

text \<open>What a generation draws: a seed, an expanded key or a failure, and the time.\<close>

record keygen =
  kg_seed :: string
  kg_ml :: "(string, string) sum"
  kg_now :: u64

definition hybrid_generate :: "id_crate \<Rightarrow> keygen \<Rightarrow> string \<Rightarrow> hybrid_keypair id_res" where
  "hybrid_generate c g node =
     rbind (ed_generate c (kg_seed g)) (\<lambda>ed. rbind (ml_generate c (kg_ml g)) (\<lambda>ml.
       Inr \<lparr>hk_ed25519 = ed, hk_ml_dsa65 = ml, hk_node = node, hk_created = kg_now g, hk_expires = 0\<rparr>))"

definition sign_hybrid :: "id_crate \<Rightarrow> string \<Rightarrow> hybrid_keypair \<Rightarrow> hybrid_signature id_res" where
  "sign_hybrid c m k =
     rbind (ed_sign c m (hk_ed25519 k)) (\<lambda>e. rbind (ml_sign c m (hk_ml_dsa65 k)) (\<lambda>l.
       Inr \<lparr>hs_ed25519 = e, hs_ml_dsa65 = l\<rparr>))"

definition verify_hybrid :: "id_crate \<Rightarrow> string \<Rightarrow> string \<Rightarrow> string \<Rightarrow> hybrid_signature \<Rightarrow> bool id_res" where
  "verify_hybrid c ed_pub ml_pub m sig =
     rbind (ed_verify c ed_pub m (hs_ed25519 sig)) (\<lambda>ok.
       if \<not> ok then Inr False else ml_verify c ml_pub m (hs_ml_dsa65 sig))"

definition hybrid_to_bytes :: "hybrid_keypair \<Rightarrow> string" where
  "hybrid_to_bytes k =
     ed_to_bytes (hk_ed25519 k) @ ml_to_bytes (hk_ml_dsa65 k) @ le_enc 4 (length (hk_node k)) @ hk_node k
     @ le_enc 8 (unat (hk_created k)) @ le_enc 8 (unat (hk_expires k))"

definition hybrid_from_bytes :: "id_crate \<Rightarrow> string \<Rightarrow> hybrid_keypair id_res" where
  "hybrid_from_bytes c b =
     (let ml_len = ml_secret_len + ml_public_len in
      if length b < 64 + ml_len + 4 then Inl (DeserializationFailed ''hybrid key material too short'')
      else
        rbind (ed_from_bytes c (take 64 b)) (\<lambda>ed.
        rbind (ml_from_bytes (take ml_len (drop 64 b))) (\<lambda>ml.
          let n = le_dec (take 4 (drop (64 + ml_len) b)); off = 64 + ml_len + 4 in
          if length b < off + n + 16 then Inl (DeserializationFailed ''hybrid key material truncated'')
          else if \<not> utf8 (take n (drop off b))
          then Inl (DeserializationFailed (''invalid node_id utf8: '' @ ic_why c))
          else Inr \<lparr>hk_ed25519 = ed, hk_ml_dsa65 = ml, hk_node = take n (drop off b),
                 hk_created = word_of_nat (le_dec (take 8 (drop (off + n) b))),
                 hk_expires = word_of_nat (le_dec (take 8 (drop (off + n + 8) b)))\<rparr>)))"

text \<open>A keypair of the right sizes whose halves belong together.\<close>

definition hybrid_ok :: "id_crate \<Rightarrow> hybrid_keypair \<Rightarrow> bool" where
  "hybrid_ok c k \<longleftrightarrow>
     length (ed_secret (hk_ed25519 k)) = 32 \<and> length (ed_public (hk_ed25519 k)) = 32 \<and>
     ic_ed_ok c (ed_public (hk_ed25519 k)) \<and> ic_ed_vk c (ed_secret (hk_ed25519 k)) = ed_public (hk_ed25519 k) \<and>
     length (ml_secret (hk_ml_dsa65 k)) = ml_secret_len \<and> length (ml_public (hk_ml_dsa65 k)) = ml_public_len \<and>
     length (hk_node k) < 2 ^ 32 \<and> utf8 (hk_node k)"

lemma ed_round_trip:
  "length (ed_secret i) = 32 \<Longrightarrow> length (ed_public i) = 32 \<Longrightarrow> ic_ed_ok c (ed_public i) \<Longrightarrow>
     ic_ed_vk c (ed_secret i) = ed_public i \<Longrightarrow> ed_from_bytes c (ed_to_bytes i) = Inr i"
  by (simp add: ed_from_bytes_def ed_to_bytes_def Let_def)

lemma ml_round_trip:
  "length (ml_secret i) = ml_secret_len \<Longrightarrow> length (ml_public i) = ml_public_len \<Longrightarrow> ml_from_bytes (ml_to_bytes i) = Inr i"
  by (simp add: ml_from_bytes_def ml_to_bytes_def)

lemma le_dec_u64 [simp]: "word_of_nat (le_dec (le_enc 8 (unat w))) = (w :: u64)"
proof -
  have "unat w mod 256 ^ 8 = unat w" using unat_lt_64 [of w] by simp
  then show ?thesis by (simp only: le_dec_enc of_nat_unat ucast_id)
qed

lemma hybrid_round_trip:
  assumes "hybrid_ok c k"
  shows "hybrid_from_bytes c (hybrid_to_bytes k) = Inr k"
proof -
  let ?e = "ed_to_bytes (hk_ed25519 k)" and ?m = "ml_to_bytes (hk_ml_dsa65 k)"
  let ?t = "le_enc 8 (unat (hk_created k)) @ le_enc 8 (unat (hk_expires k))"
  have l: "length ?e = 64" "length ?m = ml_secret_len + ml_public_len"
    using assms by (simp_all add: hybrid_ok_def ed_to_bytes_def ml_to_bytes_def)
  have b: "hybrid_to_bytes k = ?e @ ?m @ le_enc 4 (length (hk_node k)) @ hk_node k @ ?t"
    by (simp add: hybrid_to_bytes_def)
  have n: "le_dec (le_enc 4 (length (hk_node k))) = length (hk_node k)"
    using assms by (simp add: hybrid_ok_def)
  show ?thesis
    using assms ed_round_trip [of "hk_ed25519 k" c] ml_round_trip [of "hk_ml_dsa65 k"]
    by (simp add: hybrid_from_bytes_def b l n Let_def hybrid_ok_def del: le_dec_enc)
qed

end
