(* ===== verification/IdentityDaemon.thy ===== *)
theory IdentityDaemon
  imports Identity
begin

text \<open>
  The identity daemon (\<open>vault-identityd/src/lib.rs\<close>): the store of one node's hybrid keypair, and the server
  that generates, shows, rotates and signs with it for callers that hold its token.  What the file system and
  the random source do in one operation is the record \<open>id_io\<close>.  As the source stands it does not compile (the
  separator is formatted with \<open>{}\<close> though it is bytes); the model gives its text.
\<close>

section \<open>The daemon\<close>

type_synonym id_dir = "string \<Rightarrow> (string \<times> nat) option"

record id_daemon =
  dm_node :: string
  dm_file :: string
  dm_identity :: "hybrid_keypair option"
  dm_pass :: string

definition sanitize_node_id :: "string \<Rightarrow> string id_res" where
  "sanitize_node_id raw =
     (let t = trim raw in
      if t = [] then Inl (InternalError ''node_id must not be empty'')
      else if str_contains ''..'' t then Inl (InternalError (''node_id path traversal detected: '' @ [chr 39] @ ''..'' @ [chr 39]))
      else if CHR ''/'' \<in> set t \<or> chr 92 \<in> set t
      then Inl (InternalError ''node_id path traversal detected: separator character'')
      else if hd t = CHR ''.'' then Inl (InternalError (''node_id must not start with '' @ [chr 39] @ ''.'' @ [chr 39]))
      else if chr 0 \<in> set t then Inl (InternalError ''node_id contains null byte'')
      else if 256 < length t then Inl (InternalError ''node_id too long (max 256 chars)'')
      else Inr t)"

text \<open>\<open>mkdir\<close> is the error of creating the store directory, \<open>env\<close> the passphrase variable.\<close>

definition daemon_new :: "seal_crate \<Rightarrow> string option \<Rightarrow> string option \<Rightarrow> string \<Rightarrow> id_daemon id_res" where
  "daemon_new sc mkdir env node =
     rbind (sanitize_node_id node) (\<lambda>t.
       case mkdir of
         Some e \<Rightarrow> Inl (InternalError (''failed to create store dir: '' @ e))
       | None \<Rightarrow> Inr \<lparr>dm_node = node, dm_file = hex_encode (sc_sha256 sc t), dm_identity = None,
           dm_pass = (case env of Some p \<Rightarrow> p | None \<Rightarrow> ''kerosene-vault-identity-default'')\<rparr>)"

definition id_filename :: "id_daemon \<Rightarrow> string" where
  "id_filename dm = ''identity-'' @ dm_file dm @ ''.enc''"

definition id_tmpname :: "id_daemon \<Rightarrow> string" where
  "id_tmpname dm = ''identity-'' @ dm_file dm @ ''.tmp''"

definition id_aad :: string where
  "id_aad = ''kerosene-vault-identity-aead-v1''"

definition id_encrypt :: "seal_crate \<Rightarrow> id_daemon \<Rightarrow> string \<Rightarrow> string \<Rightarrow> string \<Rightarrow> string" where
  "id_encrypt sc dm salt nonce plain = salt @ nonce @ sc_seal sc (sc_argon sc (dm_pass dm) salt) nonce id_aad plain"

definition id_decrypt :: "seal_crate \<Rightarrow> id_daemon \<Rightarrow> string \<Rightarrow> string id_res" where
  "id_decrypt sc dm blob =
     (if length blob < 16 + 12 + 1 then Inl (DeserializationFailed ''encrypted blob too short'')
      else case sc_unseal sc (sc_argon sc (dm_pass dm) (take 16 blob)) (take 12 (drop 16 blob)) id_aad (drop 28 blob) of
        None \<Rightarrow> Inl (DeserializationFailed ''AEAD decrypt failed: wrong key or tampered data'')
      | Some m \<Rightarrow> Inr m)"

text \<open>A write goes through the temporary file, which keeps its permissions when one is there already; a failed
  one has a message and leaves something, or nothing, under the temporary name.\<close>

datatype id_write = IdWritten | IdWriteFailed string "(string \<times> nat) option"

record id_io =
  io_gen :: keygen
  io_salt :: string
  io_nonce :: string
  io_write :: id_write
  io_read :: "string option"
  io_archive :: "string option"
  io_now :: u64
  io_age :: "string \<Rightarrow> u64 option"

definition owner_only :: nat where "owner_only = 384"

definition id_atomic_write :: "id_write \<Rightarrow> string \<Rightarrow> id_daemon \<Rightarrow> id_dir \<Rightarrow> unit id_res \<times> id_dir" where
  "id_atomic_write w bytes dm d =
     (case w of
        IdWritten \<Rightarrow>
          let mode = (case d (id_tmpname dm) of Some (_, m) \<Rightarrow> m | None \<Rightarrow> owner_only) in
          (Inr (), d(id_filename dm \<mapsto> (bytes, mode), id_tmpname dm := None))
      | IdWriteFailed e left \<Rightarrow> (Inl (InternalError e), d(id_tmpname dm := left)))"

definition id_max_file :: nat where "id_max_file = 16 * 1024 * 1024"

definition read_identity_blob :: "string option \<Rightarrow> string \<times> nat \<Rightarrow> string id_res" where
  "read_identity_blob err f =
     (case err of
        Some e \<Rightarrow> Inl (DeserializationFailed e)
      | None \<Rightarrow>
          if id_max_file < length (fst f) then Inl (DeserializationFailed ''identity file exceeds max size'')
          else if snd f mod 64 \<noteq> 0 then Inl (DeserializationFailed ''identity file has overly permissive permissions'')
          else Inr (fst f))"

text \<open>Draw a keypair, store it, and only then hold it.\<close>

definition fresh_identity ::
  "seal_crate \<Rightarrow> id_crate \<Rightarrow> id_io \<Rightarrow> id_daemon \<Rightarrow> id_dir \<Rightarrow> hybrid_keypair id_res \<times> id_daemon \<times> id_dir" where
  "fresh_identity sc c io dm d =
     (case hybrid_generate c (io_gen io) (dm_node dm) of
        Inl e \<Rightarrow> (Inl e, dm, d)
      | Inr k \<Rightarrow>
          (case id_atomic_write (io_write io) (id_encrypt sc dm (io_salt io) (io_nonce io) (hybrid_to_bytes k)) dm d of
             (Inl e, d1) \<Rightarrow> (Inl e, dm, d1)
           | (Inr _, d1) \<Rightarrow> (Inr k, dm\<lparr>dm_identity := Some k\<rparr>, d1)))"

definition load_or_generate ::
  "seal_crate \<Rightarrow> id_crate \<Rightarrow> id_io \<Rightarrow> id_daemon \<times> id_dir \<Rightarrow> hybrid_keypair id_res \<times> id_daemon \<times> id_dir" where
  "load_or_generate sc c io s =
     (case s of (dm, d) \<Rightarrow>
      case dm_identity dm of
        Some k \<Rightarrow> (Inr k, dm, d)
      | None \<Rightarrow>
          (case d (id_filename dm) of
             Some f \<Rightarrow>
               (case rbind (read_identity_blob (io_read io) f) (\<lambda>b. rbind (id_decrypt sc dm b) (hybrid_from_bytes c)) of
                  Inl e \<Rightarrow> (Inl e, dm, d)
                | Inr k \<Rightarrow> (Inr k, dm\<lparr>dm_identity := Some k\<rparr>, d))
           | None \<Rightarrow> fresh_identity sc c io dm d))"

definition current_identity :: "id_daemon \<Rightarrow> hybrid_keypair id_res" where
  "current_identity dm = (case dm_identity dm of Some k \<Rightarrow> Inr k | None \<Rightarrow> Inl IdentityNotFound)"

definition archive_name :: "id_daemon \<Rightarrow> u64 \<Rightarrow> string" where
  "archive_name dm now = ''identity-'' @ dm_file dm @ ''.old.'' @ dec_u now"

definition archive_retention :: u64 where "archive_retention = 2592000"

text \<open>\<open>age\<close> is the age of an entry of the directory when it can be told.\<close>

definition stale_archive :: "(string \<Rightarrow> u64 option) \<Rightarrow> string \<Rightarrow> bool" where
  "stale_archive age n \<longleftrightarrow>
     prefix ''identity-'' n \<and> suffix ''.old.'' n \<and> (case age n of Some a \<Rightarrow> archive_retention < a | None \<Rightarrow> False)"

definition clean_archives :: "(string \<Rightarrow> u64 option) \<Rightarrow> id_dir \<Rightarrow> id_dir" where
  "clean_archives age d = (\<lambda>n. if stale_archive age n then None else d n)"

definition rotate_identity ::
  "seal_crate \<Rightarrow> id_crate \<Rightarrow> id_io \<Rightarrow> id_daemon \<times> id_dir \<Rightarrow> hybrid_keypair id_res \<times> id_daemon \<times> id_dir" where
  "rotate_identity sc c io s =
     (case s of (dm, d) \<Rightarrow>
      case d (id_filename dm) of
        None \<Rightarrow> fresh_identity sc c io dm d
      | Some f \<Rightarrow>
          (case io_archive io of
             Some e \<Rightarrow> (Inl (RotationFailed (''archive old identity: '' @ e)), dm, d)
           | None \<Rightarrow>
               fresh_identity sc c io dm
                 (clean_archives (io_age io) (d(archive_name dm (io_now io) \<mapsto> f, id_filename dm := None)))))"

definition daemon_sign :: "id_crate \<Rightarrow> string \<Rightarrow> id_daemon \<Rightarrow> hybrid_signature id_res" where
  "daemon_sign c m dm = rbind (current_identity dm) (sign_hybrid c m)"

section \<open>The server\<close>

datatype sign_op = SignIdentity | SignAudit

definition sign_op_of :: "string \<Rightarrow> sign_op option" where
  "sign_op_of label =
     (if label = ''identity'' then Some SignIdentity
      else if label = ''audit'' then Some SignAudit
      else None)"

fun domain_sep :: "sign_op \<Rightarrow> string" where
  "domain_sep SignIdentity = ''kerosene-identity-sign-v1''"
| "domain_sep SignAudit = ''kerosene-audit-sign-v1''"

record identity_server =
  is_daemon :: id_daemon
  is_token :: string

text \<open>Without a token the constructor panics.\<close>

definition identity_server_new :: "id_daemon \<Rightarrow> string option \<Rightarrow> identity_server option" where
  "identity_server_new dm token = map_option (\<lambda>t. \<lparr>is_daemon = dm, is_token = t\<rparr>) token"

definition require_auth :: "string option \<Rightarrow> string \<Rightarrow> bool" where
  "require_auth hdr token = (hdr = Some token)"

type_synonym id_response = "nat \<times> string"

definition err_body :: "string \<Rightarrow> string" where
  "err_body m = ''{'' @ json_string ''error'' @ '':'' @ json_string m @ ''}''"

definition info_body :: "hybrid_keypair \<Rightarrow> string" where
  "info_body k =
     ''{'' @ json_string ''created_at'' @ '':'' @ dec_u (hk_created k)
     @ '','' @ json_string ''ed25519_public'' @ '':'' @ json_string (hex_encode (ed_public (hk_ed25519 k)))
     @ '','' @ json_string ''expires_at'' @ '':'' @ dec_u (hk_expires k)
     @ '','' @ json_string ''ml_dsa65_public'' @ '':'' @ json_string (hex_encode (ml_public (hk_ml_dsa65 k)))
     @ '','' @ json_string ''node_id'' @ '':'' @ json_string (hk_node k) @ ''}''"

definition key_response :: "hybrid_keypair id_res \<Rightarrow> id_response" where
  "key_response r = (case r of Inr k \<Rightarrow> (200, info_body k) | Inl e \<Rightarrow> (500, err_body (identity_message e)))"

definition handle_generate ::
  "seal_crate \<Rightarrow> id_crate \<Rightarrow> id_io \<Rightarrow> id_daemon \<times> id_dir \<Rightarrow> id_response \<times> id_daemon \<times> id_dir" where
  "handle_generate sc c io s = (case load_or_generate sc c io s of (r, t) \<Rightarrow> (key_response r, t))"

definition not_found_or :: "hybrid_keypair id_res \<Rightarrow> (hybrid_keypair \<Rightarrow> string) \<Rightarrow> id_response" where
  "not_found_or r f =
     (case r of
        Inr k \<Rightarrow> (200, f k)
      | Inl IdentityNotFound \<Rightarrow> (404, err_body ''identity not found'')
      | Inl e \<Rightarrow> (500, err_body (identity_message e)))"

definition handle_current :: "id_daemon \<Rightarrow> id_response" where
  "handle_current dm = not_found_or (current_identity dm) info_body"

definition handle_rotate ::
  "seal_crate \<Rightarrow> id_crate \<Rightarrow> id_io \<Rightarrow> id_daemon \<times> id_dir \<Rightarrow> id_response \<times> id_daemon \<times> id_dir" where
  "handle_rotate sc c io s = (case rotate_identity sc c io s of (r, t) \<Rightarrow> (key_response r, t))"

definition id_dash :: string where
  "id_dash = [chr 0xE2, chr 0x80, chr 0x94]"

definition certificate_body :: "hybrid_keypair \<Rightarrow> string" where
  "certificate_body k =
     ''{'' @ json_string ''ed25519_public'' @ '':'' @ json_string (hex_encode (ed_public (hk_ed25519 k)))
     @ '','' @ json_string ''ml_dsa65_public'' @ '':'' @ json_string (hex_encode (ml_public (hk_ml_dsa65 k)))
     @ '','' @ json_string ''note'' @ '':'' @ json_string (''SPIFFE SVID certificate '' @ id_dash
         @ '' placeholder (wire to SPIRE agent for full x509)'')
     @ '','' @ json_string ''spiffe_id'' @ '':'' @ json_string (''spiffe://kerosene.lab/vault/'' @ hk_node k) @ ''}''"

definition handle_certificate :: "id_daemon \<Rightarrow> id_response" where
  "handle_certificate dm = not_found_or (current_identity dm) certificate_body"

record sign_body =
  sb_message :: string
  sb_op_type :: string
  sb_policy_hash :: "string option"
  sb_caller_id :: "string option"
  sb_nonce :: string
  sb_timestamp :: u64

definition max_sign_message :: nat where "max_sign_message = 32768"

definition bound_message :: "sign_op \<Rightarrow> sign_body \<Rightarrow> string \<Rightarrow> string \<Rightarrow> string" where
  "bound_message op b nonce message =
     domain_sep op @ ''|'' @ sb_op_type b @ ''|'' @ nonce @ ''|'' @ le_enc 8 (unat (sb_timestamp b)) @ ''|''
     @ (case sb_policy_hash b of Some h \<Rightarrow> h | None \<Rightarrow> ''none'') @ ''|''
     @ (case sb_caller_id b of Some i \<Rightarrow> i | None \<Rightarrow> ''unknown'') @ ''|'' @ message"

text \<open>The checks of the endpoint, in order; what passes is the message to sign.  \<open>why\<close> is the text of a hex
  error.\<close>

definition sign_checks :: "string \<Rightarrow> u64 \<Rightarrow> sign_body \<Rightarrow> id_response + (sign_op \<times> string)" where
  "sign_checks why now b =
     (if max_sign_message < length (sb_message b)
      then Inl (413, err_body (''message too large: '' @ dec (length (sb_message b)) @ '' bytes (max '' @ dec max_sign_message @ '')''))
      else case sign_op_of (ascii_lower (sb_op_type b)) of
        None \<Rightarrow> Inl (400, err_body (''invalid sign op_type '' @ [chr 39] @ sb_op_type b @ [chr 39] @ ''; allowed: identity, audit''))
      | Some op \<Rightarrow>
          if trim (sb_nonce b) = [] then Inl (400, err_body ''nonce is required for replay protection'')
          else case hex_decode (trim (sb_nonce b)) of
            None \<Rightarrow> Inl (400, err_body ''nonce must be 8-64 hex-encoded bytes'')
          | Some nonce \<Rightarrow>
              if length nonce < 8 \<or> 64 < length nonce
              then Inl (400, err_body ''nonce must be 8-64 hex-encoded bytes'')
              else
                let lower = sat_sub now 300; upper = sat_add now 300 in
                if sb_timestamp b < lower \<or> upper < sb_timestamp b
                then Inl (400, err_body (''timestamp '' @ dec_u (sb_timestamp b) @ '' is outside allowed clock skew ('' @ dec_u lower
                       @ '' to '' @ dec_u upper @ '')''))
                else case hex_decode (sb_message b) of
                  None \<Rightarrow> Inl (400, err_body (''invalid hex message: '' @ why))
                | Some m \<Rightarrow> Inr (op, bound_message op b nonce m))"

definition signature_body :: "sign_op \<Rightarrow> hybrid_signature \<Rightarrow> string" where
  "signature_body op sig =
     ''{'' @ json_string ''ed25519_signature'' @ '':'' @ json_string (hex_encode (hs_ed25519 sig))
     @ '','' @ json_string ''message'' @ '':'' @ json_string (''signed with domain separation ('' @ domain_sep op @ '')'')
     @ '','' @ json_string ''ml_dsa65_signature'' @ '':'' @ json_string (hex_encode (hs_ml_dsa65 sig)) @ ''}''"

definition handle_sign :: "id_crate \<Rightarrow> string \<Rightarrow> u64 \<Rightarrow> sign_body \<Rightarrow> id_daemon \<Rightarrow> id_response" where
  "handle_sign c why now b dm =
     (case sign_checks why now b of
        Inl r \<Rightarrow> r
      | Inr (op, m) \<Rightarrow>
          (case daemon_sign c m dm of
             Inl e \<Rightarrow> (500, err_body (identity_message e))
           | Inr sig \<Rightarrow> (200, signature_body op sig)))"

definition handle_id_health :: "id_daemon \<Rightarrow> id_response" where
  "handle_id_health dm =
     (200, ''{'' @ json_string ''has_identity'' @ '':'' @ bool_str (is_ok (current_identity dm))
        @ '','' @ json_string ''identity_created_at'' @ '':''
          @ (case current_identity dm of Inr k \<Rightarrow> dec_u (hk_created k) | Inl _ \<Rightarrow> ''null'')
        @ '','' @ json_string ''node_id'' @ '':'' @ json_string (dm_node dm)
        @ '','' @ json_string ''status'' @ '':'' @ json_string ''ok'' @ ''}'')"

text \<open>The routes: all but the health check need the token.\<close>

datatype id_route = RouteHealth | RouteGenerate | RouteCurrent | RouteRotate | RouteCertificate | RouteSign sign_body

definition identity_serve ::
  "seal_crate \<Rightarrow> id_crate \<Rightarrow> string \<Rightarrow> string \<Rightarrow> id_io \<Rightarrow> string option \<Rightarrow> id_route \<Rightarrow> id_daemon \<times> id_dir
     \<Rightarrow> id_response \<times> id_daemon \<times> id_dir" where
  "identity_serve sc c why token io hdr route s =
     (case route of
        RouteHealth \<Rightarrow> (handle_id_health (fst s), s)
      | _ \<Rightarrow>
          if \<not> require_auth hdr token then ((401, err_body ''unauthorized''), s)
          else case route of
            RouteGenerate \<Rightarrow> handle_generate sc c io s
          | RouteCurrent \<Rightarrow> (handle_current (fst s), s)
          | RouteRotate \<Rightarrow> handle_rotate sc c io s
          | RouteCertificate \<Rightarrow> (handle_certificate (fst s), s)
          | RouteSign b \<Rightarrow> (handle_sign c why (io_now io) b (fst s), s)
          | RouteHealth \<Rightarrow> (handle_id_health (fst s), s))"

section \<open>What the daemon keeps\<close>

text \<open>The keypair the identity file holds.\<close>

definition file_identity :: "seal_crate \<Rightarrow> id_crate \<Rightarrow> id_daemon \<times> id_dir \<Rightarrow> hybrid_keypair option" where
  "file_identity sc c s =
     (case snd s (id_filename (fst s)) of
        None \<Rightarrow> None
      | Some f \<Rightarrow> (case rbind (id_decrypt sc (fst s) (fst f)) (hybrid_from_bytes c) of Inr k \<Rightarrow> Some k | Inl _ \<Rightarrow> None))"

definition id_sound :: "seal_crate \<Rightarrow> id_crate \<Rightarrow> id_daemon \<times> id_dir \<Rightarrow> bool" where
  "id_sound sc c s \<longleftrightarrow> dm_identity (fst s) = None \<or> dm_identity (fst s) = file_identity sc c s"

text \<open>The laws of the two schemes, and what an operation draws.\<close>

definition id_laws :: "id_crate \<Rightarrow> bool" where
  "id_laws c \<longleftrightarrow>
     (\<forall>s. length s = 32 \<longrightarrow> length (ic_ed_vk c s) = 32 \<and> ic_ed_ok c (ic_ed_vk c s)) \<and>
     (\<forall>s. length s = ml_secret_len \<longrightarrow> length (ic_ml_vk c s) = ml_public_len)"

definition id_io_ok :: "id_io \<Rightarrow> bool" where
  "id_io_ok io \<longleftrightarrow> length (io_salt io) = 16 \<and> length (io_nonce io) = 12 \<and> length (kg_seed (io_gen io)) = 32 \<and>
     (\<forall>sk. kg_ml (io_gen io) = Inr sk \<longrightarrow> length sk = ml_secret_len)"

definition id_node_ok :: "id_daemon \<Rightarrow> bool" where
  "id_node_ok dm \<longleftrightarrow> utf8 (dm_node dm) \<and> length (dm_node dm) < 2 ^ 32"

lemma generated_ok:
  assumes "id_laws c" "id_io_ok io" "id_node_ok dm" "hybrid_generate c (io_gen io) (dm_node dm) = Inr k"
  shows "hybrid_ok c k"
  using assms by (auto simp: hybrid_generate_def ed_generate_def ml_generate_def rbind_Inr_iff hybrid_ok_def id_laws_def
      id_io_ok_def id_node_ok_def split: sum.splits)

lemma id_seal_round_trip:
  assumes "aead_correct sc" "length salt = 16" "length nonce = 12"
  shows "id_decrypt sc dm (id_encrypt sc dm salt nonce m) = Inr m"
proof -
  have "16 \<le> length (sc_seal sc (sc_argon sc (dm_pass dm) salt) nonce id_aad m)"
    "sc_unseal sc k n a (sc_seal sc k n a m) = Some m" for k n a
    using assms(1) by (auto simp: aead_correct_def)
  moreover from this(1) have "sc_seal sc (sc_argon sc (dm_pass dm) salt) nonce id_aad m \<noteq> []" by auto
  ultimately show ?thesis using assms(2,3) by (simp add: id_decrypt_def id_encrypt_def)
qed

lemma tmp_not_file [simp]: "id_tmpname dm \<noteq> id_filename dm" "id_filename dm \<noteq> id_tmpname dm"
  by (simp_all add: id_tmpname_def id_filename_def)

lemma names_update [simp]:
  "id_filename (dm\<lparr>dm_identity := i\<rparr>) = id_filename dm" "id_tmpname (dm\<lparr>dm_identity := i\<rparr>) = id_tmpname dm"
  "id_decrypt sc (dm\<lparr>dm_identity := i\<rparr>) b = id_decrypt sc dm b"
  by (simp_all add: id_filename_def id_tmpname_def id_decrypt_def)

lemma file_identity_update [simp]: "file_identity sc c (dm\<lparr>dm_identity := i\<rparr>, d) = file_identity sc c (dm, d)"
  by (cases "d (id_filename dm)") (simp_all add: file_identity_def)

lemma same_daemon [simp]: "\<exists>i. dm = dm\<lparr>dm_identity := i\<rparr>"
  by (rule exI [of _ "dm_identity dm"]) simp

text \<open>A new keypair: the answered one is the one on disk; a failure leaves the file and the memory alone.\<close>

lemma fresh_identity_spec:
  assumes "aead_correct sc" "id_laws c" "id_io_ok io" "id_node_ok dm"
    and "fresh_identity sc c io dm d = (r, dm', d')"
  shows "(\<exists>k. r = Inr k \<and> dm' = dm\<lparr>dm_identity := Some k\<rparr> \<and> file_identity sc c (dm', d') = Some k) \<or>
    (\<exists>e. r = Inl e \<and> dm' = dm \<and> d' (id_filename dm) = d (id_filename dm))"
proof (cases "hybrid_generate c (io_gen io) (dm_node dm)")
  case (Inr k)
  note rt = hybrid_round_trip [OF generated_ok [OF assms(2-4) Inr]]
  have s: "length (io_salt io) = 16" "length (io_nonce io) = 12" using assms(3) by (auto simp: id_io_ok_def)
  show ?thesis
  proof (cases "io_write io")
    case IdWritten
    then have "r = Inr k" "dm' = dm\<lparr>dm_identity := Some k\<rparr>"
      and "d' (id_filename dm) = Some (id_encrypt sc dm (io_salt io) (io_nonce io) (hybrid_to_bytes k),
        case d (id_tmpname dm) of Some (_, m) \<Rightarrow> m | None \<Rightarrow> owner_only)"
      using assms(5) by (auto simp: fresh_identity_def Inr id_atomic_write_def Let_def)
    then show ?thesis using id_seal_round_trip [OF assms(1) s] rt by (simp add: file_identity_def)
  qed (use assms(5) in \<open>auto simp: fresh_identity_def Inr id_atomic_write_def\<close>)
next
  case (Inl e)
  then have "r = Inl e" "dm' = dm" "d' = d" using assms(5) by (simp_all add: fresh_identity_def)
  then show ?thesis by simp
qed

lemma load_or_generate_spec:
  assumes "aead_correct sc" "id_laws c" "id_io_ok io" "id_node_ok (fst s)" "id_sound sc c s"
    and "load_or_generate sc c io s = (r, s')"
  shows "id_sound sc c s' \<and> (\<exists>i. fst s' = (fst s)\<lparr>dm_identity := i\<rparr>) \<and>
    (\<forall>k. file_identity sc c s = Some k \<longrightarrow> file_identity sc c s' = Some k) \<and>
    (\<forall>k. r = Inr k \<longrightarrow> file_identity sc c s' = Some k)"
proof -
  obtain dm d where s: "s = (dm, d)" by (cases s)
  obtain dm' d' where s': "s' = (dm', d')" by (cases s')
  show ?thesis
  proof (cases "dm_identity dm")
    case (Some k)
    then have "r = Inr k" "s' = (dm, d)" using assms(6) by (simp_all add: load_or_generate_def s)
    moreover have "file_identity sc c (dm, d) = Some k" using assms(5) Some by (simp add: s id_sound_def)
    ultimately show ?thesis using Some by (simp add: s id_sound_def)
  next
    case None
    show ?thesis
    proof (cases "d (id_filename dm)")
      case None
      then have f: "fresh_identity sc c io dm d = (r, dm', d')" "file_identity sc c s = None"
        using assms(6) \<open>dm_identity dm = None\<close> by (simp_all add: load_or_generate_def s s' file_identity_def)
      from fresh_identity_spec [OF assms(1-3) assms(4) [unfolded s fst_conv] f(1)] None \<open>dm_identity dm = None\<close> f(2)
      show ?thesis by (auto simp: s s' id_sound_def file_identity_def)
    next
      case (Some f)
      let ?r = "rbind (read_identity_blob (io_read io) f) (\<lambda>b. rbind (id_decrypt sc dm b) (hybrid_from_bytes c))"
      have b: "file_identity sc c (dm, d) = Some k" if "?r = Inr k" for k
        using that Some
        by (auto simp: file_identity_def rbind_Inr_iff read_identity_blob_def split: option.splits if_splits)
      show ?thesis
      proof (cases ?r)
        case (Inl e)
        then have "r = Inl e" "s' = s" using assms(6) None Some by (simp_all add: load_or_generate_def s)
        then show ?thesis using assms(5) by simp
      next
        case (Inr k)
        then have "r = Inr k" "s' = (dm\<lparr>dm_identity := Some k\<rparr>, d)"
          using assms(6) None Some by (simp_all add: load_or_generate_def s)
        then show ?thesis using b [OF Inr] by (auto simp: s id_sound_def)
      qed
    qed
  qed
qed

section \<open>Runs of the server\<close>

datatype id_op = IdCall id_io "string option" id_route | IdRestart

definition id_step ::
  "seal_crate \<Rightarrow> id_crate \<Rightarrow> string \<Rightarrow> string \<Rightarrow> id_op \<Rightarrow> id_daemon \<times> id_dir \<Rightarrow> id_response \<times> id_daemon \<times> id_dir" where
  "id_step sc c why token op s =
     (case op of
        IdCall io hdr route \<Rightarrow> identity_serve sc c why token io hdr route s
      | IdRestart \<Rightarrow> ((0, []), (fst s)\<lparr>dm_identity := None\<rparr>, snd s))"

fun id_keeps :: "id_op \<Rightarrow> bool" where
  "id_keeps (IdCall io hdr route) = (id_io_ok io \<and> route \<noteq> RouteRotate)"
| "id_keeps IdRestart = True"

text \<open>What the answers of a server say whose node has the keypair \<open>k\<close>.\<close>

fun answers_as :: "id_crate \<Rightarrow> string \<Rightarrow> hybrid_keypair \<Rightarrow> id_op \<Rightarrow> id_response \<Rightarrow> bool" where
  "answers_as c why k (IdCall io hdr RouteGenerate) r = (fst r = 200 \<longrightarrow> snd r = info_body k)"
| "answers_as c why k (IdCall io hdr RouteCurrent) r = (fst r = 200 \<longrightarrow> snd r = info_body k)"
| "answers_as c why k (IdCall io hdr RouteCertificate) r = (fst r = 200 \<longrightarrow> snd r = certificate_body k)"
| "answers_as c why k (IdCall io hdr (RouteSign b)) r =
     (fst r = 200 \<longrightarrow> (\<exists>op m sig. sign_checks why (io_now io) b = Inr (op, m) \<and> sign_hybrid c m k = Inr sig \<and> snd r = signature_body op sig))"
| "answers_as c why k op r = True"

lemma sign_checks_status: "sign_checks why now b = Inl r \<Longrightarrow> fst r \<noteq> 200"
  by (auto simp: sign_checks_def Let_def split: if_splits option.splits)

lemma handle_sign_ok:
  assumes "handle_sign c why now b dm = r" "fst r = 200"
  shows "\<exists>op m k sig. sign_checks why now b = Inr (op, m) \<and> dm_identity dm = Some k \<and> sign_hybrid c m k = Inr sig \<and>
    snd r = signature_body op sig"
  using assms sign_checks_status
  by (auto simp: handle_sign_def daemon_sign_def current_identity_def split: sum.splits option.splits)

text \<open>Every step but a rotation keeps the keypair of the file and answers with it.\<close>

lemma id_step_spec:
  assumes l: "aead_correct sc" "id_laws c" and n: "id_node_ok (fst s)" and s: "id_sound sc c s" and op: "id_keeps op"
    and r: "id_step sc c why token op s = (out, s')"
  shows "id_node_ok (fst s') \<and> id_sound sc c s' \<and>
    (\<forall>k. file_identity sc c s = Some k \<longrightarrow> file_identity sc c s' = Some k) \<and>
    (\<forall>k. file_identity sc c s' = Some k \<or> file_identity sc c s' = None \<longrightarrow> answers_as c why k op out)"
proof (cases op)
  case IdRestart
  then show ?thesis using r n
    by (cases s) (auto simp: id_step_def id_sound_def id_node_ok_def)
next
  case (IdCall io hdr route)
  have io: "id_io_ok io" "route \<noteq> RouteRotate" using op IdCall by auto
  have held: "dm_identity (fst s) = Some k \<Longrightarrow> file_identity sc c s = Some k" for k
    using s by (auto simp: id_sound_def)
  have srv: "identity_serve sc c why token io hdr route s = (out, s')" using r by (simp add: id_step_def IdCall)
  show ?thesis
  proof (cases "route = RouteGenerate \<and> require_auth hdr token")
    case True
    obtain q t where q: "load_or_generate sc c io s = (q, t)" using prod.exhaust by blast
    then have "s' = t" "out = key_response q" using srv True by (simp_all add: identity_serve_def handle_generate_def)
    moreover note load_or_generate_spec [OF l io(1) n s q]
    ultimately show ?thesis using n True
      by (cases q) (auto simp: IdCall key_response_def id_node_ok_def)
  next
    case False
    then have "s' = s" using srv io by (auto simp: identity_serve_def split: id_route.splits if_splits)
    moreover have "answers_as c why k op out" if "file_identity sc c s = Some k \<or> file_identity sc c s = None" for k
    proof -
      have h: "dm_identity (fst s) = Some j \<Longrightarrow> j = k" for j using held that by auto
      show ?thesis
      proof (cases route)
        case (RouteSign b)
        then show ?thesis
          using srv h handle_sign_ok [of c why "io_now io" b "fst s" out]
          by (auto simp: IdCall identity_serve_def split: if_splits)
      qed (use srv False h in \<open>auto simp: IdCall identity_serve_def handle_current_def handle_certificate_def not_found_or_def
          current_identity_def split: if_splits option.splits\<close>)
    qed
    ultimately show ?thesis using n s by simp
  qed
qed

text \<open>As long as no rotation is asked for, a node has one identity: whatever fails on disk and however often
  the daemon restarts, everything the server shows and every signature it gives over a run is of one keypair,
  the one in the file at the end.\<close>

theorem identity_stable:
  assumes "aead_correct sc" "id_laws c" "id_node_ok (fst s)" "id_sound sc c s" "\<forall>op\<in>set ops. id_keeps op"
    and "run_ops (id_step sc c why token) ops s = (outs, s')"
  shows "\<exists>k. (file_identity sc c s' = Some k \<or> file_identity sc c s' = None) \<and>
    (\<forall>k0. file_identity sc c s = Some k0 \<longrightarrow> k = k0 \<and> file_identity sc c s' = Some k) \<and>
    (\<forall>(op, out)\<in>set (zip ops outs). answers_as c why k op out)"
proof -
  have run: "id_sound sc c s' \<and> (\<forall>k. file_identity sc c s = Some k \<longrightarrow> file_identity sc c s' = Some k) \<and>
      (\<forall>k. file_identity sc c s' = Some k \<or> file_identity sc c s' = None \<longrightarrow>
        (\<forall>(op, out)\<in>set (zip ops outs). answers_as c why k op out))"
    using assms(3-6)
  proof (induction ops arbitrary: s outs)
    case (Cons op ops)
    obtain out t where t: "id_step sc c why token op s = (out, t)" using prod.exhaust by blast
    have o: "run_ops (id_step sc c why token) ops t = (fst (run_ops (id_step sc c why token) ops t), s')"
      "outs = out # fst (run_ops (id_step sc c why token) ops t)"
      using Cons.prems(4) t by (auto intro: prod_eqI)
    have op: "id_keeps op" "\<forall>op\<in>set ops. id_keeps op" using Cons.prems(3) by auto
    note one = id_step_spec [OF assms(1,2) Cons.prems(1,2) op(1) t]
    note rest = Cons.IH [OF conjunct1 [OF one] conjunct1 [OF conjunct2 [OF one]] op(2) o(1)]
    have "file_identity sc c t = Some k \<or> file_identity sc c t = None"
      if "file_identity sc c s' = Some k \<or> file_identity sc c s' = None" for k
      using that rest by (cases "file_identity sc c t") auto
    then show ?case using one rest by (auto simp: o(2))
  qed simp
  then show ?thesis by (cases "file_identity sc c s'") auto
qed

text \<open>A demonstration crate: the public keys follow from the secrets by length alone.\<close>

definition demo_id :: id_crate where
  "demo_id = \<lparr>ic_ed_vk = (\<lambda>s. take 32 (s @ replicate 32 (CHR ''v''))), ic_ed_ok = (\<lambda>_. True), ic_ed_sign = (\<lambda>s m. s @ m),
     ic_ed_sig_ok = (\<lambda>_. True), ic_ed_verify = (\<lambda>p m sig. True), ic_ml_vk = take ml_public_len,
     ic_ml_sign = (\<lambda>s m. Some (s @ m)), ic_ml_sig_ok = (\<lambda>_. True), ic_ml_verify = (\<lambda>p m sig. True), ic_why = []\<rparr>"

lemma demo_id_laws: "id_laws demo_id"
  by (auto simp: id_laws_def demo_id_def ml_secret_len_def ml_public_len_def)

definition demo_io :: id_io where
  "demo_io = \<lparr>io_gen = \<lparr>kg_seed = replicate 32 (CHR ''s''), kg_ml = Inr (replicate ml_secret_len (CHR ''m'')), kg_now = 7\<rparr>,
     io_salt = replicate 16 (CHR ''a''), io_nonce = replicate 12 (CHR ''n''), io_write = IdWritten, io_read = None,
     io_archive = None, io_now = 9, io_age = (\<lambda>_. None)\<rparr>"

lemma demo_io_ok: "id_io_ok demo_io"
  by (simp add: id_io_ok_def demo_io_def)

definition demo_daemon :: id_daemon where
  "demo_daemon = \<lparr>dm_node = ''v1'', dm_file = ''f'', dm_identity = None, dm_pass = ''p''\<rparr>"

definition demo_calls :: "id_op list" where
  "demo_calls = [IdCall demo_io (Some ''t'') RouteGenerate, IdRestart, IdCall demo_io (Some ''t'') RouteGenerate,
     IdCall demo_io None RouteCurrent]"

theorem identity_stable_witness:
  "\<exists>outs s'. run_ops (id_step demo_seal demo_id [] ''t'') demo_calls (demo_daemon, \<lambda>_. None) = (outs, s') \<and>
     (\<exists>k. \<forall>(op, out)\<in>set (zip demo_calls outs). answers_as demo_id [] k op out)"
proof -
  obtain outs s' where r: "run_ops (id_step demo_seal demo_id [] ''t'') demo_calls (demo_daemon, \<lambda>_. None) = (outs, s')"
    using prod.exhaust by blast
  have "id_node_ok (fst (demo_daemon, \<lambda>_::string. None :: (string \<times> nat) option))"
    unfolding fst_conv id_node_ok_def by code_simp
  moreover have "id_sound demo_seal demo_id (demo_daemon, \<lambda>_. None)" by (simp add: id_sound_def demo_daemon_def)
  moreover have "\<forall>op\<in>set demo_calls. id_keeps op" by (simp add: demo_calls_def demo_io_ok)
  ultimately show ?thesis using identity_stable [OF demo_seal_ok(1) demo_id_laws _ _ _ r] r by blast
qed

section \<open>What the server signs\<close>

lemma separators_differ: "domain_sep op @ ''|'' @ x = domain_sep op2 @ ''|'' @ y \<Longrightarrow> op = op2"
  by (cases op; cases op2) simp_all

lemma sign_checks_ok:
  assumes "sign_checks why now b = Inr (op, m)"
  shows "sign_op_of (ascii_lower (sb_op_type b)) = Some op"
    "\<exists>nonce x. hex_decode (trim (sb_nonce b)) = Some nonce \<and> 8 \<le> length nonce \<and> length nonce \<le> 64 \<and>
       hex_decode (sb_message b) = Some x \<and> m = bound_message op b nonce x"
    "unat now \<le> unat (sb_timestamp b) + 300" "unat (sb_timestamp b) \<le> unat now + 300"
    "length (sb_message b) \<le> max_sign_message"
proof -
  have lo: "unat (sat_sub now 300) = unat now - 300" by (simp add: unat_sat_sub)
  have hi: "unat (sat_add now 300) \<le> unat now + 300" by (simp add: unat_sat_add)
  have "sat_sub now 300 \<le> sb_timestamp b" "sb_timestamp b \<le> sat_add now 300"
    using assms by (auto simp: sign_checks_def Let_def not_less split: if_splits option.splits)
  then have "unat now - 300 \<le> unat (sb_timestamp b)" "unat (sb_timestamp b) \<le> unat now + 300"
    using lo hi by (simp_all add: word_le_nat_alt)
  then show "unat now \<le> unat (sb_timestamp b) + 300" "unat (sb_timestamp b) \<le> unat now + 300" by simp_all
qed (use assms in \<open>auto simp: sign_checks_def Let_def not_less split: if_splits option.splits\<close>)

text \<open>C36: The sign endpoint signs only what its checks let through: an allowed operation, a nonce of 8 to 64 bytes, a
  time stamp within five minutes and a short enough message; and what it signs for one operation
  is no message it ever signs for the other.\<close>

theorem sign_endpoint_separates:
  assumes "handle_sign c why now b dm = (200, body)"
  shows "\<exists>op nonce x k sig. sign_op_of (ascii_lower (sb_op_type b)) = Some op \<and>
    hex_decode (trim (sb_nonce b)) = Some nonce \<and> 8 \<le> length nonce \<and> length nonce \<le> 64 \<and>
    unat now \<le> unat (sb_timestamp b) + 300 \<and> unat (sb_timestamp b) \<le> unat now + 300 \<and>
    hex_decode (sb_message b) = Some x \<and> length (sb_message b) \<le> max_sign_message \<and>
    dm_identity dm = Some k \<and> sign_hybrid c (bound_message op b nonce x) k = Inr sig \<and> body = signature_body op sig \<and>
    (\<forall>why2 now2 b2 op2. sign_checks why2 now2 b2 = Inr (op2, bound_message op b nonce x) \<longrightarrow> op2 = op)"
proof -
  obtain op m k sig where s: "sign_checks why now b = Inr (op, m)" "dm_identity dm = Some k"
      "sign_hybrid c m k = Inr sig" "body = signature_body op sig"
    using handle_sign_ok [OF assms] by auto
  note ok = sign_checks_ok [OF s(1)]
  have "op2 = op" if "sign_checks why2 now2 b2 = Inr (op2, m)" for why2 now2 b2 op2
    using sign_checks_ok(2) [OF that] ok(2) separators_differ by (auto simp: bound_message_def)
  then show ?thesis using s ok by blast
qed

definition demo_sign :: sign_body where
  "demo_sign = \<lparr>sb_message = ''6869'', sb_op_type = ''Audit'', sb_policy_hash = None, sb_caller_id = Some ''ops'',
     sb_nonce = ''0011223344556677'', sb_timestamp = 100\<rparr>"

definition demo_pair :: hybrid_keypair where
  "demo_pair = \<lparr>hk_ed25519 = \<lparr>ed_secret = ''s'', ed_public = ''v''\<rparr>,
     hk_ml_dsa65 = \<lparr>ml_secret = replicate ml_secret_len (CHR ''m''), ml_public = ''q''\<rparr>, hk_node = ''v1'', hk_created = 7, hk_expires = 0\<rparr>"

lemma demo_signed: "\<exists>body. handle_sign demo_id [] 250 demo_sign (demo_daemon\<lparr>dm_identity := Some demo_pair\<rparr>) = (200, body)"
proof -
  have "is_ok (sign_checks [] 250 demo_sign)" by code_simp
  then obtain op m where "sign_checks [] 250 demo_sign = Inr (op, m)" by (auto simp: is_ok_iff)
  then show ?thesis
    by (simp add: handle_sign_def daemon_sign_def current_identity_def sign_hybrid_def ed_sign_def ml_sign_def ml_load_sk_def
        demo_pair_def demo_id_def)
qed

theorem sign_endpoint_separates_witness:
  "\<exists>op nonce x. sign_op_of (ascii_lower (sb_op_type demo_sign)) = Some op \<and> hex_decode (trim (sb_nonce demo_sign)) = Some nonce \<and>
    hex_decode (sb_message demo_sign) = Some x \<and>
    (\<forall>why2 now2 b2 op2. sign_checks why2 now2 b2 = Inr (op2, bound_message op demo_sign nonce x) \<longrightarrow> op2 = op)"
proof -
  obtain body where "handle_sign demo_id [] 250 demo_sign (demo_daemon\<lparr>dm_identity := Some demo_pair\<rparr>) = (200, body)"
    using demo_signed by blast
  from sign_endpoint_separates [OF this] show ?thesis by blast
qed

section \<open>What the daemon does not keep\<close>

text \<open>A request is signed again, as long as the clock lets it: the nonce is not recorded anywhere.\<close>

lemma sign_request_replays:
  assumes "handle_sign c why now b dm = (200, body)" "unat now2 \<le> unat (sb_timestamp b) + 300"
    "unat (sb_timestamp b) \<le> unat now2 + 300" "unat now2 + 300 < 2 ^ 64"
  shows "handle_sign c why now2 b dm = (200, body)"
proof -
  have u: "unat (sat_sub now2 300) \<le> unat (sb_timestamp b)" "unat (sb_timestamp b) \<le> unat (sat_add now2 300)"
    using assms(2-4) by (simp_all add: unat_sat_sub unat_sat_add)
  obtain op m k sig where s: "sign_checks why now b = Inr (op, m)" "dm_identity dm = Some k"
      "sign_hybrid c m k = Inr sig" "body = signature_body op sig"
    using handle_sign_ok [OF assms(1)] by auto
  then have "sign_checks why now2 b = Inr (op, m)"
    using u by (auto simp: sign_checks_def Let_def word_less_nat_alt not_less split: if_splits option.splits)
  then show ?thesis using s by (simp add: handle_sign_def daemon_sign_def current_identity_def)
qed

text \<open>The fields are not escaped: a caller can move the separator.\<close>

lemma bound_message_ambiguous:
  "bound_message op (b\<lparr>sb_policy_hash := None, sb_caller_id := Some ''a|b''\<rparr>) n x =
   bound_message op (b\<lparr>sb_policy_hash := Some ''none|a'', sb_caller_id := Some ''b''\<rparr>) n x"
  by (simp add: bound_message_def)

text \<open>When the new file cannot be written, a rotation leaves no identity file, and the next start makes up a new
  keypair where there was one.\<close>

lemma failed_rotation_forgets:
  assumes "d (id_filename dm) = Some f" "io_archive io = None" "io_write io = IdWriteFailed e left"
    and "rotate_identity sc c io (dm, d) = (r, dm', d')"
  shows "\<not> is_ok r \<and> dm' = dm \<and> file_identity sc c (dm', d') = None \<and>
    load_or_generate sc c io2 (dm\<lparr>dm_identity := None\<rparr>, d') = fresh_identity sc c io2 (dm\<lparr>dm_identity := None\<rparr>) d'"
proof -
  let ?d = "clean_archives (io_age io) (d(archive_name dm (io_now io) \<mapsto> f, id_filename dm := None))"
  have "fresh_identity sc c io dm ?d = (r, dm', d')" using assms(4) by (simp add: rotate_identity_def assms(1,2))
  then have "\<not> is_ok r" "dm' = dm" "d' (id_filename dm) = ?d (id_filename dm)"
    by (cases "hybrid_generate c (io_gen io) (dm_node dm)"; auto simp: fresh_identity_def assms(3) id_atomic_write_def)+
  then show ?thesis by (simp add: clean_archives_def file_identity_def load_or_generate_def)
qed

text \<open>No archive a rotation writes is ever cleaned: their names end in a time.\<close>

lemma archives_never_stale: "\<not> stale_archive age (archive_name dm now)"
proof
  assume "stale_archive age (archive_name dm now)"
  then have "last (archive_name dm now) = CHR ''.''"
    unfolding stale_archive_def by (auto simp: suffix_def)
  moreover have "last (archive_name dm now) = last (dec_u now)"
    by (simp add: archive_name_def dec_u_def)
  moreover have "is_ascii_digit (last (dec_u now))"
    by (rule dec_u_digits [of _ now]) (simp add: dec_u_def)
  ultimately show False by (simp add: is_ascii_digit_def code_def)
qed

end
