(* ===== verification/Signer.thy ===== *)
theory Signer
  imports Hex
begin

text \<open>
  The signer process (\<open>vault-signer\<close>): signing sessions and their manager (\<open>session.rs\<close>), the calls of the
  FROST crate (\<open>signer.rs\<close>), the frames of its socket (\<open>ipc.rs\<close>), the key store and the request handler
  (\<open>main.rs\<close>).  The FROST and JSON crates are the record \<open>signer_crate\<close>; identifiers, commitments and
  shares are their serialized values.  The crate does not compile as it stands; the model follows the
  evident reading (session ids are ordered, a bad identifier is an error).
\<close>

section \<open>Sessions\<close>

datatype signer_error =
    InsufficientShares nat nat
  | InvalidKeyPackage string
  | RoundError string
  | SessionNotFound
  | SessionAlreadyCompleted
  | DuplicateCommitment
  | SignatureVerificationFailed
  | SignerInternal string

type_synonym 'a sg_res = "signer_error + 'a"

fun signer_message :: "signer_error \<Rightarrow> string" where
  "signer_message (InsufficientShares have need) = ''insufficient shares: have '' @ dec have @ '', need '' @ dec need"
| "signer_message (InvalidKeyPackage m) = ''invalid key package: '' @ m"
| "signer_message (RoundError m) = ''round error: '' @ m"
| "signer_message SessionNotFound = ''session not found''"
| "signer_message SessionAlreadyCompleted = ''session already completed''"
| "signer_message DuplicateCommitment = ''duplicate commitment''"
| "signer_message SignatureVerificationFailed = ''signature verification failed''"
| "signer_message (SignerInternal m) = ''internal: '' @ m"

datatype session_phase = AwaitingCommitments | AwaitingShares | SessionDone | SessionFailed string

record sg_session =
  sn_id :: string
  sn_message :: string
  sn_state :: session_phase
  sn_commitments :: "string btmap"
  sn_shares :: "string btmap"
  sn_expected :: "string list"
  sn_min :: nat
  sn_created :: nat

function hex_num :: "nat \<Rightarrow> string" where
  "hex_num n = (if n < 16 then [nibble_char n] else hex_num (n div 16) @ [nibble_char (n mod 16)])"
  by pat_completeness auto
termination by (relation "measure id") auto

declare hex_num.simps [simp del]

text \<open>A session id is made of the clock and a random number.\<close>

definition session_id_new :: "nat \<Rightarrow> u64 \<Rightarrow> string" where
  "session_id_new nanos r = ''session-'' @ hex_num nanos @ ''-'' @ hex_num (unat r)"

text \<open>The clock is read twice, for the creation time and for the id.\<close>

record session_draw =
  dr_now :: nat
  dr_id_now :: nat
  dr_random :: u64

definition sg_session_new :: "session_draw \<Rightarrow> string \<Rightarrow> string list \<Rightarrow> nat \<Rightarrow> sg_session" where
  "sg_session_new d m expected mn =
     \<lparr>sn_id = session_id_new (dr_id_now d) (dr_random d), sn_message = m, sn_state = AwaitingCommitments,
      sn_commitments = [], sn_shares = [], sn_expected = expected, sn_min = mn, sn_created = dr_now d\<rparr>"

definition add_commitments :: "string \<Rightarrow> string \<Rightarrow> sg_session \<Rightarrow> unit sg_res \<times> sg_session" where
  "add_commitments i c s =
     (if sn_state s \<noteq> AwaitingCommitments then (Inl SessionAlreadyCompleted, s)
      else if bt_get i (sn_commitments s) \<noteq> None then (Inl DuplicateCommitment, s)
      else
        let cs = bt_put i c (sn_commitments s); t = s\<lparr>sn_commitments := cs\<rparr> in
        (Inr (), if sn_min s \<le> length cs then t\<lparr>sn_state := AwaitingShares\<rparr> else t))"

definition add_signature_share :: "string \<Rightarrow> string \<Rightarrow> sg_session \<Rightarrow> unit sg_res \<times> sg_session" where
  "add_signature_share i x s =
     (if sn_state s = SessionDone then (Inl SessionAlreadyCompleted, s)
      else if sn_state s = AwaitingCommitments then (Inl (RoundError ''still awaiting commitments''), s)
      else
        let xs = bt_put i x (sn_shares s); t = s\<lparr>sn_shares := xs\<rparr> in
        (Inr (), if sn_min s \<le> length xs then t\<lparr>sn_state := SessionDone\<rparr> else t))"

section \<open>The manager\<close>

record sg_manager =
  mg_sessions :: "sg_session btmap"
  mg_max :: nat

definition manager_new :: "nat \<Rightarrow> sg_manager" where
  "manager_new mx = \<lparr>mg_sessions = [], mg_max = mx\<rparr>"

definition sg_create_session :: "session_draw \<Rightarrow> string \<Rightarrow> string list \<Rightarrow> nat \<Rightarrow> sg_manager \<Rightarrow> string sg_res \<times> sg_manager" where
  "sg_create_session d m expected mn g =
     (if mg_max g \<le> length (mg_sessions g) then (Inl (SignerInternal ''max concurrent sessions reached''), g)
      else
        let s = sg_session_new d m expected mn in
        (Inr (sn_id s), g\<lparr>mg_sessions := bt_put (sn_id s) s (mg_sessions g)\<rparr>))"

definition sg_get_session :: "string \<Rightarrow> sg_manager \<Rightarrow> sg_session sg_res" where
  "sg_get_session i g = (case bt_get i (mg_sessions g) of Some s \<Rightarrow> Inr s | None \<Rightarrow> Inl SessionNotFound)"

definition sg_remove_session :: "string \<Rightarrow> sg_manager \<Rightarrow> sg_session option \<times> sg_manager" where
  "sg_remove_session i g = (bt_get i (mg_sessions g), g\<lparr>mg_sessions := bt_remove i (mg_sessions g)\<rparr>)"

definition active_count :: "sg_manager \<Rightarrow> nat" where
  "active_count g = length (mg_sessions g)"

definition cleanup_expired :: "nat \<Rightarrow> u64 \<Rightarrow> sg_manager \<Rightarrow> sg_manager" where
  "cleanup_expired now max_age g =
     g\<lparr>mg_sessions := filter (\<lambda>p. now - sn_created (snd p) < unat max_age * 1000000000) (mg_sessions g)\<rparr>"

section \<open>Key material\<close>

record signer_crate =
  sg_ident :: "u16 \<Rightarrow> string option"
  sg_read_pk :: "string \<Rightarrow> string option"
  sg_write_pk :: "string \<Rightarrow> string"
  sg_read_commitments :: "string \<Rightarrow> (u16 \<times> string) list option"
  sg_read_share :: "string \<Rightarrow> (u16 \<times> string) option"
  sg_sign :: "string \<Rightarrow> string \<Rightarrow> string btmap \<Rightarrow> string \<Rightarrow> string option"
  sg_aggregate :: "string btmap \<Rightarrow> string btmap \<Rightarrow> string \<Rightarrow> string \<Rightarrow> string option"
  sg_verify :: "string \<Rightarrow> string \<Rightarrow> string \<Rightarrow> bool"
  sg_sig_json :: "string \<Rightarrow> string"
  sg_why :: string

definition signer_sign :: "signer_crate \<Rightarrow> string \<Rightarrow> string \<Rightarrow> string \<Rightarrow> string btmap \<Rightarrow> string sg_res" where
  "signer_sign c kp m nonces cs =
     (case sg_sign c kp nonces cs m of None \<Rightarrow> Inl (RoundError (''round2 sign: '' @ sg_why c)) | Some x \<Rightarrow> Inr x)"

definition signer_aggregate :: "signer_crate \<Rightarrow> string btmap \<Rightarrow> string btmap \<Rightarrow> string \<Rightarrow> string \<Rightarrow> string sg_res" where
  "signer_aggregate c cs xs pk m =
     (case sg_aggregate c cs xs pk m of None \<Rightarrow> Inl (RoundError (''aggregate: '' @ sg_why c)) | Some x \<Rightarrow> Inr x)"

definition signer_verify :: "signer_crate \<Rightarrow> string \<Rightarrow> string \<Rightarrow> string \<Rightarrow> bool sg_res" where
  "signer_verify c sig pk m = Inr (sg_verify c pk m sig)"

text \<open>The package the aggregation needs, and the file it is kept in.\<close>

record key_store =
  ks_pubkey :: "string option"
  ks_file :: "string option"

definition ks_load :: "signer_crate \<Rightarrow> string option \<Rightarrow> key_store \<Rightarrow> unit sg_res \<times> key_store" where
  "ks_load c read_err k =
     (case ks_file k of
        None \<Rightarrow> (Inr (), k)
      | Some bytes \<Rightarrow>
          (case read_err of
             Some e \<Rightarrow> (Inl (SignerInternal (''read pubkey: '' @ e)), k)
           | None \<Rightarrow>
               (case sg_read_pk c bytes of
                  None \<Rightarrow> (Inl (SignerInternal (''deserialize pubkey: '' @ sg_why c)), k)
                | Some pk \<Rightarrow> (Inr (), k\<lparr>ks_pubkey := Some pk\<rparr>))))"

text \<open>A write that fails may leave part of the file behind.\<close>

definition ks_save :: "signer_crate \<Rightarrow> (string \<times> string option) option \<Rightarrow> key_store \<Rightarrow> unit sg_res \<times> key_store" where
  "ks_save c write_err k =
     (case ks_pubkey k of
        None \<Rightarrow> (Inr (), k)
      | Some pk \<Rightarrow>
          (case write_err of
             Some (e, left) \<Rightarrow> (Inl (SignerInternal (''write pubkey: '' @ e)), k\<lparr>ks_file := left\<rparr>)
           | None \<Rightarrow> (Inr (), k\<lparr>ks_file := Some (sg_write_pk c pk)\<rparr>)))"

section \<open>Requests\<close>

datatype sg_request =
    SgCreateSession string "string list" u16
  | SgInstallKeyPackages string
  | SgSubmitCommitments string string
  | SgSubmitShare string string
  | SgGetSignature string
  | SgStatus string
  | SgHealth

datatype sg_response =
    RsSessionCreated string
  | RsCommitmentsAccepted
  | RsKeyPackagesInstalled
  | RsShareAccepted
  | RsSignature string
  | RsStatus string nat nat nat
  | RsHealth string nat
  | RsError string

record sg_state =
  st_manager :: sg_manager
  st_keys :: key_store

text \<open>A participant is two bytes, or one; an empty one is indexed and panics.\<close>

definition participant_number :: "string \<Rightarrow> u16 option" where
  "participant_number b =
     (case b of
        [] \<Rightarrow> None
      | [x] \<Rightarrow> Some (word_of_nat (code x))
      | x # y # _ \<Rightarrow> Some (word_of_nat (256 * code x + code y)))"

fun read_participants :: "signer_crate \<Rightarrow> string list \<Rightarrow> (string, string list) sum option" where
  "read_participants c [] = Some (Inr [])"
| "read_participants c (b # bs) =
     (case participant_number b of
        None \<Rightarrow> None
      | Some v \<Rightarrow>
          (case sg_ident c v of
             None \<Rightarrow> Some (Inl (''invalid identifier: '' @ sg_why c))
           | Some i \<Rightarrow> map_option (\<lambda>r. rbind r (\<lambda>is. Inr (i # is))) (read_participants c bs)))"

fun add_all_commitments :: "signer_crate \<Rightarrow> (u16 \<times> string) list \<Rightarrow> sg_session \<Rightarrow> (string, unit) sum \<times> sg_session" where
  "add_all_commitments c [] s = (Inr (), s)"
| "add_all_commitments c ((v, x) # ps) s =
     (case sg_ident c v of
        None \<Rightarrow> (Inl (''invalid identifier '' @ dec_u v @ '': '' @ sg_why c), s)
      | Some i \<Rightarrow>
          (case add_commitments i x s of
             (Inl e, t) \<Rightarrow> (Inl (''add commitment: '' @ signer_message e), t)
           | (Inr _, t) \<Rightarrow> add_all_commitments c ps t))"

definition put_sg_session :: "sg_session \<Rightarrow> string \<Rightarrow> sg_state \<Rightarrow> sg_state" where
  "put_sg_session s i st =
     st\<lparr>st_manager := (st_manager st)\<lparr>mg_sessions := bt_put i s (mg_sessions (st_manager st))\<rparr>\<rparr>"

fun phase_str :: "session_phase \<Rightarrow> string" where
  "phase_str AwaitingCommitments = ''awaiting_commitments''"
| "phase_str AwaitingShares = ''awaiting_signature_shares''"
| "phase_str SessionDone = ''complete''"
| "phase_str (SessionFailed _) = ''failed''"

definition sg_create :: "signer_crate \<Rightarrow> session_draw \<Rightarrow> string \<Rightarrow> string list \<Rightarrow> u16 \<Rightarrow> sg_state \<Rightarrow> (sg_response \<times> sg_state) option" where
  "sg_create c d message participants mn st =
     (case hex_decode message of
        None \<Rightarrow> Some (RsError (''invalid hex: '' @ sg_why c), st)
      | Some m \<Rightarrow>
          (case read_participants c participants of
             None \<Rightarrow> None
           | Some (Inl e) \<Rightarrow> Some (RsError e, st)
           | Some (Inr is) \<Rightarrow>
               (case sg_create_session d m is (unat mn) (st_manager st) of
                  (Inl e, g) \<Rightarrow> Some (RsError (signer_message e), st\<lparr>st_manager := g\<rparr>)
                | (Inr i, g) \<Rightarrow> Some (RsSessionCreated i, st\<lparr>st_manager := g\<rparr>))))"

definition sg_install :: "signer_crate \<Rightarrow> (string \<times> string option) option \<Rightarrow> string \<Rightarrow> sg_state \<Rightarrow> sg_response \<times> sg_state" where
  "sg_install c write_err json st =
     (case sg_read_pk c json of
        None \<Rightarrow> (RsError (''invalid pubkey package: '' @ sg_why c), st)
      | Some pk \<Rightarrow>
          (RsKeyPackagesInstalled, st\<lparr>st_keys := snd (ks_save c write_err ((st_keys st)\<lparr>ks_pubkey := Some pk\<rparr>))\<rparr>))"

definition sg_submit_commitments :: "signer_crate \<Rightarrow> string \<Rightarrow> string \<Rightarrow> sg_state \<Rightarrow> sg_response \<times> sg_state" where
  "sg_submit_commitments c i json st =
     (case sg_get_session i (st_manager st) of
        Inl e \<Rightarrow> (RsError (signer_message e), st)
      | Inr s \<Rightarrow>
          (case sg_read_commitments c json of
             None \<Rightarrow> (RsError (''invalid commitments format: '' @ sg_why c), st)
           | Some ps \<Rightarrow>
               if ps = [] then (RsError ''no commitments provided'', st)
               else case add_all_commitments c ps s of
                 (Inl e, t) \<Rightarrow> (RsError e, put_sg_session t i st)
               | (Inr _, t) \<Rightarrow> (RsCommitmentsAccepted, put_sg_session t i st)))"

definition sg_submit_share :: "signer_crate \<Rightarrow> string \<Rightarrow> string \<Rightarrow> sg_state \<Rightarrow> sg_response \<times> sg_state" where
  "sg_submit_share c i json st =
     (case sg_get_session i (st_manager st) of
        Inl e \<Rightarrow> (RsError (signer_message e), st)
      | Inr s \<Rightarrow>
          (case sg_read_share c json of
             None \<Rightarrow> (RsError (''invalid share format: '' @ sg_why c), st)
           | Some (v, x) \<Rightarrow>
               (case sg_ident c v of
                  None \<Rightarrow> (RsError (''invalid identifier '' @ dec_u v @ '': '' @ sg_why c), st)
                | Some j \<Rightarrow>
                    (case add_signature_share j x s of
                       (Inl e, t) \<Rightarrow> (RsError (''add signature share: '' @ signer_message e), put_sg_session t i st)
                     | (Inr _, t) \<Rightarrow> (RsShareAccepted, put_sg_session t i st)))))"

definition sg_get_signature :: "signer_crate \<Rightarrow> string \<Rightarrow> sg_state \<Rightarrow> sg_response" where
  "sg_get_signature c i st =
     (case sg_get_session i (st_manager st) of
        Inl e \<Rightarrow> RsError (signer_message e)
      | Inr s \<Rightarrow>
          if sn_state s \<noteq> SessionDone then RsError ''session not yet complete''
          else case ks_pubkey (st_keys st) of
            None \<Rightarrow> RsError ''key packages not installed''
          | Some pk \<Rightarrow>
              if length (sn_commitments s) < sn_min s
              then RsError (''insufficient commitments: have '' @ dec (length (sn_commitments s)) @ '', need '' @ dec (sn_min s))
              else if length (sn_shares s) < sn_min s
              then RsError (''insufficient signature shares: have '' @ dec (length (sn_shares s)) @ '', need '' @ dec (sn_min s))
              else case signer_aggregate c (sn_commitments s) (sn_shares s) pk (sn_message s) of
                Inl e \<Rightarrow> RsError (''aggregation failed: '' @ signer_message e)
              | Inr sig \<Rightarrow> RsSignature (sg_sig_json c sig))"

definition sg_status :: "string \<Rightarrow> sg_state \<Rightarrow> sg_response" where
  "sg_status i st =
     (case sg_get_session i (st_manager st) of
        Inl e \<Rightarrow> RsError (signer_message e)
      | Inr s \<Rightarrow> RsStatus (phase_str (sn_state s)) (length (sn_commitments s)) (length (sn_shares s)) (sn_min s))"

text \<open>The handler; \<open>None\<close> is a panic, which ends the process.\<close>

definition sg_handle ::
  "signer_crate \<Rightarrow> session_draw \<Rightarrow> (string \<times> string option) option \<Rightarrow> sg_request \<Rightarrow> sg_state \<Rightarrow> (sg_response \<times> sg_state) option" where
  "sg_handle c d write_err q st =
     (case q of
        SgHealth \<Rightarrow> Some (RsHealth ''ok'' (active_count (st_manager st)), st)
      | SgInstallKeyPackages json \<Rightarrow> Some (sg_install c write_err json st)
      | SgCreateSession m ps mn \<Rightarrow> sg_create c d m ps mn st
      | SgSubmitCommitments i json \<Rightarrow> Some (sg_submit_commitments c i json st)
      | SgSubmitShare i json \<Rightarrow> Some (sg_submit_share c i json st)
      | SgGetSignature i \<Rightarrow> Some (sg_get_signature c i st, st)
      | SgStatus i \<Rightarrow> Some (sg_status i st, st))"

definition sg_boot :: "signer_crate \<Rightarrow> string option \<Rightarrow> string option \<Rightarrow> sg_state" where
  "sg_boot c read_err file =
     \<lparr>st_manager = manager_new 64, st_keys = snd (ks_load c read_err \<lparr>ks_pubkey = None, ks_file = file\<rparr>)\<rparr>"

section \<open>Frames\<close>

definition max_frame :: nat where "max_frame = 1048576"

definition sg_be32 :: "nat \<Rightarrow> string" where
  "sg_be32 n = map (\<lambda>k. chr (n div 256 ^ k mod 256)) [3, 2, 1, 0]"

definition sg_un_be32 :: "string \<Rightarrow> nat" where
  "sg_un_be32 s = foldl (\<lambda>n x. 256 * n + code x) 0 s"

text \<open>\<open>json\<close> is the serialized message.\<close>

definition encode_frame :: "string \<Rightarrow> string \<Rightarrow> string sg_res" where
  "encode_frame too_large json =
     (if max_frame < length json then Inl (SignerInternal too_large) else Inr (sg_be32 (length json) @ json))"

definition decode_frame :: "(string \<Rightarrow> 'q option) \<Rightarrow> string \<Rightarrow> string \<Rightarrow> 'q sg_res" where
  "decode_frame parse why b =
     (if length b < 4 then Inl (SignerInternal ''message too short'')
      else
        let n = sg_un_be32 (take 4 b) in
        if max_frame < n \<or> length b < 4 + n then Inl (SignerInternal ''invalid message length'')
        else case parse (take n (drop 4 b)) of
          None \<Rightarrow> Inl (SignerInternal (''deserialization: '' @ why))
        | Some q \<Rightarrow> Inr q)"

text \<open>One connection: the bytes the peer sends, what is written back, and how it ends.  The handler may panic.\<close>

definition handle_connection ::
  "(string \<Rightarrow> 'q option) \<Rightarrow> ('r \<Rightarrow> string) \<Rightarrow> (string \<Rightarrow> 'r) \<Rightarrow> string \<Rightarrow> ('q \<Rightarrow> 's \<Rightarrow> ('r \<times> 's) option) \<Rightarrow> string \<Rightarrow> 's
     \<Rightarrow> (string \<times> unit sg_res \<times> 's) option" where
  "handle_connection parse print err why handler sent s =
     (if length sent < 4 then Some ([], Inl (SignerInternal (''read length: '' @ why)), s)
      else
        let n = sg_un_be32 (take 4 sent) in
        if max_frame < n \<or> n = 0
        then (case encode_frame ''message too large'' (print (err ''invalid message length'')) of
                Inl e \<Rightarrow> Some ([], Inl e, s)
              | Inr f \<Rightarrow> Some (f, Inl (SignerInternal ''invalid message length''), s))
        else if length sent < 4 + n then Some ([], Inl (SignerInternal (''read body: '' @ why)), s)
        else case parse (take n (drop 4 sent)) of
          None \<Rightarrow> Some ([], Inl (SignerInternal (''deserialize: '' @ why)), s)
        | Some q \<Rightarrow>
            (case handler q s of
               None \<Rightarrow> None
             | Some (r, t) \<Rightarrow>
                 (case encode_frame ''message too large'' (print r) of
                    Inl e \<Rightarrow> Some ([], Inl e, t)
                  | Inr f \<Rightarrow> Some (f, Inr (), t))))"

text \<open>What the client makes of the reply.\<close>

definition read_reply :: "(string \<Rightarrow> 'r option) \<Rightarrow> string \<Rightarrow> string \<Rightarrow> 'r sg_res" where
  "read_reply parse why b =
     (if length b < 4 then Inl (SignerInternal (''read response length: '' @ why))
      else
        let n = sg_un_be32 (take 4 b) in
        if max_frame < n \<or> n = 0 then Inl (SignerInternal ''invalid response length'')
        else if length b < 4 + n then Inl (SignerInternal (''read response body: '' @ why))
        else case parse (take n (drop 4 b)) of
          None \<Rightarrow> Inl (SignerInternal (''deserialize response: '' @ why))
        | Some r \<Rightarrow> Inr r)"

section \<open>What the sessions keep\<close>

lemma length_bt_put_le: "length m \<le> length (bt_put k v m)" "length (bt_put k v m) \<le> Suc (length m)"
  by (induction k v m rule: bt_put.induct) auto

lemma length_bt_put_new: "bt_get k m = None \<Longrightarrow> length (bt_put k v m) = Suc (length m)"
  by (induction k v m rule: bt_put.induct) (auto split: if_splits)

text \<open>Writing under a key that is there changes no length in an ordered map.\<close>

lemma length_bt_put_old: "bt_ok m \<Longrightarrow> k \<in> set (bt_keys m) \<Longrightarrow> length (bt_put k v m) = length m"
  by (induction k v m rule: bt_put.induct) (auto simp: bt_ok_Cons)

lemma bt_put_not_Nil: "0 < length (bt_put k v m)"
  by (induction k v m rule: bt_put.induct) auto

definition sg_quorum :: "sg_session \<Rightarrow> nat" where
  "sg_quorum s = max 1 (sn_min s)"

text \<open>The phase says how many commitments and shares there are.\<close>

definition sg_session_ok :: "sg_session \<Rightarrow> bool" where
  "sg_session_ok s \<longleftrightarrow>
     (case sn_state s of
        AwaitingCommitments \<Rightarrow> sn_shares s = [] \<and> length (sn_commitments s) < sg_quorum s
      | AwaitingShares \<Rightarrow> length (sn_commitments s) = sg_quorum s \<and> length (sn_shares s) < sg_quorum s
      | SessionDone \<Rightarrow> length (sn_commitments s) = sg_quorum s \<and> length (sn_shares s) = sg_quorum s
      | SessionFailed _ \<Rightarrow> False)"

lemma session_new_ok: "sg_session_ok (sg_session_new d m is mn)"
  by (simp add: sg_session_ok_def sg_session_new_def sg_quorum_def)

lemma add_commitments_ok: "sg_session_ok s \<Longrightarrow> sg_session_ok (snd (add_commitments i c s))"
  using length_bt_put_new [of i "sn_commitments s" c]
  by (cases "sn_state s") (auto simp: add_commitments_def sg_session_ok_def sg_quorum_def Let_def)

lemma add_share_ok:
  assumes "sg_session_ok s"
  shows "sg_session_ok (snd (add_signature_share i x s))"
proof (cases "sn_state s = AwaitingShares")
  case True
  obtain n where n: "length (bt_put i x (sn_shares s)) = Suc n" "n \<le> length (sn_shares s)"
    using length_bt_put_le(2) [of i x "sn_shares s"] bt_put_not_Nil [of i x "sn_shares s"]
    by (cases "bt_put i x (sn_shares s)") auto
  then show ?thesis using assms True by (auto simp: add_signature_share_def sg_session_ok_def sg_quorum_def Let_def)
qed (use assms in \<open>auto simp: add_signature_share_def sg_session_ok_def split: session_phase.splits\<close>)

lemma add_all_ok: "sg_session_ok s \<Longrightarrow> sg_session_ok (snd (add_all_commitments c ps s))"
proof (induction c ps s rule: add_all_commitments.induct)
  case (2 c v x ps s)
  then show ?case using add_commitments_ok [of s] by (auto split: option.split prod.split sum.split) (metis snd_conv)+
qed simp

definition sg_state_ok :: "sg_state \<Rightarrow> bool" where
  "sg_state_ok st \<longleftrightarrow> (\<forall>i s. bt_get i (mg_sessions (st_manager st)) = Some s \<longrightarrow> sg_session_ok s) \<and>
     bt_ok (mg_sessions (st_manager st)) \<and>
     length (mg_sessions (st_manager st)) \<le> mg_max (st_manager st) \<and> mg_max (st_manager st) = 64"

lemma put_sg_session_ok:
  assumes "sg_state_ok st" "sg_get_session i (st_manager st) = Inr s" "sg_session_ok t"
  shows "sg_state_ok (put_sg_session t i st)" "active_count (st_manager (put_sg_session t i st)) = active_count (st_manager st)"
proof -
  have "length (bt_put i t (mg_sessions (st_manager st))) = length (mg_sessions (st_manager st))"
  proof (rule length_bt_put_old)
    have "bt_get i (mg_sessions (st_manager st)) \<noteq> None" using assms(2) by (auto simp: sg_get_session_def split: option.splits)
    then show "i \<in> set (bt_keys (mg_sessions (st_manager st)))" by (simp add: bt_get_None)
  qed (use assms(1) in \<open>simp add: sg_state_ok_def\<close>)
  then show "sg_state_ok (put_sg_session t i st)" "active_count (st_manager (put_sg_session t i st)) = active_count (st_manager st)"
    using assms by (auto simp: sg_state_ok_def put_sg_session_def bt_get_put active_count_def)
qed

lemma sg_create_ok:
  assumes "sg_create c d m ps mn st = Some (r, t)" "sg_state_ok st"
  shows "sg_state_ok t \<and> active_count (st_manager st) \<le> active_count (st_manager t) \<and>
    (mg_max (st_manager st) \<le> active_count (st_manager st) \<longrightarrow> (\<exists>e. r = RsError e))"
proof -
  have "(\<exists>e. r = RsError e) \<and> t = st \<or>
      (\<exists>g is i. sg_create_session d (the (hex_decode m)) is (unat mn) (st_manager st) = (Inr i, g) \<and> t = st\<lparr>st_manager := g\<rparr>)"
    using assms(1) by (auto simp: sg_create_def sg_create_session_def Let_def split: option.splits sum.splits if_splits)
  then show ?thesis
  proof
    assume "\<exists>g is i. sg_create_session d (the (hex_decode m)) is (unat mn) (st_manager st) = (Inr i, g) \<and> t = st\<lparr>st_manager := g\<rparr>"
    then obtain s j where s: "s = sg_session_new d (the (hex_decode m)) j (unat mn)"
      and t: "t = st\<lparr>st_manager := (st_manager st)\<lparr>mg_sessions := bt_put (sn_id s) s (mg_sessions (st_manager st))\<rparr>\<rparr>"
      and room: "length (mg_sessions (st_manager st)) < mg_max (st_manager st)"
      by (auto simp: sg_create_session_def Let_def not_le split: if_splits)
    have "sg_session_ok s" by (simp add: s session_new_ok)
    moreover have "length (bt_put (sn_id s) s (mg_sessions (st_manager st))) \<le> mg_max (st_manager st)"
      using room length_bt_put_le(2) [of "sn_id s" s "mg_sessions (st_manager st)"] by linarith
    ultimately show ?thesis
      using assms(2) room length_bt_put_le(1) [of "mg_sessions (st_manager st)" "sn_id s" s]
      by (auto simp: t sg_state_ok_def active_count_def bt_get_put)
  qed (use assms(2) in auto)
qed

lemma get_session_ok: "sg_state_ok st \<Longrightarrow> sg_get_session i (st_manager st) = Inr s \<Longrightarrow> sg_session_ok s"
  by (auto simp: sg_state_ok_def sg_get_session_def split: option.splits)

lemma sg_submit_commitments_ok:
  assumes "sg_submit_commitments c i json st = (r, t)" "sg_state_ok st"
  shows "sg_state_ok t \<and> active_count (st_manager t) = active_count (st_manager st)"
proof -
  have "t = st \<or> (\<exists>s ps. sg_get_session i (st_manager st) = Inr s \<and> t = put_sg_session (snd (add_all_commitments c ps s)) i st)"
    using assms(1) by (auto simp: sg_submit_commitments_def split: sum.splits option.splits if_splits prod.splits) (metis snd_conv)+
  then show ?thesis
    using assms(2) put_sg_session_ok add_all_ok [OF get_session_ok] by auto
qed

lemma sg_submit_share_ok:
  assumes "sg_submit_share c i json st = (r, t)" "sg_state_ok st"
  shows "sg_state_ok t \<and> active_count (st_manager t) = active_count (st_manager st)"
proof -
  have "t = st \<or> (\<exists>s j x. sg_get_session i (st_manager st) = Inr s \<and> t = put_sg_session (snd (add_signature_share j x s)) i st)"
    using assms(1) by (auto simp: sg_submit_share_def split: sum.splits option.splits if_splits prod.splits) (metis snd_conv)+
  then show ?thesis
    using assms(2) put_sg_session_ok add_share_ok [OF get_session_ok] by auto
qed

text \<open>No request takes a session away, and once there are 64 no session is ever created again.\<close>

lemma sg_handle_ok:
  assumes "sg_handle c d w q st = Some (r, t)" "sg_state_ok st"
  shows "sg_state_ok t \<and> active_count (st_manager st) \<le> active_count (st_manager t)"
proof (cases q)
  case (SgCreateSession m ps mn)
  then show ?thesis using assms sg_create_ok by (auto simp: sg_handle_def)
next
  case (SgInstallKeyPackages json)
  then show ?thesis using assms by (auto simp: sg_handle_def sg_install_def sg_state_ok_def split: option.splits)
next
  case (SgSubmitCommitments i json)
  then have "sg_submit_commitments c i json st = (r, t)" using assms(1) by (simp add: sg_handle_def)
  from sg_submit_commitments_ok [OF this assms(2)] show ?thesis by simp
next
  case (SgSubmitShare i json)
  then have "sg_submit_share c i json st = (r, t)" using assms(1) by (simp add: sg_handle_def)
  from sg_submit_share_ok [OF this assms(2)] show ?thesis by simp
qed (use assms in \<open>auto simp: sg_handle_def\<close>)

lemma sg_boot_ok: "sg_state_ok (sg_boot c e f)"
  by (simp add: sg_state_ok_def sg_boot_def manager_new_def)

section \<open>Runs\<close>

fun sg_run ::
  "signer_crate \<Rightarrow> (session_draw \<times> (string \<times> string option) option \<times> sg_request) list \<Rightarrow> sg_state
     \<Rightarrow> (sg_response list \<times> sg_state) option" where
  "sg_run c [] st = Some ([], st)"
| "sg_run c ((d, w, q) # qs) st =
     (case sg_handle c d w q st of
        None \<Rightarrow> None
      | Some (r, t) \<Rightarrow> map_option (\<lambda>(rs, u). (r # rs, u)) (sg_run c qs t))"

lemma sg_run_ok:
  "sg_run c qs st = Some (rs, t) \<Longrightarrow> sg_state_ok st \<Longrightarrow>
     sg_state_ok t \<and> active_count (st_manager st) \<le> active_count (st_manager t)"
proof (induction qs arbitrary: st rs)
  case (Cons x qs)
  obtain d w q where x: "x = (d, w, q)" by (cases x)
  obtain r u rs2 where h: "sg_handle c d w q st = Some (r, u)" "sg_run c qs u = Some (rs2, t)"
    using Cons.prems(1) by (auto simp: x split: option.splits)
  from sg_handle_ok [OF h(1) Cons.prems(2)] Cons.IH [OF h(2)] show ?case by auto
qed simp


text \<open>A crate that takes everything, with the identifiers of one byte.\<close>

definition demo_signing :: signer_crate where
  "demo_signing = \<lparr>sg_ident = (\<lambda>v. if v = 0 then None else Some [chr (unat v)]), sg_read_pk = Some, sg_write_pk = (\<lambda>p. p),
     sg_read_commitments = (\<lambda>j. Some [(1, j), (2, j)]), sg_read_share = (\<lambda>j. Some (word_of_nat (length j), j)),
     sg_sign = (\<lambda>k n cs m. Some m), sg_aggregate = (\<lambda>cs xs p m. Some (concat (bt_vals xs) @ m)),
     sg_verify = (\<lambda>p m s. True), sg_sig_json = (\<lambda>s. s), sg_why = []\<rparr>"

definition demo_draw :: session_draw where
  "demo_draw = \<lparr>dr_now = 5, dr_id_now = 6, dr_random = 7\<rparr>"

definition demo_requests :: "(session_draw \<times> (string \<times> string option) option \<times> sg_request) list" where
  "demo_requests = map (\<lambda>q. (demo_draw, None, q))
     [SgCreateSession ''6d'' [[chr 1], [chr 2]] 2, SgInstallKeyPackages ''pk'', SgSubmitCommitments ''session-6-7'' ''c'',
      SgSubmitShare ''session-6-7'' ''x'', SgSubmitShare ''session-6-7'' ''yy'']"

definition demo_signer_end :: "(sg_response list \<times> sg_state) option" where
  "demo_signer_end = sg_run demo_signing demo_requests (sg_boot demo_signing None None)"

lemma session_id_demo: "session_id_new 6 7 = ''session-6-7''"
  by code_simp

lemma demo_signer_runs:
  "map_option (\<lambda>(rs, st). sg_get_signature demo_signing ''session-6-7'' st) demo_signer_end = Some (RsSignature ''xyym'')"
  unfolding demo_signer_end_def by code_simp


section \<open>What goes wrong\<close>

text \<open>No session is ever removed by a request, so after 64 of them every new one is refused.\<close>

lemma sessions_run_out:
  assumes "sg_run c qs st = Some (rs, t)" "sg_state_ok st" "active_count (st_manager st) = 64"
    and "sg_handle c d w (SgCreateSession m ps mn) t = Some (r, u)"
  shows "\<exists>e. r = RsError e"
proof -
  have "sg_state_ok t" "64 \<le> active_count (st_manager t)" using sg_run_ok [OF assms(1,2)] assms(3) by auto
  moreover from this(1) have "mg_max (st_manager t) = 64" by (simp add: sg_state_ok_def)
  moreover have "sg_create c d m ps mn t = Some (r, u)" using assms(4) by (simp add: sg_handle_def)
  ultimately show ?thesis using sg_create_ok by metis
qed

text \<open>A share is taken from whoever sends one, committed or not, and the last place filled closes the session:
  the share of a participant that did commit is refused from then on.\<close>

lemma foreign_share_closes_session:
  assumes "sn_state s = AwaitingShares" "sn_min s \<le> Suc (length (sn_shares s))" "bt_get j (sn_shares s) = None"
  shows "sn_state (snd (add_signature_share j x s)) = SessionDone"
    "add_signature_share k y (snd (add_signature_share j x s)) = (Inl SessionAlreadyCompleted, snd (add_signature_share j x s))"
  using assms length_bt_put_new [OF assms(3), of x] by (auto simp: add_signature_share_def Let_def)

text \<open>Sending more commitments at once than the threshold asks for is answered with an error, although the
  session has taken the first ones and gone on to the next phase.\<close>

lemma too_many_commitments:
  assumes "sn_state s = AwaitingCommitments" "sn_commitments s = []" "sn_min s = 1"
    and "sg_ident c v = Some i" "sg_ident c w = Some j"
  shows "add_all_commitments c [(v, x), (w, y)] s =
    (Inl ''add commitment: session already completed'', s\<lparr>sn_commitments := [(i, x)], sn_state := AwaitingShares\<rparr>)"
  using assms by (simp add: add_commitments_def Let_def)

text \<open>An empty participant ends the process.\<close>

lemma empty_participant_panics:
  "hex_decode m \<noteq> None \<Longrightarrow> sg_handle c d w (SgCreateSession m ([] # ps) mn) st = None"
  by (auto simp: sg_handle_def sg_create_def participant_number_def)

section \<open>Frames round trip\<close>

lemma length_sg_be32 [simp]: "length (sg_be32 n) = 4"
  by (simp add: sg_be32_def)

lemma un_frame_length [simp]: "n < 2 ^ 32 \<Longrightarrow> sg_un_be32 (sg_be32 n) = n"
proof -
  assume n: "n < 2 ^ 32"
  have "n div 16777216 < 256" using n by simp
  then have top: "n div 16777216 mod 256 = n div 16777216" "code (chr (n div 16777216)) = n div 16777216"
    by (simp, rule code_chr)
  have d: "n div 65536 = n div 256 div 256" "n div 16777216 = n div 256 div 256 div 256"
    by (simp_all flip: div_mult2_eq)
  have "256 * (256 * (256 * (n div 16777216) + n div 65536 mod 256) + n div 256 mod 256) + n mod 256 = n"
    unfolding d mult_div_mod_eq ..
  then show "sg_un_be32 (sg_be32 n) = n" by (simp add: sg_be32_def sg_un_be32_def code_chr top)
qed

text \<open>Framing loses nothing: what one side frames, the other reads as the same message, whatever follows it on the
  socket, for every message from one byte to the limit of one megabyte; longer ones are not framed.\<close>

lemma frames_round_trip:
  assumes "encode_frame too_large json = Inr b" "parse json = Some q" "json \<noteq> []"
  shows "decode_frame parse why (b @ rest) = Inr q \<and> read_reply parse why (b @ rest) = Inr q \<and>
    handle_connection parse print err why handler (b @ rest) s =
      (case handler q s of None \<Rightarrow> None
       | Some (r, t) \<Rightarrow> (case encode_frame ''message too large'' (print r) of Inl e \<Rightarrow> Some ([], Inl e, t) | Inr f \<Rightarrow> Some (f, Inr (), t)))"
proof -
  have l: "length json \<le> max_frame" "b = sg_be32 (length json) @ json"
    using assms(1) by (auto simp: encode_frame_def split: if_splits)
  then have u: "sg_un_be32 (sg_be32 (length json)) = length json" by (simp add: max_frame_def)
  show ?thesis using l u assms(2,3) by (simp add: decode_frame_def read_reply_def handle_connection_def Let_def)
qed

lemma frames_round_trip_witness:
  "decode_frame Some [] (sg_be32 2 @ ''hi'' @ ''more'') = Inr ''hi''"
proof -
  have "encode_frame [] ''hi'' = Inr (sg_be32 2 @ ''hi'')" by (simp add: encode_frame_def max_frame_def numeral_2_eq_2)
  from frames_round_trip [OF this, of Some "''hi''" "[]" "''more''" "\<lambda>x. x" "\<lambda>x. x" "\<lambda>q s. Some (q, s)" "()"]
  show ?thesis by simp
qed

end
