(* ===== verification/EconomyStore.thy ===== *)
theory EconomyStore
  imports EconomyOps Release
begin

text \<open>
  The economy on disk (\<open>PersistedEconomy\<close> of \<open>adapters/economy_memory.rs\<close>): the JSON text the state is written
  as after every change, and how it is read back at boot.  The parser of \<open>serde_json\<close> is the function \<open>P\<close> from
  text to JSON values; the text is written by the code itself, with its own escaping.
\<close>

section \<open>JSON values\<close>

datatype json = JNull | JBool bool | JNum nat | JStr string | JArr "json list" | JObj "(string \<times> json) list"

text \<open>Indexing and the accessors of \<open>serde_json::Value\<close>.\<close>

definition jget :: "string \<Rightarrow> json \<Rightarrow> json option" where
  "jget k v = (case v of JObj m \<Rightarrow> map_of m k | _ \<Rightarrow> None)"

definition jat :: "json \<Rightarrow> string \<Rightarrow> json" where
  "jat v k = (case jget k v of Some x \<Rightarrow> x | None \<Rightarrow> JNull)"

definition as_u64 :: "json \<Rightarrow> u64 option" where
  "as_u64 v = (case v of JNum n \<Rightarrow> if n < 2 ^ 64 then Some (word_of_nat n) else None | _ \<Rightarrow> None)"

definition as_str :: "json \<Rightarrow> string option" where
  "as_str v = (case v of JStr s \<Rightarrow> Some s | _ \<Rightarrow> None)"

definition as_bool :: "json \<Rightarrow> bool option" where
  "as_bool v = (case v of JBool b \<Rightarrow> Some b | _ \<Rightarrow> None)"

definition as_array :: "json \<Rightarrow> json list option" where
  "as_array v = (case v of JArr xs \<Rightarrow> Some xs | _ \<Rightarrow> None)"

definition or_else :: "'a option \<Rightarrow> 'a \<Rightarrow> 'a" where
  "or_else x d = (case x of Some y \<Rightarrow> y | None \<Rightarrow> d)"

section \<open>Writing\<close>

definition operator_text :: "miner_operator \<Rightarrow> string" where
  "operator_text p =
     ''{'' @ key ''node_id'' @ quoted (escape_json (op_node_id p))
     @ '','' @ key ''payout_destination'' @ quoted (escape_json (payout_destination p))
     @ '','' @ key ''uptime_bps_30d'' @ dec_u (uptime_bps_30d p)
     @ '','' @ key ''attestation_streak_days'' @ dec_u (attestation_streak_days p)
     @ '','' @ key ''bond_sats'' @ dec_u (bond_sats p)
     @ '','' @ key ''waiting'' @ bool_str (waiting p) @ ''}''"

definition credit_text :: "string \<times> u64 \<Rightarrow> string" where
  "credit_text c = ''{'' @ key ''node_id'' @ quoted (escape_json (fst c)) @ '','' @ key ''sats'' @ dec_u (snd c) @ ''}''"

definition opt_num :: "u64 option \<Rightarrow> string" where
  "opt_num x = (case x of Some n \<Rightarrow> dec_u n | None \<Rightarrow> ''null'')"

definition policy_text :: "reward_policy \<Rightarrow> string" where
  "policy_text p =
     ''{'' @ key ''min_uptime_bps_30d'' @ dec_u (min_uptime_bps_30d p)
     @ '','' @ key ''min_attestation_streak_days'' @ dec_u (min_attestation_streak_days p)
     @ '','' @ key ''min_bond_sats'' @ dec_u (min_bond_sats p)
     @ '','' @ key ''waiting_pool_share_bps'' @ dec_u (waiting_pool_share_bps p) @ ''}''"

definition serialize_economy :: "economy_state \<Rightarrow> string" where
  "serialize_economy e =
     ''{'' @ key ''version'' @ ''1''
     @ '','' @ key ''miner_pool_sats'' @ dec_u (miner_pool_sats e)
     @ '','' @ key ''channels_pool_sats'' @ dec_u (channels_pool_sats e)
     @ '','' @ key ''infra_pool_sats'' @ dec_u (infra_pool_sats e)
     @ '','' @ key ''accrued_profit_sats'' @ dec_u (accrued_profit_sats e)
     @ '','' @ key ''pending_governance_reward_sats'' @ dec_u (pending_governance_reward_sats e)
     @ '','' @ key ''crypto_suite_id_pq'' @ quoted (escape_json (crypto_suite_id_pq e))
     @ '','' @ key ''last_miner_payout_at_secs'' @ opt_num (last_miner_payout_at_secs e)
     @ '','' @ key ''last_miner_payout_epoch'' @ opt_num (last_miner_payout_epoch e)
     @ '','' @ key ''policy'' @ policy_text (ec_policy e)
     @ '','' @ key ''operators'' @ ''['' @ join_with '','' (map operator_text (bt_vals (operators e))) @ '']''
     @ '','' @ key ''governance_credits'' @ ''['' @ join_with '','' (map credit_text (governance_credits e)) @ '']}''"

section \<open>Reading\<close>

definition u32_of :: "u64 \<Rightarrow> u32" where
  "u32_of w = ucast w"

definition policy_of :: "json \<Rightarrow> reward_policy" where
  "policy_of p =
     \<lparr>min_uptime_bps_30d = u32_of (or_else (as_u64 (jat p ''min_uptime_bps_30d'')) 9500),
      min_attestation_streak_days = u32_of (or_else (as_u64 (jat p ''min_attestation_streak_days'')) 1),
      min_bond_sats = or_else (as_u64 (jat p ''min_bond_sats'')) 0,
      waiting_pool_share_bps = u32_of (or_else (as_u64 (jat p ''waiting_pool_share_bps'')) 0)\<rparr>"

text \<open>An operator whose node id does not parse, or that the state refuses, is skipped.\<close>

definition load_operator :: "json \<Rightarrow> economy_state \<Rightarrow> economy_state" where
  "load_operator o1 e =
     (case node_id_new (or_else (as_str (jat o1 ''node_id'')) []) of
        Inl _ \<Rightarrow> e
      | Inr i \<Rightarrow> snd (upsert_operator
          \<lparr>op_node_id = i, payout_destination = or_else (as_str (jat o1 ''payout_destination'')) [],
           uptime_bps_30d = u32_of (or_else (as_u64 (jat o1 ''uptime_bps_30d'')) 0),
           attestation_streak_days = u32_of (or_else (as_u64 (jat o1 ''attestation_streak_days'')) 0),
           bond_sats = or_else (as_u64 (jat o1 ''bond_sats'')) 0,
           waiting = or_else (as_bool (jat o1 ''waiting'')) False\<rparr> e))"

definition load_credit :: "json \<Rightarrow> u64 btmap \<Rightarrow> u64 btmap" where
  "load_credit c m =
     (case (as_str (jat c ''node_id''), as_u64 (jat c ''sats'')) of
        (Some i, Some n) \<Rightarrow> bt_put i n m
      | _ \<Rightarrow> m)"

definition economy_of :: "json \<Rightarrow> economy_state" where
  "economy_of v =
     (let num = (\<lambda>k. or_else (as_u64 (jat v k)) 0);
          e = economy_new_open\<lparr>miner_pool_sats := num ''miner_pool_sats'', channels_pool_sats := num ''channels_pool_sats'',
                infra_pool_sats := num ''infra_pool_sats'', accrued_profit_sats := num ''accrued_profit_sats'',
                pending_governance_reward_sats := num ''pending_governance_reward_sats''\<rparr>;
          e1 = (case as_str (jat v ''crypto_suite_id_pq'') of Some s \<Rightarrow> e\<lparr>crypto_suite_id_pq := s\<rparr> | None \<Rightarrow> e);
          e2 = e1\<lparr>last_miner_payout_at_secs := as_u64 (jat v ''last_miner_payout_at_secs''),
                last_miner_payout_epoch := as_u64 (jat v ''last_miner_payout_epoch'')\<rparr>;
          e3 = (case jget ''policy'' v of Some p \<Rightarrow> e2\<lparr>ec_policy := policy_of p\<rparr> | None \<Rightarrow> e2);
          e4 = foldl (\<lambda>e x. load_operator x e) e3 (or_else (as_array (jat v ''operators'')) [])
      in e4\<lparr>governance_credits := foldl (\<lambda>m c. load_credit c m) [] (or_else (as_array (jat v ''governance_credits'')) [])\<rparr>)"

text \<open>\<open>rd\<close> is the error of reading the file, \<open>why\<close> the parser's.\<close>

definition load_economy :: "(string \<Rightarrow> json option) \<Rightarrow> string option \<Rightarrow> string \<Rightarrow> string \<Rightarrow> economy_state res" where
  "load_economy P rd why raw =
     (case rd of
        Some e \<Rightarrow> Inl (ThresholdError (''economy read: '' @ e))
      | None \<Rightarrow>
          (case P raw of
             None \<Rightarrow> Inl (ThresholdError (''economy json: '' @ why))
           | Some v \<Rightarrow> Inr (economy_of v)))"

section \<open>The durable economy\<close>

record economy_store =
  es_state :: economy_state
  es_file :: "string option"

definition economy_persist :: "write_outcome \<Rightarrow> economy_store \<Rightarrow> unit res \<times> economy_store" where
  "economy_persist w s =
     (let written = s\<lparr>es_file := Some (serialize_economy (es_state s))\<rparr> in
      case w of
        WriteOk \<Rightarrow> (Inr (), written)
      | WriteFailed e \<Rightarrow> (Inl (ThresholdError (''economy persist: '' @ display (ShareStoreForbidden e))), s)
      | WriteUnsynced e \<Rightarrow> (Inl (ThresholdError (''economy persist: '' @ display (ShareStoreForbidden e))), written))"

definition economy_open ::
  "(string \<Rightarrow> json option) \<Rightarrow> string option \<Rightarrow> string \<Rightarrow> write_outcome \<Rightarrow> string option \<Rightarrow> economy_store res \<times> string option" where
  "economy_open P rd why w file =
     (case (case file of Some raw \<Rightarrow> load_economy P rd why raw | None \<Rightarrow> Inr economy_new_open) of
        Inl e \<Rightarrow> (Inl e, file)
      | Inr st \<Rightarrow>
          (case economy_persist w \<lparr>es_state = st, es_file = file\<rparr> of
             (Inl e, s) \<Rightarrow> (Inl e, es_file s)
           | (Inr _, s) \<Rightarrow> (Inr s, es_file s)))"

text \<open>A change of the state that cannot fail, and one that can: the second is written only when it succeeds.\<close>

definition then_write :: "write_outcome \<Rightarrow> 'a \<times> economy_state \<Rightarrow> economy_store \<Rightarrow> 'a res \<times> economy_store" where
  "then_write w r s =
     (case economy_persist w (s\<lparr>es_state := snd r\<rparr>) of
        (Inl e, t) \<Rightarrow> (Inl e, t)
      | (Inr _, t) \<Rightarrow> (Inr (fst r), t))"

definition if_ok_write :: "write_outcome \<Rightarrow> 'a res \<times> economy_state \<Rightarrow> economy_store \<Rightarrow> 'a res \<times> economy_store" where
  "if_ok_write w r s =
     (case fst r of
        Inl e \<Rightarrow> (Inl e, s\<lparr>es_state := snd r\<rparr>)
      | Inr x \<Rightarrow> then_write w (x, snd r) s)"

definition es_upsert_operator :: "write_outcome \<Rightarrow> miner_operator \<Rightarrow> economy_store \<Rightarrow> unit res \<times> economy_store" where
  "es_upsert_operator w p s = if_ok_write w (upsert_operator p (es_state s)) s"

definition es_accrue_from_profit :: "write_outcome \<Rightarrow> u64 \<Rightarrow> u32 \<Rightarrow> economy_store \<Rightarrow> u64 res \<times> economy_store" where
  "es_accrue_from_profit w profit bps s = then_write w (accrue_from_profit profit bps (es_state s)) s"

definition es_accrue_profit_splits ::
  "write_outcome \<Rightarrow> u64 \<Rightarrow> profit_splits \<Rightarrow> economy_store \<Rightarrow> profit_split_accrual res \<times> economy_store" where
  "es_accrue_profit_splits w profit splits s = if_ok_write w (accrue_profit_splits profit splits (es_state s)) s"

definition es_accrue_governance_job ::
  "write_outcome \<Rightarrow> gov_job \<Rightarrow> string list \<Rightarrow> gov_reward_config \<Rightarrow> economy_store \<Rightarrow> gov_accrual res \<times> economy_store" where
  "es_accrue_governance_job w job ps cfg s = then_write w (accrue_governance_job job ps cfg (es_state s)) s"

definition es_debit_pool :: "write_outcome \<Rightarrow> u64 \<Rightarrow> economy_store \<Rightarrow> unit res \<times> economy_store" where
  "es_debit_pool w amount s = if_ok_write w (debit_pool amount (es_state s)) s"

definition es_record_miner_payout :: "write_outcome \<Rightarrow> u64 \<Rightarrow> u64 option \<Rightarrow> economy_store \<Rightarrow> unit res \<times> economy_store" where
  "es_record_miner_payout w at ep s = then_write w ((), record_miner_payout at ep (es_state s)) s"

definition es_propose_equal_payouts :: "u64 \<Rightarrow> economy_store \<Rightarrow> payout_share list res" where
  "es_propose_equal_payouts amount s = propose_equal_payouts (es_state s) amount"

definition es_snapshot :: "economy_store \<Rightarrow> economy_state res" where
  "es_snapshot s = Inr (es_state s)"

section \<open>The text spells the state\<close>

fun json_text :: "json \<Rightarrow> string" where
  "json_text JNull = ''null''"
| "json_text (JBool b) = bool_str b"
| "json_text (JNum n) = dec n"
| "json_text (JStr s) = quoted (escape_json s)"
| "json_text (JArr xs) = ''['' @ join_with '','' (map json_text xs) @ '']''"
| "json_text (JObj m) = ''{'' @ join_with '','' (map (\<lambda>(k, v). key k @ json_text v) m) @ ''}''"

definition num_value :: "'a::len word \<Rightarrow> json" where
  "num_value w = JNum (unat w)"

definition opt_value :: "u64 option \<Rightarrow> json" where
  "opt_value x = (case x of Some n \<Rightarrow> num_value n | None \<Rightarrow> JNull)"

definition operator_value :: "miner_operator \<Rightarrow> json" where
  "operator_value p = JObj [(''node_id'', JStr (op_node_id p)), (''payout_destination'', JStr (payout_destination p)),
     (''uptime_bps_30d'', num_value (uptime_bps_30d p)), (''attestation_streak_days'', num_value (attestation_streak_days p)),
     (''bond_sats'', num_value (bond_sats p)), (''waiting'', JBool (waiting p))]"

definition credit_value :: "string \<times> u64 \<Rightarrow> json" where
  "credit_value c = JObj [(''node_id'', JStr (fst c)), (''sats'', num_value (snd c))]"

definition policy_value :: "reward_policy \<Rightarrow> json" where
  "policy_value p = JObj [(''min_uptime_bps_30d'', num_value (min_uptime_bps_30d p)),
     (''min_attestation_streak_days'', num_value (min_attestation_streak_days p)),
     (''min_bond_sats'', num_value (min_bond_sats p)), (''waiting_pool_share_bps'', num_value (waiting_pool_share_bps p))]"

definition economy_value :: "economy_state \<Rightarrow> json" where
  "economy_value e = JObj [(''version'', JNum 1), (''miner_pool_sats'', num_value (miner_pool_sats e)),
     (''channels_pool_sats'', num_value (channels_pool_sats e)), (''infra_pool_sats'', num_value (infra_pool_sats e)),
     (''accrued_profit_sats'', num_value (accrued_profit_sats e)),
     (''pending_governance_reward_sats'', num_value (pending_governance_reward_sats e)),
     (''crypto_suite_id_pq'', JStr (crypto_suite_id_pq e)),
     (''last_miner_payout_at_secs'', opt_value (last_miner_payout_at_secs e)),
     (''last_miner_payout_epoch'', opt_value (last_miner_payout_epoch e)), (''policy'', policy_value (ec_policy e)),
     (''operators'', JArr (map operator_value (bt_vals (operators e)))),
     (''governance_credits'', JArr (map credit_value (governance_credits e)))]"

lemma json_text_values [simp]:
  "json_text (num_value w) = dec_u w" "json_text (opt_value x) = opt_num x"
  by (simp_all add: num_value_def dec_u_def opt_value_def opt_num_def split: option.split)

lemma operator_text_value: "operator_text p = json_text (operator_value p)"
  by (simp add: operator_text_def operator_value_def)

lemma credit_text_value: "credit_text c = json_text (credit_value c)"
  by (simp add: credit_text_def credit_value_def)

lemma policy_text_value: "policy_text p = json_text (policy_value p)"
  by (simp add: policy_text_def policy_value_def)

lemma dec_one: "dec (Suc 0) = ''1''"
  by code_simp

lemma serialize_economy_value: "serialize_economy e = json_text (economy_value e)"
  by (simp add: serialize_economy_def economy_value_def policy_text_value dec_one
      operator_text_value [abs_def] credit_text_value [abs_def] o_def)

section \<open>Reading gives the state back\<close>

definition legal_destination :: "string \<Rightarrow> bool" where
  "legal_destination d \<longleftrightarrow> \<not> (str_contains ''..'' d \<or> CHR ''/'' \<in> set d \<or> chr 92 \<in> set d)"

text \<open>What every state of the economy satisfies: maps in order, operators under their own id, destinations the
  state accepts.\<close>

definition operator_ok :: "string \<times> miner_operator \<Rightarrow> bool" where
  "operator_ok kp \<longleftrightarrow> op_node_id (snd kp) = fst kp \<and> node_id_new (fst kp) = Inr (fst kp) \<and>
     legal_destination (payout_destination (snd kp))"

definition economy_valid :: "economy_state \<Rightarrow> bool" where
  "economy_valid e \<longleftrightarrow> bt_ok (operators e) \<and> list_all operator_ok (operators e) \<and> bt_ok (governance_credits e)"

lemma as_u64_num:
  fixes w :: "'a::len word"
  assumes "LENGTH('a) \<le> 64"
  shows "as_u64 (num_value w) = Some (ucast w)"
proof -
  have "unat w < 2 ^ LENGTH('a)" by (rule unsigned_less)
  also have "(2::nat) ^ LENGTH('a) \<le> 2 ^ 64" using assms by (rule power_increasing) simp
  finally show ?thesis by (simp add: as_u64_def num_value_def)
qed

lemma as_u64_nums [simp]: "as_u64 (num_value (w :: u64)) = Some w" "as_u64 (num_value (v :: u32)) = Some (ucast v)"
  by (simp_all add: as_u64_num)

lemma u32_of_ucast [simp]: "u32_of (ucast (w :: u32)) = w"
  by (simp add: u32_of_def ucast_up_ucast_id is_up)

lemma or_else_Some [simp]: "or_else (Some x) d = x"
  by (simp add: or_else_def)

lemma json_accessors [simp]:
  "as_str (JStr s) = Some s" "as_bool (JBool b) = Some b" "as_array (JArr xs) = Some xs"
  "as_u64 (opt_value x) = x"
  by (simp_all add: as_str_def as_bool_def as_array_def opt_value_def as_u64_def[of JNull] split: option.split)

lemma policy_of_value [simp]: "policy_of (policy_value p) = p"
  by (simp add: policy_of_def policy_value_def jat_def jget_def)

lemma load_operator_value:
  assumes "operator_ok (k, p)"
  shows "load_operator (operator_value p) e = e\<lparr>operators := bt_put k p (operators e)\<rparr>"
  using assms by (cases p) (simp add: load_operator_def operator_value_def jat_def jget_def operator_ok_def upsert_operator_def
      legal_destination_def Let_def)

lemma load_operators:
  assumes "bt_ok (operators e @ ps)" "list_all operator_ok ps"
  shows "foldl (\<lambda>e x. load_operator x e) e (map operator_value (bt_vals ps)) = e\<lparr>operators := operators e @ ps\<rparr>"
  using assms
proof (induction ps arbitrary: e)
  case (Cons x ps)
  obtain k p where x: "x = (k, p)" by (cases x)
  have "\<forall>j\<in>set (bt_keys (operators e)). j < k"
    using Cons.prems(1) x by (auto simp: bt_ok_def bt_keys_def sorted_wrt_append)
  then have "load_operator (operator_value p) e = e\<lparr>operators := operators e @ [(k, p)]\<rparr>"
    using load_operator_value [of k p e] Cons.prems(2) x by (simp add: bt_put_last)
  then show ?case
    using Cons.IH [of "e\<lparr>operators := operators e @ [(k, p)]\<rparr>"] Cons.prems x by (simp add: bt_vals_def)
qed (simp add: bt_vals_def)

lemma load_credits: "bt_ok m \<Longrightarrow> foldl (\<lambda>m c. load_credit c m) [] (map credit_value m) = m"
proof -
  have c: "load_credit (credit_value x) m = (case x of (k, v) \<Rightarrow> bt_put k v m)" for x m
    by (cases x) (simp add: load_credit_def credit_value_def jat_def jget_def)
  assume "bt_ok m"
  then show ?thesis using bt_rebuild [of "[]" m] by (simp add: foldl_map c [abs_def])
qed

lemma economy_of_value:
  assumes "economy_valid e"
  shows "economy_of (economy_value e) = e"
proof -
  let ?e3 = "economy_new_open\<lparr>miner_pool_sats := miner_pool_sats e, channels_pool_sats := channels_pool_sats e,
    infra_pool_sats := infra_pool_sats e, accrued_profit_sats := accrued_profit_sats e,
    pending_governance_reward_sats := pending_governance_reward_sats e, crypto_suite_id_pq := crypto_suite_id_pq e,
    last_miner_payout_at_secs := last_miner_payout_at_secs e, last_miner_payout_epoch := last_miner_payout_epoch e,
    ec_policy := ec_policy e\<rparr>"
  have o: "operators ?e3 = []" by (simp add: economy_new_open_def)
  have "foldl (\<lambda>e x. load_operator x e) ?e3 (map operator_value (bt_vals (operators e))) = ?e3\<lparr>operators := operators e\<rparr>"
    using load_operators [of ?e3 "operators e"] assms o by (simp add: economy_valid_def)
  moreover have "foldl (\<lambda>m c. load_credit c m) [] (map credit_value (governance_credits e)) = governance_credits e"
    using assms load_credits by (simp add: economy_valid_def)
  ultimately show ?thesis
    by (simp add: economy_of_def economy_value_def jat_def jget_def Let_def economy_new_open_def)
qed

section \<open>Restart\<close>

text \<open>Every operation on the store is one of the domain, with the write that follows it.\<close>

fun es_step :: "economy_op \<times> write_outcome \<Rightarrow> economy_store \<Rightarrow> unit res \<times> economy_store" where
  "es_step (EcUpsert p, w) s = es_upsert_operator w p s"
| "es_step (EcProfitSplits x sp, w) s = (case es_accrue_profit_splits w x sp s of (r, t) \<Rightarrow> (rbind r (\<lambda>_. Inr ()), t))"
| "es_step (EcProfit x bps, w) s = (case es_accrue_from_profit w x bps s of (r, t) \<Rightarrow> (rbind r (\<lambda>_. Inr ()), t))"
| "es_step (EcGovJob job ps cfg, w) s = (case es_accrue_governance_job w job ps cfg s of (r, t) \<Rightarrow> (rbind r (\<lambda>_. Inr ()), t))"
| "es_step (EcDebit x, w) s = es_debit_pool w x s"
| "es_step (EcRecordPayout at ep, w) s = es_record_miner_payout w at ep s"

lemma economy_persist_cases:
  "es_state (snd (economy_persist w s)) = es_state s"
  "fst (economy_persist w s) = Inr u \<Longrightarrow> es_file (snd (economy_persist w s)) = Some (serialize_economy (es_state s))"
  by (cases w; simp add: economy_persist_def Let_def)+

lemma then_write_spec:
  "es_state (snd (then_write w r s)) = snd r"
  "fst (then_write w r s) = Inr x \<Longrightarrow> es_file (snd (then_write w r s)) = Some (serialize_economy (snd r))"
  using economy_persist_cases [of w "s\<lparr>es_state := snd r\<rparr>"]
  by (auto simp: then_write_def split: prod.splits sum.splits)

lemma if_ok_write_spec:
  "es_state (snd (if_ok_write w r s)) = snd r"
  "fst (if_ok_write w r s) = Inr x \<Longrightarrow> es_file (snd (if_ok_write w r s)) = Some (serialize_economy (snd r))"
  using then_write_spec by (auto simp: if_ok_write_def split: sum.splits)

text \<open>A step changes the state as the domain does, and after a success the file spells the new state.\<close>

lemma es_step_spec:
  "es_state (snd (es_step (op, w) s)) = economy_step op (es_state s)"
  "fst (es_step (op, w) s) = Inr () \<Longrightarrow> es_file (snd (es_step (op, w) s)) = Some (serialize_economy (economy_step op (es_state s)))"
proof -
  have st: "es_state (snd (es_step (op, w) s)) = economy_step op (es_state s) \<and>
      (fst (es_step (op, w) s) = Inr () \<longrightarrow> es_file (snd (es_step (op, w) s)) = Some (serialize_economy (economy_step op (es_state s))))"
  proof (cases op)
    case (EcUpsert p)
    then show ?thesis by (simp add: es_upsert_operator_def if_ok_write_spec)
  next
    case (EcProfitSplits x sp)
    then show ?thesis using if_ok_write_spec [of w "accrue_profit_splits x sp (es_state s)" s]
      by (cases "if_ok_write w (accrue_profit_splits x sp (es_state s)) s")
        (auto simp: es_accrue_profit_splits_def rbind_Inr_iff)
  next
    case (EcProfit x bps)
    then show ?thesis using then_write_spec [of w "accrue_from_profit x bps (es_state s)" s]
      by (cases "then_write w (accrue_from_profit x bps (es_state s)) s")
        (auto simp: es_accrue_from_profit_def rbind_Inr_iff)
  next
    case (EcGovJob job ps cfg)
    then show ?thesis using then_write_spec [of w "accrue_governance_job job ps cfg (es_state s)" s]
      by (cases "then_write w (accrue_governance_job job ps cfg (es_state s)) s")
        (auto simp: es_accrue_governance_job_def rbind_Inr_iff)
  next
    case (EcDebit x)
    then show ?thesis by (simp add: es_debit_pool_def if_ok_write_spec)
  next
    case (EcRecordPayout at ep)
    then show ?thesis using then_write_spec [of w "((), record_miner_payout at ep (es_state s))" s]
      by (simp add: es_record_miner_payout_def)
  qed
  then show "es_state (snd (es_step (op, w) s)) = economy_step op (es_state s)"
    "fst (es_step (op, w) s) = Inr () \<Longrightarrow> es_file (snd (es_step (op, w) s)) = Some (serialize_economy (economy_step op (es_state s)))"
    by blast+
qed

fun names_ok :: "economy_op \<Rightarrow> bool" where
  "names_ok (EcUpsert p) = (node_id_new (op_node_id p) = Inr (op_node_id p))"
| "names_ok _ = True"

lemma credits_ok: "bt_ok m \<Longrightarrow> bt_ok (foldl (\<lambda>m c. add_credit c m) m cs)"
  by (induction cs arbitrary: m) (auto simp: add_credit_def)

lemma put_operator_ok:
  "list_all operator_ok m \<Longrightarrow> operator_ok (k, p) \<Longrightarrow> list_all operator_ok (bt_put k p m)"
  using set_bt_put [of k p m] by (auto simp: list_all_iff)

lemma economy_valid_step:
  assumes "economy_valid e" "names_ok op"
  shows "economy_valid (economy_step op e)"
proof (cases op)
  case (EcUpsert p)
  then show ?thesis
    using assms put_operator_ok [of "operators e" "op_node_id p" p]
    by (auto simp: economy_valid_def upsert_operator_def Let_def operator_ok_def legal_destination_def)
next
  case (EcProfitSplits x sp)
  then show ?thesis using assms by (auto simp: economy_valid_def accrue_profit_splits_def split: sum.splits prod.splits)
next
  case (EcProfit x bps)
  then show ?thesis
    using assms by (auto simp: economy_valid_def accrue_from_profit_def accrue_profit_splits_def split: sum.splits prod.splits)
next
  case (EcGovJob job ps cfg)
  then show ?thesis using assms by (auto simp: economy_valid_def accrue_governance_job_def Let_def credits_ok)
next
  case (EcDebit x)
  then show ?thesis using assms by (auto simp: economy_valid_def debit_pool_def)
next
  case (EcRecordPayout at ep)
  then show ?thesis using assms by (auto simp: economy_valid_def record_miner_payout_def Let_def split: option.splits)
qed

lemma economy_valid_run:
  "economy_valid (es_state s) \<Longrightarrow> \<forall>(op, w)\<in>set ops. names_ok op \<Longrightarrow> economy_valid (es_state (snd (run_ops es_step ops s)))"
proof (induction ops arbitrary: s)
  case (Cons x ops)
  obtain op w where x: "x = (op, w)" by (cases x)
  have "economy_valid (es_state (snd (es_step x s)))"
    using economy_valid_step Cons.prems by (simp add: x es_step_spec)
  then show ?case using Cons by simp
qed simp

lemma economy_valid_new: "economy_valid economy_new_open"
  by (simp add: economy_valid_def economy_new_open_def)


definition demo_operator :: miner_operator where
  "demo_operator = \<lparr>op_node_id = ''m1'', payout_destination = ''bc1q'', uptime_bps_30d = 9900, attestation_streak_days = 3,
     bond_sats = 0, waiting = False\<rparr>"

definition demo_economy_ops :: "(economy_op \<times> write_outcome) list" where
  "demo_economy_ops = [(EcUpsert demo_operator, WriteFailed ''full''), (EcRecordPayout 5 None, WriteUnsynced ''io'')]"

definition demo_economy_end :: "unit res \<times> economy_store" where
  "demo_economy_end = es_step (EcRecordPayout 42 (Some 7), WriteOk)
     (snd (run_ops es_step demo_economy_ops \<lparr>es_state = economy_new_open, es_file = None\<rparr>))"

lemma demo_economy_ends:
  "fst demo_economy_end = Inr () \<and> last_miner_payout_at_secs (es_state (snd demo_economy_end)) = Some 42"
  by (simp add: demo_economy_end_def es_record_miner_payout_def then_write_def economy_persist_def Let_def record_miner_payout_def)


text \<open>A destination with a control character is accepted and written as it is, into a file no JSON parser reads:
  the next boot fails.\<close>

lemma control_character_stops_boot:
  assumes "\<And>raw. chr 1 \<in> set raw \<Longrightarrow> P raw = None"
    and "chr 1 \<in> set (payout_destination p)" "es_upsert_operator w p s = (Inr (), s2)" "bt_ok (operators (es_state s))"
  shows "\<exists>e. economy_open P None why WriteOk (es_file s2) = (Inl e, es_file s2)"
proof -
  have e: "es_file s2 = Some (serialize_economy (snd (upsert_operator p (es_state s))))" "fst (upsert_operator p (es_state s)) = Inr ()"
    using if_ok_write_spec(2) [of w "upsert_operator p (es_state s)" s "()"] assms(3)
    by (auto simp: es_upsert_operator_def if_ok_write_def split: sum.splits)
  have "(op_node_id p, p) \<in> set (bt_put (op_node_id p) p m)" for m
    by (rule bt_get_Some_in) (simp add: bt_get_put)
  then have "p \<in> set (bt_vals (operators (snd (upsert_operator p (es_state s)))))"
    using e(2) by (force simp: upsert_operator_def Let_def bt_vals_def split: if_splits)
  moreover have "chr 1 \<in> set (operator_text p)"
    using assms(2) by (auto simp: operator_text_def quoted_def escape_json_def)
  moreover have "x \<in> set xs \<Longrightarrow> y \<in> set x \<Longrightarrow> y \<in> set (join_with '','' xs)" for x xs and y :: char
    by (induction "'',''" xs rule: join_with.induct) auto
  ultimately have "chr 1 \<in> set (join_with '','' (map operator_text (bt_vals (operators (snd (upsert_operator p (es_state s)))))))"
    by (metis image_eqI list.set_map)
  then have "chr 1 \<in> set (serialize_economy (snd (upsert_operator p (es_state s))))"
    by (simp add: serialize_economy_def)
  then show ?thesis using assms(1) e(1) by (simp add: economy_open_def load_economy_def)
qed

end
