(* ===== verification/PeerTransports.thy ===== *)
theory PeerTransports
  imports Settle HttpPeer
begin

text \<open>
  How a vault asks its peers: the HTTP transports of the anti-nonce ledger (\<open>adapters/session_persist.rs\<close>), of the
  intent ledger (\<open>adapters/intent_consume.rs\<close>) and of the day votes (\<open>adapters/daily_rotation.rs\<close>), and the two
  quorum ledgers over them.  Building the TLS configuration and the HTTP client are outcomes given as
  arguments; \<open>net\<close> is what a URL answers to each attempt.
\<close>

section \<open>Transports\<close>

text \<open>The peers are URLs, or ids with URLs; a TLS configuration is kept as a text that identifies it.\<close>

record 'u wire_transport =
  wt_peers :: "'u list"
  wt_token :: "string option"
  wt_http :: peer_http
  wt_tls :: "string option"

text \<open>The outcome of the two steps that make a client: the proxy, then \<open>build\<close>.\<close>

record client_build =
  cb_proxy :: "string option"
  cb_built :: "string option"

definition apply_blocking_builder :: "peer_http \<Rightarrow> client_build \<Rightarrow> unit res" where
  "apply_blocking_builder h b =
     (if ph_socks h = None then Inr ()
      else case cb_proxy b of
        Some e \<Rightarrow> Inl (AttestationRejected (''VAULT_SOCKS_PROXY invalid: '' @ e))
      | None \<Rightarrow> Inr ())"

definition blocking_client :: "string \<Rightarrow> 'u wire_transport \<Rightarrow> client_build \<Rightarrow> unit res" where
  "blocking_client label t b =
     rbind (apply_blocking_builder (wt_http t) b) (\<lambda>_.
       case cb_built b of
         Some e \<Rightarrow> Inl (ThresholdError (label @ '' http client: '' @ e))
       | None \<Rightarrow> Inr ())"

definition with_peer_http :: "'u list \<Rightarrow> string option \<Rightarrow> peer_http \<Rightarrow> 'u wire_transport" where
  "with_peer_http us tok h = \<lparr>wt_peers = us, wt_token = tok, wt_http = h, wt_tls = None\<rparr>"

text \<open>Under mutual TLS no token is sent.\<close>

definition with_mtls :: "'u list \<Rightarrow> peer_http \<Rightarrow> string res \<Rightarrow> 'u wire_transport res" where
  "with_mtls us h tls = rbind tls (\<lambda>cfg. Inr \<lparr>wt_peers = us, wt_token = None, wt_http = h, wt_tls = Some cfg\<rparr>)"

definition anti_nonce_transport_new :: "string list \<Rightarrow> string option \<Rightarrow> nat \<Rightarrow> string wire_transport" where
  "anti_nonce_transport_new us tok timeout =
     with_peer_http us tok (clearnet_defaults\<lparr>ph_timeout := timeout, ph_connect_timeout := timeout, ph_max_retries := 1\<rparr>)"

text \<open>The headers of a request.\<close>

definition json_headers :: "'u wire_transport \<Rightarrow> (string \<times> string) list" where
  "json_headers t =
     (''Content-Type'', ''application/json'') # (case wt_token t of Some tok \<Rightarrow> [(''X-Vault-Token'', tok)] | None \<Rightarrow> [])"

section \<open>Prepares\<close>

text \<open>The bodies, decoded: the anti-nonce prepare names the session as its own intent.\<close>

definition nonce_request :: "string \<Rightarrow> prepare_body" where
  "nonce_request i = \<lparr>pr_session = i, pr_intent = i, pr_durable = True\<rparr>"

definition intent_request :: "bool \<Rightarrow> string \<Rightarrow> prepare_body" where
  "intent_request durable i = \<lparr>pr_session = [], pr_intent = i, pr_durable = durable\<rparr>"

definition retries :: "'u wire_transport \<Rightarrow> nat" where
  "retries t = unat (ph_max_retries (wt_http t))"

definition nonce_prepare_on_peers ::
  "(string \<Rightarrow> bool option) \<Rightarrow> client_build \<Rightarrow> (prepare_body \<Rightarrow> string \<Rightarrow> nat \<Rightarrow> http_outcome)
     \<Rightarrow> string wire_transport \<Rightarrow> string \<Rightarrow> bool list res" where
  "nonce_prepare_on_peers flag b net t i =
     (if wt_peers t = [] then Inr []
      else rbind (blocking_client ''anti-nonce'' t b) (\<lambda>_.
        fan_out (parse_already_seen ''anti-nonce'' flag) (net (nonce_request i)) (retries t) (wt_peers t)))"

definition intent_post_prepare ::
  "(string \<Rightarrow> bool option) \<Rightarrow> client_build \<Rightarrow> (prepare_body \<Rightarrow> string \<Rightarrow> nat \<Rightarrow> http_outcome)
     \<Rightarrow> string wire_transport \<Rightarrow> bool \<Rightarrow> string \<Rightarrow> bool list res" where
  "intent_post_prepare flag b net t durable i =
     (if wt_peers t = [] then Inr []
      else rbind (blocking_client ''intent-consume'' t b) (\<lambda>_.
        fan_out (parse_already_seen ''intent-consume'' flag) (net (intent_request durable i)) (retries t) (wt_peers t)))"

definition intent_prepare_on_peers where
  "intent_prepare_on_peers flag b net t i = intent_post_prepare flag b net t False i"

definition intent_durable_prepare_on_peers where
  "intent_durable_prepare_on_peers flag b net t i = intent_post_prepare flag b net t True i"

definition day_exchange_with_peers ::
  "(string \<Rightarrow> (string option \<times> string option) option) \<Rightarrow> client_build \<Rightarrow> (string \<Rightarrow> nat \<Rightarrow> http_outcome)
     \<Rightarrow> (string \<times> string) wire_transport \<Rightarrow> string \<Rightarrow> (string \<times> string) list res" where
  "day_exchange_with_peers days b net t target =
     (if wt_peers t = [] then Inr []
      else rbind (blocking_client ''day-vote'' t b) (\<lambda>_. http_exchange days net (retries t) target (wt_peers t)))"

text \<open>The in-memory transport burns the session on each peer in turn.\<close>

definition memory_nonce_prepare :: "io_result \<Rightarrow> string \<Rightarrow> anti_nonce list \<Rightarrow> bool list res \<times> anti_nonce list" where
  "memory_nonce_prepare io i ps = prepare_all (an_prepare io) i ps"

section \<open>The quorum session ledger\<close>

record quorum_nonce =
  qn_local :: anti_nonce
  qn_transport :: "string wire_transport"
  qn_peer_count :: nat
  qn_t :: nat

definition quorum_nonce_from_local :: "anti_nonce \<Rightarrow> string wire_transport \<Rightarrow> nat \<Rightarrow> quorum_nonce" where
  "quorum_nonce_from_local a t peers =
     \<lparr>qn_local = a, qn_transport = t, qn_peer_count = peers, qn_t = cluster_quorum peers\<rparr>"

definition quorum_nonce_open :: "string \<Rightarrow> string wire_transport \<Rightarrow> nat \<Rightarrow> quorum_nonce" where
  "quorum_nonce_open log t peers = quorum_nonce_from_local (an_open log) t peers"

definition qn_claim_session ::
  "(string \<Rightarrow> bool option) \<Rightarrow> client_build \<Rightarrow> (prepare_body \<Rightarrow> string \<Rightarrow> nat \<Rightarrow> http_outcome) \<Rightarrow> io_result \<Rightarrow> string
     \<Rightarrow> quorum_nonce \<Rightarrow> unit res \<times> quorum_nonce" where
  "qn_claim_session flag b net io i q =
     (case quorum_claim_session (qn_t q) io (nonce_prepare_on_peers flag b net (qn_transport q) i) i (qn_local q) of
        (r, a) \<Rightarrow> (r, q\<lparr>qn_local := a\<rparr>))"

definition qn_is_consumed :: "nat \<Rightarrow> string \<Rightarrow> quorum_nonce \<Rightarrow> bool \<times> quorum_nonce" where
  "qn_is_consumed now i q = (case an_is_consumed now i (qn_local q) of (r, a) \<Rightarrow> (r, q\<lparr>qn_local := a\<rparr>))"

definition qn_prepare_remote :: "nat \<Rightarrow> string \<Rightarrow> quorum_nonce \<Rightarrow> bool \<times> quorum_nonce" where
  "qn_prepare_remote now i q = (case an_prepare_soft now i (qn_local q) of (r, a) \<Rightarrow> (r, q\<lparr>qn_local := a\<rparr>))"

definition qn_prepare_remote_durable :: "io_result \<Rightarrow> string \<Rightarrow> quorum_nonce \<Rightarrow> bool res \<times> quorum_nonce" where
  "qn_prepare_remote_durable io i q = (case an_prepare io i (qn_local q) of (r, a) \<Rightarrow> (r, q\<lparr>qn_local := a\<rparr>))"

section \<open>The quorum intent ledger\<close>

record quorum_ledger =
  qi_local :: persisted
  qi_transport :: "string wire_transport"
  qi_peer_count :: nat
  qi_t :: nat

definition quorum_ledger_from_local :: "persisted \<Rightarrow> string wire_transport \<Rightarrow> nat \<Rightarrow> quorum_ledger" where
  "quorum_ledger_from_local p t peers =
     \<lparr>qi_local = p, qi_transport = t, qi_peer_count = peers, qi_t = cluster_quorum peers\<rparr>"

text \<open>The port of the ledger, with the answers of the peers to this call's soft and durable prepares.\<close>

definition quorum_ledger_port ::
  "(string \<Rightarrow> bool option) \<Rightarrow> client_build \<Rightarrow> (prepare_body \<Rightarrow> string \<Rightarrow> nat \<Rightarrow> http_outcome) \<Rightarrow> nat \<Rightarrow> io_result \<Rightarrow> string
     \<Rightarrow> quorum_ledger \<Rightarrow> persisted bucket_port" where
  "quorum_ledger_port flag b net now io i q =
     quorum_port now (qi_t q) io (intent_prepare_on_peers flag b net (qi_transport q) i)
       (intent_durable_prepare_on_peers flag b net (qi_transport q) i)"

definition qi_try_consume ::
  "(string \<Rightarrow> bool option) \<Rightarrow> client_build \<Rightarrow> (prepare_body \<Rightarrow> string \<Rightarrow> nat \<Rightarrow> http_outcome) \<Rightarrow> io_result \<Rightarrow> string
     \<Rightarrow> quorum_ledger \<Rightarrow> unit res \<times> quorum_ledger" where
  "qi_try_consume flag b net io i q =
     (case claim_consume (qi_t q) io (intent_durable_prepare_on_peers flag b net (qi_transport q) i) i (qi_local q) of
        (r, p) \<Rightarrow> (r, q\<lparr>qi_local := p\<rparr>))"

definition qi_mark_consumed where
  "qi_mark_consumed flag b net io i q = qi_try_consume flag b net io i q"

definition qi_prepare_remote :: "nat \<Rightarrow> string \<Rightarrow> quorum_ledger \<Rightarrow> bool \<times> quorum_ledger" where
  "qi_prepare_remote now i q = (case p_prepare_soft now i (qi_local q) of (r, p) \<Rightarrow> (r, q\<lparr>qi_local := p\<rparr>))"

definition qi_prepare_remote_durable :: "io_result \<Rightarrow> string \<Rightarrow> quorum_ledger \<Rightarrow> bool res \<times> quorum_ledger" where
  "qi_prepare_remote_durable io i q = (case p_prepare_consume io i (qi_local q) of (r, p) \<Rightarrow> (r, q\<lparr>qi_local := p\<rparr>))"

definition qi_has_reservation :: "nat \<Rightarrow> string \<Rightarrow> quorum_ledger \<Rightarrow> bool \<times> quorum_ledger" where
  "qi_has_reservation now i q = (case p_has_reservation now i (qi_local q) of (r, p) \<Rightarrow> (r, q\<lparr>qi_local := p\<rparr>))"

definition qi_release_reservation :: "string \<Rightarrow> bucket_kind \<Rightarrow> u64 \<Rightarrow> quorum_ledger \<Rightarrow> unit res \<times> quorum_ledger" where
  "qi_release_reservation i k a q = (case p_release_reservation i k a (qi_local q) of (r, p) \<Rightarrow> (r, q\<lparr>qi_local := p\<rparr>))"

section \<open>A granted claim was answered\<close>

lemma fan_out_answers:
  assumes "fan_out parse net n us = Inr acks" "distinct us"
  shows "length (filter (\<lambda>a. a = v) acks) \<le> card {u \<in> set us. \<exists>j b. net u j = HttpBody b \<and> parse b = Inr v}"
  using assms
proof (induction us arbitrary: acks)
  case (Cons u us)
  let ?A = "\<lambda>us. {u \<in> set us. \<exists>j b. net u j = HttpBody b \<and> parse b = Inr v}"
  obtain r rest where r: "Durable.post_attempts parse (net u) (max n 1) 0 = Inr r"
    "fan_out parse net n us = Inr rest" "acks = (case r of None \<Rightarrow> rest | Some a \<Rightarrow> a # rest)"
    using Cons.prems(1) by (auto simp: rbind_Inr_iff)
  have ih: "length (filter (\<lambda>a. a = v) rest) \<le> card (?A us)" using Cons.IH [OF r(2)] Cons.prems(2) by simp
  show ?case
  proof (cases "r = Some v")
    case True
    then have "\<exists>j b. net u j = HttpBody b \<and> parse b = Inr v"
      using post_attempts_length [of parse "net u" "max n 1" 0 v] r(1) by blast
    then have "?A (u # us) = insert u (?A us)" "u \<notin> ?A us" using Cons.prems(2) by auto
    then have "card (?A (u # us)) = Suc (card (?A us))" by simp
    then show ?thesis using ih True r(3) by simp
  next
    case False
    then have "length (filter (\<lambda>a. a = v) acks) = length (filter (\<lambda>a. a = v) rest)"
      using r(3) by (cases r) auto
    moreover have "card (?A us) \<le> card (?A (u # us))" by (rule card_mono) auto
    ultimately show ?thesis using ih by simp
  qed
qed simp


section \<open>The peer's answer\<close>

definition reply_outcome :: "http_reply \<Rightarrow> http_outcome" where
  "reply_outcome r = (if is_success (fst r) then HttpBody (snd r) else HttpStatus (fst r))"

text \<open>What the transport sends the peer's endpoint always accepts: the session is its own intent, so the binding to an
  intent never refuses, and the peer burns the session durably.\<close>

lemma peer_takes_prepare:
  assumes "limiter_check tick (vs_node v) (vs_prepare v) = (Inr (), l)" "trim i \<noteq> []"
    and "an_prepare (ca_nonce_io (ca_sign c)) i (vs_anti v) = (Inr seen, a)"
  shows "v1_anti_nonce_prepare c tick (Inr (nonce_request i)) v = ((200, prepare_json seen), v\<lparr>vs_prepare := l, vs_anti := a\<rparr>)"
  using assms
  by (simp add: v1_anti_nonce_prepare_def nonce_request_def bind_session_to_intent_def Let_def reply_of_def)

text \<open>A peer whose limiter is used up is not asked again and does not count.\<close>

lemma limited_peer_left_out:
  assumes "limiter_check tick (vs_node v) (vs_prepare v) = (Inl e, l)"
  shows "reply_outcome (fst (v1_anti_nonce_prepare c tick (Inr (nonce_request i)) v)) = HttpStatus 429 \<and>
    \<not> Durable.should_retry_status 429"
  using assms by (simp add: v1_anti_nonce_prepare_def nonce_request_def reply_outcome_def is_success_def Durable.should_retry_status_def)

definition demo_transport :: "string wire_transport" where
  "demo_transport = with_peer_http [''http://p1'', ''http://p2''] (Some ''tok'') clearnet_defaults"

definition demo_quorum_nonce :: quorum_nonce where
  "demo_quorum_nonce = quorum_nonce_open [] demo_transport 2"

definition demo_net :: "prepare_body \<Rightarrow> string \<Rightarrow> nat \<Rightarrow> http_outcome" where
  "demo_net q u j = (if u = ''http://p1'' then HttpBody (prepare_json False) else HttpFail)"

definition demo_flag :: "string \<Rightarrow> bool option" where
  "demo_flag body = (if body = prepare_json False then Some False else None)"


end
