(* ===== verification/HybridSeeds.thy ===== *)
theory HybridSeeds
  imports ShareStore
begin

text \<open>
  The hybrid identity of a vault (\<open>adapters/identity_hybrid.rs\<close>): how it is generated, and how its seeds are put
  into a share store and loaded from it.  The key generators of \<open>vault_identity_core\<close>, the random bytes and
  the clock are arguments.
\<close>

section \<open>The identity\<close>

record hybrid_identity =
  hy_node :: string
  hy_ed_public :: string
  hy_ed_secret :: string
  hy_dsa_public :: string
  hy_dsa_secret :: string
  hy_x_public :: string
  hy_x_secret :: string
  hy_kem_public :: string
  hy_kem_secret :: string
  hy_created :: u64
  hy_expires :: u64

record peer_identity =
  pid_node :: string
  pid_ed_public :: string
  pid_dsa_public :: string
  pid_x_public :: string
  pid_kem_public :: string
  pid_created :: u64

definition to_peer_identity :: "hybrid_identity \<Rightarrow> peer_identity" where
  "to_peer_identity h =
     \<lparr>pid_node = hy_node h, pid_ed_public = hy_ed_public h, pid_dsa_public = hy_dsa_public h,
      pid_x_public = hy_x_public h, pid_kem_public = hy_kem_public h, pid_created = hy_created h\<rparr>"

text \<open>A clock before 1970 counts as zero.\<close>

definition clock_secs :: "u64 option \<Rightarrow> u64" where
  "clock_secs now = (case now of Some t \<Rightarrow> t | None \<Rightarrow> 0)"

text \<open>\<open>ed\<close> and \<open>dsa\<close> are what the two generators give, public key first, or the text of their error; \<open>xs\<close>,
  \<open>kp\<close> and \<open>ks\<close> are random bytes; \<open>eph\<close> is the secret of which \<open>xbase\<close> makes the X25519 public key.\<close>

definition hybrid_genesis ::
  "(string \<Rightarrow> string) \<Rightarrow> string + string \<times> string \<Rightarrow> string + string \<times> string \<Rightarrow> string \<Rightarrow> string \<Rightarrow> string \<Rightarrow> string
     \<Rightarrow> u64 option \<Rightarrow> string \<Rightarrow> hybrid_identity res" where
  "hybrid_genesis xbase ed dsa xs eph kp ks now node =
     (case ed of
        Inl e \<Rightarrow> Inl (ThresholdError (''ed25519 genesis: '' @ e))
      | Inr (ep, es) \<Rightarrow>
          (case dsa of
             Inl e \<Rightarrow> Inl (ThresholdError (''ml-dsa65 genesis: '' @ e))
           | Inr (dp, ds) \<Rightarrow>
               Inr \<lparr>hy_node = node, hy_ed_public = ep, hy_ed_secret = es, hy_dsa_public = dp, hy_dsa_secret = ds,
                    hy_x_public = xbase eph, hy_x_secret = xs, hy_kem_public = kp, hy_kem_secret = ks,
                    hy_created = clock_secs now, hy_expires = 0\<rparr>))"

section \<open>Seeds in a store\<close>

definition seed_share_id :: "string \<Rightarrow> string \<Rightarrow> string" where
  "seed_share_id node label = ''identity/'' @ label @ ''/'' @ node"

definition seed_aad :: "string \<Rightarrow> string \<Rightarrow> u64 \<Rightarrow> string" where
  "seed_aad i node ep = ''kerosene-vault-seed-aad-v1|'' @ i @ ''|'' @ node @ ''|'' @ le_bytes ep"

definition seed_files :: "hybrid_identity \<Rightarrow> (string \<times> string) list" where
  "seed_files h =
     map (\<lambda>(l, x). (seed_share_id (hy_node h) l, x))
       [(''ed25519'', hy_ed_secret h), (''ml-dsa65'', hy_dsa_secret h), (''x25519'', hy_x_secret h),
        (''ml-kem768'', hy_kem_secret h), (''ed25519-pub'', hy_ed_public h), (''x25519-pub'', hy_x_public h)]"

definition persist_seeds :: "'s share_port \<Rightarrow> hybrid_identity \<Rightarrow> u64 \<Rightarrow> 's \<Rightarrow> unit res \<times> 's" where
  "persist_seeds port h ep st = put_all port 0 (seed_files h) st"

definition seed_min :: "string \<Rightarrow> nat" where
  "seed_min l =
     (if l = ''ed25519'' \<or> l = ''x25519'' then 32 else if l = ''ml-dsa65'' then 4032
      else if l = ''ml-kem768'' then 2400 else 1)"

text \<open>An error of the store is a missing seed, unless its text names one of two error variants.\<close>

definition load_seed :: "'s share_port \<Rightarrow> 's \<Rightarrow> string \<Rightarrow> string \<Rightarrow> u64 \<Rightarrow> string option res" where
  "load_seed port st node label ep =
     (case sp_get port (seed_share_id node label) st of
        Inr x \<Rightarrow>
          if length x < seed_min label
          then forbidden (''loaded seed '' @ label @ '' is too short: '' @ dec (length x) @ '' < '' @ dec (seed_min label))
          else Inr (Some x)
      | Inl e \<Rightarrow>
          if str_contains ''TeeRequired'' (display e) \<or> str_contains ''TpmRequired'' (display e) then Inl e
          else Inr None)"

definition with_seed :: "string option res \<Rightarrow> (string \<Rightarrow> 'a option res option) \<Rightarrow> 'a option res option" where
  "with_seed r f = (case r of Inl e \<Rightarrow> Some (Inl e) | Inr None \<Rightarrow> Some (Inr None) | Inr (Some x) \<Rightarrow> f x)"

text \<open>The slice of the first 32 bytes, which panics on fewer.\<close>

definition first32 :: "string \<Rightarrow> (string \<Rightarrow> 'a option) \<Rightarrow> 'a option" where
  "first32 x f = (if length x < 32 then None else f (take 32 x))"

text \<open>\<open>None\<close> is a panic, \<open>Some (Inr None)\<close> that some seed is missing.\<close>

definition load_seeds :: "'s share_port \<Rightarrow> 's \<Rightarrow> u64 option \<Rightarrow> string \<Rightarrow> u64 \<Rightarrow> hybrid_identity option res option" where
  "load_seeds port st now node ep =
     with_seed (load_seed port st node ''ed25519'' ep) (\<lambda>es.
     with_seed (load_seed port st node ''ml-dsa65'' ep) (\<lambda>ds.
     with_seed (load_seed port st node ''x25519'' ep) (\<lambda>xs.
     with_seed (load_seed port st node ''ml-kem768'' ep) (\<lambda>ks.
     with_seed (load_seed port st node ''ed25519-pub'' ep) (\<lambda>p1. first32 p1 (\<lambda>ed_pub.
     with_seed (load_seed port st node ''x25519-pub'' ep) (\<lambda>p2. first32 p2 (\<lambda>x_pub.
     first32 es (\<lambda>es32. first32 xs (\<lambda>xs32.
       Some (Inr (Some \<lparr>hy_node = node, hy_ed_public = ed_pub, hy_ed_secret = es32, hy_dsa_public = [],
         hy_dsa_secret = ds, hy_x_public = x_pub, hy_x_secret = xs32, hy_kem_public = [], hy_kem_secret = ks,
         hy_created = clock_secs now, hy_expires = 0\<rparr>))))))))))))"

section \<open>Round trip\<close>

text \<open>The lengths the types of the key material guarantee.\<close>

definition seeds_sized :: "hybrid_identity \<Rightarrow> bool" where
  "seeds_sized h =
     (length (hy_ed_secret h) = 32 \<and> length (hy_ed_public h) = 32 \<and> length (hy_x_secret h) = 32 \<and>
      length (hy_x_public h) = 32 \<and> 4032 \<le> length (hy_dsa_secret h) \<and> 2400 \<le> length (hy_kem_secret h))"

lemma seed_files_distinct: "distinct (map fst (seed_files h))"
  by (simp add: seed_files_def seed_share_id_def)

lemma load_seed_stored:
  "sp_get port (seed_share_id node l) st = Inr x \<Longrightarrow> seed_min l \<le> length x \<Longrightarrow> load_seed port st node l ep = Inr (Some x)"
  by (simp add: load_seed_def)

text \<open>The seeds of an identity survive a restart: after a persist that reports success into any share store that
  gives back what was written, loading finds every secret seed and the two classical public keys as they
  were; the two post-quantum public keys come back empty and the creation time is that of the load.\<close>

theorem seeds_survive_restart:
  assumes "share_laws port (fst ` set (seed_files h))" "seeds_sized h"
    and "persist_seeds port h ep st = (Inr (), st')"
  shows "load_seeds port st' now (hy_node h) ep =
    Some (Inr (Some (h\<lparr>hy_dsa_public := [], hy_kem_public := [], hy_created := clock_secs now, hy_expires := 0\<rparr>)))"
proof -
  have get: "\<forall>(i, x)\<in>set (seed_files h). sp_get port i st' = Inr x"
    using put_all_spec [OF assms(1) _ seed_files_distinct [of h], where n = 0 and s = st and u = "()" and s' = st'] assms(3)
    by (simp add: persist_seeds_def)
  have s: "length (hy_ed_secret h) = 32" "length (hy_ed_public h) = 32" "length (hy_x_secret h) = 32"
    "length (hy_x_public h) = 32" "4032 \<le> length (hy_dsa_secret h)" "2400 \<le> length (hy_kem_secret h)"
    using assms(2) by (auto simp: seeds_sized_def)
  have l: "load_seed port st' (hy_node h) ''ed25519'' ep = Inr (Some (hy_ed_secret h))"
    "load_seed port st' (hy_node h) ''ml-dsa65'' ep = Inr (Some (hy_dsa_secret h))"
    "load_seed port st' (hy_node h) ''x25519'' ep = Inr (Some (hy_x_secret h))"
    "load_seed port st' (hy_node h) ''ml-kem768'' ep = Inr (Some (hy_kem_secret h))"
    "load_seed port st' (hy_node h) ''ed25519-pub'' ep = Inr (Some (hy_ed_public h))"
    "load_seed port st' (hy_node h) ''x25519-pub'' ep = Inr (Some (hy_x_public h))"
    using get s by (auto intro!: load_seed_stored simp: seed_files_def seed_min_def)
  show ?thesis by (simp add: load_seeds_def l with_seed_def first32_def s)
qed

definition demo_hybrid :: hybrid_identity where
  "demo_hybrid = \<lparr>hy_node = ''v1'', hy_ed_public = replicate 32 (CHR ''p''), hy_ed_secret = replicate 32 (CHR ''s''),
     hy_dsa_public = ''dp'', hy_dsa_secret = replicate 4032 (CHR ''d''), hy_x_public = replicate 32 (CHR ''x''),
     hy_x_secret = replicate 32 (CHR ''y''), hy_kem_public = ''kp'', hy_kem_secret = replicate 2400 (CHR ''k''),
     hy_created = 7, hy_expires = 9\<rparr>"

text \<open>A store that keeps a map of its shares.\<close>

definition map_port :: "(string \<Rightarrow> string option) share_port" where
  "map_port = \<lparr>sp_put = (\<lambda>n i x d. (Inr (), d(i \<mapsto> x))),
     sp_get = (\<lambda>i d. case d i of Some x \<Rightarrow> Inr x | None \<Rightarrow> forbidden ''read share: no such file'')\<rparr>"

lemma map_port_laws: "share_laws map_port I"
  by (simp add: share_laws_def map_port_def)

theorem seeds_survive_restart_witness:
  "\<exists>st'. persist_seeds map_port demo_hybrid 0 (\<lambda>_. None) = (Inr (), st') \<and>
     load_seeds map_port st' (Some 50) ''v1'' 0 =
       Some (Inr (Some (demo_hybrid\<lparr>hy_dsa_public := [], hy_kem_public := [], hy_created := 50, hy_expires := 0\<rparr>)))"
proof -
  obtain st' where p: "persist_seeds map_port demo_hybrid 0 (\<lambda>_. None) = (Inr (), st')"
    by (simp add: persist_seeds_def seed_files_def map_port_def)
  have z: "seeds_sized demo_hybrid" by (simp add: seeds_sized_def demo_hybrid_def)
  show ?thesis
    using seeds_survive_restart [OF map_port_laws z p, of "Some 50"] p by (simp add: clock_secs_def demo_hybrid_def)
qed

section \<open>Where the seeds are lost\<close>

text \<open>The variants' names are no part of their messages: a store that fails closed looks empty.\<close>

lemma sealed_store_looks_empty:
  assumes "sp_get port (seed_share_id node ''ed25519'') st = Inl (TeeRequired ''TEE unseal path not available'')"
  shows "load_seeds port st now node ep = Some (Inr None)"
  using assms by (simp add: load_seeds_def load_seed_def with_seed_def)

text \<open>A truncated public key is a panic, not an error.\<close>

lemma short_public_panics:
  assumes "seeds_sized h" "\<forall>(i, x)\<in>set (seed_files h) - {(seed_share_id (hy_node h) ''ed25519-pub'', hy_ed_public h)}. sp_get port i st = Inr x"
    and "sp_get port (seed_share_id (hy_node h) ''ed25519-pub'') st = Inr p" "p \<noteq> []" "length p < 32"
  shows "load_seeds port st now (hy_node h) ep = None"
proof -
  have p: "1 \<le> length p" using assms(4) by (cases p) auto
  let ?n = "hy_node h"
  have rest: "(i, x) \<in> set (seed_files h) \<Longrightarrow> i \<noteq> seed_share_id ?n ''ed25519-pub'' \<Longrightarrow> sp_get port i st = Inr x" for i x
    using assms(2) by auto
  have g: "sp_get port (seed_share_id ?n ''ed25519'') st = Inr (hy_ed_secret h)"
    "sp_get port (seed_share_id ?n ''ml-dsa65'') st = Inr (hy_dsa_secret h)"
    "sp_get port (seed_share_id ?n ''x25519'') st = Inr (hy_x_secret h)"
    "sp_get port (seed_share_id ?n ''ml-kem768'') st = Inr (hy_kem_secret h)"
    by (rule rest [rule_format]; simp add: seed_files_def seed_share_id_def)+
  have l: "load_seed port st ?n ''ed25519'' ep = Inr (Some (hy_ed_secret h))"
    "load_seed port st ?n ''ml-dsa65'' ep = Inr (Some (hy_dsa_secret h))"
    "load_seed port st ?n ''x25519'' ep = Inr (Some (hy_x_secret h))"
    "load_seed port st ?n ''ml-kem768'' ep = Inr (Some (hy_kem_secret h))"
    "load_seed port st ?n ''ed25519-pub'' ep = Inr (Some p)"
    by (rule load_seed_stored, rule g assms(3), use assms(1) p in \<open>simp add: seed_min_def seeds_sized_def\<close>)+
  show ?thesis using assms(5) by (simp add: load_seeds_def l with_seed_def first32_def)
qed

text \<open>The X25519 secret that is kept is not the one the public key was made of.\<close>

lemma genesis_x25519_mismatch:
  assumes "hybrid_genesis xbase ed dsa xs eph kp ks now node = Inr h"
  shows "hy_x_secret h = xs \<and> hy_x_public h = xbase eph"
  using assms by (auto simp: hybrid_genesis_def split: sum.splits)

end
