(* ===== verification/TpmSeal.thy ===== *)
theory TpmSeal
  imports Identity
begin

text \<open>
  The TPM protection of the share passphrase (\<open>adapters/share_tpm.rs\<close>, \<open>share_tpm_tss.rs\<close>): the adapters, the
  mock envelope, how the passphrase is sealed at the first boot and unsealed at the later ones, and
  the counter that is to detect a rollback.  SHA-256 and ChaCha20-Poly1305 are the record \<open>seal_crate\<close>; the fresh
  salt and nonce are arguments.
\<close>

section \<open>Adapters\<close>

datatype tpm_adapter = TpmFailClosed | TpmMock | TpmHwProbe | TpmTss "string option"

definition tss_new :: tpm_adapter where
  "tss_new = TpmTss None"

definition tss_with_tcti :: "string \<Rightarrow> tpm_adapter \<Rightarrow> tpm_adapter" where
  "tss_with_tcti path a = (case a of TpmTss _ \<Rightarrow> TpmTss (Some path) | _ \<Rightarrow> a)"

definition tss_tcti :: "string option \<Rightarrow> string" where
  "tss_tcti path = (case path of Some p \<Rightarrow> p | None \<Rightarrow> ''device:/dev/tpmrm0'')"

definition tpm_required :: "string \<Rightarrow> 'a res" where
  "tpm_required e = Inl (TpmRequired e)"

definition dash :: string where
  "dash = [CHR 0xE2, CHR 0x80, CHR 0x94]"

definition tss_not_linked :: domain_error where
  "tss_not_linked = TpmRequired (''TPM TSS seal/unseal not linked: rebuild with --features tpm and install ''
     @ ''libtss2-esys + libtss2-tcti-device. See docs/ops/TPM_SETUP.md for details.'')"

text \<open>\<open>feat\<close> is the build feature \<open>tpm\<close>, \<open>dev\<close> whether a device node exists.  Both builds refuse.\<close>

definition tss_available :: "bool \<Rightarrow> bool \<Rightarrow> bool" where
  "tss_available feat dev = (feat \<and> dev)"

definition tss_seal :: "bool \<Rightarrow> string \<Rightarrow> string \<Rightarrow> string res" where
  "tss_seal feat plain policy =
     tpm_required (if feat then ''TPM TSS seal compiled (features tpm) but tss-esapi not linked '' @ dash
                           @ '' install libtss2-esys + libtss2-tcti-device''
       else ''TPM TSS seal not compiled: rebuild with --features tpm'')"

definition tss_unseal :: "bool \<Rightarrow> string \<Rightarrow> string \<Rightarrow> string res" where
  "tss_unseal feat sealed policy =
     tpm_required (if feat then ''TPM TSS unseal compiled (features tpm) but tss-esapi not linked '' @ dash
                           @ '' install libtss2-esys + libtss2-tcti-device''
       else ''TPM TSS unseal not compiled: rebuild with --features tpm'')"

definition tss_quote :: "string \<Rightarrow> string res" where
  "tss_quote nonce = Inl tss_not_linked"

definition tss_verify_quote :: "string \<Rightarrow> string \<Rightarrow> unit res" where
  "tss_verify_quote quote pcr = Inl tss_not_linked"

definition tss_read_counter :: "u64 res" where
  "tss_read_counter = Inl tss_not_linked"

definition tss_increment_counter :: "unit res" where
  "tss_increment_counter = Inl tss_not_linked"

definition pcr_composite_digest :: "string list \<Rightarrow> string" where
  "pcr_composite_digest pcrs = replicate 32 (CHR 0x00)"

definition build_seal_aad :: "string \<Rightarrow> string \<Rightarrow> string" where
  "build_seal_aad share node = ''seal-aad:'' @ share @ ''|'' @ node"

section \<open>The mock envelope\<close>

definition tpm_magic :: string where
  "tpm_magic = ''KVTPM001''"

definition tpm_mock_key :: "seal_crate \<Rightarrow> string \<Rightarrow> string \<Rightarrow> string" where
  "tpm_mock_key c policy salt = sc_sha256 c (''kerosene-vault-tpm-mock-v1'' @ policy @ salt)"

definition tpm_mock_seal :: "seal_crate \<Rightarrow> string \<Rightarrow> string \<Rightarrow> string \<Rightarrow> string \<Rightarrow> string res" where
  "tpm_mock_seal c salt nonce plain policy =
     (let header = tpm_magic @ [chr 1, chr 1] @ salt @ nonce
      in Inr (header @ sc_seal c (tpm_mock_key c policy salt) nonce header plain))"

definition tpm_mock_unseal :: "seal_crate \<Rightarrow> string \<Rightarrow> string \<Rightarrow> string res" where
  "tpm_mock_unseal c sealed policy =
     (if length sealed < 38 + 16 then tpm_required ''TPM sealed envelope is too short''
      else if take 8 sealed \<noteq> tpm_magic \<or> sealed ! 8 \<noteq> chr 1 \<or> sealed ! 9 \<noteq> chr 1
      then tpm_required ''TPM sealed envelope is invalid''
      else
        let salt = take 16 (drop 10 sealed); nonce = take 12 (drop 26 sealed) in
        (case sc_unseal c (tpm_mock_key c policy salt) nonce (take 38 sealed) (drop 38 sealed) of
           None \<Rightarrow> tpm_required ''TPM unseal rejected by policy or ciphertext''
         | Some m \<Rightarrow> Inr m))"

section \<open>The port\<close>

fun tpm_backend_kind :: "tpm_adapter \<Rightarrow> string" where
  "tpm_backend_kind TpmFailClosed = ''fail_closed''"
| "tpm_backend_kind TpmMock = ''mock''"
| "tpm_backend_kind TpmHwProbe = ''hw_probe''"
| "tpm_backend_kind (TpmTss t) = ''tss''"

definition tpm_available :: "tpm_adapter \<Rightarrow> bool" where
  "tpm_available a = (a \<noteq> TpmFailClosed)"

fun tpm_seal :: "seal_crate \<Rightarrow> bool \<Rightarrow> tpm_adapter \<Rightarrow> string \<Rightarrow> string \<Rightarrow> string \<Rightarrow> string \<Rightarrow> string res" where
  "tpm_seal c feat TpmMock salt nonce plain policy = tpm_mock_seal c salt nonce plain policy"
| "tpm_seal c feat TpmFailClosed salt nonce plain policy = tpm_required ''no TPM 2.0 device is available''"
| "tpm_seal c feat TpmHwProbe salt nonce plain policy =
     tpm_required ''TPM device detected but TSS seal support is not implemented''"
| "tpm_seal c feat (TpmTss t) salt nonce plain policy = tss_seal feat plain policy"

fun tpm_unseal :: "seal_crate \<Rightarrow> bool \<Rightarrow> tpm_adapter \<Rightarrow> string \<Rightarrow> string \<Rightarrow> string res" where
  "tpm_unseal c feat TpmMock sealed policy = tpm_mock_unseal c sealed policy"
| "tpm_unseal c feat TpmFailClosed sealed policy = tpm_required ''no TPM 2.0 device is available''"
| "tpm_unseal c feat TpmHwProbe sealed policy =
     tpm_required (if 9 < length sealed \<and> sealed ! 9 = chr 2
       then ''TPM hardware envelope requires unimplemented TSS support''
       else ''TPM device detected but TSS unseal support is not implemented'')"
| "tpm_unseal c feat (TpmTss t) sealed policy = tss_unseal feat sealed policy"

definition build_tpm_seal_port :: "bool \<Rightarrow> bool \<Rightarrow> bool \<Rightarrow> bool \<Rightarrow> bool \<Rightarrow> bool \<Rightarrow> tpm_adapter option res" where
  "build_tpm_seal_port production feat dev enabled stub refuse_stub =
     (if \<not> enabled then Inr None
      else if stub then
        (if refuse_stub \<or> production then Inl (LabFlagForbidden ''VAULT_SHARE_TPM_STUB'') else Inr (Some TpmMock))
      else Inr (Some (if dev then (if feat then tss_new else TpmHwProbe) else TpmFailClosed)))"

section \<open>The passphrase\<close>

definition sealed_passphrase_path :: "string \<Rightarrow> string" where
  "sealed_passphrase_path root = root @ ''/tpm-passphrase.sealed''"

definition tpm_policy :: "seal_crate \<Rightarrow> string \<Rightarrow> string" where
  "tpm_policy c root = sc_sha256 c (''kerosene-vault-tpm-passphrase-policy-v1|'' @ root)"

definition clear_passphrase :: "string option \<Rightarrow> string res" where
  "clear_passphrase p =
     (case p of
        Some v \<Rightarrow> if v \<noteq> [] then Inr v
          else forbidden ''VAULT_SHARE_PASSPHRASE is required to bootstrap TPM-sealed AEAD storage''
      | None \<Rightarrow> forbidden ''VAULT_SHARE_PASSPHRASE is required to bootstrap TPM-sealed AEAD storage'')"

text \<open>How far the write of the envelope comes: the temporary file is another path, so only a rename shows.\<close>

datatype envelope_write = EnvOk | EnvMkdir string | EnvTmp string | EnvRename string

definition write_envelope :: "envelope_write \<Rightarrow> string \<Rightarrow> string \<Rightarrow> disk \<Rightarrow> unit res \<times> disk" where
  "write_envelope w path bytes d =
     (case w of
        EnvOk \<Rightarrow> (Inr (), d(path \<mapsto> bytes))
      | EnvMkdir e \<Rightarrow> (forbidden (''mkdir TPM passphrase root: '' @ e), d)
      | EnvTmp e \<Rightarrow> (forbidden (''write TPM envelope: '' @ e), d)
      | EnvRename e \<Rightarrow> (forbidden (''rename TPM envelope: '' @ e), d))"

record resolved_passphrase =
  rp_passphrase :: string
  rp_backend :: string
  rp_clear :: bool

text \<open>What one boot meets: the outcome of reading the envelope, of writing it, and the random bytes.\<close>

record tpm_boot =
  tb_read :: "string option"
  tb_write :: envelope_write
  tb_salt :: string
  tb_nonce :: string

definition tpm_resolve ::
  "seal_crate \<Rightarrow> bool \<Rightarrow> tpm_boot \<Rightarrow> string \<Rightarrow> string option \<Rightarrow> tpm_adapter \<Rightarrow> disk \<Rightarrow> string res \<times> disk" where
  "tpm_resolve c feat b root pass a d =
     (let path = sealed_passphrase_path root; policy = tpm_policy c root in
      case d path of
        Some blob \<Rightarrow>
          ((case tb_read b of
             Some e \<Rightarrow> forbidden (''read TPM envelope: '' @ e)
           | None \<Rightarrow> rbind (tpm_unseal c feat a blob policy) (\<lambda>bytes.
               if utf8 bytes then Inr bytes else forbidden ''TPM-unsealed passphrase is not UTF-8'')), d)
      | None \<Rightarrow>
          (case clear_passphrase pass of
             Inl e \<Rightarrow> (Inl e, d)
           | Inr v \<Rightarrow>
               (case tpm_seal c feat a (tb_salt b) (tb_nonce b) v policy of
                  Inl e \<Rightarrow> (Inl e, d)
                | Inr blob \<Rightarrow>
                    (case write_envelope (tb_write b) path blob d of
                       (Inl e, d1) \<Rightarrow> (Inl e, d1)
                     | (Inr _, d1) \<Rightarrow> (Inr v, d1)))))"

text \<open>Without an envelope and without a passphrase the fallback is not tried; it would give the same error.\<close>

definition resolve_aead_passphrase ::
  "seal_crate \<Rightarrow> bool \<Rightarrow> tpm_boot \<Rightarrow> string \<Rightarrow> string option \<Rightarrow> tpm_adapter \<Rightarrow> bool \<Rightarrow> disk
     \<Rightarrow> resolved_passphrase res \<times> disk" where
  "resolve_aead_passphrase c feat b root pass a fallback d =
     (case tpm_resolve c feat b root pass a d of
        (Inr p, d1) \<Rightarrow> (Inr \<lparr>rp_passphrase = p, rp_backend = tpm_backend_kind a, rp_clear = False\<rparr>, d1)
      | (Inl e, d1) \<Rightarrow>
          (if fallback
           then rbind (clear_passphrase pass) (\<lambda>p.
             Inr \<lparr>rp_passphrase = p, rp_backend = tpm_backend_kind a, rp_clear = True\<rparr>)
           else Inl e, d1))"

section \<open>The counter\<close>

record counter_blob =
  cb_counter :: u64
  cb_sealed :: string

text \<open>The counter in eight bytes, the highest first.\<close>

definition be_bytes :: "u64 \<Rightarrow> string" where
  "be_bytes w = rev (le_enc 8 (unat w))"

definition of_be_bytes :: "string \<Rightarrow> u64" where
  "of_be_bytes bs = word_of_nat (le_dec (rev bs))"

definition counter_encode :: "counter_blob \<Rightarrow> string" where
  "counter_encode b = be_bytes (cb_counter b) @ cb_sealed b"

definition counter_decode :: "string \<Rightarrow> counter_blob res" where
  "counter_decode bytes =
     (if length bytes < 8 then tpm_required ''counter sealed blob too short''
      else Inr \<lparr>cb_counter = of_be_bytes (take 8 bytes), cb_sealed = drop 8 bytes\<rparr>)"

definition validate_tpm_counter :: "u64 \<Rightarrow> u64 \<Rightarrow> unit res" where
  "validate_tpm_counter stored now =
     (if now < stored
      then tpm_required (''TPM counter rollback detected: stored='' @ dec_u stored @ '' current='' @ dec_u now
             @ '' (possible TPM state restoration or clone attack)'')
      else Inr ())"

section \<open>What the envelope keeps\<close>

lemma mock_unseal_seal:
  assumes "aead_correct c" "length salt = 16" "length nonce = 12" "tpm_mock_seal c salt nonce plain policy = Inr b"
  shows "tpm_mock_unseal c b policy = Inr plain"
proof -
  let ?h = "tpm_magic @ [chr 1, chr 1] @ salt @ nonce"
  have b: "b = ?h @ sc_seal c (tpm_mock_key c policy salt) nonce ?h plain"
    using assms(4) by (simp add: tpm_mock_seal_def Let_def)
  have h: "length ?h = 38" "take 8 ?h = tpm_magic" "?h ! 8 = chr 1" "?h ! 9 = chr 1"
    "take 16 (drop 10 ?h) = salt" "take 12 (drop 26 ?h) = nonce"
    using assms(2,3) by (simp_all add: tpm_magic_def nth_append)
  have s: "take 8 b = tpm_magic" "b ! 8 = chr 1" "b ! 9 = chr 1" "take 16 (drop 10 b) = salt" "take 12 (drop 26 b) = nonce"
    "take 38 b = ?h" "drop 38 b = sc_seal c (tpm_mock_key c policy salt) nonce ?h plain"
    using h by (simp_all add: b nth_append tpm_magic_def assms(2,3))
  have ct: "16 \<le> length (drop 38 b)" "sc_unseal c (tpm_mock_key c policy salt) nonce ?h (drop 38 b) = Some plain"
    using assms(1) unfolding s(7) by (auto simp: aead_correct_def)
  then have "38 + 16 \<le> length b" by simp
  then show ?thesis using ct(2) unfolding tpm_mock_unseal_def s(1-6) Let_def by simp
qed

text \<open>The sealed passphrase sticks: once a first boot has sealed a passphrase, every later boot that can read the
  envelope on that disk uses the same passphrase and never the clear fallback, whatever passphrase the
  environment gives by then.\<close>

theorem sealed_passphrase_sticks:
  assumes "aead_correct c" "length (tb_salt b) = 16" "length (tb_nonce b) = 12" "utf8 p"
    and "d (sealed_passphrase_path root) = None"
    and "resolve_aead_passphrase c feat b root (Some p) TpmMock False d = (Inr r, d1)"
    and "tb_read b2 = None"
  shows "rp_passphrase r = p \<and> \<not> rp_clear r \<and>
    resolve_aead_passphrase c feat b2 root pass2 TpmMock fallback d1 = (Inr r, d1)"
proof -
  obtain blob where s: "tpm_mock_seal c (tb_salt b) (tb_nonce b) p (tpm_policy c root) = Inr blob"
    by (simp add: tpm_mock_seal_def Let_def)
  have p: "p \<noteq> []" "tb_write b = EnvOk" "d1 = d(sealed_passphrase_path root \<mapsto> blob)"
    "r = \<lparr>rp_passphrase = p, rp_backend = ''mock'', rp_clear = False\<rparr>"
    using assms(5,6) s
    by (auto simp: resolve_aead_passphrase_def tpm_resolve_def Let_def clear_passphrase_def write_envelope_def forbidden_def
        split: if_splits envelope_write.splits)
  show ?thesis
    using mock_unseal_seal [OF assms(1-3) s] assms(4,7)
    by (simp add: resolve_aead_passphrase_def tpm_resolve_def Let_def p)
qed

definition demo_boot :: tpm_boot where
  "demo_boot = \<lparr>tb_read = None, tb_write = EnvOk, tb_salt = replicate 16 (CHR ''s''), tb_nonce = replicate 12 (CHR ''n'')\<rparr>"

theorem sealed_passphrase_sticks_witness:
  "\<exists>r d1. resolve_aead_passphrase demo_seal False demo_boot ''/data'' (Some ''hunter2'') TpmMock False (\<lambda>_. None) = (Inr r, d1) \<and>
     resolve_aead_passphrase demo_seal False demo_boot ''/data'' (Some ''other'') TpmMock True d1 = (Inr r, d1) \<and>
     rp_passphrase r = ''hunter2''"
proof -
  let ?p = "resolve_aead_passphrase demo_seal False demo_boot ''/data'' (Some ''hunter2'') TpmMock False (\<lambda>_. None)"
  obtain r d1 where r: "?p = (Inr r, d1)"
    by (simp add: resolve_aead_passphrase_def tpm_resolve_def Let_def clear_passphrase_def tpm_mock_seal_def
        write_envelope_def demo_boot_def)
  have l: "length (tb_salt demo_boot) = 16" "length (tb_nonce demo_boot) = 12" "tb_read demo_boot = None"
    by (simp_all add: demo_boot_def)
  have u: "utf8 ''hunter2''" by code_simp
  show ?thesis
    using sealed_passphrase_sticks [OF demo_seal_ok(1) l(1,2) u _ r l(3), of "Some ''other''" True] r by simp
qed

text \<open>No adapter that a hardened boot may use can seal or unseal: every such boot fails, and leaves the disk alone.\<close>

lemma hardware_seal_never_works:
  assumes "build_tpm_seal_port production feat dev True stub refuse_stub = Inr (Some a)" "refuse_stub \<or> production"
  shows "\<exists>e. resolve_aead_passphrase c feat b root pass a False d = (Inl e, d)"
  using assms
  by (auto simp: build_tpm_seal_port_def tss_new_def resolve_aead_passphrase_def tpm_resolve_def Let_def tpm_required_def
      tss_seal_def tss_unseal_def forbidden_def split: if_splits option.splits sum.splits)

text \<open>With the fallback the sealing is not attempted again: the boot goes on with the passphrase in the clear.\<close>

lemma clear_fallback_used:
  assumes "tb_read b = None" "d (sealed_passphrase_path root) = Some blob" "tpm_mock_unseal c blob (tpm_policy c root) = Inl e" "p \<noteq> []"
  shows "resolve_aead_passphrase c feat b root (Some p) TpmMock True d =
    (Inr \<lparr>rp_passphrase = p, rp_backend = ''mock'', rp_clear = True\<rparr>, d)"
  using assms by (simp add: resolve_aead_passphrase_def tpm_resolve_def Let_def clear_passphrase_def)

lemma of_be_be: "of_be_bytes (be_bytes w) = w"
proof -
  have "unat w < 256 ^ 8" using unsigned_less [of w] by simp
  then show ?thesis by (simp add: of_be_bytes_def be_bytes_def)
qed

lemma counter_round_trip: "counter_decode (counter_encode b) = Inr b"
proof -
  have "length (be_bytes (cb_counter b)) = 8" by (simp add: be_bytes_def)
  then show ?thesis by (simp add: counter_decode_def counter_encode_def of_be_be)
qed

text \<open>The binding of share and node does not tell where one ends.\<close>

lemma seal_aad_ambiguous: "build_seal_aad ''a|b'' ''c'' = build_seal_aad ''a'' ''b|c''"
  by (simp add: build_seal_aad_def)

end
