(* ===== verification/LabKeys.thy ===== *)
theory LabKeys
  imports ReshareHook SignPsbt
begin

text \<open>
  Key material made and used inside one process: the distributed key generation of all participants
  (\<open>adapters/dkg_distributed.rs\<close>), the trusted dealers (\<open>adapters/frost_dealer.rs\<close>, \<open>generate_tr_dealer\<close> of
  \<open>adapters/frost_tr_bitcoin.rs\<close>), the boot that installs them (\<open>wire_distributed_dkg\<close> of \<open>bootstrap/wiring.rs\<close>),
  and the signer over them (\<open>adapters/frost_sign.rs\<close>).  The FROST crates are the records \<open>dkg_crate\<close>,
  \<open>dealer_crate\<close> and \<open>sign_crate\<close>; serializers do not fail.
\<close>

section \<open>Distributed key generation\<close>

record dkg_bundle =
  db_keys :: "string btmap"
  db_pub :: string
  db_max :: u16
  db_min :: u16

definition refuse_dealer_attempt :: "unit res" where
  "refuse_dealer_attempt = Inl (DealerForbidden ''distributed DKG only; dealer single-process is lab-only (ToB 2024)'')"

definition participant_ids :: "dkg_crate \<Rightarrow> u16 \<Rightarrow> string list res" where
  "participant_ids c mx =
     rmapM (\<lambda>i. of_dkg c (''frost identifier '' @ dec i @ '': '') (dc_ident c (word_of_nat i))) [1..<Suc (unat mx)]"

fun dkg_part1s ::
  "dkg_crate \<Rightarrow> (string \<Rightarrow> string) \<Rightarrow> u16 \<Rightarrow> u16 \<Rightarrow> string list \<Rightarrow> string btmap \<times> string btmap \<Rightarrow> (string btmap \<times> string btmap) res" where
  "dkg_part1s c rnd mx mn [] acc = Inr acc"
| "dkg_part1s c rnd mx mn (i # is) (secrets, packages) =
     rbind (of_dkg c ''frost dkg part1: '' (dc_part1 c i mx mn (rnd i))) (\<lambda>(s, p).
       dkg_part1s c rnd mx mn is (bt_put i s secrets, bt_put i p packages))"

fun dkg_part2s ::
  "dkg_crate \<Rightarrow> string btmap \<Rightarrow> string list \<Rightarrow> string btmap \<Rightarrow> string btmap \<times> string btmap btmap
     \<Rightarrow> (string btmap \<times> string btmap btmap) res" where
  "dkg_part2s c packages [] secrets acc = Inr acc"
| "dkg_part2s c packages (i # is) secrets (r2s, inbox) =
     (case bt_get i secrets of
        None \<Rightarrow> threshold_err ''missing round1 secret''
      | Some s \<Rightarrow>
          rbind (of_dkg c ''frost dkg part2: '' (dc_part2 c s (bt_remove i packages))) (\<lambda>(r2, out).
            dkg_part2s c packages is (bt_remove i secrets) (bt_put i r2 r2s, deliver_all i out inbox)))"

text \<open>The third part of one participant, with the checks on the threshold, the group size and the group key.\<close>

definition dkg_finish_one ::
  "dkg_crate \<Rightarrow> u16 \<Rightarrow> u16 \<Rightarrow> string btmap \<Rightarrow> string btmap \<Rightarrow> string btmap btmap \<Rightarrow> string option \<Rightarrow> string \<Rightarrow> (string \<times> string) res" where
  "dkg_finish_one c mx mn packages r2s inbox grp i =
     (case bt_get i inbox of
        None \<Rightarrow> threshold_err (''missing round2 inbox for '' @ dc_debug c i)
      | Some r2 \<Rightarrow>
     (case bt_get i r2s of
        None \<Rightarrow> threshold_err ''missing round2 secret''
      | Some s \<Rightarrow>
          rbind (of_dkg c ''frost dkg part3: '' (dc_part3 c s (bt_remove i packages) r2)) (\<lambda>(kp, pk).
            if dc_key_min c kp \<noteq> mn
            then threshold_err (''DKG threshold mismatch (ToB): key_package.min_signers='' @ dec_u (dc_key_min c kp)
                   @ '' expected='' @ dec_u mn)
            else if dc_pub_min c pk \<noteq> None \<and> dc_pub_min c pk \<noteq> Some mn
            then threshold_err (''DKG threshold mismatch (ToB): pubkey.min_signers='' @ dec_u (the (dc_pub_min c pk))
                   @ '' expected='' @ dec_u mn)
            else if dc_pub_max c pk \<noteq> mx
            then threshold_err (''DKG n mismatch: pubkey.max_signers='' @ dec_u (dc_pub_max c pk) @ '' expected='' @ dec_u mx)
            else
              (case grp of
                 Some g \<Rightarrow>
                   if dc_vk c g \<noteq> dc_vk c pk then threshold_err ''DKG participants disagree on group verifying key''
                   else Inr (kp, g)
               | None \<Rightarrow> Inr (kp, pk)))))"

fun dkg_part3s ::
  "dkg_crate \<Rightarrow> u16 \<Rightarrow> u16 \<Rightarrow> string btmap \<Rightarrow> string btmap \<Rightarrow> string btmap btmap \<Rightarrow> string list \<Rightarrow> string btmap \<times> string option
     \<Rightarrow> (string btmap \<times> string option) res" where
  "dkg_part3s c mx mn packages r2s inbox [] acc = Inr acc"
| "dkg_part3s c mx mn packages r2s inbox (i # is) (keys, grp) =
     rbind (dkg_finish_one c mx mn packages r2s inbox grp i) (\<lambda>(kp, g).
       dkg_part3s c mx mn packages r2s inbox is (bt_put i kp keys, Some g))"

definition run_in_process :: "dkg_crate \<Rightarrow> (string \<Rightarrow> string) \<Rightarrow> u16 \<Rightarrow> u16 \<Rightarrow> dkg_bundle res" where
  "run_in_process c rnd mx mn =
     (if mx < 2 \<or> mn < 2 \<or> mx < mn
      then threshold_err (''bad frost DKG params: max='' @ dec_u mx @ '' min='' @ dec_u mn)
      else
        rbind (participant_ids c mx) (\<lambda>ids.
        rbind (dkg_part1s c rnd mx mn ids ([], [])) (\<lambda>(secrets, packages).
        rbind (dkg_part2s c packages ids secrets ([], [])) (\<lambda>(r2s, inbox).
        rbind (dkg_part3s c mx mn packages r2s inbox ids ([], None)) (\<lambda>(keys, grp).
          case grp of
            None \<Rightarrow> threshold_err ''empty DKG result''
          | Some g \<Rightarrow> Inr \<lparr>db_keys = keys, db_pub = g, db_max = mx, db_min = mn\<rparr>)))))"

definition bundle_files :: "dkg_bundle \<Rightarrow> (string \<times> string) list" where
  "bundle_files b =
     map (\<lambda>(i, kp). (''frost-dkg-id-'' @ hex_encode i, kp)) (db_keys b) @ [(''frost-dkg-pubkey'', db_pub b)]"

definition persist_bundle :: "'s share_port \<Rightarrow> dkg_bundle \<Rightarrow> 's \<Rightarrow> unit res \<times> 's" where
  "persist_bundle port b st = put_all port 0 (bundle_files b) st"

section \<open>Dealers\<close>

record dealer_crate =
  dl_generate :: "u16 \<Rightarrow> u16 \<Rightarrow> string \<Rightarrow> (string btmap \<times> string) option"
  dl_key :: "string \<Rightarrow> string option"
  dl_even_key :: "string \<Rightarrow> string"
  dl_even_pub :: "string \<Rightarrow> string"
  dl_why :: string

definition of_dealer :: "dealer_crate \<Rightarrow> string \<Rightarrow> 'a option \<Rightarrow> 'a res" where
  "of_dealer c what x = (case x of Some v \<Rightarrow> Inr v | None \<Rightarrow> threshold_err (what @ dl_why c))"

fun dealt_keys :: "dealer_crate \<Rightarrow> string \<Rightarrow> (string \<Rightarrow> string) \<Rightarrow> string btmap \<Rightarrow> string btmap \<Rightarrow> string btmap res" where
  "dealt_keys c what f [] keys = Inr keys"
| "dealt_keys c what f ((i, share) # ss) keys =
     rbind (of_dealer c what (dl_key c share)) (\<lambda>kp. dealt_keys c what f ss (bt_put i (f kp) keys))"

record dealer_bundle =
  dlb_shares :: "string btmap"
  dlb_pub :: string
  dlb_keys :: "string btmap"
  dlb_max :: u16
  dlb_min :: u16

definition dealer_generate :: "dealer_crate \<Rightarrow> string \<Rightarrow> u16 \<Rightarrow> u16 \<Rightarrow> dealer_bundle res" where
  "dealer_generate c rnd mx mn =
     rbind (of_dealer c ''frost dealer: '' (dl_generate c mx mn rnd)) (\<lambda>(shares, pub).
     rbind (dealt_keys c ''key package: '' (\<lambda>k. k) shares []) (\<lambda>keys.
       Inr \<lparr>dlb_shares = shares, dlb_pub = pub, dlb_keys = keys, dlb_max = mx, dlb_min = mn\<rparr>))"

definition generate_tr_dealer :: "dealer_crate \<Rightarrow> string \<Rightarrow> u16 \<Rightarrow> u16 \<Rightarrow> tr_share_state res" where
  "generate_tr_dealer c rnd mx mn =
     rbind (of_dealer c ''frost-tr dealer: '' (dl_generate c mx mn rnd)) (\<lambda>(shares, pub).
     rbind (dealt_keys c ''tr key package: '' (dl_even_key c) shares []) (\<lambda>keys.
       Inr \<lparr>tr_key_packages = keys, tr_pubkey = dl_even_pub c pub, tr_min_signers = unat mn\<rparr>))"

section \<open>The boot\<close>

text \<open>The roster sizes are cut to 16 bits and raised to two.\<close>

definition dkg_sizes :: "nat \<Rightarrow> nat \<Rightarrow> u16 \<times> u16" where
  "dkg_sizes n t =
     (let mx = max (word_of_nat (min n 65535)) 2; mn = min (max (word_of_nat (min t 65535)) 2) mx in (mx, mn))"

text \<open>The share state to install, if the generation and its persistence succeed, and the store either way.\<close>

definition wire_distributed_dkg ::
  "dkg_crate \<Rightarrow> (string \<Rightarrow> string) \<Rightarrow> 's share_port \<Rightarrow> nat \<Rightarrow> nat \<Rightarrow> 's \<Rightarrow> tr_share_state res \<times> 's" where
  "wire_distributed_dkg c rnd port n t st =
     (case dkg_sizes n t of (mx, mn) \<Rightarrow>
        (case run_in_process c rnd mx mn of
           Inl e \<Rightarrow> (Inl e, st)
         | Inr b \<Rightarrow>
             (case persist_bundle port b st of
                (Inl e, st1) \<Rightarrow> (Inl e, st1)
              | (Inr _, st1) \<Rightarrow>
                  (Inr \<lparr>tr_key_packages = db_keys b, tr_pubkey = db_pub b, tr_min_signers = unat mn\<rparr>, st1))))"

section \<open>The signer\<close>

record sign_crate =
  si_commit :: "string \<Rightarrow> string \<Rightarrow> string \<times> string"
  si_share :: "signing_package \<Rightarrow> string \<Rightarrow> string \<Rightarrow> string option"
  si_aggregate :: "signing_package \<Rightarrow> string btmap \<Rightarrow> string \<Rightarrow> string option"
  si_verify :: "string \<Rightarrow> string \<Rightarrow> string \<Rightarrow> bool"
  si_why :: string

definition of_sign :: "sign_crate \<Rightarrow> string \<Rightarrow> 'a option \<Rightarrow> 'a res" where
  "of_sign k what x = (case x of Some v \<Rightarrow> Inr v | None \<Rightarrow> threshold_err (what @ si_why k))"

record aggregate_result =
  ar_session :: string
  ar_day :: string
  ar_signature :: string
  ar_participants :: nat

definition bind_message :: "string \<Rightarrow> string \<Rightarrow> string \<Rightarrow> string" where
  "bind_message msg session day = ''kerosene-frost-v1|'' @ day @ ''|'' @ session @ ''|'' @ msg"

text \<open>The nonces of each signer are kept with the key package they were drawn for, which is the one the second
  round looks up.\<close>

fun commit_round ::
  "sign_crate \<Rightarrow> (string \<Rightarrow> string) \<Rightarrow> string btmap \<Rightarrow> string list \<Rightarrow> (string \<times> string) btmap \<times> string btmap
     \<Rightarrow> ((string \<times> string) btmap \<times> string btmap) res" where
  "commit_round k rnd keys [] acc = Inr acc"
| "commit_round k rnd keys (i # is) (nonces, commits) =
     (case bt_get i keys of
        None \<Rightarrow> threshold_err ''missing key package''
      | Some kp \<Rightarrow>
          (case si_commit k kp (rnd i) of (n, cm) \<Rightarrow>
             commit_round k rnd keys is (bt_put i (kp, n) nonces, bt_put i cm commits)))"

fun share_round ::
  "sign_crate \<Rightarrow> signing_package \<Rightarrow> (string \<times> string) btmap \<Rightarrow> string btmap \<Rightarrow> string btmap res" where
  "share_round k pkg [] shares = Inr shares"
| "share_round k pkg ((i, kp, n) # ns) shares =
     rbind (of_sign k ''frost round2: '' (si_share k pkg n kp)) (\<lambda>s. share_round k pkg ns (bt_put i s shares))"

definition sign_lab_on ::
  "sign_crate \<Rightarrow> (string \<Rightarrow> string) \<Rightarrow> tr_share_state option \<Rightarrow> string \<Rightarrow> string \<Rightarrow> string \<Rightarrow> aggregate_result res" where
  "sign_lab_on k rnd slot session msg day =
     (let bound = bind_message msg session day in
      rbind (share_snapshot slot) (\<lambda>snap.
        let ids = bt_keys (tr_key_packages snap); need = tr_min_signers snap in
        if length ids < need then Inl (FailStop (length ids) need)
        else
          rbind (commit_round k rnd (tr_key_packages snap) (take need ids) ([], [])) (\<lambda>(nonces, commits).
          rbind (share_round k (commits, bound) nonces []) (\<lambda>shares.
          rbind (of_sign k ''frost aggregate: '' (si_aggregate k (commits, bound) shares (tr_pubkey snap))) (\<lambda>sig.
            if \<not> si_verify k (tr_pubkey snap) bound sig then threshold_err (''frost verify: '' @ si_why k)
            else Inr \<lparr>ar_session = session, ar_day = day, ar_signature = hex_encode sig, ar_participants = length shares\<rparr>)))))"

definition sign_lab_quorum ::
  "sign_crate \<Rightarrow> tr_call \<Rightarrow> rotation \<Rightarrow> (string \<Rightarrow> string) \<Rightarrow> tr_share_state option \<Rightarrow> string \<Rightarrow> string \<Rightarrow> anti_nonce
     \<Rightarrow> aggregate_result res \<times> anti_nonce" where
  "sign_lab_quorum k c r rnd slot session msg a =
     (case claim_and_day c r session a of (d, a1) \<Rightarrow> (rbind d (sign_lab_on k rnd slot session msg), a1))"

definition aggregate_json :: "aggregate_result \<Rightarrow> string" where
  "aggregate_json r =
     ''{'' @ key ''session_id'' @ quoted (ar_session r) @ '','' @ key ''day_epoch'' @ quoted (ar_day r)
     @ '','' @ key ''signature'' @ quoted (ar_signature r) @ '','' @ key ''participants'' @ dec (ar_participants r)
     @ '','' @ key ''scheme'' @ quoted ''frost-secp256k1-v3'' @ ''}''"

section \<open>No silent threshold\<close>

lemma dkg_part3s_ok:
  assumes "dkg_part3s c mx mn packages r2s inbox is (keys, grp) = Inr (keys', grp')"
    and "\<forall>(i, kp)\<in>set keys. dc_key_min c kp = mn"
    and "\<forall>g. grp = Some g \<longrightarrow> (dc_pub_min c g = None \<or> dc_pub_min c g = Some mn) \<and> dc_pub_max c g = mx"
  shows "set (bt_keys keys') = set (bt_keys keys) \<union> set is \<and> (\<forall>(i, kp)\<in>set keys'. dc_key_min c kp = mn) \<and>
    (\<forall>g. grp' = Some g \<longrightarrow> (dc_pub_min c g = None \<or> dc_pub_min c g = Some mn) \<and> dc_pub_max c g = mx)"
  using assms
proof (induction "is" arbitrary: keys grp)
  case (Cons i "is")
  obtain kp g where one: "dkg_finish_one c mx mn packages r2s inbox grp i = Inr (kp, g)"
    and rest: "dkg_part3s c mx mn packages r2s inbox is (bt_put i kp keys, Some g) = Inr (keys', grp')"
    using Cons.prems(1) by (auto simp: rbind_Inr_iff)
  have k: "dc_key_min c kp = mn" "(dc_pub_min c g = None \<or> dc_pub_min c g = Some mn) \<and> dc_pub_max c g = mx"
    using one Cons.prems(3)
    by (auto simp: dkg_finish_one_def rbind_Inr_iff threshold_err_def split: option.splits if_splits)
  have "\<forall>(j, x)\<in>set (bt_put i kp keys). dc_key_min c x = mn"
    using Cons.prems(2) k(1) set_bt_put [of i kp keys] by auto
  from Cons.IH [OF rest this] k(2) show ?case by (auto simp: bt_keys_put)
qed auto

text \<open>A key generation inside one process cannot raise or lower the threshold: when it succeeds, there is a key
  package for exactly the identifiers of the participants one to the maximum, every one of them asks for
  the threshold the caller gave, and so does the group's public package, for the group's size, whatever the
  packages of the rounds were.\<close>

theorem dkg_keeps_threshold:
  assumes "run_in_process c rnd mx mn = Inr b"
  shows "2 \<le> mn \<and> mn \<le> mx \<and> db_min b = mn \<and> db_max b = mx \<and>
    set (bt_keys (db_keys b)) = {i. \<exists>v\<in>{1..unat mx}. dc_ident c (word_of_nat v) = Some i} \<and>
    (\<forall>(i, kp)\<in>set (db_keys b). dc_key_min c kp = mn) \<and>
    (dc_pub_min c (db_pub b) = None \<or> dc_pub_min c (db_pub b) = Some mn) \<and> dc_pub_max c (db_pub b) = mx"
proof -
  have p: "\<not> (mx < 2 \<or> mn < 2 \<or> mx < mn)" using assms by (auto simp: run_in_process_def threshold_err_def)
  then obtain ids secrets packages r2s inbox keys grp where
    i: "participant_ids c mx = Inr ids"
    and t: "dkg_part3s c mx mn packages r2s inbox ids ([], None) = Inr (keys, grp)"
    and g: "grp = Some (db_pub b)" and b: "keys = db_keys b" "db_min b = mn" "db_max b = mx"
    using assms by (auto simp: run_in_process_def rbind_Inr_iff threshold_err_def split: option.splits)
  have l: "list_all2 (\<lambda>v i. of_dkg c (''frost identifier '' @ dec v @ '': '') (dc_ident c (word_of_nat v)) = Inr i) [1..<Suc (unat mx)] ids"
    using i by (simp add: participant_ids_def rmapM_Inr_iff del: upt_Suc)
  have o: "(of_dkg c w x = Inr i) = (x = Some i)" for w and x :: "string option" and i
    by (auto simp: of_dkg_def threshold_err_def split: option.splits)
  have "set ids = {i. \<exists>v\<in>set [1..<Suc (unat mx)]. dc_ident c (word_of_nat v) = Some i}"
    using l unfolding o by (induction rule: list_all2_induct) auto
  moreover have "set [1..<Suc (unat mx)] = {1..unat mx}" by (simp only: set_upt atLeastLessThanSuc_atLeastAtMost)
  ultimately have ids: "set ids = {i. \<exists>v\<in>{1..unat mx}. dc_ident c (word_of_nat v) = Some i}" by (simp only:)
  show ?thesis using dkg_part3s_ok [OF t] p g b ids by (auto simp: not_less)
qed

definition lab_dkg_demo :: dkg_crate where
  "lab_dkg_demo = \<lparr>dc_ident = (\<lambda>v. Some [chr (unat v)]), dc_part1 = (\<lambda>i mx mn seed. Some (i, seed)), dc_round1 = Some,
     dc_part2 = (\<lambda>s ps. Some (s, map (\<lambda>(j, p). (j, s)) ps)), dc_round2 = Some,
     dc_part3 = (\<lambda>s ps qs. Some (''kp'' @ s, ''group'')), dc_even_y = (\<lambda>x. x), dc_key_min = (\<lambda>_. 2),
     dc_pub_min = (\<lambda>_. Some 2), dc_pub_max = (\<lambda>_. 2), dc_vk = (\<lambda>p. p), dc_sha256 = (\<lambda>x. x), dc_debug = (\<lambda>x. x), dc_why = ''bad''\<rparr>"

lemma demo_dkg_runs: "\<exists>b. run_in_process lab_dkg_demo (\<lambda>i. i) 2 2 = Inr b"
proof -
  have "[1..<Suc (unat (2::u16))] = [1, 2]" by (simp add: upt_rec)
  then have i: "participant_ids lab_dkg_demo 2 = Inr [[chr 1], [chr 2]]"
    by (simp add: participant_ids_def lab_dkg_demo_def of_dkg_def)
  have c: "chr (Suc 0) = CHR 0x01" "chr 2 = CHR 0x02" by code_simp+
  show ?thesis
    unfolding run_in_process_def i
    by (simp add: lab_dkg_demo_def of_dkg_def c bt_remove_def dkg_finish_one_def)
qed

theorem dkg_keeps_threshold_witness:
  "\<exists>b. run_in_process lab_dkg_demo (\<lambda>i. i) 2 2 = Inr b \<and> db_min b = 2 \<and> [chr 2] \<in> set (bt_keys (db_keys b))"
proof -
  obtain b where b: "run_in_process lab_dkg_demo (\<lambda>i. i) 2 2 = Inr b" using demo_dkg_runs by blast
  have "\<exists>v\<in>{1..unat (2::u16)}. dc_ident lab_dkg_demo (word_of_nat v) = Some [chr 2]"
    by (intro bexI [of _ 2]) (simp_all add: lab_dkg_demo_def)
  then show ?thesis using dkg_keeps_threshold [OF b] b by auto
qed

section \<open>What a signature stands on\<close>

lemma length_bt_put: "bt_ok m \<Longrightarrow> length (bt_put k v m) = (if k \<in> set (bt_keys m) then length m else Suc (length m))"
proof -
  assume ok: "bt_ok m"
  have "length (bt_put k v m) = card (set (bt_keys (bt_put k v m)))"
    using distinct_card [OF bt_ok_distinct [OF bt_ok_put [OF ok]]] by (metis bt_keys_def length_map)
  also have "\<dots> = (if k \<in> set (bt_keys m) then card (set (bt_keys m)) else Suc (card (set (bt_keys m))))"
    by (simp add: bt_keys_put insert_absorb)
  also have "card (set (bt_keys m)) = length m"
    using distinct_card [OF bt_ok_distinct [OF ok]] by (metis bt_keys_def length_map)
  finally show ?thesis .
qed

lemma commit_round_ok:
  "commit_round k rnd keys is (nonces, commits) = Inr (nonces', commits') \<Longrightarrow> bt_ok nonces \<Longrightarrow>
     bt_ok nonces' \<and> set (bt_keys nonces') = set (bt_keys nonces) \<union> set is"
proof (induction "is" arbitrary: nonces commits)
  case (Cons i "is")
  obtain kp n cm where s: "bt_get i keys = Some kp" "si_commit k kp (rnd i) = (n, cm)"
    "commit_round k rnd keys is (bt_put i (kp, n) nonces, bt_put i cm commits) = Inr (nonces', commits')"
    using Cons.prems(1) by (auto simp: threshold_err_def split: option.splits prod.splits)
  from Cons.IH [OF s(3)] Cons.prems(2) show ?case by (auto simp: bt_keys_put)
qed simp

lemma share_round_ok:
  "share_round k pkg ns shares = Inr shares' \<Longrightarrow> bt_ok shares \<Longrightarrow>
     bt_ok shares' \<and> set (bt_keys shares') = set (bt_keys shares) \<union> set (bt_keys ns)"
proof (induction k pkg ns shares rule: share_round.induct)
  case (2 k pkg i kp n ns shares)
  obtain s where s: "share_round k pkg ns (bt_put i s shares) = Inr shares'"
    using 2(2) by (auto simp: rbind_Inr_iff)
  obtain s0 where s0: "of_sign k ''frost round2: '' (si_share k pkg n kp) = Inr s0"
    "share_round k pkg ns (bt_put i s0 shares) = Inr shares'"
    using 2(2) by (auto simp: rbind_Inr_iff)
  from 2(1) [OF s0(2)] 2(3) show ?case by (auto simp: bt_keys_put)
qed (simp add: bt_keys_def)

text \<open>A signature of the in-process signer needs a fresh session and a quorum: when it succeeds, the session had not
  been used and is burnt now, the day is the ledger's and not behind the clock, exactly the threshold of
  participants signed, and the signature verifies under the group key for the message bound to that day and
  that session.\<close>

theorem lab_signature_bound:
  assumes "sign_lab_quorum k c r rnd slot session msg a = (Inr s, a1)"
    and "slot = Some snap" "bt_ok (tr_key_packages snap)"
  shows "session \<notin> an_used a \<and> session \<in> an_used a1 \<and> ar_session s = session \<and> ar_day s = ro_current r \<and>
    \<not> ro_current r < day_epoch_from_unix_secs (ca_now c) \<and> ar_participants s = tr_min_signers snap \<and>
    tr_min_signers snap \<le> length (tr_key_packages snap) \<and>
    (\<exists>sig. ar_signature s = hex_encode sig \<and>
       si_verify k (tr_pubkey snap) (bind_message msg session (ro_current r)) sig)"
proof -
  obtain day where d: "claim_and_day c r session a = (Inr day, a1)" "sign_lab_on k rnd slot session msg day = Inr s"
    using assms(1) by (auto simp: sign_lab_quorum_def rbind_Inr_iff split: prod.splits)
  note cl = claim_and_day_ok [OF d(1)]
  let ?ids = "bt_keys (tr_key_packages snap)" and ?need = "tr_min_signers snap" and ?m = "bind_message msg session day"
  have len: "\<not> length ?ids < ?need"
    using d(2) by (auto simp: sign_lab_on_def assms(2) share_snapshot_def Let_def)
  obtain nonces commits shares sig where c: "commit_round k rnd (tr_key_packages snap) (take ?need ?ids) ([], []) = Inr (nonces, commits)"
    and sh: "share_round k (commits, ?m) nonces [] = Inr shares" and v: "si_verify k (tr_pubkey snap) ?m sig"
    and s: "s = \<lparr>ar_session = session, ar_day = day, ar_signature = hex_encode sig, ar_participants = length shares\<rparr>"
    using d(2) len
    by (auto simp: sign_lab_on_def assms(2) share_snapshot_def Let_def rbind_Inr_iff threshold_err_def split: if_splits)
  have n: "bt_ok nonces" "set (bt_keys nonces) = set (take ?need ?ids)"
    using commit_round_ok [OF c] by (auto simp: bt_keys_def)
  have "bt_ok shares" "set (bt_keys shares) = set (take ?need ?ids)"
    using share_round_ok [OF sh] n(2) by (auto simp: bt_keys_def)
  then have "length shares = length (take ?need ?ids)"
    using distinct_card [OF bt_ok_distinct [of shares]] distinct_card [OF distinct_take [OF bt_ok_distinct [OF assms(3)]], of ?need]
    by (metis bt_keys_def length_map)
  then have "length shares = ?need" using len by simp
  moreover have "?need \<le> length (tr_key_packages snap)" using len by (simp add: bt_keys_def)
  ultimately show ?thesis using cl v s by auto
qed

definition lab_sign_demo :: sign_crate where
  "lab_sign_demo = \<lparr>si_commit = (\<lambda>kp rnd. (''n'', ''c'')), si_share = (\<lambda>pkg n kp. Some ''s''),
     si_aggregate = (\<lambda>pkg ss pub. Some (snd pkg)), si_verify = (\<lambda>pub m sig. sig = m), si_why = ''bad''\<rparr>"

definition demo_lab_state :: tr_share_state where
  "demo_lab_state = \<lparr>tr_key_packages = [(''1'', ''k1''), (''2'', ''k2''), (''3'', ''k3'')], tr_pubkey = ''g'', tr_min_signers = 2\<rparr>"

theorem lab_signature_bound_witness:
  "\<exists>s a1. sign_lab_quorum lab_sign_demo demo_call demo_rotation (\<lambda>i. i) (Some demo_lab_state) ''s1'' ''m'' (an_open []) = (Inr s, a1) \<and>
     ar_participants s = 2 \<and> ''s1'' \<in> an_used a1"
proof -
  have "''s1'' \<notin> an_used (an_open [])" by code_simp
  then obtain a1 where a1: "claim_and_day demo_call demo_rotation ''s1'' (an_open []) = (Inr (day_epoch_from_unix_secs 0), a1)"
    using demo_claim by blast
  obtain s where "sign_lab_on lab_sign_demo (\<lambda>i. i) (Some demo_lab_state) ''s1'' ''m'' (day_epoch_from_unix_secs 0) = Inr s"
    by (simp add: sign_lab_on_def Let_def share_snapshot_def demo_lab_state_def lab_sign_demo_def of_sign_def bt_keys_def)
  then have s: "sign_lab_quorum lab_sign_demo demo_call demo_rotation (\<lambda>i. i) (Some demo_lab_state) ''s1'' ''m'' (an_open []) = (Inr s, a1)"
    by (simp add: sign_lab_quorum_def a1)
  have ok: "bt_ok (tr_key_packages demo_lab_state)" by code_simp
  show ?thesis
    using lab_signature_bound [OF s _ ok] s by (auto simp: demo_lab_state_def)
qed

text \<open>The bound message does not tell where the session ends: two sessions can share one message to sign.\<close>

lemma bound_messages_collide:
  "bind_message ''b|c'' ''a'' day = bind_message ''c'' ''a|b'' day"
  by (simp add: bind_message_def)

text \<open>The threshold a boot installs is the one of the constitution only between two and the group's size.\<close>

lemma dkg_sizes_exact:
  assumes "2 \<le> t" "t \<le> n" "n < 65536"
  shows "dkg_sizes n t = (word_of_nat n, word_of_nat t)"
proof -
  have le: "word_of_nat a \<le> (word_of_nat b :: u16)" if "a \<le> b" "b < 65536" for a b
    using that by (simp add: word_le_nat_alt unsigned_of_nat take_bit_nat_eq_self)
  have "min n 65535 = n" "min t 65535 = t" using assms by auto
  moreover have "(2::u16) \<le> word_of_nat n" "(2::u16) \<le> word_of_nat t" "word_of_nat t \<le> (word_of_nat n :: u16)"
    using le [of 2 n] le [of 2 t] le [of t n] assms by simp_all
  ultimately show ?thesis by (simp add: dkg_sizes_def Let_def max_def min_def)
qed

end
