(* ===== verification/Boot.thy ===== *)
theory Boot
  imports PeerTransports HybridSeeds TpmSeal LabKeys ConfigEnv LabSign Attestation Health EconomyStore
begin

text \<open>
  The boot of a vault (\<open>VaultRuntime::build\<close> of \<open>bootstrap/wiring.rs\<close>): the checks, the genesis seating, the
  laboratory threshold key, the adapters the configuration selects, the share store, the transports to the
  peers, and the FROST key material the vault starts with.  \<open>boot_env\<close> is what the boot finds outside:
  digests, clock, files, devices, and the outcome of opening stores and of building TLS clients.
\<close>

section \<open>Surroundings\<close>

record boot_env =
  be_sha :: "string \<Rightarrow> string"
  be_env :: env
  be_now :: u64
  be_tpm_feature :: bool
  be_tpm_device :: bool
  be_tpm_boot :: tpm_boot
  be_seal :: seal_crate
  be_device_key :: "string res"
  be_attest :: "unit res"
  be_fresh :: "nat \<Rightarrow> nat \<Rightarrow> string \<times> string \<times> write_outcome"
  be_read_why :: string
  be_release :: release_store
  be_economy :: "economy_store res"
  be_identity :: "hybrid_identity res"
  be_intent_log :: string
  be_session_log :: string
  be_day_disk :: "day_disk option"
  be_tls :: "nat \<Rightarrow> string res"
  be_hub :: "nat \<Rightarrow> unit res"
  be_tr :: tr_crypto
  be_packages :: package_crate
  be_dkg :: dkg_crate
  be_dealer :: dealer_crate
  be_random :: "string \<Rightarrow> string"

section \<open>Genesis\<close>

definition boot_guard :: "cfg_features \<Rightarrow> boot_env \<Rightarrow> vault_config \<Rightarrow> unit res" where
  "boot_guard f e c =
     rbind (validate_attestation_policy c) (\<lambda>_.
     rbind (validate_hygiene f (be_env e) c) (\<lambda>_.
       if vc_ceremony c \<in> {CerStaging, CerProduction} \<and> vc_dealer_requested c
       then Inl (DealerForbidden ''dealer DKG refused in staging/production'') else Inr ()))"

fun boot_peers :: "(string \<times> string) list \<Rightarrow> directory \<Rightarrow> directory res" where
  "boot_peers [] d = Inr d"
| "boot_peers ((i, addr) # ps) d =
     rbind (node_id_new i) (\<lambda>n. boot_peers ps (snd (upsert_peer \<lparr>pi_id = n, pi_address = addr\<rparr> d)))"

definition boot_roster :: "vault_config \<Rightarrow> string list res" where
  "boot_roster c =
     rbind (seat_genesis c) (\<lambda>active.
       if vc_node_id c \<notin> set active
       then threshold_err (''local node '' @ vc_node_id c @ '' not seated in genesis roster (SEV/SGX peers filled VAULT_GENESIS_N seats; ''
              @ ''this node is waiting-set only)'')
       else Inr active)"

definition boot_constitution :: "(string \<Rightarrow> string) \<Rightarrow> vault_config \<Rightarrow> nat \<Rightarrow> constitution res" where
  "boot_constitution sha c n =
     rbind (if vc_open_economy c then v1_open sha n else v1_lab sha n) (\<lambda>k.
     rbind (case vc_measurement_pin c of
              Some h \<Rightarrow> rbind (measurement_from_hex h) (\<lambda>m. Inr (with_measurement_pin m k))
            | None \<Rightarrow> Inr (ensure_measurement_pin sha k)) (\<lambda>k1.
       Inr (with_payout_frequency sha (vc_payout_frequency c) k1)))"

definition boot_rotation_quorum :: "vault_config \<Rightarrow> string list \<Rightarrow> constitution \<Rightarrow> nat" where
  "boot_rotation_quorum c active k =
     (if vc_seed_peers c = [] then 1 else max (quorum_two_thirds (max (length active) 1)) (signing_t k))"

definition boot_entropy :: "vault_config \<Rightarrow> string list \<Rightarrow> string" where
  "boot_entropy c active = ''genesis|'' @ vc_lab_root c @ ''|'' @ join_with '','' active"

definition boot_threshold :: "(string \<Rightarrow> string) \<Rightarrow> vault_config \<Rightarrow> string list \<Rightarrow> nat \<Rightarrow> threshold_vault res" where
  "boot_threshold sha c active t =
     rbind (run_dkg sha active t (boot_entropy c active)) (\<lambda>(g, shares).
       case List.find (\<lambda>s. ks_node s = vc_node_id c) shares of
         None \<Rightarrow> threshold_err ''local share missing after DKG''
       | Some s \<Rightarrow> Inr (threshold_vault_new g s shares))"

datatype boot_attestation = BootSim sim_adapter | BootTeeAdapter tee_adapter

definition boot_attestation_of :: "cfg_features \<Rightarrow> vault_config \<Rightarrow> string \<Rightarrow> boot_attestation res" where
  "boot_attestation_of f c measurement =
     (case vc_attestation c of
        AttSim \<Rightarrow> Inr (BootSim (sim_with_mode AttSim (vc_lab_root c)))
      | AttSoftware \<Rightarrow> Inr (BootSim (sim_with_mode AttSoftware (vc_lab_root c)))
      | m \<Rightarrow> rbind (tee_with_policy m (vc_staging_stub c) (vc_ceremony c = CerProduction \<or> cf_production f)
                (vc_lab_root c) measurement []) (\<lambda>a. Inr (BootTeeAdapter a)))"

definition boot_release_policy :: "vault_config \<Rightarrow> nat \<Rightarrow> release_policy" where
  "boot_release_policy c n =
     (release_lab_default n)\<lparr>lab_timelock_scale := effective_lab_timelock_scale c,
        council_n := max (vc_council_n c) 2, min_rebuilds := max (vc_min_rebuilds c) 1\<rparr>"

definition boot_auth :: "vault_config \<Rightarrow> auth_adapter res" where
  "boot_auth c =
     (let lab = (vc_ceremony c = CerLab) in
      case vc_auth c of
        AuthStatic \<Rightarrow>
          (case effective_vault_token c of
             None \<Rightarrow> Inl (AuthRejected ''VAULT_API_TOKEN (or VAULT_TOKEN) required for static auth'')
           | Some token \<Rightarrow> Inr (StaticTokenAuth token lab (lab \<or> vc_allow_manual_reshare c)))
      | AuthMtls \<Rightarrow> Inr (MutualTlsAuth (lab \<or> vc_allow_manual_reshare c)))"

definition admit_if_any :: "bucket_kind \<Rightarrow> string list \<Rightarrow> persisted \<Rightarrow> persisted res" where
  "admit_if_any k ds p =
     (if ds = [] then Inr p
      else case on_mem (admit_destinations k ds (pl_mem p)) p of (Inl err, p1) \<Rightarrow> Inl err | (Inr _, p1) \<Rightarrow> Inr p1)"

definition boot_buckets :: "boot_env \<Rightarrow> vault_config \<Rightarrow> constitution \<Rightarrow> persisted res" where
  "boot_buckets e c k =
     rbind (admit_if_any Users (vc_users_allowlist c)
       (persisted_open (be_intent_log e) (max_withdraw_per_tx_sats k) (max_withdraw_per_day_sats k)))
       (admit_if_any Miners (vc_miners_allowlist c))"

record boot_core =
  bk_peers :: directory
  bk_roster :: "string list"
  bk_constitution :: constitution
  bk_measurement :: string
  bk_rotation_quorum :: nat
  bk_ledger :: ledger_state
  bk_threshold :: threshold_vault
  bk_attestation :: boot_attestation
  bk_release :: release_store
  bk_economy :: economy_store
  bk_identity :: "hybrid_identity option"
  bk_auth :: auth_adapter
  bk_buckets :: persisted

definition boot_core_of :: "cfg_features \<Rightarrow> boot_env \<Rightarrow> vault_config \<Rightarrow> boot_core res" where
  "boot_core_of f e c =
     rbind (boot_guard f e c) (\<lambda>_.
     rbind (boot_peers (vc_seed_peers c) []) (\<lambda>peers.
     rbind (boot_roster c) (\<lambda>active.
     rbind (boot_constitution (be_sha e) c (length active)) (\<lambda>k.
     rbind (ledger_genesis (be_sha e) k active (vc_node_id c)) (\<lambda>ledger.
     rbind (boot_threshold (be_sha e) c active (signing_t k)) (\<lambda>threshold.
     rbind (boot_attestation_of f c (measurement_pin_or_hash (be_sha e) k)) (\<lambda>att.
     rbind (release_open (boot_release_policy c (length active)) (be_release e)) (\<lambda>rel.
     rbind (be_economy e) (\<lambda>eco.
     rbind (boot_auth c) (\<lambda>auth.
     rbind (boot_buckets e c k) (\<lambda>buckets.
       Inr \<lparr>bk_peers = peers, bk_roster = active, bk_constitution = k,
            bk_measurement = measurement_pin_or_hash (be_sha e) k,
            bk_rotation_quorum = boot_rotation_quorum c active k, bk_ledger = ledger, bk_threshold = threshold,
            bk_attestation = att, bk_release = rel, bk_economy = eco,
            bk_identity = (case be_identity e of Inr h \<Rightarrow> Some h | Inl _ \<Rightarrow> None),
            bk_auth = auth, bk_buckets = buckets\<rparr>)))))))))))"

section \<open>The share store\<close>

datatype boot_store = BootAead aead_store | BootTee tee_store

definition boot_aead :: "cfg_features \<Rightarrow> boot_env \<Rightarrow> vault_config \<Rightarrow> disk \<Rightarrow> boot_store res \<times> disk" where
  "boot_aead f e c d =
     (let root = effective_data_dir c; shares = path_join root ''shares'' in
      if vc_tpm_seal c then
        (case build_tpm_seal_port (cf_production f) (be_tpm_feature e) (be_tpm_device e) True (vc_tpm_stub c)
                (vc_hardened c \<or> vc_ceremony c \<noteq> CerLab \<or> cf_production f) of
           Inl err \<Rightarrow> (Inl err, d)
         | Inr port \<Rightarrow>
             (case resolve_aead_passphrase (be_seal e) (be_tpm_feature e) (be_tpm_boot e) root (effective_share_passphrase c)
                     (the port) (vc_tpm_clear_fallback c) d of
                (Inl err, d1) \<Rightarrow> (Inl err, d1)
              | (Inr r, d1) \<Rightarrow>
                  (Inr (BootAead \<lparr>ad_root = shares, ad_pass = rp_passphrase r, ad_tpm = \<not> rp_clear r\<rparr>), d1)))
      else
        (case effective_share_passphrase c of
           None \<Rightarrow> (forbidden ''VAULT_DATA_PASSPHRASE required outside lab (no default passphrase)'', d)
         | Some pass \<Rightarrow> (Inr (BootAead \<lparr>ad_root = shares, ad_pass = pass, ad_tpm = False\<rparr>), d)))"

text \<open>The hardware seal, where the build and the attestation mode have it; else a store that fails closed.\<close>

definition boot_tee_hw :: "cfg_features \<Rightarrow> boot_env \<Rightarrow> vault_config \<Rightarrow> string \<Rightarrow> tee_store res" where
  "boot_tee_hw f e c measurement =
     (if cf_tee_hw f \<and> is_tee (vc_attestation c)
      then tee_hw_store (path_join (effective_data_dir c) ''tee-shares'') (vc_attestation c) measurement (be_attest e) (cf_production f)
      else Inr (tee_fail_closed measurement (cf_production f) (cf_tee_hw f)))"

definition boot_tee :: "cfg_features \<Rightarrow> boot_env \<Rightarrow> vault_config \<Rightarrow> string \<Rightarrow> tee_store res" where
  "boot_tee f e c measurement =
     (if cf_production f then boot_tee_hw f e c measurement
      else if vc_staging_stub c \<and> vc_ceremony c \<noteq> CerProduction then
        (case effective_share_passphrase c of
           None \<Rightarrow> forbidden ''VAULT_DATA_PASSPHRASE required for tee staging stub outside lab''
         | Some pass \<Rightarrow>
             Inr (with_attestation (be_attest e)
               (tee_staging_stub (path_join (effective_data_dir c) ''tee-shares'') pass measurement (cf_tee_hw f))))
      else boot_tee_hw f e c measurement)"

definition boot_share_store :: "cfg_features \<Rightarrow> boot_env \<Rightarrow> vault_config \<Rightarrow> string \<Rightarrow> disk \<Rightarrow> boot_store res \<times> disk" where
  "boot_share_store f e c measurement d =
     (case vc_store c of
        AeadDisk \<Rightarrow> boot_aead f e c d
      | TeeSeal \<Rightarrow> (rbind (boot_tee f e c measurement) (\<lambda>t. Inr (BootTee t)), d))"

text \<open>The store as a port; \<open>phase\<close> tells the runs of writes of one boot apart.\<close>

definition boot_port :: "boot_env \<Rightarrow> boot_store \<Rightarrow> nat \<Rightarrow> disk share_port" where
  "boot_port e st phase =
     (case st of
        BootAead a \<Rightarrow> aead_port (be_seal e) a (be_fresh e phase) (be_read_why e)
      | BootTee t \<Rightarrow> tee_port (be_seal e) (be_device_key e) t (be_fresh e phase) (be_read_why e))"

section \<open>The mesh\<close>

definition boot_peer_bases :: "vault_config \<Rightarrow> (string \<times> string) list" where
  "boot_peer_bases c = map (\<lambda>(i, addr). (i, peer_base_url addr (vc_auth c = AuthMtls))) (vc_seed_peers c)"

definition boot_wire_token :: "vault_config \<Rightarrow> string" where
  "boot_wire_token c = (case effective_vault_token c of Some t \<Rightarrow> t | None \<Rightarrow> ''kerosene-vault-lab-only'')"

text \<open>A transport over the peers: with the token, or with the client identity and the TLS configuration number \<open>j\<close>.\<close>

definition boot_transport :: "boot_env \<Rightarrow> vault_config \<Rightarrow> nat \<Rightarrow> 'u list \<Rightarrow> 'u wire_transport res" where
  "boot_transport e c j us =
     (case vc_auth c of
        AuthStatic \<Rightarrow> Inr (with_peer_http us (Some (boot_wire_token c)) (vc_peer_http c))
      | AuthMtls \<Rightarrow> rbind (require_mtls_client_identity c) (\<lambda>_. with_mtls us (vc_peer_http c) (be_tls e j)))"

text \<open>A static count is the probe with a fixed laboratory count.\<close>

definition boot_online_of :: "vault_config \<Rightarrow> nat \<Rightarrow> online_probe" where
  "boot_online_of c n =
     (if \<not> (vc_online_static c \<or> vc_ceremony c = CerLab \<and> vc_seed_peers c = [])
      then probe_new (map (\<lambda>(i, b). b @ ''/v1/health'') (boot_peer_bases c)) (vc_online_count c)
      else probe_lab_static (case vc_online_count c of Some m \<Rightarrow> m | None \<Rightarrow> n))"

definition boot_in_process :: "vault_config \<Rightarrow> bool" where
  "boot_in_process c = (vc_dkg c = DealerLab \<and> vc_ceremony c = CerLab \<and> \<not> vc_hardened c)"

text \<open>Only seated peers take part in the wire ceremony.\<close>

definition boot_dkg_peers :: "vault_config \<Rightarrow> string list \<Rightarrow> string btmap" where
  "boot_dkg_peers c active = fold (\<lambda>(i, addr) m. if i \<in> set active then bt_put i addr m else m) (vc_seed_peers c) []"

definition boot_hub :: "boot_env \<Rightarrow> vault_config \<Rightarrow> string list \<Rightarrow> nat \<Rightarrow> dkg_hub res" where
  "boot_hub e c active j =
     rbind (be_hub e j) (\<lambda>_.
       Inr \<lparr>dh_node = vc_node_id c, dh_peers = boot_dkg_peers c active, dh_mtls = (vc_auth c = AuthMtls),
            dh_http = vc_peer_http c, dh_sessions = [], dh_completed = None\<rparr>)"

record boot_mesh =
  bm_online :: online_probe
  bm_nonce :: quorum_nonce
  bm_intents :: quorum_ledger
  bm_in_process :: bool
  bm_day :: "(string \<times> string) wire_transport option"
  bm_rotation :: rotation
  bm_dkg_hub :: dkg_hub
  bm_tr_hub :: dkg_hub
  bm_cosign :: "(string \<times> string) wire_transport option"

definition boot_mesh_of :: "boot_env \<Rightarrow> vault_config \<Rightarrow> boot_core \<Rightarrow> boot_mesh res" where
  "boot_mesh_of e c k =
     (let bases = boot_peer_bases c; n = length bases in
      rbind (boot_transport e c 0 (map (\<lambda>(i, b). b @ ''/v1/anti-nonce/prepare'') bases)) (\<lambda>nonce.
      rbind (boot_transport e c 1 (map (\<lambda>(i, b). b @ ''/v1/intent/consume/prepare'') bases)) (\<lambda>intents.
      rbind (if n = 0 then Inr None
             else rbind (boot_transport e c 2 (map (\<lambda>(i, b). (i, b @ ''/v1/day/vote'')) bases)) (\<lambda>t. Inr (Some t))) (\<lambda>day.
      rbind (if vc_auth c = AuthMtls then rbind (require_mtls_client_identity c) (\<lambda>_. Inr ()) else Inr ()) (\<lambda>_.
      rbind (boot_hub e c (bk_roster k) 0) (\<lambda>hub.
      rbind (boot_hub e c (bk_roster k) 1) (\<lambda>tr_hub.
      rbind (if bases = [] then Inr None
             else rbind (boot_transport e c 3 bases) (\<lambda>t. Inr (Some t))) (\<lambda>cosign.
        Inr \<lparr>bm_online = boot_online_of c (length (bk_roster k)),
             bm_nonce = quorum_nonce_open (be_session_log e) nonce n,
             bm_intents = quorum_ledger_from_local (bk_buckets k) intents n,
             bm_in_process = boot_in_process c, bm_day = day,
             bm_rotation = rotation_open (be_now e) (bk_rotation_quorum k) (vc_node_id c) (be_day_disk e),
             bm_dkg_hub = hub, bm_tr_hub = tr_hub, bm_cosign = cosign\<rparr>))))))))"

section \<open>Key material\<close>

record boot_keys =
  by_mode :: dkg_mode
  by_frost :: "tr_share_state option"
  by_users :: "tr_signer option"
  by_channels :: "tr_signer option"

definition boot_signer :: "vault_config \<Rightarrow> bool \<Rightarrow> tr_share_state \<Rightarrow> tr_signer" where
  "boot_signer c multisign s =
     \<lparr>sg_slot = Some s, sg_network = vc_network c, sg_multisign = multisign, sg_node = vc_node_id c,
      sg_cosign = True, sg_policy = vc_psbt_policy c\<rparr>"

text \<open>A sealed keyset that loads and holds one share; any error of the load is a vault without the key.\<close>

definition boot_wire_signer ::
  "boot_env \<Rightarrow> vault_config \<Rightarrow> string \<Rightarrow> tr_names \<Rightarrow> 's share_port \<Rightarrow> 's \<Rightarrow> tr_signer option res" where
  "boot_wire_signer e c refusal names port st =
     (case load_tr_shares (be_tr e) (be_packages e) names port st of
        Inr s \<Rightarrow> if 1 < length (tr_key_packages s) then threshold_err refusal else Inr (Some (boot_signer c False s))
      | Inl _ \<Rightarrow> Inr None)"

definition boot_keys_wire :: "boot_env \<Rightarrow> vault_config \<Rightarrow> 's share_port \<Rightarrow> 's \<Rightarrow> boot_keys res" where
  "boot_keys_wire e c port st =
     rbind (boot_wire_signer e c ''distributed_wire refuses sealed multi-share TR material; install local share only''
              users_names port st) (\<lambda>users.
     rbind (boot_wire_signer e c ''distributed_wire refuses sealed multi-share CHANNELS TR material''
              channels_names port st) (\<lambda>channels.
       Inr \<lparr>by_mode = DistributedWire, by_frost = None, by_users = users, by_channels = channels\<rparr>))"

definition boot_keys_distributed ::
  "boot_env \<Rightarrow> nat \<Rightarrow> nat \<Rightarrow> 's share_port \<Rightarrow> 's \<Rightarrow> boot_keys res \<times> 's" where
  "boot_keys_distributed e n t port st =
     (case wire_distributed_dkg (be_dkg e) (be_random e) port n t st of
        (Inl err, st1) \<Rightarrow> (Inl err, st1)
      | (Inr s, st1) \<Rightarrow> (Inr \<lparr>by_mode = DkgDistributed, by_frost = Some s, by_users = None, by_channels = None\<rparr>, st1))"

text \<open>The laboratory's dealer: load a keyset, or deal and persist a fresh one when loading fails for any reason.\<close>

definition boot_load_or_deal ::
  "boot_env \<Rightarrow> u16 \<Rightarrow> u16 \<Rightarrow> tr_names \<Rightarrow> 's share_port \<Rightarrow> 's \<Rightarrow> tr_share_state res \<times> 's" where
  "boot_load_or_deal e mx mn names port st =
     (case load_tr_shares (be_tr e) (be_packages e) names port st of
        Inr s \<Rightarrow> (Inr s, st)
      | Inl _ \<Rightarrow>
          (case generate_tr_dealer (be_dealer e) (be_random e (tn_label names)) mx mn of
             Inl err \<Rightarrow> (Inl err, st)
           | Inr s \<Rightarrow>
               (case persist_tr_shares names port s st of
                  (Inl err, st1) \<Rightarrow> (Inl err, st1)
                | (Inr _, st1) \<Rightarrow> (Inr s, st1))))"

definition boot_keys_dealer ::
  "boot_env \<Rightarrow> vault_config \<Rightarrow> nat \<Rightarrow> nat \<Rightarrow> (nat \<Rightarrow> 's share_port) \<Rightarrow> 's \<Rightarrow> boot_keys res \<times> 's" where
  "boot_keys_dealer e c n t port st =
     (case dkg_sizes n t of (mx, mn) \<Rightarrow>
      (case dealer_generate (be_dealer e) (be_random e ''dealer'') mx mn of
         Inl err \<Rightarrow> (Inl err, st)
       | Inr b \<Rightarrow>
           (let st1 = (case dlb_keys b of
                         [] \<Rightarrow> st
                       | (i, kp) # _ \<Rightarrow> snd (sp_put (port 0) 0 (vc_node_id c) (''frost-lab-share:'' @ dc_debug (be_dkg e) i) st)) in
            case boot_load_or_deal e mx mn users_names (port 1) st1 of
              (Inl err, st2) \<Rightarrow> (Inl err, st2)
            | (Inr users, st2) \<Rightarrow>
                (case boot_load_or_deal e mx mn channels_names (port 2) st2 of
                   (Inl err, st3) \<Rightarrow> (Inl err, st3)
                 | (Inr channels, st3) \<Rightarrow>
                     (Inr \<lparr>by_mode = DealerLab,
                        by_frost = Some \<lparr>tr_key_packages = dlb_keys b, tr_pubkey = dlb_pub b, tr_min_signers = t\<rparr>,
                        by_users = Some (boot_signer c True users), by_channels = Some (boot_signer c True channels)\<rparr>, st3)))))"

text \<open>The two builds choose between the same ceremonies in different orders.\<close>

definition boot_keys_lab_build ::
  "boot_env \<Rightarrow> vault_config \<Rightarrow> nat \<Rightarrow> nat \<Rightarrow> (nat \<Rightarrow> 's share_port) \<Rightarrow> 's \<Rightarrow> boot_keys res \<times> 's" where
  "boot_keys_lab_build e c n t port st =
     (if vc_dealer_requested c \<and> vc_ceremony c = CerLab \<and> \<not> vc_hardened c then boot_keys_dealer e c n t port st
      else if vc_dkg c = DistributedWire then (boot_keys_wire e c (port 0) st, st)
      else if vc_dkg c = DkgDistributed then boot_keys_distributed e n t (port 0) st
      else (Inr \<lparr>by_mode = DkgDistributed, by_frost = None, by_users = None, by_channels = None\<rparr>, st))"

definition boot_keys_plain_build ::
  "boot_env \<Rightarrow> vault_config \<Rightarrow> nat \<Rightarrow> nat \<Rightarrow> (nat \<Rightarrow> 's share_port) \<Rightarrow> 's \<Rightarrow> boot_keys res \<times> 's" where
  "boot_keys_plain_build e c n t port st =
     (if vc_dealer_requested c \<or> vc_dkg c = DealerLab
      then (Inl (DealerForbidden ''dealer DKG not compiled (build without dealer_lab)''), st)
      else if vc_dkg c = DistributedWire then (boot_keys_wire e c (port 0) st, st)
      else boot_keys_distributed e n t (port 0) st)"

definition boot_keys_of ::
  "cfg_features \<Rightarrow> boot_env \<Rightarrow> vault_config \<Rightarrow> nat \<Rightarrow> nat \<Rightarrow> (nat \<Rightarrow> 's share_port) \<Rightarrow> 's \<Rightarrow> boot_keys res \<times> 's" where
  "boot_keys_of f e c n t port st =
     (if cf_dealer_lab f then boot_keys_lab_build e c n t port st else boot_keys_plain_build e c n t port st)"

section \<open>The runtime\<close>

record vault_runtime =
  rt_core :: boot_core
  rt_store :: boot_store
  rt_mesh :: boot_mesh
  rt_keys :: boot_keys
  rt_health :: get_health

fun boot_attestation_mode :: "boot_attestation \<Rightarrow> attestation_mode" where
  "boot_attestation_mode (BootSim a) = sa_mode a"
| "boot_attestation_mode (BootTeeAdapter a) = ta_mode a"

definition boot_health :: "vault_config \<Rightarrow> boot_core \<Rightarrow> boot_mesh \<Rightarrow> get_health" where
  "boot_health c k m =
     with_online_status (bm_online m)
       (with_constitution (signing_n (bk_constitution k)) (signing_t (bk_constitution k))
         ((health_with_roster (vc_node_id c) (boot_attestation_mode (bk_attestation k)) (vc_node_tier c)
             (vc_tee_available c \<and> is_tee (vc_attestation c)) (bk_roster k))
           \<lparr>gh_probe := \<not> vc_online_static c \<and> vc_seed_peers c \<noteq> []\<rparr>))"

definition boot :: "cfg_features \<Rightarrow> boot_env \<Rightarrow> vault_config \<Rightarrow> disk \<Rightarrow> vault_runtime res \<times> disk" where
  "boot f e c d =
     (case boot_core_of f e c of
        Inl err \<Rightarrow> (Inl err, d)
      | Inr k \<Rightarrow>
          (case boot_share_store f e c (bk_measurement k) d of
             (Inl err, d1) \<Rightarrow> (Inl err, d1)
           | (Inr store, d1) \<Rightarrow>
               (case boot_mesh_of e c k of
                  Inl err \<Rightarrow> (Inl err, d1)
                | Inr m \<Rightarrow>
                    (case boot_keys_of f e c (length (bk_roster k)) (signing_t (bk_constitution k)) (boot_port e store) d1 of
                       (Inl err, d2) \<Rightarrow> (Inl err, d2)
                     | (Inr keys, d2) \<Rightarrow>
                         (Inr \<lparr>rt_core = k, rt_store = store, rt_mesh = m, rt_keys = keys, rt_health = boot_health c k m\<rparr>, d2)))))"

end
