(* ===== verification/BootProps.thy ===== *)
theory BootProps
  imports Boot
begin

text \<open>
  What a vault that has booted stands on: one share per process outside the laboratory, a private mesh under mutual
  TLS, and a seat in the roster whose quorums it uses.
\<close>

section \<open>Stages\<close>

lemma boot_stages:
  assumes "boot f e c d = (Inr rt, d')"
  obtains d1 where "boot_core_of f e c = Inr (rt_core rt)"
    and "boot_share_store f e c (bk_measurement (rt_core rt)) d = (Inr (rt_store rt), d1)"
    and "boot_mesh_of e c (rt_core rt) = Inr (rt_mesh rt)"
    and "boot_keys_of f e c (length (bk_roster (rt_core rt))) (signing_t (bk_constitution (rt_core rt)))
           (boot_port e (rt_store rt)) d1 = (Inr (rt_keys rt), d')"
  using assms by (auto simp: boot_def split: sum.splits prod.splits)

lemma boot_core_parts:
  assumes "boot_core_of f e c = Inr k"
  shows "boot_guard f e c = Inr ()" "boot_roster c = Inr (bk_roster k)"
    "boot_constitution (be_sha e) c (length (bk_roster k)) = Inr (bk_constitution k)"
    "boot_threshold (be_sha e) c (bk_roster k) (signing_t (bk_constitution k)) = Inr (bk_threshold k)"
    "bk_rotation_quorum k = boot_rotation_quorum c (bk_roster k) (bk_constitution k)"
  using assms by (auto simp: boot_core_of_def rbind_Inr_iff)

lemma boot_mesh_parts:
  assumes "boot_mesh_of e c k = Inr m"
  shows "bm_in_process m = boot_in_process c"
    "bm_rotation m = rotation_open (be_now e) (bk_rotation_quorum k) (vc_node_id c) (be_day_disk e)"
    "boot_transport e c 0 (map (\<lambda>(i, b). b @ ''/v1/anti-nonce/prepare'') (boot_peer_bases c)) = Inr (qn_transport (bm_nonce m))"
    "boot_transport e c 1 (map (\<lambda>(i, b). b @ ''/v1/intent/consume/prepare'') (boot_peer_bases c)) = Inr (qi_transport (bm_intents m))"
    "case bm_day m of None \<Rightarrow> boot_peer_bases c = []
     | Some t \<Rightarrow> boot_transport e c 2 (map (\<lambda>(i, b). (i, b @ ''/v1/day/vote'')) (boot_peer_bases c)) = Inr t"
    "case bm_cosign m of None \<Rightarrow> boot_peer_bases c = [] | Some t \<Rightarrow> boot_transport e c 3 (boot_peer_bases c) = Inr t"
    "boot_hub e c (bk_roster k) 0 = Inr (bm_dkg_hub m)" "boot_hub e c (bk_roster k) 1 = Inr (bm_tr_hub m)"
  using assms
  by (auto simp: boot_mesh_of_def Let_def rbind_Inr_iff quorum_nonce_open_def quorum_nonce_from_local_def
      quorum_ledger_from_local_def split: if_splits)

lemma boot_guard_ceremony:
  assumes "boot_guard f e c = Inr ()" "vc_ceremony c \<noteq> CerLab"
  shows "\<not> vc_dealer_requested c \<and> vc_dkg c = DistributedWire \<and> vc_auth c = AuthMtls"
proof -
  have "validate_hygiene f (be_env e) c = Inr ()" using assms(1) by (auto simp: boot_guard_def rbind_Inr_iff)
  from hygiene_parts(9) [OF this assms(2)] show ?thesis by (auto dest: ceremony_checked)
qed

section \<open>Shares\<close>

lemma wire_signer_single:
  assumes "boot_wire_signer e c w names port st = Inr (Some g)"
  shows "\<not> sg_multisign g \<and> (\<exists>s. sg_slot g = Some s \<and> length (tr_key_packages s) \<le> 1)"
  using assms by (auto simp: boot_wire_signer_def boot_signer_def threshold_err_def split: sum.splits if_splits)

lemma wire_keys_single:
  assumes "boot_keys_wire e c port st = Inr y"
  shows "by_mode y = DistributedWire \<and> by_frost y = None \<and>
    (\<forall>g. by_users y = Some g \<or> by_channels y = Some g \<longrightarrow>
       \<not> sg_multisign g \<and> (\<exists>s. sg_slot g = Some s \<and> length (tr_key_packages s) \<le> 1))"
proof -
  obtain users channels where
    u: "boot_wire_signer e c ''distributed_wire refuses sealed multi-share TR material; install local share only''
              users_names port st = Inr users"
    and ch: "boot_wire_signer e c ''distributed_wire refuses sealed multi-share CHANNELS TR material''
              channels_names port st = Inr channels"
    and y: "y = \<lparr>by_mode = DistributedWire, by_frost = None, by_users = users, by_channels = channels\<rparr>"
    using assms by (auto simp: boot_keys_wire_def rbind_Inr_iff)
  have "\<not> sg_multisign g \<and> (\<exists>s. sg_slot g = Some s \<and> length (tr_key_packages s) \<le> 1)" if "users = Some g \<or> channels = Some g" for g
    using that wire_signer_single u ch by metis
  then show ?thesis by (simp add: y)
qed

lemma distributed_keys_no_signer:
  assumes "boot_keys_distributed e n t port st = (Inr y, st')"
  shows "by_users y = None \<and> by_channels y = None"
  using assms by (auto simp: boot_keys_distributed_def split: prod.splits sum.splits)

text \<open>C39: Outside the laboratory no vault holds more than its own share: a boot that succeeds in a build without the
  dealer, or hardened, or in a staging or production ceremony, has no in-process reshare, and its Taproot
  signers hold at most one key package each and may not sign with several in one process; in a staging or
  production ceremony the keys come from the wire ceremony, and there is no intent keyset in the process.\<close>

theorem boot_isolates_shares:
  assumes "boot f e c d = (Inr rt, d')"
    and "\<not> cf_dealer_lab f \<or> vc_hardened c \<or> vc_ceremony c \<noteq> CerLab"
  shows "\<not> bm_in_process (rt_mesh rt) \<and>
    (\<forall>g. by_users (rt_keys rt) = Some g \<or> by_channels (rt_keys rt) = Some g \<longrightarrow>
       \<not> sg_multisign g \<and> (\<exists>s. sg_slot g = Some s \<and> length (tr_key_packages s) \<le> 1)) \<and>
    (vc_ceremony c \<noteq> CerLab \<longrightarrow> by_mode (rt_keys rt) = DistributedWire \<and> by_frost (rt_keys rt) = None)"
proof -
  obtain d1 where core: "boot_core_of f e c = Inr (rt_core rt)" and mesh: "boot_mesh_of e c (rt_core rt) = Inr (rt_mesh rt)"
    and keys: "boot_keys_of f e c (length (bk_roster (rt_core rt))) (signing_t (bk_constitution (rt_core rt)))
           (boot_port e (rt_store rt)) d1 = (Inr (rt_keys rt), d')"
    using boot_stages [OF assms(1)] by blast
  note guard = boot_core_parts(1) [OF core]
  let ?port = "boot_port e (rt_store rt)"
  have m: "bm_in_process (rt_mesh rt) = boot_in_process c" using boot_mesh_parts(1) [OF mesh] .
  have wire: "boot_keys_wire e c (?port 0) d1 = Inr (rt_keys rt) \<or>
      (\<exists>n t. boot_keys_distributed e n t (?port 0) d1 = (Inr (rt_keys rt), d')) \<and> vc_ceremony c = CerLab \<or>
      rt_keys rt = \<lparr>by_mode = DkgDistributed, by_frost = None, by_users = None, by_channels = None\<rparr> \<and> vc_ceremony c = CerLab"
    using keys assms(2) boot_guard_ceremony [OF guard]
    by (cases "vc_ceremony c = CerLab"; cases "vc_dkg c")
      (auto simp: boot_keys_of_def boot_keys_lab_build_def boot_keys_plain_build_def split: if_splits)
  have p: "\<not> boot_in_process c"
  proof (cases "vc_dkg c = DealerLab")
    case True
    then have "cf_dealer_lab f" using keys by (auto simp: boot_keys_of_def boot_keys_plain_build_def split: if_splits)
    then show ?thesis using assms(2) by (auto simp: boot_in_process_def)
  qed (simp add: boot_in_process_def)
  from wire show ?thesis
  proof (elim disjE)
    assume "boot_keys_wire e c (?port 0) d1 = Inr (rt_keys rt)"
    from wire_keys_single [OF this] m p show ?thesis by simp
  next
    assume "(\<exists>n t. boot_keys_distributed e n t (?port 0) d1 = (Inr (rt_keys rt), d')) \<and> vc_ceremony c = CerLab"
    then show ?thesis using distributed_keys_no_signer m p by fastforce
  next
    assume "rt_keys rt = \<lparr>by_mode = DkgDistributed, by_frost = None, by_users = None, by_channels = None\<rparr> \<and> vc_ceremony c = CerLab"
    then show ?thesis using m p by simp
  qed
qed

section \<open>The mesh\<close>

lemma boot_base_https:
  assumes "vc_auth c = AuthMtls" "(i, b) \<in> set (boot_peer_bases c)"
  shows "prefix ''https://'' b"
  using assms by (auto simp: boot_peer_bases_def peer_base_url_def)

lemma boot_transport_mtls:
  assumes "boot_transport e c j us = Inr t" "vc_auth c = AuthMtls"
  shows "wt_peers t = us \<and> wt_token t = None \<and> (\<exists>cfg. wt_tls t = Some cfg)"
  using assms by (auto simp: boot_transport_def with_mtls_def rbind_Inr_iff)

lemma boot_hub_mtls: "boot_hub e c act j = Inr h \<Longrightarrow> dh_mtls h = (vc_auth c = AuthMtls)"
  by (auto simp: boot_hub_def rbind_Inr_iff)

text \<open>Under mutual TLS nothing leaves the vault in the clear: every peer address starts with the https scheme, and the
  transports of session prepares, intent prepares, day votes and co-signing carry a client TLS configuration
  and no token, whatever the seed peers look like.\<close>

theorem boot_mesh_private:
  assumes "boot f e c d = (Inr rt, d')" "vc_auth c = AuthMtls"
  shows "(\<forall>u\<in>set (wt_peers (qn_transport (bm_nonce (rt_mesh rt)))) \<union> set (wt_peers (qi_transport (bm_intents (rt_mesh rt)))).
            prefix ''https://'' u) \<and>
    (\<forall>t. t = qn_transport (bm_nonce (rt_mesh rt)) \<or> t = qi_transport (bm_intents (rt_mesh rt)) \<longrightarrow>
       wt_token t = None \<and> wt_tls t \<noteq> None) \<and>
    (\<forall>t. bm_day (rt_mesh rt) = Some t \<or> bm_cosign (rt_mesh rt) = Some t \<longrightarrow>
       wt_token t = None \<and> wt_tls t \<noteq> None \<and> (\<forall>(i, u)\<in>set (wt_peers t). prefix ''https://'' u)) \<and>
    dh_mtls (bm_dkg_hub (rt_mesh rt)) \<and> dh_mtls (bm_tr_hub (rt_mesh rt))"
proof -
  let ?b = "boot_peer_bases c" and ?m = "rt_mesh rt"
  have mesh: "boot_mesh_of e c (rt_core rt) = Inr ?m" using boot_stages [OF assms(1)] by blast
  note t = boot_mesh_parts [OF this]
  have h: "dh_mtls (bm_dkg_hub ?m)" "dh_mtls (bm_tr_hub ?m)" using boot_hub_mtls [OF t(7)] boot_hub_mtls [OF t(8)] assms(2) by simp_all
  have pre: "prefix ''https://'' (b @ w)" if "(i, b) \<in> set ?b" for i b w
    using boot_base_https [OF assms(2) that] by (auto simp: prefix_def)
  have n: "wt_token (qn_transport (bm_nonce ?m)) = None \<and> wt_tls (qn_transport (bm_nonce ?m)) \<noteq> None \<and> (\<forall>u\<in>set (wt_peers (qn_transport (bm_nonce ?m))). prefix ''https://'' u)"
    using boot_transport_mtls [OF t(3) assms(2)] pre by auto
  have i: "wt_token (qi_transport (bm_intents ?m)) = None \<and> wt_tls (qi_transport (bm_intents ?m)) \<noteq> None \<and> (\<forall>u\<in>set (wt_peers (qi_transport (bm_intents ?m))). prefix ''https://'' u)"
    using boot_transport_mtls [OF t(4) assms(2)] pre by auto
  have dy: "wt_token x = None \<and> wt_tls x \<noteq> None \<and> (\<forall>(i, u)\<in>set (wt_peers x). prefix ''https://'' u)" if "bm_day ?m = Some x" for x
  proof -
    have "boot_transport e c 2 (map (\<lambda>(i, b). (i, b @ ''/v1/day/vote'')) ?b) = Inr x" using t(5) that by simp
    from boot_transport_mtls [OF this assms(2)] pre show ?thesis by auto
  qed
  have co: "wt_token x = None \<and> wt_tls x \<noteq> None \<and> (\<forall>(i, u)\<in>set (wt_peers x). prefix ''https://'' u)" if "bm_cosign ?m = Some x" for x
  proof -
    have "boot_transport e c 3 ?b = Inr x" using t(6) that by simp
    from boot_transport_mtls [OF this assms(2)] boot_base_https [OF assms(2)] show ?thesis by auto
  qed
  have all: "\<forall>u\<in>set (wt_peers (qn_transport (bm_nonce ?m))) \<union> set (wt_peers (qi_transport (bm_intents ?m))). prefix ''https://'' u"
    using n i by blast
  have tr: "\<forall>t. t = qn_transport (bm_nonce ?m) \<or> t = qi_transport (bm_intents ?m) \<longrightarrow> wt_token t = None \<and> wt_tls t \<noteq> None"
    using n i by metis
  have dc: "\<forall>t. bm_day ?m = Some t \<or> bm_cosign ?m = Some t \<longrightarrow>
       wt_token t = None \<and> wt_tls t \<noteq> None \<and> (\<forall>(i, u)\<in>set (wt_peers t). prefix ''https://'' u)"
    using dy co by metis
  show ?thesis by (intro conjI all tr dc h)
qed

section \<open>Seats and quorums\<close>

lemma boot_constitution_sizes:
  assumes "boot_constitution sha c n = Inr k"
  shows "signing_n k = n \<and> signing_t k = quorum_two_thirds n \<and> 2 \<le> n"
  using assms
  by (auto simp: boot_constitution_def rbind_Inr_iff v1_lab_def v1_open_def Let_def with_payout_frequency_def
      with_measurement_pin_def ensure_measurement_pin_def seal_hash_def genesis_base_def split: if_splits option.splits)

text \<open>The sizes of the key: the roster shares it, two thirds sign.\<close>

lemma boot_group:
  assumes "boot f e c d = (Inr rt, d')"
  shows "gk_n (tv_group (bk_threshold (rt_core rt))) = length (bk_roster (rt_core rt))"
    "gk_t (tv_group (bk_threshold (rt_core rt))) = signing_t (bk_constitution (rt_core rt))"
    "signing_n (bk_constitution (rt_core rt)) = length (bk_roster (rt_core rt))"
    "2 * length (bk_roster (rt_core rt)) \<le> 3 * signing_t (bk_constitution (rt_core rt))"
    "signing_t (bk_constitution (rt_core rt)) \<le> length (bk_roster (rt_core rt))" "2 \<le> length (bk_roster (rt_core rt))"
    "ks_node (tv_local (bk_threshold (rt_core rt))) = vc_node_id c"
    "tv_local (bk_threshold (rt_core rt)) \<in> set (tv_all (bk_threshold (rt_core rt)))"
proof -
  let ?k = "rt_core rt"
  have core: "boot_core_of f e c = Inr ?k" using boot_stages [OF assms] by blast
  note p = boot_core_parts [OF core]
  note sz = boot_constitution_sizes [OF p(3)]
  obtain g shares s where dkg: "run_dkg (be_sha e) (bk_roster ?k) (signing_t (bk_constitution ?k)) (boot_entropy c (bk_roster ?k)) = Inr (g, shares)"
    and s: "List.find (\<lambda>s. ks_node s = vc_node_id c) shares = Some s" and v: "bk_threshold ?k = threshold_vault_new g s shares"
    using p(4) by (auto simp: boot_threshold_def rbind_Inr_iff threshold_err_def split: option.splits)
  have g: "gk_n g = length (bk_roster ?k)" "gk_t g = signing_t (bk_constitution ?k)"
    using dkg by (auto simp: run_dkg_def Let_def rbind_Inr_iff split: if_splits)
  have l: "ks_node s = vc_node_id c" "s \<in> set shares" using s by (auto simp: find_Some_iff)
  have le: "quorum_two_thirds (length (bk_roster ?k)) \<le> length (bk_roster ?k)"
    by (rule quorum_two_thirds_le) (use sz in linarith)
  show "gk_n (tv_group (bk_threshold ?k)) = length (bk_roster ?k)" "gk_t (tv_group (bk_threshold ?k)) = signing_t (bk_constitution ?k)"
    "signing_n (bk_constitution ?k) = length (bk_roster ?k)"
    "2 * length (bk_roster ?k) \<le> 3 * signing_t (bk_constitution ?k)" "2 \<le> length (bk_roster ?k)"
    "signing_t (bk_constitution ?k) \<le> length (bk_roster ?k)"
    "ks_node (tv_local (bk_threshold ?k)) = vc_node_id c" "tv_local (bk_threshold ?k) \<in> set (tv_all (bk_threshold ?k))"
    using sz g l quorum_two_thirds_bounds(1) [of "length (bk_roster ?k)"] le
    by (auto simp: v threshold_vault_new_def)
qed


text \<open>The day vote, the prepares and the co-signing go to every configured peer, also to those the seating has cut.\<close>

lemma waiting_peers_are_asked:
  assumes "boot f e c d = (Inr rt, d')" "(i, addr) \<in> set (vc_seed_peers c)" "i \<notin> set (bk_roster (rt_core rt))"
  shows "\<exists>t u. bm_day (rt_mesh rt) = Some t \<and> (i, u) \<in> set (wt_peers t)"
proof -
  have mesh: "boot_mesh_of e c (rt_core rt) = Inr (rt_mesh rt)" using boot_stages [OF assms(1)] by blast
  have ne: "boot_peer_bases c \<noteq> []" using assms(2) by (auto simp: boot_peer_bases_def)
  obtain t where t: "boot_transport e c 2 (map (\<lambda>(i, b). (i, b @ ''/v1/day/vote'')) (boot_peer_bases c)) = Inr t"
    "bm_day (rt_mesh rt) = Some t"
    using boot_mesh_parts(5) [OF mesh] ne by (auto split: option.splits)
  have "wt_peers t = map (\<lambda>(i, b). (i, b @ ''/v1/day/vote'')) (boot_peer_bases c)"
    using t(1) by (auto simp: boot_transport_def with_mtls_def with_peer_http_def rbind_Inr_iff split: auth_mode.splits)
  moreover have "(i, peer_base_url addr (vc_auth c = AuthMtls)) \<in> set (boot_peer_bases c)"
    using assms(2) by (force simp: boot_peer_bases_def)
  ultimately show ?thesis using t(2) by force
qed

section \<open>A production ceremony boots\<close>

definition demo_boot_config :: vault_config where
  "demo_boot_config = ceremony_config\<lparr>vc_measurement_pin := Some (replicate 64 (CHR ''a'')), vc_token := Some ''operator''\<rparr>"

definition demo_boot_env :: boot_env where
  "demo_boot_env =
     \<lparr>be_sha = demo_sha, be_env = ceremony_env, be_now = 0, be_tpm_feature = False, be_tpm_device = False,
      be_tpm_boot = \<lparr>tb_read = None, tb_write = EnvOk, tb_salt = [], tb_nonce = []\<rparr>, be_seal = demo_seal,
      be_device_key = Inr [], be_attest = Inr (), be_fresh = (\<lambda>_. demo_fresh), be_read_why = [],
      be_release = \<lparr>rs_mesh = mesh_new (release_lab_default 2), rs_meta = None, rs_blob_files = [], rs_outcomes = []\<rparr>,
      be_economy = Inr \<lparr>es_state = economy_new_open, es_file = None\<rparr>, be_identity = Inl InvalidNodeId,
      be_intent_log = [], be_session_log = [], be_day_disk = None, be_tls = (\<lambda>_. Inr ''client''), be_hub = (\<lambda>_. Inr ()),
      be_tr = cosign_demo_crypto, be_packages = demo_packages, be_dkg = lab_dkg_demo,
      be_dealer = \<lparr>dl_generate = (\<lambda>_ _ _. None), dl_key = Some, dl_even_key = (\<lambda>k. k), dl_even_pub = (\<lambda>p. p), dl_why = []\<rparr>,
      be_random = (\<lambda>_. [])\<rparr>"

lemmas demo_boot_records = demo_boot_config_def ceremony_records

lemma demo_boot_values [simp]:
  "vc_node_id demo_boot_config = ''v1''" "vc_seed_peers demo_boot_config = [(''v2'', ''b.onion'')]"
  "vc_auth demo_boot_config = AuthMtls" "vc_ceremony demo_boot_config = CerProduction"
  "vc_dkg demo_boot_config = DistributedWire" "vc_store demo_boot_config = AeadDisk"
  "\<not> vc_tpm_seal demo_boot_config" "vc_passphrase demo_boot_config = Some ''pass''"
  "\<not> vc_dealer_requested demo_boot_config" "vc_attestation demo_boot_config = AttSoftware"
  "vc_measurement_pin demo_boot_config = Some (replicate 64 (CHR ''a''))" "\<not> vc_open_economy demo_boot_config"
  "vc_users_allowlist demo_boot_config = []" "vc_miners_allowlist demo_boot_config = []"
  "vc_genesis_n demo_boot_config = None" "vc_node_tier demo_boot_config = Domestic"
  "vc_peer_tiers demo_boot_config = []" "vc_peer_quotes demo_boot_config = []"
  by (simp_all add: demo_boot_records)

lemma demo_boot_env_values [simp]:
  "be_sha demo_boot_env = demo_sha" "be_env demo_boot_env = ceremony_env" "be_tls demo_boot_env = (\<lambda>_. Inr ''client'')"
  "be_hub demo_boot_env = (\<lambda>_. Inr ())" "be_tr demo_boot_env = cosign_demo_crypto"
  "be_packages demo_boot_env = demo_packages" "be_seal demo_boot_env = demo_seal" "be_fresh demo_boot_env = (\<lambda>_. demo_fresh)"
  "be_read_why demo_boot_env = []" "be_economy demo_boot_env = Inr \<lparr>es_state = economy_new_open, es_file = None\<rparr>"
  "rs_meta (be_release demo_boot_env) = None"
  by (simp_all add: demo_boot_env_def)

lemma demo_boot_identity [simp]: "require_mtls_client_identity demo_boot_config = Inr (''c'', ''k'', ''a'')"
  by (simp add: cfg_checks demo_boot_records nonempty_def str_eval)

lemma demo_boot_guard: "boot_guard plain_features demo_boot_env demo_boot_config = Inr ()"
proof -
  have h: "validate_hygiene plain_features ceremony_env demo_boot_config = Inr ()"
    by (simp add: validate_hygiene_def cfg_checks plain_features_def demo_boot_records tor_defaults_def ceremony_peer_onion str_eval
      is_lab_only_def is_tee_def tier_is_tee_def tier_is_domestic_def lab_passphrase_def nonempty_def)
  then show ?thesis using hygiene_parts(1) [OF h] by (simp add: boot_guard_def)
qed

lemma demo_boot_roster: "boot_roster demo_boot_config = Inr [''v1'', ''v2'']"
  by (simp add: boot_roster_def seat_genesis_def seating_candidates_def effective_genesis_n_def node_id_new_def peer_tier_def
      seat_genesis_by_tier_def seat_key_def str_eval)

lemma demo_splits: "splits_validate splits_lab_dry_run = Inr ()"
  by (simp add: splits_validate_def splits_sum_def splits_lab_dry_run_def sat_add_def)

lemma demo_boot_constitution:
  obtains k where "boot_constitution demo_sha demo_boot_config 2 = Inr k" "signing_n k = 2" "signing_t k = 2"
    "constitution_validate demo_sha k = Inr ()"
proof -
  have h: "list_all is_ascii_hexdigit (replicate 64 CHR ''a'')"
    by (auto simp: list_all_iff is_ascii_hexdigit_def code_def)
  obtain k0 where k0: "v1_lab demo_sha 2 = Inr k0" by (simp add: v1_lab_def demo_splits)
  let ?k = "with_payout_frequency demo_sha (vc_payout_frequency demo_boot_config)
    (with_measurement_pin (ascii_lower (replicate 64 CHR ''a'')) k0)"
  have b: "boot_constitution demo_sha demo_boot_config 2 = Inr ?k"
    using h by (simp add: boot_constitution_def k0 measurement_from_hex_def)
  have q: "quorum_two_thirds 2 = 2" by (simp add: quorum_two_thirds_def)
  have v: "signing_n ?k = 2" "signing_t ?k = 2" "constitution_validate demo_sha ?k = Inr ()"
    using k0 by (auto simp: v1_lab_def demo_splits Let_def genesis_base_def q with_payout_frequency_def with_measurement_pin_def
        seal_hash_def ensure_measurement_pin_def constitution_validate_def downgrade_validate_def downgrade_default_def
        compute_hash_def demo_sha_def)
  show ?thesis using b v by (rule that)
qed

lemma demo_boot_threshold: "\<exists>v. boot_threshold demo_sha demo_boot_config [''v1'', ''v2''] 2 = Inr v"
  by (simp add: boot_threshold_def run_dkg_def Let_def make_share_def share_index_new_def)

lemma demo_boot_core:
  obtains k where "boot_core_of plain_features demo_boot_env demo_boot_config = Inr k" "bk_roster k = [''v1'', ''v2'']"
proof -
  obtain k where k: "boot_constitution demo_sha demo_boot_config 2 = Inr k" "signing_n k = 2" "signing_t k = 2"
    "constitution_validate demo_sha k = Inr ()" by (rule demo_boot_constitution)
  obtain v where v: "boot_threshold demo_sha demo_boot_config [''v1'', ''v2''] 2 = Inr v" using demo_boot_threshold by blast
  obtain l where l: "ledger_genesis demo_sha k [''v1'', ''v2''] ''v1'' = Inr l"
    by (simp add: ledger_genesis_def epoch_genesis_def k Let_def)
  have "\<exists>r. boot_core_of plain_features demo_boot_env demo_boot_config = Inr r"
    by (simp add: boot_core_of_def demo_boot_guard demo_boot_roster k [unfolded numeral_2_eq_2] v [unfolded numeral_2_eq_2] l
      node_id_new_def str_eval boot_attestation_of_def release_open_def boot_auth_def Let_def boot_buckets_def admit_if_any_def)
  then obtain r where r: "boot_core_of plain_features demo_boot_env demo_boot_config = Inr r" by blast
  show ?thesis by (rule that [OF r]) (use boot_core_parts(2) [OF r] demo_boot_roster in simp)
qed

lemma demo_boot_mesh: "\<exists>m. boot_mesh_of demo_boot_env demo_boot_config k = Inr m"
  by (simp add: boot_mesh_of_def boot_transport_def with_mtls_def boot_hub_def Let_def boot_peer_bases_def)

definition demo_boot_store :: boot_store where
  "demo_boot_store =
     BootAead \<lparr>ad_root = path_join (effective_data_dir demo_boot_config) ''shares'', ad_pass = ''pass'', ad_tpm = False\<rparr>"

lemma demo_boot_store: "boot_share_store plain_features demo_boot_env demo_boot_config m d = (Inr demo_boot_store, d)"
  by (simp add: boot_share_store_def boot_aead_def Let_def effective_share_passphrase_def demo_boot_store_def)

text \<open>The disk of a vault that has sealed its share in an earlier ceremony.\<close>

lemma demo_boot_keys:
  obtains d s where "boot_keys_wire demo_boot_env demo_boot_config (boot_port demo_boot_env demo_boot_store 0) d = Inr s"
    "by_users s = Some (boot_signer demo_boot_config False demo_share)"
proof -
  let ?a = "\<lparr>ad_root = path_join (effective_data_dir demo_boot_config) ''shares'', ad_pass = ''pass'', ad_tpm = False\<rparr>"
  let ?port = "aead_port demo_seal ?a demo_fresh []"
  let ?I = "insert ''frost-tr-channels-roster'' (fst ` set (tr_files users_names demo_share))"
  have port: "boot_port demo_boot_env demo_boot_store 0 = ?port"
    by (simp add: boot_port_def demo_boot_store_def)
  have laws: "share_laws ?port I" for I by (rule aead_laws [OF demo_seal_ok(1,3,4)])
  obtain d where d: "persist_tr_shares users_names ?port demo_share Map.empty = (Inr (), d)"
    by (simp add: persist_tr_shares_def tr_files_def demo_share_def aead_port_def demo_fresh_def aead_put_def put_file_def)
  have can: "tr_canonical cosign_demo_crypto demo_packages demo_share" "ascii_is_utf8 demo_packages"
    by (simp_all add: tr_canonical_def demo_share_def demo_packages_def cosign_demo_crypto_def ascii_is_utf8_def bt_ok_Cons)
  have u: "load_tr_shares cosign_demo_crypto demo_packages users_names ?port d = Inr demo_share"
    by (rule load_after_persist [OF laws can d])
  have "sp_get ?port ''frost-tr-channels-roster'' d = sp_get ?port ''frost-tr-channels-roster'' Map.empty"
  proof -
    have ok: "bt_ok (tr_key_packages demo_share)" using can(1) by (simp add: tr_canonical_def)
    have out: "''frost-tr-channels-roster'' \<in> ?I - fst ` set (tr_files users_names demo_share)"
      by (simp add: tr_files_def demo_share_def users_names_def key_name_def)
    from put_all_spec [OF laws _ tr_files_distinct [OF ok] d [unfolded persist_tr_shares_def], of ?I] out show ?thesis by blast
  qed
  then have ch: "\<exists>e. load_tr_shares cosign_demo_crypto demo_packages channels_names ?port d = Inl e"
    by (simp add: load_tr_shares_def channels_names_def aead_port_def aead_get_def forbidden_def)
  show ?thesis
    by (rule that [of d]) (use u ch in \<open>auto simp: boot_keys_wire_def boot_wire_signer_def port demo_share_def\<close>)
qed

lemma demo_boots:
  obtains d rt d' where "boot plain_features demo_boot_env demo_boot_config d = (Inr rt, d')"
    "by_users (rt_keys rt) = Some (boot_signer demo_boot_config False demo_share)"
proof -
  obtain k where k: "boot_core_of plain_features demo_boot_env demo_boot_config = Inr k" by (rule demo_boot_core)
  obtain m where m: "boot_mesh_of demo_boot_env demo_boot_config k = Inr m" using demo_boot_mesh by blast
  obtain d s where s: "boot_keys_wire demo_boot_env demo_boot_config (boot_port demo_boot_env demo_boot_store 0) d = Inr s"
    "by_users s = Some (boot_signer demo_boot_config False demo_share)" by (rule demo_boot_keys)
  have ks: "boot_keys_of plain_features demo_boot_env demo_boot_config n t (boot_port demo_boot_env demo_boot_store) d = (Inr s, d)" for n t
    by (simp add: boot_keys_of_def boot_keys_plain_build_def plain_features_def s)
  have b: "boot plain_features demo_boot_env demo_boot_config d =
    (Inr \<lparr>rt_core = k, rt_store = demo_boot_store, rt_mesh = m, rt_keys = s, rt_health = boot_health demo_boot_config k m\<rparr>, d)"
    by (simp add: boot_def k demo_boot_store m ks)
  show ?thesis by (rule that [OF b]) (simp add: s)
qed

theorem boot_isolates_shares_witness:
  "\<exists>d rt d' g. boot plain_features demo_boot_env demo_boot_config d = (Inr rt, d') \<and> by_users (rt_keys rt) = Some g \<and>
     \<not> sg_multisign g \<and> by_mode (rt_keys rt) = DistributedWire \<and> \<not> bm_in_process (rt_mesh rt)"
proof -
  obtain d rt d' where b: "boot plain_features demo_boot_env demo_boot_config d = (Inr rt, d')"
    "by_users (rt_keys rt) = Some (boot_signer demo_boot_config False demo_share)" by (rule demo_boots)
  have c: "vc_ceremony demo_boot_config \<noteq> CerLab" by simp
  from boot_isolates_shares [OF b(1) disjI2 [OF disjI2 [OF c]]] b c show ?thesis by blast
qed

theorem boot_mesh_private_witness:
  "\<exists>d rt d' u. boot plain_features demo_boot_env demo_boot_config d = (Inr rt, d') \<and>
     u \<in> set (wt_peers (qn_transport (bm_nonce (rt_mesh rt)))) \<and> prefix ''https://'' u \<and> dh_mtls (bm_dkg_hub (rt_mesh rt))"
proof -
  obtain d rt d' where b: "boot plain_features demo_boot_env demo_boot_config d = (Inr rt, d')" by (rule demo_boots)
  obtain d1 where "boot_mesh_of demo_boot_env demo_boot_config (rt_core rt) = Inr (rt_mesh rt)" using boot_stages [OF b] by blast
  from boot_transport_mtls [OF boot_mesh_parts(3) [OF this]]
  obtain u where "u \<in> set (wt_peers (qn_transport (bm_nonce (rt_mesh rt))))"
    by (auto simp: boot_peer_bases_def)
  moreover have "vc_auth demo_boot_config = AuthMtls" by simp
  ultimately show ?thesis using boot_mesh_private [OF b] b by blast
qed


end
