(* ===== verification/AdminApi.thy ===== *)
theory AdminApi
  imports BootProps CivilDate Signer
begin

text \<open>
  The read-only administration of a vault that has booted (\<open>application/admin.rs\<close>, \<open>adapters/admin_api.rs\<close>): the
  answers, the identifiers of a request, and the token and header middlewares around them.  The contract version
  belongs to another crate and is an argument; so are clock readings (nanoseconds since 1970, none before it),
  what the network answers to a probe, and the two build features the configuration does not have.
\<close>

section \<open>Answers\<close>

datatype admin_value = AdText string | AdNum nat | AdFlag bool | AdTexts "string list"

record admin_service =
  as_config :: vault_config
  as_runtime :: vault_runtime

record vault_admin_status =
  vs_contract :: string
  vs_request :: string
  vs_local_ready :: bool
  vs_financial_ready :: bool
  vs_node :: string
  vs_ceremony :: string
  vs_network :: string

record node_admin_status =
  ns_contract :: string
  ns_request :: string
  ns_network_id :: string
  ns_plane :: string
  ns_local_ready :: bool
  ns_member_ready :: bool
  ns_quorum_ready :: bool
  ns_financial_ready :: bool
  ns_live_members :: u64
  ns_threshold :: u16

definition admin_online :: "(string \<Rightarrow> bool) \<Rightarrow> (string \<Rightarrow> bool) \<Rightarrow> admin_service \<Rightarrow> nat" where
  "admin_online dial answers s =
     online_count dial answers (bk_peers (rt_core (as_runtime s))) (bm_online (rt_mesh (as_runtime s)))"

definition admin_group :: "admin_service \<Rightarrow> group_key" where
  "admin_group s = tv_group (bk_threshold (rt_core (as_runtime s)))"

definition admin_status :: "string \<Rightarrow> nat \<Rightarrow> admin_service \<Rightarrow> string \<Rightarrow> vault_admin_status" where
  "admin_status version online s req =
     \<lparr>vs_contract = version, vs_request = req, vs_local_ready = True,
      vs_financial_ready = (gk_t (admin_group s) \<le> online), vs_node = vc_node_id (as_config s),
      vs_ceremony = ceremony_str (vc_ceremony (as_config s)), vs_network = network_str (vc_network (as_config s))\<rparr>"

definition admin_health :: "string \<Rightarrow> nat \<Rightarrow> admin_service \<Rightarrow> string \<Rightarrow> node_admin_status" where
  "admin_health version online s req =
     (let t = gk_t (admin_group s) in
      \<lparr>ns_contract = version, ns_request = req, ns_network_id = vc_node_id (as_config s), ns_plane = ''Vault'',
       ns_local_ready = True, ns_member_ready = (0 < online), ns_quorum_ready = (t \<le> online),
       ns_financial_ready = (t \<le> online), ns_live_members = word_of_nat online, ns_threshold = word_of_nat t\<rparr>)"

text \<open>The fields of a JSON object; serializing sorts them by name.\<close>

definition admin_roster :: "string \<Rightarrow> nat \<Rightarrow> admin_service \<Rightarrow> string \<Rightarrow> (string \<times> admin_value) list" where
  "admin_roster version online s req =
     (let g = admin_group s; k = rt_core (as_runtime s) in
      [(''contract_version'', AdText version), (''request_id'', AdText req),
       (''node_id'', AdText (vc_node_id (as_config s))), (''genesis_roster'', AdTexts (bk_roster k)),
       (''n'', AdNum (gk_n g)), (''t'', AdNum (gk_t g)), (''online'', AdNum online),
       (''peer_count'', AdNum (case list_peers (bk_peers k) of Inr ps \<Rightarrow> length ps | Inl _ \<Rightarrow> 0)),
       (''threshold_met'', AdFlag (gk_t g \<le> online))])"

definition admin_ceremony :: "string \<Rightarrow> nat \<Rightarrow> admin_service \<Rightarrow> string \<Rightarrow> (string \<times> admin_value) list" where
  "admin_ceremony version online s req =
     (let g = admin_group s; c = as_config s; rt = as_runtime s in
      [(''contract_version'', AdText version), (''request_id'', AdText req),
       (''ceremony_mode'', AdText (ceremony_str (vc_ceremony c))), (''dkg_mode'', AdText (dkg_mode_str (vc_dkg c))),
       (''attestation_mode'', AdText (attestation_str (vc_attestation c))), (''tee_available'', AdFlag (vc_tee_available c)),
       (''node_tier'', AdText (tier_str (vc_node_tier c))), (''n'', AdNum (gk_n g)), (''t'', AdNum (gk_t g)),
       (''online'', AdNum online), (''genesis_members'', AdNum (length (bk_roster (rt_core rt)))),
       (''frost_installed'', AdFlag (by_frost (rt_keys rt) \<noteq> None)),
       (''frost_tr_installed'', AdFlag (by_users (rt_keys rt) \<noteq> None)),
       (''frost_tr_channels_installed'', AdFlag (by_channels (rt_keys rt) \<noteq> None)),
       (''bitcoin_network'', AdText (network_str (vc_network c))), (''auth_mode'', AdText (auth_mode_str (vc_auth c))),
       (''share_store_mode'', AdText (store_mode_str (vc_store c))), (''hardened'', AdFlag (vc_hardened c)),
       (''open_economy'', AdFlag (vc_open_economy c))])"

definition build_feature_list :: "cfg_features \<Rightarrow> bool \<Rightarrow> bool \<Rightarrow> string list" where
  "build_feature_list f hybrid tpm =
     map fst (filter snd [(''production'', cf_production f), (''dealer_lab'', cf_dealer_lab f), (''hybrid'', hybrid),
       (''tee_hw'', cf_tee_hw f), (''tpm'', tpm)])"

definition admin_compatibility :: "string \<Rightarrow> string list \<Rightarrow> admin_service \<Rightarrow> string \<Rightarrow> (string \<times> admin_value) list" where
  "admin_compatibility version features s req =
     (let c = as_config s in
      [(''contract_version'', AdText version), (''request_id'', AdText req), (''admin_api_version'', AdText ''0.1.0''),
       (''node_id'', AdText (vc_node_id c)), (''ceremony_mode'', AdText (ceremony_str (vc_ceremony c))),
       (''node_tier'', AdText (tier_str (vc_node_tier c))), (''attestation_mode'', AdText (attestation_str (vc_attestation c))),
       (''dkg_mode'', AdText (dkg_mode_str (vc_dkg c))), (''signing_scheme'', AdText ''frost-secp256k1''),
       (''bitcoin_network'', AdText (network_str (vc_network c))), (''features'', AdTexts features),
       (''transport'', AdText (transport_str (vc_transport c)))])"

section \<open>Identifiers\<close>

type_synonym clock_nanos = "nat option"

definition nanos_of :: "clock_nanos \<Rightarrow> nat" where
  "nanos_of now = (case now of Some n \<Rightarrow> n | None \<Rightarrow> 0)"

definition fallback_request_id :: "clock_nanos \<Rightarrow> string" where
  "fallback_request_id now = ''vault-admin-'' @ hex_num (nanos_of now)"

definition resolve_request_id :: "clock_nanos \<Rightarrow> string option \<Rightarrow> string" where
  "resolve_request_id now header =
     (case header of
        Some v \<Rightarrow> let t = trim v in if t \<noteq> [] \<and> length t \<le> 128 then t else fallback_request_id now
      | None \<Rightarrow> fallback_request_id now)"

text \<open>Four bytes of the clock, the lowest first.\<close>

definition rand_byte_prefix :: "clock_nanos \<Rightarrow> string" where
  "rand_byte_prefix now = hex_encode (le_enc 4 (nanos_of now))"

record audit_reference =
  au_event :: string
  au_request :: string
  au_occurred :: string

text \<open>The clock is read three times: in milliseconds, in nanoseconds, and for the date.\<close>

definition audit_reference_of :: "clock_nanos \<Rightarrow> clock_nanos \<Rightarrow> clock_nanos \<Rightarrow> string \<Rightarrow> audit_reference" where
  "audit_reference_of n1 n2 n3 req =
     \<lparr>au_event = ''vault-admin-'' @ hex_num (nanos_of n1 div 1000000) @ ''-'' @ rand_byte_prefix n2, au_request = req,
      au_occurred = iso_timestamp (word_of_nat (nanos_of n3 div 1000000000)) (nanos_of n3 mod 1000000000)\<rparr>"

section \<open>Errors\<close>

record admin_envelope =
  ae_contract :: string
  ae_code :: string
  ae_message :: string
  ae_request :: string

definition admin_error :: "string \<Rightarrow> string \<Rightarrow> string \<Rightarrow> string \<Rightarrow> admin_envelope" where
  "admin_error version req c msg = \<lparr>ae_contract = version, ae_code = c, ae_message = msg, ae_request = req\<rparr>"

definition admin_error_json :: "admin_envelope \<Rightarrow> nat \<times> admin_envelope" where
  "admin_error_json e =
     (if ae_code e = ''UNAUTHORIZED'' then 401 else if ae_code e = ''FORBIDDEN'' then 403
      else if ae_code e = ''NOT_FOUND'' then 404 else if ae_code e = ''TOO_LARGE'' then 413
      else if ae_code e = ''TOO_MANY_REQUESTS'' then 429 else if ae_code e = ''SERVICE_UNAVAILABLE'' then 503
      else 500, e)"

definition check_dealer_lab_gate :: "string \<Rightarrow> cfg_features \<Rightarrow> string \<Rightarrow> nat \<times> admin_envelope + unit" where
  "check_dealer_lab_gate version f req =
     (if cf_production f \<and> cf_dealer_lab f
      then Inl (admin_error_json (admin_error version req ''FORBIDDEN'' ''dealer_lab is not permitted in production builds''))
      else Inr ())"

definition validate_admin_request_path :: "string \<Rightarrow> string \<Rightarrow> string \<Rightarrow> nat \<times> admin_envelope + unit" where
  "validate_admin_request_path version path req =
     (if 256 < length path
      then Inl (admin_error_json (admin_error version req ''TOO_LARGE''
             (''request path too long ('' @ dec (length path) @ '' bytes)'')))
      else if str_contains ''..'' path
      then Inl (admin_error_json (admin_error version req ''FORBIDDEN'' ''path traversal detected''))
      else if CHR 0x00 \<in> set path
      then Inl (admin_error_json (admin_error version req ''FORBIDDEN'' ''null byte in request path''))
      else Inr ())"

section \<open>The router\<close>

record admin_state =
  ad_service :: admin_service
  ad_token :: string

text \<open>Without a token the construction panics.\<close>

definition build_admin_router :: "admin_service \<Rightarrow> admin_state option" where
  "build_admin_router s =
     (case effective_vault_token (as_config s) of
        Some t \<Rightarrow> Some \<lparr>ad_service = s, ad_token = t\<rparr>
      | None \<Rightarrow> None)"

datatype admin_route = RouteStatus | RouteHealth | RouteRoster | RouteCeremony | RouteCompatibility | RouteAudit

definition admin_route_of :: "string \<Rightarrow> admin_route option" where
  "admin_route_of path =
     map_of [(''/admin/status'', RouteStatus), (''/admin/health'', RouteHealth), (''/admin/roster'', RouteRoster),
       (''/admin/ceremony'', RouteCeremony), (''/admin/compatibility'', RouteCompatibility),
       (''/admin/audit-reference'', RouteAudit)] path"

datatype admin_body =
    BodyStatus vault_admin_status | BodyHealth node_admin_status | BodyObject "(string \<times> admin_value) list"
  | BodyAudit audit_reference

text \<open>What one request meets: its two headers, the clock readings, the probe, and the build.\<close>

record admin_call =
  ac_token :: "string option"
  ac_request :: "string option"
  ac_clock :: "nat \<Rightarrow> clock_nanos"
  ac_online :: nat
  ac_version :: string
  ac_features :: "string list"

record admin_response =
  rs_code :: nat
  rs_headers :: "(string \<times> string) list"
  rs_body :: admin_body

definition admin_handler :: "admin_call \<Rightarrow> admin_route \<Rightarrow> admin_service \<Rightarrow> admin_body" where
  "admin_handler a r s =
     (let req = resolve_request_id (ac_clock a 0) (ac_request a) in
      case r of
        RouteStatus \<Rightarrow> BodyStatus (admin_status (ac_version a) (ac_online a) s req)
      | RouteHealth \<Rightarrow> BodyHealth (admin_health (ac_version a) (ac_online a) s req)
      | RouteRoster \<Rightarrow> BodyObject (admin_roster (ac_version a) (ac_online a) s req)
      | RouteCeremony \<Rightarrow> BodyObject (admin_ceremony (ac_version a) (ac_online a) s req)
      | RouteCompatibility \<Rightarrow> BodyObject (admin_compatibility (ac_version a) (ac_features a) s req)
      | RouteAudit \<Rightarrow> BodyAudit (audit_reference_of (ac_clock a 1) (ac_clock a 2) (ac_clock a 3) req))"

definition require_admin_auth :: "admin_call \<Rightarrow> admin_state \<Rightarrow> (admin_service \<Rightarrow> admin_body) \<Rightarrow> nat \<times> admin_body" where
  "require_admin_auth a st handler =
     (if ac_token a = Some (ad_token st) then (200, handler (ad_service st))
      else (401, BodyObject [(''error'', AdText ''unauthorized: valid X-Vault-Token header required'')]))"

definition admin_security_headers :: "nat \<times> admin_body \<Rightarrow> admin_response" where
  "admin_security_headers r =
     \<lparr>rs_code = fst r,
      rs_headers = [(''x-content-type-options'', ''nosniff''), (''cache-control'', ''no-store''), (''x-frame-options'', ''DENY'')],
      rs_body = snd r\<rparr>"

text \<open>A GET of one of the routes.\<close>

definition admin_respond :: "admin_call \<Rightarrow> admin_route \<Rightarrow> admin_state \<Rightarrow> admin_response" where
  "admin_respond a r st = admin_security_headers (require_admin_auth a st (admin_handler a r))"

section \<open>What the answers say\<close>

lemma admin_needs_token:
  "rs_code (admin_respond a r st) = 200 \<longleftrightarrow> ac_token a = Some (ad_token st)"
  by (simp add: admin_respond_def admin_security_headers_def require_admin_auth_def)

lemma request_id_bounded:
  assumes "resolve_request_id now header = i"
  shows "i = fallback_request_id now \<or> i \<noteq> [] \<and> length i \<le> 128 \<and> (\<exists>v. header = Some v \<and> i = trim v)"
  using assms by (auto simp: resolve_request_id_def Let_def split: option.splits if_splits)

text \<open>An audit reference is made of the clock alone: two requests at the same time have the same event.\<close>

lemma audit_events_collide: "au_event (audit_reference_of n1 n2 n3 a) = au_event (audit_reference_of n1 n2 n3 b)"
  by (simp add: audit_reference_of_def)

lemma request_path_accepted:
  "validate_admin_request_path v path req = Inr () \<longleftrightarrow>
     length path \<le> 256 \<and> \<not> str_contains ''..'' path \<and> CHR 0x00 \<notin> set path"
  by (auto simp: validate_admin_request_path_def)

text \<open>The network id of the health answer is the id of the node.\<close>

lemma health_network_is_node: "ns_network_id (admin_health v m s req) = vc_node_id (as_config s)"
  by (simp add: admin_health_def Let_def)

text \<open>A vault behind mutual TLS that has no API token cannot start its administration.\<close>

lemma admin_panics_without_token:
  "vc_token (as_config s) = None \<Longrightarrow> vc_ceremony (as_config s) \<noteq> CerLab \<Longrightarrow> build_admin_router s = None"
  by (simp add: build_admin_router_def effective_vault_token_def)

text \<open>The administration of a vault that has booted reports the quorum it runs on: to a caller with the token, the
  status, health and roster answers agree that the vault is ready exactly when as many nodes are online as the
  key asks to sign, which is two thirds of the roster at least; the roster and its size are those of the boot, and the
  threshold shown is the key's, unless the roster has 65536 members or more.\<close>

theorem admin_reports_quorum:
  assumes "boot f e c d = (Inr rt, d')" "build_admin_router \<lparr>as_config = c, as_runtime = rt\<rparr> = Some st"
    and "ac_token a = Some (ad_token st)"
  shows "\<exists>t. t = gk_t (tv_group (bk_threshold (rt_core rt))) \<and> 2 * length (bk_roster (rt_core rt)) \<le> 3 * t \<and>
    (\<exists>v. rs_body (admin_respond a RouteStatus st) = BodyStatus v \<and> vs_financial_ready v = (t \<le> ac_online a)) \<and>
    (\<exists>v. rs_body (admin_respond a RouteHealth st) = BodyHealth v \<and> ns_quorum_ready v = (t \<le> ac_online a) \<and>
       ns_financial_ready v = (t \<le> ac_online a) \<and>
       (length (bk_roster (rt_core rt)) < 2 ^ 16 \<longrightarrow> unat (ns_threshold v) = t)) \<and>
    (\<exists>v. rs_body (admin_respond a RouteRoster st) = BodyObject v \<and>
       map_of v ''genesis_roster'' = Some (AdTexts (bk_roster (rt_core rt))) \<and>
       map_of v ''n'' = Some (AdNum (length (bk_roster (rt_core rt)))) \<and> map_of v ''t'' = Some (AdNum t) \<and>
       map_of v ''threshold_met'' = Some (AdFlag (t \<le> ac_online a)))"
proof -
  let ?g = "tv_group (bk_threshold (rt_core rt))" and ?n = "length (bk_roster (rt_core rt))"
  note g = boot_group [OF assms(1)]
  have st: "ad_service st = \<lparr>as_config = c, as_runtime = rt\<rparr>"
    using assms(2) by (auto simp: build_admin_router_def split: option.splits)
  have body: "rs_body (admin_respond a r st) = admin_handler a r (ad_service st)" for r
    using assms(3) by (simp add: admin_respond_def admin_security_headers_def require_admin_auth_def)
  have grp: "admin_group \<lparr>as_config = c, as_runtime = rt\<rparr> = ?g" by (simp add: admin_group_def)
  have fits: "unat (word_of_nat (gk_t ?g) :: u16) = gk_t ?g" if "?n < 2 ^ 16"
    using that g by (simp add: unsigned_of_nat take_bit_nat_eq_self)
  show ?thesis
    unfolding body
    by (intro exI [of _ "gk_t ?g"] conjI)
      (use g fits in \<open>simp_all add: admin_handler_def admin_status_def admin_health_def admin_roster_def grp Let_def st\<close>)
qed

theorem admin_reports_quorum_witness:
  "\<exists>d rt d' st a v. boot plain_features demo_boot_env demo_boot_config d = (Inr rt, d') \<and>
     build_admin_router \<lparr>as_config = demo_boot_config, as_runtime = rt\<rparr> = Some st \<and>
     rs_body (admin_respond a RouteStatus st) = BodyStatus v \<and> \<not> vs_financial_ready v"
proof -
  obtain d rt d' where b: "boot plain_features demo_boot_env demo_boot_config d = (Inr rt, d')" by (rule demo_boots)
  let ?st = "\<lparr>ad_service = \<lparr>as_config = demo_boot_config, as_runtime = rt\<rparr>, ad_token = ''operator''\<rparr>"
  let ?a = "\<lparr>ac_token = Some ''operator'', ac_request = None, ac_clock = (\<lambda>_. None), ac_online = 1, ac_version = ''1'', ac_features = []\<rparr>"
  have st: "build_admin_router \<lparr>as_config = demo_boot_config, as_runtime = rt\<rparr> = Some ?st"
    by (simp add: build_admin_router_def effective_vault_token_def demo_boot_config_def)
  obtain t v where t: "2 * length (bk_roster (rt_core rt)) \<le> 3 * t"
    and v: "rs_body (admin_respond ?a RouteStatus ?st) = BodyStatus v" "vs_financial_ready v = (t \<le> ac_online ?a)"
    using admin_reports_quorum [OF b st, of ?a] by auto
  have "\<not> vs_financial_ready v" using v(2) t boot_group(6) [OF b] by simp
  then show ?thesis using b st v(1) by blast
qed

end
