(* ===== verification/Envelope.thy ===== *)
theory Envelope
  imports DkgWire Identity
begin

text \<open>
  The adapter of the hybrid envelopes (\<open>adapters/hybrid_envelope.rs\<close>): the texts it binds a key and a context to,
  and the two operations, of which sealing always refuses and opening refuses after its checks.
\<close>

section \<open>Bound texts\<close>

record hybrid_context =
  hc_domain :: string
  hc_transcript :: string
  hc_suite :: string
  hc_sender :: string
  hc_receiver :: string
  hc_epoch :: string

text \<open>A length as four bytes, the highest first, cut to 32 bits.\<close>

definition be_length :: "string \<Rightarrow> string" where
  "be_length s = rev (le_enc 4 (length s))"

definition build_ikm :: "string \<Rightarrow> string \<Rightarrow> string" where
  "build_ikm classical pq = rev (le_enc 4 32) @ classical @ rev (le_enc 4 32) @ pq"

definition encode_context :: "hybrid_context \<Rightarrow> string" where
  "encode_context c =
     be_length (hc_domain c) @ hc_domain c @ hc_transcript c @ be_length (hc_suite c) @ hc_suite c
     @ be_length (hc_sender c) @ hc_sender c @ be_length (hc_receiver c) @ hc_receiver c
     @ be_length (hc_epoch c) @ hc_epoch c"

section \<open>Operations\<close>

definition envelope_seal :: "string \<Rightarrow> hybrid_context \<Rightarrow> hybrid_envelope res" where
  "envelope_seal plain c = Inl (ProductionGate ''HybridEnvelopeAdapter::seal requires receiver_x25519_pk injection'')"

definition envelope_open :: "hybrid_envelope \<Rightarrow> hybrid_context \<Rightarrow> string res" where
  "envelope_open e c =
     rbind (validate_header e) (\<lambda>_.
       if he_epoch e \<noteq> hc_epoch c then Inl (DayEpochStale (he_epoch e) (hc_epoch c))
       else Inl (ProductionGate ''HybridEnvelopeAdapter::open requires receiver private keys injection''))"

section \<open>What the texts bind\<close>

lemma length_be_length [simp]: "length (be_length s) = 4"
  by (simp add: be_length_def)

lemma be_length_inj:
  assumes "be_length a = be_length b" "length a < 2 ^ 32" "length b < 2 ^ 32"
  shows "length a = length b"
proof -
  have e: "le_enc 4 (length a) = le_enc 4 (length b)" using assms(1) by (simp add: be_length_def)
  have "le_dec (le_enc 4 (length a)) = le_dec (le_enc 4 (length b))" by (simp only: e)
  then show ?thesis using assms(2,3) by simp
qed

lemma counted_inj:
  assumes "be_length a @ a @ x = be_length b @ b @ y" "length a < 2 ^ 32" "length b < 2 ^ 32"
  shows "a = b" "x = y"
proof -
  have "be_length a = be_length b" "a @ x = b @ y" using assms(1) by (simp_all add: append_eq_append_conv)
  moreover from this(1) have "length a = length b" by (rule be_length_inj) (use assms in simp_all)
  ultimately show "a = b" "x = y" by simp_all
qed

text \<open>The encoding of a context names the context: two contexts whose texts are shorter than \<open>2 ^ 32\<close> bytes have
  the same encoding only if they are equal.\<close>

definition context_sized :: "hybrid_context \<Rightarrow> bool" where
  "context_sized c =
     (length (hc_transcript c) = 48 \<and> (\<forall>s\<in>{hc_domain c, hc_suite c, hc_sender c, hc_receiver c, hc_epoch c}. length s < 2 ^ 32))"

lemma context_encoding_injective:
  assumes "encode_context a = encode_context b" "context_sized a" "context_sized b"
  shows "a = b"
proof -
  note s = assms(2,3) [unfolded context_sized_def]
  note d = counted_inj [OF assms(1) [unfolded encode_context_def]]
  have dom: "hc_domain a = hc_domain b" by (rule d(1)) (use s in simp_all)
  have rest: "hc_transcript a @ be_length (hc_suite a) @ hc_suite a
     @ be_length (hc_sender a) @ hc_sender a @ be_length (hc_receiver a) @ hc_receiver a @ be_length (hc_epoch a) @ hc_epoch a
   = hc_transcript b @ be_length (hc_suite b) @ hc_suite b
     @ be_length (hc_sender b) @ hc_sender b @ be_length (hc_receiver b) @ hc_receiver b @ be_length (hc_epoch b) @ hc_epoch b"
    by (rule d(2)) (use s in simp_all)
  have tr: "hc_transcript a = hc_transcript b"
    and r1: "be_length (hc_suite a) @ hc_suite a
     @ be_length (hc_sender a) @ hc_sender a @ be_length (hc_receiver a) @ hc_receiver a @ be_length (hc_epoch a) @ hc_epoch a
   = be_length (hc_suite b) @ hc_suite b
     @ be_length (hc_sender b) @ hc_sender b @ be_length (hc_receiver b) @ hc_receiver b @ be_length (hc_epoch b) @ hc_epoch b"
    using rest s by (simp_all add: append_eq_append_conv)
  note su = counted_inj [OF r1]
  have suite: "hc_suite a = hc_suite b" by (rule su(1)) (use s in simp_all)
  note se = counted_inj [OF su(2)]
  have sender: "hc_sender a = hc_sender b" by (rule se(1)) (use s in simp_all)
  note re = counted_inj [OF se(2)]
  have receiver: "hc_receiver a = hc_receiver b" by (rule re(1)) (use s in simp_all)
  have ep: "be_length (hc_epoch a) @ hc_epoch a @ [] = be_length (hc_epoch b) @ hc_epoch b @ []"
    using re(2) s by simp
  have epoch: "hc_epoch a = hc_epoch b" by (rule counted_inj(1) [OF ep]) (use s in simp_all)
  show ?thesis using dom tr suite sender receiver epoch by simp
qed

lemma ikm_injective:
  "build_ikm a b = build_ikm c d \<Longrightarrow> length a = 32 \<Longrightarrow> length c = 32 \<Longrightarrow> a = c \<and> b = d"
  by (simp add: build_ikm_def append_eq_append_conv)

text \<open>No envelope is ever made or opened, whatever its header.\<close>

lemma envelopes_refused: "\<exists>e. envelope_seal p c = Inl e" "\<exists>e. envelope_open v c = Inl e"
  by (auto simp: envelope_seal_def envelope_open_def rbind_def split: sum.splits)

end
