(* ===== verification/Spec2Isabelle.thy ===== *)
theory Spec2Isabelle
  imports PersistedLedger BucketSpec AntiNonce EconomyOps IntentGate Psbt Rotation CivilDate Auth Release Cosign SignPsbt
    Settle ShareStore DkgWire HttpPeer TlsPeer LabSign ConfigEnv Attestation ReshareHook Health Lifecycle
    IdentityDaemon Signer EconomyStore AdminApi Envelope
begin

text \<open>
  A verification development for the Kerosene vault: a node of a mesh of vaults that share a FROST key,
  keep treasury buckets under daily caps, and co-sign Bitcoin settlements.

  \<^bold>\<open>The program and its theories.\<close>  Paths are relative to \<open>src/crates/vault-core/src\<close>.

  \<^item> Shared vocabulary: \<open>Prelude\<close> (Rust integers as words, saturating arithmetic, \<open>Result\<close> as a sum with
    \<open>rbind\<close> for the question mark operator, strings as byte lists, JSON text, ordered maps \<open>btmap\<close>, runs of
    operations, the locales \<open>burn_once\<close> and \<open>vote_box\<close>), \<open>Errors\<close> (\<open>domain/error.rs\<close>), \<open>Hex\<close>, \<open>Durable\<close> (the id
    log replayed at boot, the retrying quorum fan-out), \<open>PrimeField\<close> (the mathematics behind \<open>Threshold\<close>).
  \<^item> Money: \<open>Bucket\<close> (\<open>domain/bucket.rs\<close>: caps, profit split, validation of an intent), \<open>BucketLedger\<close>,
    \<open>PersistedLedger\<close> (\<open>adapters/bucket_memory.rs\<close>: holds, burnt intents, the day's spend, restart), \<open>BucketSpec\<close> (the
    abstract ledger they refine), \<open>Mesh\<close> (\<open>adapters/intent_consume.rs\<close>: the quorum claim of an id),
    \<open>IntentGate\<close> (\<open>application/intent_ops.rs\<close>), \<open>Economy\<close> and \<open>EconomyOps\<close> (\<open>domain/reward.rs\<close>,
    \<open>adapters/economy_memory.rs\<close>, \<open>application/economy_ops.rs\<close>: pools, bounties, miner payouts), \<open>EconomyStore\<close> (the file the economy is written to and read back from).
  \<^item> Governance: \<open>Constitution\<close>, \<open>NodeTier\<close>, \<open>DayEpoch\<close>, \<open>CivilDate\<close> (also the dates of \<open>application/admin.rs\<close>),
    \<open>Quantum\<close>, \<open>Lifecycle\<close> (\<open>application/key_lifecycle.rs\<close>, \<open>share_migration.rs\<close>, \<open>quantum_migration.rs\<close>),
    \<open>Ledger\<close> (\<open>domain/ledger.rs\<close>, \<open>adapters/ledger_memory.rs\<close>, \<open>application/ledger_ops.rs\<close>), \<open>Release\<close>
    (candidates, rebuild attestations, the allowlist and its file), \<open>Rotation\<close>
    (\<open>adapters/daily_rotation.rs\<close>: the vote on the day).
  \<^item> Keys: \<open>DkgWire\<close> (\<open>adapters/dkg_wire.rs\<close>, \<open>dkg_tr_wire.rs\<close>), \<open>ReshareWire\<close> and \<open>ReshareHook\<close>
    (\<open>adapters/reshare_wire.rs\<close>, \<open>frost_reshare.rs\<close>), \<open>ShareStore\<close> (\<open>adapters/share_aead.rs\<close>,
    \<open>share_tee.rs\<close>, the files of a Taproot keyset), \<open>Threshold\<close> and \<open>LabSign\<close> (the toy scheme of the laboratory),
    \<open>LabKeys\<close> (\<open>adapters/dkg_distributed.rs\<close>, \<open>frost_dealer.rs\<close>, \<open>frost_sign.rs\<close>: all participants in one process).
  \<^item> Signing: \<open>AntiNonce\<close> (\<open>adapters/session_persist.rs\<close>), \<open>Psbt\<close> (\<open>domain/psbt_policy.rs\<close>,
    \<open>intent_bind.rs\<close>, \<open>bitcoin_net.rs\<close>), \<open>Cosign\<close> (\<open>adapters/frost_wire_cosign.rs\<close>), \<open>SignPsbt\<close>
    (\<open>adapters/frost_tr_bitcoin.rs\<close>), \<open>Settle\<close> (the settlement endpoints of \<open>adapters/http.rs\<close>).
  \<^item> The edge: \<open>Auth\<close> (\<open>adapters/auth_identity.rs\<close>, \<open>auth_static.rs\<close>, \<open>auth_mtls.rs\<close>, \<open>rate_limit.rs\<close>), \<open>HttpPeer\<close>,
    \<open>TlsPeer\<close>, \<open>Attestation\<close> (\<open>adapters/attestation_sim.rs\<close>, \<open>attestation_tee\<close>), \<open>Health\<close> (directory, probes,
    health and metrics), \<open>Config\<close> and \<open>ConfigEnv\<close> (\<open>bootstrap/config.rs\<close>), \<open>PeerTransports\<close> (how the prepares and
    the day votes are posted to the peers, and the two quorum ledgers over these transports).
  \<^item> One node: \<open>TpmSeal\<close> (\<open>adapters/share_tpm.rs\<close>, \<open>share_tpm_tss.rs\<close>: the sealed passphrase), \<open>HybridSeeds\<close>
    (\<open>adapters/identity_hybrid.rs\<close>), \<open>Envelope\<close> (\<open>adapters/hybrid_envelope.rs\<close>), \<open>Boot\<close> and \<open>BootProps\<close>
    (\<open>bootstrap/wiring.rs\<close>: the whole of \<open>VaultRuntime::build\<close>, from a configuration and what is found on the machine
    to the seated vault, its transports and its keys; the adapters' states are those of the other theories), \<open>AdminApi\<close> (\<open>application/admin.rs\<close>,
    \<open>adapters/admin_api.rs\<close>: the read-only answers of the vault that has booted).
  \<^item> The other crates: \<open>Identity\<close> and \<open>IdentityDaemon\<close> (\<open>vault-identity-core\<close>, \<open>vault-identityd\<close>: hybrid
    node identities, their files and the requests of the daemon's socket), \<open>Signer\<close> (\<open>vault-signer\<close>: the frames and the signing
    handler of the isolated signer).

  A request comes through \<open>Auth\<close> into an endpoint (\<open>Settle\<close>), which asks \<open>IntentGate\<close> to reserve the spend on
  the persisted, mesh-replicated ledger, and \<open>SignPsbt\<close> to sign; that claims a session in \<open>AntiNonce\<close>,
  checks the transaction with \<open>Psbt\<close> and collects shares from peers over \<open>Cosign\<close>, whose \<open>HttpPeer\<close> retries.
  \<open>Rotation\<close> advances the day once a quorum has voted and calls the hook of \<open>ReshareHook\<close>, which writes to
  \<open>Ledger\<close>, pays bounties through \<open>EconomyOps\<close>, and refreshes and stores shares.

  \<^bold>\<open>How the code is read.\<close>  A struct is a record, an enum a datatype, \<open>u32\<close>/\<open>u64\<close> words that wrap where the
  code does and saturate where it calls \<open>saturating_\<close> functions; \<open>usize\<close> is \<open>nat\<close>, or a word where it is cast.  A method on a
  locked structure is a function of the whole state that returns its result beside the new state; the state
  a failing operation leaves behind is part of its definition.  Every error is a constructor of \<open>domain_error\<close> with its text.
  A \<open>HashMap\<close> is a \<open>btmap\<close> or a function, and no definition depends on its order.  Strings are the bytes of UTF-8 text; case
  folding and trimming are those of ASCII.  Text that the code compares or stores is written out.

  \<^bold>\<open>What is a parameter.\<close>  The FROST, Bitcoin, AEAD, TLS, quote and hash libraries are records of functions or
  function arguments (\<open>dkg_crate\<close>, \<open>dealer_crate\<close>, \<open>sign_crate\<close>, \<open>package_crate\<close>, \<open>reshare_crate\<close>, \<open>id_crate\<close>, \<open>signer_crate\<close>, \<open>btc_crate\<close>, \<open>seal_crate\<close>, \<open>sha\<close>, ...), partial where they can fail; a theorem that
  needs a law of theirs states it as a premise, and its witness gives functions with that law.  Clocks, random values, the network's
  answers and the outcome of a write to disk are arguments of the operation that meets them, so a theorem that
  quantifies over them covers all clocks, failures and crashes between operations.

  \<^bold>\<open>What the lemmas show.\<close>  Per component: an invariant and that each operation keeps it (\<open>_ok\<close>, \<open>_inv\<close>), what a
  successful operation implies (\<open>_ok\<close>, \<open>_cases\<close>, \<open>_iff\<close>), and what any operation leaves alone (\<open>_kept\<close>,
  \<open>_mono\<close>).  Four locales state the contracts between components: \<open>burn_once\<close> (an id is won
  at most once over any run; interpreted on the in-memory ledger, the persisted one and the laboratory's
  sessions), \<open>prepare_port\<close> (what the mesh needs of a node's prepare; on intents and signing sessions),
  \<open>vote_box\<close> (a tally counts voters; on epoch proposals and day votes) and \<open>checked_port\<close> (a ledger
  grants only what its validator accepted; on the quorum port).  The mesh and the sessions of reshares are step relations with
  invariants by rule induction; \<open>BucketSpec\<close> is a refinement; \<open>Threshold\<close> shows that any quorum of shares
  interpolates the secret.  Lemmas whose names say that something fails are the behaviour of the code as it is.

  \<^bold>\<open>Bounds.\<close>  No definition uses fuel.  Loops over input are structural recursions; \<open>mod_pow_loop\<close>, \<open>strip_any\<close>, \<open>dec\<close> and \<open>hex_num\<close>
  decrease a measure; a retry loop is bounded by its number of attempts; runs of operations are arbitrary
  finite lists.  The signing count of a constitution, ports and quorums range over their whole Rust types.

  \<^bold>\<open>Not modelled.\<close>  The binary's entry point (\<open>src/main.rs\<close>); the sockets and routing of \<open>adapters/http.rs\<close> outside the
  endpoints named above, and the sockets the administration is served on; of the boot, its log lines and the use cases
  that only hold references; the sockets and command lines of \<open>vault-identityd\<close> and \<open>vault-signer\<close>.  Hardware
  TPM and TEE devices are outcomes of the operations that ask them.
\<close>

end
